(* ===== verification/Prelude.thy ===== *)
theory Prelude
  imports Main "HOL-Library.AList" "HOL-Library.Multiset" "HOL-Library.Char_ord"
    "HOL-Library.List_Lexorder"
begin

text \<open>
  Shared vocabulary of the development: the names of the model's basic types, the status
  values of a unified job, Python's dictionary and truth-value conventions, and the generic
  lemmas on lists, maps and folds that the component theories rely on.

  Conventions. Primary keys are \<^typ>\<open>nat\<close>. A Python \<open>dict\<close> whose iteration order matters is an
  association list updated by \<open>AList.update\<close>, which replaces a present key in place and appends a
  new one at the end, as Python does. A dictionary that is only looked up is a partial map. Text
  is \<^typ>\<open>string\<close>; the text handled by the modelled code is ASCII. Log output is not modelled.
\<close>

section \<open>Basic types\<close>

type_synonym pk = nat
type_synonym hostname = string

text \<open>
  \<open>UnifiedJobTemplate.JOB_STATUS_CHOICES\<close>: the status a unified job can have.
\<close>

datatype job_status =
  New | Pending | Waiting | Running | Successful | Failed | Errored | Canceled

named_theorems cap_simps \<open>capacity accounting of the task manager\<close>
named_theorems gate_simps \<open>launch gates: policies, scanners, quotas\<close>

section \<open>Dictionaries\<close>

definition dict_get :: "('k \<times> 'v) list \<Rightarrow> 'k \<Rightarrow> 'v \<Rightarrow> 'v" where
  "dict_get d k dflt = (case map_of d k of None \<Rightarrow> dflt | Some v \<Rightarrow> v)"

lemma map_of_AList_update [simp]:
  "map_of (AList.update k v d) k' = (if k' = k then Some v else map_of d k')"
  by (simp add: update_conv')

lemma fst_set_AList_update: "fst ` set (AList.update k v d) = insert k (fst ` set d)"
  by (metis dom_map_of_conv_image_fst dom_fun_upd option.distinct(1) update_conv')

lemma map_option_idI: "(\<And>x. f x = x) \<Longrightarrow> map_option f m = m"
  by (cases m) simp_all

section \<open>Text\<close>

text \<open>A natural number in decimal, as \<open>str\<close> or \<open>%s\<close> renders it.\<close>

fun nat_str :: "nat \<Rightarrow> string" where
  "nat_str n = (if n < 10 then [char_of (48 + n)] else nat_str (n div 10) @ [char_of (48 + n mod 10)])"

declare nat_str.simps [simp del]

definition int_str :: "int \<Rightarrow> string" where
  "int_str k = (if k < 0 then ''-'' @ nat_str (nat (- k)) else nat_str (nat k))"

text \<open>\<open>sep.join(parts)\<close>.\<close>

fun join_with :: "string \<Rightarrow> string list \<Rightarrow> string" where
  "join_with sep [] = []"
| "join_with sep [p] = p"
| "join_with sep (p # q # ps) = p @ sep @ join_with sep (q # ps)"

section \<open>Lists\<close>

text \<open>A first element of maximal key, as a loop that replaces its candidate on a strict gain.\<close>

definition keep_max :: "('a \<Rightarrow> int) \<Rightarrow> 'a \<Rightarrow> 'a option \<Rightarrow> 'a option" where
  "keep_max f x b = (case b of None \<Rightarrow> Some x | Some y \<Rightarrow> if f x > f y then Some x else b)"

definition first_max :: "('a \<Rightarrow> int) \<Rightarrow> 'a list \<Rightarrow> 'a option" where
  "first_max f xs = fold (keep_max f) xs None"

lemma keep_max_simps:
  "keep_max f x None = Some x" "keep_max f x (Some y) = (if f x > f y then Some x else Some y)"
  by (simp_all add: keep_max_def)

lemma fold_keep_max_Some:
  "\<exists>x. fold (keep_max f) xs (Some b) = Some x \<and> f b \<le> f x \<and> (\<forall>y \<in> set xs. f y \<le> f x) \<and>
     (x = b \<or> (\<exists>ys zs. xs = ys @ x # zs \<and> f b < f x \<and> (\<forall>y \<in> set ys. f y < f x)))"
proof (induction xs arbitrary: b)
  case (Cons a xs)
  show ?case
  proof (cases "f a > f b")
    case True
    from Cons [of a] obtain x where x: "fold (keep_max f) xs (Some a) = Some x" "f a \<le> f x"
      "\<forall>y \<in> set xs. f y \<le> f x"
      and o: "x = a \<or> (\<exists>ys zs. xs = ys @ x # zs \<and> f a < f x \<and> (\<forall>y \<in> set ys. f y < f x))" by blast
    have "\<exists>ys zs. a # xs = ys @ x # zs \<and> f b < f x \<and> (\<forall>y \<in> set ys. f y < f x)"
      using o
    proof
      assume "x = a"
      then show ?thesis using True by (intro exI [of _ "[]"] exI [of _ xs]) simp
    next
      assume "\<exists>ys zs. xs = ys @ x # zs \<and> f a < f x \<and> (\<forall>y \<in> set ys. f y < f x)"
      then obtain ys zs where "xs = ys @ x # zs" "f a < f x" "\<forall>y \<in> set ys. f y < f x" by blast
      then show ?thesis using True by (intro exI [of _ "a # ys"] exI [of _ zs]) simp
    qed
    with x True show ?thesis by (intro exI [of _ x] conjI disjI2) (auto simp: keep_max_simps)
  next
    case False
    from Cons [of b] obtain x where x: "fold (keep_max f) xs (Some b) = Some x" "f b \<le> f x"
      "\<forall>y \<in> set xs. f y \<le> f x"
      and o: "x = b \<or> (\<exists>ys zs. xs = ys @ x # zs \<and> f b < f x \<and> (\<forall>y \<in> set ys. f y < f x))" by blast
    have "x = b \<or> (\<exists>ys zs. a # xs = ys @ x # zs \<and> f b < f x \<and> (\<forall>y \<in> set ys. f y < f x))"
      using o
    proof
      assume "\<exists>ys zs. xs = ys @ x # zs \<and> f b < f x \<and> (\<forall>y \<in> set ys. f y < f x)"
      then obtain ys zs where "xs = ys @ x # zs" "f b < f x" "\<forall>y \<in> set ys. f y < f x" by blast
      then show ?thesis using False by (intro disjI2 exI [of _ "a # ys"] exI [of _ zs]) simp
    qed simp
    with x False show ?thesis by (intro exI [of _ x] conjI) (auto simp: keep_max_simps)
  qed
qed simp

lemma first_max_None: "first_max f xs = None \<longleftrightarrow> xs = []"
proof (cases xs)
  case (Cons a as)
  then show ?thesis using fold_keep_max_Some [of f as a] by (auto simp: first_max_def keep_max_simps)
qed (simp add: first_max_def)

lemma first_max_Some:
  assumes "first_max f xs = Some x"
  obtains ys zs where "xs = ys @ x # zs" "\<forall>y \<in> set ys. f y < f x" "\<forall>z \<in> set zs. f z \<le> f x"
proof (cases xs)
  case Nil
  with assms show ?thesis by (simp add: first_max_def)
next
  case (Cons a as)
  with assms have r: "fold (keep_max f) as (Some a) = Some x" by (simp add: first_max_def keep_max_simps)
  from fold_keep_max_Some [of f as a] r have m: "\<forall>y \<in> set as. f y \<le> f x"
    and o: "x = a \<or> (\<exists>ys zs. as = ys @ x # zs \<and> f a < f x \<and> (\<forall>y \<in> set ys. f y < f x))" by auto
  from o show ?thesis
  proof
    assume "x = a"
    with Cons m show ?thesis by (intro that [of "[]" as]) auto
  next
    assume "\<exists>ys zs. as = ys @ x # zs \<and> f a < f x \<and> (\<forall>y \<in> set ys. f y < f x)"
    then obtain ys zs where "as = ys @ x # zs" "f a < f x" "\<forall>y \<in> set ys. f y < f x" by blast
    with Cons m show ?thesis by (intro that [of "a # ys" zs]) auto
  qed
qed

lemma first_max_greatest: "first_max f xs = Some x \<Longrightarrow> x \<in> set xs \<and> (\<forall>y \<in> set xs. f y \<le> f x)"
  by (elim first_max_Some) (auto intro: less_imp_le)

lemma sum_list_map_mono:
  fixes f g :: "'a \<Rightarrow> 'b::ordered_ab_semigroup_monoid_add_imp_le"
  assumes "\<And>x. x \<in> set xs \<Longrightarrow> f x \<le> g x"
  shows "sum_list (map f xs) \<le> sum_list (map g xs)"
  using assms by (induction xs) (auto intro: add_mono)

lemma filter_filter_conj: "filter P (filter Q xs) = filter (\<lambda>x. Q x \<and> P x) xs"
  by (induction xs) auto

lemma filter_same_length: "length (filter P xs) = length xs \<Longrightarrow> filter P xs = xs"
proof (induction xs)
  case (Cons x xs)
  have "length (filter P xs) \<noteq> Suc (length xs)" using length_filter_le [of P xs] by linarith
  with Cons show ?case by (auto split: if_splits)
qed simp

lemma finite_set_lt [simp]: "finite {i. i < (n::nat) \<and> P i}"
  by (rule finite_subset [of _ "{..<n}"]) auto

lemma sorted_wrt_appendD: "sorted_wrt R (xs @ ys) \<Longrightarrow> x \<in> set xs \<Longrightarrow> y \<in> set ys \<Longrightarrow> R x y"
  by (simp add: sorted_wrt_append)

section \<open>Results\<close>

text \<open>Sequences of steps that may raise: the first error ends the run.\<close>

definition and_then :: "'e + 'a \<Rightarrow> ('a \<Rightarrow> 'e + 'b) \<Rightarrow> 'e + 'b" where
  "and_then r f = (case r of Inl e \<Rightarrow> Inl e | Inr x \<Rightarrow> f x)"

lemma and_then_simps [simp]: "and_then (Inl e) f = Inl e" "and_then (Inr x) f = f x"
  by (simp_all add: and_then_def)

fun each :: "('a \<Rightarrow> 'e + 'b) \<Rightarrow> 'a list \<Rightarrow> 'e + 'b list" where
  "each f [] = Inr []"
| "each f (x # xs) = and_then (f x) (\<lambda>y. and_then (each f xs) (\<lambda>ys. Inr (y # ys)))"

fun steps :: "('i \<Rightarrow> 's \<Rightarrow> 'e + 's) \<Rightarrow> 'i list \<Rightarrow> 's \<Rightarrow> 'e + 's" where
  "steps f [] s = Inr s"
| "steps f (i # is) s = and_then (f i s) (steps f is)"

lemma each_reads:
  assumes "\<And>x. x \<in> set xs \<Longrightarrow> \<exists>y. f x = Inr y \<and> g y = h x"
  shows "\<exists>ys. each f xs = Inr ys \<and> map g ys = map h xs"
  using assms
proof (induction xs)
  case (Cons x xs)
  from Cons.prems [of x] obtain y where y: "f x = Inr y" "g y = h x" by auto
  from Cons obtain ys where ys: "each f xs = Inr ys" "map g ys = map h xs" by auto
  show ?case by (intro exI [of _ "y # ys"]) (simp add: y ys)
qed simp

section \<open>Folds that may only restrict a verdict\<close>

text \<open>
  Several components run a list of checks over a result whose \<open>allowed\<close> flag starts at
  \<open>True\<close> and is only ever cleared. The interface names the step, the flag it may clear and the
  condition under which one item clears it. Its clients are the policy evaluator and the
  scanner runner.
\<close>

locale verdict_fold =
  fixes step :: "'i \<Rightarrow> 'r \<Rightarrow> 'r"
    and permitted :: "'r \<Rightarrow> bool"
    and refuses :: "'i \<Rightarrow> bool"
  assumes permitted_step: "permitted (step i r) \<longleftrightarrow> permitted r \<and> \<not> refuses i"
begin

lemma permitted_fold:
  "permitted (fold step is r) \<longleftrightarrow> permitted r \<and> (\<forall>i \<in> set is. \<not> refuses i)"
  by (induction "is" arbitrary: r) (auto simp: permitted_step)

lemma refused_stays_refused: "\<not> permitted r \<Longrightarrow> \<not> permitted (fold step is r)"
  by (simp add: permitted_fold)

lemma permitted_fold_append:
  "permitted (fold step (is @ js) r) \<longleftrightarrow>
     permitted (fold step is r) \<and> (\<forall>j \<in> set js. \<not> refuses j)"
  by (auto simp: permitted_fold)

end

end
