(* ===== verification/Dag_Simple.thy ===== *)
theory Dag_Simple
  imports Prelude
begin

text \<open>
  The graph under a workflow: \<open>SimpleDAG\<close> of \<open>forail/main/scheduler/dag_simple.py\<close>.

  A graph stores its node objects in insertion order, an index from object to position, the
  positions that have no incoming edge, and two edge indices (parent to children and child to
  parents) keyed first by edge label and then by position. Node objects are hashed and compared
  by primary key in the source, so the model is polymorphic in a type of keys. The
  \<open>metadata\<close> entry of a node, which no caller supplies, is left out; an entry of
  \<open>self.nodes\<close> is then the node object itself. \<open>self.root_nodes\<close> is a set of small dense
  integers that the code iterates in increasing order; it is kept here as a list in that order.
\<close>

section \<open>State\<close>

type_synonym label = string
type_synonym edge_index = "(label \<times> (nat \<Rightarrow> nat list option)) list"

record 'a dag =
  nodes :: "'a list"
  root_nodes :: "nat list"
  node_obj_to_node_index :: "'a \<Rightarrow> nat option"
  node_from_edges_by_label :: edge_index
  node_to_edges_by_label :: edge_index

definition empty_dag :: "'a dag" where
  "empty_dag = \<lparr>nodes = [], root_nodes = [], node_obj_to_node_index = Map.empty,
     node_from_edges_by_label = [], node_to_edges_by_label = []\<rparr>"

datatype dag_error =
    BothNotFound
  | FromNotFound
  | ToNotFound

section \<open>Operations\<close>

definition find_ord :: "'a dag \<Rightarrow> 'a \<Rightarrow> nat option" where
  "find_ord d obj = node_obj_to_node_index d obj"

definition add_node :: "'a \<Rightarrow> 'a dag \<Rightarrow> 'a dag" where
  "add_node obj d =
     (if find_ord d obj = None then
        (let node_index = length (nodes d)
         in d\<lparr>root_nodes := root_nodes d @ [node_index],
              node_obj_to_node_index := (node_obj_to_node_index d)(obj \<mapsto> node_index),
              nodes := nodes d @ [obj]\<rparr>)
      else d)"

text \<open>\<open>index.get(label, {}).get(i, [])\<close>.\<close>

definition edges_at :: "edge_index \<Rightarrow> label \<Rightarrow> nat \<Rightarrow> nat list" where
  "edges_at m lab i =
     (case map_of m lab of None \<Rightarrow> []
      | Some e \<Rightarrow> (case e i of None \<Rightarrow> [] | Some js \<Rightarrow> js))"

text \<open>\<open>index.setdefault(label, dict()).setdefault(i, [])\<close> and the \<open>append\<close> that follows.\<close>

definition append_edge :: "edge_index \<Rightarrow> label \<Rightarrow> nat \<Rightarrow> nat \<Rightarrow> edge_index" where
  "append_edge m lab i j =
     (let e = (case map_of m lab of None \<Rightarrow> Map.empty | Some e \<Rightarrow> e)
      in AList.update lab (e(i \<mapsto> edges_at m lab i @ [j])) m)"

text \<open>
  The target is taken off the roots before the lookups are checked, so a failing call still
  changes the roots; the result is the state together with the exception, if any.
\<close>

definition add_edge :: "'a \<Rightarrow> 'a \<Rightarrow> label \<Rightarrow> 'a dag \<Rightarrow> dag_error option \<times> 'a dag" where
  "add_edge from_obj to_obj lab d0 =
     (let from_ord = find_ord d0 from_obj;
          to_ord = find_ord d0 to_obj;
          d = (case to_ord of None \<Rightarrow> d0
               | Some j \<Rightarrow> d0\<lparr>root_nodes := filter (\<lambda>r. r \<noteq> j) (root_nodes d0)\<rparr>)
      in case (from_ord, to_ord) of
           (None, None) \<Rightarrow> (Some BothNotFound, d)
         | (None, Some j) \<Rightarrow> (Some FromNotFound, d)
         | (Some i, None) \<Rightarrow> (Some ToNotFound, d)
         | (Some i, Some j) \<Rightarrow>
             (None,
              d\<lparr>node_from_edges_by_label := append_edge (node_from_edges_by_label d) lab i j,
                node_to_edges_by_label := append_edge (node_to_edges_by_label d) lab j i\<rparr>))"

definition get_children_by_label :: "'a dag \<Rightarrow> nat option \<Rightarrow> label \<Rightarrow> 'a list" where
  "get_children_by_label d i lab =
     (case i of None \<Rightarrow> []
      | Some k \<Rightarrow> map (\<lambda>j. nodes d ! j) (edges_at (node_from_edges_by_label d) lab k))"

definition get_children :: "'a dag \<Rightarrow> 'a \<Rightarrow> label option \<Rightarrow> 'a list" where
  "get_children d obj lab =
     (let this_ord = find_ord d obj
      in if lab \<noteq> None \<and> lab \<noteq> Some [] then get_children_by_label d this_ord (the lab)
         else concat (map (\<lambda>(l, _). get_children_by_label d this_ord l)
                          (node_from_edges_by_label d)))"

definition get_parents_by_label :: "'a dag \<Rightarrow> nat option \<Rightarrow> label \<Rightarrow> 'a list" where
  "get_parents_by_label d i lab =
     (case i of None \<Rightarrow> []
      | Some k \<Rightarrow> map (\<lambda>j. nodes d ! j) (edges_at (node_to_edges_by_label d) lab k))"

definition get_parents :: "'a dag \<Rightarrow> 'a \<Rightarrow> label option \<Rightarrow> 'a list" where
  "get_parents d obj lab =
     (let this_ord = find_ord d obj
      in if lab \<noteq> None \<and> lab \<noteq> Some [] then get_parents_by_label d this_ord (the lab)
         else concat (map (\<lambda>(l, _). get_parents_by_label d this_ord l)
                          (node_to_edges_by_label d)))"

definition get_root_nodes :: "'a dag \<Rightarrow> 'a list" where
  "get_root_nodes d = map (\<lambda>i. nodes d ! i) (root_nodes d)"

text \<open>
  The cycle search. Python's stack grows at the end of its list; the model's stack has its top
  at the head, so an \<open>extend\<close> puts the reversed children in front. The loop has no syntactic
  bound, so its value is an option and \<open>None\<close> means that it does not return.
\<close>

partial_function (option) cycle_loop ::
  "('a \<Rightarrow> 'a list) \<Rightarrow> 'a list \<Rightarrow> 'a set \<Rightarrow> 'a set \<Rightarrow> bool option" where
  "cycle_loop children stack visited path =
     (case stack of
        [] \<Rightarrow> Some False
      | node_obj # rest \<Rightarrow>
          (let to_add = filter (\<lambda>c. c \<notin> visited) (children node_obj)
           in if to_add \<noteq> [] then
                (if node_obj \<in> path then Some True
                 else cycle_loop children (rev to_add @ node_obj # rest) visited
                        (insert node_obj path))
              else cycle_loop children rest (insert node_obj visited) (path - {node_obj})))"

definition has_cycle :: "'a dag \<Rightarrow> bool option" where
  "has_cycle d =
     (let node_objs = get_root_nodes d
      in if nodes d \<noteq> [] \<and> node_objs = [] then Some True
         else cycle_loop (\<lambda>obj. get_children d obj None) (rev node_objs) {} {})"

text \<open>
  The topological sort. \<open>visit\<close> recurses without a cycle check; the first argument is the
  number of stack frames left, and \<open>None\<close> is Python's \<open>RecursionError\<close>. The deque is a list
  and \<open>appendleft\<close> is cons.
\<close>

fun visit :: "nat \<Rightarrow> 'a dag \<Rightarrow> 'a \<Rightarrow> 'a set \<times> 'a list \<Rightarrow> ('a set \<times> 'a list) option"
  and visit_children ::
    "nat \<Rightarrow> 'a dag \<Rightarrow> 'a list \<Rightarrow> 'a set \<times> 'a list \<Rightarrow> ('a set \<times> 'a list) option" where
  "visit 0 d obj st = None"
| "visit (Suc frames) d obj st =
     (if obj \<in> fst st then Some st
      else (case visit_children frames d (get_children d obj None) st of
              None \<Rightarrow> None
            | Some (processed, nodes_sorted) \<Rightarrow>
                Some (insert obj processed, obj # nodes_sorted)))"
| "visit_children frames d [] st = Some st"
| "visit_children frames d (c # cs) st =
     (case visit frames d c st of None \<Rightarrow> None | Some st' \<Rightarrow> visit_children frames d cs st')"

fun sort_loop :: "nat \<Rightarrow> 'a dag \<Rightarrow> 'a list \<Rightarrow> 'a set \<times> 'a list \<Rightarrow> ('a set \<times> 'a list) option" where
  "sort_loop frames d [] st = Some st"
| "sort_loop frames d (n # ns) st =
     (if n \<in> fst st then sort_loop frames d ns st
      else (case visit frames d n st of None \<Rightarrow> None | Some st' \<Rightarrow> sort_loop frames d ns st'))"

definition sort_nodes_topological :: "nat \<Rightarrow> 'a dag \<Rightarrow> 'a list option" where
  "sort_nodes_topological frames d = map_option snd (sort_loop frames d (nodes d) ({}, []))"


section \<open>The index invariant\<close>

text \<open>
  What every graph built by \<open>add_node\<close> and successful \<open>add_edge\<close> calls satisfies: the
  object index is the inverse of the node list, positions stored in the edge indices are in
  range, the two edge indices are each other's converse, and the roots are the positions without
  an incoming edge, in increasing order.
\<close>

definition dag_inv :: "'a dag \<Rightarrow> bool" where
  "dag_inv d \<longleftrightarrow>
     distinct (nodes d) \<and>
     (\<forall>obj i. find_ord d obj = Some i \<longleftrightarrow> i < length (nodes d) \<and> nodes d ! i = obj) \<and>
     distinct (map fst (node_from_edges_by_label d)) \<and>
     distinct (map fst (node_to_edges_by_label d)) \<and>
     [] \<notin> fst ` set (node_from_edges_by_label d) \<and>
     (\<forall>l i j. j \<in> set (edges_at (node_from_edges_by_label d) l i) \<longrightarrow>
        i < length (nodes d) \<and> j < length (nodes d)) \<and>
     (\<forall>l i j. j \<in> set (edges_at (node_from_edges_by_label d) l i) \<longleftrightarrow>
        i \<in> set (edges_at (node_to_edges_by_label d) l j)) \<and>
     root_nodes d = filter (\<lambda>j. \<forall>l. edges_at (node_to_edges_by_label d) l j = []) [0..<length (nodes d)]"

lemma edges_at_append_edge:
  "edges_at (append_edge m lab i j) l k =
     (if l = lab \<and> k = i then edges_at m lab i @ [j] else edges_at m l k)"
  by (auto simp: edges_at_def append_edge_def Let_def split: option.splits)

lemma edges_at_Nil [simp]: "edges_at [] l i = []"
  by (simp add: edges_at_def)

lemma edges_at_label: "js = edges_at m l i \<Longrightarrow> j \<in> set js \<Longrightarrow> l \<in> fst ` set m"
  by (auto simp: edges_at_def split: option.splits dest: map_of_SomeD intro: rev_image_eqI)

lemma fst_append_edge: "fst ` set (append_edge m lab i j) = insert lab (fst ` set m)"
  by (simp add: append_edge_def Let_def fst_set_AList_update)

lemma distinct_append_edge:
  "distinct (map fst m) \<Longrightarrow> distinct (map fst (append_edge m lab i j))"
  by (simp add: append_edge_def Let_def distinct_update)

lemma dag_inv_ord: "dag_inv d \<Longrightarrow> find_ord d obj = Some i \<longleftrightarrow> i < length (nodes d) \<and> nodes d ! i = obj"
  by (simp add: dag_inv_def)

lemma dag_inv_ord_None: "dag_inv d \<Longrightarrow> find_ord d obj = None \<longleftrightarrow> obj \<notin> set (nodes d)"
  by (metis dag_inv_ord in_set_conv_nth not_None_eq)

lemma dag_inv_distinct: "dag_inv d \<Longrightarrow> distinct (nodes d)"
  by (simp add: dag_inv_def)

lemma dag_inv_range:
  "dag_inv d \<Longrightarrow> j \<in> set (edges_at (node_from_edges_by_label d) l i) \<Longrightarrow>
     i < length (nodes d) \<and> j < length (nodes d)"
  by (auto simp: dag_inv_def)

lemma dag_inv_dual:
  "dag_inv d \<Longrightarrow> j \<in> set (edges_at (node_from_edges_by_label d) l i) \<longleftrightarrow>
     i \<in> set (edges_at (node_to_edges_by_label d) l j)"
  by (simp add: dag_inv_def)

lemma dag_inv_roots:
  "dag_inv d \<Longrightarrow> root_nodes d =
     filter (\<lambda>j. \<forall>l. edges_at (node_to_edges_by_label d) l j = []) [0..<length (nodes d)]"
  by (simp add: dag_inv_def)

lemma dag_inv_empty: "dag_inv empty_dag"
  by (simp add: dag_inv_def empty_dag_def find_ord_def)

lemma to_edges_fresh:
  assumes "dag_inv d" "length (nodes d) \<le> j"
  shows "edges_at (node_to_edges_by_label d) l j = []"
proof (rule ccontr)
  assume "edges_at (node_to_edges_by_label d) l j \<noteq> []"
  then obtain i where "i \<in> set (edges_at (node_to_edges_by_label d) l j)"
    by (meson last_in_set)
  then have "j < length (nodes d)"
    using assms(1) dag_inv_dual dag_inv_range by blast
  with assms(2) show False by simp
qed

lemma dag_inv_add_node:
  assumes inv: "dag_inv d"
  shows "dag_inv (add_node obj d)"
proof (cases "find_ord d obj")
  case (Some i)
  then show ?thesis using inv by (simp add: add_node_def)
next
  case None
  let ?n = "length (nodes d)"
  have new: "obj \<notin> set (nodes d)" using None inv by (simp add: dag_inv_ord_None)
  have ord: "find_ord (add_node obj d) x = Some i \<longleftrightarrow>
      i < length (nodes (add_node obj d)) \<and> nodes (add_node obj d) ! i = x" for x i
    using None new dag_inv_ord [OF inv, of x i]
    by (auto simp: add_node_def Let_def find_ord_def nth_append less_Suc_eq)
  show ?thesis
    unfolding dag_inv_def using ord
    using None new inv to_edges_fresh [OF inv, of ?n]
    by (auto simp: dag_inv_def add_node_def Let_def less_Suc_eq)
qed

lemma add_edge_Some:
  assumes inv: "dag_inv d" and u: "find_ord d u = Some i" and v: "find_ord d v = Some j"
  shows "add_edge u v lab d = (None,
     d\<lparr>root_nodes := filter (\<lambda>r. r \<noteq> j) (root_nodes d),
       node_from_edges_by_label := append_edge (node_from_edges_by_label d) lab i j,
       node_to_edges_by_label := append_edge (node_to_edges_by_label d) lab j i\<rparr>)"
  using u v by (simp add: add_edge_def Let_def)

lemma dag_inv_add_edge:
  assumes inv: "dag_inv d" and e: "add_edge u v lab d = (None, d')" and lab: "lab \<noteq> []"
  shows "dag_inv d'"
proof -
  from e obtain i j where u: "find_ord d u = Some i" and v: "find_ord d v = Some j"
    by (auto simp: add_edge_def Let_def split: option.splits prod.splits)
  have d': "d' = d\<lparr>root_nodes := filter (\<lambda>r. r \<noteq> j) (root_nodes d),
       node_from_edges_by_label := append_edge (node_from_edges_by_label d) lab i j,
       node_to_edges_by_label := append_edge (node_to_edges_by_label d) lab j i\<rparr>"
    using e add_edge_Some [OF inv u v, of lab] by simp
  have ij: "i < length (nodes d)" "j < length (nodes d)"
    using u v inv by (auto simp: dag_inv_ord)
  have roots: "root_nodes d' =
      filter (\<lambda>k. \<forall>l. edges_at (node_to_edges_by_label d') l k = []) [0..<length (nodes d')]"
    by (auto simp: d' dag_inv_roots [OF inv] filter_filter_conj edges_at_append_edge intro!: filter_cong)
  have range: "i' < length (nodes d') \<and> j' < length (nodes d')"
    if "j' \<in> set (edges_at (node_from_edges_by_label d') l i')" for l i' j'
    using that ij dag_inv_range [OF inv] by (auto simp: d' edges_at_append_edge split: if_splits)
  have dual: "j' \<in> set (edges_at (node_from_edges_by_label d') l i') \<longleftrightarrow>
      i' \<in> set (edges_at (node_to_edges_by_label d') l j')" for l i' j'
    using dag_inv_dual [OF inv] by (auto simp: d' edges_at_append_edge)
  show ?thesis
    unfolding dag_inv_def
  proof (intro conjI allI impI)
    show "find_ord d' obj = Some k \<longleftrightarrow> k < length (nodes d') \<and> nodes d' ! k = obj" for obj k
      using dag_inv_ord [OF inv, of obj k] by (simp add: d' find_ord_def)
  qed (use inv lab roots range dual in
      \<open>auto simp: dag_inv_def d' distinct_append_edge fst_append_edge\<close>)
qed

text \<open>A failing \<open>add_edge\<close> adds no edge and no node.\<close>

lemma add_edge_error:
  "add_edge u v lab d = (Some e, d') \<Longrightarrow>
     nodes d' = nodes d \<and> node_from_edges_by_label d' = node_from_edges_by_label d \<and>
     node_to_edges_by_label d' = node_to_edges_by_label d \<and>
     (find_ord d u = None \<or> find_ord d v = None)"
  by (auto simp: add_edge_def Let_def split: option.splits prod.splits)

section \<open>Children and parents\<close>

lemma children_label_Some:
  "l \<noteq> [] \<Longrightarrow> find_ord d u = Some i \<Longrightarrow>
     get_children d u (Some l) = map (\<lambda>j. nodes d ! j) (edges_at (node_from_edges_by_label d) l i)"
  by (simp add: get_children_def get_children_by_label_def)

lemma parents_label_Some:
  "l \<noteq> [] \<Longrightarrow> find_ord d v = Some j \<Longrightarrow>
     get_parents d v (Some l) = map (\<lambda>i. nodes d ! i) (edges_at (node_to_edges_by_label d) l j)"
  by (simp add: get_parents_def get_parents_by_label_def)

lemma children_label_None:
  "find_ord d u = None \<Longrightarrow> get_children d u lab = []"
  by (auto simp: get_children_def get_children_by_label_def)

lemma parents_label_None:
  "find_ord d v = None \<Longrightarrow> get_parents d v lab = []"
  by (auto simp: get_parents_def get_parents_by_label_def)

lemma mem_map_nodes:
  assumes inv: "dag_inv d" and js: "\<And>j. j \<in> set js \<Longrightarrow> j < length (nodes d)"
  shows "v \<in> set (map (\<lambda>j. nodes d ! j) js) \<longleftrightarrow> (\<exists>j. find_ord d v = Some j \<and> j \<in> set js)"
  using js dag_inv_ord [OF inv] by auto

lemma children_label_iff:
  assumes inv: "dag_inv d" and l: "l \<noteq> []"
  shows "v \<in> set (get_children d u (Some l)) \<longleftrightarrow>
     (\<exists>i j. find_ord d u = Some i \<and> find_ord d v = Some j \<and>
        j \<in> set (edges_at (node_from_edges_by_label d) l i))"
proof (cases "find_ord d u")
  case None
  then show ?thesis by (simp add: children_label_None)
next
  case (Some i)
  then show ?thesis
    using mem_map_nodes [OF inv, of "edges_at (node_from_edges_by_label d) l i" v]
      dag_inv_range [OF inv] by (simp add: children_label_Some [OF l Some])
qed

lemma parents_label_iff:
  assumes inv: "dag_inv d" and l: "l \<noteq> []"
  shows "u \<in> set (get_parents d v (Some l)) \<longleftrightarrow>
     (\<exists>i j. find_ord d u = Some i \<and> find_ord d v = Some j \<and>
        i \<in> set (edges_at (node_to_edges_by_label d) l j))"
proof (cases "find_ord d v")
  case None
  then show ?thesis by (simp add: parents_label_None)
next
  case (Some j)
  then show ?thesis
    using mem_map_nodes [OF inv, of "edges_at (node_to_edges_by_label d) l j" u]
      dag_inv_range [OF inv] dag_inv_dual [OF inv] by (simp add: parents_label_Some [OF l Some])
qed

lemma dag_inv_labels:
  assumes inv: "dag_inv d"
  shows "l \<in> fst ` set (node_from_edges_by_label d) \<Longrightarrow> l \<noteq> []"
  using inv unfolding dag_inv_def by metis

lemma children_any_iff:
  assumes inv: "dag_inv d"
  shows "v \<in> set (get_children d u None) \<longleftrightarrow> (\<exists>l. l \<noteq> [] \<and> v \<in> set (get_children d u (Some l)))"
proof
  assume "v \<in> set (get_children d u None)"
  then obtain l where l: "l \<in> fst ` set (node_from_edges_by_label d)"
    and v: "v \<in> set (get_children_by_label d (find_ord d u) l)"
    by (force simp: get_children_def Let_def)
  with dag_inv_labels [OF inv l] have "l \<noteq> [] \<and> v \<in> set (get_children d u (Some l))"
    by (simp add: get_children_def)
  then show "\<exists>l. l \<noteq> [] \<and> v \<in> set (get_children d u (Some l))" by blast
next
  assume "\<exists>l. l \<noteq> [] \<and> v \<in> set (get_children d u (Some l))"
  then obtain l where l: "l \<noteq> []" and v: "v \<in> set (get_children d u (Some l))" by blast
  then obtain i j where "j \<in> set (edges_at (node_from_edges_by_label d) l i)"
    using children_label_iff [OF inv l] by blast
  then have "l \<in> fst ` set (node_from_edges_by_label d)"
    by (rule edges_at_label [OF refl])
  with v l show "v \<in> set (get_children d u None)"
    by (force simp: get_children_def Let_def)
qed

lemma parents_any_iff:
  assumes inv: "dag_inv d"
  shows "u \<in> set (get_parents d v None) \<longleftrightarrow> (\<exists>l. l \<noteq> [] \<and> u \<in> set (get_parents d v (Some l)))"
proof
  assume "u \<in> set (get_parents d v None)"
  then obtain l where u: "u \<in> set (get_parents_by_label d (find_ord d v) l)"
    by (force simp: get_parents_def Let_def)
  then obtain i j where "i \<in> set (edges_at (node_to_edges_by_label d) l j)"
    by (auto simp: get_parents_by_label_def split: option.splits)
  then have "j \<in> set (edges_at (node_from_edges_by_label d) l i)"
    by (simp add: dag_inv_dual [OF inv])
  then have "l \<in> fst ` set (node_from_edges_by_label d)"
    by (rule edges_at_label [OF refl])
  then have "l \<noteq> []" by (rule dag_inv_labels [OF inv])
  with u have "u \<in> set (get_parents d v (Some l))" by (simp add: get_parents_def)
  with \<open>l \<noteq> []\<close> show "\<exists>l. l \<noteq> [] \<and> u \<in> set (get_parents d v (Some l))" by blast
next
  assume "\<exists>l. l \<noteq> [] \<and> u \<in> set (get_parents d v (Some l))"
  then obtain l where l: "l \<noteq> []" and u: "u \<in> set (get_parents d v (Some l))" by blast
  then obtain i j where "i \<in> set (edges_at (node_to_edges_by_label d) l j)"
    using parents_label_iff [OF inv l] by blast
  then have "l \<in> fst ` set (node_to_edges_by_label d)"
    by (rule edges_at_label [OF refl])
  with u l show "u \<in> set (get_parents d v None)"
    by (force simp: get_parents_def Let_def)
qed

lemma parents_children_label:
  "dag_inv d \<Longrightarrow> l \<noteq> [] \<Longrightarrow>
     u \<in> set (get_parents d v (Some l)) \<longleftrightarrow> v \<in> set (get_children d u (Some l))"
  using children_label_iff parents_label_iff dag_inv_dual by metis

lemma parents_children_any:
  "dag_inv d \<Longrightarrow> u \<in> set (get_parents d v None) \<longleftrightarrow> v \<in> set (get_children d u None)"
  using children_any_iff parents_any_iff parents_children_label by metis

lemma child_is_node:
  "dag_inv d \<Longrightarrow> v \<in> set (get_children d u None) \<Longrightarrow> u \<in> set (nodes d) \<and> v \<in> set (nodes d)"
  using children_any_iff children_label_iff dag_inv_ord_None by (metis option.distinct(1))

lemma label_child_is_child:
  "dag_inv d \<Longrightarrow> l \<noteq> [] \<Longrightarrow> v \<in> set (get_children d u (Some l)) \<Longrightarrow> v \<in> set (get_children d u None)"
  using children_any_iff [of d v u] by blast

lemma root_iff:
  assumes inv: "dag_inv d"
  shows "v \<in> set (get_root_nodes d) \<longleftrightarrow> v \<in> set (nodes d) \<and> get_parents d v None = []"
proof -
  have "get_parents d v None = [] \<longleftrightarrow> (\<forall>l. edges_at (node_to_edges_by_label d) l j = [])"
    if j: "find_ord d v = Some j" for j
  proof
    assume np: "get_parents d v None = []"
    show "\<forall>l. edges_at (node_to_edges_by_label d) l j = []"
    proof (rule ccontr)
      assume "\<not> (\<forall>l. edges_at (node_to_edges_by_label d) l j = [])"
      then obtain l i where i: "i \<in> set (edges_at (node_to_edges_by_label d) l j)"
        by (metis last_in_set)
      then have "l \<in> fst ` set (node_to_edges_by_label d)" by (rule edges_at_label [OF refl])
      with i j np show False
        by (force simp: get_parents_def get_parents_by_label_def)
    qed
  next
    assume "\<forall>l. edges_at (node_to_edges_by_label d) l j = []"
    with j show "get_parents d v None = []"
      by (auto simp: get_parents_def get_parents_by_label_def)
  qed
  moreover have "v \<in> set (nodes d) \<longleftrightarrow> (\<exists>j. find_ord d v = Some j)"
    using dag_inv_ord_None [OF inv, of v] by auto
  moreover have "v \<in> set (get_root_nodes d) \<longleftrightarrow>
      (\<exists>j. find_ord d v = Some j \<and> (\<forall>l. edges_at (node_to_edges_by_label d) l j = []))"
    using dag_inv_ord [OF inv] by (auto simp: get_root_nodes_def dag_inv_roots [OF inv])
  ultimately show ?thesis by auto
qed

end
