(* ===== verification/Dag_Cycle.thy ===== *)
theory Dag_Cycle
  imports Dag_Simple
begin

text \<open>
  The contract the workflow layer relies on (\<open>dag_store\<close>, interpreted on the model of
  \<open>SimpleDAG\<close>), and the correctness of its two traversals: \<open>has_cycle\<close> always returns and
  answers exactly whether a cycle can be reached from the root nodes, and
  \<open>sort_nodes_topological\<close> on an acyclic graph returns every node once, parents first.
\<close>

section \<open>The interface of a labelled graph store\<close>

locale dag_store =
  fixes invar :: "'d \<Rightarrow> bool"
    and nodes_of :: "'d \<Rightarrow> 'a list"
    and roots_of :: "'d \<Rightarrow> 'a list"
    and children_of :: "'d \<Rightarrow> 'a \<Rightarrow> label option \<Rightarrow> 'a list"
    and parents_of :: "'d \<Rightarrow> 'a \<Rightarrow> label option \<Rightarrow> 'a list"
  assumes parents_children:
      "invar d \<Longrightarrow> lab \<noteq> Some [] \<Longrightarrow> u \<in> set (parents_of d v lab) \<longleftrightarrow> v \<in> set (children_of d u lab)"
    and child_node: "invar d \<Longrightarrow> v \<in> set (children_of d u None) \<Longrightarrow>
      u \<in> set (nodes_of d) \<and> v \<in> set (nodes_of d)"
    and label_child: "invar d \<Longrightarrow> l \<noteq> [] \<Longrightarrow> v \<in> set (children_of d u (Some l)) \<Longrightarrow>
      v \<in> set (children_of d u None)"
    and roots_iff: "invar d \<Longrightarrow> v \<in> set (roots_of d) \<longleftrightarrow>
      v \<in> set (nodes_of d) \<and> parents_of d v None = []"
begin

lemma root_no_child: "invar d \<Longrightarrow> v \<in> set (roots_of d) \<Longrightarrow> v \<notin> set (children_of d u None)"
  using parents_children [of d None u v] by (auto simp: roots_iff)

lemma non_root_has_parent:
  assumes "invar d" "v \<in> set (nodes_of d)" "v \<notin> set (roots_of d)"
  shows "\<exists>u. v \<in> set (children_of d u None)"
proof -
  from assms have "parents_of d v None \<noteq> []" by (auto simp: roots_iff)
  then obtain u where "u \<in> set (parents_of d v None)" by (meson last_in_set)
  with assms(1) show ?thesis using parents_children [of d None u v] by blast
qed

lemma edges_in_nodes:
  "invar d \<Longrightarrow> {(u, v). v \<in> set (children_of d u None)} \<subseteq> set (nodes_of d) \<times> set (nodes_of d)"
  using child_node by auto

lemma finite_edges: "invar d \<Longrightarrow> finite {(u, v). v \<in> set (children_of d u None)}"
  using edges_in_nodes by (meson finite_SigmaI finite_set infinite_super)

text \<open>In an acyclic graph every node is a descendant of a root.\<close>

lemma reachable_from_root:
  assumes inv: "invar d" and ac: "acyclic {(u, v). v \<in> set (children_of d u None)}"
    and v: "v \<in> set (nodes_of d)"
  shows "\<exists>r \<in> set (roots_of d). (r, v) \<in> {(u, v). v \<in> set (children_of d u None)}\<^sup>*"
proof -
  let ?E = "{(u, v). v \<in> set (children_of d u None)}"
  have wf: "wf ?E" using finite_acyclic_wf [OF finite_edges [OF inv] ac] .
  show ?thesis using v
  proof (induction v rule: wf_induct_rule [OF wf])
    case (1 v)
    show ?case
    proof (cases "v \<in> set (roots_of d)")
      case True
      then show ?thesis by blast
    next
      case False
      then obtain u where u: "(u, v) \<in> ?E" using non_root_has_parent [OF inv 1(2)] by blast
      moreover have "u \<in> set (nodes_of d)" using u child_node [OF inv] by blast
      ultimately obtain r where "r \<in> set (roots_of d)" "(r, u) \<in> ?E\<^sup>*" using 1 by blast
      with u show ?thesis by (meson rtrancl.rtrancl_into_rtrancl)
    qed
  qed
qed

lemma no_roots_cyclic:
  assumes inv: "invar d" and ne: "nodes_of d \<noteq> []" and nr: "roots_of d = []"
  shows "\<not> acyclic {(u, v). v \<in> set (children_of d u None)}"
proof
  assume ac: "acyclic {(u, v). v \<in> set (children_of d u None)}"
  from ne have "hd (nodes_of d) \<in> set (nodes_of d)" by simp
  from reachable_from_root [OF inv ac this] nr show False by simp
qed

end

interpretation sdag: dag_store dag_inv nodes get_root_nodes get_children get_parents
proof unfold_locales
  show "u \<in> set (get_parents d v lab) \<longleftrightarrow> v \<in> set (get_children d u lab)"
    if "dag_inv d" "lab \<noteq> Some []" for d :: "'a dag" and u v lab
    using that by (cases lab) (simp_all add: parents_children_any parents_children_label)
  show "u \<in> set (nodes d) \<and> v \<in> set (nodes d)"
    if "dag_inv d" "v \<in> set (get_children d u None)" for d :: "'a dag" and u v
    using that by (rule child_is_node)
  show "v \<in> set (get_children d u None)"
    if "dag_inv d" "l \<noteq> []" "v \<in> set (get_children d u (Some l))" for d :: "'a dag" and l u v
    using that by (rule label_child_is_child)
  show "v \<in> set (get_root_nodes d) \<longleftrightarrow> v \<in> set (nodes d) \<and> get_parents d v None = []"
    if "dag_inv d" for d :: "'a dag" and v
    using that by (rule root_iff)
qed

text \<open>The edges of a graph, labels forgotten.\<close>

definition edge_rel :: "'a dag \<Rightarrow> ('a \<times> 'a) set" where
  "edge_rel d = {(u, v). v \<in> set (get_children d u None)}"

section \<open>The cycle search\<close>

text \<open>
  The stack of the search, top first, seen in layers: \<open>ps\<close> are the nodes on the current path,
  innermost first; above the marker of each lie some of its children that are still pending.
  Every other child is visited, or is the next node of the path (\<open>X\<close> for the innermost one).
\<close>

fun layers :: "('a \<Rightarrow> 'a list) \<Rightarrow> 'a set \<Rightarrow> 'a set \<Rightarrow> 'a list \<Rightarrow> 'a list \<Rightarrow> bool" where
  "layers ch V X [] st = True"
| "layers ch V X (p # ps) st =
     (\<exists>cs rest. st = cs @ p # rest \<and> set cs \<subseteq> set (ch p) \<and> X \<subseteq> set (ch p) \<and>
        set (ch p) \<subseteq> V \<union> set cs \<union> X \<and> layers ch V {p} ps rest)"

lemma layersI:
  "st = cs @ p # rest \<Longrightarrow> set cs \<subseteq> set (ch p) \<Longrightarrow> X \<subseteq> set (ch p) \<Longrightarrow>
     set (ch p) \<subseteq> V \<union> set cs \<union> X \<Longrightarrow> layers ch V {p} ps rest \<Longrightarrow> layers ch V X (p # ps) st"
  by (simp only: layers.simps) blast

lemma layers_path_child:
  "layers ch V X ps st \<Longrightarrow> q \<in> set ps \<Longrightarrow> X \<noteq> {} \<Longrightarrow> \<exists>c \<in> set (ch q). c \<in> X \<union> set ps"
proof (induction ps arbitrary: X st)
  case (Cons p ps)
  then obtain cs rest where l: "layers ch V {p} ps rest" and X: "X \<subseteq> set (ch p)" by auto
  show ?case
  proof (cases "q = p")
    case True
    with X Cons.prems(3) show ?thesis by auto
  next
    case False
    with Cons.prems(2) Cons.IH [OF l] show ?thesis by auto
  qed
qed simp

lemma layers_reaches:
  "layers ch V X ps st \<Longrightarrow> q \<in> set ps \<Longrightarrow> x \<in> X \<Longrightarrow> (q, x) \<in> {(u, v). v \<in> set (ch u)}\<^sup>+"
proof (induction ps arbitrary: X st x)
  case (Cons p ps)
  then obtain cs rest where l: "layers ch V {p} ps rest" and "x \<in> set (ch p)" by auto
  then have px: "(p, x) \<in> {(u, v). v \<in> set (ch u)}\<^sup>+" by auto
  show ?case
  proof (cases "q = p")
    case True
    with px show ?thesis by simp
  next
    case False
    with Cons.prems(2) Cons.IH [OF l, of p] px show ?thesis by (auto intro: trancl_trans)
  qed
qed simp

lemma layers_mono: "layers ch V X ps st \<Longrightarrow> V \<subseteq> V' \<Longrightarrow> layers ch V' X ps st"
proof (induction ps arbitrary: X st)
  case (Cons p ps)
  then obtain cs rest where l: "st = cs @ p # rest" "set cs \<subseteq> set (ch p)" "X \<subseteq> set (ch p)"
    "set (ch p) \<subseteq> V \<union> set cs \<union> X" "layers ch V {p} ps rest" by auto
  show ?case
    by (rule layersI [of st cs p rest]) (use l Cons.prems(2) Cons.IH [OF l(5)] in auto)
qed simp

lemma layers_visited: "layers ch V {x} ps st \<Longrightarrow> x \<in> V \<Longrightarrow> layers ch V {} ps st"
  by (cases ps) auto

text \<open>Taking a pending child off the top leaves it as the open child of the innermost layer.\<close>

lemma layers_pop:
  assumes "layers ch V {} ps (n # rest)"
  shows "layers ch V {n} ps rest \<or> (\<exists>ps'. ps = n # ps' \<and> set (ch n) \<subseteq> V \<and> layers ch V {n} ps' rest)"
proof (cases ps)
  case (Cons p ps')
  with assms obtain cs r where st: "n # rest = cs @ p # r" and cs: "set cs \<subseteq> set (ch p)"
    and ch: "set (ch p) \<subseteq> V \<union> set cs" and l: "layers ch V {p} ps' r" by auto
  show ?thesis
  proof (cases cs)
    case Nil
    with st ch l Cons show ?thesis by auto
  next
    case (Cons c cs')
    with st have "n = c" "rest = cs' @ p # r" by auto
    with Cons cs ch l \<open>ps = p # ps'\<close> show ?thesis by auto
  qed
qed simp

definition search_inv ::
  "('a \<Rightarrow> 'a list) \<Rightarrow> 'a set \<Rightarrow> 'a set \<Rightarrow> 'a list \<Rightarrow> 'a set \<Rightarrow> 'a list \<Rightarrow> bool" where
  "search_inv ch N R st V ps \<longleftrightarrow>
     layers ch V {} ps st \<and> distinct ps \<and> V \<inter> set ps = {} \<and> set ps \<subseteq> N \<and>
     set st \<subseteq> N \<and> R \<subseteq> V \<union> set st \<and> set st \<subseteq> {(u, v). v \<in> set (ch u)}\<^sup>* `` R \<and>
     (\<forall>v \<in> V. set (ch v) \<subseteq> V \<and> (v, v) \<notin> {(u, v). v \<in> set (ch u)}\<^sup>+)"

lemma closed_trancl:
  assumes "\<forall>v \<in> V. set (ch v) \<subseteq> V" "(u, w) \<in> {(u, v). v \<in> set (ch u)}\<^sup>*" "u \<in> V"
  shows "w \<in> V"
  using assms(2,3) by (induction rule: rtrancl_induct) (use assms(1) in auto)

lemma search_inv_push:
  assumes inv: "search_inv ch N R (n # rest) V ps" and np: "n \<notin> set ps"
    and ta: "filter (\<lambda>c. c \<notin> V) (ch n) \<noteq> []" and N: "set (ch n) \<subseteq> N"
  shows "search_inv ch N R (rev (filter (\<lambda>c. c \<notin> V) (ch n)) @ n # rest) V (n # ps)"
    and "n \<notin> V"
proof -
  let ?E = "{(u, v). v \<in> set (ch u)}"
  from inv have l: "layers ch V {} ps (n # rest)" and nN: "n \<in> N"
    and cl: "\<forall>v \<in> V. set (ch v) \<subseteq> V" and nR: "n \<in> ?E\<^sup>* `` R"
    by (auto simp: search_inv_def)
  show nV: "n \<notin> V" using ta cl by (auto simp: filter_empty_conv)
  from layers_pop [OF l] np ta have l': "layers ch V {n} ps rest" by (auto simp: filter_empty_conv)
  have "layers ch V {} (n # ps) (rev (filter (\<lambda>c. c \<notin> V) (ch n)) @ n # rest)"
    by (rule layersI [OF refl]) (use l' in auto)
  moreover have "set (ch n) \<subseteq> ?E\<^sup>* `` R"
    using nR by (auto intro: rtrancl_into_rtrancl)
  ultimately show "search_inv ch N R (rev (filter (\<lambda>c. c \<notin> V) (ch n)) @ n # rest) V (n # ps)"
    using inv np nV nN N unfolding search_inv_def by auto
qed

lemma search_inv_visit:
  assumes inv: "search_inv ch N R (n # rest) V ps" and ta: "filter (\<lambda>c. c \<notin> V) (ch n) = []"
  shows "search_inv ch N R rest (insert n V) (remove1 n ps) \<and> set (remove1 n ps) = set ps - {n}"
proof -
  let ?E = "{(u, v). v \<in> set (ch u)}"
  from inv have l: "layers ch V {} ps (n # rest)" and dps: "distinct ps" and VP: "V \<inter> set ps = {}"
    and cl: "\<forall>v \<in> V. set (ch v) \<subseteq> V" and ac: "\<forall>v \<in> V. (v, v) \<notin> ?E\<^sup>+"
    by (auto simp: search_inv_def)
  from ta have chV: "set (ch n) \<subseteq> V" by (auto simp: filter_empty_conv)
  have nac: "(n, n) \<notin> ?E\<^sup>+"
  proof
    assume "(n, n) \<in> ?E\<^sup>+"
    then obtain c where "c \<in> set (ch n)" "(c, n) \<in> ?E\<^sup>*" by (auto dest: tranclD)
    with chV have "n \<in> V" using closed_trancl [OF cl] by blast
    with ac \<open>(n, n) \<in> ?E\<^sup>+\<close> show False by blast
  qed
  have lay: "layers ch (insert n V) {} (remove1 n ps) rest"
    using layers_pop [OF l]
  proof (elim disjE exE conjE)
    assume l': "layers ch V {n} ps rest"
    have "n \<notin> set ps"
    proof
      assume np: "n \<in> set ps"
      from layers_path_child [OF l' np] obtain c where "c \<in> set (ch n)" "c \<in> insert n (set ps)" by auto
      with chV VP np show False by auto
    qed
    with layers_visited [OF layers_mono [OF l', of "insert n V"]] show ?thesis
      by (auto simp: remove1_idem)
  next
    fix ps' assume "ps = n # ps'" and l': "layers ch V {n} ps' rest"
    with layers_visited [OF layers_mono [OF l', of "insert n V"]] show ?thesis by auto
  qed
  show ?thesis
    using inv lay chV nac dps unfolding search_inv_def by (auto simp: set_remove1_eq)
qed

text \<open>The search returns, and its answer is whether a cycle is reachable from the roots.\<close>

lemma cycle_loop_correct:
  assumes N: "finite N" "\<And>u v. v \<in> set (ch u) \<Longrightarrow> v \<in> N"
  shows "search_inv ch N R st V ps \<Longrightarrow>
    \<exists>b. cycle_loop ch st V (set ps) = Some b \<and>
      (b \<longleftrightarrow> (\<exists>r \<in> R. \<exists>v. (r, v) \<in> {(u, v). v \<in> set (ch u)}\<^sup>* \<and> (v, v) \<in> {(u, v). v \<in> set (ch u)}\<^sup>+))"
proof (induction "(N - V - set ps, st)" arbitrary: st V ps
    rule: wf_induct_rule [OF wf_lex_prod [OF wf_finite_psubset wf_measure [of length]]])
  case (1 st V ps)
  let ?E = "{(u, v). v \<in> set (ch u)}"
  let ?Q = "\<exists>r \<in> R. \<exists>v. (r, v) \<in> ?E\<^sup>* \<and> (v, v) \<in> ?E\<^sup>+"
  note IH = 1(1) and inv = 1(2)
  show ?case
  proof (cases st)
    case Nil
    with inv have "R \<subseteq> V" and cl: "\<forall>v \<in> V. set (ch v) \<subseteq> V" and ac: "\<forall>v \<in> V. (v, v) \<notin> ?E\<^sup>+"
      by (auto simp: search_inv_def)
    then have "\<not> ?Q" using closed_trancl [OF cl] by blast
    with Nil show ?thesis by (simp add: cycle_loop.simps)
  next
    case (Cons n rest)
    let ?ta = "filter (\<lambda>c. c \<notin> V) (ch n)"
    note inv' = inv [unfolded Cons]
    show ?thesis
    proof (cases "?ta = []")
      case True
      from search_inv_visit [OF inv' True]
      have i: "search_inv ch N R rest (insert n V) (remove1 n ps)"
        and s: "set (remove1 n ps) = set ps - {n}" by auto
      have "N - insert n V - set (remove1 n ps) \<subseteq> N - V - set ps" using s by auto
      then have "((N - insert n V - set (remove1 n ps), rest), (N - V - set ps, st))
          \<in> finite_psubset <*lex*> measure length"
        using N(1) Cons by (auto simp: finite_psubset_def)
      from IH [OF this i] show ?thesis
        using True s by (simp add: Cons cycle_loop.simps [of ch "n # rest"])
    next
      case False
      show ?thesis
      proof (cases "n \<in> set ps")
        case True
        have "(n, n) \<in> ?E\<^sup>+"
          using layers_pop [of ch V ps n rest] inv' False True layers_reaches [of ch V "{n}" ps rest n n]
          by (auto simp: search_inv_def filter_empty_conv)
        moreover have "n \<in> ?E\<^sup>* `` R" using inv' by (auto simp: search_inv_def)
        ultimately have ?Q by blast
        with True False show ?thesis
          by (intro exI [of _ True]) (simp add: Cons cycle_loop.simps [of ch "n # rest"])
      next
        case False
        note push = search_inv_push [OF inv' False \<open>?ta \<noteq> []\<close>]
        have i: "search_inv ch N R (rev ?ta @ n # rest) V (n # ps)"
          using push(1) N(2) by blast
        have "n \<in> N - V - set ps" using inv' push(2) N(2) False by (auto simp: search_inv_def)
        then have "((N - V - set (n # ps), rev ?ta @ n # rest), (N - V - set ps, st))
            \<in> finite_psubset <*lex*> measure length"
          using N(1) by (auto simp: finite_psubset_def)
        from IH [OF this i] show ?thesis
          using False \<open>?ta \<noteq> []\<close> by (simp add: Cons cycle_loop.simps [of ch "n # rest"])
      qed
    qed
  qed
qed


lemma has_cycle_spec:
  assumes inv: "dag_inv d"
  shows "\<exists>b. has_cycle d = Some b \<and>
    (b \<longleftrightarrow> (nodes d \<noteq> [] \<and> get_root_nodes d = []) \<or>
       (\<exists>r \<in> set (get_root_nodes d). \<exists>v. (r, v) \<in> (edge_rel d)\<^sup>* \<and> (v, v) \<in> (edge_rel d)\<^sup>+))"
proof (cases "nodes d \<noteq> [] \<and> get_root_nodes d = []")
  case True
  then show ?thesis by (intro exI [of _ True]) (simp add: has_cycle_def Let_def)
next
  case False
  let ?ch = "\<lambda>obj. get_children d obj None"
  have "search_inv ?ch (set (nodes d)) (set (get_root_nodes d)) (rev (get_root_nodes d)) {} []"
    using sdag.roots_iff [OF inv] by (auto simp: search_inv_def)
  from cycle_loop_correct [OF finite_set _ this] child_is_node [OF inv] False
  show ?thesis by (auto simp: has_cycle_def Let_def edge_rel_def)
qed

lemma has_cycle_True_cyclic:
  assumes inv: "dag_inv d" and c: "has_cycle d = Some True"
  shows "\<not> acyclic (edge_rel d)"
proof -
  from has_cycle_spec [OF inv] c
  have "(nodes d \<noteq> [] \<and> get_root_nodes d = []) \<or> (\<exists>v. (v, v) \<in> (edge_rel d)\<^sup>+)" by auto
  then show ?thesis
  proof
    assume "nodes d \<noteq> [] \<and> get_root_nodes d = []"
    then show ?thesis using sdag.no_roots_cyclic [OF inv] by (simp add: edge_rel_def)
  next
    assume "\<exists>v. (v, v) \<in> (edge_rel d)\<^sup>+"
    then show ?thesis by (auto simp: acyclic_def)
  qed
qed

text \<open>
  The cycle test on any graph built through the interface returns, and it answers \<open>True\<close>
  exactly if the graph has nodes but no root, or if some root reaches a node that lies on a cycle.
\<close>

theorem has_cycle_iff:
  assumes inv: "dag_inv d"
  shows "\<exists>b. has_cycle d = Some b \<and>
    (b \<longleftrightarrow> (nodes d \<noteq> [] \<and> get_root_nodes d = []) \<or>
       (\<exists>r \<in> set (get_root_nodes d). \<exists>v. (r, v) \<in> (edge_rel d)\<^sup>* \<and> (v, v) \<in> (edge_rel d)\<^sup>+))"
  by (rule has_cycle_spec [OF inv])

definition two_nodes :: "nat dag" where
  "two_nodes = snd (add_edge 1 2 ''success_nodes'' (add_node 2 (add_node 1 empty_dag)))"

lemma two_nodes_inv: "dag_inv two_nodes"
proof -
  let ?d = "add_node 2 (add_node (1 :: nat) empty_dag)"
  have "add_edge 1 2 ''success_nodes'' ?d = (None, two_nodes)"
    by (simp add: two_nodes_def add_edge_def add_node_def empty_dag_def find_ord_def Let_def)
  from dag_inv_add_edge [OF _ this] show ?thesis
    by (simp add: dag_inv_add_node dag_inv_empty)
qed

theorem has_cycle_iff_witness:
  "\<exists>b. has_cycle two_nodes = Some b \<and>
    (b \<longleftrightarrow> (nodes two_nodes \<noteq> [] \<and> get_root_nodes two_nodes = []) \<or>
       (\<exists>r \<in> set (get_root_nodes two_nodes). \<exists>v. (r, v) \<in> (edge_rel two_nodes)\<^sup>* \<and>
          (v, v) \<in> (edge_rel two_nodes)\<^sup>+))"
  by (rule has_cycle_iff [OF two_nodes_inv])

section \<open>The topological sort\<close>

text \<open>
  The state of the sort: the list holds exactly the processed nodes, each once; the processed
  nodes are closed under children; no node is listed after one of its children.
\<close>

definition topo_inv :: "('a \<times> 'a) set \<Rightarrow> 'a set \<times> 'a list \<Rightarrow> bool" where
  "topo_inv E st \<longleftrightarrow>
     set (snd st) = fst st \<and> distinct (snd st) \<and> E `` fst st \<subseteq> fst st \<and>
     sorted_wrt (\<lambda>u v. (v, u) \<notin> E) (snd st)"

definition topo_step :: "('a \<times> 'a) set \<Rightarrow> 'a set \<Rightarrow> 'a set \<times> 'a list \<Rightarrow> 'a set \<times> 'a list \<Rightarrow> bool" where
  "topo_step E R st st' \<longleftrightarrow>
     topo_inv E st' \<and> fst st \<subseteq> fst st' \<and> R \<subseteq> fst st' \<and> fst st' \<subseteq> fst st \<union> E\<^sup>* `` R"

lemma topo_step_refl: "topo_inv E st \<Longrightarrow> R \<subseteq> fst st \<Longrightarrow> topo_step E R st st"
  by (auto simp: topo_step_def)

lemma topo_step_trans:
  assumes "topo_step E R st st'" "topo_step E S st' st''"
  shows "topo_step E (R \<union> S) st st''"
  using assms unfolding topo_step_def by (auto simp: Image_Un)

lemma topo_step_node:
  assumes ac: "acyclic E" and st: "topo_inv E st" and new: "u \<notin> fst st"
    and s: "topo_step E (E `` {u}) st (P, out)"
  shows "topo_step E {u} st (insert u P, u # out)"
proof -
  have "u \<notin> E\<^sup>* `` (E `` {u})"
  proof
    assume "u \<in> E\<^sup>* `` (E `` {u})"
    then have "(u, u) \<in> E\<^sup>+" by (auto intro: rtrancl_into_trancl2)
    with ac show False by (simp add: acyclic_def)
  qed
  with s new have uP: "u \<notin> P" by (auto simp: topo_step_def)
  have "E\<^sup>* `` (E `` {u}) \<subseteq> E\<^sup>* `` {u}" by (auto intro: converse_rtrancl_into_rtrancl)
  with s have sub: "P \<subseteq> fst st \<union> E\<^sup>* `` {u}" by (auto simp: topo_step_def)
  from s have inv: "set out = P" "distinct out" "E `` P \<subseteq> P" "sorted_wrt (\<lambda>u v. (v, u) \<notin> E) out"
    "fst st \<subseteq> P" "E `` {u} \<subseteq> P" by (auto simp: topo_step_def topo_inv_def)
  have "\<forall>v \<in> set out. (v, u) \<notin> E" using inv uP by blast
  with inv uP sub show ?thesis by (auto simp: topo_step_def topo_inv_def)
qed

lemma finite_reach: "finite E \<Longrightarrow> finite (E\<^sup>* `` {u})"
proof (rule finite_subset)
  show "E\<^sup>* `` {u} \<subseteq> insert u (Range E)" by (auto elim: rtranclE)
qed (simp add: finite_Range)

lemma reach_child_smaller:
  assumes "acyclic E" "finite E" "(u, c) \<in> E"
  shows "card (E\<^sup>* `` {c}) < card (E\<^sup>* `` {u})"
proof (rule psubset_card_mono)
  from assms(2) show "finite (E\<^sup>* `` {u})" by (rule finite_reach)
  have "u \<notin> E\<^sup>* `` {c}"
    using assms(1,3) by (auto simp: acyclic_def dest: rtrancl_into_trancl2)
  moreover have "E\<^sup>* `` {c} \<subseteq> E\<^sup>* `` {u}" using assms(3) by (auto intro: converse_rtrancl_into_rtrancl)
  ultimately show "E\<^sup>* `` {c} \<subset> E\<^sup>* `` {u}" by blast
qed

lemma visit_topo:
  shows "topo_inv (edge_rel d) st \<Longrightarrow> acyclic (edge_rel d) \<Longrightarrow> finite (edge_rel d) \<Longrightarrow> card ((edge_rel d)\<^sup>* `` {obj}) \<le> frames \<Longrightarrow>
      \<exists>st'. visit frames d obj st = Some st' \<and> topo_step (edge_rel d) {obj} st st'"
    and "topo_inv (edge_rel d) st \<Longrightarrow> acyclic (edge_rel d) \<Longrightarrow> finite (edge_rel d) \<Longrightarrow> \<forall>c \<in> set cs. card ((edge_rel d)\<^sup>* `` {c}) \<le> frames \<Longrightarrow>
      \<exists>st'. visit_children frames d cs st = Some st' \<and> topo_step (edge_rel d) (set cs) st st'"
proof (induction frames d obj st and frames d cs st rule: visit_visit_children.induct)
  case (1 d obj st)
  have "obj \<in> (edge_rel d)\<^sup>* `` {obj}" by auto
  then have "0 < card ((edge_rel d)\<^sup>* `` {obj})"
    using finite_reach [OF 1(3)] by (auto simp: card_gt_0_iff)
  with 1(4) show ?case by simp
next
  case (2 frames d obj st)
  let ?E = "edge_rel d"
  show ?case
  proof (cases "obj \<in> fst st")
    case True
    with 2(2) show ?thesis by (auto intro: topo_step_refl)
  next
    case False
    have ch: "set (get_children d obj None) = ?E `` {obj}" by (auto simp: edge_rel_def)
    have "\<forall>c \<in> set (get_children d obj None). card (?E\<^sup>* `` {c}) \<le> frames"
      using 2(5) reach_child_smaller [OF 2(3,4)] ch by fastforce
    with 2(1) [OF False 2(2-4)] obtain P out
      where v: "visit_children frames d (get_children d obj None) st = Some (P, out)"
        and s: "topo_step ?E (?E `` {obj}) st (P, out)"
      by (auto simp: ch)
    from topo_step_node [OF 2(3) 2(2) False s] v False show ?thesis by auto
  qed
next
  case (3 frames d st)
  then show ?case by (auto intro: topo_step_refl)
next
  case (4 frames d c cs st)
  then obtain st1 where v: "visit frames d c st = Some st1" and s1: "topo_step (edge_rel d) {c} st st1"
    by auto
  from s1 have "topo_inv (edge_rel d) st1" by (simp add: topo_step_def)
  with 4(2) [OF v] 4(4-6) obtain st2 where "visit_children frames d cs st1 = Some st2"
    "topo_step (edge_rel d) (set cs) st1 st2" by auto
  with v topo_step_trans [OF s1] show ?case by auto
qed

lemma sort_loop_topo:
  assumes E: "acyclic (edge_rel d)" "finite (edge_rel d)"
  shows "topo_inv (edge_rel d) st \<Longrightarrow> \<forall>n \<in> set ns. card ((edge_rel d)\<^sup>* `` {n}) \<le> frames \<Longrightarrow>
      \<exists>st'. sort_loop frames d ns st = Some st' \<and> topo_step (edge_rel d) (set ns) st st'"
proof (induction ns arbitrary: st)
  case Nil
  then show ?case by (auto intro: topo_step_refl)
next
  case (Cons n ns)
  have "\<exists>st1. topo_step (edge_rel d) {n} st st1 \<and>
      sort_loop frames d (n # ns) st = sort_loop frames d ns st1"
  proof (cases "n \<in> fst st")
    case True
    with topo_step_refl [OF Cons.prems(1), of "{n}"] show ?thesis by (intro exI [of _ st]) simp
  next
    case False
    with visit_topo(1) [OF Cons.prems(1) E, of n frames] Cons.prems(2) obtain st1
      where "visit frames d n st = Some st1" "topo_step (edge_rel d) {n} st st1" by auto
    with False show ?thesis by (intro exI [of _ st1]) simp
  qed
  then obtain st1 where s1: "topo_step (edge_rel d) {n} st st1"
    and eq: "sort_loop frames d (n # ns) st = sort_loop frames d ns st1" by blast
  from s1 have "topo_inv (edge_rel d) st1" by (simp add: topo_step_def)
  from Cons.IH [OF this] Cons.prems(2) obtain st2 where r: "sort_loop frames d ns st1 = Some st2"
    and s2: "topo_step (edge_rel d) (set ns) st1 st2" by (meson list.set_intros(2))
  from topo_step_trans [OF s1 s2] r eq show ?case by (intro exI [of _ st2]) simp
qed

lemma edge_rel_nodes: "dag_inv d \<Longrightarrow> edge_rel d \<subseteq> set (nodes d) \<times> set (nodes d)"
  unfolding edge_rel_def by (rule sdag.edges_in_nodes)

lemma finite_edge_rel: "dag_inv d \<Longrightarrow> finite (edge_rel d)"
  unfolding edge_rel_def by (rule sdag.finite_edges)

lemma reach_nodes: "dag_inv d \<Longrightarrow> n \<in> set (nodes d) \<Longrightarrow> (edge_rel d)\<^sup>* `` {n} \<subseteq> set (nodes d)"
  using edge_rel_nodes [of d] by (auto elim: rtranclE)

lemma topological_order:
  assumes inv: "dag_inv d" and ac: "acyclic (edge_rel d)" and frames: "length (nodes d) \<le> frames"
  shows "\<exists>ns. sort_nodes_topological frames d = Some ns \<and> distinct ns \<and> set ns = set (nodes d) \<and>
    sorted_wrt (\<lambda>u v. (v, u) \<notin> edge_rel d) ns"
proof -
  let ?E = "edge_rel d"
  have "card (?E\<^sup>* `` {n}) \<le> frames" if "n \<in> set (nodes d)" for n
    using card_mono [OF finite_set reach_nodes [OF inv that]] card_length [of "nodes d"] frames
    by linarith
  moreover have "topo_inv ?E ({}, [])" by (simp add: topo_inv_def)
  ultimately obtain P ns where "sort_loop frames d (nodes d) ({}, []) = Some (P, ns)"
    and s: "topo_step ?E (set (nodes d)) ({}, []) (P, ns)"
    using sort_loop_topo [OF ac finite_edge_rel [OF inv], of "({}, [])" "nodes d" frames] by auto
  moreover have "(edge_rel d)\<^sup>* `` set (nodes d) \<subseteq> set (nodes d)"
    using reach_nodes [OF inv] by blast
  then have "P = set (nodes d)" using s by (auto simp: topo_step_def)
  ultimately show ?thesis by (auto simp: sort_nodes_topological_def topo_step_def topo_inv_def)
qed

text \<open>
  On an acyclic graph, and with at least as many stack frames as there are nodes, the
  topological sort returns a list that holds every node exactly once and in which, for every
  edge from \<open>u\<close> to \<open>v\<close>, the parent \<open>u\<close> stands before the child \<open>v\<close>.
\<close>

theorem sort_nodes_topological_correct:
  assumes inv: "dag_inv d" and ac: "acyclic (edge_rel d)" and frames: "length (nodes d) \<le> frames"
  shows "\<exists>ns. sort_nodes_topological frames d = Some ns \<and> mset ns = mset (nodes d) \<and>
    (\<forall>i j. i < length ns \<and> j < length ns \<and> (ns ! i, ns ! j) \<in> edge_rel d \<longrightarrow> i < j)"
proof -
  from topological_order [OF assms] obtain ns where s: "sort_nodes_topological frames d = Some ns"
    and dn: "distinct ns" and sn: "set ns = set (nodes d)"
    and o: "sorted_wrt (\<lambda>u v. (v, u) \<notin> edge_rel d) ns" by blast
  have "mset ns = mset (nodes d)"
    using dn sn dag_inv_distinct [OF inv] by (simp add: set_eq_iff_mset_eq_distinct)
  moreover have "i < j" if "i < length ns" "j < length ns" "(ns ! i, ns ! j) \<in> edge_rel d" for i j
  proof (rule ccontr)
    assume "\<not> i < j"
    moreover have "i \<noteq> j" using that(3) ac by (auto simp: acyclic_def)
    ultimately have "j < i" by simp
    with o that show False by (simp add: sorted_wrt_iff_nth_less)
  qed
  ultimately show ?thesis using s by blast
qed

lemma two_nodes_edges: "edge_rel two_nodes = {(1, 2)}"
  by (auto simp: edge_rel_def two_nodes_def add_edge_def add_node_def empty_dag_def find_ord_def
      get_children_def get_children_by_label_def append_edge_def edges_at_def split: if_splits)

theorem sort_nodes_topological_witness:
  "length (nodes two_nodes) \<le> 2 \<and> (\<exists>ns. sort_nodes_topological 2 two_nodes = Some ns \<and>
    mset ns = mset (nodes two_nodes) \<and>
    (\<forall>i j. i < length ns \<and> j < length ns \<and> (ns ! i, ns ! j) \<in> edge_rel two_nodes \<longrightarrow> i < j))"
proof -
  have len: "length (nodes two_nodes) \<le> 2"
    by (simp add: two_nodes_def add_edge_def add_node_def empty_dag_def find_ord_def)
  have "acyclic (edge_rel two_nodes)"
    by (simp add: two_nodes_edges acyclic_def trancl_insert)
  from sort_nodes_topological_correct [OF two_nodes_inv this len] len show ?thesis by simp
qed

end
