(* ===== verification/Dag_Workflow.thy ===== *)
theory Dag_Workflow
  imports Dag_Cycle
begin

text \<open>
  The workflow graph: \<open>WorkflowDAG\<close> of \<open>forail/main/scheduler/dag_workflow.py\<close>.

  A workflow node is a database row; the graph refers to it by primary key and the rows' fields
  live in a store \<open>ob\<close> from primary key to \<open>wf_node\<close>, which the operations that assign to a
  node take and return. The three edge labels are the relations \<open>success_nodes\<close>,
  \<open>failure_nodes\<close> and \<open>always_nodes\<close>.
\<close>

section \<open>State\<close>

record spawned_job =
  sj_id :: pk
  sj_status :: job_status

record ujt =
  ujt_id :: pk
  ujt_is_workflow :: bool

record wf_node =
  do_not_run :: bool
  job :: "spawned_job option"
  unified_job_template :: "ujt option"
  all_parents_must_converge :: bool

type_synonym node_store = "pk \<Rightarrow> wf_node"

abbreviation success_nodes :: label where "success_nodes \<equiv> ''success_nodes''"
abbreviation failure_nodes :: label where "failure_nodes \<equiv> ''failure_nodes''"
abbreviation always_nodes :: label where "always_nodes \<equiv> ''always_nodes''"

text \<open>\<open>job.can_cancel\<close>: the status is one of \<open>CAN_CANCEL\<close>.\<close>

definition can_cancel :: "spawned_job \<Rightarrow> bool" where
  "can_cancel j \<longleftrightarrow> sj_status j \<in> {New, Pending, Waiting, Running}"

section \<open>Construction\<close>

text \<open>
  The rows a graph is built from: the nodes of a workflow (a template or a job) in query order,
  and the three edge tables as pairs of primary keys. Anything else is refused.
\<close>

datatype graph_source =
    WorkflowTemplateRows "pk list" "(pk \<times> pk) list" "(pk \<times> pk) list" "(pk \<times> pk) list"
  | WorkflowJobRows "pk list" "(pk \<times> pk) list" "(pk \<times> pk) list" "(pk \<times> pk) list"
  | OtherObject

datatype init_error = UnexpectedObject | NodeKeyError | EdgeError dag_error

fun add_edges :: "(pk \<Rightarrow> pk option) \<Rightarrow> label \<Rightarrow> (pk \<times> pk) list \<Rightarrow> pk dag \<Rightarrow> init_error + pk dag" where
  "add_edges wfn lab [] g = Inr g"
| "add_edges wfn lab ((a, b) # es) g =
     (case (wfn a, wfn b) of
        (Some u, Some v) \<Rightarrow>
          (case add_edge u v lab g of
             (Some e, _) \<Rightarrow> Inl (EdgeError e)
           | (None, g') \<Rightarrow> add_edges wfn lab es g')
      | _ \<Rightarrow> Inl NodeKeyError)"

definition build_graph ::
  "pk list \<Rightarrow> (pk \<times> pk) list \<Rightarrow> (pk \<times> pk) list \<Rightarrow> (pk \<times> pk) list \<Rightarrow> init_error + pk dag" where
  "build_graph workflow_nodes success failure always =
     (let g0 = fold add_node workflow_nodes empty_dag;
          wfn_by_id = (\<lambda>i. if i \<in> set workflow_nodes then Some i else None)
      in case add_edges wfn_by_id success_nodes success g0 of
           Inl e \<Rightarrow> Inl e
         | Inr g1 \<Rightarrow>
             (case add_edges wfn_by_id failure_nodes failure g1 of
                Inl e \<Rightarrow> Inl e
              | Inr g2 \<Rightarrow> add_edges wfn_by_id always_nodes always g2))"

fun init_graph :: "graph_source \<Rightarrow> init_error + pk dag" where
  "init_graph (WorkflowTemplateRows ns s f a) = build_graph ns s f a"
| "init_graph (WorkflowJobRows ns s f a) = build_graph ns s f a"
| "init_graph OtherObject = Inl UnexpectedObject"

section \<open>Convergence tests\<close>

definition finished_statuses :: "job_status list" where
  "finished_statuses = [Successful, Failed, Errored, Canceled]"

fun relevant_parents_finished :: "node_store \<Rightarrow> pk list \<Rightarrow> bool" where
  "relevant_parents_finished ob [] = True"
| "relevant_parents_finished ob (p # ps) =
     (if do_not_run (ob p) then relevant_parents_finished ob ps
      else if unified_job_template (ob p) = None then relevant_parents_finished ob ps
      else (case job (ob p) of
              None \<Rightarrow> False
            | Some j \<Rightarrow>
                if sj_status j \<notin> set finished_statuses then False
                else relevant_parents_finished ob ps))"

definition are_relevant_parents_finished :: "pk dag \<Rightarrow> node_store \<Rightarrow> pk \<Rightarrow> bool" where
  "are_relevant_parents_finished g ob n = relevant_parents_finished ob (get_parents g n None)"

fun parents_met_criteria :: "pk dag \<Rightarrow> node_store \<Rightarrow> pk \<Rightarrow> pk list \<Rightarrow> bool" where
  "parents_met_criteria g ob n [] = True"
| "parents_met_criteria g ob n (p # ps) =
     (case job (ob p) of
        None \<Rightarrow> parents_met_criteria g ob n ps
      | Some j \<Rightarrow>
          if sj_status j \<in> {Successful, Failed} then
            (let lab = (if sj_status j = Successful then success_nodes else failure_nodes)
             in if p \<notin> set (get_parents g n (Some lab)) \<and>
                   p \<notin> set (get_parents g n (Some always_nodes))
                then False else parents_met_criteria g ob n ps)
          else parents_met_criteria g ob n ps)"

definition all_parents_met_convergence_criteria :: "pk dag \<Rightarrow> node_store \<Rightarrow> pk \<Rightarrow> bool" where
  "all_parents_met_convergence_criteria g ob n =
     parents_met_criteria g ob n (get_parents g n None)"

section \<open>Choosing the nodes to run\<close>

text \<open>The nodes that the traversal appends to its queue when it visits a node.\<close>

definition followed_children :: "pk dag \<Rightarrow> node_store \<Rightarrow> pk \<Rightarrow> pk list" where
  "followed_children g ob n =
     (if do_not_run (ob n) then []
      else (case job (ob n) of
              Some j \<Rightarrow>
                if sj_status j \<in> {Failed, Errored, Canceled} then
                  get_children g n (Some failure_nodes) @ get_children g n (Some always_nodes)
                else if sj_status j = Successful then
                  get_children g n (Some success_nodes) @ get_children g n (Some always_nodes)
                else []
            | None \<Rightarrow>
                if unified_job_template (ob n) = None then
                  get_children g n (Some failure_nodes) @ get_children g n (Some always_nodes)
                else []))"

text \<open>The branch that adds the visited node itself to the nodes to run.\<close>

definition ready_to_run :: "pk dag \<Rightarrow> node_store \<Rightarrow> pk \<Rightarrow> bool" where
  "ready_to_run g ob n \<longleftrightarrow>
     \<not> do_not_run (ob n) \<and> job (ob n) = None \<and> unified_job_template (ob n) \<noteq> None \<and>
     (if \<not> all_parents_must_converge (ob n) \<and> are_relevant_parents_finished g ob n then True
      else if all_parents_must_converge (ob n) \<and> are_relevant_parents_finished g ob n then
        all_parents_met_convergence_criteria g ob n
      else False)"

text \<open>
  The loop extends the list it runs over, so the list is a queue; \<open>None\<close> would be a traversal
  that does not return.
\<close>

partial_function (option) bfs_loop ::
  "pk dag \<Rightarrow> node_store \<Rightarrow> pk list \<Rightarrow> pk list \<Rightarrow> pk set \<Rightarrow> pk list option" where
  "bfs_loop g ob queue nodes_found visited =
     (case queue of
        [] \<Rightarrow> Some nodes_found
      | n # rest \<Rightarrow>
          if n \<in> visited then bfs_loop g ob rest nodes_found visited
          else bfs_loop g ob (rest @ followed_children g ob n)
                 (if ready_to_run g ob n then nodes_found @ [n] else nodes_found)
                 (insert n visited))"

definition bfs_nodes_to_run :: "pk dag \<Rightarrow> node_store \<Rightarrow> pk list option" where
  "bfs_nodes_to_run g ob = bfs_loop g ob (get_root_nodes g) [] {}"

section \<open>Cancelling, completion and failure\<close>

text \<open>\<open>cancel\<close> is the job's own \<open>cancel()\<close>, an argument of the model.\<close>

fun cancel_jobs_of ::
  "(spawned_job \<Rightarrow> spawned_job) \<Rightarrow> pk list \<Rightarrow> node_store \<Rightarrow> bool \<Rightarrow> bool \<times> node_store" where
  "cancel_jobs_of cancel [] ob cancel_finished = (cancel_finished, ob)"
| "cancel_jobs_of cancel (n # ns) ob cancel_finished =
     (case job (ob n) of
        None \<Rightarrow> cancel_jobs_of cancel ns ob cancel_finished
      | Some j \<Rightarrow>
          if can_cancel j then
            cancel_jobs_of cancel ns (ob(n := (ob n)\<lparr>job := Some (cancel j)\<rparr>)) False
          else cancel_jobs_of cancel ns ob cancel_finished)"

definition cancel_node_jobs ::
  "(spawned_job \<Rightarrow> spawned_job) \<Rightarrow> pk dag \<Rightarrow> node_store \<Rightarrow> bool \<times> node_store" where
  "cancel_node_jobs cancel g ob = cancel_jobs_of cancel (nodes g) ob True"

fun all_nodes_done :: "node_store \<Rightarrow> pk list \<Rightarrow> bool" where
  "all_nodes_done ob [] = True"
| "all_nodes_done ob (n # ns) =
     (if \<not> do_not_run (ob n) \<and> job (ob n) = None \<and> unified_job_template (ob n) \<noteq> None then False
      else (case job (ob n) of
              Some j \<Rightarrow>
                if sj_status j \<notin> set finished_statuses then False else all_nodes_done ob ns
            | None \<Rightarrow> all_nodes_done ob ns))"

definition is_workflow_done :: "pk dag \<Rightarrow> node_store \<Rightarrow> bool" where
  "is_workflow_done g ob = all_nodes_done ob (nodes g)"

definition node_failed :: "wf_node \<Rightarrow> bool" where
  "node_failed obj \<longleftrightarrow>
     (if \<not> do_not_run obj \<and> unified_job_template obj = None then True
      else (case job obj of None \<Rightarrow> False | Some j \<Rightarrow> sj_status j \<in> {Failed, Canceled, Errored}))"

text \<open>
  The failure report: the ids (with the job status) of failed nodes without an error path, and
  the ids of nodes without a template and without an error path; \<open>None\<close> is \<open>(False, None)\<close>.
  The rendering of the two lists into one translated sentence is left out. A failed node with a
  template has a job, whose status is read.
\<close>

definition without_error_path :: "pk dag \<Rightarrow> pk \<Rightarrow> bool" where
  "without_error_path g n \<longleftrightarrow>
     length (get_children g n (Some failure_nodes)) + length (get_children g n (Some always_nodes)) = 0"

definition has_workflow_failed ::
  "pk dag \<Rightarrow> node_store \<Rightarrow> ((pk \<times> job_status) list \<times> pk list) option" where
  "has_workflow_failed g ob =
     (let failed_nodes = filter (\<lambda>n. node_failed (ob n)) (nodes g);
          reported = filter (without_error_path g) failed_nodes;
          no_ufjt = filter (\<lambda>n. unified_job_template (ob n) = None) reported;
          node_status = map (\<lambda>n. (n, sj_status (the (job (ob n)))))
                          (filter (\<lambda>n. unified_job_template (ob n) \<noteq> None) reported)
      in if reported = [] then None else Some (node_status, no_ufjt))"

section \<open>Marking nodes that will not run\<close>

fun are_all_nodes_dnr_decided :: "node_store \<Rightarrow> pk list \<Rightarrow> bool" where
  "are_all_nodes_dnr_decided ob [] = True"
| "are_all_nodes_dnr_decided ob (n # ns) =
     (if \<not> do_not_run (ob n) \<and> job (ob n) = None \<and> unified_job_template (ob n) \<noteq> None then False
      else are_all_nodes_dnr_decided ob ns)"

fun should_mark_node_dnr :: "pk dag \<Rightarrow> node_store \<Rightarrow> pk \<Rightarrow> pk list \<Rightarrow> bool" where
  "should_mark_node_dnr g ob n [] = True"
| "should_mark_node_dnr g ob n (p # ps) =
     (if do_not_run (ob p) then should_mark_node_dnr g ob n ps
      else (case job (ob p) of
              Some j \<Rightarrow>
                if sj_status j = Successful then
                  (if n \<in> set (get_children g p (Some success_nodes) @
                              get_children g p (Some always_nodes))
                   then False else should_mark_node_dnr g ob n ps)
                else if sj_status j \<in> {Failed, Errored, Canceled} then
                  (if n \<in> set (get_children g p (Some failure_nodes) @
                              get_children g p (Some always_nodes))
                   then False else should_mark_node_dnr g ob n ps)
                else False
            | None \<Rightarrow>
                if \<not> do_not_run (ob p) \<and> unified_job_template (ob p) = None then
                  (if n \<in> set (get_children g p (Some failure_nodes) @
                              get_children g p (Some always_nodes))
                   then False else should_mark_node_dnr g ob n ps)
                else False))"

definition dnr_condition :: "pk dag \<Rightarrow> node_store \<Rightarrow> pk \<Rightarrow> bool" where
  "dnr_condition g ob n \<longleftrightarrow>
     (let parent_nodes = get_parents g n None
      in if all_parents_must_converge (ob n) then
           list_ex (\<lambda>p. do_not_run (ob p)) parent_nodes \<or>
           \<not> all_parents_met_convergence_criteria g ob n
         else if are_all_nodes_dnr_decided ob parent_nodes then
           should_mark_node_dnr g ob n parent_nodes
         else False)"

definition mark_dnr_step :: "pk dag \<Rightarrow> pk \<Rightarrow> node_store \<times> pk list \<Rightarrow> node_store \<times> pk list" where
  "mark_dnr_step g n st =
     (let ob = fst st; marked = snd st
      in if \<not> do_not_run (ob n) \<and> job (ob n) = None \<and> n \<notin> set (get_root_nodes g) then
           (if dnr_condition g ob n then
              (ob(n := (ob n)\<lparr>do_not_run := True\<rparr>), marked @ [n])
            else st)
         else st)"

text \<open>\<open>frames\<close> is the stack left for the topological sort, as in its model.\<close>

definition mark_dnr_nodes :: "nat \<Rightarrow> pk dag \<Rightarrow> node_store \<Rightarrow> (node_store \<times> pk list) option" where
  "mark_dnr_nodes frames g ob =
     (case sort_nodes_topological frames g of
        None \<Rightarrow> None
      | Some ns \<Rightarrow> Some (fold (mark_dnr_step g) ns (ob, [])))"


section \<open>The graph represents the edge tables\<close>

lemma children_add_edge:
  assumes inv: "dag_inv d" and e: "add_edge u v lab d = (None, d')" and l: "l \<noteq> []" "lab \<noteq> []"
  shows "y \<in> set (get_children d' x (Some l)) \<longleftrightarrow>
     y \<in> set (get_children d x (Some l)) \<or> (x = u \<and> y = v \<and> l = lab)"
proof -
  from e obtain i j where u: "find_ord d u = Some i" and v: "find_ord d v = Some j"
    by (auto simp: add_edge_def Let_def split: option.splits prod.splits)
  have d': "d' = d\<lparr>root_nodes := filter (\<lambda>r. r \<noteq> j) (root_nodes d),
       node_from_edges_by_label := append_edge (node_from_edges_by_label d) lab i j,
       node_to_edges_by_label := append_edge (node_to_edges_by_label d) lab j i\<rparr>"
    using e add_edge_Some [OF inv u v, of lab] by simp
  have ord: "find_ord d' z = find_ord d z" for z by (simp add: d' find_ord_def)
  have one: "find_ord d z = Some k \<longleftrightarrow> z = w" if "find_ord d w = Some k" for z w k
    using that dag_inv_ord [OF inv] by metis
  note iu = one [OF u] and jv = one [OF v]
  have mem: "j' \<in> set (edges_at (node_from_edges_by_label d') l i') \<longleftrightarrow>
      j' \<in> set (edges_at (node_from_edges_by_label d) l i') \<or> (l = lab \<and> i' = i \<and> j' = j)" for i' j'
    by (auto simp: d' edges_at_append_edge)
  show ?thesis
    unfolding children_label_iff [OF dag_inv_add_edge [OF inv e l(2)] l(1)]
      children_label_iff [OF inv l(1)] ord mem
    using iu jv by blast
qed

lemma add_edge_nodes: "add_edge u v lab d = (None, d') \<Longrightarrow> nodes d' = nodes d"
  by (auto simp: add_edge_def Let_def split: option.splits prod.splits)

lemma add_edge_ok: "dag_inv d \<Longrightarrow> u \<in> set (nodes d) \<Longrightarrow> v \<in> set (nodes d) \<Longrightarrow>
    \<exists>d'. add_edge u v lab d = (None, d')"
  using dag_inv_ord_None [of d u] dag_inv_ord_None [of d v]
  by (auto simp: add_edge_def Let_def split: option.splits)

lemma add_edges_correct:
  assumes lab: "lab \<noteq> []" and wfn: "wfn = (\<lambda>i. if i \<in> set (nodes g) then Some i else None)"
    and inv: "dag_inv g"
  shows "(case add_edges wfn lab es g of
      Inl e \<Rightarrow> \<not> set es \<subseteq> set (nodes g) \<times> set (nodes g)
    | Inr g' \<Rightarrow> set es \<subseteq> set (nodes g) \<times> set (nodes g) \<and> dag_inv g' \<and> nodes g' = nodes g \<and>
        (\<forall>x y l. l \<noteq> [] \<longrightarrow> y \<in> set (get_children g' x (Some l)) \<longleftrightarrow>
           y \<in> set (get_children g x (Some l)) \<or> (l = lab \<and> (x, y) \<in> set es)))"
  using wfn inv
proof (induction es arbitrary: g)
  case Nil
  then show ?case by simp
next
  case (Cons e es)
  obtain a b where e: "e = (a, b)" by force
  show ?case
  proof (cases "a \<in> set (nodes g) \<and> b \<in> set (nodes g)")
    case False
    with Cons.prems(1) e show ?thesis by auto
  next
    case True
    with add_edge_ok [OF Cons.prems(2)] obtain g1 where g1: "add_edge a b lab g = (None, g1)" by blast
    note ch = children_add_edge [OF Cons.prems(2) g1 _ lab]
    have step: "add_edges wfn lab (e # es) g = add_edges wfn lab es g1"
      using True g1 Cons.prems(1) e by simp
    have n1: "nodes g1 = nodes g" by (rule add_edge_nodes [OF g1])
    note IH = Cons.IH [of g1, unfolded n1, OF Cons.prems(1) dag_inv_add_edge [OF Cons.prems(2) g1 lab]]
    show ?thesis
    proof (cases "add_edges wfn lab es g1")
      case (Inl err)
      with IH step show ?thesis by auto
    next
      case (Inr g')
      with IH have "dag_inv g'" "nodes g' = nodes g" "set es \<subseteq> set (nodes g) \<times> set (nodes g)"
        and c: "\<And>x y l. l \<noteq> [] \<Longrightarrow> y \<in> set (get_children g' x (Some l)) \<longleftrightarrow>
           y \<in> set (get_children g1 x (Some l)) \<or> (l = lab \<and> (x, y) \<in> set es)"
        by simp_all
      then show ?thesis using True unfolding step Inr by (simp add: e c ch) blast
    qed
  qed
qed

lemma add_edges_Inl:
  assumes "add_edges (\<lambda>i. if i \<in> set (nodes g) then Some i else None) lab es g = Inl e"
    "lab \<noteq> []" "dag_inv g"
  shows "\<not> set es \<subseteq> set (nodes g) \<times> set (nodes g)"
  using add_edges_correct [OF assms(2) refl assms(3), of es] assms(1) by simp

lemma add_edges_Inr:
  assumes "add_edges (\<lambda>i. if i \<in> set (nodes g) then Some i else None) lab es g = Inr g'"
    "lab \<noteq> []" "dag_inv g"
  shows "set es \<subseteq> set (nodes g) \<times> set (nodes g)" and "dag_inv g'" and "nodes g' = nodes g"
    and "l \<noteq> [] \<Longrightarrow> y \<in> set (get_children g' x (Some l)) \<longleftrightarrow>
       y \<in> set (get_children g x (Some l)) \<or> (l = lab \<and> (x, y) \<in> set es)"
  using add_edges_correct [OF assms(2) refl assms(3), of es] assms(1) by simp_all

lemma fold_add_node:
  "dag_inv d \<Longrightarrow> dag_inv (fold add_node ns d) \<and> set (nodes (fold add_node ns d)) = set (nodes d) \<union> set ns \<and>
     node_from_edges_by_label (fold add_node ns d) = node_from_edges_by_label d"
proof (induction ns arbitrary: d)
  case (Cons n ns)
  have "set (nodes (add_node n d)) = insert n (set (nodes d))"
    using dag_inv_ord_None [OF Cons.prems, of n] by (auto simp: add_node_def Let_def)
  moreover have "node_from_edges_by_label (add_node n d) = node_from_edges_by_label d"
    by (simp add: add_node_def Let_def)
  ultimately show ?case
    using Cons.IH [OF dag_inv_add_node [OF Cons.prems, of n]] by auto
qed simp

lemma build_graph_spec:
  "case build_graph ns s f a of
     Inl e \<Rightarrow> \<not> set (s @ f @ a) \<subseteq> set ns \<times> set ns
   | Inr g \<Rightarrow> set (s @ f @ a) \<subseteq> set ns \<times> set ns \<and> dag_inv g \<and> set (nodes g) = set ns \<and>
       (\<forall>x y. (y \<in> set (get_children g x (Some success_nodes)) \<longleftrightarrow> (x, y) \<in> set s) \<and>
              (y \<in> set (get_children g x (Some failure_nodes)) \<longleftrightarrow> (x, y) \<in> set f) \<and>
              (y \<in> set (get_children g x (Some always_nodes)) \<longleftrightarrow> (x, y) \<in> set a) \<and>
              (y \<in> set (get_children g x None) \<longleftrightarrow> (x, y) \<in> set (s @ f @ a)))"
proof -
  let ?g0 = "fold add_node ns empty_dag :: pk dag"
  let ?w = "\<lambda>i. if i \<in> set ns then Some i else None"
  have g0: "dag_inv ?g0" "set (nodes ?g0) = set ns" "node_from_edges_by_label ?g0 = []"
    using fold_add_node [OF dag_inv_empty, of ns] by (auto simp: empty_dag_def)
  have none: "get_children ?g0 x (Some l) = []" if "l \<noteq> []" for x l
    using that g0(3) by (simp add: get_children_def get_children_by_label_def split: option.splits)
  show ?thesis
  proof (cases "add_edges ?w success_nodes s ?g0")
    case (Inl e)
    with add_edges_Inl [of ?g0 success_nodes s e] g0 show ?thesis by (auto simp: build_graph_def)
  next
    case s1: (Inr g1)
    note r1 = add_edges_Inr [of ?g0 success_nodes s g1, unfolded g0(2), OF s1 _ g0(1), simplified]
    have n1: "set (nodes g1) = set ns" using r1(3) g0(2) by simp
    show ?thesis
    proof (cases "add_edges ?w failure_nodes f g1")
      case (Inl e)
      with add_edges_Inl [of g1 failure_nodes f e] n1 r1(2) s1 show ?thesis
        by (auto simp: build_graph_def)
    next
      case s2: (Inr g2)
      note r2 = add_edges_Inr [of g1 failure_nodes f g2, unfolded n1, OF s2 _ r1(2), simplified]
      have n2: "set (nodes g2) = set ns" using r2(3) n1 by simp
      have eq: "build_graph ns s f a = add_edges ?w always_nodes a g2"
        by (simp add: build_graph_def s1 s2)
      show ?thesis
      proof (cases "add_edges ?w always_nodes a g2")
        case (Inl e)
        with add_edges_Inl [of g2 always_nodes a e] n2 r2(2) show ?thesis by (auto simp: eq)
      next
        case s3: (Inr g3)
        note r3 = add_edges_Inr [of g2 always_nodes a g3, unfolded n2, OF s3 _ r2(2), simplified]
        have "set (nodes g3) = set ns" using r3(3) n2 by simp
        moreover have "y \<in> set (get_children g3 x None) \<longleftrightarrow> (x, y) \<in> set (s @ f @ a)" for x y
          unfolding children_any_iff [OF r3(2)] using r1(4) r2(4) r3(4) none by auto
        ultimately show ?thesis using r1 r2 r3 by (simp add: eq s3 none)
      qed
    qed
  qed
qed

text \<open>
  Building a workflow graph from the node and edge tables succeeds exactly when every edge
  joins two listed nodes. The graph it returns is well formed, has exactly the listed nodes, and
  along each of the three labels it has exactly the edges of that table and no others; a failure is a missing
  key, never a graph with some of the edges.
\<close>

theorem build_graph_correct:
  "case build_graph ns s f a of
     Inl e \<Rightarrow> \<not> set (s @ f @ a) \<subseteq> set ns \<times> set ns
   | Inr g \<Rightarrow> set (s @ f @ a) \<subseteq> set ns \<times> set ns \<and> dag_inv g \<and> set (nodes g) = set ns \<and>
       (\<forall>x y. (y \<in> set (get_children g x (Some success_nodes)) \<longleftrightarrow> (x, y) \<in> set s) \<and>
              (y \<in> set (get_children g x (Some failure_nodes)) \<longleftrightarrow> (x, y) \<in> set f) \<and>
              (y \<in> set (get_children g x (Some always_nodes)) \<longleftrightarrow> (x, y) \<in> set a) \<and>
              (y \<in> set (get_children g x None) \<longleftrightarrow> (x, y) \<in> set (s @ f @ a)))"
  by (rule build_graph_spec)

lemma build_graph_ok:
  assumes "set (s @ f @ a) \<subseteq> set ns \<times> set ns"
  obtains g where "build_graph ns s f a = Inr g" "dag_inv g" "set (nodes g) = set ns"
    "edge_rel g = set (s @ f @ a)"
  using assms build_graph_spec [where ns = ns and s = s and f = f and a = a]
  by (cases "build_graph ns s f a") (auto simp: edge_rel_def)

lemma increasing_acyclic:
  fixes R :: "(nat \<times> nat) set"
  shows "(\<And>x y. (x, y) \<in> R \<Longrightarrow> x < y) \<Longrightarrow> acyclic R"
  by (rule acyclic_subset [OF wf_acyclic [OF wf_less_than]]) auto

lemma init_graph_inv: "init_graph src = Inr g \<Longrightarrow> dag_inv g"
  using build_graph_spec by (cases src) (fastforce split: sum.splits)+

section \<open>The breadth-first choice of nodes\<close>

text \<open>
  A node is actively reached if it is a root or follows an actively reached node along an edge
  that the outcome of that node selects.
\<close>

inductive active_reach :: "pk dag \<Rightarrow> node_store \<Rightarrow> pk \<Rightarrow> bool" for g ob where
  root: "r \<in> set (get_root_nodes g) \<Longrightarrow> active_reach g ob r"
| follow: "active_reach g ob u \<Longrightarrow> v \<in> set (followed_children g ob u) \<Longrightarrow> active_reach g ob v"

lemma followed_is_child:
  assumes "dag_inv g" "v \<in> set (followed_children g ob u)"
  shows "v \<in> set (get_children g u None)"
  using assms sdag.label_child [OF assms(1), of _ v u]
  by (auto simp: followed_children_def split: if_splits option.splits)

lemma active_reach_node:
  assumes inv: "dag_inv g" shows "active_reach g ob n \<Longrightarrow> n \<in> set (nodes g)"
proof (induction rule: active_reach.induct)
  case (root r)
  with sdag.roots_iff [OF inv] show ?case by blast
next
  case (follow u v)
  with followed_is_child [OF inv] sdag.child_node [OF inv] show ?case by blast
qed

definition bfs_inv :: "pk dag \<Rightarrow> node_store \<Rightarrow> pk list \<Rightarrow> pk list \<Rightarrow> pk set \<Rightarrow> bool" where
  "bfs_inv g ob queue found visited \<longleftrightarrow>
     distinct found \<and> set found = {n \<in> visited. ready_to_run g ob n} \<and>
     visited \<union> set queue \<subseteq> {n. active_reach g ob n} \<and>
     set (get_root_nodes g) \<subseteq> visited \<union> set queue \<and>
     (\<forall>v \<in> visited. set (followed_children g ob v) \<subseteq> visited \<union> set queue)"

lemma bfs_inv_step:
  assumes "bfs_inv g ob (n # rest) found visited"
  shows "n \<in> visited \<Longrightarrow> bfs_inv g ob rest found visited"
    and "n \<notin> visited \<Longrightarrow> bfs_inv g ob (rest @ followed_children g ob n)
           (if ready_to_run g ob n then found @ [n] else found) (insert n visited)"
  using assms by (auto simp: bfs_inv_def intro: active_reach.follow)

lemma bfs_loop_correct:
  assumes inv: "dag_inv g"
  shows "bfs_inv g ob queue found visited \<Longrightarrow>
    \<exists>ns. bfs_loop g ob queue found visited = Some ns \<and> distinct ns \<and>
      set ns = {n. active_reach g ob n \<and> ready_to_run g ob n}"
proof (induction "(set (nodes g) - visited, queue)" arbitrary: queue found visited
    rule: wf_induct_rule [OF wf_lex_prod [OF wf_finite_psubset wf_measure [of length]]])
  case (1 queue visited found)
  note IH = 1(1) and bi = 1(2)
  show ?case
  proof (cases queue)
    case Nil
    have "n \<in> visited" if "active_reach g ob n" for n
      using that by (induction rule: active_reach.induct) (use bi Nil in \<open>auto simp: bfs_inv_def\<close>)
    with bi Nil show ?thesis by (auto simp: bfs_inv_def bfs_loop.simps)
  next
    case (Cons n rest)
    note step = bfs_inv_step [OF bi [unfolded Cons]]
    show ?thesis
    proof (cases "n \<in> visited")
      case True
      have "((set (nodes g) - visited, rest), (set (nodes g) - visited, queue))
          \<in> finite_psubset <*lex*> measure length" using Cons by simp
      from IH [OF this step(1) [OF True]] True show ?thesis
        by (simp add: Cons bfs_loop.simps [of g ob "n # rest"])
    next
      case False
      have "n \<in> set (nodes g)"
        using bi Cons active_reach_node [OF inv] by (auto simp: bfs_inv_def)
      with False have "((set (nodes g) - insert n visited, rest @ followed_children g ob n),
          (set (nodes g) - visited, queue)) \<in> finite_psubset <*lex*> measure length"
        by (auto simp: finite_psubset_def)
      from IH [OF this step(2) [OF False]] False show ?thesis
        by (simp add: Cons bfs_loop.simps [of g ob "n # rest"])
    qed
  qed
qed

lemma bfs_nodes_to_run_correct:
  assumes "dag_inv g"
  obtains ns where "bfs_nodes_to_run g ob = Some ns" "distinct ns"
    "\<And>n. n \<in> set ns \<longleftrightarrow> active_reach g ob n \<and> ready_to_run g ob n"
proof -
  have "bfs_inv g ob (get_root_nodes g) [] {}"
    by (auto simp: bfs_inv_def intro: active_reach.root)
  from bfs_loop_correct [OF assms this] that show ?thesis by (auto simp: bfs_nodes_to_run_def)
qed

text \<open>
  The choice of nodes to run always returns, cycles or not, and returns without repetition
  exactly the actively reached nodes that are ready: not marked, without a job, with a template,
  with every relevant parent finished and, for an ALL-convergence node, with the convergence
  criteria met.
\<close>

theorem bfs_nodes_to_run_iff:
  assumes inv: "dag_inv g"
  shows "\<exists>ns. bfs_nodes_to_run g ob = Some ns \<and> distinct ns \<and>
    set ns = {n. active_reach g ob n \<and> ready_to_run g ob n}"
  by (rule bfs_nodes_to_run_correct [OF inv, of ob]) auto

lemma all_nodes_done_iff:
  "all_nodes_done ob ns \<longleftrightarrow> (\<forall>n \<in> set ns.
     (case job (ob n) of
        None \<Rightarrow> do_not_run (ob n) \<or> unified_job_template (ob n) = None
      | Some j \<Rightarrow> sj_status j \<in> set finished_statuses))"
  by (induction ns) (auto split: option.splits)

lemma done_runs_nothing:
  assumes inv: "dag_inv g" and fin: "is_workflow_done g ob"
  shows "bfs_nodes_to_run g ob = Some []"
proof (rule bfs_nodes_to_run_correct [OF inv, of ob])
  fix ns assume ns: "bfs_nodes_to_run g ob = Some ns"
    and iff: "\<And>n. n \<in> set ns \<longleftrightarrow> active_reach g ob n \<and> ready_to_run g ob n"
  have "\<not> ready_to_run g ob n" if "active_reach g ob n" for n
    using fin active_reach_node [OF inv that]
    by (auto simp: is_workflow_done_def all_nodes_done_iff ready_to_run_def split: option.splits)
  with iff have "n \<notin> set ns" for n by blast
  then have "ns = []" by (metis last_in_set)
  with ns show ?thesis by simp
qed

text \<open>
  A workflow that is done has nothing left to run: once every node is marked, has a finished
  job or has lost its template, the choice of nodes is empty.
\<close>

theorem done_workflow_runs_nothing:
  assumes inv: "dag_inv g" and fin: "is_workflow_done g ob"
  shows "bfs_nodes_to_run g ob = Some []"
  by (rule done_runs_nothing [OF inv fin])

section \<open>Marking\<close>

text \<open>The decision to mark a node reads only the parents of the node and its convergence flag.\<close>

lemma met_cong:
  "(\<And>p. p \<in> set ps \<Longrightarrow> ob p = ob' p) \<Longrightarrow> parents_met_criteria g ob n ps = parents_met_criteria g ob' n ps"
  by (induction ps) (simp_all split: option.splits)

lemma decided_cong:
  "(\<And>p. p \<in> set ps \<Longrightarrow> ob p = ob' p) \<Longrightarrow> are_all_nodes_dnr_decided ob ps = are_all_nodes_dnr_decided ob' ps"
  by (induction ps) simp_all

lemma should_mark_cong:
  "(\<And>p. p \<in> set ps \<Longrightarrow> ob p = ob' p) \<Longrightarrow> should_mark_node_dnr g ob n ps = should_mark_node_dnr g ob' n ps"
proof (induction ps)
  case (Cons a ps)
  then have "ob a = ob' a" "should_mark_node_dnr g ob n ps = should_mark_node_dnr g ob' n ps"
    by simp_all
  then show ?case by (simp only: should_mark_node_dnr.simps)
qed simp

lemma any_marked_cong:
  "(\<And>p. p \<in> set ps \<Longrightarrow> ob p = ob' p) \<Longrightarrow>
     list_ex (\<lambda>p. do_not_run (ob p)) ps = list_ex (\<lambda>p. do_not_run (ob' p)) ps"
  by (induction ps) simp_all

lemmas relevant_cong = met_cong decided_cong should_mark_cong any_marked_cong

lemma dnr_condition_cong:
  assumes "\<And>p. p \<in> set (get_parents g n None) \<Longrightarrow> ob p = ob' p"
    and "all_parents_must_converge (ob n) = all_parents_must_converge (ob' n)"
  shows "dnr_condition g ob n = dnr_condition g ob' n"
  unfolding dnr_condition_def all_parents_met_convergence_criteria_def Let_def assms(2)
  using relevant_cong [of "get_parents g n None" ob ob', OF assms(1)] by simp

text \<open>What marking may do to one node: set its flag, and nothing else.\<close>

definition marks :: "pk dag \<Rightarrow> node_store \<Rightarrow> pk \<Rightarrow> bool" where
  "marks g ob n \<longleftrightarrow> \<not> do_not_run (ob n) \<and> job (ob n) = None \<and> n \<notin> set (get_root_nodes g) \<and>
     dnr_condition g ob n"

lemma mark_dnr_step_eq:
  "mark_dnr_step g n (ob, ms) =
     (if marks g ob n then (ob(n := (ob n)\<lparr>do_not_run := True\<rparr>), ms @ [n]) else (ob, ms))"
  by (auto simp: mark_dnr_step_def marks_def Let_def)

lemma fold_mark_frame:
  "fold (mark_dnr_step g) ns (ob, ms) = (ob', ms') \<Longrightarrow>
     (\<forall>m. m \<notin> set ns \<longrightarrow> ob' m = ob m) \<and>
     (\<forall>m. ob' m = ob m \<or> (job (ob m) = None \<and> \<not> do_not_run (ob m) \<and> m \<notin> set (get_root_nodes g) \<and>
        ob' m = (ob m)\<lparr>do_not_run := True\<rparr>))"
proof (induction ns arbitrary: ob ms)
  case (Cons n ns)
  show ?case
  proof (cases "marks g ob n")
    case False
    with Cons show ?thesis by (auto simp: mark_dnr_step_eq)
  next
    case True
    let ?ob1 = "ob(n := (ob n)\<lparr>do_not_run := True\<rparr>)"
    have "fold (mark_dnr_step g) ns (?ob1, ms @ [n]) = (ob', ms')"
      using Cons.prems True by (simp add: mark_dnr_step_eq)
    from Cons.IH [OF this] have fr: "m \<notin> set ns \<Longrightarrow> ob' m = ?ob1 m"
      and ch: "ob' m = ?ob1 m \<or> (job (?ob1 m) = None \<and> \<not> do_not_run (?ob1 m) \<and>
        m \<notin> set (get_root_nodes g) \<and> ob' m = (?ob1 m)\<lparr>do_not_run := True\<rparr>)" for m
      by blast+
    have "ob' m = ob m \<or> (job (ob m) = None \<and> \<not> do_not_run (ob m) \<and> m \<notin> set (get_root_nodes g) \<and>
        ob' m = (ob m)\<lparr>do_not_run := True\<rparr>)" for m
      using ch [of m] True by (cases "m = n") (auto simp: marks_def)
    moreover have "ob' m = ob m" if "m \<notin> set (n # ns)" for m
      using fr [of m] that by simp
    ultimately show ?thesis by blast
  qed
qed simp

lemma fold_mark_spec:
  assumes "fold (mark_dnr_step g) ns (ob, ms) = (ob', ms')" "distinct ns"
    "sorted_wrt (\<lambda>u v. v \<notin> set (get_parents g u None)) ns"
    "\<forall>n \<in> set ns. n \<notin> set (get_parents g n None)"
  shows "(\<forall>n \<in> set ns. do_not_run (ob' n) \<longleftrightarrow> do_not_run (ob n) \<or>
      (job (ob n) = None \<and> n \<notin> set (get_root_nodes g) \<and> dnr_condition g ob' n)) \<and>
    ms' = ms @ filter (\<lambda>n. do_not_run (ob' n) \<and> \<not> do_not_run (ob n)) ns"
  using assms
proof (induction ns arbitrary: ob ms)
  case (Cons n ns)
  obtain ob1 ms1 where s1: "mark_dnr_step g n (ob, ms) = (ob1, ms1)" by force
  have rest: "fold (mark_dnr_step g) ns (ob1, ms1) = (ob', ms')" using Cons.prems(1) s1 by simp
  note fr = fold_mark_frame [OF rest] and IH = Cons.IH [OF rest]
  have ob1: "ob1 = (if marks g ob n then ob(n := (ob n)\<lparr>do_not_run := True\<rparr>) else ob)"
    and ms1: "ms1 = (if marks g ob n then ms @ [n] else ms)"
    using s1 by (auto simp: mark_dnr_step_eq split: if_splits)
  have n: "ob' n = ob1 n" using fr Cons.prems(2) by simp
  have "ob p = ob' p" if p: "p \<in> set (get_parents g n None)" for p
  proof -
    have "p \<noteq> n" using p Cons.prems(4) by auto
    moreover have "p \<notin> set ns" using p Cons.prems(3) by auto
    ultimately show ?thesis using fr by (simp add: ob1)
  qed
  then have cond: "dnr_condition g ob n = dnr_condition g ob' n"
    by (rule dnr_condition_cong) (auto simp: n ob1)
  have head: "do_not_run (ob' n) \<longleftrightarrow> do_not_run (ob n) \<or> (job (ob n) = None \<and>
      n \<notin> set (get_root_nodes g) \<and> dnr_condition g ob' n)"
    using cond by (auto simp: n ob1 marks_def)
  have other: "ob1 m = ob m" if "m \<in> set ns" for m
    using that Cons.prems(2) by (auto simp: ob1)
  have mk: "marks g ob n \<longleftrightarrow> do_not_run (ob' n) \<and> \<not> do_not_run (ob n)"
    by (auto simp: n ob1 marks_def)
  from IH Cons.prems(2-4) have tl: "\<forall>m \<in> set ns. do_not_run (ob' m) \<longleftrightarrow> do_not_run (ob1 m) \<or>
      (job (ob1 m) = None \<and> m \<notin> set (get_root_nodes g) \<and> dnr_condition g ob' m)"
    and ms': "ms' = ms1 @ filter (\<lambda>m. do_not_run (ob' m) \<and> \<not> do_not_run (ob1 m)) ns" by auto
  have "filter (\<lambda>m. do_not_run (ob' m) \<and> \<not> do_not_run (ob1 m)) ns =
      filter (\<lambda>m. do_not_run (ob' m) \<and> \<not> do_not_run (ob m)) ns"
    by (rule filter_cong) (simp_all add: other)
  with head tl other ms' ms1 mk show ?case by simp
qed simp

lemma mark_dnr_nodes_correct:
  assumes inv: "dag_inv g" and ac: "acyclic (edge_rel g)" and frames: "length (nodes g) \<le> frames"
  obtains ob' ms where "mark_dnr_nodes frames g ob = Some (ob', ms)" "distinct ms"
    "\<And>n. n \<in> set ms \<longleftrightarrow> do_not_run (ob' n) \<and> \<not> do_not_run (ob n)"
    "\<And>n. ob' n = ob n \<or> ob' n = (ob n)\<lparr>do_not_run := True\<rparr>"
    "\<And>n. n \<in> set (nodes g) \<Longrightarrow> do_not_run (ob' n) \<longleftrightarrow> do_not_run (ob n) \<or>
       (job (ob n) = None \<and> n \<notin> set (get_root_nodes g) \<and> dnr_condition g ob' n)"
proof -
  from topological_order [OF assms] obtain ns where s: "sort_nodes_topological frames g = Some ns"
    and d: "distinct ns" and sn: "set ns = set (nodes g)"
    and o: "sorted_wrt (\<lambda>u v. (v, u) \<notin> edge_rel g) ns" by blast
  have par: "(v, u) \<in> edge_rel g \<longleftrightarrow> v \<in> set (get_parents g u None)" for u v
    using sdag.parents_children [OF inv, of None v u] by (simp add: edge_rel_def)
  have "\<forall>n \<in> set ns. n \<notin> set (get_parents g n None)"
    using ac by (auto simp: acyclic_def simp flip: par)
  moreover obtain ob' ms where r: "fold (mark_dnr_step g) ns (ob, []) = (ob', ms)" by force
  ultimately have spec: "\<forall>n \<in> set ns. do_not_run (ob' n) \<longleftrightarrow> do_not_run (ob n) \<or>
      (job (ob n) = None \<and> n \<notin> set (get_root_nodes g) \<and> dnr_condition g ob' n)"
    "ms = filter (\<lambda>n. do_not_run (ob' n) \<and> \<not> do_not_run (ob n)) ns"
    using fold_mark_spec [OF r d] o by (simp_all add: par)
  have fr: "ob' n = ob n \<or> ob' n = (ob n)\<lparr>do_not_run := True\<rparr>" "n \<notin> set ns \<longrightarrow> ob' n = ob n" for n
    using fold_mark_frame [OF r] by blast+
  show ?thesis
  proof (rule that)
    show "mark_dnr_nodes frames g ob = Some (ob', ms)" by (simp add: mark_dnr_nodes_def s r)
    show "n \<in> set ms \<longleftrightarrow> do_not_run (ob' n) \<and> \<not> do_not_run (ob n)" for n
      using spec(2) fr(2) [of n] by auto
  qed (use spec d fr sn in auto)
qed

text \<open>
  C20. On an acyclic graph one marking pass reaches the fixed point. It returns; the only change it
  makes is to set the flag of some nodes, which it returns without repetition; and in the
  resulting store a node is marked exactly if it was marked before or it is a non-root node
  without a job whose marking condition holds for the final state of its parents. So a second
  pass would find nothing to mark.
\<close>

theorem mark_dnr_nodes_fixpoint:
  assumes inv: "dag_inv g" and ac: "acyclic (edge_rel g)" and frames: "length (nodes g) \<le> frames"
  shows "\<exists>ob' ms. mark_dnr_nodes frames g ob = Some (ob', ms) \<and> distinct ms \<and>
    set ms = {n. do_not_run (ob' n) \<and> \<not> do_not_run (ob n)} \<and>
    (\<forall>n. ob' n = ob n \<or> ob' n = (ob n)\<lparr>do_not_run := True\<rparr>) \<and>
    (\<forall>n \<in> set (nodes g). do_not_run (ob' n) \<longleftrightarrow> do_not_run (ob n) \<or>
       (job (ob n) = None \<and> n \<notin> set (get_root_nodes g) \<and> dnr_condition g ob' n)) \<and>
    mark_dnr_nodes frames g ob' = Some (ob', [])"
proof (rule mark_dnr_nodes_correct [OF assms, of ob])
  fix ob' ms
  assume r: "mark_dnr_nodes frames g ob = Some (ob', ms)" and d: "distinct ms"
    and ms: "\<And>n. n \<in> set ms \<longleftrightarrow> do_not_run (ob' n) \<and> \<not> do_not_run (ob n)"
    and fr: "\<And>n. ob' n = ob n \<or> ob' n = (ob n)\<lparr>do_not_run := True\<rparr>"
    and fix': "\<And>n. n \<in> set (nodes g) \<Longrightarrow> do_not_run (ob' n) \<longleftrightarrow> do_not_run (ob n) \<or>
       (job (ob n) = None \<and> n \<notin> set (get_root_nodes g) \<and> dnr_condition g ob' n)"
  from topological_order [OF assms] obtain ns where s: "sort_nodes_topological frames g = Some ns"
    and sn: "set ns = set (nodes g)" by blast
  have job': "job (ob' n) = job (ob n)" for n using fr [of n] by auto
  have "\<not> marks g ob' n" if "n \<in> set ns" for n
    using fix' [of n] that sn by (auto simp: marks_def job')
  then have "fold (mark_dnr_step g) ns (ob', []) = (ob', [])"
    by (induction ns) (simp_all add: mark_dnr_step_eq)
  with s have "mark_dnr_nodes frames g ob' = Some (ob', [])" by (simp add: mark_dnr_nodes_def)
  with r d ms fr fix' show ?thesis by (intro exI [of _ ob'] exI [of _ ms]) blast
qed

end
