(* ===== verification/Dag_Progress.thy ===== *)
theory Dag_Progress
  imports Dag_Workflow
begin

text \<open>
  Consequences for whole workflows: a marked workflow whose jobs have finished is either done or
  has a node to run (under the condition that the code needs for this), what the failure report
  says, what cancelling does, and two inputs on which the graph code goes wrong.
\<close>

section \<open>Progress\<close>

text \<open>
  The condition. A parent errored if its job ended as \<open>error\<close> or \<open>canceled\<close>, or if it lost its
  template before it got a job and has not been marked; a parent that is still waiting, running
  or marked did not. The traversal follows only the failure and always edges of such a parent.
  Errors block an ALL-convergence node that has neither a job nor a mark if all its parents
  errored and none of them has such an edge to it.
\<close>

definition parent_errored :: "wf_node \<Rightarrow> bool" where
  "parent_errored x \<longleftrightarrow> (case job x of
     None \<Rightarrow> \<not> do_not_run x \<and> unified_job_template x = None
   | Some j \<Rightarrow> sj_status j \<in> {Errored, Canceled})"

definition errors_block :: "pk dag \<Rightarrow> node_store \<Rightarrow> pk \<Rightarrow> bool" where
  "errors_block g ob n \<longleftrightarrow> all_parents_must_converge (ob n) \<and> \<not> do_not_run (ob n) \<and> job (ob n) = None \<and>
     get_parents g n None \<noteq> [] \<and>
     (\<forall>p \<in> set (get_parents g n None). parent_errored (ob p) \<and>
        n \<notin> set (get_children g p (Some failure_nodes) @ get_children g p (Some always_nodes)))"

definition error_edges_ok :: "pk dag \<Rightarrow> node_store \<Rightarrow> bool" where
  "error_edges_ok g ob \<longleftrightarrow> (\<forall>n \<in> set (nodes g). \<not> errors_block g ob n)"

lemma parents_met_iff:
  "parents_met_criteria g ob n ps \<longleftrightarrow> (\<forall>p \<in> set ps. \<forall>j. job (ob p) = Some j \<longrightarrow>
     (sj_status j = Successful \<longrightarrow> p \<in> set (get_parents g n (Some success_nodes)) \<union>
        set (get_parents g n (Some always_nodes))) \<and>
     (sj_status j = Failed \<longrightarrow> p \<in> set (get_parents g n (Some failure_nodes)) \<union>
        set (get_parents g n (Some always_nodes))))"
proof (induction ps)
  case (Cons p ps)
  show ?case
  proof (cases "job (ob p)")
    case None
    then show ?thesis using Cons by simp
  next
    case (Some j)
    then show ?thesis using Cons by (cases "sj_status j") simp_all
  qed
qed simp

lemma decided_iff:
  "are_all_nodes_dnr_decided ob ps \<longleftrightarrow>
     (\<forall>p \<in> set ps. do_not_run (ob p) \<or> job (ob p) \<noteq> None \<or> unified_job_template (ob p) = None)"
  by (induction ps) auto

lemma relevant_finished_iff:
  "relevant_parents_finished ob ps \<longleftrightarrow>
     (\<forall>p \<in> set ps. do_not_run (ob p) \<or> unified_job_template (ob p) = None \<or>
        (\<exists>j. job (ob p) = Some j \<and> sj_status j \<in> set finished_statuses))"
  by (induction ps) (auto split: option.splits)

text \<open>A node is not marked only if an unmarked parent selects it or is still running.\<close>

lemma should_mark_iff:
  "should_mark_node_dnr g ob n ps \<longleftrightarrow>
     (\<forall>p \<in> set ps. do_not_run (ob p) \<or>
        (case job (ob p) of
           Some j \<Rightarrow> sj_status j \<in> set finished_statuses \<and> n \<notin> set (followed_children g ob p)
         | None \<Rightarrow> unified_job_template (ob p) = None \<and> n \<notin> set (followed_children g ob p)))"
proof (induction ps)
  case (Cons p ps)
  show ?case
  proof (cases "job (ob p)")
    case None
    with Cons show ?thesis by (auto simp: followed_children_def)
  next
    case (Some j)
    with Cons show ?thesis
      by (cases "sj_status j") (auto simp: followed_children_def finished_statuses_def)
  qed
qed simp

definition decided :: "wf_node \<Rightarrow> bool" where
  "decided x \<longleftrightarrow> do_not_run x \<or> job x \<noteq> None \<or> unified_job_template x = None"

lemma unmarked_active:
  assumes inv: "dag_inv g" and ac: "acyclic (edge_rel g)"
    and unm: "\<And>n. n \<in> set (nodes g) \<Longrightarrow> \<not> do_not_run (ob n) \<Longrightarrow> job (ob n) = None \<Longrightarrow>
      n \<notin> set (get_root_nodes g) \<Longrightarrow> \<not> dnr_condition g ob n"
    and fin: "\<And>n j. n \<in> set (nodes g) \<Longrightarrow> job (ob n) = Some j \<Longrightarrow> sj_status j \<in> set finished_statuses"
    and act: "\<And>n. n \<in> set (nodes g) \<Longrightarrow> job (ob n) \<noteq> None \<Longrightarrow> active_reach g ob n"
    and err: "error_edges_ok g ob"
  shows "n \<in> set (nodes g) \<Longrightarrow> \<not> do_not_run (ob n) \<Longrightarrow>
    (\<And>a. (a, n) \<in> (edge_rel g)\<^sup>+ \<Longrightarrow> decided (ob a)) \<Longrightarrow> active_reach g ob n"
proof (induction n rule: wf_induct_rule [OF finite_acyclic_wf [OF finite_edge_rel [OF inv] ac]])
  case (1 n)
  have par: "p \<in> set (get_parents g n None) \<longleftrightarrow> (p, n) \<in> edge_rel g" for p
    using sdag.parents_children [OF inv, of None p n] by (simp add: edge_rel_def)
  have up: "active_reach g ob p" if p: "(p, n) \<in> edge_rel g" "\<not> do_not_run (ob p)" for p
  proof (rule 1(1) [OF p(1) _ p(2)])
    show "p \<in> set (nodes g)" using edge_rel_nodes [OF inv] p(1) by auto
    show "decided (ob a)" if "(a, p) \<in> (edge_rel g)\<^sup>+" for a
      using 1(4) trancl_into_trancl [OF that p(1)] by blast
  qed
  have dec: "decided (ob p)" if "(p, n) \<in> edge_rel g" for p using 1(4) that by blast
  show ?case
  proof (cases "job (ob n) \<noteq> None \<or> n \<in> set (get_root_nodes g)")
    case True
    then show ?thesis using act [OF 1(2)] active_reach.root by blast
  next
    case False
    with unm [OF 1(2,3)] have nc: "\<not> dnr_condition g ob n" by blast
    have "\<exists>p. (p, n) \<in> edge_rel g \<and> \<not> do_not_run (ob p) \<and> n \<in> set (followed_children g ob p)"
    proof (cases "all_parents_must_converge (ob n)")
      case False
      with nc dec have "\<not> should_mark_node_dnr g ob n (get_parents g n None)"
        by (auto simp: dnr_condition_def decided_iff par decided_def)
      then obtain p where p: "(p, n) \<in> edge_rel g" "\<not> do_not_run (ob p)"
        and np: "\<not> (case job (ob p) of
           Some j \<Rightarrow> sj_status j \<in> set finished_statuses \<and> n \<notin> set (followed_children g ob p)
         | None \<Rightarrow> unified_job_template (ob p) = None \<and> n \<notin> set (followed_children g ob p))"
        by (auto simp: should_mark_iff par)
      moreover have "p \<in> set (nodes g)" using edge_rel_nodes [OF inv] p(1) by auto
      ultimately have "n \<in> set (followed_children g ob p)"
        using dec [OF p(1)] fin by (auto simp: decided_def split: option.splits)
      with p show ?thesis by blast
    next
      case True
      have "get_parents g n None \<noteq> []"
        using False 1(2) sdag.roots_iff [OF inv, of n] by auto
      moreover have "\<not> errors_block g ob n" using err 1(2) by (simp add: error_edges_ok_def)
      ultimately obtain p where p: "p \<in> set (get_parents g n None)"
        and er: "parent_errored (ob p) \<Longrightarrow>
          n \<in> set (get_children g p (Some failure_nodes) @ get_children g p (Some always_nodes))"
        using True False 1(3) by (auto simp: errors_block_def)
      have cov: "\<not> do_not_run (ob p)" "parents_met_criteria g ob n (get_parents g n None)"
        using nc True p by (auto simp: dnr_condition_def list_ex_iff all_parents_met_convergence_criteria_def)
      have pl: "p \<in> set (get_parents g n (Some l)) \<longleftrightarrow> n \<in> set (get_children g p (Some l))" if "l \<noteq> []" for l
        by (rule parents_children_label [OF inv that])
      have "n \<in> set (followed_children g ob p)"
      proof (cases "job (ob p)")
        case None
        with dec [of p] p cov(1) er show ?thesis
          by (auto simp: par decided_def parent_errored_def followed_children_def)
      next
        case (Some j)
        have "p \<in> set (nodes g)" using edge_rel_nodes [OF inv] p par by auto
        with fin Some have "sj_status j \<in> set finished_statuses" by blast
        with cov(2) p Some have met:
          "sj_status j = Successful \<Longrightarrow> n \<in> set (get_children g p (Some success_nodes)) \<union> set (get_children g p (Some always_nodes))"
          "sj_status j = Failed \<Longrightarrow> n \<in> set (get_children g p (Some failure_nodes)) \<union> set (get_children g p (Some always_nodes))"
          using pl by (auto simp: parents_met_iff)
        show ?thesis using \<open>sj_status j \<in> set finished_statuses\<close> met er Some cov(1)
          by (cases "sj_status j") (auto simp: parent_errored_def followed_children_def finished_statuses_def)
      qed
      with p cov(1) par show ?thesis by blast
    qed
    then show ?thesis using up active_reach.follow by blast
  qed
qed

text \<open>The store after a pass that marked nothing.\<close>

definition marked_out :: "nat \<Rightarrow> pk dag \<Rightarrow> node_store \<Rightarrow> bool" where
  "marked_out frames g ob \<longleftrightarrow> mark_dnr_nodes frames g ob = Some (ob, [])"

definition all_jobs_finished :: "pk dag \<Rightarrow> node_store \<Rightarrow> bool" where
  "all_jobs_finished g ob \<longleftrightarrow>
     (\<forall>n \<in> set (nodes g). case job (ob n) of None \<Rightarrow> True | Some j \<Rightarrow> sj_status j \<in> set finished_statuses)"

definition jobs_active :: "pk dag \<Rightarrow> node_store \<Rightarrow> bool" where
  "jobs_active g ob \<longleftrightarrow> (\<forall>n \<in> set (nodes g). job (ob n) \<noteq> None \<longrightarrow> active_reach g ob n)"

lemma undecided_ready:
  assumes inv: "dag_inv g" and ac: "acyclic (edge_rel g)" and frames: "length (nodes g) \<le> frames"
    and mk: "marked_out frames g ob" and fin: "all_jobs_finished g ob"
    and act: "jobs_active g ob" and err: "error_edges_ok g ob"
    and u: "u \<in> set (nodes g)" "\<not> decided (ob u)"
  shows "\<exists>n. active_reach g ob n \<and> ready_to_run g ob n"
proof -
  have unm: "\<not> dnr_condition g ob n"
    if "n \<in> set (nodes g)" "\<not> do_not_run (ob n)" "job (ob n) = None" "n \<notin> set (get_root_nodes g)" for n
  proof (rule mark_dnr_nodes_correct [OF inv ac frames, of ob])
    fix ob' ms
    assume "mark_dnr_nodes frames g ob = Some (ob', ms)"
      and f: "\<And>m. m \<in> set (nodes g) \<Longrightarrow> do_not_run (ob' m) \<longleftrightarrow> do_not_run (ob m) \<or>
        (job (ob m) = None \<and> m \<notin> set (get_root_nodes g) \<and> dnr_condition g ob' m)"
    with mk have "ob' = ob" by (simp add: marked_out_def)
    have "do_not_run (ob n) \<longleftrightarrow> do_not_run (ob n) \<or>
        (job (ob n) = None \<and> n \<notin> set (get_root_nodes g) \<and> dnr_condition g ob n)"
      using f [OF that(1)] unfolding \<open>ob' = ob\<close> .
    with that(2-4) show ?thesis by blast
  qed
  let ?U = "{n. n \<in> set (nodes g) \<and> \<not> decided (ob n)}"
  have wf: "wf ((edge_rel g)\<^sup>+)"
    by (rule wf_trancl [OF finite_acyclic_wf [OF finite_edge_rel [OF inv] ac]])
  have "u \<in> ?U" using u by simp
  from wfE_min [OF wf this] obtain n where nU: "n \<in> ?U"
    and mini: "\<And>a. (a, n) \<in> (edge_rel g)\<^sup>+ \<Longrightarrow> a \<notin> ?U" by metis
  from nU have n: "n \<in> set (nodes g)" "\<not> decided (ob n)" by simp_all
  have anc: "decided (ob a)" if "(a, n) \<in> (edge_rel g)\<^sup>+" for a
  proof -
    have "a \<in> set (nodes g)" using tranclD [OF that] edge_rel_nodes [OF inv] by auto
    with mini [OF that] show ?thesis by blast
  qed
  have reach: "active_reach g ob n"
  proof (rule unmarked_active [OF inv ac unm _ _ err n(1)])
    show "sj_status j \<in> set finished_statuses" if "m \<in> set (nodes g)" "job (ob m) = Some j" for m j
      using fin that unfolding all_jobs_finished_def by (metis option.simps(5))
    show "active_reach g ob m" if "m \<in> set (nodes g)" "job (ob m) \<noteq> None" for m
      using act that by (simp add: jobs_active_def)
  qed (use n(2) anc in \<open>auto simp: decided_def\<close>)
  have par: "p \<in> set (get_parents g n None) \<longleftrightarrow> (p, n) \<in> edge_rel g" for p
    using sdag.parents_children [OF inv, of None p n] by (simp add: edge_rel_def)
  have rel: "are_relevant_parents_finished g ob n"
    unfolding are_relevant_parents_finished_def relevant_finished_iff par
  proof
    fix p assume p: "p \<in> set (get_parents g n None)"
    then have "p \<in> set (nodes g)" using edge_rel_nodes [OF inv] par by auto
    with fin have "case job (ob p) of None \<Rightarrow> True | Some j \<Rightarrow> sj_status j \<in> set finished_statuses"
      by (simp add: all_jobs_finished_def)
    with anc [OF r_into_trancl, of p] p show "do_not_run (ob p) \<or> unified_job_template (ob p) = None \<or>
        (\<exists>j. job (ob p) = Some j \<and> sj_status j \<in> set finished_statuses)"
      by (auto simp: par decided_def split: option.splits)
  qed
  have "all_parents_met_convergence_criteria g ob n" if "all_parents_must_converge (ob n)"
  proof (cases "n \<in> set (get_root_nodes g)")
    case True
    then show ?thesis using sdag.roots_iff [OF inv, of n]
      by (simp add: all_parents_met_convergence_criteria_def)
  next
    case False
    with unm [OF n(1)] n(2) that show ?thesis by (auto simp: decided_def dnr_condition_def)
  qed
  with reach rel n(2) show ?thesis by (auto simp: ready_to_run_def decided_def)
qed

text \<open>
  C4. Progress. In an acyclic workflow whose unrunnable nodes have been marked, whose jobs have
  all finished, whose jobs were reached by the traversal, and in which no ALL-convergence node is
  blocked by errors (all its parents errored, were cancelled or lost their template, and none of
  them has a failure or always edge to it), the traversal finds nothing to run exactly when the
  workflow is done: it can neither stop early nor hang with all its jobs finished.
\<close>

theorem workflow_progress:
  assumes inv: "dag_inv g" and ac: "acyclic (edge_rel g)" and frames: "length (nodes g) \<le> frames"
    and mk: "marked_out frames g ob" and fin: "all_jobs_finished g ob"
    and act: "jobs_active g ob" and err: "error_edges_ok g ob"
  shows "bfs_nodes_to_run g ob = Some [] \<longleftrightarrow> is_workflow_done g ob"
proof
  assume "bfs_nodes_to_run g ob = Some []"
  then have none: "\<not> (active_reach g ob n \<and> ready_to_run g ob n)" for n
    by (rule_tac bfs_nodes_to_run_correct [OF inv, of ob]) auto
  have "decided (ob u)" if "u \<in> set (nodes g)" for u
    using undecided_ready [OF assms that] none by blast
  then have "do_not_run (ob u) \<or> job (ob u) \<noteq> None \<or> unified_job_template (ob u) = None"
    if "u \<in> set (nodes g)" for u using that by (simp add: decided_def)
  with fin show "is_workflow_done g ob"
    by (fastforce simp: is_workflow_done_def all_nodes_done_iff all_jobs_finished_def split: option.split)
next
  assume "is_workflow_done g ob"
  then show "bfs_nodes_to_run g ob = Some []" by (rule done_runs_nothing [OF inv])
qed

section \<open>Concrete workflows\<close>

definition idle_node :: wf_node where
  "idle_node = \<lparr>do_not_run = False, job = None,
     unified_job_template = Some \<lparr>ujt_id = 7, ujt_is_workflow = False\<rparr>,
     all_parents_must_converge = False\<rparr>"

definition ran :: "job_status \<Rightarrow> wf_node" where
  "ran s = idle_node\<lparr>job := Some \<lparr>sj_id = 11, sj_status = s\<rparr>\<rparr>"

text \<open>Node 1 precedes node 2 on success.\<close>

definition chain :: "pk dag" where
  "chain = \<lparr>nodes = [1, 2], root_nodes = [0],
     node_obj_to_node_index = [1 \<mapsto> 0, 2 \<mapsto> 1],
     node_from_edges_by_label = [(success_nodes, [0 \<mapsto> [1]])],
     node_to_edges_by_label = [(success_nodes, [1 \<mapsto> [0]])]\<rparr>"

lemma chain_built: "build_graph [1, 2] [(1, 2)] [] [] = Inr chain"
  by (simp add: build_graph_def chain_def add_edge_def add_node_def empty_dag_def find_ord_def
      append_edge_def edges_at_def Let_def fun_eq_iff)

lemma chain_graph: "dag_inv chain" "edge_rel chain = {(1, 2)}"
  using build_graph_ok [of "[(1, 2)]" "[]" "[]" "[1, 2]"] chain_built by simp_all

lemma chain_acyclic: "acyclic (edge_rel chain)"
  by (simp add: chain_graph acyclic_def trancl_insert)

lemmas graph_eval = chain_def get_children_def get_children_by_label_def get_parents_def
  get_parents_by_label_def find_ord_def edges_at_def get_root_nodes_def

theorem bfs_nodes_to_run_witness:
  "\<exists>ns. bfs_nodes_to_run chain (\<lambda>_. idle_node) = Some ns \<and> distinct ns \<and>
    set ns = {n. active_reach chain (\<lambda>_. idle_node) n \<and> ready_to_run chain (\<lambda>_. idle_node) n}"
  by (rule bfs_nodes_to_run_iff [OF chain_graph(1)])

theorem done_workflow_witness:
  "is_workflow_done chain (\<lambda>_. ran Failed) \<and> bfs_nodes_to_run chain (\<lambda>_. ran Failed) = Some []"
proof -
  have "is_workflow_done chain (\<lambda>_. ran Failed)"
    by (simp add: is_workflow_done_def chain_def ran_def idle_node_def finished_statuses_def)
  with done_workflow_runs_nothing [OF chain_graph(1) this] show ?thesis by simp
qed

lemma chain_frames: "length (nodes chain) \<le> 2"
  by (simp add: chain_def)

theorem mark_dnr_nodes_witness:
  "\<exists>ob' ms. mark_dnr_nodes 2 chain (\<lambda>_. ran Failed) = Some (ob', ms) \<and> distinct ms \<and>
    set ms = {n. do_not_run (ob' n) \<and> \<not> do_not_run (ran Failed)} \<and>
    (\<forall>n. ob' n = ran Failed \<or> ob' n = (ran Failed)\<lparr>do_not_run := True\<rparr>) \<and>
    (\<forall>n \<in> set (nodes chain). do_not_run (ob' n) \<longleftrightarrow> do_not_run (ran Failed) \<or>
       (job (ran Failed) = None \<and> n \<notin> set (get_root_nodes chain) \<and> dnr_condition chain ob' n)) \<and>
    mark_dnr_nodes 2 chain ob' = Some (ob', [])"
  by (rule mark_dnr_nodes_fixpoint [OF chain_graph(1) chain_acyclic chain_frames])

text \<open>The chain after node 1 succeeded.\<close>

definition half_done :: node_store where
  "half_done = (\<lambda>_. idle_node)(1 := ran Successful)"

lemma chain_sorted: "sort_nodes_topological 2 chain = Some [1, 2]"
  by (simp add: sort_nodes_topological_def graph_eval numeral_2_eq_2)

lemma half_done_hyps:
  "marked_out 2 chain half_done" "all_jobs_finished chain half_done"
  "error_edges_ok chain half_done" "jobs_active chain half_done"
proof -
  show "marked_out 2 chain half_done"
    unfolding marked_out_def mark_dnr_nodes_def chain_sorted
    by (simp add: mark_dnr_step_def half_done_def ran_def idle_node_def dnr_condition_def graph_eval)
  show "all_jobs_finished chain half_done" "error_edges_ok chain half_done"
    by (simp_all add: all_jobs_finished_def error_edges_ok_def errors_block_def half_done_def ran_def idle_node_def
        chain_def finished_statuses_def)
  have "active_reach chain half_done 1"
    by (rule active_reach.root) (simp add: graph_eval)
  then show "jobs_active chain half_done"
    by (simp add: jobs_active_def chain_def half_done_def idle_node_def)
qed

text \<open>
  Nodes 1 and 2 both precede node 3, which waits for both, on success. Node 1 succeeded; node 2
  has not been run yet, and no edge leaves it on failure.
\<close>

definition join_graph :: "pk dag" where
  "join_graph = \<lparr>nodes = [1, 2, 3], root_nodes = [0, 1],
     node_obj_to_node_index = [1 \<mapsto> 0, 2 \<mapsto> 1, 3 \<mapsto> 2],
     node_from_edges_by_label = [(success_nodes, [0 \<mapsto> [2], 1 \<mapsto> [2]])],
     node_to_edges_by_label = [(success_nodes, [2 \<mapsto> [0, 1]])]\<rparr>"

lemma join_graph_built: "build_graph [1, 2, 3] [(1, 3), (2, 3)] [] [] = Inr join_graph"
  by (simp add: build_graph_def join_graph_def add_edge_def add_node_def empty_dag_def find_ord_def
      append_edge_def edges_at_def Let_def fun_eq_iff)

lemma join_graph_facts: "dag_inv join_graph" "edge_rel join_graph = {(1, 3), (2, 3)}"
  using build_graph_ok [of "[(1, 3), (2, 3)]" "[]" "[]" "[1, 2, 3]"] join_graph_built by simp_all

lemma join_graph_acyclic: "acyclic (edge_rel join_graph)"
proof -
  have "trans (edge_rel join_graph)" by (auto simp: join_graph_facts trans_def)
  then show ?thesis by (simp add: acyclic_def join_graph_facts)
qed

definition mid_run :: "node_store" where
  "mid_run = (\<lambda>_. idle_node)(1 := ran Successful, 3 := idle_node\<lparr>all_parents_must_converge := True\<rparr>)"

lemmas join_eval = join_graph_def get_children_def get_children_by_label_def get_parents_def
  get_parents_by_label_def find_ord_def edges_at_def get_root_nodes_def

lemma join_graph_frames: "length (nodes join_graph) \<le> 3"
  by (simp add: join_graph_def)

lemma join_graph_sorted: "sort_nodes_topological 3 join_graph = Some [2, 1, 3]"
  by (simp add: sort_nodes_topological_def join_eval numeral_3_eq_3)

lemma mid_run_hyps:
  "marked_out 3 join_graph mid_run" "all_jobs_finished join_graph mid_run"
  "error_edges_ok join_graph mid_run" "jobs_active join_graph mid_run"
proof -
  show "marked_out 3 join_graph mid_run"
    unfolding marked_out_def mark_dnr_nodes_def join_graph_sorted
    by (simp add: mark_dnr_step_def mid_run_def ran_def idle_node_def dnr_condition_def
        all_parents_met_convergence_criteria_def join_eval)
  show "all_jobs_finished join_graph mid_run"
    by (simp add: all_jobs_finished_def mid_run_def ran_def idle_node_def join_graph_def
        finished_statuses_def)
  show "error_edges_ok join_graph mid_run"
    by (auto simp: error_edges_ok_def errors_block_def parent_errored_def mid_run_def ran_def
        idle_node_def join_eval)
  have "active_reach join_graph mid_run 1"
    by (rule active_reach.root) (simp add: join_eval)
  then show "jobs_active join_graph mid_run"
    by (simp add: jobs_active_def join_graph_def mid_run_def idle_node_def)
qed

theorem workflow_progress_witness:
  "(bfs_nodes_to_run chain half_done = Some [] \<longleftrightarrow> is_workflow_done chain half_done) \<and>
   (bfs_nodes_to_run join_graph mid_run = Some [] \<longleftrightarrow> is_workflow_done join_graph mid_run) \<and>
   all_parents_must_converge (mid_run 3) \<and> \<not> is_workflow_done join_graph mid_run"
proof -
  have "\<not> is_workflow_done join_graph mid_run"
    by (simp add: is_workflow_done_def join_graph_def mid_run_def ran_def idle_node_def
        finished_statuses_def)
  moreover have "all_parents_must_converge (mid_run 3)" by (simp add: mid_run_def)
  ultimately show ?thesis
    using workflow_progress [OF chain_graph(1) chain_acyclic chain_frames half_done_hyps(1,2,4,3)]
      workflow_progress [OF join_graph_facts(1) join_graph_acyclic join_graph_frames
        mid_run_hyps(1,2,4,3)] by blast
qed

section \<open>The failure report and cancelling\<close>

lemma has_workflow_failed_report:
  assumes "build_graph ns s f a = Inr g"
  shows "case has_workflow_failed g ob of
      None \<Rightarrow> {n \<in> set ns. node_failed (ob n)} \<subseteq> fst ` set (f @ a)
    | Some (with_status, without_template) \<Rightarrow>
        fst ` set with_status \<union> set without_template =
          {n \<in> set ns. node_failed (ob n)} - fst ` set (f @ a) \<and>
        fst ` set with_status \<union> set without_template \<noteq> {}"
proof -
  have g: "set (nodes g) = set ns"
    "\<And>x y. y \<in> set (get_children g x (Some failure_nodes)) \<longleftrightarrow> (x, y) \<in> set f"
    "\<And>x y. y \<in> set (get_children g x (Some always_nodes)) \<longleftrightarrow> (x, y) \<in> set a"
    using build_graph_spec [where ns = ns and s = s and f = f and a = a] assms by simp_all
  have empty: "xs = [] \<longleftrightarrow> n \<notin> fst ` set es" if "\<And>y. y \<in> set xs \<longleftrightarrow> (n, y) \<in> set es"
    for xs :: "pk list" and es :: "(pk \<times> pk) list" and n
    using that by (cases xs) (force simp: image_iff)+
  have "get_children g n (Some failure_nodes) = [] \<longleftrightarrow> n \<notin> fst ` set f"
    "get_children g n (Some always_nodes) = [] \<longleftrightarrow> n \<notin> fst ` set a" for n
    by (rule empty, simp add: g)+
  then have w: "without_error_path g n \<longleftrightarrow> n \<notin> fst ` set (f @ a)" for n
    by (auto simp: without_error_path_def)
  let ?R = "filter (without_error_path g) (filter (\<lambda>n. node_failed (ob n)) (nodes g))"
  have R: "set ?R = {n \<in> set ns. node_failed (ob n)} - fst ` set (f @ a)"
    using g(1) w by auto
  show ?thesis
  proof (cases "?R = []")
    case True
    then have "{n \<in> set ns. node_failed (ob n)} - fst ` set (f @ a) = {}" using R by simp
    with True show ?thesis by (auto simp: has_workflow_failed_def)
  next
    case False
    have un: "fst ` set (map (\<lambda>n. (n, h n)) (filter (\<lambda>n. P n) xs)) \<union> set (filter (\<lambda>n. \<not> P n) xs) = set xs"
      for h :: "pk \<Rightarrow> job_status" and P and xs :: "pk list" by force
    from un [of "\<lambda>n. sj_status (the (job (ob n)))" "\<lambda>n. unified_job_template (ob n) \<noteq> None" ?R]
    have "fst ` set (map (\<lambda>n. (n, sj_status (the (job (ob n)))))
          (filter (\<lambda>n. unified_job_template (ob n) \<noteq> None) ?R)) \<union>
        set (filter (\<lambda>n. unified_job_template (ob n) = None) ?R) = set ?R" by (simp only: not_not)
    moreover have "set ?R \<noteq> {}" using False by (simp only: set_empty) simp
    ultimately show ?thesis unfolding has_workflow_failed_def Let_def
      using False by (simp only: if_False option.case prod.case R) simp
  qed
qed

text \<open>
  The failure report of a graph built from its tables: the workflow is not reported as failed
  exactly if every failed node has an outgoing failure or always edge; otherwise the reported ids,
  those with a status and those without a template together, are exactly the failed nodes that
  have neither.
\<close>

theorem has_workflow_failed_correct:
  assumes "build_graph ns s f a = Inr g"
  shows "case has_workflow_failed g ob of
      None \<Rightarrow> {n \<in> set ns. node_failed (ob n)} \<subseteq> fst ` set (f @ a)
    | Some (with_status, without_template) \<Rightarrow>
        fst ` set with_status \<union> set without_template =
          {n \<in> set ns. node_failed (ob n)} - fst ` set (f @ a) \<and>
        fst ` set with_status \<union> set without_template \<noteq> {}"
  by (rule has_workflow_failed_report [OF assms])

theorem has_workflow_failed_witness:
  "case has_workflow_failed chain (\<lambda>_. ran Failed) of
      None \<Rightarrow> {n \<in> set [1, 2]. node_failed (ran Failed)} \<subseteq> fst ` set ([] @ [] :: (pk \<times> pk) list)
    | Some (with_status, without_template) \<Rightarrow>
        fst ` set with_status \<union> set without_template =
          {n \<in> set [1, 2]. node_failed (ran Failed)} - fst ` set ([] @ [] :: (pk \<times> pk) list) \<and>
        fst ` set with_status \<union> set without_template \<noteq> {}"
  by (rule has_workflow_failed_correct [OF chain_built])

lemma cancel_jobs_of_correct:
  "distinct ns \<Longrightarrow> cancel_jobs_of cancel ns ob b =
     (b \<and> \<not> (\<exists>n \<in> set ns. \<exists>j. job (ob n) = Some j \<and> can_cancel j),
      \<lambda>n. if n \<in> set ns then
             (case job (ob n) of
                Some j \<Rightarrow> if can_cancel j then (ob n)\<lparr>job := Some (cancel j)\<rparr> else ob n
              | None \<Rightarrow> ob n)
           else ob n)"
proof (induction ns arbitrary: ob b)
  case (Cons n ns)
  show ?case
  proof (cases "job (ob n)")
    case None
    with Cons show ?thesis by (auto simp: fun_eq_iff)
  next
    case (Some j)
    have other: "(\<exists>m \<in> set ns. \<exists>k. job ((ob(n := x)) m) = Some k \<and> can_cancel k) \<longleftrightarrow>
        (\<exists>m \<in> set ns. \<exists>k. job (ob m) = Some k \<and> can_cancel k)" for x
      using Cons.prems by auto
    show ?thesis using Some Cons by (auto simp: other fun_eq_iff split: option.splits)
  qed
qed (simp add: fun_eq_iff)

text \<open>
  Cancelling the jobs of a workflow cancels every cancellable job of its nodes exactly once and
  touches nothing else, and it reports the cancellation as finished exactly if there was no job
  left to cancel.
\<close>

theorem cancel_node_jobs_correct:
  assumes inv: "dag_inv g"
  shows "cancel_node_jobs cancel g ob =
    (\<not> (\<exists>n \<in> set (nodes g). \<exists>j. job (ob n) = Some j \<and> can_cancel j),
     \<lambda>n. if n \<in> set (nodes g) then
            (case job (ob n) of
               Some j \<Rightarrow> if can_cancel j then (ob n)\<lparr>job := Some (cancel j)\<rparr> else ob n
             | None \<Rightarrow> ob n)
          else ob n)"
  by (simp add: cancel_node_jobs_def cancel_jobs_of_correct [OF dag_inv_distinct [OF inv]])

theorem cancel_node_jobs_witness:
  "cancel_node_jobs (\<lambda>j. j\<lparr>sj_status := Canceled\<rparr>) chain (\<lambda>_. ran Running) =
    (\<not> (\<exists>n \<in> set (nodes chain). \<exists>j. job (ran Running) = Some j \<and> can_cancel j),
     \<lambda>n. if n \<in> set (nodes chain) then
            (case job (ran Running) of
               Some j \<Rightarrow> if can_cancel j then (ran Running)\<lparr>job := Some (j\<lparr>sj_status := Canceled\<rparr>)\<rparr>
                        else ran Running
             | None \<Rightarrow> ran Running)
          else ran Running)"
  by (rule cancel_node_jobs_correct [OF chain_graph(1)])

section \<open>Two inputs that go wrong\<close>

text \<open>Node 1 stands alone; nodes 2 and 3 precede each other.\<close>

definition side_cycle :: "pk dag" where
  "side_cycle = \<lparr>nodes = [1, 2, 3], root_nodes = [0],
     node_obj_to_node_index = [1 \<mapsto> 0, 2 \<mapsto> 1, 3 \<mapsto> 2],
     node_from_edges_by_label = [(success_nodes, [1 \<mapsto> [2], 2 \<mapsto> [1]])],
     node_to_edges_by_label = [(success_nodes, [2 \<mapsto> [1], 1 \<mapsto> [2]])]\<rparr>"

lemma side_cycle_built: "build_graph [1, 2, 3] [(2, 3), (3, 2)] [] [] = Inr side_cycle"
  by (simp add: build_graph_def side_cycle_def add_edge_def add_node_def empty_dag_def find_ord_def
      append_edge_def edges_at_def Let_def fun_eq_iff)

lemma side_cycle_children:
  "get_children side_cycle 1 None = []" "get_children side_cycle 2 None = [3]"
  "get_children side_cycle 3 None = [2]" "get_root_nodes side_cycle = [1]"
  by (simp_all add: side_cycle_def get_children_def get_children_by_label_def find_ord_def
      edges_at_def get_root_nodes_def)

lemma side_cycle_visit:
  "2 \<notin> fst st \<and> 3 \<notin> fst st \<Longrightarrow> visit frames side_cycle 2 st = None \<and> visit frames side_cycle 3 st = None"
proof (induction frames)
  case (Suc k)
  have vc: "visit_children k side_cycle [x] st = None" if "visit k side_cycle x st = None" for x
    using that by (cases k) auto
  show ?case using Suc by (simp add: side_cycle_children vc)
qed simp

text \<open>
  A cycle beside an isolated node. The tables with nodes 1, 2, 3 and success edges from 2 to 3
  and from 3 to 2 are accepted; the graph has a cycle, but the cycle test answers \<open>False\<close>,
  because it only searches from the roots, and the topological sort of that graph exhausts every
  stack.
\<close>

theorem has_cycle_misses_side_cycle:
  "build_graph [1, 2, 3] [(2, 3), (3, 2)] [] [] = Inr side_cycle \<and>
   has_cycle side_cycle = Some False \<and> \<not> acyclic (edge_rel side_cycle) \<and>
   sort_nodes_topological frames side_cycle = None"
proof (intro conjI)
  show "has_cycle side_cycle = Some False"
    by (simp add: has_cycle_def side_cycle_children cycle_loop.simps del: One_nat_def)
  have "(2, 3) \<in> edge_rel side_cycle" "(3, 2) \<in> edge_rel side_cycle"
    by (simp_all add: edge_rel_def side_cycle_children)
  then have "(2, 2) \<in> (edge_rel side_cycle)\<^sup>+" by (meson trancl.simps)
  then show "\<not> acyclic (edge_rel side_cycle)" by (auto simp: acyclic_def)
  have "sort_loop frames side_cycle [1, 2, 3] ({}, []) = None"
  proof (cases "visit frames side_cycle 1 ({}, [])")
    case (Some st)
    then have "fst st = {1}"
      by (cases frames) (auto simp: side_cycle_children simp del: One_nat_def)
    then show ?thesis using Some side_cycle_visit [of st frames] by simp
  qed simp
  then show "sort_nodes_topological frames side_cycle = None"
    by (simp add: sort_nodes_topological_def side_cycle_def)
qed (rule side_cycle_built)

text \<open>
  An ALL-convergence node without a job or a mark, all of whose parents have a job that errored
  or was cancelled, none of which has a failure or always edge to it.
\<close>

definition waits_on_errors :: "pk dag \<Rightarrow> node_store \<Rightarrow> pk \<Rightarrow> bool" where
  "waits_on_errors g ob n \<longleftrightarrow> n \<in> set (nodes g) \<and> errors_block g ob n \<and>
     unified_job_template (ob n) \<noteq> None \<and>
     (\<forall>p \<in> set (get_parents g n None). job (ob p) \<noteq> None \<and> \<not> do_not_run (ob p))"


lemma waits_on_errors_met:
  assumes "waits_on_errors g ob n"
  shows "parents_met_criteria g ob n (get_parents g n None)"
  using assms by (auto simp: parents_met_iff waits_on_errors_def errors_block_def parent_errored_def)

lemma waits_on_errors_unmarkable:
  assumes "waits_on_errors g ob n" shows "\<not> dnr_condition g ob n"
  using assms waits_on_errors_met [OF assms]
  by (auto simp: dnr_condition_def all_parents_met_convergence_criteria_def list_ex_iff
      waits_on_errors_def errors_block_def)








end
