(* ===== verification/Tasks.thy ===== *)
theory Tasks
  imports Prelude
begin

text \<open>
  The unified jobs that the task manager handles: the fields of \<open>UnifiedJob\<close> and its subclasses
  (\<open>forail/main/models\<close>) that \<open>forail/main/scheduler\<close> reads or assigns. The subclass and the
  foreign keys that only that subclass has are the constructors of \<open>task_kind\<close>; a nullable
  foreign key is an option. Times are seconds.
\<close>

section \<open>Data\<close>

datatype task_kind =
    ProjectUpdate (project_id_of: "pk option")
  | InventoryUpdate (inventory_source_id_of: "pk option") (source_inventory_of: "pk option")
  | Job (project_id_of: "pk option") (inventory_id_of: "pk option") (job_template_id_of: "pk option")
  | SystemJob
  | AdHocCommand (inventory_id_of: "pk option")
  | WorkflowJob (workflow_job_template_id_of: "pk option")
  | WorkflowApproval

datatype node_type = ControlNode | ExecutionNode | HybridNode | HopNode

record dependency =
  dep_id :: pk
  dep_type :: string
  dep_model_name :: string
  dep_name :: string
  dep_status :: job_status

text \<open>
  A credential with the fields its type requires, those its type defines, and those that have an
  input.
\<close>

record credential =
  cred_name :: string
  cred_required :: "string list"
  cred_defined :: "string list"
  cred_inputs :: "string list"

text \<open>
  \<open>passwords_needed\<close> is the value of \<open>get_passwords_needed_to_start\<close>; \<open>decrypted_start_args\<close>
  is the decrypted and parsed \<open>start_args\<close>, \<open>None\<close> when that fails.
\<close>

record task =
  task_id :: pk
  kind :: task_kind
  status :: job_status
  launch_type :: string
  dependencies_processed :: bool
  allow_simultaneous :: bool
  unified_job_template_id :: "pk option"
  job_explanation :: string
  start_args :: string
  decrypted_start_args :: "(string \<times> string) list option"
  passwords_needed :: "string list"
  credentials :: "credential list"
  task_impact :: int
  capacity_type :: node_type
  controller_node :: hostname
  execution_node :: hostname
  instance_group_id :: "pk option"
  is_container_group_task :: bool
  preferred_instance_groups_cache :: "pk list"
  dependent_jobs :: "dependency list"
  celery_task_id :: string
  created :: int
  modified :: int
  started :: "int option"

definition blank_task :: task where
  "blank_task = \<lparr>task_id = 1, kind = SystemJob, status = Pending, launch_type = ''manual'',
     dependencies_processed = True, allow_simultaneous = False, unified_job_template_id = None,
     job_explanation = [], start_args = [], decrypted_start_args = None, passwords_needed = [],
     credentials = [], task_impact = 1, capacity_type = ExecutionNode, controller_node = [],
     execution_node = [], instance_group_id = None, is_container_group_task = False,
     preferred_instance_groups_cache = [], dependent_jobs = [], celery_task_id = [], created = 0,
     modified = 0, started = None\<rparr>"

text \<open>\<open>ACTIVE_STATES\<close> of \<open>forail/main/constants.py\<close>.\<close>

definition ACTIVE_STATES :: "job_status list" where
  "ACTIVE_STATES = [New, Pending, Waiting, Running]"

definition is_workflow_job :: "task \<Rightarrow> bool" where
  "is_workflow_job t = (case kind t of WorkflowJob _ \<Rightarrow> True | _ \<Rightarrow> False)"

text \<open>Python's truth value of a nullable key.\<close>

definition truthy :: "pk option \<Rightarrow> bool" where
  "truthy k = (case k of None \<Rightarrow> False | Some i \<Rightarrow> i \<noteq> 0)"

lemma truthy_Some [simp]: "truthy (Some i) \<longleftrightarrow> i \<noteq> 0"
  by (simp add: truthy_def)

lemma truthy_None [simp]: "\<not> truthy None"
  by (simp add: truthy_def)

section \<open>Checks before the start\<close>

text \<open>\<open>_meta.model_name\<close>, \<open>_meta.verbose_name\<close> and its \<open>title()\<close>.\<close>

fun kind_model_name :: "task_kind \<Rightarrow> string" where
  "kind_model_name (ProjectUpdate _) = ''projectupdate''"
| "kind_model_name (InventoryUpdate _ _) = ''inventoryupdate''"
| "kind_model_name (Job _ _ _) = ''job''"
| "kind_model_name SystemJob = ''systemjob''"
| "kind_model_name (AdHocCommand _) = ''adhoccommand''"
| "kind_model_name (WorkflowJob _) = ''workflowjob''"
| "kind_model_name WorkflowApproval = ''workflowapproval''"

fun verbose_name :: "task_kind \<Rightarrow> string" where
  "verbose_name (ProjectUpdate _) = ''project update''"
| "verbose_name (InventoryUpdate _ _) = ''inventory update''"
| "verbose_name (Job _ _ _) = ''job''"
| "verbose_name SystemJob = ''system job''"
| "verbose_name (AdHocCommand _) = ''ad hoc command''"
| "verbose_name (WorkflowJob _) = ''workflow job''"
| "verbose_name WorkflowApproval = ''workflow approval''"

fun verbose_title :: "task_kind \<Rightarrow> string" where
  "verbose_title (ProjectUpdate _) = ''Project Update''"
| "verbose_title (InventoryUpdate _ _) = ''Inventory Update''"
| "verbose_title (Job _ _ _) = ''Job''"
| "verbose_title SystemJob = ''System Job''"
| "verbose_title (AdHocCommand _) = ''Ad Hoc Command''"
| "verbose_title (WorkflowJob _) = ''Workflow Job''"
| "verbose_title WorkflowApproval = ''Workflow Approval''"

fun status_str :: "job_status \<Rightarrow> string" where
  "status_str New = ''new''"
| "status_str Pending = ''pending''"
| "status_str Waiting = ''waiting''"
| "status_str Running = ''running''"
| "status_str Successful = ''successful''"
| "status_str Failed = ''failed''"
| "status_str Errored = ''error''"
| "status_str Canceled = ''canceled''"

definition can_start :: "task \<Rightarrow> bool" where
  "can_start t \<longleftrightarrow> status t \<in> {New, Waiting}"

definition missing_inputs :: "credential \<Rightarrow> string list" where
  "missing_inputs c = filter (\<lambda>r. r \<in> set (cred_defined c) \<and> r \<notin> set (cred_inputs c)) (cred_required c)"

definition password_opts :: "string list \<Rightarrow> (string \<times> string) list \<Rightarrow> (string \<times> string) list" where
  "password_opts needed args = fold (\<lambda>f. AList.update f (dict_get args f [])) needed []"

text \<open>
  \<open>pre_start\<close> called without arguments: the start status with the options, and the task as it leaves
  it.
\<close>

definition pre_start :: "task \<Rightarrow> (string \<times> string) list option \<times> task" where
  "pre_start t =
     (if \<not> can_start t then
        (None, t\<lparr>job_explanation := verbose_name (kind t) @ '' is not in a startable state: '' @
           status_str (status t) @ '', expecting one of ('' @ [CHR 0x27] @ ''new'' @ [CHR 0x27] @ '', '' @
           [CHR 0x27] @ ''waiting'' @ [CHR 0x27] @ '')''\<rparr>)
      else case List.find (\<lambda>c. missing_inputs c \<noteq> []) (credentials t) of
        Some c \<Rightarrow>
          (None, t\<lparr>job_explanation := verbose_title (kind t) @ '' cannot start because Credential '' @
             cred_name c @ '' does not provide one or more required fields ('' @
             join_with '', '' (sort (missing_inputs c)) @ '').''\<rparr>)
      | None \<Rightarrow>
          (let args = (case decrypted_start_args t of None \<Rightarrow> [] | Some a \<Rightarrow> a);
               opts = password_opts (passwords_needed t) args
           in if list_ex (\<lambda>kv. snd kv = []) opts then
                (None, t\<lparr>job_explanation := ''Missing needed fields: '' @
                   join_with '', '' (map fst (filter (\<lambda>kv. snd kv = []) opts)) @ ''.''\<rparr>)
              else (Some opts, t\<lparr>job_explanation := []\<rparr>)))"

text \<open>Only the explanation changes.\<close>

lemma pre_start_frame: "\<exists>e. snd (pre_start t) = t\<lparr>job_explanation := e\<rparr>"
  by (auto simp: pre_start_def Let_def split: option.splits)

end
