(* ===== verification/Dependency_Graph.thy ===== *)
theory Dependency_Graph
  imports Tasks
begin

text \<open>
  The blocking index of the task manager: \<open>DependencyGraph\<close> of
  \<open>forail/main/scheduler/dependency_graph.py\<close>. For every resource class it remembers the first job
  that was added with a given key; a task asks it which job, if any, it has to wait for.
\<close>

section \<open>State and operations\<close>

datatype resource =
    PROJECT_UPDATES
  | INVENTORY_UPDATES
  | INVENTORY_SOURCE_UPDATES
  | JOB_TEMPLATE_JOBS
  | SYSTEM_JOB
  | WORKFLOW_JOB_TEMPLATES_JOBS

text \<open>A key is a primary key, or the constant \<open>'system_job'\<close>.\<close>

datatype graph_key = Key pk | SystemJobKey

type_synonym dep_graph = "resource \<Rightarrow> graph_key \<Rightarrow> task option"

definition empty_graph :: dep_graph where
  "empty_graph = (\<lambda>_ _. None)"

definition mark_if_no_key :: "resource \<Rightarrow> graph_key option \<Rightarrow> task \<Rightarrow> dep_graph \<Rightarrow> dep_graph" where
  "mark_if_no_key r k j d =
     (case k of
        None \<Rightarrow> d
      | Some i \<Rightarrow> if d r i = None then d(r := (d r)(i \<mapsto> j)) else d)"

definition get_item :: "resource \<Rightarrow> graph_key option \<Rightarrow> dep_graph \<Rightarrow> task option" where
  "get_item r k d = (case k of None \<Rightarrow> None | Some i \<Rightarrow> d r i)"

abbreviation key :: "pk option \<Rightarrow> graph_key option" where
  "key \<equiv> map_option Key"

definition mark_system_job :: "task \<Rightarrow> dep_graph \<Rightarrow> dep_graph" where
  "mark_system_job j = mark_if_no_key SYSTEM_JOB (Some SystemJobKey) j"

definition mark_project_update :: "task \<Rightarrow> dep_graph \<Rightarrow> dep_graph" where
  "mark_project_update j = mark_if_no_key PROJECT_UPDATES (key (project_id_of (kind j))) j"

definition mark_inventory_update :: "task \<Rightarrow> dep_graph \<Rightarrow> dep_graph" where
  "mark_inventory_update j =
     (case kind j of
        AdHocCommand iv \<Rightarrow> mark_if_no_key INVENTORY_UPDATES (key iv) j
      | _ \<Rightarrow> mark_if_no_key INVENTORY_UPDATES (key (source_inventory_of (kind j))) j)"

definition mark_inventory_source_update :: "task \<Rightarrow> dep_graph \<Rightarrow> dep_graph" where
  "mark_inventory_source_update j =
     mark_if_no_key INVENTORY_SOURCE_UPDATES (key (inventory_source_id_of (kind j))) j"

definition mark_job_template_job :: "task \<Rightarrow> dep_graph \<Rightarrow> dep_graph" where
  "mark_job_template_job j =
     mark_if_no_key JOB_TEMPLATE_JOBS (key (job_template_id_of (kind j))) j"

definition mark_workflow_job :: "task \<Rightarrow> dep_graph \<Rightarrow> dep_graph" where
  "mark_workflow_job j d =
     (if truthy (workflow_job_template_id_of (kind j)) then
        mark_if_no_key WORKFLOW_JOB_TEMPLATES_JOBS (key (workflow_job_template_id_of (kind j))) j d
      else if truthy (unified_job_template_id j) then
        mark_if_no_key WORKFLOW_JOB_TEMPLATES_JOBS (key (unified_job_template_id j)) j d
      else d)"

definition project_update_blocked_by :: "task \<Rightarrow> dep_graph \<Rightarrow> task option" where
  "project_update_blocked_by j d = get_item PROJECT_UPDATES (key (project_id_of (kind j))) d"

definition inventory_update_blocked_by :: "task \<Rightarrow> dep_graph \<Rightarrow> task option" where
  "inventory_update_blocked_by j d =
     get_item INVENTORY_SOURCE_UPDATES (key (inventory_source_id_of (kind j))) d"

text \<open>Python's \<open>or\<close> on a job or \<open>None\<close>.\<close>

definition or_else :: "'a option \<Rightarrow> 'a option \<Rightarrow> 'a option" where
  "or_else a b = (case a of None \<Rightarrow> b | Some _ \<Rightarrow> a)"

definition graph_job_blocked_by :: "task \<Rightarrow> dep_graph \<Rightarrow> task option" where
  "graph_job_blocked_by j d =
     (let project_block = get_item PROJECT_UPDATES (key (project_id_of (kind j))) d;
          inventory_block = get_item INVENTORY_UPDATES (key (inventory_id_of (kind j))) d;
          job_block = (if \<not> allow_simultaneous j then
                         get_item JOB_TEMPLATE_JOBS (key (job_template_id_of (kind j))) d
                       else None)
      in or_else (or_else project_block inventory_block) job_block)"

definition workflow_job_blocked_by :: "task \<Rightarrow> dep_graph \<Rightarrow> task option" where
  "workflow_job_blocked_by j d =
     (if \<not> allow_simultaneous j then
        (if truthy (workflow_job_template_id_of (kind j)) then
           get_item WORKFLOW_JOB_TEMPLATES_JOBS (key (workflow_job_template_id_of (kind j))) d
         else if truthy (unified_job_template_id j) then
           or_else (get_item WORKFLOW_JOB_TEMPLATES_JOBS (key (unified_job_template_id j)) d)
             (get_item JOB_TEMPLATE_JOBS (key (unified_job_template_id j)) d)
         else None)
      else None)"

definition system_job_blocked_by :: "task \<Rightarrow> dep_graph \<Rightarrow> task option" where
  "system_job_blocked_by j d = get_item SYSTEM_JOB (Some SystemJobKey) d"

definition ad_hoc_command_blocked_by :: "task \<Rightarrow> dep_graph \<Rightarrow> task option" where
  "ad_hoc_command_blocked_by j d = get_item INVENTORY_UPDATES (key (inventory_id_of (kind j))) d"

definition task_blocked_by :: "task \<Rightarrow> dep_graph \<Rightarrow> task option" where
  "task_blocked_by j d =
     (case kind j of
        ProjectUpdate _ \<Rightarrow> project_update_blocked_by j d
      | InventoryUpdate _ _ \<Rightarrow> inventory_update_blocked_by j d
      | Job _ _ _ \<Rightarrow> graph_job_blocked_by j d
      | SystemJob \<Rightarrow> system_job_blocked_by j d
      | AdHocCommand _ \<Rightarrow> ad_hoc_command_blocked_by j d
      | WorkflowJob _ \<Rightarrow> workflow_job_blocked_by j d
      | WorkflowApproval \<Rightarrow> None)"

definition add_job :: "task \<Rightarrow> dep_graph \<Rightarrow> dep_graph" where
  "add_job j d =
     (case kind j of
        ProjectUpdate _ \<Rightarrow> mark_project_update j d
      | InventoryUpdate _ _ \<Rightarrow> mark_inventory_source_update j (mark_inventory_update j d)
      | Job _ _ _ \<Rightarrow> mark_job_template_job j d
      | WorkflowJob _ \<Rightarrow> mark_workflow_job j d
      | SystemJob \<Rightarrow> mark_system_job j d
      | AdHocCommand _ \<Rightarrow> mark_inventory_update j d
      | WorkflowApproval \<Rightarrow> d)"

definition add_jobs :: "task list \<Rightarrow> dep_graph \<Rightarrow> dep_graph" where
  "add_jobs js d = fold add_job js d"

section \<open>An index in which the first entry wins\<close>

text \<open>
  The contract between the index and the blocking rules: an item is entered under the slots it
  claims, and a slot keeps the first item that claimed it.
\<close>

locale first_wins =
  fixes put :: "'j \<Rightarrow> 'd \<Rightarrow> 'd"
    and look :: "'s \<Rightarrow> 'd \<Rightarrow> 'j option"
    and claims :: "'j \<Rightarrow> 's \<Rightarrow> bool"
    and start :: 'd
  assumes look_start: "look s start = None"
    and look_put: "look s (put j d) =
      (case look s d of Some i \<Rightarrow> Some i | None \<Rightarrow> if claims j s then Some j else None)"
begin

lemma look_fold: "look s (fold put js d) =
    (case look s d of Some i \<Rightarrow> Some i | None \<Rightarrow> List.find (\<lambda>j. claims j s) js)"
  by (induction js arbitrary: d) (auto simp: look_put split: option.splits)

lemma look_all: "look s (fold put js start) = List.find (\<lambda>j. claims j s) js"
  by (simp add: look_fold look_start)

lemma look_all_None: "look s (fold put js start) = None \<longleftrightarrow> (\<forall>j \<in> set js. \<not> claims j s)"
  by (auto simp: look_all find_None_iff)

lemma look_all_Some: "look s (fold put js start) = Some j \<Longrightarrow> j \<in> set js \<and> claims j s"
  by (auto simp: look_all find_Some_iff)

text \<open>A taken slot keeps its owner.\<close>

lemma look_keeps: "look s d = Some j \<Longrightarrow> look s (fold put js d) = Some j"
  by (simp add: look_fold)

end

text \<open>The slots that a job claims when it is added.\<close>

fun claims_slot :: "task \<Rightarrow> resource \<times> graph_key \<Rightarrow> bool" where
  "claims_slot j (r, k) =
     (case kind j of
        ProjectUpdate p \<Rightarrow> r = PROJECT_UPDATES \<and> key p = Some k
      | InventoryUpdate src iv \<Rightarrow>
          (r = INVENTORY_UPDATES \<and> key iv = Some k) \<or> (r = INVENTORY_SOURCE_UPDATES \<and> key src = Some k)
      | Job _ _ jt \<Rightarrow> r = JOB_TEMPLATE_JOBS \<and> key jt = Some k
      | WorkflowJob w \<Rightarrow> r = WORKFLOW_JOB_TEMPLATES_JOBS \<and>
          (if truthy w then key w = Some k
           else truthy (unified_job_template_id j) \<and> key (unified_job_template_id j) = Some k)
      | SystemJob \<Rightarrow> r = SYSTEM_JOB \<and> k = SystemJobKey
      | AdHocCommand iv \<Rightarrow> r = INVENTORY_UPDATES \<and> key iv = Some k
      | WorkflowApproval \<Rightarrow> False)"

definition slot :: "resource \<times> graph_key \<Rightarrow> dep_graph \<Rightarrow> task option" where
  "slot s d = d (fst s) (snd s)"

interpretation index: first_wins add_job slot claims_slot empty_graph
proof
  show "slot s empty_graph = None" for s
    by (simp add: slot_def empty_graph_def)
  show "slot s (add_job j d) =
      (case slot s d of Some i \<Rightarrow> Some i | None \<Rightarrow> if claims_slot j s then Some j else None)" for s j d
  proof (cases s)
    case (Pair r k)
    show ?thesis unfolding Pair
      by (cases "kind j") (auto simp: slot_def add_job_def mark_if_no_key_def mark_project_update_def
          mark_inventory_update_def mark_inventory_source_update_def mark_job_template_job_def
          mark_workflow_job_def mark_system_job_def split: option.splits)
  qed
qed

section \<open>Who blocks whom\<close>

text \<open>
  The rule that the index implements, stated on two jobs: whether an active job \<open>j\<close> has to finish
  before the task \<open>t\<close> may start.
\<close>

fun blocks_kind :: "task_kind \<Rightarrow> pk option \<Rightarrow> task_kind \<Rightarrow> bool \<Rightarrow> pk option \<Rightarrow> bool" where
  "blocks_kind (ProjectUpdate p) _ (ProjectUpdate q) _ _ \<longleftrightarrow> p = q \<and> p \<noteq> None"
| "blocks_kind (ProjectUpdate p) _ (Job q _ _) _ _ \<longleftrightarrow> p = q \<and> p \<noteq> None"
| "blocks_kind (InventoryUpdate s _) _ (InventoryUpdate s' _) _ _ \<longleftrightarrow> s = s' \<and> s \<noteq> None"
| "blocks_kind (InventoryUpdate _ i) _ (Job _ i' _) _ _ \<longleftrightarrow> i = i' \<and> i \<noteq> None"
| "blocks_kind (InventoryUpdate _ i) _ (AdHocCommand i') _ _ \<longleftrightarrow> i = i' \<and> i \<noteq> None"
| "blocks_kind (AdHocCommand i) _ (AdHocCommand i') _ _ \<longleftrightarrow> i = i' \<and> i \<noteq> None"
| "blocks_kind (AdHocCommand i) _ (Job _ i' _) _ _ \<longleftrightarrow> i = i' \<and> i \<noteq> None"
| "blocks_kind (Job _ _ jt) _ (Job _ _ jt') simultaneous _ \<longleftrightarrow>
     \<not> simultaneous \<and> jt = jt' \<and> jt \<noteq> None"
| "blocks_kind (Job _ _ jt) _ (WorkflowJob w) simultaneous u \<longleftrightarrow>
     \<not> simultaneous \<and> \<not> truthy w \<and> truthy u \<and> jt = u"
| "blocks_kind (WorkflowJob w) u (WorkflowJob w') simultaneous u' \<longleftrightarrow>
     \<not> simultaneous \<and> (let k = (if truthy w then w else u); k' = (if truthy w' then w' else u')
                      in truthy k' \<and> k = k')"
| "blocks_kind SystemJob _ SystemJob _ _ \<longleftrightarrow> True"
| "blocks_kind _ _ _ _ _ \<longleftrightarrow> False"

definition blocks :: "task \<Rightarrow> task \<Rightarrow> bool" where
  "blocks j t = blocks_kind (kind j) (unified_job_template_id j) (kind t)
     (allow_simultaneous t) (unified_job_template_id t)"

text \<open>The slots a task looks into, in the order in which it does.\<close>

definition slots_of :: "resource \<Rightarrow> pk option \<Rightarrow> (resource \<times> graph_key) list" where
  "slots_of r k = (case k of None \<Rightarrow> [] | Some i \<Rightarrow> [(r, Key i)])"

definition watched :: "task \<Rightarrow> (resource \<times> graph_key) list" where
  "watched t =
     (case kind t of
        ProjectUpdate p \<Rightarrow> slots_of PROJECT_UPDATES p
      | InventoryUpdate s _ \<Rightarrow> slots_of INVENTORY_SOURCE_UPDATES s
      | Job p i jt \<Rightarrow> slots_of PROJECT_UPDATES p @ slots_of INVENTORY_UPDATES i @
          (if allow_simultaneous t then [] else slots_of JOB_TEMPLATE_JOBS jt)
      | SystemJob \<Rightarrow> [(SYSTEM_JOB, SystemJobKey)]
      | AdHocCommand i \<Rightarrow> slots_of INVENTORY_UPDATES i
      | WorkflowJob w \<Rightarrow>
          (if allow_simultaneous t then []
           else if truthy w then slots_of WORKFLOW_JOB_TEMPLATES_JOBS w
           else if truthy (unified_job_template_id t) then
             slots_of WORKFLOW_JOB_TEMPLATES_JOBS (unified_job_template_id t) @
             slots_of JOB_TEMPLATE_JOBS (unified_job_template_id t)
           else [])
      | WorkflowApproval \<Rightarrow> [])"

definition first_owner :: "(resource \<times> graph_key) list \<Rightarrow> dep_graph \<Rightarrow> task option" where
  "first_owner ss d = foldr (\<lambda>s r. or_else (slot s d) r) ss None"

lemma first_owner_simps:
  "first_owner [] d = None" "first_owner (s # ss) d = or_else (slot s d) (first_owner ss d)"
  by (simp_all add: first_owner_def)

lemma or_else_simps [simp]:
  "or_else None b = b" "or_else (Some x) b = Some x" "or_else a None = a"
  by (simp_all add: or_else_def split: option.splits)

lemma first_owner_append: "first_owner (xs @ ys) d = or_else (first_owner xs d) (first_owner ys d)"
  by (induction xs) (auto simp: first_owner_simps or_else_def split: option.splits)

lemma get_item_owner: "get_item r (key k) d = first_owner (slots_of r k) d"
  by (simp add: get_item_def slots_of_def slot_def first_owner_simps split: option.splits)

lemma task_blocked_by_owner: "task_blocked_by t d = first_owner (watched t) d"
  by (cases "kind t") (simp_all add: task_blocked_by_def watched_def first_owner_append
      project_update_blocked_by_def inventory_update_blocked_by_def graph_job_blocked_by_def Let_def
      system_job_blocked_by_def ad_hoc_command_blocked_by_def workflow_job_blocked_by_def
      get_item_owner [symmetric] first_owner_simps get_item_def slot_def or_else_def
      split: option.splits)

lemma first_owner_None: "first_owner ss d = None \<longleftrightarrow> (\<forall>s \<in> set ss. slot s d = None)"
  by (induction ss) (auto simp: first_owner_simps or_else_def split: option.splits)

lemma first_owner_Some: "first_owner ss d = Some j \<Longrightarrow> \<exists>s \<in> set ss. slot s d = Some j"
  by (induction ss) (auto simp: first_owner_simps or_else_def split: option.splits)

lemma blocks_watched: "blocks j t \<longleftrightarrow> (\<exists>s \<in> set (watched t). claims_slot j s)"
  by (cases "kind j"; cases "kind t")
    (auto simp: blocks_def watched_def slots_of_def Let_def truthy_def split: option.splits if_splits)

lemma blocked_by_index:
  "task_blocked_by t (add_jobs js empty_graph) = None \<longleftrightarrow> \<not> (\<exists>j \<in> set js. blocks j t)"
  by (auto simp: task_blocked_by_owner add_jobs_def first_owner_None index.look_all_None blocks_watched)

lemma blocker_blocks:
  "task_blocked_by t (add_jobs js empty_graph) = Some j \<Longrightarrow> j \<in> set js \<and> blocks j t"
  using first_owner_Some index.look_all_Some
  by (fastforce simp: task_blocked_by_owner add_jobs_def blocks_watched)

text \<open>
  After any list of jobs has been added, a task is blocked exactly if one of them conflicts
  with it by the rule \<open>blocks\<close>: the index with its first-come entries loses no conflict and
  invents none, whatever the order of the jobs.
\<close>

theorem task_blocked_by_iff:
  "task_blocked_by t (add_jobs js empty_graph) = None \<longleftrightarrow> \<not> (\<exists>j \<in> set js. blocks j t)"
  by (rule blocked_by_index)

text \<open>
  The job named as the blocker was added and does conflict with the task, and among the jobs
  that conflict with a task that watches a single resource it is the one added first: of ten
  launches of a template, the last nine wait for the first.
\<close>

theorem task_blocked_by_first:
  assumes "task_blocked_by t (add_jobs js empty_graph) = Some j"
  shows "j \<in> set js \<and> blocks j t \<and>
    (length (watched t) = 1 \<longrightarrow> List.find (\<lambda>i. blocks i t) js = Some j)"
proof (intro conjI impI)
  show "j \<in> set js" "blocks j t" using blocker_blocks [OF assms] by simp_all
  assume "length (watched t) = 1"
  then obtain s where s: "watched t = [s]" by (cases "watched t") auto
  then have "slot s (fold add_job js empty_graph) = Some j"
    using assms by (simp add: task_blocked_by_owner add_jobs_def first_owner_simps)
  then show "List.find (\<lambda>i. blocks i t) js = Some j"
    by (simp add: index.look_all blocks_watched s)
qed

definition template_job :: "pk \<Rightarrow> task" where
  "template_job i = blank_task\<lparr>task_id := i, kind := Job None None (Some 5),
     unified_job_template_id := Some 5\<rparr>"

theorem task_blocked_by_first_witness:
  "task_blocked_by (template_job 3) (add_jobs [template_job 1, template_job 2] empty_graph) =
     Some (template_job 1) \<and>
   template_job 1 \<in> set [template_job 1, template_job 2] \<and> blocks (template_job 1) (template_job 3) \<and>
   List.find (\<lambda>i. blocks i (template_job 3)) [template_job 1, template_job 2] = Some (template_job 1)"
proof -
  have b: "task_blocked_by (template_job 3) (add_jobs [template_job 1, template_job 2] empty_graph) =
     Some (template_job 1)"
    by (simp add: template_job_def blank_task_def add_jobs_def add_job_def mark_job_template_job_def mark_if_no_key_def
        task_blocked_by_def graph_job_blocked_by_def get_item_def empty_graph_def)
  moreover have "length (watched (template_job 3)) = 1"
    by (simp add: watched_def template_job_def blank_task_def slots_of_def)
  ultimately show ?thesis using task_blocked_by_first [OF b] by blast
qed

text \<open>Adding jobs never unblocks a task.\<close>

lemma blocked_stays_blocked:
  "task_blocked_by t (add_jobs js empty_graph) \<noteq> None \<Longrightarrow>
     task_blocked_by t (add_jobs (js @ ks) empty_graph) \<noteq> None"
  unfolding blocked_by_index by auto

end
