(* ===== verification/Task_Models.thy ===== *)
theory Task_Models
  imports Tasks
begin

text \<open>
  The capacity bookkeeping of the task manager: \<open>forail/main/scheduler/task_manager_models.py\<close>.

  Instances are shared between groups in the source; a group here holds the hostnames of its
  instances and the instances live in one store keyed by hostname. Capacities and impacts are
  Python integers. A missing key or an attribute of \<open>None\<close> is an error value.
\<close>

section \<open>State\<close>

record db_instance =
  di_hostname :: hostname
  di_node_type :: node_type
  di_capacity :: int
  di_ready :: bool
  di_enabled :: bool

record db_group =
  dg_pk :: pk
  dg_name :: string
  dg_is_container_group :: bool
  dg_instances :: "hostname list"
  dg_max_concurrent_jobs :: int
  dg_max_forks :: int

record tm_instance =
  node_type :: node_type
  consumed_capacity :: int
  capacity :: int
  hostname :: hostname
  jobs_running :: int

record tm_group =
  name :: string
  is_container_group :: bool
  container_group_jobs :: int
  container_group_consumed_forks :: int
  instance_hostnames :: "hostname list"
  max_concurrent_jobs :: int
  max_forks :: int

record tm_models =
  instances_by_hostname :: "hostname \<Rightarrow> tm_instance option"
  instance_groups :: "string \<Rightarrow> tm_group option"
  pk_ig_map :: "pk \<Rightarrow> db_group option"
  controlplane_ig :: "db_group option"
  control_task_impact :: int

datatype tm_error = KeyError | NoneError | RuntimeError

section \<open>Instances\<close>

definition new_instance :: "db_instance \<Rightarrow> tm_instance" where
  "new_instance obj = \<lparr>node_type = di_node_type obj, consumed_capacity = 0,
     capacity = di_capacity obj, hostname = di_hostname obj, jobs_running = 0\<rparr>"

definition instance_consume :: "int \<Rightarrow> bool \<Rightarrow> tm_instance \<Rightarrow> tm_instance" where
  "instance_consume impact job_impact i =
     i\<lparr>consumed_capacity := consumed_capacity i + impact,
       jobs_running := (if job_impact then jobs_running i + 1 else jobs_running i)\<rparr>"

definition remaining_capacity :: "tm_instance \<Rightarrow> int" where
  "remaining_capacity i =
     (let remaining = capacity i - consumed_capacity i
      in if remaining < 0 then 0 else remaining)"

text \<open>The instances a task manager run looks at, and the store built from them.\<close>

definition usable_instances :: "db_instance list \<Rightarrow> db_instance list" where
  "usable_instances is = filter (\<lambda>i. di_ready i \<and> di_enabled i \<and> di_node_type i \<noteq> HopNode) is"

definition init_instances :: "db_instance list \<Rightarrow> hostname \<Rightarrow> tm_instance option" where
  "init_instances is = fold (\<lambda>i m. m(di_hostname i \<mapsto> new_instance i)) is Map.empty"

definition update_instance ::
  "hostname \<Rightarrow> (tm_instance \<Rightarrow> tm_instance) \<Rightarrow> (hostname \<Rightarrow> tm_instance option) \<Rightarrow>
     hostname \<Rightarrow> tm_instance option" where
  "update_instance h f m = m(h := map_option f (m h))"

definition instances_consume ::
  "int \<Rightarrow> task \<Rightarrow> (hostname \<Rightarrow> tm_instance option) \<Rightarrow> hostname \<Rightarrow> tm_instance option" where
  "instances_consume control_impact t m =
     (let control_instance = m (controller_node t);
          execution_instance = m (execution_node t);
          m1 = (case execution_instance of
                  Some e \<Rightarrow>
                    if node_type e \<in> {HybridNode, ExecutionNode} then
                      update_instance (execution_node t) (instance_consume (task_impact t) True) m
                    else m
                | None \<Rightarrow> m)
      in case control_instance of
           Some c \<Rightarrow>
             if node_type c \<in> {HybridNode, ControlNode} then
               update_instance (controller_node t) (instance_consume control_impact False) m1
             else m1
         | None \<Rightarrow> m1)"

section \<open>Groups\<close>

definition new_group :: "(hostname \<Rightarrow> tm_instance option) \<Rightarrow> db_group \<Rightarrow> tm_group" where
  "new_group insts obj = \<lparr>name = dg_name obj, is_container_group = dg_is_container_group obj,
     container_group_jobs = 0, container_group_consumed_forks = 0,
     instance_hostnames = filter (\<lambda>h. insts h \<noteq> None) (dg_instances obj),
     max_concurrent_jobs = dg_max_concurrent_jobs obj, max_forks = dg_max_forks obj\<rparr>"

definition group_consume :: "task \<Rightarrow> tm_group \<Rightarrow> tm_error + tm_group" where
  "group_consume t g =
     (if is_container_group g then
        Inr (g\<lparr>container_group_jobs := container_group_jobs g + 1,
               container_group_consumed_forks := container_group_consumed_forks g + task_impact t\<rparr>)
      else Inl RuntimeError)"

text \<open>\<open>self.instances\<close>: the objects of the listed hostnames, all of which the store holds.\<close>

definition group_instances :: "(hostname \<Rightarrow> tm_instance option) \<Rightarrow> tm_group \<Rightarrow> tm_instance list" where
  "group_instances insts g = List.map_filter insts (instance_hostnames g)"

definition get_remaining_instance_capacity :: "(hostname \<Rightarrow> tm_instance option) \<Rightarrow> tm_group \<Rightarrow> int" where
  "get_remaining_instance_capacity insts g = sum_list (map remaining_capacity (group_instances insts g))"

definition get_instance_capacity :: "(hostname \<Rightarrow> tm_instance option) \<Rightarrow> tm_group \<Rightarrow> int" where
  "get_instance_capacity insts g = sum_list (map capacity (group_instances insts g))"

definition get_consumed_instance_capacity :: "(hostname \<Rightarrow> tm_instance option) \<Rightarrow> tm_group \<Rightarrow> int" where
  "get_consumed_instance_capacity insts g = sum_list (map consumed_capacity (group_instances insts g))"

definition get_jobs_running :: "(hostname \<Rightarrow> tm_instance option) \<Rightarrow> tm_group \<Rightarrow> int" where
  "get_jobs_running insts g =
     (if is_container_group g then container_group_jobs g
      else sum_list (map jobs_running (group_instances insts g)))"

definition get_capacity :: "(hostname \<Rightarrow> tm_instance option) \<Rightarrow> tm_group \<Rightarrow> int" where
  "get_capacity insts g =
     (if is_container_group g then max_forks g else get_instance_capacity insts g)"

definition get_consumed_capacity :: "(hostname \<Rightarrow> tm_instance option) \<Rightarrow> tm_group \<Rightarrow> int" where
  "get_consumed_capacity insts g =
     (if is_container_group g then container_group_consumed_forks g
      else get_consumed_instance_capacity insts g)"

definition get_remaining_capacity :: "(hostname \<Rightarrow> tm_instance option) \<Rightarrow> tm_group \<Rightarrow> int" where
  "get_remaining_capacity insts g = get_capacity insts g - get_consumed_capacity insts g"

text \<open>The task is \<open>None\<close> when the group is asked for control capacity.\<close>

definition has_remaining_capacity ::
  "int \<Rightarrow> (hostname \<Rightarrow> tm_instance option) \<Rightarrow> tm_group \<Rightarrow> task option \<Rightarrow> bool" where
  "has_remaining_capacity control_impact insts g t =
     (let impact = (case t of None \<Rightarrow> control_impact | Some t \<Rightarrow> task_impact t);
          job_impact = (case t of None \<Rightarrow> 0 | Some _ \<Rightarrow> 1);
          remaining_jobs = (if max_concurrent_jobs g = 0 then 0
             else max_concurrent_jobs g - get_jobs_running insts g - job_impact);
          remaining_forks = (if max_forks g = 0 then 0
             else max_forks g - get_consumed_capacity insts g - impact)
      in \<not> (remaining_jobs < 0 \<or> remaining_forks < 0))"

section \<open>All groups\<close>

definition init_models ::
  "int \<Rightarrow> string \<Rightarrow> db_instance list \<Rightarrow> db_group list \<Rightarrow> tm_models" where
  "init_models control_impact controlplane_name dis dgs =
     (let insts = init_instances (usable_instances dis)
      in \<lparr>instances_by_hostname = insts,
          instance_groups = fold (\<lambda>g m. m(dg_name g \<mapsto> new_group insts g)) dgs Map.empty,
          pk_ig_map = fold (\<lambda>g m. m(dg_pk g \<mapsto> g)) dgs Map.empty,
          controlplane_ig = fold (\<lambda>g c. if dg_name g = controlplane_name then Some g else c) dgs None,
          control_task_impact = control_impact\<rparr>)"

text \<open>
  The candidate loop: the accumulator is the pair of the best instance so far and what would
  remain on it, initially \<open>(None, -1)\<close>.
\<close>

definition would_be_remaining :: "int \<Rightarrow> int \<Rightarrow> bool \<Rightarrow> tm_instance \<Rightarrow> int" where
  "would_be_remaining control_impact impact add_hybrid_control_cost i =
     (let w = remaining_capacity i - impact
      in if add_hybrid_control_cost \<and> node_type i = HybridNode then w - control_impact else w)"

fun fit_loop ::
  "(tm_instance \<Rightarrow> int) \<Rightarrow> node_type \<Rightarrow> tm_instance list \<Rightarrow> tm_instance option \<times> int \<Rightarrow>
     tm_instance option \<times> int" where
  "fit_loop w ct [] best = best"
| "fit_loop w ct (i # is) best =
     (if node_type i \<notin> {ct, HybridNode} then fit_loop w ct is best
      else if w i \<ge> 0 \<and> (fst best = None \<or> w i > snd best) then fit_loop w ct is (Some i, w i)
      else fit_loop w ct is best)"

definition fit_task_to_most_remaining_capacity_instance ::
  "tm_models \<Rightarrow> task \<Rightarrow> string \<Rightarrow> int option \<Rightarrow> node_type option \<Rightarrow> bool \<Rightarrow>
     tm_error + tm_instance option" where
  "fit_task_to_most_remaining_capacity_instance m t gname impact ct add_hybrid_control_cost =
     (let impact = (case impact of None \<Rightarrow> task_impact t | Some k \<Rightarrow> if k = 0 then task_impact t else k);
          ct = (case ct of None \<Rightarrow> capacity_type t | Some c \<Rightarrow> c)
      in case instance_groups m gname of
           None \<Rightarrow> Inl KeyError
         | Some g \<Rightarrow>
             Inr (fst (fit_loop
               (would_be_remaining (control_task_impact m) impact add_hybrid_control_cost) ct
               (group_instances (instances_by_hostname m) g) (None, -1))))"

fun idle_loop :: "node_type \<Rightarrow> tm_instance list \<Rightarrow> tm_instance option \<Rightarrow> tm_instance option" where
  "idle_loop ct [] largest = largest"
| "idle_loop ct (i # is) largest =
     (if node_type i \<notin> {ct, HybridNode} then idle_loop ct is largest
      else if capacity i \<le> 0 then idle_loop ct is largest
      else if jobs_running i = 0 \<or> remaining_capacity i = capacity i then
        (case largest of
           None \<Rightarrow> idle_loop ct is (Some i)
         | Some l \<Rightarrow> if capacity i > capacity l then idle_loop ct is (Some i) else idle_loop ct is largest)
      else idle_loop ct is largest)"

definition find_largest_idle_instance ::
  "tm_models \<Rightarrow> string \<Rightarrow> node_type \<Rightarrow> tm_error + tm_instance option" where
  "find_largest_idle_instance m gname ct =
     (case instance_groups m gname of
        None \<Rightarrow> Inl KeyError
      | Some g \<Rightarrow> Inr (idle_loop ct (group_instances (instances_by_hostname m) g) None))"

text \<open>\<open>global_groups\<close> gives a task's \<open>global_instance_groups\<close>, a query of the source.\<close>

definition get_instance_groups_from_task_cache ::
  "(pk \<Rightarrow> db_group list) \<Rightarrow> tm_models \<Rightarrow> task \<Rightarrow> db_group list" where
  "get_instance_groups_from_task_cache global_groups m t =
     (let igs = List.map_filter (pk_ig_map m) (preferred_instance_groups_cache t)
      in if length igs = 0 then global_groups (task_id t) else igs)"

definition consume_capacity :: "task \<Rightarrow> tm_models \<Rightarrow> tm_error + tm_models" where
  "consume_capacity t m =
     (let m1 = m\<lparr>instances_by_hostname :=
                   instances_consume (control_task_impact m) t (instances_by_hostname m)\<rparr>
      in if truthy (instance_group_id t) then
           (case pk_ig_map m1 (the (instance_group_id t)) of
              None \<Rightarrow> Inr m1
            | Some ig \<Rightarrow>
                if dg_is_container_group ig then
                  (case instance_groups m1 (dg_name ig) of
                     None \<Rightarrow> Inl NoneError
                   | Some g \<Rightarrow>
                       (case group_consume t g of
                          Inl e \<Rightarrow> Inl e
                        | Inr g' \<Rightarrow>
                            Inr (m1\<lparr>instance_groups := (instance_groups m1)(dg_name ig \<mapsto> g')\<rparr>)))
                else Inr m1)
         else Inr m1)"

fun consume_all :: "task list \<Rightarrow> tm_models \<Rightarrow> tm_error + tm_models" where
  "consume_all [] m = Inr m"
| "consume_all (t # ts) m = (case consume_capacity t m of Inl e \<Rightarrow> Inl e | Inr m' \<Rightarrow> consume_all ts m')"

definition init_with_consumed_capacity ::
  "int \<Rightarrow> string \<Rightarrow> db_instance list \<Rightarrow> db_group list \<Rightarrow> task list \<Rightarrow> tm_error + tm_models" where
  "init_with_consumed_capacity control_impact controlplane_name dis dgs ts =
     consume_all (filter (\<lambda>t. status t \<in> {Running, Waiting}) ts)
       (init_models control_impact controlplane_name dis dgs)"

end
