(* ===== verification/Task_Capacity.thy ===== *)
theory Task_Capacity
  imports Task_Models
begin

text \<open>
  Correctness of the capacity bookkeeping: the choice of an instance is a first maximum over the
  instances that fit, and what is booked on the instances and container groups is the sum over
  the tasks that were consumed.
\<close>

section \<open>Choosing an instance\<close>

definition usable :: "node_type \<Rightarrow> tm_instance \<Rightarrow> bool" where
  "usable ct i \<longleftrightarrow> node_type i = ct \<or> node_type i = HybridNode"

lemma fit_loop_max:
  "fst (fit_loop w ct is (b, k)) = fold (keep_max w) (filter (\<lambda>i. usable ct i \<and> w i \<ge> 0) is) b"
  if "case b of None \<Rightarrow> True | Some x \<Rightarrow> k = w x"
  using that by (induction "is" arbitrary: b k) (auto simp: usable_def keep_max_def split: option.splits)

lemma fit_is_first_max:
  "fst (fit_loop w ct is (None, -1)) = first_max w (filter (\<lambda>i. usable ct i \<and> w i \<ge> 0) is)"
  by (simp add: fit_loop_max first_max_def)

definition idle :: "tm_instance \<Rightarrow> bool" where
  "idle i \<longleftrightarrow> jobs_running i = 0 \<or> remaining_capacity i = capacity i"

lemma idle_loop_max:
  "idle_loop ct is b =
     fold (keep_max capacity) (filter (\<lambda>i. usable ct i \<and> 0 < capacity i \<and> idle i) is) b"
  by (induction "is" arbitrary: b) (auto simp: usable_def idle_def keep_max_def split: option.splits)

lemma fit_spec:
  assumes g: "instance_groups m gname = Some g" and k: "impact \<noteq> 0"
  shows "fit_task_to_most_remaining_capacity_instance m t gname (Some impact) (Some ct) hyb =
     Inr (first_max (would_be_remaining (control_task_impact m) impact hyb)
       (filter (\<lambda>i. usable ct i \<and> 0 \<le> would_be_remaining (control_task_impact m) impact hyb i)
         (group_instances (instances_by_hostname m) g)))"
  using g k by (simp add: fit_task_to_most_remaining_capacity_instance_def Let_def fit_is_first_max)

lemma fit_default:
  "fit_task_to_most_remaining_capacity_instance m t gname None None hyb =
   fit_task_to_most_remaining_capacity_instance m t gname (Some (task_impact t)) (Some (capacity_type t)) hyb"
  by (simp add: fit_task_to_most_remaining_capacity_instance_def Let_def)

lemma would_be_remaining_le:
  "0 \<le> impact \<Longrightarrow> 0 \<le> ci \<Longrightarrow> 0 \<le> would_be_remaining ci impact hyb i \<Longrightarrow> impact \<le> remaining_capacity i"
  by (auto simp: would_be_remaining_def Let_def split: if_splits)

text \<open>
  The instance chosen for a task: no instance is chosen exactly if no instance of the group of
  the wanted type (hybrid nodes qualify for every type) has room for the impact; otherwise the
  chosen instance is one of those, no other has more room left after the placement, and it is the
  first such in the group's order. Booking the impact on it does not exceed its capacity, and on a
  hybrid node the control cost still fits beside it.
\<close>

theorem fit_task_correct:
  assumes g: "instance_groups m gname = Some g" and k: "0 < impact" and ci: "0 \<le> control_task_impact m"
  shows "\<exists>r. fit_task_to_most_remaining_capacity_instance m t gname (Some impact) (Some ct) hyb = Inr r \<and>
    (let w = would_be_remaining (control_task_impact m) impact hyb;
         cands = filter (\<lambda>i. usable ct i \<and> 0 \<le> w i) (group_instances (instances_by_hostname m) g)
     in case r of
          None \<Rightarrow> cands = []
        | Some i \<Rightarrow>
            (\<exists>xs ys. cands = xs @ i # ys \<and> (\<forall>x \<in> set xs. w x < w i) \<and> (\<forall>y \<in> set ys. w y \<le> w i)) \<and>
            consumed_capacity (instance_consume impact True i) +
              (if hyb \<and> node_type i = HybridNode then control_task_impact m else 0) \<le> capacity i)"
proof -
  let ?w = "would_be_remaining (control_task_impact m) impact hyb"
  let ?c = "filter (\<lambda>i. usable ct i \<and> 0 \<le> ?w i) (group_instances (instances_by_hostname m) g)"
  have "case first_max ?w ?c of
      None \<Rightarrow> ?c = []
    | Some i \<Rightarrow> (\<exists>xs ys. ?c = xs @ i # ys \<and> (\<forall>x \<in> set xs. ?w x < ?w i) \<and> (\<forall>y \<in> set ys. ?w y \<le> ?w i)) \<and>
        consumed_capacity (instance_consume impact True i) +
          (if hyb \<and> node_type i = HybridNode then control_task_impact m else 0) \<le> capacity i"
  proof (cases "first_max ?w ?c")
    case (Some i)
    with first_max_greatest have "0 \<le> ?w i" by fastforce
    then have "consumed_capacity (instance_consume impact True i) +
        (if hyb \<and> node_type i = HybridNode then control_task_impact m else 0) \<le> capacity i"
      using k ci by (auto simp: would_be_remaining_def remaining_capacity_def instance_consume_def Let_def
          split: if_splits)
    moreover from Some have "\<exists>xs ys. ?c = xs @ i # ys \<and> (\<forall>x \<in> set xs. ?w x < ?w i) \<and>
        (\<forall>y \<in> set ys. ?w y \<le> ?w i)" by (elim first_max_Some) blast
    ultimately show ?thesis using Some by simp
  next
    case None
    then have "?c = []" by (simp only: first_max_None)
    with None show ?thesis by (simp only: option.case)
  qed
  then show ?thesis unfolding Let_def
    by (intro exI [of _ "first_max ?w ?c"] conjI fit_spec [OF g]) (use k in simp_all)
qed

text \<open>
  The fallback instance: among the instances of the group of the wanted type that have
  capacity and on which nothing runs (or nothing is booked), the first of greatest capacity; none
  is returned exactly if there is no such instance.
\<close>

theorem find_largest_idle_correct:
  assumes g: "instance_groups m gname = Some g"
  shows "\<exists>r. find_largest_idle_instance m gname ct = Inr r \<and>
    (let cands = filter (\<lambda>i. usable ct i \<and> 0 < capacity i \<and> idle i)
                   (group_instances (instances_by_hostname m) g)
     in case r of
          None \<Rightarrow> cands = []
        | Some i \<Rightarrow> \<exists>xs ys. cands = xs @ i # ys \<and> (\<forall>x \<in> set xs. capacity x < capacity i) \<and>
            (\<forall>y \<in> set ys. capacity y \<le> capacity i))"
proof -
  let ?c = "filter (\<lambda>i. usable ct i \<and> 0 < capacity i \<and> idle i) (group_instances (instances_by_hostname m) g)"
  have "case first_max capacity ?c of None \<Rightarrow> ?c = []
    | Some i \<Rightarrow> \<exists>xs ys. ?c = xs @ i # ys \<and> (\<forall>x \<in> set xs. capacity x < capacity i) \<and>
        (\<forall>y \<in> set ys. capacity y \<le> capacity i)"
  proof (cases "first_max capacity ?c")
    case (Some i)
    then have "\<exists>xs ys. ?c = xs @ i # ys \<and> (\<forall>x \<in> set xs. capacity x < capacity i) \<and>
        (\<forall>y \<in> set ys. capacity y \<le> capacity i)" by (elim first_max_Some) blast
    with Some show ?thesis by simp
  next
    case None
    then have "?c = []" by (simp only: first_max_None)
    with None show ?thesis by (simp only: option.case)
  qed
  then show ?thesis using g by (simp add: find_largest_idle_instance_def idle_loop_max first_max_def Let_def)
qed

section \<open>Booking\<close>

definition runs_on :: "hostname \<Rightarrow> node_type \<Rightarrow> task \<Rightarrow> bool" where
  "runs_on h nt t \<longleftrightarrow> execution_node t = h \<and> nt \<in> {HybridNode, ExecutionNode}"

definition controlled_on :: "hostname \<Rightarrow> node_type \<Rightarrow> task \<Rightarrow> bool" where
  "controlled_on h nt t \<longleftrightarrow> controller_node t = h \<and> nt \<in> {HybridNode, ControlNode}"

definition load :: "int \<Rightarrow> hostname \<Rightarrow> node_type \<Rightarrow> task list \<Rightarrow> int" where
  "load ci h nt ts = sum_list (map task_impact (filter (runs_on h nt) ts)) +
     ci * int (length (filter (controlled_on h nt) ts))"

definition book :: "int \<Rightarrow> hostname \<Rightarrow> task list \<Rightarrow> tm_instance \<Rightarrow> tm_instance" where
  "book ci h ts i = i\<lparr>consumed_capacity := consumed_capacity i + load ci h (node_type i) ts,
     jobs_running := jobs_running i + int (length (filter (runs_on h (node_type i)) ts))\<rparr>"

lemma instances_consume_at: "instances_consume ci t m h = map_option (book ci h [t]) (m h)"
proof (cases "m h")
  case None
  then show ?thesis
    by (cases "m (controller_node t)"; cases "m (execution_node t)")
      (auto simp: instances_consume_def update_instance_def)
next
  case (Some i)
  then show ?thesis
    by (cases "m (controller_node t)"; cases "m (execution_node t)"; cases "execution_node t = h";
        cases "controller_node t = h")
      (simp_all add: instances_consume_def update_instance_def book_def load_def runs_on_def
        controlled_on_def instance_consume_def Let_def)
qed

lemma book_Cons: "book ci h (t # ts) i = book ci h ts (book ci h [t] i)"
  by (simp add: book_def load_def algebra_simps)

lemma book_Nil [simp]: "book ci h [] i = i"
  by (simp add: book_def load_def)

definition container_task :: "tm_models \<Rightarrow> string \<Rightarrow> task \<Rightarrow> bool" where
  "container_task m n t \<longleftrightarrow> truthy (instance_group_id t) \<and>
     (case pk_ig_map m (the (instance_group_id t)) of
        None \<Rightarrow> False
      | Some ig \<Rightarrow> dg_is_container_group ig \<and> dg_name ig = n)"

definition book_group :: "tm_models \<Rightarrow> string \<Rightarrow> task list \<Rightarrow> tm_group \<Rightarrow> tm_group" where
  "book_group m n ts g = (let cs = filter (container_task m n) ts
     in g\<lparr>container_group_jobs := container_group_jobs g + int (length cs),
          container_group_consumed_forks := container_group_consumed_forks g + sum_list (map task_impact cs)\<rparr>)"

lemma book_group_simps [simp]:
  "book_group m n [] g = g" "is_container_group (book_group m n ts g) = is_container_group g"
  by (simp_all add: book_group_def Let_def)

lemma book_group_Cons: "book_group m n (t # ts) g = book_group m n ts (book_group m n [t] g)"
  by (simp add: book_group_def Let_def)

text \<open>Every container group that a task can name has its record.\<close>

definition models_wf :: "tm_models \<Rightarrow> bool" where
  "models_wf m \<longleftrightarrow> (\<forall>p ig. pk_ig_map m p = Some ig \<and> dg_is_container_group ig \<longrightarrow>
     (\<exists>g. instance_groups m (dg_name ig) = Some g \<and> is_container_group g))"

lemma consume_capacity_spec:
  assumes wf: "models_wf m"
  shows "consume_capacity t m = Inr (m\<lparr>
     instances_by_hostname := \<lambda>h. map_option (book (control_task_impact m) h [t]) (instances_by_hostname m h),
     instance_groups := \<lambda>n. map_option (book_group m n [t]) (instance_groups m n)\<rparr>)"
proof -
  have i: "instances_consume (control_task_impact m) t (instances_by_hostname m) =
      (\<lambda>h. map_option (book (control_task_impact m) h [t]) (instances_by_hostname m h))"
    by (rule ext) (rule instances_consume_at)
  have plain: "(\<lambda>n. map_option (book_group m n [t]) (instance_groups m n)) = instance_groups m"
    if "\<And>n. \<not> container_task m n t"
    by (intro ext map_option_idI) (simp add: book_group_def that)
  show ?thesis
  proof (cases "truthy (instance_group_id t) \<and> (\<exists>ig. pk_ig_map m (the (instance_group_id t)) = Some ig \<and>
      dg_is_container_group ig)")
    case False
    then have "\<And>n. \<not> container_task m n t" by (auto simp: container_task_def split: option.splits)
    from plain [OF this] False show ?thesis
      by (auto simp: consume_capacity_def i Let_def split: option.splits)
  next
    case True
    then obtain ig where ig: "pk_ig_map m (the (instance_group_id t)) = Some ig" "dg_is_container_group ig"
      and tr: "truthy (instance_group_id t)" by blast
    with wf obtain g where g: "instance_groups m (dg_name ig) = Some g" "is_container_group g"
      by (auto simp: models_wf_def)
    have "(instance_groups m)(dg_name ig \<mapsto>
        g\<lparr>container_group_jobs := container_group_jobs g + 1,
          container_group_consumed_forks := container_group_consumed_forks g + task_impact t\<rparr>) =
        (\<lambda>n. map_option (book_group m n [t]) (instance_groups m n))"
      using ig tr g by (auto simp: fun_eq_iff book_group_def container_task_def intro!: map_option_idI [symmetric])
    with ig tr g show ?thesis
      by (simp add: consume_capacity_def i Let_def group_consume_def)
  qed
qed

definition booked :: "task list \<Rightarrow> tm_models \<Rightarrow> tm_models" where
  "booked ts m = m\<lparr>
     instances_by_hostname := \<lambda>h. map_option (book (control_task_impact m) h ts) (instances_by_hostname m h),
     instance_groups := \<lambda>n. map_option (book_group m n ts) (instance_groups m n)\<rparr>"

lemma booked_simps [simp]:
  "pk_ig_map (booked ts m) = pk_ig_map m" "controlplane_ig (booked ts m) = controlplane_ig m"
  "control_task_impact (booked ts m) = control_task_impact m"
  by (simp_all add: booked_def)

lemma booked_Nil [simp]: "booked [] m = m"
  by (simp add: booked_def map_option_idI)

lemma container_task_booked [simp]: "container_task (booked ts m) = container_task m"
  by (intro ext) (simp add: container_task_def)

lemma book_group_booked [simp]: "book_group (booked ts m) = book_group m"
  by (intro ext) (simp add: book_group_def)

lemma booked_instances:
  "instances_by_hostname (booked ts m) h = map_option (book (control_task_impact m) h ts) (instances_by_hostname m h)"
  by (simp add: booked_def)

lemma booked_groups:
  "instance_groups (booked ts m) n = map_option (book_group m n ts) (instance_groups m n)"
  by (simp add: booked_def)

lemma booked_Cons: "booked (t # ts) m = booked ts (booked [t] m)"
proof (rule tm_models.equality)
  show "instances_by_hostname (booked (t # ts) m) = instances_by_hostname (booked ts (booked [t] m))"
    by (rule ext, rename_tac h, case_tac "instances_by_hostname m h")
      (simp_all add: booked_instances book_Cons [of _ _ t ts])
  show "instance_groups (booked (t # ts) m) = instance_groups (booked ts (booked [t] m))"
    by (rule ext, rename_tac n, case_tac "instance_groups m n")
      (simp_all add: booked_groups book_group_Cons [of _ _ t ts])
qed simp_all

lemma booked_wf: "models_wf m \<Longrightarrow> models_wf (booked ts m)"
  by (fastforce simp: models_wf_def booked_def)

lemma consume_capacity_booked: "models_wf m \<Longrightarrow> consume_capacity t m = Inr (booked [t] m)"
  by (simp add: consume_capacity_spec booked_def)

lemma consume_all_booked: "models_wf m \<Longrightarrow> consume_all ts m = Inr (booked ts m)"
  by (induction ts arbitrary: m)
    (simp_all add: consume_capacity_booked booked_wf booked_Cons [symmetric])

lemma init_models_group:
  "n \<notin> dg_name ` set dgs \<Longrightarrow> fold (\<lambda>g m. m(dg_name g \<mapsto> h g)) dgs M n = M n"
  by (induction dgs arbitrary: M) auto

lemma init_models_group_mem:
  "distinct (map dg_name dgs) \<Longrightarrow> g \<in> set dgs \<Longrightarrow> fold (\<lambda>g m. m(dg_name g \<mapsto> h g)) dgs M (dg_name g) = Some (h g)"
  by (induction dgs arbitrary: M) (auto simp: init_models_group)

lemma fold_map_upd_Some:
  "fold (\<lambda>x m. m(k x \<mapsto> v x)) xs M i = Some y \<Longrightarrow> (\<exists>x \<in> set xs. k x = i \<and> y = v x) \<or> M i = Some y"
  by (induction xs arbitrary: M) (fastforce split: if_splits)+

lemma init_models_wf: "distinct (map dg_name dgs) \<Longrightarrow> models_wf (init_models ci cp dis dgs)"
  by (auto simp: models_wf_def init_models_def Let_def init_models_group_mem new_group_def
      dest!: fold_map_upd_Some)

definition started_on_nothing :: "tm_models \<Rightarrow> bool" where
  "started_on_nothing m \<longleftrightarrow>
     (\<forall>h i. instances_by_hostname m h = Some i \<longrightarrow> consumed_capacity i = 0 \<and> jobs_running i = 0) \<and>
     (\<forall>n g. instance_groups m n = Some g \<longrightarrow> container_group_jobs g = 0 \<and> container_group_consumed_forks g = 0)"

lemma init_models_idle: "started_on_nothing (init_models ci cp dis dgs)"
  by (auto simp: started_on_nothing_def init_models_def init_instances_def Let_def new_group_def
      new_instance_def dest!: fold_map_upd_Some)

text \<open>
  After the running and waiting tasks have been consumed, which never fails when group names
  are unique: every instance has booked exactly the sum of the impacts of the tasks that execute
  on it, if it executes, plus the control cost of the tasks that it controls, if it controls, and
  counts the tasks that execute on it; every group record counts exactly the tasks assigned to a
  container group of its name and the sum of their impacts.
\<close>

theorem init_with_consumed_capacity_books_all:
  assumes "distinct (map dg_name dgs)"
  shows "\<exists>m. init_with_consumed_capacity ci cp dis dgs ts = Inr m \<and>
    (let active = filter (\<lambda>t. status t \<in> {Running, Waiting}) ts
     in (\<forall>h i. instances_by_hostname m h = Some i \<longrightarrow>
          consumed_capacity i = load ci h (node_type i) active \<and>
          jobs_running i = int (length (filter (runs_on h (node_type i)) active))) \<and>
        (\<forall>n g. instance_groups m n = Some g \<longrightarrow>
          container_group_jobs g = int (length (filter (container_task m n) active)) \<and>
          container_group_consumed_forks g = sum_list (map task_impact (filter (container_task m n) active))))"
proof -
  let ?m = "init_models ci cp dis dgs" and ?a = "filter (\<lambda>t. status t \<in> {Running, Waiting}) ts"
  have r: "init_with_consumed_capacity ci cp dis dgs ts = Inr (booked ?a ?m)"
    using consume_all_booked [OF init_models_wf [OF assms]] by (simp add: init_with_consumed_capacity_def)
  have ci: "control_task_impact ?m = ci" by (simp add: init_models_def Let_def)
  have i: "consumed_capacity i = load ci h (node_type i) ?a \<and>
      jobs_running i = int (length (filter (runs_on h (node_type i)) ?a))"
    if "instances_by_hostname (booked ?a ?m) h = Some i" for h i
    using that init_models_idle [of ci cp dis dgs]
    by (auto simp: booked_instances started_on_nothing_def book_def ci)
  have g: "container_group_jobs g = int (length (filter (container_task ?m n) ?a)) \<and>
      container_group_consumed_forks g = sum_list (map task_impact (filter (container_task ?m n) ?a))"
    if "instance_groups (booked ?a ?m) n = Some g" for n g
    using that init_models_idle [of ci cp dis dgs]
    by (auto simp: booked_groups started_on_nothing_def book_group_def Let_def)
  show ?thesis unfolding Let_def r
    using i g by (intro exI [of _ "booked ?a ?m"]) (simp only: container_task_booked, blast)
qed

text \<open>
  A task fits on a group exactly if, for each of the two limits that is set (not 0), one more
  job and the impact of the task keep the group within it.
\<close>

lemma has_remaining_capacity_iff:
  "has_remaining_capacity ci insts g (Some t) \<longleftrightarrow>
     (max_concurrent_jobs g = 0 \<or> get_jobs_running insts g + 1 \<le> max_concurrent_jobs g) \<and>
     (max_forks g = 0 \<or> get_consumed_capacity insts g + task_impact t \<le> max_forks g)"
  by (auto simp: has_remaining_capacity_def Let_def)

end
