(* ===== verification/Task_Manager.thy ===== *)
theory Task_Manager
  imports Dependency_Graph Task_Capacity
begin

text \<open>
  The task manager: class \<open>TaskManager\<close> of \<open>forail/main/scheduler/task_manager.py\<close>, which in one
  cycle starts the pending jobs that may run.

  The cycle's objects are passed as state. Database writes, messages and calls of other components
  are effects, listed in the order in which the code performs them. The clock is read once per
  loop iteration and is an argument, as are the settings and the tasks' global instance groups.
  Metrics and log lines are left out.
\<close>

section \<open>State\<close>

record tm_env =
  tm_clock :: "pk \<Rightarrow> int"
  tm_start_time :: int
  tm_timeout :: int
  tm_global_groups :: "pk \<Rightarrow> db_group list"

datatype effect =
    RunTaskManager
  | RunWorkflowManager
  | Saved task
  | SavedFields task
  | EmitStatus pk job_status
  | NotifyRunning pk
  | ApplyAsync task "(string \<times> string) list"
  | BulkUpdateExplanation "task list"
  | HandleFailureNotifications "pk list"
  | ApprovalTimedOut pk

record tm_state =
  dependency_graph :: dep_graph
  models :: tm_models
  start_task_limit :: int
  pre_start_failed :: "pk list"
  effects :: "effect list"

definition emit :: "effect list \<Rightarrow> tm_state \<Rightarrow> tm_state" where
  "emit es st = st\<lparr>effects := effects st @ es\<rparr>"

definition timed_out :: "tm_env \<Rightarrow> task \<Rightarrow> bool" where
  "timed_out env t \<longleftrightarrow> tm_clock env (task_id t) - tm_start_time env \<ge> tm_timeout env"

section \<open>Dependencies and blocking\<close>

definition process_job_dep_failures :: "task \<Rightarrow> tm_state \<Rightarrow> bool \<times> tm_state" where
  "process_job_dep_failures t st =
     (case List.find (\<lambda>d. dep_status d \<in> {Errored, Failed}) (dependent_jobs t) of
        None \<Rightarrow> (False, st)
      | Some d \<Rightarrow>
          (let t' = t\<lparr>status := Failed,
                 job_explanation := ''Previous Task Failed: {\"job_type\": \"'' @ dep_type d @
                   ''\", \"job_name\": \"'' @ dep_name d @ ''\", \"job_id\": \"'' @ nat_str (dep_id d) @ ''\"}''\<rparr>
           in (True, (emit [SavedFields t', EmitStatus (task_id t) Failed] st)
                 \<lparr>pre_start_failed := pre_start_failed st @ [task_id t]\<rparr>)))"

text \<open>The blocker is represented by its model name and id, which is all that is read of it.\<close>

definition job_blocked_by :: "task \<Rightarrow> tm_state \<Rightarrow> (string \<times> pk) option" where
  "job_blocked_by t st =
     (case task_blocked_by t (dependency_graph st) of
        Some j \<Rightarrow> Some (kind_model_name (kind j), task_id j)
      | None \<Rightarrow>
          (case List.find (\<lambda>d. dep_status d \<in> set ACTIVE_STATES) (dependent_jobs t) of
             Some d \<Rightarrow> Some (dep_model_name d, dep_id d)
           | None \<Rightarrow> None))"

section \<open>Starting a task\<close>

text \<open>
  The fresh \<open>celery_task_id\<close>, on which nothing in the cycle depends, is rendered as the task's own
  id. A failing \<open>pre_start\<close> saves the explanation itself.
\<close>

definition start_task :: "task \<Rightarrow> db_group option \<Rightarrow> tm_state \<Rightarrow> tm_error + tm_state" where
  "start_task t instance_group st =
     (let st1 = st\<lparr>dependency_graph := add_job t (dependency_graph st)\<rparr>;
          t1 = (case instance_group of None \<Rightarrow> t | Some g \<Rightarrow> t\<lparr>instance_group_id := Some (dg_pk g)\<rparr>)
      in case consume_capacity t1 (models st1) of
           Inl e \<Rightarrow> Inl e
         | Inr m \<Rightarrow>
             (let st2 = st1\<lparr>models := m, start_task_limit := start_task_limit st1 - 1\<rparr>;
                  st3 = (if start_task_limit st2 = 0 then emit [RunTaskManager] st2 else st2);
                  t2 = t1\<lparr>status := Waiting\<rparr>
              in case pre_start t2 of
                   (None, t3) \<Rightarrow>
                     (let t4 = t3\<lparr>status := Failed,
                        job_explanation := job_explanation t3 @
                          (if job_explanation t3 = [] then [] else '' '') @ ''Task failed pre-start check.''\<rparr>
                      in Inr ((emit [SavedFields t3, Saved t4, EmitStatus (task_id t4) Failed] st3)
                            \<lparr>pre_start_failed := pre_start_failed st3 @ [task_id t4]\<rparr>))
                 | (Some opts, t3) \<Rightarrow>
                     (if is_workflow_job t3 then
                        (let t4 = t3\<lparr>status := Running, celery_task_id := nat_str (task_id t3)\<rparr>
                         in Inr (emit [NotifyRunning (task_id t4), RunWorkflowManager, Saved t4,
                                       EmitStatus (task_id t4) Running] st3))
                      else
                        (let t4 = t3\<lparr>celery_task_id := nat_str (task_id t3)\<rparr>
                         in Inr (emit [Saved t4, ApplyAsync t4 opts] st3)))))"

section \<open>The running tasks\<close>

fun process_running_tasks :: "task list \<Rightarrow> tm_state \<Rightarrow> tm_error + tm_state" where
  "process_running_tasks [] st = Inr st"
| "process_running_tasks (t # ts) st =
     (let st1 = (if is_workflow_job t then emit [RunWorkflowManager] st else st);
          st2 = st1\<lparr>dependency_graph := add_job t (dependency_graph st1)\<rparr>
      in case consume_capacity t (models st2) of
           Inl e \<Rightarrow> Inl e
         | Inr m \<Rightarrow> process_running_tasks ts (st2\<lparr>models := m\<rparr>))"

section \<open>The pending tasks\<close>

text \<open>The explanation is set on a task that has been pending for more than 30 seconds.\<close>

definition explain :: "tm_env \<Rightarrow> task \<Rightarrow> string \<Rightarrow> task list \<Rightarrow> task list" where
  "explain env t msg to_update =
     (if job_explanation t \<noteq> msg \<and> created t < tm_clock env (task_id t) - 30 then
        to_update @ [t\<lparr>job_explanation := msg\<rparr>]
      else to_update)"

definition task_needs_capacity :: "tm_env \<Rightarrow> task \<Rightarrow> task list \<Rightarrow> task list" where
  "task_needs_capacity env t =
     explain env t ''This job is not ready to start because there is not enough available capacity.''"

text \<open>
  The search for a group: the result tells whether an acceptable queue was found. The \<open>or\<close>
  between the two instance choices takes the fallback only when the first gives \<open>None\<close>.
\<close>

definition choose_instance ::
  "tm_models \<Rightarrow> task \<Rightarrow> db_group \<Rightarrow> tm_error + tm_instance option" where
  "choose_instance m t ig =
     (case fit_task_to_most_remaining_capacity_instance m t (dg_name ig) None None True of
        Inl e \<Rightarrow> Inl e
      | Inr (Some i) \<Rightarrow> Inr (Some i)
      | Inr None \<Rightarrow> find_largest_idle_instance m (dg_name ig) (capacity_type t))"

fun try_groups :: "task \<Rightarrow> db_group list \<Rightarrow> tm_state \<Rightarrow> tm_error + bool \<times> tm_state" where
  "try_groups t [] st = Inr (False, st)"
| "try_groups t (ig # igs) st =
     (case instance_groups (models st) (dg_name ig) of
        None \<Rightarrow> Inl NoneError
      | Some g \<Rightarrow>
          if \<not> has_remaining_capacity (control_task_impact (models st))
               (instances_by_hostname (models st)) g (Some t) then try_groups t igs st
          else if dg_is_container_group ig then
            (case start_task t (Some ig) st of Inl e \<Rightarrow> Inl e | Inr st' \<Rightarrow> Inr (True, st'))
          else
            (case choose_instance (models st) t ig of
               Inl e \<Rightarrow> Inl e
             | Inr (Some i) \<Rightarrow>
                 (let t1 = t\<lparr>execution_node := hostname i\<rparr>;
                      t2 = (if node_type i = HybridNode then t1\<lparr>controller_node := hostname i\<rparr> else t1)
                  in case start_task t2 (Some ig) st of Inl e \<Rightarrow> Inl e | Inr st' \<Rightarrow> Inr (True, st'))
             | Inr None \<Rightarrow> try_groups t igs st))"

text \<open>One pending task that is neither failed nor blocked nor a workflow job.\<close>

definition place_task ::
  "tm_env \<Rightarrow> task \<Rightarrow> tm_state \<Rightarrow> task list \<Rightarrow> tm_error + tm_state \<times> task list" where
  "place_task env t st to_update =
     (let m = models st;
          control_impact = (if capacity_type t = ControlNode then task_impact t + control_task_impact m
                            else control_task_impact m)
      in case controlplane_ig m of
           None \<Rightarrow> Inl NoneError
         | Some cp \<Rightarrow>
             (case fit_task_to_most_remaining_capacity_instance m t (dg_name cp) (Some control_impact)
                     (Some ControlNode) False of
                Inl e \<Rightarrow> Inl e
              | Inr None \<Rightarrow> Inr (st, task_needs_capacity env t to_update)
              | Inr (Some control_instance) \<Rightarrow>
                  (let t1 = t\<lparr>controller_node := hostname control_instance\<rparr>
                   in if capacity_type t1 = ControlNode then
                        (case instance_groups m (dg_name cp) of
                           None \<Rightarrow> Inl NoneError
                         | Some g \<Rightarrow>
                             if \<not> has_remaining_capacity (control_task_impact m) (instances_by_hostname m) g None
                             then Inr (st, to_update)
                             else (case start_task (t1\<lparr>execution_node := hostname control_instance\<rparr>) (Some cp) st of
                                     Inl e \<Rightarrow> Inl e
                                   | Inr st' \<Rightarrow> Inr (st', to_update)))
                      else
                        (case try_groups t1 (get_instance_groups_from_task_cache (tm_global_groups env) m t1) st of
                           Inl e \<Rightarrow> Inl e
                         | Inr (True, st') \<Rightarrow> Inr (st', to_update)
                         | Inr (False, st') \<Rightarrow> Inr (st', task_needs_capacity env t1 to_update)))))"

definition process_pending_task ::
  "tm_env \<Rightarrow> task \<Rightarrow> tm_state \<Rightarrow> task list \<Rightarrow> tm_error + tm_state \<times> task list" where
  "process_pending_task env t st to_update =
     (case process_job_dep_failures t st of
        (True, st') \<Rightarrow> Inr (st', to_update)
      | (False, st') \<Rightarrow>
          (case job_blocked_by t st' of
             Some (mn, i) \<Rightarrow>
               Inr (st', explain env t (''waiting for '' @ mn @ ''-'' @ nat_str i @ '' to finish'') to_update)
           | None \<Rightarrow>
               if is_workflow_job t then
                 (case start_task t None st' of Inl e \<Rightarrow> Inl e | Inr st'' \<Rightarrow> Inr (st'', to_update))
               else place_task env t st' to_update))"

fun process_pending_loop ::
  "tm_env \<Rightarrow> task list \<Rightarrow> tm_state \<Rightarrow> task list \<Rightarrow> tm_error + tm_state \<times> task list" where
  "process_pending_loop env [] st to_update = Inr (st, to_update)"
| "process_pending_loop env (t # ts) st to_update =
     (if start_task_limit st \<le> 0 then Inr (st, to_update)
      else if timed_out env t then Inr (st, to_update)
      else case process_pending_task env t st to_update of
             Inl e \<Rightarrow> Inl e
           | Inr (st', to_update') \<Rightarrow> process_pending_loop env ts st' to_update')"

definition process_pending_tasks :: "tm_env \<Rightarrow> task list \<Rightarrow> tm_state \<Rightarrow> tm_error + tm_state" where
  "process_pending_tasks env ts st =
     (case process_pending_loop env ts st [] of
        Inl e \<Rightarrow> Inl e
      | Inr (st', to_update) \<Rightarrow> Inr (emit [BulkUpdateExplanation to_update] st'))"

section \<open>The cycle\<close>

definition process_tasks :: "tm_env \<Rightarrow> task list \<Rightarrow> tm_state \<Rightarrow> tm_error + tm_state" where
  "process_tasks env all_tasks st0 =
     (let st = st0\<lparr>pre_start_failed := []\<rparr>;
          running_tasks = filter (\<lambda>t. status t \<in> {Waiting, Running}) all_tasks;
          pending_tasks = filter (\<lambda>t. status t = Pending) all_tasks
      in case process_running_tasks running_tasks st of
           Inl e \<Rightarrow> Inl e
         | Inr st1 \<Rightarrow>
             (case process_pending_tasks env pending_tasks st1 of
                Inl e \<Rightarrow> Inl e
              | Inr st2 \<Rightarrow>
                  Inr (if pre_start_failed st2 \<noteq> []
                       then emit [HandleFailureNotifications (pre_start_failed st2)] st2 else st2)))"

text \<open>The rows a cycle works on: \<open>get_tasks\<close> with the manager's status filter.\<close>

definition get_tasks :: "job_status list \<Rightarrow> bool \<Rightarrow> task list \<Rightarrow> task list" where
  "get_tasks sts processed rows =
     sort_key created (filter (\<lambda>t. status t \<in> set sts \<and> dependencies_processed t = processed \<and>
       launch_type t \<noteq> ''sync'' \<and> kind t \<noteq> WorkflowApproval) rows)"

definition after_lock_init :: "int \<Rightarrow> tm_models \<Rightarrow> tm_state" where
  "after_lock_init limit m = \<lparr>dependency_graph = empty_graph, models = m, start_task_limit = limit,
     pre_start_failed = [], effects = []\<rparr>"

record approval =
  ap_id :: pk
  ap_name :: string
  ap_status :: job_status
  ap_timeout :: int
  ap_expires :: "int option"
  ap_timed_out :: bool
  ap_job_explanation :: string

definition get_expired_workflow_approvals :: "int \<Rightarrow> approval list \<Rightarrow> approval list" where
  "get_expired_workflow_approvals now rows =
     filter (\<lambda>a. ap_status a = Pending \<and> ap_timeout a \<noteq> 0 \<and>
       (case ap_expires a of None \<Rightarrow> False | Some e \<Rightarrow> e < now)) rows"

definition timeout_approval_node :: "bool \<Rightarrow> approval \<Rightarrow> approval" where
  "timeout_approval_node out_of_time a =
     (if out_of_time then a
      else a\<lparr>ap_timed_out := True, ap_status := Failed,
             ap_job_explanation := ''The approval node '' @ ap_name a @ '' ('' @ nat_str (ap_id a) @
               '') has expired after '' @ int_str (ap_timeout a) @ '' seconds.''\<rparr>)"

end
