(* ===== verification/Task_Cycle.thy ===== *)
theory Task_Cycle
  imports Task_Manager "HOL-Library.Sublist"
begin

text \<open>
  What one task manager cycle guarantees: it starts no task that conflicts with a running or
  already started one or whose dependencies are unsettled, it respects the start limit and the
  limits of container groups, and its bookkeeping is exact.
\<close>

section \<open>The started tasks\<close>

text \<open>\<open>task.save()\<close> without a field list is performed by \<open>start_task\<close> only.\<close>

fun saved_task :: "effect \<Rightarrow> task list" where
  "saved_task (Saved t) = [t]"
| "saved_task _ = []"

definition started_tasks :: "tm_state \<Rightarrow> task list" where
  "started_tasks st = concat (map saved_task (effects st))"

lemma started_emit [simp]:
  "started_tasks (emit es st) = started_tasks st @ concat (map saved_task es)"
  "started_tasks (st\<lparr>pre_start_failed := ps\<rparr>) = started_tasks st"
  "started_tasks (st\<lparr>dependency_graph := d\<rparr>) = started_tasks st"
  "started_tasks (st\<lparr>models := m\<rparr>) = started_tasks st"
  "started_tasks (st\<lparr>start_task_limit := k\<rparr>) = started_tasks st"
  by (simp_all add: started_tasks_def emit_def)

lemma emit_simps [simp]:
  "dependency_graph (emit es st) = dependency_graph st" "models (emit es st) = models st"
  "start_task_limit (emit es st) = start_task_limit st"
  "pre_start_failed (emit es st) = pre_start_failed st"
  by (simp_all add: emit_def)

text \<open>What decides conflicts, and what decides bookings.\<close>

definition job_key :: "task \<Rightarrow> pk \<times> task_kind \<times> bool \<times> pk option" where
  "job_key t = (task_id t, kind t, allow_simultaneous t, unified_job_template_id t)"

definition booking_key :: "task \<Rightarrow> int \<times> hostname \<times> hostname \<times> pk option" where
  "booking_key t = (task_impact t, execution_node t, controller_node t, instance_group_id t)"

lemma blocks_key: "job_key i = job_key j \<Longrightarrow> job_key s = job_key t \<Longrightarrow> blocks i s = blocks j t"
  by (simp add: job_key_def blocks_def)

lemma booked_key:
  assumes "booking_key s = booking_key t"
  shows "booked [s] m = booked [t] m"
proof -
  have "runs_on h n s = runs_on h n t" "controlled_on h n s = controlled_on h n t"
    "container_task m x s = container_task m x t" "task_impact s = task_impact t" for h n x
    using assms by (simp_all add: booking_key_def runs_on_def controlled_on_def container_task_def)
  then have "book c h [s] = book c h [t]" "book_group m x [s] = book_group m x [t]" for c h x
    by (intro ext; simp add: book_def load_def book_group_def)+
  then show ?thesis by (simp add: booked_def)
qed

definition with_group :: "db_group option \<Rightarrow> task \<Rightarrow> task" where
  "with_group g t = (case g of None \<Rightarrow> t | Some ig \<Rightarrow> t\<lparr>instance_group_id := Some (dg_pk ig)\<rparr>)"

text \<open>What \<open>start_task\<close> does to the cycle's state.\<close>

inductive task_start :: "task \<Rightarrow> db_group option \<Rightarrow> tm_state \<Rightarrow> tm_state \<Rightarrow> bool" where
  "\<lbrakk> started_tasks st' = started_tasks st @ [t'];
     job_key t' = job_key t; booking_key t' = booking_key (with_group g t);
     dependent_jobs t' = dependent_jobs t;
     status t' \<in> {Failed, Running, Waiting};
     status t' = Running \<longrightarrow> is_workflow_job t;
     dependency_graph st' = add_job t (dependency_graph st);
     models st' = booked [t'] (models st);
     start_task_limit st' = start_task_limit st - 1 \<rbrakk> \<Longrightarrow> task_start t g st st'"

inductive_cases task_startE: "task_start t g st st'"

lemma start_task_start:
  assumes wf: "models_wf (models st)"
  shows "\<exists>st'. start_task t g st = Inr st' \<and> task_start t g st st'"
proof -
  let ?t1 = "with_group g t"
  have cons: "consume_capacity ?t1 (models st) = Inr (booked [?t1] (models st))"
    by (rule consume_capacity_booked [OF wf])
  obtain r t3 where p: "pre_start (?t1\<lparr>status := Waiting\<rparr>) = (r, t3)" by force
  obtain e where t3: "t3 = ?t1\<lparr>status := Waiting, job_explanation := e\<rparr>"
    using pre_start_frame [of "?t1\<lparr>status := Waiting\<rparr>"] p by auto
  have fr: "job_key ?t1 = job_key t" "dependent_jobs ?t1 = dependent_jobs t" "kind ?t1 = kind t"
    by (simp_all add: with_group_def job_key_def split: option.splits)
  have bk: "booked [t'] (models st) = booked [?t1] (models st)" if "booking_key t' = booking_key ?t1" for t'
    by (rule booked_key [OF that])
  note eqs = start_task_def Let_def with_group_def [symmetric] cons p
  have st: "task_start t g st st'"
    if "started_tasks st' = started_tasks st @ [t']" "t' = t3\<lparr>status := s, job_explanation := x, celery_task_id := u\<rparr>"
      "s \<in> {Failed, Running, Waiting}" "s = Running \<longrightarrow> is_workflow_job t3"
      "dependency_graph st' = add_job t (dependency_graph st)" "models st' = booked [?t1] (models st)"
      "start_task_limit st' = start_task_limit st - 1" for st' t' s x u
  proof (rule task_start.intros [OF that(1)])
    show bk': "booking_key t' = booking_key (with_group g t)"
      using that(2) by (simp add: t3 booking_key_def)
    show "job_key t' = job_key t" "dependent_jobs t' = dependent_jobs t"
      using that(2) fr by (simp_all add: t3 job_key_def)
    show "models st' = booked [t'] (models st)" using that(6) bk [OF bk'] by simp
    show "status t' = Running \<longrightarrow> is_workflow_job t"
      using that(2,4) fr(3) by (simp add: t3 is_workflow_job_def)
  qed (use that in simp_all)
  show ?thesis
  proof (cases r)
    case None
    show ?thesis
      by (intro exI conjI, simp add: eqs None, rule st [where s = Failed and u = "celery_task_id t3"])
        (auto simp: t3)
  next
    case (Some opts)
    show ?thesis
    proof (cases "is_workflow_job t3")
      case True
      show ?thesis
        by (intro exI conjI, simp add: eqs Some True, rule st [where s = Running and x = e and u = "nat_str (task_id t3)"])
          (auto simp: t3 True [unfolded t3])
    next
      case False
      show ?thesis
        by (intro exI conjI, simp add: eqs Some False, rule st [where s = Waiting and x = e and u = "nat_str (task_id t3)"])
          (auto simp: t3)
    qed
  qed
qed

section \<open>One pending task\<close>

text \<open>
  Handling a pending task either leaves the scheduling state alone or starts that task, which then
  had no failed dependency and no blocker.
\<close>

definition same_schedule :: "tm_state \<Rightarrow> tm_state \<Rightarrow> bool" where
  "same_schedule st st' \<longleftrightarrow> started_tasks st' = started_tasks st \<and>
     dependency_graph st' = dependency_graph st \<and> models st' = models st \<and>
     start_task_limit st' = start_task_limit st"

definition may_start :: "task \<Rightarrow> tm_state \<Rightarrow> bool" where
  "may_start t st \<longleftrightarrow> task_blocked_by t (dependency_graph st) = None \<and>
     (\<forall>d \<in> set (dependent_jobs t). dep_status d \<in> {Successful, Canceled})"

text \<open>A group that admits a task, and the group a started task was given.\<close>

definition admits :: "tm_models \<Rightarrow> task \<Rightarrow> db_group \<Rightarrow> bool" where
  "admits m t ig \<longleftrightarrow> (case instance_groups m (dg_name ig) of None \<Rightarrow> False
     | Some g \<Rightarrow> has_remaining_capacity (control_task_impact m) (instances_by_hostname m) g (Some t))"

definition placed :: "tm_env \<Rightarrow> task \<Rightarrow> tm_state \<Rightarrow> db_group option \<Rightarrow> bool" where
  "placed env t st g \<longleftrightarrow>
     (case g of
        None \<Rightarrow> is_workflow_job t
      | Some ig \<Rightarrow>
          (capacity_type t = ControlNode \<and> controlplane_ig (models st) = Some ig) \<or>
          (ig \<in> set (get_instance_groups_from_task_cache (tm_global_groups env) (models st) t) \<and>
             admits (models st) t ig))"

inductive pending_step :: "tm_env \<Rightarrow> task \<Rightarrow> tm_state \<Rightarrow> tm_state \<Rightarrow> bool" for env t st where
  passed: "same_schedule st st' \<Longrightarrow> pending_step env t st st'"
| started: "may_start t st \<Longrightarrow> same_schedule st st1 \<Longrightarrow>
    t1 = t\<lparr>controller_node := c, execution_node := e\<rparr> \<Longrightarrow> placed env t st g \<Longrightarrow>
    task_start t1 g st1 st' \<Longrightarrow> pending_step env t st st'"

definition models_ok :: "tm_models \<Rightarrow> bool" where
  "models_ok m \<longleftrightarrow> models_wf m \<and>
     (\<exists>cp. controlplane_ig m = Some cp \<and> instance_groups m (dg_name cp) \<noteq> None) \<and>
     (\<forall>p ig. pk_ig_map m p = Some ig \<longrightarrow> instance_groups m (dg_name ig) \<noteq> None)"

definition globals_ok :: "tm_env \<Rightarrow> tm_models \<Rightarrow> bool" where
  "globals_ok env m \<longleftrightarrow>
     (\<forall>t. \<forall>ig \<in> set (tm_global_groups env t). instance_groups m (dg_name ig) \<noteq> None)"

lemma cache_groups_known:
  assumes "models_ok m" "globals_ok env m"
    "ig \<in> set (get_instance_groups_from_task_cache (tm_global_groups env) m t)"
  shows "instance_groups m (dg_name ig) \<noteq> None"
  using assms by (auto simp: get_instance_groups_from_task_cache_def models_ok_def globals_ok_def
      Let_def List.map_filter_def split: if_splits)

lemma dep_scan:
  "process_job_dep_failures t st = (b, st') \<Longrightarrow> same_schedule st st' \<and>
     (\<not> b \<longrightarrow> st' = st \<and> (\<forall>d \<in> set (dependent_jobs t). dep_status d \<notin> {Errored, Failed}))"
  by (auto simp: process_job_dep_failures_def same_schedule_def find_None_iff Let_def split: option.splits)

lemma unblocked:
  assumes "job_blocked_by t st = None"
  shows "task_blocked_by t (dependency_graph st) = None"
    and "\<forall>d \<in> set (dependent_jobs t). dep_status d \<notin> set ACTIVE_STATES"
  using assms by (auto simp: job_blocked_by_def find_None_iff split: option.splits)

lemma settled_status: "s \<notin> {Errored, Failed} \<Longrightarrow> s \<notin> set ACTIVE_STATES \<Longrightarrow> s \<in> {Successful, Canceled}"
  by (cases s) (auto simp: ACTIVE_STATES_def)

lemma choose_total: "instance_groups m (dg_name ig) \<noteq> None \<Longrightarrow> \<exists>r. choose_instance m t ig = Inr r"
  by (auto simp: choose_instance_def fit_task_to_most_remaining_capacity_instance_def
      find_largest_idle_instance_def Let_def split: option.splits sum.splits)

lemma try_groups_spec:
  assumes wf: "models_wf (models st)" and known: "\<forall>ig \<in> set igs. instance_groups (models st) (dg_name ig) \<noteq> None"
  shows "try_groups t igs st = Inr (False, st) \<or>
    (\<exists>st' ig c e. try_groups t igs st = Inr (True, st') \<and> ig \<in> set igs \<and> admits (models st) t ig \<and>
       task_start (t\<lparr>controller_node := c, execution_node := e\<rparr>) (Some ig) st st')"
  using known
proof (induction igs)
  case (Cons ig igs)
  then obtain g where g: "instance_groups (models st) (dg_name ig) = Some g" by auto
  note IH = Cons.IH [OF ballI] Cons.prems
  show ?case
  proof (cases "has_remaining_capacity (control_task_impact (models st)) (instances_by_hostname (models st)) g (Some t)")
    case False
    with IH g show ?thesis by fastforce
  next
    case cap: True
    have adm: "admits (models st) t ig" using g cap by (simp add: admits_def)
    show ?thesis
    proof (cases "dg_is_container_group ig")
      case True
      obtain st' where "start_task t (Some ig) st = Inr st'" "task_start t (Some ig) st st'"
        using start_task_start [OF wf] by blast
      with g cap True adm show ?thesis
        by (intro disjI2 exI [of _ st'] exI [of _ ig] exI [of _ "controller_node t"] exI [of _ "execution_node t"])
          simp
    next
      case False
      from choose_total [of "models st" ig t] g obtain r where r: "choose_instance (models st) t ig = Inr r" by auto
      show ?thesis
      proof (cases r)
        case None
        with IH g cap False r show ?thesis by fastforce
      next
        case (Some i)
        let ?c = "if node_type i = HybridNode then hostname i else controller_node t"
        let ?t2 = "t\<lparr>controller_node := ?c, execution_node := hostname i\<rparr>"
        obtain st' where s: "start_task ?t2 (Some ig) st = Inr st'" "task_start ?t2 (Some ig) st st'"
          using start_task_start [OF wf] by blast
        have t2: "(if node_type i = HybridNode then t\<lparr>execution_node := hostname i, controller_node := hostname i\<rparr>
            else t\<lparr>execution_node := hostname i\<rparr>) = ?t2" by simp
        have "try_groups t (ig # igs) st = (case start_task
            (if node_type i = HybridNode then t\<lparr>execution_node := hostname i, controller_node := hostname i\<rparr>
             else t\<lparr>execution_node := hostname i\<rparr>) (Some ig) st of Inl e \<Rightarrow> Inl e | Inr st' \<Rightarrow> Inr (True, st'))"
          using g cap False r Some by (simp add: Let_def)
        then have "try_groups t (ig # igs) st = Inr (True, st')"
          unfolding t2 s(1) by simp
        with s(2) adm show ?thesis
          by (intro disjI2 exI [of _ st'] exI [of _ ig] exI [of _ ?c] exI [of _ "hostname i"]) simp
      qed
    qed
  qed
qed simp

lemma admits_controller [simp]: "admits m (t\<lparr>controller_node := c\<rparr>) ig = admits m t ig"
  by (simp add: admits_def has_remaining_capacity_def split: option.split)

lemma groups_controller [simp]:
  "get_instance_groups_from_task_cache f m (t\<lparr>controller_node := c\<rparr>) = get_instance_groups_from_task_cache f m t"
  by (simp add: get_instance_groups_from_task_cache_def Let_def)

lemma place_task_spec:
  assumes ok: "models_ok (models st)" and gl: "globals_ok env (models st)"
  shows "(\<exists>u. place_task env t st upd = Inr (st, u)) \<or>
    (\<exists>st' u g c e. place_task env t st upd = Inr (st', u) \<and> placed env t st (Some g) \<and>
       task_start (t\<lparr>controller_node := c, execution_node := e\<rparr>) (Some g) st st')"
proof -
  let ?m = "models st"
  from ok obtain cp cg where cp: "controlplane_ig ?m = Some cp" "instance_groups ?m (dg_name cp) = Some cg"
    and wf: "models_wf ?m" by (auto simp: models_ok_def)
  let ?imp = "if capacity_type t = ControlNode then task_impact t + control_task_impact ?m else control_task_impact ?m"
  obtain r where r: "fit_task_to_most_remaining_capacity_instance ?m t (dg_name cp) (Some ?imp) (Some ControlNode) False = Inr r"
    using cp(2) by (simp add: fit_task_to_most_remaining_capacity_instance_def Let_def)
  have eqs: "place_task env t st upd = (case r of
      None \<Rightarrow> Inr (st, task_needs_capacity env t upd)
    | Some ci \<Rightarrow>
        (if capacity_type t = ControlNode then
           (if \<not> has_remaining_capacity (control_task_impact ?m) (instances_by_hostname ?m) cg None
            then Inr (st, upd)
            else (case start_task (t\<lparr>controller_node := hostname ci, execution_node := hostname ci\<rparr>) (Some cp) st of
                    Inl e \<Rightarrow> Inl e | Inr st' \<Rightarrow> Inr (st', upd)))
         else
           (case try_groups (t\<lparr>controller_node := hostname ci\<rparr>)
               (get_instance_groups_from_task_cache (tm_global_groups env) ?m t) st of
              Inl e \<Rightarrow> Inl e
            | Inr (True, st') \<Rightarrow> Inr (st', upd)
            | Inr (False, st') \<Rightarrow>
                Inr (st', task_needs_capacity env (t\<lparr>controller_node := hostname ci\<rparr>) upd))))"
    unfolding place_task_def Let_def cp(1) option.case r sum.case
    using cp(2) by (cases r) simp_all
  show ?thesis
  proof (cases r)
    case None
    then show ?thesis by (simp add: eqs)
  next
    case (Some ci)
    let ?t1 = "t\<lparr>controller_node := hostname ci\<rparr>"
    show ?thesis
    proof (cases "capacity_type t = ControlNode")
      case True
      let ?t2 = "?t1\<lparr>execution_node := hostname ci\<rparr>"
      obtain st' where s: "start_task ?t2 (Some cp) st = Inr st'" "task_start ?t2 (Some cp) st st'"
        using start_task_start [OF wf] by blast
      have pl: "placed env t st (Some cp)" using True cp by (simp add: placed_def)
      show ?thesis
      proof (cases "has_remaining_capacity (control_task_impact ?m) (instances_by_hostname ?m) cg None")
        case False
        then show ?thesis using True Some by (simp add: eqs)
      next
        case cap: True
        have "place_task env t st upd = Inr (st', upd)" using True Some cap s(1) by (simp add: eqs)
        with s(2) pl show ?thesis
          by (intro disjI2 exI [of _ st'] exI [of _ upd] exI [of _ cp] exI [of _ "hostname ci"]) auto
      qed
    next
      case False
      let ?igs = "get_instance_groups_from_task_cache (tm_global_groups env) ?m t"
      have pt: "place_task env t st upd = (case try_groups ?t1 ?igs st of
           Inl e \<Rightarrow> Inl e
         | Inr (True, st') \<Rightarrow> Inr (st', upd)
         | Inr (False, st') \<Rightarrow> Inr (st', task_needs_capacity env ?t1 upd))"
        using False Some by (simp add: eqs)
      have "\<forall>ig \<in> set ?igs. instance_groups ?m (dg_name ig) \<noteq> None"
        using cache_groups_known [OF ok gl] by blast
      from try_groups_spec [OF wf this, of ?t1] show ?thesis
      proof (elim disjE exE conjE)
        assume "try_groups ?t1 ?igs st = Inr (False, st)"
        then show ?thesis by (simp add: pt)
      next
        fix st' ig c e
        assume "try_groups ?t1 ?igs st = Inr (True, st')" "ig \<in> set ?igs" "admits ?m ?t1 ig"
          and "task_start (?t1\<lparr>controller_node := c, execution_node := e\<rparr>) (Some ig) st st'"
        then show ?thesis
          by (intro disjI2 exI [of _ st'] exI [of _ upd] exI [of _ ig] exI [of _ c] exI [of _ e])
            (simp add: pt placed_def)
      qed
    qed
  qed
qed

lemma pending_task_step:
  assumes ok: "models_ok (models st)" and gl: "globals_ok env (models st)"
  shows "\<exists>st' u. process_pending_task env t st upd = Inr (st', u) \<and> pending_step env t st st'"
proof -
  obtain b st1 where d: "process_job_dep_failures t st = (b, st1)" by force
  note ds = dep_scan [OF d]
  show ?thesis
  proof (cases b)
    case True
    with d ds show ?thesis
      by (intro exI [of _ st1] exI [of _ upd]) (simp add: process_pending_task_def pending_step.passed)
  next
    case False
    with ds have st1: "st1 = st" and nf: "\<forall>d \<in> set (dependent_jobs t). dep_status d \<notin> {Errored, Failed}" by auto
    have self: "same_schedule st st" by (simp add: same_schedule_def)
    show ?thesis
    proof (cases "job_blocked_by t st")
      case (Some b)
      obtain mn i where "b = (mn, i)" by force
      with d False st1 Some show ?thesis
        by (auto simp: process_pending_task_def intro: pending_step.passed [OF self])
    next
      case None
      note ub = unblocked [OF None]
      have may: "may_start t st" unfolding may_start_def
        using ub nf settled_status by blast
      show ?thesis
      proof (cases "is_workflow_job t")
        case True
        obtain st' where s: "start_task t None st = Inr st'" "task_start t None st st'"
          using start_task_start ok by (meson models_ok_def)
        have "pending_step env t st st'"
          by (rule pending_step.started [OF may self _ _ s(2),
                where c = "controller_node t" and e = "execution_node t"])
            (simp_all add: placed_def True)
        with d False st1 None True s(1) show ?thesis by (simp add: process_pending_task_def)
      next
        case wf: False
        have eq: "process_pending_task env t st upd = place_task env t st upd"
          using d False st1 None wf by (simp add: process_pending_task_def)
        from place_task_spec [OF ok gl, of t upd] show ?thesis unfolding eq
        proof (elim disjE exE conjE)
          fix u assume "place_task env t st upd = Inr (st, u)"
          then show "\<exists>st' u. place_task env t st upd = Inr (st', u) \<and> pending_step env t st st'"
            by (blast intro: pending_step.passed [OF self])
        next
          fix st' u g c e
          assume "place_task env t st upd = Inr (st', u)" and pl: "placed env t st (Some g)"
            and ts: "task_start (t\<lparr>controller_node := c, execution_node := e\<rparr>) (Some g) st st'"
          moreover have "pending_step env t st st'"
            by (rule pending_step.started [OF may self refl pl ts])
          ultimately show "\<exists>st' u. place_task env t st upd = Inr (st', u) \<and> pending_step env t st st'" by blast
        qed
      qed
    qed
  qed
qed

section \<open>The invariant of the cycle\<close>

definition cycle_inv :: "task list \<Rightarrow> tm_models \<Rightarrow> int \<Rightarrow> tm_state \<Rightarrow> bool" where
  "cycle_inv run m0 limit st \<longleftrightarrow>
     (\<exists>js. dependency_graph st = add_jobs js empty_graph \<and> map job_key js = map job_key (run @ started_tasks st)) \<and>
     models st = booked (run @ started_tasks st) m0 \<and>
     start_task_limit st = limit - int (length (started_tasks st)) \<and>
     (\<forall>xs t ys. started_tasks st = xs @ t # ys \<longrightarrow> \<not> (\<exists>j \<in> set (run @ xs). blocks j t)) \<and>
     (\<forall>t \<in> set (started_tasks st). \<forall>d \<in> set (dependent_jobs t). dep_status d \<in> {Successful, Canceled})"

lemma booked_append: "booked (xs @ ys) m = booked ys (booked xs m)"
proof (induction xs arbitrary: m)
  case (Cons t xs)
  show ?case unfolding append_Cons booked_Cons [of t "xs @ ys"] booked_Cons [of t xs] Cons ..
qed simp

lemma booked_ok: "models_ok m \<Longrightarrow> models_ok (booked ts m)"
  using booked_wf [of m ts] by (auto simp: models_ok_def booked_groups)

lemma booked_globals: "globals_ok env m \<Longrightarrow> globals_ok env (booked ts m)"
  by (auto simp: globals_ok_def booked_groups)

lemma blocks_some_key:
  assumes "map job_key js = map job_key ks"
  shows "(\<exists>j \<in> set js. blocks j t) \<longleftrightarrow> (\<exists>j \<in> set ks. blocks j t)"
proof -
  have "\<exists>j \<in> set ys. blocks j t" if "map job_key xs = map job_key ys" "\<exists>j \<in> set xs. blocks j t" for xs ys
  proof -
    from that(2) obtain j where j: "j \<in> set xs" "blocks j t" by blast
    then have "job_key j \<in> job_key ` set ys" using that(1) by (metis image_eqI image_set)
    then obtain k where "k \<in> set ys" "job_key j = job_key k" by auto
    with j blocks_key [of j k t t] show ?thesis by blast
  qed
  from this [OF assms] this [OF assms [symmetric]] show ?thesis by blast
qed

lemma cycle_inv_same: "cycle_inv run m0 l st \<Longrightarrow> same_schedule st st' \<Longrightarrow> cycle_inv run m0 l st'"
  by (simp add: cycle_inv_def same_schedule_def)

lemma cycle_inv_start:
  assumes ci: "cycle_inv run m0 l st" and may: "may_start t st" and ss: "same_schedule st st1"
    and t1: "t1 = t\<lparr>controller_node := c, execution_node := e\<rparr>" and ts: "task_start t1 g st1 st'"
  shows "cycle_inv run m0 l st'"
    and "\<exists>t'. started_tasks st' = started_tasks st @ [t'] \<and> job_key t' = job_key t"
proof -
  from ts obtain t' where t': "started_tasks st' = started_tasks st1 @ [t']" "job_key t' = job_key t1"
    "dependent_jobs t' = dependent_jobs t1" "dependency_graph st' = add_job t1 (dependency_graph st1)"
    "models st' = booked [t'] (models st1)" "start_task_limit st' = start_task_limit st1 - 1"
    by (elim task_startE) blast
  have k: "job_key t1 = job_key t" "dependent_jobs t1 = dependent_jobs t"
    by (simp_all add: t1 job_key_def)
  show "\<exists>t'. started_tasks st' = started_tasks st @ [t'] \<and> job_key t' = job_key t"
    using t'(1,2) ss k by (simp add: same_schedule_def)
  from ci obtain js where js: "dependency_graph st = add_jobs js empty_graph"
    "map job_key js = map job_key (run @ started_tasks st)" by (auto simp: cycle_inv_def)
  have free: "\<not> (\<exists>j \<in> set (run @ started_tasks st). blocks j t')"
  proof -
    have "\<not> (\<exists>j \<in> set js. blocks j t)" using may js(1) by (simp add: may_start_def blocked_by_index)
    then have "\<not> (\<exists>j \<in> set (run @ started_tasks st). blocks j t)" using blocks_some_key [OF js(2)] by simp
    then show ?thesis using blocks_key [of _ _ t' t] t'(2) k(1) by metis
  qed
  have sep: "\<not> (\<exists>j \<in> set (run @ xs). blocks j u)" if "started_tasks st @ [t'] = xs @ u # ys" for xs u ys
  proof (cases ys rule: rev_cases)
    case Nil
    with that free show ?thesis by simp
  next
    case (snoc zs z)
    with that have "started_tasks st = xs @ u # zs" by simp
    with ci show ?thesis unfolding cycle_inv_def by blast
  qed
  have st': "started_tasks st' = started_tasks st @ [t']" using t'(1) ss by (simp add: same_schedule_def)
  show "cycle_inv run m0 l st'"
    unfolding cycle_inv_def st'
  proof (intro conjI allI impI)
    show "\<exists>js. dependency_graph st' = add_jobs js empty_graph \<and>
        map job_key js = map job_key (run @ started_tasks st @ [t'])"
      by (rule exI [of _ "js @ [t1]"]) (use js t' ss in \<open>simp add: add_jobs_def same_schedule_def\<close>)
    show "models st' = booked (run @ started_tasks st @ [t']) m0"
      using t'(5) ci ss booked_append [of "run @ started_tasks st" "[t']"]
      by (simp add: same_schedule_def cycle_inv_def)
    show "start_task_limit st' = l - int (length (started_tasks st @ [t']))"
      using t'(6) ci ss by (simp add: same_schedule_def cycle_inv_def)
    show "\<forall>t \<in> set (started_tasks st @ [t']). \<forall>d \<in> set (dependent_jobs t). dep_status d \<in> {Successful, Canceled}"
      using ci may t'(3) k by (auto simp: cycle_inv_def may_start_def)
  qed (rule sep)
qed

lemma pending_step_inv:
  assumes "pending_step env t st st'" and ci: "cycle_inv run m0 l st"
  shows "cycle_inv run m0 l st' \<and> (started_tasks st' = started_tasks st \<or>
    (\<exists>t'. started_tasks st' = started_tasks st @ [t'] \<and> job_key t' = job_key t))"
  using assms(1)
proof (cases rule: pending_step.cases)
  case passed
  from cycle_inv_same [OF ci this] this show ?thesis by (simp add: same_schedule_def)
next
  case (started st1 t1 c e g)
  from cycle_inv_start [OF ci started(1,2,3,5)] show ?thesis by blast
qed

lemma pending_loop_inv:
  assumes ok: "models_ok m0" and gl: "globals_ok env m0"
  shows "cycle_inv run m0 l st \<Longrightarrow> \<exists>st' u new. process_pending_loop env ts st upd = Inr (st', u) \<and>
    cycle_inv run m0 l st' \<and> started_tasks st' = started_tasks st @ new \<and>
    subseq (map job_key new) (map job_key ts) \<and> (0 \<le> start_task_limit st \<longrightarrow> 0 \<le> start_task_limit st')"
proof (induction ts arbitrary: st upd)
  case Nil
  then show ?case by simp
next
  case (Cons t ts)
  show ?case
  proof (cases "start_task_limit st \<le> 0 \<or> timed_out env t")
    case True
    with Cons.prems show ?thesis by auto
  next
    case False
    have ms: "models st = booked (run @ started_tasks st) m0" using Cons.prems by (simp add: cycle_inv_def)
    from pending_task_step [of st env t upd] obtain st1 u1
      where s: "process_pending_task env t st upd = Inr (st1, u1)" "pending_step env t st st1"
      using booked_ok [OF ok] booked_globals [OF gl] ms by metis
    note inv1 = pending_step_inv [OF s(2) Cons.prems]
    from inv1 obtain new1 where n1: "started_tasks st1 = started_tasks st @ new1"
      "subseq (map job_key new1) [job_key t]" "length new1 \<le> 1" by fastforce
    from inv1 Cons.IH [of st1 u1] obtain st' u new
      where r: "process_pending_loop env ts st1 u1 = Inr (st', u)" "cycle_inv run m0 l st'"
        "started_tasks st' = started_tasks st1 @ new" "subseq (map job_key new) (map job_key ts)"
        "0 \<le> start_task_limit st1 \<longrightarrow> 0 \<le> start_task_limit st'" by blast
    have "start_task_limit st1 = start_task_limit st - int (length new1)"
      using inv1 Cons.prems n1(1) by (simp add: cycle_inv_def)
    with n1(3) False have "0 \<le> start_task_limit st1" by linarith
    with r(5) have "0 \<le> start_task_limit st'" by simp
    moreover have "subseq (map job_key (new1 @ new)) (map job_key (t # ts))"
      using list_emb_append_mono [OF n1(2) r(4)] by simp
    ultimately show ?thesis
      using False s(1) r n1(1) by (intro exI [of _ st'] exI [of _ u] exI [of _ "new1 @ new"]) simp
  qed
qed

lemma running_spec:
  "models_wf (models st) \<Longrightarrow> \<exists>st'. process_running_tasks ts st = Inr st' \<and>
     started_tasks st' = started_tasks st \<and> models st' = booked ts (models st) \<and>
     dependency_graph st' = add_jobs ts (dependency_graph st) \<and> start_task_limit st' = start_task_limit st"
proof (induction ts arbitrary: st)
  case (Cons t ts)
  let ?st1 = "(if is_workflow_job t then emit [RunWorkflowManager] st else st)
    \<lparr>dependency_graph := add_job t (dependency_graph st), models := booked [t] (models st)\<rparr>"
  have "models_wf (models ?st1)" using booked_wf [OF Cons.prems] by simp
  from Cons.IH [OF this] obtain st' where r: "process_running_tasks ts ?st1 = Inr st'"
    "started_tasks st' = started_tasks ?st1" "models st' = booked ts (models ?st1)"
    "dependency_graph st' = add_jobs ts (dependency_graph ?st1)"
    "start_task_limit st' = start_task_limit ?st1" by blast
  have "process_running_tasks (t # ts) st = process_running_tasks ts ?st1"
    using consume_capacity_booked [OF Cons.prems, of t] by (simp add: Let_def)
  with r show ?case by (auto simp: add_jobs_def booked_Cons [of t ts])
qed (simp add: add_jobs_def)

definition running_of :: "task list \<Rightarrow> task list" where
  "running_of ts = filter (\<lambda>t. status t \<in> {Waiting, Running}) ts"

definition pending_of :: "task list \<Rightarrow> task list" where
  "pending_of ts = filter (\<lambda>t. status t = Pending) ts"

lemma process_tasks_spec:
  assumes ok: "models_ok m" and gl: "globals_ok env m"
  obtains st' where "process_tasks env ts (after_lock_init limit m) = Inr st'"
    "cycle_inv (running_of ts) m limit st'"
    "subseq (map job_key (started_tasks st')) (map job_key (pending_of ts))"
    "0 \<le> limit \<longrightarrow> int (length (started_tasks st')) \<le> limit"
proof -
  let ?st = "(after_lock_init limit m)\<lparr>pre_start_failed := []\<rparr>"
  have "models_wf (models ?st)" using ok by (simp add: after_lock_init_def models_ok_def)
  from running_spec [OF this, of "running_of ts"] obtain st1
    where r1: "process_running_tasks (running_of ts) ?st = Inr st1" "started_tasks st1 = []"
      "models st1 = booked (running_of ts) m" "dependency_graph st1 = add_jobs (running_of ts) empty_graph"
      "start_task_limit st1 = limit"
    by (auto simp: after_lock_init_def started_tasks_def)
  have "cycle_inv (running_of ts) m limit st1" using r1 by (auto simp: cycle_inv_def)
  from pending_loop_inv [OF ok gl this, of "pending_of ts" "[]"] r1 obtain st2 u
    where r2: "process_pending_loop env (pending_of ts) st1 [] = Inr (st2, u)"
      "cycle_inv (running_of ts) m limit st2"
      "subseq (map job_key (started_tasks st2)) (map job_key (pending_of ts))"
      "0 \<le> limit \<longrightarrow> 0 \<le> start_task_limit st2" by auto
  have emit: "cycle_inv run m l (emit es s) = cycle_inv run m l s"
    if "concat (map saved_task es) = []" for run m l es s
    by (simp only: cycle_inv_def started_emit emit_simps append_Nil2 that)
  let ?st3 = "emit [BulkUpdateExplanation u] st2"
  let ?st4 = "if pre_start_failed ?st3 \<noteq> [] then emit [HandleFailureNotifications (pre_start_failed ?st3)] ?st3 else ?st3"
  have "process_tasks env ts (after_lock_init limit m) = Inr ?st4"
    using r1(1) r2(1) by (simp add: process_tasks_def process_pending_tasks_def running_of_def pending_of_def Let_def)
  moreover have "started_tasks ?st4 = started_tasks st2" "cycle_inv (running_of ts) m limit ?st4"
    using r2(2) by (simp_all add: emit)
  ultimately show ?thesis using r2 that by (auto simp: cycle_inv_def)
qed

section \<open>Guarantees of a cycle\<close>

text \<open>
  C1. A cycle never starts a task too early. Given consistent capacity data it returns without an
  error, and every task it started, taken in the order of the starts, conflicts with no running or
  waiting task and with no task started before it, and all the jobs that it depends on ended
  successfully or were cancelled.
\<close>

theorem process_tasks_no_conflict:
  assumes "models_ok m" "globals_ok env m"
  shows "\<exists>st'. process_tasks env ts (after_lock_init limit m) = Inr st' \<and>
    (\<forall>xs t ys. started_tasks st' = xs @ t # ys \<longrightarrow>
       \<not> (\<exists>j \<in> set (running_of ts @ xs). blocks j t) \<and>
       (\<forall>d \<in> set (dependent_jobs t). dep_status d \<in> {Successful, Canceled}))"
  by (rule process_tasks_spec [OF assms, of ts limit])
    (fastforce simp: cycle_inv_def)

text \<open>
  A cycle starts at most as many tasks as its limit allows, each of them one of the pending
  tasks, none twice, and in the order in which they were created.
\<close>

theorem process_tasks_bounded:
  assumes "models_ok m" "globals_ok env m" "0 \<le> limit"
  shows "\<exists>st'. process_tasks env ts (after_lock_init limit m) = Inr st' \<and>
    int (length (started_tasks st')) \<le> limit \<and>
    subseq (map job_key (started_tasks st')) (map job_key (pending_of ts))"
  by (rule process_tasks_spec [OF assms(1,2), of ts limit]) (use assms(3) in auto)

text \<open>
  The books are exact at the end of a cycle: the capacity booked on every instance and every
  container group is what it was before plus the load of the running tasks and of the tasks that
  the cycle started, on the nodes and in the groups with which they were saved.
\<close>

theorem process_tasks_books:
  assumes "models_ok m" "globals_ok env m"
  shows "\<exists>st'. process_tasks env ts (after_lock_init limit m) = Inr st' \<and>
    (let active = running_of ts @ started_tasks st'
     in (\<forall>h. instances_by_hostname (models st') h =
            map_option (book (control_task_impact m) h active) (instances_by_hostname m h)) \<and>
        (\<forall>n. instance_groups (models st') n = map_option (book_group m n active) (instance_groups m n)))"
  by (rule process_tasks_spec [OF assms, of ts limit])
    (simp add: cycle_inv_def booked_groups booked_instances)

section \<open>Limits of container groups\<close>

inductive pending_run :: "tm_env \<Rightarrow> task list \<Rightarrow> tm_state \<Rightarrow> tm_state \<Rightarrow> bool" for env where
  stop: "pending_run env ts st st"
| step: "pending_step env t st st1 \<Longrightarrow> pending_run env ts st1 st' \<Longrightarrow> pending_run env (t # ts) st st'"

lemma pending_step_models:
  assumes "pending_step env t st st'"
  shows "\<exists>ts. models st' = booked ts (models st)"
  using assms
proof (cases rule: pending_step.cases)
  case passed
  then show ?thesis by (intro exI [of _ "[]"]) (simp add: same_schedule_def)
next
  case (started st1 t1 c e g)
  from started(5) obtain t' where "models st' = booked [t'] (models st1)" by (elim task_startE)
  with started(2) show ?thesis by (auto simp: same_schedule_def)
qed

lemma pending_loop_run:
  "models_ok (models st) \<Longrightarrow> globals_ok env (models st) \<Longrightarrow>
     \<exists>st' u. process_pending_loop env ts st upd = Inr (st', u) \<and> pending_run env ts st st'"
proof (induction ts arbitrary: st upd)
  case (Cons t ts)
  show ?case
  proof (cases "start_task_limit st \<le> 0 \<or> timed_out env t")
    case True
    then show ?thesis by (auto intro: pending_run.stop)
  next
    case False
    from pending_task_step [OF Cons.prems, of t upd] obtain st1 u1
      where s: "process_pending_task env t st upd = Inr (st1, u1)" "pending_step env t st st1" by blast
    obtain ks where "models st1 = booked ks (models st)" using pending_step_models [OF s(2)] by blast
    then have "models_ok (models st1)" "globals_ok env (models st1)"
      using booked_ok [OF Cons.prems(1)] booked_globals [OF Cons.prems(2)] by simp_all
    from Cons.IH [OF this, of u1] obtain st' u where "process_pending_loop env ts st1 u1 = Inr (st', u)"
      "pending_run env ts st1 st'" by blast
    with s False show ?thesis by (auto intro: pending_run.step)
  qed
qed (auto intro: pending_run.stop)

text \<open>
  Consistent group data: keys and names identify groups, a group record has the flag of its row,
  and the control plane is not a container group.
\<close>

definition groups_consistent :: "tm_env \<Rightarrow> tm_models \<Rightarrow> bool" where
  "groups_consistent env m \<longleftrightarrow>
     (\<forall>p ig. pk_ig_map m p = Some ig \<longrightarrow> dg_pk ig = p) \<and>
     (\<forall>n g. instance_groups m n = Some g \<longrightarrow> name g = n) \<and>
     (\<forall>cp. controlplane_ig m = Some cp \<longrightarrow>
        pk_ig_map m (dg_pk cp) = Some cp \<and> \<not> dg_is_container_group cp) \<and>
     (\<forall>i. \<forall>ig \<in> set (tm_global_groups env i). pk_ig_map m (dg_pk ig) = Some ig)"

definition within_limits :: "tm_models \<Rightarrow> tm_models \<Rightarrow> bool" where
  "within_limits m1 m \<longleftrightarrow> (\<forall>n g1 g. instance_groups m1 n = Some g1 \<and> instance_groups m n = Some g \<and>
     is_container_group g \<longrightarrow>
     (max_concurrent_jobs g \<noteq> 0 \<longrightarrow>
        container_group_jobs g \<le> max (container_group_jobs g1) (max_concurrent_jobs g)) \<and>
     (max_forks g \<noteq> 0 \<longrightarrow>
        container_group_consumed_forks g \<le> max (container_group_consumed_forks g1) (max_forks g)))"

lemma groups_consistent_booked: "groups_consistent env m \<Longrightarrow> groups_consistent env (booked ts m)"
  by (auto simp: groups_consistent_def booked_groups book_group_def Let_def)

lemma cache_group_mapped:
  assumes "groups_consistent env m"
    "ig \<in> set (get_instance_groups_from_task_cache (tm_global_groups env) m t)"
  shows "pk_ig_map m (dg_pk ig) = Some ig"
  using assms by (auto simp: get_instance_groups_from_task_cache_def groups_consistent_def
      Let_def List.map_filter_def split: if_splits)

lemma container_booked:
  assumes gr: "instance_groups m n = Some g" and "is_container_group g"
    and adm: "admits m t ig" and n: "dg_name ig = n" and imp: "task_impact t' = task_impact t"
  shows "(max_concurrent_jobs g \<noteq> 0 \<longrightarrow> container_group_jobs (book_group m n [t'] g) \<le>
       max (container_group_jobs g) (max_concurrent_jobs g)) \<and>
    (max_forks g \<noteq> 0 \<longrightarrow> container_group_consumed_forks (book_group m n [t'] g) \<le>
       max (container_group_consumed_forks g) (max_forks g))"
proof -
  have "has_remaining_capacity (control_task_impact m) (instances_by_hostname m) g (Some t)"
    using adm gr n by (simp add: admits_def)
  then show ?thesis using assms(2) imp
    by (auto simp: has_remaining_capacity_iff get_jobs_running_def get_consumed_capacity_def
        book_group_def Let_def)
qed

lemma book_group_other: "\<not> container_task m n t \<Longrightarrow> book_group m n [t] g = g"
  by (simp add: book_group_def)

lemma book_group_limits [simp]:
  "max_concurrent_jobs (book_group m n ts g) = max_concurrent_jobs g"
  "max_forks (book_group m n ts g) = max_forks g"
  by (simp_all add: book_group_def Let_def)

lemma start_within_limits:
  assumes gc: "groups_consistent env (models st)" and wl: "within_limits m1 (models st)"
    and ss: "same_schedule st st1" and t1: "t1 = t\<lparr>controller_node := c, execution_node := e\<rparr>"
    and pl: "placed env t st g" and ts: "task_start t1 g st1 st'"
    and wfj: "is_workflow_job t \<longrightarrow> instance_group_id t = None"
  shows "within_limits m1 (models st')"
proof -
  let ?m = "models st"
  from ts obtain t' where m': "models st' = booked [t'] ?m"
    and bk: "booking_key t' = booking_key (with_group g t1)"
    using ss by (auto simp: same_schedule_def elim: task_startE)
  have imp: "task_impact t' = task_impact t" and grp: "instance_group_id t' = instance_group_id (with_group g t)"
    using bk by (auto simp: t1 booking_key_def with_group_def split: option.splits)
  have adm: "\<exists>ig. dg_name ig = n \<and> admits ?m t ig" if ct: "container_task ?m n t'" for n
  proof (cases g)
    case None
    with pl wfj grp ct show ?thesis by (simp add: placed_def with_group_def container_task_def)
  next
    case (Some ig)
    have mapped: "pk_ig_map ?m (dg_pk ig) = Some ig"
      using pl gc Some cache_group_mapped [OF gc] by (auto simp: placed_def groups_consistent_def)
    with ct grp Some have "dg_name ig = n" "dg_is_container_group ig"
      by (simp_all add: container_task_def with_group_def)
    with pl gc Some show ?thesis by (auto simp: placed_def groups_consistent_def)
  qed
  show ?thesis
    unfolding within_limits_def m'
  proof (intro allI impI, elim conjE)
    fix n g1 g' assume g1: "instance_groups m1 n = Some g1"
      and g': "instance_groups (booked [t'] ?m) n = Some g'" "is_container_group g'"
    then obtain g0 where g0: "instance_groups ?m n = Some g0" "g' = book_group ?m n [t'] g0"
      by (auto simp: booked_groups)
    have c0: "is_container_group g0" using g0(2) g'(2) by simp
    have old: "(max_concurrent_jobs g0 \<noteq> 0 \<longrightarrow>
        container_group_jobs g0 \<le> max (container_group_jobs g1) (max_concurrent_jobs g0)) \<and>
      (max_forks g0 \<noteq> 0 \<longrightarrow>
        container_group_consumed_forks g0 \<le> max (container_group_consumed_forks g1) (max_forks g0))"
      using wl g1 g0(1) c0 by (auto simp: within_limits_def)
    show "(max_concurrent_jobs g' \<noteq> 0 \<longrightarrow>
        container_group_jobs g' \<le> max (container_group_jobs g1) (max_concurrent_jobs g')) \<and>
      (max_forks g' \<noteq> 0 \<longrightarrow>
        container_group_consumed_forks g' \<le> max (container_group_consumed_forks g1) (max_forks g'))"
    proof (cases "container_task ?m n t'")
      case False
      with old show ?thesis by (simp add: g0(2) book_group_other)
    next
      case True
      with adm obtain ig where "admits ?m t ig" "dg_name ig = n" by blast
      from container_booked [OF g0(1) c0 this imp] old show ?thesis by (auto simp: g0(2))
    qed
  qed
qed

lemma run_within_limits:
  "pending_run env ts st st' \<Longrightarrow> groups_consistent env (models st) \<Longrightarrow> within_limits m1 (models st) \<Longrightarrow>
     \<forall>t \<in> set ts. is_workflow_job t \<longrightarrow> instance_group_id t = None \<Longrightarrow> within_limits m1 (models st')"
proof (induction rule: pending_run.induct)
  case (step t st st1 ts st')
  have "within_limits m1 (models st1)"
    using step.hyps(1)
  proof (cases rule: pending_step.cases)
    case passed
    with step.prems show ?thesis by (simp add: same_schedule_def)
  next
    case (started s1 t1 c e g)
    from start_within_limits [OF step.prems(1,2) started(2,3,4,5)] step.prems(3) show ?thesis by simp
  qed
  moreover obtain ks where "models st1 = booked ks (models st)"
    using pending_step_models [OF step.hyps(1)] by blast
  ultimately show ?case
    using step.IH groups_consistent_booked [OF step.prems(1)] step.prems(3) by simp
qed

text \<open>
  C23. No container group is filled beyond its limits: if a group sets a limit on concurrent jobs
  or on forks, then after the cycle the group is within that limit, or as far above it as the
  running tasks alone had put it. The group data that the cycle loads is consistent, as rows of one
  table are: the control plane group and the groups that tasks can name have their records, keys
  and names identify groups, a record carries the flag of its row, and the control plane is not a
  container group; and a workflow job has no instance group of its own.
\<close>

theorem process_tasks_container_limits:
  assumes "models_ok m" "globals_ok env m" "groups_consistent env m"
    and "\<forall>t \<in> set ts. is_workflow_job t \<longrightarrow> instance_group_id t = None"
  shows "\<exists>st'. process_tasks env ts (after_lock_init limit m) = Inr st' \<and>
    within_limits (booked (running_of ts) m) (models st')"
proof -
  let ?st = "(after_lock_init limit m)\<lparr>pre_start_failed := []\<rparr>" and ?m1 = "booked (running_of ts) m"
  have "models_wf (models ?st)" using assms(1) by (simp add: after_lock_init_def models_ok_def)
  from running_spec [OF this, of "running_of ts"] obtain st1
    where r1: "process_running_tasks (running_of ts) ?st = Inr st1" "models st1 = ?m1"
    by (auto simp: after_lock_init_def)
  obtain st2 u where r2: "process_pending_loop env (pending_of ts) st1 [] = Inr (st2, u)"
    "pending_run env (pending_of ts) st1 st2"
    using pending_loop_run [of st1 env "pending_of ts" "[]"] r1(2)
      booked_ok [OF assms(1)] booked_globals [OF assms(2)] by auto
  have "within_limits ?m1 (models st2)"
    by (rule run_within_limits [OF r2(2)])
      (use assms(4) groups_consistent_booked [OF assms(3)] in
        \<open>auto simp: r1(2) within_limits_def pending_of_def\<close>)
  then show ?thesis
    using r1(1) r2(1)
    by (simp add: process_tasks_def process_pending_tasks_def running_of_def pending_of_def Let_def)
qed

section \<open>A small installation\<close>

lemma controlplane_found:
  "fold (\<lambda>g c. if dg_name g = cp then Some g else c) dgs c0 = Some g \<Longrightarrow>
     (g \<in> set dgs \<and> dg_name g = cp) \<or> c0 = Some g"
  by (induction dgs arbitrary: c0) (fastforce split: if_splits)+

lemma controlplane_exists:
  "cp \<in> dg_name ` set dgs \<Longrightarrow> fold (\<lambda>g c. if dg_name g = cp then Some g else c) dgs c0 \<noteq> None"
proof (induction dgs arbitrary: c0)
  case (Cons g dgs)
  have "fold (\<lambda>g c. if dg_name g = cp then Some g else c) gs (Some x) \<noteq> None" for gs x
    by (induction gs arbitrary: x) auto
  with Cons show ?case by auto
qed simp

lemma init_models_ok:
  assumes d: "distinct (map dg_name dgs)" and cp: "cp \<in> dg_name ` set dgs"
  shows "models_ok (init_models ci cp dis dgs)"
proof -
  let ?m = "init_models ci cp dis dgs"
  have known: "instance_groups ?m (dg_name g) \<noteq> None" if "g \<in> set dgs" for g
    by (simp add: init_models_def Let_def init_models_group_mem [OF d that])
  obtain c where c: "controlplane_ig ?m = Some c"
    using controlplane_exists [OF cp] by (auto simp: init_models_def Let_def)
  then have "c \<in> set dgs" by (auto simp: init_models_def Let_def dest: controlplane_found)
  moreover have "ig \<in> set dgs" if "pk_ig_map ?m p = Some ig" for p ig
    using that by (auto simp: init_models_def Let_def dest!: fold_map_upd_Some)
  ultimately show ?thesis using known c init_models_wf [OF d] by (auto simp: models_ok_def)
qed

definition demo_groups :: "db_group list" where
  "demo_groups =
     [\<lparr>dg_pk = 1, dg_name = ''controlplane'', dg_is_container_group = False, dg_instances = [''node1''],
       dg_max_concurrent_jobs = 0, dg_max_forks = 0\<rparr>,
      \<lparr>dg_pk = 2, dg_name = ''default'', dg_is_container_group = False, dg_instances = [''node1''],
       dg_max_concurrent_jobs = 0, dg_max_forks = 0\<rparr>]"

definition demo_models :: tm_models where
  "demo_models = init_models 1 ''controlplane''
     [\<lparr>di_hostname = ''node1'', di_node_type = HybridNode, di_capacity = 10, di_ready = True,
       di_enabled = True\<rparr>] demo_groups"

definition demo_env :: tm_env where
  "demo_env = \<lparr>tm_clock = \<lambda>_. 0, tm_start_time = 0, tm_timeout = 300, tm_global_groups = \<lambda>_. []\<rparr>"

lemma demo_ok: "models_ok demo_models" "globals_ok demo_env demo_models"
  by (simp_all add: demo_models_def init_models_ok demo_groups_def globals_ok_def demo_env_def)

definition demo_tasks :: "task list" where
  "demo_tasks = map (\<lambda>i. blank_task\<lparr>task_id := i, kind := Job None None (Some 5),
     preferred_instance_groups_cache := [2]\<rparr>) [1, 2]"

theorem process_tasks_no_conflict_witness:
  "\<exists>st'. process_tasks demo_env demo_tasks (after_lock_init 100 demo_models) = Inr st' \<and>
    (\<forall>xs t ys. started_tasks st' = xs @ t # ys \<longrightarrow>
       \<not> (\<exists>j \<in> set (running_of demo_tasks @ xs). blocks j t) \<and>
       (\<forall>d \<in> set (dependent_jobs t). dep_status d \<in> {Successful, Canceled}))"
  by (rule process_tasks_no_conflict [OF demo_ok])

theorem process_tasks_bounded_witness:
  "\<exists>st'. process_tasks demo_env demo_tasks (after_lock_init 100 demo_models) = Inr st' \<and>
    int (length (started_tasks st')) \<le> 100 \<and>
    subseq (map job_key (started_tasks st')) (map job_key (pending_of demo_tasks))"
  by (rule process_tasks_bounded [OF demo_ok]) simp

theorem process_tasks_books_witness:
  "\<exists>st'. process_tasks demo_env demo_tasks (after_lock_init 100 demo_models) = Inr st' \<and>
    (let active = running_of demo_tasks @ started_tasks st'
     in (\<forall>h. instances_by_hostname (models st') h =
            map_option (book (control_task_impact demo_models) h active) (instances_by_hostname demo_models h)) \<and>
        (\<forall>n. instance_groups (models st') n =
            map_option (book_group demo_models n active) (instance_groups demo_models n)))"
  by (rule process_tasks_books [OF demo_ok])

text \<open>The installation with a container group that runs one job at a time, with at most 20 forks.\<close>

definition pod_models :: tm_models where
  "pod_models = init_models 1 ''controlplane''
     [\<lparr>di_hostname = ''node1'', di_node_type = HybridNode, di_capacity = 10, di_ready = True,
       di_enabled = True\<rparr>]
     (demo_groups @ [\<lparr>dg_pk = 3, dg_name = ''pods'', dg_is_container_group = True, dg_instances = [],
       dg_max_concurrent_jobs = 1, dg_max_forks = 20\<rparr>])"

definition pod_tasks :: "task list" where
  "pod_tasks = map (\<lambda>i. blank_task\<lparr>task_id := i, kind := Job None None (Some (4 + i)),
     preferred_instance_groups_cache := [3]\<rparr>) [1, 2]"

lemma pod_ok: "models_ok pod_models" "globals_ok demo_env pod_models"
  by (simp_all add: pod_models_def init_models_ok demo_groups_def globals_ok_def demo_env_def)

text \<open>The two jobs do not block each other; only one fits.\<close>

lemma pod_first_only:
  "case process_tasks demo_env pod_tasks (after_lock_init 100 pod_models) of
     Inl _ \<Rightarrow> False
   | Inr st' \<Rightarrow> map task_id (started_tasks st') = [1] \<and>
       map_option container_group_jobs (instance_groups (models st') ''pods'') = Some 1"
  by code_simp

theorem process_tasks_container_limits_witness:
  "(\<exists>g. instance_groups pod_models ''pods'' = Some g \<and> is_container_group g \<and>
      max_concurrent_jobs g = 1 \<and> max_forks g = 20) \<and>
   (\<exists>st'. process_tasks demo_env pod_tasks (after_lock_init 100 pod_models) = Inr st' \<and>
      map task_id (started_tasks st') = [1] \<and>
      within_limits (booked (running_of pod_tasks) pod_models) (models st'))"
proof
  show "\<exists>g. instance_groups pod_models ''pods'' = Some g \<and> is_container_group g \<and>
      max_concurrent_jobs g = 1 \<and> max_forks g = 20"
    by (simp add: pod_models_def init_models_def demo_groups_def new_group_def Let_def)
  have "groups_consistent demo_env pod_models"
    by (simp add: groups_consistent_def pod_models_def init_models_def demo_groups_def demo_env_def
        new_group_def Let_def)
  moreover have "\<forall>t \<in> set pod_tasks. is_workflow_job t \<longrightarrow> instance_group_id t = None"
    by (simp add: pod_tasks_def blank_task_def)
  ultimately have "\<exists>st'. process_tasks demo_env pod_tasks (after_lock_init 100 pod_models) = Inr st' \<and>
      within_limits (booked (running_of pod_tasks) pod_models) (models st')"
    by (rule process_tasks_container_limits [OF pod_ok])
  with pod_first_only
  show "\<exists>st'. process_tasks demo_env pod_tasks (after_lock_init 100 pod_models) = Inr st' \<and>
      map task_id (started_tasks st') = [1] \<and>
      within_limits (booked (running_of pod_tasks) pod_models) (models st')" by auto
qed

text \<open>The second launch of the template waits for the first.\<close>

lemma demo_first_only:
  "case process_tasks demo_env demo_tasks (after_lock_init 100 demo_models) of
     Inl _ \<Rightarrow> False | Inr st' \<Rightarrow> map task_id (started_tasks st') = [1]"
  by code_simp

lemma demo_default: "\<exists>g. instance_groups demo_models ''default'' = Some g"
  by (simp add: demo_models_def init_models_def demo_groups_def Let_def)

theorem fit_task_witness:
  "\<exists>g r. instance_groups demo_models ''default'' = Some g \<and>
    fit_task_to_most_remaining_capacity_instance demo_models blank_task ''default'' (Some 3) (Some ExecutionNode) True = Inr r \<and>
    (let w = would_be_remaining (control_task_impact demo_models) 3 True;
         cands = filter (\<lambda>i. usable ExecutionNode i \<and> 0 \<le> w i) (group_instances (instances_by_hostname demo_models) g)
     in case r of
          None \<Rightarrow> cands = []
        | Some i \<Rightarrow>
            (\<exists>xs ys. cands = xs @ i # ys \<and> (\<forall>x \<in> set xs. w x < w i) \<and> (\<forall>y \<in> set ys. w y \<le> w i)) \<and>
            consumed_capacity (instance_consume 3 True i) +
              (if True \<and> node_type i = HybridNode then control_task_impact demo_models else 0) \<le> capacity i)"
proof -
  obtain g where g: "instance_groups demo_models ''default'' = Some g" using demo_default by blast
  have ci: "0 \<le> control_task_impact demo_models" by (simp add: demo_models_def init_models_def Let_def)
  have k: "(0 :: int) < 3" by simp
  from fit_task_correct [OF g k ci, where t = blank_task and hyb = True and ct = ExecutionNode] g
  show ?thesis by blast
qed

theorem find_largest_idle_witness:
  "\<exists>g r. instance_groups demo_models ''default'' = Some g \<and>
    find_largest_idle_instance demo_models ''default'' ExecutionNode = Inr r \<and>
    (let cands = filter (\<lambda>i. usable ExecutionNode i \<and> 0 < capacity i \<and> idle i)
                   (group_instances (instances_by_hostname demo_models) g)
     in case r of
          None \<Rightarrow> cands = []
        | Some i \<Rightarrow> \<exists>xs ys. cands = xs @ i # ys \<and> (\<forall>x \<in> set xs. capacity x < capacity i) \<and>
            (\<forall>y \<in> set ys. capacity y \<le> capacity i))"
proof -
  obtain g where g: "instance_groups demo_models ''default'' = Some g" using demo_default by blast
  from find_largest_idle_correct [OF g, of ExecutionNode] g show ?thesis by blast
qed

theorem init_with_consumed_capacity_witness:
  "\<exists>m. init_with_consumed_capacity 1 ''controlplane'' [] demo_groups demo_tasks = Inr m \<and>
    (let active = filter (\<lambda>t. status t \<in> {Running, Waiting}) demo_tasks
     in (\<forall>h i. instances_by_hostname m h = Some i \<longrightarrow>
          consumed_capacity i = load 1 h (node_type i) active \<and>
          jobs_running i = int (length (filter (runs_on h (node_type i)) active))) \<and>
        (\<forall>n g. instance_groups m n = Some g \<longrightarrow>
          container_group_jobs g = int (length (filter (container_task m n) active)) \<and>
          container_group_consumed_forks g = sum_list (map task_impact (filter (container_task m n) active))))"
  by (rule init_with_consumed_capacity_books_all) (simp add: demo_groups_def)

end
