(* ===== verification/Python_Values.thy ===== *)
theory Python_Values
  imports Prelude Complex_Main
begin

text \<open>
  The values of Python that the request, policy and scanner code handles: JSON data as the parsers
  deliver it, truth values, conversion to text and to integers, and the string methods in use.
  Text is ASCII. Floating point numbers are rationals.
\<close>

section \<open>JSON\<close>

datatype json =
    JNull
  | JBool bool
  | JInt int
  | JFloat rat
  | JStr string
  | JList "json list"
  | JObj "(string \<times> json) list"

fun json_true :: "json \<Rightarrow> bool" where
  "json_true JNull = False"
| "json_true (JBool b) = b"
| "json_true (JInt i) = (i \<noteq> 0)"
| "json_true (JFloat r) = (r \<noteq> 0)"
| "json_true (JStr s) = (s \<noteq> [])"
| "json_true (JList xs) = (xs \<noteq> [])"
| "json_true (JObj kvs) = (kvs \<noteq> [])"

text \<open>\<open>d.get(k)\<close> on a parsed object; a missing key is \<open>None\<close>.\<close>

definition obj_get :: "(string \<times> json) list \<Rightarrow> string \<Rightarrow> json" where
  "obj_get d k = dict_get d k JNull"

section \<open>Strings\<close>

text \<open>The ASCII characters that \<open>str.strip\<close> removes: codes 9 to 13, 28 to 31 and 32.\<close>

definition is_space :: "char \<Rightarrow> bool" where
  "is_space c \<longleftrightarrow> (let n = of_char c :: nat in (9 \<le> n \<and> n \<le> 13) \<or> (28 \<le> n \<and> n \<le> 32))"

definition lstrip :: "string \<Rightarrow> string" where
  "lstrip s = dropWhile is_space s"

definition strip :: "string \<Rightarrow> string" where
  "strip s = rev (dropWhile is_space (rev (lstrip s)))"

definition lower_char :: "char \<Rightarrow> char" where
  "lower_char c = (let n = of_char c :: nat in if 65 \<le> n \<and> n \<le> 90 then char_of (n + 32) else c)"

definition lower :: "string \<Rightarrow> string" where
  "lower s = map lower_char s"

definition startswith :: "string \<Rightarrow> string \<Rightarrow> bool" where
  "startswith s p \<longleftrightarrow> take (length p) s = p"

definition endswith :: "string \<Rightarrow> string \<Rightarrow> bool" where
  "endswith s p \<longleftrightarrow> startswith (rev s) (rev p)"

text \<open>\<open>p in s\<close>.\<close>

fun contains_sub :: "string \<Rightarrow> string \<Rightarrow> bool" where
  "contains_sub [] p = (p = [])"
| "contains_sub (c # s) p = (startswith (c # s) p \<or> contains_sub s p)"

text \<open>\<open>s.split(sep)\<close> on one character; \<open>''''.split(c)\<close> is one empty part.\<close>

fun split_on :: "char \<Rightarrow> string \<Rightarrow> string list" where
  "split_on sep [] = [[]]"
| "split_on sep (c # s) =
     (if c = sep then [] # split_on sep s
      else (case split_on sep s of [] \<Rightarrow> [[c]] | p # ps \<Rightarrow> (c # p) # ps))"

definition is_digit :: "char \<Rightarrow> bool" where
  "is_digit c \<longleftrightarrow> (let n = of_char c :: nat in 48 \<le> n \<and> n \<le> 57)"

definition digit_val :: "char \<Rightarrow> int" where
  "digit_val c = of_char c - 48"

definition is_hex_digit :: "char \<Rightarrow> bool" where
  "is_hex_digit c \<longleftrightarrow> (let n = of_char c :: nat
     in (48 \<le> n \<and> n \<le> 57) \<or> (97 \<le> n \<and> n \<le> 102) \<or> (65 \<le> n \<and> n \<le> 70))"

section \<open>Conversions\<close>

text \<open>
  \<open>int(s)\<close>: digits with single underscores between them; \<open>None\<close> is \<open>ValueError\<close>. The flag says
  whether a digit was read just before.
\<close>

fun digits_value :: "int \<Rightarrow> bool \<Rightarrow> string \<Rightarrow> int option" where
  "digits_value acc prev [] = (if prev then Some acc else None)"
| "digits_value acc prev (c # s) =
     (if is_digit c then digits_value (10 * acc + digit_val c) True s
      else if c = CHR ''_'' \<and> prev then digits_value acc False s
      else None)"

definition parse_int :: "string \<Rightarrow> int option" where
  "parse_int s0 =
     (let s = strip s0
      in if startswith s ''-'' then map_option uminus (digits_value 0 False (tl s))
         else if startswith s ''+'' then digits_value 0 False (tl s)
         else digits_value 0 False s)"

definition truncate_rat :: "rat \<Rightarrow> int" where
  "truncate_rat r = (if 0 \<le> r then \<lfloor>r\<rfloor> else \<lceil>r\<rceil>)"

text \<open>\<open>int(v)\<close>; \<open>None\<close> is \<open>TypeError\<close> or \<open>ValueError\<close>.\<close>

fun py_int :: "json \<Rightarrow> int option" where
  "py_int JNull = None"
| "py_int (JBool b) = Some (if b then 1 else 0)"
| "py_int (JInt i) = Some i"
| "py_int (JFloat r) = Some (truncate_rat r)"
| "py_int (JStr s) = parse_int s"
| "py_int (JList _) = None"
| "py_int (JObj _) = None"

text \<open>\<open>str(v)\<close>; the rendering of floats and containers is an argument.\<close>

fun py_str :: "(json \<Rightarrow> string) \<Rightarrow> json \<Rightarrow> string" where
  "py_str r JNull = ''None''"
| "py_str r (JBool b) = (if b then ''True'' else ''False'')"
| "py_str r (JInt i) = int_str i"
| "py_str r (JStr s) = s"
| "py_str r v = r v"

lemma startswith_append: "startswith s p \<longleftrightarrow> (\<exists>t. s = p @ t)"
  unfolding startswith_def by (metis append_eq_conv_conj)

lemma contains_sub_iff: "contains_sub s p \<longleftrightarrow> (\<exists>x y. s = x @ p @ y)"
proof (induction s)
  case step: (Cons c s)
  show ?case
  proof
    assume "contains_sub (c # s) p"
    then show "\<exists>x y. c # s = x @ p @ y"
      using step by (auto simp: startswith_append intro: exI [of _ "[]"]) (metis append_Cons)
  next
    assume "\<exists>x y. c # s = x @ p @ y"
    then obtain x y where xy: "c # s = x @ p @ y" by blast
    show "contains_sub (c # s) p"
    proof (cases x)
      case Nil
      with xy have "startswith (c # s) p" by (auto simp: startswith_append)
      then show ?thesis by simp
    next
      case (Cons a x')
      with xy have "s = x' @ p @ y" by simp
      with step show ?thesis by auto
    qed
  qed
qed auto

end
