(* ===== verification/Workflow_Manager.thy ===== *)
theory Workflow_Manager
  imports Dag_Progress Python_Values
begin

text \<open>
  The workflow manager: \<open>WorkflowManager\<close> of \<open>forail/main/scheduler/task_manager.py\<close>, with
  \<open>get_ancestor_workflows\<close> of \<open>forail/main/models/workflow.py\<close> and the outcome of
  \<open>UnifiedJob.cancel\<close> inside the manager's transaction.

  A run works on the rows of the workflow jobs. The nodes of a workflow exist twice: as rows and as
  the objects of the graph that the run has loaded, which a query that updates rows does not change.
  The model keeps the two stores apart.
\<close>

section \<open>State\<close>

record workflow_row =
  wr_template :: "pk option"
  wr_parent :: "pk option"
  wr_by_workflow :: bool
  wr_status :: job_status
  wr_cancel_flag :: bool
  wr_start_args :: "(string \<times> json) list option"
  wr_explanation :: string
  wr_dependencies_processed :: bool
  wr_graph :: "pk dag"
  wr_nodes :: node_store

datatype request_run = RunTaskManager | RunDependencyManager | RunWorkflowManager

text \<open>
  The workflow jobs and the other jobs by primary key, the next key, the managers that were asked to
  run and the notifications sent (whether of success).
\<close>

record workflow_world =
  ww_workflows :: "(pk \<times> workflow_row) list"
  ww_jobs :: "(pk \<times> job_status \<times> string) list"
  ww_next :: pk
  ww_requests :: "request_run list"
  ww_notices :: "(pk \<times> bool) list"

text \<open>
  What the manager reads of other models: the graph that a template is copied to, the passwords a
  template's job needs, whether its resources are present, whether its jobs are created with their
  dependencies processed, its rendering as text, whether a job has a dispatcher task, and the stack
  of the topological sort.
\<close>

record workflow_env =
  we_copy :: "pk \<Rightarrow> pk dag \<times> node_store"
  we_needed :: "pk \<Rightarrow> string list"
  we_resources :: "pk \<Rightarrow> bool"
  we_processed :: "pk \<Rightarrow> bool"
  we_text :: "pk \<Rightarrow> string"
  we_has_task :: "pk \<Rightarrow> bool"
  we_frames :: nat

section \<open>Ancestors\<close>

definition row_template :: "workflow_row \<Rightarrow> pk option" where
  "row_template r = (case wr_template r of Some 0 \<Rightarrow> None | t \<Rightarrow> t)"

definition get_workflow_job :: "workflow_row \<Rightarrow> pk option" where
  "get_workflow_job r = (if wr_by_workflow r then wr_parent r else None)"

function ancestor_loop :: "(pk \<times> workflow_row) list \<Rightarrow> pk set \<Rightarrow> pk option \<Rightarrow> pk list" where
  "ancestor_loop rows wj_ids wj =
     (case wj of
        None \<Rightarrow> []
      | Some p \<Rightarrow>
          (case map_of rows p of
             None \<Rightarrow> []
           | Some r \<Rightarrow>
               (case row_template r of
                  None \<Rightarrow> []
                | Some t \<Rightarrow>
                    if p \<in> wj_ids then []
                    else t # ancestor_loop rows (insert p wj_ids) (get_workflow_job r))))"
  by pat_completeness auto
termination
proof (relation "measure (\<lambda>(rows, wj_ids, wj). card (fst ` set rows - wj_ids))")
  fix rows :: "(pk \<times> workflow_row) list" and wj_ids wj p r t
  assume "map_of rows p = Some r" "p \<notin> wj_ids"
  then have "p \<in> fst ` set rows - wj_ids" by (metis DiffI domI dom_map_of_conv_image_fst)
  then have "card (fst ` set rows - insert p wj_ids) < card (fst ` set rows - wj_ids)"
    by (intro psubset_card_mono) auto
  then show "((rows, insert p wj_ids, get_workflow_job r), (rows, wj_ids, wj))
      \<in> measure (\<lambda>(rows, wj_ids, wj). card (fst ` set rows - wj_ids))" by simp
qed simp

declare ancestor_loop.simps [simp del]

definition get_ancestor_workflows :: "(pk \<times> workflow_row) list \<Rightarrow> pk \<Rightarrow> pk list" where
  "get_ancestor_workflows rows i =
     (case map_of rows i of None \<Rightarrow> [] | Some r \<Rightarrow> ancestor_loop rows {i} (get_workflow_job r))"

section \<open>Spawning one node\<close>

definition recursion_text :: "workflow_env \<Rightarrow> pk list \<Rightarrow> string" where
  "recursion_text env ts =
     ''Workflow Job spawned from workflow could not start because it would result in recursion '' @
     ''(spawn order, most recent first: '' @ join_with '', '' (map (\<lambda>t. ''<'' @ we_text env t @ ''>'') ts) @ '')''"

definition missing_text :: string where
  "missing_text = ''Job spawned from workflow could not start because it was missing a related resource '' @
     ''such as project or inventory''"

definition wrong_state_text :: string where
  "wrong_state_text = ''Job spawned from workflow could not start because it was not in the right state '' @
     ''or required manual credentials''"

text \<open>The new row: a workflow job gets a copy of its template's nodes.\<close>

definition create_spawned :: "workflow_env \<Rightarrow> pk \<Rightarrow> ujt \<Rightarrow> workflow_world \<Rightarrow> workflow_world" where
  "create_spawned env wid u w =
     (let i = ww_next w
      in if ujt_is_workflow u then
           w\<lparr>ww_next := Suc i, ww_workflows := AList.update i
              \<lparr>wr_template = Some (ujt_id u), wr_parent = Some wid, wr_by_workflow = True, wr_status = New,
               wr_cancel_flag = False, wr_start_args = None, wr_explanation = [],
               wr_dependencies_processed = True, wr_graph = fst (we_copy env (ujt_id u)),
               wr_nodes = snd (we_copy env (ujt_id u))\<rparr> (ww_workflows w)\<rparr>
         else w\<lparr>ww_next := Suc i, ww_jobs := AList.update i (New, []) (ww_jobs w)\<rparr>)"

definition set_spawned :: "ujt \<Rightarrow> pk \<Rightarrow> job_status \<Rightarrow> string \<Rightarrow> workflow_world \<Rightarrow> workflow_world" where
  "set_spawned u i s e w =
     (if ujt_is_workflow u then
        (case map_of (ww_workflows w) i of
           None \<Rightarrow> w
         | Some r \<Rightarrow> w\<lparr>ww_workflows := AList.update i (r\<lparr>wr_status := s, wr_explanation := e\<rparr>) (ww_workflows w)\<rparr>)
      else w\<lparr>ww_jobs := AList.update i (s, e) (ww_jobs w)\<rparr>)"

text \<open>Why a spawned job does not start, if it does not.\<close>

definition spawn_refusal ::
  "workflow_env \<Rightarrow> (string \<times> json) list option \<Rightarrow> ujt \<Rightarrow> pk list \<Rightarrow> string option" where
  "spawn_refusal env args u ancestors =
     (if \<not> we_resources env (ujt_id u) then Some missing_text
      else if ujt_is_workflow u \<and> ujt_id u \<in> set ancestors then
        Some (recursion_text env (ujt_id u # ancestors))
      else if \<not> list_all (\<lambda>f. json_true (dict_get (case args of None \<Rightarrow> [] | Some a \<Rightarrow> a) f (JStr [])))
                (if ujt_is_workflow u then [] else we_needed env (ujt_id u)) then
        Some wrong_state_text
      else None)"

definition spawn_node ::
  "workflow_env \<Rightarrow> pk \<Rightarrow> (string \<times> json) list option \<Rightarrow> pk \<Rightarrow> node_store \<times> node_store \<times> workflow_world \<Rightarrow>
     node_store \<times> node_store \<times> workflow_world" where
  "spawn_node env wid args n st =
     (let (ob, db, w) = st
      in case unified_job_template (ob n) of
           None \<Rightarrow> st
         | Some u \<Rightarrow>
             (let i = ww_next w;
                  w1 = create_spawned env wid u w;
                  ob1 = ob(n := (ob n)\<lparr>job := Some \<lparr>sj_id = i, sj_status = New\<rparr>\<rparr>);
                  db1 = db(n := ob1 n);
                  ancestors = (if ujt_is_workflow u then get_ancestor_workflows (ww_workflows w1) i else [])
              in case spawn_refusal env args u ancestors of
                   None \<Rightarrow>
                     (let j = Some \<lparr>sj_id = i, sj_status = Pending\<rparr>
                      in (ob1(n := (ob1 n)\<lparr>job := j\<rparr>), db1(n := (db1 n)\<lparr>job := j\<rparr>),
                          (set_spawned u i Pending [] w1)\<lparr>ww_requests := ww_requests w1 @
                             [if ujt_is_workflow u \<or> we_processed env (ujt_id u) then RunTaskManager else RunDependencyManager]\<rparr>))
                 | Some e \<Rightarrow>
                     (let j = Some \<lparr>sj_id = i, sj_status = Failed\<rparr>
                      in (ob1(n := (ob1 n)\<lparr>job := j\<rparr>), db1(n := (db1 n)\<lparr>job := j\<rparr>),
                          (set_spawned u i Failed e w1)\<lparr>ww_requests := ww_requests w1 @ [RunWorkflowManager],
                             ww_notices := ww_notices w1 @ [(i, False)]\<rparr>))))"

section \<open>One workflow\<close>

definition cancel_in_transaction :: "workflow_env \<Rightarrow> spawned_job \<Rightarrow> spawned_job" where
  "cancel_in_transaction env j = (if we_has_task env (sj_id j) then j else j\<lparr>sj_status := Canceled\<rparr>)"

definition no_error_path_text :: string where
  "no_error_path_text = ''No error handling paths found, marking workflow as failed''"

text \<open>The nodes with their jobs, as the run loads them.\<close>

definition job_row_status :: "workflow_world \<Rightarrow> spawned_job \<Rightarrow> job_status" where
  "job_row_status w j =
     (case map_of (ww_workflows w) (sj_id j) of
        Some r \<Rightarrow> wr_status r
      | None \<Rightarrow> (case map_of (ww_jobs w) (sj_id j) of Some (s, _) \<Rightarrow> s | None \<Rightarrow> sj_status j))"

definition load_nodes :: "workflow_world \<Rightarrow> pk \<Rightarrow> node_store \<Rightarrow> node_store" where
  "load_nodes w wid dflt =
     (let db = (case map_of (ww_workflows w) wid of None \<Rightarrow> dflt | Some r \<Rightarrow> wr_nodes r)
      in (\<lambda>n. (db n)\<lparr>job := map_option (\<lambda>j. j\<lparr>sj_status := job_row_status w j\<rparr>) (job (db n))\<rparr>))"

text \<open>\<open>cancel()\<close> on the row of a job: a workflow job keeps a cancel flag.\<close>

definition cancel_row :: "workflow_env \<Rightarrow> spawned_job \<Rightarrow> workflow_world \<Rightarrow> workflow_world" where
  "cancel_row env j w =
     (case map_of (ww_workflows w) (sj_id j) of
        Some r \<Rightarrow> w\<lparr>ww_workflows := AList.update (sj_id j)
           (r\<lparr>wr_cancel_flag := True, wr_start_args := (if wr_cancel_flag r then wr_start_args r else None),
              wr_status := (if we_has_task env (sj_id j) then wr_status r else Canceled)\<rparr>) (ww_workflows w)\<rparr>
      | None \<Rightarrow>
          (case map_of (ww_jobs w) (sj_id j) of
             None \<Rightarrow> w
           | Some (s, e) \<Rightarrow>
               w\<lparr>ww_jobs := AList.update (sj_id j)
                   (if we_has_task env (sj_id j) then s else Canceled, e) (ww_jobs w)\<rparr>))"

definition cancellable :: "pk dag \<Rightarrow> node_store \<Rightarrow> spawned_job list" where
  "cancellable g ob = concat (map (\<lambda>n. case job (ob n) of None \<Rightarrow> [] | Some j \<Rightarrow> if can_cancel j then [j] else []) (nodes g))"

text \<open>The query that marks the nodes without a job; the loaded nodes do not change.\<close>

definition mark_rows :: "pk dag \<Rightarrow> node_store \<Rightarrow> node_store" where
  "mark_rows g db = (\<lambda>n. if n \<in> set (nodes g) \<and> \<not> do_not_run (db n) \<and> job (db n) = None
                          then (db n)\<lparr>do_not_run := True\<rparr> else db n)"

text \<open>
  The first half of the loop body: cancel, or mark and finish. The result has the loaded nodes, the
  node rows, the workflow job and whether its status has changed.
\<close>

definition advance_workflow ::
  "workflow_env \<Rightarrow> workflow_row \<Rightarrow> node_store \<Rightarrow> (node_store \<times> node_store \<times> workflow_row \<times> bool) option" where
  "advance_workflow env r ob =
     (let g = wr_graph r
      in if wr_cancel_flag r then
           (let (cancel_finished, ob1) = cancel_node_jobs (cancel_in_transaction env) g ob
            in if cancel_finished then
                 Some (ob1, mark_rows g ob, r\<lparr>wr_status := Canceled, wr_start_args := None\<rparr>, True)
               else Some (ob1, mark_rows g ob, r, False))
         else
           (case mark_dnr_nodes (we_frames env) g ob of
              None \<Rightarrow> None
            | Some (ob1, marked) \<Rightarrow>
                if is_workflow_done g ob1 then
                  (case has_workflow_failed g ob1 of
                     None \<Rightarrow> Some (ob1, ob1, r\<lparr>wr_status := Successful, wr_start_args := None\<rparr>, True)
                   | Some reason \<Rightarrow>
                       Some (ob1, ob1, r\<lparr>wr_status := Failed, wr_start_args := None,
                               wr_explanation := no_error_path_text\<rparr>, True))
                else Some (ob1, ob1, r, False)))"

text \<open>\<open>save(update_fields=...)\<close> writes the named fields of the loaded workflow job only.\<close>

definition save_workflow :: "pk \<Rightarrow> workflow_row \<Rightarrow> bool \<Rightarrow> node_store \<Rightarrow> workflow_world \<Rightarrow> workflow_world" where
  "save_workflow wid r1 status_changed db w =
     (case map_of (ww_workflows w) wid of
        None \<Rightarrow> w
      | Some cur \<Rightarrow>
          w\<lparr>ww_workflows := AList.update wid
             ((if status_changed then
                 cur\<lparr>wr_status := wr_status r1, wr_start_args := wr_start_args r1,
                     wr_explanation := (if wr_status r1 = Failed then wr_explanation r1 else wr_explanation cur)\<rparr>
               else cur)\<lparr>wr_nodes := db\<rparr>) (ww_workflows w)\<rparr>)"

definition announce :: "pk \<Rightarrow> workflow_row \<Rightarrow> workflow_world \<Rightarrow> workflow_world" where
  "announce wid r1 w =
     w\<lparr>ww_requests := (if wr_by_workflow r1 then ww_requests w @ [RunWorkflowManager] else ww_requests w),
       ww_notices := ww_notices w @ [(wid, wr_status r1 = Successful)]\<rparr>"

text \<open>What the first half leaves in the rows, with the requests and notifications of an ended workflow.\<close>

definition record_progress ::
  "workflow_env \<Rightarrow> pk \<Rightarrow> workflow_row \<Rightarrow> node_store \<Rightarrow> node_store \<Rightarrow> workflow_row \<Rightarrow> bool \<Rightarrow>
     workflow_world \<Rightarrow> workflow_world" where
  "record_progress env wid r ob0 db r1 status_changed w =
     (let w1 = (if wr_cancel_flag r then fold (cancel_row env) (cancellable (wr_graph r) ob0) w else w);
          w2 = save_workflow wid r1 status_changed db w1
      in if status_changed then announce wid r1 w2 else w2)"

text \<open>The loop body: the workflow job after it, and the world.\<close>

definition process_workflow ::
  "workflow_env \<Rightarrow> pk \<Rightarrow> workflow_row \<Rightarrow> workflow_world \<Rightarrow> (workflow_row \<times> workflow_world) option" where
  "process_workflow env wid r w =
     (let ob0 = load_nodes w wid (wr_nodes r)
      in case advance_workflow env r ob0 of
        None \<Rightarrow> None
      | Some (ob, db, r1, status_changed) \<Rightarrow>
          (let w1 = record_progress env wid r ob0 db r1 status_changed w
           in if wr_status r1 = Running then
                (case bfs_nodes_to_run (wr_graph r1) ob of
                   None \<Rightarrow> None
                 | Some spawn_nodes \<Rightarrow>
                     (let (ob2, db2, w2) = fold (spawn_node env wid (wr_start_args r1)) spawn_nodes (ob, db, w1)
                      in Some (r1, save_workflow wid r1 False db2 w2)))
              else Some (r1, w1)))"

section \<open>The run\<close>

text \<open>
  \<open>expired wid\<close> is what \<open>timed_out\<close> answers when the loop reaches the workflow. The rows were loaded
  before the loop. An exception, or a sort out of stack, is \<open>None\<close>. The ids of the workflows that
  ended are the first result.
\<close>

fun spawn_loop ::
  "workflow_env \<Rightarrow> (pk \<Rightarrow> bool) \<Rightarrow> (pk \<times> workflow_row) list \<Rightarrow> pk list \<Rightarrow> workflow_world \<Rightarrow>
     (pk list \<times> workflow_world) option" where
  "spawn_loop env expired [] result w = Some (result, w)"
| "spawn_loop env expired ((wid, r) # rs) result w =
     (if expired wid then Some (result, w\<lparr>ww_requests := ww_requests w @ [RunWorkflowManager]\<rparr>)
      else case process_workflow env wid r w of
        None \<Rightarrow> None
      | Some (r1, w1) \<Rightarrow>
          spawn_loop env expired rs
            (if \<not> wr_cancel_flag r \<and> wr_status r1 \<in> {Successful, Failed} then result @ [wid] else result) w1)"

definition running_workflows :: "workflow_world \<Rightarrow> (pk \<times> workflow_row) list" where
  "running_workflows w =
     filter (\<lambda>(i, r). wr_status r = Running \<and> wr_dependencies_processed r) (ww_workflows w)"

definition spawn_workflow_graph_jobs ::
  "workflow_env \<Rightarrow> (pk \<Rightarrow> bool) \<Rightarrow> workflow_world \<Rightarrow> (pk list \<times> workflow_world) option" where
  "spawn_workflow_graph_jobs env expired w = spawn_loop env expired (running_workflows w) [] w"

section \<open>Nesting\<close>

text \<open>The templates of a workflow job and of the workflows around it, innermost first.\<close>

definition chain_of :: "(pk \<times> workflow_row) list \<Rightarrow> pk \<Rightarrow> pk list" where
  "chain_of rows i =
     (case map_of rows i of
        None \<Rightarrow> []
      | Some r \<Rightarrow> (case row_template r of None \<Rightarrow> [] | Some t \<Rightarrow> t # get_ancestor_workflows rows i))"

definition parents_ok :: "(pk \<times> workflow_row) list \<Rightarrow> bool" where
  "parents_ok rows \<longleftrightarrow>
     (\<forall>i r p. map_of rows i = Some r \<longrightarrow> wr_parent r = Some p \<longrightarrow> p < i \<and> map_of rows p \<noteq> None)"

lemma parents_okD: "parents_ok rows \<Longrightarrow> map_of rows i = Some r \<Longrightarrow> get_workflow_job r = Some p \<Longrightarrow>
    p < i \<and> map_of rows p \<noteq> None"
  by (auto simp: parents_ok_def get_workflow_job_def split: if_splits)

lemma ancestor_loop_chain:
  assumes "parents_ok rows"
  shows "\<forall>x \<in> seen. p < x \<Longrightarrow> ancestor_loop rows seen (Some p) = chain_of rows p"
proof (induction p arbitrary: seen rule: less_induct)
  case (less p)
  show ?case
  proof (cases "map_of rows p")
    case (Some r)
    have "ancestor_loop rows s (get_workflow_job r) =
        (case get_workflow_job r of None \<Rightarrow> [] | Some q \<Rightarrow> chain_of rows q)" if "\<forall>x \<in> s. p \<le> x" for s
    proof (cases "get_workflow_job r")
      case q: (Some q)
      with parents_okD [OF assms Some] have "q < p" by blast
      then have "\<forall>x \<in> s. q < x" using that by fastforce
      from less.IH [OF \<open>q < p\<close> this] q show ?thesis by simp
    qed (simp add: ancestor_loop.simps)
    moreover have "\<forall>x \<in> insert p seen. p \<le> x" using less.prems by (auto intro: less_imp_le)
    moreover have "p \<notin> seen" using less.prems by blast
    ultimately show ?thesis using Some
      by (simp add: ancestor_loop.simps [of rows seen] chain_of_def get_ancestor_workflows_def split: option.split)
  qed (simp add: ancestor_loop.simps chain_of_def)
qed

lemma chain_of_step:
  assumes "parents_ok rows" "map_of rows i = Some r"
  shows "get_ancestor_workflows rows i =
      (case get_workflow_job r of None \<Rightarrow> [] | Some p \<Rightarrow> chain_of rows p)"
proof (cases "get_workflow_job r")
  case (Some p)
  with parents_okD [OF assms Some] ancestor_loop_chain [OF assms(1), of "{i}" p] assms(2)
  show ?thesis by (simp add: get_ancestor_workflows_def)
qed (use assms in \<open>simp add: get_ancestor_workflows_def ancestor_loop.simps\<close>)

text \<open>Rows that keep their template and their parent keep their chains.\<close>

definition same_shape :: "(pk \<times> workflow_row) list \<Rightarrow> (pk \<times> workflow_row) list \<Rightarrow> bool" where
  "same_shape rows rows' \<longleftrightarrow>
     (\<forall>i r. map_of rows i = Some r \<longrightarrow>
        (\<exists>r'. map_of rows' i = Some r' \<and> wr_template r' = wr_template r \<and> wr_parent r' = wr_parent r \<and>
           wr_by_workflow r' = wr_by_workflow r))"

lemma same_shape_refl [intro, simp]: "same_shape rows rows"
  by (simp add: same_shape_def)

lemma same_shape_trans: "same_shape a b \<Longrightarrow> same_shape b c \<Longrightarrow> same_shape a c"
  unfolding same_shape_def by metis

lemma chain_of_same_shape:
  assumes "parents_ok rows" "parents_ok rows'" "same_shape rows rows'"
  shows "map_of rows i \<noteq> None \<Longrightarrow> chain_of rows' i = chain_of rows i"
proof (induction i rule: less_induct)
  case (less i)
  then obtain r where r: "map_of rows i = Some r" by blast
  with assms(3) obtain r' where r': "map_of rows' i = Some r'" "wr_template r' = wr_template r"
    "wr_parent r' = wr_parent r" "wr_by_workflow r' = wr_by_workflow r" unfolding same_shape_def by blast
  then have g: "get_workflow_job r' = get_workflow_job r" "row_template r' = row_template r"
    by (simp_all add: get_workflow_job_def row_template_def)
  have "(case get_workflow_job r of None \<Rightarrow> [] | Some p \<Rightarrow> chain_of rows' p) =
      (case get_workflow_job r of None \<Rightarrow> [] | Some p \<Rightarrow> chain_of rows p)"
    using parents_okD [OF assms(1) r] less.IH by (cases "get_workflow_job r") auto
  then show ?case
    using g by (simp add: chain_of_def r r'(1) chain_of_step [OF assms(1) r] chain_of_step [OF assms(2) r'(1)]
        split: option.split)
qed

text \<open>The invariant of the rows: no job that may still run repeats a template in its chain.\<close>

definition nesting_ok :: "workflow_world \<Rightarrow> bool" where
  "nesting_ok w \<longleftrightarrow> parents_ok (ww_workflows w) \<and>
     (\<forall>i r. map_of (ww_workflows w) i = Some r \<longrightarrow> i < ww_next w \<and>
        (wr_status r \<in> {Pending, Waiting, Running} \<longrightarrow> distinct (chain_of (ww_workflows w) i)))"

text \<open>An update that keeps shapes and starts nothing keeps the invariant.\<close>

lemma nesting_ok_update:
  assumes "nesting_ok w" "map_of (ww_workflows w) i = Some r"
    and "wr_template r' = wr_template r" "wr_parent r' = wr_parent r" "wr_by_workflow r' = wr_by_workflow r"
    and "wr_status r' \<in> {Pending, Waiting, Running} \<Longrightarrow> distinct (chain_of (ww_workflows w) i)"
    and "ww_workflows w' = AList.update i r' (ww_workflows w)" "ww_next w' = ww_next w"
  shows "nesting_ok w' \<and> same_shape (ww_workflows w) (ww_workflows w')"
proof -
  have p: "parents_ok (ww_workflows w')"
    using assms(1,2,4,7) by (auto simp: nesting_ok_def parents_ok_def split: if_splits)
  have s: "same_shape (ww_workflows w) (ww_workflows w')"
    using assms(2-5,7) by (auto simp: same_shape_def)
  have "chain_of (ww_workflows w') k = chain_of (ww_workflows w) k" if "map_of (ww_workflows w) k \<noteq> None" for k
    using chain_of_same_shape [OF _ p s that] assms(1) by (simp add: nesting_ok_def)
  with p s assms show ?thesis by (auto simp: nesting_ok_def split: if_splits)
qed

lemma cancel_row_nesting:
  assumes "nesting_ok w"
  shows "nesting_ok (cancel_row env j w) \<and> same_shape (ww_workflows w) (ww_workflows (cancel_row env j w))"
proof (cases "map_of (ww_workflows w) (sj_id j)")
  case (Some r)
  show ?thesis
    by (rule nesting_ok_update [OF assms Some, where r' =
          "r\<lparr>wr_cancel_flag := True, wr_start_args := (if wr_cancel_flag r then wr_start_args r else None),
             wr_status := (if we_has_task env (sj_id j) then wr_status r else Canceled)\<rparr>"])
      (use Some assms in \<open>auto simp: cancel_row_def nesting_ok_def split: if_splits\<close>)
qed (use assms in \<open>auto simp: cancel_row_def nesting_ok_def split: option.split\<close>)

lemma cancel_rows_nesting:
  "nesting_ok w \<Longrightarrow> nesting_ok (fold (cancel_row env) js w) \<and>
     same_shape (ww_workflows w) (ww_workflows (fold (cancel_row env) js w))"
proof (induction js arbitrary: w)
  case (Cons j js)
  with cancel_row_nesting [OF Cons.prems, of env j] show ?case using same_shape_trans by fastforce
qed simp

lemma save_workflow_nesting:
  assumes "nesting_ok w" "status_changed \<Longrightarrow> wr_status r1 \<in> {Successful, Failed, Canceled}"
  shows "nesting_ok (save_workflow wid r1 status_changed db w) \<and>
    same_shape (ww_workflows w) (ww_workflows (save_workflow wid r1 status_changed db w))"
proof (cases "map_of (ww_workflows w) wid")
  case (Some cur)
  show ?thesis
    by (rule nesting_ok_update [OF assms(1) Some, where r' =
          "(if status_changed then
                 cur\<lparr>wr_status := wr_status r1, wr_start_args := wr_start_args r1,
                     wr_explanation := (if wr_status r1 = Failed then wr_explanation r1 else wr_explanation cur)\<rparr>
               else cur)\<lparr>wr_nodes := db\<rparr>"])
      (use Some assms in \<open>auto simp: save_workflow_def nesting_ok_def split: if_splits\<close>)
qed (use assms in \<open>simp add: save_workflow_def\<close>)

lemma nesting_ok_frame:
  "ww_workflows w' = ww_workflows w \<Longrightarrow> ww_next w \<le> ww_next w' \<Longrightarrow> nesting_ok w \<Longrightarrow> nesting_ok w'"
  by (fastforce simp: nesting_ok_def)

text \<open>A spawned workflow job that does not repeat a template of its ancestors.\<close>

lemma create_spawned_nesting:
  assumes ok: "nesting_ok w" and wid: "map_of (ww_workflows w) wid \<noteq> None" and u: "ujt_is_workflow u"
    and w1_def: "w1 = create_spawned env wid u w"
  shows "nesting_ok w1 \<and> same_shape (ww_workflows w) (ww_workflows w1) \<and>
    get_ancestor_workflows (ww_workflows w1) (ww_next w) = chain_of (ww_workflows w1) wid \<and>
    map_of (ww_workflows w1) (ww_next w) \<noteq> None \<and> ww_next w1 = Suc (ww_next w)"
proof -
  let ?i = "ww_next w"
  define r where "r = (\<lparr>wr_template = Some (ujt_id u), wr_parent = Some wid, wr_by_workflow = True,
         wr_status = New, wr_cancel_flag = False, wr_start_args = None, wr_explanation = [],
         wr_dependencies_processed = True, wr_graph = fst (we_copy env (ujt_id u)),
         wr_nodes = snd (we_copy env (ujt_id u))\<rparr> :: workflow_row)"
  have rows: "ww_workflows w1 = AList.update ?i r (ww_workflows w)"
    and r: "wr_parent r = Some wid" "wr_by_workflow r" "wr_status r = New"
    using u by (simp_all add: w1_def create_spawned_def Let_def r_def)
  have fresh: "map_of (ww_workflows w) ?i = None" and lt: "wid < ?i"
    using ok wid by (auto simp: nesting_ok_def) (metis less_irrefl option.exhaust)
  have next1: "ww_next w1 = Suc ?i" using u by (simp add: w1_def create_spawned_def Let_def)
  have p: "parents_ok (ww_workflows w1)"
    using ok r lt wid fresh unfolding rows by (auto simp: nesting_ok_def parents_ok_def split: if_splits)
  have s: "same_shape (ww_workflows w) (ww_workflows w1)"
    using fresh unfolding rows by (auto simp: same_shape_def)
  have "chain_of (ww_workflows w1) k = chain_of (ww_workflows w) k" if "map_of (ww_workflows w) k \<noteq> None" for k
    using chain_of_same_shape [OF _ p s that] ok by (simp add: nesting_ok_def)
  then have "nesting_ok w1"
    using ok p r next1 by (auto simp: nesting_ok_def rows less_Suc_eq split: if_splits)
  moreover have "get_ancestor_workflows (ww_workflows w1) ?i = chain_of (ww_workflows w1) wid"
    using chain_of_step [OF p, of ?i r] r by (simp add: rows get_workflow_job_def)
  ultimately show ?thesis using s next1 by (simp add: rows)
qed

lemma set_spawned_nesting:
  assumes "nesting_ok w" "ujt_is_workflow u"
    and "s \<in> {Pending, Waiting, Running} \<Longrightarrow> distinct (chain_of (ww_workflows w) i)"
  shows "nesting_ok (set_spawned u i s e w) \<and> same_shape (ww_workflows w) (ww_workflows (set_spawned u i s e w))"
proof (cases "map_of (ww_workflows w) i")
  case (Some r)
  show ?thesis
    by (rule nesting_ok_update [OF assms(1) Some, where r' = "r\<lparr>wr_status := s, wr_explanation := e\<rparr>"])
      (use assms Some in \<open>auto simp: set_spawned_def\<close>)
qed (use assms in \<open>simp add: set_spawned_def\<close>)

lemma spawn_node_nesting:
  assumes ok: "nesting_ok w" and wid: "map_of (ww_workflows w) wid \<noteq> None"
    and d: "distinct (chain_of (ww_workflows w) wid)"
    and r: "spawn_node env wid args n (ob, db, w) = (ob', db', w')"
  shows "nesting_ok w' \<and> same_shape (ww_workflows w) (ww_workflows w')"
proof (cases "unified_job_template (ob n)")
  case None
  with ok r show ?thesis by (simp add: spawn_node_def)
next
  case (Some u)
  let ?i = "ww_next w" and ?w1 = "create_spawned env wid u w"
  let ?anc = "if ujt_is_workflow u then get_ancestor_workflows (ww_workflows ?w1) ?i else []"
  let ?ref = "spawn_refusal env args u ?anc"
  let ?s = "case ?ref of None \<Rightarrow> Pending | Some _ \<Rightarrow> Failed"
  let ?e = "case ?ref of None \<Rightarrow> [] | Some e \<Rightarrow> e"
  have w': "ww_workflows w' = ww_workflows (set_spawned u ?i ?s ?e ?w1)"
    "ww_next w' = ww_next (set_spawned u ?i ?s ?e ?w1)"
    using r Some by (cases ?ref; auto simp: spawn_node_def Let_def split: option.splits)+
  show ?thesis
  proof (cases "ujt_is_workflow u")
    case False
    then have "ww_workflows w' = ww_workflows w" "ww_next w \<le> ww_next w'"
      using w' by (simp_all add: set_spawned_def create_spawned_def Let_def)
    with nesting_ok_frame [OF _ _ ok, of w'] show ?thesis by auto
  next
    case u: True
    note c = create_spawned_nesting [OF ok wid u refl, of env]
    have "chain_of (ww_workflows ?w1) wid = chain_of (ww_workflows w) wid"
      using chain_of_same_shape [of "ww_workflows w" "ww_workflows ?w1" wid] c ok wid by (simp add: nesting_ok_def)
    then have anc: "distinct ?anc" using c d u by simp
    have "distinct (chain_of (ww_workflows ?w1) ?i)" if "?ref = None"
    proof -
      from that u have "ujt_id u \<notin> set ?anc" by (auto simp: spawn_refusal_def split: if_splits)
      moreover have "chain_of (ww_workflows ?w1) ?i = [] \<or> chain_of (ww_workflows ?w1) ?i = ujt_id u # ?anc"
        using u by (auto simp: chain_of_def create_spawned_def Let_def row_template_def split: nat.split option.split)
      ultimately show ?thesis using anc by auto
    qed
    then have "nesting_ok (set_spawned u ?i ?s ?e ?w1) \<and>
        same_shape (ww_workflows ?w1) (ww_workflows (set_spawned u ?i ?s ?e ?w1))"
      using set_spawned_nesting [of ?w1 u ?s ?i ?e] c u by (auto split: option.splits)
    moreover have "nesting_ok w'" if "nesting_ok (set_spawned u ?i ?s ?e ?w1)"
      using nesting_ok_frame [OF _ _ that, of w'] w' by simp
    ultimately show ?thesis using c w' same_shape_trans by auto
  qed
qed

lemma spawn_nodes_nesting:
  assumes "nesting_ok w" "map_of (ww_workflows w) wid \<noteq> None" "distinct (chain_of (ww_workflows w) wid)"
  shows "nesting_ok (snd (snd (fold (spawn_node env wid args) ns (ob, db, w)))) \<and>
    same_shape (ww_workflows w) (ww_workflows (snd (snd (fold (spawn_node env wid args) ns (ob, db, w)))))"
  using assms
proof (induction ns arbitrary: ob db w)
  case (Cons n ns)
  obtain ob' db' w' where q: "spawn_node env wid args n (ob, db, w) = (ob', db', w')" by (metis prod_cases3)
  note s = spawn_node_nesting [OF Cons.prems q]
  have "map_of (ww_workflows w') wid \<noteq> None" using s Cons.prems(2) unfolding same_shape_def by blast
  moreover have "chain_of (ww_workflows w') wid = chain_of (ww_workflows w) wid"
    using chain_of_same_shape [of "ww_workflows w" "ww_workflows w'" wid] s Cons.prems by (simp add: nesting_ok_def)
  ultimately have "nesting_ok (snd (snd (fold (spawn_node env wid args) ns (ob', db', w')))) \<and>
      same_shape (ww_workflows w') (ww_workflows (snd (snd (fold (spawn_node env wid args) ns (ob', db', w')))))"
    using Cons.IH [of w' ob' db'] s Cons.prems by simp
  with s q show ?case using same_shape_trans by auto
qed simp

text \<open>The loop body is the recorded progress, followed by the spawning of a running workflow.\<close>

lemma process_workflow_cases:
  assumes "process_workflow env wid r w = Some (r1, w')"
  obtains ob db ch where
    "advance_workflow env r (load_nodes w wid (wr_nodes r)) = Some (ob, db, r1, ch)"
    "wr_status r1 \<noteq> Running" "w' = record_progress env wid r (load_nodes w wid (wr_nodes r)) db r1 ch w"
  | ob db ch ns ob2 db2 w2 where
    "advance_workflow env r (load_nodes w wid (wr_nodes r)) = Some (ob, db, r1, ch)"
    "wr_status r1 = Running" "bfs_nodes_to_run (wr_graph r1) ob = Some ns"
    "fold (spawn_node env wid (wr_start_args r1)) ns
      (ob, db, record_progress env wid r (load_nodes w wid (wr_nodes r)) db r1 ch w) = (ob2, db2, w2)"
    "w' = save_workflow wid r1 False db2 w2"
  using assms by (auto simp: process_workflow_def Let_def split: option.splits if_splits prod.splits)

lemma advance_workflow_status:
  "advance_workflow env r ob0 = Some (ob, db, r1, ch) \<Longrightarrow> ch \<Longrightarrow> wr_status r1 \<in> {Successful, Failed, Canceled}"
  by (auto simp: advance_workflow_def Let_def split: if_splits option.splits prod.splits)

lemma record_progress_nesting:
  assumes "nesting_ok w" "ch \<Longrightarrow> wr_status r1 \<in> {Successful, Failed, Canceled}"
  shows "nesting_ok (record_progress env wid r ob0 db r1 ch w) \<and>
    same_shape (ww_workflows w) (ww_workflows (record_progress env wid r ob0 db r1 ch w))"
proof -
  define w1 where "w1 = (if wr_cancel_flag r then fold (cancel_row env) (cancellable (wr_graph r) ob0) w else w)"
  have 1: "nesting_ok w1 \<and> same_shape (ww_workflows w) (ww_workflows w1)"
    using cancel_rows_nesting [OF assms(1)] assms(1) by (simp add: w1_def)
  have 2: "nesting_ok (save_workflow wid r1 ch db w1) \<and>
      same_shape (ww_workflows w1) (ww_workflows (save_workflow wid r1 ch db w1))"
    using save_workflow_nesting [of w1 ch r1 wid db] 1 assms(2) by blast
  have "ww_workflows (record_progress env wid r ob0 db r1 ch w) = ww_workflows (save_workflow wid r1 ch db w1)"
    "ww_next (record_progress env wid r ob0 db r1 ch w) = ww_next (save_workflow wid r1 ch db w1)"
    by (simp_all add: record_progress_def announce_def w1_def Let_def)
  with 1 2 nesting_ok_frame [of "record_progress env wid r ob0 db r1 ch w"] same_shape_trans show ?thesis by auto
qed

lemma process_workflow_nesting:
  assumes ok: "nesting_ok w" and wid: "map_of (ww_workflows w) wid \<noteq> None"
    and d: "distinct (chain_of (ww_workflows w) wid)"
    and p: "process_workflow env wid r w = Some (r1, w')"
  shows "nesting_ok w' \<and> same_shape (ww_workflows w) (ww_workflows w')"
  using p
proof (cases rule: process_workflow_cases)
  case (1 ob db ch)
  from record_progress_nesting [OF ok advance_workflow_status [OF 1(1)]] 1(3) show ?thesis by blast
next
  case (2 ob db ch ns ob2 db2 w2)
  define w1 where "w1 = record_progress env wid r (load_nodes w wid (wr_nodes r)) db r1 ch w"
  have s: "nesting_ok w1" "same_shape (ww_workflows w) (ww_workflows w1)"
    using record_progress_nesting [OF ok advance_workflow_status [OF 2(1)]] by (simp_all add: w1_def)
  have w1: "map_of (ww_workflows w1) wid \<noteq> None" using s(2) wid unfolding same_shape_def by blast
  have d1: "distinct (chain_of (ww_workflows w1) wid)"
    using chain_of_same_shape [OF _ _ s(2) wid] s(1) ok d by (simp add: nesting_ok_def)
  have "nesting_ok w2 \<and> same_shape (ww_workflows w1) (ww_workflows w2)"
    using spawn_nodes_nesting [OF s(1) w1 d1, of env "wr_start_args r1" ns ob db] 2(4) by (simp add: w1_def)
  with save_workflow_nesting [of w2 False r1 wid db2] s(2) 2(5) show ?thesis
    using same_shape_trans by blast
qed

text \<open>Primary keys stay unique.\<close>

definition keys_ok :: "workflow_world \<Rightarrow> bool" where
  "keys_ok w \<longleftrightarrow> distinct (map fst (ww_workflows w))"

lemma keys_ok_simps:
  "keys_ok w \<Longrightarrow> keys_ok (cancel_row env j w)"
  "keys_ok w \<Longrightarrow> keys_ok (save_workflow wid r1 ch db w)"
  "keys_ok (announce wid r1 w) = keys_ok w"
  "keys_ok w \<Longrightarrow> keys_ok (create_spawned env wid u w)"
  "keys_ok w \<Longrightarrow> keys_ok (set_spawned u i s e w)"
  by (simp_all add: keys_ok_def cancel_row_def save_workflow_def announce_def create_spawned_def set_spawned_def
      Let_def distinct_update split: option.split)

lemma keys_ok_cancel_rows: "keys_ok w \<Longrightarrow> keys_ok (fold (cancel_row env) js w)"
  by (induction js arbitrary: w) (simp_all add: keys_ok_simps)

lemma keys_ok_spawn_node:
  assumes "spawn_node env wid args n (ob, db, w) = (ob', db', w')" "keys_ok w"
  shows "keys_ok w'"
proof (cases "unified_job_template (ob n)")
  case (Some u)
  then have "\<exists>s e. ww_workflows w' = ww_workflows (set_spawned u (ww_next w) s e (create_spawned env wid u w))"
    using assms(1) by (auto simp: spawn_node_def Let_def split: option.splits) blast+
  moreover have "keys_ok (set_spawned u (ww_next w) s e (create_spawned env wid u w))" for s e
    using assms(2) by (simp add: keys_ok_simps)
  ultimately show ?thesis by (auto simp: keys_ok_def)
qed (use assms in \<open>simp add: spawn_node_def\<close>)

lemma keys_ok_spawn_nodes:
  "keys_ok w \<Longrightarrow> keys_ok (snd (snd (fold (spawn_node env wid args) ns (ob, db, w))))"
proof (induction ns arbitrary: ob db w)
  case (Cons n ns)
  obtain ob' db' w' where q: "spawn_node env wid args n (ob, db, w) = (ob', db', w')" by (metis prod_cases3)
  with Cons keys_ok_spawn_node [OF q] show ?case by simp
qed simp

lemma process_workflow_keys:
  assumes "process_workflow env wid r w = Some (r1, w')" "keys_ok w"
  shows "keys_ok w'"
proof -
  have k: "keys_ok (record_progress env wid r ob0 db r1 ch w)" for ob0 db ch
    using assms(2) by (simp add: record_progress_def Let_def keys_ok_simps keys_ok_cancel_rows)
  from assms(1) show ?thesis
  proof (cases rule: process_workflow_cases)
    case (2 ob db ch ns ob2 db2 w2)
    with keys_ok_spawn_nodes [OF k, of env wid "wr_start_args r1" ns ob db]
    show ?thesis by (metis keys_ok_simps(2) snd_conv)
  qed (simp add: k)
qed

definition nested_rows :: "workflow_world \<Rightarrow> bool" where
  "nested_rows w \<longleftrightarrow> keys_ok w \<and> nesting_ok w"

text \<open>One workflow after the other.\<close>

lemma spawn_loop_nesting:
  "spawn_loop env expired rs res w = Some (ended, w') \<Longrightarrow> nested_rows w \<Longrightarrow>
     \<forall>i \<in> fst ` set rs. map_of (ww_workflows w) i \<noteq> None \<and> distinct (chain_of (ww_workflows w) i) \<Longrightarrow>
     nested_rows w'"
proof (induction rs arbitrary: res w)
  case (Cons x rs)
  obtain i r where x: "x = (i, r)" by fastforce
  show ?case
  proof (cases "expired i")
    case True
    with Cons.prems x show ?thesis by (auto simp: nested_rows_def keys_ok_def nesting_ok_def)
  next
    case False
    with Cons.prems(1) x obtain r1 w1 where p: "process_workflow env i r w = Some (r1, w1)"
      and l: "spawn_loop env expired rs
        (if \<not> wr_cancel_flag r \<and> wr_status r1 \<in> {Successful, Failed} then res @ [i] else res) w1 = Some (ended, w')"
      by (auto split: option.splits)
    have w: "keys_ok w" "nesting_ok w" using Cons.prems(2) by (simp_all add: nested_rows_def)
    have i: "map_of (ww_workflows w) i \<noteq> None" "distinct (chain_of (ww_workflows w) i)"
      using Cons.prems(3) x by auto
    from process_workflow_nesting [OF w(2) i p] process_workflow_keys [OF p w(1)]
    have s: "nested_rows w1" "nesting_ok w1" "same_shape (ww_workflows w) (ww_workflows w1)"
      by (simp_all add: nested_rows_def)
    have "map_of (ww_workflows w1) k \<noteq> None \<and> distinct (chain_of (ww_workflows w1) k)" if "k \<in> fst ` set rs" for k
    proof -
      have k: "map_of (ww_workflows w) k \<noteq> None" "distinct (chain_of (ww_workflows w) k)"
        using Cons.prems(3) that by auto
      moreover have "chain_of (ww_workflows w1) k = chain_of (ww_workflows w) k"
        using chain_of_same_shape [OF _ _ s(3) k(1)] s(2) w(2) by (simp add: nesting_ok_def)
      ultimately show ?thesis using s(3) unfolding same_shape_def by (metis option.exhaust option.distinct(1))
    qed
    with Cons.IH [OF l s(1)] show ?thesis by blast
  qed
qed simp

text \<open>
  Workflows nested in workflows cannot recurse. A run of the workflow manager keeps the rows in
  order: keys are unique, the workflow around a workflow job is an older row, and a workflow job that
  is pending, waiting or running has no template twice among itself and the workflows around it; a
  job that would repeat one is created as failed. So the depth of nesting is at most the number of
  templates.
\<close>

theorem nesting_preserved:
  assumes "nested_rows w" "spawn_workflow_graph_jobs env expired w = Some (ended, w')"
  shows "nested_rows w'"
proof -
  have "map_of (ww_workflows w) i \<noteq> None \<and> distinct (chain_of (ww_workflows w) i)"
    if "i \<in> fst ` set (running_workflows w)" for i
  proof -
    from that obtain r where "(i, r) \<in> set (ww_workflows w)" "wr_status r = Running"
      by (auto simp: running_workflows_def)
    moreover from this assms(1) have "map_of (ww_workflows w) i = Some r"
      by (simp add: nested_rows_def keys_ok_def)
    ultimately show ?thesis using assms(1) unfolding nested_rows_def nesting_ok_def by blast
  qed
  with assms spawn_loop_nesting show ?thesis unfolding spawn_workflow_graph_jobs_def by blast
qed

end
