(* ===== verification/Workflow_Spawn.thy ===== *)
theory Workflow_Spawn
  imports Workflow_Manager
begin

text \<open>
  What one pass of the workflow manager over a workflow job does: which nodes get a job, how the
  workflow ends, and what happens to a workflow that is being canceled.
\<close>

section \<open>The nodes that get a job\<close>

definition spawned_as :: "pk \<Rightarrow> wf_node \<Rightarrow> wf_node \<Rightarrow> bool" where
  "spawned_as i obj obj' \<longleftrightarrow>
     (\<exists>s \<in> {Pending, Failed}. obj' = obj\<lparr>job := Some \<lparr>sj_id = i, sj_status = s\<rparr>\<rparr>)"

text \<open>The outcome of a spawned node in one piece, whether its job starts or not.\<close>

lemma spawn_node_Some:
  assumes "unified_job_template (ob n) = Some u" "spawn_node env wid args n (ob, db, w) = (ob', db', w')"
  obtains s e where "s = Pending \<or> s = Failed"
    "ob' = ob(n := (ob n)\<lparr>job := Some \<lparr>sj_id = ww_next w, sj_status = s\<rparr>\<rparr>)"
    "db' = db(n := (ob n)\<lparr>job := Some \<lparr>sj_id = ww_next w, sj_status = s\<rparr>\<rparr>)"
    "ww_workflows w' = ww_workflows (set_spawned u (ww_next w) s e (create_spawned env wid u w))"
    "ww_next w' = ww_next (set_spawned u (ww_next w) s e (create_spawned env wid u w))"
proof -
  define anc where "anc = (if ujt_is_workflow u
     then get_ancestor_workflows (ww_workflows (create_spawned env wid u w)) (ww_next w) else [])"
  show ?thesis
  proof (cases "spawn_refusal env args u anc")
    case None
    with assms show ?thesis
      by (intro that [of Pending "[]"]) (auto simp: spawn_node_def Let_def anc_def [symmetric])
  next
    case (Some e)
    with assms show ?thesis
      by (intro that [of Failed e]) (auto simp: spawn_node_def Let_def anc_def [symmetric])
  qed
qed

lemma spawn_node_effect:
  assumes "spawn_node env wid args n (ob, db, w) = (ob', db', w')" "unified_job_template (ob n) \<noteq> None"
  shows "spawned_as (ww_next w) (ob n) (ob' n)" "db' n = ob' n" "\<forall>m. m \<noteq> n \<longrightarrow> ob' m = ob m \<and> db' m = db m"
    "ww_next w' = Suc (ww_next w)"
    "\<forall>k. map_of (ww_workflows w) k \<noteq> None \<longrightarrow> map_of (ww_workflows w') k \<noteq> None"
proof -
  from assms(2) obtain u where u: "unified_job_template (ob n) = Some u" by blast
  define w1 where "w1 = create_spawned env wid u w"
  obtain s e where o: "s = Pending \<or> s = Failed"
    "ob' = ob(n := (ob n)\<lparr>job := Some \<lparr>sj_id = ww_next w, sj_status = s\<rparr>\<rparr>)"
    "db' = db(n := (ob n)\<lparr>job := Some \<lparr>sj_id = ww_next w, sj_status = s\<rparr>\<rparr>)"
    and w': "ww_workflows w' = ww_workflows (set_spawned u (ww_next w) s e w1)"
      "ww_next w' = ww_next (set_spawned u (ww_next w) s e w1)"
    using spawn_node_Some [OF u assms(1)] unfolding w1_def by blast
  from o show "spawned_as (ww_next w) (ob n) (ob' n)" "db' n = ob' n"
      "\<forall>m. m \<noteq> n \<longrightarrow> ob' m = ob m \<and> db' m = db m"
    by (auto simp: spawned_as_def)
  have "ww_next (set_spawned u i s e v) = ww_next v" for i s e v
    by (simp add: set_spawned_def split: option.split)
  then show "ww_next w' = Suc (ww_next w)" using w' by (simp add: w1_def create_spawned_def Let_def)
  have "map_of (ww_workflows w1) k \<noteq> None" if "map_of (ww_workflows w) k \<noteq> None" for k
    using that by (simp add: w1_def create_spawned_def Let_def)
  moreover have "map_of (ww_workflows (set_spawned u i s e v)) k \<noteq> None"
    if "map_of (ww_workflows v) k \<noteq> None" for i s e v k
    using that by (simp add: set_spawned_def split: option.split)
  ultimately show "\<forall>k. map_of (ww_workflows w) k \<noteq> None \<longrightarrow> map_of (ww_workflows w') k \<noteq> None"
    unfolding w' by blast
qed

lemma spawn_nodes_effect:
  assumes "fold (spawn_node env wid args) ns (ob, db, w) = (ob2, db2, w2)" "distinct ns"
    and "\<forall>n \<in> set ns. unified_job_template (ob n) \<noteq> None"
  shows "(\<forall>n \<in> set ns. \<exists>i \<ge> ww_next w. spawned_as i (ob n) (db2 n)) \<and>
    (\<forall>n. n \<notin> set ns \<longrightarrow> db2 n = db n) \<and>
    (\<forall>k. map_of (ww_workflows w) k \<noteq> None \<longrightarrow> map_of (ww_workflows w2) k \<noteq> None)"
  using assms
proof (induction ns arbitrary: ob db w)
  case (Cons n ns)
  obtain ob1 db1 w1 where q: "spawn_node env wid args n (ob, db, w) = (ob1, db1, w1)" by (metis prod_cases3)
  from Cons.prems(3) have "unified_job_template (ob n) \<noteq> None" by simp
  note e = spawn_node_effect [OF q this]
  have f: "fold (spawn_node env wid args) ns (ob1, db1, w1) = (ob2, db2, w2)" using Cons.prems(1) q by simp
  have t: "ob1 m = ob m" if "m \<in> set ns" for m using e(3) Cons.prems(2) that by auto
  have ih: "\<forall>m \<in> set ns. \<exists>i \<ge> ww_next w1. spawned_as i (ob1 m) (db2 m)" "\<forall>m. m \<notin> set ns \<longrightarrow> db2 m = db1 m"
    "\<forall>k. map_of (ww_workflows w1) k \<noteq> None \<longrightarrow> map_of (ww_workflows w2) k \<noteq> None"
    using Cons.IH [OF f] Cons.prems(2,3) t by auto
  have "\<exists>i \<ge> ww_next w. spawned_as i (ob m) (db2 m)" if "m \<in> set ns" for m
    using ih(1) t [OF that] that e(4) by (metis Suc_leD)
  moreover have "spawned_as (ww_next w) (ob n) (db2 n)" using ih(2) e(1,2) Cons.prems(2) by simp
  moreover have "db2 m = db m" if "m \<notin> set (n # ns)" for m using ih(2) e(3) that by simp
  ultimately show ?case using ih(3) e(5) by fastforce
qed simp

text \<open>The node rows of a workflow.\<close>

definition nodes_of :: "workflow_world \<Rightarrow> pk \<Rightarrow> node_store option" where
  "nodes_of w wid = map_option wr_nodes (map_of (ww_workflows w) wid)"

lemma nodes_of_save:
  "map_of (ww_workflows w) wid \<noteq> None \<Longrightarrow> nodes_of (save_workflow wid r1 ch db w) wid = Some db"
  by (auto simp: nodes_of_def save_workflow_def)

lemma record_progress_rows:
  assumes "map_of (ww_workflows w) wid \<noteq> None" "\<not> wr_cancel_flag r"
  shows "nodes_of (record_progress env wid r ob0 db r1 ch w) wid = Some db"
    "map_of (ww_workflows (record_progress env wid r ob0 db r1 ch w)) wid \<noteq> None"
    "ww_next (record_progress env wid r ob0 db r1 ch w) = ww_next w"
  using assms by (auto simp: record_progress_def nodes_of_def save_workflow_def announce_def Let_def)

definition run_exactly :: "pk \<Rightarrow> pk dag \<Rightarrow> node_store \<Rightarrow> node_store \<Rightarrow> bool" where
  "run_exactly next g ob db \<longleftrightarrow>
     (\<forall>n. if active_reach g ob n \<and> ready_to_run g ob n then \<exists>i \<ge> next. spawned_as i (ob n) (db n) else db n = ob n)"

text \<open>
  One pass over a running workflow that is not being canceled first marks the nodes that will
  never run. If everything is then done, the workflow ends, successful unless a node failed without
  an error path, and no node gets a job. Otherwise exactly the reached nodes that are ready get a
  job, a new one each, which is pending or, if it could not start, failed; all other nodes stay as
  they were marked and the workflow goes on running.
\<close>

theorem workflow_pass:
  assumes "dag_inv (wr_graph r)" "\<not> wr_cancel_flag r" "wr_status r = Running"
    and "map_of (ww_workflows w) wid \<noteq> None"
    and "process_workflow env wid r w = Some (r1, w')"
  shows "\<exists>ob ms. mark_dnr_nodes (we_frames env) (wr_graph r) (load_nodes w wid (wr_nodes r)) = Some (ob, ms) \<and>
    (if is_workflow_done (wr_graph r) ob then
       wr_status r1 = (if has_workflow_failed (wr_graph r) ob = None then Successful else Failed) \<and>
       nodes_of w' wid = Some ob
     else wr_status r1 = Running \<and>
       (\<exists>db. nodes_of w' wid = Some db \<and> run_exactly (ww_next w) (wr_graph r) ob db))"
proof -
  let ?g = "wr_graph r"
  have adv: "\<exists>ms. mark_dnr_nodes (we_frames env) ?g (load_nodes w wid (wr_nodes r)) = Some (ob, ms)"
    "db = ob" "wr_graph r1 = ?g" "\<not> is_workflow_done ?g ob \<Longrightarrow> r1 = r"
    "is_workflow_done ?g ob \<Longrightarrow> wr_status r1 = (if has_workflow_failed ?g ob = None then Successful else Failed)"
    if "advance_workflow env r (load_nodes w wid (wr_nodes r)) = Some (ob, db, r1, ch)" for ob db ch
    using that assms(2) by (auto simp: advance_workflow_def Let_def split: option.splits if_splits prod.splits)
  from assms(5) show ?thesis
  proof (cases rule: process_workflow_cases)
    case (1 ob db ch)
    note a = adv [OF 1(1)]
    have "is_workflow_done ?g ob" using a(4) 1(2) assms(3) by blast
    with a 1(3) record_progress_rows(1) [OF assms(4,2)] show ?thesis by auto
  next
    case (2 ob db ch ns ob2 db2 w2)
    note a = adv [OF 2(1)]
    have nd: "\<not> is_workflow_done ?g ob" using a(5) 2(2) by (auto split: if_splits)
    obtain ns' where ns: "bfs_nodes_to_run ?g ob = Some ns'" "distinct ns'"
      "\<And>n. n \<in> set ns' \<longleftrightarrow> active_reach ?g ob n \<and> ready_to_run ?g ob n"
      by (rule bfs_nodes_to_run_correct [OF assms(1), of ob]) blast
    with 2(3) a(3) have eq: "ns = ns'" by simp
    have t: "\<forall>n \<in> set ns. unified_job_template (ob n) \<noteq> None" using ns(3) eq by (simp add: ready_to_run_def)
    note rows = record_progress_rows [OF assms(4,2)]
    have s: "(\<forall>n \<in> set ns. \<exists>i \<ge> ww_next w. spawned_as i (ob n) (db2 n)) \<and> (\<forall>n. n \<notin> set ns \<longrightarrow> db2 n = ob n)"
      "map_of (ww_workflows w2) wid \<noteq> None"
      using spawn_nodes_effect [OF 2(4) ns(2) [folded eq] t] rows(2,3) a(2) by auto
    have "run_exactly (ww_next w) ?g ob db2" using s(1) ns(3) eq by (simp add: run_exactly_def)
    with a nd nodes_of_save [OF s(2)] 2(5) assms(3) show ?thesis by auto
  qed
qed

section \<open>A canceled workflow\<close>

text \<open>Node 2 follows node 1 always; the job of node 1 is pending and has no dispatcher task.\<close>

definition always_chain :: "pk dag" where
  "always_chain = \<lparr>nodes = [1, 2], root_nodes = [0],
     node_obj_to_node_index = [1 \<mapsto> 0, 2 \<mapsto> 1],
     node_from_edges_by_label = [(always_nodes, [0 \<mapsto> [1]])],
     node_to_edges_by_label = [(always_nodes, [1 \<mapsto> [0]])]\<rparr>"

definition canceled_row :: workflow_row where
  "canceled_row = \<lparr>wr_template = Some 3, wr_parent = None, wr_by_workflow = False, wr_status = Running,
     wr_cancel_flag = True, wr_start_args = None, wr_explanation = [], wr_dependencies_processed = True,
     wr_graph = always_chain, wr_nodes = (\<lambda>_. idle_node)(1 := ran Pending)\<rparr>"

definition plain_env :: workflow_env where
  "plain_env = \<lparr>we_copy = (\<lambda>_. (chain, \<lambda>_. idle_node)), we_needed = (\<lambda>_. []), we_resources = (\<lambda>_. True),
     we_processed = (\<lambda>_. True), we_text = (\<lambda>_. []), we_has_task = (\<lambda>_. False), we_frames = 5\<rparr>"

definition canceled_world :: workflow_world where
  "canceled_world = \<lparr>ww_workflows = [(10, canceled_row)], ww_jobs = [(11, Pending, [])], ww_next = 12,
     ww_requests = [], ww_notices = []\<rparr>"

lemmas always_eval = always_chain_def get_children_def get_children_by_label_def get_parents_def
  get_parents_by_label_def find_ord_def edges_at_def get_root_nodes_def

lemma always_chain_built: "build_graph [1, 2] [] [] [(1, 2)] = Inr always_chain"
  by (simp add: build_graph_def always_chain_def add_edge_def add_node_def empty_dag_def find_ord_def
      append_edge_def edges_at_def Let_def fun_eq_iff)

lemma canceled_nodes: "load_nodes canceled_world 10 (wr_nodes canceled_row) = (\<lambda>_. idle_node)(1 := ran Pending)"
  by (rule ext) (simp add: load_nodes_def canceled_world_def canceled_row_def idle_node_def ran_def job_row_status_def Let_def)

text \<open>
  Canceling a workflow starts new jobs. The pass that handles the cancellation marks the rows of
  the nodes without a job, but goes on to spawn from the nodes it had loaded before: the job of node
  1 is canceled at once, node 2 follows it always, so node 2 gets a new pending job, and saving the
  node takes the mark back.
\<close>

theorem canceled_workflow_spawns:
  "case process_workflow plain_env 10 canceled_row canceled_world of
     None \<Rightarrow> False
   | Some (r, w) \<Rightarrow> wr_status r = Running \<and> map_of (ww_jobs w) 11 = Some (Canceled, []) \<and>
       map_of (ww_jobs w) 12 = Some (Pending, []) \<and>
       map_option (\<lambda>db. (do_not_run (db 2), job (db 2))) (nodes_of w 10) =
         Some (False, Some \<lparr>sj_id = 12, sj_status = Pending\<rparr>)"
proof -
  let ?ob = "(\<lambda>_. idle_node)(1 := ran Pending)"
  let ?ob1 = "?ob(1 := ran Canceled)"
  have adv: "advance_workflow plain_env canceled_row ?ob =
      Some (?ob1, mark_rows always_chain ?ob, canceled_row, False)"
    by (simp add: advance_workflow_def canceled_row_def cancel_node_jobs_def always_chain_def can_cancel_def
        cancel_in_transaction_def plain_env_def ran_def idle_node_def Let_def)
  have bfs: "bfs_nodes_to_run (wr_graph canceled_row) ?ob1 = Some [2]"
    by (simp add: bfs_nodes_to_run_def bfs_loop.simps always_eval canceled_row_def followed_children_def
        ready_to_run_def are_relevant_parents_finished_def ran_def idle_node_def finished_statuses_def)
  have can: "cancellable (wr_graph canceled_row) ?ob = [\<lparr>sj_id = 11, sj_status = Pending\<rparr>]"
    by (simp add: cancellable_def canceled_row_def always_chain_def ran_def idle_node_def can_cancel_def)
  have st: "wr_status canceled_row = Running" "wr_cancel_flag canceled_row" "wr_start_args canceled_row = None"
    by (simp_all add: canceled_row_def)
  show ?thesis
    unfolding process_workflow_def canceled_nodes Let_def adv option.case prod.case record_progress_def st bfs can
    by (simp add: st spawn_node_def spawn_refusal_def create_spawned_def set_spawned_def cancel_row_def
        save_workflow_def canceled_world_def nodes_of_def plain_env_def idle_node_def Let_def)
qed

section \<open>Witnesses\<close>

definition running_row :: workflow_row where
  "running_row = canceled_row\<lparr>wr_cancel_flag := False, wr_graph := chain, wr_nodes := (\<lambda>_. idle_node)\<rparr>"

definition running_world :: workflow_world where
  "running_world = canceled_world\<lparr>ww_workflows := [(10, running_row)]\<rparr>"

text \<open>A running workflow whose first node has no job yet, and its pass.\<close>

lemma running_nodes: "load_nodes running_world 10 (wr_nodes running_row) = (\<lambda>_. idle_node)"
  by (rule ext) (simp add: load_nodes_def running_world_def running_row_def canceled_world_def idle_node_def Let_def)

lemma running_pass: "\<exists>r w. process_workflow plain_env 10 running_row running_world = Some (r, w)"
proof -
  have "length (nodes chain) \<le> 5" by (simp add: chain_def)
  from mark_dnr_nodes_correct [OF chain_graph(1) chain_acyclic this, of "\<lambda>_. idle_node"]
  obtain ob ms where m: "mark_dnr_nodes 5 chain (\<lambda>_. idle_node) = Some (ob, ms)" by metis
  have "\<exists>x. advance_workflow plain_env running_row (\<lambda>_. idle_node) = Some x"
    using m by (auto simp: advance_workflow_def running_row_def canceled_row_def plain_env_def Let_def
        split: option.split)
  then obtain o1 db r1 ch where a: "advance_workflow plain_env running_row (\<lambda>_. idle_node) = Some (o1, db, r1, ch)"
    by (metis prod_cases4)
  then have "wr_graph r1 = chain"
    by (auto simp: advance_workflow_def running_row_def canceled_row_def Let_def split: option.splits if_splits prod.splits)
  then obtain ns where "bfs_nodes_to_run (wr_graph r1) o1 = Some ns"
    using bfs_nodes_to_run_correct [OF chain_graph(1), of o1] by metis
  with a show ?thesis by (auto simp: process_workflow_def running_nodes Let_def split: prod.split)
qed

theorem workflow_pass_witness:
  "\<exists>ob ms. mark_dnr_nodes 5 chain (\<lambda>_. idle_node) = Some (ob, ms) \<and>
    (\<exists>r w. process_workflow plain_env 10 running_row running_world = Some (r, w) \<and>
     (if is_workflow_done chain ob then
       wr_status r = (if has_workflow_failed chain ob = None then Successful else Failed) \<and>
       nodes_of w 10 = Some ob
     else wr_status r = Running \<and> (\<exists>db. nodes_of w 10 = Some db \<and> run_exactly 12 chain ob db)))"
proof -
  obtain r w where p: "process_workflow plain_env 10 running_row running_world = Some (r, w)"
    using running_pass by blast
  have g: "wr_graph running_row = chain" "\<not> wr_cancel_flag running_row" "wr_status running_row = Running"
    "map_of (ww_workflows running_world) 10 \<noteq> None" "we_frames plain_env = 5" "ww_next running_world = 12"
    by (simp_all add: running_row_def canceled_row_def running_world_def canceled_world_def plain_env_def)
  from workflow_pass [of running_row, unfolded g(1), OF chain_graph(1) g(2-4) p] p g(5,6) show ?thesis
    by (auto simp: running_nodes)
qed

text \<open>The nesting invariant holds of one running workflow, and the run keeps it.\<close>

theorem nesting_witness:
  "\<exists>ended w. spawn_workflow_graph_jobs plain_env (\<lambda>_. False) running_world = Some (ended, w) \<and> nested_rows w"
proof -
  obtain r w where p: "process_workflow plain_env 10 running_row running_world = Some (r, w)"
    using running_pass by blast
  then obtain ended where e: "spawn_workflow_graph_jobs plain_env (\<lambda>_. False) running_world = Some (ended, w)"
    by (simp add: spawn_workflow_graph_jobs_def running_workflows_def running_world_def running_row_def
        canceled_row_def canceled_world_def)
  have "nested_rows running_world"
    by (simp add: nested_rows_def keys_ok_def nesting_ok_def parents_ok_def chain_of_def row_template_def
        get_ancestor_workflows_def ancestor_loop.simps get_workflow_job_def running_world_def running_row_def
        canceled_row_def canceled_world_def split: option.split)
  from nesting_preserved [OF this e] e show ?thesis by blast
qed

end
