(* ===== verification/Tenancy_Helpers.thy ===== *)
theory Tenancy_Helpers
  imports Python_Values
begin

text \<open>
  The pure helpers of multi-tenancy: \<open>forail/main/tenancy/helpers.py\<close>. Quotas and their daily
  window, host names, colours, the exemption list and the isolation decision, the token bucket
  script, queue names, row-level security policies and the provisioning payload.

  A datetime is a number of seconds since the epoch in UTC, so that its UTC calendar day is its
  quotient by 86400.
\<close>

section \<open>Quotas\<close>

datatype quota_kind = ConcurrentJobs | DailyLaunches | Hosts | StorageMb

definition check_quota_value :: "int \<Rightarrow> int option \<Rightarrow> bool" where
  "check_quota_value current limit =
     (case limit of None \<Rightarrow> True | Some l \<Rightarrow> if l = 0 then True else current < l)"

definition utc_day :: "int \<Rightarrow> int" where
  "utc_day t = t div 86400"

definition is_window_expired :: "int option \<Rightarrow> int \<Rightarrow> bool" where
  "is_window_expired window_start now =
     (case window_start of None \<Rightarrow> True | Some ws \<Rightarrow> utc_day ws \<noteq> utc_day now)"

definition reset_daily_window :: "int \<Rightarrow> int \<times> int" where
  "reset_daily_window now = (utc_day now * 86400, 0)"

fun quota_kind_label :: "quota_kind \<Rightarrow> string" where
  "quota_kind_label ConcurrentJobs = ''Concurrent jobs''"
| "quota_kind_label DailyLaunches = ''Daily launches''"
| "quota_kind_label Hosts = ''Hosts''"
| "quota_kind_label StorageMb = ''Storage (MB)''"

definition format_quota_message :: "quota_kind \<Rightarrow> int \<Rightarrow> int option \<Rightarrow> string" where
  "format_quota_message k current limit =
     (let lim = (case limit of None \<Rightarrow> ''unlimited''
                 | Some l \<Rightarrow> if l = 0 then ''unlimited'' else int_str l)
      in quota_kind_label k @ '' quota exceeded ('' @ int_str current @ ''/'' @ lim @ '')'')"

section \<open>Hosts and colours\<close>

definition normalize_host :: "string option \<Rightarrow> string" where
  "normalize_host host =
     (case host of
        None \<Rightarrow> []
      | Some h \<Rightarrow>
          (let s = lower (strip h)
           in if s = [] then []
              else let s1 = (if CHR '':'' \<in> set s \<and> \<not> startswith s ''['' then hd (split_on (CHR '':'') s) else s)
                   in if endswith s1 ''.'' then butlast s1 else s1))"

text \<open>
  \<open>re.match(r'^#[0-9a-fA-F]{6}$', s)\<close>: the \<open>$\<close> of Python also matches before a newline that
  ends the text.
\<close>

definition is_valid_hex_color :: "string \<Rightarrow> bool" where
  "is_valid_hex_color s \<longleftrightarrow>
     (let body = (if length s = 8 \<and> s ! 7 = CHR 0x0A then butlast s else s)
      in length body = 7 \<and> body ! 0 = CHR ''#'' \<and> list_all is_hex_digit (drop 1 body))"

section \<open>Strict isolation\<close>

definition isolation_exempt_path_prefixes :: "string list" where
  "isolation_exempt_path_prefixes =
     [''/api/v2/config/'', ''/api/v2/ping/'', ''/api/v2/me/'', ''/api/v2/auth/'', ''/api/v2/tokens/'',
      ''/api/v2/branding/'', ''/api/v2/tenants/'', ''/api/v2/tenant_quota_events/'',
      ''/api/v2/tenant_isolation_events/'', ''/api/login/'', ''/sso/'']"

definition should_exempt_isolation :: "string \<Rightarrow> bool" where
  "should_exempt_isolation path \<longleftrightarrow>
     (if path = [] then True else list_ex (\<lambda>p. startswith path p) isolation_exempt_path_prefixes)"

definition make_isolation_decision :: "bool \<Rightarrow> bool \<Rightarrow> bool \<Rightarrow> bool \<times> bool" where
  "make_isolation_decision user_org_strict global_strict_enabled is_cross_tenant =
     (if \<not> is_cross_tenant then (False, False)
      else (user_org_strict \<and> global_strict_enabled, True))"

section \<open>The token bucket\<close>

text \<open>
  A bucket as Redis stores it, with the time at which the key expires. Redis' clock is the clock
  that the caller passes as \<open>now\<close>.
\<close>

record bucket =
  tokens :: rat
  last_refill :: rat
  expires_at :: rat

definition live_bucket :: "rat \<Rightarrow> bucket option \<Rightarrow> bucket option" where
  "live_bucket now b = (case b of None \<Rightarrow> None | Some k \<Rightarrow> if now < expires_at k then Some k else None)"

definition token_bucket_lua ::
  "rat \<Rightarrow> rat \<Rightarrow> rat \<Rightarrow> rat \<Rightarrow> bucket option \<Rightarrow> (bool \<times> int) \<times> bucket option" where
  "token_bucket_lua max_tokens refill_rate now requested stored =
     (let (toks0, last) = (case live_bucket now stored of
            None \<Rightarrow> (max_tokens, now) | Some k \<Rightarrow> (tokens k, last_refill k));
          elapsed = max 0 (now - last);
          toks1 = min max_tokens (toks0 + elapsed * refill_rate);
          allowed = (toks1 \<ge> requested);
          toks2 = (if allowed then toks1 - requested else toks1)
      in ((allowed, \<lfloor>toks2\<rfloor>),
          Some \<lparr>tokens = toks2, last_refill = now,
                expires_at = now + of_int (\<lceil>max_tokens / refill_rate\<rceil> + 10)\<rparr>))"

definition compute_token_bucket_params :: "int option \<Rightarrow> int \<Rightarrow> int \<times> int" where
  "compute_token_bucket_params rate_limit burst_multiplier =
     (case rate_limit of
        None \<Rightarrow> (0, 0)
      | Some rate \<Rightarrow> if rate \<le> 0 then (0, 0) else (rate * burst_multiplier, rate))"

section \<open>Queues\<close>

definition tenant_queue_name :: "pk option \<Rightarrow> string" where
  "tenant_queue_name org_id =
     (case org_id of None \<Rightarrow> [] | Some i \<Rightarrow> if i = 0 then [] else ''tenant-'' @ nat_str i)"

section \<open>Row-level security\<close>

definition rls_tables_direct :: "(string \<times> string) list" where
  "rls_tables_direct = map (\<lambda>t. (t, ''organization_id''))
     [''main_inventory'', ''main_credential'', ''main_label'', ''main_executionenvironment'', ''main_team'',
      ''main_notificationtemplate'', ''main_oauth2application'', ''main_unifiedjobtemplate'',
      ''main_unifiedjob'', ''main_eventrule'', ''main_outboundwebhook'', ''main_eventlog'',
      ''main_hostfactsnapshot'', ''main_driftdetection'', ''main_driftalertrule'', ''main_driftalert'',
      ''main_policy'', ''main_policydecision'', ''main_scanner'', ''main_scanresult'',
      ''main_servicecatalogitem'', ''main_auditevent'']"

definition rls_global_null_org_tables :: "string list" where
  "rls_global_null_org_tables =
     [''main_credential'', ''main_oauth2application'', ''main_executionenvironment'',
      ''main_unifiedjobtemplate'', ''main_unifiedjob'']"

definition null_org_is_global :: "string \<Rightarrow> bool" where
  "null_org_is_global table \<longleftrightarrow> table \<in> set rls_global_null_org_tables"

text \<open>
  The \<open>USING\<close> clause is a disjunction of conditions, kept as such and rendered to the text that
  the source builds.
\<close>

datatype sql_cond =
    ColumnIsTenant string
  | ColumnIsNull string
  | TenantIsNull
  | ColumnInParent string string string bool

definition tenant_expr :: string where
  "tenant_expr = ''NULLIF(current_setting('' @ [CHR 0x27] @ ''forail.current_tenant_id'' @ [CHR 0x27] @
     '', true), '' @ [CHR 0x27, CHR 0x27] @ '')''"

fun render_cond :: "sql_cond \<Rightarrow> string" where
  "render_cond (ColumnIsTenant c) = c @ '' = '' @ tenant_expr @ ''::int ''"
| "render_cond (ColumnIsNull c) = c @ '' IS NULL ''"
| "render_cond TenantIsNull = tenant_expr @ '' IS NULL''"
| "render_cond (ColumnInParent fk parent col null_branch) =
     fk @ '' IN (SELECT id FROM '' @ parent @ '' WHERE '' @ col @ '' = '' @ tenant_expr @ ''::int '' @
     (if null_branch then ''OR '' @ col @ '' IS NULL'' else []) @ '') ''"

definition rls_using :: "string \<Rightarrow> string \<Rightarrow> sql_cond list" where
  "rls_using table org_column =
     ColumnIsTenant org_column #
     (if null_org_is_global table then [ColumnIsNull org_column] else []) @ [TenantIsNull]"

definition rls_using_indirect :: "string \<Rightarrow> string \<Rightarrow> string \<Rightarrow> string \<Rightarrow> sql_cond list" where
  "rls_using_indirect table fk_column parent_table parent_org_column =
     [ColumnInParent fk_column parent_table parent_org_column (null_org_is_global parent_table),
      ColumnIsNull fk_column, TenantIsNull]"

definition render_policy :: "string \<Rightarrow> sql_cond list \<Rightarrow> string \<times> string" where
  "render_policy table conds =
     (let policy_name = ''tenant_isolation_'' @ table
      in (''CREATE POLICY '' @ policy_name @ '' ON '' @ table @ '' AS PERMISSIVE FOR ALL USING ('' @
            join_with ''OR '' (map render_cond conds) @ '');'',
          ''DROP POLICY IF EXISTS '' @ policy_name @ '' ON '' @ table @ '';''))"

definition build_rls_policy_sql :: "string \<Rightarrow> string \<Rightarrow> string \<times> string" where
  "build_rls_policy_sql table org_column = render_policy table (rls_using table org_column)"

definition build_rls_policy_sql_indirect :: "string \<Rightarrow> string \<Rightarrow> string \<Rightarrow> string \<Rightarrow> string \<times> string" where
  "build_rls_policy_sql_indirect table fk_column parent_table parent_org_column =
     render_policy table (rls_using_indirect table fk_column parent_table parent_org_column)"

section \<open>The provisioning payload\<close>

definition name_errors :: "(json \<Rightarrow> string) \<Rightarrow> (string \<times> json) list \<Rightarrow> string list" where
  "name_errors r p =
     (let name = obj_get p ''name''
      in if \<not> json_true name \<or> strip (py_str r name) = [] then [''name is required''] else [])"

definition min_length_error ::
  "(json \<Rightarrow> string) \<Rightarrow> (string \<times> json) list \<Rightarrow> string \<Rightarrow> nat \<Rightarrow> string list" where
  "min_length_error r p field n =
     (let v = obj_get p field
      in if \<not> json_true v \<or> length (py_str r v) < n
         then [field @ '' must be at least '' @ nat_str n @ '' characters''] else [])"

definition email_errors :: "(json \<Rightarrow> string) \<Rightarrow> (string \<times> json) list \<Rightarrow> string list" where
  "email_errors r p =
     (let v = obj_get p ''admin_email''
      in if \<not> json_true v \<or> CHR ''@'' \<notin> set (py_str r v)
         then [''admin_email must be a valid email address''] else [])"

definition quota_field_errors :: "(string \<times> json) list \<Rightarrow> string \<Rightarrow> string list" where
  "quota_field_errors quota f =
     (case map_of quota f of
        None \<Rightarrow> []
      | Some JNull \<Rightarrow> []
      | Some v \<Rightarrow>
          (case py_int v of
             None \<Rightarrow> [f @ '' must be an integer'']
           | Some iv \<Rightarrow> if iv < 0 then [f @ '' must be >= 0''] else []))"

definition color_errors :: "(string \<times> json) list \<Rightarrow> string \<Rightarrow> string list" where
  "color_errors branding f =
     (let v = obj_get branding f
      in if json_true v \<and> \<not> (case v of JStr s \<Rightarrow> is_valid_hex_color s | _ \<Rightarrow> False)
         then [f @ '' must be a valid hex color like #RRGGBB''] else [])"

text \<open>\<open>payload.get(k) or {}\<close>, and the check that it is an object.\<close>

definition sub_object :: "(string \<times> json) list \<Rightarrow> string \<Rightarrow> string list \<times> (string \<times> json) list" where
  "sub_object p k =
     (let v = obj_get p k
      in if \<not> json_true v then ([], [])
         else case v of JObj d \<Rightarrow> ([], d) | _ \<Rightarrow> ([k @ '' must be an object''], []))"

definition quota_fields :: "string list" where
  "quota_fields = [''max_concurrent_jobs'', ''max_daily_launches'', ''max_hosts'', ''max_storage_mb'']"

definition color_fields :: "string list" where
  "color_fields = [''primary_color'', ''secondary_color'']"

definition validate_provisioning_payload :: "(json \<Rightarrow> string) \<Rightarrow> json \<Rightarrow> string list" where
  "validate_provisioning_payload r payload =
     (case payload of
        JObj p \<Rightarrow>
          (let (quota_err, quota) = sub_object p ''quota'';
               (branding_err, branding) = sub_object p ''branding''
           in name_errors r p @ min_length_error r p ''admin_username'' 3 @ email_errors r p @
              min_length_error r p ''admin_password'' 8 @
              quota_err @ concat (map (quota_field_errors quota) quota_fields) @
              branding_err @ concat (map (color_errors branding) color_fields))
      | _ \<Rightarrow> [''payload must be an object''])"

end
