(* ===== verification/Tenancy_Gates.thy ===== *)
theory Tenancy_Gates
  imports Tenancy_Helpers
begin

text \<open>
  The gates of multi-tenancy: the launch quota (\<open>tenancy/quota.py\<close>, \<open>tenancy/usage.py\<close>), the
  per-tenant rate limit (\<open>tenancy/rate_limit.py\<close>), the queue of a tenant (\<open>tenancy/queues.py\<close>) and
  the isolation middleware (\<open>tenancy/isolation.py\<close>, \<open>tenancy/rls.py\<close>), all under
  \<open>forail/main\<close>.

  The settings are a record, the database rows that a gate reads or writes are arguments and
  results, and an exception of the database or of Redis is a value.
\<close>

section \<open>Settings and organizations\<close>

record tenancy_settings =
  tenancy_enabled :: bool
  rls_enabled :: bool
  strict_isolation_enabled :: bool
  rate_limiting_enabled :: bool
  default_api_rate_limit :: int
  rate_limit_fail_closed :: bool
  dedicated_queues_enabled :: bool

record organization =
  org_pk :: pk
  org_name :: string
  is_tenant_root :: bool
  tenant_max_concurrent_jobs :: "int option"
  tenant_max_daily_launches :: "int option"
  tenant_max_hosts :: "int option"
  tenant_max_storage_mb :: "int option"
  tenant_isolation_strict :: bool
  tenant_api_rate_limit :: "int option"

section \<open>The launch quota\<close>

record tenant_usage =
  concurrent_jobs_count :: int
  launches_today_count :: int
  launches_today_window_start :: "int option"
  hosts_count :: int
  storage_mb_used :: int

record quota_event =
  qe_kind :: quota_kind
  qe_blocked :: bool
  qe_current :: int
  qe_limit :: "int option"
  qe_message :: string

record quota_result =
  q_allowed :: bool
  q_reasons :: "string list"
  q_events :: "quota_event list"

text \<open>A job reaches its organization directly or through its inventory.\<close>

definition get_org :: "organization option \<Rightarrow> organization option option \<Rightarrow> organization option" where
  "get_org direct inventory =
     (case direct of Some org \<Rightarrow> Some org | None \<Rightarrow> (case inventory of None \<Rightarrow> None | Some org \<Rightarrow> org))"

text \<open>\<open>TenantUsage.save\<close> starts the window of a new row.\<close>

definition new_usage :: "int \<Rightarrow> tenant_usage" where
  "new_usage now = \<lparr>concurrent_jobs_count = 0, launches_today_count = 0,
     launches_today_window_start = Some (fst (reset_daily_window now)), hosts_count = 0,
     storage_mb_used = 0\<rparr>"

definition rollover :: "int \<Rightarrow> tenant_usage \<Rightarrow> tenant_usage" where
  "rollover now u =
     (if is_window_expired (launches_today_window_start u) now then
        (let (top, zero) = reset_daily_window now
         in u\<lparr>launches_today_window_start := Some top, launches_today_count := zero\<rparr>)
      else u)"

definition quota_checks :: "organization \<Rightarrow> tenant_usage \<Rightarrow> (quota_kind \<times> int \<times> int option) list" where
  "quota_checks org u =
     [(ConcurrentJobs, concurrent_jobs_count u, tenant_max_concurrent_jobs org),
      (DailyLaunches, launches_today_count u, tenant_max_daily_launches org),
      (Hosts, hosts_count u, tenant_max_hosts org),
      (StorageMb, storage_mb_used u, tenant_max_storage_mb org)]"

definition limit_value :: "int option \<Rightarrow> int option" where
  "limit_value limit = (case limit of None \<Rightarrow> None | Some l \<Rightarrow> if l = 0 then None else Some l)"

text \<open>
  The first check that fails blocks the launch. The usage row is \<open>None\<close> before its first use; the
  row that comes back is what the transaction stores. A blocked launch saves the window fields
  only, which are all that it changed. Events are created without an error.
\<close>

definition check_tenant_quota ::
  "tenancy_settings \<Rightarrow> organization option \<Rightarrow> int \<Rightarrow> tenant_usage option \<Rightarrow>
     quota_result \<times> tenant_usage option" where
  "check_tenant_quota cfg job_org now stored =
     (let result = \<lparr>q_allowed = True, q_reasons = [], q_events = []\<rparr>
      in if \<not> tenancy_enabled cfg then (result, stored)
         else case job_org of
           None \<Rightarrow> (result, stored)
         | Some org \<Rightarrow>
             if \<not> is_tenant_root org then (result, stored)
             else
               (let usage = rollover now (case stored of None \<Rightarrow> new_usage now | Some u \<Rightarrow> u);
                    checks = quota_checks org usage
                in case List.find (\<lambda>(k, current, limit). \<not> check_quota_value current limit) checks of
                     Some (k, current, limit) \<Rightarrow>
                       (let msg = format_quota_message k current limit
                        in (\<lparr>q_allowed = False, q_reasons = [msg],
                             q_events = [\<lparr>qe_kind = k, qe_blocked = True, qe_current = current,
                                          qe_limit = limit_value limit, qe_message = msg\<rparr>]\<rparr>,
                            Some usage))
                   | None \<Rightarrow>
                       (result\<lparr>q_events := map (\<lambda>(k, current, limit).
                           \<lparr>qe_kind = k, qe_blocked = False, qe_current = current,
                            qe_limit = limit_value limit, qe_message = []\<rparr>) checks\<rparr>,
                        Some (usage\<lparr>concurrent_jobs_count := concurrent_jobs_count usage + 1,
                                    launches_today_count := launches_today_count usage + 1\<rparr>))))"

definition on_job_finished :: "organization option \<Rightarrow> tenant_usage option \<Rightarrow> tenant_usage option" where
  "on_job_finished job_org stored =
     (case job_org of
        None \<Rightarrow> stored
      | Some org \<Rightarrow>
          if \<not> is_tenant_root org then stored
          else (case stored of
                  None \<Rightarrow> None
                | Some u \<Rightarrow> Some (u\<lparr>concurrent_jobs_count := max 0 (concurrent_jobs_count u - 1)\<rparr>)))"

text \<open>\<open>None\<close> for a count stands for a query that raised.\<close>

definition recalculate_tenant_usage :: "int \<Rightarrow> int option \<Rightarrow> int option \<Rightarrow> tenant_usage option \<Rightarrow> tenant_usage" where
  "recalculate_tenant_usage now host_rows running_rows stored =
     (let u = (case stored of None \<Rightarrow> new_usage now | Some u \<Rightarrow> u)
      in u\<lparr>hosts_count := (case host_rows of None \<Rightarrow> hosts_count u | Some n \<Rightarrow> n),
           concurrent_jobs_count := (case running_rows of None \<Rightarrow> concurrent_jobs_count u | Some n \<Rightarrow> n)\<rparr>)"

section \<open>Queues\<close>

definition get_queue_for_org :: "tenancy_settings \<Rightarrow> organization option \<Rightarrow> string option" where
  "get_queue_for_org cfg org =
     (if \<not> tenancy_enabled cfg then None
      else if \<not> dedicated_queues_enabled cfg then None
      else case org of
        None \<Rightarrow> None
      | Some o' \<Rightarrow>
          if \<not> is_tenant_root o' then None
          else (let name = tenant_queue_name (Some (org_pk o')) in if name = [] then None else Some name))"

definition get_queue_for_job ::
  "tenancy_settings \<Rightarrow> organization option \<Rightarrow> organization option option \<Rightarrow> string option" where
  "get_queue_for_job cfg direct inventory = get_queue_for_org cfg (get_org direct inventory)"

section \<open>Requests\<close>

record user =
  is_authenticated :: bool
  is_superuser :: bool
  user_orgs :: "organization list"

text \<open>
  The view of a request: its URL arguments \<open>organization\<close> and \<open>pk\<close>, and the model of its class, if
  any, with the two tests that the code makes on it.
\<close>

record view_target =
  kw_organization :: "string option"
  kw_pk :: "pk option"
  has_model :: bool
  model_is_host :: bool
  model_is_direct :: bool

record request =
  req_user :: "user option"
  req_path :: string
  req_view :: view_target

datatype response =
    FromView
  | IsolationUnavailable
  | CrossTenantDenied
  | RateLimited int
  | RateLimiterUnavailable

section \<open>The rate limit\<close>

text \<open>
  Redis is a store of buckets, \<open>None\<close> when no client can be had; \<open>redis_fails\<close> says that the
  script call raises. The tenant organization is the one that the isolation middleware put on the
  request. Python's \<open>round\<close> rounds halves to the even neighbour.
\<close>

definition py_round :: "rat \<Rightarrow> int" where
  "py_round r = (let f = \<lfloor>r\<rfloor>; d = r - of_int f
     in if d < 1 / 2 then f else if 1 / 2 < d then f + 1 else if even f then f else f + 1)"

definition rate_limit_of :: "tenancy_settings \<Rightarrow> organization \<Rightarrow> int" where
  "rate_limit_of cfg org =
     (let own = (case tenant_api_rate_limit org of None \<Rightarrow> 0 | Some r \<Rightarrow> r)
      in if own = 0 then default_api_rate_limit cfg else own)"

definition redis_unavailable :: "tenancy_settings \<Rightarrow> response" where
  "redis_unavailable cfg = (if rate_limit_fail_closed cfg then RateLimiterUnavailable else FromView)"

type_synonym redis = "pk \<Rightarrow> bucket option"

definition rate_limit_call ::
  "tenancy_settings \<Rightarrow> request \<Rightarrow> organization option \<Rightarrow> rat \<Rightarrow> bool \<Rightarrow> redis option \<Rightarrow>
     response \<times> redis option" where
  "rate_limit_call cfg req tenant_org now redis_fails store =
     (if \<not> tenancy_enabled cfg then (FromView, store)
      else if \<not> rate_limiting_enabled cfg then (FromView, store)
      else case req_user req of
        None \<Rightarrow> (FromView, store)
      | Some u \<Rightarrow>
          if \<not> is_authenticated u then (FromView, store)
          else if is_superuser u then (FromView, store)
          else case tenant_org of
            None \<Rightarrow> (FromView, store)
          | Some org \<Rightarrow>
              (let rate_limit = rate_limit_of cfg org;
                   (max_tokens, refill_rate) = compute_token_bucket_params (Some rate_limit) 2
               in if rate_limit = 0 then (FromView, store)
                  else if max_tokens \<le> 0 then (FromView, store)
                  else case store of
                    None \<Rightarrow> (redis_unavailable cfg, store)
                  | Some db \<Rightarrow>
                      if redis_fails then (redis_unavailable cfg, store)
                      else
                        (let ((allowed, _), b) = token_bucket_lua (of_int max_tokens) (of_int refill_rate)
                               now 1 (db (org_pk org))
                         in (if allowed then FromView
                             else RateLimited (max 1 (py_round (1 / of_int refill_rate))),
                             Some (db(org_pk org := b))))))"

section \<open>The isolation middleware\<close>

text \<open>
  The database as the middleware sees it: the organization of directly scoped rows, the inventory
  of hosts and the organization of inventories. A missing row is \<open>None\<close>; the organization and the
  inventory of a row are nullable.
\<close>

record database =
  direct_org :: "pk \<Rightarrow> pk option option"
  host_inventory :: "pk \<Rightarrow> pk option option"
  inventory_org :: "pk \<Rightarrow> pk option option"

text \<open>The session variable \<open>forail.current_tenant_id\<close>; \<open>None\<close> is the empty string.\<close>

type_synonym session = "pk option"

definition set_tenant_id :: "pk option \<Rightarrow> session" where
  "set_tenant_id org_id = (case org_id of None \<Rightarrow> None | Some i \<Rightarrow> if i = 0 then None else Some i)"

text \<open>What row-level security lets the session see of a row with the given organization.\<close>

definition rls_visible :: "session \<Rightarrow> bool \<Rightarrow> pk option \<Rightarrow> bool" where
  "rls_visible s null_global org =
     (case s of
        None \<Rightarrow> True
      | Some t \<Rightarrow> (case org of None \<Rightarrow> null_global | Some i \<Rightarrow> i = t))"

definition scoped :: "session \<Rightarrow> database \<Rightarrow> database" where
  "scoped s db = db\<lparr>
     direct_org := (\<lambda>k. case direct_org db k of None \<Rightarrow> None
                    | Some org \<Rightarrow> if rls_visible s False org then Some org else None),
     host_inventory := (\<lambda>k. case host_inventory db k of None \<Rightarrow> None
                    | Some None \<Rightarrow> Some None
                    | Some (Some i) \<Rightarrow>
                        (case inventory_org db i of
                           None \<Rightarrow> if s = None then Some (Some i) else None
                         | Some org \<Rightarrow> if rls_visible s False org then Some (Some i) else None)),
     inventory_org := (\<lambda>k. case inventory_org db k of None \<Rightarrow> None
                    | Some org \<Rightarrow> if rls_visible s False org then Some org else None)\<rparr>"

datatype target_org = NotCovered | TargetOrg int | DenyUnresolved

definition some_org :: "pk option \<Rightarrow> target_org" where
  "some_org org = (case org of None \<Rightarrow> NotCovered | Some i \<Rightarrow> if i = 0 then NotCovered else TargetOrg (int i))"

text \<open>\<open>lookup_fails\<close> says that the lookup raises; it runs with the tenant scope removed.\<close>

definition lookup_target_org :: "bool \<Rightarrow> database \<Rightarrow> view_target \<Rightarrow> pk \<Rightarrow> target_org" where
  "lookup_target_org lookup_fails db v k =
     (let unscoped = scoped None db
      in if lookup_fails then DenyUnresolved
         else if model_is_direct v then
           (case direct_org unscoped k of None \<Rightarrow> NotCovered | Some org \<Rightarrow> some_org org)
         else
           (case host_inventory unscoped k of
              None \<Rightarrow> NotCovered
            | Some None \<Rightarrow> NotCovered
            | Some (Some i) \<Rightarrow>
                (case inventory_org unscoped i of None \<Rightarrow> NotCovered | Some org \<Rightarrow> some_org org)))"

definition resolve_target_org_id :: "bool \<Rightarrow> database \<Rightarrow> view_target \<Rightarrow> target_org" where
  "resolve_target_org_id lookup_fails db v =
     (case (case kw_organization v of None \<Rightarrow> None | Some t \<Rightarrow> parse_int t) of
        Some i \<Rightarrow> TargetOrg i
      | None \<Rightarrow>
          (case kw_pk v of
             None \<Rightarrow> NotCovered
           | Some k \<Rightarrow>
               if \<not> has_model v then NotCovered
               else if \<not> model_is_direct v \<and> \<not> model_is_host v then NotCovered
               else lookup_target_org lookup_fails db v k))"

text \<open>\<open>resolve_fails\<close> says that the query for the user's tenant organizations raises.\<close>

datatype resolved = ResolveError | Resolved "organization option"

definition resolve_tenant_org :: "tenancy_settings \<Rightarrow> bool \<Rightarrow> request \<Rightarrow> resolved" where
  "resolve_tenant_org cfg resolve_fails req =
     (if \<not> tenancy_enabled cfg then Resolved None
      else if \<not> rls_enabled cfg then Resolved None
      else case req_user req of
        None \<Rightarrow> Resolved None
      | Some u \<Rightarrow>
          if \<not> is_authenticated u then Resolved None
          else if is_superuser u then Resolved None
          else if resolve_fails then ResolveError
          else (case filter is_tenant_root (user_orgs u) of
                  [] \<Rightarrow> Resolved None
                | org # _ \<Rightarrow> Resolved (Some org)))"

record isolation_event =
  ie_user_org :: pk
  ie_accessed_org :: "int option"
  ie_resource_type :: string
  ie_resource_id :: "int option"
  ie_path :: string
  ie_blocked :: bool

definition path_parts :: "string \<Rightarrow> string list" where
  "path_parts path = filter (\<lambda>p. p \<noteq> []) (split_on (CHR ''/'') path)"

definition get_resource_type :: "string \<Rightarrow> string" where
  "get_resource_type path =
     (let parts = path_parts path
      in if 3 \<le> length parts \<and> hd parts = ''api'' then take 64 (parts ! 2) else [])"

definition get_resource_id :: "string \<Rightarrow> int option" where
  "get_resource_id path =
     (let parts = path_parts path
      in if 4 \<le> length parts \<and> hd parts = ''api'' then parse_int (parts ! 3) else None)"

definition isolation_event_for :: "request \<Rightarrow> organization \<Rightarrow> int option \<Rightarrow> bool \<Rightarrow> isolation_event" where
  "isolation_event_for req org target blocked =
     \<lparr>ie_user_org = org_pk org, ie_accessed_org = target, ie_resource_type = get_resource_type (req_path req),
      ie_resource_id = get_resource_id (req_path req), ie_path = take 1024 (req_path req),
      ie_blocked = blocked\<rparr>"

text \<open>The strict gate: a response that ends the request, if any, and the event it records.\<close>

definition process_view ::
  "tenancy_settings \<Rightarrow> request \<Rightarrow> organization option \<Rightarrow> bool \<Rightarrow> database \<Rightarrow>
     response option \<times> isolation_event list" where
  "process_view cfg req tenant_org lookup_fails db =
     (if \<not> tenancy_enabled cfg then (None, [])
      else case req_user req of
        None \<Rightarrow> (None, [])
      | Some u \<Rightarrow>
          if \<not> is_authenticated u then (None, [])
          else if is_superuser u then (None, [])
          else if should_exempt_isolation (req_path req) then (None, [])
          else case tenant_org of
            None \<Rightarrow> (None, [])
          | Some org \<Rightarrow>
              (let global_strict = strict_isolation_enabled cfg;
                   user_org_strict = tenant_isolation_strict org
               in case resolve_target_org_id lookup_fails db (req_view req) of
                    DenyUnresolved \<Rightarrow>
                      if user_org_strict \<and> global_strict then
                        (Some CrossTenantDenied, [isolation_event_for req org None True])
                      else (None, [])
                  | NotCovered \<Rightarrow> (None, [])
                  | TargetOrg t \<Rightarrow>
                      (let (should_block, should_audit) =
                             make_isolation_decision user_org_strict global_strict (t \<noteq> int (org_pk org));
                           evs = (if should_audit then [isolation_event_for req org (Some t) should_block] else [])
                       in (if should_block then Some CrossTenantDenied else None, evs))))"

text \<open>
  The middleware around a view. The view runs with the session it is given; the result records
  the session under which it ran, if it ran. \<open>set_fails\<close> says that installing the scope raises.
\<close>

record outcome =
  out_response :: response
  view_ran_under :: "session option"
  final_session :: session
  out_events :: "isolation_event list"

definition middleware_call ::
  "tenancy_settings \<Rightarrow> request \<Rightarrow> bool \<Rightarrow> bool \<Rightarrow> bool \<Rightarrow> database \<Rightarrow> session \<Rightarrow> outcome" where
  "middleware_call cfg req resolve_fails set_fails lookup_fails db s =
     (let run = (\<lambda>tenant_org s1 s2.
            (case process_view cfg req tenant_org lookup_fails db of
               (Some r, evs) \<Rightarrow> \<lparr>out_response = r, view_ran_under = None, final_session = s2, out_events = evs\<rparr>
             | (None, evs) \<Rightarrow>
                 \<lparr>out_response = FromView, view_ran_under = Some s1, final_session = s2, out_events = evs\<rparr>));
          abort = \<lparr>out_response = IsolationUnavailable, view_ran_under = None, final_session = s, out_events = []\<rparr>
      in case resolve_tenant_org cfg resolve_fails req of
           ResolveError \<Rightarrow>
             if tenancy_enabled cfg \<and> rls_enabled cfg then abort else run None s s
         | Resolved None \<Rightarrow> run None s s
         | Resolved (Some org) \<Rightarrow>
             if set_fails then abort
             else run (Some org) (set_tenant_id (Some (org_pk org))) None)"

end
