(* ===== verification/Tenancy_Spec.thy ===== *)
theory Tenancy_Spec
  imports Tenancy_Gates
begin

text \<open>
  What the tenancy gates guarantee: the rate that the token bucket admits, the counters that the
  launch quota bounds, the rows that row-level security shows, and the requests that the isolation
  middleware lets through.
\<close>

section \<open>The token bucket\<close>

fun bucket_calls :: "rat \<Rightarrow> rat \<Rightarrow> rat list \<Rightarrow> bucket option \<Rightarrow> bool list" where
  "bucket_calls m r [] b = []"
| "bucket_calls m r (t # ts) b =
     (let ((allowed, _), b') = token_bucket_lua m r t 1 b in allowed # bucket_calls m r ts b')"

definition admitted :: "bool list \<Rightarrow> nat" where
  "admitted bs = length (filter (\<lambda>b. b) bs)"

text \<open>What a call leaves behind.\<close>

definition bucket_at :: "rat \<Rightarrow> rat \<Rightarrow> rat \<Rightarrow> rat \<Rightarrow> bucket" where
  "bucket_at m r t x = \<lparr>tokens = x, last_refill = t, expires_at = t + of_int (\<lceil>m / r\<rceil> + 10)\<rparr>"

definition bucket_ok :: "bucket option \<Rightarrow> bool" where
  "bucket_ok b \<longleftrightarrow> (case b of None \<Rightarrow> True | Some k \<Rightarrow> 0 \<le> tokens k)"

lemma bucket_first:
  assumes ok: "bucket_ok b" and m: "0 < m" and r: "0 < r"
  shows "\<exists>a n x. token_bucket_lua m r t 1 b = ((a, n), Some (bucket_at m r t x)) \<and> 0 \<le> x \<and> x \<le> m \<and>
    x + (if a then 1 else 0) \<le> m"
proof -
  obtain x0 s where st: "(case live_bucket t b of None \<Rightarrow> (m, t) | Some k \<Rightarrow> (tokens k, last_refill k)) = (x0, s)"
    and x0: "0 \<le> x0"
  proof (cases "live_bucket t b")
    case None
    with m that show ?thesis by simp
  next
    case (Some k)
    then have "b = Some k" by (auto simp: live_bucket_def split: option.splits if_splits)
    with Some ok that show ?thesis by (simp add: bucket_ok_def)
  qed
  define y where "y = min m (x0 + max 0 (t - s) * r)"
  define z where "z = (if 1 \<le> y then y - 1 else y)"
  have y: "0 \<le> y" "y \<le> m" using x0 m r by (auto simp: y_def)
  have "token_bucket_lua m r t 1 b = ((1 \<le> y, \<lfloor>z\<rfloor>), Some (bucket_at m r t z))"
    unfolding token_bucket_lua_def st by (simp add: Let_def bucket_at_def y_def z_def)
  moreover have "0 \<le> z \<and> z \<le> m \<and> z + (if 1 \<le> y then 1 else 0) \<le> m" using y by (simp add: z_def)
  ultimately show ?thesis by blast
qed

lemma expired_is_full:
  fixes m r s t :: rat
  assumes "0 < m" "0 < r" "s + of_int (\<lceil>m / r\<rceil> + 10) \<le> t"
  shows "m \<le> (t - s) * r"
proof -
  have "m / r \<le> of_int \<lceil>m / r\<rceil>" by (rule le_of_int_ceiling)
  also have "\<dots> \<le> t - s" using assms(3) by simp
  finally show ?thesis using assms(2) by (simp add: divide_le_eq)
qed

lemma bucket_next:
  assumes m: "0 < m" and r: "0 < r" and st: "s \<le> t" and x: "0 \<le> x" "x \<le> m"
  shows "token_bucket_lua m r t 1 (Some (bucket_at m r s x)) =
    (let y = min m (x + (t - s) * r); a = (1 \<le> y); z = (if a then y - 1 else y)
     in ((a, \<lfloor>z\<rfloor>), Some (bucket_at m r t z)))"
proof (cases "t < s + of_int (\<lceil>m / r\<rceil> + 10)")
  case True
  then show ?thesis using st
    by (simp add: token_bucket_lua_def live_bucket_def bucket_at_def Let_def max_absorb2)
next
  case False
  then have "m \<le> (t - s) * r" using expired_is_full [OF m r] by simp
  then have "min m (x + (t - s) * r) = m" using x by simp
  with False show ?thesis
    by (simp add: token_bucket_lua_def live_bucket_def bucket_at_def Let_def)
qed

lemma admitted_Cons: "rat_of_nat (admitted (a # as)) = (if a then 1 else 0) + rat_of_nat (admitted as)"
  by (simp add: admitted_def)

lemma admitted_after:
  assumes m: "0 < m" and r: "0 < r"
  shows "0 \<le> x \<Longrightarrow> x \<le> m \<Longrightarrow> sorted (s # ts) \<Longrightarrow>
    rat_of_nat (admitted (bucket_calls m r ts (Some (bucket_at m r s x)))) \<le> x + r * (last (s # ts) - s)"
proof (induction ts arbitrary: s x)
  case Nil
  then show ?case by (simp add: admitted_def)
next
  case (Cons t ts)
  define y where "y = min m (x + (t - s) * r)"
  define z where "z = (if 1 \<le> y then y - 1 else y)"
  have st: "s \<le> t" using Cons.prems(3) by simp
  have "0 \<le> (t - s) * r" using st r by simp
  then have z: "0 \<le> z" "z \<le> m" using Cons.prems(1,2) m by (auto simp: y_def z_def)
  have yz: "(if 1 \<le> y then 1 else 0) + z = y" by (simp add: z_def)
  have yx: "y \<le> x + (t - s) * r" by (simp add: y_def)
  have IH: "rat_of_nat (admitted (bucket_calls m r ts (Some (bucket_at m r t z)))) \<le> z + r * (last (t # ts) - t)"
    by (rule Cons.IH [OF z]) (use Cons.prems(3) in simp)
  have call: "token_bucket_lua m r t 1 (Some (bucket_at m r s x)) = ((1 \<le> y, \<lfloor>z\<rfloor>), Some (bucket_at m r t z))"
    using bucket_next [OF m r st Cons.prems(1,2)] by (simp only: Let_def y_def z_def)
  have "rat_of_nat (admitted (bucket_calls m r (t # ts) (Some (bucket_at m r s x)))) =
      (if 1 \<le> y then 1 else 0) + rat_of_nat (admitted (bucket_calls m r ts (Some (bucket_at m r t z))))"
    by (simp only: bucket_calls.simps call Let_def prod.case admitted_Cons)
  moreover have "r * (last (s # t # ts) - s) = (t - s) * r + r * (last (t # ts) - t)"
    by (simp add: algebra_simps)
  ultimately show ?case using IH yz yx by linarith
qed

text \<open>
  The rate limit holds over every interval. Whatever the bucket held before, among the
  requests with times in an ascending list, at most \<open>max_tokens + refill_rate * T\<close> are admitted,
  where \<open>T\<close> is the time from the first to the last of them; the expiry of the key never grants
  more.
\<close>

theorem token_bucket_rate:
  assumes "0 < m" "0 < r" "bucket_ok b" "sorted (t # ts)"
  shows "rat_of_nat (admitted (bucket_calls m r (t # ts) b)) \<le> m + r * (last (t # ts) - t)"
proof -
  from bucket_first [OF assms(3,1,2), of t] obtain a n x
    where c: "token_bucket_lua m r t 1 b = ((a, n), Some (bucket_at m r t x))" "0 \<le> x" "x \<le> m"
      "x + (if a then 1 else 0) \<le> m" by blast
  from admitted_after [OF assms(1,2) c(2,3) assms(4)]
  have "rat_of_nat (admitted (bucket_calls m r ts (Some (bucket_at m r t x)))) \<le> x + r * (last (t # ts) - t)" .
  moreover have "rat_of_nat (admitted (bucket_calls m r (t # ts) b)) =
      (if a then 1 else 0) + rat_of_nat (admitted (bucket_calls m r ts (Some (bucket_at m r t x))))"
    by (simp only: bucket_calls.simps c(1) Let_def prod.case admitted_Cons)
  ultimately show ?thesis using c(4) by linarith
qed

theorem token_bucket_rate_witness:
  "rat_of_nat (admitted (bucket_calls 4 2 [0, 0, 0, 0, 0, 1] None)) \<le> 4 + 2 * (last [0, 0, 0, 0, 0, 1] - 0)"
  by (rule token_bucket_rate) (simp_all add: bucket_ok_def)

fun spaced :: "rat \<Rightarrow> rat list \<Rightarrow> bool" where
  "spaced g (s # t # ts) = (s + g \<le> t \<and> spaced g (t # ts))"
| "spaced g _ = True"

lemma spaced_admitted:
  assumes m: "1 \<le> m" and r: "0 < r"
  shows "0 \<le> x \<Longrightarrow> x \<le> m \<Longrightarrow> spaced (1 / r) (s # ts) \<Longrightarrow>
    list_all (\<lambda>a. a) (bucket_calls m r ts (Some (bucket_at m r s x)))"
proof (induction ts arbitrary: s x)
  case (Cons t ts)
  let ?y = "min m (x + (t - s) * r)"
  have gap: "1 / r \<le> t - s" using Cons.prems(3) by simp
  then have "1 \<le> (t - s) * r" using r by (simp add: divide_le_eq)
  then have y: "1 \<le> ?y" using m Cons.prems(1) by simp
  have "0 \<le> 1 / r" using r by simp
  with gap have st: "s \<le> t" by linarith
  have m0: "0 < m" using m by linarith
  have "list_all (\<lambda>a. a) (bucket_calls m r ts (Some (bucket_at m r t (?y - 1))))"
    by (rule Cons.IH) (use y Cons.prems in auto)
  then show ?case using bucket_next [OF m0 r st Cons.prems(1,2)] y by (simp add: Let_def)
qed simp

text \<open>
  No throttling below the rate: a tenant whose requests are at least \<open>1 / refill_rate\<close> seconds
  apart is never refused, starting from a fresh bucket.
\<close>

theorem token_bucket_spaced:
  assumes "1 \<le> m" "0 < r" "spaced (1 / r) (t # ts)"
  shows "list_all (\<lambda>a. a) (bucket_calls m r (t # ts) None)"
proof -
  have "token_bucket_lua m r t 1 None = ((True, \<lfloor>m - 1\<rfloor>), Some (bucket_at m r t (m - 1)))"
    using assms(1,2) by (simp add: token_bucket_lua_def live_bucket_def bucket_at_def Let_def)
  moreover have "list_all (\<lambda>a. a) (bucket_calls m r ts (Some (bucket_at m r t (m - 1))))"
    by (rule spaced_admitted [OF assms(1,2) _ _ assms(3)]) (use assms(1) in auto)
  ultimately show ?thesis by simp
qed

theorem token_bucket_spaced_witness:
  "list_all (\<lambda>a. a) (bucket_calls 4 2 [0, 1, 3 / 2] None)"
  by (rule token_bucket_spaced) simp_all

section \<open>The launch quota\<close>

text \<open>The uses of one tenant's usage row: launches at given times and jobs that finish.\<close>

datatype quota_action = Launch int | JobFinished

fun quota_run ::
  "tenancy_settings \<Rightarrow> organization \<Rightarrow> quota_action list \<Rightarrow> tenant_usage option \<Rightarrow>
     bool list \<times> tenant_usage option" where
  "quota_run cfg org [] st = ([], st)"
| "quota_run cfg org (Launch now # as) st =
     (let (r, st1) = check_tenant_quota cfg (Some org) now st;
          (bs, st2) = quota_run cfg org as st1
      in (q_allowed r # bs, st2))"
| "quota_run cfg org (JobFinished # as) st = quota_run cfg org as (on_job_finished (Some org) st)"

definition within_quota :: "organization \<Rightarrow> tenant_usage \<Rightarrow> bool" where
  "within_quota org u \<longleftrightarrow> list_all (\<lambda>(k, current, limit). check_quota_value current limit) (quota_checks org u)"

definition usage_of :: "int \<Rightarrow> tenant_usage option \<Rightarrow> tenant_usage" where
  "usage_of now st = rollover now (case st of None \<Rightarrow> new_usage now | Some u \<Rightarrow> u)"

lemma quota_gate [gate_simps]:
  assumes "tenancy_enabled cfg" "is_tenant_root org"
  shows "q_allowed (fst (check_tenant_quota cfg (Some org) now st)) \<longleftrightarrow> within_quota org (usage_of now st)"
    and "snd (check_tenant_quota cfg (Some org) now st) = Some (let u = usage_of now st
       in if within_quota org u then u\<lparr>concurrent_jobs_count := concurrent_jobs_count u + 1,
              launches_today_count := launches_today_count u + 1\<rparr> else u)"
proof -
  have "List.find (\<lambda>(k, current, limit). \<not> check_quota_value current limit) (quota_checks org (usage_of now st)) = None
      \<longleftrightarrow> within_quota org (usage_of now st)"
    unfolding find_None_iff within_quota_def list_all_iff by auto
  then show "q_allowed (fst (check_tenant_quota cfg (Some org) now st)) \<longleftrightarrow> within_quota org (usage_of now st)"
    and "snd (check_tenant_quota cfg (Some org) now st) = Some (let u = usage_of now st
       in if within_quota org u then u\<lparr>concurrent_jobs_count := concurrent_jobs_count u + 1,
              launches_today_count := launches_today_count u + 1\<rparr> else u)"
    using assms by (auto simp: check_tenant_quota_def usage_of_def [symmetric] Let_def split: option.splits)
qed

definition launched_on :: "int \<Rightarrow> tenant_usage option \<Rightarrow> int" where
  "launched_on d st = (case st of None \<Rightarrow> 0 | Some u \<Rightarrow>
     (case launches_today_window_start u of None \<Rightarrow> 0
      | Some w \<Rightarrow> if utc_day w = d then launches_today_count u else 0))"

lemma utc_day_start: "utc_day (utc_day t * 86400) = utc_day t"
  by (simp add: utc_day_def)

lemma usage_of_window: "\<exists>w. launches_today_window_start (usage_of now st) = Some w \<and> utc_day w = utc_day now"
  by (auto simp: usage_of_def rollover_def is_window_expired_def reset_daily_window_def new_usage_def
      Let_def utc_day_start split: option.splits)

lemma usage_of_launches: "launches_today_count (usage_of now st) = launched_on (utc_day now) st"
  by (auto simp: usage_of_def rollover_def is_window_expired_def reset_daily_window_def new_usage_def
      launched_on_def Let_def utc_day_start split: option.splits)

lemma daily_bound:
  assumes cfg: "tenancy_enabled cfg" "is_tenant_root org"
    and l: "tenant_max_daily_launches org = Some l" "0 < l"
  shows "\<forall>now. Launch now \<in> set as \<longrightarrow> utc_day now = d \<Longrightarrow>
    int (admitted (fst (quota_run cfg org as st))) \<le> max 0 (l - launched_on d st)"
proof (induction as arbitrary: st)
  case (Cons a as)
  show ?case
  proof (cases a)
    case JobFinished
    have "launched_on d (on_job_finished (Some org) st) = launched_on d st"
      using cfg by (auto simp: on_job_finished_def launched_on_def split: option.splits)
    then show ?thesis using Cons.IH [of "on_job_finished (Some org) st"] Cons.prems JobFinished by simp
  next
    case (Launch now)
    let ?u = "usage_of now st" and ?r = "check_tenant_quota cfg (Some org) now st"
    have d: "utc_day now = d" using Cons.prems Launch by simp
    have IH: "int (admitted (fst (quota_run cfg org as (snd ?r)))) \<le> max 0 (l - launched_on d (snd ?r))"
      by (rule Cons.IH) (use Cons.prems in simp)
    have step: "admitted (fst (quota_run cfg org (a # as) st)) =
        (if within_quota org ?u then 1 else 0) + admitted (fst (quota_run cfg org as (snd ?r)))"
      using Launch quota_gate(1) [OF cfg, of now st] by (simp add: admitted_def split_def Let_def)
    have after: "launched_on d (snd ?r) = launched_on d st + (if within_quota org ?u then 1 else 0)"
      using usage_of_window [of now st] usage_of_launches [of now st] d
      by (auto simp: quota_gate(2) [OF cfg] launched_on_def Let_def)
    have "within_quota org ?u \<Longrightarrow> launched_on d st < l"
      using l usage_of_launches [of now st] d
      by (simp add: within_quota_def quota_checks_def check_quota_value_def)
    with IH step after show ?thesis by (auto split: if_splits)
  qed
qed (simp add: admitted_def)

lemma concurrent_bound:
  assumes cfg: "tenancy_enabled cfg" "is_tenant_root org"
    and l: "tenant_max_concurrent_jobs org = Some l" "0 < l"
  shows "(case st of None \<Rightarrow> True | Some u \<Rightarrow> concurrent_jobs_count u \<le> l) \<Longrightarrow>
    (case snd (quota_run cfg org as st) of None \<Rightarrow> True | Some u \<Rightarrow> concurrent_jobs_count u \<le> l)"
proof (induction as arbitrary: st)
  case (Cons a as)
  show ?case
  proof (cases a)
    case JobFinished
    have "case on_job_finished (Some org) st of None \<Rightarrow> True | Some u \<Rightarrow> concurrent_jobs_count u \<le> l"
      using Cons.prems cfg l by (auto simp: on_job_finished_def split: option.splits)
    from Cons.IH [OF this] JobFinished show ?thesis by simp
  next
    case (Launch now)
    let ?u = "usage_of now st" and ?r = "check_tenant_quota cfg (Some org) now st"
    have "concurrent_jobs_count ?u \<le> l"
      using Cons.prems l by (auto simp: usage_of_def rollover_def new_usage_def Let_def reset_daily_window_def
          split: option.splits)
    moreover have "within_quota org ?u \<Longrightarrow> concurrent_jobs_count ?u < l"
      using l by (simp add: within_quota_def quota_checks_def check_quota_value_def)
    ultimately have "case snd ?r of None \<Rightarrow> True | Some u \<Rightarrow> concurrent_jobs_count u \<le> l"
      by (auto simp: quota_gate(2) [OF cfg] Let_def)
    from Cons.IH [OF this] Launch show ?thesis by (simp add: split_def Let_def)
  qed
qed simp

text \<open>
  The launch quota of a tenant holds over every history of launches and finished jobs. With a
  daily limit, the launches admitted on one UTC day never exceed it, from whatever count the row
  held (a stale count of an earlier day is forgotten); with a limit on concurrent jobs, the counter
  of concurrent jobs never passes it.
\<close>

theorem tenant_quota_holds:
  assumes "tenancy_enabled cfg" "is_tenant_root org"
    and "tenant_max_daily_launches org = Some daily" "0 < daily" "0 \<le> launched_on d st"
    and "tenant_max_concurrent_jobs org = Some conc" "0 < conc"
    and "case st of None \<Rightarrow> True | Some u \<Rightarrow> concurrent_jobs_count u \<le> conc"
    and "\<forall>now. Launch now \<in> set as \<longrightarrow> utc_day now = d"
  shows "int (admitted (fst (quota_run cfg org as st))) \<le> daily \<and>
    (case snd (quota_run cfg org as st) of None \<Rightarrow> True | Some u \<Rightarrow> concurrent_jobs_count u \<le> conc)"
  using daily_bound [OF assms(1-4) assms(9), of st] concurrent_bound [OF assms(1,2,6,7,8), of as] assms(4,5)
  by linarith

definition all_on :: tenancy_settings where
  "all_on = \<lparr>tenancy_enabled = True, rls_enabled = True, strict_isolation_enabled = True,
     rate_limiting_enabled = True, default_api_rate_limit = 5, rate_limit_fail_closed = False,
     dedicated_queues_enabled = True\<rparr>"

definition acme :: organization where
  "acme = \<lparr>org_pk = 7, org_name = ''acme'', is_tenant_root = True, tenant_max_concurrent_jobs = Some 1,
     tenant_max_daily_launches = Some 2, tenant_max_hosts = None, tenant_max_storage_mb = None,
     tenant_isolation_strict = True, tenant_api_rate_limit = None\<rparr>"

theorem tenant_quota_witness:
  "int (admitted (fst (quota_run all_on acme [Launch 10, Launch 20, JobFinished, Launch 30] None))) \<le> 2 \<and>
   (case snd (quota_run all_on acme [Launch 10, Launch 20, JobFinished, Launch 30] None) of
      None \<Rightarrow> True | Some u \<Rightarrow> concurrent_jobs_count u \<le> 1)"
  by (rule tenant_quota_holds [where d = 0])
    (auto simp: all_on_def acme_def launched_on_def utc_day_def)

section \<open>Row-level security\<close>

text \<open>
  The truth of a condition for a row, with SQL's unknown as \<open>None\<close>. A row gives its integer columns,
  a table gives its rows by id.
\<close>

type_synonym sql_row = "string \<Rightarrow> pk option"

fun sql_eval :: "session \<Rightarrow> (string \<Rightarrow> pk \<Rightarrow> sql_row option) \<Rightarrow> sql_row \<Rightarrow> sql_cond \<Rightarrow> bool option" where
  "sql_eval s tabs row (ColumnIsTenant c) =
     (case (row c, s) of (Some i, Some t) \<Rightarrow> Some (i = t) | _ \<Rightarrow> None)"
| "sql_eval s tabs row (ColumnIsNull c) = Some (row c = None)"
| "sql_eval s tabs row TenantIsNull = Some (s = None)"
| "sql_eval s tabs row (ColumnInParent fk parent c null_branch) =
     (case row fk of
        None \<Rightarrow> None
      | Some k \<Rightarrow> Some (case tabs parent k of
            None \<Rightarrow> False
          | Some prow \<Rightarrow>
              (case (prow c, s) of (Some i, Some t) \<Rightarrow> i = t | _ \<Rightarrow> False) \<or> (null_branch \<and> prow c = None)))"

text \<open>A policy shows a row if the disjunction of its conditions is true, not unknown.\<close>

definition policy_shows :: "session \<Rightarrow> (string \<Rightarrow> pk \<Rightarrow> sql_row option) \<Rightarrow> sql_row \<Rightarrow> sql_cond list \<Rightarrow> bool" where
  "policy_shows s tabs row conds \<longleftrightarrow> list_ex (\<lambda>c. sql_eval s tabs row c = Some True) conds"

text \<open>
  The generated policies isolate tenants. Under the scope of tenant \<open>t\<close> a row of a directly
  scoped table is shown exactly if its organization is \<open>t\<close>, or it has none and the table is one of
  the five in which a missing organization means shared; a host is shown exactly if its inventory is
  one of \<open>t\<close>'s, or it has no inventory. Without a scope every row is shown.
\<close>

theorem rls_policies_isolate:
  "(policy_shows (Some t) tabs row (rls_using table col) \<longleftrightarrow>
      row col = Some t \<or> (row col = None \<and> null_org_is_global table)) \<and>
   (policy_shows (Some t) tabs row
        (rls_using_indirect ''main_host'' ''inventory_id'' ''main_inventory'' ''organization_id'') \<longleftrightarrow>
      (case row ''inventory_id'' of
         None \<Rightarrow> True
       | Some i \<Rightarrow> (case tabs ''main_inventory'' i of
           None \<Rightarrow> False | Some parent \<Rightarrow> parent ''organization_id'' = Some t))) \<and>
   policy_shows None tabs row (rls_using table col)"
  by (auto simp: policy_shows_def rls_using_def rls_using_indirect_def null_org_is_global_def
      rls_global_null_org_tables_def split: option.splits)

lemma rls_visible_policy: "rls_visible s (null_org_is_global table) (row col) = policy_shows s tabs row (rls_using table col)"
  by (auto simp: rls_visible_def policy_shows_def rls_using_def split: option.splits)

section \<open>The isolation middleware\<close>

text \<open>A request of an ordinary user whose first tenant organization is the given one.\<close>

definition tenant_request :: "request \<Rightarrow> organization \<Rightarrow> bool" where
  "tenant_request req org \<longleftrightarrow> org_pk org \<noteq> 0 \<and>
     (\<exists>u. req_user req = Some u \<and> is_authenticated u \<and> \<not> is_superuser u \<and>
        (\<exists>rest. filter is_tenant_root (user_orgs u) = org # rest))"

lemma tenant_resolved:
  assumes "tenancy_enabled cfg" "rls_enabled cfg" "tenant_request req org"
  shows "resolve_tenant_org cfg resolve_fails req = (if resolve_fails then ResolveError else Resolved (Some org))"
  using assms by (auto simp: resolve_tenant_org_def tenant_request_def)

lemma session_of: "org_pk org \<noteq> 0 \<Longrightarrow> set_tenant_id (Some (org_pk org)) = Some (org_pk org)"
  by (simp add: set_tenant_id_def)

text \<open>
  A tenant's request never runs unscoped. With tenancy and row-level security on, the view of
  an ordinary user of a tenant either does not run or runs under the scope of exactly that tenant;
  it does not run if the tenant could not be determined or its scope could not be installed; and
  after it has run the scope is gone.
\<close>

theorem tenant_view_scoped:
  assumes "tenancy_enabled cfg" "rls_enabled cfg" "tenant_request req org"
  shows "(let out = middleware_call cfg req resolve_fails set_fails lookup_fails db s
    in view_ran_under out \<in> {None, Some (Some (org_pk org))} \<and>
       (resolve_fails \<or> set_fails \<longrightarrow> out_response out = IsolationUnavailable \<and> view_ran_under out = None) \<and>
       (view_ran_under out \<noteq> None \<longrightarrow> final_session out = None))"
proof -
  have "org_pk org \<noteq> 0" using assms(3) by (simp add: tenant_request_def)
  then show ?thesis
    using assms(1,2)
    by (auto simp: middleware_call_def tenant_resolved [OF assms] session_of Let_def
        split: prod.splits option.splits)
qed

text \<open>The organization that owns the row a view names, read without a scope.\<close>

definition row_org :: "database \<Rightarrow> view_target \<Rightarrow> pk \<Rightarrow> pk option" where
  "row_org db v k =
     (if model_is_direct v then (case direct_org db k of None \<Rightarrow> None | Some x \<Rightarrow> x)
      else (case host_inventory db k of
              Some (Some i) \<Rightarrow> (case inventory_org db i of None \<Rightarrow> None | Some x \<Rightarrow> x)
            | _ \<Rightarrow> None))"

definition covered_view :: "view_target \<Rightarrow> pk \<Rightarrow> bool" where
  "covered_view v k \<longleftrightarrow> kw_organization v = None \<and> kw_pk v = Some k \<and> has_model v \<and>
     (model_is_direct v \<or> model_is_host v)"

lemma unscoped_id: "scoped None db = db"
  by (simp add: scoped_def rls_visible_def fun_eq_iff split: option.split)

lemma resolve_covered:
  assumes "covered_view v k"
  shows "resolve_target_org_id lookup_fails db v =
    (if lookup_fails then DenyUnresolved else some_org (row_org db v k))"
  using assms
  by (auto simp: covered_view_def resolve_target_org_id_def lookup_target_org_def unscoped_id row_org_def
      some_org_def Let_def split: option.splits)

text \<open>
  The strict gate is exact. When strict isolation is in force, both globally and for the
  tenant, a request of the tenant for one row of an organization-scoped model outside the exempt
  paths is denied exactly if the row belongs to another organization or its organization could not
  be looked up, and then an event with the blocked flag is recorded; otherwise the view runs and no
  event is recorded.
\<close>

theorem strict_gate_exact:
  assumes "tenancy_enabled cfg" "rls_enabled cfg" "strict_isolation_enabled cfg"
    and "tenant_request req org" "tenant_isolation_strict org"
    and "\<not> should_exempt_isolation (req_path req)" "covered_view (req_view req) k"
  shows "(let out = middleware_call cfg req False False lookup_fails db s;
              foreign = (case row_org db (req_view req) k of None \<Rightarrow> False | Some i \<Rightarrow> i \<noteq> 0 \<and> i \<noteq> org_pk org)
    in out_response out = (if lookup_fails \<or> foreign then CrossTenantDenied else FromView) \<and>
       view_ran_under out = (if lookup_fails \<or> foreign then None else Some (Some (org_pk org))) \<and>
       map ie_blocked (out_events out) = (if lookup_fails \<or> foreign then [True] else []))"
proof -
  obtain u where u: "req_user req = Some u" "is_authenticated u" "\<not> is_superuser u" and pk: "org_pk org \<noteq> 0"
    using assms(4) by (auto simp: tenant_request_def)
  have pv: "process_view cfg req (Some org) lookup_fails db =
      (case resolve_target_org_id lookup_fails db (req_view req) of
         DenyUnresolved \<Rightarrow> (Some CrossTenantDenied, [isolation_event_for req org None True])
       | NotCovered \<Rightarrow> (None, [])
       | TargetOrg t \<Rightarrow> if t \<noteq> int (org_pk org)
           then (Some CrossTenantDenied, [isolation_event_for req org (Some t) True]) else (None, []))"
    using u assms by (simp add: process_view_def make_isolation_decision_def Let_def split: target_org.split)
  show ?thesis
    unfolding middleware_call_def tenant_resolved [OF assms(1,2,4)] Let_def
    using pk by (auto simp: pv resolve_covered [OF assms(7)] some_org_def session_of isolation_event_for_def
        split: option.splits)
qed

text \<open>
  Both tenant gates hang on row-level security. With \<open>TENANCY_RLS_ENABLED\<close> off, every request
  reaches its view with the session as it was, nothing is recorded, and the rate limiter admits it,
  however strict isolation and rate limiting are configured.
\<close>

theorem gates_need_rls:
  assumes "\<not> rls_enabled cfg"
  shows "middleware_call cfg req resolve_fails set_fails lookup_fails db s =
      \<lparr>out_response = FromView, view_ran_under = Some s, final_session = s, out_events = []\<rparr> \<and>
    resolve_tenant_org cfg resolve_fails req = Resolved None \<and>
    fst (rate_limit_call cfg req None now redis_fails store) = FromView"
  using assms
  by (auto simp: middleware_call_def resolve_tenant_org_def process_view_def rate_limit_call_def Let_def
      split: option.splits)

definition ann_request :: request where
  "ann_request = \<lparr>req_user = Some \<lparr>is_authenticated = True, is_superuser = False, user_orgs = [acme]\<rparr>,
     req_path = ''/api/v2/inventories/5/'',
     req_view = \<lparr>kw_organization = None, kw_pk = Some 5, has_model = True, model_is_host = False,
       model_is_direct = True\<rparr>\<rparr>"

definition foreign_db :: database where
  "foreign_db = \<lparr>direct_org = (\<lambda>_. Some (Some 8)), host_inventory = (\<lambda>_. None), inventory_org = (\<lambda>_. None)\<rparr>"

lemma ann_tenant: "tenant_request ann_request acme"
  by (simp add: tenant_request_def ann_request_def acme_def)

theorem tenant_view_scoped_witness:
  "view_ran_under (middleware_call all_on ann_request False False False foreign_db None) \<in> {None, Some (Some (org_pk acme))}"
proof -
  have "tenancy_enabled all_on" "rls_enabled all_on" by (simp_all add: all_on_def)
  from tenant_view_scoped [OF this ann_tenant, of False False False foreign_db None]
  show ?thesis by (simp add: Let_def)
qed

theorem strict_gate_witness:
  "out_response (middleware_call all_on ann_request False False False foreign_db None) = CrossTenantDenied"
proof -
  have cfg: "tenancy_enabled all_on" "rls_enabled all_on" "strict_isolation_enabled all_on"
    by (simp_all add: all_on_def)
  have strict: "tenant_isolation_strict acme" by (simp add: acme_def)
  have path: "\<not> should_exempt_isolation (req_path ann_request)"
    by (simp add: should_exempt_isolation_def isolation_exempt_path_prefixes_def ann_request_def startswith_def)
  have cov: "covered_view (req_view ann_request) 5" by (simp add: covered_view_def ann_request_def)
  from strict_gate_exact [OF cfg ann_tenant strict path cov, of False foreign_db None]
  show ?thesis by (simp add: Let_def row_org_def foreign_db_def ann_request_def acme_def)
qed

theorem gates_need_rls_witness:
  "middleware_call (all_on\<lparr>rls_enabled := False\<rparr>) ann_request False False False foreign_db None =
      \<lparr>out_response = FromView, view_ran_under = Some None, final_session = None, out_events = []\<rparr> \<and>
    resolve_tenant_org (all_on\<lparr>rls_enabled := False\<rparr>) False ann_request = Resolved None \<and>
    fst (rate_limit_call (all_on\<lparr>rls_enabled := False\<rparr>) ann_request None 0 False None) = FromView"
  by (rule gates_need_rls) simp

end
