(* ===== verification/Scan_Tools.thy ===== *)
theory Scan_Tools
  imports Python_Values
begin

text \<open>
  The scanner tools: the severities of \<open>forail/main/models/scanner.py\<close> and the three adapters
  \<open>ansible_lint.py\<close>, \<open>checkov.py\<close> and \<open>pip_audit.py\<close> of \<open>forail/main/scanning/tools\<close>.

  \<open>json.loads\<close> is an argument that gives \<open>None\<close> where it raises. An adapter that itself raises (an
  attribute of a value that is no object, an iteration over a number) gives \<open>None\<close>.
\<close>

section \<open>Severities\<close>

datatype severity = Info | Low | Medium | High | Critical

fun severity_rank :: "severity \<Rightarrow> int" where
  "severity_rank Info = 0"
| "severity_rank Low = 1"
| "severity_rank Medium = 2"
| "severity_rank High = 3"
| "severity_rank Critical = 4"

lemma severity_rank_inject: "severity_rank a = severity_rank b \<longleftrightarrow> a = b"
  by (cases a; cases b) simp_all

instantiation severity :: linorder
begin

definition less_eq_severity :: "severity \<Rightarrow> severity \<Rightarrow> bool" where
  "a \<le> b \<longleftrightarrow> severity_rank a \<le> severity_rank b"

definition less_severity :: "severity \<Rightarrow> severity \<Rightarrow> bool" where
  "a < b \<longleftrightarrow> severity_rank a < severity_rank b"

instance
  by standard (auto simp: less_eq_severity_def less_severity_def severity_rank_inject)

end

fun severity_name :: "severity \<Rightarrow> string" where
  "severity_name Info = ''info''"
| "severity_name Low = ''low''"
| "severity_name Medium = ''medium''"
| "severity_name High = ''high''"
| "severity_name Critical = ''critical''"

definition all_severities :: "severity list" where
  "all_severities = [Info, Low, Medium, High, Critical]"

definition severity_of_name :: "string \<Rightarrow> severity option" where
  "severity_of_name s = List.find (\<lambda>v. severity_name v = s) all_severities"

text \<open>\<open>SEVERITY_ORDER.get(s, dflt)\<close>.\<close>

definition severity_order :: "string \<Rightarrow> int \<Rightarrow> int" where
  "severity_order s dflt = (case severity_of_name s of None \<Rightarrow> dflt | Some v \<Rightarrow> severity_rank v)"

definition severity_at_or_above :: "string \<Rightarrow> string \<Rightarrow> bool" where
  "severity_at_or_above finding_sev threshold \<longleftrightarrow>
     severity_order (lower finding_sev) 0 \<ge> severity_order (lower threshold) 0"

text \<open>The severity that a text stands for: unknown text counts as \<open>info\<close>.\<close>

definition severity_of :: "string \<Rightarrow> severity" where
  "severity_of s = (case severity_of_name (lower s) of None \<Rightarrow> Info | Some v \<Rightarrow> v)"

lemma severity_at_or_above_order: "severity_at_or_above f t \<longleftrightarrow> severity_of t \<le> severity_of f"
  by (auto simp: severity_at_or_above_def severity_order_def severity_of_def less_eq_severity_def
      split: option.splits)

section \<open>Findings\<close>

record finding =
  rule_id :: string
  severity :: string
  file_path :: string
  line :: "int option"
  message :: string

text \<open>Python operations that raise on a value of the wrong shape.\<close>

definition get_attr :: "json \<Rightarrow> string \<Rightarrow> json option" where
  "get_attr v k = (case v of JObj d \<Rightarrow> Some (obj_get d k) | _ \<Rightarrow> None)"

definition iterate :: "json \<Rightarrow> json list option" where
  "iterate v =
     (case v of
        JList xs \<Rightarrow> Some xs
      | JObj kvs \<Rightarrow> Some (map (\<lambda>(k, _). JStr k) kvs)
      | JStr s \<Rightarrow> Some (map (\<lambda>c. JStr [c]) s)
      | _ \<Rightarrow> None)"

definition first_item :: "json \<Rightarrow> json option" where
  "first_item v =
     (case v of
        JList (x # _) \<Rightarrow> Some x
      | JStr (c # _) \<Rightarrow> Some (JStr [c])
      | _ \<Rightarrow> None)"

definition py_or :: "json \<Rightarrow> json \<Rightarrow> json" where
  "py_or a b = (if json_true a then a else b)"

definition no_text :: json where "no_text = JStr []"
definition no_object :: json where "no_object = JObj []"
definition no_list :: json where "no_list = JList []"

fun collect :: "('a \<Rightarrow> 'b list option) \<Rightarrow> 'a list \<Rightarrow> 'b list option" where
  "collect f [] = Some []"
| "collect f (x # xs) =
     (case f x of
        None \<Rightarrow> None
      | Some ys \<Rightarrow> (case collect f xs of None \<Rightarrow> None | Some zs \<Rightarrow> Some (ys @ zs)))"

lemma collect_mem:
  "collect f xs = Some ys \<Longrightarrow> y \<in> set ys \<Longrightarrow> \<exists>x \<in> set xs. \<exists>zs. f x = Some zs \<and> y \<in> set zs"
  by (induction xs arbitrary: ys) (auto split: option.splits)

section \<open>ansible-lint\<close>

definition lint_command :: "(json \<Rightarrow> string) \<Rightarrow> string \<Rightarrow> json \<Rightarrow> json list option" where
  "lint_command r target config =
     (let base = [JStr ''ansible-lint'', JStr ''-f'', JStr ''json'']
      in case config of
           JObj (kv # kvs) \<Rightarrow>
             (let d = kv # kvs;
                  strict = (if json_true (dict_get d ''strict'' (JBool True)) then [JStr ''--strict''] else []);
                  profile = obj_get d ''profile'';
                  prof = (if json_true profile then [JStr ''--profile'', JStr (py_str r profile)] else [])
              in case iterate (py_or (dict_get d ''skip_list'' no_list) no_list) of
                   None \<Rightarrow> None
                 | Some skips \<Rightarrow>
                     Some (base @ strict @ prof @
                       concat (map (\<lambda>s. [JStr ''--skip-list'', JStr (py_str r s)]) skips) @ [JStr target]))
         | _ \<Rightarrow> Some (base @ [JStr ''--strict'', JStr target]))"

definition lint_severity :: "(json \<Rightarrow> string) \<Rightarrow> json \<Rightarrow> string" where
  "lint_severity r raw =
     (if \<not> json_true raw then ''info''
      else (let s = lower (py_str r raw)
            in if s = ''warning'' then ''low'' else if s = ''error'' then ''high'' else ''low''))"

definition lint_rule :: "(string \<times> json) list \<Rightarrow> json option" where
  "lint_rule d =
     (let a = obj_get d ''check_name''; b = obj_get d ''rule_id''
      in if json_true a then Some a
         else if json_true b then Some b
         else (case get_attr (py_or (obj_get d ''rule'') no_object) ''id'' of
                 None \<Rightarrow> None
               | Some c \<Rightarrow> Some (py_or c no_text)))"

definition lint_raw_severity :: "(string \<times> json) list \<Rightarrow> json option" where
  "lint_raw_severity d =
     (let s = obj_get d ''severity''
      in if json_true s then Some s
         else (let cats = py_or (obj_get d ''categories'') no_list
               in if json_true cats then first_item cats else Some no_text))"

definition lint_line :: "json \<Rightarrow> (string \<times> json) list \<Rightarrow> int option" where
  "lint_line lines d =
     (let l0 = (case lines of
            JObj ls \<Rightarrow> py_or (obj_get ls ''begin'') (obj_get ls ''start'')
          | JInt i \<Rightarrow> JInt i
          | JBool b \<Rightarrow> JBool b
          | _ \<Rightarrow> JNull);
          l1 = (if l0 = JNull then obj_get d ''line'' else l0)
      in if l1 = JNull then None else py_int l1)"

definition lint_item :: "(json \<Rightarrow> string) \<Rightarrow> json \<Rightarrow> finding list option" where
  "lint_item r item =
     (case item of
        JObj d \<Rightarrow>
          (case lint_rule d of
             None \<Rightarrow> None
           | Some rule \<Rightarrow>
               (case lint_raw_severity d of
                  None \<Rightarrow> None
                | Some raw \<Rightarrow>
                    (let loc = py_or (obj_get d ''location'') no_object
                     in case (get_attr loc ''path'', get_attr loc ''lines'') of
                          (Some p, Some ls) \<Rightarrow>
                            (let path = py_or p (py_or (obj_get d ''filename'') no_text);
                                 lines = py_or ls no_object;
                                 msg = py_or (obj_get d ''message'') (py_or (obj_get d ''description'') no_text)
                             in Some [\<lparr>rule_id = py_str r rule, severity = lint_severity r raw,
                                       file_path = py_str r path, line = lint_line lines d,
                                       message = py_str r msg\<rparr>])
                        | _ \<Rightarrow> None)))
      | _ \<Rightarrow> Some [])"

definition lint_parse :: "(string \<Rightarrow> json option) \<Rightarrow> (json \<Rightarrow> string) \<Rightarrow> string \<Rightarrow> finding list option" where
  "lint_parse loads r stdout =
     (if stdout = [] then Some []
      else case loads stdout of
        None \<Rightarrow> Some []
      | Some data \<Rightarrow>
          (case data of
             JObj d \<Rightarrow>
               (case iterate (py_or (obj_get d ''issues'') (py_or (obj_get d ''results'') no_list)) of
                  None \<Rightarrow> None | Some xs \<Rightarrow> collect (lint_item r) xs)
           | JList xs \<Rightarrow> collect (lint_item r) xs
           | _ \<Rightarrow> Some []))"

section \<open>Checkov\<close>

definition checkov_command :: "(json \<Rightarrow> string) \<Rightarrow> string \<Rightarrow> json \<Rightarrow> json list option" where
  "checkov_command r target config =
     (let d = (case config of JObj kvs \<Rightarrow> kvs | _ \<Rightarrow> []);
          framework = dict_get d ''framework'' (JStr ''ansible'')
      in case iterate (py_or (dict_get d ''skip_check'' no_list) no_list) of
           None \<Rightarrow> None
         | Some skips \<Rightarrow>
             Some ([JStr ''checkov'', JStr ''-f'', JStr target, JStr ''--framework'', framework,
                    JStr ''-o'', JStr ''json''] @
                   concat (map (\<lambda>s. [JStr ''--skip-check'', JStr (py_str r s)]) skips)))"

definition checkov_severity :: "(json \<Rightarrow> string) \<Rightarrow> json \<Rightarrow> string" where
  "checkov_severity r raw =
     (if raw = JNull then ''medium''
      else (case severity_of_name (lower (py_str r raw)) of None \<Rightarrow> ''medium'' | Some v \<Rightarrow> severity_name v))"

definition checkov_item :: "(json \<Rightarrow> string) \<Rightarrow> json \<Rightarrow> finding list option" where
  "checkov_item r item =
     (case item of
        JObj d \<Rightarrow>
          Some [\<lparr>rule_id = py_str r (py_or (obj_get d ''check_id'') (py_or (obj_get d ''bc_check_id'') no_text)),
                 severity = checkov_severity r (obj_get d ''severity''),
                 file_path = py_str r (py_or (obj_get d ''file_path'') (py_or (obj_get d ''repo_file_path'') no_text)),
                 line = (case obj_get d ''file_line_range'' of JList (x # _) \<Rightarrow> py_int x | _ \<Rightarrow> None),
                 message = py_str r (py_or (obj_get d ''check_name'') (py_or (obj_get d ''description'') no_text))\<rparr>]
      | _ \<Rightarrow> Some [])"

definition checkov_envelope :: "(json \<Rightarrow> string) \<Rightarrow> json \<Rightarrow> finding list option" where
  "checkov_envelope r env =
     (case env of
        JObj d \<Rightarrow>
          (case get_attr (py_or (obj_get d ''results'') no_object) ''failed_checks'' of
             None \<Rightarrow> None
           | Some failed \<Rightarrow>
               (case iterate (py_or failed no_list) of None \<Rightarrow> None | Some xs \<Rightarrow> collect (checkov_item r) xs))
      | _ \<Rightarrow> Some [])"

definition checkov_parse :: "(string \<Rightarrow> json option) \<Rightarrow> (json \<Rightarrow> string) \<Rightarrow> string \<Rightarrow> finding list option" where
  "checkov_parse loads r stdout =
     (if stdout = [] then Some []
      else case loads stdout of
        None \<Rightarrow> Some []
      | Some data \<Rightarrow> collect (checkov_envelope r) (case data of JList xs \<Rightarrow> xs | _ \<Rightarrow> [data]))"

section \<open>pip-audit\<close>

definition unsafe_override :: "string \<Rightarrow> bool" where
  "unsafe_override p \<longleftrightarrow> startswith p ''/'' \<or>
     ''..'' \<in> set (split_on (CHR ''/'') (map (\<lambda>c. if c = CHR 0x5C then CHR ''/'' else c) p))"

definition pip_command :: "string \<Rightarrow> json \<Rightarrow> json list option" where
  "pip_command target config =
     (let cmd = (\<lambda>q. Some [JStr ''pip-audit'', JStr ''--format'', JStr ''json'', JStr ''-r'', JStr q])
      in case config of
           JObj d \<Rightarrow>
             (let override = obj_get d ''requirements''
              in if \<not> json_true override then cmd target
                 else (case override of
                         JStr p \<Rightarrow> cmd (if unsafe_override p then target else p)
                       | _ \<Rightarrow> None))
         | _ \<Rightarrow> cmd target)"

text \<open>\<open>", ".join(fix)\<close> needs a sequence of text.\<close>

definition text_items :: "json \<Rightarrow> string list option" where
  "text_items v =
     (case iterate v of
        None \<Rightarrow> None
      | Some xs \<Rightarrow>
          if list_all (\<lambda>x. case x of JStr _ \<Rightarrow> True | _ \<Rightarrow> False) xs
          then Some (map (\<lambda>x. case x of JStr s \<Rightarrow> s | _ \<Rightarrow> []) xs) else None)"

definition pip_vuln :: "(json \<Rightarrow> string) \<Rightarrow> json \<Rightarrow> json \<Rightarrow> json \<Rightarrow> finding list option" where
  "pip_vuln r pkg version v =
     (case v of
        JObj d \<Rightarrow>
          (let rule = py_or (obj_get d ''id'') no_text;
               description = py_or (obj_get d ''description'') no_text;
               fix_versions = py_or (obj_get d ''fix_versions'') no_list;
               msg = py_str r pkg @ '' '' @ py_str r version @ '': '' @ py_str r description;
               make = (\<lambda>m. Some [\<lparr>rule_id = py_str r rule, severity = ''high'', file_path = py_str r pkg,
                                  line = None, message = m\<rparr>])
           in if \<not> json_true fix_versions then make msg
              else (case text_items fix_versions of
                      None \<Rightarrow> None
                    | Some fs \<Rightarrow> make (msg @ '' (fix: '' @ join_with '', '' fs @ '')'')))
      | _ \<Rightarrow> Some [])"

definition pip_dependency :: "(json \<Rightarrow> string) \<Rightarrow> json \<Rightarrow> finding list option" where
  "pip_dependency r dep =
     (case dep of
        JObj d \<Rightarrow>
          (let pkg = py_or (obj_get d ''name'') (py_or (obj_get d ''package'') no_text);
               version = py_or (obj_get d ''version'') no_text
           in case iterate (py_or (obj_get d ''vulns'') no_list) of
                None \<Rightarrow> None
              | Some vs \<Rightarrow> collect (pip_vuln r pkg version) vs)
      | _ \<Rightarrow> Some [])"

definition pip_parse :: "(string \<Rightarrow> json option) \<Rightarrow> (json \<Rightarrow> string) \<Rightarrow> string \<Rightarrow> finding list option" where
  "pip_parse loads r stdout =
     (if stdout = [] then Some []
      else case loads stdout of
        None \<Rightarrow> Some []
      | Some data \<Rightarrow>
          (case data of
             JObj d \<Rightarrow>
               (case iterate (py_or (obj_get d ''dependencies'') no_list) of
                  None \<Rightarrow> None | Some xs \<Rightarrow> collect (pip_dependency r) xs)
           | JList xs \<Rightarrow> collect (pip_dependency r) xs
           | _ \<Rightarrow> Some []))"

section \<open>The adapters\<close>

record adapter =
  build_command :: "(json \<Rightarrow> string) \<Rightarrow> string \<Rightarrow> json \<Rightarrow> json list option"
  parse_output :: "(string \<Rightarrow> json option) \<Rightarrow> (json \<Rightarrow> string) \<Rightarrow> string \<Rightarrow> finding list option"

definition get_adapter :: "string \<Rightarrow> adapter option" where
  "get_adapter tool =
     (if tool = ''ansible-lint'' then Some \<lparr>build_command = lint_command, parse_output = lint_parse\<rparr>
      else if tool = ''checkov'' then Some \<lparr>build_command = checkov_command, parse_output = checkov_parse\<rparr>
      else if tool = ''pip-audit'' then Some \<lparr>build_command = (\<lambda>_. pip_command), parse_output = pip_parse\<rparr>
      else None)"

text \<open>Every adapter reports severities of the five names only.\<close>

lemma severity_of_name_Some: "severity_of_name (severity_name v) = Some v"
  by (cases v) (simp_all add: severity_of_name_def all_severities_def)

lemma lint_severity_known: "\<exists>v. lint_severity r raw = severity_name v"
proof -
  have "lint_severity r raw \<in> {severity_name Info, severity_name Low, severity_name High}"
    by (simp add: lint_severity_def Let_def)
  then show ?thesis by blast
qed

lemma checkov_severity_known: "\<exists>v. checkov_severity r raw = severity_name v"
proof -
  have "''medium'' = severity_name Medium" by simp
  then show ?thesis unfolding checkov_severity_def by (metis (no_types, lifting) option.case_eq_if)
qed

lemma lint_parse_known:
  assumes "lint_parse loads r out = Some fs" "f \<in> set fs"
  shows "\<exists>v. severity f = severity_name v"
proof -
  obtain item zs where "lint_item r item = Some zs" "f \<in> set zs"
    using assms by (auto simp: lint_parse_def split: if_splits option.splits json.splits dest: collect_mem)
  then obtain raw where "severity f = lint_severity r raw"
    by (auto simp: lint_item_def Let_def split: json.splits option.splits)
  with lint_severity_known show ?thesis by metis
qed

lemma checkov_parse_known:
  assumes "checkov_parse loads r out = Some fs" "f \<in> set fs"
  shows "\<exists>v. severity f = severity_name v"
proof -
  obtain env zs where e: "checkov_envelope r env = Some zs" "f \<in> set zs"
    using assms by (auto simp: checkov_parse_def split: if_splits option.splits dest: collect_mem)
  then obtain item ys where "checkov_item r item = Some ys" "f \<in> set ys"
    by (auto simp: checkov_envelope_def split: json.splits option.splits dest: collect_mem)
  then obtain raw where "severity f = checkov_severity r raw"
    by (auto simp: checkov_item_def split: json.splits)
  with checkov_severity_known show ?thesis by metis
qed

lemma pip_parse_known:
  assumes "pip_parse loads r out = Some fs" "f \<in> set fs"
  shows "\<exists>v. severity f = severity_name v"
proof -
  obtain dep zs where "pip_dependency r dep = Some zs" "f \<in> set zs"
    using assms by (auto simp: pip_parse_def split: if_splits option.splits json.splits dest: collect_mem)
  then obtain pkg version v ys where "pip_vuln r pkg version v = Some ys" "f \<in> set ys"
    by (auto simp: pip_dependency_def Let_def split: json.splits option.splits dest: collect_mem)
  then have "severity f = severity_name High"
    by (auto simp: pip_vuln_def Let_def split: json.splits option.splits if_splits)
  then show ?thesis ..
qed

lemma adapter_severities:
  assumes "get_adapter tool = Some a" "parse_output a loads r out = Some fs" "f \<in> set fs"
  shows "\<exists>v. severity f = severity_name v"
  using assms lint_parse_known checkov_parse_known pip_parse_known
  by (auto simp: get_adapter_def split: if_splits)

end
