(* ===== verification/Policy_Engine.thy ===== *)
theory Policy_Engine
  imports Python_Values
begin

text \<open>
  Policy as code: the pure helpers of \<open>forail/main/models/policy.py\<close>, the OPA client
  \<open>forail/main/policy/opa_client.py\<close> and the launch evaluator \<open>forail/main/policy/evaluator.py\<close>.

  The OPA server is an argument, a function from a request to a reply; so are \<open>json.dumps\<close> and
  \<open>str\<close> of floats and containers. Database rows are arguments and results.
\<close>

section \<open>Enforcement\<close>

datatype enforcement = EnfNone | EnfWarn | EnfEnforce

definition effective_enforcement :: "bool \<Rightarrow> enforcement \<Rightarrow> enforcement \<Rightarrow> enforcement" where
  "effective_enforcement global_enabled org_enforcement policy_enforcement =
     (if \<not> global_enabled then EnfNone
      else if org_enforcement = EnfNone then EnfNone
      else if org_enforcement = EnfWarn then EnfWarn
      else policy_enforcement)"

definition fail_mode_decision :: "bool \<Rightarrow> string \<Rightarrow> bool" where
  "fail_mode_decision unavailable fail_mode = (if \<not> unavailable then True else fail_mode = ''allow'')"

record policy =
  policy_id :: pk
  policy_name :: string
  policy_org :: "pk option"
  package_path :: string
  policy_enforcement :: enforcement
  policy_enabled :: bool
  applies_to :: "string list"
  trigger_count :: nat

definition applies_to_resource :: "string list \<Rightarrow> string \<Rightarrow> bool" where
  "applies_to_resource applies resource_type =
     (if applies = [] then True else resource_type \<in> set applies)"

section \<open>The OPA client\<close>

datatype http_reply =
    HttpReply nat string json
  | TransportError string

datatype opa_result = OpaUnavailable string | OpaResult json

definition rstrip_slash :: "string \<Rightarrow> string" where
  "rstrip_slash s = rev (dropWhile (\<lambda>c. c = CHR ''/'') (rev s))"

definition dots_to_slashes :: "string \<Rightarrow> string" where
  "dots_to_slashes s = map (\<lambda>c. if c = CHR ''.'' then CHR ''/'' else c) s"

definition post_json :: "(string \<Rightarrow> json \<Rightarrow> http_reply) \<Rightarrow> string \<Rightarrow> json \<Rightarrow> opa_result" where
  "post_json post url payload =
     (case post url payload of
        TransportError e \<Rightarrow> OpaUnavailable e
      | HttpReply code text body \<Rightarrow>
          if code \<ge> 400 then
            OpaUnavailable (''OPA POST '' @ url @ '' returned '' @ nat_str code @ '': '' @ take 200 text)
          else OpaResult body)"

definition opa_evaluate ::
  "(string \<Rightarrow> json \<Rightarrow> http_reply) \<Rightarrow> string \<Rightarrow> string \<Rightarrow> json \<Rightarrow> opa_result" where
  "opa_evaluate post server_url package input_doc =
     (if server_url = [] then OpaUnavailable ''OPA_SERVER_URL is not set''
      else
        (let url = rstrip_slash server_url @ ''/v1/data/'' @ dots_to_slashes package
         in case post_json post url (JObj [(''input'', input_doc)]) of
              OpaUnavailable e \<Rightarrow> OpaUnavailable e
            | OpaResult body \<Rightarrow>
                (case body of
                   JObj d \<Rightarrow> (case map_of d ''result'' of None \<Rightarrow> OpaResult (JObj []) | Some v \<Rightarrow> OpaResult v)
                 | _ \<Rightarrow> OpaResult (JObj []))))"

text \<open>\<open>item.get('message') or json.dumps(item)\<close>, and the list that the item goes to.\<close>

definition item_message :: "(json \<Rightarrow> string) \<Rightarrow> (string \<times> json) list \<Rightarrow> json" where
  "item_message dumps d =
     (let m = obj_get d ''message'' in if json_true m then m else JStr (dumps (JObj d)))"

definition add_item ::
  "(json \<Rightarrow> string) \<Rightarrow> (string \<times> json) list \<Rightarrow> json list \<times> json list \<Rightarrow> json list \<times> json list" where
  "add_item dumps d wd =
     (let msg = item_message dumps d
      in if obj_get d ''severity'' = JStr ''warn'' then (fst wd @ [msg], snd wd) else (fst wd, snd wd @ [msg]))"

fun list_items :: "(json \<Rightarrow> string) \<Rightarrow> json list \<Rightarrow> json list \<times> json list \<Rightarrow> json list \<times> json list" where
  "list_items dumps [] wd = wd"
| "list_items dumps (JStr s # xs) wd = list_items dumps xs (fst wd, snd wd @ [JStr s])"
| "list_items dumps (JObj d # xs) wd = list_items dumps xs (add_item dumps d wd)"
| "list_items dumps (_ # xs) wd = list_items dumps xs wd"

fun violation_items :: "(json \<Rightarrow> string) \<Rightarrow> json list \<Rightarrow> json list \<times> json list \<Rightarrow> json list \<times> json list" where
  "violation_items dumps [] wd = wd"
| "violation_items dumps (JObj d # xs) wd = violation_items dumps xs (add_item dumps d wd)"
| "violation_items dumps (_ # xs) wd = violation_items dumps xs wd"

definition entry_text :: "(json \<Rightarrow> string) \<Rightarrow> json \<Rightarrow> json" where
  "entry_text r v = (case v of JStr s \<Rightarrow> JStr s | _ \<Rightarrow> JStr (py_str r v))"

definition denied_launch :: json where
  "denied_launch = JStr ''Policy denied launch.''"

text \<open>The two lists are (warns, denies).\<close>

definition parse_decision :: "(json \<Rightarrow> string) \<Rightarrow> (json \<Rightarrow> string) \<Rightarrow> json \<Rightarrow> json list \<times> json list" where
  "parse_decision dumps r result =
     (if \<not> json_true result then ([], [])
      else case result of
        JBool b \<Rightarrow> ([], if b then [denied_launch] else [])
      | JStr s \<Rightarrow> ([], [JStr s])
      | JList xs \<Rightarrow> list_items dumps xs ([], [])
      | JObj d \<Rightarrow>
          (let warns = (case obj_get d ''warn'' of JList ws \<Rightarrow> map (entry_text r) ws | _ \<Rightarrow> []);
               denies = (case obj_get d ''deny'' of
                  JList ds \<Rightarrow> map (entry_text r) ds
                | JBool b \<Rightarrow> if b then [denied_launch] else []
                | _ \<Rightarrow> [])
           in case obj_get d ''violations'' of
                JList vs \<Rightarrow> violation_items dumps vs (warns, denies)
              | _ \<Rightarrow> (warns, denies))
      | _ \<Rightarrow> ([], []))"

section \<open>The launch\<close>

text \<open>What the evaluator reads of a job and its request.\<close>

record launch =
  class_name :: string
  job_id :: pk
  job_name :: string
  template_org :: "(pk \<times> string) option"
  job_org :: "(pk \<times> string) option"
  inventory_ref :: "(pk \<times> string \<times> string) option"
  credential_refs :: "(pk \<times> string \<times> string) list"
  extra_vars :: "(string \<times> json) list"
  playbook :: string
  requester :: "(pk \<times> string \<times> bool \<times> bool) option"
  client_ip :: string

definition resource_type_of :: "string \<Rightarrow> string" where
  "resource_type_of cls_name =
     (if cls_name = ''Job'' then ''job_template''
      else if cls_name = ''WorkflowJob'' then ''workflow_job_template''
      else if cls_name = ''AdHocCommand'' then ''ad_hoc_command''
      else lower cls_name)"

definition launch_org :: "launch \<Rightarrow> (pk \<times> string) option" where
  "launch_org l = (case template_org l of Some x \<Rightarrow> Some x | None \<Rightarrow> job_org l)"

definition jpk :: "pk \<Rightarrow> json" where "jpk i = JInt (int i)"

definition build_launch_context :: "string \<Rightarrow> launch \<Rightarrow> json" where
  "build_launch_context now_iso l =
     JObj [(''resource_type'', JStr (resource_type_of (class_name l))),
       (''resource_id'', jpk (job_id l)),
       (''resource_name'', JStr (job_name l)),
       (''organization_id'', case launch_org l of None \<Rightarrow> JNull | Some (i, _) \<Rightarrow> jpk i),
       (''organization_name'', case launch_org l of None \<Rightarrow> JStr [] | Some (_, n) \<Rightarrow> JStr n),
       (''user'', case requester l of
          None \<Rightarrow> JObj [(''id'', JNull), (''username'', JStr []), (''is_superuser'', JBool False)]
        | Some (i, n, su, _) \<Rightarrow> JObj [(''id'', jpk i), (''username'', JStr n), (''is_superuser'', JBool su)]),
       (''extra_vars'', JObj (extra_vars l)),
       (''inventory'', case inventory_ref l of
          None \<Rightarrow> JObj [(''id'', JNull), (''name'', JStr []), (''kind'', JStr [])]
        | Some (i, n, k) \<Rightarrow> JObj [(''id'', jpk i), (''name'', JStr n), (''kind'', JStr k)]),
       (''credentials'', JList (map (\<lambda>(i, n, k). JObj [(''id'', jpk i), (''name'', JStr n), (''kind'', JStr k)])
          (credential_refs l))),
       (''playbook'', JStr (playbook l)),
       (''now_iso'', JStr now_iso),
       (''client_ip'', JStr (client_ip l))]"

section \<open>The evaluator\<close>

datatype decision_kind = DecisionWarn | DecisionDeny

record policy_decision =
  pd_policy :: pk
  pd_policy_name :: string
  pd_decision :: decision_kind
  pd_job :: "pk option"
  pd_org :: "pk option"
  pd_triggered_by :: "pk option"
  pd_message :: json

record policy_result =
  pr_allowed :: bool
  warn_messages :: "string list"
  deny_messages :: "string list"
  decisions :: "policy_decision list"
  triggered :: "pk list"

record policy_cfg =
  opa_enabled :: bool
  opa_server_url :: string
  opa_fail_mode :: string
  opa_post :: "string \<Rightarrow> json \<Rightarrow> http_reply"
  py_dumps :: "json \<Rightarrow> string"
  py_repr :: "json \<Rightarrow> string"

definition models_q_org :: "pk option \<Rightarrow> pk option \<Rightarrow> bool" where
  "models_q_org org_id row_org =
     (case org_id of None \<Rightarrow> row_org = None | Some _ \<Rightarrow> row_org = org_id \<or> row_org = None)"

definition decision_row ::
  "launch \<Rightarrow> pk option \<Rightarrow> policy \<Rightarrow> decision_kind \<Rightarrow> bool \<Rightarrow> json \<Rightarrow> policy_decision" where
  "decision_row l org_id p k keep_job msg =
     \<lparr>pd_policy = policy_id p, pd_policy_name = policy_name p, pd_decision = k,
      pd_job = (if keep_job then Some (job_id l) else None), pd_org = org_id,
      pd_triggered_by = (case requester l of Some (i, _, _, auth) \<Rightarrow> if auth then Some i else None | None \<Rightarrow> None),
      pd_message = msg\<rparr>"

definition record_warn ::
  "policy_cfg \<Rightarrow> launch \<Rightarrow> pk option \<Rightarrow> policy \<Rightarrow> json \<Rightarrow> policy_result \<Rightarrow> policy_result" where
  "record_warn cfg l org_id p w r =
     r\<lparr>decisions := decisions r @ [decision_row l org_id p DecisionWarn True w],
       warn_messages := warn_messages r @ [''['' @ policy_name p @ ''] '' @ py_str (py_repr cfg) w]\<rparr>"

definition record_deny ::
  "policy_cfg \<Rightarrow> launch \<Rightarrow> pk option \<Rightarrow> enforcement \<Rightarrow> policy \<Rightarrow> json \<Rightarrow> policy_result \<Rightarrow> policy_result" where
  "record_deny cfg l org_id eff p d r =
     (let r1 = r\<lparr>decisions := decisions r @ [decision_row l org_id p DecisionDeny (eff = EnfWarn) d]\<rparr>
      in if eff = EnfEnforce then
           r1\<lparr>pr_allowed := False,
              deny_messages := deny_messages r1 @ [''['' @ policy_name p @ ''] '' @ py_str (py_repr cfg) d]\<rparr>
         else
           r1\<lparr>warn_messages := warn_messages r1 @
                [''['' @ policy_name p @ ''] (deny in warn-only) '' @ py_str (py_repr cfg) d]\<rparr>)"

definition policy_step ::
  "policy_cfg \<Rightarrow> enforcement \<Rightarrow> json \<Rightarrow> launch \<Rightarrow> pk option \<Rightarrow> policy \<Rightarrow> policy_result \<Rightarrow> policy_result" where
  "policy_step cfg org_enf context l org_id p r =
     (let eff = effective_enforcement True org_enf (policy_enforcement p)
      in if eff = EnfNone then r
         else case opa_evaluate (opa_post cfg) (opa_server_url cfg) (package_path p) context of
           OpaUnavailable e \<Rightarrow>
             (let allow = fail_mode_decision True (opa_fail_mode cfg);
                  msg = ''OPA unavailable: '' @ e;
                  r1 = r\<lparr>decisions := decisions r @
                         [decision_row l org_id p (if allow then DecisionWarn else DecisionDeny) allow (JStr msg)]\<rparr>
              in if \<not> allow then r1\<lparr>pr_allowed := False, deny_messages := deny_messages r1 @ [msg]\<rparr>
                 else r1\<lparr>warn_messages := warn_messages r1 @ [msg]\<rparr>)
         | OpaResult v \<Rightarrow>
             (let (warns, denies) = parse_decision (py_dumps cfg) (py_repr cfg) v
              in if warns = [] \<and> denies = [] then r
                 else fold (record_deny cfg l org_id eff p) denies
                        (fold (record_warn cfg l org_id p) warns (r\<lparr>triggered := triggered r @ [policy_id p]\<rparr>))))"

definition allow_launch :: policy_result where
  "allow_launch = \<lparr>pr_allowed = True, warn_messages = [], deny_messages = [], decisions = [], triggered = []\<rparr>"

text \<open>The enforcement of the organization is \<open>None\<close> when the lookup fails.\<close>

definition applicable_policies :: "policy list \<Rightarrow> launch \<Rightarrow> policy list" where
  "applicable_policies rows l =
     filter (\<lambda>p. policy_enabled p \<and> models_q_org (map_option fst (launch_org l)) (policy_org p) \<and>
       applies_to_resource (applies_to p) (resource_type_of (class_name l))) rows"

definition org_enforcement_of :: "(pk \<Rightarrow> enforcement option) \<Rightarrow> launch \<Rightarrow> enforcement" where
  "org_enforcement_of org_enf l =
     (case launch_org l of
        None \<Rightarrow> EnfNone
      | Some (i, _) \<Rightarrow> if i = 0 then EnfNone else (case org_enf i of None \<Rightarrow> EnfNone | Some e \<Rightarrow> e))"

definition evaluate_launch ::
  "policy_cfg \<Rightarrow> (pk \<Rightarrow> enforcement option) \<Rightarrow> policy list \<Rightarrow> string \<Rightarrow> launch \<Rightarrow> policy_result" where
  "evaluate_launch cfg org_enf rows now_iso l =
     (if \<not> opa_enabled cfg then allow_launch
      else
        (let context = build_launch_context now_iso l;
             org_id = map_option fst (launch_org l);
             enf = org_enforcement_of org_enf l
         in if enf = EnfNone then allow_launch
            else
              (let policies = applicable_policies rows l
               in if policies = [] then allow_launch
                  else fold (policy_step cfg enf context l org_id) policies allow_launch)))"

section \<open>The verdict\<close>

text \<open>What OPA says about a launch under one policy.\<close>

definition opa_says :: "policy_cfg \<Rightarrow> json \<Rightarrow> policy \<Rightarrow> opa_result" where
  "opa_says cfg context p = opa_evaluate (opa_post cfg) (opa_server_url cfg) (package_path p) context"

definition policy_refuses :: "policy_cfg \<Rightarrow> enforcement \<Rightarrow> json \<Rightarrow> policy \<Rightarrow> bool" where
  "policy_refuses cfg org_enf context p \<longleftrightarrow>
     effective_enforcement True org_enf (policy_enforcement p) \<noteq> EnfNone \<and>
     (case opa_says cfg context p of
        OpaUnavailable _ \<Rightarrow> opa_fail_mode cfg \<noteq> ''allow''
      | OpaResult v \<Rightarrow> effective_enforcement True org_enf (policy_enforcement p) = EnfEnforce \<and>
          snd (parse_decision (py_dumps cfg) (py_repr cfg) v) \<noteq> [])"

lemma warns_keep [gate_simps]:
  "pr_allowed (fold (record_warn cfg l oid p) ws r) = pr_allowed r"
  "deny_messages (fold (record_warn cfg l oid p) ws r) = deny_messages r"
  by (induction ws arbitrary: r) (simp_all add: record_warn_def)

lemma denies_verdict [gate_simps]:
  "pr_allowed (fold (record_deny cfg l oid eff p) ds r) \<longleftrightarrow> pr_allowed r \<and> (ds = [] \<or> eff \<noteq> EnfEnforce)"
  "deny_messages (fold (record_deny cfg l oid eff p) ds r) = [] \<longleftrightarrow>
     deny_messages r = [] \<and> (ds = [] \<or> eff \<noteq> EnfEnforce)"
  by (induction ds arbitrary: r) (auto simp: record_deny_def Let_def)

lemma policy_step_verdict:
  "pr_allowed (policy_step cfg enf ctx l oid p r) \<longleftrightarrow> pr_allowed r \<and> \<not> policy_refuses cfg enf ctx p"
  "deny_messages (policy_step cfg enf ctx l oid p r) = [] \<longleftrightarrow>
     deny_messages r = [] \<and> \<not> policy_refuses cfg enf ctx p"
  unfolding policy_step_def policy_refuses_def opa_says_def Let_def
  by (auto simp: gate_simps fail_mode_decision_def split: opa_result.splits prod.splits)

interpretation policy_gate: verdict_fold "policy_step cfg enf ctx l oid" pr_allowed "policy_refuses cfg enf ctx"
  for cfg enf ctx l oid
  by unfold_locales (rule policy_step_verdict(1))

interpretation policy_messages:
  verdict_fold "policy_step cfg enf ctx l oid" "\<lambda>r. deny_messages r = []" "policy_refuses cfg enf ctx"
  for cfg enf ctx l oid
  by unfold_locales (rule policy_step_verdict(2))

lemma evaluate_launch_fold:
  "evaluate_launch cfg org_enf rows now_iso l =
     (if opa_enabled cfg \<and> org_enforcement_of org_enf l \<noteq> EnfNone then
        fold (policy_step cfg (org_enforcement_of org_enf l) (build_launch_context now_iso l) l
          (map_option fst (launch_org l))) (applicable_policies rows l) allow_launch
      else allow_launch)"
  by (simp add: evaluate_launch_def Let_def)

text \<open>
  A launch is allowed exactly if no policy refuses it: policy evaluation is off, or the
  organization does not enforce, or every enabled policy of the organization (or global) that
  applies to the resource either is not effective, or was answered without a denial, or was answered
  with a denial but is only a warning, or could not be answered while the fail mode is \<open>allow\<close>. A
  refused launch always has a message, an allowed one has none.
\<close>

theorem evaluate_launch_verdict:
  "(let r = evaluate_launch cfg org_enf rows now_iso l; enf = org_enforcement_of org_enf l
    in (pr_allowed r \<longleftrightarrow> \<not> (opa_enabled cfg \<and> enf \<noteq> EnfNone \<and>
          (\<exists>p \<in> set (applicable_policies rows l). policy_refuses cfg enf (build_launch_context now_iso l) p))) \<and>
       (deny_messages r = [] \<longleftrightarrow> pr_allowed r))"
  by (auto simp: evaluate_launch_fold Let_def policy_gate.permitted_fold policy_messages.permitted_fold
      allow_launch_def)

text \<open>
  An organization in warn mode can be blocked, and a disabled policy can be active in it. With
  the organization's enforcement at warn, a policy that is itself disabled is evaluated; and when OPA
  cannot be reached and the fail mode is not \<open>allow\<close>, the launch is refused although the
  organization only warns.
\<close>

theorem warn_mode_blocks:
  assumes "opa_enabled cfg" "org_enforcement_of org_enf l = EnfWarn" "p \<in> set (applicable_policies rows l)"
    and "opa_server_url cfg = []" "opa_fail_mode cfg \<noteq> ''allow''"
  shows "effective_enforcement True EnfWarn EnfNone = EnfWarn \<and>
    \<not> pr_allowed (evaluate_launch cfg org_enf rows now_iso l)"
proof -
  have "policy_refuses cfg EnfWarn ctx p" for ctx
    using assms by (simp add: policy_refuses_def effective_enforcement_def opa_says_def opa_evaluate_def)
  then show ?thesis using assms
    by (auto simp: effective_enforcement_def evaluate_launch_fold policy_gate.permitted_fold)
qed

definition demo_launch :: launch where
  "demo_launch = \<lparr>class_name = ''Job'', job_id = 9, job_name = ''deploy'', template_org = Some (3, ''acme''),
     job_org = None, inventory_ref = None, credential_refs = [], extra_vars = [], playbook = ''site.yml'',
     requester = None, client_ip = []\<rparr>"

definition demo_policy :: policy where
  "demo_policy = \<lparr>policy_id = 1, policy_name = ''p'', policy_org = None, package_path = ''forail.launch'',
     policy_enforcement = EnfNone, policy_enabled = True, applies_to = [], trigger_count = 0\<rparr>"

definition no_opa :: policy_cfg where
  "no_opa = \<lparr>opa_enabled = True, opa_server_url = [], opa_fail_mode = ''deny'',
     opa_post = (\<lambda>_ _. TransportError []), py_dumps = (\<lambda>_. []), py_repr = (\<lambda>_. [])\<rparr>"

theorem warn_mode_blocks_witness:
  "\<not> pr_allowed (evaluate_launch no_opa (\<lambda>_. Some EnfWarn) [demo_policy] [] demo_launch)"
proof -
  have "opa_enabled no_opa" "org_enforcement_of (\<lambda>_. Some EnfWarn) demo_launch = EnfWarn"
    "demo_policy \<in> set (applicable_policies [demo_policy] demo_launch)"
    "opa_server_url no_opa = []" "opa_fail_mode no_opa \<noteq> ''allow''"
    by (simp_all add: no_opa_def org_enforcement_of_def demo_launch_def launch_org_def applicable_policies_def
        demo_policy_def models_q_org_def applies_to_resource_def)
  from warn_mode_blocks [OF this] show ?thesis by simp
qed

end
