(* ===== verification/Scanner_Runner.thy ===== *)
theory Scanner_Runner
  imports Scan_Tools Policy_Engine
begin

text \<open>
  The scanner runner \<open>forail/main/scanning/runner.py\<close> with the status helpers of
  \<open>forail/main/models/scanner.py\<close>.

  Arguments of the model, gathered in \<open>scan_cfg\<close>: the settings, \<open>os.path.realpath\<close>, the run of a
  tool as a subprocess (with its duration), \<open>json.loads\<close> and \<open>str\<close> of floats and containers. The
  rows that the runner creates and updates are part of the result. An adapter whose
  \<open>build_command\<close> raises ends the whole run with that exception: \<open>None\<close>.
\<close>

section \<open>Enforcement and status\<close>

datatype scan_status = ScanOk | ScanWarn | ScanBlocked | ScanError | ScanTimeout

definition scan_enforcement :: "bool \<Rightarrow> enforcement \<Rightarrow> enforcement" where
  "scan_enforcement global_enabled scanner_enforcement =
     (if \<not> global_enabled then EnfNone
      else if scanner_enforcement = EnfEnforce then EnfEnforce else EnfWarn)"

fun any_at_threshold :: "string \<Rightarrow> string list \<Rightarrow> bool" where
  "any_at_threshold threshold [] = False"
| "any_at_threshold threshold (s # ss) =
     (if severity_at_or_above s threshold then True else any_at_threshold threshold ss)"

definition aggregate_status :: "string list \<Rightarrow> string \<Rightarrow> scan_status" where
  "aggregate_status sevs threshold =
     (if sevs = [] then ScanOk
      else if any_at_threshold threshold sevs then ScanBlocked else ScanWarn)"

text \<open>\<open>True\<close> stands for \<open>'allow'\<close>.\<close>

definition scan_fail_mode :: "bool \<Rightarrow> string \<Rightarrow> bool" where
  "scan_fail_mode scanner_unavailable fail_mode =
     (if \<not> scanner_unavailable then True else fail_mode = ''allow'')"

section \<open>Rows and settings\<close>

record scanner =
  scanner_id :: pk
  scanner_name :: string
  scanner_org :: "pk option"
  tool :: string
  config :: json
  severity_threshold :: string
  scanner_enf :: enforcement
  scanner_enabled :: bool
  scanner_applies_to :: "string list"
  scanner_trigger_count :: nat

definition scanner_applies :: "scanner \<Rightarrow> string \<Rightarrow> bool" where
  "scanner_applies s resource_type =
     (if scanner_applies_to s = [] then True else resource_type \<in> set (scanner_applies_to s))"

text \<open>
  The project of a job: the answer of \<open>get_project_path\<close> (\<open>None\<close> if it raises) and \<open>local_path\<close>.
\<close>

record project_ref =
  project_checkout :: "string option option"
  project_local_path :: string

record scan_job =
  scan_launch :: launch
  scan_template :: "pk option"
  scan_project :: "project_ref option"

datatype proc_outcome =
    Completed string string int
  | TimedOut string
  | OsFailure string
  | OtherFailure string

record scan_cfg =
  scanner_on :: bool
  timeout_s :: int
  scan_fail :: string
  raw_output_max :: int
  realpath :: "string \<Rightarrow> string"
  run_process :: "json list \<Rightarrow> proc_outcome \<times> int"
  json_loads :: "string \<Rightarrow> json option"
  value_repr :: "json \<Rightarrow> string"

record scan_row =
  sr_scanner :: pk
  sr_scanner_name :: string
  sr_job :: "pk option"
  sr_template :: "pk option"
  sr_org :: "pk option"
  sr_triggered_by :: "pk option"
  sr_status :: scan_status
  sr_duration_ms :: int
  sr_finding_count :: nat
  sr_highest :: string
  sr_message :: string
  sr_raw_output :: string
  sr_findings :: "finding list"

record scan_run =
  scan_allowed :: bool
  scan_warnings :: "string list"
  block_messages :: "string list"
  scan_results :: "scan_row list"
  last_runs :: "(pk \<times> scan_status \<times> nat option) list"

definition clean_run :: scan_run where
  "clean_run = \<lparr>scan_allowed = True, scan_warnings = [], block_messages = [], scan_results = [], last_runs = []\<rparr>"

text \<open>\<open>s[:n]\<close>: a negative bound counts from the end.\<close>

definition slice_to :: "int \<Rightarrow> 'a list \<Rightarrow> 'a list" where
  "slice_to n s = (if 0 \<le> n then take (nat n) s else take (length s - nat (- n)) s)"

section \<open>What is scanned\<close>

definition resolve_project_path :: "scan_job \<Rightarrow> string option" where
  "resolve_project_path j =
     (case scan_project j of
        None \<Rightarrow> None
      | Some p \<Rightarrow>
          (let fallback = (if project_local_path p = [] then None else Some (project_local_path p))
           in case project_checkout p of
                Some (Some q) \<Rightarrow> if q \<noteq> [] then Some q else fallback
              | _ \<Rightarrow> fallback))"

definition path_join :: "string \<Rightarrow> string \<Rightarrow> string" where
  "path_join a b =
     (if startswith b ''/'' then b
      else if a = [] \<or> endswith a ''/'' then a @ b
      else a @ ''/'' @ b)"

definition resolve_target ::
  "(string \<Rightarrow> string) \<Rightarrow> scan_job \<Rightarrow> string \<Rightarrow> string option \<Rightarrow> string \<Rightarrow> string option" where
  "resolve_target rp j resource_type project_path tool_name =
     (case project_path of
        None \<Rightarrow> None
      | Some path \<Rightarrow>
          if path = [] then None
          else if resource_type = ''workflow_job_template'' then None
          else if resource_type = ''job_template'' then
            (if playbook (scan_launch j) = [] then None
             else
               (let base = rp path;
                    target = rp (path_join base (playbook (scan_launch j)))
                in if target \<noteq> base \<and> \<not> startswith target (base @ ''/'') then None else Some target))
          else if resource_type = ''ad_hoc_command'' then
            (if tool_name = ''ansible-lint'' then None else Some path)
          else Some path)"

section \<open>One scanner\<close>

text \<open>Status, unavailability, output, error output and findings of one run of a tool.\<close>

definition run_tool ::
  "scan_cfg \<Rightarrow> adapter \<Rightarrow> proc_outcome \<Rightarrow> scan_status \<times> bool \<times> string \<times> string \<times> finding list" where
  "run_tool cfg a outcome =
     (case outcome of
        TimedOut e \<Rightarrow> (ScanTimeout, True, [],
          ''Scanner timed out after '' @ int_str (timeout_s cfg) @ ''s: '' @ e, [])
      | OsFailure e \<Rightarrow> (ScanError, True, [], ''Scanner subprocess failed: '' @ e, [])
      | OtherFailure e \<Rightarrow> (ScanError, True, [], ''Scanner subprocess exception: '' @ e, [])
      | Completed out err code \<Rightarrow>
          (case parse_output a (json_loads cfg) (value_repr cfg) out of
             None \<Rightarrow> (ScanError, True, out, err, [])
           | Some fs \<Rightarrow> (ScanOk, False, out, err, fs)))"

fun highest_severity :: "string \<Rightarrow> finding list \<Rightarrow> string" where
  "highest_severity h [] = h"
| "highest_severity h (f # fs) =
     highest_severity (if severity_order (severity f) 0 > severity_order h (- 1) then severity f else h) fs"

definition or_text :: "string \<Rightarrow> string \<Rightarrow> string" where
  "or_text a b = (if a \<noteq> [] then a else b)"

definition line_text :: "int option \<Rightarrow> string" where
  "line_text l = (case l of None \<Rightarrow> [] | Some n \<Rightarrow> if n = 0 then [] else int_str n)"

definition scan_user :: "scan_job \<Rightarrow> pk option" where
  "scan_user j = (case requester (scan_launch j) of
     Some (i, _, _, auth) \<Rightarrow> if auth then Some i else None | None \<Rightarrow> None)"

definition scan_org_id :: "scan_job \<Rightarrow> pk option" where
  "scan_org_id j = map_option fst (launch_org (scan_launch j))"

definition record_unavailable ::
  "scan_cfg \<Rightarrow> scan_job \<Rightarrow> scanner \<Rightarrow> scan_status \<Rightarrow> string \<Rightarrow> string \<Rightarrow> int \<Rightarrow> scan_run \<Rightarrow> scan_run" where
  "record_unavailable cfg j s status out err ms r =
     (let allow = scan_fail_mode True (scan_fail cfg);
          msg = or_text (take 512 err) (''Scanner '' @ tool s @ '' unavailable.'');
          row = \<lparr>sr_scanner = scanner_id s, sr_scanner_name = scanner_name s,
                 sr_job = (if allow then Some (job_id (scan_launch j)) else None),
                 sr_template = scan_template j, sr_org = scan_org_id j, sr_triggered_by = scan_user j,
                 sr_status = status, sr_duration_ms = ms, sr_finding_count = 0, sr_highest = [],
                 sr_message = msg, sr_raw_output = slice_to (raw_output_max cfg) (or_text out err),
                 sr_findings = []\<rparr>;
          r1 = r\<lparr>scan_results := scan_results r @ [row],
                 last_runs := last_runs r @ [(scanner_id s, status, None)]\<rparr>;
          tagged = ''['' @ scanner_name s @ ''] '' @ msg
      in if allow then r1\<lparr>scan_warnings := scan_warnings r1 @ [tagged]\<rparr>
         else r1\<lparr>scan_allowed := False, block_messages := block_messages r1 @ [tagged]\<rparr>)"

definition findings_message :: "finding list \<Rightarrow> string" where
  "findings_message fs =
     (case fs of
        [] \<Rightarrow> []
      | f # _ \<Rightarrow> take 512 (nat_str (length fs) @ '' finding(s); first: ['' @ severity f @ ''] '' @
          rule_id f @ '' '' @ message f))"

definition block_message :: "scanner \<Rightarrow> finding \<Rightarrow> string" where
  "block_message s f = take 512 (''['' @ scanner_name s @ ''] '' @ rule_id f @ '' '' @ file_path f @ '':'' @
     line_text (line f) @ '' '' @ message f)"

definition finding_row :: "finding \<Rightarrow> finding" where
  "finding_row f = f\<lparr>severity := or_text (severity f) ''info''\<rparr>"

definition decide_status :: "enforcement \<Rightarrow> string \<Rightarrow> finding list \<Rightarrow> scan_status" where
  "decide_status eff threshold fs =
     (if fs = [] then ScanOk
      else if aggregate_status (map severity fs) threshold = ScanBlocked \<and> eff = EnfEnforce then ScanBlocked
      else ScanWarn)"

definition record_findings ::
  "scan_cfg \<Rightarrow> scan_job \<Rightarrow> scanner \<Rightarrow> string \<Rightarrow> finding list \<Rightarrow> int \<Rightarrow> scan_run \<Rightarrow> scan_run" where
  "record_findings cfg j s out fs ms r =
     (let eff = scan_enforcement True (scanner_enf s);
          status = decide_status eff (severity_threshold s) fs;
          highest = highest_severity [] fs;
          row = \<lparr>sr_scanner = scanner_id s, sr_scanner_name = scanner_name s,
                 sr_job = (if status \<noteq> ScanBlocked then Some (job_id (scan_launch j)) else None),
                 sr_template = scan_template j, sr_org = scan_org_id j, sr_triggered_by = scan_user j,
                 sr_status = status, sr_duration_ms = ms, sr_finding_count = length fs,
                 sr_highest = highest, sr_message = findings_message fs,
                 sr_raw_output = slice_to (raw_output_max cfg) out, sr_findings = map finding_row fs\<rparr>;
          count = (if fs \<noteq> [] then Some (scanner_trigger_count s + 1) else None);
          r1 = r\<lparr>scan_results := scan_results r @ [row],
                 last_runs := last_runs r @ [(scanner_id s, status, count)]\<rparr>
      in if status = ScanBlocked then
           r1\<lparr>scan_allowed := False, block_messages := block_messages r1 @ map (block_message s) fs\<rparr>
         else if status = ScanWarn \<and> fs \<noteq> [] then
           r1\<lparr>scan_warnings := scan_warnings r1 @ [''['' @ scanner_name s @ ''] '' @ nat_str (length fs) @
                '' finding(s), highest='' @ highest]\<rparr>
         else r1)"

definition scanner_step ::
  "scan_cfg \<Rightarrow> scan_job \<Rightarrow> string \<Rightarrow> string option \<Rightarrow> scanner \<Rightarrow> scan_run \<Rightarrow> scan_run option" where
  "scanner_step cfg j resource_type project_path s r =
     (case get_adapter (tool s) of
        None \<Rightarrow> Some r
      | Some a \<Rightarrow>
          (case resolve_target (realpath cfg) j resource_type project_path (tool s) of
             None \<Rightarrow> Some r
           | Some target \<Rightarrow>
               if target = [] then Some r
               else
                 (case build_command a (value_repr cfg) target (py_or (config s) no_object) of
                    None \<Rightarrow> None
                  | Some cmd \<Rightarrow>
                      (let (outcome, ms) = run_process cfg cmd;
                           (status, unavailable, out, err, raw) = run_tool cfg a outcome;
                           filtered = filter (\<lambda>f. severity_at_or_above (severity f) (severity_threshold s)) raw
                       in if unavailable then Some (record_unavailable cfg j s status out err ms r)
                          else Some (record_findings cfg j s out filtered ms r)))))"

section \<open>The run\<close>

definition try_scanner ::
  "scan_cfg \<Rightarrow> scan_job \<Rightarrow> string \<Rightarrow> string option \<Rightarrow> scanner \<Rightarrow> scan_run option \<Rightarrow> scan_run option" where
  "try_scanner cfg j resource_type project_path s r =
     (case r of None \<Rightarrow> None | Some x \<Rightarrow> scanner_step cfg j resource_type project_path s x)"

definition applicable_scanners :: "scanner list \<Rightarrow> scan_job \<Rightarrow> scanner list" where
  "applicable_scanners rows j =
     filter (\<lambda>s. scanner_enabled s \<and> models_q_org (scan_org_id j) (scanner_org s) \<and>
       scanner_applies s (resource_type_of (class_name (scan_launch j)))) rows"

definition run_scanners_for_launch :: "scan_cfg \<Rightarrow> scanner list \<Rightarrow> scan_job \<Rightarrow> scan_run option" where
  "run_scanners_for_launch cfg rows j =
     (if \<not> scanner_on cfg then Some clean_run
      else
        (let resource_type = resource_type_of (class_name (scan_launch j));
             scanners = applicable_scanners rows j
         in if scanners = [] then Some clean_run
            else fold (try_scanner cfg j resource_type (resolve_project_path j)) scanners (Some clean_run)))"

section \<open>The verdict\<close>

text \<open>What one scanner has to say of a launch, before thresholds and enforcement.\<close>

datatype scan_answer = Skipped | Raised | Unavailable | Found "finding list"

definition scan_says ::
  "scan_cfg \<Rightarrow> scan_job \<Rightarrow> string \<Rightarrow> string option \<Rightarrow> scanner \<Rightarrow> scan_answer" where
  "scan_says cfg j resource_type project_path s =
     (case get_adapter (tool s) of
        None \<Rightarrow> Skipped
      | Some a \<Rightarrow>
          (case resolve_target (realpath cfg) j resource_type project_path (tool s) of
             None \<Rightarrow> Skipped
           | Some target \<Rightarrow>
               if target = [] then Skipped
               else
                 (case build_command a (value_repr cfg) target (py_or (config s) no_object) of
                    None \<Rightarrow> Raised
                  | Some cmd \<Rightarrow>
                      (case fst (run_process cfg cmd) of
                         Completed out err code \<Rightarrow>
                           (case parse_output a (json_loads cfg) (value_repr cfg) out of
                              None \<Rightarrow> Unavailable | Some fs \<Rightarrow> Found fs)
                       | _ \<Rightarrow> Unavailable))))"

definition scanner_refuses ::
  "scan_cfg \<Rightarrow> scan_job \<Rightarrow> string \<Rightarrow> string option \<Rightarrow> scanner \<Rightarrow> bool" where
  "scanner_refuses cfg j resource_type project_path s \<longleftrightarrow>
     (case scan_says cfg j resource_type project_path s of
        Skipped \<Rightarrow> False
      | Raised \<Rightarrow> True
      | Unavailable \<Rightarrow> scan_fail cfg \<noteq> ''allow''
      | Found fs \<Rightarrow> scanner_enf s = EnfEnforce \<and>
          (\<exists>f \<in> set fs. severity_of (severity_threshold s) \<le> severity_of (severity f)))"

lemma any_at_threshold_iff [gate_simps]:
  "any_at_threshold t ss \<longleftrightarrow> (\<exists>s \<in> set ss. severity_of t \<le> severity_of s)"
  by (induction ss) (simp_all add: severity_at_or_above_order)

lemma decide_status_blocked [gate_simps]:
  "decide_status eff t (filter (\<lambda>f. severity_at_or_above (severity f) t) fs) = ScanBlocked \<longleftrightarrow>
     eff = EnfEnforce \<and> (\<exists>f \<in> set fs. severity_of t \<le> severity_of (severity f))"
  by (auto simp: decide_status_def aggregate_status_def gate_simps severity_at_or_above_order filter_empty_conv)

definition ran_allowed :: "scan_run option \<Rightarrow> bool" where
  "ran_allowed r = (case r of None \<Rightarrow> False | Some x \<Rightarrow> scan_allowed x)"

definition ran_silent :: "scan_run option \<Rightarrow> bool" where
  "ran_silent r = (case r of None \<Rightarrow> False | Some x \<Rightarrow> block_messages x = [])"

lemma clean_run_verdict [gate_simps]: "ran_allowed (Some clean_run)" "ran_silent (Some clean_run)"
  by (simp_all add: ran_allowed_def ran_silent_def clean_run_def)

lemma record_unavailable_verdict [gate_simps]:
  "scan_allowed (record_unavailable cfg j s st out err ms r) \<longleftrightarrow> scan_allowed r \<and> scan_fail cfg = ''allow''"
  "block_messages (record_unavailable cfg j s st out err ms r) = [] \<longleftrightarrow>
     block_messages r = [] \<and> scan_fail cfg = ''allow''"
  by (simp_all add: record_unavailable_def Let_def scan_fail_mode_def)

lemma record_findings_verdict [gate_simps]:
  "scan_allowed (record_findings cfg j s out fs ms r) \<longleftrightarrow>
     scan_allowed r \<and> decide_status (scan_enforcement True (scanner_enf s)) (severity_threshold s) fs \<noteq> ScanBlocked"
  "block_messages (record_findings cfg j s out fs ms r) = [] \<longleftrightarrow>
     block_messages r = [] \<and>
     decide_status (scan_enforcement True (scanner_enf s)) (severity_threshold s) fs \<noteq> ScanBlocked"
proof -
  have "decide_status eff t fs = ScanBlocked \<Longrightarrow> fs \<noteq> []" for eff t by (auto simp: decide_status_def)
  then show "scan_allowed (record_findings cfg j s out fs ms r) \<longleftrightarrow>
      scan_allowed r \<and> decide_status (scan_enforcement True (scanner_enf s)) (severity_threshold s) fs \<noteq> ScanBlocked"
    "block_messages (record_findings cfg j s out fs ms r) = [] \<longleftrightarrow>
      block_messages r = [] \<and>
      decide_status (scan_enforcement True (scanner_enf s)) (severity_threshold s) fs \<noteq> ScanBlocked"
    by (simp_all add: record_findings_def Let_def)
qed

text \<open>One step in terms of the answer.\<close>

lemma scanner_step_answer:
  "\<exists>st out err ms. (st = ScanError \<or> st = ScanTimeout) \<and> scanner_step cfg j rt path s r =
     (case scan_says cfg j rt path s of
        Skipped \<Rightarrow> Some r
      | Raised \<Rightarrow> None
      | Unavailable \<Rightarrow> Some (record_unavailable cfg j s st out err ms r)
      | Found fs \<Rightarrow> Some (record_findings cfg j s out
          (filter (\<lambda>f. severity_at_or_above (severity f) (severity_threshold s)) fs) ms r))"
proof (cases "get_adapter (tool s)")
  case a: (Some a)
  show ?thesis
  proof (cases "resolve_target (realpath cfg) j rt path (tool s)")
    case t: (Some t)
    show ?thesis
    proof (cases "t \<noteq> [] \<and> build_command a (value_repr cfg) t (py_or (config s) no_object) \<noteq> None")
      case True
      then obtain c where c: "build_command a (value_repr cfg) t (py_or (config s) no_object) = Some c"
        and n: "t \<noteq> []" by blast
      obtain q ms where q: "run_process cfg c = (q, ms)" by fastforce
      obtain st u out err fs where w: "run_tool cfg a q = (st, u, out, err, fs)" by (metis prod_cases5)
      have "scanner_step cfg j rt path s r =
          (if u then Some (record_unavailable cfg j s st out err ms r)
           else Some (record_findings cfg j s out
             (filter (\<lambda>f. severity_at_or_above (severity f) (severity_threshold s)) fs) ms r))"
        using a t c n q w by (simp add: scanner_step_def Let_def)
      moreover have "scan_says cfg j rt path s = (if u then Unavailable else Found fs)"
        using a t c n q w by (simp add: scan_says_def run_tool_def split: proc_outcome.splits option.splits)
      moreover have "u \<Longrightarrow> st = ScanError \<or> st = ScanTimeout"
        using w by (auto simp: run_tool_def split: proc_outcome.splits option.splits)
      ultimately show ?thesis
        by (intro exI [of _ "if u then st else ScanError"] exI [of _ out] exI [of _ err] exI [of _ ms]) simp
    qed (use a t in \<open>auto simp: scanner_step_def scan_says_def\<close>)
  qed (use a in \<open>auto simp: scanner_step_def scan_says_def\<close>)
qed (auto simp: scanner_step_def scan_says_def)

lemma scan_enforcement_enforces [gate_simps]: "scan_enforcement True e = EnfEnforce \<longleftrightarrow> e = EnfEnforce"
  by (simp add: scan_enforcement_def)

lemma try_scanner_verdict:
  "ran_allowed (try_scanner cfg j rt path s r) \<longleftrightarrow> ran_allowed r \<and> \<not> scanner_refuses cfg j rt path s"
  "ran_silent (try_scanner cfg j rt path s r) \<longleftrightarrow> ran_silent r \<and> \<not> scanner_refuses cfg j rt path s"
proof -
  have "ran_allowed (try_scanner cfg j rt path s (Some x)) \<longleftrightarrow> scan_allowed x \<and> \<not> scanner_refuses cfg j rt path s"
    "ran_silent (try_scanner cfg j rt path s (Some x)) \<longleftrightarrow> block_messages x = [] \<and> \<not> scanner_refuses cfg j rt path s"
    for x
    using scanner_step_answer [of cfg j rt path s x]
    by (auto simp: try_scanner_def scanner_refuses_def ran_allowed_def ran_silent_def gate_simps
        split: scan_answer.splits)
  then show "ran_allowed (try_scanner cfg j rt path s r) \<longleftrightarrow> ran_allowed r \<and> \<not> scanner_refuses cfg j rt path s"
    "ran_silent (try_scanner cfg j rt path s r) \<longleftrightarrow> ran_silent r \<and> \<not> scanner_refuses cfg j rt path s"
    by (cases r; simp add: ran_allowed_def ran_silent_def try_scanner_def)+
qed

interpretation scan_gate: verdict_fold "try_scanner cfg j rt path" ran_allowed "scanner_refuses cfg j rt path"
  for cfg j rt path
  by unfold_locales (rule try_scanner_verdict(1))

interpretation scan_messages: verdict_fold "try_scanner cfg j rt path" ran_silent "scanner_refuses cfg j rt path"
  for cfg j rt path
  by unfold_locales (rule try_scanner_verdict(2))

lemma run_scanners_fold:
  "run_scanners_for_launch cfg rows j =
     (if scanner_on cfg then
        fold (try_scanner cfg j (resource_type_of (class_name (scan_launch j))) (resolve_project_path j))
          (applicable_scanners rows j) (Some clean_run)
      else Some clean_run)"
  by (simp add: run_scanners_for_launch_def Let_def)

text \<open>
  Scanning allows a launch exactly if no scanner that applies to it refuses: each was skipped
  (no adapter, nothing to scan), or could not run while the fail mode is \<open>allow\<close>, or found nothing
  at its threshold or above in the order of severities, or only warns. A run that ends normally has
  a block message exactly if it refuses the launch.
\<close>

theorem run_scanners_verdict:
  "(ran_allowed (run_scanners_for_launch cfg rows j) \<longleftrightarrow>
      \<not> (scanner_on cfg \<and> (\<exists>s \<in> set (applicable_scanners rows j). scanner_refuses cfg j
          (resource_type_of (class_name (scan_launch j))) (resolve_project_path j) s))) \<and>
   (ran_silent (run_scanners_for_launch cfg rows j) \<longleftrightarrow> ran_allowed (run_scanners_for_launch cfg rows j))"
  by (auto simp: run_scanners_fold scan_gate.permitted_fold scan_messages.permitted_fold gate_simps)

section \<open>The rows\<close>

lemma severity_order_known [simp]: "severity_order (severity_name v) d = severity_rank v"
  by (simp add: severity_order_def severity_of_name_Some)

lemma lower_severity_name [simp]: "lower (severity_name v) = severity_name v"
  by (cases v) (simp_all add: lower_def lower_char_def)

lemma severity_of_known [simp]: "severity_of (severity_name v) = v"
  by (simp add: severity_of_def severity_of_name_Some)

lemma severity_name_nonempty [simp]: "severity_name v \<noteq> []"
  by (cases v) simp_all

lemma highest_severity_known:
  assumes "\<forall>f \<in> set fs. \<exists>v. severity f = severity_name v"
  shows "highest_severity (severity_name u) fs =
    severity_name (Max (insert u (severity_of ` severity ` set fs)))"
  using assms
proof (induction fs arbitrary: u)
  case (Cons f fs)
  then obtain v where v: "severity f = severity_name v" by auto
  have "Max (insert u (severity_of ` severity ` set (f # fs))) =
      Max (insert (max u v) (severity_of ` severity ` set fs))"
    using v by (cases "set fs = {}") (simp_all add: max.assoc)
  moreover have "highest_severity (severity_name u) (f # fs) = highest_severity (severity_name (max u v)) fs"
  proof (cases "severity_rank v > severity_rank u")
    case True
    then have "max u v = v" by (simp add: max_def less_eq_severity_def)
    with True v show ?thesis by simp
  next
    case False
    then have "max u v = u" by (simp add: max_absorb1 less_eq_severity_def)
    with False v show ?thesis by simp
  qed
  ultimately show ?case using Cons by simp
qed simp

lemma highest_severity_Max:
  assumes "\<forall>f \<in> set fs. \<exists>v. severity f = severity_name v" "fs \<noteq> []"
  shows "highest_severity [] fs = severity_name (Max (severity_of ` severity ` set fs))"
proof (cases fs)
  case (Cons f gs)
  with assms obtain v where v: "severity f = severity_name v" by auto
  have "severity_order [] (- 1) = - 1"
    by (simp add: severity_order_def severity_of_name_def all_severities_def)
  moreover have "severity_rank v \<ge> 0" by (cases v) simp_all
  ultimately show ?thesis using Cons v assms highest_severity_known [of gs v] by simp
qed (use assms in simp)

lemma finding_row_known: "\<exists>v. severity f = severity_name v \<Longrightarrow> finding_row f = f"
  by (metis finding_row_def finding.surjective finding.update_convs(2) or_text_def severity_name_nonempty)

text \<open>The state of a row that the runner writes for a scanner.\<close>

definition row_ok :: "scanner \<Rightarrow> scan_row \<Rightarrow> bool" where
  "row_ok s row \<longleftrightarrow>
     sr_scanner row = scanner_id s \<and>
     sr_finding_count row = length (sr_findings row) \<and>
     (\<forall>f \<in> set (sr_findings row). severity_of (severity_threshold s) \<le> severity_of (severity f)) \<and>
     (sr_findings row \<noteq> [] \<longrightarrow>
        sr_highest row = severity_name (Max (severity_of ` severity ` set (sr_findings row)))) \<and>
     (sr_status row = ScanBlocked \<longleftrightarrow> scanner_enf s = EnfEnforce \<and> sr_findings row \<noteq> []) \<and>
     (sr_job row = None \<longrightarrow> sr_status row \<noteq> ScanOk \<and> sr_status row \<noteq> ScanWarn)"

lemma scan_says_known:
  assumes "scan_says cfg j rt path s = Found fs" "f \<in> set fs"
  shows "\<exists>v. severity f = severity_name v"
  using assms adapter_severities [of "tool s"]
  by (auto simp: scan_says_def split: option.splits if_splits proc_outcome.splits)

lemma record_findings_rows:
  assumes "\<forall>f \<in> set raw. \<exists>v. severity f = severity_name v"
    and "fs = filter (\<lambda>f. severity_at_or_above (severity f) (severity_threshold s)) raw"
  shows "\<exists>row. scan_results (record_findings cfg j s out fs ms r) = scan_results r @ [row] \<and> row_ok s row"
proof -
  have k: "\<forall>f \<in> set fs. \<exists>v. severity f = severity_name v" using assms by auto
  then have m: "map finding_row fs = fs" by (simp add: finding_row_known map_idI)
  have "decide_status (scan_enforcement True (scanner_enf s)) (severity_threshold s) fs = ScanBlocked \<longleftrightarrow>
      scanner_enf s = EnfEnforce \<and> fs \<noteq> []"
    unfolding assms(2) decide_status_blocked scan_enforcement_enforces
    by (auto simp: severity_at_or_above_order filter_empty_conv)
  moreover have "\<forall>f \<in> set fs. severity_of (severity_threshold s) \<le> severity_of (severity f)"
    using assms(2) by (simp add: severity_at_or_above_order)
  ultimately have "row_ok s (last (scan_results (record_findings cfg j s out fs ms r)))"
    using highest_severity_Max [OF k]
    by (cases "decide_status (scan_enforcement True (scanner_enf s)) (severity_threshold s) fs = ScanBlocked")
      (auto simp: record_findings_def Let_def m row_ok_def)
  moreover have "scan_results (record_findings cfg j s out fs ms r) = scan_results r @
      [last (scan_results (record_findings cfg j s out fs ms r))]"
    by (simp add: record_findings_def Let_def)
  ultimately show ?thesis by blast
qed

lemma record_unavailable_rows:
  "st = ScanError \<or> st = ScanTimeout \<Longrightarrow>
     \<exists>row. scan_results (record_unavailable cfg j s st out err ms r) = scan_results r @ [row] \<and> row_ok s row"
  by (auto simp: record_unavailable_def Let_def row_ok_def)

definition rows_ok :: "scanner list \<Rightarrow> scan_run option \<Rightarrow> bool" where
  "rows_ok ss r \<longleftrightarrow> (case r of None \<Rightarrow> True | Some x \<Rightarrow> \<forall>row \<in> set (scan_results x). \<exists>s \<in> set ss. row_ok s row)"

lemma rows_ok_step:
  assumes "rows_ok ss r" "s \<in> set ss"
  shows "rows_ok ss (try_scanner cfg j rt path s r)"
proof (cases r)
  case r: (Some x)
  obtain st out err ms where t: "st = ScanError \<or> st = ScanTimeout"
    and q: "scanner_step cfg j rt path s x =
     (case scan_says cfg j rt path s of
        Skipped \<Rightarrow> Some x
      | Raised \<Rightarrow> None
      | Unavailable \<Rightarrow> Some (record_unavailable cfg j s st out err ms x)
      | Found fs \<Rightarrow> Some (record_findings cfg j s out
          (filter (\<lambda>f. severity_at_or_above (severity f) (severity_threshold s)) fs) ms x))"
    using scanner_step_answer [of cfg j rt path s x] by blast
  show ?thesis
  proof (cases "scan_says cfg j rt path s")
    case Unavailable
    with q r assms record_unavailable_rows [OF t, of cfg j s out err ms x] show ?thesis
      by (auto simp: rows_ok_def try_scanner_def)
  next
    case (Found fs)
    with q r assms record_findings_rows [OF _ refl, of fs cfg j s out ms x] scan_says_known [OF Found]
    show ?thesis by (auto simp: rows_ok_def try_scanner_def)
  qed (use q r assms in \<open>auto simp: rows_ok_def try_scanner_def\<close>)
qed (use assms in \<open>simp add: rows_ok_def try_scanner_def\<close>)

lemma rows_ok_fold:
  "set ss \<subseteq> set all \<Longrightarrow> rows_ok all r \<Longrightarrow> rows_ok all (fold (try_scanner cfg j rt path) ss r)"
  by (induction ss arbitrary: r) (simp_all add: rows_ok_step)

text \<open>
  Every result row that a run writes belongs to a scanner that applies to the launch and is
  consistent with its findings: the count is the number of findings stored, every stored finding is
  at the scanner's threshold or above in the order of severities, the highest severity is their
  maximum, the row is \<open>blocked\<close> exactly if the scanner enforces and something was found, and a row
  that keeps no job is neither \<open>ok\<close> nor \<open>warn\<close>.
\<close>

theorem scan_rows_consistent:
  assumes "run_scanners_for_launch cfg rows j = Some r" "row \<in> set (scan_results r)"
  shows "\<exists>s \<in> set (applicable_scanners rows j). row_ok s row"
proof -
  have "rows_ok (applicable_scanners rows j) (Some clean_run)" by (simp add: rows_ok_def clean_run_def)
  then have "rows_ok (applicable_scanners rows j) (run_scanners_for_launch cfg rows j)"
    by (simp add: run_scanners_fold rows_ok_fold)
  with assms show ?thesis by (simp add: rows_ok_def)
qed

section \<open>Tools that fail without output\<close>

lemma no_output_no_findings:
  "get_adapter t = Some a \<Longrightarrow> out = [] \<or> loads out = None \<Longrightarrow> parse_output a loads v out = Some []"
  by (auto simp: get_adapter_def lint_parse_def checkov_parse_def pip_parse_def split: if_splits)

text \<open>
  A tool that crashes is taken for a clean scan. Whatever its exit code and error output, a tool
  that ends on its own with no output, or with output that is no JSON, has found nothing: its scanner
  never refuses the launch, even if it enforces and the fail mode is not \<open>allow\<close>.
\<close>

theorem crashed_tool_passes:
  assumes "\<And>cmd. \<exists>err code ms. run_process cfg cmd = (Completed out err code, ms)"
    and "out = [] \<or> json_loads cfg out = None"
    and "scan_says cfg j rt path s \<noteq> Raised"
  shows "\<not> scanner_refuses cfg j rt path s"
proof -
  have "scan_says cfg j rt path s \<in> {Skipped, Found []}"
  proof (cases "get_adapter (tool s)")
    case (Some a)
    show ?thesis
    proof (cases "resolve_target (realpath cfg) j rt path (tool s)")
      case t: (Some t)
      show ?thesis
      proof (cases "build_command a (value_repr cfg) t (py_or (config s) no_object)")
        case c: (Some c)
        from assms(1) [of c] obtain err code ms where "run_process cfg c = (Completed out err code, ms)" by blast
        with Some t c no_output_no_findings [of "tool s" a out "json_loads cfg" "value_repr cfg"] assms(2) show ?thesis by (simp add: scan_says_def)
      qed (use Some t assms(3) in \<open>auto simp: scan_says_def split: if_splits\<close>)
    qed (use Some in \<open>simp add: scan_says_def\<close>)
  qed (simp add: scan_says_def)
  then show ?thesis by (auto simp: scanner_refuses_def)
qed

section \<open>A launch with two scanners\<close>

definition demo_scanner :: scanner where
  "demo_scanner = \<lparr>scanner_id = 1, scanner_name = ''audit'', scanner_org = None, tool = ''pip-audit'',
     config = JObj [], severity_threshold = ''medium'', scanner_enf = EnfEnforce, scanner_enabled = True,
     scanner_applies_to = [], scanner_trigger_count = 0\<rparr>"

definition demo_scan_job :: scan_job where
  "demo_scan_job = \<lparr>scan_launch = demo_launch, scan_template = Some 4,
     scan_project = Some \<lparr>project_checkout = Some (Some ''/p''), project_local_path = []\<rparr>\<rparr>"

text \<open>A tool that reports one vulnerability, and one that exits with code 2 and no output.\<close>

definition vulnerable :: json where
  "vulnerable = JList [JObj [(''name'', JStr ''pkg''), (''version'', JStr ''1''),
     (''vulns'', JList [JObj [(''id'', JStr ''CVE-1'')]])]]"

definition scan_setting :: "proc_outcome \<Rightarrow> scan_cfg" where
  "scan_setting outcome = \<lparr>scanner_on = True, timeout_s = 120, scan_fail = ''deny'', raw_output_max = 8192,
     realpath = (\<lambda>p. p), run_process = (\<lambda>_. (outcome, 7)),
     json_loads = (\<lambda>s. if s = ''[..]'' then Some vulnerable else None), value_repr = (\<lambda>_. [])\<rparr>"

lemmas scan_demo = scan_setting_def demo_scan_job_def demo_scanner_def demo_launch_def

lemma demo_scan_says:
  "scan_says (scan_setting (Completed ''[..]'' [] 1)) demo_scan_job ''job_template'' (Some ''/p'') demo_scanner =
     Found [\<lparr>rule_id = ''CVE-1'', severity = ''high'', file_path = ''pkg'', line = None, message = ''pkg 1: ''\<rparr>]"
  "scan_says (scan_setting (Completed [] [] 2)) demo_scan_job ''job_template'' (Some ''/p'') demo_scanner = Found []"
  by code_simp+

theorem scan_rows_witness:
  "\<exists>r row. run_scanners_for_launch (scan_setting (Completed ''[..]'' [] 1)) [demo_scanner] demo_scan_job = Some r \<and>
     row \<in> set (scan_results r) \<and> sr_status row = ScanBlocked \<and> row_ok demo_scanner row"
proof -
  let ?run = "run_scanners_for_launch (scan_setting (Completed ''[..]'' [] 1)) [demo_scanner] demo_scan_job"
  have "map_option (map sr_status \<circ> scan_results) ?run = Some [ScanBlocked]" by code_simp
  then obtain r where r: "?run = Some r" "map sr_status (scan_results r) = [ScanBlocked]" by auto
  then obtain row where row: "row \<in> set (scan_results r)" "sr_status row = ScanBlocked" by auto
  moreover have "applicable_scanners [demo_scanner] demo_scan_job = [demo_scanner]"
    by (simp add: applicable_scanners_def demo_scanner_def models_q_org_def scanner_applies_def scan_org_id_def
        split: option.splits)
  ultimately show ?thesis using scan_rows_consistent [OF r(1) row(1)] r(1) by auto
qed

theorem crashed_tool_passes_witness:
  "\<not> scanner_refuses (scan_setting (Completed [] [] 2)) demo_scan_job ''job_template'' (Some ''/p'') demo_scanner \<and>
   scan_fail (scan_setting (Completed [] [] 2)) = ''deny''"
proof -
  have "\<exists>err code ms. run_process (scan_setting (Completed [] [] 2)) cmd = (Completed [] err code, ms)" for cmd
    by (simp add: scan_setting_def)
  from crashed_tool_passes [OF this, of demo_scan_job "''job_template''" "Some ''/p''" demo_scanner]
  show ?thesis by (simp add: demo_scan_says) (simp add: scan_setting_def)
qed

end
