(* ===== verification/Launch_Gates.thy ===== *)
theory Launch_Gates
  imports Tenancy_Spec Scanner_Runner
begin

text \<open>
  The launch of a job from the API: \<open>JobTemplateLaunch.post\<close>, \<open>WorkflowJobTemplateLaunch.post\<close> and
  \<open>AdHocCommandList.create\<close> of \<open>forail/api/views\<close>, which run the tenant quota, the policy evaluator
  and the scanners in this order before \<open>UnifiedJob.signal_start\<close>
  (\<open>forail/main/models/unified_jobs.py\<close>), and the signal handler of \<open>forail/main/signals.py\<close>
  that gives a tenant's slot back when a job ends.

  The validation of the payload, the permission check and the creation of the row are arguments.
  A launch of a template runs in one transaction (\<open>ATOMIC_REQUESTS\<close>): an exception restores the rows. The view of ad
  hoc commands is excepted from this (\<open>non_atomic_requests\<close>): what it has written stays.
\<close>

section \<open>State\<close>

record launched_job =
  lj_status :: job_status
  lj_explanation :: string
  lj_start_args :: "(string \<times> json) list option"

datatype manager_run = TaskManagerRun | DependencyManagerRun

record launch_world =
  lw_usage :: "tenant_usage option"
  lw_job :: "launched_job option"
  lw_decisions :: "policy_decision list"
  lw_triggered :: "pk list"
  lw_scan_rows :: "scan_row list"
  lw_last_runs :: "(pk \<times> scan_status \<times> nat option) list"
  lw_scheduled :: "manager_run list"

datatype launch_reply =
    InvalidPayload
  | PermissionRefused
  | QuotaExceeded "string list"
  | PolicyDenied "string list"
  | ScannerBlocked "string list"
  | NeedPasswords "string list"
  | Created
  | Crashed

text \<open>What the three gates read.\<close>

record gate_input =
  gi_settings :: tenancy_settings
  gi_org :: "organization option"
  gi_now :: int
  gi_policy :: policy_cfg
  gi_org_enforcement :: "pk \<Rightarrow> enforcement option"
  gi_policies :: "policy list"
  gi_now_iso :: string
  gi_scan :: scan_cfg
  gi_scanners :: "scanner list"
  gi_job :: scan_job
  gi_dependencies_processed :: bool

section \<open>Operations\<close>

definition new_line :: string where
  "new_line = [char_of (10 :: nat)]"

definition explain_launch :: "string \<Rightarrow> string list \<Rightarrow> launch_world \<Rightarrow> launch_world" where
  "explain_launch label msgs w =
     (if msgs = [] then w
      else w\<lparr>lw_job := map_option (\<lambda>j. j\<lparr>lj_explanation :=
             take 1024 (lj_explanation j @ new_line @ label @ join_with ''; '' msgs)\<rparr>) (lw_job w)\<rparr>)"

text \<open>\<open>new_job.delete()\<close>: the rows of decisions and scans keep no reference to the job.\<close>

definition delete_job :: "pk \<Rightarrow> launch_world \<Rightarrow> launch_world" where
  "delete_job i w = w\<lparr>lw_job := None,
     lw_decisions := map (\<lambda>d. if pd_job d = Some i then d\<lparr>pd_job := None\<rparr> else d) (lw_decisions w),
     lw_scan_rows := map (\<lambda>r. if sr_job r = Some i then r\<lparr>sr_job := None\<rparr> else r) (lw_scan_rows w)\<rparr>"

definition gate_job_id :: "gate_input \<Rightarrow> pk" where
  "gate_job_id g = job_id (scan_launch (gi_job g))"

definition gate_quota :: "gate_input \<Rightarrow> launch_world \<Rightarrow> quota_result \<times> tenant_usage option" where
  "gate_quota g w = check_tenant_quota (gi_settings g) (gi_org g) (gi_now g) (lw_usage w)"

definition gate_policy :: "gate_input \<Rightarrow> policy_result" where
  "gate_policy g = evaluate_launch (gi_policy g) (gi_org_enforcement g) (gi_policies g) (gi_now_iso g)
     (scan_launch (gi_job g))"

definition gate_scan :: "gate_input \<Rightarrow> scan_run option" where
  "gate_scan g = run_scanners_for_launch (gi_scan g) (gi_scanners g) (gi_job g)"

text \<open>What the scanners before one that raises have written.\<close>

definition scans_before_raise :: "gate_input \<Rightarrow> scan_run" where
  "scans_before_raise g =
     (let rt = resource_type_of (class_name (scan_launch (gi_job g)));
          path = resolve_project_path (gi_job g);
          before = takeWhile (\<lambda>s. scan_says (gi_scan g) (gi_job g) rt path s \<noteq> Raised)
            (applicable_scanners (gi_scanners g) (gi_job g))
      in case fold (try_scanner (gi_scan g) (gi_job g) rt path) before (Some clean_run) of
           None \<Rightarrow> clean_run | Some r \<Rightarrow> r)"

text \<open>The gates in order; \<open>None\<close> lets the launch go on.\<close>

definition launch_gates :: "gate_input \<Rightarrow> launch_world \<Rightarrow> launch_reply option \<times> launch_world" where
  "launch_gates g w =
     (let (q, usage) = gate_quota g w;
          w1 = w\<lparr>lw_usage := usage\<rparr>
      in if \<not> q_allowed q then (Some (QuotaExceeded (q_reasons q)), delete_job (gate_job_id g) w1)
         else
           (let p = gate_policy g;
                w2 = w1\<lparr>lw_decisions := lw_decisions w1 @ decisions p, lw_triggered := lw_triggered w1 @ triggered p\<rparr>
            in if \<not> pr_allowed p then (Some (PolicyDenied (deny_messages p)), delete_job (gate_job_id g) w2)
               else
                 (let w3 = explain_launch ''Policy warnings: '' (warn_messages p) w2
                  in case gate_scan g of
                       None \<Rightarrow> (Some Crashed, w3\<lparr>lw_scan_rows := lw_scan_rows w3 @ scan_results (scans_before_raise g),
                                                lw_last_runs := lw_last_runs w3 @ last_runs (scans_before_raise g)\<rparr>)
                     | Some s \<Rightarrow>
                         (let w4 = w3\<lparr>lw_scan_rows := lw_scan_rows w3 @ scan_results s,
                                      lw_last_runs := lw_last_runs w3 @ last_runs s\<rparr>
                          in if \<not> scan_allowed s then
                               (Some (ScannerBlocked (block_messages s)), delete_job (gate_job_id g) w4)
                             else (None, explain_launch ''Scan warnings: '' (scan_warnings s) w4)))))"

definition startable :: "job_status \<Rightarrow> bool" where
  "startable s \<longleftrightarrow> s = New \<or> s = Waiting"

definition signal_start ::
  "bool \<Rightarrow> string list \<Rightarrow> (string \<times> json) list \<Rightarrow> launch_world \<Rightarrow> bool \<times> launch_world" where
  "signal_start dependencies_processed needed kwargs w =
     (case lw_job w of
        None \<Rightarrow> (False, w)
      | Some j \<Rightarrow>
          if \<not> startable (lj_status j) then (False, w)
          else if \<not> list_all (\<lambda>f. json_true (dict_get kwargs f (JStr []))) needed then (False, w)
          else (True, w\<lparr>lw_job := Some (j\<lparr>lj_start_args := Some kwargs, lj_status := Pending\<rparr>),
                        lw_scheduled := lw_scheduled w @
                          [if dependencies_processed then TaskManagerRun else DependencyManagerRun]\<rparr>))"

section \<open>The views\<close>

definition fresh_job :: launched_job where
  "fresh_job = \<lparr>lj_status = New, lj_explanation = [], lj_start_args = None\<rparr>"

definition job_template_launch ::
  "bool \<Rightarrow> bool \<Rightarrow> gate_input \<Rightarrow> string list \<Rightarrow> (string \<times> json) list \<Rightarrow> launch_world \<Rightarrow>
     launch_reply \<times> launch_world" where
  "job_template_launch valid may_launch g needed passwords w =
     (if \<not> valid then (InvalidPayload, w)
      else if \<not> may_launch then (PermissionRefused, w)
      else case launch_gates g (w\<lparr>lw_job := Some fresh_job\<rparr>) of
        (Some r, w1) \<Rightarrow> (r, if r = Crashed then w else w1)
      | (None, w1) \<Rightarrow>
          (let (started, w2) = signal_start (gi_dependencies_processed g) needed passwords w1
           in if \<not> started then (NeedPasswords needed, delete_job (gate_job_id g) w2) else (Created, w2)))"



text \<open>
  The handler of \<open>post_save\<close>, with the job's class and status. \<open>receives c\<close> says whether the
  framework delivers the signal of a save of class \<open>c\<close> to a receiver that is connected with
  \<open>sender=UnifiedJob\<close>.
\<close>

definition tenancy_terminal :: "job_status \<Rightarrow> bool" where
  "tenancy_terminal s \<longleftrightarrow> s \<in> {Successful, Failed, Errored, Canceled}"

definition on_unified_job_save ::
  "organization option \<Rightarrow> bool \<Rightarrow> job_status \<Rightarrow> tenant_usage option \<Rightarrow> tenant_usage option" where
  "on_unified_job_save owner created status u =
     (if created then u else if \<not> tenancy_terminal status then u else on_job_finished owner u)"

fun saves ::
  "(string \<Rightarrow> bool) \<Rightarrow> organization option \<Rightarrow> (string \<times> job_status) list \<Rightarrow>
     tenant_usage option \<Rightarrow> tenant_usage option" where
  "saves receives owner [] u = u"
| "saves receives owner ((c, s) # cs) u =
     saves receives owner cs (if receives c then on_unified_job_save owner False s u else u)"

section \<open>What a launch does\<close>

definition gates_pass :: "gate_input \<Rightarrow> launch_world \<Rightarrow> bool" where
  "gates_pass g w \<longleftrightarrow> q_allowed (fst (gate_quota g w)) \<and> pr_allowed (gate_policy g) \<and> ran_allowed (gate_scan g)"


definition no_job :: "launch_world \<Rightarrow> launch_world \<Rightarrow> bool" where
  "no_job w w' \<longleftrightarrow> lw_job w' = None \<and> lw_scheduled w' = lw_scheduled w"

lemma explain_launch_job [gate_simps]:
  "map_option lj_status (lw_job (explain_launch l m w)) = map_option lj_status (lw_job w)"
  "lw_scheduled (explain_launch l m w) = lw_scheduled w"
  "lw_usage (explain_launch l m w) = lw_usage w"
  by (simp_all add: explain_launch_def option.map_comp comp_def)

lemma delete_job_simps [gate_simps]:
  "lw_job (delete_job i w) = None" "lw_scheduled (delete_job i w) = lw_scheduled w"
  "lw_usage (delete_job i w) = lw_usage w"
  by (simp_all add: delete_job_def)







lemma gates_pass_job [gate_simps]: "gates_pass g (w\<lparr>lw_job := x\<rparr>) = gates_pass g w"
  by (simp add: gates_pass_def gate_quota_def)

lemma no_job_job [gate_simps]: "no_job (w\<lparr>lw_job := x\<rparr>) w' = no_job w w'"
  by (simp add: no_job_def)




lemma gate_quota_job [gate_simps]: "gate_quota g (w\<lparr>lw_job := x\<rparr>) = gate_quota g w"
  by (simp add: gate_quota_def)



section \<open>The tenant's slots\<close>

lemma rollover_keeps: "concurrent_jobs_count (rollover now u) = concurrent_jobs_count u"
  by (simp add: rollover_def split: prod.split)

text \<open>
  A launch that the policies, the scanners or missing passwords stop keeps its slot. When the
  quota of a tenant lets the launch pass, the tenant's counter of concurrent jobs is one higher
  afterwards whatever the other gates decide, although the job is deleted; only an exception undoes
  it.
\<close>

theorem stopped_launch_keeps_slot:
  assumes "tenancy_enabled (gi_settings g)" "gi_org g = Some org" "is_tenant_root org"
    and "q_allowed (fst (gate_quota g w))" "lw_usage w = Some u"
    and "job_template_launch True True g needed passwords w = (r, w')" "r \<noteq> Crashed"
  shows "map_option concurrent_jobs_count (lw_usage w') = Some (concurrent_jobs_count u + 1)"
proof -
  have "map_option concurrent_jobs_count (snd (gate_quota g w)) = Some (concurrent_jobs_count u + 1)"
    using assms(1-5)
    by (auto simp: gate_quota_def check_tenant_quota_def rollover_keeps Let_def split: option.splits prod.splits)
  then show ?thesis
    using assms(4,6,7)
    by (auto simp: job_template_launch_def launch_gates_def signal_start_def gate_quota_def gate_simps Let_def
        split: prod.splits if_splits option.splits)
qed

text \<open>The signal of a save reaches the handler only for exactly the class it was connected for.\<close>

definition exact_sender :: "string \<Rightarrow> bool" where
  "exact_sender c \<longleftrightarrow> c = ''UnifiedJob''"

lemma saves_exact: "\<forall>(c, s) \<in> set cs. c \<noteq> ''UnifiedJob'' \<Longrightarrow> saves exact_sender owner cs u = u"
  by (induction cs) (auto simp: exact_sender_def)

lemma saves_all:
  assumes "is_tenant_root org" "tenancy_terminal s"
  shows "0 \<le> concurrent_jobs_count u \<Longrightarrow>
    map_option concurrent_jobs_count (saves (\<lambda>_. True) (Some org) (replicate n (c, s)) (Some u)) =
      Some (max 0 (concurrent_jobs_count u - int n))"
proof (induction n arbitrary: u)
  case (Suc n)
  have "max 0 (max 0 (concurrent_jobs_count u - 1) - int n) = max 0 (concurrent_jobs_count u - int (Suc n))"
    by simp
  with Suc.IH [of "u\<lparr>concurrent_jobs_count := max 0 (concurrent_jobs_count u - 1)\<rparr>"] assms show ?case
    by (simp add: on_unified_job_save_def on_job_finished_def del: max.bounded_iff of_nat_Suc)
qed simp

text \<open>
  A finished job of a tenant gives no slot back, however often it is saved: its saves are
  signalled with the job's own class, and the handler is connected for \<open>UnifiedJob\<close> alone. If the
  framework delivered them, each of the saves of a finished job would give back one more slot.
\<close>

theorem slots_not_returned:
  assumes "is_tenant_root org" "0 \<le> concurrent_jobs_count u" "c \<in> {''Job'', ''WorkflowJob'', ''AdHocCommand''}"
    and "s \<in> {Successful, Failed, Errored, Canceled}"
  shows "saves exact_sender (Some org) (replicate n (c, s)) (Some u) = Some u \<and>
    map_option concurrent_jobs_count (saves (\<lambda>_. True) (Some org) (replicate n (c, s)) (Some u)) =
      Some (max 0 (concurrent_jobs_count u - int n))"
  using saves_exact [of "replicate n (c, s)" "Some org" "Some u"] saves_all [OF assms(1) _ assms(2), of s n c] assms(3,4)
  by (auto simp: tenancy_terminal_def)

section \<open>A tenant with one slot\<close>

definition open_policies :: policy_cfg where
  "open_policies = no_opa\<lparr>opa_enabled := False\<rparr>"

definition one_slot :: "proc_outcome \<Rightarrow> gate_input" where
  "one_slot outcome = \<lparr>gi_settings = all_on, gi_org = Some acme, gi_now = 10, gi_policy = open_policies,
     gi_org_enforcement = (\<lambda>_. None), gi_policies = [], gi_now_iso = [], gi_scan = scan_setting outcome,
     gi_scanners = [demo_scanner], gi_job = demo_scan_job, gi_dependencies_processed = False\<rparr>"

definition idle_world :: launch_world where
  "idle_world = \<lparr>lw_usage = Some (new_usage 10), lw_job = None, lw_decisions = [], lw_triggered = [],
     lw_scan_rows = [], lw_last_runs = [], lw_scheduled = []\<rparr>"

lemma one_slot_quota: "q_allowed (fst (gate_quota (one_slot out) idle_world))"
  by code_simp



text \<open>The first launch is stopped by a scanner; its slot is the tenant's only one.\<close>

theorem stopped_launch_witness:
  "fst (job_template_launch True True (one_slot (Completed ''[..]'' [] 1)) [] [] idle_world) =
     ScannerBlocked [''[audit] CVE-1 pkg: pkg 1: ''] \<and>
   map_option concurrent_jobs_count
     (lw_usage (snd (job_template_launch True True (one_slot (Completed ''[..]'' [] 1)) [] [] idle_world))) = Some 1"
proof -
  let ?g = "one_slot (Completed ''[..]'' [] 1)"
  obtain r w' where l: "job_template_launch True True ?g [] [] idle_world = (r, w')" by fastforce
  have r: "fst (job_template_launch True True ?g [] [] idle_world) =
      ScannerBlocked [''[audit] CVE-1 pkg: pkg 1: '']" by code_simp
  have i: "tenancy_enabled (gi_settings ?g)" "gi_org ?g = Some acme" "is_tenant_root acme"
    by (simp_all add: one_slot_def all_on_def acme_def)
  have u: "lw_usage idle_world = Some (new_usage 10)" by (simp add: idle_world_def)
  have "r \<noteq> Crashed" using r l by simp
  from stopped_launch_keeps_slot [OF i one_slot_quota u l this] r l show ?thesis
    by (simp add: new_usage_def)
qed

theorem slots_not_returned_witness:
  "saves exact_sender (Some acme) (replicate 2 (''Job'', Successful)) (Some (new_usage 10)) = Some (new_usage 10)"
  using slots_not_returned [of acme "new_usage 10" "''Job''" Successful 2]
  by (simp add: acme_def new_usage_def)

end
