(* ===== verification/Role_Ancestors.thy ===== *)
theory Role_Ancestors
  imports Prelude
begin

text \<open>
  Roles: the table of role ancestors of \<open>forail/main/models/rbac.py\<close>, which denormalizes the
  parent relation of the roles, the signal handler of \<open>forail/main/signals.py\<close> that keeps it up to
  date, and the reads that access checks make of it.

  The three tables are lists of rows: the roles, the pairs (child, parent) and the pairs
  (descendent, ancestor). A statement reads the table as it was before it, as SQL does; the ids are
  split into chunks of 40000. The setting that turns the new role system on is an argument.
\<close>

section \<open>State\<close>

record role_world =
  rw_roles :: "pk list"
  rw_parents :: "(pk \<times> pk) list"
  rw_ancestors :: "(pk \<times> pk) list"
  rw_batching :: bool
  rw_additions :: "pk list"
  rw_removals :: "pk list"

section \<open>The statements\<close>

function chunks :: "pk list \<Rightarrow> pk list list" where
  "chunks ids = (if ids = [] then [] else take 40000 ids # chunks (drop 40000 ids))"
  by pat_completeness auto
termination by (relation "measure length") auto

declare chunks.simps [simp del]

definition delete_stale :: "(pk \<times> pk) list \<Rightarrow> pk list \<Rightarrow> (pk \<times> pk) list \<Rightarrow> (pk \<times> pk) list" where
  "delete_stale par ids anc =
     filter (\<lambda>(d, a). \<not> (d \<in> set ids \<and> d \<noteq> a \<and> \<not> list_ex (\<lambda>(c, p). c = d \<and> (p, a) \<in> set anc) par)) anc"

definition new_ancestry :: "pk list \<Rightarrow> (pk \<times> pk) list \<Rightarrow> pk list \<Rightarrow> (pk \<times> pk) list \<Rightarrow> (pk \<times> pk) list" where
  "new_ancestry roles par ids anc =
     concat (map (\<lambda>(c, p). if c \<in> set roles \<and> c \<in> set ids
                            then map (\<lambda>(d, a). (c, a)) (filter (\<lambda>(d, a). d = p) anc) else []) par) @
     map (\<lambda>i. (i, i)) (filter (\<lambda>i. i \<in> set ids) roles)"

definition insert_missing :: "pk list \<Rightarrow> (pk \<times> pk) list \<Rightarrow> pk list \<Rightarrow> (pk \<times> pk) list \<Rightarrow> (pk \<times> pk) list" where
  "insert_missing roles par ids anc =
     anc @ filter (\<lambda>e. e \<notin> set anc) (remdups (new_ancestry roles par ids anc))"

definition children_of :: "(pk \<times> pk) list \<Rightarrow> pk list \<Rightarrow> pk list" where
  "children_of par ids = remdups (map fst (filter (\<lambda>(c, p). p \<in> set ids) par))"

text \<open>
  The loop. Each pass deletes, inserts and moves on to the children; a pass that changes no row ends
  it. \<open>left\<close> counts the passes that are left; the 102nd raises an exception, \<open>None\<close>.
\<close>

fun rebuild_loop ::
  "nat \<Rightarrow> pk list \<Rightarrow> (pk \<times> pk) list \<Rightarrow> pk list \<Rightarrow> pk list \<Rightarrow> (pk \<times> pk) list \<Rightarrow> (pk \<times> pk) list option" where
  "rebuild_loop left roles par additions removals anc =
     (if additions = [] \<and> removals = [] then Some anc
      else case left of
        0 \<Rightarrow> None
      | Suc k \<Rightarrow>
          (let anc1 = fold (delete_stale par) (chunks removals) anc;
               anc2 = fold (insert_missing roles par) (chunks additions) anc1
           in if length anc2 - length anc1 = 0 \<and> length anc - length anc1 = 0 then Some anc2
              else rebuild_loop k roles par (children_of par additions) (children_of par removals) anc2))"

declare rebuild_loop.simps [simp del]

definition max_passes :: nat where
  "max_passes = 101"

definition rebuild_role_ancestor_list ::
  "bool \<Rightarrow> pk list \<Rightarrow> pk list \<Rightarrow> role_world \<Rightarrow> role_world option" where
  "rebuild_role_ancestor_list activated additions removals w =
     (if activated then Some w
      else if additions = [] \<and> removals = [] then Some w
      else if rw_batching w then
        Some (w\<lparr>rw_additions := rw_additions w @ additions, rw_removals := rw_removals w @ removals\<rparr>)
      else case rebuild_loop max_passes (rw_roles w) (rw_parents w) additions removals (rw_ancestors w) of
        None \<Rightarrow> None
      | Some anc \<Rightarrow> Some (w\<lparr>rw_ancestors := anc\<rparr>))"

section \<open>Changes of the hierarchy\<close>

text \<open>The changes of the many-to-many relation, and the handler that they signal.\<close>

datatype m2m_action = PostAdd | PostRemove | PostClear

text \<open>\<open>list(None)\<close> raises: a clear through the children has no set of keys.\<close>

definition on_parents_changed ::
  "bool \<Rightarrow> bool \<Rightarrow> pk \<Rightarrow> pk list option \<Rightarrow> m2m_action \<Rightarrow> role_world \<Rightarrow> role_world option" where
  "on_parents_changed activated reverse instance_id pk_set action w =
     (case action of
        PostAdd \<Rightarrow>
          if reverse then
            (case pk_set of None \<Rightarrow> None | Some ids \<Rightarrow> rebuild_role_ancestor_list activated ids [] w)
          else rebuild_role_ancestor_list activated [instance_id] [] w
      | _ \<Rightarrow>
          if reverse then
            (case pk_set of None \<Rightarrow> None | Some ids \<Rightarrow> rebuild_role_ancestor_list activated [] ids w)
          else rebuild_role_ancestor_list activated [] [instance_id] w)"

datatype role_op =
    AddParents pk "pk list"
  | RemoveParents pk "pk list"
  | ClearParents pk
  | AddChildren pk "pk list"
  | RemoveChildren pk "pk list"
  | SaveRole pk
  | DeleteRoles "pk list"

definition link :: "(pk \<times> pk) list \<Rightarrow> role_world \<Rightarrow> role_world" where
  "link es w = w\<lparr>rw_parents := rw_parents w @ filter (\<lambda>e. e \<notin> set (rw_parents w)) (remdups es)\<rparr>"

definition unlink :: "(pk \<times> pk) list \<Rightarrow> role_world \<Rightarrow> role_world" where
  "unlink es w = w\<lparr>rw_parents := filter (\<lambda>e. e \<notin> set es) (rw_parents w)\<rparr>"

text \<open>A row that names a missing role violates a foreign key, which raises.\<close>

definition known :: "role_world \<Rightarrow> pk list \<Rightarrow> bool" where
  "known w ids = list_all (\<lambda>i. i \<in> set (rw_roles w)) ids"

text \<open>\<open>_post_delete\<close> of a resource: its roles go with their rows, then their children are rebuilt.\<close>

definition delete_rows :: "pk list \<Rightarrow> role_world \<Rightarrow> role_world" where
  "delete_rows ids w =
     w\<lparr>rw_roles := filter (\<lambda>i. i \<notin> set ids) (rw_roles w),
       rw_parents := filter (\<lambda>(c, p). c \<notin> set ids \<and> p \<notin> set ids) (rw_parents w),
       rw_ancestors := filter (\<lambda>(d, a). d \<notin> set ids \<and> a \<notin> set ids) (rw_ancestors w)\<rparr>"

definition post_delete :: "bool \<Rightarrow> pk list \<Rightarrow> role_world \<Rightarrow> role_world option" where
  "post_delete activated role_ids w =
     rebuild_role_ancestor_list activated [] (children_of (rw_parents w) role_ids) (delete_rows role_ids w)"

text \<open>\<open>Role.save\<close>, of a new or of a present row.\<close>

definition save_role :: "bool \<Rightarrow> pk \<Rightarrow> role_world \<Rightarrow> role_world option" where
  "save_role activated i w =
     rebuild_role_ancestor_list activated [i] []
       (w\<lparr>rw_roles := (if i \<in> set (rw_roles w) then rw_roles w else rw_roles w @ [i])\<rparr>)"

fun apply_op :: "bool \<Rightarrow> role_op \<Rightarrow> role_world \<Rightarrow> role_world option" where
  "apply_op act (AddParents c ps) w =
     (if known w (c # ps)
      then on_parents_changed act False c (Some ps) PostAdd (link (map (\<lambda>p. (c, p)) ps) w) else None)"
| "apply_op act (RemoveParents c ps) w =
     on_parents_changed act False c (Some ps) PostRemove (unlink (map (\<lambda>p. (c, p)) ps) w)"
| "apply_op act (ClearParents c) w =
     on_parents_changed act False c None PostClear (unlink (filter (\<lambda>(d, p). d = c) (rw_parents w)) w)"
| "apply_op act (AddChildren p cs) w =
     (if known w (p # cs)
      then on_parents_changed act True p (Some (filter (\<lambda>c. (c, p) \<notin> set (rw_parents w)) (remdups cs))) PostAdd
             (link (map (\<lambda>c. (c, p)) cs) w)
      else None)"
| "apply_op act (RemoveChildren p cs) w =
     on_parents_changed act True p (Some cs) PostRemove (unlink (map (\<lambda>c. (c, p)) cs) w)"
| "apply_op act (SaveRole i) w = save_role act i w"
| "apply_op act (DeleteRoles ids) w = post_delete act ids w"

text \<open>
  The context manager around a group of changes; a nested one leaves the work to the outer one.
  An exception of the group ends the run, as elsewhere.
\<close>

definition batch_role_ancestor_rebuilding ::
  "bool \<Rightarrow> (role_world \<Rightarrow> role_world option) \<Rightarrow> role_world \<Rightarrow> role_world option" where
  "batch_role_ancestor_rebuilding act body w =
     (let outer = rw_batching w;
          w1 = w\<lparr>rw_batching := True\<rparr>;
          w2 = (if outer then w1 else w1\<lparr>rw_additions := [], rw_removals := []\<rparr>)
      in case body w2 of
           None \<Rightarrow> None
         | Some w3 \<Rightarrow>
             (let w4 = w3\<lparr>rw_batching := outer\<rparr>
              in if outer then Some w4
                 else map_option (\<lambda>v. v\<lparr>rw_additions := [], rw_removals := []\<rparr>)
                   (rebuild_role_ancestor_list act (remdups (rw_additions w4)) (remdups (rw_removals w4)) w4)))"

section \<open>Access\<close>

record account =
  acc_superuser :: bool
  acc_auditor :: bool
  acc_roles :: "pk list"

text \<open>The permissions that stand for a role in the new role system (\<open>main/constants.py\<close>).\<close>

definition role_name_to_perm_mapping :: "(string \<times> string list) list" where
  "role_name_to_perm_mapping =
     [(''adhoc_role'', [''adhoc_'']), (''approval_role'', [''approve_'']), (''auditor_role'', [''audit_'']),
      (''admin_role'', [''change_'', ''add_'', ''delete_'']), (''execute_role'', [''execute_'']),
      (''read_role'', [''view_'']), (''update_role'', [''update_'']), (''member_role'', [''member_'']),
      (''use_role'', [''use_''])]"

definition org_role_to_permission :: "(string \<times> string) list" where
  "org_role_to_permission =
     [(''notification_admin_role'', ''add_notificationtemplate''), (''project_admin_role'', ''add_project''),
      (''execute_role'', ''execute_jobtemplate''), (''inventory_admin_role'', ''add_inventory''),
      (''credential_admin_role'', ''add_credential''), (''workflow_admin_role'', ''add_workflowjobtemplate''),
      (''job_template_admin_role'', ''change_jobtemplate''),
      (''execution_environment_admin_role'', ''add_executionenvironment''), (''auditor_role'', ''view_project'')]"

definition to_permissions :: "(string \<times> string) list" where
  "to_permissions = map (\<lambda>(k, v). (k, rev (dropWhile (\<lambda>c. c = CHR ''_'') (rev (dropWhile (\<lambda>c. c = CHR ''_'') (hd v))))))
     role_name_to_perm_mapping"

text \<open>The permission for a role of an object of a model; \<open>None\<close> raises.\<close>

definition role_codename :: "string option \<Rightarrow> string \<Rightarrow> string option" where
  "role_codename model_name role_field =
     (if model_name = Some ''organization'' \<and> map_of org_role_to_permission role_field \<noteq> None
      then map_of org_role_to_permission role_field
      else map_of to_permissions role_field)"

text \<open>
  \<open>user in role\<close>. The new role system asks the package for the permission on the role's object, the old one the table;
  \<open>None\<close> is an exception.
\<close>

definition role_contains ::
  "bool \<Rightarrow> string option \<Rightarrow> (string \<Rightarrow> bool) \<Rightarrow> role_world \<Rightarrow> account \<Rightarrow> string \<Rightarrow> pk \<Rightarrow> bool option" where
  "role_contains activated model_name has_obj_perm w u role_field i =
     (if acc_superuser u then Some True
      else if role_field = ''system_administrator'' then Some (acc_superuser u)
      else if role_field = ''system_auditor'' then Some (acc_auditor u)
      else if (role_field = ''read_role'' \<or> role_field = ''auditor_role'') \<and> acc_auditor u then Some True
      else if activated then map_option has_obj_perm (role_codename model_name role_field)
      else Some (list_ex (\<lambda>(d, a). d = i \<and> a \<in> set (acc_roles u)) (rw_ancestors w)))"

definition is_ancestor_of :: "role_world \<Rightarrow> pk \<Rightarrow> pk \<Rightarrow> bool" where
  "is_ancestor_of w self role = list_ex (\<lambda>(d, a). d = role \<and> a = self) (rw_ancestors w)"

text \<open>In the new role system a role is visible if the user has an evaluated role on its object.\<close>

definition filter_visible_roles :: "bool \<Rightarrow> (pk \<Rightarrow> bool) \<Rightarrow> role_world \<Rightarrow> account \<Rightarrow> pk list \<Rightarrow> pk list" where
  "filter_visible_roles activated evaluated w u qs =
     (if acc_superuser u \<or> acc_auditor u then qs
      else if activated then filter evaluated qs
      else
        (let below = map fst (filter (\<lambda>(d, a). a \<in> set (acc_roles u)) (rw_ancestors w));
             above = map snd (filter (\<lambda>(d, a). d \<in> set below) (rw_ancestors w))
         in filter (\<lambda>i. i \<in> set above) qs))"

end
