(* ===== verification/Role_Closure.thy ===== *)
theory Role_Closure
  imports Role_Ancestors
begin

text \<open>
  Correctness of the table of role ancestors. The table is described by two local conditions on a
  role: no row without a reason (\<open>justified\<close>: an ancestor other than the role is an ancestor of a
  parent) and no row missing (\<open>saturated\<close>: the role and every ancestor of a parent is an ancestor). A
  deletion can break the first, and an insertion the second, only for children of the roles that it
  handled; these are the roles of the next pass. Where the hierarchy has no loop the two conditions
  determine the table.
\<close>

section \<open>Local conditions\<close>

definition justified :: "(pk \<times> pk) set \<Rightarrow> (pk \<times> pk) set \<Rightarrow> pk \<Rightarrow> bool" where
  "justified par anc v \<longleftrightarrow> (\<forall>a. (v, a) \<in> anc \<longrightarrow> a = v \<or> (\<exists>p. (v, p) \<in> par \<and> (p, a) \<in> anc))"

definition saturated :: "(pk \<times> pk) set \<Rightarrow> (pk \<times> pk) set \<Rightarrow> pk \<Rightarrow> bool" where
  "saturated par anc v \<longleftrightarrow> (v, v) \<in> anc \<and> (\<forall>p a. (v, p) \<in> par \<longrightarrow> (p, a) \<in> anc \<longrightarrow> (v, a) \<in> anc)"

lemma upper_rtrancl:
  assumes "\<And>v. justified par anc v" and "wf (par\<inverse>)" and "(v, a) \<in> anc"
  shows "(v, a) \<in> par\<^sup>*"
  using assms(2,3)
proof (induction v rule: wf_induct_rule)
  case (less v)
  from assms(1) [of v] less.prems have "a = v \<or> (\<exists>p. (v, p) \<in> par \<and> (p, a) \<in> anc)"
    by (simp add: justified_def)
  with less.IH show ?case by (auto intro: converse_rtrancl_into_rtrancl)
qed

lemma lower_rtrancl:
  assumes "\<And>v. v \<in> R \<Longrightarrow> saturated par anc v" and "par \<subseteq> R \<times> R" and "(v, a) \<in> par\<^sup>*" and "v \<in> R"
  shows "(v, a) \<in> anc"
  using assms(3,4)
proof (induction rule: converse_rtrancl_induct)
  case base
  with assms(1) [of a] show ?case by (simp add: saturated_def)
next
  case (step v p)
  then have "p \<in> R" using assms(2) by blast
  with step assms(1) [of v] show ?case by (auto simp: saturated_def)
qed

section \<open>The statements\<close>

lemma concat_chunks: "concat (chunks ids) = ids"
  by (induction ids rule: chunks.induct) (subst chunks.simps, simp)

lemma chunks_short: "length ids \<le> 40000 \<Longrightarrow> chunks ids = (if ids = [] then [] else [ids])"
  by (simp add: chunks.simps [of ids] chunks.simps [of "[]"])

lemma set_delete_stale:
  "(d, a) \<in> set (delete_stale par ids anc) \<longleftrightarrow>
     (d, a) \<in> set anc \<and> (d \<in> set ids \<longrightarrow> d = a \<or> (\<exists>p. (d, p) \<in> set par \<and> (p, a) \<in> set anc))"
  by (auto simp: delete_stale_def list_ex_iff)

lemma set_new_ancestry:
  "(c, a) \<in> set (new_ancestry roles par ids anc) \<longleftrightarrow>
     c \<in> set ids \<and> c \<in> set roles \<and> (c = a \<or> (\<exists>p. (c, p) \<in> set par \<and> (p, a) \<in> set anc))"
proof -
  let ?g = "\<lambda>(c, p). if c \<in> set roles \<and> c \<in> set ids
              then map (\<lambda>(d, a). (c, a)) (filter (\<lambda>(d, a). d = p) anc) else []"
  have "(c, a) \<in> set (concat (map ?g par)) \<longleftrightarrow>
      c \<in> set ids \<and> c \<in> set roles \<and> (\<exists>p. (c, p) \<in> set par \<and> (p, a) \<in> set anc)"
    by (induction par) (auto simp: image_iff)
  moreover have "(c, a) \<in> set (map (\<lambda>i. (i, i)) (filter (\<lambda>i. i \<in> set ids) roles)) \<longleftrightarrow>
      c \<in> set ids \<and> c \<in> set roles \<and> c = a"
    by auto
  ultimately show ?thesis unfolding new_ancestry_def set_append Un_iff by blast
qed

lemma set_insert_missing:
  "(c, a) \<in> set (insert_missing roles par ids anc) \<longleftrightarrow>
     (c, a) \<in> set anc \<or> c \<in> set ids \<and> c \<in> set roles \<and> (c = a \<or> (\<exists>p. (c, p) \<in> set par \<and> (p, a) \<in> set anc))"
  by (auto simp: insert_missing_def set_new_ancestry)

lemma set_children_of: "c \<in> set (children_of par ids) \<longleftrightarrow> (\<exists>p \<in> set ids. (c, p) \<in> set par)"
  by (force simp: children_of_def)

abbreviation orphaned :: "(pk \<times> pk) list \<Rightarrow> pk list list \<Rightarrow> pk \<Rightarrow> bool" where
  "orphaned par css v \<equiv> \<forall>p. (v, p) \<in> set par \<longrightarrow> p \<notin> set (concat css)"

lemma lower_delete: "saturated (set par) (set anc) v \<Longrightarrow> saturated (set par) (set (delete_stale par ids anc)) v"
  unfolding saturated_def set_delete_stale by blast

lemma upper_delete:
  assumes "v \<in> set ids \<or> justified (set par) (set anc) v" and "\<forall>p. (v, p) \<in> set par \<longrightarrow> p \<notin> set ids"
  shows "justified (set par) (set (delete_stale par ids anc)) v"
  using assms unfolding justified_def set_delete_stale by blast

lemma upper_insert: "justified (set par) (set anc) v \<Longrightarrow> justified (set par) (set (insert_missing roles par ids anc)) v"
  unfolding justified_def set_insert_missing by blast

lemma lower_insert:
  assumes "v \<in> set ids \<and> v \<in> set roles \<or> saturated (set par) (set anc) v"
    and "\<forall>p. (v, p) \<in> set par \<longrightarrow> p \<notin> set ids"
  shows "saturated (set par) (set (insert_missing roles par ids anc)) v"
  using assms unfolding saturated_def set_insert_missing by blast

lemma lower_deletes: "saturated (set par) (set anc) v \<Longrightarrow> saturated (set par) (set (fold (delete_stale par) css anc)) v"
  by (induction css arbitrary: anc) (simp_all add: lower_delete)

lemma upper_inserts:
  "justified (set par) (set anc) v \<Longrightarrow> justified (set par) (set (fold (insert_missing roles par) css anc)) v"
  by (induction css arbitrary: anc) (simp_all add: upper_insert)

lemma upper_deletes:
  "v \<in> set (concat css) \<or> justified (set par) (set anc) v \<Longrightarrow> orphaned par css v \<Longrightarrow>
     justified (set par) (set (fold (delete_stale par) css anc)) v"
proof (induction css arbitrary: anc)
  case (Cons ids css)
  then have "v \<in> set (concat css) \<or> justified (set par) (set (delete_stale par ids anc)) v"
    using upper_delete [of v ids par anc] by auto
  with Cons show ?case by simp
qed simp

lemma lower_inserts:
  "v \<in> set roles \<and> v \<in> set (concat css) \<or> saturated (set par) (set anc) v \<Longrightarrow> orphaned par css v \<Longrightarrow>
     saturated (set par) (set (fold (insert_missing roles par) css anc)) v"
proof (induction css arbitrary: anc)
  case (Cons ids css)
  then have "v \<in> set roles \<and> v \<in> set (concat css) \<or> saturated (set par) (set (insert_missing roles par ids anc)) v"
    using lower_insert [of v ids roles par anc] by auto
  with Cons show ?case by simp
qed simp

section \<open>The loop\<close>

text \<open>What the two lists stand for: every role outside them satisfies its condition.\<close>

definition consistent :: "pk set \<Rightarrow> (pk \<times> pk) set \<Rightarrow> (pk \<times> pk) set \<Rightarrow> pk set \<Rightarrow> pk set \<Rightarrow> bool" where
  "consistent roles par anc A R \<longleftrightarrow>
     (\<forall>v. v \<notin> R \<longrightarrow> justified par anc v) \<and> (\<forall>v \<in> roles. v \<notin> A \<longrightarrow> saturated par anc v)"

lemma consistent_pass:
  assumes "consistent (set roles) (set par) (set anc) (set A) (set R)"
    and d: "anc1 = fold (delete_stale par) (chunks R) anc"
    and i: "anc2 = fold (insert_missing roles par) (chunks A) anc1"
  shows "consistent (set roles) (set par) (set anc2) (set (children_of par A)) (set (children_of par R))"
proof -
  have u: "justified (set par) (set anc2) v" if "v \<notin> set (children_of par R)" for v
    unfolding i d using that assms(1)
    by (intro upper_inserts upper_deletes) (auto simp: concat_chunks consistent_def set_children_of)
  have l: "saturated (set par) (set anc2) v" if "v \<in> set roles" "v \<notin> set (children_of par A)" for v
    unfolding i d using that assms(1)
    by (intro lower_inserts) (auto simp: concat_chunks consistent_def set_children_of intro: lower_deletes)
  show ?thesis unfolding consistent_def using u l by blast
qed

text \<open>A pass that changes no row finds every condition in place.\<close>

lemma length_delete_stale: "length (delete_stale par ids anc) \<le> length anc"
  by (simp add: delete_stale_def)

lemma length_deletes: "length (fold (delete_stale par) css anc) \<le> length anc"
  by (induction css arbitrary: anc) (auto intro: order_trans length_delete_stale)

lemma length_insert_missing: "length anc \<le> length (insert_missing roles par ids anc)"
  by (simp add: insert_missing_def)

lemma length_inserts: "length anc \<le> length (fold (insert_missing roles par) css anc)"
  by (induction css arbitrary: anc) (auto intro: order_trans length_insert_missing)

lemma delete_nothing:
  assumes "length (delete_stale par ids anc) = length anc"
  shows "delete_stale par ids anc = anc \<and> (\<forall>v \<in> set ids. justified (set par) (set anc) v)"
proof
  show eq: "delete_stale par ids anc = anc"
    using assms unfolding delete_stale_def by (rule filter_same_length)
  show "\<forall>v \<in> set ids. justified (set par) (set anc) v"
    unfolding justified_def by (metis eq set_delete_stale)
qed

lemma insert_nothing:
  assumes "length (insert_missing roles par ids anc) = length anc"
  shows "insert_missing roles par ids anc = anc \<and>
    (\<forall>v \<in> set roles. v \<in> set ids \<longrightarrow> saturated (set par) (set anc) v)"
proof
  show eq: "insert_missing roles par ids anc = anc" using assms by (simp add: insert_missing_def)
  show "\<forall>v \<in> set roles. v \<in> set ids \<longrightarrow> saturated (set par) (set anc) v"
    unfolding saturated_def by (metis eq set_insert_missing)
qed

lemma deletes_nothing:
  "length (fold (delete_stale par) css anc) = length anc \<Longrightarrow>
     fold (delete_stale par) css anc = anc \<and> (\<forall>v \<in> set (concat css). justified (set par) (set anc) v)"
proof (induction css arbitrary: anc)
  case (Cons ids css)
  then have "length (delete_stale par ids anc) = length anc"
    using length_delete_stale [of par ids anc] length_deletes [of par css "delete_stale par ids anc"] by simp
  then have "delete_stale par ids anc = anc" "\<forall>v \<in> set ids. justified (set par) (set anc) v"
    using delete_nothing by blast+
  with Cons.IH [of anc] Cons.prems show ?case by auto
qed simp

lemma inserts_nothing:
  "length (fold (insert_missing roles par) css anc) = length anc \<Longrightarrow>
     fold (insert_missing roles par) css anc = anc \<and>
     (\<forall>v \<in> set roles. v \<in> set (concat css) \<longrightarrow> saturated (set par) (set anc) v)"
proof (induction css arbitrary: anc)
  case (Cons ids css)
  then have "length (insert_missing roles par ids anc) = length anc"
    using length_insert_missing [of anc roles par ids]
      length_inserts [of "insert_missing roles par ids anc" roles par css] by simp
  then have "insert_missing roles par ids anc = anc"
    "\<forall>v \<in> set roles. v \<in> set ids \<longrightarrow> saturated (set par) (set anc) v"
    using insert_nothing by blast+
  with Cons.IH [of anc] Cons.prems show ?case by auto
qed simp

lemma consistent_rebuild_loop:
  "consistent (set roles) (set par) (set anc) (set A) (set R) \<Longrightarrow>
     rebuild_loop left roles par A R anc = Some anc' \<Longrightarrow>
     consistent (set roles) (set par) (set anc') {} {}"
proof (induction left roles par A R anc rule: rebuild_loop.induct)
  case (1 left roles par A R anc)
  let ?anc1 = "fold (delete_stale par) (chunks R) anc"
  let ?anc2 = "fold (insert_missing roles par) (chunks A) ?anc1"
  consider "A = [] \<and> R = []" | k where "\<not> (A = [] \<and> R = [])" "left = Suc k" 
    using "1.prems"(2) by (cases left) (auto simp: rebuild_loop.simps [of 0] split: if_splits)
  then show ?case
  proof cases
    case 1
    with "1.prems" show ?thesis by (simp add: rebuild_loop.simps [of left])
  next
    case (2 k)
    let ?stop = "length ?anc2 - length ?anc1 = 0 \<and> length anc - length ?anc1 = 0"
    show ?thesis
    proof (cases ?stop)
      case True
      then have l: "length ?anc1 = length anc" "length ?anc2 = length ?anc1"
        using length_deletes [of par "chunks R" anc] length_inserts [of ?anc1 roles par "chunks A"] by linarith+
      from deletes_nothing [OF l(1)] inserts_nothing [OF l(2)]
      have eq: "?anc1 = anc" "?anc2 = anc" and "\<forall>v \<in> set R. justified (set par) (set anc) v"
        "\<forall>v \<in> set roles. v \<in> set A \<longrightarrow> saturated (set par) (set anc) v"
        by (simp_all add: concat_chunks)
      moreover have "anc' = anc" using "1.prems"(2) 2 True eq by (simp add: rebuild_loop.simps [of "Suc k"])
      ultimately show ?thesis using "1.prems"(1) unfolding consistent_def by blast
    next
      case False
      then have "rebuild_loop k roles par (children_of par A) (children_of par R) ?anc2 = Some anc'"
        using "1.prems"(2) 2 by (simp add: rebuild_loop.simps [of "Suc k"] Let_def split: if_splits)
      then show ?thesis
        using "1.IH" [OF 2(1) 2(2) refl refl False] consistent_pass [OF "1.prems"(1) refl refl] by blast
    qed
  qed
qed

text \<open>
  A pass works on roles one level further down than the pass before it, so a hierarchy of bounded
  depth is done within the passes that are allowed.
\<close>

lemma rebuild_loop_returns:
  assumes "\<And>c p. (c, p) \<in> set par \<Longrightarrow> h p < h c" and "\<And>v. v \<in> set A \<union> set R \<Longrightarrow> h v < (H::nat)"
    and "\<And>c p. (c, p) \<in> set par \<Longrightarrow> h c < H" and "\<And>v. v \<in> set A \<union> set R \<Longrightarrow> H \<le> h v + left"
  shows "\<exists>anc'. rebuild_loop left roles par A R anc = Some anc'"
  using assms(2,4)
proof (induction left arbitrary: A R anc)
  case 0
  then have "A = [] \<and> R = []" by (cases A; cases R) force+
  then show ?case by (simp add: rebuild_loop.simps [of 0])
next
  case (Suc k)
  have "h v < H \<and> H \<le> h v + k" if v: "v \<in> set (children_of par A) \<union> set (children_of par R)" for v
  proof -
    from v obtain p where p: "(v, p) \<in> set par" "p \<in> set A \<union> set R" by (auto simp: set_children_of)
    with assms(1,3) [of v p] Suc.prems(2) [of p] show ?thesis by simp
  qed
  with Suc.IH [of "children_of par A" "children_of par R"] show ?case
    by (subst rebuild_loop.simps) (simp add: Let_def)
qed

section \<open>Scripts of changes\<close>

datatype role_script = Change role_op | Batch "role_script list"

fun run_script :: "bool \<Rightarrow> role_script list \<Rightarrow> role_world \<Rightarrow> role_world option" where
  "run_script act [] w = Some w"
| "run_script act (Change x # xs) w =
     (case apply_op act x w of None \<Rightarrow> None | Some w' \<Rightarrow> run_script act xs w')"
| "run_script act (Batch ys # xs) w =
     (case batch_role_ancestor_rebuilding act (run_script act ys) w of
        None \<Rightarrow> None
      | Some w' \<Rightarrow> run_script act xs w')"

definition no_roles :: role_world where
  "no_roles = \<lparr>rw_roles = [], rw_parents = [], rw_ancestors = [], rw_batching = False,
     rw_additions = [], rw_removals = []\<rparr>"

section \<open>The invariant\<close>

definition tables_ok :: "role_world \<Rightarrow> bool" where
  "tables_ok w \<longleftrightarrow> set (rw_parents w) \<subseteq> set (rw_roles w) \<times> set (rw_roles w) \<and>
     set (rw_ancestors w) \<subseteq> set (rw_roles w) \<times> set (rw_roles w)"

definition pending_additions :: "role_world \<Rightarrow> pk set" where
  "pending_additions w = (if rw_batching w then set (rw_additions w) else {})"

definition pending_removals :: "role_world \<Rightarrow> pk set" where
  "pending_removals w = (if rw_batching w then set (rw_removals w) else {})"

definition synced :: "role_world \<Rightarrow> pk set \<Rightarrow> pk set \<Rightarrow> bool" where
  "synced w A R \<longleftrightarrow> tables_ok w \<and>
     consistent (set (rw_roles w)) (set (rw_parents w)) (set (rw_ancestors w))
       (A \<union> pending_additions w) (R \<union> pending_removals w)"

lemma consistent_mono:
  "consistent roles par anc A R \<Longrightarrow> A \<subseteq> A' \<Longrightarrow> R \<subseteq> R' \<Longrightarrow> consistent roles par anc A' R'"
  unfolding consistent_def by blast

lemma synced_mono: "synced w A R \<Longrightarrow> A \<subseteq> A' \<Longrightarrow> R \<subseteq> R' \<Longrightarrow> synced w A' R'"
  unfolding synced_def by (blast intro: consistent_mono)

lemma rows_known_delete: "set anc \<subseteq> S \<times> S \<Longrightarrow> set (fold (delete_stale par) css anc) \<subseteq> S \<times> S"
proof (induction css arbitrary: anc)
  case (Cons ids css)
  have "set (delete_stale par ids anc) \<subseteq> S \<times> S"
    using Cons.prems unfolding delete_stale_def by auto
  with Cons.IH show ?case by simp
qed simp

lemma rows_known_insert:
  "set anc \<subseteq> set roles \<times> set roles \<Longrightarrow>
     set (fold (insert_missing roles par) css anc) \<subseteq> set roles \<times> set roles"
proof (induction css arbitrary: anc)
  case (Cons ids css)
  have "set (insert_missing roles par ids anc) \<subseteq> set roles \<times> set roles"
    using Cons.prems by (auto simp: set_insert_missing)
  with Cons.IH show ?case by simp
qed simp

lemma rows_known_loop:
  "rebuild_loop left roles par A R anc = Some anc' \<Longrightarrow> set anc \<subseteq> set roles \<times> set roles \<Longrightarrow>
     set anc' \<subseteq> set roles \<times> set roles"
proof (induction left arbitrary: A R anc)
  case 0
  then show ?case by (simp add: rebuild_loop.simps [of 0] split: if_splits)
next
  case (Suc k)
  let ?anc2 = "fold (insert_missing roles par) (chunks A) (fold (delete_stale par) (chunks R) anc)"
  have "set ?anc2 \<subseteq> set roles \<times> set roles"
    using Suc.prems(2) by (intro rows_known_insert rows_known_delete)
  moreover have "anc' = anc \<or> anc' = ?anc2 \<or>
      rebuild_loop k roles par (children_of par A) (children_of par R) ?anc2 = Some anc'"
    using Suc.prems(1) by (auto simp: rebuild_loop.simps [of "Suc k"] Let_def split: if_splits)
  ultimately show ?case using Suc.IH Suc.prems(2) by blast
qed

lemma rebuild_cases:
  assumes "rebuild_role_ancestor_list False A R w = Some w'"
  obtains "A = []" "R = []" "w' = w"
  | "rw_batching w" "w' = w\<lparr>rw_additions := rw_additions w @ A, rw_removals := rw_removals w @ R\<rparr>"
  | anc where "\<not> rw_batching w" "w' = w\<lparr>rw_ancestors := anc\<rparr>"
      "rebuild_loop max_passes (rw_roles w) (rw_parents w) A R (rw_ancestors w) = Some anc"
proof -
  consider "A = [] \<and> R = []" | "\<not> (A = [] \<and> R = [])" "rw_batching w"
    | "\<not> (A = [] \<and> R = [])" "\<not> rw_batching w" by blast
  then show thesis
  proof cases
    case 1
    with assms that(1) show ?thesis by (simp add: rebuild_role_ancestor_list_def)
  next
    case 2
    with assms that(2) show ?thesis unfolding rebuild_role_ancestor_list_def by simp
  next
    case 3
    let ?l = "rebuild_loop max_passes (rw_roles w) (rw_parents w) A R (rw_ancestors w)"
    from 3 assms obtain anc where anc: "?l = Some anc"
      unfolding rebuild_role_ancestor_list_def by (cases ?l) (simp_all split: if_splits)
    with 3 assms have "w' = w\<lparr>rw_ancestors := anc\<rparr>" by (simp add: rebuild_role_ancestor_list_def split: if_splits)
    from that(3) [OF 3(2) this anc] show ?thesis .
  qed
qed

lemma synced_rebuild:
  assumes "synced w (set A) (set R)" and "rebuild_role_ancestor_list False A R w = Some w'"
  shows "synced w' {} {}"
  using assms(2)
proof (cases rule: rebuild_cases)
  case 1
  with assms(1) show ?thesis by simp
next
  case 2
  with assms(1) show ?thesis
    by (simp add: synced_def tables_ok_def pending_additions_def pending_removals_def Un_commute)
next
  case (3 anc)
  with assms(1) consistent_rebuild_loop [of "rw_roles w" "rw_parents w" "rw_ancestors w" A R max_passes anc]
    rows_known_loop [OF 3(3)]
  show ?thesis by (simp add: synced_def tables_ok_def pending_additions_def pending_removals_def)
qed

lemma rebuild_frame:
  assumes "rebuild_role_ancestor_list False A R w = Some w'"
  shows "rw_batching w' = rw_batching w \<and> rw_roles w' = rw_roles w \<and> rw_parents w' = rw_parents w"
  using assms by (cases rule: rebuild_cases) simp_all

lemma on_parents_changed_cases:
  assumes "on_parents_changed False reverse i pks action w = Some w'"
  obtains ids where "action = PostAdd" "if reverse then pks = Some ids else ids = [i]"
      "rebuild_role_ancestor_list False ids [] w = Some w'"
  | ids where "action \<noteq> PostAdd" "if reverse then pks = Some ids else ids = [i]"
      "rebuild_role_ancestor_list False [] ids w = Some w'"
  using assms by (auto simp: on_parents_changed_def split: m2m_action.splits if_splits option.splits)

section \<open>Every change keeps the invariant\<close>

lemma synced_link:
  assumes "synced w {} {}" and "known w (map fst es)" and "known w (map snd es)"
    and "\<And>c p. (c, p) \<in> set es \<Longrightarrow> (c, p) \<notin> set (rw_parents w) \<Longrightarrow> c \<in> A"
  shows "synced (link es w) A {}"
proof -
  let ?par = "set (rw_parents w)"
  have par: "set (rw_parents (link es w)) = ?par \<union> set es" by (auto simp: link_def)
  have u: "justified (?par \<union> set es) anc v" if "justified ?par anc v" for anc v
    using that unfolding justified_def by blast
  have l: "saturated (?par \<union> set es) anc v" if "saturated ?par anc v" "v \<notin> A" for anc v
    using that assms(4) unfolding saturated_def by blast
  have "tables_ok (link es w)"
    using assms(1-3) by (auto simp: synced_def tables_ok_def par known_def list_all_iff)
      (auto simp: link_def)
  with assms(1) show ?thesis
    unfolding synced_def consistent_def par
    by (auto simp: link_def pending_additions_def pending_removals_def intro: u l)
qed

lemma synced_unlink:
  assumes "synced w {} {}"
  shows "synced (unlink es w) {} (fst ` set es)"
proof -
  let ?par = "set (rw_parents w)"
  have par: "set (rw_parents (unlink es w)) = ?par - set es" by (auto simp: unlink_def)
  have u: "justified (?par - set es) anc v" if "justified ?par anc v" "v \<notin> fst ` set es" for anc v
    using that unfolding justified_def by force
  have l: "saturated (?par - set es) anc v" if "saturated ?par anc v" for anc v
    using that unfolding saturated_def by blast
  have "tables_ok (unlink es w)" using assms by (auto simp: synced_def tables_ok_def unlink_def)
  with assms show ?thesis
    unfolding synced_def consistent_def par
    by (auto simp: unlink_def pending_additions_def pending_removals_def intro: u l)
qed

lemma synced_delete_rows:
  assumes "synced w {} {}"
  shows "synced (delete_rows ids w) {} (set (children_of (rw_parents w) ids))"
proof -
  let ?par = "set (rw_parents w)" and ?anc = "set (rw_ancestors w)"
  let ?par' = "set (rw_parents (delete_rows ids w))" and ?anc' = "set (rw_ancestors (delete_rows ids w))"
  have par: "?par' = {(c, p) \<in> ?par. c \<notin> set ids \<and> p \<notin> set ids}" by (auto simp: delete_rows_def)
  have anc: "?anc' = {(d, a) \<in> ?anc. d \<notin> set ids \<and> a \<notin> set ids}" by (auto simp: delete_rows_def)
  have u: "justified ?par' ?anc' v" if "justified ?par ?anc v" "v \<notin> set (children_of (rw_parents w) ids)" for v
    using that unfolding justified_def par anc set_children_of by blast
  have l: "saturated ?par' ?anc' v" if "saturated ?par ?anc v" "v \<notin> set ids" for v
    using that unfolding saturated_def par anc by blast
  have "tables_ok (delete_rows ids w)"
    using assms by (auto simp: synced_def tables_ok_def delete_rows_def)
  moreover have "rw_batching (delete_rows ids w) = rw_batching w"
    "rw_additions (delete_rows ids w) = rw_additions w" "rw_removals (delete_rows ids w) = rw_removals w"
    "set (rw_roles (delete_rows ids w)) = set (rw_roles w) - set ids"
    by (auto simp: delete_rows_def)
  ultimately show ?thesis
    using assms u l unfolding synced_def consistent_def pending_additions_def pending_removals_def by auto
qed

lemma synced_save:
  assumes "synced w {} {}"
  shows "synced (w\<lparr>rw_roles := (if i \<in> set (rw_roles w) then rw_roles w else rw_roles w @ [i])\<rparr>) {i} {}"
  using assms
  by (auto simp: synced_def tables_ok_def consistent_def pending_additions_def pending_removals_def)

lemma synced_changed:
  assumes "on_parents_changed False reverse i pks action w = Some w'"
    and "action = PostAdd \<Longrightarrow> synced w (if reverse then set (the pks) else {i}) {}"
    and "action \<noteq> PostAdd \<Longrightarrow> synced w {} (if reverse then set (the pks) else {i})"
  shows "synced w' {} {} \<and> rw_batching w' = rw_batching w"
  using assms(1)
proof (cases rule: on_parents_changed_cases)
  case (1 ids)
  with assms(2) have "synced w (set ids) (set [])" by (cases reverse) auto
  from synced_rebuild [OF this 1(3)] rebuild_frame [OF 1(3)] show ?thesis by simp
next
  case (2 ids)
  with assms(3) have "synced w (set []) (set ids)" by (cases reverse) auto
  from synced_rebuild [OF this 2(3)] rebuild_frame [OF 2(3)] show ?thesis by simp
qed

lemma apply_op_keeps:
  assumes "synced w {} {}" and "apply_op False x w = Some w'"
  shows "synced w' {} {} \<and> rw_batching w' = rw_batching w"
proof (cases x)
  case (AddParents c ps)
  let ?w = "link (map (\<lambda>p. (c, p)) ps) w"
  from assms(2) AddParents have k: "known w (c # ps)"
    and c: "on_parents_changed False False c (Some ps) PostAdd ?w = Some w'" by (auto split: if_splits)
  have "synced ?w {c} {}"
    using k by (intro synced_link assms(1)) (auto simp: known_def list_all_iff)
  with synced_changed [OF c] show ?thesis by (simp add: link_def)
next
  case (AddChildren p cs)
  let ?w = "link (map (\<lambda>c. (c, p)) cs) w"
  let ?new = "filter (\<lambda>c. (c, p) \<notin> set (rw_parents w)) (remdups cs)"
  from assms(2) AddChildren have k: "known w (p # cs)"
    and c: "on_parents_changed False True p (Some ?new) PostAdd ?w = Some w'" by (auto split: if_splits)
  have "synced ?w (set ?new) {}"
    using k by (intro synced_link assms(1)) (auto simp: known_def list_all_iff)
  with synced_changed [OF c] show ?thesis by (simp add: link_def)
next
  case (RemoveParents c ps)
  let ?w = "unlink (map (\<lambda>p. (c, p)) ps) w"
  from assms(2) RemoveParents have c: "on_parents_changed False False c (Some ps) PostRemove ?w = Some w'" by simp
  have "synced ?w {} {c}" by (rule synced_mono [OF synced_unlink [OF assms(1)]]) auto
  with synced_changed [OF c] show ?thesis by (simp add: unlink_def)
next
  case (RemoveChildren p cs)
  let ?w = "unlink (map (\<lambda>c. (c, p)) cs) w"
  from assms(2) RemoveChildren have c: "on_parents_changed False True p (Some cs) PostRemove ?w = Some w'" by simp
  have "synced ?w {} (set cs)" by (rule synced_mono [OF synced_unlink [OF assms(1)]]) auto
  with synced_changed [OF c] show ?thesis by (simp add: unlink_def)
next
  case (ClearParents i)
  let ?w = "unlink (filter (\<lambda>(d, p). d = i) (rw_parents w)) w"
  from assms(2) ClearParents have c: "on_parents_changed False False i None PostClear ?w = Some w'" by simp
  have "synced ?w {} {i}" by (rule synced_mono [OF synced_unlink [OF assms(1)]]) auto
  with synced_changed [OF c] show ?thesis by (simp add: unlink_def)
next
  case (SaveRole i)
  let ?w = "w\<lparr>rw_roles := (if i \<in> set (rw_roles w) then rw_roles w else rw_roles w @ [i])\<rparr>"
  from assms(2) SaveRole have r: "rebuild_role_ancestor_list False [i] [] ?w = Some w'"
    by (simp add: save_role_def)
  from synced_rebuild [OF _ r] synced_save [OF assms(1), of i] rebuild_frame [OF r] show ?thesis by simp
next
  case (DeleteRoles ids)
  from assms(2) DeleteRoles
  have r: "rebuild_role_ancestor_list False [] (children_of (rw_parents w) ids) (delete_rows ids w) = Some w'"
    by (simp add: post_delete_def)
  from synced_rebuild [OF _ r] synced_delete_rows [OF assms(1), of ids] rebuild_frame [OF r]
  show ?thesis by (simp add: delete_rows_def)
qed

lemma batch_keeps:
  assumes body: "\<And>v v'. synced v {} {} \<Longrightarrow> body v = Some v' \<Longrightarrow> synced v' {} {} \<and> rw_batching v' = rw_batching v"
    and s: "synced w {} {}" and r: "batch_role_ancestor_rebuilding False body w = Some w'"
  shows "synced w' {} {} \<and> rw_batching w' = rw_batching w"
proof (cases "rw_batching w")
  case True
  then have "w\<lparr>rw_batching := True\<rparr> = w" by simp
  with r True obtain v where v: "body w = Some v" "w' = v\<lparr>rw_batching := True\<rparr>"
    by (auto simp: batch_role_ancestor_rebuilding_def split: option.splits)
  with body [OF s v(1)] True have "w' = v" by simp
  with body [OF s v(1)] True show ?thesis by simp
next
  case False
  let ?w2 = "w\<lparr>rw_batching := True, rw_additions := [], rw_removals := []\<rparr>"
  let ?flush = "\<lambda>v. map_option (\<lambda>v. v\<lparr>rw_additions := [], rw_removals := []\<rparr>)
      (rebuild_role_ancestor_list False (remdups (rw_additions v)) (remdups (rw_removals v)) (v\<lparr>rw_batching := False\<rparr>))"
  from r False have c: "(case body ?w2 of None \<Rightarrow> None | Some v \<Rightarrow> ?flush v) = Some w'"
    by (simp add: batch_role_ancestor_rebuilding_def Let_def cong: option.case_cong)
  then obtain v where v: "body ?w2 = Some v" by (cases "body ?w2") simp_all
  with c obtain u where
    u: "rebuild_role_ancestor_list False (remdups (rw_additions v)) (remdups (rw_removals v)) (v\<lparr>rw_batching := False\<rparr>) = Some u"
    and w': "w' = u\<lparr>rw_additions := [], rw_removals := []\<rparr>" by auto
  have "synced ?w2 {} {}"
    using s False by (simp add: synced_def tables_ok_def pending_additions_def pending_removals_def)
  from body [OF this v] have "synced v {} {}" "rw_batching v" by simp_all
  then have "synced (v\<lparr>rw_batching := False\<rparr>) (set (remdups (rw_additions v))) (set (remdups (rw_removals v)))"
    by (simp add: synced_def tables_ok_def pending_additions_def pending_removals_def)
  from synced_rebuild [OF this u] rebuild_frame [OF u] False show ?thesis
    by (simp add: w' synced_def tables_ok_def pending_additions_def pending_removals_def)
qed

lemma run_script_keeps:
  "synced w {} {} \<Longrightarrow> run_script act xs w = Some w' \<Longrightarrow> \<not> act \<Longrightarrow>
     synced w' {} {} \<and> rw_batching w' = rw_batching w"
proof (induction act xs w arbitrary: w' rule: run_script.induct)
  case (2 act x xs w)
  from "2.prems"(2) obtain v where v: "apply_op act x w = Some v" "run_script act xs v = Some w'"
    by (auto split: option.splits)
  have "synced v {} {} \<and> rw_batching v = rw_batching w"
    using apply_op_keeps [of w x v] "2.prems"(1,3) v(1) by simp
  with "2.IH" [OF v(1) _ v(2) "2.prems"(3)] show ?case by simp
next
  case (3 act ys xs w)
  from "3.prems"(2) obtain v where v: "batch_role_ancestor_rebuilding act (run_script act ys) w = Some v"
    "run_script act xs v = Some w'"
    by (auto split: option.splits)
  have act: "act = False" using "3.prems"(3) by simp
  have "synced v {} {} \<and> rw_batching v = rw_batching w"
    by (rule batch_keeps [OF _ "3.prems"(1) v(1) [unfolded act]]) (use "3.IH"(1) act in blast)
  with "3.IH"(2) [OF v(1) _ v(2)] act show ?case by simp
qed simp

section \<open>The table of ancestors\<close>

lemma synced_no_roles: "synced no_roles {} {}"
  by (simp add: synced_def no_roles_def tables_ok_def consistent_def justified_def)

lemma synced_exact:
  assumes "synced w {} {}" and "\<not> rw_batching w" and "acyclic (set (rw_parents w))"
  shows "(v, a) \<in> set (rw_ancestors w) \<longleftrightarrow> v \<in> set (rw_roles w) \<and> (v, a) \<in> (set (rw_parents w))\<^sup>*"
proof -
  have t: "tables_ok w" and u: "\<And>v. justified (set (rw_parents w)) (set (rw_ancestors w)) v"
    and l: "\<And>v. v \<in> set (rw_roles w) \<Longrightarrow> saturated (set (rw_parents w)) (set (rw_ancestors w)) v"
    using assms(1,2) by (auto simp: synced_def consistent_def pending_additions_def pending_removals_def)
  have wf: "wf ((set (rw_parents w))\<inverse>)" using assms(3) by (simp add: finite_acyclic_wf_converse)
  show ?thesis
    using upper_rtrancl [OF u wf] lower_rtrancl [OF l, of "set (rw_roles w)"] t
    unfolding tables_ok_def by blast
qed

end
