(* ===== verification/Role_Access.thy ===== *)
theory Role_Access
  imports Role_Closure
begin

text \<open>
  What the table of role ancestors is for: a user has a role exactly if the user is a member of it
  or of a role above it. This holds after every script of changes whose hierarchy ends without a
  loop, and after scripts that only add even where they make loops. A removal inside a loop leaves
  access behind. All of this is the old role system; with the new one the table stays empty.
\<close>

section \<open>Scripts that only add\<close>

definition sound :: "role_world \<Rightarrow> bool" where
  "sound w \<longleftrightarrow> set (rw_ancestors w) \<subseteq> (set (rw_parents w))\<^sup>*"

lemma sound_deletes: "set anc \<subseteq> S \<Longrightarrow> set (fold (delete_stale par) css anc) \<subseteq> S"
proof (induction css arbitrary: anc)
  case (Cons ids css)
  have "set (delete_stale par ids anc) \<subseteq> S" using Cons.prems unfolding delete_stale_def by auto
  with Cons.IH show ?case by simp
qed simp

lemma sound_inserts:
  "set anc \<subseteq> (set par)\<^sup>* \<Longrightarrow> set (fold (insert_missing roles par) css anc) \<subseteq> (set par)\<^sup>*"
proof (induction css arbitrary: anc)
  case (Cons ids css)
  have "set (insert_missing roles par ids anc) \<subseteq> (set par)\<^sup>*"
    using Cons.prems by (intro subrelI) (auto simp: set_insert_missing dest: subsetD
      intro: converse_rtrancl_into_rtrancl [of _ _ "set par"])
  with Cons.IH show ?case by simp
qed simp

lemma sound_loop:
  "rebuild_loop left roles par A R anc = Some anc' \<Longrightarrow> set anc \<subseteq> (set par)\<^sup>* \<Longrightarrow>
     set anc' \<subseteq> (set par)\<^sup>*"
proof (induction left arbitrary: A R anc)
  case 0
  then show ?case by (simp add: rebuild_loop.simps [of 0] split: if_splits)
next
  case (Suc k)
  let ?anc2 = "fold (insert_missing roles par) (chunks A) (fold (delete_stale par) (chunks R) anc)"
  have "set ?anc2 \<subseteq> (set par)\<^sup>*" using Suc.prems(2) by (intro sound_inserts sound_deletes)
  moreover have "anc' = anc \<or> anc' = ?anc2 \<or>
      rebuild_loop k roles par (children_of par A) (children_of par R) ?anc2 = Some anc'"
    using Suc.prems(1) by (auto simp: rebuild_loop.simps [of "Suc k"] Let_def split: if_splits)
  ultimately show ?case using Suc.IH Suc.prems(2) by blast
qed

lemma sound_rebuild:
  assumes "sound w" and "rebuild_role_ancestor_list False A R w = Some w'"
  shows "sound w'"
  using assms(2)
proof (cases rule: rebuild_cases)
  case (3 anc)
  with sound_loop [OF 3(3)] assms(1) show ?thesis by (simp add: sound_def)
qed (use assms(1) in \<open>simp_all add: sound_def\<close>)

lemma sound_link: "sound w \<Longrightarrow> sound (link es w)"
  using rtrancl_mono [of "set (rw_parents w)" "set (rw_parents (link es w))"]
  by (auto simp: sound_def link_def)

fun adds :: "role_op \<Rightarrow> bool" where
  "adds (AddParents c ps) = True"
| "adds (AddChildren p cs) = True"
| "adds (SaveRole i) = True"
| "adds x = False"

fun only_adds :: "role_script \<Rightarrow> bool" where
  "only_adds (Change x) = adds x"
| "only_adds (Batch ys) = list_all only_adds ys"

lemma sound_apply_op:
  assumes "sound w" and "adds x" and "apply_op False x w = Some w'"
  shows "sound w'"
  using assms(2)
proof (cases x rule: adds.cases)
  case (1 c ps)
  with assms(3) have "on_parents_changed False False c (Some ps) PostAdd (link (map (\<lambda>p. (c, p)) ps) w) = Some w'"
    by (auto split: if_splits)
  then show ?thesis
    by (cases rule: on_parents_changed_cases) (auto intro: sound_rebuild sound_link assms(1))
next
  case (2 p cs)
  with assms(3) obtain new where
    "on_parents_changed False True p (Some new) PostAdd (link (map (\<lambda>c. (c, p)) cs) w) = Some w'"
    by (auto split: if_splits)
  then show ?thesis
    by (cases rule: on_parents_changed_cases) (auto intro: sound_rebuild sound_link assms(1))
next
  case (3 i)
  let ?w = "w\<lparr>rw_roles := (if i \<in> set (rw_roles w) then rw_roles w else rw_roles w @ [i])\<rparr>"
  from 3 assms(3) have r: "rebuild_role_ancestor_list False [i] [] ?w = Some w'" by (simp add: save_role_def)
  show ?thesis by (rule sound_rebuild [OF _ r]) (use assms(1) in \<open>simp add: sound_def\<close>)
qed simp_all

lemma sound_batch:
  assumes body: "\<And>v v'. sound v \<Longrightarrow> body v = Some v' \<Longrightarrow> sound v'"
    and s: "sound w" and r: "batch_role_ancestor_rebuilding False body w = Some w'"
  shows "sound w'"
proof -
  let ?w2 = "if rw_batching w then w\<lparr>rw_batching := True\<rparr>
    else w\<lparr>rw_batching := True, rw_additions := [], rw_removals := []\<rparr>"
  have s2: "sound ?w2" using s by (simp add: sound_def)
  from r obtain v where v: "body ?w2 = Some v"
    by (cases "body ?w2") (simp_all add: batch_role_ancestor_rebuilding_def Let_def)
  from body [OF s2 v] have sv: "sound (v\<lparr>rw_batching := rw_batching w\<rparr>)" by (simp add: sound_def)
  show ?thesis
  proof (cases "rw_batching w")
    case True
    with r v sv show ?thesis by (simp add: batch_role_ancestor_rebuilding_def Let_def)
  next
    case False
    with r v obtain A R u where "rebuild_role_ancestor_list False A R (v\<lparr>rw_batching := rw_batching w\<rparr>) = Some u"
      and w': "w' = u\<lparr>rw_additions := [], rw_removals := []\<rparr>"
      by (auto simp: batch_role_ancestor_rebuilding_def Let_def)
    from sound_rebuild [OF sv this(1)] show ?thesis by (simp add: w' sound_def)
  qed
qed

lemma sound_run_script:
  "sound w \<Longrightarrow> list_all only_adds xs \<Longrightarrow> run_script act xs w = Some w' \<Longrightarrow> \<not> act \<Longrightarrow> sound w'"
proof (induction act xs w arbitrary: w' rule: run_script.induct)
  case (2 act x xs w)
  from "2.prems"(3) obtain v where v: "apply_op act x w = Some v" "run_script act xs v = Some w'"
    by (auto split: option.splits)
  have "sound v" using sound_apply_op [of w x v] "2.prems" v(1) by simp
  with "2.IH" [OF v(1) _ _ v(2) "2.prems"(4)] "2.prems"(2) show ?case by simp
next
  case (3 act ys xs w)
  from "3.prems"(3) obtain v where v: "batch_role_ancestor_rebuilding act (run_script act ys) w = Some v"
    "run_script act xs v = Some w'"
    by (auto split: option.splits)
  have act: "act = False" and ys: "list_all only_adds ys" "list_all only_adds xs"
    using "3.prems"(2,4) by simp_all
  have "sound v"
    by (rule sound_batch [OF _ "3.prems"(1) v(1) [unfolded act]]) (use "3.IH"(1) act ys in blast)
  with "3.IH"(2) [OF v(1) _ ys(2) v(2)] act show ?case by simp
qed simp

lemma synced_sound_exact:
  assumes "synced w {} {}" and "\<not> rw_batching w" and "sound w"
  shows "(v, a) \<in> set (rw_ancestors w) \<longleftrightarrow> v \<in> set (rw_roles w) \<and> (v, a) \<in> (set (rw_parents w))\<^sup>*"
proof -
  have t: "tables_ok w"
    and l: "\<And>v. v \<in> set (rw_roles w) \<Longrightarrow> saturated (set (rw_parents w)) (set (rw_ancestors w)) v"
    using assms(1,2) by (auto simp: synced_def consistent_def pending_additions_def pending_removals_def)
  show ?thesis
    using assms(3) lower_rtrancl [OF l, of "set (rw_roles w)"] t unfolding tables_ok_def sound_def by blast
qed

lemma run_script_synced:
  "run_script False xs no_roles = Some w \<Longrightarrow> synced w {} {} \<and> \<not> rw_batching w"
  using run_script_keeps [OF synced_no_roles, of False xs w] by (simp add: no_roles_def)

section \<open>Properties\<close>

lemma role_contains_plain:
  assumes "\<not> acc_superuser u" and "\<not> acc_auditor u" and "f \<notin> {''system_administrator'', ''system_auditor''}"
  shows "role_contains act m perm w u f i =
    (if act then map_option perm (role_codename m f)
     else Some (\<exists>a \<in> set (acc_roles u). (i, a) \<in> set (rw_ancestors w)))"
  using assms by (auto simp: role_contains_def list_ex_iff)

text \<open>With the new role system no change of the hierarchy writes to the table.\<close>

lemma activated_rebuild: "rebuild_role_ancestor_list True A R w = Some w"
  by (simp add: rebuild_role_ancestor_list_def)

lemma activated_op: "apply_op True x w = Some w' \<Longrightarrow> rw_ancestors w = [] \<Longrightarrow> rw_ancestors w' = []"
  by (cases x)
    (auto simp: activated_rebuild on_parents_changed_def link_def unlink_def save_role_def
      post_delete_def delete_rows_def split: if_splits option.splits)

lemma activated_batch:
  assumes "batch_role_ancestor_rebuilding True body w = Some w'" "rw_ancestors w = []"
    "\<And>v v'. body v = Some v' \<Longrightarrow> rw_ancestors v = [] \<Longrightarrow> rw_ancestors v' = []"
  shows "rw_ancestors w' = []"
  using assms
  by (auto simp: batch_role_ancestor_rebuilding_def rebuild_role_ancestor_list_def Let_def split: option.splits if_splits)

lemma activated_script:
  "run_script act xs w = Some w' \<Longrightarrow> act \<Longrightarrow> rw_ancestors w = [] \<Longrightarrow> rw_ancestors w' = []"
proof (induction act xs w arbitrary: w' rule: run_script.induct)
  case (2 act x xs w)
  from "2.prems"(1) obtain v where v: "apply_op act x w = Some v" "run_script act xs v = Some w'"
    by (auto split: option.splits)
  have "rw_ancestors v = []" using activated_op [of x w v] v(1) "2.prems"(2,3) by simp
  then show ?case using "2.IH" [OF v(1) v(2) "2.prems"(2)] by simp
next
  case (3 act ys xs w)
  from "3.prems"(1) obtain v where v: "batch_role_ancestor_rebuilding act (run_script act ys) w = Some v"
    "run_script act xs v = Some w'"
    by (auto split: option.splits)
  have "batch_role_ancestor_rebuilding True (run_script act ys) w = Some v" using v(1) "3.prems"(2) by simp
  from activated_batch [OF this "3.prems"(3)] have "rw_ancestors v = []"
    using "3.IH"(1) [OF _ "3.prems"(2)] by simp
  then show ?case using "3.IH"(2) [OF v(1) v(2) "3.prems"(2)] by simp
qed simp

text \<open>
  C3. With the old role system (\<open>ANSIBLE_BASE_ROLE_SYSTEM_ACTIVATED\<close> off), after any script of additions, removals,
  clears, saves and deletions, batched or not and nested or not, that starts with no roles and ends without an exception in
  a hierarchy without loops, the table of ancestors is the reflexive and transitive closure of the parent relation on the
  roles. With the new role system, the default, no such script writes to the table.
\<close>

theorem role_ancestors_exact:
  assumes "run_script act xs no_roles = Some w" and "acyclic (set (rw_parents w))"
  shows "set (rw_ancestors w) =
    (if act then {} else {(v, a). v \<in> set (rw_roles w) \<and> (v, a) \<in> (set (rw_parents w))\<^sup>*})"
proof (cases act)
  case True
  have "rw_ancestors w = []" by (rule activated_script [OF assms(1) True]) (simp add: no_roles_def)
  then show ?thesis using True by simp
next
  case False
  then have "run_script False xs no_roles = Some w" using assms(1) by simp
  then show ?thesis using synced_exact [OF _ _ assms(2)] run_script_synced False by auto
qed

text \<open>
  C6. The membership check of a role by a user without a global flag, after such a script. The old role system
  lets the user pass exactly if the user is a member of the role or of a role above it, however far above. The
  new one, the default, asks the package for the permission that stands for the role on its object, by the
  table of organizations first, and raises for a role without one.
\<close>

theorem role_access_exact:
  assumes "run_script act xs no_roles = Some w" and "acyclic (set (rw_parents w))"
    and "\<not> acc_superuser u" and "\<not> acc_auditor u" and "f \<notin> {''system_administrator'', ''system_auditor''}"
    and "i \<in> set (rw_roles w)"
  shows "role_contains act m perm w u f i =
    (if act then map_option perm (role_codename m f)
     else Some (\<exists>a \<in> set (acc_roles u). (i, a) \<in> (set (rw_parents w))\<^sup>*))"
proof (cases act)
  case False
  then have "run_script False xs no_roles = Some w" using assms(1) by simp
  then have "set (rw_ancestors w) = {(v, a). v \<in> set (rw_roles w) \<and> (v, a) \<in> (set (rw_parents w))\<^sup>*}"
    using synced_exact [OF _ _ assms(2)] run_script_synced by auto
  then show ?thesis using role_contains_plain [OF assms(3-5)] assms(6) False by auto
qed (use role_contains_plain [OF assms(3-5)] in simp)

text \<open>
  A script that only adds roles and parents leaves the exact closure even where the hierarchy
  has loops.
\<close>

theorem grown_ancestors_exact:
  assumes "run_script False xs no_roles = Some w" and "list_all only_adds xs"
  shows "set (rw_ancestors w) = {(v, a). v \<in> set (rw_roles w) \<and> (v, a) \<in> (set (rw_parents w))\<^sup>*}"
proof -
  have "sound w"
    by (rule sound_run_script [OF _ assms(2) assms(1)]) (simp_all add: sound_def no_roles_def)
  with synced_sound_exact [of w] run_script_synced [OF assms(1)] show ?thesis by auto
qed

text \<open>
  C33. A rebuild ends without the infinite-loop exception wherever no chain of parents has more than
  100 links: \<open>h\<close> is any height that grows from parent to child.
\<close>

theorem rebuild_returns:
  assumes "\<And>c p. (c, p) \<in> set (rw_parents w) \<Longrightarrow> h p < h c" and "\<And>v. h v \<le> (100::nat)"
  shows "rebuild_role_ancestor_list False additions removals w \<noteq> None"
proof -
  have h: "h v < 101" for v using assms(2) [of v] by simp
  have "\<exists>anc'. rebuild_loop max_passes (rw_roles w) (rw_parents w) additions removals (rw_ancestors w) = Some anc'"
    by (rule rebuild_loop_returns [of _ h _ _ 101]) (use assms(1) h in \<open>auto simp: max_passes_def\<close>)
  then show ?thesis by (auto simp: rebuild_role_ancestor_list_def)
qed

text \<open>
  Roles 1 and 2 are parents of each other and role 3 is the parent of role 1. Taking role 3
  away from role 1 leaves it an ancestor of both: each of the two still finds it at the other. Its
  members keep their access to role 1 although it has no tie to role 3 any more.
\<close>

theorem loop_keeps_access:
  "\<exists>w. run_script False [Change (SaveRole 1), Change (SaveRole 2), Change (SaveRole 3),
          Change (AddParents 1 [2, 3]), Change (AddParents 2 [1]), Change (RemoveParents 1 [3])] no_roles = Some w \<and>
       rw_parents w = [(1, 2), (2, 1)] \<and>
       role_contains False None perm w \<lparr>acc_superuser = False, acc_auditor = False, acc_roles = [3]\<rparr> ''admin_role'' 1 = Some True"
  by (simp add: no_roles_def save_role_def known_def link_def unlink_def on_parents_changed_def
      rebuild_role_ancestor_list_def max_passes_def rebuild_loop.simps chunks_short
      delete_stale_def insert_missing_def new_ancestry_def children_of_def role_contains_def)

section \<open>Witnesses\<close>

text \<open>An organization role 1 above a project role 2 above a template role 3, linked in a batch.\<close>

definition chain_script :: "role_script list" where
  "chain_script = [Change (SaveRole 1), Change (SaveRole 2), Change (SaveRole 3),
     Batch [Change (AddParents 3 [2]), Change (AddChildren 1 [2])]]"

definition chain_world :: role_world where
  "chain_world = \<lparr>rw_roles = [1, 2, 3], rw_parents = [(3, 2), (2, 1)],
     rw_ancestors = [(1, 1), (2, 2), (3, 3), (3, 2), (2, 1), (3, 1)], rw_batching = False,
     rw_additions = [], rw_removals = []\<rparr>"

lemma role_chain_run: "run_script False chain_script no_roles = Some chain_world"
  by (simp add: chain_script_def chain_world_def no_roles_def save_role_def known_def link_def on_parents_changed_def
      rebuild_role_ancestor_list_def batch_role_ancestor_rebuilding_def max_passes_def
      rebuild_loop.simps chunks_short Let_def
      delete_stale_def insert_missing_def new_ancestry_def children_of_def)

lemma role_chain_acyclic: "acyclic (set (rw_parents chain_world))"
  by (rule acyclicI_order [where f = "\<lambda>i. i"]) (auto simp: chain_world_def)

definition loop_script :: "role_script list" where
  "loop_script = [Change (SaveRole 1), Change (SaveRole 2), Change (AddParents 1 [2]), Change (AddParents 2 [1])]"

definition loop_world :: role_world where
  "loop_world = \<lparr>rw_roles = [1, 2], rw_parents = [(1, 2), (2, 1)],
     rw_ancestors = [(1, 1), (2, 2), (1, 2), (2, 1)], rw_batching = False,
     rw_additions = [], rw_removals = []\<rparr>"

lemma loop_run: "run_script False loop_script no_roles = Some loop_world"
  by (simp add: loop_script_def loop_world_def no_roles_def save_role_def known_def link_def on_parents_changed_def
      rebuild_role_ancestor_list_def max_passes_def rebuild_loop.simps chunks_short Let_def
      delete_stale_def insert_missing_def new_ancestry_def children_of_def)

theorem role_ancestors_exact_witness:
  "set (rw_ancestors chain_world) =
     {(v, a). v \<in> set (rw_roles chain_world) \<and> (v, a) \<in> (set (rw_parents chain_world))\<^sup>*}"
  using role_ancestors_exact [OF role_chain_run role_chain_acyclic] by simp

theorem role_access_exact_witness:
  "role_contains False (Some ''job_template'') (\<lambda>_. False) chain_world
     \<lparr>acc_superuser = False, acc_auditor = False, acc_roles = [1]\<rparr> ''admin_role'' 3 =
     Some (\<exists>a \<in> {1}. (3, a) \<in> (set (rw_parents chain_world))\<^sup>*)"
  using role_access_exact [OF role_chain_run role_chain_acyclic,
      of "\<lparr>acc_superuser = False, acc_auditor = False, acc_roles = [1]\<rparr>" "''admin_role''" 3 "Some ''job_template''" "\<lambda>_. False"]
  by (simp add: chain_world_def)

theorem grown_ancestors_exact_witness:
  "set (rw_ancestors loop_world) =
     {(v, a). v \<in> set (rw_roles loop_world) \<and> (v, a) \<in> (set (rw_parents loop_world))\<^sup>*}"
  by (rule grown_ancestors_exact [OF loop_run]) (simp add: loop_script_def)

theorem rebuild_returns_witness:
  "rebuild_role_ancestor_list False [1, 2] [3] chain_world \<noteq> None"
  by (rule rebuild_returns [where h = "\<lambda>v. min v 3"]) (auto simp: chain_world_def)

end
