(* ===== verification/Encryption.thy ===== *)
theory Encryption
  imports Python_Values
begin

text \<open>
  Encryption of secrets: \<open>forail/main/utils/encryption.py\<close>, with the parts of \<open>base64\<close> and of
  UTF-8 that it uses. Bytes are characters of codes 0 to 255; text has code points up to 255. The
  hash function and the cipher (\<open>Fernet\<close> of the package \<open>cryptography\<close>, given the signing and the
  encryption key) are arguments; \<open>nonce\<close> stands for its random vector and the clock.
\<close>

section \<open>UTF-8\<close>

abbreviation code :: "char \<Rightarrow> nat" where
  "code c \<equiv> of_char c"

definition utf8_char :: "char \<Rightarrow> string" where
  "utf8_char c = (if code c < 128 then [c]
     else [char_of (192 + code c div 64), char_of (128 + code c mod 64)])"

definition smart_bytes :: "string \<Rightarrow> string" where
  "smart_bytes s = concat (map utf8_char s)"

text \<open>Any other lead byte is no UTF-8, or leads a code point above 255.\<close>

fun smart_str :: "string \<Rightarrow> string option" where
  "smart_str [] = Some []"
| "smart_str (b # bs) =
     (if code b < 128 then map_option (Cons b) (smart_str bs)
      else if code b = 194 \<or> code b = 195 then
        (case bs of
           [] \<Rightarrow> None
         | c # cs \<Rightarrow>
             if 128 \<le> code c \<and> code c < 192
             then map_option (Cons (char_of ((code b - 192) * 64 + (code c - 128)))) (smart_str cs)
             else None)
      else None)"

lemmas code_less = nat_of_char_less_256

lemma code_char_of: "n < 256 \<Longrightarrow> code (char_of n) = n"
  by simp

lemma smart_str_bytes: "smart_str (smart_bytes s) = Some s"
proof (induction s)
  case Nil
  show ?case by (simp add: smart_bytes_def)
next
  case (Cons c s)
  have bs: "smart_bytes (c # s) = utf8_char c @ smart_bytes s" by (simp add: smart_bytes_def)
  show ?case
  proof (cases "code c < 128")
    case True
    with Cons bs show ?thesis by (simp add: utf8_char_def)
  next
    case False
    have "code c div 64 = 2 \<or> code c div 64 = 3" using False code_less [of c] by arith
    then have hi: "192 + code c div 64 = 194 \<or> 192 + code c div 64 = 195" by auto
    let ?b = "char_of (192 + code c div 64) :: char" and ?d = "char_of (128 + code c mod 64) :: char"
    have cb: "code ?b = 192 + code c div 64" and cd: "code ?d = 128 + code c mod 64"
      using hi by (auto simp: code_char_of)
    have "(code ?b - 192) * 64 + (code ?d - 128) = code c" unfolding cb cd by simp
    then have "char_of ((code ?b - 192) * 64 + (code ?d - 128)) = c" by (simp only: char_of_char)
    moreover have "128 \<le> code ?d \<and> code ?d < 192" unfolding cd by simp
    moreover have "\<not> code ?b < 128" "code ?b = 194 \<or> code ?b = 195" using hi unfolding cb by auto
    ultimately show ?thesis
      using False Cons by (simp only: bs utf8_char_def if_False append.simps smart_str.simps list.case if_True
          option.map simp_thms)
  qed
qed

section \<open>Base64\<close>

definition b64_digit :: "nat \<Rightarrow> char" where
  "b64_digit n =
     (if n < 26 then char_of (65 + n) else if n < 52 then char_of (97 + (n - 26))
      else if n < 62 then char_of (48 + (n - 52)) else if n = 62 then CHR ''+'' else CHR ''/'')"

definition b64_value :: "char \<Rightarrow> nat option" where
  "b64_value c =
     (let n = code c in
      if 65 \<le> n \<and> n \<le> 90 then Some (n - 65) else if 97 \<le> n \<and> n \<le> 122 then Some (n - 71)
      else if 48 \<le> n \<and> n \<le> 57 then Some (n + 4) else if c = CHR ''+'' then Some 62
      else if c = CHR ''/'' then Some 63 else None)"

fun b64encode :: "string \<Rightarrow> string" where
  "b64encode [] = []"
| "b64encode [a] = [b64_digit (code a div 4), b64_digit (code a mod 4 * 16), CHR ''='', CHR ''='']"
| "b64encode [a, b] =
     [b64_digit (code a div 4), b64_digit (code a mod 4 * 16 + code b div 16),
      b64_digit (code b mod 16 * 4), CHR ''='']"
| "b64encode (a # b # c # r) =
     b64_digit (code a div 4) # b64_digit (code a mod 4 * 16 + code b div 16) #
     b64_digit (code b mod 16 * 4 + code c div 64) # b64_digit (code c mod 64) # b64encode r"

text \<open>
  The decoder skips what is no digit, ends at the padding that completes a group and raises (\<open>None\<close>)
  where the input ends inside a group: the position in the group, the bits left over and the
  number of padding characters in a row are its state.
\<close>

fun a2b_base64 :: "nat \<Rightarrow> nat \<Rightarrow> nat \<Rightarrow> string \<Rightarrow> string option" where
  "a2b_base64 quad_pos left pads [] = (if quad_pos = 0 then Some [] else None)"
| "a2b_base64 quad_pos left pads (c # cs) =
     (if c = CHR ''='' then
        (if 2 \<le> quad_pos \<and> 4 \<le> quad_pos + pads + 1 then Some []
         else a2b_base64 quad_pos left (if 2 \<le> quad_pos then pads + 1 else pads) cs)
      else case b64_value c of
        None \<Rightarrow> a2b_base64 quad_pos left pads cs
      | Some v \<Rightarrow>
          if quad_pos = 0 then a2b_base64 1 v 0 cs
          else if quad_pos = 1 then
            map_option (Cons (char_of (left * 4 + v div 16))) (a2b_base64 2 (v mod 16) 0 cs)
          else if quad_pos = 2 then
            map_option (Cons (char_of (left * 16 + v div 4))) (a2b_base64 3 (v mod 4) 0 cs)
          else map_option (Cons (char_of (left * 64 + v))) (a2b_base64 0 0 0 cs))"

definition b64decode :: "string \<Rightarrow> string option" where
  "b64decode s = a2b_base64 0 0 0 s"

definition to_urlsafe :: "char \<Rightarrow> char" where
  "to_urlsafe c = (if c = CHR ''+'' then CHR ''-'' else if c = CHR ''/'' then CHR ''_'' else c)"

definition from_urlsafe :: "char \<Rightarrow> char" where
  "from_urlsafe c = (if c = CHR ''-'' then CHR ''+'' else if c = CHR ''_'' then CHR ''/'' else c)"

definition urlsafe_b64encode :: "string \<Rightarrow> string" where
  "urlsafe_b64encode bs = map to_urlsafe (b64encode bs)"

definition urlsafe_b64decode :: "string \<Rightarrow> string option" where
  "urlsafe_b64decode s = b64decode (map from_urlsafe s)"

lemma char_tests:
  "c = CHR ''+'' \<longleftrightarrow> code c = 43" "c = CHR ''/'' \<longleftrightarrow> code c = 47" "c = CHR ''='' \<longleftrightarrow> code c = 61"
  "c = CHR ''-'' \<longleftrightarrow> code c = 45" "c = CHR ''_'' \<longleftrightarrow> code c = 95" "c = CHR ''$'' \<longleftrightarrow> code c = 36"
  by (simp_all flip: of_char_eq_iff [where 'a = nat])

lemma b64_digit_code:
  "n < 64 \<Longrightarrow> code (b64_digit n) =
     (if n < 26 then 65 + n else if n < 52 then 71 + n else if n < 62 then n - 4 else if n = 62 then 43 else 47)"
  by (simp add: b64_digit_def)

lemma b64_digit_facts:
  assumes "n < 64"
  shows "b64_value (b64_digit n) = Some n" "b64_digit n \<noteq> CHR ''=''" "b64_digit n \<noteq> CHR ''$''"
    "from_urlsafe (to_urlsafe (b64_digit n)) = b64_digit n" "code (b64_digit n) < 128"
    "code (to_urlsafe (b64_digit n)) < 128"
proof -
  note c = b64_digit_code [OF assms]
  show "b64_value (b64_digit n) = Some n"
    unfolding b64_value_def char_tests Let_def c using assms by auto
  show "b64_digit n \<noteq> CHR ''=''" "b64_digit n \<noteq> CHR ''$''" "code (b64_digit n) < 128"
    unfolding char_tests c using assms by auto
  have "b64_digit n \<noteq> CHR ''-''" "b64_digit n \<noteq> CHR ''_''" "code (b64_digit n) < 128"
    unfolding char_tests c using assms by auto
  then show "from_urlsafe (to_urlsafe (b64_digit n)) = b64_digit n" "code (to_urlsafe (b64_digit n)) < 128"
    by (simp_all add: to_urlsafe_def from_urlsafe_def)
qed

lemma glue:
  fixes x y k :: nat
  assumes "y < k"
  shows "(x * k + y) div k = x" "(x * k + y) mod k = y"
  using assms by simp_all

lemma sextets_nat:
  fixes a b c :: nat
  assumes "a < 256" "b < 256" "c < 256"
  shows "a div 4 < 64" "a mod 4 * 16 < 64" "a mod 4 * 16 + b div 16 < 64"
    "b mod 16 * 4 < 64" "b mod 16 * 4 + c div 64 < 64" "c mod 64 < 64"
proof -
  have "b div 16 < 16" "c div 64 < 4" using assms by (simp_all add: less_mult_imp_div_less)
  moreover have "a mod 4 < 4" "b mod 16 < 16" by simp_all
  ultimately show "a mod 4 * 16 < 64" "a mod 4 * 16 + b div 16 < 64"
    "b mod 16 * 4 < 64" "b mod 16 * 4 + c div 64 < 64" by linarith+
  show "a div 4 < 64" using assms by (simp add: less_mult_imp_div_less)
  show "c mod 64 < 64" by simp
qed

lemma joins_nat:
  fixes a b c :: nat
  assumes "b < 256" "c < 256"
  shows "a div 4 * 4 + (a mod 4 * 16) div 16 = a"
    "a div 4 * 4 + (a mod 4 * 16 + b div 16) div 16 = a"
    "(a mod 4 * 16 + b div 16) mod 16 * 16 + (b mod 16 * 4) div 4 = b"
    "(a mod 4 * 16 + b div 16) mod 16 * 16 + (b mod 16 * 4 + c div 64) div 4 = b"
    "(b mod 16 * 4 + c div 64) mod 4 * 64 + c mod 64 = c"
proof -
  have b: "b div 16 < 16" and c: "c div 64 < 4" using assms by (simp_all add: less_mult_imp_div_less)
  show "a div 4 * 4 + (a mod 4 * 16) div 16 = a" by simp
  show "a div 4 * 4 + (a mod 4 * 16 + b div 16) div 16 = a" unfolding glue [OF b] by simp
  show "(a mod 4 * 16 + b div 16) mod 16 * 16 + (b mod 16 * 4) div 4 = b" unfolding glue [OF b] by simp
  show "(a mod 4 * 16 + b div 16) mod 16 * 16 + (b mod 16 * 4 + c div 64) div 4 = b"
    unfolding glue [OF b] glue [OF c] by simp
  show "(b mod 16 * 4 + c div 64) mod 4 * 64 + c mod 64 = c" unfolding glue [OF c] by simp
qed

lemmas sextets = sextets_nat [OF code_less code_less code_less]

lemmas joins = joins_nat [OF code_less code_less]

lemma a2b_digit:
  "n < 64 \<Longrightarrow> a2b_base64 q l p (b64_digit n # cs) =
     (if q = 0 then a2b_base64 1 n 0 cs
      else if q = 1 then map_option (Cons (char_of (l * 4 + n div 16))) (a2b_base64 2 (n mod 16) 0 cs)
      else if q = 2 then map_option (Cons (char_of (l * 16 + n div 4))) (a2b_base64 3 (n mod 4) 0 cs)
      else map_option (Cons (char_of (l * 64 + n))) (a2b_base64 0 0 0 cs))"
  using b64_digit_facts [of n] by simp

lemma b64decode_encode: "b64decode (b64encode bs) = Some bs"
  unfolding b64decode_def
  by (induction bs rule: b64encode.induct)
    (simp_all only: b64encode.simps a2b_digit sextets joins char_of_char, simp_all)

definition b64_char :: "char \<Rightarrow> bool" where
  "b64_char x \<longleftrightarrow> x = CHR ''='' \<or> (\<exists>n < 64. x = b64_digit n)"

lemma b64_char_intros: "b64_char (CHR ''='')" "n < 64 \<Longrightarrow> b64_char (b64_digit n)"
  unfolding b64_char_def by blast+

lemma b64encode_chars: "list_all b64_char (b64encode bs)"
  by (induction bs rule: b64encode.induct)
    (simp_all only: b64encode.simps list.pred_inject b64_char_intros sextets simp_thms)

lemma urlsafe_roundtrip: "urlsafe_b64decode (urlsafe_b64encode bs) = Some bs"
proof -
  have pad: "from_urlsafe (to_urlsafe (CHR ''='')) = CHR ''=''" by (simp add: to_urlsafe_def from_urlsafe_def)
  have "from_urlsafe (to_urlsafe x) = x" if "x \<in> set (b64encode bs)" for x
  proof -
    have "b64_char x" using that b64encode_chars [of bs] by (simp add: list_all_iff)
    then consider "x = CHR ''=''" | n where "n < 64" "x = b64_digit n" unfolding b64_char_def by blast
    then show ?thesis by cases (simp_all only: pad b64_digit_facts(4))
  qed
  then have "map from_urlsafe (urlsafe_b64encode bs) = b64encode bs"
    unfolding urlsafe_b64encode_def map_map by (intro map_idI) simp
  then show ?thesis by (simp add: urlsafe_b64decode_def b64decode_encode)
qed

lemma b64encode_ascii: "x \<in> set (b64encode bs) \<Longrightarrow> code x < 128 \<and> x \<noteq> CHR ''$''"
proof -
  assume "x \<in> set (b64encode bs)"
  then have "b64_char x" using b64encode_chars [of bs] by (simp add: list_all_iff)
  then consider "x = CHR ''=''" | n where "n < 64" "x = b64_digit n" unfolding b64_char_def by blast
  then show ?thesis by cases (simp_all add: b64_digit_facts(3,5))
qed

section \<open>Keys\<close>

record crypto =
  sha512 :: "string \<Rightarrow> string"
  fernet_encrypt :: "nat \<Rightarrow> string \<Rightarrow> string \<Rightarrow> string \<Rightarrow> string"
  fernet_decrypt :: "string \<Rightarrow> string \<Rightarrow> string \<Rightarrow> string option"
  secret_key_setting :: string
  render :: "json \<Rightarrow> string"

datatype crypt_error =
    AttributeErr string
  | KeyErr string
  | ValueErr string
  | TypeErr
  | InvalidToken

text \<open>\<open>secret_key or settings.SECRET_KEY\<close>.\<close>

definition effective_secret :: "crypto \<Rightarrow> string option \<Rightarrow> string" where
  "effective_secret c secret_key =
     (case secret_key of None \<Rightarrow> secret_key_setting c
      | Some s \<Rightarrow> if s = [] then secret_key_setting c else s)"

definition get_encryption_key :: "crypto \<Rightarrow> string \<Rightarrow> pk option \<Rightarrow> string option \<Rightarrow> string" where
  "get_encryption_key c field_name pk secret_key =
     urlsafe_b64encode (sha512 c
       (smart_bytes (effective_secret c secret_key) @
        (case pk of None \<Rightarrow> [] | Some i \<Rightarrow> smart_bytes (nat_str i)) @ smart_bytes field_name))"

text \<open>The signing key and the encryption key.\<close>

definition fernet256_init :: "string \<Rightarrow> crypt_error + string \<times> string" where
  "fernet256_init key =
     (case urlsafe_b64decode key of
        None \<Rightarrow> Inl (ValueErr ''Incorrect padding'')
      | Some k \<Rightarrow>
          if length k \<noteq> 64 then Inl (ValueErr ''Fernet key must be 64 url-safe base64-encoded bytes.'')
          else Inr (take 32 k, drop 32 k))"

section \<open>Fields\<close>

text \<open>
  A model instance as the functions see it: its key, the dictionary \<open>inputs\<close> if it has one, and its
  other attributes.
\<close>

record holder =
  holder_pk :: "pk option"
  holder_inputs :: "(string \<times> json) list option"
  holder_attrs :: "(string \<times> json) list"

definition field_value :: "holder \<Rightarrow> string \<Rightarrow> string option \<Rightarrow> crypt_error + json" where
  "field_value h field_name subfield =
     (let d0 = (case holder_inputs h of Some d \<Rightarrow> d | None \<Rightarrow> holder_attrs h)
      in case map_of d0 field_name of
           None \<Rightarrow> Inl (AttributeErr field_name)
         | Some v \<Rightarrow>
             (case (v, subfield) of
                (JObj d, Some s) \<Rightarrow> (case map_of d s of None \<Rightarrow> Inl (KeyErr s) | Some u \<Rightarrow> Inr u)
              | _ \<Rightarrow> Inr v))"

definition encrypted_mark :: string where
  "encrypted_mark = ''$encrypted$''"

text \<open>\<open>''$''.join(tokens)\<close>.\<close>

definition sealed :: "string \<Rightarrow> string" where
  "sealed encrypted = join_with ''$'' [''$encrypted'', ''UTF8'', ''AESCBC'', b64encode encrypted]"

definition encrypt_field ::
  "crypto \<Rightarrow> nat \<Rightarrow> holder \<Rightarrow> string \<Rightarrow> bool \<Rightarrow> string option \<Rightarrow> string option \<Rightarrow> crypt_error + json" where
  "encrypt_field c nonce h field_name ask subfield secret_key =
     (case field_value h field_name subfield of
        Inl e \<Rightarrow> Inl e
      | Inr JNull \<Rightarrow> Inr JNull
      | Inr v \<Rightarrow>
          (let value = py_str (render c) v
           in if value = [] \<or> startswith value encrypted_mark \<or> (ask \<and> value = ''ASK'') then Inr (JStr value)
              else case fernet256_init (get_encryption_key c field_name (holder_pk h) secret_key) of
                Inl e \<Rightarrow> Inl e
              | Inr (signing, enc) \<Rightarrow>
                  Inr (JStr (sealed (fernet_encrypt c nonce signing enc (smart_bytes value))))))"

definition encrypt_value :: "crypto \<Rightarrow> nat \<Rightarrow> json \<Rightarrow> pk option \<Rightarrow> string option \<Rightarrow> crypt_error + json" where
  "encrypt_value c nonce v pk secret_key =
     encrypt_field c nonce \<lparr>holder_pk = pk, holder_inputs = None, holder_attrs = [(''value'', v)]\<rparr>
       ''value'' False None secret_key"

definition decrypt_value :: "crypto \<Rightarrow> string \<Rightarrow> string \<Rightarrow> crypt_error + string" where
  "decrypt_value c encryption_key value =
     (let raw = drop (length encrypted_mark) value;
          raw_data = (if startswith raw ''UTF8$'' then drop 5 raw else raw);
          algo = takeWhile (\<lambda>x. x \<noteq> CHR ''$'') raw_data
      in if CHR ''$'' \<notin> set raw_data
         then Inl (ValueErr ''not enough values to unpack (expected 2, got 1)'')
         else if algo \<noteq> ''AESCBC'' then Inl (ValueErr (''unsupported algorithm: '' @ algo))
         else
           (let b64data = drop (length algo + 1) raw_data
            in if list_ex (\<lambda>x. 128 \<le> code x) b64data
               then Inl (ValueErr ''string argument should contain only ASCII characters'')
               else case b64decode b64data of
                 None \<Rightarrow> Inl (ValueErr ''Incorrect padding'')
               | Some encrypted \<Rightarrow>
                   (case fernet256_init encryption_key of
                      Inl e \<Rightarrow> Inl e
                    | Inr (signing, enc) \<Rightarrow>
                        (case fernet_decrypt c signing enc encrypted of
                           None \<Rightarrow> Inl InvalidToken
                         | Some bs \<Rightarrow>
                             (case smart_str bs of
                                None \<Rightarrow> Inl (ValueErr ''invalid UTF-8'')
                              | Some s \<Rightarrow> Inr s)))))"

definition decrypt_field ::
  "crypto \<Rightarrow> holder \<Rightarrow> string \<Rightarrow> string option \<Rightarrow> string option \<Rightarrow> crypt_error + string" where
  "decrypt_field c h field_name subfield secret_key =
     (case field_value h field_name subfield of
        Inl e \<Rightarrow> Inl e
      | Inr v \<Rightarrow>
          (let value = py_str (render c) v
           in if value = [] \<or> \<not> startswith value encrypted_mark then Inr value
              else decrypt_value c (get_encryption_key c field_name (holder_pk h) secret_key) value))"

text \<open>\<open>encrypt_dict\<close> handles the keys that the dictionary and the list share, each on its own.\<close>

fun encrypt_dict :: "crypto \<Rightarrow> (string \<Rightarrow> nat) \<Rightarrow> (string \<times> json) list \<Rightarrow> string list \<Rightarrow>
    crypt_error + (string \<times> json) list" where
  "encrypt_dict c nonce [] names = Inr []"
| "encrypt_dict c nonce ((k, v) # data) names =
     (case (if k \<in> set names then encrypt_value c (nonce k) v None None else Inr v) of
        Inl e \<Rightarrow> Inl e
      | Inr u \<Rightarrow>
          (case encrypt_dict c nonce data names of
             Inl e \<Rightarrow> Inl e
           | Inr rest \<Rightarrow> Inr ((k, u) # rest)))"

fun is_encrypted :: "json \<Rightarrow> bool" where
  "is_encrypted (JStr s) = (startswith s encrypted_mark \<and> length encrypted_mark < length s)"
| "is_encrypted _ = False"

section \<open>Decryption undoes encryption\<close>

text \<open>
  What the packages promise: the digest has 64 bytes, and a token is decrypted by the keys that made
  it.
\<close>

definition crypto_ok :: "crypto \<Rightarrow> bool" where
  "crypto_ok c \<longleftrightarrow> (\<forall>m. length (sha512 c m) = 64) \<and>
     (\<forall>n s e m. fernet_decrypt c s e (fernet_encrypt c n s e m) = Some m)"

definition fernet_keys :: "crypto \<Rightarrow> string \<Rightarrow> pk option \<Rightarrow> string option \<Rightarrow> string \<times> string" where
  "fernet_keys c field_name pk secret_key =
     (let h = sha512 c (smart_bytes (effective_secret c secret_key) @
        (case pk of None \<Rightarrow> [] | Some i \<Rightarrow> smart_bytes (nat_str i)) @ smart_bytes field_name)
      in (take 32 h, drop 32 h))"

lemma fernet256_init_key:
  "crypto_ok c \<Longrightarrow> fernet256_init (get_encryption_key c f pk k) = Inr (fernet_keys c f pk k)"
  by (simp add: fernet256_init_def get_encryption_key_def urlsafe_roundtrip fernet_keys_def crypto_ok_def Let_def)

lemma startswith_same_append [simp]: "startswith (p @ s) p"
  by (simp add: startswith_def)

lemma sealed_append: "sealed e = encrypted_mark @ ''UTF8$'' @ ''AESCBC'' @ ''$'' @ b64encode e"
  by (simp add: sealed_def encrypted_mark_def)

lemma sealed_marked: "startswith (sealed e) encrypted_mark" "sealed e \<noteq> []" "is_encrypted (JStr (sealed e))"
  unfolding sealed_append is_encrypted.simps by simp_all

lemma decrypt_sealed:
  assumes "crypto_ok c" and "(s, e) = fernet_keys c f pk k"
  shows "decrypt_value c (get_encryption_key c f pk k) (sealed (fernet_encrypt c n s e (smart_bytes t))) = Inr t"
proof -
  let ?b = "b64encode (fernet_encrypt c n s e (smart_bytes t))"
  have ascii: "\<not> list_ex (\<lambda>x. 128 \<le> code x) ?b" using b64encode_ascii by (auto simp: list_ex_iff not_le)
  have raw: "drop (length encrypted_mark) (encrypted_mark @ ''UTF8$'' @ ''AESCBC'' @ ''$'' @ ?b) = ''UTF8$AESCBC$'' @ ?b"
    by simp
  have keys: "fernet256_init (get_encryption_key c f pk k) = Inr (s, e)"
    using fernet256_init_key [OF assms(1)] assms(2) by simp
  have dec: "fernet_decrypt c s e (fernet_encrypt c n s e (smart_bytes t)) = Some (smart_bytes t)"
    using assms(1) by (simp add: crypto_ok_def)
  show ?thesis
    unfolding sealed_append decrypt_value_def Let_def raw
    by (simp add: startswith_def ascii b64decode_encode keys dec smart_str_bytes)
qed

text \<open>The text of a value that is a secret in plain: not null and not marked as encrypted.\<close>

definition plain_text :: "crypto \<Rightarrow> json \<Rightarrow> string \<Rightarrow> bool" where
  "plain_text c v t \<longleftrightarrow> v \<noteq> JNull \<and> py_str (render c) v = t \<and> \<not> startswith t encrypted_mark"

lemma encrypt_field_plain:
  assumes "crypto_ok c" and "field_value h f sub = Inr v" and "plain_text c v t"
  shows "encrypt_field c n h f ask sub k = Inr (JStr
     (if t = [] \<or> (ask \<and> t = ''ASK'') then t
      else sealed (fernet_encrypt c n (fst (fernet_keys c f (holder_pk h) k)) (snd (fernet_keys c f (holder_pk h) k))
                     (smart_bytes t))))"
  using assms
  by (cases v; cases "fernet_keys c f (holder_pk h) k")
    (simp_all add: encrypt_field_def plain_text_def fernet256_init_key Let_def)

lemma decrypt_field_encrypted:
  assumes "crypto_ok c" and "plain_text c v t"
    and "field_value h f sub = Inr v" and "encrypt_field c n h f ask sub k = Inr u"
    and "field_value h' f sub = Inr u" and "holder_pk h' = holder_pk h"
  shows "decrypt_field c h' f sub k = Inr t"
proof -
  note u = encrypt_field_plain [OF assms(1,3,2), of n ask k]
  show ?thesis
  proof (cases "t = [] \<or> (ask \<and> t = ''ASK'')")
    case True
    with u assms(2,4,5) show ?thesis by (auto simp: decrypt_field_def plain_text_def)
  next
    case False
    obtain s e where k: "(s, e) = fernet_keys c f (holder_pk h) k" by (metis surj_pair)
    then have "fst (fernet_keys c f (holder_pk h) k) = s" "snd (fernet_keys c f (holder_pk h) k) = e"
      by (metis fst_conv, metis snd_conv)
    with u False assms(4) have "u = JStr (sealed (fernet_encrypt c n s e (smart_bytes t)))" by simp
    with assms(5,6) show ?thesis
      by (simp add: decrypt_field_def sealed_marked decrypt_sealed [OF assms(1) k])
  qed
qed

lemma encrypt_marked:
  assumes "field_value h f sub = Inr (JStr s)" and "startswith s encrypted_mark"
  shows "encrypt_field c n h f ask sub k = Inr (JStr s)"
  using assms by (simp add: encrypt_field_def)

section \<open>A cipher for examples\<close>

text \<open>A cipher that prepends its keys, and a digest of the first 64 bytes.\<close>

definition demo_crypto :: crypto where
  "demo_crypto = \<lparr>sha512 = (\<lambda>m. take 64 (m @ replicate 64 CHR ''0'')),
     fernet_encrypt = (\<lambda>n s e m. s @ e @ m),
     fernet_decrypt = (\<lambda>s e t. if startswith t (s @ e) then Some (drop (length s + length e) t) else None),
     secret_key_setting = ''old'', render = (\<lambda>_. ''{}'')\<rparr>"

lemma demo_crypto_ok: "crypto_ok demo_crypto"
  by (auto simp: crypto_ok_def demo_crypto_def startswith_def min_def)

end
