(* ===== verification/Key_Rotation.thy ===== *)
theory Key_Rotation
  imports Encryption
begin

text \<open>
  The command \<open>regenerate_secret_key\<close> of \<open>forail/main/management/commands\<close>: the secrets of the
  tables that it visits are decrypted under the old key and encrypted under a new one, table by
  table. The encrypted answers that schedules, workflow nodes and launch configurations keep in
  \<open>extra_data\<close> are in the database too (\<open>va_launch_configs\<close>), but the command does not visit them. A text of
  JSON is modelled as the parsed object (the command's test that a key occurs in the text holds for
  each key of the object). \<open>iv\<close> gives the random vector of each encryption. The other models
  also encrypt their secret fields again when they are saved, which changes no value that is empty
  or marked as encrypted (\<open>encrypt_marked\<close>). The command runs in one transaction: an error leaves the rows as they were.
\<close>

section \<open>Tables\<close>

type_synonym dict = "(string \<times> json) list"

record notification_row =
  nr_pk :: pk
  nr_config :: dict
  nr_password_params :: "string list"

record credential_row =
  cr_pk :: pk
  cr_kind :: string
  cr_inputs :: dict
  cr_secret_fields :: "string list"
  cr_askable_fields :: "string list"

record unified_row =
  ur_pk :: pk
  ur_start_args :: string

record setting_row =
  sr_pk :: pk
  sr_value :: json
  sr_is_encrypted :: bool

record survey_question =
  sq_type :: string
  sq_default :: json

record survey_row =
  vr_password_keys :: "string list"
  vr_extra_vars :: dict

record vault =
  va_notifications :: "notification_row list"
  va_credentials :: "credential_row list"
  va_unified :: "unified_row list"
  va_apps :: "json list"
  va_settings :: "setting_row list"
  va_surveys :: "survey_question list list"
  va_survey_jobs :: "survey_row list"
  va_launch_configs :: "survey_row list"

text \<open>The place of a secret, for its random vector.\<close>

datatype place =
    AtNotification pk string
  | AtCredential pk string
  | AtStartArgs pk
  | AtApp
  | AtSetting pk
  | AtSurvey
  | AtSurveyAnswer string

section \<open>The command\<close>

definition choose_key :: "bool \<Rightarrow> string option \<Rightarrow> string \<Rightarrow> string option" where
  "choose_key use_custom_key custom_key fresh =
     (if use_custom_key then
        (case custom_key of None \<Rightarrow> None | Some k \<Rightarrow> if k = [] then None else Some k)
      else Some fresh)"

definition notification_holder :: "pk \<Rightarrow> dict \<Rightarrow> holder" where
  "notification_holder i d =
     \<lparr>holder_pk = Some i, holder_inputs = None, holder_attrs = [(''notification_configuration'', JObj d)]\<rparr>"

definition credential_holder :: "pk \<Rightarrow> dict \<Rightarrow> holder" where
  "credential_holder i d = \<lparr>holder_pk = Some i, holder_inputs = Some d, holder_attrs = []\<rparr>"

definition attr_holder :: "pk \<Rightarrow> string \<Rightarrow> json \<Rightarrow> holder" where
  "attr_holder i f v = \<lparr>holder_pk = Some i, holder_inputs = None, holder_attrs = [(f, v)]\<rparr>"

definition rotate_param :: "crypto \<Rightarrow> (place \<Rightarrow> nat) \<Rightarrow> string \<Rightarrow> pk \<Rightarrow> string \<Rightarrow> dict \<Rightarrow> crypt_error + dict" where
  "rotate_param c iv new i f d =
     and_then (decrypt_field c (notification_holder i d) ''notification_configuration'' (Some f)
                 (Some (secret_key_setting c))) (\<lambda>t.
     and_then (encrypt_field c (iv (AtNotification i f)) (notification_holder i (AList.update f (JStr t) d))
                 ''notification_configuration'' False (Some f) (Some new)) (\<lambda>u.
     Inr (AList.update f u d)))"

definition notification_templates ::
  "crypto \<Rightarrow> (place \<Rightarrow> nat) \<Rightarrow> string \<Rightarrow> notification_row list \<Rightarrow> crypt_error + notification_row list" where
  "notification_templates c iv new =
     each (\<lambda>r. and_then (steps (rotate_param c iv new (nr_pk r)) (nr_password_params r) (nr_config r))
                 (\<lambda>d. Inr (r\<lparr>nr_config := d\<rparr>)))"

definition rotate_input :: "crypto \<Rightarrow> (place \<Rightarrow> nat) \<Rightarrow> string \<Rightarrow> pk \<Rightarrow> string \<Rightarrow> dict \<Rightarrow> crypt_error + dict" where
  "rotate_input c iv new i f d =
     (if f \<in> fst ` set d then
        and_then (decrypt_field c (credential_holder i d) f None (Some (secret_key_setting c))) (\<lambda>t.
        and_then (encrypt_field c (iv (AtCredential i f)) (credential_holder i (AList.update f (JStr t) d))
                    f False None (Some new)) (\<lambda>u.
        Inr (AList.update f u d)))
      else Inr d)"

text \<open>
  Saving a credential: each secret input that is not encrypted yet is encrypted under the key of the
  settings, which during the command is the old one; an empty one is dropped. Rows of the database
  hold no placeholder to resolve.
\<close>

definition save_input :: "crypto \<Rightarrow> (place \<Rightarrow> nat) \<Rightarrow> pk \<Rightarrow> string list \<Rightarrow> string \<Rightarrow> dict \<Rightarrow> crypt_error + dict" where
  "save_input c iv i askable f d =
     (if f \<in> fst ` set d then
        and_then (encrypt_field c (iv (AtCredential i f)) (credential_holder i d) f (f \<in> set askable) None None) (\<lambda>u.
        Inr (if json_true u then AList.update f u d else AList.delete f d))
      else Inr d)"

definition save_inputs :: "crypto \<Rightarrow> (place \<Rightarrow> nat) \<Rightarrow> pk \<Rightarrow> string list \<Rightarrow> string list \<Rightarrow> dict \<Rightarrow> crypt_error + dict" where
  "save_inputs c iv i askable secrets = steps (save_input c iv i askable) secrets"

definition rotate_credential ::
  "crypto \<Rightarrow> (place \<Rightarrow> nat) \<Rightarrow> string \<Rightarrow> credential_row \<Rightarrow> crypt_error + credential_row" where
  "rotate_credential c iv new r =
     and_then
       (steps (\<lambda>f d. and_then (rotate_input c iv new (cr_pk r) f d)
                    (save_inputs c iv (cr_pk r) (cr_askable_fields r) (cr_secret_fields r)))
          (cr_secret_fields r) (cr_inputs r))
       (\<lambda>d. Inr (r\<lparr>cr_inputs := d\<rparr>))"

definition rotate_credentials ::
  "crypto \<Rightarrow> (place \<Rightarrow> nat) \<Rightarrow> string \<Rightarrow> credential_row list \<Rightarrow> crypt_error + credential_row list" where
  "rotate_credentials c iv new = each (rotate_credential c iv new)"

text \<open>A value that is written to a text column.\<close>

definition column_text :: "crypto \<Rightarrow> json \<Rightarrow> string" where
  "column_text c v = py_str (render c) v"

definition rotate_unified_jobs ::
  "crypto \<Rightarrow> (place \<Rightarrow> nat) \<Rightarrow> string \<Rightarrow> unified_row list \<Rightarrow> crypt_error + unified_row list" where
  "rotate_unified_jobs c iv new =
     each (\<lambda>r. if ur_start_args r = [] then Inr r else
       and_then (decrypt_field c (attr_holder (ur_pk r) ''start_args'' (JStr (ur_start_args r))) ''start_args'' None
                   (Some (secret_key_setting c))) (\<lambda>t.
       and_then (encrypt_field c (iv (AtStartArgs (ur_pk r))) (attr_holder (ur_pk r) ''start_args'' (JStr t))
                   ''start_args'' False None (Some new)) (\<lambda>u.
       Inr (r\<lparr>ur_start_args := column_text c u\<rparr>))))"

text \<open>\<open>OAuth2ClientSecretField.from_db_value\<close>.\<close>

definition client_secret_from_db :: "crypto \<Rightarrow> json \<Rightarrow> crypt_error + json" where
  "client_secret_from_db c v =
     (case v of
        JStr s \<Rightarrow>
          if s \<noteq> [] \<and> startswith s encrypted_mark
          then map_sum id JStr (decrypt_value c (get_encryption_key c ''value'' None None) s)
          else Inr v
      | _ \<Rightarrow> Inr v)"

definition client_secret_to_db :: "crypto \<Rightarrow> nat \<Rightarrow> json \<Rightarrow> crypt_error + json" where
  "client_secret_to_db c nonce v = encrypt_value c nonce v None None"

definition oauth2_app_secrets ::
  "crypto \<Rightarrow> (place \<Rightarrow> nat) \<Rightarrow> string \<Rightarrow> json list \<Rightarrow> crypt_error + json list" where
  "oauth2_app_secrets c iv new =
     each (\<lambda>v. and_then (client_secret_from_db c v) (\<lambda>raw.
               and_then (encrypt_value c (iv AtApp) raw None (Some new)) (\<lambda>u.
               client_secret_to_db c (iv AtApp) u)))"

definition rotate_settings ::
  "crypto \<Rightarrow> (place \<Rightarrow> nat) \<Rightarrow> string \<Rightarrow> setting_row list \<Rightarrow> crypt_error + setting_row list" where
  "rotate_settings c iv new =
     each (\<lambda>r. if \<not> sr_is_encrypted r then Inr r else
       and_then (decrypt_field c (attr_holder (sr_pk r) ''value'' (sr_value r)) ''value'' None
                   (Some (secret_key_setting c))) (\<lambda>t.
       and_then (encrypt_field c (iv (AtSetting (sr_pk r))) (attr_holder (sr_pk r) ''value'' (JStr t))
                   ''value'' False None (Some new)) (\<lambda>u.
       Inr (r\<lparr>sr_value := u\<rparr>))))"

text \<open>\<open>decrypt_value\<close> of a value of JSON: only text has the methods it calls.\<close>

definition decrypt_answer :: "crypto \<Rightarrow> string option \<Rightarrow> json \<Rightarrow> crypt_error + string" where
  "decrypt_answer c secret_key v =
     (case v of JStr s \<Rightarrow> decrypt_value c (get_encryption_key c ''value'' None secret_key) s | _ \<Rightarrow> Inl TypeErr)"

definition rotate_question ::
  "crypto \<Rightarrow> (place \<Rightarrow> nat) \<Rightarrow> string \<Rightarrow> survey_question \<Rightarrow> crypt_error + survey_question" where
  "rotate_question c iv new q =
     (if sq_type q = ''password'' \<and> json_true (sq_default q) then
        and_then (decrypt_answer c (Some (secret_key_setting c)) (sq_default q)) (\<lambda>raw.
        and_then (encrypt_value c (iv AtSurvey) (JStr raw) None (Some new)) (\<lambda>u.
        Inr (q\<lparr>sq_default := u\<rparr>)))
      else Inr q)"

definition rotate_answer :: "crypto \<Rightarrow> (place \<Rightarrow> nat) \<Rightarrow> string \<Rightarrow> string \<Rightarrow> dict \<Rightarrow> crypt_error + dict" where
  "rotate_answer c iv new k d =
     (if json_true (dict_get d k JNull) then
        and_then (decrypt_answer c (Some (secret_key_setting c)) (dict_get d k JNull)) (\<lambda>raw.
        and_then (encrypt_value c (iv (AtSurveyAnswer k)) (JStr raw) None (Some new)) (\<lambda>u.
        Inr (AList.update k u d)))
      else Inr d)"

definition survey_passwords ::
  "crypto \<Rightarrow> (place \<Rightarrow> nat) \<Rightarrow> string \<Rightarrow> survey_question list list \<times> survey_row list \<Rightarrow>
     crypt_error + survey_question list list \<times> survey_row list" where
  "survey_passwords c iv new = (\<lambda>(specs, jobs).
     and_then (each (each (rotate_question c iv new)) specs) (\<lambda>specs'.
     and_then (each (\<lambda>j. and_then (steps (rotate_answer c iv new) (vr_password_keys j) (vr_extra_vars j))
                            (\<lambda>d. Inr (j\<lparr>vr_extra_vars := d\<rparr>))) jobs) (\<lambda>jobs'.
     Inr (specs', jobs'))))"

definition regenerate_secret_key ::
  "crypto \<Rightarrow> (place \<Rightarrow> nat) \<Rightarrow> string \<Rightarrow> vault \<Rightarrow> crypt_error + vault" where
  "regenerate_secret_key c iv new w =
     and_then (notification_templates c iv new (va_notifications w)) (\<lambda>ns.
     and_then (rotate_credentials c iv new (va_credentials w)) (\<lambda>cs.
     and_then (rotate_unified_jobs c iv new (va_unified w)) (\<lambda>us.
     and_then (oauth2_app_secrets c iv new (va_apps w)) (\<lambda>as.
     and_then (rotate_settings c iv new (va_settings w)) (\<lambda>ss.
     and_then (survey_passwords c iv new (va_surveys w, va_survey_jobs w)) (\<lambda>(qs, js).
     Inr \<lparr>va_notifications = ns, va_credentials = cs, va_unified = us, va_apps = as,
          va_settings = ss, va_surveys = qs, va_survey_jobs = js,
          va_launch_configs = va_launch_configs w\<rparr>))))))"

section \<open>The questions asked at launch\<close>

definition needs_ssh_password :: "credential_row \<Rightarrow> bool" where
  "needs_ssh_password r \<longleftrightarrow> cr_kind r = ''ssh'' \<and> obj_get (cr_inputs r) ''password'' = JStr ''ASK''"

definition needs_become_password :: "credential_row \<Rightarrow> bool" where
  "needs_become_password r \<longleftrightarrow> cr_kind r = ''ssh'' \<and> obj_get (cr_inputs r) ''become_password'' = JStr ''ASK''"

definition needs_vault_password :: "credential_row \<Rightarrow> bool" where
  "needs_vault_password r \<longleftrightarrow> cr_kind r = ''vault'' \<and> obj_get (cr_inputs r) ''vault_password'' = JStr ''ASK''"

text \<open>\<open>key_is_encrypted\<close> says whether the private key of the credential is protected.\<close>

definition needs_ssh_key_unlock :: "bool \<Rightarrow> credential_row \<Rightarrow> bool" where
  "needs_ssh_key_unlock key_is_encrypted r \<longleftrightarrow>
     cr_kind r = ''ssh'' \<and> obj_get (cr_inputs r) ''ssh_key_unlock'' \<in> {JStr ''ASK'', JStr []} \<and> key_is_encrypted"

definition credential_passwords_needed :: "crypto \<Rightarrow> bool \<Rightarrow> credential_row \<Rightarrow> string list" where
  "credential_passwords_needed c key_is_encrypted r =
     (if needs_ssh_password r then [''ssh_password''] else []) @
     (if needs_become_password r then [''become_password''] else []) @
     (if needs_ssh_key_unlock key_is_encrypted r then [''ssh_key_unlock''] else []) @
     (if needs_vault_password r then
        [if json_true (obj_get (cr_inputs r) ''vault_id'')
         then ''vault_password.'' @ py_str (render c) (obj_get (cr_inputs r) ''vault_id'')
         else ''vault_password'']
      else [])"

end
