(* ===== verification/Rotation_Correct.thy ===== *)
theory Rotation_Correct
  imports Key_Rotation
begin

text \<open>
  Correctness of encryption and of the change of the secret key: decryption undoes encryption, and
  after the command every secret reads under the new key as it read under the old one. The steps
  over the fields of one row share an interface, \<open>entry_rotation\<close>.
\<close>

section \<open>Reading one value\<close>

definition open_value :: "crypto \<Rightarrow> string \<Rightarrow> json \<Rightarrow> crypt_error + string" where
  "open_value c key v =
     (let value = py_str (render c) v
      in if value = [] \<or> \<not> startswith value encrypted_mark then Inr value else decrypt_value c key value)"

lemma decrypt_field_open:
  "field_value h f sub = Inr v \<Longrightarrow>
     decrypt_field c h f sub k = open_value c (get_encryption_key c f (holder_pk h) k) v"
  by (simp add: decrypt_field_def open_value_def)

abbreviation with_key :: "crypto \<Rightarrow> string \<Rightarrow> crypto" where
  "with_key c new \<equiv> c\<lparr>secret_key_setting := new\<rparr>"

lemma key_of_setting: "get_encryption_key c f pk (Some (secret_key_setting c)) = get_encryption_key c f pk None"
  by (simp add: get_encryption_key_def effective_secret_def)

lemma decrypt_field_setting [simp]:
  "decrypt_field c h f sub (Some (secret_key_setting c)) = decrypt_field c h f sub None"
  unfolding decrypt_field_def key_of_setting ..

lemma key_of_new:
  "new \<noteq> [] \<Longrightarrow> get_encryption_key (with_key c new) f pk None = get_encryption_key c f pk (Some new)"
  by (simp add: get_encryption_key_def effective_secret_def)

lemma decrypt_value_with_key [simp]: "decrypt_value (with_key c new) = decrypt_value c"
proof -
  have e: "fernet_decrypt (with_key c new) = fernet_decrypt c" by simp
  show ?thesis unfolding decrypt_value_def fun_eq_iff e by simp
qed

lemma open_value_with_key [simp]: "open_value (with_key c new) = open_value c"
proof -
  have e: "render (with_key c new) = render c" by simp
  show ?thesis unfolding open_value_def fun_eq_iff decrypt_value_with_key e by simp
qed

text \<open>What an encryption of a plain text yields, and how it reads.\<close>

definition opens :: "crypto \<Rightarrow> string \<Rightarrow> json \<Rightarrow> string \<Rightarrow> bool" where
  "opens c key u t \<longleftrightarrow> open_value c key u = Inr t \<and>
     (\<exists>s. u = JStr s \<and> (s = [] \<longleftrightarrow> t = []) \<and> (s = [] \<or> startswith s encrypted_mark))"

lemma encrypt_opens:
  assumes "crypto_ok c" and "field_value h f sub = Inr v" and "plain_text c v t"
  shows "\<exists>u. encrypt_field c n h f False sub k = Inr u \<and> opens c (get_encryption_key c f (holder_pk h) k) u t"
proof (cases "t = []")
  case True
  with encrypt_field_plain [OF assms, of n False k] show ?thesis by (simp add: opens_def open_value_def)
next
  case False
  obtain s e where k: "(s, e) = fernet_keys c f (holder_pk h) k" by (metis surj_pair)
  then have "fst (fernet_keys c f (holder_pk h) k) = s" "snd (fernet_keys c f (holder_pk h) k) = e"
    by (metis fst_conv, metis snd_conv)
  with encrypt_field_plain [OF assms, of n False k] False
  have "encrypt_field c n h f False sub k = Inr (JStr (sealed (fernet_encrypt c n s e (smart_bytes t))))"
    by simp
  then show ?thesis
    using False by (simp add: opens_def open_value_def sealed_marked decrypt_sealed [OF assms(1) k])
qed

lemma plain_text_JStr: "\<not> startswith t encrypted_mark \<Longrightarrow> plain_text c (JStr t) t"
  by (simp add: plain_text_def)

section \<open>The fields of a row\<close>

text \<open>
  A step over the field \<open>f\<close> of a dictionary. \<open>before f t d\<close> and \<open>after f t d\<close> say that the field reads
  as \<open>t\<close> under the old and under the new key; a step moves its own field from the one to the other
  and keeps either of every other field.
\<close>

locale entry_rotation =
  fixes ready :: bool
    and entry_step :: "string \<Rightarrow> dict \<Rightarrow> crypt_error + dict"
    and before :: "string \<Rightarrow> string \<Rightarrow> dict \<Rightarrow> bool"
    and after :: "string \<Rightarrow> string \<Rightarrow> dict \<Rightarrow> bool"
  assumes step_ok: "ready \<Longrightarrow> before f t d \<Longrightarrow> \<exists>d'. entry_step f d = Inr d' \<and> after f t d' \<and>
      (\<forall>g u. g \<noteq> f \<longrightarrow> (before g u d \<longrightarrow> before g u d') \<and> (after g u d \<longrightarrow> after g u d'))"
begin

lemma all_fields:
  "ready \<Longrightarrow> distinct fs \<Longrightarrow> (\<And>f. f \<in> set fs \<Longrightarrow> before f (T f) d) \<Longrightarrow>
     (\<And>g. g \<in> G \<Longrightarrow> g \<notin> set fs \<and> after g (T g) d) \<Longrightarrow>
     \<exists>d'. steps entry_step fs d = Inr d' \<and> (\<forall>f \<in> set fs \<union> G. after f (T f) d')"
proof (induction fs arbitrary: d G)
  case (Cons f fs)
  from step_ok [OF Cons.prems(1), of f "T f" d] Cons.prems(3) obtain d1 where
    d1: "entry_step f d = Inr d1" "after f (T f) d1"
    and keep: "\<And>g u. g \<noteq> f \<Longrightarrow> (before g u d \<longrightarrow> before g u d1) \<and> (after g u d \<longrightarrow> after g u d1)"
    by auto
  have "\<exists>d'. steps entry_step fs d1 = Inr d' \<and> (\<forall>g \<in> set fs \<union> insert f G. after g (T g) d')"
  proof (rule Cons.IH [OF Cons.prems(1)])
    show "distinct fs" using Cons.prems(2) by simp
    show "before g (T g) d1" if "g \<in> set fs" for g
      using that Cons.prems(2) Cons.prems(3) [of g] keep [of g] by auto
    show "g \<notin> set fs \<and> after g (T g) d1" if "g \<in> insert f G" for g
      using that Cons.prems(2) Cons.prems(4) [of g] keep [of g] d1(2) by auto
  qed
  with d1(1) show ?case by auto
qed auto

corollary every_field:
  "ready \<Longrightarrow> distinct fs \<Longrightarrow> (\<And>f. f \<in> set fs \<Longrightarrow> before f (T f) d) \<Longrightarrow>
     \<exists>d'. steps entry_step fs d = Inr d' \<and> (\<forall>f \<in> set fs. after f (T f) d')"
  using all_fields [of fs T d "{}"] by auto

end

subsection \<open>Notification templates\<close>

definition read_param :: "crypto \<Rightarrow> pk \<Rightarrow> dict \<Rightarrow> string \<Rightarrow> crypt_error + string" where
  "read_param c i d f = decrypt_field c (notification_holder i d) ''notification_configuration'' (Some f) None"

lemma param_value:
  "field_value (notification_holder i d) ''notification_configuration'' (Some f) =
     (case map_of d f of None \<Rightarrow> Inl (KeyErr f) | Some v \<Rightarrow> Inr v)"
  by (simp add: field_value_def notification_holder_def)

lemma read_param_open:
  "read_param c i d f = (case map_of d f of None \<Rightarrow> Inl (KeyErr f)
     | Some v \<Rightarrow> open_value c (get_encryption_key c ''notification_configuration'' (Some i) None) v)"
  using decrypt_field_open [of "notification_holder i d"] param_value [of i d f]
  by (auto simp: read_param_def decrypt_field_def notification_holder_def open_value_def split: option.splits)

interpretation param: entry_rotation "crypto_ok c \<and> new \<noteq> []" "rotate_param c iv new i"
  "\<lambda>f t d. read_param c i d f = Inr t \<and> \<not> startswith t encrypted_mark"
  "\<lambda>f t d. read_param (with_key c new) i d f = Inr t"
proof
  fix f t d
  assume ready: "crypto_ok c \<and> new \<noteq> []"
    and b: "read_param c i d f = Inr t \<and> \<not> startswith t encrypted_mark"
  let ?h = "notification_holder i (AList.update f (JStr t) d)" and ?n = "''notification_configuration''"
  have v: "field_value ?h ?n (Some f) = Inr (JStr t)" by (simp add: param_value)
  from encrypt_opens [OF _ v plain_text_JStr, of c "iv (AtNotification i f)" "Some new"] ready b obtain u
    where u: "encrypt_field c (iv (AtNotification i f)) ?h ?n False (Some f) (Some new) = Inr u"
      "opens c (get_encryption_key c ?n (Some i) (Some new)) u t"
    by (auto simp: notification_holder_def)
  have "decrypt_field c (notification_holder i d) ?n (Some f) None = Inr t"
    using b by (simp add: read_param_def)
  with u ready
  show "\<exists>d'. rotate_param c iv new i f d = Inr d' \<and> read_param (with_key c new) i d' f = Inr t \<and>
      (\<forall>g u. g \<noteq> f \<longrightarrow>
         (read_param c i d g = Inr u \<and> \<not> startswith u encrypted_mark \<longrightarrow>
          read_param c i d' g = Inr u \<and> \<not> startswith u encrypted_mark) \<and>
         (read_param (with_key c new) i d g = Inr u \<longrightarrow> read_param (with_key c new) i d' g = Inr u))"
    by (intro exI [of _ "AList.update f u d"])
      (simp add: rotate_param_def read_param_open key_of_new opens_def)
qed

subsection \<open>Answers of a survey\<close>

definition read_answer :: "crypto \<Rightarrow> dict \<Rightarrow> string \<Rightarrow> crypt_error + string" where
  "read_answer c d k =
     (if json_true (dict_get d k JNull) then decrypt_answer c None (dict_get d k JNull) else Inr [])"

lemma encrypt_value_opens:
  assumes "crypto_ok c" and "plain_text c v t"
  shows "\<exists>u. encrypt_value c n v None k = Inr u \<and> opens c (get_encryption_key c ''value'' None k) u t"
  using encrypt_opens [OF assms(1) _ assms(2), of "\<lparr>holder_pk = None, holder_inputs = None, holder_attrs = [(''value'', v)]\<rparr>" "''value''" None n k]
  by (simp add: encrypt_value_def field_value_def split: json.splits)

lemma opens_answer:
  assumes "opens c (get_encryption_key c ''value'' None (Some new)) u t" and "new \<noteq> []"
  shows "(if json_true u then decrypt_answer (with_key c new) None u else Inr []) = Inr t"
  using assms by (auto simp: opens_def decrypt_answer_def key_of_new open_value_def)

lemma decrypt_answer_setting [simp]: "decrypt_answer c (Some (secret_key_setting c)) = decrypt_answer c None"
  unfolding decrypt_answer_def key_of_setting ..

interpretation answer: entry_rotation "crypto_ok c \<and> new \<noteq> []" "rotate_answer c iv new"
  "\<lambda>k t d. read_answer c d k = Inr t \<and> \<not> startswith t encrypted_mark"
  "\<lambda>k t d. read_answer (with_key c new) d k = Inr t"
proof
  fix k t d
  assume ready: "crypto_ok c \<and> new \<noteq> []"
    and b: "read_answer c d k = Inr t \<and> \<not> startswith t encrypted_mark"
  have other: "read_answer c' (AList.update k u d) g = read_answer c' d g" if "g \<noteq> k" for c' u g
    using that by (simp add: read_answer_def dict_get_def)
  show "\<exists>d'. rotate_answer c iv new k d = Inr d' \<and> read_answer (with_key c new) d' k = Inr t \<and>
      (\<forall>g u. g \<noteq> k \<longrightarrow>
         (read_answer c d g = Inr u \<and> \<not> startswith u encrypted_mark \<longrightarrow>
          read_answer c d' g = Inr u \<and> \<not> startswith u encrypted_mark) \<and>
         (read_answer (with_key c new) d g = Inr u \<longrightarrow> read_answer (with_key c new) d' g = Inr u))"
  proof (cases "json_true (dict_get d k JNull)")
    case False
    with b show ?thesis by (auto simp: rotate_answer_def read_answer_def)
  next
    case True
    with b have a: "decrypt_answer c None (dict_get d k JNull) = Inr t" by (simp add: read_answer_def)
    from encrypt_value_opens [OF _ plain_text_JStr, of c t "iv (AtSurveyAnswer k)" "Some new"] ready b obtain u
      where u: "encrypt_value c (iv (AtSurveyAnswer k)) (JStr t) None (Some new) = Inr u"
        "opens c (get_encryption_key c ''value'' None (Some new)) u t" by auto
    have "rotate_answer c iv new k d = Inr (AList.update k u d)"
      using True a u(1) by (simp add: rotate_answer_def)
    moreover have "read_answer (with_key c new) (AList.update k u d) k = Inr t"
      using opens_answer [OF u(2)] ready by (simp add: read_answer_def dict_get_def split: if_splits)
    ultimately show ?thesis by (intro exI [of _ "AList.update k u d"]) (simp add: other)
  qed
qed

subsection \<open>Credentials\<close>

definition read_input :: "crypto \<Rightarrow> pk \<Rightarrow> dict \<Rightarrow> string \<Rightarrow> crypt_error + string" where
  "read_input c i d f =
     (if f \<in> fst ` set d then decrypt_field c (credential_holder i d) f None None else Inr [])"

lemma input_value:
  "field_value (credential_holder i d) f None =
     (case map_of d f of None \<Rightarrow> Inl (AttributeErr f) | Some v \<Rightarrow> Inr v)"
  by (auto simp: field_value_def credential_holder_def split: option.splits json.splits)

lemma in_dict: "f \<in> fst ` set d \<longleftrightarrow> map_of d f \<noteq> None"
  by (auto simp: map_of_eq_None_iff)

lemma read_input_open:
  "read_input c i d f =
     (case map_of d f of None \<Rightarrow> Inr [] | Some v \<Rightarrow> open_value c (get_encryption_key c f (Some i) None) v)"
  using decrypt_field_open [of "credential_holder i d"] input_value [of i d f]
  by (auto simp: read_input_def in_dict credential_holder_def split: option.splits)

definition old_input :: "crypto \<Rightarrow> pk \<Rightarrow> string \<Rightarrow> string \<Rightarrow> dict \<Rightarrow> bool" where
  "old_input c i f t d \<longleftrightarrow> read_input c i d f = Inr t \<and> \<not> startswith t encrypted_mark \<and> map_of d f \<noteq> Some JNull"

definition new_input :: "crypto \<Rightarrow> pk \<Rightarrow> string \<Rightarrow> string \<Rightarrow> dict \<Rightarrow> bool" where
  "new_input c i f t d \<longleftrightarrow> read_input c i d f = Inr t \<and>
     (case map_of d f of None \<Rightarrow> True
      | Some v \<Rightarrow> \<exists>s. v = JStr s \<and> (s = [] \<or> startswith s encrypted_mark))"

lemma input_depends:
  assumes "map_of d' f = map_of d f"
  shows "old_input c i f t d' = old_input c i f t d" "new_input c i f t d' = new_input c i f t d"
  using assms by (simp_all add: old_input_def new_input_def read_input_open)

text \<open>Saving changes no reading.\<close>

lemma save_input_other:
  assumes "save_input c iv i askable g d = Inr d'" and "f \<noteq> g"
  shows "map_of d' f = map_of d f"
proof (cases "g \<in> fst ` set d")
  case True
  with assms obtain u where "d' = (if json_true u then AList.update g u d else AList.delete g d)"
    by (cases "encrypt_field c (iv (AtCredential i g)) (credential_holder i d) g (g \<in> set askable) None None")
      (auto simp: save_input_def)
  with assms(2) show ?thesis by (simp add: delete_conv')
qed (use assms in \<open>simp add: save_input_def\<close>)

lemma save_input_new:
  assumes "new_input c' i f t d"
  shows "\<exists>d'. save_input c iv i askable f d = Inr d' \<and> new_input c' i f t d'"
proof (cases "map_of d f")
  case None
  with assms show ?thesis by (simp add: save_input_def in_dict)
next
  case (Some v)
  with assms obtain s where s: "v = JStr s" "s = [] \<or> startswith s encrypted_mark"
    by (auto simp: new_input_def)
  let ?d = "if s = [] then AList.delete f d else AList.update f (JStr s) d"
  have "save_input c iv i askable f d = Inr ?d"
    using Some s by (cases "s = []") (simp_all add: save_input_def in_dict encrypt_field_def input_value)
  moreover have "new_input c' i f t ?d"
    using assms Some s by (auto simp: new_input_def read_input_open open_value_def delete_conv')
  ultimately show ?thesis by blast
qed

lemma save_input_old:
  assumes "crypto_ok c" and "old_input c i f t d"
  shows "\<exists>d'. save_input c iv i askable f d = Inr d' \<and> old_input c i f t d'"
proof (cases "map_of d f")
  case None
  with assms show ?thesis by (simp add: save_input_def in_dict)
next
  case (Some v)
  let ?s = "py_str (render c) v" and ?h = "credential_holder i d"
  have v: "v \<noteq> JNull" "open_value c (get_encryption_key c f (Some i) None) v = Inr t" "\<not> startswith t encrypted_mark"
    using assms(2) Some by (auto simp: old_input_def read_input_open)
  have "\<exists>s. encrypt_field c n ?h f ask None None = Inr (JStr s) \<and>
      open_value c (get_encryption_key c f (Some i) None) (JStr s) = Inr t \<and> (s = [] \<longrightarrow> t = [])" for n ask
  proof (cases "?s = [] \<or> startswith ?s encrypted_mark \<or> (ask \<and> ?s = ''ASK'')")
    case True
    then have "encrypt_field c n ?h f ask None None = Inr (JStr ?s)"
      using v(1) Some by (cases v) (simp_all add: encrypt_field_def input_value)
    with v(2) show ?thesis by (auto simp: open_value_def)
  next
    case False
    then have p: "plain_text c v t" "t \<noteq> []" using v by (auto simp: plain_text_def open_value_def)
    obtain a b where k: "(a, b) = fernet_keys c f (Some i) None" by (metis surj_pair)
    then have ab: "fst (fernet_keys c f (Some i) None) = a" "snd (fernet_keys c f (Some i) None) = b"
      by (metis fst_conv, metis snd_conv)
    have h: "holder_pk ?h = Some i" by (simp add: credential_holder_def)
    have tx: "t = ?s" using p by (simp add: plain_text_def)
    have "encrypt_field c n ?h f ask None None = Inr (JStr (sealed (fernet_encrypt c n a b (smart_bytes t))))"
      using encrypt_field_plain [OF assms(1) _ p(1), of ?h f None n ask None] Some False p(2)
      by (auto simp: input_value h ab tx)
    moreover have "open_value c (get_encryption_key c f (Some i) None)
        (JStr (sealed (fernet_encrypt c n a b (smart_bytes t)))) = Inr t"
      by (simp add: open_value_def sealed_marked decrypt_sealed [OF assms(1) k])
    ultimately show ?thesis using sealed_marked(2) by blast
  qed
  then obtain s where s: "encrypt_field c (iv (AtCredential i f)) ?h f (f \<in> set askable) None None = Inr (JStr s)"
    "open_value c (get_encryption_key c f (Some i) None) (JStr s) = Inr t" "s = [] \<longrightarrow> t = []" by blast
  let ?d = "if s = [] then AList.delete f d else AList.update f (JStr s) d"
  have "save_input c iv i askable f d = Inr ?d" using Some s(1) by (simp add: save_input_def in_dict)
  moreover have "old_input c i f t ?d"
    using s v(3) by (auto simp: old_input_def read_input_open delete_conv')
  ultimately show ?thesis by blast
qed

lemma encrypt_field_total:
  assumes "crypto_ok c" and "field_value h f sub = Inr v"
  shows "\<exists>u. encrypt_field c n h f ask sub k = Inr u"
  using assms by (cases v) (auto simp: encrypt_field_def Let_def fernet256_init_key split: prod.splits)

lemma save_input_keeps:
  assumes "crypto_ok c"
  shows "\<exists>d'. save_input c iv i askable g d = Inr d' \<and>
    (\<forall>f t. (old_input c i f t d \<longrightarrow> old_input c i f t d') \<and> (new_input c' i f t d \<longrightarrow> new_input c' i f t d'))"
proof -
  have "\<exists>d'. save_input c iv i askable g d = Inr d'"
  proof (cases "map_of d g")
    case (Some v)
    then have "\<exists>u. encrypt_field c (iv (AtCredential i g)) (credential_holder i d) g (g \<in> set askable) None None = Inr u"
      by (intro encrypt_field_total [OF assms]) (simp add: input_value)
    with Some show ?thesis by (auto simp: save_input_def in_dict)
  qed (simp add: save_input_def in_dict)
  then obtain d' where d': "save_input c iv i askable g d = Inr d'" by blast
  have "(old_input c i f t d \<longrightarrow> old_input c i f t d') \<and> (new_input c' i f t d \<longrightarrow> new_input c' i f t d')" for f t
  proof (cases "f = g")
    case True
    with d' save_input_old [OF assms, of i g t d iv askable] save_input_new [of c' i g t d c iv askable]
    show ?thesis by auto
  next
    case False
    from input_depends [OF save_input_other [OF d' False]] show ?thesis by simp
  qed
  with d' show ?thesis by blast
qed

lemma save_inputs_keep:
  assumes "crypto_ok c"
  shows "\<exists>d'. save_inputs c iv i askable gs d = Inr d' \<and>
    (\<forall>f t. (old_input c i f t d \<longrightarrow> old_input c i f t d') \<and> (new_input c' i f t d \<longrightarrow> new_input c' i f t d'))"
proof (induction gs arbitrary: d)
  case (Cons g gs)
  from save_input_keeps [OF assms, of iv i askable g d c'] obtain d1 where
    "save_input c iv i askable g d = Inr d1"
    "\<forall>f t. (old_input c i f t d \<longrightarrow> old_input c i f t d1) \<and> (new_input c' i f t d \<longrightarrow> new_input c' i f t d1)"
    by blast
  with Cons [of d1] show ?case by (auto simp: save_inputs_def)
qed (simp add: save_inputs_def)

lemma rotate_input_ok:
  assumes "crypto_ok c" and "new \<noteq> []" and "old_input c i f t d"
  shows "\<exists>d'. rotate_input c iv new i f d = Inr d' \<and> new_input (with_key c new) i f t d' \<and>
    (\<forall>g. g \<noteq> f \<longrightarrow> map_of d' g = map_of d g)"
proof (cases "map_of d f")
  case None
  with assms(3) show ?thesis
    by (auto simp: rotate_input_def in_dict old_input_def new_input_def read_input_open)
next
  case (Some v)
  have t: "\<not> startswith t encrypted_mark" "decrypt_field c (credential_holder i d) f None None = Inr t"
    using assms(3) Some by (auto simp: old_input_def read_input_def in_dict)
  let ?h = "credential_holder i (AList.update f (JStr t) d)"
  have v: "field_value ?h f None = Inr (JStr t)" by (simp add: input_value)
  from encrypt_opens [OF assms(1) v plain_text_JStr [OF t(1)], of "iv (AtCredential i f)" "Some new"] obtain u
    where u: "encrypt_field c (iv (AtCredential i f)) ?h f False None (Some new) = Inr u"
      "opens c (get_encryption_key c f (Some i) (Some new)) u t" by (auto simp: credential_holder_def)
  have "rotate_input c iv new i f d = Inr (AList.update f u d)"
    using Some t u(1) by (simp add: rotate_input_def in_dict)
  moreover have "new_input (with_key c new) i f t (AList.update f u d)"
    using u(2) assms(2) by (auto simp: new_input_def read_input_open key_of_new opens_def)
  ultimately show ?thesis by auto
qed

interpretation input: entry_rotation "crypto_ok c \<and> new \<noteq> []"
  "\<lambda>f d. and_then (rotate_input c iv new i f d) (save_inputs c iv i askable secrets)"
  "old_input c i" "new_input (with_key c new) i"
proof
  fix f t d
  assume ready: "crypto_ok c \<and> new \<noteq> []" and b: "old_input c i f t d"
  from rotate_input_ok [of c new i f t d iv] ready b obtain d1 where
    d1: "rotate_input c iv new i f d = Inr d1" "new_input (with_key c new) i f t d1"
    and o: "\<And>g. g \<noteq> f \<Longrightarrow> map_of d1 g = map_of d g" by blast
  from save_inputs_keep [of c iv i askable secrets d1 "with_key c new"] ready obtain d2 where
    d2: "save_inputs c iv i askable secrets d1 = Inr d2"
    and keep: "\<And>f t. (old_input c i f t d1 \<longrightarrow> old_input c i f t d2) \<and>
      (new_input (with_key c new) i f t d1 \<longrightarrow> new_input (with_key c new) i f t d2)" by blast
  show "\<exists>d'. and_then (rotate_input c iv new i f d) (save_inputs c iv i askable secrets) = Inr d' \<and>
      new_input (with_key c new) i f t d' \<and>
      (\<forall>g u. g \<noteq> f \<longrightarrow> (old_input c i g u d \<longrightarrow> old_input c i g u d') \<and>
         (new_input (with_key c new) i g u d \<longrightarrow> new_input (with_key c new) i g u d'))"
    using d1 d2 keep input_depends [OF o] by (intro exI [of _ d2]) auto
qed

section \<open>The whole database\<close>

definition read_notification :: "crypto \<Rightarrow> notification_row \<Rightarrow> (crypt_error + string) list" where
  "read_notification c r = map (read_param c (nr_pk r) (nr_config r)) (nr_password_params r)"

definition read_credential :: "crypto \<Rightarrow> credential_row \<Rightarrow> (crypt_error + string) list" where
  "read_credential c r = map (read_input c (cr_pk r) (cr_inputs r)) (cr_secret_fields r)"

definition read_start_args :: "crypto \<Rightarrow> unified_row \<Rightarrow> crypt_error + string" where
  "read_start_args c r =
     (if ur_start_args r = [] then Inr []
      else decrypt_field c (attr_holder (ur_pk r) ''start_args'' (JStr (ur_start_args r))) ''start_args'' None None)"

definition read_app :: "crypto \<Rightarrow> json \<Rightarrow> crypt_error + string" where
  "read_app c v = map_sum id (py_str (render c)) (client_secret_from_db c v)"

definition read_setting :: "crypto \<Rightarrow> setting_row \<Rightarrow> crypt_error + string" where
  "read_setting c r =
     (if sr_is_encrypted r then decrypt_field c (attr_holder (sr_pk r) ''value'' (sr_value r)) ''value'' None None
      else Inr [])"

definition read_question :: "crypto \<Rightarrow> survey_question \<Rightarrow> crypt_error + string" where
  "read_question c q =
     (if sq_type q = ''password'' \<and> json_true (sq_default q) then decrypt_answer c None (sq_default q) else Inr [])"

definition read_answers :: "crypto \<Rightarrow> survey_row \<Rightarrow> (crypt_error + string) list" where
  "read_answers c j = map (read_answer c (vr_extra_vars j)) (vr_password_keys j)"

text \<open>
  How the secrets in the tables that the command visits read: notification templates, credentials,
  arguments of unified jobs, client secrets of applications, settings, defaults of surveys and
  answers of jobs. The answers in \<open>va_launch_configs\<close> are not among them.
\<close>

definition visited_secrets :: "crypto \<Rightarrow> vault \<Rightarrow> (crypt_error + string) list" where
  "visited_secrets c w =
     concat (map (read_notification c) (va_notifications w)) @
     concat (map (read_credential c) (va_credentials w)) @
     map (read_start_args c) (va_unified w) @ map (read_app c) (va_apps w) @
     map (read_setting c) (va_settings w) @ concat (map (map (read_question c)) (va_surveys w)) @
     concat (map (read_answers c) (va_survey_jobs w))"

text \<open>Names of fields are unique, no secret input is null and a client secret is a text or null.\<close>

definition vault_ok :: "vault \<Rightarrow> bool" where
  "vault_ok w \<longleftrightarrow>
     list_all (\<lambda>r. distinct (nr_password_params r)) (va_notifications w) \<and>
     list_all (\<lambda>r. distinct (cr_secret_fields r) \<and>
       list_all (\<lambda>f. map_of (cr_inputs r) f \<noteq> Some JNull) (cr_secret_fields r)) (va_credentials w) \<and>
     list_all (\<lambda>v. v = JNull \<or> (\<exists>s. v = JStr s)) (va_apps w) \<and>
     list_all (\<lambda>j. distinct (vr_password_keys j)) (va_survey_jobs w)"

definition readable :: "crypt_error + string \<Rightarrow> bool" where
  "readable r \<longleftrightarrow> (\<exists>t. r = Inr t \<and> \<not> startswith t encrypted_mark)"

lemma all_readable:
  assumes "list_all readable (map f xs)"
  obtains T where "\<And>x. x \<in> set xs \<Longrightarrow> f x = Inr (T x) \<and> \<not> startswith (T x) encrypted_mark"
proof (rule that [of "\<lambda>x. projr (f x)"])
  fix x assume "x \<in> set xs"
  with assms show "f x = Inr (projr (f x)) \<and> \<not> startswith (projr (f x)) encrypted_mark"
    by (auto simp: list_all_iff readable_def)
qed

lemma notification_reads:
  assumes "crypto_ok c" and "new \<noteq> []" and "distinct (nr_password_params r)"
    and "list_all readable (read_notification c r)"
  shows "\<exists>r'. and_then (steps (rotate_param c iv new (nr_pk r)) (nr_password_params r) (nr_config r))
                 (\<lambda>d. Inr (r\<lparr>nr_config := d\<rparr>)) = Inr r' \<and>
           read_notification (with_key c new) r' = read_notification c r"
proof -
  from all_readable [OF assms(4) [unfolded read_notification_def]] obtain T where
    T: "\<And>f. f \<in> set (nr_password_params r) \<Longrightarrow>
      read_param c (nr_pk r) (nr_config r) f = Inr (T f) \<and> \<not> startswith (T f) encrypted_mark" by blast
  from param.every_field [of c new "nr_password_params r" "nr_pk r" "nr_config r" T iv] assms T obtain d where
    "steps (rotate_param c iv new (nr_pk r)) (nr_password_params r) (nr_config r) = Inr d"
    "\<forall>f \<in> set (nr_password_params r). read_param (with_key c new) (nr_pk r) d f = Inr (T f)" by blast
  with T show ?thesis by (auto simp: read_notification_def)
qed

lemma credential_reads:
  assumes "crypto_ok c" and "new \<noteq> []" and "distinct (cr_secret_fields r)"
    and "list_all (\<lambda>f. map_of (cr_inputs r) f \<noteq> Some JNull) (cr_secret_fields r)"
    and "list_all readable (read_credential c r)"
  shows "\<exists>r'. rotate_credential c iv new r = Inr r' \<and>
           read_credential (with_key c new) r' = read_credential c r"
proof -
  let ?fs = "cr_secret_fields r"
  from all_readable [OF assms(5) [unfolded read_credential_def]] obtain T where
    T: "\<And>f. f \<in> set ?fs \<Longrightarrow>
      read_input c (cr_pk r) (cr_inputs r) f = Inr (T f) \<and> \<not> startswith (T f) encrypted_mark" by blast
  have "old_input c (cr_pk r) f (T f) (cr_inputs r)" if "f \<in> set ?fs" for f
    using T [OF that] that assms(4) by (simp add: old_input_def list_all_iff)
  with input.every_field [of c new ?fs "cr_pk r" T "cr_inputs r" iv "cr_askable_fields r" ?fs] assms(1-3)
  obtain d where
    "steps (\<lambda>f d. and_then (rotate_input c iv new (cr_pk r) f d)
       (save_inputs c iv (cr_pk r) (cr_askable_fields r) ?fs)) ?fs (cr_inputs r) = Inr d"
    "\<forall>f \<in> set ?fs. new_input (with_key c new) (cr_pk r) f (T f) d" by blast
  with T show ?thesis by (auto simp: read_credential_def rotate_credential_def new_input_def)
qed

lemma attr_value [simp]: "field_value (attr_holder i f v) f None = Inr v"
  by (simp add: field_value_def attr_holder_def split: json.splits)

lemma attr_pk [simp]: "holder_pk (attr_holder i f v) = Some i"
  by (simp add: attr_holder_def)

lemma attr_reads:
  assumes "crypto_ok c" and "new \<noteq> []" and "\<not> startswith t encrypted_mark"
  shows "\<exists>s. encrypt_field c n (attr_holder i f (JStr t)) f False None (Some new) = Inr (JStr s) \<and>
    (s = [] \<longleftrightarrow> t = []) \<and> decrypt_field (with_key c new) (attr_holder i f (JStr s)) f None None = Inr t"
proof -
  from encrypt_opens [OF assms(1) attr_value plain_text_JStr [OF assms(3)], of n i f "Some new"] obtain u where
    u: "encrypt_field c n (attr_holder i f (JStr t)) f False None (Some new) = Inr u"
    "opens c (get_encryption_key c f (Some i) (Some new)) u t" by auto
  then obtain s where s: "u = JStr s" "s = [] \<longleftrightarrow> t = []" by (auto simp: opens_def)
  with u show ?thesis
    using decrypt_field_open [OF attr_value, of "with_key c new" i f "JStr s" None] assms(2)
    by (auto simp: key_of_new opens_def)
qed

lemma start_args_reads:
  assumes "crypto_ok c" and "new \<noteq> []" and "readable (read_start_args c r)"
  shows "\<exists>r'. (if ur_start_args r = [] then Inr r else
       and_then (decrypt_field c (attr_holder (ur_pk r) ''start_args'' (JStr (ur_start_args r))) ''start_args'' None
                   (Some (secret_key_setting c))) (\<lambda>t.
       and_then (encrypt_field c (iv (AtStartArgs (ur_pk r))) (attr_holder (ur_pk r) ''start_args'' (JStr t))
                   ''start_args'' False None (Some new)) (\<lambda>u.
       Inr (r\<lparr>ur_start_args := column_text c u\<rparr>)))) = Inr r' \<and>
     read_start_args (with_key c new) r' = read_start_args c r"
proof (cases "ur_start_args r = []")
  case True
  then show ?thesis by (simp add: read_start_args_def)
next
  case False
  with assms(3) obtain t where t: "decrypt_field c (attr_holder (ur_pk r) ''start_args'' (JStr (ur_start_args r)))
      ''start_args'' None None = Inr t" "\<not> startswith t encrypted_mark"
    by (auto simp: readable_def read_start_args_def)
  from attr_reads [OF assms(1,2) t(2), of "iv (AtStartArgs (ur_pk r))" "ur_pk r" "''start_args''"] obtain s where
    s: "encrypt_field c (iv (AtStartArgs (ur_pk r))) (attr_holder (ur_pk r) ''start_args'' (JStr t))
          ''start_args'' False None (Some new) = Inr (JStr s)" "s = [] \<longleftrightarrow> t = []"
      "decrypt_field (with_key c new) (attr_holder (ur_pk r) ''start_args'' (JStr s)) ''start_args'' None None = Inr t"
    by blast
  show ?thesis
    using False t s by (intro exI [of _ "r\<lparr>ur_start_args := s\<rparr>"]) (auto simp: read_start_args_def column_text_def)
qed

lemma setting_reads:
  assumes "crypto_ok c" and "new \<noteq> []" and "readable (read_setting c r)"
  shows "\<exists>r'. (if \<not> sr_is_encrypted r then Inr r else
       and_then (decrypt_field c (attr_holder (sr_pk r) ''value'' (sr_value r)) ''value'' None
                   (Some (secret_key_setting c))) (\<lambda>t.
       and_then (encrypt_field c (iv (AtSetting (sr_pk r))) (attr_holder (sr_pk r) ''value'' (JStr t))
                   ''value'' False None (Some new)) (\<lambda>u.
       Inr (r\<lparr>sr_value := u\<rparr>)))) = Inr r' \<and>
     read_setting (with_key c new) r' = read_setting c r"
proof (cases "sr_is_encrypted r")
  case False
  then show ?thesis by (simp add: read_setting_def)
next
  case True
  with assms(3) obtain t where t: "decrypt_field c (attr_holder (sr_pk r) ''value'' (sr_value r)) ''value'' None None = Inr t"
      "\<not> startswith t encrypted_mark"
    by (auto simp: readable_def read_setting_def)
  from attr_reads [OF assms(1,2) t(2), of "iv (AtSetting (sr_pk r))" "sr_pk r" "''value''"] obtain s where
    s: "encrypt_field c (iv (AtSetting (sr_pk r))) (attr_holder (sr_pk r) ''value'' (JStr t)) ''value'' False None (Some new)
          = Inr (JStr s)"
      "decrypt_field (with_key c new) (attr_holder (sr_pk r) ''value'' (JStr s)) ''value'' None None = Inr t"
    by blast
  show ?thesis
    using True t s by (intro exI [of _ "r\<lparr>sr_value := JStr s\<rparr>"]) (auto simp: read_setting_def)
qed

lemma app_reads:
  assumes "crypto_ok c" and "new \<noteq> []" and "v = JNull \<or> (\<exists>s. v = JStr s)" and "readable (read_app c v)"
  shows "\<exists>u'. and_then (client_secret_from_db c v) (\<lambda>raw.
               and_then (encrypt_value c n raw None (Some new)) (\<lambda>u.
               client_secret_to_db c n u)) = Inr u' \<and> read_app (with_key c new) u' = read_app c v"
  using assms(3)
proof
  assume "v = JNull"
  then show ?thesis
    by (simp add: client_secret_from_db_def client_secret_to_db_def encrypt_value_def encrypt_field_def
        field_value_def read_app_def)
next
  assume "\<exists>s. v = JStr s"
  then obtain s where s: "v = JStr s" by blast
  have r: "\<exists>t. client_secret_from_db c v = Inr (JStr t)"
    using assms(4) s by (auto simp: read_app_def client_secret_from_db_def readable_def split: if_splits sum.splits)
      (metis map_sum.simps(2) sum.exhaust map_sum.simps(1) Inr_not_Inl)
  then obtain t where t: "client_secret_from_db c v = Inr (JStr t)" "\<not> startswith t encrypted_mark"
    using assms(4) by (auto simp: read_app_def readable_def)
  from encrypt_value_opens [OF assms(1) plain_text_JStr [OF t(2)], of n "Some new"] obtain u where
    u: "encrypt_value c n (JStr t) None (Some new) = Inr u"
      "opens c (get_encryption_key c ''value'' None (Some new)) u t" by blast
  then obtain z where z: "u = JStr z" "z = [] \<longleftrightarrow> t = []" "z = [] \<or> startswith z encrypted_mark"
    by (auto simp: opens_def)
  have to: "client_secret_to_db c n u = Inr u"
    using z(3) unfolding z(1)
    by (cases "z = []") (simp_all add: client_secret_to_db_def encrypt_value_def encrypt_field_def field_value_def)
  have "read_app (with_key c new) u = Inr t"
    using u(2) z assms(2)
    by (cases "z = []") (simp_all add: read_app_def client_secret_from_db_def opens_def open_value_def key_of_new)
  with t u(1) to show ?thesis by (intro exI [of _ u]) (simp add: read_app_def)
qed

lemma question_reads:
  assumes "crypto_ok c" and "new \<noteq> []" and "readable (read_question c q)"
  shows "\<exists>q'. rotate_question c iv new q = Inr q' \<and> read_question (with_key c new) q' = read_question c q"
proof (cases "sq_type q = ''password'' \<and> json_true (sq_default q)")
  case False
  then show ?thesis by (auto simp: rotate_question_def read_question_def)
next
  case True
  with assms(3) obtain t where t: "decrypt_answer c None (sq_default q) = Inr t" "\<not> startswith t encrypted_mark"
    by (auto simp: readable_def read_question_def)
  from encrypt_value_opens [OF assms(1) plain_text_JStr [OF t(2)], of "iv AtSurvey" "Some new"] obtain u where
    u: "encrypt_value c (iv AtSurvey) (JStr t) None (Some new) = Inr u"
      "opens c (get_encryption_key c ''value'' None (Some new)) u t" by blast
  show ?thesis
    using True t u(1) opens_answer [OF u(2) assms(2)]
    by (intro exI [of _ "q\<lparr>sq_default := u\<rparr>"]) (simp add: rotate_question_def read_question_def split: if_splits)
qed

lemma answers_reads:
  assumes "crypto_ok c" and "new \<noteq> []" and "distinct (vr_password_keys j)"
    and "list_all readable (read_answers c j)"
  shows "\<exists>j'. and_then (steps (rotate_answer c iv new) (vr_password_keys j) (vr_extra_vars j))
                 (\<lambda>d. Inr (j\<lparr>vr_extra_vars := d\<rparr>)) = Inr j' \<and>
           read_answers (with_key c new) j' = read_answers c j"
proof -
  from all_readable [OF assms(4) [unfolded read_answers_def]] obtain T where
    T: "\<And>f. f \<in> set (vr_password_keys j) \<Longrightarrow>
      read_answer c (vr_extra_vars j) f = Inr (T f) \<and> \<not> startswith (T f) encrypted_mark" by blast
  from answer.every_field [of c new "vr_password_keys j" "vr_extra_vars j" T iv] assms T obtain d where
    "steps (rotate_answer c iv new) (vr_password_keys j) (vr_extra_vars j) = Inr d"
    "\<forall>f \<in> set (vr_password_keys j). read_answer (with_key c new) d f = Inr (T f)" by blast
  with T show ?thesis by (auto simp: read_answers_def)
qed

lemma regenerate_reads:
  assumes c: "crypto_ok c" and n: "new \<noteq> []" and ok: "vault_ok w" and r: "list_all readable (visited_secrets c w)"
  shows "\<exists>w'. regenerate_secret_key c iv new w = Inr w' \<and>
    visited_secrets (with_key c new) w' = visited_secrets c w \<and> va_launch_configs w' = va_launch_configs w"
proof -
  note ok = ok [unfolded vault_ok_def list_all_iff]
  note r = r [unfolded visited_secrets_def list_all_append]
  have "\<exists>y. notification_templates c iv new (va_notifications w) = Inr y \<and>
      map (read_notification (with_key c new)) y = map (read_notification c) (va_notifications w)"
    unfolding notification_templates_def using r ok
    by (intro each_reads notification_reads [OF c n]) (auto simp: list_all_iff)
  then obtain ns where ns: "notification_templates c iv new (va_notifications w) = Inr ns"
      "map (read_notification (with_key c new)) ns = map (read_notification c) (va_notifications w)" by blast
  have "\<exists>y. rotate_credentials c iv new (va_credentials w) = Inr y \<and>
      map (read_credential (with_key c new)) y = map (read_credential c) (va_credentials w)"
    unfolding rotate_credentials_def using r ok
    by (intro each_reads credential_reads [OF c n]) (auto simp: list_all_iff)
  then obtain cs where cs: "rotate_credentials c iv new (va_credentials w) = Inr cs"
      "map (read_credential (with_key c new)) cs = map (read_credential c) (va_credentials w)" by blast
  have "\<exists>y. rotate_unified_jobs c iv new (va_unified w) = Inr y \<and>
      map (read_start_args (with_key c new)) y = map (read_start_args c) (va_unified w)"
    unfolding rotate_unified_jobs_def using r
    by (intro each_reads start_args_reads [OF c n]) (auto simp: list_all_iff)
  then obtain us where us: "rotate_unified_jobs c iv new (va_unified w) = Inr us"
      "map (read_start_args (with_key c new)) us = map (read_start_args c) (va_unified w)" by blast
  have "\<exists>y. oauth2_app_secrets c iv new (va_apps w) = Inr y \<and>
      map (read_app (with_key c new)) y = map (read_app c) (va_apps w)"
    unfolding oauth2_app_secrets_def using r ok
    by (intro each_reads app_reads [OF c n]) (auto simp: list_all_iff)
  then obtain as where as: "oauth2_app_secrets c iv new (va_apps w) = Inr as"
      "map (read_app (with_key c new)) as = map (read_app c) (va_apps w)" by blast
  have "\<exists>y. rotate_settings c iv new (va_settings w) = Inr y \<and>
      map (read_setting (with_key c new)) y = map (read_setting c) (va_settings w)"
    unfolding rotate_settings_def using r
    by (intro each_reads setting_reads [OF c n]) (auto simp: list_all_iff)
  then obtain ss where ss: "rotate_settings c iv new (va_settings w) = Inr ss"
      "map (read_setting (with_key c new)) ss = map (read_setting c) (va_settings w)" by blast
  have "\<exists>y. each (each (rotate_question c iv new)) (va_surveys w) = Inr y \<and>
      map (map (read_question (with_key c new))) y = map (map (read_question c)) (va_surveys w)"
    using r by (intro each_reads question_reads [OF c n]) (auto simp: list_all_iff)
  then obtain qs where qs: "each (each (rotate_question c iv new)) (va_surveys w) = Inr qs"
      "map (map (read_question (with_key c new))) qs = map (map (read_question c)) (va_surveys w)" by blast
  have "\<exists>y. each (\<lambda>j. and_then (steps (rotate_answer c iv new) (vr_password_keys j) (vr_extra_vars j))
              (\<lambda>d. Inr (j\<lparr>vr_extra_vars := d\<rparr>))) (va_survey_jobs w) = Inr y \<and>
      map (read_answers (with_key c new)) y = map (read_answers c) (va_survey_jobs w)"
    using r ok by (intro each_reads answers_reads [OF c n]) (auto simp: list_all_iff)
  then obtain js where js: "each (\<lambda>j. and_then (steps (rotate_answer c iv new) (vr_password_keys j) (vr_extra_vars j))
              (\<lambda>d. Inr (j\<lparr>vr_extra_vars := d\<rparr>))) (va_survey_jobs w) = Inr js"
      "map (read_answers (with_key c new)) js = map (read_answers c) (va_survey_jobs w)" by blast
  show ?thesis
    unfolding regenerate_secret_key_def survey_passwords_def
    by (simp add: ns cs us as ss qs js visited_secrets_def)
qed

lemma rotated_prompt:
  assumes "crypto_ok c" and "new \<noteq> []"
  shows "\<exists>s. startswith s encrypted_mark \<and>
     rotate_credential c iv new
       \<lparr>cr_pk = i, cr_kind = k, cr_inputs = [(''username'', JStr ''root''), (''password'', JStr ''ASK'')],
        cr_secret_fields = [''password''], cr_askable_fields = askable\<rparr> =
     Inr \<lparr>cr_pk = i, cr_kind = k, cr_inputs = [(''username'', JStr ''root''), (''password'', JStr s)],
        cr_secret_fields = [''password''], cr_askable_fields = askable\<rparr> \<and>
     open_value c (get_encryption_key c ''password'' (Some i) (Some new)) (JStr s) = Inr ''ASK''"
proof -
  let ?d = "[(''username'', JStr ''root''), (''password'', JStr ''ASK'')]"
  have np: "\<not> startswith ''ASK'' encrypted_mark" by (simp add: startswith_def encrypted_mark_def)
  have v: "field_value (credential_holder i ?d) ''password'' None = Inr (JStr ''ASK'')" by (simp add: input_value)
  from encrypt_opens [OF assms(1) v plain_text_JStr [OF np], of "iv (AtCredential i ''password'')" "Some new"]
  obtain u where u: "encrypt_field c (iv (AtCredential i ''password'')) (credential_holder i ?d) ''password'' False None (Some new) = Inr u"
    "opens c (get_encryption_key c ''password'' (Some i) (Some new)) u ''ASK''" by (auto simp: credential_holder_def)
  then obtain s where s: "u = JStr s" "s \<noteq> []" "startswith s encrypted_mark" by (auto simp: opens_def)
  have r: "rotate_input c iv new i ''password'' ?d = Inr [(''username'', JStr ''root''), (''password'', JStr s)]"
    using u(1) s(1) decrypt_field_open [OF v, of c None] np by (simp add: rotate_input_def open_value_def)
  have "save_inputs c iv i askable [''password''] [(''username'', JStr ''root''), (''password'', JStr s)] =
      Inr [(''username'', JStr ''root''), (''password'', JStr s)]"
    using s encrypt_marked [of _ "''password''" None s] by (simp add: save_inputs_def save_input_def input_value)
  with r s u(2) show ?thesis by (intro exI [of _ s]) (simp add: rotate_credential_def opens_def)
qed

text \<open>What was sealed with other keys, where the cipher refuses it.\<close>

lemma decrypt_sealed_other:
  assumes "crypto_ok c" and "(s, e) = fernet_keys c f pk k" and "fernet_decrypt c s e b = None"
  shows "decrypt_value c (get_encryption_key c f pk k) (sealed b) = Inl InvalidToken"
proof -
  let ?b = "b64encode b"
  have ascii: "\<not> list_ex (\<lambda>x. 128 \<le> code x) ?b" using b64encode_ascii by (auto simp: list_ex_iff not_le)
  have raw: "drop (length encrypted_mark) (encrypted_mark @ ''UTF8$'' @ ''AESCBC'' @ ''$'' @ ?b) = ''UTF8$AESCBC$'' @ ?b"
    by simp
  have keys: "fernet256_init (get_encryption_key c f pk k) = Inr (s, e)"
    using fernet256_init_key [OF assms(1)] assms(2) by simp
  show ?thesis
    unfolding sealed_append decrypt_value_def Let_def raw
    by (simp add: startswith_def ascii b64decode_encode keys assms(3))
qed

section \<open>Properties\<close>

text \<open>
  C28. Decrypting a field that holds the encryption of a value gives back the text of the value, for
  every value that is not null and does not itself begin with the mark of an encrypted text; the
  stored value carries the mark unless the text is empty or is the marker of a prompt.
\<close>

theorem encrypt_decrypt_field:
  assumes "crypto_ok c" and "v \<noteq> JNull" and "\<not> startswith (py_str (render c) v) encrypted_mark"
    and "field_value h f sub = Inr v" and "encrypt_field c n h f ask sub k = Inr u"
    and "field_value h' f sub = Inr u" and "holder_pk h' = holder_pk h"
  shows "decrypt_field c h' f sub k = Inr (py_str (render c) v) \<and>
    (is_encrypted u \<longleftrightarrow> py_str (render c) v \<noteq> [] \<and> \<not> (ask \<and> py_str (render c) v = ''ASK''))"
proof
  have p: "plain_text c v (py_str (render c) v)" using assms(2,3) by (simp add: plain_text_def)
  show "decrypt_field c h' f sub k = Inr (py_str (render c) v)"
    by (rule decrypt_field_encrypted [OF assms(1) p assms(4-7)])
  show "is_encrypted u \<longleftrightarrow> py_str (render c) v \<noteq> [] \<and> \<not> (ask \<and> py_str (render c) v = ''ASK'')"
    using encrypt_field_plain [OF assms(1,4) p, of n ask k] assms(3,5) sealed_marked(3)
    by (auto simp: split: if_splits)
qed

text \<open>
  C8. The change of the secret key, over the tables that the command visits (the parameters of
  notification templates, the secret inputs of credentials, the arguments of unified jobs, the
  client secrets of applications, the encrypted settings, the defaults of surveys and the answers
  kept with jobs). Suppose that in every row the names of the secret fields are distinct, that no
  secret input of a credential is null, that a client secret is a text or null, and that each
  secret can be read under the old key as a text that does not begin with the mark of an encrypted
  text. Then the command succeeds, and each of these secrets reads under the new key exactly as it
  read under the old one. The encrypted answers saved with schedules, workflow nodes and launch
  configurations are left as they were, so they stay encrypted under the old key.
\<close>

theorem regenerate_keeps_secrets:
  assumes "crypto_ok c" and "new \<noteq> []" and "vault_ok w" and "list_all readable (visited_secrets c w)"
  shows "\<exists>w'. regenerate_secret_key c iv new w = Inr w' \<and>
    visited_secrets (c\<lparr>secret_key_setting := new\<rparr>) w' = visited_secrets c w \<and>
    va_launch_configs w' = va_launch_configs w"
  by (rule regenerate_reads [OF assms])

text \<open>
  What this means for such a saved answer: if the cipher refuses under the new key what was
  encrypted under the old one, the answer read as its text before the command and cannot be
  decrypted after it.
\<close>

theorem saved_answer_lost:
  assumes "crypto_ok c" and "new \<noteq> []"
    and "\<And>n m. fernet_decrypt c (fst (fernet_keys c ''value'' None (Some new)))
        (snd (fernet_keys c ''value'' None (Some new)))
        (fernet_encrypt c n (fst (fernet_keys c ''value'' None None)) (snd (fernet_keys c ''value'' None None)) m) = None"
    and "t \<noteq> []" and "\<not> startswith t encrypted_mark"
    and "encrypt_value c n (JStr t) None None = Inr u" and "dict_get (vr_extra_vars r) k JNull = u"
  shows "read_answer c (vr_extra_vars r) k = Inr t \<and>
    read_answer (c\<lparr>secret_key_setting := new\<rparr>) (vr_extra_vars r) k = Inl InvalidToken"
proof
  obtain s e where k: "(s, e) = fernet_keys c ''value'' None None" by (metis surj_pair)
  obtain s' e' where k': "(s', e') = fernet_keys c ''value'' None (Some new)" by (metis surj_pair)
  let ?z = "sealed (fernet_encrypt c n s e (smart_bytes t))"
  have u: "u = JStr ?z"
    using assms(4-6) plain_text_JStr [OF assms(5), of c] k [symmetric]
      encrypt_field_plain [OF assms(1), of "\<lparr>holder_pk = None, holder_inputs = None, holder_attrs = [(''value'', JStr t)]\<rparr>"
        "''value''" None "JStr t" t n False None]
    by (simp add: encrypt_value_def field_value_def)
  have j: "json_true u" using u sealed_marked(2) by simp
  then show "read_answer c (vr_extra_vars r) k = Inr t"
    using assms(7) u decrypt_sealed [OF assms(1) k] by (simp add: read_answer_def decrypt_answer_def)
  have no: "fernet_decrypt c s' e' (fernet_encrypt c n s e (smart_bytes t)) = None"
    using assms(3) [of n "smart_bytes t"] k [symmetric] k' [symmetric] by simp
  show "read_answer (with_key c new) (vr_extra_vars r) k = Inl InvalidToken"
    using assms(7) u j decrypt_sealed_other [OF assms(1) k' no] assms(2)
    by (simp add: read_answer_def decrypt_answer_def key_of_new)
qed

text \<open>
  A credential whose password is asked at launch is stored with the marker \<open>ASK\<close> in plain. The
  command encrypts the marker like a password: afterwards the launch asks for nothing, and the
  connection uses the password \<open>ASK\<close>.
\<close>

theorem regenerate_loses_prompt:
  assumes "crypto_ok c" and "new \<noteq> []"
  shows "\<exists>r'. rotate_credential c iv new
            \<lparr>cr_pk = 1, cr_kind = ''ssh'', cr_inputs = [(''username'', JStr ''root''), (''password'', JStr ''ASK'')],
             cr_secret_fields = [''password''], cr_askable_fields = [''password'']\<rparr> = Inr r' \<and>
     credential_passwords_needed c e
            \<lparr>cr_pk = 1, cr_kind = ''ssh'', cr_inputs = [(''username'', JStr ''root''), (''password'', JStr ''ASK'')],
             cr_secret_fields = [''password''], cr_askable_fields = [''password'']\<rparr> = [''ssh_password''] \<and>
     credential_passwords_needed c e r' = [] \<and>
     decrypt_field (c\<lparr>secret_key_setting := new\<rparr>) (credential_holder 1 (cr_inputs r')) ''password'' None None = Inr ''ASK''"
proof -
  from rotated_prompt [OF assms, of iv 1 "''ssh''" "[''password'']"] obtain s where
    s: "startswith s encrypted_mark"
    and r: "rotate_credential c iv new
       \<lparr>cr_pk = 1, cr_kind = ''ssh'', cr_inputs = [(''username'', JStr ''root''), (''password'', JStr ''ASK'')],
        cr_secret_fields = [''password''], cr_askable_fields = [''password'']\<rparr> =
     Inr \<lparr>cr_pk = 1, cr_kind = ''ssh'', cr_inputs = [(''username'', JStr ''root''), (''password'', JStr s)],
        cr_secret_fields = [''password''], cr_askable_fields = [''password'']\<rparr>"
    and o: "open_value c (get_encryption_key c ''password'' (Some 1) (Some new)) (JStr s) = Inr ''ASK''" by blast
  have "s \<noteq> ''ASK''" using s by (auto simp: startswith_def encrypted_mark_def)
  let ?d = "[(''username'', JStr ''root''), (''password'', JStr s)]"
  have "field_value (credential_holder 1 ?d) ''password'' None = Inr (JStr s)" by (simp add: input_value)
  moreover have "holder_pk (credential_holder 1 ?d) = Some 1" by (simp add: credential_holder_def)
  ultimately have "decrypt_field (with_key c new) (credential_holder 1 ?d) ''password'' None None = Inr ''ASK''"
    using decrypt_field_open [of "credential_holder 1 ?d" "''password''" None "JStr s" "with_key c new" None] o
      assms(2) by (simp add: key_of_new)
  with r \<open>s \<noteq> ''ASK''\<close> show ?thesis
    by (intro exI [of _ "\<lparr>cr_pk = 1, cr_kind = ''ssh'', cr_inputs = ?d,
        cr_secret_fields = [''password''], cr_askable_fields = [''password'']\<rparr>"])
      (simp add: credential_passwords_needed_def needs_ssh_password_def needs_become_password_def
        needs_ssh_key_unlock_def needs_vault_password_def obj_get_def dict_get_def)
qed

section \<open>Witnesses\<close>

definition demo_holder :: "json \<Rightarrow> holder" where
  "demo_holder v = \<lparr>holder_pk = Some 7, holder_inputs = Some [(''password'', v)], holder_attrs = []\<rparr>"

definition demo_secret :: json where
  "demo_secret = projr (encrypt_field demo_crypto 0 (demo_holder (JStr ''hunter2'')) ''password'' False None None)"

lemma demo_secret: "encrypt_field demo_crypto 0 (demo_holder (JStr ''hunter2'')) ''password'' False None None = Inr demo_secret"
proof -
  have "field_value (demo_holder (JStr ''hunter2'')) ''password'' None = Inr (JStr ''hunter2'')"
    by (simp add: field_value_def demo_holder_def)
  from encrypt_field_total [OF demo_crypto_ok this]
  have "\<exists>u. encrypt_field demo_crypto 0 (demo_holder (JStr ''hunter2'')) ''password'' False None None = Inr u"
    by blast
  then show ?thesis by (auto simp: demo_secret_def)
qed

lemma demo_values: "field_value (demo_holder v) ''password'' None = Inr v" "holder_pk (demo_holder v) = Some 7"
  by (cases v, simp_all add: field_value_def demo_holder_def)

theorem encrypt_decrypt_field_witness:
  "decrypt_field demo_crypto (demo_holder demo_secret) ''password'' None None = Inr ''hunter2'' \<and> is_encrypted demo_secret"
  using encrypt_decrypt_field [OF demo_crypto_ok _ _ demo_values(1) demo_secret demo_values(1)]
  by (simp add: demo_values startswith_def encrypted_mark_def)

definition demo_vault :: vault where
  "demo_vault = \<lparr>va_notifications = [\<lparr>nr_pk = 3, nr_config = [(''token'', JStr ''t0k3n'')], nr_password_params = [''token'']\<rparr>],
     va_credentials = [\<lparr>cr_pk = 7, cr_kind = ''ssh'', cr_inputs = [(''password'', demo_secret)],
        cr_secret_fields = [''password'', ''ssh_key_data''], cr_askable_fields = [''password'']\<rparr>],
     va_unified = [\<lparr>ur_pk = 5, ur_start_args = ''{}''\<rparr>], va_apps = [JNull, JStr ''s3cret''],
     va_settings = [\<lparr>sr_pk = 1, sr_value = JStr ''pw'', sr_is_encrypted = True\<rparr>],
     va_surveys = [[\<lparr>sq_type = ''text'', sq_default = JStr ''x''\<rparr>]],
     va_survey_jobs = [\<lparr>vr_password_keys = [''pin''], vr_extra_vars = [(''region'', JStr ''eu'')]\<rparr>],
     va_launch_configs = [\<lparr>vr_password_keys = [''pin''], vr_extra_vars = [(''pin'', demo_secret)]\<rparr>]\<rparr>"

lemma demo_not_null: "demo_secret \<noteq> JNull"
  using encrypt_field_plain [OF demo_crypto_ok demo_values(1), of "JStr ''hunter2''" "''hunter2''" 0 False None]
    demo_secret
  by (auto simp: plain_text_def startswith_def encrypted_mark_def)

lemma demo_reads: "read_input demo_crypto 7 [(''password'', demo_secret)] ''password'' = Inr ''hunter2''"
  using decrypt_field_encrypted [OF demo_crypto_ok _ demo_values(1) demo_secret demo_values(1)]
  by (simp add: read_input_def demo_holder_def credential_holder_def plain_text_def startswith_def encrypted_mark_def)

lemma demo_vault_ok: "vault_ok demo_vault"
  by (simp add: vault_ok_def demo_vault_def demo_not_null)

lemma demo_readable: "list_all readable (visited_secrets demo_crypto demo_vault)"
  by (simp add: visited_secrets_def demo_vault_def read_notification_def read_param_open read_credential_def demo_reads
      read_start_args_def decrypt_field_open [OF attr_value] open_value_def startswith_def encrypted_mark_def
      read_app_def client_secret_from_db_def read_setting_def read_question_def read_answers_def read_answer_def
      dict_get_def readable_def)
    (simp add: read_input_def startswith_def encrypted_mark_def)

theorem regenerate_keeps_secrets_witness:
  "\<exists>w'. regenerate_secret_key demo_crypto (\<lambda>_. 0) ''new'' demo_vault = Inr w' \<and>
     visited_secrets (demo_crypto\<lparr>secret_key_setting := ''new''\<rparr>) w' = visited_secrets demo_crypto demo_vault \<and>
     va_launch_configs w' = va_launch_configs demo_vault"
  by (rule regenerate_keeps_secrets [OF demo_crypto_ok _ demo_vault_ok demo_readable]) simp

definition demo_answer :: json where
  "demo_answer = projr (encrypt_value demo_crypto 0 (JStr ''1234'') None None)"

lemma demo_answer: "encrypt_value demo_crypto 0 (JStr ''1234'') None None = Inr demo_answer"
proof -
  have "plain_text demo_crypto (JStr ''1234'') ''1234''"
    by (rule plain_text_JStr) (simp add: startswith_def encrypted_mark_def)
  from encrypt_value_opens [OF demo_crypto_ok this] show ?thesis
    unfolding demo_answer_def by (metis sum.sel(2))
qed

lemma demo_keys: "fst (fernet_keys demo_crypto ''value'' None None) = ''oldvalue'' @ replicate 24 CHR ''0''"
  "fst (fernet_keys demo_crypto ''value'' None (Some ''new'')) = ''newvalue'' @ replicate 24 CHR ''0''"
  by code_simp+

lemma startswith_differ: "a \<noteq> b \<Longrightarrow> \<not> startswith (a # x) (b # y)"
  by (simp add: startswith_def)

theorem saved_answer_lost_witness:
  "read_answer demo_crypto [(''pin'', demo_answer)] ''pin'' = Inr ''1234'' \<and>
   read_answer (demo_crypto\<lparr>secret_key_setting := ''new''\<rparr>) [(''pin'', demo_answer)] ''pin'' = Inl InvalidToken"
proof -
  have "fernet_decrypt demo_crypto (fst (fernet_keys demo_crypto ''value'' None (Some ''new'')))
      (snd (fernet_keys demo_crypto ''value'' None (Some ''new'')))
      (fernet_encrypt demo_crypto n (fst (fernet_keys demo_crypto ''value'' None None))
         (snd (fernet_keys demo_crypto ''value'' None None)) m) = None" for n m
    unfolding demo_keys by (simp add: demo_crypto_def startswith_differ)
  from saved_answer_lost [OF demo_crypto_ok _ this _ _ demo_answer,
      of "\<lparr>vr_password_keys = [''pin''], vr_extra_vars = [(''pin'', demo_answer)]\<rparr>" "''pin''"]
  show ?thesis by (simp add: dict_get_def startswith_def encrypted_mark_def)
qed

theorem regenerate_loses_prompt_witness:
  "\<exists>r'. rotate_credential demo_crypto (\<lambda>_. 0) ''new''
            \<lparr>cr_pk = 1, cr_kind = ''ssh'', cr_inputs = [(''username'', JStr ''root''), (''password'', JStr ''ASK'')],
             cr_secret_fields = [''password''], cr_askable_fields = [''password'']\<rparr> = Inr r' \<and>
     credential_passwords_needed demo_crypto False r' = []"
  using regenerate_loses_prompt [OF demo_crypto_ok, of "''new''" "\<lambda>_. 0" False] by blast

end
