(* ===== verification/Dependency_Manager.thy ===== *)
theory Dependency_Manager
  imports Prelude
begin

text \<open>
  The dependency manager of \<open>forail/main/scheduler/task_manager.py\<close>: before a pending job is given to
  the task manager it is linked to updates of its project and of the sources of its inventory, and
  updates that are missing or too old are created and started.

  Rows of jobs are kept in the order of \<open>created\<close>. The keys that \<open>start_args\<close> names as already
  updated are a field of the row, empty where the text cannot be parsed. The source's own check
  whether it can update (\<open>_can_update\<close>) is a field. An exception ends the run (\<open>None\<close>), and its
  transaction restores the rows. Locks, metrics and logs are not modelled.
\<close>

section \<open>State\<close>

record project_row =
  pj_id :: pk
  pj_update_on_launch :: bool
  pj_cache_timeout :: int

record source_row =
  so_id :: pk
  so_source :: string
  so_inventory :: pk
  so_update_on_launch :: bool
  so_cache_timeout :: int
  so_project :: "pk option"
  so_can_update :: bool

datatype row_kind =
    JobRow "pk option" "pk option" "pk list"
  | InventoryUpdateRow string "pk option"
  | ProjectUpdateRow "pk option" bool
  | ApprovalRow
  | OtherRow

record job_row =
  jr_id :: pk
  jr_kind :: row_kind
  jr_status :: job_status
  jr_finished :: "int option"
  jr_launch_type :: string
  jr_processed :: bool
  jr_dependent_jobs :: "pk list"

record dep_world =
  dw_projects :: "project_row list"
  dw_sources :: "source_row list"
  dw_rows :: "job_row list"
  dw_now :: int
  dw_all_projects :: "(pk \<times> project_row) list"
  dw_all_sources :: "(pk \<times> source_row list) list"

section \<open>The cache\<close>

definition find_source :: "dep_world \<Rightarrow> pk \<Rightarrow> source_row option" where
  "find_source w i = find (\<lambda>s. so_id s = i) (dw_sources w)"

definition set_keys :: "pk option \<Rightarrow> pk list" where
  "set_keys k = (case k of None \<Rightarrow> [] | Some i \<Rightarrow> if i = 0 then [] else [i])"

definition project_ids :: "dep_world \<Rightarrow> job_row \<Rightarrow> pk list" where
  "project_ids w t =
     (case jr_kind t of
        JobRow p i a \<Rightarrow> set_keys p
      | InventoryUpdateRow s src \<Rightarrow>
          (case src of None \<Rightarrow> []
           | Some i \<Rightarrow> (case find_source w i of None \<Rightarrow> [] | Some r \<Rightarrow> set_keys (so_project r)))
      | _ \<Rightarrow> [])"

definition inventory_ids :: "job_row \<Rightarrow> pk list" where
  "inventory_ids t = (case jr_kind t of JobRow p i a \<Rightarrow> set_keys i | _ \<Rightarrow> [])"

definition add_source :: "source_row \<Rightarrow> (pk \<times> source_row list) list \<Rightarrow> (pk \<times> source_row list) list" where
  "add_source s d = AList.update (so_inventory s) (dict_get d (so_inventory s) [] @ [s]) d"

definition cache_projects_and_sources :: "job_row list \<Rightarrow> dep_world \<Rightarrow> dep_world" where
  "cache_projects_and_sources task_list w =
     (let ps = concat (map (project_ids w) task_list); invs = concat (map inventory_ids task_list)
      in w\<lparr>dw_all_projects := fold (\<lambda>p. AList.update (pj_id p) p)
              (filter (\<lambda>p. pj_id p \<in> set ps \<and> pj_update_on_launch p) (dw_projects w)) (dw_all_projects w),
           dw_all_sources := fold add_source
              (filter (\<lambda>s. so_inventory s \<in> set invs \<and> so_update_on_launch s) (dw_sources w)) (dw_all_sources w)\<rparr>)"

section \<open>Updates\<close>

text \<open>\<open>None\<close>: an update that has not finished has no time to add the timeout to, which raises.\<close>

definition should_update_again :: "int \<Rightarrow> job_row option \<Rightarrow> int \<Rightarrow> bool option" where
  "should_update_again now update cache_timeout =
     (case update of
        None \<Rightarrow> Some True
      | Some u \<Rightarrow>
          if jr_status u \<in> {Failed, Canceled, Errored} then Some True
          else if jr_status u \<in> {Waiting, Pending, Running} then Some False
          else map_option (\<lambda>f. f + cache_timeout < now) (jr_finished u))"

text \<open>\<open>order_by(''-created'').first()\<close>.\<close>

definition latest :: "(job_row \<Rightarrow> bool) \<Rightarrow> dep_world \<Rightarrow> job_row option" where
  "latest P w = find P (rev (dw_rows w))"

definition is_project_check :: "pk \<Rightarrow> job_row \<Rightarrow> bool" where
  "is_project_check p r \<longleftrightarrow> jr_kind r = ProjectUpdateRow (Some p) True"

fun is_source_update :: "pk \<Rightarrow> row_kind \<Rightarrow> bool" where
  "is_source_update i (InventoryUpdateRow s (Some j)) = (i = j)"
| "is_source_update i _ = False"

definition fresh_pk :: "dep_world \<Rightarrow> pk" where
  "fresh_pk w = Suc (fold max (map jr_id (dw_rows w)) 0)"

definition add_row :: "job_row \<Rightarrow> dep_world \<Rightarrow> dep_world" where
  "add_row r w = w\<lparr>dw_rows := dw_rows w @ [r]\<rparr>"

text \<open>
  A new project update has its dependencies processed from the start, and nothing keeps
  \<open>signal_start\<close> from making it pending.
\<close>

definition new_project_update :: "dep_world \<Rightarrow> pk \<Rightarrow> job_row" where
  "new_project_update w p =
     \<lparr>jr_id = fresh_pk w, jr_kind = ProjectUpdateRow (Some p) True, jr_status = Pending, jr_finished = None,
      jr_launch_type = ''dependency'', jr_processed = True, jr_dependent_jobs = []\<rparr>"

text \<open>An inventory update whose source cannot update is created but not started.\<close>

definition new_inventory_update :: "dep_world \<Rightarrow> string \<Rightarrow> source_row \<Rightarrow> job_row" where
  "new_inventory_update w source s =
     \<lparr>jr_id = fresh_pk w, jr_kind = InventoryUpdateRow source (Some (so_id s)),
      jr_status = (if so_can_update s then Pending else New), jr_finished = None,
      jr_launch_type = ''dependency'', jr_processed = False, jr_dependent_jobs = []\<rparr>"

text \<open>The updates of a task, each with the flag \<open>dependencies_processed\<close> that was read with it.\<close>

type_synonym deps = "(pk \<times> bool) list"

definition row_dep :: "job_row \<Rightarrow> pk \<times> bool" where
  "row_dep r = (jr_id r, jr_processed r)"

definition get_or_create_project_update :: "pk option \<Rightarrow> dep_world \<Rightarrow> (deps \<times> dep_world) option" where
  "get_or_create_project_update project_id w =
     (case project_id of
        None \<Rightarrow> Some ([], w)
      | Some i \<Rightarrow>
          (case map_of (dw_all_projects w) i of
             None \<Rightarrow> Some ([], w)
           | Some p \<Rightarrow>
               (let last_update = latest (is_project_check i) w
                in case should_update_again (dw_now w) last_update (pj_cache_timeout p) of
                     None \<Rightarrow> None
                   | Some True \<Rightarrow>
                       (let r = new_project_update w i in Some ([row_dep r], add_row r w))
                   | Some False \<Rightarrow> Some (map row_dep (case last_update of None \<Rightarrow> [] | Some u \<Rightarrow> [u]), w))))"

definition get_or_create_inventory_update ::
  "pk list \<Rightarrow> source_row \<Rightarrow> deps \<times> dep_world \<Rightarrow> (deps \<times> dep_world) option" where
  "get_or_create_inventory_update already s = (\<lambda>(ds, w).
     if so_id s \<in> set already then Some (ds, w)
     else
       (let last_update = latest (\<lambda>r. is_source_update (so_id s) (jr_kind r)) w
        in case should_update_again (dw_now w) last_update (so_cache_timeout s) of
             None \<Rightarrow> None
           | Some True \<Rightarrow>
               (let r = new_inventory_update w (so_source s) s in Some (ds @ [row_dep r], add_row r w))
           | Some False \<Rightarrow> Some (ds @ map row_dep (case last_update of None \<Rightarrow> [] | Some u \<Rightarrow> [u]), w)))"

fun source_updates ::
  "pk list \<Rightarrow> source_row list \<Rightarrow> deps \<times> dep_world \<Rightarrow> (deps \<times> dep_world) option" where
  "source_updates already [] st = Some st"
| "source_updates already (s # ss) st =
     (case get_or_create_inventory_update already s st of
        None \<Rightarrow> None
      | Some st' \<Rightarrow> source_updates already ss st')"

definition gen_dep_for_job ::
  "pk option \<Rightarrow> pk option \<Rightarrow> pk list \<Rightarrow> dep_world \<Rightarrow> (deps \<times> dep_world) option" where
  "gen_dep_for_job project inventory already w =
     (case get_or_create_project_update project w of
        None \<Rightarrow> None
      | Some st \<Rightarrow>
          source_updates already
            (case inventory of None \<Rightarrow> [] | Some i \<Rightarrow> dict_get (dw_all_sources w) i []) st)"

definition gen_dep_for_inventory_update ::
  "string \<Rightarrow> pk option \<Rightarrow> dep_world \<Rightarrow> (deps \<times> dep_world) option" where
  "gen_dep_for_inventory_update source src w =
     (if source = ''scm'' then
        (case src of None \<Rightarrow> Some ([], w)
         | Some i \<Rightarrow>
             (case find_source w i of None \<Rightarrow> Some ([], w)
              | Some s \<Rightarrow> get_or_create_project_update (so_project s) w))
      else Some ([], w))"

section \<open>A pass\<close>

definition edit_row :: "pk \<Rightarrow> (job_row \<Rightarrow> job_row) \<Rightarrow> dep_world \<Rightarrow> dep_world" where
  "edit_row i f w = w\<lparr>dw_rows := map (\<lambda>r. if jr_id r = i then f r else r) (dw_rows w)\<rparr>"

definition link_deps :: "pk \<Rightarrow> pk list \<Rightarrow> dep_world \<Rightarrow> dep_world" where
  "link_deps i ids =
     edit_row i (\<lambda>r. r\<lparr>jr_dependent_jobs := jr_dependent_jobs r @
       filter (\<lambda>d. d \<notin> set (jr_dependent_jobs r)) (remdups ids)\<rparr>)"

text \<open>One round of the loop. The links are made to all the dependencies of the pass so far.\<close>

definition task_deps :: "job_row \<Rightarrow> dep_world \<Rightarrow> (deps \<times> dep_world) option" where
  "task_deps t w =
     (case jr_kind t of
        JobRow p i already \<Rightarrow> gen_dep_for_job p i already w
      | InventoryUpdateRow s src \<Rightarrow> gen_dep_for_inventory_update s src w
      | _ \<Rightarrow> Some ([], w))"

definition generate_step ::
  "job_row \<Rightarrow> deps \<times> dep_world \<Rightarrow> (deps \<times> dep_world) option" where
  "generate_step t = (\<lambda>(deps, w).
     case task_deps t w of
       None \<Rightarrow> None
     | Some (job_deps, w1) \<Rightarrow>
         if job_deps = [] then Some (deps, w1)
         else (let deps' = deps @ job_deps in Some (deps', link_deps (jr_id t) (map fst deps') w1)))"

fun generate_loop ::
  "job_row list \<Rightarrow> deps \<times> dep_world \<Rightarrow> (deps \<times> dep_world) option" where
  "generate_loop [] st = Some st"
| "generate_loop (t # ts) st =
     (case generate_step t st of None \<Rightarrow> None | Some st' \<Rightarrow> generate_loop ts st')"

definition mark_processed :: "pk list \<Rightarrow> dep_world \<Rightarrow> dep_world" where
  "mark_processed ids w =
     w\<lparr>dw_rows := map (\<lambda>r. if jr_id r \<in> set ids then r\<lparr>jr_processed := True\<rparr> else r) (dw_rows w)\<rparr>"

definition generate_dependencies ::
  "job_row list \<Rightarrow> dep_world \<Rightarrow> (deps \<times> dep_world) option" where
  "generate_dependencies undeped_tasks w =
     (case generate_loop undeped_tasks ([], cache_projects_and_sources undeped_tasks w) of
        None \<Rightarrow> None
      | Some (deps, w1) \<Rightarrow> Some (deps, mark_processed (map jr_id undeped_tasks) w1))"

definition undeped_tasks :: "dep_world \<Rightarrow> job_row list" where
  "undeped_tasks w = filter (\<lambda>r. jr_status r = Pending \<and> \<not> jr_processed r \<and>
     jr_launch_type r \<noteq> ''sync'' \<and> jr_kind r \<noteq> ApprovalRow) (dw_rows w)"

text \<open>The run starts with an empty cache.\<close>

definition dependency_schedule :: "dep_world \<Rightarrow> dep_world option" where
  "dependency_schedule w0 =
     (let w = w0\<lparr>dw_all_projects := [], dw_all_sources := []\<rparr>; tasks = undeped_tasks w
      in if tasks = [] then Some w
         else case generate_dependencies tasks w of
           None \<Rightarrow> None
         | Some (deps, w1) \<Rightarrow>
             map_option snd
               (generate_dependencies
                 (concat (map (\<lambda>(i, p). if p then [] else filter (\<lambda>r. jr_id r = i) (dw_rows w1)) deps)) w1))"

end
