(* ===== verification/Dependency_Correct.thy ===== *)
theory Dependency_Correct
  imports Dependency_Manager
begin

text \<open>
  Correctness of the dependency manager: after a run every job that was waiting for its dependencies
  is linked to a current update of its project and of each source of its inventory, and a run
  creates at most one update of each. Two runs are shown in which it goes wrong.
\<close>

section \<open>Rows only grow\<close>

text \<open>A pass changes of a row only its links and its flag; new rows come last.\<close>

definition core :: "job_row \<Rightarrow> pk \<times> row_kind \<times> job_status \<times> int option" where
  "core r = (jr_id r, jr_kind r, jr_status r, jr_finished r)"

definition kept :: "job_row \<Rightarrow> job_row \<Rightarrow> bool" where
  "kept r r' \<longleftrightarrow> core r' = core r \<and> set (jr_dependent_jobs r) \<subseteq> set (jr_dependent_jobs r') \<and>
     (jr_processed r \<longrightarrow> jr_processed r')"

definition grows :: "dep_world \<Rightarrow> dep_world \<Rightarrow> bool" where
  "grows w w' \<longleftrightarrow> dw_now w' = dw_now w \<and> dw_projects w' = dw_projects w \<and> dw_sources w' = dw_sources w \<and>
     (\<exists>old new. dw_rows w' = old @ new \<and> list_all2 kept (dw_rows w) old)"

definition same_cache :: "dep_world \<Rightarrow> dep_world \<Rightarrow> bool" where
  "same_cache w w' \<longleftrightarrow> dw_all_projects w' = dw_all_projects w \<and> dw_all_sources w' = dw_all_sources w"

lemma kept_refl [simp]: "kept r r"
  by (simp add: kept_def)

lemma kept_trans: "kept a b \<Longrightarrow> kept b c \<Longrightarrow> kept a c"
  by (auto simp: kept_def)

lemma growsI:
  assumes "dw_now w' = dw_now w" and "dw_projects w' = dw_projects w" and "dw_sources w' = dw_sources w"
    and "dw_rows w' = old @ new" and "list_all2 kept (dw_rows w) old"
  shows "grows w w'"
  using assms unfolding grows_def by blast

lemma kept_all [simp]: "list_all2 kept rs rs"
  by (simp add: list_all2_refl)

lemma grows_refl [simp]: "grows w w"
  by (rule growsI [of _ _ "dw_rows w" "[]"]) simp_all

lemma grows_trans:
  assumes "grows a b" and "grows b c"
  shows "grows a c"
proof -
  from assms(1) obtain o1 n1 where 1: "dw_rows b = o1 @ n1" "list_all2 kept (dw_rows a) o1"
    by (auto simp: grows_def)
  from assms(2) obtain o2 n2 where 2: "dw_rows c = o2 @ n2" "list_all2 kept (dw_rows b) o2"
    by (auto simp: grows_def)
  from 2(2) 1(1) obtain x y where xy: "o2 = x @ y" "list_all2 kept o1 x"
    by (auto simp: list_all2_append1)
  have "list_all2 kept (dw_rows a) x" by (rule list_all2_trans [OF _ 1(2) xy(2)]) (rule kept_trans)
  with 2(1) xy(1) assms show ?thesis unfolding grows_def by auto
qed

lemma same_cache_refl [simp]: "same_cache w w"
  by (simp add: same_cache_def)

lemma same_cache_trans: "same_cache a b \<Longrightarrow> same_cache b c \<Longrightarrow> same_cache a c"
  by (simp add: same_cache_def)

lemma grows_row:
  assumes "grows w w'" and "r \<in> set (dw_rows w)"
  shows "\<exists>r' \<in> set (dw_rows w'). kept r r'"
proof -
  from assms(1) obtain old new where o: "dw_rows w' = old @ new" "list_all2 kept (dw_rows w) old"
    by (auto simp: grows_def)
  from assms(2) obtain i where i: "i < length (dw_rows w)" "r = dw_rows w ! i" by (auto simp: in_set_conv_nth)
  then have "kept r (old ! i)" "old ! i \<in> set old"
    using o(2) by (auto simp: list_all2_conv_all_nth)
  with o(1) show ?thesis by auto
qed

lemma grows_add_row: "grows w (add_row r w) \<and> same_cache w (add_row r w)"
  using growsI [of "add_row r w" w "dw_rows w" "[r]"] by (simp add: add_row_def same_cache_def)

lemma list_all2_map_kept: "(\<And>r. kept r (f r)) \<Longrightarrow> list_all2 kept rs (map f rs)"
  by (induction rs) simp_all

lemma grows_map_rows:
  assumes "\<And>r. kept r (f r)"
  shows "grows w (w\<lparr>dw_rows := map f (dw_rows w)\<rparr>)"
  by (rule growsI [of _ _ "map f (dw_rows w)" "[]"]) (simp_all add: list_all2_map_kept assms)

lemma grows_link: "grows w (link_deps i ids w) \<and> same_cache w (link_deps i ids w)"
  unfolding link_deps_def edit_row_def
  by (auto simp: same_cache_def kept_def core_def intro!: grows_map_rows)

lemma grows_mark: "grows w (mark_processed ids w)"
  unfolding mark_processed_def by (auto simp: kept_def core_def intro!: grows_map_rows)

lemma grows_cache: "grows w (cache_projects_and_sources ts w)"
  by (rule growsI [of _ _ "dw_rows w" "[]"]) (simp_all add: cache_projects_and_sources_def Let_def)

section \<open>Current updates\<close>

definition current :: "int \<Rightarrow> int \<Rightarrow> job_row \<Rightarrow> bool" where
  "current now cache_timeout r \<longleftrightarrow>
     jr_status r \<in> {Waiting, Pending, Running} \<or>
     (jr_status r \<notin> {Failed, Canceled, Errored} \<and> (\<exists>f. jr_finished r = Some f \<and> now \<le> f + cache_timeout))"

lemma should_update_again_False:
  "should_update_again now u t = Some False \<longleftrightarrow> (\<exists>r. u = Some r \<and> current now t r)"
  by (cases u) (auto simp: should_update_again_def current_def)

lemma current_core: "core r' = core r \<Longrightarrow> current now t r' = current now t r"
  by (simp add: core_def current_def)

text \<open>A dependency of the list serves a condition on kinds.\<close>

definition served :: "(row_kind \<Rightarrow> bool) \<Rightarrow> int \<Rightarrow> pk set \<Rightarrow> dep_world \<Rightarrow> bool" where
  "served K t ids w \<longleftrightarrow> (\<exists>u \<in> set (dw_rows w). jr_id u \<in> ids \<and> K (jr_kind u) \<and> current (dw_now w) t u)"

lemma served_grows: "served K t ids w \<Longrightarrow> grows w w' \<Longrightarrow> ids \<subseteq> ids' \<Longrightarrow> served K t ids' w'"
  unfolding served_def
proof (elim bexE)
  fix u assume w: "grows w w'" and ids: "ids \<subseteq> ids'" and u: "u \<in> set (dw_rows w)"
    "jr_id u \<in> ids \<and> K (jr_kind u) \<and> current (dw_now w) t u"
  from grows_row [OF w u(1)] obtain u' where u': "u' \<in> set (dw_rows w')" "core u' = core u"
    by (auto simp: kept_def)
  have "dw_now w' = dw_now w" using w by (simp add: grows_def)
  with u u' ids current_core [OF u'(2)] show "\<exists>u \<in> set (dw_rows w'). jr_id u \<in> ids' \<and> K (jr_kind u) \<and> current (dw_now w') t u"
    by (intro bexI [OF _ u'(1)]) (auto simp: core_def)
qed

lemma latest_Some: "latest P w = Some u \<Longrightarrow> u \<in> set (dw_rows w) \<and> P u"
  by (auto simp: latest_def find_Some_iff rev_nth)

lemma project_update_cases:
  assumes "get_or_create_project_update pid w = Some (ds, w')"
  obtains (none) "ds = []" "w' = w" "pid = None \<or> map_of (dw_all_projects w) (the pid) = None"
  | (reuse) i p u where "pid = Some i" "map_of (dw_all_projects w) i = Some p" "w' = w" "ds = [row_dep u]"
      "latest (is_project_check i) w = Some u" "current (dw_now w) (pj_cache_timeout p) u"
  | (create) i p where "pid = Some i" "map_of (dw_all_projects w) i = Some p"
      "w' = add_row (new_project_update w i) w" "ds = [row_dep (new_project_update w i)]"
      "should_update_again (dw_now w) (latest (is_project_check i) w) (pj_cache_timeout p) = Some True"
proof (cases pid)
  case None
  with assms none show ?thesis by (simp add: get_or_create_project_update_def)
next
  case (Some i)
  show ?thesis
  proof (cases "map_of (dw_all_projects w) i")
    case None
    with Some assms none show ?thesis by (simp add: get_or_create_project_update_def)
  next
    case (Some p)
    let ?a = "should_update_again (dw_now w) (latest (is_project_check i) w) (pj_cache_timeout p)"
    consider "?a = None" | "?a = Some True" | "?a = Some False" by (cases ?a) auto
    then show ?thesis
    proof cases
      case 1
      with assms Some \<open>pid = Some i\<close> show ?thesis by (simp add: get_or_create_project_update_def Let_def)
    next
      case 2
      with assms Some \<open>pid = Some i\<close> create show ?thesis by (simp add: get_or_create_project_update_def Let_def)
    next
      case 3
      then obtain u where u: "latest (is_project_check i) w = Some u" "current (dw_now w) (pj_cache_timeout p) u"
        by (auto simp: should_update_again_False)
      have e: "Some ([row_dep u], w) = Some (ds, w')"
        using 3 assms Some \<open>pid = Some i\<close> u(1) by (simp add: get_or_create_project_update_def Let_def)
      show ?thesis by (rule reuse [OF \<open>pid = Some i\<close> Some _ _ u]) (use e in simp_all)
    qed
  qed
qed

lemma project_update_grows:
  "get_or_create_project_update pid w = Some (ds, w') \<Longrightarrow> grows w w' \<and> same_cache w w'"
  by (erule project_update_cases) (simp_all add: grows_add_row)

lemma project_update_served:
  assumes "get_or_create_project_update (Some i) w = Some (ds, w')" and "map_of (dw_all_projects w) i = Some p"
  shows "served (\<lambda>k. k = ProjectUpdateRow (Some i) True) (pj_cache_timeout p) (fst ` set ds) w'"
  using assms(1)
proof (cases rule: project_update_cases)
  case none
  with assms(2) show ?thesis by simp
next
  case (reuse j q u)
  with assms(2) latest_Some [OF reuse(5)] show ?thesis
    by (auto simp: served_def row_dep_def is_project_check_def)
next
  case (create j q)
  then show ?thesis
    by (auto simp: served_def row_dep_def add_row_def new_project_update_def current_def)
qed

lemma inventory_update_cases:
  assumes "get_or_create_inventory_update already s (ds, w) = Some (ds', w')"
  obtains (skip) "so_id s \<in> set already" "ds' = ds" "w' = w"
  | (reuse) u where "so_id s \<notin> set already" "w' = w" "ds' = ds @ [row_dep u]"
      "latest (\<lambda>r. is_source_update (so_id s) (jr_kind r)) w = Some u" "current (dw_now w) (so_cache_timeout s) u"
  | (create) "so_id s \<notin> set already" "w' = add_row (new_inventory_update w (so_source s) s) w"
      "ds' = ds @ [row_dep (new_inventory_update w (so_source s) s)]"
      "should_update_again (dw_now w) (latest (\<lambda>r. is_source_update (so_id s) (jr_kind r)) w) (so_cache_timeout s) = Some True"
proof (cases "so_id s \<in> set already")
  case True
  with assms skip show ?thesis by (simp add: get_or_create_inventory_update_def)
next
  case False
  let ?l = "latest (\<lambda>r. is_source_update (so_id s) (jr_kind r)) w"
  let ?a = "should_update_again (dw_now w) ?l (so_cache_timeout s)"
  consider "?a = None" | "?a = Some True" | "?a = Some False" by (cases ?a) auto
  then show ?thesis
  proof cases
    case 1
    with assms False show ?thesis by (simp add: get_or_create_inventory_update_def Let_def)
  next
    case 2
    with assms False create show ?thesis by (simp add: get_or_create_inventory_update_def Let_def)
  next
    case 3
    then obtain u where u: "?l = Some u" "current (dw_now w) (so_cache_timeout s) u"
      by (auto simp: should_update_again_False)
    have e: "Some (ds @ [row_dep u], w) = Some (ds', w')"
      using 3 assms False u(1) by (simp add: get_or_create_inventory_update_def Let_def)
    show ?thesis by (rule reuse [OF False _ _ u]) (use e in simp_all)
  qed
qed

lemma inventory_update_served:
  assumes "get_or_create_inventory_update already s (ds, w) = Some (ds', w')"
  shows "grows w w' \<and> same_cache w w' \<and> set ds \<subseteq> set ds' \<and>
    (so_id s \<notin> set already \<and> so_can_update s \<longrightarrow>
       served (is_source_update (so_id s)) (so_cache_timeout s) (fst ` set ds') w')"
  using assms
proof (cases rule: inventory_update_cases)
  case skip
  then show ?thesis by simp
next
  case (reuse u)
  with latest_Some [OF reuse(4)] show ?thesis by (auto simp: served_def row_dep_def)
next
  case create
  have "served (is_source_update (so_id s)) (so_cache_timeout s) (fst ` set ds') w'" if "so_can_update s"
    using that unfolding served_def create
    by (intro bexI [of _ "new_inventory_update w (so_source s) s"])
      (simp_all add: row_dep_def new_inventory_update_def current_def add_row_def)
  with create grows_add_row show ?thesis by auto
qed

lemma source_updates_served:
  "source_updates already ss (ds, w) = Some (ds', w') \<Longrightarrow>
     grows w w' \<and> same_cache w w' \<and> set ds \<subseteq> set ds' \<and>
     (\<forall>s \<in> set ss. so_id s \<notin> set already \<and> so_can_update s \<longrightarrow>
        served (is_source_update (so_id s)) (so_cache_timeout s) (fst ` set ds') w')"
proof (induction ss arbitrary: ds w)
  case (Cons s ss)
  from Cons.prems obtain d1 w1 where
    1: "get_or_create_inventory_update already s (ds, w) = Some (d1, w1)"
    and 2: "source_updates already ss (d1, w1) = Some (ds', w')"
    by (auto split: option.splits)
  note s1 = inventory_update_served [OF 1] and s2 = Cons.IH [OF 2]
  have "grows w w'" using s1 s2 grows_trans by blast
  moreover have "same_cache w w'" using s1 s2 same_cache_trans by blast
  moreover have "served (is_source_update (so_id s)) (so_cache_timeout s) (fst ` set ds') w'"
    if "so_id s \<notin> set already" "so_can_update s"
    using that s1 s2 by (blast intro: served_grows image_mono)
  ultimately show ?case using s1 s2 by auto
qed simp

section \<open>A pass\<close>

definition linked :: "(row_kind \<Rightarrow> bool) \<Rightarrow> int \<Rightarrow> pk \<Rightarrow> dep_world \<Rightarrow> bool" where
  "linked K t i w \<longleftrightarrow> (\<exists>r \<in> set (dw_rows w). jr_id r = i \<and> served K t (set (jr_dependent_jobs r)) w)"

lemma linked_grows:
  assumes "linked K t i w" and "grows w w'"
  shows "linked K t i w'"
proof -
  from assms(1) obtain r where r: "r \<in> set (dw_rows w)" "jr_id r = i" "served K t (set (jr_dependent_jobs r)) w"
    by (auto simp: linked_def)
  from grows_row [OF assms(2) r(1)] obtain r' where r': "r' \<in> set (dw_rows w')" "jr_id r' = jr_id r"
    "set (jr_dependent_jobs r) \<subseteq> set (jr_dependent_jobs r')" by (auto simp: kept_def core_def)
  with served_grows [OF r(3) assms(2) r'(3)] r(2) show ?thesis by (auto simp: linked_def)
qed

lemma link_deps_linked:
  assumes "served K t (set ids) w" and "r \<in> set (dw_rows w)" and "jr_id r = i"
  shows "linked K t i (link_deps i ids w)"
proof -
  let ?r = "r\<lparr>jr_dependent_jobs := jr_dependent_jobs r @ filter (\<lambda>d. d \<notin> set (jr_dependent_jobs r)) (remdups ids)\<rparr>"
  have "?r \<in> set (dw_rows (link_deps i ids w))"
    using assms(2,3) by (force simp: link_deps_def edit_row_def)
  moreover have "served K t (set (jr_dependent_jobs ?r)) (link_deps i ids w)"
    by (rule served_grows [OF assms(1) conjunct1 [OF grows_link]]) auto
  ultimately show ?thesis using assms(3) unfolding linked_def by (intro bexI [of _ ?r]) simp_all
qed

text \<open>What a cache promises to a row.\<close>

definition satisfied :: "dep_world \<Rightarrow> job_row \<Rightarrow> dep_world \<Rightarrow> bool" where
  "satisfied cache t w \<longleftrightarrow> (case jr_kind t of
     JobRow p i already \<Rightarrow>
       (\<forall>j q. p = Some j \<and> map_of (dw_all_projects cache) j = Some q \<longrightarrow>
          linked (\<lambda>k. k = ProjectUpdateRow (Some j) True) (pj_cache_timeout q) (jr_id t) w) \<and>
       (\<forall>j s. i = Some j \<and> s \<in> set (dict_get (dw_all_sources cache) j []) \<and> so_id s \<notin> set already \<and> so_can_update s \<longrightarrow>
          linked (is_source_update (so_id s)) (so_cache_timeout s) (jr_id t) w)
   | _ \<Rightarrow> True)"

lemma satisfied_grows: "satisfied c t w \<Longrightarrow> grows w w' \<Longrightarrow> satisfied c t w'"
  by (cases "jr_kind t") (auto simp: satisfied_def, blast intro: linked_grows, metis linked_grows)

lemma satisfied_cache: "same_cache c c' \<Longrightarrow> satisfied c' t w = satisfied c t w"
  by (simp add: satisfied_def same_cache_def split: row_kind.splits)

lemma task_deps_grows: "task_deps t w = Some (ds, w') \<Longrightarrow> grows w w' \<and> same_cache w w'"
proof (cases "jr_kind t")
  case (JobRow p i already)
  assume "task_deps t w = Some (ds, w')"
  with JobRow obtain d1 w1 where 1: "get_or_create_project_update p w = Some (d1, w1)"
    and 2: "source_updates already (case i of None \<Rightarrow> [] | Some j \<Rightarrow> dict_get (dw_all_sources w) j []) (d1, w1) = Some (ds, w')"
    by (auto simp: task_deps_def gen_dep_for_job_def split: option.splits)
  from project_update_grows [OF 1] source_updates_served [OF 2] show ?thesis
    by (blast intro: grows_trans same_cache_trans)
next
  case (InventoryUpdateRow source src)
  assume "task_deps t w = Some (ds, w')"
  with InventoryUpdateRow show ?thesis
    by (auto simp: task_deps_def gen_dep_for_inventory_update_def dest!: project_update_grows
        split: if_splits option.splits)
qed (auto simp: task_deps_def)

lemma job_deps_served:
  assumes "gen_dep_for_job p i already w = Some (ds, w')"
  shows "p = Some j \<Longrightarrow> map_of (dw_all_projects w) j = Some q \<Longrightarrow>
      served (\<lambda>k. k = ProjectUpdateRow (Some j) True) (pj_cache_timeout q) (fst ` set ds) w'"
    and "i = Some j \<Longrightarrow> s \<in> set (dict_get (dw_all_sources w) j []) \<Longrightarrow> so_id s \<notin> set already \<Longrightarrow>
      so_can_update s \<Longrightarrow> served (is_source_update (so_id s)) (so_cache_timeout s) (fst ` set ds) w'"
proof -
  from assms obtain d1 w1 where 1: "get_or_create_project_update p w = Some (d1, w1)"
    and 2: "source_updates already (case i of None \<Rightarrow> [] | Some j \<Rightarrow> dict_get (dw_all_sources w) j []) (d1, w1) = Some (ds, w')"
    by (auto simp: gen_dep_for_job_def split: option.splits)
  note s = source_updates_served [OF 2]
  show "p = Some j \<Longrightarrow> map_of (dw_all_projects w) j = Some q \<Longrightarrow>
      served (\<lambda>k. k = ProjectUpdateRow (Some j) True) (pj_cache_timeout q) (fst ` set ds) w'"
    using project_update_served [of j w d1 w1 q] 1 s by (blast intro: served_grows image_mono)
  show "i = Some j \<Longrightarrow> s \<in> set (dict_get (dw_all_sources w) j []) \<Longrightarrow> so_id s \<notin> set already \<Longrightarrow>
      so_can_update s \<Longrightarrow> served (is_source_update (so_id s)) (so_cache_timeout s) (fst ` set ds) w'"
    using s by auto
qed

lemma generate_step_ok:
  assumes "generate_step t (deps, w) = Some (deps', w')" and "r \<in> set (dw_rows w)" and "jr_id r = jr_id t"
  shows "grows w w' \<and> same_cache w w' \<and> satisfied w t w'"
proof -
  from assms(1) obtain ds w1 where t: "task_deps t w = Some (ds, w1)"
    and d: "if ds = [] then w' = w1 else w' = link_deps (jr_id t) (map fst (deps @ ds)) w1"
    by (auto simp: generate_step_def Let_def split: option.splits if_splits)
  have g: "grows w1 w' \<and> same_cache w1 w'" using d grows_link by (cases "ds = []") auto
  from grows_row [OF conjunct1 [OF task_deps_grows [OF t]] assms(2)] assms(3) obtain r1 where
    r1: "r1 \<in> set (dw_rows w1)" "jr_id r1 = jr_id t" by (auto simp: kept_def core_def)
  have l: "linked K k (jr_id t) w'" if "served K k (fst ` set ds) w1" for K k
  proof -
    have "ds \<noteq> []" using that by (auto simp: served_def)
    moreover have "served K k (set (map fst (deps @ ds))) w1"
      by (rule served_grows [OF that grows_refl]) auto
    ultimately show ?thesis using link_deps_linked [OF _ r1] d by simp
  qed
  have "satisfied w t w'"
  proof (cases "jr_kind t")
    case (JobRow p i already)
    with t have "gen_dep_for_job p i already w = Some (ds, w1)" by (simp add: task_deps_def)
    from job_deps_served [OF this] JobRow l show ?thesis by (auto simp: satisfied_def)
  qed (simp_all add: satisfied_def)
  with g task_deps_grows [OF t] show ?thesis by (blast intro: grows_trans same_cache_trans)
qed

lemma generate_loop_ok:
  "generate_loop ts (deps, w) = Some (deps', w') \<Longrightarrow>
     (\<And>t. t \<in> set ts \<Longrightarrow> \<exists>r \<in> set (dw_rows w). jr_id r = jr_id t) \<Longrightarrow>
     grows w w' \<and> same_cache w w' \<and> (\<forall>t \<in> set ts. satisfied w t w')"
proof (induction ts arbitrary: deps w)
  case (Cons t ts)
  from Cons.prems(1) obtain d1 w1 where 1: "generate_step t (deps, w) = Some (d1, w1)"
    and 2: "generate_loop ts (d1, w1) = Some (deps', w')" by (auto split: option.splits)
  from Cons.prems(2) [of t] obtain r where "r \<in> set (dw_rows w)" "jr_id r = jr_id t" by auto
  note s1 = generate_step_ok [OF 1 this]
  have rows: "\<exists>r \<in> set (dw_rows w1). jr_id r = jr_id u" if "u \<in> set ts" for u
  proof -
    from Cons.prems(2) [of u] that obtain r where r: "r \<in> set (dw_rows w)" "jr_id r = jr_id u" by auto
    from grows_row [OF conjunct1 [OF s1] r(1)] r(2) show ?thesis by (auto simp: kept_def core_def)
  qed
  note s2 = Cons.IH [OF 2 rows]
  have "satisfied w u w'" if "u \<in> set ts" for u
    using s2 that satisfied_cache [of w w1 u w'] s1 by blast
  moreover have "satisfied w t w'" using s1 s2 satisfied_grows by blast
  ultimately show ?case using s1 s2 by (auto intro: grows_trans same_cache_trans)
qed simp

text \<open>The cache holds what the tasks need.\<close>

lemma map_of_fold_projects:
  "i \<notin> pj_id ` set ps \<Longrightarrow> map_of (fold (\<lambda>p. AList.update (pj_id p) p) ps d) i = map_of d i"
  by (induction ps arbitrary: d) auto

lemma cached_project:
  "p \<in> set ps \<Longrightarrow> distinct (map pj_id ps) \<Longrightarrow>
     map_of (fold (\<lambda>p. AList.update (pj_id p) p) ps d) (pj_id p) = Some p"
  by (induction ps arbitrary: d) (auto simp: map_of_fold_projects)

lemma sources_fold:
  "dict_get (fold add_source ss d) i [] = dict_get d i [] @ filter (\<lambda>s. so_inventory s = i) ss"
  by (induction ss arbitrary: d) (auto simp: add_source_def dict_get_def)

lemma generate_dependencies_ok:
  assumes "generate_dependencies ts w = Some (deps, w')"
    and "\<And>t. t \<in> set ts \<Longrightarrow> \<exists>r \<in> set (dw_rows w). jr_id r = jr_id t"
  shows "grows w w' \<and> (\<forall>t \<in> set ts. satisfied (cache_projects_and_sources ts w) t w' \<and>
    (\<exists>r \<in> set (dw_rows w'). jr_id r = jr_id t \<and> jr_processed r))"
proof -
  let ?c = "cache_projects_and_sources ts w"
  from assms(1) obtain w1 where l: "generate_loop ts ([], ?c) = Some (deps, w1)"
    and w': "w' = mark_processed (map jr_id ts) w1"
    by (auto simp: generate_dependencies_def split: option.splits)
  have rows: "dw_rows ?c = dw_rows w" by (simp add: cache_projects_and_sources_def Let_def)
  have ex: "\<exists>r \<in> set (dw_rows ?c). jr_id r = jr_id t" if "t \<in> set ts" for t
    using assms(2) [OF that] rows by simp
  note g = generate_loop_ok [OF l ex]
  have "grows w w'" using g grows_cache grows_mark w' by (blast intro: grows_trans)
  moreover have "satisfied ?c t w'" if "t \<in> set ts" for t
    using g that w' grows_mark satisfied_grows by blast
  moreover have "\<exists>r \<in> set (dw_rows w'). jr_id r = jr_id t \<and> jr_processed r" if t: "t \<in> set ts" for t
  proof -
    from ex [OF t] g grows_row obtain r where r: "r \<in> set (dw_rows w1)" "jr_id r = jr_id t"
      by (metis core_def kept_def prod.inject)
    have "r\<lparr>jr_processed := True\<rparr> \<in> set (dw_rows w')"
      using r t unfolding w' mark_processed_def by force
    with r show ?thesis by (intro bexI [of _ "r\<lparr>jr_processed := True\<rparr>"]) simp_all
  qed
  ultimately show ?thesis by blast
qed

lemma schedule_cases:
  assumes "dependency_schedule w = Some w'" and "undeped_tasks w \<noteq> []"
  obtains deps w1 deps2 where
    "generate_dependencies (undeped_tasks w) (w\<lparr>dw_all_projects := [], dw_all_sources := []\<rparr>) = Some (deps, w1)"
    "generate_dependencies (concat (map (\<lambda>(i, p). if p then [] else filter (\<lambda>r. jr_id r = i) (dw_rows w1)) deps)) w1
       = Some (deps2, w')"
proof -
  have "undeped_tasks (w\<lparr>dw_all_projects := [], dw_all_sources := []\<rparr>) = undeped_tasks w"
    by (simp add: undeped_tasks_def)
  with assms that show ?thesis
    by (auto simp: dependency_schedule_def Let_def split: option.splits)
qed

lemma schedule_ok:
  assumes "dependency_schedule w = Some w'" and "t \<in> set (undeped_tasks w)"
  shows "satisfied (cache_projects_and_sources (undeped_tasks w) (w\<lparr>dw_all_projects := [], dw_all_sources := []\<rparr>)) t w' \<and>
    (\<exists>r \<in> set (dw_rows w'). jr_id r = jr_id t \<and> jr_processed r)"
proof -
  let ?w = "w\<lparr>dw_all_projects := [], dw_all_sources := []\<rparr>"
  have "undeped_tasks w \<noteq> []" using assms(2) by auto
  from schedule_cases [OF assms(1) this] obtain deps w1 deps2 where
    1: "generate_dependencies (undeped_tasks w) ?w = Some (deps, w1)" and
    2: "generate_dependencies (concat (map (\<lambda>(i, p). if p then [] else filter (\<lambda>r. jr_id r = i) (dw_rows w1)) deps)) w1
       = Some (deps2, w')" .
  have g2: "grows w1 w'" using generate_dependencies_ok [OF 2] by (force split: if_splits)
  have g1: "satisfied (cache_projects_and_sources (undeped_tasks w) ?w) t w1"
    "\<exists>r \<in> set (dw_rows w1). jr_id r = jr_id t \<and> jr_processed r"
    using generate_dependencies_ok [OF 1] assms(2) by (auto simp: undeped_tasks_def)
  then obtain r where r: "r \<in> set (dw_rows w1)" "jr_id r = jr_id t" "jr_processed r" by blast
  from grows_row [OF g2 r(1)] r show ?thesis
    using satisfied_grows [OF g1(1) g2] by (auto simp: kept_def core_def)
qed

section \<open>At most one update of each\<close>

definition once :: "(row_kind \<Rightarrow> bool) \<Rightarrow> nat \<Rightarrow> dep_world \<Rightarrow> bool" where
  "once K n w \<longleftrightarrow> n \<le> length (dw_rows w) \<and>
     (let created = filter (\<lambda>r. K (jr_kind r)) (drop n (dw_rows w))
      in length created \<le> 1 \<and> (\<forall>r \<in> set created. jr_status r \<in> {Pending, New} \<and> jr_finished r = None))"

definition update_kind :: "(row_kind \<Rightarrow> bool) \<Rightarrow> bool" where
  "update_kind K \<longleftrightarrow> (\<exists>p. K = (\<lambda>k. k = ProjectUpdateRow (Some p) True)) \<or> (\<exists>s. K = is_source_update s)"

lemma find_rev_suffix:
  assumes "filter P (drop n xs) \<noteq> []"
  shows "\<exists>u. find P (rev xs) = Some u \<and> u \<in> set (filter P (drop n xs))"
proof -
  have "\<exists>x \<in> set (rev (drop n xs)). P x" using assms by (auto simp: filter_empty_conv)
  then obtain u where u: "find P (rev (drop n xs)) = Some u" by (metis find_None_iff not_Some_eq)
  have app: "find P (ys @ zs) = Some u" if "find P ys = Some u" for ys zs
    using that by (induction ys) auto
  have "find P (rev xs) = Some u"
    using app [OF u, of "rev (take n xs)"] by (metis append_take_drop_id rev_append)
  moreover have "y \<in> set ys \<and> P y" if "find P ys = Some y" for y ys
    using that by (induction ys) (auto split: if_splits)
  with u have "u \<in> set (drop n xs) \<and> P u" by fastforce
  ultimately show ?thesis by auto
qed

lemma once_add_row:
  assumes "once K n w" and "jr_status r \<in> {Pending, New}" and "jr_finished r = None"
    and "K (jr_kind r) \<Longrightarrow> should_update_again (dw_now w) (latest (\<lambda>r. K (jr_kind r)) w) t = Some True"
  shows "once K n (add_row r w)"
proof (cases "K (jr_kind r)")
  case False
  with assms(1) show ?thesis by (simp add: once_def add_row_def)
next
  case True
  have "filter (\<lambda>r. K (jr_kind r)) (drop n (dw_rows w)) = []"
  proof (rule ccontr)
    assume "filter (\<lambda>r. K (jr_kind r)) (drop n (dw_rows w)) \<noteq> []"
    from find_rev_suffix [OF this] obtain u where u: "latest (\<lambda>r. K (jr_kind r)) w = Some u"
      "u \<in> set (filter (\<lambda>r. K (jr_kind r)) (drop n (dw_rows w)))" by (auto simp: latest_def)
    then have "jr_status u \<in> {Pending, New} \<and> jr_finished u = None" using assms(1) unfolding once_def Let_def by blast
    with assms(4) [OF True] u(1) show False by (auto simp: should_update_again_def)
  qed
  with assms(1-3) True show ?thesis by (simp add: once_def add_row_def)
qed

lemma once_same:
  assumes "once K n w" and "dw_rows w' = map f (dw_rows w)"
    and "\<And>r. jr_kind (f r) = jr_kind r \<and> jr_status (f r) = jr_status r \<and> jr_finished (f r) = jr_finished r"
  shows "once K n w'"
  using assms by (auto simp: once_def Let_def drop_map filter_map o_def)

lemma once_edit_row:
  assumes "once K n w"
    and "\<And>r. jr_kind (f r) = jr_kind r \<and> jr_status (f r) = jr_status r \<and> jr_finished (f r) = jr_finished r"
  shows "once K n (edit_row i f w)"
  by (rule once_same [OF assms(1), of _ "\<lambda>r. if jr_id r = i then f r else r"]) (simp_all add: edit_row_def assms(2))

lemma once_project:
  assumes "once K n w" and "update_kind K" and "get_or_create_project_update pid w = Some (ds, w')"
  shows "once K n w'"
  using assms(3)
proof (cases rule: project_update_cases)
  case (create i p)
  have "should_update_again (dw_now w) (latest (\<lambda>r. K (jr_kind r)) w) (pj_cache_timeout p) = Some True"
    if "K (jr_kind (new_project_update w i))"
  proof -
    have "(\<lambda>r. K (jr_kind r)) = is_project_check i"
      using that assms(2) by (auto simp: update_kind_def new_project_update_def is_project_check_def)
    with create(5) show ?thesis by simp
  qed
  then show ?thesis unfolding create(3)
    by (intro once_add_row [OF assms(1)]) (simp_all add: new_project_update_def)
qed (use assms(1) in simp_all)

lemma once_inventory:
  assumes "once K n w" and "update_kind K" and "get_or_create_inventory_update already s (ds, w) = Some (ds', w')"
  shows "once K n w'"
  using assms(3)
proof (cases rule: inventory_update_cases)
  case create
  have "should_update_again (dw_now w) (latest (\<lambda>r. K (jr_kind r)) w) (so_cache_timeout s) = Some True"
    if "K (jr_kind (new_inventory_update w (so_source s) s))"
  proof -
    have "K = is_source_update (so_id s)"
      using that assms(2) by (auto simp: update_kind_def new_inventory_update_def)
    with create(4) show ?thesis by simp
  qed
  then show ?thesis unfolding create(2)
    by (intro once_add_row [OF assms(1)]) (simp_all add: new_inventory_update_def)
qed (use assms(1) in simp_all)

lemma once_sources:
  "once K n w \<Longrightarrow> update_kind K \<Longrightarrow> source_updates already ss (ds, w) = Some (ds', w') \<Longrightarrow> once K n w'"
  by (induction ss arbitrary: ds w) (auto split: option.splits dest: once_inventory)

lemma once_task_deps:
  assumes "once K n w" and "update_kind K" and "task_deps t w = Some (ds, w')"
  shows "once K n w'"
proof (cases "jr_kind t")
  case (JobRow p i already)
  with assms(3) obtain d1 w1 where 1: "get_or_create_project_update p w = Some (d1, w1)"
    and 2: "source_updates already (case i of None \<Rightarrow> [] | Some j \<Rightarrow> dict_get (dw_all_sources w) j []) (d1, w1) = Some (ds, w')"
    by (auto simp: task_deps_def gen_dep_for_job_def split: option.splits)
  from once_sources [OF once_project [OF assms(1,2) 1] assms(2) 2] show ?thesis .
next
  case (InventoryUpdateRow source src)
  with assms show ?thesis
    by (auto simp: task_deps_def gen_dep_for_inventory_update_def intro: once_project split: if_splits option.splits)
qed (use assms in \<open>auto simp: task_deps_def\<close>)

lemma once_loop:
  "once K n w \<Longrightarrow> update_kind K \<Longrightarrow> generate_loop ts (deps, w) = Some (deps', w') \<Longrightarrow> once K n w'"
proof (induction ts arbitrary: deps w)
  case (Cons t ts)
  from Cons.prems(3) obtain d1 w1 where 1: "generate_step t (deps, w) = Some (d1, w1)"
    and 2: "generate_loop ts (d1, w1) = Some (deps', w')" by (auto split: option.splits)
  from 1 obtain ds w2 where t: "task_deps t w = Some (ds, w2)"
    and d: "w1 = (if ds = [] then w2 else link_deps (jr_id t) (map fst (deps @ ds)) w2)"
    by (auto simp: generate_step_def Let_def split: option.splits if_splits)
  have o2: "once K n w2" by (rule once_task_deps [OF Cons.prems(1,2) t])
  have "once K n (link_deps (jr_id t) ids w2)" for ids
    unfolding link_deps_def by (rule once_edit_row [OF o2]) simp
  with o2 have "once K n w1" unfolding d by simp
  from Cons.IH [OF this Cons.prems(2) 2] show ?case .
qed simp

lemma once_generate:
  assumes "once K n w" and "update_kind K" and "generate_dependencies ts w = Some (deps, w')"
  shows "once K n w'"
proof -
  have c: "once K n (cache_projects_and_sources ts w)"
    using assms(1) by (simp add: once_def cache_projects_and_sources_def Let_def)
  from assms(3) obtain w1 where l: "generate_loop ts ([], cache_projects_and_sources ts w) = Some (deps, w1)"
    and w': "w' = mark_processed (map jr_id ts) w1"
    by (auto simp: generate_dependencies_def split: option.splits)
  show ?thesis unfolding w'
    by (rule once_same [OF once_loop [OF c assms(2) l],
          of _ "\<lambda>r. if jr_id r \<in> set (map jr_id ts) then r\<lparr>jr_processed := True\<rparr> else r"])
      (simp_all add: mark_processed_def)
qed

lemma once_schedule:
  assumes "update_kind K" and "dependency_schedule w = Some w'"
  shows "once K (length (dw_rows w)) w'"
proof (cases "undeped_tasks w = []")
  case True
  then have "w' = w\<lparr>dw_all_projects := [], dw_all_sources := []\<rparr>"
    using assms(2) by (simp add: dependency_schedule_def undeped_tasks_def)
  then show ?thesis by (simp add: once_def)
next
  case False
  have "once K (length (dw_rows w)) (w\<lparr>dw_all_projects := [], dw_all_sources := []\<rparr>)" by (simp add: once_def)
  with schedule_cases [OF assms(2) False] once_generate [OF _ assms(1)] show ?thesis by metis
qed

section \<open>Properties\<close>

text \<open>
  C7. After a run of the dependency manager every job that was waiting for it is marked as processed
  and linked to a current update of its project, where the project updates on launch, and of every
  source of its inventory that updates on launch, can update and is not named as updated already. An
  update is current if it is waiting or running, or ended well within the cache timeout.
\<close>

theorem dependencies_current:
  assumes "dependency_schedule w = Some w'" and "t \<in> set (undeped_tasks w)"
    and "jr_kind t = JobRow p i already" and "distinct (map pj_id (dw_projects w))"
  shows "(\<exists>r \<in> set (dw_rows w'). jr_id r = jr_id t \<and> jr_processed r) \<and>
    (\<forall>q \<in> set (dw_projects w). p = Some (pj_id q) \<and> pj_id q \<noteq> 0 \<and> pj_update_on_launch q \<longrightarrow>
       linked (\<lambda>k. k = ProjectUpdateRow p True) (pj_cache_timeout q) (jr_id t) w') \<and>
    (\<forall>s \<in> set (dw_sources w). i = Some (so_inventory s) \<and> so_inventory s \<noteq> 0 \<and> so_update_on_launch s \<and>
       so_can_update s \<and> so_id s \<notin> set already \<longrightarrow>
       linked (is_source_update (so_id s)) (so_cache_timeout s) (jr_id t) w')"
proof -
  let ?w = "w\<lparr>dw_all_projects := [], dw_all_sources := []\<rparr>"
  let ?c = "cache_projects_and_sources (undeped_tasks w) ?w"
  note ok = schedule_ok [OF assms(1,2)]
  have sat: "satisfied ?c t w'" using ok by blast
  have proj: "linked (\<lambda>k. k = ProjectUpdateRow p True) (pj_cache_timeout q) (jr_id t) w'"
    if q: "q \<in> set (dw_projects w)" "p = Some (pj_id q)" "pj_id q \<noteq> 0" "pj_update_on_launch q" for q
  proof -
    let ?ps = "filter (\<lambda>p. pj_id p \<in> set (concat (map (project_ids ?w) (undeped_tasks w))) \<and> pj_update_on_launch p) (dw_projects w)"
    have "pj_id q \<in> set (project_ids ?w t)" using assms(3) q(2,3) by (simp add: project_ids_def set_keys_def)
    then have "q \<in> set ?ps" using q assms(2) by auto
    moreover have "distinct (map pj_id ?ps)" using assms(4) by (rule distinct_map_filter)
    ultimately have "map_of (dw_all_projects ?c) (pj_id q) = Some q"
      unfolding cache_projects_and_sources_def Let_def by (simp add: cached_project)
    with sat assms(3) q(2) show ?thesis by (simp add: satisfied_def)
  qed
  have src: "linked (is_source_update (so_id s)) (so_cache_timeout s) (jr_id t) w'"
    if s: "s \<in> set (dw_sources w)" "i = Some (so_inventory s)" "so_inventory s \<noteq> 0" "so_update_on_launch s"
      "so_can_update s" "so_id s \<notin> set already" for s
  proof -
    have "so_inventory s \<in> set (inventory_ids t)" using assms(3) s(2,3) by (simp add: inventory_ids_def set_keys_def)
    then have "s \<in> set (dict_get (dw_all_sources ?c) (so_inventory s) [])"
      using s assms(2) by (auto simp: cache_projects_and_sources_def Let_def sources_fold)
    with sat assms(3) s show ?thesis by (auto simp: satisfied_def)
  qed
  from ok proj src show ?thesis by blast
qed

text \<open>
  A run creates at most one update of a project and at most one of an inventory source, however
  many jobs need it.
\<close>

theorem one_update_per_run:
  assumes "dependency_schedule w = Some w'"
  shows "length (filter (\<lambda>r. jr_kind r = ProjectUpdateRow (Some p) True) (drop (length (dw_rows w)) (dw_rows w'))) \<le> 1 \<and>
    length (filter (\<lambda>r. is_source_update s (jr_kind r)) (drop (length (dw_rows w)) (dw_rows w'))) \<le> 1"
  using once_schedule [OF _ assms, of "\<lambda>k. k = ProjectUpdateRow (Some p) True"]
    once_schedule [OF _ assms, of "is_source_update s"]
  by (auto simp: update_kind_def once_def Let_def)

definition stuck_source :: source_row where
  "stuck_source = \<lparr>so_id = 10, so_source = ''gce'', so_inventory = 5, so_update_on_launch = True,
     so_cache_timeout = 0, so_project = None, so_can_update = False\<rparr>"

definition pending_job :: "pk \<Rightarrow> pk option \<Rightarrow> pk option \<Rightarrow> job_row" where
  "pending_job i p v = \<lparr>jr_id = i, jr_kind = JobRow p v [], jr_status = Pending, jr_finished = None,
     jr_launch_type = ''manual'', jr_processed = False, jr_dependent_jobs = []\<rparr>"

definition start_world :: "project_row list \<Rightarrow> source_row list \<Rightarrow> job_row list \<Rightarrow> dep_world" where
  "start_world ps ss rs = \<lparr>dw_projects = ps, dw_sources = ss, dw_rows = rs, dw_now = 100,
     dw_all_projects = [], dw_all_sources = []\<rparr>"

lemmas run_simps =
  dependency_schedule_def undeped_tasks_def generate_dependencies_def cache_projects_and_sources_def
  generate_step_def task_deps_def gen_dep_for_job_def gen_dep_for_inventory_update_def
  get_or_create_project_update_def get_or_create_inventory_update_def should_update_again_def latest_def
  new_project_update_def new_inventory_update_def add_row_def fresh_pk_def row_dep_def link_deps_def
  edit_row_def mark_processed_def project_ids_def inventory_ids_def set_keys_def find_source_def
  add_source_def dict_get_def is_project_check_def start_world_def pending_job_def stuck_source_def Let_def

text \<open>
  A source that updates on launch but cannot update (a cloud source without its credential): the
  first run creates an update for it that is not started and stays new. From then on the time of
  that update is missing, every run with a job of the inventory raises, and no pending job gets past
  the dependency manager, not even one that has nothing to do with the inventory.
\<close>

theorem unstartable_update_stalls:
  "\<exists>w1. dependency_schedule (start_world [] [stuck_source] [pending_job 1 None (Some 5)]) = Some w1 \<and>
     dependency_schedule (add_row (pending_job 9 None (Some 6)) (add_row (pending_job 8 None (Some 5)) w1)) = None"
  by (simp add: run_simps)

text \<open>
  The dependencies of a pass accumulate: of two jobs with different projects, the second is also
  linked to the update of the first one's project, and waits for it.
\<close>

theorem dependencies_accumulate:
  "\<exists>w. dependency_schedule (start_world
        [\<lparr>pj_id = 7, pj_update_on_launch = True, pj_cache_timeout = 0\<rparr>,
         \<lparr>pj_id = 8, pj_update_on_launch = True, pj_cache_timeout = 0\<rparr>] []
        [pending_job 1 (Some 7) None, pending_job 2 (Some 8) None]) = Some w \<and>
     map (\<lambda>r. (jr_id r, jr_kind r, jr_dependent_jobs r)) (dw_rows w) =
       [(1, JobRow (Some 7) None [], [3]), (2, JobRow (Some 8) None [], [3, 4]),
        (3, ProjectUpdateRow (Some 7) True, []), (4, ProjectUpdateRow (Some 8) True, [])]"
  by (simp add: run_simps)

section \<open>Witnesses\<close>

definition demo_jobs :: dep_world where
  "demo_jobs = start_world [\<lparr>pj_id = 7, pj_update_on_launch = True, pj_cache_timeout = 0\<rparr>] []
     [pending_job 1 (Some 7) None, pending_job 2 (Some 7) None]"

lemma demo_jobs_run: "\<exists>w. dependency_schedule demo_jobs = Some w"
  by (simp add: demo_jobs_def run_simps)

theorem dependencies_current_witness:
  "\<exists>w. dependency_schedule demo_jobs = Some w \<and>
     linked (\<lambda>k. k = ProjectUpdateRow (Some 7) True) 0 2 w"
proof -
  from demo_jobs_run obtain w where w: "dependency_schedule demo_jobs = Some w" by blast
  have "pending_job 2 (Some 7) None \<in> set (undeped_tasks demo_jobs)"
    by (simp add: undeped_tasks_def demo_jobs_def start_world_def pending_job_def)
  from dependencies_current [OF w this, of "Some 7" None "[]"] w show ?thesis
    by (auto simp: demo_jobs_def start_world_def pending_job_def)
qed

theorem one_update_per_run_witness:
  "\<exists>w. dependency_schedule demo_jobs = Some w \<and>
     length (filter (\<lambda>r. jr_kind r = ProjectUpdateRow (Some 7) True) (drop 2 (dw_rows w))) \<le> 1"
proof -
  from demo_jobs_run obtain w where w: "dependency_schedule demo_jobs = Some w" by blast
  have "length (dw_rows demo_jobs) = 2" by (simp add: demo_jobs_def start_world_def)
  with one_update_per_run [OF w, of 7 0] w show ?thesis by metis
qed

end
