(* ===== verification/Survey_Choices.thy ===== *)
theory Survey_Choices
  imports Python_Values
begin

text \<open>
  The choices of survey questions: \<open>forail/main/services/dynamic_survey.py\<close>. A question may take its
  choices from a query of the database, from an API or from a Jinja2 template.

  Arguments (\<open>survey_env\<close>): the three settings, the parts of a URL (\<open>urlsplit\<close>), the resolver, the
  HTTP client, the database, the template engine, the digest of a cache key, \<open>float\<close> of a text and
  the rendering of containers. An exception is \<open>Inl Raised\<close>. Requests that are sent are recorded. Log
  messages are not modelled.
\<close>

section \<open>Values\<close>

fun py_num :: "json \<Rightarrow> rat option" where
  "py_num (JBool b) = Some (if b then 1 else 0)"
| "py_num (JInt i) = Some (of_int i)"
| "py_num (JFloat r) = Some r"
| "py_num _ = None"

text \<open>\<open>a == b\<close>.\<close>

fun py_eq :: "json \<Rightarrow> json \<Rightarrow> bool"
  and py_eq_list :: "json list \<Rightarrow> json list \<Rightarrow> bool"
  and py_eq_dict :: "(string \<times> json) list \<Rightarrow> (string \<times> json) list \<Rightarrow> bool" where
  "py_eq (JList xs) b = (case b of JList ys \<Rightarrow> py_eq_list xs ys | _ \<Rightarrow> False)"
| "py_eq (JObj d) b = (case b of JObj e \<Rightarrow> length d = length e \<and> py_eq_dict d e | _ \<Rightarrow> False)"
| "py_eq (JStr s) b = (b = JStr s)"
| "py_eq JNull b = (b = JNull)"
| "py_eq a b = (py_num b = py_num a)"
| "py_eq_list [] ys = (ys = [])"
| "py_eq_list (x # xs) ys = (case ys of [] \<Rightarrow> False | y # ys' \<Rightarrow> py_eq x y \<and> py_eq_list xs ys')"
| "py_eq_dict [] e = True"
| "py_eq_dict ((k, v) # d) e = ((case map_of e k of None \<Rightarrow> False | Some u \<Rightarrow> py_eq v u) \<and> py_eq_dict d e)"

definition py_in :: "json \<Rightarrow> json list \<Rightarrow> bool" where
  "py_in v xs \<longleftrightarrow> list_ex (\<lambda>x. py_eq x v) xs"

text \<open>\<open>s.splitlines()\<close>: the line ends of ASCII are the codes 10 to 13 and 28 to 30, and 13 with 10.\<close>

definition line_end :: "char \<Rightarrow> bool" where
  "line_end c \<longleftrightarrow> (let n = of_char c :: nat in (10 \<le> n \<and> n \<le> 13) \<or> (28 \<le> n \<and> n \<le> 30))"

fun split_lines :: "string \<Rightarrow> string \<Rightarrow> string list" where
  "split_lines acc [] = (if acc = [] then [] else [rev acc])"
| "split_lines acc (c # s) =
     (if c = CHR 0x0D then (case s of
        d # s' \<Rightarrow> if d = CHR 0x0A then rev acc # split_lines [] s' else rev acc # split_lines [] (d # s')
      | [] \<Rightarrow> [rev acc])
      else if line_end c then rev acc # split_lines [] s
      else split_lines (c # acc) s)"

definition splitlines :: "string \<Rightarrow> string list" where
  "splitlines s = split_lines [] s"

definition upper_case :: "string \<Rightarrow> string" where
  "upper_case s = map (\<lambda>c. let n = of_char c :: nat in if 97 \<le> n \<and> n \<le> 122 then char_of (n - 32) else c) s"

section \<open>Data\<close>

datatype py_raise = Raised

record url_parts =
  up_scheme :: string
  up_host :: "string option"
  up_port :: "py_raise + int option"

record http_request =
  hq_url :: string
  hq_method :: string
  hq_headers :: json
  hq_body :: "json option"
  hq_timeout :: rat
  hq_redirects :: bool

text \<open>What the client reads of an answer; \<open>None\<close> for the data is a body that is no JSON.\<close>

record endpoint_reply =
  hr_redirect :: bool
  hr_error :: bool
  hr_length :: nat
  hr_data :: "json option"

text \<open>
  \<open>se_split_url\<close> is what \<open>urlsplit\<close> reads in a URL; \<open>se_client_host\<close> is the host that the HTTP client
  reads in it, with its own parser, and connects to. The two need not agree: in the URL
  \<open>https://evil.com\@allowed.example/x\<close> the first reads \<open>allowed.example\<close>, the client \<open>evil.com\<close>.
  \<open>se_resolve_host\<close> stands for the resolution at the check; the client resolves its host again.
  An address is \<open>None\<close> if it cannot be parsed, else the names of the properties it has.\<close>

type_synonym address = "string list option"

record survey_env =
  se_allowlist :: json
  se_jinja2_enabled :: json
  se_split_url :: "string \<Rightarrow> url_parts option"
  se_client_host :: "string \<Rightarrow> string option"
  se_resolve_host :: "string \<Rightarrow> int \<Rightarrow> address list option"
  se_http :: "http_request \<Rightarrow> endpoint_reply option"
  se_query :: "string \<Rightarrow> (string \<times> json) list \<Rightarrow> string \<Rightarrow> json list option"
  se_render_template :: "string \<Rightarrow> pk option \<Rightarrow> json option"
  se_digest :: "json \<Rightarrow> string"
  se_float :: "string \<Rightarrow> rat option"
  se_repr :: "json \<Rightarrow> string"

record survey_template =
  st_pk :: "pk option"
  st_organization :: "pk option"
  st_inventory :: "pk option"

record question =
  q_type :: string
  q_variable :: string
  q_required :: bool
  q_min :: "json option"
  q_max :: "json option"
  q_default :: json
  q_choices :: json
  q_dynamic_choices :: "(string \<times> json) list"

text \<open>The entries of the cache that are alive, and the requests that were sent.\<close>

record survey_state =
  ss_cache :: "(string \<times> string list) list"
  ss_requests :: "http_request list"

section \<open>Destinations\<close>

definition host_entry :: "json \<Rightarrow> string list" where
  "host_entry h = (case h of JStr s \<Rightarrow> if strip s = [] then [] else [lower (strip s)] | _ \<Rightarrow> [])"

definition api_allowlist :: "survey_env \<Rightarrow> string list" where
  "api_allowlist env =
     (case (if json_true (se_allowlist env) then se_allowlist env else JList []) of
        JStr s \<Rightarrow> host_entry (JStr s)
      | JList hs \<Rightarrow> concat (map host_entry hs)
      | JObj d \<Rightarrow> concat (map (\<lambda>(k, v). host_entry (JStr k)) d)
      | _ \<Rightarrow> [])"

definition forbidden_properties :: "string list" where
  "forbidden_properties = [''loopback'', ''link_local'', ''multicast'', ''reserved'', ''unspecified'']"

fun forbidden_address :: "address list \<Rightarrow> string option" where
  "forbidden_address [] = None"
| "forbidden_address (None # as) = Some ''the host resolves to an address that cannot be parsed''"
| "forbidden_address (Some props # as) =
     (case filter (\<lambda>p. p \<in> set props) forbidden_properties of
        p # _ \<Rightarrow> Some (''the host resolves to an address that is '' @ p)
      | [] \<Rightarrow> forbidden_address as)"

text \<open>
  Why a URL may not be fetched, judged by the host that \<open>urlsplit\<close> reads in it. A port that is no
  port raises where it is read.
\<close>

definition api_destination_refusal :: "survey_env \<Rightarrow> string \<Rightarrow> py_raise + string option" where
  "api_destination_refusal env url =
     (case se_split_url env url of
        None \<Rightarrow> Inr (Some ''the URL cannot be parsed'')
      | Some parts \<Rightarrow>
          if up_scheme parts \<noteq> ''https'' then Inr (Some ''the scheme must be https'')
          else case up_host parts of
            None \<Rightarrow> Inr (Some ''the URL has no host'')
          | Some host \<Rightarrow>
              if host = [] then Inr (Some ''the URL has no host'')
              else if api_allowlist env = [] then Inr (Some ''no destination is permitted'')
              else if lower host \<notin> set (api_allowlist env) then Inr (Some ''the host is not listed'')
              else case up_port parts of
                Inl e \<Rightarrow> Inl e
              | Inr port \<Rightarrow>
                  (case se_resolve_host env host (case port of None \<Rightarrow> 443 | Some n \<Rightarrow> if n = 0 then 443 else n) of
                     None \<Rightarrow> Inr (Some ''the host does not resolve'')
                   | Some infos \<Rightarrow> Inr (forbidden_address infos)))"

section \<open>Sources\<close>

definition max_choices :: nat where
  "max_choices = 500"

definition api_response_max_bytes :: nat where
  "api_response_max_bytes = 1024 * 1024"

definition api_max_timeout :: rat where
  "api_max_timeout = 30"

definition jinja2_source_enabled :: "survey_env \<Rightarrow> bool" where
  "jinja2_source_enabled env \<longleftrightarrow> se_jinja2_enabled env = JBool True"

definition allowed_db_models :: "string list" where
  "allowed_db_models = [''hosts'', ''groups'', ''projects'', ''inventories'', ''credentials'',
     ''organizations'', ''execution_environments'', ''templates'']"

definition allowed_db_fields :: "string list" where
  "allowed_db_fields = [''name'', ''id'', ''description'']"

text \<open>\<open>x in\<close> a set or dictionary of texts; a list or a dictionary has no hash.\<close>

definition text_in :: "json \<Rightarrow> string list \<Rightarrow> py_raise + bool" where
  "text_in v names = (case v of
      JStr s \<Rightarrow> Inr (s \<in> set names) | JList _ \<Rightarrow> Inl Raised | JObj _ \<Rightarrow> Inl Raised | _ \<Rightarrow> Inr False)"

text \<open>\<open>key.split(''__'')[0]\<close>.\<close>

fun base_field :: "string \<Rightarrow> string" where
  "base_field [] = []"
| "base_field (c # s) = (if startswith (c # s) ''__'' then [] else c # base_field s)"

definition safe_base_fields :: "string list" where
  "safe_base_fields = [''id'', ''name'', ''inventory'', ''organization'', ''project'',
     ''inventory_id'', ''organization_id'', ''project_id'']"

definition safe_filter :: "(string \<times> json) list \<Rightarrow> (string \<times> json) list" where
  "safe_filter filters = filter (\<lambda>(k, v). base_field k \<in> set safe_base_fields) filters"

definition key_or_zero :: "pk option \<Rightarrow> bool" where
  "key_or_zero k \<longleftrightarrow> (case k of None \<Rightarrow> False | Some i \<Rightarrow> i \<noteq> 0)"

definition resolve_db_query ::
  "survey_env \<Rightarrow> (string \<times> json) list \<Rightarrow> survey_template option \<Rightarrow> py_raise + json list" where
  "resolve_db_query env dc template =
     (let model_key = dict_get dc ''model'' (JStr []); field = dict_get dc ''field'' (JStr ''name'') in
      and_then (text_in model_key allowed_db_models) (\<lambda>known.
      if \<not> known then Inr []
      else and_then (text_in field allowed_db_fields) (\<lambda>allowed.
      if \<not> allowed then Inr []
      else case (dict_get dc ''filter'' (JObj []), model_key, field) of
        (JObj filters, JStr m, JStr f) \<Rightarrow>
          (let kwargs = safe_filter filters;
               inv = (case template of None \<Rightarrow> None | Some t \<Rightarrow> st_inventory t);
               kwargs' = (if kwargs = [] \<and> m \<in> {''hosts'', ''groups''} \<and> key_or_zero inv
                          then [(''inventory__id'', JInt (int (the inv)))] else kwargs)
           in case se_query env m kwargs' f of
                None \<Rightarrow> Inr []
              | Some rows \<Rightarrow> Inr (take 500 rows))
      | _ \<Rightarrow> Inl Raised)))"

definition api_timeout :: "survey_env \<Rightarrow> json \<Rightarrow> rat" where
  "api_timeout env v =
     (case (case v of JStr s \<Rightarrow> se_float env s | _ \<Rightarrow> py_num v) of None \<Rightarrow> 10 | Some t \<Rightarrow> min t api_max_timeout)"

fun follow_path :: "json \<Rightarrow> string list \<Rightarrow> py_raise + json option" where
  "follow_path data [] = Inr (Some data)"
| "follow_path data (k # ks) =
     (case data of
        JObj d \<Rightarrow> follow_path (dict_get d k (JList [])) ks
      | JList xs \<Rightarrow>
          if k \<noteq> [] \<and> list_all is_digit k then
            (case parse_int k of
               None \<Rightarrow> Inl Raised
             | Some i \<Rightarrow> if nat i < length xs then follow_path (xs ! nat i) ks else Inl Raised)
          else Inr None
      | _ \<Rightarrow> Inr None)"

definition api_items :: "survey_env \<Rightarrow> json \<Rightarrow> json list \<Rightarrow> py_raise + json list" where
  "api_items env value_field data =
     (if json_true value_field then
        (case value_field of
           JStr f \<Rightarrow> Inr (take max_choices
             (concat (map (\<lambda>x. case x of JObj d \<Rightarrow> [dict_get d f (JStr [])] | _ \<Rightarrow> []) data)))
         | JList _ \<Rightarrow> Inl Raised
         | JObj _ \<Rightarrow> Inl Raised
         | _ \<Rightarrow> Inr (take max_choices (concat (map (\<lambda>x. case x of JObj d \<Rightarrow> [JStr []] | _ \<Rightarrow> []) data))))
      else Inr (take max_choices (map (\<lambda>x. JStr (py_str (se_repr env) x)) data)))"

definition api_choices :: "survey_env \<Rightarrow> (string \<times> json) list \<Rightarrow> json \<Rightarrow> py_raise + json list" where
  "api_choices env dc data =
     (let json_path = dict_get dc ''json_path'' (JStr []) in
      and_then
        (if json_true json_path then
           (case json_path of JStr p \<Rightarrow> follow_path data (split_on CHR ''.'' p) | _ \<Rightarrow> Inl Raised)
         else Inr (Some data)) (\<lambda>found.
      case found of
        Some (JList xs) \<Rightarrow> api_items env (dict_get dc ''value_field'' (JStr [])) xs
      | _ \<Rightarrow> Inr []))"

definition api_request :: "survey_env \<Rightarrow> (string \<times> json) list \<Rightarrow> string \<Rightarrow> string \<Rightarrow> http_request" where
  "api_request env dc url m =
     \<lparr>hq_url = url, hq_method = m, hq_headers = dict_get dc ''headers'' (JObj []),
      hq_body = (if m = ''POST'' then Some (dict_get dc ''body'' (JObj [])) else None),
      hq_timeout = api_timeout env (dict_get dc ''timeout'' (JInt 10)), hq_redirects = False\<rparr>"

text \<open>The answer, with the requests that were sent.\<close>

definition resolve_api_endpoint ::
  "survey_env \<Rightarrow> (string \<times> json) list \<Rightarrow> (py_raise + json list) \<times> http_request list" where
  "resolve_api_endpoint env dc =
     (let url = dict_get dc ''url'' (JStr []) in
      if \<not> json_true url then (Inr [], [])
      else case url of
        JStr u \<Rightarrow>
          (case api_destination_refusal env u of
             Inl e \<Rightarrow> (Inl e, [])
           | Inr (Some why) \<Rightarrow> (Inr [], [])
           | Inr None \<Rightarrow>
               (case dict_get dc ''method'' (JStr ''GET'') of
                  JStr m0 \<Rightarrow>
                    (let m = upper_case m0 in
                     if m \<notin> {''GET'', ''POST''} then (Inr [], [])
                     else
                       (let r = api_request env dc u m in
                        case se_http env r of
                          None \<Rightarrow> (Inr [], [r])
                        | Some reply \<Rightarrow>
                            (if hr_redirect reply then Inr []
                             else if hr_error reply then Inr []
                             else if hr_length reply > api_response_max_bytes then Inr []
                             else case hr_data reply of
                               None \<Rightarrow> Inr []
                             | Some data \<Rightarrow> api_choices env dc data, [r])))
                | _ \<Rightarrow> (Inl Raised, [])))
      | _ \<Rightarrow> (Inl Raised, []))"

definition resolve_jinja2 ::
  "survey_env \<Rightarrow> (string \<times> json) list \<Rightarrow> survey_template option \<Rightarrow> json list" where
  "resolve_jinja2 env dc template =
     (if \<not> jinja2_source_enabled env then []
      else case dict_get dc ''template'' (JStr []) of
        JStr s \<Rightarrow>
          if s = [] then []
          else (case se_render_template env s (case template of None \<Rightarrow> None | Some t \<Rightarrow> st_inventory t) of
                  Some (JList xs) \<Rightarrow> take max_choices xs
                | _ \<Rightarrow> [])
      | _ \<Rightarrow> [])"

section \<open>Resolution\<close>

definition cache_prefix :: string where
  "cache_prefix = ''dynamic_survey_choices_''"

definition json_key :: "pk option \<Rightarrow> json" where
  "json_key k = (case k of None \<Rightarrow> JNull | Some i \<Rightarrow> JInt (int i))"

definition cache_scope :: "survey_template \<Rightarrow> json" where
  "cache_scope t = JList [json_key (st_pk t), json_key (st_organization t), json_key (st_inventory t)]"

definition cache_key ::
  "survey_env \<Rightarrow> string \<Rightarrow> (string \<times> json) list \<Rightarrow> survey_template option \<Rightarrow> string option" where
  "cache_key env variable dc template =
     (case template of
        None \<Rightarrow> None
      | Some t \<Rightarrow>
          if st_pk t = None then None
          else Some (cache_prefix @ se_digest env (JList [JStr variable, JObj dc, cache_scope t])))"

text \<open>The choices of the source; \<open>None\<close> where the function returns before it caches.\<close>

definition source_choices ::
  "survey_env \<Rightarrow> (string \<times> json) list \<Rightarrow> survey_template option \<Rightarrow> json list option \<times> http_request list" where
  "source_choices env dc template =
     (let of_result = (\<lambda>r. case r of Inl e \<Rightarrow> None | Inr xs \<Rightarrow> Some xs);
          source_type = dict_get dc ''source_type'' JNull in
      if source_type = JStr ''db_query'' then (of_result (resolve_db_query env dc template), [])
      else if source_type = JStr ''api_endpoint'' then
        (let (r, sent) = resolve_api_endpoint env dc in (of_result r, sent))
      else if source_type = JStr ''jinja2'' then
        (if \<not> jinja2_source_enabled env then (None, []) else (Some (resolve_jinja2 env dc template), []))
      else (None, []))"

definition dynamic_enabled :: "(string \<times> json) list \<Rightarrow> bool" where
  "dynamic_enabled dc \<longleftrightarrow> dc \<noteq> [] \<and> json_true (dict_get dc ''enabled'' JNull)"

text \<open>\<open>Inr None\<close>: the question is not dynamic. A time to live that is no number raises when it is compared.\<close>

definition resolve_dynamic_choices ::
  "survey_env \<Rightarrow> question \<Rightarrow> survey_template option \<Rightarrow> survey_state \<Rightarrow>
     (py_raise + string list option) \<times> survey_state" where
  "resolve_dynamic_choices env q template st =
     (let dc = q_dynamic_choices q in
      if \<not> dynamic_enabled dc then (Inr None, st)
      else
        (let ck = cache_key env (q_variable q) dc template in
         case (case ck of None \<Rightarrow> None | Some k \<Rightarrow> map_of (ss_cache st) k) of
           Some cached \<Rightarrow> (Inr (Some cached), st)
         | None \<Rightarrow>
             (let (found, sent) = source_choices env dc template;
                  st1 = st\<lparr>ss_requests := ss_requests st @ sent\<rparr>
              in case found of
                   None \<Rightarrow> (Inr (Some []), st1)
                 | Some xs \<Rightarrow>
                     (let choices = map (py_str (se_repr env)) xs;
                          ttl = dict_get dc ''cache_ttl'' (JInt 60)
                      in case ck of
                           None \<Rightarrow> (Inr (Some choices), st1)
                         | Some k \<Rightarrow>
                             if \<not> json_true ttl then (Inr (Some choices), st1)
                             else case py_num ttl of
                               None \<Rightarrow> (Inl Raised, st1)
                             | Some n \<Rightarrow>
                                 (Inr (Some choices),
                                  if n > 0 then st1\<lparr>ss_cache := AList.update k choices (ss_cache st1)\<rparr> else st1)))))"

text \<open>The permitted values of a question, and whether they are dynamic.\<close>

definition survey_choice_list ::
  "survey_env \<Rightarrow> question \<Rightarrow> survey_template option \<Rightarrow> survey_state \<Rightarrow>
     (py_raise + json list \<times> bool) \<times> survey_state" where
  "survey_choice_list env q template st =
     (if json_true (dict_get (q_dynamic_choices q) ''enabled'' JNull) then
        (let (r, st1) = resolve_dynamic_choices env q template st
         in (Inr (case r of Inr (Some cs) \<Rightarrow> map JStr cs | _ \<Rightarrow> [], True), st1))
      else (case q_choices q of
              JStr s \<Rightarrow> Inr (map JStr (filter (\<lambda>l. strip l \<noteq> []) (splitlines s)), False)
            | JList xs \<Rightarrow> Inr (xs, False)
            | JObj d \<Rightarrow> Inr (map (JStr \<circ> fst) d, False)
            | _ \<Rightarrow> Inl Raised, st))"

section \<open>Validation of a configuration\<close>

datatype config_error =
    NotADictionary | NoEnabledField | UnknownSource json | Jinja2Disabled | BadCacheTtl
  | UnknownModel json | UnknownField json | NoUrl | UrlRefused string | NoTemplate

definition ttl_valid :: "json \<Rightarrow> bool" where
  "ttl_valid v \<longleftrightarrow> (case v of JInt i \<Rightarrow> 0 \<le> i | JBool b \<Rightarrow> True | _ \<Rightarrow> False)"

definition source_errors :: "survey_env \<Rightarrow> (string \<times> json) list \<Rightarrow> string \<Rightarrow> py_raise + config_error list" where
  "source_errors env dc source_type =
     (if source_type = ''db_query'' then
        (let model = dict_get dc ''model'' (JStr []); field = dict_get dc ''field'' (JStr ''name'') in
         and_then (text_in model allowed_db_models) (\<lambda>m.
         and_then (text_in field allowed_db_fields) (\<lambda>f.
         Inr ((if m then [] else [UnknownModel model]) @ (if f then [] else [UnknownField field])))))
      else if source_type = ''api_endpoint'' then
        (case dict_get dc ''url'' (JStr []) of
           JStr u \<Rightarrow>
             if u = [] then Inr [NoUrl]
             else and_then (api_destination_refusal env u) (\<lambda>r.
               Inr (case r of None \<Rightarrow> [] | Some why \<Rightarrow> [UrlRefused why]))
         | _ \<Rightarrow> Inr [NoUrl])
      else
        (case dict_get dc ''template'' (JStr []) of
           JStr s \<Rightarrow> Inr (if s = [] then [NoTemplate] else [])
         | _ \<Rightarrow> Inr [NoTemplate]))"

definition validate_dynamic_choices_config :: "survey_env \<Rightarrow> json \<Rightarrow> py_raise + config_error list" where
  "validate_dynamic_choices_config env v =
     (case v of
        JObj dc \<Rightarrow>
          (case map_of dc ''enabled'' of
             None \<Rightarrow> Inr [NoEnabledField]
           | Some on \<Rightarrow>
               if \<not> json_true on then Inr []
               else case dict_get dc ''source_type'' (JStr []) of
                 JStr s \<Rightarrow>
                   if s \<notin> {''db_query'', ''api_endpoint'', ''jinja2''} then Inr [UnknownSource (JStr s)]
                   else if s = ''jinja2'' \<and> \<not> jinja2_source_enabled env then Inr [Jinja2Disabled]
                   else and_then (source_errors env dc s) (\<lambda>es.
                     Inr ((if ttl_valid (dict_get dc ''cache_ttl'' (JInt 60)) then [] else [BadCacheTtl]) @ es))
               | other \<Rightarrow> Inr [UnknownSource other])
      | _ \<Rightarrow> Inr [NotADictionary])"

end
