(* ===== verification/Survey_Answers.thy ===== *)
theory Survey_Answers
  imports Survey_Choices Encryption
begin

text \<open>
  The answers of a survey at launch: \<open>SurveyJobTemplateMixin\<close> and \<open>SurveyJobMixin\<close> of
  \<open>forail/main/models/mixins.py\<close>, \<open>accept_or_ignore_variables\<close> and the survey part of
  \<open>create_unified_job\<close> of \<open>forail/main/models/unified_jobs.py\<close>, and \<open>parse_yaml_or_json\<close>.

  A survey element is a \<^typ>\<open>question\<close>, as the API stores it (\<open>Survey_Spec\<close>). Choices are resolved
  while an answer is checked, so the operations pass on the state of the resolution. A run that raises
  ends in that state. Variables are dictionaries; the JSON text in which a job keeps them is left out.
  Arguments: the survey environment, the cipher, the parsers.
\<close>

section \<open>Data\<close>

type_synonym variables = "(string \<times> json) list"

text \<open>\<open>sh_spec\<close> is \<open>None\<close> where the specification is the empty object; a saved one has a list of questions.\<close>

record survey_holder =
  sh_enabled :: bool
  sh_spec :: "question list option"
  sh_ask_variables :: bool
  sh_extra_vars :: variables
  sh_template :: survey_template

datatype choice_error =
    StaticChoices json string "json list"
  | NoOptions json string
  | DynamicChoices json string nat

datatype survey_error =
    ValueMissing string
  | NotAString json string
  | TooShort string string json
  | TooLong string string json
  | NotAnInteger json string
  | NotANumber json string
  | TooSmall string json json
  | TooLarge string json json
  | NotAList string
  | BadChoice choice_error

record launch_errors =
  le_survey :: "survey_error list"
  le_not_allowed :: "string list"

definition no_errors :: "launch_errors \<Rightarrow> bool" where
  "no_errors e \<longleftrightarrow> le_survey e = [] \<and> le_not_allowed e = []"

fun dict_update :: "('k \<times> 'v) list \<Rightarrow> ('k \<times> 'v) list \<Rightarrow> ('k \<times> 'v) list" where
  "dict_update d [] = d"
| "dict_update d ((k, v) # e) = dict_update (AList.update k v d) e"

definition survey_elements :: "survey_holder \<Rightarrow> question list" where
  "survey_elements jt = (case sh_spec jt of None \<Rightarrow> [] | Some qs \<Rightarrow> qs)"

definition asked_elements :: "survey_holder \<Rightarrow> question list" where
  "asked_elements jt = (if sh_enabled jt then survey_elements jt else [])"

text \<open>Steps that change a state and may raise; what raises ends the run in the state it left.\<close>

fun run_each :: "('i \<Rightarrow> 's \<Rightarrow> 'e option \<times> 's) \<Rightarrow> 'i list \<Rightarrow> 's \<Rightarrow> 'e option \<times> 's" where
  "run_each f [] s = (None, s)"
| "run_each f (i # is) s = (case f i s of (None, s') \<Rightarrow> run_each f is s' | (Some e, s') \<Rightarrow> (Some e, s'))"

section \<open>The survey of a template\<close>

definition survey_password_variables :: "survey_holder \<Rightarrow> string list" where
  "survey_password_variables jt =
     map q_variable (filter (\<lambda>q. q_type q = ''password'') (asked_elements jt))"

definition variables_needed_to_start :: "survey_holder \<Rightarrow> string list" where
  "variables_needed_to_start jt =
     map q_variable (filter q_required (asked_elements jt))"

definition choice_error_message :: "question \<Rightarrow> json \<Rightarrow> json list \<Rightarrow> bool \<Rightarrow> choice_error" where
  "choice_error_message q v choices is_dynamic =
     (if \<not> is_dynamic then StaticChoices v (q_variable q) choices
      else if choices = [] then NoOptions v (q_variable q)
      else DynamicChoices v (q_variable q) (length choices))"

section \<open>One answer\<close>

text \<open>A limit counts unless it is missing, empty or null; one that is no number raises.\<close>

definition limit_with :: "(json \<Rightarrow> 'n option) \<Rightarrow> json option \<Rightarrow> py_raise + 'n option" where
  "limit_with conv m =
     (case m of
        None \<Rightarrow> Inr None
      | Some v \<Rightarrow>
          if v = JStr [] \<or> v = JNull then Inr None
          else (case conv v of None \<Rightarrow> Inl Raised | Some n \<Rightarrow> Inr (Some n)))"

definition py_float :: "survey_env \<Rightarrow> json \<Rightarrow> rat option" where
  "py_float env v = (case v of JStr s \<Rightarrow> se_float env s | _ \<Rightarrow> py_num v)"

definition below :: "'n::linorder \<Rightarrow> 'n option \<Rightarrow> bool" where
  "below n b \<longleftrightarrow> (case b of None \<Rightarrow> False | Some l \<Rightarrow> n < l)"

definition above :: "'n::linorder \<Rightarrow> 'n option \<Rightarrow> bool" where
  "above n b \<longleftrightarrow> (case b of None \<Rightarrow> False | Some l \<Rightarrow> l < n)"

definition shown_limit :: "json option \<Rightarrow> json" where
  "shown_limit m = (case m of None \<Rightarrow> JNull | Some v \<Rightarrow> v)"

definition text_errors :: "question \<Rightarrow> string \<Rightarrow> py_raise + survey_error list" where
  "text_errors q s =
     and_then (limit_with py_int (q_min q)) (\<lambda>lo.
     and_then (limit_with py_int (q_max q)) (\<lambda>hi.
       Inr ((if below (int (length s)) lo then [TooShort (q_variable q) s (shown_limit (q_min q))] else []) @
            (if above (int (length s)) hi then [TooLong (q_variable q) s (shown_limit (q_max q))] else []))))"

definition integer_errors :: "question \<Rightarrow> int \<Rightarrow> py_raise + survey_error list" where
  "integer_errors q i =
     and_then (limit_with py_int (q_min q)) (\<lambda>lo.
     and_then (limit_with py_int (q_max q)) (\<lambda>hi.
       Inr ((if below i lo then [TooSmall (q_variable q) (JInt i) (shown_limit (q_min q))] else []) @
            (if above i hi then [TooLarge (q_variable q) (JInt i) (shown_limit (q_max q))] else []))))"

definition float_errors :: "survey_env \<Rightarrow> question \<Rightarrow> json \<Rightarrow> rat \<Rightarrow> py_raise + survey_error list" where
  "float_errors env q v r =
     and_then (limit_with (py_float env) (q_min q)) (\<lambda>lo.
     and_then (limit_with (py_float env) (q_max q)) (\<lambda>hi.
       Inr ((if below r lo then [TooSmall (q_variable q) v (shown_limit (q_min q))] else []) @
            (if above r hi then [TooLarge (q_variable q) v (shown_limit (q_max q))] else []))))"

definition choice_errors :: "question \<Rightarrow> json list \<Rightarrow> json list \<times> bool \<Rightarrow> survey_error list" where
  "choice_errors q vs = (\<lambda>(choices, is_dynamic).
     map (\<lambda>v. BadChoice (choice_error_message q v choices is_dynamic)) (filter (\<lambda>v. \<not> py_in v choices) vs))"

definition check_choices ::
  "survey_env \<Rightarrow> survey_holder \<Rightarrow> question \<Rightarrow> json list \<Rightarrow> survey_state \<Rightarrow>
     (py_raise + survey_error list) \<times> survey_state" where
  "check_choices env jt q vs st =
     (let (r, st1) = survey_choice_list env q (Some (sh_template jt)) st
      in (and_then r (\<lambda>found. Inr (choice_errors q vs found)), st1))"

definition survey_element_validation ::
  "survey_env \<Rightarrow> survey_holder \<Rightarrow> question \<Rightarrow> variables \<Rightarrow> bool \<Rightarrow> survey_state \<Rightarrow>
     (py_raise + survey_error list) \<times> survey_state" where
  "survey_element_validation env jt q data validate_required st =
     (let var = q_variable q; value = map_of data var in
      if q_type q = ''password'' \<and> value = Some (JStr encrypted_mark) then
        (Inr (if q_default q = JNull \<and> q_required q \<and> validate_required then [ValueMissing var] else []), st)
      else if value = None \<and> q_required q then
        (Inr (if validate_required then [ValueMissing var] else []), st)
      else if q_type q \<in> {''textarea'', ''text'', ''password''} then
        (case value of
           None \<Rightarrow> (Inr [], st)
         | Some (JStr s) \<Rightarrow> (text_errors q s, st)
         | Some v \<Rightarrow> (Inr [NotAString v var], st))
      else if q_type q = ''integer'' then
        (case value of
           None \<Rightarrow> (Inr [], st)
         | Some (JInt i) \<Rightarrow> (integer_errors q i, st)
         | Some v \<Rightarrow> (Inr [NotAnInteger v var], st))
      else if q_type q = ''float'' then
        (case value of
           None \<Rightarrow> (Inr [], st)
         | Some (JInt i) \<Rightarrow> (float_errors env q (JInt i) (of_int i), st)
         | Some (JFloat r) \<Rightarrow> (float_errors env q (JFloat r) r, st)
         | Some v \<Rightarrow> (Inr [NotANumber v var], st))
      else if q_type q = ''multiselect'' then
        (case value of
           None \<Rightarrow> (Inr [], st)
         | Some (JList vs) \<Rightarrow> check_choices env jt q vs st
         | Some v \<Rightarrow> (Inr [NotAList var], st))
      else if q_type q = ''multiplechoice'' then
        check_choices env jt q (case value of None \<Rightarrow> [] | Some v \<Rightarrow> [v]) st
      else (Inr [], st))"

section \<open>All the answers\<close>

record answers =
  an_left :: variables
  an_accepted :: variables
  an_rejected :: variables
  an_errors :: "survey_error list"
  an_state :: survey_state

text \<open>The data an element is checked on: an answer kept from an earlier job is decrypted.\<close>

definition element_data ::
  "crypto \<Rightarrow> string list \<Rightarrow> variables \<Rightarrow> question \<Rightarrow> py_raise + variables" where
  "element_data c extra_passwords data q =
     (let key = q_variable q in
      if key \<in> set extra_passwords \<and> is_encrypted (dict_get data key JNull) then
        (case dict_get data key JNull of
           JStr s \<Rightarrow>
             (case decrypt_value c (get_encryption_key c ''value'' None None) s of
                Inl e \<Rightarrow> Inl Raised
              | Inr t \<Rightarrow> Inr [(key, JStr t)])
         | _ \<Rightarrow> Inr data)
      else Inr data)"

definition accept_element ::
  "crypto \<Rightarrow> survey_env \<Rightarrow> survey_holder \<Rightarrow> variables \<Rightarrow> bool \<Rightarrow> string list \<Rightarrow> question \<Rightarrow> answers \<Rightarrow>
     py_raise option \<times> answers" where
  "accept_element c env jt data validate_required extra_passwords q a =
     (case element_data c extra_passwords data q of
        Inl e \<Rightarrow> (Some e, a)
      | Inr data' \<Rightarrow>
          (case survey_element_validation env jt q data' validate_required (an_state a) of
             (Inl e, st) \<Rightarrow> (Some e, a\<lparr>an_state := st\<rparr>)
           | (Inr es, st) \<Rightarrow>
               (let key = q_variable q; a1 = a\<lparr>an_state := st, an_errors := an_errors a @ es\<rparr> in
                case map_of (an_left a) key of
                  None \<Rightarrow> (None, a1)
                | Some v \<Rightarrow>
                    if es \<noteq> [] then
                      (None, a1\<lparr>an_left := AList.delete key (an_left a),
                                an_rejected := AList.update key v (an_rejected a)\<rparr>)
                    else
                      (None, a1\<lparr>an_left := AList.delete key (an_left a),
                                an_accepted := AList.update key v (an_accepted a)\<rparr>))))"

definition prune_same :: "variables \<Rightarrow> variables \<Rightarrow> variables" where
  "prune_same tmpl vars =
     filter (\<lambda>(k, v). case map_of tmpl k of None \<Rightarrow> True | Some u \<Rightarrow> \<not> py_eq u v) vars"

text \<open>The accepted and the rejected variables and the errors.\<close>

definition sort_answers ::
  "crypto \<Rightarrow> survey_env \<Rightarrow> survey_holder \<Rightarrow> variables \<Rightarrow> string list \<Rightarrow> string list \<Rightarrow> survey_state \<Rightarrow>
     (py_raise + variables \<times> variables \<times> launch_errors) \<times> survey_state" where
  "sort_answers c env jt data exclude_errors extra_passwords st =
     (let (r, a) = run_each (accept_element c env jt data (''required'' \<notin> set exclude_errors) extra_passwords)
            (asked_elements jt)
            \<lparr>an_left = data, an_accepted = [], an_rejected = [], an_errors = [], an_state = st\<rparr>
      in case r of
           Some e \<Rightarrow> (Inl e, an_state a)
         | None \<Rightarrow>
             (let (accepted, left) = (if sh_ask_variables jt then (dict_update (an_accepted a) (an_left a), [])
                                      else (an_accepted a, prune_same (sh_extra_vars jt) (an_left a)))
              in (Inr (accepted, dict_update (an_rejected a) left,
                       \<lparr>le_survey = an_errors a,
                        le_not_allowed = (if ''prompts'' \<in> set exclude_errors then [] else map fst left)\<rparr>),
                  an_state a)))"

section \<open>Parsing of variables\<close>

record parsers =
  json_loads :: "string \<Rightarrow> json option"
  yaml_load :: "string \<Rightarrow> json option"
  json_compatible :: "json \<Rightarrow> bool"

text \<open>\<open>Inl\<close> is a \<open>ParseError\<close>, which only the strict variant raises.\<close>

definition parse_yaml_or_json :: "parsers \<Rightarrow> bool \<Rightarrow> json \<Rightarrow> py_raise + variables" where
  "parse_yaml_or_json p silent_failure v =
     (let failed = (if silent_failure then Inr [] else Inl Raised) in
      case v of
        JObj d \<Rightarrow> Inr d
      | JStr s \<Rightarrow>
          if s = [CHR 0x22, CHR 0x22] then Inr []
          else (case json_loads p s of
            Some (JObj d) \<Rightarrow> Inr d
          | _ \<Rightarrow>
              (case yaml_load p s of
                 Some JNull \<Rightarrow> Inr []
               | Some (JObj d) \<Rightarrow> if \<not> silent_failure \<and> \<not> json_compatible p (JObj d) then Inl Raised else Inr d
               | _ \<Rightarrow> failed))
      | _ \<Rightarrow> failed)"

text \<open>
  A template of a class without variables is \<open>None\<close>. The rejected value may be what was sent, in the
  shape it was sent.
\<close>

definition accept_or_ignore_variables ::
  "crypto \<Rightarrow> survey_env \<Rightarrow> parsers \<Rightarrow> survey_holder option \<Rightarrow> json \<Rightarrow> string list \<Rightarrow> string list \<Rightarrow>
     survey_state \<Rightarrow>
     (py_raise + variables \<times> json \<times> (launch_errors + json)) \<times> survey_state" where
  "accept_or_ignore_variables c env p tmpl data exclude_errors extra_passwords st =
     (case parse_yaml_or_json p False data of
        Inl e \<Rightarrow> (Inr ([], data, Inr data), st)
      | Inr d \<Rightarrow>
          (case tmpl of
             Some jt \<Rightarrow>
               (let (r, st1) = sort_answers c env jt d exclude_errors extra_passwords st
                in (and_then r (\<lambda>(accepted, rejected, es). Inr (accepted, JObj rejected, Inl es)), st1))
           | None \<Rightarrow> (Inr ([], JObj d, Inl \<lparr>le_survey = [], le_not_allowed = map fst d\<rparr>), st)))"

section \<open>The variables of a new job\<close>

record defaults =
  de_runtime :: variables
  de_survey :: variables
  de_state :: survey_state

definition plain_default :: "crypto \<Rightarrow> question \<Rightarrow> py_raise + json" where
  "plain_default c q =
     (case q_default q of
        JStr s \<Rightarrow>
          if q_type q = ''password'' \<and> startswith s encrypted_mark then
            (case decrypt_value c (get_encryption_key c ''value'' None None) s of
               Inl e \<Rightarrow> Inl Raised
             | Inr t \<Rightarrow> Inr (JStr t))
          else Inr (JStr s)
      | v \<Rightarrow> Inr v)"

definition default_element ::
  "crypto \<Rightarrow> survey_env \<Rightarrow> survey_holder \<Rightarrow> question \<Rightarrow> defaults \<Rightarrow> py_raise option \<times> defaults" where
  "default_element c env jt q d =
     (let key = q_variable q;
          d1 = (if q_type q = ''password'' \<and> map_of (de_runtime d) key = Some (JStr encrypted_mark)
                then d\<lparr>de_runtime := AList.delete key (de_runtime d)\<rparr> else d)
      in if q_default q = JNull then (None, d1)
         else case plain_default c q of
           Inl e \<Rightarrow> (Some e, d1)
         | Inr v \<Rightarrow>
             (case survey_element_validation env jt q [(key, v)] True (de_state d1) of
                (Inl e, st) \<Rightarrow> (Some e, d1\<lparr>de_state := st\<rparr>)
              | (Inr es, st) \<Rightarrow>
                  (None, d1\<lparr>de_state := st,
                            de_survey := (if es = [] then AList.update key (q_default q) (de_survey d1)
                                          else de_survey d1)\<rparr>)))"

text \<open>The variables of the job: those of the template, then the defaults, then those of the launch.\<close>

definition update_unified_job_kwargs ::
  "crypto \<Rightarrow> survey_env \<Rightarrow> survey_holder \<Rightarrow> variables \<Rightarrow> survey_state \<Rightarrow> (py_raise + variables) \<times> survey_state" where
  "update_unified_job_kwargs c env jt runtime st =
     (let (r, d) = run_each (default_element c env jt) (asked_elements jt)
            \<lparr>de_runtime = runtime, de_survey = [], de_state = st\<rparr>
      in (case r of
            Some e \<Rightarrow> Inl e
          | None \<Rightarrow> Inr (dict_update (dict_update (sh_extra_vars jt) (de_survey d)) (de_runtime d)), de_state d))"

text \<open>What of a job shows answers: its variables and the names that are redacted.\<close>

record survey_job =
  jb_extra_vars :: variables
  jb_survey_passwords :: variables

definition replaced_passwords :: "string list \<Rightarrow> variables" where
  "replaced_passwords names = map (\<lambda>n. (n, JStr encrypted_mark)) names"

text \<open>
  The survey part of \<open>create_unified_job\<close>: the password answers are encrypted in place, the job gets
  its variables, and the password variables join the passwords that a relaunch brings.
\<close>

definition create_survey_job ::
  "crypto \<Rightarrow> (string \<Rightarrow> nat) \<Rightarrow> survey_env \<Rightarrow> survey_holder \<Rightarrow> variables \<Rightarrow> variables \<Rightarrow> survey_state \<Rightarrow>
     (py_raise + survey_job) \<times> survey_state" where
  "create_survey_job c nonce env jt extra_vars new_job_passwords st =
     (case encrypt_dict c nonce extra_vars (survey_password_variables jt) of
        Inl e \<Rightarrow> (Inl Raised, st)
      | Inr runtime \<Rightarrow>
          (let (r, st1) = update_unified_job_kwargs c env jt runtime st
           in (and_then r (\<lambda>vars. Inr
                 \<lparr>jb_extra_vars = vars,
                  jb_survey_passwords =
                    dict_update new_job_passwords (replaced_passwords (survey_password_variables jt))\<rparr>), st1)))"

section \<open>The variables of a job\<close>

definition display_extra_vars :: "survey_job \<Rightarrow> variables" where
  "display_extra_vars j =
     map (\<lambda>(k, v). (k, case map_of (jb_survey_passwords j) k of None \<Rightarrow> v | Some u \<Rightarrow> u)) (jb_extra_vars j)"

definition decrypt_variable :: "crypto \<Rightarrow> survey_job \<Rightarrow> string \<times> json \<Rightarrow> py_raise + string \<times> json" where
  "decrypt_variable c j = (\<lambda>(k, v).
     case v of
       JStr s \<Rightarrow>
         if map_of (jb_survey_passwords j) k \<noteq> None \<and> startswith s encrypted_mark then
           (case decrypt_value c (get_encryption_key c ''value'' None None) s of
              Inl e \<Rightarrow> Inl Raised
            | Inr t \<Rightarrow> Inr (k, JStr t))
         else Inr (k, v)
     | _ \<Rightarrow> Inr (k, v))"

definition decrypted_extra_vars :: "crypto \<Rightarrow> survey_job \<Rightarrow> py_raise + variables" where
  "decrypted_extra_vars c j = each (decrypt_variable c j) (jb_extra_vars j)"

end
