(* ===== verification/Survey_Spec.thy ===== *)
theory Survey_Spec
  imports Survey_Answers
begin

text \<open>
  Saving a survey: \<open>JobTemplateSurveySpec._validate_spec_data\<close> of \<open>forail/api/views/job_templates.py\<close>
  with \<open>SURVEY_TYPE_MAPPING\<close>, and the endpoint that offers the choices of a survey's questions. The
  specification that comes in is a JSON object; what passes is the specification that is saved. A
  refusal names its reason, and \<open>Raises\<close> is an exception. The nonces and keys of the encryption of
  password defaults are those of \<open>Encryption\<close>. \<open>question_of\<close> reads a saved element the way
  \<open>mixins.py\<close> and \<open>dynamic_survey.py\<close> look it up.
\<close>

section \<open>Refusals\<close>

datatype spec_refusal =
    Raises
  | FieldMissing string
  | FieldType string
  | EmptySpec
  | NotAnObject nat
  | ElementMissing string nat
  | ElementType string nat
  | DuplicateVariable string nat
  | UnknownType string nat
  | DefaultType nat
  | LimitType string nat
  | ChoicesMissing nat
  | ManyDefaults
  | DefaultNotListed
  | DynamicErrors nat "config_error list"
  | DynamicType nat
  | ReservedWord nat
  | ReservedDefault nat

section \<open>The fields of the specification\<close>

definition survey_types :: "string list" where
  "survey_types = [''text'', ''textarea'', ''password'', ''multiplechoice'', ''multiselect'', ''integer'', ''float'']"

text \<open>\<open>isinstance\<close>; a boolean is an integer.\<close>

definition is_str :: "json \<Rightarrow> bool" where
  "is_str v \<longleftrightarrow> (case v of JStr _ \<Rightarrow> True | _ \<Rightarrow> False)"

definition is_int :: "json \<Rightarrow> bool" where
  "is_int v \<longleftrightarrow> (case v of JInt _ \<Rightarrow> True | JBool _ \<Rightarrow> True | _ \<Rightarrow> False)"

definition is_bool :: "json \<Rightarrow> bool" where
  "is_bool v \<longleftrightarrow> (case v of JBool _ \<Rightarrow> True | _ \<Rightarrow> False)"

definition is_list :: "json \<Rightarrow> bool" where
  "is_list v \<longleftrightarrow> (case v of JList _ \<Rightarrow> True | _ \<Rightarrow> False)"

definition has_mapped_type :: "string \<Rightarrow> json \<Rightarrow> bool" where
  "has_mapped_type qtype v \<longleftrightarrow>
     (if qtype = ''integer'' then is_int v
      else if qtype = ''float'' then is_int v \<or> (case v of JFloat _ \<Rightarrow> True | _ \<Rightarrow> False)
      else is_str v)"

definition schema_error :: "variables \<Rightarrow> (string \<times> (json \<Rightarrow> bool)) \<Rightarrow> spec_refusal list" where
  "schema_error new_spec = (\<lambda>(field, expected).
     case map_of new_spec field of
       None \<Rightarrow> [FieldMissing field]
     | Some v \<Rightarrow> if expected v then [] else [FieldType field])"

text \<open>A later error replaces an earlier one in the answer.\<close>

definition schema_errors :: "variables \<Rightarrow> spec_refusal list" where
  "schema_errors new_spec =
     concat (map (schema_error new_spec) [(''name'', is_str), (''description'', is_str), (''spec'', is_list)]) @
     (if map_of new_spec ''spec'' = Some (JList []) then [EmptySpec] else [])"

definition pivot_entry :: "json \<Rightarrow> (string \<times> variables) list \<Rightarrow> (string \<times> variables) list" where
  "pivot_entry e p =
     (case e of
        JObj d \<Rightarrow> (case map_of d ''variable'' of Some (JStr v) \<Rightarrow> AList.update v d p | _ \<Rightarrow> p)
      | _ \<Rightarrow> p)"

definition pivot_spec :: "variables \<Rightarrow> (string \<times> variables) list" where
  "pivot_spec spec = (case dict_get spec ''spec'' (JList []) of JList es \<Rightarrow> fold pivot_entry es [] | _ \<Rightarrow> [])"

section \<open>One element\<close>

definition element_field :: "nat \<Rightarrow> variables \<Rightarrow> string \<Rightarrow> (json \<Rightarrow> bool) \<Rightarrow> spec_refusal + json" where
  "element_field idx item field expected =
     (case map_of item field of
        None \<Rightarrow> Inl (ElementMissing field idx)
      | Some v \<Rightarrow> if expected v then Inr v else Inl (ElementType field idx))"

definition require :: "bool \<Rightarrow> 'e \<Rightarrow> 'e + unit" where
  "require p e = (if p then Inr () else Inl e)"

definition text_of :: "json \<Rightarrow> string" where
  "text_of v = (case v of JStr s \<Rightarrow> s | _ \<Rightarrow> [])"

definition limit_type_ok :: "json option \<Rightarrow> bool" where
  "limit_type_ok m \<longleftrightarrow> (case m of None \<Rightarrow> True | Some v \<Rightarrow> v = JNull \<or> is_int v)"

definition squeeze_lines :: "json \<Rightarrow> json" where
  "squeeze_lines v =
     (case v of
        JStr s \<Rightarrow> JStr (join_with [CHR 0x0A] (filter (\<lambda>l. strip l \<noteq> []) (splitlines s)))
      | _ \<Rightarrow> v)"

definition default_list :: "json \<Rightarrow> spec_refusal + json list" where
  "default_list v =
     (case v of
        JStr s \<Rightarrow> Inr (map JStr (splitlines s))
      | JList xs \<Rightarrow> Inr xs
      | JObj d \<Rightarrow> Inr (map (JStr \<circ> fst) d)
      | _ \<Rightarrow> Inl Raises)"

text \<open>\<open>item not in choices\<close>: on a text it asks for a part of the text.\<close>

definition among_choices :: "json \<Rightarrow> json \<Rightarrow> spec_refusal + bool" where
  "among_choices choices v =
     (case choices of
        JStr s \<Rightarrow> (case v of JStr t \<Rightarrow> Inr (contains_sub s t) | _ \<Rightarrow> Inl Raises)
      | JList xs \<Rightarrow> Inr (py_in v xs)
      | JObj d \<Rightarrow> (case v of JStr t \<Rightarrow> Inr (map_of d t \<noteq> None) | JList _ \<Rightarrow> Inl Raises | JObj _ \<Rightarrow> Inl Raises | _ \<Rightarrow> Inr False)
      | _ \<Rightarrow> Inl Raises)"

fun all_among :: "json \<Rightarrow> json list \<Rightarrow> spec_refusal + bool" where
  "all_among choices [] = Inr True"
| "all_among choices (v # vs) =
     and_then (among_choices choices v) (\<lambda>b. if b then all_among choices vs else Inr False)"

definition is_choice_type :: "string \<Rightarrow> bool" where
  "is_choice_type qtype \<longleftrightarrow> qtype = ''multiselect'' \<or> qtype = ''multiplechoice''"

definition check_defaults :: "string \<Rightarrow> json \<Rightarrow> json \<Rightarrow> spec_refusal + unit" where
  "check_defaults qtype choices dflt =
     and_then (default_list dflt) (\<lambda>defaults.
     and_then (require (\<not> (qtype = ''multiplechoice'' \<and> length defaults > 1)) ManyDefaults) (\<lambda>_.
     and_then (all_among choices defaults) (\<lambda>listed. require listed DefaultNotListed)))"

definition check_choice_fields :: "nat \<Rightarrow> string \<Rightarrow> variables \<Rightarrow> spec_refusal + variables" where
  "check_choice_fields idx qtype item =
     (if \<not> is_choice_type qtype then Inr item
      else case map_of item ''choices'' of
        None \<Rightarrow> Inl (ChoicesMissing idx)
      | Some choices \<Rightarrow>
          (let item1 = AList.update ''choices'' (squeeze_lines choices) item in
           case map_of item1 ''default'' of
             None \<Rightarrow> Inr item1
           | Some d \<Rightarrow>
               (let item2 = AList.update ''default'' (squeeze_lines d) item1 in
                and_then (check_defaults qtype (squeeze_lines choices) (squeeze_lines d)) (\<lambda>_. Inr item2))))"

definition check_dynamic :: "survey_env \<Rightarrow> nat \<Rightarrow> string \<Rightarrow> variables \<Rightarrow> spec_refusal + unit" where
  "check_dynamic env idx qtype item =
     (case map_of item ''dynamic_choices'' of
        None \<Rightarrow> Inr ()
      | Some dc \<Rightarrow>
          (case validate_dynamic_choices_config env dc of
             Inl e \<Rightarrow> Inl Raises
           | Inr es \<Rightarrow>
               if es \<noteq> [] then Inl (DynamicErrors idx es)
               else (case dc of
                 JObj d \<Rightarrow> require (\<not> (json_true (dict_get d ''enabled'' JNull) \<and> \<not> is_choice_type qtype)) (DynamicType idx)
               | _ \<Rightarrow> Inl Raises)))"

text \<open>A default that says \<open>$encrypted$\<close> stands for the stored one, which must be encrypted or blank.\<close>

definition stored_default :: "(string \<times> variables) list \<Rightarrow> string \<Rightarrow> json option" where
  "stored_default old variable =
     (case map_of (dict_get old variable []) ''default'' of
        Some (JStr s) \<Rightarrow> if startswith s encrypted_mark \<or> s = [] then Some (JStr s) else None
      | _ \<Rightarrow> None)"

definition protect_default ::
  "crypto \<Rightarrow> (string \<Rightarrow> nat) \<Rightarrow> (string \<times> variables) list \<Rightarrow> nat \<Rightarrow> string \<Rightarrow> string \<Rightarrow> variables \<Rightarrow>
     spec_refusal + variables" where
  "protect_default c nonce old idx qtype variable item =
     (case map_of item ''default'' of
        None \<Rightarrow> Inr item
      | Some d \<Rightarrow>
          if is_str d \<and> startswith (text_of d) encrypted_mark then
            (if qtype \<noteq> ''password'' then Inl (ReservedWord idx)
             else case stored_default old variable of
               None \<Rightarrow> Inl (ReservedDefault idx)
             | Some u \<Rightarrow> Inr (AList.update ''default'' u item))
          else if qtype = ''password'' then
            (case encrypt_value c (nonce variable) d None None of
               Inl e \<Rightarrow> Inl Raises
             | Inr u \<Rightarrow> Inr (AList.update ''default'' u item))
          else Inr item)"

definition validate_element ::
  "crypto \<Rightarrow> (string \<Rightarrow> nat) \<Rightarrow> survey_env \<Rightarrow> (string \<times> variables) list \<Rightarrow> string list \<Rightarrow> nat \<Rightarrow> json \<Rightarrow>
     spec_refusal + string list \<times> variables" where
  "validate_element c nonce env old seen idx e =
     (case e of
        JObj item \<Rightarrow>
          and_then (element_field idx item ''type'' is_str) (\<lambda>t.
          and_then (element_field idx item ''question_name'' is_str) (\<lambda>_.
          and_then (element_field idx item ''variable'' is_str) (\<lambda>v.
          and_then (element_field idx item ''required'' is_bool) (\<lambda>_.
          let qtype = text_of t; variable = text_of v in
          and_then (require (variable \<notin> set seen) (DuplicateVariable variable idx)) (\<lambda>_.
          and_then (require (qtype \<in> set survey_types) (UnknownType qtype idx)) (\<lambda>_.
          and_then (require (case map_of item ''default'' of
                               None \<Rightarrow> True
                             | Some d \<Rightarrow> d = JStr [] \<or> has_mapped_type qtype d) (DefaultType idx)) (\<lambda>_.
          and_then (require (limit_type_ok (map_of item ''min'')) (LimitType ''min'' idx)) (\<lambda>_.
          and_then (require (limit_type_ok (map_of item ''max'')) (LimitType ''max'' idx)) (\<lambda>_.
          and_then (check_choice_fields idx qtype item) (\<lambda>item1.
          and_then (check_dynamic env idx qtype item1) (\<lambda>_.
          and_then (protect_default c nonce old idx qtype variable item1) (\<lambda>item2.
            Inr (variable # seen, item2)))))))))))))
      | _ \<Rightarrow> Inl (NotAnObject idx))"

fun validate_elements ::
  "crypto \<Rightarrow> (string \<Rightarrow> nat) \<Rightarrow> survey_env \<Rightarrow> (string \<times> variables) list \<Rightarrow> string list \<Rightarrow> nat \<Rightarrow> json list \<Rightarrow>
     spec_refusal + variables list" where
  "validate_elements c nonce env old seen idx [] = Inr []"
| "validate_elements c nonce env old seen idx (e # es) =
     and_then (validate_element c nonce env old seen idx e) (\<lambda>(seen', item).
     and_then (validate_elements c nonce env old seen' (Suc idx) es) (\<lambda>items. Inr (item # items)))"

definition validate_spec_data ::
  "crypto \<Rightarrow> (string \<Rightarrow> nat) \<Rightarrow> survey_env \<Rightarrow> variables \<Rightarrow> variables \<Rightarrow> spec_refusal + variables" where
  "validate_spec_data c nonce env new_spec old_spec =
     (if schema_errors new_spec \<noteq> [] then Inl (last (schema_errors new_spec))
      else case dict_get new_spec ''spec'' (JList []) of
        JList es \<Rightarrow>
          and_then (validate_elements c nonce env (pivot_spec old_spec) [] 0 es) (\<lambda>items.
            Inr (AList.update ''spec'' (JList (map JObj items)) new_spec))
      | _ \<Rightarrow> Inl Raises)"

section \<open>The saved survey\<close>

definition question_of :: "variables \<Rightarrow> question option" where
  "question_of d =
     (case (map_of d ''type'', map_of d ''variable'', map_of d ''required'') of
        (Some (JStr t), Some (JStr v), Some (JBool r)) \<Rightarrow>
          Some \<lparr>q_type = t, q_variable = v, q_required = r, q_min = map_of d ''min'', q_max = map_of d ''max'',
                q_default = dict_get d ''default'' JNull, q_choices = dict_get d ''choices'' (JList []),
                q_dynamic_choices = (case map_of d ''dynamic_choices'' of Some (JObj dc) \<Rightarrow> dc | _ \<Rightarrow> [])\<rparr>
      | _ \<Rightarrow> None)"

fun questions_of :: "json list \<Rightarrow> question list option" where
  "questions_of [] = Some []"
| "questions_of (e # es) =
     (case e of
        JObj d \<Rightarrow>
          (case question_of d of
             None \<Rightarrow> None
           | Some q \<Rightarrow> (case questions_of es of None \<Rightarrow> None | Some qs \<Rightarrow> Some (q # qs)))
      | _ \<Rightarrow> None)"

definition saved_questions :: "variables \<Rightarrow> question list option" where
  "saved_questions spec = (case dict_get spec ''spec'' (JList []) of JList es \<Rightarrow> questions_of es | _ \<Rightarrow> None)"

section \<open>Offering the choices\<close>

text \<open>
  \<open>JobTemplateSurveyDynamicChoices.post\<close>: \<open>Inl\<close> is the answer 400. The choices of the questions asked
  for, with the type of their source; all questions where none are named.
\<close>

definition offer_question ::
  "survey_env \<Rightarrow> survey_holder \<Rightarrow> json list \<Rightarrow> question \<Rightarrow> (string \<times> string list \<times> json) list \<times> survey_state \<Rightarrow>
     py_raise option \<times> (string \<times> string list \<times> json) list \<times> survey_state" where
  "offer_question env jt requested q = (\<lambda>(results, st).
     if (requested \<noteq> [] \<and> \<not> py_in (JStr (q_variable q)) requested) \<or> \<not> dynamic_enabled (q_dynamic_choices q)
     then (None, results, st)
     else (case resolve_dynamic_choices env q (Some (sh_template jt)) st of
       (Inl e, st1) \<Rightarrow> (Some e, results, st1)
     | (Inr found, st1) \<Rightarrow>
         (None,
          AList.update (q_variable q)
            (case found of None \<Rightarrow> [] | Some cs \<Rightarrow> cs, dict_get (q_dynamic_choices q) ''source_type'' (JStr []))
            results,
          st1)))"

definition offer_choices ::
  "survey_env \<Rightarrow> survey_holder \<Rightarrow> json \<Rightarrow> survey_state \<Rightarrow>
     (py_raise + string + (string \<times> string list \<times> json) list) \<times> survey_state" where
  "offer_choices env jt variables st =
     (if \<not> sh_enabled jt \<or> sh_spec jt = None
      then (Inr (Inl ''Survey is not enabled for this template.''), st)
      else case variables of
        JList requested \<Rightarrow>
          (case run_each (offer_question env jt requested) (survey_elements jt) ([], st) of
             (Some e, results, st1) \<Rightarrow> (Inl e, st1)
           | (None, results, st1) \<Rightarrow> (Inr (Inr results), st1))
      | _ \<Rightarrow> (Inr (Inl ''variables must be a list of survey variable names.''), st))"

end
