(* ===== verification/Survey_Runs.thy ===== *)
theory Survey_Runs
  imports Survey_Spec
begin

text \<open>
  What the runs over a survey keep. \<open>survey_run\<close> is the contract between the resolution of choices and
  the operations that check answers: a condition of the state that resolving a question keeps is kept
  by all of them. It is interpreted on the requests that are sent, on the cache's size and on the
  cache's truth.
\<close>

lemma asked_element: "q \<in> set (asked_elements jt) \<Longrightarrow> q \<in> set (survey_elements jt)"
  by (auto simp: asked_elements_def split: if_splits)

section \<open>Conditions that a run keeps\<close>

lemma run_each_keeps:
  assumes "\<And>i s. i \<in> set is \<Longrightarrow> P s \<Longrightarrow> P (snd (f i s))" and "P s"
  shows "P (snd (run_each f is s))"
  using assms
proof (induction "is" arbitrary: s)
  case (Cons i "is")
  have P: "P (snd (f i s))" using Cons.prems by simp
  show ?case
  proof (cases "f i s")
    case (Pair r s')
    with P Cons show ?thesis by (cases r) auto
  qed
qed simp

locale survey_run =
  fixes env :: survey_env and jt :: survey_holder and ok :: "survey_state \<Rightarrow> bool"
  assumes resolve_keeps:
    "q \<in> set (survey_elements jt) \<Longrightarrow> ok st \<Longrightarrow> ok (snd (resolve_dynamic_choices env q (Some (sh_template jt)) st))"
begin

lemma choice_list_keeps:
  assumes "q \<in> set (survey_elements jt)" and "ok st"
  shows "ok (snd (survey_choice_list env q (Some (sh_template jt)) st))"
  using resolve_keeps [OF assms] assms(2) by (simp add: survey_choice_list_def case_prod_beta Let_def)

lemma check_choices_keeps:
  assumes "q \<in> set (survey_elements jt)" and "ok st"
  shows "ok (snd (check_choices env jt q vs st))"
  using choice_list_keeps [OF assms] by (simp add: check_choices_def case_prod_beta Let_def)

lemma validation_keeps:
  assumes "q \<in> set (survey_elements jt)" and "ok st"
  shows "ok (snd (survey_element_validation env jt q data vr st))"
  using assms(2) check_choices_keeps [OF assms]
  by (simp add: survey_element_validation_def Let_def split: option.split json.split)

lemma accept_keeps:
  assumes "q \<in> set (survey_elements jt)" and "ok (an_state a)"
  shows "ok (an_state (snd (accept_element c env jt data vr eps q a)))"
proof (cases "element_data c eps data q")
  case (Inr d)
  have "ok (snd (survey_element_validation env jt q d vr (an_state a)))" by (rule validation_keeps [OF assms])
  then show ?thesis using Inr
    by (auto simp: accept_element_def Let_def split: sum.split option.split prod.split)
qed (simp add: accept_element_def assms(2))

lemma sort_answers_keeps:
  assumes "ok st"
  shows "ok (snd (sort_answers c env jt data excl eps st))"
proof -
  let ?qs = "asked_elements jt"
  let ?a = "\<lparr>an_left = data, an_accepted = [], an_rejected = [], an_errors = [], an_state = st\<rparr>"
  have "ok (an_state (snd (run_each (accept_element c env jt data (''required'' \<notin> set excl) eps) ?qs ?a)))"
    by (rule run_each_keeps [where P = "\<lambda>a. ok (an_state a)"])
      (use assms in \<open>auto intro!: accept_keeps dest: asked_element\<close>)
  then show ?thesis by (simp add: sort_answers_def case_prod_beta Let_def split: option.split)
qed

lemma accept_or_ignore_keeps:
  assumes "ok st"
  shows "ok (snd (accept_or_ignore_variables c env p (Some jt) data excl eps st))"
  using assms sort_answers_keeps [OF assms]
  by (auto simp: accept_or_ignore_variables_def case_prod_beta Let_def split: sum.split)

lemma default_keeps:
  assumes "q \<in> set (survey_elements jt)" and "ok (de_state d)"
  shows "ok (de_state (snd (default_element c env jt q d)))"
proof -
  have "ok (snd (survey_element_validation env jt q [(q_variable q, v)] True (de_state d)))" for v
    by (rule validation_keeps [OF assms])
  then show ?thesis using assms(2)
    by (auto simp: default_element_def Let_def split: sum.split option.split prod.split)
      (metis snd_conv)+
qed

lemma update_kwargs_keeps:
  assumes "ok st"
  shows "ok (snd (update_unified_job_kwargs c env jt runtime st))"
proof -
  let ?qs = "asked_elements jt"
  have "ok (de_state (snd (run_each (default_element c env jt) ?qs
      \<lparr>de_runtime = runtime, de_survey = [], de_state = st\<rparr>)))"
    by (rule run_each_keeps [where P = "\<lambda>d. ok (de_state d)"])
      (use assms in \<open>auto intro!: default_keeps dest: asked_element\<close>)
  then show ?thesis by (simp add: update_unified_job_kwargs_def case_prod_beta Let_def)
qed

lemma create_job_keeps:
  assumes "ok st"
  shows "ok (snd (create_survey_job c nonce env jt extra passwords st))"
  using assms update_kwargs_keeps [OF assms]
  by (simp add: create_survey_job_def case_prod_beta Let_def split: sum.split)

lemma offer_keeps:
  assumes "ok st"
  shows "ok (snd (offer_choices env jt vars st))"
proof -
  have one: "ok (snd (snd (offer_question env jt req q rs)))"
    if "q \<in> set (survey_elements jt)" "ok (snd rs)" for req q rs
    using that resolve_keeps [OF that]
    by (auto simp: offer_question_def case_prod_beta split: sum.split prod.split)
  have all: "ok (snd (snd (run_each (offer_question env jt req) (survey_elements jt) ([], st))))" for req
    by (rule run_each_keeps [where P = "\<lambda>rs. ok (snd rs)"]) (use assms one in auto)
  show ?thesis using assms all
    by (simp add: offer_choices_def case_prod_beta split: json.split option.split)
qed

end

section \<open>The requests\<close>

text \<open>What the header of \<open>dynamic_survey.py\<close> and the documentation of the feature promise of a request.\<close>

definition host_permitted :: "survey_env \<Rightarrow> string \<Rightarrow> bool" where
  "host_permitted env host \<longleftrightarrow> lower host \<in> set (api_allowlist env) \<and>
     (\<exists>port addresses. se_resolve_host env host port = Some addresses \<and>
        (\<forall>a \<in> set addresses. \<exists>props. a = Some props \<and> set props \<inter> set forbidden_properties = {}))"

text \<open>The parsers agree on a URL if the client connects to the host that \<open>urlsplit\<close> reads.\<close>

definition parsers_agree :: "survey_env \<Rightarrow> string \<Rightarrow> bool" where
  "parsers_agree env url \<longleftrightarrow> se_client_host env url = Option.bind (se_split_url env url) up_host"

definition request_permitted :: "survey_env \<Rightarrow> http_request \<Rightarrow> bool" where
  "request_permitted env r \<longleftrightarrow>
     (\<exists>parts host.
        se_split_url env (hq_url r) = Some parts \<and> up_scheme parts = ''https'' \<and>
        up_host parts = Some host \<and> host_permitted env host) \<and>
     (parsers_agree env (hq_url r) \<longrightarrow>
        (\<exists>host. se_client_host env (hq_url r) = Some host \<and> host_permitted env host)) \<and>
     hq_method r \<in> {''GET'', ''POST''} \<and> hq_timeout r \<le> 30 \<and> \<not> hq_redirects r"

definition requests_permitted :: "survey_env \<Rightarrow> survey_state \<Rightarrow> bool" where
  "requests_permitted env st \<longleftrightarrow> (\<forall>r \<in> set (ss_requests st). request_permitted env r)"

lemma forbidden_address_None:
  "forbidden_address as = None \<Longrightarrow>
     \<forall>a \<in> set as. \<exists>props. a = Some props \<and> set props \<inter> set forbidden_properties = {}"
proof (induction as rule: forbidden_address.induct)
  case (3 props as)
  then show ?case by (auto split: list.splits simp: filter_empty_conv)
qed simp_all

lemma destination_permitted:
  assumes "api_destination_refusal env url = Inr None"
  shows "\<exists>parts host. se_split_url env url = Some parts \<and> up_scheme parts = ''https'' \<and>
        up_host parts = Some host \<and> host_permitted env host"
  using assms
  by (auto simp: api_destination_refusal_def host_permitted_def split: option.splits sum.splits if_splits
      dest!: forbidden_address_None)

lemma api_timeout_le: "api_timeout env v \<le> 30"
  by (auto simp: api_timeout_def api_max_timeout_def split: json.split option.split)

lemma endpoint_requests:
  assumes "r \<in> set (snd (resolve_api_endpoint env dc))"
  shows "request_permitted env r"
proof -
  from assms obtain u m where "api_destination_refusal env u = Inr None"
    and "m \<in> {''GET'', ''POST''}" and "r = api_request env dc u m"
    by (auto simp: resolve_api_endpoint_def Let_def split: if_splits json.splits sum.splits option.splits)
  then show ?thesis using destination_permitted [of env u] api_timeout_le
    by (auto simp: request_permitted_def parsers_agree_def api_request_def)
qed

text \<open>
  Where the parsers differ, the check protects nothing: a URL in which \<open>urlsplit\<close> reads a permitted
  host is fetched from the host that the client reads in it, whether or not that one is listed.
\<close>

theorem parser_gap_reaches_unlisted:
  assumes "se_split_url env u = Some \<lparr>up_scheme = ''https'', up_host = Some h, up_port = Inr None\<rparr>"
    and "h \<noteq> []" and "lower h \<in> set (api_allowlist env)"
    and "se_resolve_host env h 443 = Some infos" and "forbidden_address infos = None"
    and "u \<noteq> []" and "se_client_host env u = Some e" and "\<not> host_permitted env e"
  shows "\<exists>r. snd (resolve_api_endpoint env [(''url'', JStr u)]) = [r] \<and> hq_url r = u \<and>
    (\<exists>e. se_client_host env (hq_url r) = Some e \<and> \<not> host_permitted env e)"
proof -
  have "api_allowlist env \<noteq> []" using assms(3) by auto
  then have "api_destination_refusal env u = Inr None"
    using assms(1-5) by (simp add: api_destination_refusal_def)
  moreover have "upper_case ''GET'' = ''GET''" by code_simp
  ultimately show ?thesis
    using assms(6-8)
    by (auto simp: resolve_api_endpoint_def dict_get_def api_request_def Let_def split: option.split)
qed

text \<open>The URL with a backslash before the separator of the user name.\<close>

definition backslash_url :: string where
  "backslash_url = ''https://evil.com'' @ [CHR 0x5C] @ ''@allowed.example/x''"

definition two_parsers :: survey_env where
  "two_parsers = \<lparr>se_allowlist = JStr ''allowed.example'', se_jinja2_enabled = JBool False,
     se_split_url = (\<lambda>_. Some \<lparr>up_scheme = ''https'', up_host = Some ''allowed.example'', up_port = Inr None\<rparr>),
     se_client_host = (\<lambda>_. Some ''evil.com''), se_resolve_host = (\<lambda>_ _. Some []),
     se_http = (\<lambda>_. None), se_query = (\<lambda>_ _ _. None), se_render_template = (\<lambda>_ _. None),
     se_digest = (\<lambda>_. []), se_float = (\<lambda>_. None), se_repr = (\<lambda>_. [])\<rparr>"

lemma two_parsers_list: "api_allowlist two_parsers = [''allowed.example'']"
  by code_simp

theorem parser_gap_reaches_unlisted_witness:
  "\<exists>r. snd (resolve_api_endpoint two_parsers [(''url'', JStr backslash_url)]) = [r] \<and> hq_url r = backslash_url \<and>
    (\<exists>e. se_client_host two_parsers (hq_url r) = Some e \<and> \<not> host_permitted two_parsers e)"
proof (rule parser_gap_reaches_unlisted [where infos = "[]"])
  show "lower ''allowed.example'' \<in> set (api_allowlist two_parsers)"
    unfolding two_parsers_list by code_simp
  have "lower ''evil.com'' \<noteq> ''allowed.example''" by code_simp
  then show "\<not> host_permitted two_parsers ''evil.com''"
    by (simp add: host_permitted_def two_parsers_list)
qed (simp_all add: two_parsers_def backslash_url_def)

lemma source_requests: "r \<in> set (snd (source_choices env dc t)) \<Longrightarrow> request_permitted env r"
  by (auto simp: source_choices_def Let_def case_prod_beta split: if_splits intro: endpoint_requests)

lemma resolve_requests:
  "set (ss_requests (snd (resolve_dynamic_choices env q t st))) \<subseteq>
     set (ss_requests st) \<union> set (snd (source_choices env (q_dynamic_choices q) t))"
  by (auto simp: resolve_dynamic_choices_def Let_def case_prod_beta split: if_splits option.splits)

interpretation permitted: survey_run env jt "requests_permitted env" for env jt
proof
  fix q st assume "requests_permitted env st"
  then show "requests_permitted env (snd (resolve_dynamic_choices env q (Some (sh_template jt)) st))"
    using resolve_requests [of env q "Some (sh_template jt)" st] source_requests
    unfolding requests_permitted_def by blast
qed

section \<open>The number of choices\<close>

definition choices_bounded :: "survey_state \<Rightarrow> bool" where
  "choices_bounded st \<longleftrightarrow> (\<forall>e \<in> set (ss_cache st). length (snd e) \<le> max_choices)"

lemma api_items_bounded: "api_items env f data = Inr xs \<Longrightarrow> length xs \<le> max_choices"
  by (auto simp: api_items_def split: if_splits json.splits)

lemma api_choices_bounded: "api_choices env dc data = Inr xs \<Longrightarrow> length xs \<le> max_choices"
  by (auto simp: api_choices_def Let_def and_then_def api_items_bounded
      split: sum.splits option.splits json.splits if_splits)

lemma endpoint_bounded: "fst (resolve_api_endpoint env dc) = Inr xs \<Longrightarrow> length xs \<le> max_choices"
  by (auto simp: resolve_api_endpoint_def Let_def api_choices_bounded
      split: if_splits json.splits sum.splits option.splits)

lemma db_bounded: "resolve_db_query env dc t = Inr xs \<Longrightarrow> length xs \<le> max_choices"
  by (auto simp: resolve_db_query_def Let_def and_then_def max_choices_def
      split: if_splits json.splits sum.splits option.splits)

lemma jinja2_bounded: "length (resolve_jinja2 env dc t) \<le> max_choices"
  by (simp add: resolve_jinja2_def split: json.split option.split)

lemma source_bounded: "fst (source_choices env dc t) = Some xs \<Longrightarrow> length xs \<le> max_choices"
  using jinja2_bounded [of env dc t]
  by (auto simp: source_choices_def Let_def case_prod_beta endpoint_bounded db_bounded
      split: if_splits sum.splits)

lemma update_bounded:
  assumes "\<forall>e \<in> set d. length (snd e) \<le> n" and "length v \<le> n"
  shows "\<forall>e \<in> set (AList.update k v d). length (snd e) \<le> n"
  using assms by (induction d) auto

lemma resolve_bounded:
  assumes "choices_bounded st"
  shows "choices_bounded (snd (resolve_dynamic_choices env q t st))"
    and "fst (resolve_dynamic_choices env q t st) = Inr (Some cs) \<Longrightarrow> length cs \<le> max_choices"
proof -
  have new: "choices_bounded (st\<lparr>ss_requests := r, ss_cache := AList.update k (map f xs) (ss_cache st)\<rparr>)"
    if "fst (source_choices env dc t) = Some xs" for r k and f :: "json \<Rightarrow> string" and xs dc
    using update_bounded [OF assms [unfolded choices_bounded_def], of "map f xs" k] source_bounded [OF that]
    by (simp add: choices_bounded_def)
  then show "choices_bounded (snd (resolve_dynamic_choices env q t st))"
    using assms
    by (auto simp: resolve_dynamic_choices_def Let_def case_prod_beta choices_bounded_def
        split: option.split)
  show "length cs \<le> max_choices" if "fst (resolve_dynamic_choices env q t st) = Inr (Some cs)"
    using that assms
    by (auto simp: resolve_dynamic_choices_def Let_def case_prod_beta source_bounded choices_bounded_def
        split: option.splits if_splits dest!: map_of_SomeD)
qed

interpretation bounded: survey_run env jt choices_bounded for env jt
  by unfold_locales (rule resolve_bounded)

section \<open>The cache\<close>

text \<open>
  The questions and templates in play are \<open>K\<close>. The digest keeps them apart when equal digests mean
  equal sources and equal scopes: a digest without collisions does. The cache is true when an entry
  that a question reads is what the question resolves to without a cache.
\<close>

definition fresh_state :: survey_state where
  "fresh_state = \<lparr>ss_cache = [], ss_requests = []\<rparr>"

definition offered :: "survey_env \<Rightarrow> question \<Rightarrow> survey_template \<Rightarrow> py_raise + string list option" where
  "offered env q t = fst (resolve_dynamic_choices env q (Some t) fresh_state)"

definition key_json :: "question \<times> survey_template \<Rightarrow> json" where
  "key_json = (\<lambda>(q, t). JList [JStr (q_variable q), JObj (q_dynamic_choices q), cache_scope t])"

definition digest_separates :: "survey_env \<Rightarrow> (question \<times> survey_template) set \<Rightarrow> bool" where
  "digest_separates env K \<longleftrightarrow>
     (\<forall>x \<in> K. \<forall>y \<in> K. se_digest env (key_json x) = se_digest env (key_json y) \<longrightarrow> key_json x = key_json y)"

definition cache_true :: "survey_env \<Rightarrow> (question \<times> survey_template) set \<Rightarrow> survey_state \<Rightarrow> bool" where
  "cache_true env K st \<longleftrightarrow>
     (\<forall>(q, t) \<in> K. \<forall>k cs. cache_key env (q_variable q) (q_dynamic_choices q) (Some t) = Some k \<longrightarrow>
        map_of (ss_cache st) k = Some cs \<longrightarrow> dynamic_enabled (q_dynamic_choices q) \<longrightarrow>
        offered env q t = Inr (Some cs))"

lemma cache_true_fresh: "cache_true env K fresh_state"
  by (auto simp: cache_true_def fresh_state_def)

lemma json_key_inj: "json_key a = json_key b \<longleftrightarrow> a = b"
  by (auto simp: json_key_def split: option.splits)

lemma same_scope:
  "cache_scope t = cache_scope t' \<Longrightarrow> st_pk t = st_pk t' \<and> st_inventory t = st_inventory t'"
  by (simp add: cache_scope_def json_key_inj)

lemma source_scope:
  assumes "st_inventory t = st_inventory t'"
  shows "source_choices env dc (Some t) = source_choices env dc (Some t')"
proof -
  have "resolve_db_query env dc (Some t) = resolve_db_query env dc (Some t')"
    unfolding resolve_db_query_def option.case assms by (rule refl)
  moreover have "resolve_jinja2 env dc (Some t) = resolve_jinja2 env dc (Some t')"
    unfolding resolve_jinja2_def option.case assms by (rule refl)
  ultimately show ?thesis unfolding source_choices_def by presburger
qed

lemma offered_key:
  assumes "key_json (q, t) = key_json (q', t')"
  shows "offered env q t = offered env q' t'"
proof -
  from assms have q: "q_variable q = q_variable q'" "q_dynamic_choices q = q_dynamic_choices q'"
    and scope: "cache_scope t = cache_scope t'" by (simp_all add: key_json_def)
  from same_scope [OF scope] have i: "st_pk t = st_pk t'" "st_inventory t = st_inventory t'" by simp_all
  have key: "cache_key env v dc (Some t) = cache_key env v dc (Some t')" for v dc
    by (simp add: cache_key_def i scope)
  show ?thesis
    unfolding offered_def resolve_dynamic_choices_def Let_def q key source_scope [OF i(2)] by (rule refl)
qed

lemma cache_key_json:
  "cache_key env (q_variable q) (q_dynamic_choices q) (Some t) = Some k \<Longrightarrow>
     k = cache_prefix @ se_digest env (key_json (q, t))"
  by (auto simp: cache_key_def key_json_def split: if_splits)

text \<open>A resolution either leaves the cache, or stores its own answer.\<close>

lemma resolve_cache:
  obtains "ss_cache (snd (resolve_dynamic_choices env q t st)) = ss_cache st"
  | k cs where "cache_key env (q_variable q) (q_dynamic_choices q) t = Some k"
      "ss_cache (snd (resolve_dynamic_choices env q t st)) = AList.update k cs (ss_cache st)"
      "fst (resolve_dynamic_choices env q t fresh_state) = Inr (Some cs)"
proof -
  note defs = resolve_dynamic_choices_def Let_def case_prod_beta fresh_state_def
  show ?thesis
  proof (cases "\<exists>k cs. cache_key env (q_variable q) (q_dynamic_choices q) t = Some k \<and>
      ss_cache (snd (resolve_dynamic_choices env q t st)) = AList.update k cs (ss_cache st) \<and>
      fst (resolve_dynamic_choices env q t fresh_state) = Inr (Some cs)")
    case False
    then have "ss_cache (snd (resolve_dynamic_choices env q t st)) = ss_cache st"
      by (auto simp: defs split: option.split)
    then show ?thesis by (rule that(1))
  qed (blast intro: that(2))
qed

lemma resolve_true:
  assumes sep: "digest_separates env K" and K: "(q, t) \<in> K" and true: "cache_true env K st"
  shows "cache_true env K (snd (resolve_dynamic_choices env q (Some t) st))"
    and "fst (resolve_dynamic_choices env q (Some t) st) = offered env q t"
proof -
  show "cache_true env K (snd (resolve_dynamic_choices env q (Some t) st))"
  proof (cases rule: resolve_cache [of env q "Some t" st])
    case 1
    with true show ?thesis by (simp add: cache_true_def)
  next
    case (2 k cs)
    have "offered env q' t' = Inr (Some cs')"
      if "(q', t') \<in> K" "cache_key env (q_variable q') (q_dynamic_choices q') (Some t') = Some k'"
        "map_of (AList.update k cs (ss_cache st)) k' = Some cs'" "dynamic_enabled (q_dynamic_choices q')"
      for q' t' k' cs'
    proof (cases "k' = k")
      case True
      with 2(1) that(2) have "se_digest env (key_json (q', t')) = se_digest env (key_json (q, t))"
        by (auto dest!: cache_key_json)
      with sep K that(1) have "key_json (q', t') = key_json (q, t)" by (simp add: digest_separates_def)
      then have "offered env q' t' = offered env q t" by (rule offered_key)
      with 2(3) True that(3) show ?thesis by (simp add: offered_def)
    next
      case False
      with that true show ?thesis by (auto simp: cache_true_def)
    qed
    with 2(2) show ?thesis by (auto simp: cache_true_def)
  qed
  show "fst (resolve_dynamic_choices env q (Some t) st) = offered env q t"
  proof (cases "dynamic_enabled (q_dynamic_choices q)")
    case False
    then show ?thesis by (simp add: offered_def resolve_dynamic_choices_def Let_def)
  next
    case on: True
    show ?thesis
    proof (cases "case cache_key env (q_variable q) (q_dynamic_choices q) (Some t) of
        None \<Rightarrow> None | Some k \<Rightarrow> map_of (ss_cache st) k")
      case None
      with on show ?thesis
        by (auto simp: offered_def resolve_dynamic_choices_def Let_def case_prod_beta fresh_state_def
            split: option.split)
    next
      case (Some cs)
      then obtain k where "cache_key env (q_variable q) (q_dynamic_choices q) (Some t) = Some k"
        "map_of (ss_cache st) k = Some cs" by (auto split: option.splits)
      with true K on have "offered env q t = Inr (Some cs)" by (auto simp: cache_true_def)
      with on Some show ?thesis by (simp add: resolve_dynamic_choices_def Let_def)
    qed
  qed
qed

definition in_play :: "survey_holder \<Rightarrow> (question \<times> survey_template) set" where
  "in_play jt = (\<lambda>q. (q, sh_template jt)) ` set (survey_elements jt)"

interpretation truthful: survey_run env jt
    "\<lambda>st. digest_separates env K \<and> in_play jt \<subseteq> K \<and> cache_true env K st" for env jt K
  by unfold_locales (auto simp: in_play_def intro: resolve_true)

end
