(* ===== verification/Survey_Correct.thy ===== *)
theory Survey_Correct
  imports Survey_Runs
begin

text \<open>
  What a survey asks for, as a specification, and what the runs of \<open>Survey_Answers\<close> make of the answers:
  which are accepted, which variables a job gets, and that passwords are stored encrypted.
\<close>

section \<open>The specification of an answer\<close>

definition in_limits :: "(json \<Rightarrow> ('n :: linorder) option) \<Rightarrow> question \<Rightarrow> 'n \<Rightarrow> bool" where
  "in_limits conv q n \<longleftrightarrow>
     (case limit_with conv (q_min q) of Inr (Some l) \<Rightarrow> l \<le> n | _ \<Rightarrow> True) \<and>
     (case limit_with conv (q_max q) of Inr (Some h) \<Rightarrow> n \<le> h | _ \<Rightarrow> True)"

definition permitted_choices :: "survey_env \<Rightarrow> survey_template \<Rightarrow> question \<Rightarrow> json list" where
  "permitted_choices env t q =
     (if dynamic_enabled (q_dynamic_choices q) then
        (case offered env q t of Inr (Some cs) \<Rightarrow> map JStr cs | _ \<Rightarrow> [])
      else (case q_choices q of
              JStr s \<Rightarrow> map JStr (filter (\<lambda>l. strip l \<noteq> []) (splitlines s))
            | JList xs \<Rightarrow> xs
            | JObj d \<Rightarrow> map (JStr \<circ> fst) d
            | _ \<Rightarrow> []))"

definition answer_meets :: "survey_env \<Rightarrow> survey_template \<Rightarrow> question \<Rightarrow> json \<Rightarrow> bool" where
  "answer_meets env t q v \<longleftrightarrow>
     (if q_type q \<in> {''textarea'', ''text'', ''password''} then
        (case v of JStr s \<Rightarrow> in_limits py_int q (int (length s)) | _ \<Rightarrow> False)
      else if q_type q = ''integer'' then (case v of JInt i \<Rightarrow> in_limits py_int q i | _ \<Rightarrow> False)
      else if q_type q = ''float'' then
        (case v of JInt i \<Rightarrow> in_limits (py_float env) q (of_int i)
         | JFloat r \<Rightarrow> in_limits (py_float env) q r
         | _ \<Rightarrow> False)
      else if q_type q = ''multiselect'' then
        (case v of JList vs \<Rightarrow> list_all (\<lambda>x. py_in x (permitted_choices env t q)) vs | _ \<Rightarrow> False)
      else if q_type q = ''multiplechoice'' then py_in v (permitted_choices env t q)
      else True)"

definition question_met :: "survey_env \<Rightarrow> survey_template \<Rightarrow> bool \<Rightarrow> question \<Rightarrow> json option \<Rightarrow> bool" where
  "question_met env t validate_required q a \<longleftrightarrow>
     (if q_type q = ''password'' \<and> a = Some (JStr encrypted_mark)
      then \<not> (validate_required \<and> q_required q \<and> q_default q = JNull)
      else (case a of
              None \<Rightarrow> \<not> (validate_required \<and> q_required q)
            | Some v \<Rightarrow> answer_meets env t q v))"

definition seen_answer :: "crypto \<Rightarrow> string list \<Rightarrow> variables \<Rightarrow> question \<Rightarrow> json option" where
  "seen_answer c eps data q =
     (case element_data c eps data q of Inl e \<Rightarrow> None | Inr d \<Rightarrow> map_of d (q_variable q))"

section \<open>One element\<close>

lemma dynamic_enabled_true: "json_true (dict_get dc ''enabled'' JNull) \<longleftrightarrow> dynamic_enabled dc"
  by (auto simp: dynamic_enabled_def dict_get_def)

lemma choice_list_permitted:
  assumes sep: "digest_separates env K" and K: "(q, t) \<in> K" and true: "cache_true env K st"
    and r: "fst (survey_choice_list env q (Some t) st) = Inr (cs, dyn)"
  shows "cs = permitted_choices env t q"
  using r resolve_true(2) [OF sep K true]
  by (auto simp: survey_choice_list_def permitted_choices_def dynamic_enabled_true Let_def case_prod_beta
      split: if_splits json.splits sum.splits option.splits)

lemma check_choices_verdict:
  assumes sep: "digest_separates env K" and K: "(q, sh_template jt) \<in> K" and true: "cache_true env K st"
    and r: "fst (check_choices env jt q vs st) = Inr es"
  shows "es = [] \<longleftrightarrow> list_all (\<lambda>x. py_in x (permitted_choices env (sh_template jt) q)) vs"
proof -
  from r obtain cs dyn where "fst (survey_choice_list env q (Some (sh_template jt)) st) = Inr (cs, dyn)"
    and es: "es = choice_errors q vs (cs, dyn)"
    by (auto simp: check_choices_def case_prod_beta Let_def and_then_def split: sum.splits)
  with choice_list_permitted [OF sep K true] have "cs = permitted_choices env (sh_template jt) q" by simp
  with es show ?thesis by (auto simp: choice_errors_def filter_empty_conv list_all_iff)
qed

lemma limits_verdict:
  "text_errors q s = Inr es \<Longrightarrow> es = [] \<longleftrightarrow> in_limits py_int q (int (length s))"
  "integer_errors q i = Inr es \<Longrightarrow> es = [] \<longleftrightarrow> in_limits py_int q i"
  "float_errors env q v r = Inr es \<Longrightarrow> es = [] \<longleftrightarrow> in_limits (py_float env) q r"
  by (auto simp: text_errors_def integer_errors_def float_errors_def and_then_def in_limits_def below_def above_def
      not_less not_le split: sum.splits option.splits if_splits)

lemma validation_verdict:
  assumes sep: "digest_separates env K" and K: "(q, sh_template jt) \<in> K" and true: "cache_true env K st"
    and r: "fst (survey_element_validation env jt q data vr st) = Inr es"
  shows "es = [] \<longleftrightarrow> question_met env (sh_template jt) vr q (map_of data (q_variable q))"
proof (cases "map_of data (q_variable q)")
  case None
  then show ?thesis using r check_choices_verdict [OF sep K true, of "[]" es]
    by (auto simp: survey_element_validation_def question_met_def Let_def split: if_splits)
next
  case (Some v)
  have m: "es = [] \<longleftrightarrow> question_met env (sh_template jt) vr q (Some v)"
    using r Some check_choices_verdict [OF sep K true] limits_verdict
    by (cases v) (auto simp: survey_element_validation_def question_met_def answer_meets_def Let_def
        split: if_splits)
  then show ?thesis using Some by simp
qed

section \<open>All the elements\<close>

lemma map_of_AList_delete [simp]:
  "map_of (AList.delete k d) k' = (if k' = k then None else map_of d k')"
  by (simp add: delete_conv')

lemma dict_update_distinct:
  "distinct (map fst e) \<Longrightarrow> map_of (dict_update d e) = map_of d ++ map_of e"
proof (induction d e rule: dict_update.induct)
  case (2 d k v e)
  then have "map_of e k = None" by (simp add: map_of_eq_None_iff)
  with 2 show ?case by (auto simp: map_add_def split: option.split)
qed simp

lemma distinct_AList_delete: "distinct (map fst d) \<Longrightarrow> distinct (map fst (AList.delete k d))"
  by (rule distinct_delete)

text \<open>What the elements of \<open>qs\<close> say of a key: asked for, and answered well.\<close>

definition asks :: "question list \<Rightarrow> string \<Rightarrow> bool" where
  "asks qs k \<longleftrightarrow> list_ex (\<lambda>q. q_variable q = k) qs"

definition meets :: "crypto \<Rightarrow> survey_env \<Rightarrow> survey_holder \<Rightarrow> string list \<Rightarrow> variables \<Rightarrow> bool \<Rightarrow> question \<Rightarrow> bool" where
  "meets c env jt eps data vr q \<longleftrightarrow> question_met env (sh_template jt) vr q (seen_answer c eps data q)"

definition well_answered ::
  "crypto \<Rightarrow> survey_env \<Rightarrow> survey_holder \<Rightarrow> string list \<Rightarrow> variables \<Rightarrow> bool \<Rightarrow> question list \<Rightarrow> string \<Rightarrow> bool" where
  "well_answered c env jt eps data vr qs k \<longleftrightarrow> list_ex (\<lambda>q. q_variable q = k \<and> meets c env jt eps data vr q) qs"

lemma accept_verdict:
  assumes sep: "digest_separates env K" and K: "(q, sh_template jt) \<in> K" and true: "cache_true env K (an_state a)"
    and r: "accept_element c env jt data vr eps q a = (None, a')"
  obtains es where "es = [] \<longleftrightarrow> meets c env jt eps data vr q"
    and "an_errors a' = an_errors a @ es"
    and "map_of (an_left a') = (map_of (an_left a))(q_variable q := None)"
    and "map_of (an_accepted a') = (if es = [] \<and> map_of (an_left a) (q_variable q) \<noteq> None
           then (map_of (an_accepted a))(q_variable q := map_of (an_left a) (q_variable q)) else map_of (an_accepted a))"
    and "map_of (an_rejected a') = (if es \<noteq> [] \<and> map_of (an_left a) (q_variable q) \<noteq> None
           then (map_of (an_rejected a))(q_variable q := map_of (an_left a) (q_variable q)) else map_of (an_rejected a))"
    and "distinct (map fst (an_left a)) \<Longrightarrow> distinct (map fst (an_left a'))"
proof -
  from r obtain d where d: "element_data c eps data q = Inr d"
    by (auto simp: accept_element_def split: sum.splits)
  obtain x st where v: "survey_element_validation env jt q d vr (an_state a) = (x, st)" by fastforce
  with r d obtain es where x: "x = Inr es" by (cases x) (auto simp: accept_element_def)
  have "es = [] \<longleftrightarrow> question_met env (sh_template jt) vr q (map_of d (q_variable q))"
    by (rule validation_verdict [OF sep K true]) (simp add: v x)
  then have m: "es = [] \<longleftrightarrow> meets c env jt eps data vr q" by (simp add: meets_def seen_answer_def d)
  show ?thesis
    by (rule that [of es, OF m])
      (use r d v x in \<open>auto simp: accept_element_def Let_def distinct_AList_delete fun_eq_iff
        split: option.splits if_splits\<close>)
qed

lemma run_verdict:
  assumes "digest_separates env K" and "\<forall>q \<in> set qs. (q, sh_template jt) \<in> K" and "cache_true env K (an_state a)"
    and "in_play jt \<subseteq> K" and "set qs \<subseteq> set (survey_elements jt)"
    and "run_each (accept_element c env jt data vr eps) qs a = (None, a')"
    and "distinct (map q_variable qs)" and "distinct (map fst (an_left a))"
  shows "an_errors a' = [] \<longleftrightarrow> an_errors a = [] \<and> list_all (meets c env jt eps data vr) qs"
    and "map_of (an_left a') k = (if asks qs k then None else map_of (an_left a) k)"
    and "map_of (an_accepted a') k = (if well_answered c env jt eps data vr qs k \<and> map_of (an_left a) k \<noteq> None
           then map_of (an_left a) k else map_of (an_accepted a) k)"
    and "map_of (an_rejected a') k =
          (if asks qs k \<and> \<not> well_answered c env jt eps data vr qs k \<and> map_of (an_left a) k \<noteq> None
           then map_of (an_left a) k else map_of (an_rejected a) k)"
    and "distinct (map fst (an_left a'))"
proof -
  note claims = assms
  have "(an_errors a' = [] \<longleftrightarrow> an_errors a = [] \<and> list_all (meets c env jt eps data vr) qs) \<and>
    (\<forall>k. map_of (an_left a') k = (if asks qs k then None else map_of (an_left a) k) \<and>
      map_of (an_accepted a') k = (if well_answered c env jt eps data vr qs k \<and> map_of (an_left a) k \<noteq> None
           then map_of (an_left a) k else map_of (an_accepted a) k) \<and>
      map_of (an_rejected a') k =
          (if asks qs k \<and> \<not> well_answered c env jt eps data vr qs k \<and> map_of (an_left a) k \<noteq> None
           then map_of (an_left a) k else map_of (an_rejected a) k)) \<and> distinct (map fst (an_left a'))"
    using claims
  proof (induction qs arbitrary: a)
    case Nil
    then show ?case by (simp add: asks_def well_answered_def)
  next
    case (Cons q qs)
    from Cons.prems(6) obtain b where b: "accept_element c env jt data vr eps q a = (None, b)"
      and rest: "run_each (accept_element c env jt data vr eps) qs b = (None, a')"
      by (auto split: prod.splits option.splits)
    have qK: "(q, sh_template jt) \<in> K" using Cons.prems(2) by simp
    from accept_verdict [OF Cons.prems(1) qK Cons.prems(3) b] obtain es where es:
      "es = [] \<longleftrightarrow> meets c env jt eps data vr q" "an_errors b = an_errors a @ es"
      "map_of (an_left b) = (map_of (an_left a))(q_variable q := None)"
      "map_of (an_accepted b) = (if es = [] \<and> map_of (an_left a) (q_variable q) \<noteq> None
           then (map_of (an_accepted a))(q_variable q := map_of (an_left a) (q_variable q)) else map_of (an_accepted a))"
      "map_of (an_rejected b) = (if es \<noteq> [] \<and> map_of (an_left a) (q_variable q) \<noteq> None
           then (map_of (an_rejected a))(q_variable q := map_of (an_left a) (q_variable q)) else map_of (an_rejected a))"
      "distinct (map fst (an_left b))" using Cons.prems(8) by blast
    have "q \<in> set (survey_elements jt)" using Cons.prems(5) by simp
    from truthful.accept_keeps [where K = K, OF this, of env a c data vr eps] Cons.prems(1,3,4) b
    have tb: "cache_true env K (an_state b)" by simp
    have new: "\<not> asks qs (q_variable q)" "\<not> well_answered c env jt eps data vr qs (q_variable q)"
      using Cons.prems(7) by (force simp: asks_def well_answered_def list_ex_iff image_iff)+
    have IH: "(an_errors a' = [] \<longleftrightarrow> an_errors b = [] \<and> list_all (meets c env jt eps data vr) qs) \<and>
    (\<forall>k. map_of (an_left a') k = (if asks qs k then None else map_of (an_left b) k) \<and>
      map_of (an_accepted a') k = (if well_answered c env jt eps data vr qs k \<and> map_of (an_left b) k \<noteq> None
           then map_of (an_left b) k else map_of (an_accepted b) k) \<and>
      map_of (an_rejected a') k =
          (if asks qs k \<and> \<not> well_answered c env jt eps data vr qs k \<and> map_of (an_left b) k \<noteq> None
           then map_of (an_left b) k else map_of (an_rejected b) k)) \<and> distinct (map fst (an_left a'))"
      by (rule Cons.IH) (use Cons.prems rest tb es(6) in simp_all)
    show ?case
      using IH new es by (auto simp: asks_def well_answered_def)
  qed
  then show "an_errors a' = [] \<longleftrightarrow> an_errors a = [] \<and> list_all (meets c env jt eps data vr) qs"
    and "map_of (an_left a') k = (if asks qs k then None else map_of (an_left a) k)"
    and "map_of (an_accepted a') k = (if well_answered c env jt eps data vr qs k \<and> map_of (an_left a) k \<noteq> None
           then map_of (an_left a) k else map_of (an_accepted a) k)"
    and "map_of (an_rejected a') k =
          (if asks qs k \<and> \<not> well_answered c env jt eps data vr qs k \<and> map_of (an_left a) k \<noteq> None
           then map_of (an_left a) k else map_of (an_rejected a) k)"
    and "distinct (map fst (an_left a'))" by blast+
qed

lemma prune_same_map:
  assumes "distinct (map fst vars)"
  shows "map_of (prune_same tmpl vars) k =
     (case map_of vars k of
        None \<Rightarrow> None
      | Some v \<Rightarrow> (case map_of tmpl k of None \<Rightarrow> Some v | Some u \<Rightarrow> if py_eq u v then None else Some v))"
  using assms
proof (induction vars)
  case (Cons e vars)
  obtain k' v where e: "e = (k', v)" by fastforce
  with Cons.prems have "map_of vars k' = None" by (simp add: map_of_eq_None_iff)
  with Cons e show ?case
    by (cases "map_of tmpl k'"; cases "k = k'") (simp_all add: prune_same_def)
qed (simp add: prune_same_def)

lemma distinct_prune_same: "distinct (map fst vars) \<Longrightarrow> distinct (map fst (prune_same tmpl vars))"
  by (induction vars) (auto simp: prune_same_def)

text \<open>What the survey leaves to the rules for other variables, and what those let pass.\<close>

definition ignored_same :: "survey_holder \<Rightarrow> string \<Rightarrow> json \<Rightarrow> bool" where
  "ignored_same jt k v \<longleftrightarrow> (case map_of (sh_extra_vars jt) k of None \<Rightarrow> False | Some u \<Rightarrow> py_eq u v)"

definition variable_accepted ::
  "crypto \<Rightarrow> survey_env \<Rightarrow> survey_holder \<Rightarrow> string list \<Rightarrow> variables \<Rightarrow> bool \<Rightarrow> string \<Rightarrow> bool" where
  "variable_accepted c env jt eps data vr k \<longleftrightarrow>
     (if asks (asked_elements jt) k then well_answered c env jt eps data vr (asked_elements jt) k
      else sh_ask_variables jt)"

definition variable_rejected ::
  "crypto \<Rightarrow> survey_env \<Rightarrow> survey_holder \<Rightarrow> string list \<Rightarrow> variables \<Rightarrow> bool \<Rightarrow> string \<Rightarrow> json \<Rightarrow> bool" where
  "variable_rejected c env jt eps data vr k v \<longleftrightarrow>
     \<not> variable_accepted c env jt eps data vr k \<and> (asks (asked_elements jt) k \<or> \<not> ignored_same jt k v)"

lemma sort_answers_verdict:
  assumes sep: "digest_separates env K" and K: "in_play jt \<subseteq> K" and true: "cache_true env K st"
    and vars: "distinct (map q_variable (asked_elements jt))" and data: "distinct (map fst data)"
    and run: "sort_answers c env jt data excl eps st = (Inr (acc, rej, errs), st')"
    and vr: "vr \<longleftrightarrow> ''required'' \<notin> set excl"
  shows "le_survey errs = [] \<longleftrightarrow> list_all (meets c env jt eps data vr) (asked_elements jt)"
    and "map_of acc k = Some v \<longleftrightarrow> map_of data k = Some v \<and> variable_accepted c env jt eps data vr k"
    and "map_of rej k = Some v \<longleftrightarrow> map_of data k = Some v \<and> variable_rejected c env jt eps data vr k v"
    and "le_not_allowed errs = [] \<longleftrightarrow> ''prompts'' \<in> set excl \<or>
          (\<forall>k v. map_of data k = Some v \<longrightarrow>
             asks (asked_elements jt) k \<or> sh_ask_variables jt \<or> ignored_same jt k v)"
proof -
  define a where "a = \<lparr>an_left = data, an_accepted = [], an_rejected = [], an_errors = [], an_state = st\<rparr>"
  obtain r b where rb: "run_each (accept_element c env jt data vr eps) (asked_elements jt) a = (r, b)" by fastforce
  from run rb have r: "r = None" unfolding sort_answers_def Let_def vr [symmetric] a_def [symmetric]
    by (auto split: option.splits)
  have sub: "set (asked_elements jt) \<subseteq> set (survey_elements jt)" using asked_element by blast
  with K have inK: "\<forall>q \<in> set (asked_elements jt). (q, sh_template jt) \<in> K" by (auto simp: in_play_def)
  have ta: "cache_true env K (an_state a)" and da: "distinct (map fst (an_left a))"
    by (simp_all add: a_def true data)
  note verdict = run_verdict [OF sep inK ta K sub rb [unfolded r] vars da]
  define left where "left = (if sh_ask_variables jt then [] else prune_same (sh_extra_vars jt) (an_left b))"
  from run rb r have acc: "acc = (if sh_ask_variables jt then dict_update (an_accepted b) (an_left b) else an_accepted b)"
    and rej: "rej = dict_update (an_rejected b) left"
    and errs: "errs = \<lparr>le_survey = an_errors b,
       le_not_allowed = (if ''prompts'' \<in> set excl then [] else map fst left)\<rparr>"
    unfolding sort_answers_def Let_def vr [symmetric] a_def [symmetric] left_def by (auto split: if_splits)
  have left: "map_of left k = (if sh_ask_variables jt \<or> asks (asked_elements jt) k then None
      else case map_of data k of None \<Rightarrow> None | Some v \<Rightarrow> if ignored_same jt k v then None else Some v)" for k
    by (auto simp: left_def prune_same_map verdict(5) verdict(2) ignored_same_def a_def split: option.split)
  have dl: "distinct (map fst left)" by (simp add: left_def distinct_prune_same verdict(5))
  have wa: "well_answered c env jt eps data vr (asked_elements jt) k \<Longrightarrow> asks (asked_elements jt) k" for k
    by (auto simp: well_answered_def asks_def list_ex_iff)
  show "le_survey errs = [] \<longleftrightarrow> list_all (meets c env jt eps data vr) (asked_elements jt)"
    using verdict(1) by (simp add: errs a_def)
  show "map_of acc k = Some v \<longleftrightarrow> map_of data k = Some v \<and> variable_accepted c env jt eps data vr k"
    using wa [of k] by (auto simp: acc dict_update_distinct verdict a_def variable_accepted_def map_add_def split: option.split)
  show "map_of rej k = Some v \<longleftrightarrow> map_of data k = Some v \<and> variable_rejected c env jt eps data vr k v"
    using wa [of k]
    by (auto simp: rej dict_update_distinct dl left verdict a_def variable_rejected_def variable_accepted_def
        map_add_def split: option.splits)
  have "left = [] \<longleftrightarrow> (\<forall>k. map_of left k = None)" by (cases left) auto
  then show "le_not_allowed errs = [] \<longleftrightarrow> ''prompts'' \<in> set excl \<or>
          (\<forall>k v. map_of data k = Some v \<longrightarrow>
             asks (asked_elements jt) k \<or> sh_ask_variables jt \<or> ignored_same jt k v)"
    by (auto simp: errs left split: option.splits)
qed

section \<open>The variables of a job\<close>

definition valid_default :: "crypto \<Rightarrow> survey_env \<Rightarrow> survey_template \<Rightarrow> question \<Rightarrow> bool" where
  "valid_default c env t q \<longleftrightarrow> q_default q \<noteq> JNull \<and>
     (case plain_default c q of Inl e \<Rightarrow> False | Inr v \<Rightarrow> question_met env t True q (Some v))"

definition survey_default :: "crypto \<Rightarrow> survey_env \<Rightarrow> survey_template \<Rightarrow> question list \<Rightarrow> string \<Rightarrow> json option" where
  "survey_default c env t qs k =
     map_of (map (\<lambda>q. (q_variable q, q_default q)) (filter (valid_default c env t) qs)) k"

text \<open>A password answer that only says \<open>$encrypted$\<close> is no answer.\<close>

definition launch_value :: "question list \<Rightarrow> variables \<Rightarrow> string \<Rightarrow> json option" where
  "launch_value qs runtime k =
     (if map_of runtime k = Some (JStr encrypted_mark) \<and> list_ex (\<lambda>q. q_variable q = k \<and> q_type q = ''password'') qs
      then None else map_of runtime k)"

lemma default_verdict:
  assumes sep: "digest_separates env K" and K: "(q, sh_template jt) \<in> K" and true: "cache_true env K (de_state d)"
    and r: "default_element c env jt q d = (None, d')"
  shows "map_of (de_runtime d') = (\<lambda>k. launch_value [q] (de_runtime d) k)"
    and "de_survey d' = (if valid_default c env (sh_template jt) q
           then AList.update (q_variable q) (q_default q) (de_survey d) else de_survey d)"
    and "distinct (map fst (de_runtime d)) \<Longrightarrow> distinct (map fst (de_runtime d'))"
proof -
  have "map_of (de_runtime d') = (\<lambda>k. launch_value [q] (de_runtime d) k) \<and>
    de_survey d' = (if valid_default c env (sh_template jt) q
           then AList.update (q_variable q) (q_default q) (de_survey d) else de_survey d) \<and>
    (distinct (map fst (de_runtime d)) \<longrightarrow> distinct (map fst (de_runtime d')))"
  proof (cases "q_default q = JNull")
    case True
    with r show ?thesis
      by (auto simp: default_element_def valid_default_def launch_value_def Let_def fun_eq_iff distinct_AList_delete)
  next
    case False
    with r obtain v where v: "plain_default c q = Inr v" by (auto simp: default_element_def Let_def split: sum.splits)
    obtain x st where val: "survey_element_validation env jt q [(q_variable q, v)] True (de_state d) = (x, st)" by fastforce
    with r False v obtain es where x: "x = Inr es"
      by (cases x) (auto simp: default_element_def Let_def split: if_splits)
    have "es = [] \<longleftrightarrow> question_met env (sh_template jt) True q (map_of [(q_variable q, v)] (q_variable q))"
      by (rule validation_verdict [OF sep K true]) (simp add: val x)
    then have "es = [] \<longleftrightarrow> valid_default c env (sh_template jt) q" using False v by (simp add: valid_default_def)
    with r False v val x show ?thesis
      by (auto simp: default_element_def launch_value_def Let_def fun_eq_iff distinct_AList_delete split: if_splits)
  qed
  then show "map_of (de_runtime d') = (\<lambda>k. launch_value [q] (de_runtime d) k)"
    and "de_survey d' = (if valid_default c env (sh_template jt) q
           then AList.update (q_variable q) (q_default q) (de_survey d) else de_survey d)"
    and "distinct (map fst (de_runtime d)) \<Longrightarrow> distinct (map fst (de_runtime d'))" by blast+
qed

lemma launch_value_Cons: "launch_value qs r2 k = launch_value (q # qs) r1 k"
  if "map_of r2 = (\<lambda>k. launch_value [q] r1 k)"
  using that by (auto simp: launch_value_def)

lemma run_defaults:
  assumes "digest_separates env K" and "\<forall>q \<in> set qs. (q, sh_template jt) \<in> K" and "cache_true env K (de_state d)"
    and "in_play jt \<subseteq> K" and "set qs \<subseteq> set (survey_elements jt)"
    and "run_each (default_element c env jt) qs d = (None, d')"
    and "distinct (map q_variable qs)" and "distinct (map fst (de_runtime d))" and "distinct (map fst (de_survey d))"
  shows "map_of (de_runtime d') k = launch_value qs (de_runtime d) k \<and>
    map_of (de_survey d') k = (case survey_default c env (sh_template jt) qs k of
       Some v \<Rightarrow> Some v | None \<Rightarrow> map_of (de_survey d) k) \<and>
    distinct (map fst (de_runtime d')) \<and> distinct (map fst (de_survey d'))"
  using assms
proof (induction qs arbitrary: d)
  case Nil
  then show ?case by (simp add: launch_value_def survey_default_def)
next
  case (Cons q qs)
  from Cons.prems(6) obtain b where b: "default_element c env jt q d = (None, b)"
    and rest: "run_each (default_element c env jt) qs b = (None, d')"
    by (auto split: prod.splits option.splits)
  have qK: "(q, sh_template jt) \<in> K" and qe: "q \<in> set (survey_elements jt)" using Cons.prems(2,5) by simp_all
  note one = default_verdict [OF Cons.prems(1) qK Cons.prems(3) b]
  from truthful.default_keeps [where K = K, OF qe, of env d c] Cons.prems(1,3,4) b
  have tb: "cache_true env K (de_state b)" by simp
  have ds: "distinct (map fst (de_survey b))" using one(2) Cons.prems(9) by (simp add: distinct_update)
  have IH: "map_of (de_runtime d') k = launch_value qs (de_runtime b) k \<and>
    map_of (de_survey d') k = (case survey_default c env (sh_template jt) qs k of
       Some v \<Rightarrow> Some v | None \<Rightarrow> map_of (de_survey b) k) \<and>
    distinct (map fst (de_runtime d')) \<and> distinct (map fst (de_survey d'))"
    by (rule Cons.IH) (use Cons.prems rest tb ds one(3) in simp_all)
  have new: "survey_default c env (sh_template jt) qs (q_variable q) = None"
    using Cons.prems(7) by (auto simp: survey_default_def map_of_eq_None_iff)
  show ?case
    using IH new launch_value_Cons [OF one(1), of qs k]
    by (auto simp: one(2) survey_default_def split: option.split)
qed

lemma update_kwargs_verdict:
  assumes sep: "digest_separates env K" and K: "in_play jt \<subseteq> K" and true: "cache_true env K st"
    and vars: "distinct (map q_variable (asked_elements jt))" and data: "distinct (map fst runtime)"
    and run: "update_unified_job_kwargs c env jt runtime st = (Inr vs, st')"
  shows "map_of vs k =
     (case launch_value (asked_elements jt) runtime k of
        Some v \<Rightarrow> Some v
      | None \<Rightarrow>
          (case survey_default c env (sh_template jt) (asked_elements jt) k of
             Some v \<Rightarrow> Some v
           | None \<Rightarrow> map_of (sh_extra_vars jt) k))"
proof -
  define d where "d = \<lparr>de_runtime = runtime, de_survey = [], de_state = st\<rparr>"
  obtain r b where rb: "run_each (default_element c env jt) (asked_elements jt) d = (r, b)" by fastforce
  from run rb have r: "r = None" and vs: "vs = dict_update (dict_update (sh_extra_vars jt) (de_survey b)) (de_runtime b)"
    unfolding update_unified_job_kwargs_def Let_def d_def [symmetric] by (auto split: option.splits)
  have sub: "set (asked_elements jt) \<subseteq> set (survey_elements jt)" using asked_element by blast
  with K have inK: "\<forall>q \<in> set (asked_elements jt). (q, sh_template jt) \<in> K" by (auto simp: in_play_def)
  have pre: "cache_true env K (de_state d)" "distinct (map fst (de_runtime d))" "distinct (map fst (de_survey d))"
    by (simp_all add: d_def true data)
  show ?thesis
    using run_defaults [OF sep inK pre(1) K sub rb [unfolded r] vars pre(2,3), of k]
    by (simp add: vs dict_update_distinct d_def map_add_def split: option.split)
qed

end
