(* ===== verification/Survey_Typed.thy ===== *)
theory Survey_Typed
  imports Survey_Correct
begin

text \<open>
  The type of a saved survey: what \<open>validate_spec_data\<close> lets pass has the fields, types and limits
  that the launch code relies on, so that checking answers against it does not raise.
\<close>

section \<open>The type of a question\<close>

definition question_typed :: "question \<Rightarrow> bool" where
  "question_typed q \<longleftrightarrow>
     q_type q \<in> set survey_types \<and> limit_type_ok (q_min q) \<and> limit_type_ok (q_max q) \<and>
     (q_default q = JNull \<or> q_default q = JStr [] \<or> has_mapped_type (q_type q) (q_default q))"

definition default_protected :: "question \<Rightarrow> bool" where
  "default_protected q \<longleftrightarrow>
     q_type q = ''password'' \<longrightarrow> q_default q = JNull \<or> q_default q = JStr [] \<or>
       (\<exists>s. q_default q = JStr s \<and> startswith s encrypted_mark)"

text \<open>The static choices of a choice question can be listed.\<close>

definition choices_listable :: "question \<Rightarrow> bool" where
  "choices_listable q \<longleftrightarrow>
     (is_choice_type (q_type q) \<longrightarrow> dynamic_enabled (q_dynamic_choices q) \<or>
       (case q_choices q of JStr _ \<Rightarrow> True | JList _ \<Rightarrow> True | JObj _ \<Rightarrow> True | _ \<Rightarrow> False))"

lemma and_then_Inr: "and_then r f = Inr y \<longleftrightarrow> (\<exists>x. r = Inr x \<and> f x = Inr y)"
  by (auto simp: and_then_def split: sum.split)

lemma require_Inr [simp]: "require p e = Inr u \<longleftrightarrow> p"
  by (simp add: require_def)

lemma element_field_Inr: "element_field idx item f expected = Inr v \<longleftrightarrow> map_of item f = Some v \<and> expected v"
  by (auto simp: element_field_def split: option.split)

lemma is_str_JStr: "is_str v \<Longrightarrow> v = JStr (text_of v)"
  by (cases v) (simp_all add: is_str_def text_of_def)

lemma is_bool_JBool: "is_bool v \<Longrightarrow> \<exists>b. v = JBool b"
  by (cases v) (simp_all add: is_bool_def)

lemma squeeze_str: "is_str v \<Longrightarrow> is_str (squeeze_lines v)"
  by (cases v) (simp_all add: is_str_def squeeze_lines_def)

lemma squeeze_empty: "squeeze_lines (JStr []) = JStr []"
  by (simp add: squeeze_lines_def splitlines_def)

lemma choice_typed: "is_choice_type qtype \<Longrightarrow> has_mapped_type qtype v \<longleftrightarrow> is_str v"
  by (auto simp: is_choice_type_def has_mapped_type_def)

text \<open>The two steps that rewrite an element change its choices and its default only.\<close>

lemma choice_fields_keep:
  assumes "check_choice_fields idx qtype item = Inr item1"
  shows "f \<noteq> ''choices'' \<Longrightarrow> f \<noteq> ''default'' \<Longrightarrow> map_of item1 f = map_of item f"
    and "map_of item1 ''default'' = (case map_of item ''default'' of None \<Rightarrow> None
       | Some d \<Rightarrow> Some (if is_choice_type qtype then squeeze_lines d else d))"
  using assms
  by (auto simp: check_choice_fields_def Let_def and_then_Inr split: if_splits option.splits)

lemma protect_keeps:
  assumes "protect_default c nonce old idx qtype variable item = Inr item2" and "f \<noteq> ''default''"
  shows "map_of item2 f = map_of item f"
  using assms by (auto simp: protect_default_def Let_def split: if_splits option.splits sum.splits)

lemma encrypt_value_str:
  assumes "encrypt_value c n v pk k = Inr u" and "is_str v"
  shows "u = JStr [] \<or> (\<exists>s. u = JStr s \<and> startswith s encrypted_mark)"
proof -
  from assms(2) obtain t where "v = JStr t" using is_str_JStr by blast
  with assms(1) show ?thesis
    by (auto simp: encrypt_value_def encrypt_field_def field_value_def Let_def sealed_marked
        split: if_splits sum.splits)
qed

lemma protect_default_typed:
  assumes "protect_default c nonce old idx qtype variable item = Inr item2"
    and "map_of item ''default'' = Some d" and "d = JStr [] \<or> has_mapped_type qtype d"
  obtains u where "map_of item2 ''default'' = Some u" and "u = JStr [] \<or> has_mapped_type qtype u"
    and "qtype = ''password'' \<Longrightarrow> u = JStr [] \<or> (\<exists>s. u = JStr s \<and> startswith s encrypted_mark)"
proof -
  have "is_str d" if "qtype = ''password''" using assms(3) that by (auto simp: has_mapped_type_def is_str_def)
  then show ?thesis
    using assms that
    by (auto simp: protect_default_def stored_default_def has_mapped_type_def is_str_def
        split: if_splits option.splits sum.splits json.splits dest: encrypt_value_str)
qed

lemma validated_element:
  assumes "validate_element c nonce env old seen idx e = Inr (seen', item2)"
  shows "\<exists>q. question_of item2 = Some q \<and> question_typed q \<and> default_protected q \<and>
    q_variable q \<notin> set seen \<and> seen' = q_variable q # seen"
proof -
  from assms obtain item where e: "e = JObj item" by (cases e) (simp_all add: validate_element_def)
  from assms obtain t v r item1 where
    fields: "map_of item ''type'' = Some t" "is_str t" "map_of item ''variable'' = Some v" "is_str v"
      "map_of item ''required'' = Some r" "is_bool r"
    and new: "text_of v \<notin> set seen" and known: "text_of t \<in> set survey_types"
    and dflt: "case map_of item ''default'' of None \<Rightarrow> True | Some d \<Rightarrow> d = JStr [] \<or> has_mapped_type (text_of t) d"
    and lim: "limit_type_ok (map_of item ''min'')" "limit_type_ok (map_of item ''max'')"
    and choices: "check_choice_fields idx (text_of t) item = Inr item1"
    and prot: "protect_default c nonce old idx (text_of t) (text_of v) item1 = Inr item2"
    and seen: "seen' = text_of v # seen"
    unfolding validate_element_def e json.case Let_def and_then_Inr element_field_Inr require_Inr
    by (elim exE conjE) (simp only: sum.inject prod.inject, elim conjE, blast)
  define qtype where "qtype = text_of t"
  define variable where "variable = text_of v"
  note defs = qtype_def [symmetric] variable_def [symmetric]
  note new = new [unfolded defs] and known = known [unfolded defs] and dflt = dflt [unfolded defs]
    and choices = choices [unfolded defs] and prot = prot [unfolded defs] and seen = seen [unfolded defs]
  have same: "map_of item2 f = map_of item f" if "f \<noteq> ''choices''" "f \<noteq> ''default''" for f
    using protect_keeps [OF prot that(2)] choice_fields_keep(1) [OF choices that] by simp
  from is_str_JStr [OF fields(2)] is_str_JStr [OF fields(4)] have t: "t = JStr qtype" and v: "v = JStr variable"
    unfolding defs by this+
  from is_bool_JBool [OF fields(6)] obtain b where b: "r = JBool b" by blast
  have "dict_get item2 ''default'' JNull = JNull \<or> (\<exists>u. map_of item2 ''default'' = Some u \<and>
      (u = JStr [] \<or> has_mapped_type qtype u) \<and>
      (qtype = ''password'' \<longrightarrow> u = JStr [] \<or> (\<exists>s. u = JStr s \<and> startswith s encrypted_mark)))"
  proof (cases "map_of item ''default''")
    case None
    with choice_fields_keep(2) [OF choices] have "map_of item1 ''default'' = None" by simp
    with prot show ?thesis by (simp add: protect_default_def dict_get_def)
  next
    case (Some d)
    define d1 where "d1 = (if is_choice_type qtype then squeeze_lines d else d)"
    with Some choice_fields_keep(2) [OF choices] have "map_of item1 ''default'' = Some d1" by simp
    moreover have "d1 = JStr [] \<or> has_mapped_type qtype d1"
    proof (cases "is_choice_type qtype")
      case True
      with dflt Some have "d = JStr [] \<or> is_str d" by (simp add: choice_typed)
      with squeeze_str have "is_str d1" by (auto simp: d1_def True squeeze_empty is_str_def)
      then show ?thesis by (simp add: choice_typed [OF True])
    qed (use dflt Some in \<open>simp add: d1_def\<close>)
    ultimately show ?thesis using protect_default_typed [OF prot] by metis
  qed
  with fields t v b known lim new seen show ?thesis
    by (auto simp: question_of_def same question_typed_def default_protected_def dict_get_def)
qed

lemma validated_elements:
  assumes "validate_elements c nonce env old seen idx es = Inr items"
  shows "\<exists>qs. questions_of (map JObj items) = Some qs \<and> distinct (map q_variable qs) \<and>
    set (map q_variable qs) \<inter> set seen = {} \<and> (\<forall>q \<in> set qs. question_typed q \<and> default_protected q)"
  using assms
proof (induction es arbitrary: seen idx items)
  case (Cons e es)
  from Cons.prems obtain seen' item items' where one: "validate_element c nonce env old seen idx e = Inr (seen', item)"
    and rest: "validate_elements c nonce env old seen' (Suc idx) es = Inr items'" and items: "items = item # items'"
    by (auto simp: and_then_Inr simp del: and_then_simps)
  from validated_element [OF one] obtain q where q: "question_of item = Some q" "question_typed q"
    "default_protected q" "q_variable q \<notin> set seen" "seen' = q_variable q # seen" by blast
  from Cons.IH [OF rest] obtain qs where qs: "questions_of (map JObj items') = Some qs"
    "distinct (map q_variable qs)" "set (map q_variable qs) \<inter> set seen' = {}"
    "\<forall>q \<in> set qs. question_typed q \<and> default_protected q" by blast
  show ?case by (rule exI [of _ "q # qs"]) (use q qs items in auto)
qed simp

lemma saved_spec_typed:
  assumes "validate_spec_data c nonce env new_spec old_spec = Inr spec"
  obtains qs where "saved_questions spec = Some qs" and "distinct (map q_variable qs)"
    and "\<forall>q \<in> set qs. question_typed q \<and> default_protected q"
proof -
  from assms obtain es items where "validate_elements c nonce env (pivot_spec old_spec) [] 0 es = Inr items"
    and spec: "spec = AList.update ''spec'' (JList (map JObj items)) new_spec"
    by (auto simp: validate_spec_data_def and_then_Inr simp del: and_then_simps split: if_splits json.splits)
  from validated_elements [OF this(1)] spec that show ?thesis
    by (auto simp: saved_questions_def dict_get_def)
qed

section \<open>No exception at launch\<close>

lemma limit_int: "limit_type_ok m \<Longrightarrow> \<exists>n. limit_with py_int m = Inr n"
  by (auto simp: limit_type_ok_def limit_with_def is_int_def split: option.splits json.splits)

lemma limit_float: "limit_type_ok m \<Longrightarrow> \<exists>n. limit_with (py_float env) m = Inr n"
  by (auto simp: limit_type_ok_def limit_with_def is_int_def py_float_def split: option.splits json.splits)

lemma choice_list_returns:
  assumes "choices_listable q" and "is_choice_type (q_type q)"
  shows "\<exists>r. fst (survey_choice_list env q t st) = Inr r"
  using assms
  by (auto simp: survey_choice_list_def choices_listable_def dynamic_enabled_true Let_def case_prod_beta
      split: json.splits)

lemma check_choices_returns:
  assumes "choices_listable q" and "is_choice_type (q_type q)"
  shows "\<exists>es. fst (check_choices env jt q vs st) = Inr es"
  using choice_list_returns [OF assms, of env "Some (sh_template jt)" st]
  by (auto simp: check_choices_def case_prod_beta Let_def)

lemma validation_returns:
  assumes "question_typed q" and "choices_listable q"
  shows "\<exists>es. fst (survey_element_validation env jt q data vr st) = Inr es"
proof -
  from assms(1) have m: "limit_type_ok (q_min q)" "limit_type_ok (q_max q)" by (simp_all add: question_typed_def)
  from limit_int [OF m(1)] limit_int [OF m(2)]
  have ints: "\<exists>es. text_errors q s = Inr es" "\<exists>es. integer_errors q i = Inr es" for s i
    by (auto simp: text_errors_def integer_errors_def)
  from limit_float [OF m(1), of env] limit_float [OF m(2), of env]
  have floats: "\<exists>es. float_errors env q v r = Inr es" for v r by (auto simp: float_errors_def)
  have choices: "\<exists>es. fst (check_choices env jt q vs st) = Inr es" if "q_type q \<in> {''multiselect'', ''multiplechoice''}" for vs
    using check_choices_returns [OF assms(2)] that by (auto simp: is_choice_type_def)
  show ?thesis
    using ints floats choices
    by (simp add: survey_element_validation_def Let_def split: option.split json.split)
qed

lemma run_each_returns:
  assumes "\<And>i s. i \<in> set is \<Longrightarrow> fst (f i s) = None"
  shows "fst (run_each f is s) = None"
  using assms
proof (induction "is" arbitrary: s)
  case (Cons i "is")
  then have "fst (f i s) = None" by simp
  then obtain s' where "f i s = (None, s')" by (cases "f i s") simp
  with Cons show ?case by simp
qed simp

lemma sort_answers_returns:
  assumes "\<forall>q \<in> set (asked_elements jt). question_typed q \<and> choices_listable q"
  shows "\<exists>r. fst (sort_answers c env jt data excl [] st) = Inr r"
proof -
  let ?f = "accept_element c env jt data (''required'' \<notin> set excl) []"
  have "fst (?f q a) = None" if "q \<in> set (asked_elements jt)" for q a
  proof -
    from that assms validation_returns obtain es where
      "fst (survey_element_validation env jt q data (''required'' \<notin> set excl) (an_state a)) = Inr es" by blast
    then show ?thesis
      by (cases "survey_element_validation env jt q data (''required'' \<notin> set excl) (an_state a)")
        (simp add: accept_element_def element_data_def Let_def split: option.split)
  qed
  then have "fst (run_each ?f (asked_elements jt) a) = None" for a by (rule run_each_returns)
  then show ?thesis by (simp add: sort_answers_def case_prod_beta Let_def)
qed

end
