(* ===== verification/Survey_Properties.thy ===== *)
theory Survey_Properties
  imports Survey_Typed
begin

text \<open>
  The properties of surveys: which answers a launch accepts, which variables a job gets, that passwords
  are kept encrypted, that choices come from the question's own source, and where the server may send
  a request.
\<close>

section \<open>Sequences of operations\<close>

text \<open>What users do with surveyed templates, in any order.\<close>

datatype survey_op =
    Launch survey_holder json "string list" "string list"
  | CreateJob survey_holder variables variables
  | Offer survey_holder json

fun op_holder :: "survey_op \<Rightarrow> survey_holder" where
  "op_holder (Launch jt _ _ _) = jt"
| "op_holder (CreateJob jt _ _) = jt"
| "op_holder (Offer jt _) = jt"

fun run_survey_op ::
  "crypto \<Rightarrow> (string \<Rightarrow> nat) \<Rightarrow> survey_env \<Rightarrow> parsers \<Rightarrow> survey_op \<Rightarrow> survey_state \<Rightarrow> survey_state" where
  "run_survey_op c nonce env p (Launch jt data excl eps) st =
     snd (accept_or_ignore_variables c env p (Some jt) data excl eps st)"
| "run_survey_op c nonce env p (CreateJob jt extra passwords) st =
     snd (create_survey_job c nonce env jt extra passwords st)"
| "run_survey_op c nonce env p (Offer jt vars) st = snd (offer_choices env jt vars st)"

definition run_survey_ops ::
  "crypto \<Rightarrow> (string \<Rightarrow> nat) \<Rightarrow> survey_env \<Rightarrow> parsers \<Rightarrow> survey_op list \<Rightarrow> survey_state \<Rightarrow> survey_state" where
  "run_survey_ops c nonce env p ops st = fold (run_survey_op c nonce env p) ops st"

lemma fold_keeps:
  assumes "\<And>x s. x \<in> set xs \<Longrightarrow> P s \<Longrightarrow> P (f x s)" and "P s"
  shows "P (fold f xs s)"
  using assms by (induction xs arbitrary: s) auto

lemma op_permitted: "requests_permitted env st \<Longrightarrow> requests_permitted env (run_survey_op c nonce env p x st)"
  by (cases x) (simp_all add: permitted.accept_or_ignore_keeps permitted.create_job_keeps permitted.offer_keeps)

lemma op_bounded: "choices_bounded st \<Longrightarrow> choices_bounded (run_survey_op c nonce env p x st)"
  by (cases x) (simp_all add: bounded.accept_or_ignore_keeps bounded.create_job_keeps bounded.offer_keeps)

lemma op_true:
  assumes "digest_separates env K" and "in_play (op_holder x) \<subseteq> K" and "cache_true env K st"
  shows "cache_true env K (run_survey_op c nonce env p x st)"
  using assms truthful.accept_or_ignore_keeps truthful.create_job_keeps truthful.offer_keeps
  by (cases x) simp_all

lemma ops_true:
  assumes "digest_separates env K" and "\<forall>x \<in> set ops. in_play (op_holder x) \<subseteq> K"
  shows "cache_true env K (run_survey_ops c nonce env p ops fresh_state)"
  unfolding run_survey_ops_def
  by (rule fold_keeps [where P = "cache_true env K"]) (use assms op_true cache_true_fresh in auto)

section \<open>Passwords\<close>

lemma encrypt_dict_map:
  assumes "encrypt_dict c nonce d names = Inr e" and "map_of d k = Some v"
  shows "\<exists>u. map_of e k = Some u \<and> (k \<in> set names \<longrightarrow> encrypt_value c (nonce k) v None None = Inr u)"
  using assms by (induction d arbitrary: e) (auto split: sum.splits if_splits)

lemma encrypt_dict_keys: "encrypt_dict c nonce d names = Inr e \<Longrightarrow> map fst e = map fst d"
  by (induction d arbitrary: e) (auto split: sum.splits)

lemma encrypted_text:
  assumes "crypto_ok c" and "encrypt_value c n (JStr t) None None = Inr u" and "t \<noteq> []" and "\<not> startswith t encrypted_mark"
  obtains s where "u = JStr s" and "is_encrypted (JStr s)"
    and "decrypt_value c (get_encryption_key c ''value'' None None) s = Inr t"
proof -
  let ?h = "\<lparr>holder_pk = None, holder_inputs = None, holder_attrs = [(''value'', JStr t)]\<rparr>"
  have v: "field_value ?h ''value'' None = Inr (JStr t)" by (simp add: field_value_def)
  have p: "plain_text c (JStr t) t" using assms(4) by (simp add: plain_text_def)
  obtain sg e where k: "(sg, e) = fernet_keys c ''value'' None None" by (metis surj_pair)
  from encrypt_field_plain [OF assms(1) v p, of n False None] assms(2,3) k [symmetric]
  have "u = JStr (sealed (fernet_encrypt c n sg e (smart_bytes t)))" by (simp add: encrypt_value_def)
  then show ?thesis by (rule that) (rule sealed_marked(3), rule decrypt_sealed [OF assms(1) k])
qed

lemma map_of_map_pairs: "map_of (map (\<lambda>(k, v). (k, f k v)) d) k = map_option (f k) (map_of d k)"
  by (induction d) auto

lemma each_map_of:
  assumes "each f d = Inr e" and "\<And>k v y. f (k, v) = Inr y \<Longrightarrow> fst y = k"
    and "map_of d k = Some v"
  shows "\<exists>u. f (k, v) = Inr (k, u) \<and> map_of e k = Some u"
  using assms
proof (induction d arbitrary: e)
  case (Cons x d)
  obtain k' v' where x: "x = (k', v')" by fastforce
  from Cons.prems(1) obtain y ys where y: "f x = Inr y" "each f d = Inr ys" "e = y # ys"
    by (auto simp: and_then_Inr simp del: and_then_simps)
  with Cons.prems(2) x have "fst y = k'" by blast
  with Cons x y show ?case by (cases y) (auto split: if_splits)
qed simp

lemma replaced_passwords_map: "k \<in> set names \<Longrightarrow> map_of (replaced_passwords names) k = Some (JStr encrypted_mark)"
  by (induction names) (auto simp: replaced_passwords_def)

lemma mark_not_encrypted: "\<not> is_encrypted (JStr encrypted_mark)"
  by (simp add: encrypted_mark_def)

lemma created_password:
  assumes "crypto_ok c" and "distinct (map q_variable (asked_elements jt))" and "distinct (map fst extra)"
    and "digest_separates env K" and "in_play jt \<subseteq> K" and "cache_true env K st"
    and "create_survey_job c nonce env jt extra passwords st = (Inr job, st')"
    and "k \<in> set (survey_password_variables jt)" and "map_of extra k = Some (JStr t)"
    and "t \<noteq> []" and "\<not> startswith t encrypted_mark"
  obtains s where "map_of (jb_extra_vars job) k = Some (JStr s)" and "is_encrypted (JStr s)"
    and "decrypt_value c (get_encryption_key c ''value'' None None) s = Inr t"
    and "map_of (jb_survey_passwords job) k = Some (JStr encrypted_mark)"
proof -
  from assms(7) obtain runtime vs where run: "encrypt_dict c nonce extra (survey_password_variables jt) = Inr runtime"
    and up: "update_unified_job_kwargs c env jt runtime st = (Inr vs, st')"
    and job: "job = \<lparr>jb_extra_vars = vs, jb_survey_passwords =
       dict_update passwords (replaced_passwords (survey_password_variables jt))\<rparr>"
    by (auto simp: create_survey_job_def and_then_Inr case_prod_beta prod_eq_iff Let_def simp del: and_then_simps split: sum.splits)
  from encrypt_dict_map [OF run assms(9)] assms(8) obtain u where
    u: "map_of runtime k = Some u" "encrypt_value c (nonce k) (JStr t) None None = Inr u" by auto
  from encrypted_text [OF assms(1) u(2) assms(10,11)] obtain s where
    s: "u = JStr s" "is_encrypted (JStr s)" "decrypt_value c (get_encryption_key c ''value'' None None) s = Inr t" .
  have d: "distinct (map fst runtime)" using encrypt_dict_keys [OF run] assms(3) by simp
  have "launch_value (asked_elements jt) runtime k = Some (JStr s)"
    using u s mark_not_encrypted by (auto simp: launch_value_def)
  with update_kwargs_verdict [OF assms(4,5,6,2) d up, of k] have "map_of vs k = Some (JStr s)" by simp
  moreover have "distinct (survey_password_variables jt)"
    using assms(2) by (simp add: survey_password_variables_def distinct_map_filter)
  then have "distinct (map fst (replaced_passwords (survey_password_variables jt)))"
    by (simp add: replaced_passwords_def comp_def)
  then have "map_of (dict_update passwords (replaced_passwords (survey_password_variables jt))) k = Some (JStr encrypted_mark)"
    using replaced_passwords_map [OF assms(8)] by (simp add: dict_update_distinct)
  ultimately show ?thesis using s that job by simp
qed

lemma decrypt_variable_key: "decrypt_variable c j (k, v) = Inr y \<Longrightarrow> fst y = k"
  by (auto simp: decrypt_variable_def split: json.splits if_splits sum.splits)

section \<open>Properties\<close>

text \<open>
  C5. A launch accepts exactly the answers that the survey permits. Every question must be met: a required
  one answered, text and numbers of the right type and within the limits, choices among those that the
  question's own source offers. Of the variables sent, those of a question are accepted if the question is
  met and rejected if not; the others are accepted if the template asks for variables, and otherwise
  rejected unless they repeat the template's own value. There are no errors exactly if nothing is
  wrong.
\<close>

theorem survey_answers_exact:
  assumes "sort_answers c env jt data excl eps st = (Inr (accepted, rejected, errs), st')"
    and "distinct (map q_variable (asked_elements jt))" and "distinct (map fst data)"
    and "digest_separates env (in_play jt)" and "cache_true env (in_play jt) st"
  shows "(le_survey errs = [] \<longleftrightarrow>
        list_all (meets c env jt eps data (''required'' \<notin> set excl)) (asked_elements jt)) \<and>
     (le_not_allowed errs = [] \<longleftrightarrow> ''prompts'' \<in> set excl \<or>
        (\<forall>k v. map_of data k = Some v \<longrightarrow> asks (asked_elements jt) k \<or> sh_ask_variables jt \<or> ignored_same jt k v)) \<and>
     (\<forall>k v. (map_of accepted k = Some v \<longleftrightarrow>
               map_of data k = Some v \<and> variable_accepted c env jt eps data (''required'' \<notin> set excl) k) \<and>
            (map_of rejected k = Some v \<longleftrightarrow>
               map_of data k = Some v \<and> variable_rejected c env jt eps data (''required'' \<notin> set excl) k v))"
  using sort_answers_verdict [OF assms(4) subset_refl assms(5,2,3,1) refl] by blast

text \<open>
  C29. The choices of a question are those of its own source under its own template, whatever launches, jobs
  and previews of any templates filled the cache before, provided the digest of the cache has no
  collisions: no template is served the choices of another scope.
\<close>

theorem choices_of_own_scope:
  assumes "digest_separates env K" and "\<forall>x \<in> set ops. in_play (op_holder x) \<subseteq> K" and "(q, t) \<in> K"
  shows "fst (resolve_dynamic_choices env q (Some t) (run_survey_ops c nonce env p ops fresh_state)) =
     fst (resolve_dynamic_choices env q (Some t) fresh_state)"
  using resolve_true(2) [OF assms(1,3) ops_true [OF assms(1,2)]] by (simp add: offered_def)

text \<open>
  C9. Whatever users do with surveys, every request that the server sends for their choices has an https URL
  in which \<open>urlsplit\<close> reads a host that the operator listed and that resolved, at the check, to no
  forbidden address; if the HTTP client reads the same host in the URL, it is the host that the
  client connects to. The request is a GET or POST with at most 30 seconds and without following
  redirects; and no list of choices that is kept has more than 500 entries. (On a URL in which the
  two parsers read different hosts the check says nothing of the host that is reached,
  \<open>parser_gap_reaches_unlisted\<close>.)
\<close>

theorem survey_requests_permitted:
  "requests_permitted env (run_survey_ops c nonce env p ops fresh_state) \<and>
   choices_bounded (run_survey_ops c nonce env p ops fresh_state)"
  unfolding run_survey_ops_def
  by (intro conjI fold_keeps [where P = "requests_permitted env"] fold_keeps [where P = choices_bounded]
      op_permitted op_bounded) (simp_all add: fresh_state_def requests_permitted_def choices_bounded_def)

text \<open>
  C21. A survey that is saved is well typed: its elements are questions with distinct variables, known types,
  whole-number limits and defaults of the type's kind, a password's default is blank or encrypted, and
  checking any answers against it ends without an exception as long as its static choices can be
  listed and there are no stored passwords among the answers to decrypt.
\<close>

theorem saved_survey_typed:
  assumes "validate_spec_data c nonce env new_spec old_spec = Inr spec"
  shows "\<exists>qs. saved_questions spec = Some qs \<and> distinct (map q_variable qs) \<and>
     list_all (\<lambda>q. question_typed q \<and> default_protected q) qs \<and>
     (\<forall>jt c' env' data excl st. sh_spec jt = Some qs \<and> list_all choices_listable qs \<longrightarrow>
        (\<exists>r. fst (sort_answers c' env' jt data excl [] st) = Inr r))"
proof -
  from saved_spec_typed [OF assms] obtain qs where qs: "saved_questions spec = Some qs" "distinct (map q_variable qs)"
    "\<forall>q \<in> set qs. question_typed q \<and> default_protected q" .
  have "\<exists>r. fst (sort_answers c' env' jt data excl [] st) = Inr r"
    if "sh_spec jt = Some qs \<and> list_all choices_listable qs" for jt c' env' data excl st
    by (rule sort_answers_returns)
      (use that qs(3) in \<open>auto simp: asked_elements_def survey_elements_def list_all_iff split: if_splits\<close>)
  with qs show ?thesis by (auto simp: list_all_iff)
qed

text \<open>
  The value of a variable in a new job is the one of the launch, if there is one that is not the
  placeholder of a password; else the survey's default, if it is one that the survey itself accepts;
  else the template's.
\<close>

theorem job_variables_precedence:
  assumes "update_unified_job_kwargs c env jt runtime st = (Inr vs, st')"
    and "distinct (map q_variable (asked_elements jt))" and "distinct (map fst runtime)"
    and "digest_separates env (in_play jt)" and "cache_true env (in_play jt) st"
  shows "map_of vs k =
     (case launch_value (asked_elements jt) runtime k of
        Some v \<Rightarrow> Some v
      | None \<Rightarrow>
          (case survey_default c env (sh_template jt) (asked_elements jt) k of
             Some v \<Rightarrow> Some v
           | None \<Rightarrow> map_of (sh_extra_vars jt) k))"
  by (rule update_kwargs_verdict [OF assms(4) subset_refl assms(5,2,3,1)])

text \<open>
  C22. The password answers of a survey are kept secret and are not lost: if an answer is not blank and does not
  begin with \<open>$encrypted$\<close>, the new job stores it
  encrypted, shows \<open>$encrypted$\<close> in its place, and the variables it decrypts for the run have the
  answer that was given.
\<close>

theorem survey_password_roundtrip:
  assumes "crypto_ok c" and "distinct (map q_variable (asked_elements jt))" and "distinct (map fst extra)"
    and "digest_separates env (in_play jt)" and "cache_true env (in_play jt) st"
    and "create_survey_job c nonce env jt extra passwords st = (Inr job, st')"
    and "k \<in> set (survey_password_variables jt)" and "map_of extra k = Some (JStr t)"
    and "t \<noteq> []" and "\<not> startswith t encrypted_mark"
    and "decrypted_extra_vars c job = Inr vs"
  shows "(\<exists>s. map_of (jb_extra_vars job) k = Some (JStr s) \<and> is_encrypted (JStr s)) \<and>
     map_of (display_extra_vars job) k = Some (JStr encrypted_mark) \<and> map_of vs k = Some (JStr t)"
proof -
  from created_password [OF assms(1-4) subset_refl assms(5-10)] obtain s where
    s: "map_of (jb_extra_vars job) k = Some (JStr s)" "is_encrypted (JStr s)"
      "decrypt_value c (get_encryption_key c ''value'' None None) s = Inr t"
      "map_of (jb_survey_passwords job) k = Some (JStr encrypted_mark)" .
  from each_map_of [OF assms(11) [unfolded decrypted_extra_vars_def] decrypt_variable_key s(1)] s
  have "map_of vs k = Some (JStr t)" by (auto simp: decrypt_variable_def)
  with s show ?thesis by (simp add: display_extra_vars_def map_of_map_pairs)
qed

text \<open>A saved default of a multiselect question is a text; an answer to one is a list.\<close>

lemma multiselect_not_valid:
  assumes "question_typed q" and "q_type q = ''multiselect''"
  shows "\<not> valid_default c env t q"
proof (cases "q_default q")
  case (JStr s)
  with assms(2) show ?thesis
    by (simp add: valid_default_def plain_default_def question_met_def answer_meets_def)
qed (use assms in \<open>simp_all add: question_typed_def has_mapped_type_def is_str_def valid_default_def\<close>)

text \<open>
  The default of a multiselect question of a saved survey is never used: a job for which the launch
  gives no answer has the template's own variable of that name, or none.
\<close>

theorem multiselect_default_dropped:
  assumes "validate_spec_data c' nonce env' new_spec old_spec = Inr spec" and "saved_questions spec = sh_spec jt"
    and "q \<in> set (asked_elements jt)" and "q_type q = ''multiselect''"
    and "map_of runtime (q_variable q) = None" and "distinct (map fst runtime)"
    and "update_unified_job_kwargs c env jt runtime st = (Inr vs, st')"
    and "digest_separates env (in_play jt)" and "cache_true env (in_play jt) st"
  shows "map_of vs (q_variable q) = map_of (sh_extra_vars jt) (q_variable q)"
proof -
  from saved_spec_typed [OF assms(1)] assms(2) obtain qs where qs: "sh_spec jt = Some qs" "distinct (map q_variable qs)"
    "\<forall>q \<in> set qs. question_typed q \<and> default_protected q" by metis
  from assms(3) qs(1) have asked: "asked_elements jt = qs"
    by (auto simp: asked_elements_def survey_elements_def split: if_splits)
  have "q' = q" if "q' \<in> set qs" "q_variable q' = q_variable q" for q'
    using qs(2) that assms(3) asked by (auto simp: distinct_map dest: inj_onD)
  moreover have "\<not> valid_default c env (sh_template jt) q"
    by (rule multiselect_not_valid) (use qs(3) asked assms(3,4) in auto)
  ultimately have "survey_default c env (sh_template jt) qs (q_variable q) = None"
    by (auto simp: survey_default_def map_of_eq_None_iff)
  moreover have "launch_value qs runtime (q_variable q) = None" using assms(5) by (simp add: launch_value_def)
  ultimately show ?thesis
    using update_kwargs_verdict [OF assms(8) subset_refl assms(9) _ assms(6,7), of "q_variable q"] qs(2)
    by (simp add: asked)
qed

section \<open>Witnesses\<close>

text \<open>Hosts of two inventories, a digest of the variable and the inventory, and three questions.\<close>

definition demo_digest :: "json \<Rightarrow> string" where
  "demo_digest j =
     (case j of
        JList [JStr v, d, JList [a, b, JInt i]] \<Rightarrow> v @ replicate (nat i) CHR ''.''
      | _ \<Rightarrow> [])"

definition demo_survey_env :: survey_env where
  "demo_survey_env = \<lparr>se_allowlist = JNull, se_jinja2_enabled = JBool False, se_split_url = (\<lambda>_. None), se_client_host = (\<lambda>_. None),
     se_resolve_host = (\<lambda>_ _. None), se_http = (\<lambda>_. None),
     se_query = (\<lambda>m kw f. Some (if kw = [(''inventory__id'', JInt 1)] then [JStr ''web1''] else [JStr ''db1''])),
     se_render_template = (\<lambda>_ _. None), se_digest = demo_digest, se_float = (\<lambda>_. None), se_repr = (\<lambda>_. [])\<rparr>"

definition demo_parsers :: parsers where
  "demo_parsers = \<lparr>json_loads = (\<lambda>_. None), yaml_load = (\<lambda>_. None), json_compatible = (\<lambda>_. True)\<rparr>"

definition demo_source :: variables where
  "demo_source = [(''enabled'', JBool True), (''source_type'', JStr ''db_query''), (''model'', JStr ''hosts'')]"

definition demo_host :: question where
  "demo_host = \<lparr>q_type = ''multiplechoice'', q_variable = ''host'', q_required = True, q_min = None, q_max = None,
     q_default = JNull, q_choices = JStr [], q_dynamic_choices = demo_source\<rparr>"

definition demo_pin :: question where
  "demo_pin = \<lparr>q_type = ''password'', q_variable = ''pin'', q_required = False, q_min = Some (JInt 4), q_max = None,
     q_default = JNull, q_choices = JStr [], q_dynamic_choices = []\<rparr>"

definition demo_count :: question where
  "demo_count = \<lparr>q_type = ''integer'', q_variable = ''count'', q_required = False, q_min = Some (JInt 1),
     q_max = Some (JInt 9), q_default = JInt 3, q_choices = JStr [], q_dynamic_choices = []\<rparr>"

definition demo_template :: "nat \<Rightarrow> survey_template" where
  "demo_template i = \<lparr>st_pk = Some i, st_organization = Some 1, st_inventory = Some i\<rparr>"

definition demo_jt :: "nat \<Rightarrow> survey_holder" where
  "demo_jt i = \<lparr>sh_enabled = True, sh_spec = Some [demo_host, demo_pin, demo_count], sh_ask_variables = False,
     sh_extra_vars = [(''mode'', JStr ''fast'')], sh_template = demo_template i\<rparr>"

lemmas demo_defs = demo_survey_env_def demo_source_def demo_host_def demo_pin_def demo_count_def demo_template_def
  demo_jt_def demo_digest_def fresh_state_def

definition demo_data :: variables where
  "demo_data = [(''host'', JStr ''web1''), (''count'', JInt 12), (''mode'', JStr ''fast''), (''debug'', JBool True)]"

lemma demo_asked: "asked_elements (demo_jt i) = [demo_host, demo_pin, demo_count]"
  by (simp add: demo_jt_def asked_elements_def survey_elements_def)

lemma demo_extra: "sh_extra_vars (demo_jt i) = [(''mode'', JStr ''fast'')]"
  by (simp add: demo_jt_def)

lemma demo_separates: "digest_separates demo_survey_env ({demo_host, demo_pin, demo_count} \<times> {demo_template 1, demo_template 2})"
  by (simp add: digest_separates_def key_json_def cache_scope_def json_key_def demo_defs numeral_2_eq_2)

lemma demo_in_play: "in_play (demo_jt i) = {demo_host, demo_pin, demo_count} \<times> {demo_template i}"
  by (auto simp: in_play_def demo_jt_def survey_elements_def)

lemma digest_separates_mono: "digest_separates env K \<Longrightarrow> K' \<subseteq> K \<Longrightarrow> digest_separates env K'"
  unfolding digest_separates_def by blast

lemma demo_separates_one: "digest_separates demo_survey_env (in_play (demo_jt 1))"
  by (rule digest_separates_mono [OF demo_separates]) (auto simp: demo_in_play)

lemma demo_distinct: "distinct (map q_variable (asked_elements (demo_jt i)))"
  by (simp add: demo_asked demo_host_def demo_pin_def demo_count_def)

lemma demo_sorted:
  "sort_answers demo_crypto demo_survey_env (demo_jt 1) demo_data [] [] fresh_state =
     (Inr ([(''host'', JStr ''web1'')], [(''count'', JInt 12), (''debug'', JBool True)],
        \<lparr>le_survey = [TooLarge ''count'' (JInt 12) (JInt 9)], le_not_allowed = [''debug'']\<rparr>),
      \<lparr>ss_cache = [(cache_prefix @ ''host.'', [''web1''])], ss_requests = []\<rparr>)"
  by code_simp

theorem survey_answers_exact_witness:
  "variable_accepted demo_crypto demo_survey_env (demo_jt 1) [] demo_data True ''host'' \<and>
   variable_rejected demo_crypto demo_survey_env (demo_jt 1) [] demo_data True ''count'' (JInt 12) \<and>
   variable_rejected demo_crypto demo_survey_env (demo_jt 1) [] demo_data True ''debug'' (JBool True) \<and>
   \<not> variable_rejected demo_crypto demo_survey_env (demo_jt 1) [] demo_data True ''mode'' (JStr ''fast'')"
  using survey_answers_exact [OF demo_sorted demo_distinct _ demo_separates_one cache_true_fresh]
  by (force simp: demo_data_def)

lemma demo_ops:
  "fst (resolve_dynamic_choices demo_survey_env demo_host (Some (demo_template 2)) fresh_state) = Inr (Some [''db1''])"
  by code_simp

theorem choices_of_own_scope_witness:
  "fst (resolve_dynamic_choices demo_survey_env demo_host (Some (demo_template 2))
     (run_survey_ops demo_crypto (\<lambda>_. 0) demo_survey_env demo_parsers
        [Offer (demo_jt 1) (JList []), Launch (demo_jt 1) (JObj demo_data) [] []] fresh_state)) = Inr (Some [''db1''])"
  by (subst choices_of_own_scope [OF demo_separates]) (simp_all add: demo_in_play demo_ops)

definition demo_spec :: variables where
  "demo_spec = [(''name'', JStr ''s''), (''description'', JStr []), (''spec'', JList [JObj
     [(''type'', JStr ''integer''), (''question_name'', JStr ''how many''), (''variable'', JStr ''count''),
      (''required'', JBool True), (''min'', JInt 1), (''default'', JInt 3)]])]"

lemma demo_spec_saved: "validate_spec_data demo_crypto (\<lambda>_. 0) demo_survey_env demo_spec [] = Inr demo_spec"
  by code_simp

theorem saved_survey_typed_witness:
  "\<exists>qs. saved_questions demo_spec = Some qs \<and> distinct (map q_variable qs) \<and>
     list_all (\<lambda>q. question_typed q \<and> default_protected q) qs"
  using saved_survey_typed [OF demo_spec_saved] by blast

lemma demo_updated:
  "update_unified_job_kwargs demo_crypto demo_survey_env (demo_jt 1) [(''pin'', JStr encrypted_mark), (''host'', JStr ''web1'')] fresh_state =
     (Inr [(''mode'', JStr ''fast''), (''count'', JInt 3), (''host'', JStr ''web1'')], fresh_state)"
  by code_simp

theorem job_variables_precedence_witness:
  "survey_default demo_crypto demo_survey_env (demo_template 1) (asked_elements (demo_jt 1)) ''count'' = Some (JInt 3) \<and>
   launch_value (asked_elements (demo_jt 1)) [(''pin'', JStr encrypted_mark), (''host'', JStr ''web1'')] ''pin'' = None"
proof -
  have sh: "sh_template (demo_jt 1) = demo_template 1" by (simp add: demo_jt_def)
  note at = job_variables_precedence [OF demo_updated demo_distinct _ demo_separates_one cache_true_fresh, unfolded sh]
  from at [of "''count''"] at [of "''pin''"] show ?thesis
    by (auto simp: launch_value_def demo_extra split: option.splits if_splits)
qed

definition demo_answers :: variables where
  "demo_answers = [(''host'', JStr ''web1''), (''pin'', JStr ''hunter2'')]"

lemma demo_created:
  obtains job s where
    "create_survey_job demo_crypto (\<lambda>_. 0) demo_survey_env (demo_jt 1) demo_answers [] fresh_state = (Inr job, fresh_state)"
    "decrypted_extra_vars demo_crypto job = Inr [(''mode'', JStr ''fast''), (''count'', JInt 3),
       (''host'', JStr ''web1''), (''pin'', JStr ''hunter2'')]"
proof -
  have "plain_text demo_crypto (JStr ''hunter2'') ''hunter2''"
    by (simp add: plain_text_def startswith_def encrypted_mark_def)
  with encrypt_field_plain [OF demo_crypto_ok, of "\<lparr>holder_pk = None, holder_inputs = None,
      holder_attrs = [(''value'', JStr ''hunter2'')]\<rparr>" "''value''" None "JStr ''hunter2''" "''hunter2''" 0 False None]
  have "\<exists>u. encrypt_value demo_crypto 0 (JStr ''hunter2'') None None = Inr u"
    by (simp add: encrypt_value_def field_value_def)
  then obtain s where s: "encrypt_value demo_crypto 0 (JStr ''hunter2'') None None = Inr (JStr s)"
    "is_encrypted (JStr s)" "decrypt_value demo_crypto (get_encryption_key demo_crypto ''value'' None None) s = Inr ''hunter2''"
    using encrypted_text [OF demo_crypto_ok, of 0 "''hunter2''"]
    by (auto simp: startswith_def encrypted_mark_def)
  then have m: "s \<noteq> encrypted_mark" "startswith s encrypted_mark" using mark_not_encrypted by auto
  have names: "survey_password_variables (demo_jt 1) = [''pin'']"
    by (simp add: survey_password_variables_def demo_asked demo_pin_def demo_host_def demo_count_def)
  have dict: "encrypt_dict demo_crypto (\<lambda>_. 0) demo_answers [''pin''] = Inr [(''host'', JStr ''web1''), (''pin'', JStr s)]"
    by (simp add: demo_answers_def s)
  have count: "survey_element_validation demo_survey_env (demo_jt 1) demo_count [(''count'', JInt 3)] True st = (Inr [], st)" for st
    by (simp add: survey_element_validation_def demo_count_def integer_errors_def limit_with_def below_def above_def Let_def)
  have fields: "q_default demo_host = JNull" "q_default demo_pin = JNull" "q_default demo_count = JInt 3"
    "q_variable demo_host = ''host''" "q_variable demo_pin = ''pin''" "q_variable demo_count = ''count''"
    "q_type demo_host = ''multiplechoice''" "q_type demo_count = ''integer''"
    by (simp_all add: demo_host_def demo_pin_def demo_count_def)
  have run: "update_unified_job_kwargs demo_crypto demo_survey_env (demo_jt 1) [(''host'', JStr ''web1''), (''pin'', JStr s)] fresh_state =
      (Inr [(''mode'', JStr ''fast''), (''count'', JInt 3), (''host'', JStr ''web1''), (''pin'', JStr s)], fresh_state)"
    unfolding update_unified_job_kwargs_def demo_asked demo_extra
    by (simp add: default_element_def plain_default_def Let_def fields m count [unfolded One_nat_def])
  show ?thesis
    by (rule that [of "\<lparr>jb_extra_vars = [(''mode'', JStr ''fast''), (''count'', JInt 3), (''host'', JStr ''web1''), (''pin'', JStr s)],
        jb_survey_passwords = [(''pin'', JStr encrypted_mark)]\<rparr>"])
      (simp_all add: create_survey_job_def names [unfolded One_nat_def] dict run [unfolded One_nat_def] replaced_passwords_def decrypted_extra_vars_def
        decrypt_variable_def m s)
qed

theorem survey_password_roundtrip_witness:
  "\<exists>job. create_survey_job demo_crypto (\<lambda>_. 0) demo_survey_env (demo_jt 1) demo_answers [] fresh_state = (Inr job, fresh_state) \<and>
     map_of (display_extra_vars job) ''pin'' = Some (JStr encrypted_mark) \<and>
     (\<exists>s. map_of (jb_extra_vars job) ''pin'' = Some (JStr s) \<and> is_encrypted (JStr s))"
proof -
  obtain job where run: "create_survey_job demo_crypto (\<lambda>_. 0) demo_survey_env (demo_jt 1) demo_answers [] fresh_state = (Inr job, fresh_state)"
    and dec: "decrypted_extra_vars demo_crypto job = Inr [(''mode'', JStr ''fast''), (''count'', JInt 3),
       (''host'', JStr ''web1''), (''pin'', JStr ''hunter2'')]" by (rule demo_created)
  have "''pin'' \<in> set (survey_password_variables (demo_jt 1))"
    by (simp add: survey_password_variables_def demo_asked demo_pin_def demo_host_def demo_count_def)
  with survey_password_roundtrip [OF demo_crypto_ok demo_distinct _ demo_separates_one cache_true_fresh run
        _ _ _ _ dec, of "''pin''" "''hunter2''"] run
  show ?thesis
    by (simp add: demo_answers_def startswith_def encrypted_mark_def)
qed

definition demo_multi_spec :: variables where
  "demo_multi_spec = [(''name'', JStr ''s''), (''description'', JStr []), (''spec'', JList [JObj
     [(''type'', JStr ''multiselect''), (''question_name'', JStr ''zones''), (''variable'', JStr ''zones''),
      (''required'', JBool False), (''choices'', JStr ''eu''), (''default'', JStr ''eu'')]])]"

definition demo_zones :: question where
  "demo_zones = \<lparr>q_type = ''multiselect'', q_variable = ''zones'', q_required = False, q_min = None, q_max = None,
     q_default = JStr ''eu'', q_choices = JStr ''eu'', q_dynamic_choices = []\<rparr>"

definition demo_multi :: survey_holder where
  "demo_multi = \<lparr>sh_enabled = True, sh_spec = Some [demo_zones], sh_ask_variables = False,
     sh_extra_vars = [(''mode'', JStr ''fast'')], sh_template = demo_template 1\<rparr>"

lemma demo_multi_saved: "validate_spec_data demo_crypto (\<lambda>_. 0) demo_survey_env demo_multi_spec [] = Inr demo_multi_spec"
  and demo_multi_questions: "saved_questions demo_multi_spec = sh_spec demo_multi"
  and demo_multi_run: "update_unified_job_kwargs demo_crypto demo_survey_env demo_multi [] fresh_state =
     (Inr [(''mode'', JStr ''fast'')], fresh_state)"
  by code_simp+

theorem multiselect_default_dropped_witness:
  "\<exists>vs. fst (update_unified_job_kwargs demo_crypto demo_survey_env demo_multi [] fresh_state) = Inr vs \<and>
     map_of vs (q_variable demo_zones) = None \<and> q_default demo_zones = JStr ''eu''"
proof -
  have q: "demo_zones \<in> set (asked_elements demo_multi)" "q_type demo_zones = ''multiselect''" "q_variable demo_zones = ''zones''"
    "sh_extra_vars demo_multi = [(''mode'', JStr ''fast'')]" "q_default demo_zones = JStr ''eu''"
    by (simp_all add: demo_multi_def asked_elements_def survey_elements_def demo_zones_def)
  have sep: "digest_separates demo_survey_env (in_play demo_multi)"
    by (simp add: digest_separates_def in_play_def demo_multi_def survey_elements_def)
  show ?thesis
    using multiselect_default_dropped [OF demo_multi_saved demo_multi_questions q(1,2) _ _ demo_multi_run sep cache_true_fresh] q
    by (simp add: demo_multi_run)
qed

end
