(* ===== verification/Dispatch_Schedule.thy ===== *)
theory Dispatch_Schedule
  imports Python_Values
begin

text \<open>
  The schedules of the dispatcher: \<open>ScheduledTask\<close> and \<open>Scheduler\<close> of \<open>forail/main/dispatch/periodic.py\<close>.
  Times are seconds since the scheduler's start, as rationals; targets are whole seconds. What a
  schedule runs is known to the caller by its name. The debug output is not modelled.
\<close>

section \<open>One schedule\<close>

record scheduled_task =
  sch_name :: string
  sch_interval :: int
  sch_offset :: int
  sch_index :: int
  sch_last_run :: "rat option"
  sch_completed_runs :: int

definition next_run :: "scheduled_task \<Rightarrow> int" where
  "next_run j = (sch_index j + 1) * sch_interval j + sch_offset j"

definition due_to_run :: "scheduled_task \<Rightarrow> rat \<Rightarrow> bool" where
  "due_to_run j t \<longleftrightarrow> of_int (next_run j) \<le> t"

definition expected_runs :: "scheduled_task \<Rightarrow> rat \<Rightarrow> int" where
  "expected_runs j t = truncate_rat ((t - of_int (sch_offset j)) / of_int (sch_interval j))"

definition mark_run :: "rat \<Rightarrow> scheduled_task \<Rightarrow> scheduled_task" where
  "mark_run t j = j\<lparr>sch_last_run := Some t, sch_completed_runs := sch_completed_runs j + 1,
     sch_index := expected_runs j t\<rparr>"

definition missed_runs :: "scheduled_task \<Rightarrow> rat \<Rightarrow> int" where
  "missed_runs j t =
     (let missed = expected_runs j t - sch_completed_runs j
      in if missed \<noteq> 0 \<and> due_to_run j t then missed - 1 else missed)"

section \<open>The scheduler\<close>

record scheduler =
  sd_jobs :: "scheduled_task list"
  sd_global_start :: rat

datatype scheduler_error = EmptySchedule | TooManySchedules

text \<open>An interval is \<open>int(total_seconds())\<close>.\<close>

definition new_scheduled_task :: "string \<times> rat \<Rightarrow> scheduled_task" where
  "new_scheduled_task = (\<lambda>(name, seconds).
     \<lparr>sch_name = name, sch_interval = truncate_rat seconds, sch_offset = 0, sch_index = 0, sch_last_run = None,
      sch_completed_runs = 0\<rparr>)"

fun space_out :: "int \<Rightarrow> int \<Rightarrow> int \<Rightarrow> scheduled_task list \<Rightarrow> scheduled_task list" where
  "space_out i min_interval num_jobs [] = []"
| "space_out i min_interval num_jobs (j # js) =
     j\<lparr>sch_offset := (i * min_interval) div num_jobs\<rparr> # space_out (i + 1) min_interval num_jobs js"

definition min_interval :: "scheduled_task list \<Rightarrow> int" where
  "min_interval js = foldr (\<lambda>j m. min (sch_interval j) m) (tl js) (sch_interval (hd js))"

definition new_scheduler :: "rat \<Rightarrow> (string \<times> rat) list \<Rightarrow> scheduler_error + scheduler" where
  "new_scheduler now schedule =
     (let js = map new_scheduled_task schedule in
      if js = [] then Inl EmptySchedule
      else if int (length js) > min_interval js then Inl TooManySchedules
      else Inr \<lparr>sd_jobs = space_out 0 (min_interval js) (int (length js)) js, sd_global_start = now + 2\<rparr>)"

definition poll_job :: "rat \<Rightarrow> scheduled_task \<Rightarrow> scheduled_task" where
  "poll_job t j = (if due_to_run j t then mark_run t j else j)"

definition get_and_mark_pending :: "rat \<Rightarrow> scheduler \<Rightarrow> string list \<times> scheduler" where
  "get_and_mark_pending now s =
     (let t = now - sd_global_start s
      in (map sch_name (filter (\<lambda>j. due_to_run j t) (sd_jobs s)),
          s\<lparr>sd_jobs := map (poll_job t) (sd_jobs s)\<rparr>))"

definition first_next_run :: "scheduled_task list \<Rightarrow> int" where
  "first_next_run js = foldr (\<lambda>j m. min (next_run j) m) (tl js) (next_run (hd js))"

definition time_until_next_run :: "rat \<Rightarrow> scheduler \<Rightarrow> rat" where
  "time_until_next_run now s =
     (let delta = of_int (first_next_run (sd_jobs s)) - (now - sd_global_start s)
      in if delta \<le> 1/10 then 1/10 else if delta > 20 then 20 else delta)"

section \<open>Targets\<close>

text \<open>
  The targets of a schedule are the times \<open>k * interval + offset\<close> from the first whole interval on.
  A schedule is on track at a time if its next run is the first target after that time.
\<close>

definition is_target :: "scheduled_task \<Rightarrow> int \<Rightarrow> bool" where
  "is_target j x \<longleftrightarrow> (\<exists>k \<ge> 1. x = k * sch_interval j + sch_offset j)"

definition on_track :: "rat \<Rightarrow> scheduled_task \<Rightarrow> bool" where
  "on_track t j \<longleftrightarrow> sch_interval j \<ge> 1 \<and> sch_index j \<ge> 0 \<and> t < of_int (next_run j) \<and>
     (sch_index j = 0 \<or> of_int (sch_index j * sch_interval j + sch_offset j) \<le> t)"

lemma next_run_target: "sch_index j \<ge> 0 \<Longrightarrow> is_target j (next_run j)"
  by (auto simp: is_target_def next_run_def intro!: exI [of _ "sch_index j + 1"])

lemma on_track_first:
  assumes "on_track t j" and "is_target j x" and "t < of_int x"
  shows "next_run j \<le> x"
proof -
  from assms(2) obtain k where k: "k \<ge> 1" "x = k * sch_interval j + sch_offset j" by (auto simp: is_target_def)
  have "sch_index j + 1 \<le> k"
  proof (rule ccontr)
    assume "\<not> ?thesis"
    then have le: "k \<le> sch_index j" by simp
    with k(1) assms(1) have "of_int (sch_index j * sch_interval j + sch_offset j) \<le> t" by (auto simp: on_track_def)
    moreover have "k * sch_interval j \<le> sch_index j * sch_interval j"
      using le assms(1) by (intro mult_right_mono) (simp_all add: on_track_def)
    then have "x \<le> sch_index j * sch_interval j + sch_offset j" using k(2) by simp
    then have "(of_int x :: rat) \<le> of_int (sch_index j * sch_interval j + sch_offset j)"
      by (simp only: of_int_le_iff)
    ultimately show False using assms(3) by linarith
  qed
  then have "(sch_index j + 1) * sch_interval j \<le> k * sch_interval j"
    using assms(1) by (intro mult_right_mono) (simp_all add: on_track_def)
  then show ?thesis by (simp add: next_run_def k(2))
qed

lemma due_iff_target:
  assumes "on_track t j" and "t \<le> t'"
  shows "due_to_run j t' \<longleftrightarrow> (\<exists>x. is_target j x \<and> t < of_int x \<and> of_int x \<le> t')"
proof
  assume "due_to_run j t'"
  with assms(1) next_run_target show "\<exists>x. is_target j x \<and> t < of_int x \<and> of_int x \<le> t'"
    by (auto simp: due_to_run_def on_track_def)
next
  assume "\<exists>x. is_target j x \<and> t < of_int x \<and> of_int x \<le> t'"
  then obtain x where x: "is_target j x" "t < of_int x" "of_int x \<le> t'" by blast
  have "next_run j \<le> x" by (rule on_track_first [OF assms(1) x(1,2)])
  then have "of_int (next_run j) \<le> (of_int x :: rat)" by simp
  with x(3) show "due_to_run j t'" by (simp add: due_to_run_def)
qed

lemma expected_runs_bounds:
  assumes "sch_interval j \<ge> 1" and "of_int (sch_offset j) \<le> t"
  shows "of_int (expected_runs j t * sch_interval j + sch_offset j) \<le> t"
    and "t < of_int ((expected_runs j t + 1) * sch_interval j + sch_offset j)"
proof -
  let ?q = "(t - of_int (sch_offset j)) / of_int (sch_interval j)"
  have i: "(of_int (sch_interval j) :: rat) > 0" using assms(1) by simp
  have e: "expected_runs j t = \<lfloor>?q\<rfloor>" using assms i by (simp add: expected_runs_def truncate_rat_def)
  have "of_int (expected_runs j t) \<le> ?q" unfolding e by (rule of_int_floor_le)
  then have "of_int (expected_runs j t) * of_int (sch_interval j) \<le> t - of_int (sch_offset j)"
    using i by (simp add: pos_le_divide_eq)
  then show "of_int (expected_runs j t * sch_interval j + sch_offset j) \<le> t" by simp
  have "?q < of_int (expected_runs j t) + 1" unfolding e by linarith
  then have "t - of_int (sch_offset j) < (of_int (expected_runs j t) + 1) * of_int (sch_interval j)"
    using i by (simp add: pos_divide_less_eq)
  then show "t < of_int ((expected_runs j t + 1) * sch_interval j + sch_offset j)" by simp
qed

lemma poll_on_track:
  assumes "on_track t j" and "t \<le> t'"
  shows "on_track t' (poll_job t' j)"
proof (cases "due_to_run j t'")
  case False
  with assms show ?thesis by (auto simp: on_track_def due_to_run_def poll_job_def)
next
  case True
  have i: "sch_interval j \<ge> 1" "sch_index j \<ge> 0" using assms(1) by (simp_all add: on_track_def)
  have "(sch_index j + 1) * sch_interval j \<ge> 1 * 1" using i by (intro mult_mono) simp_all
  then have "sch_offset j \<le> next_run j" by (simp add: next_run_def)
  then have off: "of_int (sch_offset j) \<le> t'" using True unfolding due_to_run_def
    by (meson of_int_le_iff order_trans)
  note b = expected_runs_bounds [OF i(1) off]
  have "0 \<le> (t' - of_int (sch_offset j)) / of_int (sch_interval j)" using off i by simp
  then have "expected_runs j t' \<ge> 0" by (simp add: expected_runs_def truncate_rat_def)
  with True b i show ?thesis by (simp add: on_track_def poll_job_def mark_run_def next_run_def)
qed

lemma mark_run_keeps [simp]:
  "sch_interval (mark_run t j) = sch_interval j" "sch_offset (mark_run t j) = sch_offset j"
  "sch_name (mark_run t j) = sch_name j"
  by (simp_all add: mark_run_def)

lemma is_target_mark [simp]: "is_target (mark_run t j) = is_target j"
  by (simp add: is_target_def fun_eq_iff)

section \<open>Polls\<close>

text \<open>The schedules that run at each of a series of polls.\<close>

fun poll_all :: "rat list \<Rightarrow> scheduler \<Rightarrow> string list list" where
  "poll_all [] s = []"
| "poll_all (now # nows) s = (let (ran, s') = get_and_mark_pending now s in ran # poll_all nows s')"

definition all_on_track :: "rat \<Rightarrow> scheduler \<Rightarrow> bool" where
  "all_on_track now s \<longleftrightarrow> (\<forall>j \<in> set (sd_jobs s). on_track (now - sd_global_start s) j)"

lemma get_and_mark_on_track:
  assumes "all_on_track now s" and "now \<le> now'"
  shows "all_on_track now' (snd (get_and_mark_pending now' s))"
  using assms poll_on_track [of "now - sd_global_start s" _ "now' - sd_global_start s"]
  by (auto simp: all_on_track_def get_and_mark_pending_def Let_def)

text \<open>What a schedule is, apart from what it has run.\<close>

definition plan :: "scheduler \<Rightarrow> (string \<times> int \<times> int) list" where
  "plan s = map (\<lambda>j. (sch_name j, sch_interval j, sch_offset j)) (sd_jobs s)"

definition target_of :: "string \<times> int \<times> int \<Rightarrow> int \<Rightarrow> bool" where
  "target_of = (\<lambda>(name, interval, offset) x. \<exists>k \<ge> 1. x = k * interval + offset)"

definition due_between :: "rat \<Rightarrow> rat \<Rightarrow> string \<times> int \<times> int \<Rightarrow> bool" where
  "due_between t t' p \<longleftrightarrow> (\<exists>x. target_of p x \<and> t < of_int x \<and> of_int x \<le> t')"

lemma get_and_mark_plan:
  "plan (snd (get_and_mark_pending now s)) = plan s"
  "sd_global_start (snd (get_and_mark_pending now s)) = sd_global_start s"
  by (simp_all add: plan_def get_and_mark_pending_def Let_def poll_job_def)

lemma get_and_mark_due:
  assumes "all_on_track now s" and "now \<le> now'"
  shows "fst (get_and_mark_pending now' s) =
     map fst (filter (due_between (now - sd_global_start s) (now' - sd_global_start s)) (plan s))"
proof -
  have "due_to_run j (now' - sd_global_start s) \<longleftrightarrow>
      due_between (now - sd_global_start s) (now' - sd_global_start s) (sch_name j, sch_interval j, sch_offset j)"
    if "j \<in> set (sd_jobs s)" for j
    using due_iff_target [of "now - sd_global_start s" j "now' - sd_global_start s"] assms that
    by (simp add: all_on_track_def due_between_def target_of_def is_target_def)
  then show ?thesis
    by (simp add: get_and_mark_pending_def Let_def plan_def filter_map comp_def cong: filter_cong)
qed

section \<open>A new scheduler\<close>

lemma foldr_min_le:
  "j \<in> set js \<Longrightarrow> foldr (\<lambda>j m. min (f j) m) (tl js) (f (hd js)) \<le> (f j :: int)"
proof -
  have "foldr (\<lambda>j m. min (f j) m) xs m \<le> m \<and> (\<forall>j \<in> set xs. foldr (\<lambda>j m. min (f j) m) xs m \<le> f j)" for xs m
    by (induction xs) (auto simp: min_le_iff_disj)
  then show "j \<in> set js \<Longrightarrow> ?thesis" by (cases js) auto
qed

lemma foldr_min_in: "js \<noteq> [] \<Longrightarrow> \<exists>j \<in> set js. foldr (\<lambda>j m. min (f j) m) (tl js) (f (hd js)) = (f j :: int)"
proof -
  have "foldr (\<lambda>j m. min (f j) m) xs m = m \<or> (\<exists>j \<in> set xs. foldr (\<lambda>j m. min (f j) m) xs m = f j)" for xs m
    by (induction xs) (auto simp: min_def)
  then show "js \<noteq> [] \<Longrightarrow> ?thesis" by (cases js) auto
qed

lemma space_out_nth:
  "length (space_out i m n js) = length js"
  "k < length js \<Longrightarrow> space_out i m n js ! k = (js ! k)\<lparr>sch_offset := ((i + int k) * m) div n\<rparr>"
proof -
  show "length (space_out i m n js) = length js" by (induction js arbitrary: i) auto
  show "k < length js \<Longrightarrow> space_out i m n js ! k = (js ! k)\<lparr>sch_offset := ((i + int k) * m) div n\<rparr>"
    by (induction js arbitrary: i k) (auto simp: nth_Cons algebra_simps split: nat.split)
qed

lemma new_scheduler_jobs:
  assumes "new_scheduler now schedule = Inr s"
  defines "js \<equiv> map new_scheduled_task schedule"
  shows "js \<noteq> []" and "int (length js) \<le> min_interval js"
    and "sd_jobs s = space_out 0 (min_interval js) (int (length js)) js" and "sd_global_start s = now + 2"
  using assms by (auto simp: new_scheduler_def Let_def split: if_splits)

lemma offset_step:
  assumes "0 < n" and "n \<le> (m :: int)" and "0 \<le> i" and "i < k" and "k < n"
  shows "(i * m) div n < (k * m) div n" and "(k * m) div n < m" and "0 \<le> (i * m) div n"
proof -
  have "i * m + n \<le> k * m"
  proof -
    have "(i + 1) * m \<le> k * m" using assms by (intro mult_right_mono) simp_all
    then show ?thesis using assms by (simp add: distrib_right)
  qed
  then have "(i * m + n) div n \<le> (k * m) div n" using assms by (intro zdiv_mono1) simp_all
  then show "(i * m) div n < (k * m) div n" using assms by simp
  have "k * m < m * n" using assms by (simp add: mult.commute)
  moreover have "(k * m) div n * n \<le> k * m"
    using div_mult_mod_eq [of "k * m" n] pos_mod_sign [of n "k * m"] assms(1) by linarith
  ultimately have "(k * m) div n * n < m * n" by linarith
  then show "(k * m) div n < m" using assms(1) by simp
  show "0 \<le> (i * m) div n" using assms by (simp add: pos_imp_zdiv_nonneg_iff)
qed

end
