(* ===== verification/Dispatch_Pool.thy ===== *)
theory Dispatch_Pool
  imports Python_Values
begin

text \<open>
  The pool of worker processes of the dispatcher: \<open>PoolWorker\<close>, \<open>WorkerPool\<close> and \<open>AutoscalePool\<close> of
  \<open>forail/main/dispatch/pool.py\<close>, with \<open>reap_job\<close> of \<open>forail/main/dispatch/reaper.py\<close>, which it calls.

  A message is the task that another process published. A worker record holds both sides: what the
  dispatcher tracks (\<open>wk_managed\<close>), the two queues between the processes, and what the child does. An
  index of a random choice comes from a sequence of draws. Arguments (\<open>pool_env\<close>): the draws, fresh
  identifiers, the process identifier of each fork if it works, and the time limit of the task managers. Log messages,
  database errors and the debug text are not modelled.
\<close>

section \<open>Data\<close>

text \<open>An empty identifier stands for a missing one. \<open>ms_bind\<close> are the arguments that the dispatcher fills in.\<close>

datatype message = Message
  (ms_uuid: string) (ms_task: string) (ms_errbacks: "message list") (ms_bind: "string list")
  (ms_dispatch_time: "rat option") (ms_worker_tasks: "(nat option \<times> string list) list option")

fun with_uuid :: "string \<Rightarrow> message \<Rightarrow> message" where
  "with_uuid u (Message u' t e b d w) = Message u t e b d w"

datatype queue_item = Msg message | Quit

record managed =
  mg_body :: message
  mg_started :: "rat option"
  mg_age :: "rat option"

text \<open>\<open>wk_pid\<close> is \<open>None\<close> for a worker whose process could not be forked.\<close>

record worker =
  wk_pid :: "nat option"
  wk_messages_sent :: nat
  wk_messages_finished :: nat
  wk_managed :: "(string \<times> managed) list"
  wk_finished :: "string list"
  wk_queue :: "queue_item list"
  wk_alive :: bool
  wk_running :: "message option"

record pool =
  pl_min_workers :: nat
  pl_max_workers :: nat
  pl_queue_size :: nat
  pl_workers :: "worker list"
  pl_scale_up_ct :: nat
  pl_worker_count_max :: nat
  pl_forks :: nat
  pl_draws :: nat
  pl_uuids :: nat

record pool_env =
  pe_draw :: "nat \<Rightarrow> nat"
  pe_uuid4 :: "nat \<Rightarrow> string"
  pe_fork :: "nat \<Rightarrow> nat option"
  pe_task_manager_timeout :: rat

section \<open>A worker\<close>

definition new_worker :: "pool_env \<Rightarrow> nat \<Rightarrow> worker" where
  "new_worker env n =
     \<lparr>wk_pid = pe_fork env n, wk_messages_sent = 0, wk_messages_finished = 0, wk_managed = [], wk_finished = [],
      wk_queue = [], wk_alive = (pe_fork env n \<noteq> None), wk_running = None\<rparr>"

definition collect_finished :: "string \<Rightarrow> worker \<Rightarrow> worker" where
  "collect_finished u w =
     (if map_of (wk_managed w) u = None then w
      else w\<lparr>wk_managed := AList.delete u (wk_managed w), wk_messages_finished := wk_messages_finished w + 1\<rparr>)"

definition calculate_managed_tasks :: "worker \<Rightarrow> worker" where
  "calculate_managed_tasks w = (fold collect_finished (wk_finished w) w)\<lparr>wk_finished := []\<rparr>"

text \<open>Whether the message went into the queue: \<open>False\<close> is \<open>queue.Full\<close>, after the message was tracked.\<close>

definition put_tracked :: "nat \<Rightarrow> string \<Rightarrow> message \<Rightarrow> worker \<Rightarrow> bool \<times> worker" where
  "put_tracked queue_size u m w =
     (let body = with_uuid u m;
          w1 = w\<lparr>wk_managed := AList.update u \<lparr>mg_body = body, mg_started = None, mg_age = None\<rparr> (wk_managed w)\<rparr>
      in if length (wk_queue w) \<ge> queue_size then (False, w1)
         else (True, calculate_managed_tasks
                 (w1\<lparr>wk_queue := wk_queue w @ [Msg body], wk_messages_sent := wk_messages_sent w + 1\<rparr>)))"

definition quit_worker :: "worker \<Rightarrow> worker" where
  "quit_worker w = w\<lparr>wk_queue := wk_queue w @ [Quit]\<rparr>"

definition current_task :: "worker \<Rightarrow> managed option" where
  "current_task w = (case wk_managed (calculate_managed_tasks w) of [] \<Rightarrow> None | (u, t) # ts \<Rightarrow> Some t)"

definition queued_messages :: "worker \<Rightarrow> message list" where
  "queued_messages w = concat (map (\<lambda>i. case i of Msg m \<Rightarrow> [m] | Quit \<Rightarrow> []) (wk_queue w))"

definition orphaned_tasks :: "worker \<Rightarrow> message list" where
  "orphaned_tasks w =
     (if wk_alive w then []
      else (case current_task w of None \<Rightarrow> [] | Some t \<Rightarrow> ms_errbacks (mg_body t)) @ queued_messages w)"

definition busy :: "worker \<Rightarrow> bool" where
  "busy w \<longleftrightarrow> wk_managed (calculate_managed_tasks w) \<noteq> []"

section \<open>Random choices\<close>

definition take_draw :: "pool_env \<Rightarrow> nat \<Rightarrow> pool \<Rightarrow> nat \<times> pool" where
  "take_draw env n p = (pe_draw env (pl_draws p) mod n, p\<lparr>pl_draws := pl_draws p + 1\<rparr>)"

text \<open>\<open>random.shuffle\<close>: every order can come out.\<close>

function shuffle :: "(nat \<Rightarrow> nat) \<Rightarrow> 'a list \<Rightarrow> 'a list" where
  "shuffle draw xs =
     (if xs = [] then []
      else (let i = draw 0 mod length xs
            in xs ! i # shuffle (draw \<circ> Suc) (take i xs @ drop (Suc i) xs)))"
  by pat_completeness auto
termination
proof (relation "measure (\<lambda>(d, xs). length xs)", goal_cases)
  case (2 draw xs i)
  then have "i < length xs" by simp
  then show ?case by simp
qed simp

declare shuffle.simps [simp del]

definition shuffled_workers :: "pool_env \<Rightarrow> pool \<Rightarrow> nat list \<times> pool" where
  "shuffled_workers env p =
     (shuffle (\<lambda>i. pe_draw env (pl_draws p + i)) [0 ..< length (pl_workers p)],
      p\<lparr>pl_draws := pl_draws p + length (pl_workers p)\<rparr>)"

section \<open>The pool\<close>

text \<open>\<open>AutoscalePool.__init__\<close>; without an explicit maximum it follows from the memory, with 7 workers on top.\<close>

definition new_pool :: "nat \<Rightarrow> nat \<Rightarrow> nat option \<Rightarrow> nat \<Rightarrow> pool" where
  "new_pool min_workers queue_size max_workers mem_capacity =
     \<lparr>pl_min_workers = min_workers,
      pl_max_workers = max min_workers (case max_workers of None \<Rightarrow> mem_capacity + 7 | Some n \<Rightarrow> n),
      pl_queue_size = queue_size, pl_workers = [], pl_scale_up_ct = 0, pl_worker_count_max = 0, pl_forks = 0,
      pl_draws = 0, pl_uuids = 0\<rparr>"

definition full :: "pool \<Rightarrow> bool" where
  "full p \<longleftrightarrow> length (pl_workers p) = pl_max_workers p"

definition base_up :: "pool_env \<Rightarrow> pool \<Rightarrow> pool" where
  "base_up env p = p\<lparr>pl_workers := pl_workers p @ [new_worker env (pl_forks p)], pl_forks := pl_forks p + 1\<rparr>"

definition up :: "pool_env \<Rightarrow> pool \<Rightarrow> pool" where
  "up env p =
     (if full p then snd (take_draw env (length (pl_workers p)) p)
      else (let p1 = base_up env (p\<lparr>pl_scale_up_ct := pl_scale_up_ct p + 1\<rparr>)
            in p1\<lparr>pl_worker_count_max := max (pl_worker_count_max p1) (length (pl_workers p1))\<rparr>))"

definition init_workers :: "pool_env \<Rightarrow> pool \<Rightarrow> pool" where
  "init_workers env p = (up env ^^ pl_min_workers p) p"

definition produce_subsystem_metrics :: "pool \<Rightarrow> (nat \<times> nat \<times> nat) \<times> pool" where
  "produce_subsystem_metrics p =
     ((pl_scale_up_ct p, sum_list (map (length \<circ> wk_managed) (pl_workers p)), pl_worker_count_max p),
      p\<lparr>pl_worker_count_max := length (pl_workers p)\<rparr>)"

definition should_grow :: "pool \<Rightarrow> bool" where
  "should_grow p \<longleftrightarrow> length (pl_workers p) < pl_min_workers p \<or> list_all busy (pl_workers p)"

text \<open>The identifier a message is put under; a message without one gets a fresh one, which it keeps.\<close>

definition name_message :: "pool_env \<Rightarrow> message \<Rightarrow> pool \<Rightarrow> message \<times> pool" where
  "name_message env m p =
     (if ms_uuid m = [] then (with_uuid (pe_uuid4 env (pl_uuids p)) m, p\<lparr>pl_uuids := pl_uuids p + 1\<rparr>) else (m, p))"

definition put_at :: "nat \<Rightarrow> message \<Rightarrow> pool \<Rightarrow> bool \<times> pool" where
  "put_at i m p =
     (let (ok, w) = put_tracked (pl_queue_size p) (ms_uuid m) m (pl_workers p ! i)
      in (ok, p\<lparr>pl_workers := (pl_workers p)[i := w]\<rparr>))"

text \<open>\<open>WorkerPool.write\<close>: the preferred queue first, then the others in order; the index, if one took it.\<close>

fun try_queues :: "nat list \<Rightarrow> message \<Rightarrow> pool \<Rightarrow> nat option \<times> pool" where
  "try_queues [] m p = (None, p)"
| "try_queues (i # is) m p = (case put_at i m p of (True, p') \<Rightarrow> (Some i, p') | (False, p') \<Rightarrow> try_queues is m p')"

definition queue_order :: "nat \<Rightarrow> pool \<Rightarrow> nat list" where
  "queue_order preferred p =
     (let is = [0 ..< length (pl_workers p)]
      in filter (\<lambda>i. i = preferred) is @ filter (\<lambda>i. i \<noteq> preferred) is)"

definition base_write :: "nat \<Rightarrow> message \<Rightarrow> pool \<Rightarrow> nat option \<times> pool" where
  "base_write preferred m p = try_queues (queue_order preferred p) m p"

text \<open>
  The tasks by process identifier: of two workers with the same one, as \<open>None\<close> for two that could not
  be forked, the later takes the place of the earlier.
\<close>

definition worker_tasks :: "pool \<Rightarrow> (nat option \<times> string list) list" where
  "worker_tasks p = fold (\<lambda>w. AList.update (wk_pid w) (map fst (wk_managed w))) (pl_workers p) []"

definition calculate_all :: "pool \<Rightarrow> pool" where
  "calculate_all p = p\<lparr>pl_workers := map calculate_managed_tasks (pl_workers p)\<rparr>"

definition add_bind_kwargs :: "rat \<Rightarrow> message \<Rightarrow> pool \<Rightarrow> message \<times> pool" where
  "add_bind_kwargs now m p =
     (if ms_bind m = [] then (m, p)
      else (let p1 = (if ''worker_tasks'' \<in> set (ms_bind m) then calculate_all p else p)
            in (Message (ms_uuid m) (ms_task m) (ms_errbacks m) []
                  (if ''dispatch_time'' \<in> set (ms_bind m) then Some now else ms_dispatch_time m)
                  (if ''worker_tasks'' \<in> set (ms_bind m) then Some (worker_tasks p1) else ms_worker_tasks m),
                p1)))"

text \<open>
  \<open>AutoscalePool.write\<close>: the index of the worker that took the message; \<open>None\<close> if it was logged and
  dropped. A full queue of a worker that is not busy ends the attempt.
\<close>

definition pool_write :: "pool_env \<Rightarrow> rat \<Rightarrow> nat \<Rightarrow> message \<Rightarrow> pool \<Rightarrow> nat option \<times> pool" where
  "pool_write env now preferred m0 p0 =
     (let (m1, p1) = add_bind_kwargs now m0 p0;
          p2 = (if should_grow p1 then up env p1 else p1);
          (order, p3) = shuffled_workers env p2;
          (m, p4) = name_message env m1 p3
      in case filter (\<lambda>i. \<not> busy (pl_workers p4 ! i)) order of
           i # is \<Rightarrow> (case put_at i m p4 of (True, p5) \<Rightarrow> (Some i, p5) | (False, p5) \<Rightarrow> (None, p5))
         | [] \<Rightarrow> base_write preferred m p4)"

section \<open>Jobs of the database\<close>

record task_row =
  jr_id :: pk
  jr_celery_task_id :: string
  jr_status :: job_status
  jr_controller_node :: string
  jr_execution_node :: string
  jr_started :: "rat option"
  jr_modified :: rat
  jr_is_workflow :: bool
  jr_start_args :: string
  jr_explanation :: string

definition default_explanation :: string where
  "default_explanation =
     ''Task was marked as running but was not present in the job queue, so it has been marked as failed.''"

text \<open>The row after \<open>reap_job\<close>, which also tells of every job that it ends.\<close>

definition reap_job :: "job_status \<Rightarrow> string option \<Rightarrow> task_row \<Rightarrow> task_row" where
  "reap_job status explanation j =
     (if jr_status j \<notin> {Running, Waiting} then j
      else j\<lparr>jr_status := status, jr_start_args := [],
             jr_explanation := jr_explanation j @ (if jr_explanation j = [] then [] else '' '') @
               (case explanation of None \<Rightarrow> default_explanation | Some e \<Rightarrow> e)\<rparr>)"

definition reap_where :: "(task_row \<Rightarrow> bool) \<Rightarrow> job_status \<Rightarrow> string option \<Rightarrow> task_row list \<Rightarrow> task_row list" where
  "reap_where sel status explanation js = map (\<lambda>j. if sel j then reap_job status explanation j else j) js"

section \<open>Cleanup\<close>

text \<open>What a cleanup does beside the pool: orphaned messages, jobs, signals to workers, retired workers.\<close>

record cleanup_state =
  cl_orphaned :: "message list"
  cl_jobs :: "task_row list"
  cl_signals :: "nat list"
  cl_retired :: "worker list"

definition manager_endings :: "string list" where
  "manager_endings = [''tasks.task_manager'', ''tasks.dependency_manager'', ''tasks.workflow_manager'']"

definition set_managed :: "string \<Rightarrow> managed \<Rightarrow> worker \<Rightarrow> worker" where
  "set_managed u t w = w\<lparr>wk_managed := AList.update u t (wk_managed w)\<rparr>"

text \<open>A task manager that runs too long is sent a signal.\<close>

definition check_manager :: "pool_env \<Rightarrow> rat \<Rightarrow> worker \<Rightarrow> worker \<times> nat list" where
  "check_manager env now w0 =
     (let w = calculate_managed_tasks w0 in
      case current_task w0 of
        None \<Rightarrow> (w, [])
      | Some t \<Rightarrow>
          if list_ex (endswith (ms_task (mg_body t))) manager_endings then
            (let started = (case mg_started t of None \<Rightarrow> now | Some s \<Rightarrow> s); age = now - started in
             (set_managed (ms_uuid (mg_body t)) (t\<lparr>mg_started := Some started, mg_age := Some age\<rparr>) w,
              if age > pe_task_manager_timeout env then [the (wk_pid w)] else []))
          else (w, []))"

text \<open>
  One worker of the copied list, with the number of workers left in the pool: the worker if it stays.
\<close>

definition cleanup_worker ::
  "pool_env \<Rightarrow> rat \<Rightarrow> nat \<Rightarrow> nat \<Rightarrow> worker \<Rightarrow> cleanup_state \<Rightarrow> worker option \<times> cleanup_state" where
  "cleanup_worker env now min_workers num_workers w c =
     (if \<not> wk_alive w then
        (None, c\<lparr>cl_jobs := (case current_task w of
                    None \<Rightarrow> cl_jobs c
                  | Some t \<Rightarrow> reap_where (\<lambda>j. jr_celery_task_id j = ms_uuid (mg_body t)) Failed None (cl_jobs c)),
                 cl_orphaned := cl_orphaned c @ orphaned_tasks w\<rparr>)
      else if \<not> busy w \<and> num_workers > min_workers then
        (None, c\<lparr>cl_retired := cl_retired c @ [quit_worker (calculate_managed_tasks w)]\<rparr>)
      else (let (w1, signals) = check_manager env now w in (Some w1, c\<lparr>cl_signals := cl_signals c @ signals\<rparr>)))"

fun cleanup_workers ::
  "pool_env \<Rightarrow> rat \<Rightarrow> nat \<Rightarrow> nat \<Rightarrow> worker list \<Rightarrow> cleanup_state \<Rightarrow> worker list \<times> cleanup_state" where
  "cleanup_workers env now min_workers num_workers [] c = ([], c)"
| "cleanup_workers env now min_workers num_workers (w # ws) c =
     (case cleanup_worker env now min_workers num_workers w c of
        (None, c1) \<Rightarrow> cleanup_workers env now min_workers (num_workers - 1) ws c1
      | (Some w1, c1) \<Rightarrow>
          (let (ws', c2) = cleanup_workers env now min_workers num_workers ws c1 in (w1 # ws', c2)))"

text \<open>The messages that no queue took are dropped.\<close>

fun requeue :: "pool_env \<Rightarrow> rat \<Rightarrow> message list \<Rightarrow> pool \<Rightarrow> message list \<times> pool" where
  "requeue env now [] p = ([], p)"
| "requeue env now (m # ms) p =
     (let p1 = (if pl_workers p = [] then up env p else p);
          (i, p2) = take_draw env (length (pl_workers p1)) p1;
          (r, p3) = pool_write env now i m p2;
          (dropped, p4) = requeue env now ms p3
      in ((if r = None then m # dropped else dropped), p4))"

definition cleanup ::
  "pool_env \<Rightarrow> rat \<Rightarrow> pool \<Rightarrow> task_row list \<Rightarrow> message list \<times> pool \<times> cleanup_state" where
  "cleanup env now p js =
     (let (ws, c) = cleanup_workers env now (pl_min_workers p) (length (pl_workers p)) (pl_workers p)
            \<lparr>cl_orphaned = [], cl_jobs = js, cl_signals = [], cl_retired = []\<rparr>;
          (dropped, p1) = requeue env now (cl_orphaned c) (p\<lparr>pl_workers := ws\<rparr>)
      in (dropped, p1, c))"

section \<open>Control messages\<close>

definition running_ids :: "pool \<Rightarrow> string list \<times> pool" where
  "running_ids p = (let p1 = calculate_all p in (concat (map (map fst \<circ> wk_managed) (pl_workers p1)), p1))"

text \<open>
  The processes that are sent SIGTERM, with the identifiers of their tasks; whether the loop ends with
  an exception, since a worker that could not be forked has no process to signal; and the workers.
\<close>

fun cancel_loop :: "string list \<Rightarrow> worker list \<Rightarrow> (nat \<times> string) list \<times> bool \<times> worker list" where
  "cancel_loop ids [] = ([], False, [])"
| "cancel_loop ids (w # ws) =
     (case current_task w of
        Some t \<Rightarrow>
          if ms_uuid (mg_body t) \<in> set ids then
            (case wk_pid w of
               None \<Rightarrow> ([], True, calculate_managed_tasks w # ws)
             | Some pid \<Rightarrow>
                 (let (signals, raised, ws') = cancel_loop ids ws
                  in ((pid, ms_uuid (mg_body t)) # signals, raised, calculate_managed_tasks w # ws')))
          else (let (signals, raised, ws') = cancel_loop ids ws in (signals, raised, calculate_managed_tasks w # ws'))
      | None \<Rightarrow>
          (let (signals, raised, ws') = cancel_loop ids ws in (signals, raised, calculate_managed_tasks w # ws')))"

definition cancel_tasks :: "string list \<Rightarrow> pool \<Rightarrow> (nat \<times> string) list \<times> bool \<times> pool" where
  "cancel_tasks ids p =
     (let (signals, raised, ws) = cancel_loop ids (pl_workers p) in (signals, raised, p\<lparr>pl_workers := ws\<rparr>))"

definition reload :: "pool \<Rightarrow> pool" where
  "reload p = p\<lparr>pl_workers := map quit_worker (pl_workers p)\<rparr>"

text \<open>\<open>dispatch_task\<close>: the preferred worker by identifier, else in turn.\<close>

definition preferred_queue :: "(string \<Rightarrow> nat option) \<Rightarrow> nat \<Rightarrow> message \<Rightarrow> pool \<Rightarrow> nat" where
  "preferred_queue uuid_int total_messages m p =
     (if pl_workers p = [] then 0
      else (case (if ms_uuid m = [] then None else uuid_int (ms_uuid m)) of
              None \<Rightarrow> total_messages mod length (pl_workers p)
            | Some n \<Rightarrow> n mod length (pl_workers p)))"

definition dispatch_task ::
  "pool_env \<Rightarrow> (string \<Rightarrow> nat option) \<Rightarrow> rat \<Rightarrow> nat \<Rightarrow> message \<Rightarrow> pool \<Rightarrow> nat option \<times> nat \<times> pool" where
  "dispatch_task env uuid_int now total_messages m p =
     (let (r, p1) = pool_write env now (preferred_queue uuid_int total_messages m p) m p
      in (r, total_messages + 1, p1))"

section \<open>The child process\<close>

text \<open>
  \<open>BaseWorker.work_loop\<close>, as the steps of the child: it takes a message, ends on \<open>QUIT\<close>, or reports the
  message it has worked on. A process may also die at any time.
\<close>

inductive child_step :: "worker \<Rightarrow> worker \<Rightarrow> bool" where
  Take: "wk_alive w \<Longrightarrow> wk_running w = None \<Longrightarrow> wk_queue w = Msg m # q \<Longrightarrow>
    child_step w (w\<lparr>wk_queue := q, wk_running := Some m\<rparr>)"
| Leave: "wk_alive w \<Longrightarrow> wk_running w = None \<Longrightarrow> wk_queue w = Quit # q \<Longrightarrow>
    child_step w (w\<lparr>wk_queue := q, wk_alive := False\<rparr>)"
| Finish: "wk_alive w \<Longrightarrow> wk_running w = Some m \<Longrightarrow>
    child_step w (w\<lparr>wk_running := None, wk_finished := wk_finished w @ [ms_uuid m]\<rparr>)"
| Die: "wk_alive w \<Longrightarrow> child_step w (w\<lparr>wk_alive := False\<rparr>)"

end
