(* ===== verification/Dispatch_Tracking.thy ===== *)
theory Dispatch_Tracking
  imports Dispatch_Pool "HOL-Library.Multiset"
begin

text \<open>
  What the dispatcher knows of its workers. A worker is tracked exactly when its managed tasks are, in
  order, the tasks it has reported, the one it runs and those in its queue. \<open>tracking\<close> is the contract of
  the operations on one worker; it is interpreted on each of them, and the lemmas on the pool rest
  on it.
\<close>

section \<open>The messages of a worker\<close>

definition in_hand :: "worker \<Rightarrow> message list" where
  "in_hand w = (case wk_running w of None \<Rightarrow> [] | Some m \<Rightarrow> [m]) @ queued_messages w"

definition held :: "worker \<Rightarrow> string list" where
  "held w = wk_finished w @ map ms_uuid (in_hand w)"

definition exact :: "worker \<Rightarrow> bool" where
  "exact w \<longleftrightarrow> map fst (wk_managed w) = held w \<and> distinct (held w) \<and>
     map (mg_body \<circ> snd) (drop (length (wk_finished w)) (wk_managed w)) = in_hand w"

lemma in_hand_simps [simp]:
  "in_hand (w\<lparr>wk_managed := x\<rparr>) = in_hand w" "in_hand (w\<lparr>wk_finished := f\<rparr>) = in_hand w"
  "in_hand (w\<lparr>wk_messages_finished := n\<rparr>) = in_hand w" "in_hand (w\<lparr>wk_messages_sent := n\<rparr>) = in_hand w"
  "in_hand (w\<lparr>wk_alive := b\<rparr>) = in_hand w"
  by (simp_all add: in_hand_def queued_messages_def)

lemma in_hand_queue:
  "in_hand (w\<lparr>wk_queue := wk_queue w @ [Msg m]\<rparr>) = in_hand w @ [m]"
  "in_hand (w\<lparr>wk_queue := wk_queue w @ [Quit]\<rparr>) = in_hand w"
  by (simp_all add: in_hand_def queued_messages_def)

lemma delete_first: "k \<notin> fst ` set d \<Longrightarrow> AList.delete k ((k, v) # d) = d"
  by (force simp: AList.delete_eq intro!: filter_True)

lemma update_new: "k \<notin> fst ` set d \<Longrightarrow> AList.update k v d = d @ [(k, v)]"
  by (induction d) auto

text \<open>Collecting the reports removes the first managed tasks.\<close>

lemma collect_exact:
  assumes "map fst (wk_managed w) = fs @ us" and "distinct (fs @ us)"
  shows "fold collect_finished fs w = w\<lparr>wk_managed := drop (length fs) (wk_managed w),
     wk_messages_finished := wk_messages_finished w + length fs\<rparr>"
  using assms
proof (induction fs arbitrary: w)
  case (Cons f fs)
  then obtain v d where m: "wk_managed w = (f, v) # d" and d: "map fst d = fs @ us" by (cases "wk_managed w") auto
  have "f \<notin> fst ` set d" using Cons.prems(2) d by (metis distinct.simps(2) append_Cons list.set_map)
  then have c: "collect_finished f w = w\<lparr>wk_managed := d, wk_messages_finished := wk_messages_finished w + 1\<rparr>"
    unfolding collect_finished_def m delete_first [OF \<open>f \<notin> fst ` set d\<close>] by simp
  have "fold collect_finished fs (collect_finished f w) = (collect_finished f w)\<lparr>
      wk_managed := drop (length fs) (wk_managed (collect_finished f w)),
      wk_messages_finished := wk_messages_finished (collect_finished f w) + length fs\<rparr>"
    by (rule Cons.IH) (use Cons.prems d c in simp_all)
  then show ?case by (simp add: c m)
qed simp

lemma calculate_exact:
  assumes "exact w"
  shows "calculate_managed_tasks w = w\<lparr>wk_managed := drop (length (wk_finished w)) (wk_managed w),
     wk_messages_finished := wk_messages_finished w + length (wk_finished w), wk_finished := []\<rparr>"
  using collect_exact [of w "wk_finished w" "map ms_uuid (in_hand w)"] assms
  by (simp add: calculate_managed_tasks_def exact_def held_def)

lemma exact_calculate:
  assumes "exact w"
  shows "exact (calculate_managed_tasks w)" and "in_hand (calculate_managed_tasks w) = in_hand w"
    and "wk_finished (calculate_managed_tasks w) = []" and "wk_queue (calculate_managed_tasks w) = wk_queue w"
    and "wk_pid (calculate_managed_tasks w) = wk_pid w" and "wk_alive (calculate_managed_tasks w) = wk_alive w"
    and "wk_running (calculate_managed_tasks w) = wk_running w"
    and "map fst (wk_managed (calculate_managed_tasks w)) = map ms_uuid (in_hand w)"
    and "map (mg_body \<circ> snd) (wk_managed (calculate_managed_tasks w)) = in_hand w"
  using assms by (auto simp: calculate_exact exact_def held_def drop_map [symmetric])

lemma busy_exact: "exact w \<Longrightarrow> busy w \<longleftrightarrow> in_hand w \<noteq> []"
  using exact_calculate(9) [of w] by (auto simp: busy_def)

lemma current_exact:
  assumes "exact w"
  shows "case current_task w of None \<Rightarrow> in_hand w = [] | Some t \<Rightarrow> (\<exists>ms. in_hand w = mg_body t # ms)"
  using exact_calculate(9) [OF assms]
  by (cases "wk_managed (calculate_managed_tasks w)") (auto simp: current_task_def dest!: sym [of _ "in_hand w"])

section \<open>Operations that keep the tracking\<close>

text \<open>An operation keeps the tracking and adds the given messages at the end.\<close>

locale tracking =
  fixes op :: "worker \<Rightarrow> worker" and ready :: "worker \<Rightarrow> bool" and added :: "message list"
  assumes keeps: "exact w \<Longrightarrow> ready w \<Longrightarrow> exact (op w)"
    and hands: "exact w \<Longrightarrow> ready w \<Longrightarrow> in_hand (op w) = in_hand w @ added"
    and reports: "exact w \<Longrightarrow> ready w \<Longrightarrow> set (wk_finished (op w)) \<subseteq> set (wk_finished w)"
begin

lemma held_after: "exact w \<Longrightarrow> ready w \<Longrightarrow> set (held (op w)) \<subseteq> set (held w) \<union> ms_uuid ` set added"
  using reports by (auto simp: held_def hands)

lemma busy_after: "exact w \<Longrightarrow> ready w \<Longrightarrow> busy (op w) \<longleftrightarrow> busy w \<or> added \<noteq> []"
  by (simp add: busy_exact keeps hands)

end

interpretation calculation: tracking calculate_managed_tasks "\<lambda>w. True" "[]"
  by unfold_locales (simp_all add: exact_calculate)

lemma quit_exact: "exact w \<Longrightarrow> exact (quit_worker w)" "in_hand (quit_worker w) = in_hand w"
  "wk_finished (quit_worker w) = wk_finished w"
  by (simp_all add: quit_worker_def exact_def held_def in_hand_queue)

interpretation quitting: tracking quit_worker "\<lambda>w. True" "[]"
  by unfold_locales (simp_all add: quit_exact)

lemma uuid_with [simp]: "ms_uuid (with_uuid u m) = u" "ms_task (with_uuid u m) = ms_task m"
  "ms_errbacks (with_uuid u m) = ms_errbacks m" "ms_bind (with_uuid u m) = ms_bind m"
  by (cases m, simp)+

lemma with_own_uuid [simp]: "with_uuid (ms_uuid m) m = m"
  by (cases m) simp

definition put_raw :: "message \<Rightarrow> worker \<Rightarrow> worker" where
  "put_raw m w = w\<lparr>
     wk_managed := AList.update (ms_uuid m) \<lparr>mg_body = m, mg_started = None, mg_age = None\<rparr> (wk_managed w),
     wk_queue := wk_queue w @ [Msg m], wk_messages_sent := wk_messages_sent w + 1\<rparr>"

lemma put_room:
  assumes "length (wk_queue w) < n"
  shows "put_tracked n (ms_uuid m) m w = (True, calculate_managed_tasks (put_raw m w))"
  using assms by (simp add: put_tracked_def put_raw_def Let_def)

lemma before_calculation:
  assumes "exact w" and "ms_uuid m \<notin> set (held w)"
  shows "exact (put_raw m w)" and "in_hand (put_raw m w) = in_hand w @ [m]" and "wk_finished (put_raw m w) = wk_finished w"
proof -
  have new: "ms_uuid m \<notin> fst ` set (wk_managed w)" using assms by (simp add: exact_def flip: set_map)
  have len: "length (wk_finished w) \<le> length (wk_managed w)"
    using assms(1) by (metis exact_def held_def length_append length_map le_add1)
  show hand: "in_hand (put_raw m w) = in_hand w @ [m]" by (simp add: put_raw_def in_hand_def queued_messages_def)
  show fin: "wk_finished (put_raw m w) = wk_finished w" by (simp add: put_raw_def)
  have "held (put_raw m w) = held w @ [ms_uuid m]" by (simp add: held_def hand fin)
  with assms new len hand fin show "exact (put_raw m w)"
    by (simp add: exact_def) (simp add: put_raw_def update_new)
qed

interpretation putting: tracking "\<lambda>w. snd (put_tracked n (ms_uuid m) m w)"
    "\<lambda>w. length (wk_queue w) < n \<and> ms_uuid m \<notin> set (held w)" "[m]" for n m
proof
  fix w assume w: "exact w" "length (wk_queue w) < n \<and> ms_uuid m \<notin> set (held w)"
  note b = before_calculation [OF w(1) conjunct2 [OF w(2)]]
  show "exact (snd (put_tracked n (ms_uuid m) m w))"
    and "in_hand (snd (put_tracked n (ms_uuid m) m w)) = in_hand w @ [m]"
    and "set (wk_finished (snd (put_tracked n (ms_uuid m) m w))) \<subseteq> set (wk_finished w)"
    using w(2) exact_calculate(1,2,3) [OF b(1)] b(2) by (simp_all add: put_room)
qed

lemma set_managed_head:
  assumes "wk_managed w = (u, t) # d" and "exact w" and "mg_body t' = mg_body t" and "wk_finished w = []"
  shows "exact (set_managed u t' w)" and "in_hand (set_managed u t' w) = in_hand w"
  using assms by (auto simp: set_managed_def exact_def held_def)

lemma check_manager_exact:
  assumes "exact w"
  shows "exact (fst (check_manager env now w))" and "in_hand (fst (check_manager env now w)) = in_hand w"
    and "wk_finished (fst (check_manager env now w)) = []" and "wk_queue (fst (check_manager env now w)) = wk_queue w"
    and "wk_alive (fst (check_manager env now w)) = wk_alive w" and "wk_pid (fst (check_manager env now w)) = wk_pid w"
proof -
  let ?w = "calculate_managed_tasks w"
  note c = exact_calculate [OF assms]
  have "exact (fst (check_manager env now w)) \<and> in_hand (fst (check_manager env now w)) = in_hand w \<and>
    wk_finished (fst (check_manager env now w)) = [] \<and> wk_queue (fst (check_manager env now w)) = wk_queue w \<and>
    wk_alive (fst (check_manager env now w)) = wk_alive w \<and> wk_pid (fst (check_manager env now w)) = wk_pid w"
  proof (cases "wk_managed ?w")
    case Nil
    then show ?thesis using c by (simp add: check_manager_def current_task_def Let_def)
  next
    case (Cons e d)
    obtain u t where e: "e = (u, t)" by fastforce
    from c(8,9) Cons e have u: "ms_uuid (mg_body t) = u" by (cases "in_hand w") auto
    have "exact (set_managed u t' ?w) \<and> in_hand (set_managed u t' ?w) = in_hand w"
      if "mg_body t' = mg_body t" for t'
      using set_managed_head [of ?w u t d t'] Cons e c that by simp
    moreover have "wk_finished (set_managed u t' ?w) = []" "wk_queue (set_managed u t' ?w) = wk_queue w"
      "wk_alive (set_managed u t' ?w) = wk_alive w" "wk_pid (set_managed u t' ?w) = wk_pid w" for t'
      using c by (simp_all add: set_managed_def)
    ultimately show ?thesis using Cons e u c
      by (simp add: check_manager_def current_task_def Let_def)
  qed
  then show "exact (fst (check_manager env now w))" and "in_hand (fst (check_manager env now w)) = in_hand w"
    and "wk_finished (fst (check_manager env now w)) = []" and "wk_queue (fst (check_manager env now w)) = wk_queue w"
    and "wk_alive (fst (check_manager env now w)) = wk_alive w" and "wk_pid (fst (check_manager env now w)) = wk_pid w"
    by blast+
qed

interpretation manager_check: tracking "\<lambda>w. fst (check_manager env now w)" "\<lambda>w. True" "[]" for env now
  by unfold_locales (simp_all add: check_manager_exact)

text \<open>The child's steps keep the tracking as well; they shift what is in hand.\<close>

lemma child_exact:
  assumes "child_step w w'" and "exact w"
  shows "exact w'" and "held w' = held w" and "wk_pid w' = wk_pid w" and "set (in_hand w') \<subseteq> set (in_hand w)"
    and "length (wk_queue w') \<le> length (wk_queue w)"
proof -
  have "exact w' \<and> held w' = held w \<and> wk_pid w' = wk_pid w \<and> set (in_hand w') \<subseteq> set (in_hand w) \<and>
    length (wk_queue w') \<le> length (wk_queue w)"
    using assms
  proof (induction rule: child_step.induct)
    case (Take w m q)
    then have "in_hand (w\<lparr>wk_queue := q, wk_running := Some m\<rparr>) = in_hand w"
      by (simp add: in_hand_def queued_messages_def)
    with Take show ?case by (simp add: exact_def held_def)
  next
    case (Leave w q)
    then have "in_hand (w\<lparr>wk_queue := q, wk_alive := False\<rparr>) = in_hand w"
      by (simp add: in_hand_def queued_messages_def)
    with Leave show ?case by (simp add: exact_def held_def)
  next
    case (Finish w m)
    let ?w = "w\<lparr>wk_running := None, wk_finished := wk_finished w @ [ms_uuid m]\<rparr>"
    have hand: "in_hand w = m # in_hand ?w" using Finish by (simp add: in_hand_def queued_messages_def)
    then have held: "held ?w = held w" by (simp add: held_def)
    from Finish hand have "map (mg_body \<circ> snd) (drop (length (wk_finished w)) (wk_managed w)) = m # in_hand ?w"
      by (simp add: exact_def)
    then have "map (mg_body \<circ> snd) (drop (Suc (length (wk_finished w))) (wk_managed w)) = in_hand ?w"
      by (metis drop_Suc list.sel(3) tl_drop map_tl)
    with Finish held hand show ?case by (auto simp: exact_def)
  next
    case (Die w)
    then show ?case by (simp add: exact_def held_def)
  qed
  then show "exact w'" and "held w' = held w" and "wk_pid w' = wk_pid w" and "set (in_hand w') \<subseteq> set (in_hand w)"
    and "length (wk_queue w') \<le> length (wk_queue w)" by blast+
qed

lemma new_worker_exact: "exact (new_worker env pid)" "in_hand (new_worker env pid) = []" "held (new_worker env pid) = []"
  "wk_queue (new_worker env pid) = []"
  by (simp_all add: new_worker_def exact_def held_def in_hand_def queued_messages_def)

end
