(* ===== verification/Dispatch_Correct.thy ===== *)
theory Dispatch_Correct
  imports Dispatch_Tracking
begin

text \<open>
  The pool under all its operations: the workers stay tracked, messages are neither lost nor doubled, and
  the number of workers stays within its limit.
\<close>

section \<open>Lists of workers\<close>

definition uuids :: "worker list \<Rightarrow> string set" where
  "uuids ws = set (concat (map held ws))"

definition work :: "worker list \<Rightarrow> message list" where
  "work ws = concat (map in_hand ws)"

definition tracked :: "worker list \<Rightarrow> bool" where
  "tracked ws \<longleftrightarrow> (\<forall>w \<in> set ws. exact w) \<and> distinct (concat (map held ws))"

lemma distinct_concat_update:
  assumes "distinct (concat (map f xs))" and "i < length xs" and "distinct (f y)"
    and "set (f y) \<subseteq> set (f (xs ! i)) \<union> A" and "A \<inter> set (concat (map f xs)) = {}"
  shows "distinct (concat (map f (xs[i := y])))"
proof -
  obtain a b where ab: "xs = a @ (xs ! i) # b" "length a = i" using assms(2) id_take_nth_drop [of i xs] by fastforce
  then have u: "xs[i := y] = a @ y # b" by (metis list_update_length)
  from ab(1) have d: "distinct (concat (map f (a @ (xs ! i) # b)))"
    and A: "A \<inter> set (concat (map f (a @ (xs ! i) # b))) = {}" using assms(1,5) by metis+
  from d A have "set (f (xs ! i)) \<inter> set (concat (map f a)) = {}" "set (f (xs ! i)) \<inter> set (concat (map f b)) = {}"
    "A \<inter> set (concat (map f a)) = {}" "A \<inter> set (concat (map f b)) = {}" by auto
  with assms(4) have "set (f y) \<inter> set (concat (map f a)) = {}" "set (f y) \<inter> set (concat (map f b)) = {}" by blast+
  then have y: "set (concat (map f a)) \<inter> set (f y) = {}" "set (f y) \<inter> set (concat (map f b)) = {}" by blast+
  have "distinct (concat (map f a))" "distinct (concat (map f b))"
    "set (concat (map f a)) \<inter> set (concat (map f b)) = {}" using d by auto
  with y assms(3) show ?thesis unfolding u by (simp add: Int_Un_distrib)
qed

lemma mset_concat_update:
  assumes "i < length xs" and "f y = f (xs ! i) @ zs"
  shows "mset (concat (map f (xs[i := y]))) = mset (concat (map f xs)) + mset zs"
proof -
  obtain a b where ab: "xs = a @ (xs ! i) # b" "length a = i" using assms(1) id_take_nth_drop [of i xs] by fastforce
  then have u: "xs[i := y] = a @ y # b" by (metis list_update_length)
  have "mset (concat (map f xs)) = mset (concat (map f (a @ (xs ! i) # b)))" using ab(1) by metis
  then show ?thesis unfolding u using assms(2) by simp
qed

lemma tracked_nth: "tracked ws \<Longrightarrow> i < length ws \<Longrightarrow> exact (ws ! i)"
  by (simp add: tracked_def)

lemma held_uuids: "w \<in> set ws \<Longrightarrow> set (held w) \<subseteq> uuids ws"
  by (auto simp: uuids_def)

lemma uuids_update: "uuids (ws[i := w]) \<subseteq> set (held w) \<union> uuids ws"
  by (auto simp: uuids_def dest!: subsetD [OF set_update_subset_insert])

context tracking
begin

lemma tracked_update:
  assumes "tracked ws" and "i < length ws" and "ready (ws ! i)" and "ms_uuid ` set added \<inter> uuids ws = {}"
  shows "tracked (ws[i := op (ws ! i)])" and "mset (work (ws[i := op (ws ! i)])) = mset (work ws) + mset added"
    and "uuids (ws[i := op (ws ! i)]) \<subseteq> uuids ws \<union> ms_uuid ` set added"
proof -
  have e: "exact (ws ! i)" by (rule tracked_nth [OF assms(1,2)])
  have k: "exact (op (ws ! i))" by (rule keeps [OF e assms(3)])
  have h: "set (held (op (ws ! i))) \<subseteq> set (held (ws ! i)) \<union> ms_uuid ` set added" by (rule held_after [OF e assms(3)])
  have d: "distinct (held (op (ws ! i)))" using k by (simp add: exact_def)
  have "distinct (concat (map held (ws[i := op (ws ! i)])))"
    by (rule distinct_concat_update [OF _ assms(2) d h]) (use assms(1,4) in \<open>auto simp: tracked_def uuids_def\<close>)
  moreover have "\<forall>w \<in> set (ws[i := op (ws ! i)]). exact w"
    using assms(1) k set_update_subset_insert [of ws i "op (ws ! i)"] by (auto simp: tracked_def)
  ultimately show "tracked (ws[i := op (ws ! i)])" by (simp add: tracked_def)
  show "mset (work (ws[i := op (ws ! i)])) = mset (work ws) + mset added"
    unfolding work_def by (rule mset_concat_update [OF assms(2)]) (rule hands [OF e assms(3)])
  have "set (held (ws ! i)) \<subseteq> uuids ws" using assms(2) by (intro held_uuids) simp
  then show "uuids (ws[i := op (ws ! i)]) \<subseteq> uuids ws \<union> ms_uuid ` set added"
    using h uuids_update [of ws i "op (ws ! i)"] by blast
qed

lemma tracked_map:
  assumes "tracked ws" and "\<forall>w \<in> set ws. ready w" and "added = []"
  shows "tracked (map op ws)" and "work (map op ws) = work ws" and "uuids (map op ws) \<subseteq> uuids ws"
proof -
  have sub: "set (held (op w)) \<subseteq> set (held w)" if "w \<in> set ws" for w
    using held_after [of w] that assms by (auto simp: tracked_def)
  have "distinct (concat (map held (map op ws)))"
    using assms
  proof (induction ws)
    case (Cons w ws)
    then have "exact w" "ready w" "tracked ws" by (auto simp: tracked_def)
    then have "distinct (held (op w))" using keeps by (simp add: exact_def)
    moreover have part: "set (held (op v)) \<subseteq> set (held v)" if "v \<in> set (w # ws)" for v
      using held_after [of v] that Cons.prems by (auto simp: tracked_def)
    then have "set (concat (map held (map op ws))) \<subseteq> set (concat (map held ws))" by fastforce
    moreover have "set (held w) \<inter> set (concat (map held ws)) = {}" using Cons.prems(1) by (simp add: tracked_def)
    moreover have "distinct (concat (map held (map op ws)))"
      by (rule Cons.IH) (use Cons.prems \<open>tracked ws\<close> in simp_all)
    ultimately have "distinct (held (op w) @ concat (map held (map op ws)))"
      using part [of w] by (simp only: distinct_append) (meson disjoint_iff list.set_intros(1) subsetD)
    then show ?case by simp
  qed simp
  with assms keeps show "tracked (map op ws)" by (auto simp: tracked_def)
  show "work (map op ws) = work ws"
    using assms hands by (auto simp: work_def tracked_def intro!: arg_cong [where f = concat])
  show "uuids (map op ws) \<subseteq> uuids ws" using sub by (fastforce simp: uuids_def)
qed

end

lemma tracked_append_new:
  assumes "tracked ws"
  shows "tracked (ws @ [new_worker env pid])" and "work (ws @ [new_worker env pid]) = work ws"
    and "uuids (ws @ [new_worker env pid]) = uuids ws"
  using assms by (auto simp: tracked_def work_def uuids_def new_worker_exact)

section \<open>Pools\<close>

definition env_ok :: "pool_env \<Rightarrow> bool" where
  "env_ok env \<longleftrightarrow> inj (pe_uuid4 env) \<and> [] \<notin> range (pe_uuid4 env)"

text \<open>The identifiers still to be drawn are not in use.\<close>

definition unused :: "pool_env \<Rightarrow> pool \<Rightarrow> string set" where
  "unused env p = pe_uuid4 env ` {pl_uuids p ..}"

definition fresh_left :: "pool_env \<Rightarrow> pool \<Rightarrow> bool" where
  "fresh_left env p \<longleftrightarrow> unused env p \<inter> uuids (pl_workers p) = {}"

definition sizes :: "pool \<Rightarrow> nat \<times> nat \<times> nat" where
  "sizes p = (pl_min_workers p, pl_max_workers p, pl_queue_size p)"

definition queues_at_most :: "nat \<Rightarrow> pool \<Rightarrow> bool" where
  "queues_at_most n p \<longleftrightarrow> (\<forall>w \<in> set (pl_workers p). length (wk_queue w) \<le> n)"

text \<open>A step that neither adds nor removes messages.\<close>

definition same_work :: "pool_env \<Rightarrow> pool \<Rightarrow> pool \<Rightarrow> bool" where
  "same_work env p p' \<longleftrightarrow> tracked (pl_workers p') \<and> work (pl_workers p') = work (pl_workers p) \<and>
     uuids (pl_workers p') \<subseteq> uuids (pl_workers p) \<and> sizes p' = sizes p \<and> pl_uuids p' \<ge> pl_uuids p \<and>
     length (pl_workers p) \<le> length (pl_workers p') \<and>
     (length (pl_workers p) \<le> pl_max_workers p \<longrightarrow> length (pl_workers p') \<le> pl_max_workers p) \<and>
     (\<forall>n. queues_at_most n p \<longrightarrow> queues_at_most n p')"

lemma disjoint_part: "A \<inter> B = {} \<Longrightarrow> C \<subseteq> B \<Longrightarrow> A \<inter> C = {}"
  by blast

lemma same_work_trans:
  "same_work env p q \<Longrightarrow> same_work env q r \<Longrightarrow> same_work env p r"
  by (force simp: same_work_def sizes_def)

lemma unused_mono: "pl_uuids p \<le> pl_uuids q \<Longrightarrow> unused env q \<subseteq> unused env p"
  by (auto simp: unused_def)

lemma same_work_fresh: "same_work env p q \<Longrightarrow> fresh_left env p \<Longrightarrow> fresh_left env q"
  using unused_mono [of p q env] by (fastforce simp: same_work_def fresh_left_def)

lemma same_work_counters:
  "tracked (pl_workers p) \<Longrightarrow> pl_workers q = pl_workers p \<Longrightarrow> sizes q = sizes p \<Longrightarrow> pl_uuids p \<le> pl_uuids q \<Longrightarrow>
    same_work env p q"
  by (simp add: same_work_def queues_at_most_def)

lemma calculate_all_same:
  assumes "tracked (pl_workers p)"
  shows "same_work env p (calculate_all p)"
proof -
  have "\<forall>w \<in> set (pl_workers p). wk_queue (calculate_managed_tasks w) = wk_queue w"
    using assms exact_calculate(4) by (simp add: tracked_def)
  then show ?thesis
    using calculation.tracked_map [OF assms]
    by (simp add: same_work_def calculate_all_def sizes_def queues_at_most_def)
qed

lemma up_same:
  assumes "tracked (pl_workers p)"
  shows "same_work env p (up env p)"
proof (cases "full p")
  case True
  then show ?thesis using assms by (simp add: up_def take_draw_def same_work_counters sizes_def)
next
  case False
  then show ?thesis
    using tracked_append_new [OF assms, of env "pl_forks p"]
    by (auto simp: up_def base_up_def same_work_def sizes_def queues_at_most_def full_def new_worker_exact Let_def)
qed

lemma mset_shuffle: "mset (shuffle d xs) = mset xs"
proof (induction d xs rule: shuffle.induct)
  case (1 d xs)
  show ?case
  proof (cases "xs = []")
    case False
    then have i: "d 0 mod length xs < length xs" by simp
    have "mset xs = add_mset (xs ! (d 0 mod length xs))
        (mset (take (d 0 mod length xs) xs @ drop (Suc (d 0 mod length xs)) xs))"
      using arg_cong [OF id_take_nth_drop [OF i], of mset] by simp
    with 1 False show ?thesis by (simp add: shuffle.simps [of d xs] Let_def comp_def)
  qed (simp add: shuffle.simps)
qed

lemma set_shuffle [simp]: "set (shuffle d xs) = set xs"
  using mset_shuffle by (metis set_mset_mset)

text \<open>How a message arrives: the task is the same, and so is an identifier it had.\<close>

definition delivered_as :: "message \<Rightarrow> message \<Rightarrow> bool" where
  "delivered_as m m' \<longleftrightarrow> ms_task m' = ms_task m \<and> ms_errbacks m' = ms_errbacks m \<and>
     (ms_uuid m \<noteq> [] \<longrightarrow> ms_uuid m' = ms_uuid m)"

lemma put_at_room:
  assumes "tracked (pl_workers p)" and "i < length (pl_workers p)" and "queues_at_most n p" and "n < pl_queue_size p"
    and "ms_uuid m \<notin> uuids (pl_workers p)"
  obtains p' where "put_at i m p = (True, p')" and "tracked (pl_workers p')"
    and "mset (work (pl_workers p')) = add_mset m (mset (work (pl_workers p)))"
    and "uuids (pl_workers p') \<subseteq> insert (ms_uuid m) (uuids (pl_workers p))" and "sizes p' = sizes p"
    and "pl_uuids p' = pl_uuids p" and "length (pl_workers p') = length (pl_workers p)"
    and "queues_at_most (n + 1) p'"
proof -
  let ?w = "pl_workers p ! i"
  let ?op = "\<lambda>w. snd (put_tracked (pl_queue_size p) (ms_uuid m) m w)"
  have e: "exact ?w" by (rule tracked_nth [OF assms(1,2)])
  have room: "length (wk_queue ?w) < pl_queue_size p" using assms(2,3,4) nth_mem [OF assms(2)] unfolding queues_at_most_def by fastforce
  have new: "ms_uuid m \<notin> set (held ?w)" using assms(2,5) held_uuids [of ?w "pl_workers p"] by auto
  have rest: "ms_uuid ` set [m] \<inter> uuids (pl_workers p) = {}" using assms(5) by simp
  note t = putting.tracked_update [where n = "pl_queue_size p" and m = m, OF assms(1,2) conjI [OF room new] rest]
  have ok: "put_at i m p = (True, p\<lparr>pl_workers := (pl_workers p)[i := ?op ?w]\<rparr>)"
    by (simp add: put_at_def put_room [OF room])
  have "wk_queue (?op ?w) = wk_queue ?w @ [Msg m]"
    using exact_calculate(4) [OF before_calculation(1) [OF e new]] by (simp add: put_room [OF room] put_raw_def)
  then have "queues_at_most (n + 1) (p\<lparr>pl_workers := (pl_workers p)[i := ?op ?w]\<rparr>)"
    using assms(2,3) set_update_subset_insert [of "pl_workers p" i "?op ?w"]
    by (fastforce simp: queues_at_most_def)
  with t ok show ?thesis
    by (intro that [of "p\<lparr>pl_workers := (pl_workers p)[i := ?op ?w]\<rparr>"]) (simp_all add: sizes_def)
qed

lemma add_bind_same:
  assumes "tracked (pl_workers p)" and "add_bind_kwargs now m p = (m', p')"
  shows "same_work env p p'" and "delivered_as m m'" and "ms_uuid m' = ms_uuid m"
    and "length (pl_workers p') = length (pl_workers p)"
  using assms calculate_all_same [OF assms(1), of env] same_work_counters [OF assms(1), of p env]
  by (auto simp: add_bind_kwargs_def Let_def delivered_as_def calculate_all_def split: if_splits)

lemma queue_order_set: "set (queue_order i p) = {0 ..< length (pl_workers p)}"
  by (auto simp: queue_order_def Let_def)

lemma name_message_facts:
  assumes "env_ok env" and "tracked (pl_workers p)" and "fresh_left env p"
    and "ms_uuid m = [] \<or> ms_uuid m \<notin> uuids (pl_workers p) \<union> unused env p" and "name_message env m p = (m', p')"
  shows "same_work env p p'" and "delivered_as m m'" and "ms_uuid m' \<notin> uuids (pl_workers p')"
    and "ms_uuid m' \<notin> unused env p'" and "pl_workers p' = pl_workers p" and "ms_uuid m' \<noteq> []"
    and "ms_uuid m \<noteq> [] \<longrightarrow> ms_uuid m' = ms_uuid m" and "ms_uuid m' \<in> insert (ms_uuid m) (unused env p)"
proof -
  have new: "pe_uuid4 env (pl_uuids p) \<notin> pe_uuid4 env ` {Suc (pl_uuids p) ..}" "pe_uuid4 env (pl_uuids p) \<noteq> []"
    using assms(1) unfolding env_ok_def by (auto dest: injD) (metis rangeI)
  have used: "pe_uuid4 env (pl_uuids p) \<notin> uuids (pl_workers p)"
    using assms(3) by (auto simp: fresh_left_def unused_def)
  have "same_work env p (p\<lparr>pl_uuids := pl_uuids p + 1\<rparr>)" and "same_work env p p"
    using assms(2) by (auto intro: same_work_counters simp: sizes_def)
  with assms(4,5) new used show "same_work env p p'" and "delivered_as m m'" and "ms_uuid m' \<notin> uuids (pl_workers p')"
    and "ms_uuid m' \<notin> unused env p'" and "pl_workers p' = pl_workers p" and "ms_uuid m' \<noteq> []"
    and "ms_uuid m \<noteq> [] \<longrightarrow> ms_uuid m' = ms_uuid m" and "ms_uuid m' \<in> insert (ms_uuid m) (unused env p)"
    by (auto simp: name_message_def delivered_as_def unused_def split: if_splits)
qed

text \<open>With room in the queues and at least one worker allowed, a written message arrives.\<close>

lemma pool_write_arrives:
  assumes env: "env_ok env" and t: "tracked (pl_workers p)" and f: "fresh_left env p"
    and room: "queues_at_most n p" "n < pl_queue_size p" and some: "0 < pl_max_workers p"
    and u: "ms_uuid m = [] \<or> ms_uuid m \<notin> uuids (pl_workers p) \<union> unused env p"
  obtains i m' p' where "pool_write env now preferred m p = (Some i, p')" and "delivered_as m m'"
    and "mset (work (pl_workers p')) = add_mset m' (mset (work (pl_workers p)))"
    and "tracked (pl_workers p')" and "fresh_left env p'" and "sizes p' = sizes p" and "queues_at_most (n + 1) p'"
    and "uuids (pl_workers p') \<subseteq> insert (ms_uuid m') (uuids (pl_workers p))"
    and "ms_uuid m' \<in> insert (ms_uuid m) (unused env p)" and "pl_uuids p \<le> pl_uuids p'" and "pl_workers p' \<noteq> []"
    and "length (pl_workers p) \<le> pl_max_workers p \<longrightarrow> length (pl_workers p') \<le> pl_max_workers p"
proof -
  obtain m1 p1 where b: "add_bind_kwargs now m p = (m1, p1)" by fastforce
  note s1 = add_bind_same(1) [OF t b, of env] and d1 = add_bind_same(2) [OF t b] and u1 = add_bind_same(3) [OF t b]
  have t1: "tracked (pl_workers p1)" using s1 by (simp add: same_work_def)
  define p2 where "p2 = (if should_grow p1 then up env p1 else p1)"
  have "same_work env p1 p2" using up_same [OF t1] same_work_counters [OF t1, of p1 env] by (simp add: p2_def)
  then have s2: "same_work env p p2" using s1 same_work_trans by blast
  have max1: "pl_max_workers p1 = pl_max_workers p" using s1 by (simp add: same_work_def sizes_def)
  have ne: "pl_workers p2 \<noteq> []"
  proof (cases "pl_workers p1 = []")
    case True
    then have "should_grow p1" by (simp add: should_grow_def)
    with True some max1 show ?thesis by (simp add: p2_def up_def base_up_def full_def Let_def)
  next
    case False
    have "length (pl_workers p1) \<le> length (pl_workers p2)"
      using \<open>same_work env p1 p2\<close> by (simp add: same_work_def)
    with False show ?thesis by auto
  qed
  obtain order p3 where o: "shuffled_workers env p2 = (order, p3)" by fastforce
  then have order: "set order = {0 ..< length (pl_workers p2)}" and w3: "pl_workers p3 = pl_workers p2"
    and s3': "sizes p3 = sizes p2" "pl_uuids p2 \<le> pl_uuids p3"
    by (auto simp: shuffled_workers_def sizes_def)
  have t2: "tracked (pl_workers p2)" using s2 by (simp add: same_work_def)
  have s3: "same_work env p p3" using s2 same_work_counters [OF t2 w3 s3'] same_work_trans by blast
  have t3: "tracked (pl_workers p3)" using s3 by (simp add: same_work_def)
  obtain m4 p4 where nm: "name_message env m1 p3 = (m4, p4)" by fastforce
  have u3: "ms_uuid m1 = [] \<or> ms_uuid m1 \<notin> uuids (pl_workers p3) \<union> unused env p3"
    using u s3 unused_mono [of p p3 env] unfolding u1 same_work_def by blast
  note n4 = name_message_facts [OF env t3 same_work_fresh [OF s3 f] u3 nm]
  have s4: "same_work env p p4" by (rule same_work_trans [OF s3 n4(1)])
  have d4: "delivered_as m m4" using d1 n4(2) u1 by (auto simp: delivered_as_def)
  have q4: "queues_at_most n p4" and size4: "n < pl_queue_size p4" and t4: "tracked (pl_workers p4)"
    using s4 room by (auto simp: same_work_def sizes_def)
  have f4: "fresh_left env p4" by (rule same_work_fresh [OF s4 f])
  have ne4: "pl_workers p4 \<noteq> []" and len4: "length (pl_workers p4) = length (pl_workers p2)"
    using ne n4(5) w3 by simp_all
  have "\<exists>i p'. pool_write env now preferred m p = (Some i, p') \<and> i < length (pl_workers p4) \<and> put_at i m4 p4 = (True, p')"
  proof (cases "filter (\<lambda>i. \<not> busy (pl_workers p4 ! i)) order")
    case (Cons i js)
    then have "i \<in> set (filter (\<lambda>i. \<not> busy (pl_workers p4 ! i)) order)" by simp
    then have "i \<in> set order" by simp
    then have i: "i < length (pl_workers p4)" using order len4 by simp
    from put_at_room [OF t4 i q4 size4 n4(3)] obtain p' where "put_at i m4 p4 = (True, p')" by blast
    with Cons i show ?thesis by (simp add: pool_write_def b o nm p2_def [symmetric])
  next
    case Nil
    have "queue_order preferred p4 \<noteq> []" using queue_order_set [of preferred p4] ne4 by force
    then obtain i js where q: "queue_order preferred p4 = i # js" by (cases "queue_order preferred p4") auto
    then have i: "i < length (pl_workers p4)" using queue_order_set [of preferred p4] by force
    from put_at_room [OF t4 i q4 size4 n4(3)] obtain p' where "put_at i m4 p4 = (True, p')" by blast
    with Nil q i show ?thesis by (simp add: pool_write_def b o nm p2_def [symmetric] base_write_def)
  qed
  then obtain i p' where w: "pool_write env now preferred m p = (Some i, p')" and i: "i < length (pl_workers p4)"
    and put: "put_at i m4 p4 = (True, p')" by blast
  from put_at_room [OF t4 i q4 size4 n4(3)] put
  have t5: "tracked (pl_workers p')" and w5: "mset (work (pl_workers p')) = add_mset m4 (mset (work (pl_workers p4)))"
    and u5: "uuids (pl_workers p') \<subseteq> insert (ms_uuid m4) (uuids (pl_workers p4))" and z5: "sizes p' = sizes p4"
    and c5: "pl_uuids p' = pl_uuids p4" and l5: "length (pl_workers p') = length (pl_workers p4)"
    and q5: "queues_at_most (n + 1) p'"
    by (metis Pair_inject)+
  have f5: "fresh_left env p'"
  proof -
    have "unused env p4 \<inter> insert (ms_uuid m4) (uuids (pl_workers p4)) = {}"
      using f4 n4(4) by (simp add: fresh_left_def)
    from disjoint_part [OF this u5] show ?thesis by (simp add: fresh_left_def unused_def c5)
  qed
  show ?thesis
  proof (rule that [OF w d4])
    show "mset (work (pl_workers p')) = add_mset m4 (mset (work (pl_workers p)))"
      using w5 s4 by (simp add: same_work_def)
    show "tracked (pl_workers p')" by (rule t5)
    show "fresh_left env p'" by (rule f5)
    show "sizes p' = sizes p" using z5 s4 by (simp add: same_work_def)
    show "queues_at_most (n + 1) p'" by (rule q5)
    show "uuids (pl_workers p') \<subseteq> insert (ms_uuid m4) (uuids (pl_workers p))" using u5 s4 by (auto simp: same_work_def)
    show "ms_uuid m4 \<in> insert (ms_uuid m) (unused env p)"
      using n4(8) u1 s3 unused_mono [of p p3 env] by (auto simp: same_work_def)
    show "pl_uuids p \<le> pl_uuids p'" using c5 s4 by (simp add: same_work_def)
    show "pl_workers p' \<noteq> []" using l5 ne4 by auto
    show "length (pl_workers p) \<le> pl_max_workers p \<longrightarrow> length (pl_workers p') \<le> pl_max_workers p"
      using l5 s4 by (simp add: same_work_def)
  qed
qed

section \<open>Cleanup\<close>

definition dead_workers :: "worker list \<Rightarrow> worker list" where
  "dead_workers ws = filter (\<lambda>w. \<not> wk_alive w) ws"

definition live_workers :: "worker list \<Rightarrow> worker list" where
  "live_workers ws = filter wk_alive ws"

lemma tracked_Cons: "tracked (w # ws) \<longleftrightarrow> exact w \<and> tracked ws \<and> set (held w) \<inter> uuids ws = {}"
  by (auto simp: tracked_def uuids_def exact_def)

lemma cleanup_workers_facts:
  assumes "tracked ws" and "cleanup_workers env now k n ws c = (ws', c')"
  shows "tracked ws' \<and> work ws' = work (live_workers ws) \<and> uuids ws' \<subseteq> uuids (live_workers ws) \<and>
    cl_orphaned c' = cl_orphaned c @ concat (map orphaned_tasks (dead_workers ws)) \<and>
    (\<forall>m. (\<forall>w \<in> set (live_workers ws). length (wk_queue w) \<le> m) \<longrightarrow> (\<forall>w \<in> set ws'. length (wk_queue w) \<le> m)) \<and>
    length ws' \<le> length ws \<and> (\<forall>w \<in> set (cl_retired c') - set (cl_retired c). in_hand w = [])"
  using assms
proof (induction ws arbitrary: n c ws' c')
  case Nil
  then show ?case by (simp add: work_def live_workers_def dead_workers_def uuids_def)
next
  case (Cons w ws)
  note w = Cons.prems(1) [unfolded tracked_Cons]
  obtain r c1 where one: "cleanup_worker env now k n w c = (r, c1)" by fastforce
  have sub: "uuids (live_workers ws) \<subseteq> uuids ws" by (auto simp: uuids_def live_workers_def)
  consider (dead) "\<not> wk_alive w" | (idle) "wk_alive w" "\<not> busy w" "n > k" | (stay) "wk_alive w" "busy w \<or> n \<le> k"
    by linarith
  then show ?case
  proof cases
    case dead
    with one have r: "r = None" and c1: "cl_orphaned c1 = cl_orphaned c @ orphaned_tasks w" "cl_retired c1 = cl_retired c"
      by (auto simp: cleanup_worker_def)
    from Cons.prems(2) one r have "cleanup_workers env now k (n - 1) ws c1 = (ws', c')" by simp
    from Cons.IH [OF _ this] w c1 dead show ?thesis by (simp add: live_workers_def dead_workers_def)
  next
    case idle
    with one have r: "r = None" and c1: "cl_orphaned c1 = cl_orphaned c"
      "cl_retired c1 = cl_retired c @ [quit_worker (calculate_managed_tasks w)]"
      by (auto simp: cleanup_worker_def)
    from w idle have hand: "in_hand w = []" by (simp add: busy_exact)
    with w have out: "in_hand (quit_worker (calculate_managed_tasks w)) = []"
      by (simp add: quit_exact exact_calculate)
    from Cons.prems(2) one r have "cleanup_workers env now k (n - 1) ws c1 = (ws', c')" by simp
    from Cons.IH [OF _ this] w c1 idle hand out show ?thesis
      by (auto simp: live_workers_def dead_workers_def work_def uuids_def)
  next
    case stay
    with one have r: "r = Some (fst (check_manager env now w))" and c1: "cl_orphaned c1 = cl_orphaned c"
      "cl_retired c1 = cl_retired c"
      by (auto simp: cleanup_worker_def case_prod_beta Let_def split: if_splits)
    obtain ws2 c2 where rest: "cleanup_workers env now k n ws c1 = (ws2, c2)" by fastforce
    from Cons.prems(2) one r rest have ws': "ws' = fst (check_manager env now w) # ws2" and c': "c' = c2" by simp_all
    have e: "exact w" using w by simp
    note m = check_manager_exact [OF e]
    have held: "set (held (fst (check_manager env now w))) \<subseteq> set (held w)"
      using manager_check.held_after [OF e] by simp
    from Cons.IH [OF _ rest] w have ih: "tracked ws2" "work ws2 = work (live_workers ws)"
      "uuids ws2 \<subseteq> uuids (live_workers ws)"
      "cl_orphaned c2 = cl_orphaned c1 @ concat (map orphaned_tasks (dead_workers ws))"
      "\<forall>m. (\<forall>w \<in> set (live_workers ws). length (wk_queue w) \<le> m) \<longrightarrow> (\<forall>w \<in> set ws2. length (wk_queue w) \<le> m)"
      "length ws2 \<le> length ws" "\<forall>w \<in> set (cl_retired c2) - set (cl_retired c1). in_hand w = []" by simp_all
    have "set (held (fst (check_manager env now w))) \<inter> uuids ws2 = {}" using held w ih(3) sub by blast
    with ih(1) m(1) have "tracked ws'" by (simp add: ws' tracked_Cons)
    moreover have "uuids ws' \<subseteq> uuids (live_workers (w # ws))"
      using held ih(3) stay(1) by (auto simp: ws' uuids_def live_workers_def)
    ultimately show ?thesis
      using ih stay m c1 by (simp add: ws' c' work_def live_workers_def dead_workers_def)
  qed
qed

text \<open>The orphaned messages arrive again, if there is room for them.\<close>

lemma requeue_arrives:
  assumes "env_ok env" and "tracked (pl_workers p)" and "fresh_left env p" and "0 < pl_max_workers p"
    and "queues_at_most n p" and "n + length ms \<le> pl_queue_size p"
    and "\<forall>m \<in> set ms. ms_uuid m = [] \<or> ms_uuid m \<notin> uuids (pl_workers p) \<union> unused env p"
    and "distinct (filter (\<lambda>u. u \<noteq> []) (map ms_uuid ms))"
  obtains ms' p' where "requeue env now ms p = ([], p')" and "list_all2 delivered_as ms ms'"
    and "mset (work (pl_workers p')) = mset (work (pl_workers p)) + mset ms'"
    and "tracked (pl_workers p')" and "fresh_left env p'" and "sizes p' = sizes p"
    and "length (pl_workers p) \<le> pl_max_workers p \<longrightarrow> length (pl_workers p') \<le> pl_max_workers p"
proof -
  have "\<exists>ms' p'. requeue env now ms p = ([], p') \<and> list_all2 delivered_as ms ms' \<and>
    mset (work (pl_workers p')) = mset (work (pl_workers p)) + mset ms' \<and>
    tracked (pl_workers p') \<and> fresh_left env p' \<and> sizes p' = sizes p \<and>
    (length (pl_workers p) \<le> pl_max_workers p \<longrightarrow> length (pl_workers p') \<le> pl_max_workers p)"
    using assms
  proof (induction ms arbitrary: p n)
    case Nil
    then show ?case by simp
  next
    case (Cons m ms)
    define p1 where "p1 = (if pl_workers p = [] then up env p else p)"
    have s1: "same_work env p p1"
      using up_same [OF Cons.prems(2)] same_work_counters [OF Cons.prems(2), of p env] by (simp add: p1_def)
    have t1: "tracked (pl_workers p1)" using s1 by (simp add: same_work_def)
    define p2 where "p2 = snd (take_draw env (length (pl_workers p1)) p1)"
    have "same_work env p1 p2"
      by (rule same_work_counters [OF t1]) (simp_all add: p2_def take_draw_def sizes_def)
    then have s2: "same_work env p p2" using s1 same_work_trans by blast
    have t2: "tracked (pl_workers p2)" and q2: "queues_at_most n p2" and z2: "sizes p2 = sizes p"
      and u2: "uuids (pl_workers p2) \<subseteq> uuids (pl_workers p)" and unused2: "unused env p2 \<subseteq> unused env p"
      using s2 Cons.prems(5) unused_mono [of p p2 env] by (simp_all add: same_work_def)
    have room: "n < pl_queue_size p2" "0 < pl_max_workers p2"
      using z2 Cons.prems(4,6) by (auto simp: sizes_def)
    have "ms_uuid m = [] \<or> ms_uuid m \<notin> uuids (pl_workers p2) \<union> unused env p2"
      using Cons.prems(7) u2 unused2 by auto
    from pool_write_arrives [OF Cons.prems(1) t2 same_work_fresh [OF s2 Cons.prems(3)] q2 room this,
        of now "fst (take_draw env (length (pl_workers p1)) p1)"]
    obtain i m' p3 where w: "pool_write env now (fst (take_draw env (length (pl_workers p1)) p1)) m p2 = (Some i, p3)"
      and d: "delivered_as m m'" and k3: "mset (work (pl_workers p3)) = add_mset m' (mset (work (pl_workers p2)))"
      and t3: "tracked (pl_workers p3)" and f3: "fresh_left env p3" and z3: "sizes p3 = sizes p2"
      and q3: "queues_at_most (n + 1) p3"
      and u3: "uuids (pl_workers p3) \<subseteq> insert (ms_uuid m') (uuids (pl_workers p2))"
      and um: "ms_uuid m' \<in> insert (ms_uuid m) (unused env p2)" and c3: "pl_uuids p2 \<le> pl_uuids p3"
      and l3: "length (pl_workers p2) \<le> pl_max_workers p2 \<longrightarrow> length (pl_workers p3) \<le> pl_max_workers p2" .
    have unused3: "unused env p3 \<subseteq> unused env p2" by (rule unused_mono [OF c3])
    have size3: "0 < pl_max_workers p3" "n + 1 + length ms \<le> pl_queue_size p3"
      using z3 z2 Cons.prems(4,6) by (auto simp: sizes_def)
    have rest: "\<forall>v \<in> set ms. ms_uuid v = [] \<or> ms_uuid v \<notin> uuids (pl_workers p3) \<union> unused env p3"
    proof
      fix v assume v: "v \<in> set ms"
      show "ms_uuid v = [] \<or> ms_uuid v \<notin> uuids (pl_workers p3) \<union> unused env p3"
      proof (cases "ms_uuid v = []")
        case False
        then have "ms_uuid v \<notin> uuids (pl_workers p) \<union> unused env p" using Cons.prems(7) v by auto
        moreover have "ms_uuid v \<noteq> ms_uuid m'"
        proof
          assume eq: "ms_uuid v = ms_uuid m'"
          with um calculation unused2 have "ms_uuid v = ms_uuid m" by auto
          with v have "ms_uuid m \<in> ms_uuid ` set ms" by (metis imageI)
          with \<open>ms_uuid v = ms_uuid m\<close> False Cons.prems(8) show False by (simp split: if_splits)
        qed
        ultimately show ?thesis using u3 u2 unused3 unused2 by blast
      qed simp
    qed
    have "distinct (filter (\<lambda>u. u \<noteq> []) (map ms_uuid ms))" using Cons.prems(8) by (simp split: if_splits)
    from Cons.IH [OF Cons.prems(1) t3 f3 size3(1) q3 size3(2) rest this] obtain ms' p' where
      ih: "requeue env now ms p3 = ([], p')" "list_all2 delivered_as ms ms'"
        "mset (work (pl_workers p')) = mset (work (pl_workers p3)) + mset ms'" "tracked (pl_workers p')"
        "fresh_left env p'" "sizes p' = sizes p3"
        "length (pl_workers p3) \<le> pl_max_workers p3 \<longrightarrow> length (pl_workers p') \<le> pl_max_workers p3" by blast
    have work2: "work (pl_workers p2) = work (pl_workers p)" using s2 by (simp add: same_work_def)
    have max: "pl_max_workers p2 = pl_max_workers p" "pl_max_workers p3 = pl_max_workers p"
      using z2 z3 by (simp_all add: sizes_def)
    have "length (pl_workers p) \<le> pl_max_workers p \<longrightarrow> length (pl_workers p2) \<le> pl_max_workers p"
      using s2 by (simp add: same_work_def)
    with l3 ih(7) max have len: "length (pl_workers p) \<le> pl_max_workers p \<longrightarrow> length (pl_workers p') \<le> pl_max_workers p"
      by simp
    have run: "requeue env now (m # ms) p = ([], p')"
      using w ih(1) by (simp add: p1_def [symmetric] Let_def case_prod_beta p2_def [symmetric])
    show ?case
      by (rule exI [of _ "m' # ms'"], rule exI [of _ p'])
        (use run d ih k3 work2 z2 z3 len in simp)
  qed
  then show ?thesis using that by blast
qed

end
