(* ===== verification/Dispatch_Reaper.thy ===== *)
theory Dispatch_Reaper
  imports Dispatch_Pool
begin

text \<open>
  Reaping jobs: \<open>forail/main/dispatch/reaper.py\<close>, the heartbeat \<open>cluster_node_heartbeat\<close> of
  \<open>forail/main/tasks/system.py\<close> and the node methods it calls in \<open>forail/main/models/ha.py\<close>. Times are
  seconds. Arguments (\<open>cluster_env\<close>): the settings, the health check of a node, the inspection of
  execution nodes, the comparison of versions. Database errors and log messages are not modelled.
\<close>

section \<open>The reaper\<close>

definition startup_explanation :: string where
  "startup_explanation = ''Task was marked as running at system start up. The system must have not shut down properly, so it has been marked as failed.''"

definition startup_reaping :: "string \<Rightarrow> task_row list \<Rightarrow> task_row list" where
  "startup_reaping host js =
     reap_where (\<lambda>j. jr_status j = Running \<and> jr_controller_node j = host) Failed (Some startup_explanation) js"

definition waits_too_long :: "string \<Rightarrow> rat \<Rightarrow> string list \<Rightarrow> rat \<Rightarrow> task_row \<Rightarrow> bool" where
  "waits_too_long host grace_period excluded ref_time j \<longleftrightarrow>
     jr_status j = Waiting \<and> jr_modified j \<le> ref_time - grace_period \<and> jr_controller_node j = host \<and>
     jr_celery_task_id j \<notin> set excluded"

definition reap_waiting ::
  "string \<Rightarrow> string option \<Rightarrow> rat \<Rightarrow> string list \<Rightarrow> rat \<Rightarrow> task_row list \<Rightarrow> task_row list" where
  "reap_waiting host explanation grace_period excluded ref_time js =
     reap_where (waits_too_long host grace_period excluded ref_time) Failed explanation js"

text \<open>A job without a start time is not older than any time.\<close>

definition runs_without_worker :: "string \<Rightarrow> string list \<Rightarrow> rat option \<Rightarrow> task_row \<Rightarrow> bool" where
  "runs_without_worker host excluded ref_time j \<longleftrightarrow>
     jr_status j = Running \<and> (jr_execution_node j = host \<or> jr_controller_node j = host) \<and> \<not> jr_is_workflow j \<and>
     (case ref_time of
        None \<Rightarrow> True
      | Some t \<Rightarrow> (case jr_started j of None \<Rightarrow> False | Some s \<Rightarrow> s \<le> t)) \<and>
     jr_celery_task_id j \<notin> set excluded"

definition reap ::
  "string \<Rightarrow> string option \<Rightarrow> string list \<Rightarrow> rat option \<Rightarrow> task_row list \<Rightarrow> task_row list" where
  "reap host explanation excluded ref_time js =
     reap_where (runs_without_worker host excluded ref_time) Failed explanation js"

section \<open>Nodes\<close>

datatype instance_type = Control | Execution | Hybrid | Hop

datatype node_state = Provisioning | ProvisionFail | Installed | Ready | Unavailable | Deprovisioning | DeprovisionFail

record node =
  nd_hostname :: string
  nd_type :: instance_type
  nd_state :: node_state
  nd_last_seen :: "rat option"
  nd_version :: string
  nd_cpu_capacity :: rat
  nd_mem_capacity :: rat
  nd_capacity :: rat
  nd_errors :: string

record cluster_env =
  ce_host :: string
  ce_heartbeat_period :: rat
  ce_missed_tolerance :: rat
  ce_receptor_period :: rat
  ce_waiting_grace :: rat
  ce_auto_deprovision :: bool
  ce_debug :: bool
  ce_inspect :: "node \<Rightarrow> node"
  ce_health_check :: "node \<Rightarrow> node"
  ce_newer :: "string \<Rightarrow> bool"
  ce_registered :: node

definition is_lost :: "cluster_env \<Rightarrow> rat \<Rightarrow> node \<Rightarrow> bool" where
  "is_lost env ref_time n \<longleftrightarrow>
     (case nd_last_seen n of
        None \<Rightarrow> True
      | Some seen \<Rightarrow>
          seen < ref_time - (ce_heartbeat_period env * ce_missed_tolerance env +
            (if nd_type n \<in> {Execution, Hop} then ce_receptor_period env else 0)))"

definition mark_offline :: "bool \<Rightarrow> rat \<Rightarrow> string \<Rightarrow> node \<Rightarrow> node" where
  "mark_offline update_last_seen now errors n =
     (if nd_state n \<notin> {Ready, Unavailable, Installed} then n
      else if nd_state n = Unavailable \<and> nd_errors n = errors \<and> \<not> update_last_seen then n
      else n\<lparr>nd_state := Unavailable, nd_cpu_capacity := 0, nd_mem_capacity := 0, nd_capacity := 0,
             nd_errors := errors, nd_last_seen := (if update_last_seen then Some now else nd_last_seen n)\<rparr>)"

section \<open>The heartbeat\<close>

datatype beat = Done | Rejoined | ShuttingDown | HostNotFound | NoWorkers

definition lost_explanation :: string where
  "lost_explanation = ''Job reaped due to instance shutdown''"

definition unresponsive :: string where
  "unresponsive = ''Another cluster node has determined this instance to be unresponsive''"

text \<open>The local reaper: without any worker the greatest length of their lists is not defined.\<close>

definition local_reaper ::
  "cluster_env \<Rightarrow> rat \<Rightarrow> (nat option \<times> string list) list option \<Rightarrow> task_row list \<Rightarrow> beat \<times> task_row list" where
  "local_reaper env dispatch_time tasks js =
     (case tasks of
        None \<Rightarrow> (Done, js)
      | Some ts \<Rightarrow>
          (let active = concat (map snd ts); js1 = reap (ce_host env) None active (Some dispatch_time) js
           in if ts = [] then (NoWorkers, js1)
              else if list_all (\<lambda>t. length (snd t) \<le> 1) ts
              then (Done, reap_waiting (ce_host env) None (ce_waiting_grace env) active dispatch_time js1)
              else (Done, js1)))"

definition reap_lost :: "rat \<Rightarrow> node \<Rightarrow> task_row list \<Rightarrow> task_row list" where
  "reap_lost now n js =
     reap_waiting (nd_hostname n) (Some lost_explanation) 0 [] now
       (reap (nd_hostname n) (Some lost_explanation) [] None js)"

definition handle_lost :: "cluster_env \<Rightarrow> rat \<Rightarrow> node \<Rightarrow> node list \<Rightarrow> node list" where
  "handle_lost env now n ns =
     (if ce_auto_deprovision env \<and> nd_type n = Control then filter (\<lambda>x. nd_hostname x \<noteq> nd_hostname n) ns
      else if nd_state n = Ready
      then map (\<lambda>x. if nd_hostname x = nd_hostname n then mark_offline False now unresponsive n else x) ns
      else ns)"

definition set_node :: "node \<Rightarrow> node list \<Rightarrow> node list" where
  "set_node n ns = map (\<lambda>x. if nd_hostname x = nd_hostname n then n else x) ns"

definition register_node :: "node \<Rightarrow> node list \<Rightarrow> node list" where
  "register_node n ns = (if list_ex (\<lambda>x. nd_hostname x = nd_hostname n) ns then set_node n ns else ns @ [n])"

definition asks_shutdown :: "cluster_env \<Rightarrow> node \<Rightarrow> bool" where
  "asks_shutdown env n \<longleftrightarrow>
     nd_type n \<notin> {Execution, Hop} \<and> nd_version n \<noteq> [] \<and> \<not> startswith (nd_version n) ''ansible-runner'' \<and>
     ce_newer env (nd_version n) \<and> \<not> ce_debug env"

text \<open>The nodes that a heartbeat looks at, after the execution nodes have been inspected.\<close>

definition inspected :: "cluster_env \<Rightarrow> node list \<Rightarrow> node list" where
  "inspected env ns = map (\<lambda>n. if nd_state n \<in> {Ready, Unavailable, Installed} then ce_inspect env n else n) ns"

definition instance_list :: "cluster_env \<Rightarrow> node list \<Rightarrow> node list" where
  "instance_list env ns = filter (\<lambda>n. nd_state n \<in> {Ready, Unavailable, Installed}) ns"

definition lost_instances :: "cluster_env \<Rightarrow> rat \<Rightarrow> node list \<Rightarrow> node list" where
  "lost_instances env now loaded = filter (\<lambda>n. nd_hostname n \<noteq> ce_host env \<and> is_lost env now n) loaded"

definition after_check ::
  "cluster_env \<Rightarrow> rat \<Rightarrow> rat \<Rightarrow> (nat option \<times> string list) list option \<Rightarrow> node list \<Rightarrow> node list \<Rightarrow> task_row list \<Rightarrow>
     beat \<times> node list \<times> task_row list" where
  "after_check env now dispatch_time tasks loaded ns js =
     (let lost = lost_instances env now loaded;
          others = filter (\<lambda>n. nd_hostname n = ce_host env \<or> \<not> is_lost env now n) loaded
      in if list_ex (asks_shutdown env) others then (ShuttingDown, ns, js)
         else (let js1 = fold (reap_lost now) lost js;
                   ns1 = fold (handle_lost env now) lost ns;
                   (b, js2) = local_reaper env dispatch_time tasks js1
               in (b, ns1, js2)))"

definition cluster_node_heartbeat ::
  "cluster_env \<Rightarrow> rat \<Rightarrow> rat \<Rightarrow> (nat option \<times> string list) list option \<Rightarrow> node list \<Rightarrow> task_row list \<Rightarrow>
     beat \<times> node list \<times> task_row list" where
  "cluster_node_heartbeat env now dispatch_time tasks ns0 js =
     (let ns = inspected env ns0;
          loaded = map (\<lambda>n. ce_inspect env n) (instance_list env ns0)
      in case find (\<lambda>n. nd_hostname n = ce_host env) loaded of
           Some this \<Rightarrow>
             (let this' = ce_health_check env this; ns' = set_node this' ns
              in if is_lost env now this \<and> nd_capacity this' \<noteq> 0 then (Rejoined, ns', js)
                 else after_check env now dispatch_time tasks (set_node this' loaded) ns' js)
         | None \<Rightarrow>
             if ce_auto_deprovision env
             then after_check env now dispatch_time tasks loaded
                    (register_node (ce_health_check env (ce_registered env)) ns) js
             else (HostNotFound, ns, js))"

end
