(* ===== verification/Dispatch_Properties.thy ===== *)
theory Dispatch_Properties
  imports Dispatch_Schedule Dispatch_Correct Dispatch_Reaper
begin

text \<open>
  The states that the dispatcher's pool can reach, the invariant of these states, and what a cleanup does
  with the messages of dead workers.
\<close>

section \<open>Reachable pools\<close>

text \<open>An error callback has no identifier of its own, nor have its callbacks.\<close>

fun plain :: "message \<Rightarrow> bool" where
  "plain (Message u t es b d w) = list_all (\<lambda>e. ms_uuid e = [] \<and> plain e) es"

lemma plain_errbacks: "plain m \<longleftrightarrow> list_all (\<lambda>e. ms_uuid e = [] \<and> plain e) (ms_errbacks m)"
  by (cases m) simp

text \<open>The messages in the queues, with the callbacks that may follow from them.\<close>

definition worker_load :: "worker \<Rightarrow> nat" where
  "worker_load w = length (wk_queue w) + sum_list (map (length \<circ> ms_errbacks) (in_hand w))"

definition pool_load :: "pool \<Rightarrow> nat" where
  "pool_load p = sum_list (map worker_load (pl_workers p))"

definition roomy :: "pool \<Rightarrow> bool" where
  "roomy p \<longleftrightarrow> pool_load p < pl_queue_size p"

text \<open>
  The steps of the dispatcher, of its children and of other processes that change jobs, in runs in which
  no queue is ever full and no identifier comes twice: a message is written and a cleanup is made only while the queues have
  room for the whole load (\<open>roomy\<close>), and a message comes without an identifier or with one that is
  not in the pool. What a full queue does is the theorem \<open>full_queue_leaves_phantom\<close>.
\<close>

inductive pool_step :: "pool_env \<Rightarrow> pool \<times> task_row list \<Rightarrow> pool \<times> task_row list \<Rightarrow> bool" for env where
  Write: "roomy p \<Longrightarrow> plain m \<Longrightarrow>
    ms_uuid m = [] \<or> ms_uuid m \<notin> uuids (pl_workers p) \<union> range (pe_uuid4 env) \<Longrightarrow>
    pool_step env (p, js) (snd (pool_write env now preferred m p), js)"
| Cleanup: "roomy p \<Longrightarrow> cleanup env now p js = (dropped, p', c) \<Longrightarrow> pool_step env (p, js) (p', cl_jobs c)"
| Calculate: "pool_step env (p, js) (calculate_all p, js)"
| Reload: "pool_step env (p, js) (reload p, js)"
| Metrics: "pool_step env (p, js) (snd (produce_subsystem_metrics p), js)"
| Child: "i < length (pl_workers p) \<Longrightarrow> child_step (pl_workers p ! i) w \<Longrightarrow>
    pool_step env (p, js) (p\<lparr>pl_workers := (pl_workers p)[i := w]\<rparr>, js)"
| Others: "pool_step env (p, js) (p, js')"

inductive pool_reachable :: "pool_env \<Rightarrow> pool \<Rightarrow> pool \<times> task_row list \<Rightarrow> bool" for env p0 where
  Start: "pool_reachable env p0 (init_workers env p0, js)"
| Step: "pool_reachable env p0 s \<Longrightarrow> pool_step env s s' \<Longrightarrow> pool_reachable env p0 s'"

definition pool_ok :: "pool_env \<Rightarrow> pool \<Rightarrow> bool" where
  "pool_ok env p \<longleftrightarrow> tracked (pl_workers p) \<and> fresh_left env p \<and> list_all plain (work (pl_workers p)) \<and>
     0 < pl_max_workers p \<and> length (pl_workers p) \<le> pl_max_workers p"

section \<open>The invariant\<close>

lemma pool_okI:
  assumes "same_work env p p'" and "pool_ok env p"
  shows "pool_ok env p'"
  using assms same_work_fresh [OF assms(1)] by (auto simp: pool_ok_def same_work_def sizes_def)

lemma worker_load_in: "w \<in> set (pl_workers p) \<Longrightarrow> worker_load w \<le> pool_load p"
  by (simp add: pool_load_def member_le_sum_list)

lemma queue_room: "queues_at_most (pool_load p) p"
  unfolding queues_at_most_def
proof
  fix w assume "w \<in> set (pl_workers p)"
  then have "worker_load w \<le> pool_load p" by (rule worker_load_in)
  then show "length (wk_queue w) \<le> pool_load p" by (simp add: worker_load_def)
qed

lemma ups_ok:
  assumes "pool_ok env p"
  shows "pool_ok env ((up env ^^ n) p)"
proof (induction n)
  case 0
  show ?case using assms by simp
next
  case (Suc n)
  then have "tracked (pl_workers ((up env ^^ n) p))" by (simp add: pool_ok_def)
  from pool_okI [OF up_same [OF this] Suc] show ?case by simp
qed

lemma init_ok:
  assumes "0 < pl_max_workers p" and "pl_workers p = []"
  shows "pool_ok env (init_workers env p)"
  unfolding init_workers_def
  by (rule ups_ok) (use assms in \<open>simp add: pool_ok_def tracked_def fresh_left_def uuids_def work_def\<close>)

lemma delivered_plain: "delivered_as m m' \<Longrightarrow> plain m' \<longleftrightarrow> plain m"
  unfolding plain_errbacks [of m] plain_errbacks [of m'] by (simp add: delivered_as_def)

lemma write_ok:
  assumes "env_ok env" and "pool_ok env p" and "roomy p" and "plain m"
    and "ms_uuid m = [] \<or> ms_uuid m \<notin> uuids (pl_workers p) \<union> unused env p"
  shows "pool_ok env (snd (pool_write env now preferred m p))"
    and "\<exists>i m'. fst (pool_write env now preferred m p) = Some i \<and> delivered_as m m' \<and>
       mset (work (pl_workers (snd (pool_write env now preferred m p)))) = add_mset m' (mset (work (pl_workers p)))"
proof -
  have t: "tracked (pl_workers p)" "fresh_left env p" "0 < pl_max_workers p" using assms(2) by (simp_all add: pool_ok_def)
  from pool_write_arrives [OF assms(1) t(1,2) queue_room assms(3) [unfolded roomy_def] t(3) assms(5), of now preferred]
  obtain i m' p' where w: "pool_write env now preferred m p = (Some i, p')" and d: "delivered_as m m'"
    and k: "mset (work (pl_workers p')) = add_mset m' (mset (work (pl_workers p)))" and t': "tracked (pl_workers p')"
    and f': "fresh_left env p'" and z: "sizes p' = sizes p" and "queues_at_most (pool_load p + 1) p'"
    and "uuids (pl_workers p') \<subseteq> insert (ms_uuid m') (uuids (pl_workers p))"
    and "ms_uuid m' \<in> insert (ms_uuid m) (unused env p)" and "pl_uuids p \<le> pl_uuids p'" and "pl_workers p' \<noteq> []"
    and l: "length (pl_workers p) \<le> pl_max_workers p \<longrightarrow> length (pl_workers p') \<le> pl_max_workers p" .
  have "set (work (pl_workers p')) = insert m' (set (work (pl_workers p)))"
    using arg_cong [OF k, of set_mset] by simp
  then have "list_all plain (work (pl_workers p'))"
    using delivered_plain [OF d] assms(2,4) by (simp add: list_all_iff pool_ok_def)
  with assms(2) t' f' z l show "pool_ok env (snd (pool_write env now preferred m p))"
    by (simp add: w pool_ok_def sizes_def)
  show "\<exists>i m'. fst (pool_write env now preferred m p) = Some i \<and> delivered_as m m' \<and>
       mset (work (pl_workers (snd (pool_write env now preferred m p)))) = add_mset m' (mset (work (pl_workers p)))"
    using w d k by auto
qed

text \<open>The orphaned messages of dead workers.\<close>

definition orphans :: "worker list \<Rightarrow> message list" where
  "orphans ws = concat (map orphaned_tasks (dead_workers ws))"

lemma current_in_hand: "exact w \<Longrightarrow> current_task w = Some t \<Longrightarrow> mg_body t \<in> set (in_hand w)"
  using current_exact [of w] by auto

lemma plain_errback: "plain m \<Longrightarrow> e \<in> set (ms_errbacks m) \<Longrightarrow> ms_uuid e = [] \<and> plain e"
  by (cases m) (simp add: list_all_iff)

lemma orphaned_uuids:
  assumes "exact w" and "list_all plain (in_hand w)" and "\<not> wk_alive w"
  shows "filter (\<lambda>u. u \<noteq> []) (map ms_uuid (orphaned_tasks w)) = filter (\<lambda>u. u \<noteq> []) (map ms_uuid (queued_messages w))"
proof -
  have "filter (\<lambda>u. u \<noteq> []) (map ms_uuid (ms_errbacks (mg_body t))) = []" if "current_task w = Some t" for t
  proof -
    have "plain (mg_body t)" using current_in_hand [OF assms(1) that] assms(2) by (simp add: list_all_iff)
    with plain_errback [OF this] show ?thesis by (auto simp: filter_empty_conv)
  qed
  then show ?thesis using assms(3) by (simp add: orphaned_tasks_def split: option.split)
qed

lemma queued_held: "set (map ms_uuid (queued_messages w)) \<subseteq> set (held w)"
  by (auto simp: held_def in_hand_def)

lemma distinct_queued: "exact w \<Longrightarrow> distinct (map ms_uuid (queued_messages w))"
  by (auto simp: exact_def held_def in_hand_def)

lemma orphan_uuids:
  assumes "tracked ws" and "list_all plain (work ws)"
  shows "distinct (filter (\<lambda>u. u \<noteq> []) (map ms_uuid (orphans ws)))"
    and "set (filter (\<lambda>u. u \<noteq> []) (map ms_uuid (orphans ws))) \<subseteq> uuids (dead_workers ws)"
proof -
  have "distinct (filter (\<lambda>u. u \<noteq> []) (map ms_uuid (orphans ws))) \<and>
    set (filter (\<lambda>u. u \<noteq> []) (map ms_uuid (orphans ws))) \<subseteq> uuids (dead_workers ws)"
    using assms
  proof (induction ws)
    case Nil
    then show ?case by (simp add: orphans_def dead_workers_def)
  next
    case (Cons w ws)
    note w = Cons.prems(1) [unfolded tracked_Cons]
    have plain: "list_all plain (in_hand w)" "list_all plain (work ws)" using Cons.prems(2) by (simp_all add: work_def)
    have IH: "distinct (filter (\<lambda>u. u \<noteq> []) (map ms_uuid (orphans ws)))"
      "set (filter (\<lambda>u. u \<noteq> []) (map ms_uuid (orphans ws))) \<subseteq> uuids (dead_workers ws)"
      using Cons.IH w plain by simp_all
    show ?case
    proof (cases "wk_alive w")
      case True
      with IH show ?thesis by (simp add: orphans_def dead_workers_def)
    next
      case False
      have e: "exact w" using w by simp
      let ?q = "filter (\<lambda>u. u \<noteq> []) (map ms_uuid (queued_messages w))"
      have split: "filter (\<lambda>u. u \<noteq> []) (map ms_uuid (orphans (w # ws))) = ?q @ filter (\<lambda>u. u \<noteq> []) (map ms_uuid (orphans ws))"
        using orphaned_uuids [OF e plain(1) False] False by (simp add: orphans_def dead_workers_def)
      have sub: "set ?q \<subseteq> set (held w)" using queued_held [of w] by auto
      have dead: "uuids (dead_workers ws) \<subseteq> uuids ws" by (auto simp: uuids_def dead_workers_def)
      have "set ?q \<inter> set (filter (\<lambda>u. u \<noteq> []) (map ms_uuid (orphans ws))) = {}" using sub IH(2) dead w by blast
      moreover have "distinct ?q" using distinct_queued [OF e] by simp
      ultimately have "distinct (?q @ filter (\<lambda>u. u \<noteq> []) (map ms_uuid (orphans ws)))" using IH(1) by simp
      moreover have "set (?q @ filter (\<lambda>u. u \<noteq> []) (map ms_uuid (orphans ws))) \<subseteq> uuids (dead_workers (w # ws))"
        using sub IH(2) False by (auto simp: uuids_def dead_workers_def)
      ultimately show ?thesis unfolding split by blast
    qed
  qed
  then show "distinct (filter (\<lambda>u. u \<noteq> []) (map ms_uuid (orphans ws)))"
    and "set (filter (\<lambda>u. u \<noteq> []) (map ms_uuid (orphans ws))) \<subseteq> uuids (dead_workers ws)" by simp_all
qed

lemma queued_length: "length (queued_messages w) \<le> length (wk_queue w)"
proof -
  have "length (concat (map (\<lambda>i. case i of Msg m \<Rightarrow> [m] | Quit \<Rightarrow> []) qs)) \<le> length qs" for qs
  proof (induction qs)
    case (Cons i qs)
    then show ?case by (cases i) simp_all
  qed simp
  then show ?thesis by (simp add: queued_messages_def)
qed

lemma orphaned_load:
  assumes "exact w"
  shows "length (orphaned_tasks w) \<le> worker_load w"
proof -
  have "length (ms_errbacks (mg_body t)) \<le> sum_list (map (length \<circ> ms_errbacks) (in_hand w))"
    if "current_task w = Some t" for t
    using current_in_hand [OF assms that] by (simp add: member_le_sum_list)
  then show ?thesis using queued_length [of w]
    by (cases "current_task w") (simp_all add: orphaned_tasks_def worker_load_def add.commute add_mono le_SucI trans_le_add1)
qed

lemma load_split:
  "sum_list (map worker_load ws) = sum_list (map worker_load (live_workers ws)) + sum_list (map worker_load (dead_workers ws))"
  by (induction ws) (simp_all add: live_workers_def dead_workers_def)

lemma orphans_load: "\<forall>w \<in> set ws. exact w \<Longrightarrow> length (orphans ws) \<le> sum_list (map worker_load (dead_workers ws))"
  by (induction ws) (auto simp: orphans_def dead_workers_def intro: add_mono orphaned_load)

section \<open>Cleanup\<close>

lemma uuids_parts: "uuids (live_workers ws) \<subseteq> uuids ws" "uuids (dead_workers ws) \<subseteq> uuids ws"
  by (auto simp: uuids_def live_workers_def dead_workers_def)

lemma dead_live_disjoint:
  assumes "tracked ws"
  shows "uuids (dead_workers ws) \<inter> uuids (live_workers ws) = {}"
  using assms
proof (induction ws)
  case Nil
  then show ?case by (simp add: uuids_def dead_workers_def)
next
  case (Cons w ws)
  then have IH: "uuids (dead_workers ws) \<inter> uuids (live_workers ws) = {}"
    and new: "set (held w) \<inter> uuids ws = {}" by (simp_all add: tracked_Cons)
  have "set (held w) \<inter> uuids (dead_workers ws) = {}" "set (held w) \<inter> uuids (live_workers ws) = {}"
    using new uuids_parts [of ws] by blast+
  moreover have "uuids (dead_workers (w # ws)) = (if wk_alive w then {} else set (held w)) \<union> uuids (dead_workers ws)"
    "uuids (live_workers (w # ws)) = (if wk_alive w then set (held w) else {}) \<union> uuids (live_workers ws)"
    by (simp_all add: uuids_def dead_workers_def live_workers_def)
  ultimately show ?case using IH by (auto split: if_splits)
qed

lemma orphans_plain:
  assumes "\<forall>w \<in> set ws. exact w" and "list_all plain (work ws)"
  shows "list_all plain (orphans ws)"
proof -
  have "plain m" if w: "w \<in> set ws" and m: "m \<in> set (orphaned_tasks w)" for w m
  proof -
    have hand: "v \<in> set (in_hand w) \<Longrightarrow> plain v" for v
      using assms(2) w by (auto simp: work_def list_all_iff)
    consider (errback) t where "current_task w = Some t" "m \<in> set (ms_errbacks (mg_body t))" | (queued) "m \<in> set (queued_messages w)"
      using m by (cases "current_task w") (auto simp: orphaned_tasks_def split: if_splits)
    then show ?thesis
    proof cases
      case errback
      then have "plain (mg_body t)" using hand current_in_hand assms(1) w by blast
      with errback(2) show ?thesis by (simp add: plain_errback)
    next
      case queued
      then show ?thesis using hand by (simp add: in_hand_def)
    qed
  qed
  then show ?thesis by (auto simp: orphans_def dead_workers_def list_all_iff)
qed

lemma delivered_all_plain: "list_all2 delivered_as ms ms' \<Longrightarrow> list_all plain ms \<Longrightarrow> list_all plain ms'"
  by (induction rule: list_all2_induct) (simp_all add: delivered_plain)

lemma cleanup_facts:
  assumes "env_ok env" and "pool_ok env p" and "roomy p" and "cleanup env now p js = (dropped, p', c)"
  shows "pool_ok env p'" and "dropped = []" and "\<forall>w \<in> set (cl_retired c). in_hand w = []"
    and "\<exists>ms. list_all2 delivered_as (orphans (pl_workers p)) ms \<and>
      mset (work (pl_workers p')) = mset (work (live_workers (pl_workers p))) + mset ms"
proof -
  let ?ws = "pl_workers p"
  let ?c0 = "\<lparr>cl_orphaned = [], cl_jobs = js, cl_signals = [], cl_retired = []\<rparr>"
  have t: "tracked ?ws" and f: "fresh_left env p" and pl: "list_all plain (work ?ws)" and mx: "0 < pl_max_workers p"
    and len: "length ?ws \<le> pl_max_workers p" using assms(2) by (simp_all add: pool_ok_def)
  have ex: "\<forall>w \<in> set ?ws. exact w" using t by (simp add: tracked_def)
  obtain ws c1 where cw: "cleanup_workers env now (pl_min_workers p) (length ?ws) ?ws ?c0 = (ws, c1)" by fastforce
  define q where "q = p\<lparr>pl_workers := ws\<rparr>"
  have q [simp]: "pl_workers q = ws" "sizes q = sizes p" "pl_uuids q = pl_uuids p" "pl_max_workers q = pl_max_workers p"
    "pl_queue_size q = pl_queue_size p" by (simp_all add: q_def sizes_def)
  note k = cleanup_workers_facts [OF t cw]
  have orph: "cl_orphaned c1 = orphans ?ws" using k by (simp add: orphans_def)
  have sub: "uuids ws \<subseteq> uuids (live_workers ?ws)" using k by blast
  have fq: "fresh_left env q"
    using f sub uuids_parts(1) [of ?ws] by (auto simp: fresh_left_def unused_def)
  let ?n = "sum_list (map worker_load (live_workers ?ws))"
  have "\<forall>w \<in> set (live_workers ?ws). length (wk_queue w) \<le> ?n"
  proof
    fix w assume "w \<in> set (live_workers ?ws)"
    then have "worker_load w \<le> ?n" by (simp add: member_le_sum_list)
    then show "length (wk_queue w) \<le> ?n" by (simp add: worker_load_def)
  qed
  then have qn: "queues_at_most ?n q" using k by (simp add: queues_at_most_def)
  have room: "?n + length (orphans ?ws) \<le> pl_queue_size q"
    using orphans_load [OF ex] load_split [of ?ws] assms(3) by (simp add: roomy_def pool_load_def)
  have ids: "\<forall>m \<in> set (orphans ?ws). ms_uuid m = [] \<or> ms_uuid m \<notin> uuids (pl_workers q) \<union> unused env q"
  proof
    fix m assume m: "m \<in> set (orphans ?ws)"
    show "ms_uuid m = [] \<or> ms_uuid m \<notin> uuids (pl_workers q) \<union> unused env q"
    proof (cases "ms_uuid m = []")
      case False
      with m have dead: "ms_uuid m \<in> uuids (dead_workers ?ws)" using orphan_uuids(2) [OF t pl] by auto
      then have "ms_uuid m \<notin> uuids ws" using dead_live_disjoint [OF t] sub by blast
      moreover have "ms_uuid m \<notin> unused env q"
        using dead uuids_parts(2) [of ?ws] f by (auto simp: fresh_left_def unused_def)
      ultimately show ?thesis by simp
    qed simp
  qed
  have tq: "tracked (pl_workers q)" and mxq: "0 < pl_max_workers q" using k mx by simp_all
  from requeue_arrives [OF assms(1) tq fq mxq qn room ids orphan_uuids(1) [OF t pl], of now]
  obtain ms p2 where r: "requeue env now (orphans ?ws) q = ([], p2)" and d: "list_all2 delivered_as (orphans ?ws) ms"
    and w2: "mset (work (pl_workers p2)) = mset (work (pl_workers q)) + mset ms"
    and t2: "tracked (pl_workers p2)" and f2: "fresh_left env p2" and z2: "sizes p2 = sizes q"
    and l2: "length (pl_workers q) \<le> pl_max_workers q \<longrightarrow> length (pl_workers p2) \<le> pl_max_workers q" .
  have out: "dropped = []" "p' = p2" "c = c1"
    using assms(4) cw r orph by (simp_all add: cleanup_def q_def)
  show "dropped = []" by (rule out)
  show "\<forall>w \<in> set (cl_retired c). in_hand w = []" using k by (simp add: out)
  have live: "work ws = work (live_workers ?ws)" using k by simp
  show "\<exists>ms. list_all2 delivered_as (orphans ?ws) ms \<and>
      mset (work (pl_workers p')) = mset (work (live_workers ?ws)) + mset ms"
    using d w2 live by (auto simp: out)
  have "set (work (pl_workers p2)) = set (work (live_workers ?ws)) \<union> set ms"
    using arg_cong [OF w2, of set_mset] live by simp
  moreover have "set (work (live_workers ?ws)) \<subseteq> set (work ?ws)" by (auto simp: work_def live_workers_def)
  moreover have "list_all plain ms" by (rule delivered_all_plain [OF d orphans_plain [OF ex pl]])
  ultimately have "list_all plain (work (pl_workers p2))" using pl by (auto simp: list_all_iff)
  moreover have "length ws \<le> pl_max_workers p" using k len by simp
  ultimately show "pool_ok env p'"
    using t2 f2 z2 l2 mx by (simp add: out pool_ok_def sizes_def)
qed

text \<open>A cleanup fails the jobs of the first messages of dead workers, and no others.\<close>

definition first_uuids :: "worker list \<Rightarrow> string set" where
  "first_uuids ws = {u. \<exists>w \<in> set ws. \<exists>m ms. in_hand w = m # ms \<and> u = ms_uuid m}"

lemma reap_where_twice:
  assumes s: "s \<notin> {Running, Waiting}" and b: "\<And>j j'. jr_celery_task_id j = jr_celery_task_id j' \<Longrightarrow> b j = b j'"
  shows "reap_where b s e (reap_where a s e js) = reap_where (\<lambda>j. a j \<or> b j) s e js"
proof -
  have "(if b j' then reap_job s e j' else j') = (if a j \<or> b j then reap_job s e j else j)"
    if j': "j' = (if a j then reap_job s e j else j)" for j j'
  proof (cases "a j")
    case True
    have "b (reap_job s e j) = b j" by (rule b) (simp add: reap_job_def)
    moreover have "reap_job s e (reap_job s e j) = reap_job s e j" using s by (auto simp: reap_job_def)
    ultimately show ?thesis using True j' by simp
  qed (use j' in simp)
  then show ?thesis by (simp add: reap_where_def)
qed

lemma cleanup_worker_jobs:
  assumes "exact w"
  shows "cl_jobs (snd (cleanup_worker env now k n w c)) =
    reap_where (\<lambda>j. jr_celery_task_id j \<in> first_uuids (dead_workers [w])) Failed None (cl_jobs c)"
proof -
  have none: "reap_where (\<lambda>j. False) s e js = js" for s e js by (simp add: reap_where_def)
  show ?thesis
  proof (cases "wk_alive w")
    case True
    then show ?thesis
      by (auto simp: cleanup_worker_def dead_workers_def first_uuids_def none Let_def split: prod.split)
  next
    case False
    then have "jr_celery_task_id j \<in> first_uuids (dead_workers [w]) \<longleftrightarrow>
        (case current_task w of None \<Rightarrow> False | Some t \<Rightarrow> jr_celery_task_id j = ms_uuid (mg_body t))" for j
      using current_exact [OF assms] by (auto simp: first_uuids_def dead_workers_def split: option.splits)
    then have eq: "(\<lambda>j. jr_celery_task_id j \<in> first_uuids (dead_workers [w])) =
        (\<lambda>j. case current_task w of None \<Rightarrow> False | Some t \<Rightarrow> jr_celery_task_id j = ms_uuid (mg_body t))" by (rule ext)
    show ?thesis unfolding eq using False by (cases "current_task w") (simp_all add: cleanup_worker_def none)
  qed
qed

lemma cleanup_workers_jobs:
  assumes "\<forall>w \<in> set ws. exact w"
  shows "cl_jobs (snd (cleanup_workers env now k n ws c)) =
    reap_where (\<lambda>j. jr_celery_task_id j \<in> first_uuids (dead_workers ws)) Failed None (cl_jobs c)"
  using assms
proof (induction ws arbitrary: n c)
  case Nil
  then show ?case by (simp add: reap_where_def dead_workers_def first_uuids_def)
next
  case (Cons w ws)
  obtain r c1 where one: "cleanup_worker env now k n w c = (r, c1)" by fastforce
  then have c1: "cl_jobs c1 = reap_where (\<lambda>j. jr_celery_task_id j \<in> first_uuids (dead_workers [w])) Failed None (cl_jobs c)"
    using cleanup_worker_jobs [of w env now k n c] Cons.prems by simp
  have "cl_jobs (snd (cleanup_workers env now k n (w # ws) c)) =
      reap_where (\<lambda>j. jr_celery_task_id j \<in> first_uuids (dead_workers ws)) Failed None (cl_jobs c1)"
    using Cons one by (cases r) (simp_all add: case_prod_beta Let_def)
  also have "\<dots> = reap_where (\<lambda>j. jr_celery_task_id j \<in> first_uuids (dead_workers [w]) \<or>
      jr_celery_task_id j \<in> first_uuids (dead_workers ws)) Failed None (cl_jobs c)"
    unfolding c1 by (rule reap_where_twice) simp_all
  also have "first_uuids (dead_workers (w # ws)) = first_uuids (dead_workers [w]) \<union> first_uuids (dead_workers ws)"
    by (auto simp: first_uuids_def dead_workers_def)
  then have "reap_where (\<lambda>j. jr_celery_task_id j \<in> first_uuids (dead_workers [w]) \<or>
      jr_celery_task_id j \<in> first_uuids (dead_workers ws)) Failed None (cl_jobs c) =
      reap_where (\<lambda>j. jr_celery_task_id j \<in> first_uuids (dead_workers (w # ws))) Failed None (cl_jobs c)" by simp
  finally show ?case .
qed

end
