(* ===== verification/Dispatch_Runs.thy ===== *)
theory Dispatch_Runs
  imports Dispatch_Properties
begin

text \<open>
  The properties of the dispatcher: what its pool knows in every reachable state, what a cleanup does with
  the messages of dead workers, what a cancellation and a heartbeat can hit; and two runs in which the
  tracking goes wrong.
\<close>

section \<open>Every reachable pool is in order\<close>

lemma child_pool_ok:
  assumes "pool_ok env p" and "i < length (pl_workers p)" and "child_step (pl_workers p ! i) w"
  shows "pool_ok env (p\<lparr>pl_workers := (pl_workers p)[i := w]\<rparr>)"
proof -
  let ?ws = "pl_workers p" and ?v = "pl_workers p ! i"
  have e: "exact ?v" using assms(1,2) tracked_nth by (simp add: pool_ok_def)
  note c = child_exact [OF assms(3) e]
  have held: "map held (?ws[i := w]) = map held ?ws"
    using c(2) assms(2) by (metis list_update_id map_update)
  then have u: "uuids (?ws[i := w]) = uuids ?ws" by (simp add: uuids_def)
  have "\<forall>v \<in> set (?ws[i := w]). exact v"
    using assms(1) c(1) set_update_subset_insert [of ?ws i w] by (auto simp: pool_ok_def tracked_def)
  with held assms(1) have t: "tracked (?ws[i := w])" by (simp add: pool_ok_def tracked_def)
  have "in_hand v \<in> set (map in_hand (w # ?ws))" if "v \<in> set (?ws[i := w])" for v
    using that set_update_subset_insert [of ?ws i w] by auto
  moreover have "set (in_hand w) \<subseteq> set (work ?ws)"
    using c(4) nth_mem [OF assms(2)] unfolding work_def set_concat set_map by blast
  ultimately have "set (work (?ws[i := w])) \<subseteq> set (work ?ws)" by (fastforce simp: work_def)
  then have "list_all plain (work (?ws[i := w]))" using assms(1) by (auto simp: pool_ok_def list_all_iff)
  with t u assms(1) show ?thesis by (simp add: pool_ok_def fresh_left_def unused_def)
qed

lemma step_pool_ok:
  assumes "env_ok env" and "pool_step env s s'" and "pool_ok env (fst s)"
  shows "pool_ok env (fst s')"
  using assms(2,3)
proof (cases rule: pool_step.cases)
  case (Write p m now preferred js)
  have "unused env p \<subseteq> range (pe_uuid4 env)" by (auto simp: unused_def)
  with Write(5) have "ms_uuid m = [] \<or> ms_uuid m \<notin> uuids (pl_workers p) \<union> unused env p" by blast
  from write_ok(1) [OF assms(1) _ Write(3,4) this] Write(1,2) assms(3) show ?thesis by simp
next
  case (Cleanup p now js dropped p' c)
  from cleanup_facts(1) [OF assms(1) _ Cleanup(3,4)] Cleanup(1,2) assms(3) show ?thesis by simp
next
  case (Calculate p js)
  then have ok: "pool_ok env p" using assms(3) by simp
  then have "same_work env p (calculate_all p)" by (intro calculate_all_same) (simp add: pool_ok_def)
  from pool_okI [OF this ok] Calculate show ?thesis by simp
next
  case (Reload p js)
  then have "tracked (pl_workers p)" "list_all plain (work (pl_workers p))" and ok: "pool_ok env p"
    using assms(3) by (simp_all add: pool_ok_def)
  with quitting.tracked_map [of "pl_workers p"]
  show ?thesis using Reload by (auto simp: reload_def pool_ok_def fresh_left_def unused_def)
next
  case (Metrics p js)
  with assms(3) show ?thesis
    by (simp add: produce_subsystem_metrics_def pool_ok_def fresh_left_def unused_def)
next
  case (Child i p w js)
  with assms(3) child_pool_ok show ?thesis by simp
next
  case (Others p js js')
  with assms(3) show ?thesis by simp
qed

lemma reachable_pool_ok:
  assumes "env_ok env" and "pool_reachable env (new_pool n q mx mem) s" and "0 < n"
  shows "pool_ok env (fst s)"
  using assms(2)
proof (induction rule: pool_reachable.induct)
  case (Start js)
  show ?case using init_ok [of "new_pool n q mx mem" env] assms(3) by (simp add: new_pool_def)
next
  case (Step s s')
  then show ?case using step_pool_ok [OF assms(1)] by blast
qed

lemma ups_sizes: "sizes ((up env ^^ n) p) = sizes p"
proof (induction n)
  case (Suc n)
  then show ?case by (simp add: up_def take_draw_def base_up_def sizes_def Let_def)
qed simp

lemma put_at_sizes: "sizes (snd (put_at i m p)) = sizes p"
  by (simp add: put_at_def sizes_def case_prod_beta)

lemma try_queues_sizes: "sizes (snd (try_queues is m p)) = sizes p"
proof (induction "is" m p rule: try_queues.induct)
  case (2 i "is" m p)
  obtain ok p' where a: "put_at i m p = (ok, p')" by fastforce
  then have "sizes p' = sizes p" using put_at_sizes [of i m p] by simp
  with 2 a show ?case by (cases ok) simp_all
qed simp

lemma pool_write_sizes: "sizes (snd (pool_write env now preferred m p)) = sizes p"
proof -
  obtain m1 p1 where b: "add_bind_kwargs now m p = (m1, p1)" by fastforce
  define p2 where "p2 = (if should_grow p1 then up env p1 else p1)"
  obtain order p3 where o: "shuffled_workers env p2 = (order, p3)" by fastforce
  obtain m4 p4 where nm: "name_message env m1 p3 = (m4, p4)" by fastforce
  have "sizes p1 = sizes p" using b
    by (auto simp: add_bind_kwargs_def Let_def calculate_all_def sizes_def split: if_splits)
  moreover have "sizes p2 = sizes p1" using ups_sizes [of 1 env p1] by (simp add: p2_def)
  moreover have "sizes p3 = sizes p2" using o by (auto simp: shuffled_workers_def sizes_def)
  moreover have "sizes p4 = sizes p3" using nm by (auto simp: name_message_def sizes_def split: if_splits)
  moreover have "pool_write env now preferred m p = (case filter (\<lambda>i. \<not> busy (pl_workers p4 ! i)) order of
      i # is \<Rightarrow> (case put_at i m4 p4 of (True, p5) \<Rightarrow> (Some i, p5) | (False, p5) \<Rightarrow> (None, p5))
    | [] \<Rightarrow> base_write preferred m4 p4)"
    by (simp add: pool_write_def b o nm p2_def [symmetric])
  moreover have "sizes (snd (case put_at i m4 p4 of (True, p5) \<Rightarrow> (Some i, p5) | (False, p5) \<Rightarrow> (None, p5))) = sizes p4" for i
    using put_at_sizes [of i m4 p4] by (auto split: prod.split bool.split)
  ultimately show ?thesis using try_queues_sizes
    by (auto simp: base_write_def split: list.split)
qed

lemma requeue_sizes: "sizes (snd (requeue env now ms p)) = sizes p"
proof (induction env now ms p rule: requeue.induct)
  case (2 env now m ms p)
  define p1 where "p1 = (if pl_workers p = [] then up env p else p)"
  obtain i p2 where d: "take_draw env (length (pl_workers p1)) p1 = (i, p2)" by fastforce
  obtain r p3 where w: "pool_write env now i m p2 = (r, p3)" by fastforce
  have "sizes p1 = sizes p" using ups_sizes [of 1 env p] by (simp add: p1_def)
  moreover have "sizes p2 = sizes p1" using d by (auto simp: take_draw_def sizes_def)
  moreover have "sizes p3 = sizes p2" using pool_write_sizes [of env now i m p2] w by simp
  moreover have "sizes (snd (requeue env now ms p3)) = sizes p3"
    by (rule 2 [OF p1_def refl d [symmetric] refl w [symmetric]])
  ultimately show ?case by (simp add: p1_def [symmetric] d w case_prod_beta Let_def)
qed simp

lemma step_sizes: "pool_step env s s' \<Longrightarrow> sizes (fst s') = sizes (fst s)"
proof (induction rule: pool_step.induct)
  case (Cleanup p now js dropped p' c)
  then have "p' = snd (requeue env now (cl_orphaned c) (p\<lparr>pl_workers := fst (cleanup_workers env now (pl_min_workers p)
      (length (pl_workers p)) (pl_workers p) \<lparr>cl_orphaned = [], cl_jobs = js, cl_signals = [], cl_retired = []\<rparr>)\<rparr>))"
    by (auto simp: cleanup_def split: prod.splits)
  then show ?case using requeue_sizes by (simp add: sizes_def)
qed (use pool_write_sizes in \<open>simp_all add: calculate_all_def reload_def produce_subsystem_metrics_def sizes_def\<close>)

lemma reachable_sizes: "pool_reachable env p0 s \<Longrightarrow> sizes (fst s) = sizes p0"
  by (induction rule: pool_reachable.induct) (simp_all add: step_sizes init_workers_def ups_sizes)

text \<open>What the dispatcher knows of one worker.\<close>

lemma exact_knows:
  assumes "exact w"
  shows "map fst (wk_managed (calculate_managed_tasks w)) = map ms_uuid (in_hand w)"
    and "busy w \<longleftrightarrow> in_hand w \<noteq> []"
    and "map_option mg_body (current_task w) = (case in_hand w of [] \<Rightarrow> None | m # ms \<Rightarrow> Some m)"
  using exact_calculate(8) [OF assms] busy_exact [OF assms] current_exact [OF assms]
  by (auto split: option.splits list.splits)

lemma distinct_in_hand: "tracked ws \<Longrightarrow> distinct (map ms_uuid (work ws))"
proof (induction ws)
  case (Cons w ws)
  have "set (map ms_uuid (work ws)) \<subseteq> uuids ws" by (auto simp: work_def uuids_def held_def)
  moreover have "distinct (map ms_uuid (in_hand w))" "set (map ms_uuid (in_hand w)) \<subseteq> set (held w)"
    using Cons.prems by (auto simp: tracked_Cons exact_def held_def)
  ultimately have "distinct (map ms_uuid (in_hand w) @ map ms_uuid (work ws))"
    using Cons by (auto simp: tracked_Cons)
  then show ?case by (simp add: work_def)
qed (simp add: work_def)

section \<open>The pool\<close>

text \<open>
  C12. In every state that a pool reaches from the start by a run in which no queue is ever full (messages
  are written and cleanups made only while the queues have room for the whole load) and every message
  comes without an identifier or with one that is new, its books are right: the tasks that it knows of a
  worker are, once the reports are collected, the task the worker runs and those in its queue, in this
  order; a worker is busy exactly if it has such a task, and its current task is the first of them. No
  message is with two workers, and there are never more workers than allowed.
\<close>

theorem pool_books_right:
  assumes "env_ok env" and "0 < n" and "pool_reachable env (new_pool n q mx mem) (p, js)"
  shows "(\<forall>w \<in> set (pl_workers p).
       map fst (wk_managed (calculate_managed_tasks w)) = map ms_uuid (in_hand w) \<and>
       busy w = (in_hand w \<noteq> []) \<and>
       map_option mg_body (current_task w) = (case in_hand w of [] \<Rightarrow> None | m # ms \<Rightarrow> Some m)) \<and>
     distinct (map ms_uuid (work (pl_workers p))) \<and>
     length (pl_workers p) \<le> max n (case mx of None \<Rightarrow> mem + 7 | Some k \<Rightarrow> k)"
proof -
  have ok: "pool_ok env p" using reachable_pool_ok [OF assms(1,3,2)] by simp
  have "sizes (fst s) = sizes (new_pool n q mx mem)" if "pool_reachable env (new_pool n q mx mem) s" for s
    using that reachable_sizes by blast
  from this [OF assms(3)] have "pl_max_workers p = max n (case mx of None \<Rightarrow> mem + 7 | Some k \<Rightarrow> k)"
    by (simp add: sizes_def new_pool_def)
  with ok exact_knows distinct_in_hand show ?thesis by (simp add: pool_ok_def tracked_def)
qed

text \<open>A pool of one worker that has told it to reload, and then got a task for it.\<close>

definition demo_pool_env :: pool_env where
  "demo_pool_env = \<lparr>pe_draw = (\<lambda>i. 0), pe_uuid4 = (\<lambda>i. replicate (Suc i) CHR ''u''), pe_fork = (\<lambda>i. Some i),
     pe_task_manager_timeout = 300\<rparr>"

lemma demo_env_ok: "env_ok demo_pool_env"
  by (auto simp: env_ok_def demo_pool_env_def inj_def)

definition demo_new_pool :: pool where
  "demo_new_pool = new_pool 1 10 (Some 2) 0"

definition demo_task :: message where
  "demo_task = Message ''j'' ''tasks.jobs.RunJob'' [] [] None None"

definition demo_sent :: "pool \<Rightarrow> pool" where
  "demo_sent p = snd (pool_write demo_pool_env 0 0 demo_task p)"

lemma demo_sent_reachable:
  assumes "pool_reachable demo_pool_env demo_new_pool (p, js)" and "roomy p" and "''j'' \<notin> uuids (pl_workers p)"
  shows "pool_reachable demo_pool_env demo_new_pool (demo_sent p, js)"
  unfolding demo_sent_def
  by (rule pool_reachable.Step [OF assms(1) pool_step.Write])
    (use assms in \<open>auto simp: demo_task_def demo_pool_env_def\<close>)

lemma demo_start: "pool_reachable demo_pool_env demo_new_pool (init_workers demo_pool_env demo_new_pool, js)"
  by (rule pool_reachable.Start)

lemma demo_start_room: "roomy (init_workers demo_pool_env demo_new_pool)"
  "uuids (pl_workers (init_workers demo_pool_env demo_new_pool)) = {}"
  by code_simp+

lemma demo_sent_run: "pool_reachable demo_pool_env demo_new_pool (demo_sent (init_workers demo_pool_env demo_new_pool), js)"
  by (rule demo_sent_reachable [OF demo_start]) (simp_all add: demo_start_room)

theorem pool_books_right_witness:
  "distinct (map ms_uuid (work (pl_workers (demo_sent (init_workers demo_pool_env demo_new_pool)))))"
  using pool_books_right [OF demo_env_ok _ demo_sent_run [of "[]", unfolded demo_new_pool_def]]
  by (simp add: demo_new_pool_def)

text \<open>What a dead worker leaves behind: the callbacks of its first task, and its queue.\<close>

definition left_behind :: "worker \<Rightarrow> message list" where
  "left_behind w = (case in_hand w of [] \<Rightarrow> [] | m # ms \<Rightarrow> ms_errbacks m) @ queued_messages w"

lemma orphaned_left_behind: "exact w \<Longrightarrow> \<not> wk_alive w \<Longrightarrow> orphaned_tasks w = left_behind w"
  using current_exact [of w] by (auto simp: orphaned_tasks_def left_behind_def split: option.splits)

lemma orphans_left_behind: "tracked ws \<Longrightarrow> orphans ws = concat (map left_behind (dead_workers ws))"
  unfolding orphans_def
  by (rule arg_cong [where f = concat], rule map_cong) (auto simp: dead_workers_def tracked_def orphaned_left_behind)

lemma cleanup_jobs:
  assumes "\<forall>w \<in> set (pl_workers p). exact w" and "cleanup env now p js = (dropped, p', c)"
  shows "cl_jobs c = reap_where (\<lambda>j. jr_celery_task_id j \<in> first_uuids (dead_workers (pl_workers p))) Failed None js"
  using cleanup_workers_jobs [OF assms(1)] assms(2)
  by (auto simp: cleanup_def split: prod.splits) (metis cleanup_state.select_convs(2) snd_conv)

lemma list_all2_in: "list_all2 P xs ys \<Longrightarrow> x \<in> set xs \<Longrightarrow> \<exists>y \<in> set ys. P x y"
  by (induction rule: list_all2_induct) auto

text \<open>
  C10. A cleanup loses no message. If there is room, what the dead workers leave behind is with
  workers afterwards, each message once, beside the messages of the live workers; nothing is dropped, the
  workers that are told to quit hold nothing, and the jobs that fail are those of the first messages of
  dead workers.
\<close>

theorem cleanup_recovers:
  assumes "env_ok env" and "0 < n" and "pool_reachable env (new_pool n q mx mem) (p, js0)" and "roomy p"
    and "cleanup env now p js = (dropped, p', c)"
  shows "dropped = [] \<and> (\<forall>w \<in> set (cl_retired c). in_hand w = []) \<and>
    (\<exists>ms. list_all2 delivered_as (concat (map left_behind (dead_workers (pl_workers p)))) ms \<and>
       mset (work (pl_workers p')) = mset (work (live_workers (pl_workers p))) + mset ms) \<and>
    cl_jobs c = reap_where (\<lambda>j. jr_celery_task_id j \<in> first_uuids (dead_workers (pl_workers p))) Failed None js"
proof -
  have ok: "pool_ok env p" using reachable_pool_ok [OF assms(1,3,2)] by simp
  then have t: "tracked (pl_workers p)" by (simp add: pool_ok_def)
  then have "\<forall>w \<in> set (pl_workers p). exact w" by (simp add: tracked_def)
  from cleanup_jobs [OF this assms(5)] cleanup_facts [OF assms(1) ok assms(4,5)] orphans_left_behind [OF t] show ?thesis by simp
qed

text \<open>The one worker of the demonstration dies while it runs the task.\<close>

definition demo_dead :: pool where
  "demo_dead = (demo_sent (init_workers demo_pool_env demo_new_pool))\<lparr>pl_workers := [
     (pl_workers (demo_sent (init_workers demo_pool_env demo_new_pool)) ! 0)\<lparr>wk_alive := False\<rparr>]\<rparr>"

lemma demo_dead_facts: "length (pl_workers (demo_sent (init_workers demo_pool_env demo_new_pool))) = 1"
  "wk_alive (pl_workers (demo_sent (init_workers demo_pool_env demo_new_pool)) ! 0)" "roomy demo_dead"
  "map left_behind (dead_workers (pl_workers demo_dead)) = [[demo_task]]" "work (live_workers (pl_workers demo_dead)) = []"
  by code_simp+

lemma demo_dead_reachable: "pool_reachable demo_pool_env demo_new_pool (demo_dead, js)"
proof -
  let ?p = "demo_sent (init_workers demo_pool_env demo_new_pool)"
  obtain w where w: "pl_workers ?p = [w]" using demo_dead_facts(1) by (cases "pl_workers ?p") auto
  have "child_step (pl_workers ?p ! 0) ((pl_workers ?p ! 0)\<lparr>wk_alive := False\<rparr>)"
    by (rule child_step.Die) (rule demo_dead_facts)
  from pool_step.Child [OF _ this, of demo_pool_env js] w
  have "pool_step demo_pool_env (?p, js) (demo_dead, js)" by (simp add: demo_dead_def)
  from pool_reachable.Step [OF demo_sent_run this] show ?thesis .
qed

theorem cleanup_recovers_witness:
  "\<exists>m. mset (work (pl_workers (fst (snd (cleanup demo_pool_env 5 demo_dead []))))) = {# m #} \<and> delivered_as demo_task m"
proof -
  obtain d p' c where run: "cleanup demo_pool_env 5 demo_dead [] = (d, p', c)" by (metis prod.exhaust)
  from cleanup_recovers [OF demo_env_ok _ demo_dead_reachable [of "[]", unfolded demo_new_pool_def]
      demo_dead_facts(3) run] demo_dead_facts(4,5) run
  show ?thesis by (auto simp: list_all2_Cons1)
qed

text \<open>
  A message that is written arrives exactly once: if there is room, one worker gets it, with
  its task, its callbacks and the identifier it had, and no other message comes or goes.
\<close>

theorem written_message_arrives:
  assumes "env_ok env" and "0 < n" and "pool_reachable env (new_pool n q mx mem) (p, js)" and "roomy p" and "plain m"
    and "ms_uuid m = [] \<or> ms_uuid m \<notin> uuids (pl_workers p) \<union> range (pe_uuid4 env)"
  shows "\<exists>i m'. fst (pool_write env now preferred m p) = Some i \<and> delivered_as m m' \<and>
    mset (work (pl_workers (snd (pool_write env now preferred m p)))) = add_mset m' (mset (work (pl_workers p)))"
proof -
  have ok: "pool_ok env p" using reachable_pool_ok [OF assms(1,3,2)] by simp
  have "unused env p \<subseteq> range (pe_uuid4 env)" by (auto simp: unused_def)
  with assms(6) have "ms_uuid m = [] \<or> ms_uuid m \<notin> uuids (pl_workers p) \<union> unused env p" by blast
  from write_ok(2) [OF assms(1) ok assms(4,5) this] show ?thesis .
qed

theorem written_message_arrives_witness:
  "\<exists>i m'. fst (pool_write demo_pool_env 0 0 demo_task (init_workers demo_pool_env demo_new_pool)) = Some i \<and>
     delivered_as demo_task m'"
proof -
  have "plain demo_task" "''j'' \<notin> range (pe_uuid4 demo_pool_env)" "ms_uuid demo_task = ''j''"
    by (auto simp: demo_task_def demo_pool_env_def)
  with written_message_arrives [OF demo_env_ok _ demo_start [of "[]", unfolded demo_new_pool_def]
      demo_start_room(1) [unfolded demo_new_pool_def], of demo_task 0 0] demo_start_room(2)
  show ?thesis by (auto simp: demo_new_pool_def)
qed

text \<open>
  A cancellation that ends without an exception signals exactly the processes whose first task is one of the given ones: the task that
  such a process runs, or takes next. No process is ended for a task that waits behind another. It ends with an
  exception only if such a worker could not be forked.
\<close>

lemma cancel_loop_exact:
  assumes "\<forall>w \<in> set ws. exact w"
  shows "(fst (snd (cancel_loop ids ws)) \<longrightarrow> (\<exists>w \<in> set ws. wk_pid w = None \<and> (\<exists>m ms. in_hand w = m # ms \<and> ms_uuid m \<in> set ids))) \<and>
    (\<not> fst (snd (cancel_loop ids ws)) \<longrightarrow> set (fst (cancel_loop ids ws)) =
      {(pid, ms_uuid m) | w pid m ms. w \<in> set ws \<and> wk_pid w = Some pid \<and> in_hand w = m # ms \<and> ms_uuid m \<in> set ids})"
  using assms
proof (induction ws)
  case (Cons w ws)
  obtain ss e ws' where r: "cancel_loop ids ws = (ss, e, ws')" using prod_cases3 by blast
  have "exact w" using Cons.prems by simp
  from current_exact [OF this] show ?case
    using Cons r by (cases "current_task w"; cases "in_hand w"; cases "wk_pid w") (auto, (metis list.inject)+)
qed simp

theorem cancellation_exact:
  assumes "env_ok env" and "0 < n" and "pool_reachable env (new_pool n q mx mem) (p, js)"
    and "cancel_tasks ids p = (signals, raised, p')"
  shows "if raised then \<exists>w \<in> set (pl_workers p). wk_pid w = None \<and> (\<exists>m ms. in_hand w = m # ms \<and> ms_uuid m \<in> set ids)
    else set signals = {(pid, ms_uuid m) | w pid m ms.
      w \<in> set (pl_workers p) \<and> wk_pid w = Some pid \<and> in_hand w = m # ms \<and> ms_uuid m \<in> set ids}"
proof -
  have "pool_ok env p" using reachable_pool_ok [OF assms(1,3,2)] by simp
  then have "\<forall>w \<in> set (pl_workers p). exact w" by (simp add: pool_ok_def tracked_def)
  from cancel_loop_exact [OF this, of ids] assms(4) show ?thesis
    by (auto simp: cancel_tasks_def Let_def split: prod.splits)
qed

theorem cancellation_exact_witness:
  "(0, ''j'') \<in> set (fst (cancel_tasks [''j''] (demo_sent (init_workers demo_pool_env demo_new_pool))))"
proof -
  let ?p = "demo_sent (init_workers demo_pool_env demo_new_pool)"
  have "map wk_pid (pl_workers ?p) = [Some 0]" "map in_hand (pl_workers ?p) = [[demo_task]]" by code_simp+
  then obtain w where w: "pl_workers ?p = [w]" "wk_pid w = Some 0" "in_hand w = [demo_task]" by auto
  have u: "ms_uuid demo_task = ''j''" by (simp add: demo_task_def)
  obtain ss e p' where c: "cancel_tasks [''j''] ?p = (ss, e, p')" using prod_cases3 by blast
  from cancellation_exact [OF demo_env_ok _ demo_sent_run [of "[]", unfolded demo_new_pool_def], of "[''j'']" ss e p'] c w u
  show ?thesis by (cases e) (auto simp: demo_new_pool_def)
qed

section \<open>The heartbeat\<close>

text \<open>The nodes as the heartbeat sees them.\<close>

definition looked_at :: "cluster_env \<Rightarrow> node list \<Rightarrow> node list" where
  "looked_at ce ns =
     (let loaded = map (ce_inspect ce) (instance_list ce ns) in
      case find (\<lambda>n. nd_hostname n = ce_host ce) loaded of
        None \<Rightarrow> loaded
      | Some this \<Rightarrow> set_node (ce_health_check ce this) loaded)"

text \<open>A row that stays as it is.\<close>

definition stays :: "nat \<Rightarrow> task_row \<Rightarrow> task_row list \<Rightarrow> bool" where
  "stays i j js \<longleftrightarrow> i < length js \<and> js ! i = j"

lemma stays_reap: "stays i j js \<Longrightarrow> \<not> sel j \<Longrightarrow> stays i j (reap_where sel s e js)"
  by (auto simp: stays_def reap_where_def)

lemma stays_reap_lost:
  assumes "nd_hostname n \<notin> {jr_controller_node j, jr_execution_node j}" and "stays i j js"
  shows "stays i j (reap_lost now n js)"
proof -
  have "\<not> runs_without_worker (nd_hostname n) [] None j" "\<not> waits_too_long (nd_hostname n) 0 [] now j"
    using assms(1) by (auto simp: runs_without_worker_def waits_too_long_def)
  with assms(2) show ?thesis unfolding reap_lost_def reap_def reap_waiting_def by (intro stays_reap)
qed

lemma stays_all_lost:
  "\<forall>n \<in> set ns. nd_hostname n \<notin> {jr_controller_node j, jr_execution_node j} \<Longrightarrow> stays i j js \<Longrightarrow>
    stays i j (fold (reap_lost now) ns js)"
proof (induction ns arbitrary: js)
  case (Cons n ns)
  then have "stays i j (reap_lost now n js)" by (intro stays_reap_lost) simp_all
  with Cons show ?case by simp
qed simp

lemma stays_local:
  assumes "stays i j js" and "jr_celery_task_id j \<in> set (concat (map snd ts))"
  shows "stays i j (snd (local_reaper ce t (Some ts) js))"
proof -
  let ?a = "concat (map snd ts)"
  have one: "stays i j (reap (ce_host ce) None ?a (Some t) js)"
    unfolding reap_def by (rule stays_reap [OF assms(1)]) (use assms(2) in \<open>simp add: runs_without_worker_def\<close>)
  have "stays i j (reap_waiting (ce_host ce) None (ce_waiting_grace ce) ?a t (reap (ce_host ce) None ?a (Some t) js))"
    unfolding reap_waiting_def by (rule stays_reap [OF one]) (use assms(2) in \<open>simp add: waits_too_long_def\<close>)
  with one show ?thesis by (cases "ts = []") (auto simp: local_reaper_def Let_def)
qed

lemma stays_after_check:
  assumes "stays i j js" and "jr_celery_task_id j \<in> set (concat (map snd ts))"
    and "\<forall>n \<in> set (lost_instances ce now loaded). nd_hostname n \<notin> {jr_controller_node j, jr_execution_node j}"
  shows "stays i j (snd (snd (after_check ce now t (Some ts) loaded ns js)))"
  using stays_local [OF stays_all_lost [OF assms(3,1)] assms(2), where ce = ce]
  by (simp add: after_check_def Let_def assms(1) case_prod_beta)

lemma stays_heartbeat:
  assumes "stays i j js" and "jr_celery_task_id j \<in> set (concat (map snd ts))"
    and "\<forall>n \<in> set (lost_instances ce now (looked_at ce ns)). nd_hostname n \<notin> {jr_controller_node j, jr_execution_node j}"
  shows "stays i j (snd (snd (cluster_node_heartbeat ce now t (Some ts) ns js)))"
proof (cases "find (\<lambda>n. nd_hostname n = ce_host ce) (map (ce_inspect ce) (instance_list ce ns))")
  case None
  then have "looked_at ce ns = map (ce_inspect ce) (instance_list ce ns)" by (simp add: looked_at_def)
  with assms stays_after_check [OF assms(1,2)] None show ?thesis
    by (simp add: cluster_node_heartbeat_def Let_def)
next
  case (Some this)
  then have "looked_at ce ns = set_node (ce_health_check ce this) (map (ce_inspect ce) (instance_list ce ns))"
    by (simp add: looked_at_def)
  with assms stays_after_check [OF assms(1,2)] Some show ?thesis
    by (simp add: cluster_node_heartbeat_def Let_def)
qed

lemma update_absent: "k \<notin> fst ` set d \<Longrightarrow> AList.update k v d = d @ [(k, v)]"
  by (induction d) auto

lemma fold_update_distinct:
  "distinct (map f ws) \<Longrightarrow> f ` set ws \<inter> fst ` set d = {} \<Longrightarrow>
     fold (\<lambda>w. AList.update (f w) (g w)) ws d = d @ map (\<lambda>w. (f w, g w)) ws"
proof (induction ws arbitrary: d)
  case (Cons w ws)
  have "fold (\<lambda>w. AList.update (f w) (g w)) ws (d @ [(f w, g w)]) = (d @ [(f w, g w)]) @ map (\<lambda>w. (f w, g w)) ws"
    by (rule Cons.IH) (use Cons.prems in auto)
  moreover have "AList.update (f w) (g w) d = d @ [(f w, g w)]"
    by (rule update_absent) (use Cons.prems in auto)
  ultimately show ?case by simp
qed simp

lemma worker_tasks_distinct:
  "distinct (map wk_pid (pl_workers p)) \<Longrightarrow>
     worker_tasks p = map (\<lambda>w. (wk_pid w, map fst (wk_managed w))) (pl_workers p)"
  using fold_update_distinct [of wk_pid "pl_workers p" "[]"] by (simp add: worker_tasks_def)

text \<open>
  C11. A heartbeat spares the jobs of the tasks in the pool. The message of a heartbeat is given the
  time and the tasks of the workers when it is dispatched; if no two workers of the pool then have
  the same process identifier (so at most one of them could not be forked), then whatever happens until the heartbeat runs, a
  job whose task was with a worker at the dispatch, running or queued, keeps its row, unless its
  controller or execution node is another node that the heartbeat finds lost. The pool is one of a run
  in which no queue was full and no identifier came twice.
\<close>

theorem heartbeat_spares_tasks:
  assumes "env_ok env" and "0 < n" and "pool_reachable env (new_pool n q mx mem) (p, js0)"
    and "distinct (map wk_pid (pl_workers p))"
    and "add_bind_kwargs t m p = (m', p')" and "''worker_tasks'' \<in> set (ms_bind m)"
    and "i < length js" and "jr_celery_task_id (js ! i) \<in> set (map ms_uuid (work (pl_workers p)))"
    and "\<forall>n \<in> set (lost_instances ce now (looked_at ce ns)).
      nd_hostname n \<notin> {jr_controller_node (js ! i), jr_execution_node (js ! i)}"
  shows "snd (snd (cluster_node_heartbeat ce now t (ms_worker_tasks m') ns js)) ! i = js ! i"
proof -
  have "pool_ok env p" using reachable_pool_ok [OF assms(1,3,2)] by simp
  then have e: "\<forall>w \<in> set (pl_workers p). exact w" by (simp add: pool_ok_def tracked_def)
  from assms(5,6) have m': "ms_worker_tasks m' = Some (worker_tasks (calculate_all p))"
    by (auto simp: add_bind_kwargs_def Let_def split: if_splits)
  have pids: "map wk_pid (pl_workers (calculate_all p)) = map wk_pid (pl_workers p)"
    using e exact_calculate(5) by (simp add: calculate_all_def)
  have "map fst (wk_managed (calculate_managed_tasks w)) = map ms_uuid (in_hand w)" if "w \<in> set (pl_workers p)" for w
    using exact_calculate(8) e that by blast
  then have "concat (map snd (worker_tasks (calculate_all p))) = map ms_uuid (work (pl_workers p))"
    unfolding worker_tasks_distinct [OF assms(4) [folded pids]]
    by (simp add: calculate_all_def work_def map_concat comp_def cong: map_cong)
  with assms(8) have "jr_celery_task_id (js ! i) \<in> set (concat (map snd (worker_tasks (calculate_all p))))" by simp
  from stays_heartbeat [OF _ this assms(9), of i js t] assms(7) show ?thesis by (simp add: m' stays_def)
qed

definition demo_cluster_env :: cluster_env where
  "demo_cluster_env = \<lparr>ce_host = ''a'', ce_heartbeat_period = 60, ce_missed_tolerance = 2, ce_receptor_period = 60,
     ce_waiting_grace = 60, ce_auto_deprovision = False, ce_debug = False, ce_inspect = (\<lambda>n. n),
     ce_health_check = (\<lambda>n. n), ce_newer = (\<lambda>v. False),
     ce_registered = \<lparr>nd_hostname = ''a'', nd_type = Hybrid, nd_state = Ready, nd_last_seen = None, nd_version = ''1'',
       nd_cpu_capacity = 4, nd_mem_capacity = 4, nd_capacity = 4, nd_errors = []\<rparr>\<rparr>"

definition demo_nodes :: "node list" where
  "demo_nodes = [(ce_registered demo_cluster_env)\<lparr>nd_last_seen := Some 990\<rparr>,
     (ce_registered demo_cluster_env)\<lparr>nd_hostname := ''b'', nd_last_seen := Some 10\<rparr>]"

definition demo_row :: "string \<Rightarrow> string \<Rightarrow> task_row" where
  "demo_row u host = \<lparr>jr_id = 1, jr_celery_task_id = u, jr_status = Running, jr_controller_node = host,
     jr_execution_node = host, jr_started = Some 5, jr_modified = 5, jr_is_workflow = False, jr_start_args = [],
     jr_explanation = []\<rparr>"

definition demo_heartbeat :: message where
  "demo_heartbeat = Message ''h'' ''tasks.system.cluster_node_heartbeat'' [] [''dispatch_time'', ''worker_tasks''] None None"

text \<open>The task of the first job is with a worker; the second has none, and the third is on a lost node.\<close>

lemma demo_heartbeat_run:
  "map jr_status (snd (snd (cluster_node_heartbeat demo_cluster_env 1000 990
     (ms_worker_tasks (fst (add_bind_kwargs 990 demo_heartbeat (demo_sent (init_workers demo_pool_env demo_new_pool)))))
     demo_nodes [demo_row ''j'' ''a'', demo_row ''k'' ''a'', demo_row ''l'' ''b'']))) = [Running, Failed, Failed]"
  by code_simp

theorem heartbeat_spares_tasks_witness:
  "snd (snd (cluster_node_heartbeat demo_cluster_env 1000 990
     (ms_worker_tasks (fst (add_bind_kwargs 990 demo_heartbeat (demo_sent (init_workers demo_pool_env demo_new_pool)))))
     demo_nodes [demo_row ''j'' ''a'', demo_row ''k'' ''a''])) ! 0 = demo_row ''j'' ''a''"
proof -
  let ?p = "demo_sent (init_workers demo_pool_env demo_new_pool)"
  obtain m p' where b: "add_bind_kwargs 990 demo_heartbeat ?p = (m, p')" by fastforce
  have "map nd_hostname (lost_instances demo_cluster_env 1000 (looked_at demo_cluster_env demo_nodes)) = [''b'']"
    "map ms_uuid (work (pl_workers ?p)) = [''j'']" by code_simp+
  then have "\<forall>n \<in> set (lost_instances demo_cluster_env 1000 (looked_at demo_cluster_env demo_nodes)). nd_hostname n = ''b''"
    and "set (map ms_uuid (work (pl_workers ?p))) = {''j''}" by auto
  moreover have "map wk_pid (pl_workers ?p) = [Some 0]" by code_simp
  then have d: "distinct (map wk_pid (pl_workers ?p))" by simp
  ultimately show ?thesis
    using heartbeat_spares_tasks [OF demo_env_ok _ demo_sent_run [of "[]", unfolded demo_new_pool_def]
      d [unfolded demo_new_pool_def] b [unfolded demo_new_pool_def],
      where js = "[demo_row ''j'' ''a'', demo_row ''k'' ''a'']" and ce = demo_cluster_env and now = 1000 and ns = demo_nodes
      and i = 0] b
    by (simp add: demo_new_pool_def demo_heartbeat_def demo_row_def)
qed

text \<open>
  Two workers that could not be forked share the entry of the dictionary: the tasks of the first are
  not among those that the heartbeat is given, and the job of such a task fails although the task
  still waits in its queue.
\<close>

definition demo_unforked :: pool where
  "demo_unforked = (new_pool 2 10 (Some 2) 0)\<lparr>pl_workers :=
     map (\<lambda>m. (new_worker (demo_pool_env\<lparr>pe_fork := (\<lambda>i. None)\<rparr>) 0)\<lparr>wk_queue := [Msg m],
         wk_managed := [(ms_uuid m, \<lparr>mg_body = m, mg_started = None, mg_age = None\<rparr>)]\<rparr>)
       [demo_task, with_uuid ''k'' demo_task]\<rparr>"

theorem unforked_tasks_collide:
  "map ms_uuid (work (pl_workers demo_unforked)) = [''j'', ''k''] \<and>
   worker_tasks demo_unforked = [(None, [''k''])] \<and>
   map jr_status (snd (snd (cluster_node_heartbeat demo_cluster_env 1000 990
     (ms_worker_tasks (fst (add_bind_kwargs 990 demo_heartbeat demo_unforked)))
     demo_nodes [demo_row ''j'' ''a'', demo_row ''k'' ''a'']))) = [Failed, Running]"
  by code_simp

section \<open>Two flaws\<close>

text \<open>A worker's own steps, and those of the dispatcher that collects its reports.\<close>

inductive worker_step :: "worker \<Rightarrow> worker \<Rightarrow> bool" where
  Works: "child_step w w' \<Longrightarrow> worker_step w w'"
| Collects: "worker_step w (calculate_managed_tasks w)"

lemma child_managed:
  assumes "child_step w w'"
  shows "set (held w') \<subseteq> set (held w)" and "wk_managed w' = wk_managed w"
  using assms
  by (cases rule: child_step.cases; auto simp: held_def in_hand_def queued_messages_def)+

lemma collect_keeps:
  assumes "u \<notin> set fs" and "u \<in> fst ` set (wk_managed w)"
  shows "u \<in> fst ` set (wk_managed (fold collect_finished fs w)) \<and>
    wk_queue (fold collect_finished fs w) = wk_queue w \<and> wk_running (fold collect_finished fs w) = wk_running w"
  using assms
proof (induction fs arbitrary: w)
  case (Cons f fs)
  have "u \<in> fst ` set (wk_managed (collect_finished f w))"
    using Cons.prems by (auto simp: collect_finished_def AList.delete_eq image_iff)
  from Cons.IH [OF _ this] Cons.prems(1) show ?case by (auto simp: collect_finished_def)
qed simp

text \<open>A managed task that is neither reported, nor run, nor queued.\<close>

definition phantom :: "string \<Rightarrow> worker \<Rightarrow> bool" where
  "phantom u w \<longleftrightarrow> u \<in> fst ` set (wk_managed w) \<and> u \<notin> set (held w)"

lemma phantom_calculate: "phantom u w \<Longrightarrow> phantom u (calculate_managed_tasks w)"
  using collect_keeps [of u "wk_finished w" w]
  by (auto simp: phantom_def calculate_managed_tasks_def held_def in_hand_def queued_messages_def)

lemma phantom_stays:
  assumes "worker_step\<^sup>*\<^sup>* w w'" and "phantom u w"
  shows "phantom u w'"
  using assms
proof (induction rule: rtranclp_induct)
  case (step y z)
  from step.hyps(2) show ?case
  proof cases
    case Works
    with step child_managed [OF Works] show ?thesis by (auto simp: phantom_def)
  next
    case Collects
    with step phantom_calculate show ?thesis by simp
  qed
qed

text \<open>
  A full queue leaves a task behind that nobody has. When a worker's queue is full, \<open>put\<close> fails after it
  has tracked the message: from then on the worker counts as busy, whatever it and the
  dispatcher do, and the identifier stays among its tasks, although it never gets the message.
\<close>

theorem full_queue_leaves_phantom:
  assumes "n \<le> length (wk_queue w)" and "u \<notin> set (held w)"
    and "worker_step\<^sup>*\<^sup>* (snd (put_tracked n u m w)) w'"
  shows "\<not> fst (put_tracked n u m w) \<and> busy w' \<and> u \<in> fst ` set (wk_managed (calculate_managed_tasks w')) \<and>
    u \<notin> ms_uuid ` set (in_hand w')"
proof -
  let ?w = "w\<lparr>wk_managed := AList.update u \<lparr>mg_body = with_uuid u m, mg_started = None, mg_age = None\<rparr> (wk_managed w)\<rparr>"
  have put: "put_tracked n u m w = (False, ?w)" using assms(1) by (simp add: put_tracked_def)
  have "phantom u ?w" using assms(2) by (simp add: phantom_def held_def dom_update)
  then have "phantom u w'" using phantom_stays assms(3) put by simp
  with phantom_calculate [OF this] show ?thesis
    by (auto simp: put phantom_def busy_def held_def)
qed

definition demo_full_worker :: worker where
  "demo_full_worker = (new_worker demo_pool_env 0)\<lparr>wk_managed := [(''j'', \<lparr>mg_body = demo_task, mg_started = None, mg_age = None\<rparr>)],
     wk_queue := [Msg demo_task]\<rparr>"

theorem full_queue_leaves_phantom_witness:
  "busy ((snd (put_tracked 1 ''k'' demo_task demo_full_worker))\<lparr>wk_queue := [], wk_running := Some demo_task\<rparr>)"
proof -
  let ?w = "snd (put_tracked 1 ''k'' demo_task demo_full_worker)"
  have full: "(1 :: nat) \<le> length (wk_queue demo_full_worker)" "''k'' \<notin> set (held demo_full_worker)"
    "wk_queue ?w = Msg demo_task # []" "wk_alive ?w" "wk_running ?w = None" by code_simp+
  from child_step.Take [OF full(4,5,3)] have "worker_step\<^sup>*\<^sup>* ?w (?w\<lparr>wk_queue := [], wk_running := Some demo_task\<rparr>)"
    by (intro r_into_rtranclp worker_step.Works)
  from full_queue_leaves_phantom [OF full(1,2) this] show ?thesis by simp
qed

text \<open>
  A task that never ran is failed and run. If a worker has ended before it took the first message of its
  queue, as it does after a reload, the cleanup marks the job of that message as failed, and hands the message to
  another worker.
\<close>

theorem queued_job_failed_and_run:
  assumes "env_ok env" and "0 < n" and "pool_reachable env (new_pool n q mx mem) (p, js0)" and "roomy p"
    and "cleanup env now p js = (dropped, p', c)"
    and "w \<in> set (pl_workers p)" and "\<not> wk_alive w" and "wk_running w = None" and "in_hand w = m # ms"
    and "j \<in> set js" and "jr_celery_task_id j = ms_uuid m" and "jr_status j \<in> {Running, Waiting}"
  shows "(\<exists>m' \<in> set (work (pl_workers p')). delivered_as m m') \<and>
    (\<exists>j' \<in> set (cl_jobs c). jr_id j' = jr_id j \<and> jr_celery_task_id j' = ms_uuid m \<and> jr_status j' = Failed)"
proof -
  have ok: "pool_ok env p" using reachable_pool_ok [OF assms(1,3,2)] by simp
  then have t: "tracked (pl_workers p)" and e: "\<forall>w \<in> set (pl_workers p). exact w" by (simp_all add: pool_ok_def tracked_def)
  have "m \<in> set (left_behind w)" using assms(8,9) by (simp add: left_behind_def in_hand_def)
  moreover have dead: "w \<in> set (dead_workers (pl_workers p))" using assms(6,7) by (simp add: dead_workers_def)
  ultimately have orphan: "m \<in> set (orphans (pl_workers p))" unfolding orphans_left_behind [OF t] by auto
  obtain ms' where a: "list_all2 delivered_as (orphans (pl_workers p)) ms'"
    and k: "mset (work (pl_workers p')) = mset (work (live_workers (pl_workers p))) + mset ms'"
    using cleanup_facts(4) [OF assms(1) ok assms(4,5)] by blast
  from list_all2_in [OF a orphan] obtain m' where "m' \<in> set ms'" "delivered_as m m'" by blast
  moreover have "set ms' \<subseteq> set (work (pl_workers p'))" using arg_cong [OF k, of set_mset] by auto
  ultimately have one: "\<exists>m' \<in> set (work (pl_workers p')). delivered_as m m'" by blast
  have jobs: "cl_jobs c = reap_where (\<lambda>j. jr_celery_task_id j \<in> first_uuids (dead_workers (pl_workers p))) Failed None js"
    using cleanup_jobs [OF e assms(5)] .
  have "ms_uuid m \<in> first_uuids (dead_workers (pl_workers p))" using dead assms(9) by (auto simp: first_uuids_def)
  then have "reap_job Failed None j \<in> set (cl_jobs c)"
    using assms(10,11) unfolding jobs reap_where_def by (auto intro!: image_eqI [of _ _ j])
  moreover have "jr_id (reap_job Failed None j) = jr_id j" "jr_celery_task_id (reap_job Failed None j) = ms_uuid m"
    "jr_status (reap_job Failed None j) = Failed"
    using assms(11,12) by (auto simp: reap_job_def)
  ultimately have two: "\<exists>j' \<in> set (cl_jobs c). jr_id j' = jr_id j \<and> jr_celery_task_id j' = ms_uuid m \<and> jr_status j' = Failed"
    by (intro bexI [of _ "reap_job Failed None j"]) simp_all
  from one two show ?thesis by blast
qed

text \<open>The worker is told to reload, gets the task, and then quits.\<close>

definition demo_reloaded :: pool where
  "demo_reloaded = demo_sent (reload (init_workers demo_pool_env demo_new_pool))"

definition demo_left :: pool where
  "demo_left = demo_reloaded\<lparr>pl_workers := [(pl_workers demo_reloaded ! 0)\<lparr>wk_queue := [Msg demo_task], wk_alive := False\<rparr>]\<rparr>"

lemma demo_left_facts:
  "length (pl_workers demo_reloaded) = 1" "wk_alive (pl_workers demo_reloaded ! 0)"
  "wk_running (pl_workers demo_reloaded ! 0) = None" "wk_queue (pl_workers demo_reloaded ! 0) = Quit # [Msg demo_task]"
  "roomy (reload (init_workers demo_pool_env demo_new_pool))" "roomy demo_left"
  "uuids (pl_workers (reload (init_workers demo_pool_env demo_new_pool))) = {}"
  by code_simp+

lemma demo_left_reachable: "pool_reachable demo_pool_env demo_new_pool (demo_left, js)"
proof -
  have "pool_reachable demo_pool_env demo_new_pool (reload (init_workers demo_pool_env demo_new_pool), js)"
    by (rule pool_reachable.Step [OF demo_start pool_step.Reload])
  then have r: "pool_reachable demo_pool_env demo_new_pool (demo_reloaded, js)"
    unfolding demo_reloaded_def by (rule demo_sent_reachable) (simp_all add: demo_left_facts)
  obtain w where w: "pl_workers demo_reloaded = [w]" using demo_left_facts(1) by (cases "pl_workers demo_reloaded") auto
  have "0 < length (pl_workers demo_reloaded)" by (simp add: demo_left_facts(1))
  from pool_step.Child [OF this child_step.Leave [OF demo_left_facts(2,3,4)], of demo_pool_env js]
  have "pool_step demo_pool_env (demo_reloaded, js) (demo_left, js)" by (simp add: demo_left_def w)
  from pool_reachable.Step [OF r this] show ?thesis .
qed

theorem queued_job_failed_and_run_witness:
  "\<exists>m' \<in> set (work (pl_workers (fst (snd (cleanup demo_pool_env 5 demo_left [demo_row ''j'' ''a'']))))). delivered_as demo_task m'"
proof -
  obtain d p' c where run: "cleanup demo_pool_env 5 demo_left [demo_row ''j'' ''a''] = (d, p', c)" by (metis prod.exhaust)
  have "map wk_alive (pl_workers demo_left) = [False]" "map wk_running (pl_workers demo_left) = [None]"
    "map in_hand (pl_workers demo_left) = [[demo_task]]" by code_simp+
  then obtain w where w: "pl_workers demo_left = [w]" "\<not> wk_alive w" "wk_running w = None" "in_hand w = demo_task # []" by auto
  from queued_job_failed_and_run [OF demo_env_ok _ demo_left_reachable [of "[]", unfolded demo_new_pool_def]
      demo_left_facts(6) run _ w(2,3,4), of "demo_row ''j'' ''a''"] w(1) run
  show ?thesis by (simp add: demo_row_def demo_task_def)
qed

end
