(* ===== verification/Dispatch_Times.thy ===== *)
theory Dispatch_Times
  imports Dispatch_Schedule
begin

text \<open>
  The properties of the schedules: they are spaced out, each runs exactly once per target that passes
  between two polls, and the scheduler sleeps neither past a target nor without one.
\<close>

section \<open>A new scheduler is on track\<close>

lemma new_scheduler_intervals:
  assumes "new_scheduler now schedule = Inr s" and "j \<in> set (sd_jobs s)"
  shows "1 \<le> sch_interval j" and "sch_index j = 0" and "0 \<le> sch_offset j"
proof -
  let ?js = "map new_scheduled_task schedule"
  note n = new_scheduler_jobs [OF assms(1)]
  from assms(2) obtain k where k: "k < length ?js" and j: "j = sd_jobs s ! k"
    unfolding n(3) by (metis in_set_conv_nth space_out_nth(1))
  have jk: "j = (?js ! k)\<lparr>sch_offset := (int k * min_interval ?js) div int (length ?js)\<rparr>"
    using j k unfolding n(3) by (simp add: space_out_nth)
  have "min_interval ?js \<le> sch_interval (?js ! k)"
    using foldr_min_le [of "?js ! k" ?js sch_interval] nth_mem [OF k] by (simp only: min_interval_def)
  moreover have "1 \<le> min_interval ?js" using n(1,2) by (cases schedule) simp_all
  ultimately show "1 \<le> sch_interval j" and "0 \<le> sch_offset j"
    by (simp_all add: jk pos_imp_zdiv_nonneg_iff n(1) div_int_pos_iff)
  show "sch_index j = 0" using k by (simp add: jk new_scheduled_task_def split: prod.split)
qed

lemma new_on_track:
  assumes "new_scheduler now schedule = Inr s"
  shows "all_on_track now s"
proof -
  have "on_track (now - sd_global_start s) j" if "j \<in> set (sd_jobs s)" for j
  proof -
    note i = new_scheduler_intervals [OF assms that]
    have "now - sd_global_start s < 0" using new_scheduler_jobs(4) [OF assms] by simp
    moreover have "(0 :: rat) \<le> of_int (next_run j)" using i by (simp add: next_run_def)
    ultimately show ?thesis using i by (simp add: on_track_def)
  qed
  then show ?thesis by (simp add: all_on_track_def)
qed

text \<open>The runs at each poll by the targets alone.\<close>

fun due_polls :: "rat \<Rightarrow> rat \<Rightarrow> rat list \<Rightarrow> (string \<times> int \<times> int) list \<Rightarrow> string list list" where
  "due_polls start now [] ps = []"
| "due_polls start now (now' # nows) ps =
     map fst (filter (due_between (now - start) (now' - start)) ps) # due_polls start now' nows ps"

lemma poll_all_due:
  assumes "all_on_track now s" and "sorted (now # nows)"
  shows "poll_all nows s = due_polls (sd_global_start s) now nows (plan s)"
  using assms
proof (induction nows arbitrary: now s)
  case (Cons now' nows)
  then have le: "now \<le> now'" by simp
  let ?s = "snd (get_and_mark_pending now' s)"
  have "poll_all nows ?s = due_polls (sd_global_start ?s) now' nows (plan ?s)"
    by (rule Cons.IH [OF get_and_mark_on_track [OF Cons.prems(1) le]]) (use Cons.prems(2) in simp)
  then show ?case
    using get_and_mark_due [OF Cons.prems(1) le] by (simp add: case_prod_beta get_and_mark_plan)
qed simp

section \<open>Properties\<close>

text \<open>
  C13. The schedules run exactly at their targets. Whenever the scheduler is polled, however
  irregularly, a poll returns the schedules that have a target, an offset plus a positive multiple of the
  interval, after the previous poll and not after this one; each once, even if several targets have passed.
\<close>

theorem schedules_run_at_targets:
  assumes "new_scheduler now schedule = Inr s" and "sorted (now # nows)"
  shows "poll_all nows s = due_polls (now + 2) now nows (plan s)"
  using poll_all_due [OF new_on_track [OF assms(1)] assms(2)] new_scheduler_jobs(4) [OF assms(1)] by simp

definition demo_schedule :: "(string \<times> rat) list" where
  "demo_schedule = [(''heartbeat'', 60), (''gather'', 300), (''metrics'', 20)]"

theorem schedules_run_at_targets_witness:
  "due_polls 2 0 [20, 40, 150, 400] [(''heartbeat'', 60, 0), (''gather'', 300, 6), (''metrics'', 20, 13)] =
    [[], [''metrics''], [''heartbeat'', ''metrics''], [''heartbeat'', ''gather'', ''metrics'']]"
proof -
  obtain s where s: "new_scheduler 0 demo_schedule = Inr s"
    and p: "plan s = [(''heartbeat'', 60, 0), (''gather'', 300, 6), (''metrics'', 20, 13)]"
    and r: "poll_all [20, 40, 150, 400] s =
      [[], [''metrics''], [''heartbeat'', ''metrics''], [''heartbeat'', ''gather'', ''metrics'']]"
  proof -
    have "(case new_scheduler 0 demo_schedule of Inl e \<Rightarrow> False | Inr s \<Rightarrow>
        plan s = [(''heartbeat'', 60, 0), (''gather'', 300, 6), (''metrics'', 20, 13)] \<and>
        poll_all [20, 40, 150, 400] s =
          [[], [''metrics''], [''heartbeat'', ''metrics''], [''heartbeat'', ''gather'', ''metrics'']])"
      by code_simp
    then show ?thesis using that by (auto split: sum.splits)
  qed
  from schedules_run_at_targets [OF s, of "[20, 40, 150, 400]"] p r show ?thesis by simp
qed

text \<open>
  A scheduler is refused exactly if it has no schedule, or more schedules than the shortest interval
  has seconds. Otherwise its schedules start at pairwise different offsets below the shortest interval.
\<close>

theorem schedules_spaced_out:
  "(case new_scheduler now schedule of
      Inl EmptySchedule \<Rightarrow> schedule = []
    | Inl TooManySchedules \<Rightarrow> schedule \<noteq> [] \<and> (\<exists>p \<in> set schedule. truncate_rat (snd p) < int (length schedule))
    | Inr s \<Rightarrow> (\<forall>p \<in> set schedule. int (length schedule) \<le> truncate_rat (snd p)) \<and> map fst (plan s) = map fst schedule \<and>
        distinct (map sch_offset (sd_jobs s)) \<and>
        (\<forall>j \<in> set (sd_jobs s). 0 \<le> sch_offset j \<and> (\<forall>p \<in> set schedule. sch_offset j < truncate_rat (snd p))))"
proof -
  let ?js = "map new_scheduled_task schedule" and ?n = "int (length schedule)"
  let ?m = "min_interval (map new_scheduled_task schedule)"
  have interval: "sch_interval (new_scheduled_task p) = truncate_rat (snd p)" for p
    by (simp add: new_scheduled_task_def split: prod.split)
  have le: "?m \<le> truncate_rat (snd p)" if "p \<in> set schedule" for p
    using foldr_min_le [of "new_scheduled_task p" ?js sch_interval] that interval by (auto simp: min_interval_def)
  have ex: "\<exists>p \<in> set schedule. truncate_rat (snd p) = ?m" if "schedule \<noteq> []"
  proof -
    from foldr_min_in [of ?js sch_interval] that obtain j where "j \<in> set ?js" "?m = sch_interval j"
      by (auto simp: min_interval_def)
    then obtain p where "p \<in> set schedule" "j = new_scheduled_task p" by auto
    with \<open>?m = sch_interval j\<close> interval [of p] show ?thesis by (intro bexI [of _ p]) simp_all
  qed
  consider (empty) "schedule = []" | (many) "schedule \<noteq> []" "?m < ?n" | (ok) "schedule \<noteq> []" "?n \<le> ?m" by linarith
  then show ?thesis
  proof cases
    case empty
    then show ?thesis by (simp add: new_scheduler_def)
  next
    case many
    with ex have "\<exists>p \<in> set schedule. truncate_rat (snd p) < ?n" by metis
    with many show ?thesis by (simp add: new_scheduler_def Let_def)
  next
    case ok
    let ?jobs = "space_out 0 ?m ?n ?js"
    have s: "new_scheduler now schedule = Inr \<lparr>sd_jobs = ?jobs, sd_global_start = now + 2\<rparr>"
      using ok by (simp add: new_scheduler_def Let_def)
    have n: "0 < ?n" using ok(1) by simp
    have off: "map sch_offset ?jobs ! k = (int k * ?m) div ?n" if "k < length schedule" for k
      using that by (simp add: space_out_nth)
    have names: "map sch_name (space_out i m n js) = map sch_name js" for i m n js
      by (induction js arbitrary: i) simp_all
    have "map fst (plan \<lparr>sd_jobs = ?jobs, sd_global_start = now + 2\<rparr>) = map sch_name ?js"
      by (simp add: plan_def comp_def names)
    also have "\<dots> = map fst schedule" by (simp add: new_scheduled_task_def comp_def split: prod.split)
    finally have plan: "map fst (plan \<lparr>sd_jobs = ?jobs, sd_global_start = now + 2\<rparr>) = map fst schedule" .
    have "map sch_offset ?jobs ! i < map sch_offset ?jobs ! k" if "i < k" "k < length schedule" for i k
      using offset_step(1) [OF n ok(2), of "int i" "int k"] that off by simp
    then have "sorted_wrt (<) (map sch_offset ?jobs)" by (simp add: sorted_wrt_iff_nth_less space_out_nth)
    then have d: "distinct (map sch_offset ?jobs)" by (simp add: strict_sorted_iff)
    have bound: "0 \<le> sch_offset j \<and> sch_offset j < ?m" if "j \<in> set ?jobs" for j
    proof -
      from that obtain k where k: "k < length schedule" "j = ?jobs ! k"
        by (metis in_set_conv_nth length_map space_out_nth(1))
      have "0 \<le> (int k * ?m) div ?n" using n ok(2) by (simp add: pos_imp_zdiv_nonneg_iff)
      moreover have "0 < ?m" using n ok(2) by linarith
      then have "(int k * ?m) div ?n < ?m"
        using offset_step(2) [OF n ok(2), of 0 "int k"] k by (cases "k = 0") simp_all
      ultimately show ?thesis using off [OF k(1)] k by (simp add: space_out_nth)
    qed
    have "\<forall>j \<in> set ?jobs. 0 \<le> sch_offset j \<and> (\<forall>p \<in> set schedule. sch_offset j < truncate_rat (snd p))"
      using bound le by (meson less_le_trans)
    moreover have "\<forall>p \<in> set schedule. ?n \<le> truncate_rat (snd p)" using le ok(2) by (meson order_trans)
    ultimately show ?thesis unfolding s using plan d by simp
  qed
qed

text \<open>The scheduler after a series of polls.\<close>

definition after_polls :: "rat list \<Rightarrow> scheduler \<Rightarrow> scheduler" where
  "after_polls nows s = fold (\<lambda>now s. snd (get_and_mark_pending now s)) nows s"

lemma after_polls_on_track:
  assumes "all_on_track now s" and "sorted (now # nows)"
  shows "all_on_track (last (now # nows)) (after_polls nows s)" and "plan (after_polls nows s) = plan s"
    and "sd_global_start (after_polls nows s) = sd_global_start s"
proof -
  have "all_on_track (last (now # nows)) (after_polls nows s) \<and> plan (after_polls nows s) = plan s \<and>
    sd_global_start (after_polls nows s) = sd_global_start s"
    using assms
  proof (induction nows arbitrary: now s)
    case (Cons now' nows)
    then have "all_on_track now' (snd (get_and_mark_pending now' s))"
      by (intro get_and_mark_on_track [of now]) simp_all
    from Cons.IH [OF this] Cons.prems(2) show ?case by (auto simp: after_polls_def get_and_mark_plan)
  qed (simp add: after_polls_def)
  then show "all_on_track (last (now # nows)) (after_polls nows s)" and "plan (after_polls nows s) = plan s"
    and "sd_global_start (after_polls nows s) = sd_global_start s" by simp_all
qed

lemma first_next_le: "j \<in> set js \<Longrightarrow> first_next_run js \<le> next_run j"
  by (simp add: first_next_run_def foldr_min_le)

lemma first_next_in: "js \<noteq> [] \<Longrightarrow> \<exists>j \<in> set js. first_next_run js = next_run j"
  by (simp add: first_next_run_def foldr_min_in)

text \<open>
  The scheduler sleeps between a tenth of a second and 20 seconds; if longer than a tenth, no target passes
  before it wakes, and if shorter than 20 seconds, one is due when it wakes.
\<close>

theorem scheduler_wakes_in_time:
  assumes "new_scheduler start schedule = Inr s0" and "sorted (start # nows)"
    and "s = after_polls nows s0" and "now = last (start # nows)" and "wait = time_until_next_run now s"
  shows "1/10 \<le> wait \<and> wait \<le> 20 \<and>
    (1/10 < wait \<longrightarrow> (\<forall>later. now \<le> later \<and> later < now + wait \<longrightarrow> fst (get_and_mark_pending later s) = [])) \<and>
    (wait < 20 \<longrightarrow> fst (get_and_mark_pending (now + wait) s) \<noteq> [])"
proof -
  let ?d = "of_int (first_next_run (sd_jobs s)) - (now - sd_global_start s)"
  have w: "wait = (if ?d \<le> 1/10 then 1/10 else if ?d > 20 then 20 else ?d)"
    by (simp add: assms(5) time_until_next_run_def Let_def)
  have "plan s = plan s0" using after_polls_on_track [OF new_on_track [OF assms(1)] assms(2)] assms(3) by simp
  then have "length (plan s) = length (plan s0)" by simp
  then have l: "length (sd_jobs s) = length (sd_jobs s0)" by (simp add: plan_def)
  have "length (sd_jobs s0) \<noteq> 0" using new_scheduler_jobs(1) [OF assms(1)]
    unfolding new_scheduler_jobs(3) [OF assms(1)] space_out_nth(1) by simp
  with l have ne: "sd_jobs s \<noteq> []" by auto
  have none: "fst (get_and_mark_pending later s) = []"
    if "1/10 < wait" "later < now + wait" for later
  proof -
    have "wait \<le> ?d" using that(1) w by (simp split: if_splits)
    then have "\<not> due_to_run j (later - sd_global_start s)" if "j \<in> set (sd_jobs s)" for j
    proof -
      have "(of_int (first_next_run (sd_jobs s)) :: rat) \<le> of_int (next_run j)" using first_next_le [OF that] by simp
      with \<open>wait \<le> ?d\<close> \<open>later < now + wait\<close> show ?thesis by (simp add: due_to_run_def)
    qed
    then show ?thesis by (simp add: get_and_mark_pending_def Let_def)
  qed
  have some: "fst (get_and_mark_pending (now + wait) s) \<noteq> []" if "wait < 20"
  proof -
    obtain j where j: "j \<in> set (sd_jobs s)" "first_next_run (sd_jobs s) = next_run j" using first_next_in [OF ne] by blast
    have "?d \<le> wait" using that w by (simp split: if_splits)
    with j have "due_to_run j (now + wait - sd_global_start s)" by (simp add: due_to_run_def)
    with j(1) show ?thesis by (auto simp: get_and_mark_pending_def Let_def filter_empty_conv)
  qed
  have "1/10 \<le> wait" "wait \<le> 20" using w by (simp_all split: if_splits)
  with none some show ?thesis by blast
qed

theorem scheduler_wakes_in_time_witness:
  "case new_scheduler 0 demo_schedule of Inl e \<Rightarrow> False | Inr s0 \<Rightarrow>
     time_until_next_run 40 (after_polls [20, 40] s0) = 15 \<and>
     fst (get_and_mark_pending 55 (after_polls [20, 40] s0)) \<noteq> []"
proof -
  obtain s0 where s0: "new_scheduler 0 demo_schedule = Inr s0" and t: "time_until_next_run 40 (after_polls [20, 40] s0) = 15"
  proof -
    have "(case new_scheduler 0 demo_schedule of Inl e \<Rightarrow> False | Inr s \<Rightarrow>
        time_until_next_run 40 (after_polls [20, 40] s) = 15)" by code_simp
    then show ?thesis using that by (auto split: sum.splits)
  qed
  from scheduler_wakes_in_time [OF s0, of "[20, 40]" "after_polls [20, 40] s0" 40 15] t s0 show ?thesis by simp
qed

end
