(* ===== verification/Job_Launch.thy ===== *)
theory Job_Launch
  imports Survey_Answers Launch_Gates "HOL-Library.Sublist"
begin

text \<open>
  Jobs that the platform starts by itself, for an event rule or a service request: both call
  \<open>create_unified_job\<close> and \<open>signal_start\<close> of \<open>forail/main/models/unified_jobs.py\<close>, with the node answers of
  \<open>WorkflowJobTemplate.create_unified_job\<close> (\<open>forail/main/models/workflow.py\<close>). Of a job the model keeps its
  template, its variables, the answers of its nodes, its origin and its status. The copying of the other fields,
  the slicing of a job and the prompts are not modelled.
\<close>

record launchable =
  la_holder :: survey_holder
  la_passwords_needed :: "string list"
  la_dependencies_processed :: bool
  la_nodes :: "(string \<times> variables) list"

record launch_tools =
  lt_crypto :: crypto
  lt_nonce :: "string \<Rightarrow> nat"
  lt_survey :: survey_env

record new_job =
  nj_id :: pk
  nj_template :: pk
  nj_launch_type :: string
  nj_webhook_service :: string
  nj_webhook_guid :: string
  nj_created_by :: "pk option"
  nj_variables :: survey_job
  nj_nodes :: "(string \<times> variables) list"
  nj_status :: job_status

record job_store =
  st_jobs :: "new_job list"
  st_next_job :: pk
  st_survey :: survey_state
  st_runs :: "manager_run list"

definition origin :: "pk \<Rightarrow> string \<Rightarrow> string \<Rightarrow> string \<Rightarrow> pk option \<Rightarrow> new_job" where
  "origin template launch_type service guid user =
     \<lparr>nj_id = 0, nj_template = template, nj_launch_type = launch_type, nj_webhook_service = service,
      nj_webhook_guid = guid, nj_created_by = user,
      nj_variables = \<lparr>jb_extra_vars = [], jb_survey_passwords = []\<rparr>, nj_nodes = [], nj_status = New\<rparr>"

text \<open>The new job, or \<open>None\<close> for an exception.\<close>

definition create_job ::
  "launch_tools \<Rightarrow> launchable \<Rightarrow> new_job \<Rightarrow> variables \<Rightarrow> job_store \<Rightarrow> pk option \<times> job_store" where
  "create_job tools t blank runtime s =
     (let (r, st) = create_survey_job (lt_crypto tools) (lt_nonce tools) (lt_survey tools) (la_holder t) runtime []
            (st_survey s)
      in case r of
           Inl e \<Rightarrow> (None, s\<lparr>st_survey := st\<rparr>)
         | Inr v \<Rightarrow>
             (Some (st_next_job s),
              s\<lparr>st_jobs := st_jobs s @
                  [blank\<lparr>nj_id := st_next_job s, nj_variables := v, nj_nodes := la_nodes t,
                         nj_status := New\<rparr>],
                st_next_job := Suc (st_next_job s), st_survey := st\<rparr>))"

text \<open>
  \<open>create_unified_job\<close> works on the dictionary of the caller: it encrypts the passwords in it and drops their
  placeholders.
\<close>

definition variables_after :: "launch_tools \<Rightarrow> launchable \<Rightarrow> variables \<Rightarrow> survey_state \<Rightarrow> variables" where
  "variables_after tools t runtime st =
     (case encrypt_dict (lt_crypto tools) (lt_nonce tools) runtime (survey_password_variables (la_holder t)) of
        Inl e \<Rightarrow> runtime
      | Inr vars \<Rightarrow>
          de_runtime (snd (run_each (default_element (lt_crypto tools) (lt_survey tools) (la_holder t))
            (asked_elements (la_holder t)) \<lparr>de_runtime = vars, de_survey = [], de_state = st\<rparr>)))"

text \<open>
  The answers for a node of a workflow, by its identifier: \<open>None\<close> is the \<open>TypeError\<close> of \<open>in\<close> or of the
  subscript when the answers are no dictionary. The nodes before it are saved by then.
\<close>

definition answer_node :: "json \<Rightarrow> string \<times> variables \<Rightarrow> (string \<times> variables) option" where
  "answer_node answers = (\<lambda>(identifier, extra).
     case answers of
       JObj d \<Rightarrow> Some (case map_of d identifier of Some (JObj a) \<Rightarrow> (identifier, dict_update extra a) | _ \<Rightarrow> (identifier, extra))
     | JList xs \<Rightarrow> if JStr identifier \<in> set xs then None else Some (identifier, extra)
     | JStr s \<Rightarrow> if sublist identifier s then None else Some (identifier, extra)
     | _ \<Rightarrow> None)"

fun answer_nodes :: "json \<Rightarrow> (string \<times> variables) list \<Rightarrow> (string \<times> variables) list \<times> bool" where
  "answer_nodes answers [] = ([], True)"
| "answer_nodes answers (n # ns) =
     (case answer_node answers n of
        None \<Rightarrow> (n # ns, False)
      | Some n' \<Rightarrow> (let (rest, ok) = answer_nodes answers ns in (n' # rest, ok)))"

definition set_nodes :: "pk \<Rightarrow> (string \<times> variables) list \<Rightarrow> job_store \<Rightarrow> job_store" where
  "set_nodes jid nodes s =
     s\<lparr>st_jobs := map (\<lambda>j. if nj_id j = jid then j\<lparr>nj_nodes := nodes\<rparr> else j) (st_jobs s)\<rparr>"

text \<open>\<open>WorkflowJobTemplate.create_unified_job\<close>; the flag tells a \<open>TypeError\<close> after the job was saved.\<close>

definition create_workflow_job ::
  "launch_tools \<Rightarrow> launchable \<Rightarrow> new_job \<Rightarrow> variables \<Rightarrow> json \<Rightarrow> job_store \<Rightarrow> pk option \<times> bool \<times> job_store" where
  "create_workflow_job tools t blank runtime answers s =
     (case create_job tools t blank runtime s of
        (None, s1) \<Rightarrow> (None, True, s1)
      | (Some jid, s1) \<Rightarrow>
          if json_true answers
          then (let (nodes, ok) = answer_nodes answers (la_nodes t) in (Some jid, ok, set_nodes jid nodes s1))
          else (Some jid, True, s1))"

text \<open>\<open>new_job.signal_start()\<close>, without passwords: whether it started.\<close>

definition start_created :: "launchable \<Rightarrow> pk \<Rightarrow> job_store \<Rightarrow> bool \<times> job_store" where
  "start_created t jid s =
     (case find (\<lambda>j. nj_id j = jid) (st_jobs s) of
        None \<Rightarrow> (False, s)
      | Some j \<Rightarrow>
          (let (ok, w) = signal_start (la_dependencies_processed t) (la_passwords_needed t) []
                 \<lparr>lw_usage = None, lw_job = Some \<lparr>lj_status = nj_status j, lj_explanation = [], lj_start_args = None\<rparr>,
                  lw_decisions = [], lw_triggered = [], lw_scan_rows = [], lw_last_runs = [], lw_scheduled = []\<rparr>
           in (ok, s\<lparr>st_jobs := map (\<lambda>j. if nj_id j = jid
                                         then (case lw_job w of None \<Rightarrow> j | Some l \<Rightarrow> j\<lparr>nj_status := lj_status l\<rparr>)
                                         else j) (st_jobs s),
                     st_runs := st_runs s @ lw_scheduled w\<rparr>)))"

text \<open>What the two leave behind.\<close>

definition ids_below :: "job_store \<Rightarrow> bool" where
  "ids_below s \<longleftrightarrow> (\<forall>j \<in> set (st_jobs s). nj_id j < st_next_job s)"

lemma create_job_cases:
  "(\<exists>st. create_job tools t b vars s = (None, s\<lparr>st_survey := st\<rparr>)) \<or>
   (\<exists>st v. create_job tools t b vars s =
      (Some (st_next_job s), s\<lparr>st_jobs := st_jobs s @ [b\<lparr>nj_id := st_next_job s, nj_variables := v,
          nj_nodes := la_nodes t, nj_status := New\<rparr>], st_next_job := Suc (st_next_job s), st_survey := st\<rparr>))"
  by (auto simp: create_job_def split: prod.split sum.split)

lemma find_new:
  "\<forall>j \<in> set js. nj_id j < k \<Longrightarrow> find (\<lambda>j. nj_id j = k) (js @ [x]) = (if nj_id x = k then Some x else None)"
  by (induction js) auto

lemma create_ids: "ids_below s \<Longrightarrow> ids_below (snd (create_job tools t b vars s))"
  using create_job_cases [of tools t b vars s] by (auto simp: ids_below_def less_Suc_eq)

lemma start_ids: "ids_below s \<Longrightarrow> ids_below (snd (start_created t jid s))"
  by (auto simp: start_created_def ids_below_def split: option.split prod.split)

lemma new_start:
  assumes "nj_status j = New"
  shows "signal_start d needed [] \<lparr>lw_usage = None,
      lw_job = Some \<lparr>lj_status = nj_status j, lj_explanation = [], lj_start_args = None\<rparr>,
      lw_decisions = [], lw_triggered = [], lw_scan_rows = [], lw_last_runs = [], lw_scheduled = []\<rparr> =
    (if needed = [] then (True, \<lparr>lw_usage = None,
      lw_job = Some \<lparr>lj_status = Pending, lj_explanation = [], lj_start_args = Some []\<rparr>,
      lw_decisions = [], lw_triggered = [], lw_scan_rows = [], lw_last_runs = [],
      lw_scheduled = [if d then TaskManagerRun else DependencyManagerRun]\<rparr>)
     else (False, \<lparr>lw_usage = None,
      lw_job = Some \<lparr>lj_status = New, lj_explanation = [], lj_start_args = None\<rparr>,
      lw_decisions = [], lw_triggered = [], lw_scan_rows = [], lw_last_runs = [], lw_scheduled = []\<rparr>))"
  using assms by (cases needed) (auto simp: signal_start_def startable_def dict_get_def)

section \<open>Tools for examples\<close>

definition example_survey_env :: survey_env where
  "example_survey_env = \<lparr>se_allowlist = JNull, se_jinja2_enabled = JBool False, se_split_url = (\<lambda>_. None), se_client_host = (\<lambda>_. None),
     se_resolve_host = (\<lambda>_ _. None), se_http = (\<lambda>_. None), se_query = (\<lambda>_ _ _. None),
     se_render_template = (\<lambda>_ _. None), se_digest = (\<lambda>_. []), se_float = (\<lambda>_. None), se_repr = (\<lambda>_. [])\<rparr>"

definition example_tools :: launch_tools where
  "example_tools = \<lparr>lt_crypto = demo_crypto, lt_nonce = (\<lambda>_. 0), lt_survey = example_survey_env\<rparr>"

definition example_template :: "string list \<Rightarrow> launchable" where
  "example_template needed = \<lparr>la_holder = \<lparr>sh_enabled = False, sh_spec = None, sh_ask_variables = False,
       sh_extra_vars = [(''mode'', JStr ''safe'')], sh_template = \<lparr>st_pk = Some 5, st_organization = Some 1, st_inventory = None\<rparr>\<rparr>,
     la_passwords_needed = needed, la_dependencies_processed = True, la_nodes = []\<rparr>"

definition empty_store :: job_store where
  "empty_store = \<lparr>st_jobs = [], st_next_job = 1, st_survey = \<lparr>ss_cache = [], ss_requests = []\<rparr>, st_runs = []\<rparr>"

end
