(* ===== verification/Event_Rules.thy ===== *)
theory Event_Rules
  imports Job_Launch
begin

text \<open>
  Event-driven automation: the rules and logs of \<open>forail/main/models/eda.py\<close>, their evaluation in
  \<open>forail/main/tasks/eda.py\<close> and the receiver of webhooks in \<open>forail/api/views/eda.py\<close>.

  Arguments (\<open>eda_env\<close>): the digests, the template engine, the rendering of JSON as text, the templates that
  exist and the sending of a notification. Times are seconds. The evaluation of an event is two steps, up to
  the saved status \<open>matched\<close> and the actions after it, so that evaluations can overlap.
\<close>

section \<open>Rows\<close>

datatype source_type = Generic | GitHub | GitLab | Alertmanager | PagerDuty | Datadog | CloudWatch

record action_config =
  ac_type :: string
  ac_target :: pk
  ac_extra_vars :: variables

record event_rule =
  er_id :: pk
  er_name :: string
  er_organization :: "pk option"
  er_enabled :: bool
  er_source :: source_type
  er_path :: string
  er_key :: string
  er_conditions :: "json list"
  er_actions :: "action_config list"
  er_throttle_seconds :: nat
  er_last_fired :: "rat option"
  er_fire_count :: nat

datatype event_status = Received | Matched | Unmatched | Throttled | ActionFired | ActionFailed | EventError | SignatureFailed

record condition_result =
  cr_expression :: json
  cr_matched :: bool
  cr_error :: "string option"

record action_result =
  ar_type :: string
  ar_target :: pk
  ar_success :: bool
  ar_job :: "pk option"

record event_log =
  el_id :: pk
  el_rule :: "pk option"
  el_organization :: "pk option"
  el_source_ip :: "string option"
  el_event_type :: string
  el_guid :: string
  el_payload :: json
  el_headers :: "(string \<times> string) list"
  el_matched :: bool
  el_conditions :: "condition_result list"
  el_actions :: "action_result list"
  el_status :: event_status
  el_error :: string
  el_job :: "pk option"

record eda_world =
  ew_rules :: "event_rule list"
  ew_logs :: "event_log list"
  ew_next_log :: pk
  ew_queue :: "pk list"
  ew_store :: job_store
  ew_sent :: "(pk \<times> pk) list"
  ew_audit :: "pk list"

text \<open>
  \<open>ee_hmac\<close> takes the digest, the key and the message. A notification that fails to send is \<open>Some False\<close>.
  \<open>ee_is_address\<close> says which texts the database takes for an address.
\<close>

record eda_env =
  ee_tools :: launch_tools
  ee_hmac :: "string \<Rightarrow> string \<Rightarrow> string \<Rightarrow> string"
  ee_sha1 :: "string \<Rightarrow> string"
  ee_render :: "string \<Rightarrow> json \<Rightarrow> (string \<times> string) list \<Rightarrow> string + string"
  ee_repr :: "json \<Rightarrow> string"
  ee_job_template :: "pk \<Rightarrow> launchable option"
  ee_workflow_template :: "pk \<Rightarrow> launchable option"
  ee_notify :: "pk \<Rightarrow> bool option"
  ee_atomic_requests :: bool
  ee_is_address :: "string \<Rightarrow> bool"

section \<open>Signatures\<close>

text \<open>An error is the text of the \<open>ValueError\<close>.\<close>

definition split_signature :: "string \<Rightarrow> string \<times> string" where
  "split_signature s = (takeWhile (\<lambda>c. c \<noteq> CHR ''='') s, tl (dropWhile (\<lambda>c. c \<noteq> CHR ''='') s))"

definition check_github_signature :: "eda_env \<Rightarrow> string \<Rightarrow> string \<Rightarrow> (string \<times> string) list \<Rightarrow> string + unit" where
  "check_github_signature env key body headers =
     (let sig256 = dict_get headers ''X-Hub-Signature-256'' [];
          header_sig = (if sig256 \<noteq> [] then sig256 else dict_get headers ''X-Hub-Signature'' [])
      in if header_sig = [] then Inl ''Missing X-Hub-Signature header''
         else if CHR ''='' \<notin> set header_sig then Inl ''Invalid signature format''
         else (let (hash_alg, signature) = split_signature header_sig;
                   digestmod = (if hash_alg = ''sha256'' then ''sha256'' else ''sha1'')
               in if ee_hmac env digestmod key body \<noteq> signature then Inl ''Signature mismatch'' else Inr ()))"

definition check_gitlab_signature :: "string \<Rightarrow> (string \<times> string) list \<Rightarrow> string + unit" where
  "check_gitlab_signature key headers =
     (if key \<noteq> dict_get headers ''X-Gitlab-Token'' [] then Inl ''Token mismatch'' else Inr ())"

definition check_generic_signature :: "eda_env \<Rightarrow> string \<Rightarrow> string \<Rightarrow> (string \<times> string) list \<Rightarrow> string + unit" where
  "check_generic_signature env key body headers =
     (let header_sig = dict_get headers ''X-Forail-Signature'' []
      in if header_sig = [] then Inl ''Missing X-Forail-Signature header''
         else (let signature = (if CHR ''='' \<in> set header_sig then snd (split_signature header_sig) else header_sig)
               in if ee_hmac env ''sha256'' key body \<noteq> signature then Inl ''Signature mismatch'' else Inr ()))"

definition check_signature :: "eda_env \<Rightarrow> event_rule \<Rightarrow> string \<Rightarrow> (string \<times> string) list \<Rightarrow> string + unit" where
  "check_signature env r body headers =
     (if er_key r = [] then Inl ''No webhook key configured''
      else if er_source r = GitHub then check_github_signature env (er_key r) body headers
      else if er_source r = GitLab then check_gitlab_signature (er_key r) headers
      else check_generic_signature env (er_key r) body headers)"

section \<open>Rules\<close>

definition is_throttled :: "rat \<Rightarrow> event_rule \<Rightarrow> bool" where
  "is_throttled now r \<longleftrightarrow>
     (case er_last_fired r of None \<Rightarrow> False
      | Some fired \<Rightarrow> er_throttle_seconds r > 0 \<and> now - fired < of_nat (er_throttle_seconds r))"

definition record_firing :: "rat \<Rightarrow> event_rule \<Rightarrow> event_rule" where
  "record_firing now r = r\<lparr>er_last_fired := Some now, er_fire_count := er_fire_count r + 1\<rparr>"

definition find_rule :: "pk \<Rightarrow> eda_world \<Rightarrow> event_rule option" where
  "find_rule i w = find (\<lambda>r. er_id r = i) (ew_rules w)"

definition find_log :: "pk \<Rightarrow> eda_world \<Rightarrow> event_log option" where
  "find_log i w = find (\<lambda>l. el_id l = i) (ew_logs w)"

definition change_log :: "pk \<Rightarrow> (event_log \<Rightarrow> event_log) \<Rightarrow> eda_world \<Rightarrow> eda_world" where
  "change_log i f w = w\<lparr>ew_logs := map (\<lambda>l. if el_id l = i then f l else l) (ew_logs w)\<rparr>"

definition change_rule :: "pk \<Rightarrow> (event_rule \<Rightarrow> event_rule) \<Rightarrow> eda_world \<Rightarrow> eda_world" where
  "change_rule i f w = w\<lparr>ew_rules := map (\<lambda>r. if er_id r = i then f r else r) (ew_rules w)\<rparr>"

section \<open>Conditions\<close>

definition condition_template :: "eda_env \<Rightarrow> json \<Rightarrow> string" where
  "condition_template env e =
     ''{% if '' @ py_str (ee_repr env) e @ '' %}__TRUE__{% else %}__FALSE__{% endif %}''"

definition evaluate_condition :: "eda_env \<Rightarrow> json \<Rightarrow> (string \<times> string) list \<Rightarrow> json \<Rightarrow> condition_result" where
  "evaluate_condition env payload headers e =
     (case ee_render env (condition_template env e) payload headers of
        Inl err \<Rightarrow> \<lparr>cr_expression = e, cr_matched = False, cr_error = Some err\<rparr>
      | Inr rendered \<Rightarrow> \<lparr>cr_expression = e, cr_matched = (strip rendered = ''__TRUE__''), cr_error = None\<rparr>)"

text \<open>\<open>None\<close> is the exception for a condition that is no object.\<close>

fun evaluate_all :: "eda_env \<Rightarrow> json \<Rightarrow> (string \<times> string) list \<Rightarrow> json list \<Rightarrow> condition_result list option" where
  "evaluate_all env payload headers [] = Some []"
| "evaluate_all env payload headers (c # cs) =
     (case c of
        JObj d \<Rightarrow>
          map_option (\<lambda>rs. evaluate_condition env payload headers (dict_get d ''jinja2_expression'' (JStr [])) # rs)
            (evaluate_all env payload headers cs)
      | _ \<Rightarrow> None)"

definition evaluate_conditions ::
  "eda_env \<Rightarrow> json list \<Rightarrow> json \<Rightarrow> (string \<times> string) list \<Rightarrow> (bool \<times> condition_result list) option" where
  "evaluate_conditions env conditions payload headers =
     map_option (\<lambda>rs. (list_all cr_matched rs, rs)) (evaluate_all env payload headers conditions)"

section \<open>Actions\<close>

definition event_vars :: "event_rule \<Rightarrow> event_log \<Rightarrow> variables \<Rightarrow> variables" where
  "event_vars r l vars =
     dict_update vars
       [(''forail_eda_event_type'', JStr (el_event_type l)), (''forail_eda_event_guid'', JStr (el_guid l)),
        (''forail_eda_rule_name'', JStr (er_name r)), (''forail_eda_payload'', el_payload l)]"

definition source_name :: "source_type \<Rightarrow> string" where
  "source_name s = (case s of Generic \<Rightarrow> ''webhook_generic'' | GitHub \<Rightarrow> ''webhook_github'' | GitLab \<Rightarrow> ''webhook_gitlab''
     | Alertmanager \<Rightarrow> ''alertmanager'' | PagerDuty \<Rightarrow> ''pagerduty'' | Datadog \<Rightarrow> ''datadog'' | CloudWatch \<Rightarrow> ''cloudwatch'')"

text \<open>\<open>_launch_job_template\<close> and \<open>_launch_workflow\<close>; what \<open>signal_start\<close> answers is ignored.\<close>

definition launch_template ::
  "eda_env \<Rightarrow> event_rule \<Rightarrow> event_log \<Rightarrow> action_config \<Rightarrow> launchable option \<Rightarrow> job_store \<Rightarrow> pk option \<times> job_store" where
  "launch_template env r l a t s =
     (case t of
        None \<Rightarrow> (None, s)
      | Some t \<Rightarrow>
          (case create_job (ee_tools env) t (origin (ac_target a) ''webhook'' (source_name (er_source r)) (el_guid l) None)
                  (event_vars r l (ac_extra_vars a)) s of
             (None, s1) \<Rightarrow> (None, s1)
           | (Some i, s1) \<Rightarrow> (Some i, snd (start_created t i s1))))"

definition execute_action ::
  "eda_env \<Rightarrow> event_rule \<Rightarrow> event_log \<Rightarrow> action_config \<Rightarrow> eda_world \<Rightarrow> action_result \<times> eda_world" where
  "execute_action env r l a w =
     (let result = (\<lambda>ok j. \<lparr>ar_type = ac_type a, ar_target = ac_target a, ar_success = ok, ar_job = j\<rparr>)
      in if ac_type a = ''launch_job_template'' \<or> ac_type a = ''launch_workflow'' then
           (let t = (if ac_type a = ''launch_job_template'' then ee_job_template env (ac_target a)
                     else ee_workflow_template env (ac_target a));
                (j, s) = launch_template env r l a t (ew_store w)
            in (result (j \<noteq> None) j, w\<lparr>ew_store := s\<rparr>))
         else if ac_type a = ''send_notification'' then
           (if ee_notify env (ac_target a) = Some True
            then (result True None, w\<lparr>ew_sent := ew_sent w @ [(ac_target a, el_id l)]\<rparr>)
            else (result False None, w))
         else (result False None, w))"

fun execute_actions ::
  "eda_env \<Rightarrow> event_rule \<Rightarrow> event_log \<Rightarrow> action_config list \<Rightarrow> eda_world \<Rightarrow> action_result list \<times> eda_world" where
  "execute_actions env r l [] w = ([], w)"
| "execute_actions env r l (a # as) w =
     (let (x, w1) = execute_action env r l a w; (xs, w2) = execute_actions env r l as w1 in (x # xs, w2))"

section \<open>The evaluation of an event\<close>

definition finish_with :: "pk \<Rightarrow> event_status \<Rightarrow> string \<Rightarrow> eda_world \<Rightarrow> eda_world" where
  "finish_with i status err w = change_log i (\<lambda>l. l\<lparr>el_status := status, el_error := err\<rparr>) w"

text \<open>Up to the status \<open>matched\<close>: the rows as they were read, if the actions are next.\<close>

definition begin_evaluation ::
  "eda_env \<Rightarrow> rat \<Rightarrow> pk \<Rightarrow> eda_world \<Rightarrow> (event_rule \<times> event_log) option \<times> eda_world" where
  "begin_evaluation env now i w =
     (case find_log i w of
        None \<Rightarrow> (None, w)
      | Some l \<Rightarrow>
          (case (case el_rule l of None \<Rightarrow> None | Some r \<Rightarrow> find_rule r w) of
             None \<Rightarrow> (None, finish_with i EventError ''Event rule has been deleted'' w)
           | Some r \<Rightarrow>
               if \<not> er_enabled r then (None, finish_with i Unmatched ''Rule is disabled'' w)
               else if is_throttled now r then (None, change_log i (\<lambda>l. l\<lparr>el_status := Throttled\<rparr>) w)
               else (case evaluate_conditions env (er_conditions r) (el_payload l) (el_headers l) of
                       None \<Rightarrow> (None, finish_with i EventError ''Condition evaluation error'' w)
                     | Some (matched, rs) \<Rightarrow>
                         (if matched then Some (r, l) else None,
                          change_log i (\<lambda>l. l\<lparr>el_matched := matched, el_conditions := rs,
                            el_status := (if matched then Matched else Unmatched)\<rparr>) w))))"

definition last_job :: "action_result list \<Rightarrow> pk option \<Rightarrow> pk option" where
  "last_job xs j = fold (\<lambda>x j. case ar_job x of None \<Rightarrow> j | Some i \<Rightarrow> Some i) xs j"

definition finish_evaluation :: "eda_env \<Rightarrow> rat \<Rightarrow> event_rule \<times> event_log \<Rightarrow> eda_world \<Rightarrow> eda_world" where
  "finish_evaluation env now = (\<lambda>(r, l) w.
     let (xs, w1) = execute_actions env r l (er_actions r) w;
         status = (if list_all ar_success xs then ActionFired else ActionFailed);
         w2 = change_log (el_id l) (\<lambda>x. x\<lparr>el_actions := xs, el_status := status, el_job := last_job xs (el_job l)\<rparr>) w1;
         w3 = change_rule (er_id r) (record_firing now) w2
     in w3\<lparr>ew_audit := ew_audit w3 @ [el_id l]\<rparr>)"

definition evaluate_event_rule :: "eda_env \<Rightarrow> rat \<Rightarrow> pk \<Rightarrow> eda_world \<Rightarrow> eda_world" where
  "evaluate_event_rule env now i w =
     (case begin_evaluation env now i w of (None, w1) \<Rightarrow> w1 | (Some rl, w1) \<Rightarrow> finish_evaluation env now rl w1)"

section \<open>The receiver\<close>

definition is_letter :: "char \<Rightarrow> bool" where
  "is_letter c \<longleftrightarrow> (let n = of_char c :: nat in (65 \<le> n \<and> n \<le> 90) \<or> (97 \<le> n \<and> n \<le> 122))"

text \<open>\<open>str.title()\<close>; the flag says whether the character before was a letter.\<close>

fun title_case :: "bool \<Rightarrow> string \<Rightarrow> string" where
  "title_case prev [] = []"
| "title_case prev (c # s) =
     (if is_letter c then (if prev then lower_char c else hd (upper_case [c])) else c) # title_case (is_letter c) s"

definition header_name :: "string \<Rightarrow> string" where
  "header_name key =
     title_case False (map (\<lambda>c. if c = CHR ''_'' then CHR ''-'' else c) (if startswith key ''HTTP_'' then drop 5 key else key))"

definition relevant_keys :: "string list" where
  "relevant_keys = [''HTTP_X_HUB_SIGNATURE'', ''HTTP_X_HUB_SIGNATURE_256'', ''HTTP_X_GITLAB_TOKEN'', ''HTTP_X_GITLAB_EVENT'',
     ''HTTP_X_GITHUB_EVENT'', ''HTTP_X_GITHUB_DELIVERY'', ''HTTP_X_FORAIL_SIGNATURE'', ''CONTENT_TYPE'',
     ''HTTP_X_REQUEST_ID'', ''HTTP_X_FORWARDED_FOR'']"

definition relevant_headers :: "(string \<times> string) list \<Rightarrow> (string \<times> string) list" where
  "relevant_headers meta =
     concat (map (\<lambda>k. case map_of meta k of None \<Rightarrow> [] | Some v \<Rightarrow> [(header_name k, v)]) relevant_keys)"

record webhook_request =
  wr_path :: string
  wr_meta :: "(string \<times> string) list"
  wr_body :: string
  wr_data :: json

definition source_ip :: "webhook_request \<Rightarrow> string option" where
  "source_ip q =
     (let ip = strip (hd (split_on CHR '','' (dict_get (wr_meta q) ''HTTP_X_FORWARDED_FOR'' [])))
      in if ip \<noteq> [] then Some ip else map_of (wr_meta q) ''REMOTE_ADDR'')"

text \<open>\<open>request.data.get(k, default)\<close>; \<open>None\<close> is the exception for data that is no object.\<close>

definition data_get :: "json \<Rightarrow> string \<Rightarrow> json \<Rightarrow> json option" where
  "data_get data k dflt = (case data of JObj d \<Rightarrow> Some (dict_get d k dflt) | _ \<Rightarrow> None)"

definition extract_event_type :: "webhook_request \<Rightarrow> source_type \<Rightarrow> json option" where
  "extract_event_type q source =
     (case source of
        GitHub \<Rightarrow> Some (JStr (dict_get (wr_meta q) ''HTTP_X_GITHUB_EVENT'' []))
      | GitLab \<Rightarrow> Some (JStr (dict_get (wr_meta q) ''HTTP_X_GITLAB_EVENT'' []))
      | Alertmanager \<Rightarrow> data_get (wr_data q) ''status'' (JStr ''alert'')
      | PagerDuty \<Rightarrow>
          (case data_get (wr_data q) ''messages'' (JList []) of
             None \<Rightarrow> None
           | Some (JList (m # ms)) \<Rightarrow> data_get m ''event'' (JStr [])
           | Some v \<Rightarrow> if json_true v then None else Some (JStr []))
      | _ \<Rightarrow> data_get (wr_data q) ''event_type'' (JStr []))"

definition extract_event_guid :: "eda_env \<Rightarrow> webhook_request \<Rightarrow> source_type \<Rightarrow> json option" where
  "extract_event_guid env q source =
     (let request_id = JStr (dict_get (wr_meta q) ''HTTP_X_REQUEST_ID'' [])
      in case source of
           GitHub \<Rightarrow> Some (JStr (dict_get (wr_meta q) ''HTTP_X_GITHUB_DELIVERY'' []))
         | GitLab \<Rightarrow> Some (JStr (ee_sha1 env (wr_body q)))
         | Generic \<Rightarrow> if json_true request_id then Some request_id else data_get (wr_data q) ''event_id'' (JStr [])
         | _ \<Rightarrow> Some request_id)"

datatype receiver_reply = Denied | AlreadyReceived | PayloadTooLarge | Queued | ServerError

definition max_payload :: nat where
  "max_payload = 1048576"

definition new_log :: "event_rule \<Rightarrow> webhook_request \<Rightarrow> eda_world \<Rightarrow> event_log" where
  "new_log r q w =
     \<lparr>el_id = ew_next_log w, el_rule = Some (er_id r), el_organization = er_organization r, el_source_ip = source_ip q,
      el_event_type = [], el_guid = [], el_payload = wr_data q, el_headers = relevant_headers (wr_meta q),
      el_matched = False, el_conditions = [], el_actions = [], el_status = Received, el_error = [], el_job = None\<rparr>"

definition add_log :: "event_log \<Rightarrow> eda_world \<Rightarrow> eda_world" where
  "add_log l w = w\<lparr>ew_logs := ew_logs w @ [l], ew_next_log := Suc (ew_next_log w)\<rparr>"

definition seen_before :: "event_rule \<Rightarrow> string \<Rightarrow> eda_world \<Rightarrow> bool" where
  "seen_before r guid w \<longleftrightarrow>
     list_ex (\<lambda>l. el_rule l = Some (er_id r) \<and> el_guid l = guid \<and> el_status l \<in> {Matched, ActionFired}) (ew_logs w)"

text \<open>What the database refuses for a text column: \<open>None\<close>, and a text that is too long.\<close>

definition fits :: "nat \<Rightarrow> json \<Rightarrow> string \<Rightarrow> bool" where
  "fits n v text \<longleftrightarrow> v \<noteq> JNull \<and> length text \<le> n"

text \<open>
  The address is what the sender writes into \<open>X-Forwarded-For\<close>: a text that is no address is refused by
  the column of addresses, with an exception.
\<close>

definition source_ip_fits :: "eda_env \<Rightarrow> webhook_request \<Rightarrow> bool" where
  "source_ip_fits env q \<longleftrightarrow> (case source_ip q of None \<Rightarrow> True | Some ip \<Rightarrow> ip = [] \<or> ee_is_address env ip)"

text \<open>
  \<open>EDAWebhookReceiver.post\<close>. An exception answers the request, and with \<open>ATOMIC_REQUESTS\<close> takes back what the
  request has written.
\<close>

definition receive :: "eda_env \<Rightarrow> webhook_request \<Rightarrow> eda_world \<Rightarrow> receiver_reply \<times> eda_world" where
  "receive env q w =
     (case find (\<lambda>r. er_path r = wr_path q \<and> er_enabled r) (ew_rules w) of
        None \<Rightarrow> (Denied, w)
      | Some r \<Rightarrow>
          (case check_signature env r (wr_body q) (relevant_headers (wr_meta q)) of
             Inl reason \<Rightarrow>
               if \<not> source_ip_fits env q then (ServerError, w)
               else
                 (let w1 = add_log ((new_log r q w)\<lparr>el_status := SignatureFailed, el_error := reason\<rparr>) w
                  in (Denied, if ee_atomic_requests env then w else w1))
           | Inr u \<Rightarrow>
               (case (extract_event_type q (er_source r), extract_event_guid env q (er_source r)) of
                  (Some event_type, Some guid) \<Rightarrow>
                    (let event_text = py_str (ee_repr env) event_type; guid_text = py_str (ee_repr env) guid in
                     if json_true guid \<and> seen_before r guid_text w then (AlreadyReceived, w)
                     else if length (wr_body q) > max_payload then (PayloadTooLarge, w)
                     else if \<not> (fits 128 event_type event_text \<and> fits 256 guid guid_text \<and> source_ip_fits env q)
                     then (ServerError, w)
                     else (Queued, (add_log ((new_log r q w)\<lparr>el_event_type := event_text, el_guid := guid_text\<rparr>) w)
                                     \<lparr>ew_queue := ew_queue w @ [ew_next_log w]\<rparr>))
                | _ \<Rightarrow> (ServerError, w))))"

section \<open>Who may see the key\<close>

record eda_user =
  us_superuser :: bool
  us_auditor :: bool
  us_organizations :: "pk list"
  us_admin_of :: "pk list"

definition may_read_key :: "eda_user \<Rightarrow> event_rule \<Rightarrow> bool" where
  "may_read_key u r \<longleftrightarrow>
     us_superuser u \<or> (case er_organization r of None \<Rightarrow> False | Some org \<Rightarrow> org \<in> set (us_admin_of u))"

definition visible_logs :: "eda_user \<Rightarrow> eda_world \<Rightarrow> event_log list" where
  "visible_logs u w =
     (if us_superuser u \<or> us_auditor u then ew_logs w
      else filter (\<lambda>l. case el_organization l of None \<Rightarrow> False | Some org \<Rightarrow> org \<in> set (us_organizations u)) (ew_logs w))"

section \<open>Operations of users on rules\<close>

text \<open>\<open>None\<close> is a refusal. The new key is an argument: it is a random token.\<close>

definition webhook_key_view :: "eda_user \<Rightarrow> pk \<Rightarrow> eda_world \<Rightarrow> string option" where
  "webhook_key_view u k w =
     (case find_rule k w of None \<Rightarrow> None | Some r \<Rightarrow> if may_read_key u r then Some (er_key r) else None)"

definition rotate_webhook_key :: "eda_user \<Rightarrow> pk \<Rightarrow> string \<Rightarrow> eda_world \<Rightarrow> string option \<times> eda_world" where
  "rotate_webhook_key u k token w =
     (case find_rule k w of
        None \<Rightarrow> (None, w)
      | Some r \<Rightarrow> if may_read_key u r then (Some token, change_rule k (\<lambda>r. r\<lparr>er_key := token\<rparr>) w) else (None, w))"

definition toggle_rule :: "eda_user \<Rightarrow> pk \<Rightarrow> bool \<Rightarrow> eda_world \<Rightarrow> bool option \<times> eda_world" where
  "toggle_rule u k enable w =
     (case find_rule k w of
        None \<Rightarrow> (None, w)
      | Some r \<Rightarrow> if may_read_key u r then (Some enable, change_rule k (\<lambda>r. r\<lparr>er_enabled := enable\<rparr>) w) else (None, w))"

text \<open>A dry run on a sample: whether the conditions match, with their results, and whether the rule would fire.\<close>

definition rule_test ::
  "eda_env \<Rightarrow> rat \<Rightarrow> event_rule \<Rightarrow> json \<Rightarrow> (string \<times> string) list \<Rightarrow> (bool \<times> condition_result list \<times> bool) option" where
  "rule_test env now r payload headers =
     (case evaluate_conditions env (er_conditions r) payload headers of
        None \<Rightarrow> None
      | Some (matched, results) \<Rightarrow> Some (matched, results, matched \<and> \<not> is_throttled now r))"

section \<open>Who may aim a rule\<close>

text \<open>\<open>EventRuleAccess.can_use_targets\<close>: \<open>may\<close> answers for an existing target whether the user may use it.\<close>

definition can_use_targets :: "(string \<Rightarrow> pk \<Rightarrow> bool option) \<Rightarrow> action_config list \<Rightarrow> bool" where
  "can_use_targets may actions \<longleftrightarrow>
     list_all (\<lambda>a. if ac_type a \<in> {''launch_job_template'', ''launch_workflow'', ''send_notification''} \<and> ac_target a \<noteq> 0
                   then may (ac_type a) (ac_target a) = Some True else True) actions"

end
