(* ===== verification/Event_Correct.thy ===== *)
theory Event_Correct
  imports Event_Rules
begin

text \<open>
  The properties of event rules: which requests are accepted, when an event fires and how far apart the
  firings of a rule are; and a run in which two evaluations overlap.
\<close>

section \<open>Changes of rows\<close>

lemma find_map:
  assumes "\<And>x. P (f x) = P x"
  shows "find P (map f xs) = map_option f (find P xs)"
  using assms by (induction xs) auto

lemma find_log_id: "find_log i w = Some l \<Longrightarrow> el_id l = i"
  by (auto simp: find_log_def find_Some_iff)

lemma find_rule_id: "find_rule i w = Some r \<Longrightarrow> er_id r = i"
  by (auto simp: find_rule_def find_Some_iff)

lemma find_log_change:
  assumes "\<And>l. el_id (f l) = el_id l"
  shows "find_log i (change_log j f w) = (if i = j then map_option f (find_log i w) else find_log i w)"
proof -
  have "find_log i (change_log j f w) = map_option (\<lambda>l. if el_id l = j then f l else l) (find_log i w)"
    unfolding find_log_def change_log_def using assms by (simp add: find_map)
  also have "\<dots> = (if i = j then map_option f (find_log i w) else find_log i w)"
  proof (cases "find_log i w")
    case (Some x)
    from find_log_id [OF this] Some show ?thesis by auto
  qed auto
  finally show ?thesis .
qed

lemma find_rule_change:
  assumes "\<And>r. er_id (f r) = er_id r"
  shows "find_rule i (change_rule j f w) = (if i = j then map_option f (find_rule i w) else find_rule i w)"
proof -
  have "find_rule i (change_rule j f w) = map_option (\<lambda>r. if er_id r = j then f r else r) (find_rule i w)"
    unfolding find_rule_def change_rule_def using assms by (simp add: find_map)
  also have "\<dots> = (if i = j then map_option f (find_rule i w) else find_rule i w)"
  proof (cases "find_rule i w")
    case (Some x)
    from find_rule_id [OF this] Some show ?thesis by auto
  qed auto
  finally show ?thesis .
qed

lemma change_simps [simp]:
  "ew_rules (change_log i f w) = ew_rules w" "ew_store (change_log i f w) = ew_store w"
  "ew_sent (change_log i f w) = ew_sent w" "ew_audit (change_log i f w) = ew_audit w"
  "ew_queue (change_log i f w) = ew_queue w" "ew_next_log (change_log i f w) = ew_next_log w"
  "ew_logs (change_rule i g w) = ew_logs w" "ew_store (change_rule i g w) = ew_store w"
  "ew_sent (change_rule i g w) = ew_sent w" "ew_audit (change_rule i g w) = ew_audit w"
  "ew_queue (change_rule i g w) = ew_queue w"
  by (simp_all add: change_log_def change_rule_def)

lemma finds_of [simp]:
  "find_rule i (change_log j f w) = find_rule i w" "find_log i (change_rule j g w) = find_log i w"
  "find_rule i (w\<lparr>ew_audit := a\<rparr>) = find_rule i w" "find_log i (w\<lparr>ew_audit := a\<rparr>) = find_log i w"
  by (simp_all add: find_rule_def find_log_def)

text \<open>Actions change jobs and messages only.\<close>

lemma execute_action_keeps:
  "ew_rules (snd (execute_action env r l a w)) = ew_rules w" "ew_logs (snd (execute_action env r l a w)) = ew_logs w"
  "ew_audit (snd (execute_action env r l a w)) = ew_audit w" "ar_type (fst (execute_action env r l a w)) = ac_type a"
  "ar_target (fst (execute_action env r l a w)) = ac_target a"
  by (simp_all add: execute_action_def Let_def case_prod_beta)

lemma execute_actions_keeps:
  "ew_rules (snd (execute_actions env r l as w)) = ew_rules w" "ew_logs (snd (execute_actions env r l as w)) = ew_logs w"
  "map ar_type (fst (execute_actions env r l as w)) = map ac_type as"
  "map ar_target (fst (execute_actions env r l as w)) = map ac_target as"
proof -
  have "ew_rules (snd (execute_actions env r l as w)) = ew_rules w \<and> ew_logs (snd (execute_actions env r l as w)) = ew_logs w \<and>
    map ar_type (fst (execute_actions env r l as w)) = map ac_type as \<and>
    map ar_target (fst (execute_actions env r l as w)) = map ac_target as"
    by (induction "as" arbitrary: w) (simp_all add: case_prod_beta Let_def execute_action_keeps)
  then show "ew_rules (snd (execute_actions env r l as w)) = ew_rules w"
    "ew_logs (snd (execute_actions env r l as w)) = ew_logs w"
    "map ar_type (fst (execute_actions env r l as w)) = map ac_type as"
    "map ar_target (fst (execute_actions env r l as w)) = map ac_target as" by simp_all
qed

section \<open>When an event fires\<close>

definition condition_holds :: "eda_env \<Rightarrow> event_log \<Rightarrow> json \<Rightarrow> bool" where
  "condition_holds env l c \<longleftrightarrow> (\<exists>d out. c = JObj d \<and>
     ee_render env (condition_template env (dict_get d ''jinja2_expression'' (JStr []))) (el_payload l) (el_headers l) = Inr out \<and>
     strip out = ''__TRUE__'')"

definition fires :: "eda_env \<Rightarrow> rat \<Rightarrow> event_rule \<Rightarrow> event_log \<Rightarrow> bool" where
  "fires env now r l \<longleftrightarrow> er_enabled r \<and> \<not> is_throttled now r \<and> (\<forall>c \<in> set (er_conditions r). condition_holds env l c)"

lemma evaluate_all_true:
  "(\<exists>rs. evaluate_all env (el_payload l) (el_headers l) cs = Some rs \<and> list_all cr_matched rs) \<longleftrightarrow>
    (\<forall>c \<in> set cs. condition_holds env l c)"
  by (induction cs) (auto simp: evaluate_condition_def condition_holds_def split: json.split sum.split)

lemma conditions_true:
  "(\<exists>rs. evaluate_conditions env cs (el_payload l) (el_headers l) = Some (True, rs)) \<longleftrightarrow> (\<forall>c \<in> set cs. condition_holds env l c)"
  using evaluate_all_true [of env l cs] by (auto simp: evaluate_conditions_def)

lemma begin_fires:
  assumes "find_log i w = Some l" and "el_rule l = Some k" and "find_rule k w = Some r"
  shows "fst (begin_evaluation env now i w) = (if fires env now r l then Some (r, l) else None)"
    and "fires env now r l \<Longrightarrow> \<exists>rs. snd (begin_evaluation env now i w) =
      change_log i (\<lambda>l. l\<lparr>el_matched := True, el_conditions := rs, el_status := Matched\<rparr>) w"
    and "\<not> fires env now r l \<Longrightarrow> \<exists>f. snd (begin_evaluation env now i w) = change_log i f w \<and>
      (\<forall>x. el_id (f x) = el_id x \<and> el_status (f x) \<in> {Unmatched, Throttled, EventError})"
proof -
  note c = conditions_true [of env "er_conditions r" l]
  show "fst (begin_evaluation env now i w) = (if fires env now r l then Some (r, l) else None)"
    using c assms by (auto simp: begin_evaluation_def fires_def finish_with_def split: option.split)
  show "fires env now r l \<Longrightarrow> \<exists>rs. snd (begin_evaluation env now i w) =
      change_log i (\<lambda>l. l\<lparr>el_matched := True, el_conditions := rs, el_status := Matched\<rparr>) w"
    using c assms by (auto simp: begin_evaluation_def fires_def)
  show "\<not> fires env now r l \<Longrightarrow> \<exists>f. snd (begin_evaluation env now i w) = change_log i f w \<and>
      (\<forall>x. el_id (f x) = el_id x \<and> el_status (f x) \<in> {Unmatched, Throttled, EventError})"
  proof -
    assume "\<not> fires env now r l"
    then consider (off) "\<not> er_enabled r" | (throttled) "er_enabled r" "is_throttled now r"
      | (error) "er_enabled r" "\<not> is_throttled now r" "evaluate_conditions env (er_conditions r) (el_payload l) (el_headers l) = None"
      | (no) rs where "er_enabled r" "\<not> is_throttled now r"
          "evaluate_conditions env (er_conditions r) (el_payload l) (el_headers l) = Some (False, rs)"
      using c by (cases "evaluate_conditions env (er_conditions r) (el_payload l) (el_headers l)") (auto simp: fires_def)
    then show ?thesis
    proof cases
      case off
      then show ?thesis using assms
        by (intro exI [of _ "\<lambda>l. l\<lparr>el_status := Unmatched, el_error := ''Rule is disabled''\<rparr>"])
          (simp add: begin_evaluation_def finish_with_def)
    next
      case throttled
      then show ?thesis using assms
        by (intro exI [of _ "\<lambda>l. l\<lparr>el_status := Throttled\<rparr>"]) (simp add: begin_evaluation_def)
    next
      case error
      then show ?thesis using assms
        by (intro exI [of _ "\<lambda>l. l\<lparr>el_status := EventError, el_error := ''Condition evaluation error''\<rparr>"])
          (simp add: begin_evaluation_def finish_with_def)
    next
      case no
      then show ?thesis using assms
        by (intro exI [of _ "\<lambda>l. l\<lparr>el_matched := False, el_conditions := rs, el_status := Unmatched\<rparr>"])
          (simp add: begin_evaluation_def)
    qed
  qed
qed

text \<open>The row of a log after its actions, and the row of its rule.\<close>

lemma finish_rows:
  assumes "find_log (el_id l) w = Some x" and "find_rule (er_id r) w = Some y"
    and xs_def: "xs = fst (execute_actions env r l (er_actions r) w)"
  shows "find_log (el_id l) (finish_evaluation env now (r, l) w) = Some (x\<lparr>el_actions := xs,
      el_status := (if list_all ar_success xs then ActionFired else ActionFailed), el_job := last_job xs (el_job l)\<rparr>)"
    and "find_rule (er_id r) (finish_evaluation env now (r, l) w) = Some (record_firing now y)"
    and "k \<noteq> er_id r \<Longrightarrow> find_rule k (finish_evaluation env now (r, l) w) = find_rule k w"
    and "i \<noteq> el_id l \<Longrightarrow> find_log i (finish_evaluation env now (r, l) w) = find_log i w"
proof -
  let ?w1 = "snd (execute_actions env r l (er_actions r) w)"
  have keep: "find_log i ?w1 = find_log i w" "find_rule k ?w1 = find_rule k w" for i k
    by (simp_all add: find_log_def find_rule_def execute_actions_keeps)
  show "find_log (el_id l) (finish_evaluation env now (r, l) w) = Some (x\<lparr>el_actions := xs,
      el_status := (if list_all ar_success xs then ActionFired else ActionFailed), el_job := last_job xs (el_job l)\<rparr>)"
    using assms(1) keep by (simp add: finish_evaluation_def Let_def case_prod_beta find_log_change xs_def)
  show "find_rule (er_id r) (finish_evaluation env now (r, l) w) = Some (record_firing now y)"
    using assms(2) keep by (simp add: finish_evaluation_def Let_def case_prod_beta find_rule_change record_firing_def)
  show "k \<noteq> er_id r \<Longrightarrow> find_rule k (finish_evaluation env now (r, l) w) = find_rule k w"
    using keep by (simp add: finish_evaluation_def Let_def case_prod_beta find_rule_change record_firing_def)
  show "i \<noteq> el_id l \<Longrightarrow> find_log i (finish_evaluation env now (r, l) w) = find_log i w"
    using keep by (simp add: finish_evaluation_def Let_def case_prod_beta find_log_change)
qed

section \<open>The evaluation\<close>

lemma evaluate_fires:
  assumes "find_log i w = Some l" and "el_rule l = Some k" and "find_rule k w = Some r" and "fires env now r l"
  obtains l' where "find_log i (evaluate_event_rule env now i w) = Some l'"
    and "find_rule k (evaluate_event_rule env now i w) = Some (record_firing now r)"
    and "map ar_type (el_actions l') = map ac_type (er_actions r)" and "map ar_target (el_actions l') = map ac_target (er_actions r)"
    and "el_status l' = (if list_all ar_success (el_actions l') then ActionFired else ActionFailed)"
    and "\<And>j. j \<noteq> i \<Longrightarrow> find_log j (evaluate_event_rule env now i w) = find_log j w"
proof -
  note ids = find_log_id [OF assms(1)] find_rule_id [OF assms(3)]
  obtain rs where w1: "begin_evaluation env now i w = (Some (r, l),
      change_log i (\<lambda>l. l\<lparr>el_matched := True, el_conditions := rs, el_status := Matched\<rparr>) w)"
    using begin_fires(1,2) [OF assms(1-3), of env now] assms(4) by (metis prod.collapse)
  let ?w1 = "change_log i (\<lambda>l. l\<lparr>el_matched := True, el_conditions := rs, el_status := Matched\<rparr>) w"
  have rows: "find_log (el_id l) ?w1 = Some (l\<lparr>el_matched := True, el_conditions := rs, el_status := Matched\<rparr>)"
    "find_rule (er_id r) ?w1 = Some r" using assms ids by (simp_all add: find_log_change)
  have run: "evaluate_event_rule env now i w = finish_evaluation env now (r, l) ?w1"
    by (simp add: evaluate_event_rule_def w1)
  note f = finish_rows [where env = env and now = now, OF rows refl]
  show thesis
  proof (rule that)
    show "find_log i (evaluate_event_rule env now i w) = Some (l\<lparr>el_matched := True, el_conditions := rs, el_status :=
        (if list_all ar_success (fst (execute_actions env r l (er_actions r) ?w1)) then ActionFired else ActionFailed),
        el_actions := fst (execute_actions env r l (er_actions r) ?w1),
        el_job := last_job (fst (execute_actions env r l (er_actions r) ?w1)) (el_job l)\<rparr>)"
      using f(1) ids by (simp add: run)
    show "find_rule k (evaluate_event_rule env now i w) = Some (record_firing now r)" using f(2) ids by (simp add: run)
    show "find_log j (evaluate_event_rule env now i w) = find_log j w" if "j \<noteq> i" for j
      using f(4) [of j] that ids by (simp add: run find_log_change)
  qed (simp_all add: execute_actions_keeps)
qed

text \<open>
  C17. An event fires exactly if its rule is enabled, not throttled, and all its conditions render as true. Then
  every action of the rule is tried once, in order, also after one that fails, and the log tells whether all went well;
  the rule records the firing. Otherwise no job is created, nothing is sent and the rule is unchanged.
\<close>

theorem event_evaluation_exact:
  assumes "find_log i w = Some l" and "el_rule l = Some k" and "find_rule k w = Some r"
  shows "(fires env now r l \<longrightarrow> (\<exists>l'. find_log i (evaluate_event_rule env now i w) = Some l' \<and>
      map ar_type (el_actions l') = map ac_type (er_actions r) \<and> map ar_target (el_actions l') = map ac_target (er_actions r) \<and>
      el_status l' = (if list_all ar_success (el_actions l') then ActionFired else ActionFailed) \<and>
      find_rule k (evaluate_event_rule env now i w) = Some (record_firing now r))) \<and>
    (\<not> fires env now r l \<longrightarrow> (\<exists>l'. find_log i (evaluate_event_rule env now i w) = Some l' \<and>
      el_status l' \<in> {Unmatched, Throttled, EventError} \<and> ew_rules (evaluate_event_rule env now i w) = ew_rules w \<and>
      ew_store (evaluate_event_rule env now i w) = ew_store w \<and> ew_sent (evaluate_event_rule env now i w) = ew_sent w))"
proof (rule conjI; rule impI)
  assume "fires env now r l"
  from evaluate_fires [OF assms this] show "\<exists>l'. find_log i (evaluate_event_rule env now i w) = Some l' \<and>
      map ar_type (el_actions l') = map ac_type (er_actions r) \<and> map ar_target (el_actions l') = map ac_target (er_actions r) \<and>
      el_status l' = (if list_all ar_success (el_actions l') then ActionFired else ActionFailed) \<and>
      find_rule k (evaluate_event_rule env now i w) = Some (record_firing now r)" by metis
next
  assume no: "\<not> fires env now r l"
  then obtain f where f: "snd (begin_evaluation env now i w) = change_log i f w"
    "\<forall>x. el_id (f x) = el_id x \<and> el_status (f x) \<in> {Unmatched, Throttled, EventError}"
    using begin_fires(3) [OF assms] by metis
  have "fst (begin_evaluation env now i w) = None" using begin_fires(1) [OF assms] no by simp
  then have "evaluate_event_rule env now i w = change_log i f w"
    using f(1) by (cases "begin_evaluation env now i w") (simp add: evaluate_event_rule_def)
  with f(2) assms(1) show "\<exists>l'. find_log i (evaluate_event_rule env now i w) = Some l' \<and>
      el_status l' \<in> {Unmatched, Throttled, EventError} \<and> ew_rules (evaluate_event_rule env now i w) = ew_rules w \<and>
      ew_store (evaluate_event_rule env now i w) = ew_store w \<and> ew_sent (evaluate_event_rule env now i w) = ew_sent w"
    by (simp add: find_log_change)
qed

section \<open>Throttling\<close>

lemma event_rules_unless_fired:
  assumes "find_log i w = Some l" and "el_rule l = Some k" and "find_rule k w = Some r" and "\<not> fires env now r l"
  shows "ew_rules (evaluate_event_rule env now i w) = ew_rules w"
proof -
  obtain f where f: "snd (begin_evaluation env now i w) = change_log i f w"
    using begin_fires(3) [OF assms] by metis
  have "fst (begin_evaluation env now i w) = None" using begin_fires(1) [OF assms(1-3)] assms(4) by simp
  with f show ?thesis by (cases "begin_evaluation env now i w") (simp add: evaluate_event_rule_def)
qed

lemma evaluate_other_rule:
  assumes "find_log i w = Some l" and "el_rule l = Some k'" and "find_rule k' w = Some r" and "k \<noteq> k'"
  shows "find_rule k (evaluate_event_rule env now i w) = find_rule k w"
proof (cases "fires env now r l")
  case True
  obtain rs where a: "begin_evaluation env now i w = (Some (r, l),
      change_log i (\<lambda>l. l\<lparr>el_matched := True, el_conditions := rs, el_status := Matched\<rparr>) w)"
    using begin_fires(1,2) [OF assms(1-3), of env now] True by (metis prod.collapse)
  have "find_rule k (change_rule k' (record_firing now) v) = find_rule k v" for v
    using assms(4) by (simp add: find_rule_change record_firing_def)
  moreover have "find_rule k (snd (execute_actions env r l (er_actions r) v)) = find_rule k v" for v
    by (simp add: find_rule_def execute_actions_keeps)
  ultimately show ?thesis
    using find_rule_id [OF assms(3)] a
    by (simp add: evaluate_event_rule_def finish_evaluation_def Let_def case_prod_beta)
next
  case False
  from event_rules_unless_fired [OF assms(1-3) this] show ?thesis by (simp add: find_rule_def)
qed

lemma evaluate_rule_effect:
  assumes "find_rule k w = Some r"
  shows "find_rule k (evaluate_event_rule env now i w) = Some r \<or>
    (find_rule k (evaluate_event_rule env now i w) = Some (record_firing now r) \<and> \<not> is_throttled now r)"
proof (cases "find_log i w")
  case None
  then show ?thesis using assms by (simp add: evaluate_event_rule_def begin_evaluation_def)
next
  case (Some l)
  show ?thesis
  proof (cases "case el_rule l of None \<Rightarrow> None | Some k' \<Rightarrow> find_rule k' w")
    case None
    then show ?thesis using assms Some
      by (simp add: evaluate_event_rule_def begin_evaluation_def finish_with_def)
  next
    case (Some r')
    then obtain k' where k': "el_rule l = Some k'" "find_rule k' w = Some r'" by (auto split: option.splits)
    show ?thesis
    proof (cases "fires env now r' l")
      case False
      then have "ew_rules (evaluate_event_rule env now i w) = ew_rules w"
        using event_rules_unless_fired [OF \<open>find_log i w = Some l\<close> k'] by blast
      then show ?thesis using assms by (simp add: find_rule_def)
    next
      case True
      show ?thesis
      proof (cases "k = k'")
        case True
        with k' assms have "r' = r" by simp
        with \<open>fires env now r' l\<close> evaluate_fires [OF \<open>find_log i w = Some l\<close> k' \<open>fires env now r' l\<close>] True
        show ?thesis by (auto simp: fires_def)
      next
        case False
        then show ?thesis using evaluate_other_rule [OF \<open>find_log i w = Some l\<close> k' False] assms by simp
      qed
    qed
  qed
qed

text \<open>The times at which a rule fires in a series of evaluations.\<close>

fun firings :: "eda_env \<Rightarrow> pk \<Rightarrow> (rat \<times> pk) list \<Rightarrow> eda_world \<Rightarrow> rat list" where
  "firings env k [] w = []"
| "firings env k ((now, i) # es) w =
     (let w' = evaluate_event_rule env now i w
      in (if map_option er_fire_count (find_rule k w') = map_option er_fire_count (find_rule k w) then [] else [now]) @
         firings env k es w')"

lemma firings_after:
  assumes "find_rule k w = Some r" and "0 < er_throttle_seconds r"
  shows "sorted_wrt (\<lambda>s t. of_nat (er_throttle_seconds r) \<le> t - s) (firings env k es w) \<and>
    (\<forall>t \<in> set (firings env k es w). \<forall>s. er_last_fired r = Some s \<longrightarrow> of_nat (er_throttle_seconds r) \<le> t - s)"
  using assms
proof (induction es arbitrary: w r)
  case (Cons e es)
  obtain now i where e: "e = (now, i)" by fastforce
  let ?w = "evaluate_event_rule env now i w" and ?T = "of_nat (er_throttle_seconds r) :: rat"
  from evaluate_rule_effect [OF Cons.prems(1), of env now i] show ?case
  proof
    assume same: "find_rule k ?w = Some r"
    with Cons.IH [OF same Cons.prems(2)] Cons.prems(1) show ?thesis by (simp add: e Let_def)
  next
    assume fired: "find_rule k ?w = Some (record_firing now r) \<and> \<not> is_throttled now r"
    then have IH: "sorted_wrt (\<lambda>s t. ?T \<le> t - s) (firings env k es ?w)" "\<forall>t \<in> set (firings env k es ?w). ?T \<le> t - now"
      using Cons.IH [of ?w "record_firing now r"] Cons.prems(2) by (simp_all add: record_firing_def)
    have now: "?T \<le> now - s" if "er_last_fired r = Some s" for s
      using fired that Cons.prems(2) by (simp add: is_throttled_def not_less)
    have "?T \<le> t - s" if "er_last_fired r = Some s" "t \<in> set (firings env k es ?w)" for s t
    proof -
      have "?T \<le> now - s" "?T \<le> t - now" using now that IH(2) by auto
      moreover have "0 \<le> ?T" by simp
      ultimately show ?thesis by linarith
    qed
    with IH now fired Cons.prems(1) show ?thesis by (auto simp: e Let_def record_firing_def)
  qed
qed simp

text \<open>
  If evaluations do not overlap, any two firings of a rule are at least \<open>throttle_seconds\<close> apart, whatever
  events arrive and in whatever order they are evaluated.
\<close>

theorem firings_throttled:
  assumes "find_rule k w = Some r" and "0 < er_throttle_seconds r"
  shows "sorted_wrt (\<lambda>s t. of_nat (er_throttle_seconds r) \<le> t - s) (firings env k es w)"
  using firings_after [OF assms] by blast

text \<open>
  Overlapping evaluations ignore the limit. If two events of a rule are both checked before the actions of the
  first are done, as two workers may do, both fire, at the same time, however long the rule should wait.
\<close>

theorem overlapping_evaluations_ignore_throttle:
  assumes "find_log i w = Some l" and "find_log j w = Some m" and "i \<noteq> j" and "el_rule l = Some k" and "el_rule m = Some k"
    and "find_rule k w = Some r" and "fires env now r l" and "fires env now r m"
  shows "\<exists>x y w1 w2. begin_evaluation env now i w = (Some x, w1) \<and> begin_evaluation env now j w1 = (Some y, w2) \<and>
    map_option er_fire_count (find_rule k (finish_evaluation env now y (finish_evaluation env now x w2))) =
      Some (er_fire_count r + 2)"
proof -
  obtain rs where a: "begin_evaluation env now i w = (Some (r, l),
      change_log i (\<lambda>l. l\<lparr>el_matched := True, el_conditions := rs, el_status := Matched\<rparr>) w)"
    using begin_fires(1,2) [OF assms(1,4,6), of env now] assms(7) by (metis prod.collapse)
  let ?w1 = "change_log i (\<lambda>l. l\<lparr>el_matched := True, el_conditions := rs, el_status := Matched\<rparr>) w"
  have m: "find_log j ?w1 = Some m" "find_rule k ?w1 = Some r" using assms by (simp_all add: find_log_change)
  obtain rs' where b: "begin_evaluation env now j ?w1 = (Some (r, m),
      change_log j (\<lambda>l. l\<lparr>el_matched := True, el_conditions := rs', el_status := Matched\<rparr>) ?w1)"
    using begin_fires(1,2) [OF m(1) assms(5) m(2), of env now] assms(8) by (metis prod.collapse)
  let ?w2 = "change_log j (\<lambda>l. l\<lparr>el_matched := True, el_conditions := rs', el_status := Matched\<rparr>) ?w1"
  have ids: "el_id l = i" "el_id m = j" "er_id r = k"
    using find_log_id [OF assms(1)] find_log_id [OF assms(2)] find_rule_id [OF assms(6)] by simp_all
  have l2: "find_log (el_id l) ?w2 \<noteq> None" "find_log (el_id m) ?w2 \<noteq> None" "find_rule (er_id r) ?w2 = Some r"
    using assms ids by (simp_all add: find_log_change)
  then obtain l' m' where l': "find_log (el_id l) ?w2 = Some l'" and m': "find_log (el_id m) ?w2 = Some m'" by blast
  note f = finish_rows [where env = env and now = now, OF l' l2(3) refl]
  have "find_log (el_id m) (finish_evaluation env now (r, l) ?w2) = Some m'" using f(4) m' ids assms(3) by simp
  note g = finish_rows(2) [where env = env and now = now, OF this f(2) refl]
  show ?thesis
    by (rule exI [of _ "(r, l)"], rule exI [of _ "(r, m)"], rule exI [of _ ?w1], rule exI [of _ ?w2])
      (use a b g ids in \<open>simp add: record_firing_def\<close>)
qed

section \<open>The receiver\<close>

text \<open>The headers by their names in the request.\<close>

lemma map_of_concat_options:
  assumes "inj_on f (set ks)" and "k \<in> set ks"
  shows "map_of (concat (map (\<lambda>k. case m k of None \<Rightarrow> [] | Some v \<Rightarrow> [(f k, v)]) ks)) (f k) = m k"
  using assms
proof (induction ks)
  case (Cons a ks)
  have no: "map_of (concat (map (\<lambda>k. case m k of None \<Rightarrow> [] | Some v \<Rightarrow> [(f k, v)]) ks)) (f a) = None"
    if "f a \<notin> f ` set ks" using that
    by (induction ks) (auto split: option.split)
  show ?case
  proof (cases "k \<in> set ks")
    case True
    then have "map_of (concat (map (\<lambda>k. case m k of None \<Rightarrow> [] | Some v \<Rightarrow> [(f k, v)]) ks)) (f k) = m k"
      using Cons by (simp add: inj_on_def)
    moreover have "f k = f a \<Longrightarrow> k = a" using Cons.prems(1) True by (auto simp: inj_on_def)
    ultimately show ?thesis by (auto split: option.split)
  next
    case False
    with Cons.prems have k: "k = a" "f a \<notin> f ` set ks" by (auto simp: inj_on_def)
    with no [OF k(2)] show ?thesis by (auto simp: map_add_def split: option.split)
  qed
qed simp

lemma header_name_eqs [simp]:
  "header_name ''HTTP_X_HUB_SIGNATURE'' = ''X-Hub-Signature''"
  "header_name ''HTTP_X_HUB_SIGNATURE_256'' = ''X-Hub-Signature-256''"
  "header_name ''HTTP_X_GITLAB_TOKEN'' = ''X-Gitlab-Token''"
  "header_name ''HTTP_X_GITLAB_EVENT'' = ''X-Gitlab-Event''"
  "header_name ''HTTP_X_GITHUB_EVENT'' = ''X-Github-Event''"
  "header_name ''HTTP_X_GITHUB_DELIVERY'' = ''X-Github-Delivery''"
  "header_name ''HTTP_X_FORAIL_SIGNATURE'' = ''X-Forail-Signature''"
  "header_name ''CONTENT_TYPE'' = ''Content-Type''"
  "header_name ''HTTP_X_REQUEST_ID'' = ''X-Request-Id''"
  "header_name ''HTTP_X_FORWARDED_FOR'' = ''X-Forwarded-For''"
  by (simp_all add: header_name_def startswith_def is_letter_def lower_char_def upper_case_def char_of_def bit_0)
lemma header_names: "distinct (map header_name relevant_keys)"
  by (simp add: relevant_keys_def)

lemma relevant_header:
  assumes "k \<in> set relevant_keys"
  shows "map_of (relevant_headers meta) (header_name k) = map_of meta k"
proof -
  have "inj_on header_name (set relevant_keys)" using header_names by (simp add: distinct_map)
  from map_of_concat_options [OF this assms, of "map_of meta"] show ?thesis by (simp add: relevant_headers_def)
qed

lemma relevant_get:
  "dict_get (relevant_headers meta) ''X-Hub-Signature-256'' [] = dict_get meta ''HTTP_X_HUB_SIGNATURE_256'' []"
  "dict_get (relevant_headers meta) ''X-Hub-Signature'' [] = dict_get meta ''HTTP_X_HUB_SIGNATURE'' []"
  "dict_get (relevant_headers meta) ''X-Gitlab-Token'' [] = dict_get meta ''HTTP_X_GITLAB_TOKEN'' []"
  "dict_get (relevant_headers meta) ''X-Forail-Signature'' [] = dict_get meta ''HTTP_X_FORAIL_SIGNATURE'' []"
proof -
  have "map_of (relevant_headers meta) (header_name k) = map_of meta k"
    if "k \<in> {''HTTP_X_HUB_SIGNATURE_256'', ''HTTP_X_HUB_SIGNATURE'', ''HTTP_X_GITLAB_TOKEN'', ''HTTP_X_FORAIL_SIGNATURE''}" for k
    using that by (intro relevant_header) (auto simp: relevant_keys_def)
  note h = this [of "''HTTP_X_HUB_SIGNATURE_256''"] this [of "''HTTP_X_HUB_SIGNATURE''"]
    this [of "''HTTP_X_GITLAB_TOKEN''"] this [of "''HTTP_X_FORAIL_SIGNATURE''"]
  show "dict_get (relevant_headers meta) ''X-Hub-Signature-256'' [] = dict_get meta ''HTTP_X_HUB_SIGNATURE_256'' []"
    and "dict_get (relevant_headers meta) ''X-Hub-Signature'' [] = dict_get meta ''HTTP_X_HUB_SIGNATURE'' []"
    and "dict_get (relevant_headers meta) ''X-Gitlab-Token'' [] = dict_get meta ''HTTP_X_GITLAB_TOKEN'' []"
    and "dict_get (relevant_headers meta) ''X-Forail-Signature'' [] = dict_get meta ''HTTP_X_FORAIL_SIGNATURE'' []"
    using h by (simp_all add: dict_get_def)
qed

text \<open>A request that shows knowledge of the key: its token is the key, or its signature is the digest of its body.\<close>

definition carries_digest :: "string \<Rightarrow> string \<Rightarrow> bool" where
  "carries_digest header digest \<longleftrightarrow> header = digest \<or> (\<exists>alg. CHR ''='' \<notin> set alg \<and> header = alg @ ''='' @ digest)"

definition authentic :: "eda_env \<Rightarrow> event_rule \<Rightarrow> webhook_request \<Rightarrow> bool" where
  "authentic env r q \<longleftrightarrow> er_key r \<noteq> [] \<and>
     (case er_source r of
        GitLab \<Rightarrow> map_of (wr_meta q) ''HTTP_X_GITLAB_TOKEN'' = Some (er_key r)
      | GitHub \<Rightarrow> (\<exists>alg header. header \<in> {''HTTP_X_HUB_SIGNATURE_256'', ''HTTP_X_HUB_SIGNATURE''} \<and> CHR ''='' \<notin> set alg \<and>
          map_of (wr_meta q) header =
            Some (alg @ ''='' @ ee_hmac env (if alg = ''sha256'' then ''sha256'' else ''sha1'') (er_key r) (wr_body q)))
      | _ \<Rightarrow> (\<exists>header. map_of (wr_meta q) ''HTTP_X_FORAIL_SIGNATURE'' = Some header \<and>
          carries_digest header (ee_hmac env ''sha256'' (er_key r) (wr_body q))))"

lemma split_signature_eq:
  assumes "CHR ''='' \<in> set s"
  shows "s = fst (split_signature s) @ ''='' @ snd (split_signature s)" and "CHR ''='' \<notin> set (fst (split_signature s))"
proof -
  have "dropWhile (\<lambda>c. c \<noteq> CHR ''='') s \<noteq> []" using assms by simp
  then obtain d where d: "dropWhile (\<lambda>c. c \<noteq> CHR ''='') s = CHR ''='' # d"
    using hd_dropWhile [of "\<lambda>c. c \<noteq> CHR ''=''" s] by (cases "dropWhile (\<lambda>c. c \<noteq> CHR ''='') s") auto
  then show "s = fst (split_signature s) @ ''='' @ snd (split_signature s)"
    using takeWhile_dropWhile_id [of "\<lambda>c. c \<noteq> CHR ''=''" s] by (simp add: split_signature_def)
  show "CHR ''='' \<notin> set (fst (split_signature s))" by (auto simp: split_signature_def dest: set_takeWhileD)
qed

lemma dict_get_text: "dict_get d k [] = s \<Longrightarrow> s \<noteq> [] \<Longrightarrow> map_of d k = Some s"
  by (auto simp: dict_get_def split: option.splits)

lemma signature_authentic:
  assumes "check_signature env r (wr_body q) (relevant_headers (wr_meta q)) = Inr ()"
  shows "authentic env r q"
proof -
  have key: "er_key r \<noteq> []" using assms by (auto simp: check_signature_def split: if_splits)
  let ?m = "wr_meta q"
  consider (github) "er_source r = GitHub" | (gitlab) "er_source r = GitLab" | (generic) "er_source r \<notin> {GitHub, GitLab}" by blast
  then show ?thesis
  proof cases
    case github
    define s where "s = (if dict_get ?m ''HTTP_X_HUB_SIGNATURE_256'' [] \<noteq> [] then dict_get ?m ''HTTP_X_HUB_SIGNATURE_256'' []
      else dict_get ?m ''HTTP_X_HUB_SIGNATURE'' [])"
    have s: "s \<noteq> []" "CHR ''='' \<in> set s"
      "ee_hmac env (if fst (split_signature s) = ''sha256'' then ''sha256'' else ''sha1'') (er_key r) (wr_body q) = snd (split_signature s)"
      using assms github key
      by (auto simp: check_signature_def check_github_signature_def relevant_get s_def Let_def case_prod_beta split: if_splits)
    obtain h where h: "h \<in> {''HTTP_X_HUB_SIGNATURE_256'', ''HTTP_X_HUB_SIGNATURE''}" "map_of ?m h = Some s"
      using dict_get_text [of ?m _ s] s(1) by (auto simp: s_def split: if_splits)
    have "map_of ?m h = Some (fst (split_signature s) @ ''='' @
        ee_hmac env (if fst (split_signature s) = ''sha256'' then ''sha256'' else ''sha1'') (er_key r) (wr_body q))"
      unfolding s(3) split_signature_eq(1) [OF s(2), symmetric] by (rule h(2))
    with h(1) split_signature_eq(2) [OF s(2)]
    have "\<exists>alg header. header \<in> {''HTTP_X_HUB_SIGNATURE_256'', ''HTTP_X_HUB_SIGNATURE''} \<and> CHR ''='' \<notin> set alg \<and>
        map_of ?m header = Some (alg @ ''='' @ ee_hmac env (if alg = ''sha256'' then ''sha256'' else ''sha1'') (er_key r) (wr_body q))"
      by (intro exI [of _ "fst (split_signature s)"] exI [of _ h] conjI)
    with github key show ?thesis by (simp add: authentic_def)
  next
    case gitlab
    then have "dict_get ?m ''HTTP_X_GITLAB_TOKEN'' [] = er_key r"
      using assms key by (auto simp: check_signature_def check_gitlab_signature_def relevant_get split: if_splits)
    from dict_get_text [OF this key] gitlab key show ?thesis by (simp add: authentic_def)
  next
    case generic
    define s where "s = dict_get ?m ''HTTP_X_FORAIL_SIGNATURE'' []"
    have s: "s \<noteq> []" "ee_hmac env ''sha256'' (er_key r) (wr_body q) =
        (if CHR ''='' \<in> set s then snd (split_signature s) else s)"
      using assms generic key
      by (auto simp: check_signature_def check_generic_signature_def relevant_get s_def Let_def split: if_splits)
    have "carries_digest s (ee_hmac env ''sha256'' (er_key r) (wr_body q))"
      using split_signature_eq [of s] by (auto simp: s(2) carries_digest_def)
    with dict_get_text [OF s_def [symmetric] s(1)] generic key show ?thesis
      by (cases "er_source r") (auto simp: authentic_def)
  qed
qed

lemma receive_accepts:
  assumes "find (\<lambda>r. er_path r = wr_path q \<and> er_enabled r) (ew_rules w) = Some r"
    and "check_signature env r (wr_body q) (relevant_headers (wr_meta q)) = Inr ()"
    and "extract_event_type q (er_source r) = Some et" and "extract_event_guid env q (er_source r) = Some g"
    and "\<not> (json_true g \<and> seen_before r (py_str (ee_repr env) g) w)" and "length (wr_body q) \<le> max_payload"
    and "fits 128 et (py_str (ee_repr env) et)" and "fits 256 g (py_str (ee_repr env) g)" and "source_ip_fits env q"
  shows "receive env q w = (Queued, (add_log ((new_log r q w)\<lparr>el_event_type := py_str (ee_repr env) et,
    el_guid := py_str (ee_repr env) g\<rparr>) w)\<lparr>ew_queue := ew_queue w @ [ew_next_log w]\<rparr>)"
  using assms by (simp add: receive_def Let_def)

lemma receive_queued:
  assumes "fst (receive env q w) = Queued"
  obtains r l where "find (\<lambda>r. er_path r = wr_path q \<and> er_enabled r) (ew_rules w) = Some r"
    and "check_signature env r (wr_body q) (relevant_headers (wr_meta q)) = Inr ()" and "length (wr_body q) \<le> max_payload"
    and "snd (receive env q w) = (add_log l w)\<lparr>ew_queue := ew_queue w @ [ew_next_log w]\<rparr>"
    and "el_id l = ew_next_log w" and "el_rule l = Some (er_id r)" and "el_status l = Received" and "el_payload l = wr_data q"
    and "el_headers l = relevant_headers (wr_meta q)" and "el_organization l = er_organization r"
proof (cases "find (\<lambda>r. er_path r = wr_path q \<and> er_enabled r) (ew_rules w)")
  case None
  with assms show thesis by (simp add: receive_def)
next
  case (Some r)
  show thesis
  proof (cases "check_signature env r (wr_body q) (relevant_headers (wr_meta q))")
    case (Inl e)
    with Some assms show thesis by (simp add: receive_def Let_def split: if_splits)
  next
    case (Inr u)
    show thesis
    proof (cases "extract_event_type q (er_source r)"; cases "extract_event_guid env q (er_source r)")
      fix et g assume e: "extract_event_type q (er_source r) = Some et" "extract_event_guid env q (er_source r) = Some g"
      let ?l = "(new_log r q w)\<lparr>el_event_type := py_str (ee_repr env) et, el_guid := py_str (ee_repr env) g\<rparr>"
      have "length (wr_body q) \<le> max_payload" and
        "snd (receive env q w) = (add_log ?l w)\<lparr>ew_queue := ew_queue w @ [ew_next_log w]\<rparr>"
        using assms Some Inr e by (auto simp: receive_def Let_def split: if_splits)
      then show thesis by (intro that [of r ?l]) (use Some Inr in \<open>simp_all add: new_log_def\<close>)
    qed (use assms Some Inr in \<open>simp_all add: receive_def Let_def\<close>)
  qed
qed

lemma receive_other:
  assumes "fst (receive env q w) \<noteq> Queued"
  shows "snd (receive env q w) = w \<or>
    (\<not> ee_atomic_requests env \<and> fst (receive env q w) = Denied \<and>
      (\<exists>r reason. find (\<lambda>r. er_path r = wr_path q \<and> er_enabled r) (ew_rules w) = Some r \<and>
        check_signature env r (wr_body q) (relevant_headers (wr_meta q)) = Inl reason \<and>
        snd (receive env q w) = add_log ((new_log r q w)\<lparr>el_status := SignatureFailed, el_error := reason\<rparr>) w))"
  using assms by (auto simp: receive_def Let_def split: option.splits sum.splits if_splits)

text \<open>
  C16. Only authentic events are accepted. A request that is queued names an enabled rule and shows
  knowledge of its key; it adds one log with the status \<open>received\<close> and one evaluation. Every other
  request leaves the rows as they were, but for one case: where requests are not run in a
  transaction each, a refused signature adds one log with the status \<open>signature_failed\<close>. With
  \<open>ATOMIC_REQUESTS\<close>, which the default settings turn on, the exception that refuses the request
  takes that log back as well (against the documentation, which promises a log of every webhook).
\<close>

theorem only_authentic_events:
  "if fst (receive env q w) = Queued
    then \<exists>r l. r \<in> set (ew_rules w) \<and> er_path r = wr_path q \<and> er_enabled r \<and> authentic env r q \<and>
      length (wr_body q) \<le> max_payload \<and> el_rule l = Some (er_id r) \<and> el_status l = Received \<and> el_payload l = wr_data q \<and>
      snd (receive env q w) = w\<lparr>ew_logs := ew_logs w @ [l], ew_next_log := Suc (ew_next_log w),
        ew_queue := ew_queue w @ [el_id l]\<rparr>
    else snd (receive env q w) = w \<or>
      (ee_atomic_requests env = False \<and> fst (receive env q w) = Denied \<and>
        (\<exists>r l. r \<in> set (ew_rules w) \<and> er_path r = wr_path q \<and> er_enabled r \<and>
          check_signature env r (wr_body q) (relevant_headers (wr_meta q)) = Inl (el_error l) \<and>
          el_rule l = Some (er_id r) \<and> el_status l = SignatureFailed \<and>
          snd (receive env q w) = w\<lparr>ew_logs := ew_logs w @ [l], ew_next_log := Suc (ew_next_log w)\<rparr>))"
proof (cases "fst (receive env q w) = Queued")
  case True
  from receive_queued [OF this] obtain r l where
    q: "find (\<lambda>r. er_path r = wr_path q \<and> er_enabled r) (ew_rules w) = Some r"
      "check_signature env r (wr_body q) (relevant_headers (wr_meta q)) = Inr ()" "length (wr_body q) \<le> max_payload"
      "snd (receive env q w) = (add_log l w)\<lparr>ew_queue := ew_queue w @ [ew_next_log w]\<rparr>"
      "el_id l = ew_next_log w" "el_rule l = Some (er_id r)" "el_status l = Received" "el_payload l = wr_data q"
    and "el_headers l = relevant_headers (wr_meta q)" and "el_organization l = er_organization r" .
  have "r \<in> set (ew_rules w) \<and> er_path r = wr_path q \<and> er_enabled r" using q(1) by (auto simp: find_Some_iff)
  moreover have "authentic env r q" by (rule signature_authentic [OF q(2)])
  moreover have "snd (receive env q w) = w\<lparr>ew_logs := ew_logs w @ [l], ew_next_log := Suc (ew_next_log w),
      ew_queue := ew_queue w @ [el_id l]\<rparr>" using q(4,5) by (simp add: add_log_def)
  ultimately show ?thesis using True q(3,6,7,8) by auto
next
  case False
  from receive_other [OF this] show ?thesis
  proof
    assume "snd (receive env q w) = w"
    with False show ?thesis by simp
  next
    assume a: "\<not> ee_atomic_requests env \<and> fst (receive env q w) = Denied \<and>
      (\<exists>r reason. find (\<lambda>r. er_path r = wr_path q \<and> er_enabled r) (ew_rules w) = Some r \<and>
        check_signature env r (wr_body q) (relevant_headers (wr_meta q)) = Inl reason \<and>
        snd (receive env q w) = add_log ((new_log r q w)\<lparr>el_status := SignatureFailed, el_error := reason\<rparr>) w)"
    then obtain r reason where
      r: "find (\<lambda>r. er_path r = wr_path q \<and> er_enabled r) (ew_rules w) = Some r"
        "check_signature env r (wr_body q) (relevant_headers (wr_meta q)) = Inl reason"
        "snd (receive env q w) = add_log ((new_log r q w)\<lparr>el_status := SignatureFailed, el_error := reason\<rparr>) w"
      by blast
    have "r \<in> set (ew_rules w) \<and> er_path r = wr_path q \<and> er_enabled r" using r(1) by (auto simp: find_Some_iff)
    with a r(2,3) have "\<exists>r l. r \<in> set (ew_rules w) \<and> er_path r = wr_path q \<and> er_enabled r \<and>
          check_signature env r (wr_body q) (relevant_headers (wr_meta q)) = Inl (el_error l) \<and>
          el_rule l = Some (er_id r) \<and> el_status l = SignatureFailed \<and>
          snd (receive env q w) = w\<lparr>ew_logs := ew_logs w @ [l], ew_next_log := Suc (ew_next_log w)\<rparr>"
      by (intro exI [of _ r] exI [of _ "(new_log r q w)\<lparr>el_status := SignatureFailed, el_error := reason\<rparr>"])
        (simp add: new_log_def add_log_def)
    with a False show ?thesis by simp
  qed
qed

end
