(* ===== verification/Event_Runs.thy ===== *)
theory Event_Runs
  imports Event_Correct
begin

text \<open>
  Event rules from the request to the job: repeated events, the templates that a rule can launch, and what
  the logs show; with the examples on which the properties of event rules are applied.
\<close>

section \<open>Repeated events\<close>

text \<open>
  An event that has fired is not taken again. As long as a log of the rule with the same identifier has fired, or its
  actions are running, a request with this identifier is answered without a new log and without an evaluation.
\<close>

theorem fired_event_not_repeated:
  assumes "find (\<lambda>r. er_path r = wr_path q \<and> er_enabled r) (ew_rules w) = Some r"
    and "l \<in> set (ew_logs w)" and "el_rule l = Some (er_id r)" and "el_status l \<in> {Matched, ActionFired}"
    and "extract_event_guid env q (er_source r) = Some g" and "json_true g" and "el_guid l = py_str (ee_repr env) g"
    and "ee_atomic_requests env"
  shows "snd (receive env q w) = w"
proof -
  have "seen_before r (py_str (ee_repr env) g) w" using assms by (auto simp: seen_before_def list_ex_iff)
  then show ?thesis using assms by (simp add: receive_def Let_def split: option.split sum.split)
qed

lemma received_log:
  assumes "\<forall>l \<in> set (ew_logs w). el_id l < ew_next_log w" and "el_id l = ew_next_log w"
  shows "find_log i ((add_log l w)\<lparr>ew_queue := q\<rparr>) = (if i = el_id l then Some l else find_log i w)"
    and "find_rule k ((add_log l w)\<lparr>ew_queue := q\<rparr>) = find_rule k w"
proof -
  have "find (\<lambda>x. el_id x = i) (ls @ [l]) = (if i = el_id l then Some l else find (\<lambda>x. el_id x = i) ls)"
    if "\<forall>x \<in> set ls. el_id x < el_id l" for ls
    using that by (induction ls) auto
  from this [of "ew_logs w"] assms
  show "find_log i ((add_log l w)\<lparr>ew_queue := q\<rparr>) = (if i = el_id l then Some l else find_log i w)"
    by (simp add: find_log_def add_log_def)
  show "find_rule k ((add_log l w)\<lparr>ew_queue := q\<rparr>) = find_rule k w" by (simp add: find_rule_def add_log_def)
qed

text \<open>
  A repeated event can fire twice. If it comes again before the first one is evaluated, both are queued, and
  without a limit on its rate the rule fires for both: the identifier is only compared with events that have matched.
\<close>

theorem repeated_event_fires_twice:
  assumes "fst (receive env q w) = Queued" and "fst (receive env q (snd (receive env q w))) = Queued"
    and "\<forall>l \<in> set (ew_logs w). el_id l < ew_next_log w"
    and "find (\<lambda>r. er_path r = wr_path q \<and> er_enabled r) (ew_rules w) = Some r" and "find_rule (er_id r) w = Some r"
    and "er_throttle_seconds r = 0"
    and "\<forall>l. el_payload l = wr_data q \<and> el_headers l = relevant_headers (wr_meta q) \<longrightarrow>
      (\<forall>c \<in> set (er_conditions r). condition_holds env l c)"
  shows "map_option er_fire_count (find_rule (er_id r)
      (evaluate_event_rule env later (ew_next_log w + 1) (evaluate_event_rule env now (ew_next_log w)
        (snd (receive env q (snd (receive env q w))))))) = Some (er_fire_count r + 2)"
proof -
  let ?w1 = "snd (receive env q w)" and ?i = "ew_next_log w"
  from receive_queued [OF assms(1)] obtain r1 l where
    q1: "find (\<lambda>r. er_path r = wr_path q \<and> er_enabled r) (ew_rules w) = Some r1"
      "check_signature env r1 (wr_body q) (relevant_headers (wr_meta q)) = Inr ()" "length (wr_body q) \<le> max_payload"
      "snd (receive env q w) = (add_log l w)\<lparr>ew_queue := ew_queue w @ [ew_next_log w]\<rparr>" "el_id l = ew_next_log w"
      "el_rule l = Some (er_id r1)" "el_status l = Received" "el_payload l = wr_data q"
      "el_headers l = relevant_headers (wr_meta q)" "el_organization l = er_organization r1" .
  let ?w2 = "snd (receive env q ?w1)"
  have w1: "ew_rules ?w1 = ew_rules w" "ew_next_log ?w1 = ?i + 1" "ew_logs ?w1 = ew_logs w @ [l]" by (simp_all add: q1(4) add_log_def)
  from receive_queued [OF assms(2)] obtain r2 m where
    q2: "find (\<lambda>r. er_path r = wr_path q \<and> er_enabled r) (ew_rules ?w1) = Some r2"
      "check_signature env r2 (wr_body q) (relevant_headers (wr_meta q)) = Inr ()" "length (wr_body q) \<le> max_payload"
      "snd (receive env q ?w1) = (add_log m ?w1)\<lparr>ew_queue := ew_queue ?w1 @ [ew_next_log ?w1]\<rparr>" "el_id m = ew_next_log ?w1"
      "el_rule m = Some (er_id r2)" "el_status m = Received" "el_payload m = wr_data q"
      "el_headers m = relevant_headers (wr_meta q)" "el_organization m = er_organization r2" .
  have r: "r1 = r" "r2 = r" using q1(1) q2(1) assms(4) w1(1) by simp_all
  have fresh: "\<forall>x \<in> set (ew_logs ?w1). el_id x < ew_next_log ?w1" using assms(3) w1 q1(5) by auto
  note l1 = received_log [OF assms(3) q1(5), of _ "ew_queue w @ [?i]", folded q1(4)]
  note l2 = received_log [OF fresh q2(5), of _ "ew_queue ?w1 @ [ew_next_log ?w1]", folded q2(4)]
  have rows: "find_log ?i ?w2 = Some l" "find_log (?i + 1) ?w2 = Some m" "find_rule (er_id r) ?w2 = Some r"
    using l1 l2 q1(5) q2(5) w1(2) assms(5) by simp_all
  have not: "\<not> is_throttled t (record_firing s r)" "\<not> is_throttled t r" for s t
    using assms(6) by (auto simp: is_throttled_def record_firing_def split: option.split)
  have enabled: "er_enabled r" using assms(4) by (auto simp: find_Some_iff)
  have f1: "fires env now r l" using not enabled assms(7) q1 by (simp add: fires_def)
  have rule1: "el_rule l = Some (er_id r)" using q1(6) r by simp
  obtain w3 where w3: "w3 = evaluate_event_rule env now ?i ?w2" by simp
  from evaluate_fires [OF rows(1) rule1 rows(3) f1] have a: "find_rule (er_id r) w3 = Some (record_firing now r)"
    "find_log (?i + 1) w3 = Some m" using rows(2) by (metis w3, metis w3 n_not_Suc_n Suc_eq_plus1)
  have f2: "fires env later (record_firing now r) m"
    using not enabled assms(7) q2 by (simp add: fires_def) (simp add: record_firing_def)
  have rule2: "el_rule m = Some (er_id r)" using q2(6) r by simp
  from evaluate_fires [OF a(2) rule2 a(1) f2]
  have "find_rule (er_id r) (evaluate_event_rule env later (?i + 1) w3) = Some (record_firing later (record_firing now r))" by metis
  then show ?thesis by (simp add: w3 record_firing_def)
qed

section \<open>Whose templates\<close>

definition rule_jobs :: "job_store \<Rightarrow> job_store \<Rightarrow> new_job list" where
  "rule_jobs s s' = drop (length (st_jobs s)) (st_jobs s')"

text \<open>The templates of the jobs that a list of actions may add.\<close>

definition aimed_at :: "action_config list \<Rightarrow> (string \<times> pk) set" where
  "aimed_at as = {(ac_type a, ac_target a) | a. a \<in> set as \<and> ac_type a \<in> {''launch_job_template'', ''launch_workflow''}}"

lemma start_created_templates: "map nj_template (st_jobs (snd (start_created t i s))) = map nj_template (st_jobs s)"
  by (auto simp: start_created_def split: option.split prod.split)

lemma launch_template_jobs:
  "\<exists>js. map nj_template (st_jobs (snd (launch_template env r l a t s))) = map nj_template (st_jobs s) @ js \<and>
    set js \<subseteq> {ac_target a} \<and> (js \<noteq> [] \<longrightarrow> t \<noteq> None)"
proof (cases t)
  case None
  then show ?thesis by (simp add: launch_template_def)
next
  case (Some t')
  let ?o = "origin (ac_target a) ''webhook'' (source_name (er_source r)) (el_guid l) None"
  from create_job_cases [of "ee_tools env" t' ?o "event_vars r l (ac_extra_vars a)" s] show ?thesis
    using Some start_created_templates by (auto simp: launch_template_def origin_def)
qed

lemma execute_action_jobs:
  "\<exists>js. map nj_template (st_jobs (ew_store (snd (execute_action env r l a w)))) = map nj_template (st_jobs (ew_store w)) @ js \<and>
    (\<forall>i \<in> set js. i = ac_target a \<and> ((ac_type a = ''launch_job_template'' \<and> ee_job_template env i \<noteq> None) \<or>
      (ac_type a = ''launch_workflow'' \<and> ee_workflow_template env i \<noteq> None)))"
  using launch_template_jobs [of env r l a "if ac_type a = ''launch_job_template'' then ee_job_template env (ac_target a)
      else ee_workflow_template env (ac_target a)" "ew_store w"]
  by (fastforce simp: execute_action_def Let_def case_prod_beta)

lemma execute_actions_jobs:
  "\<exists>js. map nj_template (st_jobs (ew_store (snd (execute_actions env r l as w)))) = map nj_template (st_jobs (ew_store w)) @ js \<and>
    (\<forall>i \<in> set js. \<exists>a \<in> set as. i = ac_target a \<and> ((ac_type a = ''launch_job_template'' \<and> ee_job_template env i \<noteq> None) \<or>
      (ac_type a = ''launch_workflow'' \<and> ee_workflow_template env i \<noteq> None)))"
proof (induction "as" arbitrary: w)
  case (Cons a "as")
  obtain x w1 where x: "execute_action env r l a w = (x, w1)" by fastforce
  obtain js where js: "map nj_template (st_jobs (ew_store w1)) = map nj_template (st_jobs (ew_store w)) @ js"
    "\<forall>i \<in> set js. i = ac_target a \<and> ((ac_type a = ''launch_job_template'' \<and> ee_job_template env i \<noteq> None) \<or>
      (ac_type a = ''launch_workflow'' \<and> ee_workflow_template env i \<noteq> None))"
    using execute_action_jobs [of env r l a w] x by auto
  from Cons [of w1] obtain js' where "map nj_template (st_jobs (ew_store (snd (execute_actions env r l as w1)))) =
      map nj_template (st_jobs (ew_store w1)) @ js'"
    "\<forall>i \<in> set js'. \<exists>a \<in> set as. i = ac_target a \<and> ((ac_type a = ''launch_job_template'' \<and> ee_job_template env i \<noteq> None) \<or>
      (ac_type a = ''launch_workflow'' \<and> ee_workflow_template env i \<noteq> None))" by blast
  with js x show ?case by (intro exI [of _ "js @ js'"]) (auto simp: case_prod_beta Let_def)
qed simp

lemma evaluate_jobs:
  assumes "find_log i w = Some l" and "el_rule l = Some k" and "find_rule k w = Some r"
  shows "\<exists>js. map nj_template (st_jobs (ew_store (evaluate_event_rule env now i w))) = map nj_template (st_jobs (ew_store w)) @ js \<and>
    (\<forall>t \<in> set js. \<exists>a \<in> set (er_actions r). t = ac_target a \<and> ((ac_type a = ''launch_job_template'' \<and> ee_job_template env t \<noteq> None) \<or>
      (ac_type a = ''launch_workflow'' \<and> ee_workflow_template env t \<noteq> None)))"
proof (cases "fires env now r l")
  case True
  obtain rs where w1: "begin_evaluation env now i w = (Some (r, l),
      change_log i (\<lambda>l. l\<lparr>el_matched := True, el_conditions := rs, el_status := Matched\<rparr>) w)"
    using begin_fires(1,2) [OF assms, of env now] True by (metis prod.collapse)
  let ?w1 = "change_log i (\<lambda>l. l\<lparr>el_matched := True, el_conditions := rs, el_status := Matched\<rparr>) w"
  have "ew_store (evaluate_event_rule env now i w) = ew_store (snd (execute_actions env r l (er_actions r) ?w1))"
    by (simp add: evaluate_event_rule_def w1 finish_evaluation_def Let_def case_prod_beta)
  with execute_actions_jobs [of env r l "er_actions r" ?w1] show ?thesis by simp
next
  case False
  obtain f where f: "snd (begin_evaluation env now i w) = change_log i f w"
    using begin_fires(3) [OF assms False] by metis
  have "fst (begin_evaluation env now i w) = None" using begin_fires(1) [OF assms] False by simp
  then have "evaluate_event_rule env now i w = change_log i f w"
    using f by (cases "begin_evaluation env now i w") (simp add: evaluate_event_rule_def)
  then show ?thesis by simp
qed

text \<open>
  C32. A rule launches only what its author may start. If the access check admitted the actions that the rule has, with
  the answers for its author, every job that an evaluation adds is of a template that the author may start.
\<close>

theorem rule_launches_permitted:
  assumes "find_log i w = Some l" and "el_rule l = Some k" and "find_rule k w = Some r"
    and "can_use_targets may (er_actions r)" and "ee_job_template env 0 = None" and "ee_workflow_template env 0 = None"
  shows "\<exists>js. map nj_template (st_jobs (ew_store (evaluate_event_rule env now i w))) = map nj_template (st_jobs (ew_store w)) @ js \<and>
    (\<forall>t \<in> set js. may ''launch_job_template'' t = Some True \<or> may ''launch_workflow'' t = Some True)"
proof -
  obtain js where js: "map nj_template (st_jobs (ew_store (evaluate_event_rule env now i w))) = map nj_template (st_jobs (ew_store w)) @ js"
    "\<forall>t \<in> set js. \<exists>a \<in> set (er_actions r). t = ac_target a \<and> ((ac_type a = ''launch_job_template'' \<and> ee_job_template env t \<noteq> None) \<or>
      (ac_type a = ''launch_workflow'' \<and> ee_workflow_template env t \<noteq> None))"
    using evaluate_jobs [OF assms(1-3), of env now] by blast
  have "may ''launch_job_template'' t = Some True \<or> may ''launch_workflow'' t = Some True" if "t \<in> set js" for t
  proof -
    from js(2) that obtain a where a: "a \<in> set (er_actions r)" "t = ac_target a"
      "(ac_type a = ''launch_job_template'' \<and> ee_job_template env t \<noteq> None) \<or>
       (ac_type a = ''launch_workflow'' \<and> ee_workflow_template env t \<noteq> None)" by blast
    have "t \<noteq> 0" using a(3) assms(5,6) by (cases "t = 0") auto
    with a assms(4) show ?thesis by (auto simp: can_use_targets_def list_all_iff)
  qed
  with js(1) show ?thesis by blast
qed

section \<open>What the logs show\<close>

text \<open>
  The key of a GitLab rule is shown to all members of its organization. GitLab sends the key itself as a header, and the
  log of an accepted event keeps the header: a member who may not read the key reads it in the log.
\<close>

theorem gitlab_key_in_log:
  assumes "fst (receive env q w) = Queued"
    and "find (\<lambda>r. er_path r = wr_path q \<and> er_enabled r) (ew_rules w) = Some r" and "er_source r = GitLab"
    and "er_organization r = Some org" and "org \<in> set (us_organizations u)" and "org \<notin> set (us_admin_of u)" and "\<not> us_superuser u"
  shows "\<not> may_read_key u r \<and>
    (\<exists>l \<in> set (visible_logs u (snd (receive env q w))). map_of (el_headers l) ''X-Gitlab-Token'' = Some (er_key r))"
proof -
  from receive_queued [OF assms(1)] obtain r1 l where
    q: "find (\<lambda>r. er_path r = wr_path q \<and> er_enabled r) (ew_rules w) = Some r1"
      "check_signature env r1 (wr_body q) (relevant_headers (wr_meta q)) = Inr ()" "length (wr_body q) \<le> max_payload"
      "snd (receive env q w) = (add_log l w)\<lparr>ew_queue := ew_queue w @ [ew_next_log w]\<rparr>" "el_id l = ew_next_log w"
      "el_rule l = Some (er_id r1)" "el_status l = Received" "el_payload l = wr_data q"
      "el_headers l = relevant_headers (wr_meta q)" "el_organization l = er_organization r1" .
  have r: "r1 = r" using q(1) assms(2) by simp
  have "dict_get (relevant_headers (wr_meta q)) ''X-Gitlab-Token'' [] = er_key r" "er_key r \<noteq> []"
    using q(2) r assms(3) by (auto simp: check_signature_def check_gitlab_signature_def split: if_splits)
  from dict_get_text [OF this] have "map_of (el_headers l) ''X-Gitlab-Token'' = Some (er_key r)" by (simp add: q(9))
  moreover have "l \<in> set (visible_logs u (snd (receive env q w)))"
    using assms(4,5) q(4,10) r by (auto simp: visible_logs_def add_log_def)
  ultimately show ?thesis using assms(4,6,7) by (auto simp: may_read_key_def)
qed

section \<open>Examples\<close>

definition example_rule :: "source_type \<Rightarrow> nat \<Rightarrow> event_rule" where
  "example_rule source throttle = \<lparr>er_id = 1, er_name = ''deploy'', er_organization = Some 1, er_enabled = True,
     er_source = source, er_path = ''hook'', er_key = ''key'',
     er_conditions = [JObj [(''jinja2_expression'', JStr ''event.ref'')]],
     er_actions = [\<lparr>ac_type = ''launch_job_template'', ac_target = 5, ac_extra_vars = [(''mode'', JStr ''fast'')]\<rparr>,
       \<lparr>ac_type = ''send_notification'', ac_target = 9, ac_extra_vars = []\<rparr>],
     er_throttle_seconds = throttle, er_last_fired = None, er_fire_count = 0\<rparr>"

definition example_eda :: eda_env where
  "example_eda = \<lparr>ee_tools = example_tools, ee_hmac = (\<lambda>alg key m. key @ m), ee_sha1 = (\<lambda>m. m),
     ee_render = (\<lambda>t payload headers. Inr ''__TRUE__''), ee_repr = (\<lambda>_. []),
     ee_job_template = (\<lambda>i. if i = 5 then Some (example_template []) else None), ee_workflow_template = (\<lambda>i. None),
     ee_notify = (\<lambda>i. None), ee_atomic_requests = True, ee_is_address = (\<lambda>_. True)\<rparr>"

definition example_world :: "source_type \<Rightarrow> nat \<Rightarrow> eda_world" where
  "example_world source throttle = \<lparr>ew_rules = [example_rule source throttle], ew_logs = [], ew_next_log = 1, ew_queue = [],
     ew_store = empty_store, ew_sent = [], ew_audit = []\<rparr>"

definition example_request :: webhook_request where
  "example_request = \<lparr>wr_path = ''hook'', wr_meta = [(''HTTP_X_GITLAB_TOKEN'', ''key''), (''HTTP_X_REQUEST_ID'', ''e1''),
     (''HTTP_X_FORAIL_SIGNATURE'', ''sha256=key{}'')], wr_body = ''{}'', wr_data = JObj []\<rparr>"

definition example_log :: "source_type \<Rightarrow> nat \<Rightarrow> event_log" where
  "example_log source i = \<lparr>el_id = i, el_rule = Some 1, el_organization = Some 1, el_source_ip = None, el_event_type = [],
     el_guid = (if source = GitLab then ''{}'' else ''e1''), el_payload = JObj [],
     el_headers = [(''X-Gitlab-Token'', ''key''), (''X-Forail-Signature'', ''sha256=key{}''), (''X-Request-Id'', ''e1'')],
     el_matched = False, el_conditions = [], el_actions = [], el_status = Received, el_error = [], el_job = None\<rparr>"

definition after_request :: "source_type \<Rightarrow> nat \<Rightarrow> eda_world" where
  "after_request source throttle =
     (example_world source throttle)\<lparr>ew_logs := [example_log source 1], ew_next_log := 2, ew_queue := [1]\<rparr>"

lemma example_headers [simp]:
  "relevant_headers (wr_meta example_request) = el_headers (example_log source i)"
  by (simp add: relevant_headers_def relevant_keys_def example_request_def example_log_def)

lemma example_signature:
  "check_signature example_eda (example_rule GitLab t) (wr_body example_request) (relevant_headers (wr_meta example_request)) = Inr ()"
  "check_signature example_eda (example_rule Generic t) (wr_body example_request) (relevant_headers (wr_meta example_request)) = Inr ()"
  unfolding example_headers [of GitLab 1]
  by (simp_all add: check_signature_def example_rule_def check_gitlab_signature_def check_generic_signature_def example_log_def
      example_request_def dict_get_def split_signature_def example_eda_def)

lemma example_accepted:
  assumes "source \<in> {GitLab, Generic}"
    and "find (\<lambda>r. er_path r = wr_path example_request \<and> er_enabled r) (ew_rules w) = Some (example_rule source t)"
    and "\<not> seen_before (example_rule source t) (el_guid (example_log source 1)) w"
  shows "receive example_eda example_request w = (Queued, (add_log (example_log source (ew_next_log w)) w)
    \<lparr>ew_queue := ew_queue w @ [ew_next_log w]\<rparr>)"
proof -
  have e: "extract_event_type example_request (er_source (example_rule source t)) = Some (JStr [])"
    "extract_event_guid example_eda example_request (er_source (example_rule source t)) = Some (JStr (el_guid (example_log source 1)))"
    using assms(1) by (auto simp: extract_event_type_def extract_event_guid_def example_rule_def example_request_def dict_get_def
        data_get_def example_eda_def example_log_def)
  have n: "(new_log (example_rule source t) example_request w)\<lparr>el_event_type := [], el_guid := el_guid (example_log source 1)\<rparr> =
      example_log source (ew_next_log w)"
    unfolding new_log_def example_headers [of source 1]
    by (simp add: example_rule_def example_request_def source_ip_def example_log_def dict_get_def
        strip_def lstrip_def)
  have s: "check_signature example_eda (example_rule source t) (wr_body example_request)
      (relevant_headers (wr_meta example_request)) = Inr ()" using assms(1) example_signature by auto
  have l: "length (wr_body example_request) \<le> max_payload" by (simp add: max_payload_def example_request_def)
  have f: "fits 128 (JStr []) (py_str r (JStr []))"
    "fits 256 (JStr (el_guid (example_log source 1))) (py_str r (JStr (el_guid (example_log source 1))))" for r
    by (simp_all add: fits_def example_log_def)
  have a: "source_ip_fits example_eda example_request"
    by (simp add: source_ip_fits_def example_eda_def split: option.split)
  from receive_accepts [OF assms(2) s e _ l f a] assms(3) n show ?thesis by simp
qed

lemma example_rows:
  "find_log 1 (after_request source t) = Some (example_log source 1)" "el_rule (example_log source 1) = Some 1"
  "find_rule 1 (after_request source t) = Some (example_rule source t)"
  by (simp_all add: find_log_def after_request_def example_log_def find_rule_def example_world_def example_rule_def)

lemma example_fires: "fires example_eda now (example_rule source throttle) l"
  by (simp add: fires_def is_throttled_def example_rule_def condition_holds_def example_eda_def strip_def lstrip_def is_space_def)

lemma example_found:
  "find (\<lambda>r. er_path r = wr_path example_request \<and> er_enabled r) (ew_rules (example_world source throttle)) =
    Some (example_rule source throttle)"
  "find_rule (er_id (example_rule source throttle)) (example_world source throttle) = Some (example_rule source throttle)"
  by (simp_all add: example_world_def example_rule_def example_request_def find_rule_def)

lemma example_first:
  assumes "source \<in> {GitLab, Generic}"
  shows "receive example_eda example_request (example_world source t) = (Queued, after_request source t)"
  using example_accepted [OF assms, of "example_world source t" t] example_found(1)
  by (simp add: seen_before_def add_log_def after_request_def) (simp add: example_world_def numeral_2_eq_2)

text \<open>The first action launches a job, the second fails: its template does not exist.\<close>

theorem event_evaluation_exact_witness:
  "find_rule 1 (evaluate_event_rule example_eda 50 1 (after_request GitLab 0)) = Some (record_firing 50 (example_rule GitLab 0))"
proof -
  from event_evaluation_exact [OF example_rows, of example_eda 50] example_fires show ?thesis by blast
qed

lemma example_evaluated:
  "map_option (\<lambda>l. (el_status l, map ar_success (el_actions l), el_job l))
     (find_log 1 (evaluate_event_rule example_eda 50 1 (after_request GitLab 0))) = Some (ActionFailed, [True, False], Some 1)"
  "map nj_status (st_jobs (ew_store (evaluate_event_rule example_eda 50 1 (after_request GitLab 0)))) = [Pending]"
  by code_simp+

definition three_events :: eda_world where
  "three_events = (after_request Generic 60)\<lparr>ew_logs := map (example_log Generic) [1, 2, 3]\<rparr>"

lemma three_rows:
  "find_log 1 three_events = Some (example_log Generic 1)" "find_log 2 three_events = Some (example_log Generic 2)"
  "find_rule 1 three_events = Some (example_rule Generic 60)"
  by (simp_all add: find_log_def find_rule_def three_events_def after_request_def example_log_def example_world_def example_rule_def)

theorem firings_throttled_witness:
  "firings example_eda 1 [(100, 1), (130, 2), (170, 3)] three_events = [100, 170] \<and> (60 :: rat) \<le> 170 - 100"
proof -
  have f: "firings example_eda 1 [(100, 1), (130, 2), (170, 3)] three_events = [100, 170]" by code_simp
  have "0 < er_throttle_seconds (example_rule Generic 60)" by (simp add: example_rule_def)
  from firings_throttled [OF three_rows(3) this, of example_eda "[(100, 1), (130, 2), (170, 3)]"] f show ?thesis
    by (simp add: example_rule_def)
qed

theorem overlapping_evaluations_witness:
  "\<exists>x y w1 w2. begin_evaluation example_eda 100 1 three_events = (Some x, w1) \<and> begin_evaluation example_eda 100 2 w1 = (Some y, w2) \<and>
    map_option er_fire_count (find_rule 1 (finish_evaluation example_eda 100 y (finish_evaluation example_eda 100 x w2))) = Some 2"
proof -
  have l: "el_rule (example_log Generic i) = Some 1" for i by (simp add: example_log_def)
  from overlapping_evaluations_ignore_throttle [OF three_rows(1,2) _ l l three_rows(3) example_fires example_fires, of 100]
  show ?thesis by (simp add: example_rule_def numeral_2_eq_2)
qed

theorem only_authentic_events_witness:
  "\<exists>r l. authentic example_eda r example_request \<and> el_status l = Received \<and> ew_logs (after_request Generic 60) = [l]"
proof -
  have first: "receive example_eda example_request (example_world Generic 60) = (Queued, after_request Generic 60)"
    by (rule example_first) simp
  from only_authentic_events [of example_eda example_request "example_world Generic 60", unfolded first] obtain r l where
    "authentic example_eda r example_request" "el_status l = Received"
    "ew_logs (after_request Generic 60) = ew_logs (example_world Generic 60) @ [l]" by auto
  moreover have "ew_logs (example_world Generic 60) = []" by (simp add: example_world_def)
  ultimately show ?thesis by auto
qed

theorem fired_event_not_repeated_witness:
  "snd (receive example_eda example_request ((after_request Generic 60)\<lparr>ew_logs := [(example_log Generic 1)\<lparr>el_status := ActionFired\<rparr>]\<rparr>)) =
   (after_request Generic 60)\<lparr>ew_logs := [(example_log Generic 1)\<lparr>el_status := ActionFired\<rparr>]\<rparr>"
proof -
  let ?l = "(example_log Generic 1)\<lparr>el_status := ActionFired\<rparr>"
  let ?w = "(after_request Generic 60)\<lparr>ew_logs := [?l]\<rparr>"
  have r: "find (\<lambda>r. er_path r = wr_path example_request \<and> er_enabled r) (ew_rules ?w) = Some (example_rule Generic 60)"
    using example_found(1) [of Generic 60] by (simp add: after_request_def)
  have l: "el_rule ?l = Some (er_id (example_rule Generic 60))" "el_guid ?l = py_str (ee_repr example_eda) (JStr ''e1'')"
    "extract_event_guid example_eda example_request (er_source (example_rule Generic 60)) = Some (JStr ''e1'')"
    by (simp_all add: example_log_def example_rule_def extract_event_guid_def example_request_def dict_get_def)
  show ?thesis
    by (rule fired_event_not_repeated [OF r _ l(1) _ l(3) _ l(2)]) (simp_all add: example_eda_def)
qed

theorem repeated_event_fires_twice_witness:
  "map_option er_fire_count (find_rule 1 (evaluate_event_rule example_eda 60 2 (evaluate_event_rule example_eda 50 1
      (snd (receive example_eda example_request (after_request GitLab 0)))))) = Some 2"
proof -
  have c: "\<forall>l. el_payload l = wr_data example_request \<and> el_headers l = relevant_headers (wr_meta example_request) \<longrightarrow>
      (\<forall>c \<in> set (er_conditions (example_rule GitLab 0)). condition_holds example_eda l c)"
    using example_fires [of 0 GitLab 0] by (simp add: fires_def)
  have no: "\<forall>l \<in> set (ew_logs (example_world GitLab 0)). el_id l < ew_next_log (example_world GitLab 0)"
    "er_throttle_seconds (example_rule GitLab 0) = 0" "ew_next_log (example_world GitLab 0) = 1" "er_id (example_rule GitLab 0) = 1"
    "er_fire_count (example_rule GitLab 0) = 0"
    by (simp_all add: example_world_def example_rule_def)
  have first: "receive example_eda example_request (example_world GitLab 0) = (Queued, after_request GitLab 0)"
    by (rule example_first) simp
  have second: "fst (receive example_eda example_request (after_request GitLab 0)) = Queued"
    using example_accepted [of GitLab "after_request GitLab 0" 0] example_found(1) [of GitLab 0]
    by (simp add: seen_before_def after_request_def example_log_def)
  from repeated_event_fires_twice [OF _ _ no(1) example_found no(2) c, of 60 50] first second
  show ?thesis by (simp add: no numeral_2_eq_2)
qed

theorem rule_launches_permitted_witness:
  "\<exists>js. map nj_template (st_jobs (ew_store (evaluate_event_rule example_eda 50 1 (after_request GitLab 0)))) = js \<and>
    (\<forall>t \<in> set js. t = 5)"
proof -
  note a = rule_launches_permitted [OF example_rows,
    where env = example_eda and now = 50 and may = "\<lambda>a i. Some (a = ''send_notification'' \<or> (a = ''launch_job_template'' \<and> i = 5))"]
  have "can_use_targets (\<lambda>a i. Some (a = ''send_notification'' \<or> (a = ''launch_job_template'' \<and> i = 5))) (er_actions (example_rule GitLab 0))"
    "ee_job_template example_eda 0 = None" "ee_workflow_template example_eda 0 = None" by code_simp+
  from a [OF this] have "\<exists>js. map nj_template (st_jobs (ew_store (evaluate_event_rule example_eda 50 1 (after_request GitLab 0)))) =
      map nj_template (st_jobs (ew_store (after_request GitLab 0))) @ js \<and> (\<forall>t \<in> set js. t = 5)" by auto
  moreover have "st_jobs (ew_store (after_request GitLab 0)) = []" by code_simp
  ultimately show ?thesis by simp
qed

theorem gitlab_key_in_log_witness:
  "\<exists>l \<in> set (visible_logs \<lparr>us_superuser = False, us_auditor = False, us_organizations = [1], us_admin_of = []\<rparr> (after_request GitLab 0)).
    map_of (el_headers l) ''X-Gitlab-Token'' = Some ''key''"
proof -
  have first: "receive example_eda example_request (example_world GitLab 0) = (Queued, after_request GitLab 0)"
    by (rule example_first) simp
  show ?thesis
    using gitlab_key_in_log [OF _ example_found(1), of example_eda GitLab 0 1
      "\<lparr>us_superuser = False, us_auditor = False, us_organizations = [1], us_admin_of = []\<rparr>"]
    by (simp add: first) (simp add: example_rule_def)
qed

end
