(* ===== verification/Service_Catalog.thy ===== *)
theory Service_Catalog
  imports Job_Launch
begin

text \<open>
  The self-service portal: \<open>forail/main/models/service_catalog.py\<close>, the views of
  \<open>forail/api/views/service_catalog.py\<close>, \<open>validate\<close> of \<open>forail/api/serializers/service_catalog.py\<close>
  and the access to catalog items (\<open>forail/main/access/forail_config.py\<close>, with \<open>check_related\<close> of
  \<open>forail/main/access/base.py\<close>). Templates, and who may run which, are arguments. An approval works on
  the row that its view has loaded; every \<open>save(update_fields=...)\<close> writes its fields into the row of the
  moment, and fails if there is none. Requests run in transactions (\<open>ATOMIC_REQUESTS\<close>): an exception
  takes their rows back, but not what they put into the cache. The variables of a request are a dictionary;
  an exception of \<open>create_unified_job\<close> itself is taken to come again at the second attempt.
\<close>

section \<open>Data\<close>

record catalog_item =
  ci_id :: pk
  ci_organization :: "pk option"
  ci_job_template :: "pk option"
  ci_workflow :: "pk option"
  ci_requires_approval :: bool
  ci_approver_team :: "pk option"
  ci_enabled :: bool

datatype request_status =
    PendingApproval | Approved | Rejected | RequestRunning | RequestSuccessful | RequestFailed | RequestCanceled

record service_request =
  rq_id :: pk
  rq_item :: pk
  rq_requested_by :: pk
  rq_status :: request_status
  rq_extra_vars :: variables
  rq_node_answers :: json
  rq_justification :: string
  rq_approved_by :: "pk option"
  rq_approved_at :: "rat option"
  rq_rejection_reason :: string
  rq_job :: "pk option"

record portal_world =
  pw_items :: "catalog_item list"
  pw_requests :: "service_request list"
  pw_next_request :: pk
  pw_store :: job_store

record portal_user =
  po_id :: pk
  po_superuser :: bool
  po_auditor :: bool
  po_organizations :: "pk list"
  po_teams :: "pk list"
  po_admin_of :: "pk list"

datatype template_kind = JobTemplateKind | WorkflowKind

record portal_env =
  pe_tools :: launch_tools
  pe_template :: "template_kind \<Rightarrow> pk \<Rightarrow> launchable option"
  pe_may_execute :: "pk \<Rightarrow> template_kind \<Rightarrow> pk \<Rightarrow> bool"
  pe_atomic_requests :: bool

datatype portal_error = NotPending | NotAllowed | PortalCrash

definition request_terminal :: "request_status \<Rightarrow> bool" where
  "request_terminal s \<longleftrightarrow> s \<in> {Rejected, RequestSuccessful, RequestFailed, RequestCanceled}"

definition find_item :: "pk \<Rightarrow> portal_world \<Rightarrow> catalog_item option" where
  "find_item i w = find (\<lambda>c. ci_id c = i) (pw_items w)"

definition find_request :: "pk \<Rightarrow> portal_world \<Rightarrow> service_request option" where
  "find_request i w = find (\<lambda>r. rq_id r = i) (pw_requests w)"

definition find_job :: "pk \<Rightarrow> job_store \<Rightarrow> new_job option" where
  "find_job i s = find (\<lambda>j. nj_id j = i) (st_jobs s)"

section \<open>The launch\<close>

definition underlying_template :: "catalog_item \<Rightarrow> (template_kind \<times> pk) option" where
  "underlying_template c =
     (case ci_job_template c of
        Some i \<Rightarrow> Some (JobTemplateKind, i)
      | None \<Rightarrow> map_option (Pair WorkflowKind) (ci_workflow c))"

text \<open>A save of fields of the instance: the row of the database gets them, the instance has them.\<close>

definition change_request :: "pk \<Rightarrow> (service_request \<Rightarrow> service_request) \<Rightarrow> portal_world \<Rightarrow> portal_world" where
  "change_request i f w = w\<lparr>pw_requests := map (\<lambda>x. if rq_id x = i then f x else x) (pw_requests w)\<rparr>"

definition save_fields ::
  "(service_request \<Rightarrow> service_request) \<Rightarrow> service_request \<Rightarrow> portal_world \<Rightarrow>
     (portal_error + service_request) \<times> portal_world" where
  "save_fields f r w =
     (if find_request (rq_id r) w = None then (Inl PortalCrash, w)
      else (Inr (f r), change_request (rq_id r) f w))"

text \<open>The two attempts to create the job: the second, after a \<open>TypeError\<close>, leaves out the node answers.\<close>

definition create_requested_job ::
  "portal_env \<Rightarrow> template_kind \<Rightarrow> pk \<Rightarrow> launchable \<Rightarrow> service_request \<Rightarrow> job_store \<Rightarrow> pk option \<times> job_store" where
  "create_requested_job env kind i t r s =
     (let tools = pe_tools env; blank = origin i ''manual'' [] [] (Some (rq_requested_by r)) in
      if kind = WorkflowKind \<and> json_true (rq_node_answers r)
      then (case create_workflow_job tools t blank (rq_extra_vars r) (rq_node_answers r) s of
              (None, ok, s1) \<Rightarrow> (None, s1)
            | (Some jid, ok, s1) \<Rightarrow>
                if ok then (Some jid, s1)
                else create_job tools t blank (variables_after tools t (rq_extra_vars r) (st_survey s)) s1)
      else create_job tools t blank (rq_extra_vars r) s)"

definition launch_request ::
  "portal_env \<Rightarrow> service_request \<Rightarrow> portal_world \<Rightarrow> (portal_error + service_request) \<times> portal_world" where
  "launch_request env r w =
     (case find_item (rq_item r) w of
        None \<Rightarrow> (Inl PortalCrash, w)
      | Some c \<Rightarrow>
          (case underlying_template c of
             None \<Rightarrow> save_fields (\<lambda>r. r\<lparr>rq_status := RequestFailed\<rparr>) r w
           | Some (kind, i) \<Rightarrow>
               (case pe_template env kind i of
                  None \<Rightarrow> (Inl PortalCrash, w)
                | Some t \<Rightarrow>
                    (case create_requested_job env kind i t r (pw_store w) of
                       (None, s1) \<Rightarrow> (Inl PortalCrash, w\<lparr>pw_store := s1\<rparr>)
                     | (Some jid, s1) \<Rightarrow>
                         (case save_fields (\<lambda>r. r\<lparr>rq_job := Some jid, rq_status := RequestRunning\<rparr>) r (w\<lparr>pw_store := s1\<rparr>) of
                            (Inl e, w1) \<Rightarrow> (Inl e, w1)
                          | (Inr r1, w1) \<Rightarrow> (Inr r1, w1\<lparr>pw_store := snd (start_created t jid (pw_store w1))\<rparr>))))))"

definition submit ::
  "portal_env \<Rightarrow> rat \<Rightarrow> service_request \<Rightarrow> portal_world \<Rightarrow> (portal_error + service_request) \<times> portal_world" where
  "submit env now r w =
     (case find_item (rq_item r) w of
        None \<Rightarrow> (Inl PortalCrash, w)
      | Some c \<Rightarrow>
          if ci_requires_approval c then save_fields (\<lambda>r. r\<lparr>rq_status := PendingApproval\<rparr>) r w
          else (case save_fields (\<lambda>r. r\<lparr>rq_status := Approved, rq_approved_at := Some now\<rparr>) r w of
                  (Inl e, w1) \<Rightarrow> (Inl e, w1)
                | (Inr r1, w1) \<Rightarrow> launch_request env r1 w1))"

section \<open>The approval\<close>

text \<open>\<open>None\<close> is nobody, or a user who is not authenticated.\<close>

definition can_user_approve :: "portal_user option \<Rightarrow> catalog_item \<Rightarrow> bool" where
  "can_user_approve user c =
     (case user of
        None \<Rightarrow> False
      | Some u \<Rightarrow>
          if po_superuser u then True
          else (case ci_approver_team c of
                  Some team \<Rightarrow> team \<in> set (po_teams u)
                | None \<Rightarrow> (case ci_organization c of None \<Rightarrow> False | Some org \<Rightarrow> org \<in> set (po_admin_of u))))"

definition may_decide :: "portal_user \<Rightarrow> service_request \<Rightarrow> portal_world \<Rightarrow> bool" where
  "may_decide u r w = (case find_item (rq_item r) w of None \<Rightarrow> False | Some c \<Rightarrow> can_user_approve (Some u) c)"

definition approve ::
  "portal_env \<Rightarrow> rat \<Rightarrow> portal_user \<Rightarrow> service_request \<Rightarrow> portal_world \<Rightarrow> (portal_error + service_request) \<times> portal_world" where
  "approve env now u r w =
     (if rq_status r \<noteq> PendingApproval then (Inl NotPending, w)
      else if \<not> may_decide u r w then (Inl NotAllowed, w)
      else (case save_fields (\<lambda>r. r\<lparr>rq_approved_by := Some (po_id u), rq_approved_at := Some now, rq_status := Approved\<rparr>) r w of
              (Inl e, w1) \<Rightarrow> (Inl e, w1)
            | (Inr r1, w1) \<Rightarrow> launch_request env r1 w1))"

definition reject ::
  "rat \<Rightarrow> portal_user \<Rightarrow> string \<Rightarrow> service_request \<Rightarrow> portal_world \<Rightarrow> (portal_error + service_request) \<times> portal_world" where
  "reject now u reason r w =
     (if rq_status r \<noteq> PendingApproval then (Inl NotPending, w)
      else if \<not> may_decide u r w then (Inl NotAllowed, w)
      else save_fields (\<lambda>r. r\<lparr>rq_approved_by := Some (po_id u), rq_approved_at := Some now, rq_rejection_reason := reason,
             rq_status := Rejected\<rparr>) r w)"

section \<open>The status of the job\<close>

definition mirrored_status :: "job_status \<Rightarrow> request_status option" where
  "mirrored_status s =
     (case s of
        Successful \<Rightarrow> Some RequestSuccessful
      | Failed \<Rightarrow> Some RequestFailed
      | Errored \<Rightarrow> Some RequestFailed
      | Canceled \<Rightarrow> Some RequestCanceled
      | _ \<Rightarrow> None)"

definition sync_status :: "job_store \<Rightarrow> service_request \<Rightarrow> service_request" where
  "sync_status s r =
     (if request_terminal (rq_status r) then r
      else (case rq_job r of
              None \<Rightarrow> r
            | Some jid \<Rightarrow>
                (case find_job jid s of
                   None \<Rightarrow> r
                 | Some j \<Rightarrow> (case mirrored_status (nj_status j) of None \<Rightarrow> r | Some st \<Rightarrow> r\<lparr>rq_status := st\<rparr>))))"

text \<open>The signal handler, after a save of the job, and a save that gives the job a status.\<close>

definition sync_on_save :: "pk \<Rightarrow> portal_world \<Rightarrow> portal_world" where
  "sync_on_save jid w =
     (case find_job jid (pw_store w) of
        None \<Rightarrow> w
      | Some j \<Rightarrow>
          if mirrored_status (nj_status j) = None then w
          else w\<lparr>pw_requests := map (\<lambda>r. if rq_job r = Some jid \<and> \<not> request_terminal (rq_status r)
                                           then sync_status (pw_store w) r else r) (pw_requests w)\<rparr>)"

definition save_job_status :: "pk \<Rightarrow> job_status \<Rightarrow> portal_world \<Rightarrow> portal_world" where
  "save_job_status jid s w = sync_on_save jid
     (w\<lparr>pw_store := (pw_store w)\<lparr>st_jobs := map (\<lambda>j. if nj_id j = jid then j\<lparr>nj_status := s\<rparr> else j) (st_jobs (pw_store w))\<rparr>\<rparr>)"

text \<open>A deleted job leaves its requests without one.\<close>

definition remove_job :: "pk \<Rightarrow> portal_world \<Rightarrow> portal_world" where
  "remove_job jid w = w\<lparr>pw_store := (pw_store w)\<lparr>st_jobs := filter (\<lambda>j. nj_id j \<noteq> jid) (st_jobs (pw_store w))\<rparr>,
     pw_requests := map (\<lambda>r. if rq_job r = Some jid then r\<lparr>rq_job := None\<rparr> else r) (pw_requests w)\<rparr>"

section \<open>Views of requests\<close>

datatype portal_reply = PortalNotFound | PortalForbidden | BadRequest | PortalServerError | PortalCreated pk | PortalDone

definition sees_all :: "portal_user \<Rightarrow> bool" where
  "sees_all u \<longleftrightarrow> po_superuser u \<or> po_auditor u"

definition in_organization :: "portal_user \<Rightarrow> catalog_item \<Rightarrow> bool" where
  "in_organization u c \<longleftrightarrow> (case ci_organization c of None \<Rightarrow> False | Some org \<Rightarrow> org \<in> set (po_organizations u))"

text \<open>The end of a request to the server.\<close>

definition portal_answer ::
  "portal_env \<Rightarrow> portal_reply \<Rightarrow> portal_world \<Rightarrow> (portal_error + service_request) \<times> portal_world \<Rightarrow> portal_reply \<times> portal_world" where
  "portal_answer env ok w = (\<lambda>(r, w1).
     case r of
       Inr x \<Rightarrow> (ok, w1)
     | Inl PortalCrash \<Rightarrow>
         (PortalServerError,
          if pe_atomic_requests env then w\<lparr>pw_store := (pw_store w)\<lparr>st_survey := st_survey (pw_store w1)\<rparr>\<rparr> else w1)
     | Inl e \<Rightarrow> (BadRequest, w1))"

definition submit_view ::
  "portal_env \<Rightarrow> rat \<Rightarrow> portal_user \<Rightarrow> pk \<Rightarrow> variables \<Rightarrow> json \<Rightarrow> string \<Rightarrow> portal_world \<Rightarrow> portal_reply \<times> portal_world" where
  "submit_view env now u i vars node_answers justification w =
     (case find (\<lambda>c. ci_id c = i \<and> ci_enabled c \<and> (sees_all u \<or> in_organization u c)) (pw_items w) of
        None \<Rightarrow> (PortalNotFound, w)
      | Some c \<Rightarrow>
          (let r = \<lparr>rq_id = pw_next_request w, rq_item = ci_id c, rq_requested_by = po_id u, rq_status = PendingApproval,
                    rq_extra_vars = vars, rq_node_answers = (if json_true node_answers then node_answers else JObj []),
                    rq_justification = justification, rq_approved_by = None, rq_approved_at = None,
                    rq_rejection_reason = [], rq_job = None\<rparr>;
               w1 = w\<lparr>pw_requests := pw_requests w @ [r], pw_next_request := Suc (pw_next_request w)\<rparr>
           in portal_answer env (PortalCreated (rq_id r)) w (submit env now r w1)))"

definition approve_view :: "portal_env \<Rightarrow> rat \<Rightarrow> portal_user \<Rightarrow> pk \<Rightarrow> portal_world \<Rightarrow> portal_reply \<times> portal_world" where
  "approve_view env now u i w =
     (case find_request i w of
        None \<Rightarrow> (PortalNotFound, w)
      | Some r \<Rightarrow> portal_answer env PortalDone w (approve env now u r w))"

definition reject_view :: "portal_env \<Rightarrow> rat \<Rightarrow> portal_user \<Rightarrow> string \<Rightarrow> pk \<Rightarrow> portal_world \<Rightarrow> portal_reply \<times> portal_world" where
  "reject_view env now u reason i w =
     (case find_request i w of
        None \<Rightarrow> (PortalNotFound, w)
      | Some r \<Rightarrow> portal_answer env PortalDone w (reject now u reason r w))"

definition sees_request :: "portal_user \<Rightarrow> service_request \<Rightarrow> portal_world \<Rightarrow> bool" where
  "sees_request u r w \<longleftrightarrow> sees_all u \<or> rq_requested_by r = po_id u \<or>
     (case find_item (rq_item r) w of None \<Rightarrow> False | Some c \<Rightarrow> in_organization u c)"

definition request_view :: "portal_user \<Rightarrow> pk \<Rightarrow> portal_world \<Rightarrow> service_request option" where
  "request_view u i w =
     (case find_request i w of None \<Rightarrow> None | Some r \<Rightarrow> if sees_request u r w then Some r else None)"

definition delete_request :: "portal_user \<Rightarrow> pk \<Rightarrow> portal_world \<Rightarrow> portal_reply \<times> portal_world" where
  "delete_request u i w =
     (case request_view u i w of
        None \<Rightarrow> (PortalNotFound, w)
      | Some r \<Rightarrow>
          if rq_status r \<notin> {PendingApproval, Rejected} then (BadRequest, w)
          else (PortalDone, w\<lparr>pw_requests := filter (\<lambda>x. rq_id x \<noteq> i) (pw_requests w)\<rparr>))"

definition list_requests :: "portal_user \<Rightarrow> bool \<Rightarrow> request_status option \<Rightarrow> pk option \<Rightarrow> portal_world \<Rightarrow> service_request list" where
  "list_requests u mine status item w =
     filter (\<lambda>r. (if mine then rq_requested_by r = po_id u
                  else sees_all u \<or> (case find_item (rq_item r) w of None \<Rightarrow> False | Some c \<Rightarrow> in_organization u c)) \<and>
                 (status = None \<or> status = Some (rq_status r)) \<and> (item = None \<or> item = Some (rq_item r))) (pw_requests w)"

definition item_requests :: "portal_user \<Rightarrow> pk \<Rightarrow> portal_world \<Rightarrow> service_request list" where
  "item_requests u i w =
     filter (\<lambda>r. rq_item r = i \<and> (sees_all u \<or> (case find_item i w of None \<Rightarrow> False | Some c \<Rightarrow> in_organization u c)))
       (pw_requests w)"

definition pending_approvals :: "portal_user \<Rightarrow> portal_world \<Rightarrow> service_request list" where
  "pending_approvals u w =
     filter (\<lambda>r. rq_status r = PendingApproval \<and> (po_superuser u \<or> may_decide u r w)) (pw_requests w)"

section \<open>Catalog items\<close>

text \<open>
  \<open>check_related\<close>, without \<open>reference_obj\<close>: a field that the data or the object lack is \<open>None\<close>.
\<close>

definition check_related :: "('r \<Rightarrow> bool) \<Rightarrow> bool \<Rightarrow> bool \<Rightarrow> 'r option option \<Rightarrow> 'r option option \<Rightarrow> bool" where
  "check_related may superuser mandatory data obj =
     (let given = (data \<noteq> None); new = (case data of None \<Rightarrow> None | Some v \<Rightarrow> v);
          current = (case obj of None \<Rightarrow> None | Some v \<Rightarrow> if given \<or> mandatory then v else None);
          changed = (given \<and> \<not> (obj \<noteq> None \<and> new = current))
      in if new = None \<and> obj = None \<and> mandatory then superuser
         else if (case new of None \<Rightarrow> False | Some r \<Rightarrow> changed \<and> \<not> may r) then False
         else if (case current of None \<Rightarrow> False | Some r \<Rightarrow> (changed \<or> mandatory) \<and> \<not> may r) then False
         else True)"

record item_data =
  id_organization :: "pk option option"
  id_job_template :: "pk option option"
  id_workflow :: "pk option option"
  id_requires_approval :: "bool option"
  id_approver_team :: "pk option option"
  id_enabled :: "bool option"

definition item_targets_permitted :: "portal_env \<Rightarrow> portal_user \<Rightarrow> item_data \<Rightarrow> catalog_item option \<Rightarrow> bool" where
  "item_targets_permitted env u d obj \<longleftrightarrow>
     check_related (pe_may_execute env (po_id u) JobTemplateKind) (po_superuser u) False (id_job_template d)
       (map_option ci_job_template obj) \<and>
     check_related (pe_may_execute env (po_id u) WorkflowKind) (po_superuser u) False (id_workflow d)
       (map_option ci_workflow obj)"

definition can_add_item :: "portal_env \<Rightarrow> portal_user \<Rightarrow> item_data \<Rightarrow> bool" where
  "can_add_item env u d \<longleftrightarrow> po_superuser u \<or>
     (check_related (\<lambda>org. org \<in> set (po_admin_of u)) (po_superuser u) True (id_organization d) None \<and>
      item_targets_permitted env u d None)"

definition can_change_item :: "portal_env \<Rightarrow> portal_user \<Rightarrow> catalog_item \<Rightarrow> item_data option \<Rightarrow> bool" where
  "can_change_item env u c d \<longleftrightarrow> po_superuser u \<or>
     ((case ci_organization c of None \<Rightarrow> False | Some org \<Rightarrow> org \<in> set (po_admin_of u)) \<and>
      check_related (\<lambda>org. org \<in> set (po_admin_of u)) (po_superuser u) False
        (case d of None \<Rightarrow> None | Some d \<Rightarrow> id_organization d) (Some (ci_organization c)) \<and>
      (case d of None \<Rightarrow> True | Some d \<Rightarrow> item_targets_permitted env u d (Some c)))"

definition one_target :: "item_data \<Rightarrow> catalog_item option \<Rightarrow> bool" where
  "one_target d obj \<longleftrightarrow>
     (let jt = (case id_job_template d of Some v \<Rightarrow> v | None \<Rightarrow> (case obj of None \<Rightarrow> None | Some c \<Rightarrow> ci_job_template c));
          wf = (case id_workflow d of Some v \<Rightarrow> v | None \<Rightarrow> (case obj of None \<Rightarrow> None | Some c \<Rightarrow> ci_workflow c))
      in (jt \<noteq> None) \<noteq> (wf \<noteq> None))"

definition apply_item_data :: "item_data \<Rightarrow> catalog_item \<Rightarrow> catalog_item" where
  "apply_item_data d c =
     \<lparr>ci_id = ci_id c, ci_organization = case_option (ci_organization c) id (id_organization d),
      ci_job_template = case_option (ci_job_template c) id (id_job_template d),
      ci_workflow = case_option (ci_workflow c) id (id_workflow d),
      ci_requires_approval = case_option (ci_requires_approval c) id (id_requires_approval d),
      ci_approver_team = case_option (ci_approver_team c) id (id_approver_team d),
      ci_enabled = case_option (ci_enabled c) id (id_enabled d)\<rparr>"

definition create_item :: "portal_env \<Rightarrow> portal_user \<Rightarrow> pk \<Rightarrow> item_data \<Rightarrow> portal_world \<Rightarrow> portal_reply \<times> portal_world" where
  "create_item env u i d w =
     (if \<not> can_add_item env u d then (PortalForbidden, w)
      else if \<not> one_target d None then (BadRequest, w)
      else (PortalCreated i, w\<lparr>pw_items := pw_items w @ [apply_item_data d \<lparr>ci_id = i, ci_organization = None,
              ci_job_template = None, ci_workflow = None, ci_requires_approval = False, ci_approver_team = None,
              ci_enabled = True\<rparr>]\<rparr>))"

definition change_item :: "portal_env \<Rightarrow> portal_user \<Rightarrow> pk \<Rightarrow> item_data \<Rightarrow> portal_world \<Rightarrow> portal_reply \<times> portal_world" where
  "change_item env u i d w =
     (case find_item i w of
        None \<Rightarrow> (PortalNotFound, w)
      | Some c \<Rightarrow>
          if \<not> can_change_item env u c (Some d) then (PortalForbidden, w)
          else if \<not> one_target d (Some c) then (BadRequest, w)
          else (PortalDone, w\<lparr>pw_items := map (\<lambda>c. if ci_id c = i then apply_item_data d c else c) (pw_items w)\<rparr>))"

definition delete_item :: "portal_env \<Rightarrow> portal_user \<Rightarrow> pk \<Rightarrow> portal_world \<Rightarrow> portal_reply \<times> portal_world" where
  "delete_item env u i w =
     (case find_item i w of
        None \<Rightarrow> (PortalNotFound, w)
      | Some c \<Rightarrow>
          if \<not> can_change_item env u c None then (PortalForbidden, w)
          else (PortalDone, w\<lparr>pw_items := filter (\<lambda>c. ci_id c \<noteq> i) (pw_items w),
                              pw_requests := filter (\<lambda>r. rq_item r \<noteq> i) (pw_requests w)\<rparr>))"

end
