(* ===== verification/Catalog_Correct.thy ===== *)
theory Catalog_Correct
  imports Service_Catalog
begin

text \<open>
  The portal as a transition system: what an operation leaves behind, the invariant that ties every request
  to its job, and who can have launched what.
\<close>

section \<open>What a launch leaves behind\<close>

definition jobs_distinct :: "job_store \<Rightarrow> bool" where
  "jobs_distinct s \<longleftrightarrow> ids_below s \<and> distinct (map nj_id (st_jobs s))"

text \<open>The jobs that are there stay as they are; those that join them are new and of one origin.\<close>

definition same_origin :: "new_job \<Rightarrow> new_job \<Rightarrow> bool" where
  "same_origin b j \<longleftrightarrow> nj_template j = nj_template b \<and> nj_launch_type j = nj_launch_type b \<and> nj_created_by j = nj_created_by b"

definition extends :: "new_job \<Rightarrow> job_store \<Rightarrow> job_store \<Rightarrow> bool" where
  "extends b s s' \<longleftrightarrow> (\<exists>js. st_jobs s' = st_jobs s @ js \<and> st_next_job s' = st_next_job s + length js \<and>
     map nj_id js = [st_next_job s..<st_next_job s + length js] \<and> list_all (\<lambda>j. nj_status j = New \<and> same_origin b j) js)"

lemma extends_refl: "st_jobs s' = st_jobs s \<Longrightarrow> st_next_job s' = st_next_job s \<Longrightarrow> extends b s s'"
  by (simp add: extends_def)

lemma extends_trans: "extends b s s' \<Longrightarrow> extends b s' s'' \<Longrightarrow> extends b s s''"
  unfolding extends_def
proof (elim exE conjE)
  fix js ks
  assume a: "st_jobs s' = st_jobs s @ js" "st_next_job s' = st_next_job s + length js"
    "map nj_id js = [st_next_job s..<st_next_job s + length js]" "list_all (\<lambda>j. nj_status j = New \<and> same_origin b j) js"
    and b: "st_jobs s'' = st_jobs s' @ ks" "st_next_job s'' = st_next_job s' + length ks"
    "map nj_id ks = [st_next_job s'..<st_next_job s' + length ks]" "list_all (\<lambda>j. nj_status j = New \<and> same_origin b j) ks"
  have "map nj_id (js @ ks) = [st_next_job s..<st_next_job s + length (js @ ks)]"
    using a b upt_add_eq_append [of "st_next_job s" "st_next_job s + length js" "length ks"] by (simp add: add.assoc)
  with a b show "\<exists>js. st_jobs s'' = st_jobs s @ js \<and> st_next_job s'' = st_next_job s + length js \<and>
     map nj_id js = [st_next_job s..<st_next_job s + length js] \<and> list_all (\<lambda>j. nj_status j = New \<and> same_origin b j) js"
    by (intro exI [of _ "js @ ks"]) simp
qed

lemma extends_distinct:
  assumes "jobs_distinct s" and "extends b s s'"
  shows "jobs_distinct s'"
proof -
  obtain js where js: "st_jobs s' = st_jobs s @ js" "st_next_job s' = st_next_job s + length js"
    "map nj_id js = [st_next_job s..<st_next_job s + length js]" using assms(2) by (auto simp: extends_def)
  have "nj_id ` set js = {st_next_job s..<st_next_job s + length js}" by (metis js(3) set_map set_upt)
  moreover have "distinct (map nj_id js)" using js(3) by simp
  ultimately show ?thesis using assms(1) js(1,2) by (auto simp: jobs_distinct_def ids_below_def)
qed

lemma find_appended: "find P (xs @ ys) = (case find P xs of None \<Rightarrow> find P ys | Some x \<Rightarrow> Some x)"
  by (induction xs) auto

lemma extends_finds:
  assumes "extends b s s'" and "find_job i s = Some j"
  shows "find_job i s' = Some j"
  using assms by (auto simp: extends_def find_job_def find_appended)

lemma extends_new:
  assumes "extends b s s'" and "jobs_distinct s" and "st_next_job s \<le> i" and "i < st_next_job s'"
  shows "find_job i s = None" and "\<exists>j. find_job i s' = Some j \<and> nj_status j = New \<and> same_origin b j"
proof -
  obtain js where js: "st_jobs s' = st_jobs s @ js" "st_next_job s' = st_next_job s + length js"
    "map nj_id js = [st_next_job s..<st_next_job s + length js]" "list_all (\<lambda>j. nj_status j = New \<and> same_origin b j) js"
    using assms(1) by (auto simp: extends_def)
  show none: "find_job i s = None" using assms(2,3) by (auto simp: find_job_def find_None_iff jobs_distinct_def ids_below_def)
  have "i \<in> nj_id ` set js" using js(2,3) assms(3,4) by (metis atLeastLessThan_iff set_map set_upt)
  then obtain j where "find (\<lambda>j. nj_id j = i) js = Some j"
    by (cases "find (\<lambda>j. nj_id j = i) js") (auto simp: find_None_iff)
  with none js(1,4) show "\<exists>j. find_job i s' = Some j \<and> nj_status j = New \<and> same_origin b j"
    by (auto simp: find_job_def find_appended list_all_iff find_Some_iff)
qed

lemma create_job_extends:
  assumes "create_job tools t b vars s = (r, s')"
  shows "extends b s s'" and "r = Some i \<Longrightarrow> st_next_job s \<le> i \<and> i < st_next_job s'"
    and "r = None \<Longrightarrow> st_jobs s' = st_jobs s \<and> st_next_job s' = st_next_job s \<and> st_runs s' = st_runs s"
  using create_job_cases [of tools t b vars s] assms by (auto simp: extends_def same_origin_def)

lemma create_workflow_job_extends:
  assumes "create_workflow_job tools t b vars answers s = (r, ok, s')" and "jobs_distinct s"
  shows "extends b s s'" and "r = Some i \<Longrightarrow> st_next_job s \<le> i \<and> i < st_next_job s'"
proof -
  have nodes: "map (\<lambda>j. if nj_id j = st_next_job s then j\<lparr>nj_nodes := n\<rparr> else j) (st_jobs s) = st_jobs s" for n
    using assms(2) by (intro map_idI) (auto simp: jobs_distinct_def ids_below_def)
  show "extends b s s'" and "r = Some i \<Longrightarrow> st_next_job s \<le> i \<and> i < st_next_job s'"
    using create_job_cases [of tools t b vars s] assms(1) nodes
    by (auto simp: create_workflow_job_def extends_def set_nodes_def same_origin_def split: if_splits prod.splits)
qed

lemma create_requested_extends:
  assumes "create_requested_job env kind i t r s = (x, s')" and "jobs_distinct s"
  shows "extends (origin i ''manual'' [] [] (Some (rq_requested_by r))) s s'" and "x = Some jid \<Longrightarrow> st_next_job s \<le> jid \<and> jid < st_next_job s'"
proof -
  let ?b = "origin i ''manual'' [] [] (Some (rq_requested_by r))"
  have "extends (origin i ''manual'' [] [] (Some (rq_requested_by r))) s s' \<and> (x = Some jid \<longrightarrow> st_next_job s \<le> jid \<and> jid < st_next_job s')"
  proof (cases "kind = WorkflowKind \<and> json_true (rq_node_answers r)")
    case False
    then have c: "create_job (pe_tools env) t ?b (rq_extra_vars r) s = (x, s')"
      using assms(1) by (auto simp: create_requested_job_def Let_def split: if_splits)
    show ?thesis using create_job_extends [OF c] by blast
  next
    case True
    obtain y ok s1 where w: "create_workflow_job (pe_tools env) t ?b (rq_extra_vars r) (rq_node_answers r) s = (y, ok, s1)"
      by (metis prod_cases3)
    note e = create_workflow_job_extends [OF w assms(2)]
    show ?thesis
    proof (cases "y = None \<or> ok")
      case True
      then show ?thesis using \<open>kind = _ \<and> _\<close> assms(1) w e
        by (auto simp: create_requested_job_def Let_def split: option.splits)
    next
      case False
      then have c: "create_job (pe_tools env) t ?b (variables_after (pe_tools env) t (rq_extra_vars r) (st_survey s)) s1 = (x, s')"
        using True assms(1) w by (auto simp: create_requested_job_def Let_def)
      have "st_next_job s \<le> st_next_job s1" using e(1) by (auto simp: extends_def)
      with extends_trans [OF e(1) create_job_extends(1) [OF c]] create_job_extends(2) [OF c] show ?thesis by fastforce
    qed
  qed
  then show "extends (origin i ''manual'' [] [] (Some (rq_requested_by r))) s s'" and "x = Some jid \<Longrightarrow> st_next_job s \<le> jid \<and> jid < st_next_job s'" by simp_all
qed

text \<open>The start changes the status of its job, from \<open>new\<close> to \<open>pending\<close>, or nothing.\<close>

lemma start_created_new:
  assumes "find_job jid s = Some j" and "nj_status j = New"
  shows "st_jobs (snd (start_created t jid s)) =
      map (\<lambda>x. if nj_id x = jid \<and> la_passwords_needed t = [] then x\<lparr>nj_status := Pending\<rparr>
                else if nj_id x = jid then x\<lparr>nj_status := New\<rparr> else x) (st_jobs s)"
    and "st_next_job (snd (start_created t jid s)) = st_next_job s"
  using assms(1) [unfolded find_job_def] new_start [OF assms(2)]
  by (auto simp: start_created_def intro!: map_cong split: prod.splits)

lemma start_created_finds:
  assumes "find_job jid s = Some j" and "nj_status j = New"
  shows "find_job i (snd (start_created t jid s)) =
     map_option (\<lambda>x. if i = jid \<and> la_passwords_needed t = [] then x\<lparr>nj_status := Pending\<rparr>
                else if i = jid then x\<lparr>nj_status := New\<rparr> else x) (find_job i s)"
proof -
  have "find (\<lambda>x. nj_id x = i) (map (\<lambda>x. if nj_id x = jid \<and> p then x\<lparr>nj_status := Pending\<rparr>
      else if nj_id x = jid then x\<lparr>nj_status := New\<rparr> else x) js) =
    map_option (\<lambda>x. if i = jid \<and> p then x\<lparr>nj_status := Pending\<rparr> else if i = jid then x\<lparr>nj_status := New\<rparr> else x)
      (find (\<lambda>x. nj_id x = i) js)" for js p
    by (induction js) auto
  then show ?thesis unfolding start_created_new [OF assms] find_job_def .
qed

lemma change_request_simps [simp]:
  "pw_items (change_request i f w) = pw_items w" "pw_store (change_request i f w) = pw_store w"
  "pw_next_request (change_request i f w) = pw_next_request w"
  "find_item k (change_request i f w) = find_item k w"
  by (simp_all add: change_request_def find_item_def)

lemma find_request_change:
  assumes "\<And>r. rq_id (f r) = rq_id r"
  shows "find_request k (change_request i f w) = map_option (\<lambda>r. if k = i then f r else r) (find_request k w)"
proof -
  have "find (\<lambda>x. rq_id x = k) (map (\<lambda>x. if rq_id x = i then f x else x) rs) =
      map_option (\<lambda>r. if k = i then f r else r) (find (\<lambda>x. rq_id x = k) rs)" for rs
    by (induction rs) (use assms in auto)
  then show ?thesis by (simp add: find_request_def change_request_def)
qed

lemma find_request_store [simp]: "find_request i (w\<lparr>pw_store := s\<rparr>) = find_request i w"
  by (simp add: find_request_def)

lemma find_request_id: "find_request i w = Some r \<Longrightarrow> rq_id r = i \<and> r \<in> set (pw_requests w)"
  by (auto simp: find_request_def find_Some_iff)

lemma find_job_id: "find_job i s = Some j \<Longrightarrow> nj_id j = i \<and> j \<in> set (st_jobs s)"
  by (auto simp: find_job_def find_Some_iff)

lemma save_fields_found:
  "find_request (rq_id r) w = Some x \<Longrightarrow> save_fields f r w = (Inr (f r), change_request (rq_id r) f w)"
  by (simp add: save_fields_def)

text \<open>The effect of a launch that ends without an exception.\<close>

definition template_ready :: "portal_env \<Rightarrow> catalog_item \<Rightarrow> template_kind \<Rightarrow> pk \<Rightarrow> launchable \<Rightarrow> bool" where
  "template_ready env c kind i t \<longleftrightarrow> underlying_template c = Some (kind, i) \<and> pe_template env kind i = Some t"

lemma launch_request_cases:
  assumes "launch_request env r w = (Inr r1, w1)" and "find_request (rq_id r) w = Some x" and "jobs_distinct (pw_store w)"
  obtains (failed) c where "find_item (rq_item r) w = Some c" and "underlying_template c = None"
      and "w1 = change_request (rq_id r) (\<lambda>r. r\<lparr>rq_status := RequestFailed\<rparr>) w"
    | (launched) c kind i t jid store j where "find_item (rq_item r) w = Some c" and "template_ready env c kind i t"
      and "w1 = (change_request (rq_id r) (\<lambda>r. r\<lparr>rq_job := Some jid, rq_status := RequestRunning\<rparr>) w)\<lparr>pw_store := store\<rparr>"
      and "jobs_distinct store" and "find_job jid (pw_store w) = None"
      and "find_job jid store = Some j" and "nj_status j \<in> {New, Pending}"
      and "nj_template j = i" and "nj_created_by j = Some (rq_requested_by r)"
      and "\<And>k y. find_job k (pw_store w) = Some y \<Longrightarrow> find_job k store = Some y"
proof -
  obtain c where c: "find_item (rq_item r) w = Some c"
    using assms(1) by (cases "find_item (rq_item r) w") (simp_all add: launch_request_def)
  show thesis
  proof (cases "underlying_template c")
    case None
    then have "w1 = change_request (rq_id r) (\<lambda>r. r\<lparr>rq_status := RequestFailed\<rparr>) w"
      using assms(1) c save_fields_found [OF assms(2)] by (simp add: launch_request_def)
    with c None show thesis by (rule failed)
  next
    case (Some ki)
    obtain kind i where ki: "underlying_template c = Some (kind, i)" using Some by (cases ki) auto
    obtain t where t: "pe_template env kind i = Some t"
      using assms(1) c ki by (cases "pe_template env kind i") (simp_all add: launch_request_def)
    obtain y s1 where y: "create_requested_job env kind i t r (pw_store w) = (y, s1)" by (metis prod.exhaust)
    obtain jid where jid: "y = Some jid"
      using assms(1) c ki t y by (cases y) (simp_all add: launch_request_def)
    note e = create_requested_extends [OF y assms(3)]
    from extends_new [OF e(1) assms(3)] e(2) [OF jid] obtain j where
      j: "find_job jid (pw_store w) = None" "find_job jid s1 = Some j" "nj_status j = New"
        "nj_template j = i" "nj_created_by j = Some (rq_requested_by r)"
      by (auto simp: same_origin_def origin_def)
    let ?s = "snd (start_created t jid s1)"
    have found: "find_request (rq_id r) (w\<lparr>pw_store := s1\<rparr>) = Some x" using assms(2) by (simp add: find_request_def)
    have w1: "w1 = (change_request (rq_id r) (\<lambda>r. r\<lparr>rq_job := Some jid, rq_status := RequestRunning\<rparr>) w)\<lparr>pw_store := ?s\<rparr>"
      using assms(1) c ki t y jid save_fields_found [OF found]
      by (simp add: launch_request_def) (simp add: change_request_def)
    have "map nj_id (st_jobs ?s) = map nj_id (st_jobs s1)" by (simp add: start_created_new [OF j(2,3)])
    then have distinct: "jobs_distinct ?s"
      using extends_distinct [OF assms(3) e(1)] start_created_new(2) [OF j(2,3), of t] unfolding jobs_distinct_def
      by (metis start_ids)
    have kept: "find_job k ?s = Some y" if "find_job k (pw_store w) = Some y" for k y
      using extends_finds [OF e(1) that] j(1) that by (auto simp: start_created_finds [OF j(2,3)])
    have "template_ready env c kind i t" using ki t by (simp add: template_ready_def)
    moreover have "\<exists>j'. find_job jid ?s = Some j' \<and> nj_status j' \<in> {New, Pending} \<and> nj_template j' = i \<and>
        nj_created_by j' = Some (rq_requested_by r)"
      using j by (simp add: start_created_finds [OF j(2,3)])
    ultimately show thesis using launched [OF c _ w1 distinct j(1)] kept by blast
  qed
qed

section \<open>The invariant\<close>

text \<open>A request at rest: what its status says of its job.\<close>

definition settled :: "job_store \<Rightarrow> service_request \<Rightarrow> bool" where
  "settled s r \<longleftrightarrow>
     (if rq_status r \<in> {PendingApproval, Rejected} then rq_job r = None
      else rq_status r \<noteq> Approved \<and>
        (case rq_job r of
           None \<Rightarrow> True
         | Some jid \<Rightarrow>
             (case find_job jid s of
                None \<Rightarrow> False
              | Some j \<Rightarrow> rq_status r = (case mirrored_status (nj_status j) of None \<Rightarrow> RequestRunning | Some st \<Rightarrow> st))))"

definition apart :: "service_request \<Rightarrow> service_request \<Rightarrow> bool" where
  "apart r r' \<longleftrightarrow> rq_id r \<noteq> rq_id r' \<and> (rq_job r = None \<or> rq_job r \<noteq> rq_job r')"

definition portal_ok :: "portal_world \<Rightarrow> bool" where
  "portal_ok w \<longleftrightarrow> jobs_distinct (pw_store w) \<and> sorted_wrt apart (pw_requests w) \<and>
     (\<forall>r \<in> set (pw_requests w). rq_id r < pw_next_request w \<and> settled (pw_store w) r)"

lemma apart_distinct: "sorted_wrt apart rs \<Longrightarrow> distinct (map rq_id rs)"
  by (induction rs) (auto simp: apart_def)

lemma sorted_wrt_two: "sorted_wrt P xs \<Longrightarrow> x \<in> set xs \<Longrightarrow> y \<in> set xs \<Longrightarrow> x = y \<or> P x y \<or> P y x"
  by (induction xs) auto

text \<open>The invariant in the middle of an operation on one request, which has no job yet.\<close>

definition portal_ok_but :: "pk \<Rightarrow> portal_world \<Rightarrow> bool" where
  "portal_ok_but i w \<longleftrightarrow> jobs_distinct (pw_store w) \<and> sorted_wrt apart (pw_requests w) \<and>
     (\<forall>r \<in> set (pw_requests w). rq_id r < pw_next_request w \<and>
        (if rq_id r = i then rq_job r = None else settled (pw_store w) r))"

lemma settled_job: "settled s r \<Longrightarrow> rq_job r = Some jid \<Longrightarrow> find_job jid s \<noteq> None"
  by (auto simp: settled_def split: if_splits option.splits)

lemma settled_mono:
  assumes "settled s r" and "\<And>k y. find_job k s = Some y \<Longrightarrow> find_job k s' = Some y"
  shows "settled s' r"
proof (cases "rq_job r")
  case (Some jid)
  then obtain j where "find_job jid s = Some j" using settled_job [OF assms(1)] by auto
  with assms(2) [OF this] assms(1) Some show ?thesis by (auto simp: settled_def split: if_splits)
qed (use assms(1) in \<open>simp add: settled_def\<close>)

lemma ok_but_change:
  assumes "portal_ok_but i w" and "\<And>r. rq_id (f r) = rq_id r" and "\<And>r. rq_job (f r) = rq_job r"
  shows "portal_ok_but i (change_request i f w)"
proof -
  have "apart (if rq_id x = i then f x else x) (if rq_id y = i then f y else y) = apart x y" for x y
    by (simp add: apart_def assms(2,3))
  then have "sorted_wrt apart (pw_requests (change_request i f w)) = sorted_wrt apart (pw_requests w)"
    by (simp add: change_request_def sorted_wrt_map)
  moreover have "rq_id r < pw_next_request w \<and> (if rq_id r = i then rq_job r = None else settled (pw_store w) r)"
    if "r \<in> set (pw_requests (change_request i f w))" for r
    using that assms by (auto simp: change_request_def portal_ok_but_def)
  ultimately show ?thesis using assms(1) unfolding portal_ok_but_def by simp
qed

text \<open>The operation ends: its request is at rest, with a job that no other request has.\<close>

lemma ok_but_settle:
  assumes "portal_ok_but i w" and id: "\<And>r. rq_id (f r) = rq_id r" and job: "\<And>r. rq_job r = None \<Longrightarrow> rq_job (f r) = job"
    and settles: "\<And>r. rq_job r = None \<Longrightarrow> settled store (f r)" and "jobs_distinct store"
    and kept: "\<And>k y. find_job k (pw_store w) = Some y \<Longrightarrow> find_job k store = Some y"
    and fresh: "\<And>jid. job = Some jid \<Longrightarrow> find_job jid (pw_store w) = None"
  shows "portal_ok ((change_request i f w)\<lparr>pw_store := store\<rparr>)"
proof -
  let ?g = "\<lambda>x. if rq_id x = i then f x else x"
  have row: "rq_id x < pw_next_request w \<and> (if rq_id x = i then rq_job x = None else settled (pw_store w) x)"
    if "x \<in> set (pw_requests w)" for x using assms(1) that by (auto simp: portal_ok_but_def)
  have other: "rq_job x \<noteq> Some jid" if "x \<in> set (pw_requests w)" "job = Some jid" for x jid
    using row [OF that(1)] settled_job [of "pw_store w" x jid] fresh [OF that(2)] by (auto split: if_splits)
  have "apart (?g x) (?g y)" if "x \<in> set (pw_requests w)" "y \<in> set (pw_requests w)" "apart x y" for x y
    using that id row [OF that(1)] row [OF that(2)] other [OF that(1)] other [OF that(2)] job
    by (cases "job") (auto simp: apart_def split: if_splits)
  moreover have "sorted_wrt apart (pw_requests w)" using assms(1) by (simp add: portal_ok_but_def)
  ultimately have "sorted_wrt (\<lambda>x y. apart (?g x) (?g y)) (pw_requests w)" by (rule sorted_wrt_mono_rel)
  then have "sorted_wrt apart (pw_requests (change_request i f w))" by (simp add: change_request_def sorted_wrt_map)
  moreover have "rq_id x < pw_next_request w \<and> settled store x" if "x \<in> set (pw_requests (change_request i f w))" for x
  proof -
    from that obtain y where y: "y \<in> set (pw_requests w)" "x = ?g y" by (auto simp: change_request_def)
    show ?thesis using row [OF y(1)] y(2) id settles [of y] settled_mono [of "pw_store w" y store] kept
      by (auto split: if_splits)
  qed
  ultimately show ?thesis using assms(5) unfolding portal_ok_def by simp
qed

lemma launch_ok:
  assumes "portal_ok_but (rq_id r) w" and "launch_request env r w = (Inr r1, w1)" and "find_request (rq_id r) w = Some x"
  shows "portal_ok w1"
proof -
  have s: "jobs_distinct (pw_store w)" using assms(1) by (simp add: portal_ok_but_def)
  from assms(2,3) s show ?thesis
  proof (cases rule: launch_request_cases)
    case (failed c)
    have "portal_ok ((change_request (rq_id r) (\<lambda>r. r\<lparr>rq_status := RequestFailed\<rparr>) w)\<lparr>pw_store := pw_store w\<rparr>)"
      by (rule ok_but_settle [OF assms(1), where job = None]) (simp_all add: settled_def s)
    then show ?thesis unfolding failed(3) by (simp add: change_request_def)
  next
    case (launched c kind i t jid store j)
    have "mirrored_status (nj_status j) = None" using launched(7) by (auto simp: mirrored_status_def)
    then have "settled store (r\<lparr>rq_job := Some jid, rq_status := RequestRunning\<rparr>)" for r
      using launched(6) by (simp add: settled_def)
    then show ?thesis unfolding launched(3)
      by (intro ok_but_settle [OF assms(1), where job = "Some jid"]) (use launched in auto)
  qed
qed

section \<open>Steps\<close>

text \<open>A request to the server that fails changes no row.\<close>

definition same_rows :: "portal_world \<Rightarrow> portal_world \<Rightarrow> bool" where
  "same_rows w w' \<longleftrightarrow> (\<exists>st. w' = w\<lparr>pw_store := (pw_store w)\<lparr>st_survey := st\<rparr>\<rparr>)"

lemma same_rows_refl [simp]: "same_rows w w"
  unfolding same_rows_def by (rule exI [of _ "st_survey (pw_store w)"]) simp

lemma find_job_survey [simp]: "find_job i (s\<lparr>st_survey := x\<rparr>) = find_job i s"
  by (simp add: find_job_def)

lemma settled_survey [simp]: "settled (s\<lparr>st_survey := x\<rparr>) = settled s"
  by (rule ext) (auto simp: settled_def split: option.split)

lemma same_rows_ok: "same_rows w w' \<Longrightarrow> portal_ok w \<Longrightarrow> portal_ok w'"
  by (auto simp: same_rows_def portal_ok_def jobs_distinct_def ids_below_def)

lemma submit_view_cases:
  assumes "pe_atomic_requests env"
  obtains (nothing) "same_rows w (snd (submit_view env now u i vars answers why w))"
    | (submitted) c r w1 r' w2 where "c \<in> set (pw_items w)" and "ci_id c = i" and "ci_enabled c" and "sees_all u \<or> in_organization u c"
      and "rq_id r = pw_next_request w" and "rq_item r = i" and "rq_requested_by r = po_id u" and "rq_job r = None"
      and "rq_status r = PendingApproval" and "rq_extra_vars r = vars" and "rq_approved_by r = None"
      and "w1 = w\<lparr>pw_requests := pw_requests w @ [r], pw_next_request := Suc (pw_next_request w)\<rparr>"
      and "submit env now r w1 = (Inr r', w2)" and "snd (submit_view env now u i vars answers why w) = w2"
proof -
  let ?found = "find (\<lambda>c. ci_id c = i \<and> ci_enabled c \<and> (sees_all u \<or> in_organization u c)) (pw_items w)"
  show thesis
  proof (cases ?found)
    case None
    show thesis by (rule nothing) (use None in \<open>simp add: submit_view_def\<close>)
  next
    case (Some c)
    define r where "r = \<lparr>rq_id = pw_next_request w, rq_item = ci_id c, rq_requested_by = po_id u, rq_status = PendingApproval,
      rq_extra_vars = vars, rq_node_answers = (if json_true answers then answers else JObj []),
      rq_justification = why, rq_approved_by = None, rq_approved_at = None, rq_rejection_reason = [], rq_job = None\<rparr>"
    define w1 where "w1 = w\<lparr>pw_requests := pw_requests w @ [r], pw_next_request := Suc (pw_next_request w)\<rparr>"
    obtain x w2 where x: "submit env now r w1 = (x, w2)" by fastforce
    have v: "submit_view env now u i vars answers why w = portal_answer env (PortalCreated (rq_id r)) w (x, w2)"
      using Some x by (simp add: submit_view_def Let_def r_def w1_def)
    show thesis
    proof (cases x)
      case (Inr r')
      have c: "c \<in> set (pw_items w)" "ci_id c = i" "ci_enabled c" "sees_all u \<or> in_organization u c"
        using Some by (auto simp: find_Some_iff)
      show thesis by (rule submitted [OF c _ _ _ _ _ _ _ w1_def, of r' w2]) (use x v Inr c in \<open>simp_all add: r_def portal_answer_def\<close>)
    next
      case (Inl e)
      have "e = PortalCrash" using x Inl
        by (auto simp: submit_def save_fields_def launch_request_def split: option.splits if_splits prod.splits sum.splits)
      show thesis by (rule nothing) (use v Inl assms \<open>e = PortalCrash\<close> in \<open>auto simp: portal_answer_def same_rows_def\<close>)
    qed
  qed
qed

lemma approve_ok:
  assumes "approve env now u r w = (Inr r1, w1)"
  shows "rq_status r = PendingApproval" and "may_decide u r w"
    and "find_request (rq_id r) w \<noteq> None"
    and "launch_request env (r\<lparr>rq_approved_by := Some (po_id u), rq_approved_at := Some now, rq_status := Approved\<rparr>)
      (change_request (rq_id r) (\<lambda>r. r\<lparr>rq_approved_by := Some (po_id u), rq_approved_at := Some now, rq_status := Approved\<rparr>) w)
      = (Inr r1, w1)"
  using assms by (auto simp: approve_def save_fields_def split: if_splits)

lemma reject_ok:
  assumes "reject now u reason r w = (Inr r1, w1)"
  shows "rq_status r = PendingApproval" and "may_decide u r w"
    and "w1 = change_request (rq_id r) (\<lambda>r. r\<lparr>rq_approved_by := Some (po_id u), rq_approved_at := Some now,
      rq_rejection_reason := reason, rq_status := Rejected\<rparr>) w"
  using assms by (auto simp: reject_def save_fields_def split: if_splits)

lemma approve_view_cases:
  assumes "pe_atomic_requests env"
  obtains (nothing) "same_rows w (snd (approve_view env now u i w))"
    | (approved) r r1 w1 where "find_request i w = Some r" and "approve env now u r w = (Inr r1, w1)"
      and "snd (approve_view env now u i w) = w1"
proof (cases "find_request i w")
  case None
  show thesis by (rule nothing) (use None in \<open>simp add: approve_view_def\<close>)
next
  case (Some r)
  obtain x w1 where x: "approve env now u r w = (x, w1)" by fastforce
  show thesis
  proof (cases x)
    case (Inr r1)
    show thesis by (rule approved [OF Some]) (use x Inr Some in \<open>simp_all add: approve_view_def portal_answer_def\<close>)
  next
    case (Inl e)
    have "e \<noteq> PortalCrash \<Longrightarrow> w1 = w" using x Inl
      by (auto simp: approve_def save_fields_def launch_request_def split: option.splits if_splits prod.splits sum.splits)
    then have "same_rows w (snd (portal_answer env PortalDone w (x, w1)))"
      using Inl assms by (cases e) (auto simp: portal_answer_def, auto simp: same_rows_def)
    then have "same_rows w (snd (approve_view env now u i w))" using x Some by (simp add: approve_view_def)
    then show thesis by (rule nothing)
  qed
qed

lemma reject_view_cases:
  obtains (nothing) "same_rows w (snd (reject_view env now u reason i w))"
    | (rejected) r r1 w1 where "find_request i w = Some r" and "reject now u reason r w = (Inr r1, w1)"
      and "snd (reject_view env now u reason i w) = w1"
proof (cases "find_request i w")
  case None
  show thesis by (rule nothing) (use None in \<open>simp add: reject_view_def\<close>)
next
  case (Some r)
  obtain x w1 where x: "reject now u reason r w = (x, w1)" by fastforce
  show thesis
  proof (cases x)
    case (Inr r1)
    show thesis by (rule rejected [OF Some]) (use x Inr Some in \<open>simp_all add: reject_view_def portal_answer_def\<close>)
  next
    case (Inl e)
    have "e \<noteq> PortalCrash \<and> w1 = w" using x Inl find_request_id [OF Some] Some
      by (auto simp: reject_def save_fields_def split: if_splits)
    then have "same_rows w (snd (portal_answer env PortalDone w (x, w1)))" using Inl by (cases e) (auto simp: portal_answer_def)
    then have "same_rows w (snd (reject_view env now u reason i w))" using x Some by (simp add: reject_view_def)
    then show thesis by (rule nothing)
  qed
qed

lemma pending_ok_but:
  assumes "portal_ok w" and "find_request i w = Some r" and "rq_status r = PendingApproval"
  shows "portal_ok_but i w"
proof -
  have "r = y" if "y \<in> set (pw_requests w)" "rq_id y = i" for y
  proof -
    have "distinct (map rq_id (pw_requests w))" using assms(1) by (intro apart_distinct) (simp add: portal_ok_def)
    then show ?thesis using find_request_id [OF assms(2)] that by (auto simp: distinct_map dest: inj_onD)
  qed
  then show ?thesis using assms find_request_id [OF assms(2)] unfolding portal_ok_but_def portal_ok_def
    by (auto simp: settled_def)
qed

section \<open>The transition system\<close>

text \<open>
  The steps, for the users of a directory. Each view is one step: the requests of users are handled one after
  another. (The code takes no lock between the moment it loads a request and the moment it saves it; what two
  requests at a time can do is shown by the theorems \<open>two_approvals_two_jobs\<close> and \<open>rejected_request_launched\<close>.) The status of
  a job changes only while it has not ended, which is what the task system does except for the failed and
  run task of \<open>queued_job_failed_and_run\<close>. A job is deleted when it is new or has ended (\<open>UnifiedJobDeletionMixin\<close>).
\<close>

inductive portal_step :: "portal_env \<Rightarrow> (pk \<Rightarrow> portal_user) \<Rightarrow> portal_world \<Rightarrow> portal_world \<Rightarrow> bool" for env users where
  submits: "portal_step env users w (snd (submit_view env now (users k) i vars answers why w))"
| approves: "portal_step env users w (snd (approve_view env now (users k) i w))"
| rejects: "portal_step env users w (snd (reject_view env now (users k) reason i w))"
| deletes: "portal_step env users w (snd (delete_request (users k) i w))"
| adds_item: "i \<notin> ci_id ` set (pw_items w) \<Longrightarrow> portal_step env users w (snd (create_item env (users k) i d w))"
| changes_item: "portal_step env users w (snd (change_item env (users k) i d w))"
| deletes_item: "portal_step env users w (snd (delete_item env (users k) i w))"
| saves_job: "find_job jid (pw_store w) = Some j \<Longrightarrow> mirrored_status (nj_status j) = None \<Longrightarrow>
    portal_step env users w (save_job_status jid s w)"
| removes_job: "find_job jid (pw_store w) = Some j \<Longrightarrow> nj_status j = New \<or> mirrored_status (nj_status j) \<noteq> None \<Longrightarrow>
    portal_step env users w (remove_job jid w)"

definition empty_portal :: portal_world where
  "empty_portal = \<lparr>pw_items = [], pw_requests = [], pw_next_request = 1, pw_store = empty_store\<rparr>"

definition portal_reachable :: "portal_env \<Rightarrow> (pk \<Rightarrow> portal_user) \<Rightarrow> portal_world \<Rightarrow> bool" where
  "portal_reachable env users w \<longleftrightarrow> (portal_step env users)\<^sup>*\<^sup>* empty_portal w"

lemma submit_ok:
  assumes "portal_ok w" and "rq_id r = pw_next_request w" and "rq_job r = None" and "rq_status r = PendingApproval"
    and "submit env now r (w\<lparr>pw_requests := pw_requests w @ [r], pw_next_request := Suc (pw_next_request w)\<rparr>) = (Inr r1, w2)"
  shows "portal_ok w2"
proof -
  let ?w = "w\<lparr>pw_requests := pw_requests w @ [r], pw_next_request := Suc (pw_next_request w)\<rparr>"
  have but: "portal_ok_but (rq_id r) ?w"
    using assms(1-3) by (auto simp: portal_ok_def portal_ok_but_def sorted_wrt_append apart_def)
  have "find (\<lambda>x. rq_id x = rq_id r) (pw_requests w) = None"
    using assms(1,2) by (auto simp: portal_ok_def find_None_iff)
  then have row: "find_request (rq_id r) ?w = Some r" by (simp add: find_request_def find_appended)
  obtain c where c: "find_item (rq_item r) ?w = Some c"
    using assms(5) by (cases "find_item (rq_item r) ?w") (simp_all add: submit_def)
  show ?thesis
  proof (cases "ci_requires_approval c")
    case True
    then have w2: "w2 = change_request (rq_id r) (\<lambda>r. r\<lparr>rq_status := PendingApproval\<rparr>) ?w"
      using assms(5) c save_fields_found [OF row] by (simp add: submit_def)
    have "portal_ok ((change_request (rq_id r) (\<lambda>r. r\<lparr>rq_status := PendingApproval\<rparr>) ?w)\<lparr>pw_store := pw_store w\<rparr>)"
      by (rule ok_but_settle [OF but, where job = None]) (use assms(1) in \<open>simp_all add: settled_def portal_ok_def\<close>)
    then show ?thesis unfolding w2 by (simp add: change_request_def)
  next
    case False
    let ?f = "\<lambda>r. r\<lparr>rq_status := Approved, rq_approved_at := Some now\<rparr>"
    have l: "launch_request env (?f r) (change_request (rq_id r) ?f ?w) = (Inr r1, w2)"
      using assms(5) c False save_fields_found [OF row] by (simp add: submit_def)
    have "portal_ok_but (rq_id (?f r)) (change_request (rq_id r) ?f ?w)" using ok_but_change [OF but, of ?f] by simp
    from launch_ok [OF this l] row show ?thesis by (simp add: find_request_change)
  qed
qed

lemma approve_keeps_ok:
  assumes "portal_ok w" and "find_request i w = Some r" and "approve env now u r w = (Inr r1, w1)"
  shows "portal_ok w1"
proof -
  let ?f = "\<lambda>r. r\<lparr>rq_approved_by := Some (po_id u), rq_approved_at := Some now, rq_status := Approved\<rparr>"
  note a = approve_ok [OF assms(3)]
  have i: "rq_id r = i" using find_request_id [OF assms(2)] by simp
  have "portal_ok_but (rq_id (?f r)) (change_request (rq_id r) ?f w)"
    using ok_but_change [OF pending_ok_but [OF assms(1,2) a(1)], of ?f] i by simp
  from launch_ok [OF this a(4)] assms(2) i show ?thesis by (simp add: find_request_change)
qed

lemma reject_keeps_ok:
  assumes "portal_ok w" and "find_request i w = Some r" and "reject now u reason r w = (Inr r1, w1)"
  shows "portal_ok w1"
proof -
  note a = reject_ok [OF assms(3)]
  have i: "rq_id r = i" using find_request_id [OF assms(2)] by simp
  let ?f = "\<lambda>r. r\<lparr>rq_approved_by := Some (po_id u), rq_approved_at := Some now, rq_rejection_reason := reason, rq_status := Rejected\<rparr>"
  have "portal_ok ((change_request i ?f w)\<lparr>pw_store := pw_store w\<rparr>)"
    by (rule ok_but_settle [OF pending_ok_but [OF assms(1,2) a(1)], where job = None])
      (use assms(1) in \<open>simp_all add: settled_def portal_ok_def\<close>)
  then show ?thesis unfolding a(3) i by (simp add: change_request_def)
qed

lemma fewer_requests_ok:
  assumes "portal_ok w"
  shows "portal_ok (w\<lparr>pw_requests := filter P (pw_requests w)\<rparr>)" and "portal_ok (w\<lparr>pw_items := cs\<rparr>)"
  using assms by (auto simp: portal_ok_def sorted_wrt_filter)

lemma mapped_ok:
  assumes "portal_ok w" and "jobs_distinct s" and "\<And>r. settled (pw_store w) r \<Longrightarrow> settled s (h r)"
    and "\<And>r. rq_id (h r) = rq_id r" and "\<And>x y. apart x y \<Longrightarrow> apart (h x) (h y)"
  shows "portal_ok (w\<lparr>pw_store := s, pw_requests := map h (pw_requests w)\<rparr>)"
proof -
  have "sorted_wrt (\<lambda>x y. apart (h x) (h y)) (pw_requests w)"
    by (rule sorted_wrt_mono_rel [of _ apart]) (use assms(1,5) in \<open>auto simp: portal_ok_def\<close>)
  then show ?thesis using assms(1-4) by (auto simp: portal_ok_def sorted_wrt_map)
qed

lemma find_mapped:
  "(\<And>j. nj_id (g j) = nj_id j) \<Longrightarrow> find (\<lambda>j. nj_id j = i) (map g js) = map_option g (find (\<lambda>j. nj_id j = i) js)"
  by (induction js) auto

lemma find_filtered: "i \<noteq> k \<Longrightarrow> find (\<lambda>j. nj_id j = i) (filter (\<lambda>j. nj_id j \<noteq> k) js) = find (\<lambda>j. nj_id j = i) js"
  by (induction js) auto

lemma save_job_ok:
  assumes "portal_ok w" and "find_job jid (pw_store w) = Some j" and "mirrored_status (nj_status j) = None"
  shows "portal_ok (save_job_status jid s w)"
proof -
  let ?g = "\<lambda>j. if nj_id j = jid then j\<lparr>nj_status := s\<rparr> else j"
  let ?s = "(pw_store w)\<lparr>st_jobs := map ?g (st_jobs (pw_store w))\<rparr>"
  have finds: "find_job i ?s = map_option ?g (find_job i (pw_store w))" for i
    by (simp add: find_job_def find_mapped)
  have found: "find_job jid ?s = Some (j\<lparr>nj_status := s\<rparr>)" using finds assms(2) find_job_id [OF assms(2)] by simp
  let ?h = "\<lambda>r. if rq_job r = Some jid \<and> \<not> request_terminal (rq_status r) then sync_status ?s r else r"
  have same: "rq_id (?h r) = rq_id r \<and> rq_job (?h r) = rq_job r" for r
    by (simp add: sync_status_def split: option.split)
  have "map nj_id (map ?g (st_jobs (pw_store w))) = map nj_id (st_jobs (pw_store w))" by simp
  then have store: "jobs_distinct ?s" using assms(1) unfolding portal_ok_def jobs_distinct_def by (auto simp: ids_below_def simp del: map_map)
  have row: "settled ?s (?h r)" if "settled (pw_store w) r" for r
  proof (cases "rq_job r = Some jid")
    case True
    with that assms(2,3) have "rq_status r = RequestRunning" by (auto simp: settled_def split: if_splits)
    with True found show ?thesis
      by (auto simp: settled_def sync_status_def request_terminal_def mirrored_status_def split: job_status.splits)
  next
    case False
    with that show ?thesis
      by (auto simp: settled_def finds dest: find_job_id split: option.splits if_splits)
  qed
  have synced: "portal_ok (w\<lparr>pw_store := ?s, pw_requests := map ?h (pw_requests w)\<rparr>)"
    by (rule mapped_ok [OF assms(1) store row]) (use same in \<open>auto simp: apart_def\<close>)
  have id: "map ?h (pw_requests w) = pw_requests w" if "mirrored_status s = None"
    using that found by (intro map_idI) (auto simp: sync_status_def)
  show ?thesis
  proof (cases "mirrored_status s")
    case None
    then have "save_job_status jid s w = w\<lparr>pw_store := ?s, pw_requests := map ?h (pw_requests w)\<rparr>"
      using found unfolding id [OF None] by (simp add: save_job_status_def sync_on_save_def)
    with synced show ?thesis by simp
  next
    case (Some m)
    then have "save_job_status jid s w = w\<lparr>pw_store := ?s, pw_requests := map ?h (pw_requests w)\<rparr>"
      using found by (simp add: save_job_status_def sync_on_save_def)
    with synced show ?thesis by simp
  qed
qed

lemma remove_job_ok:
  assumes "portal_ok w"
  shows "portal_ok (remove_job jid w)"
proof -
  let ?s = "(pw_store w)\<lparr>st_jobs := filter (\<lambda>j. nj_id j \<noteq> jid) (st_jobs (pw_store w))\<rparr>"
  let ?h = "\<lambda>r. if rq_job r = Some jid then r\<lparr>rq_job := None\<rparr> else r"
  have finds: "find_job i ?s = find_job i (pw_store w)" if "i \<noteq> jid" for i
    using that by (simp add: find_job_def find_filtered)
  have row: "settled ?s (?h r)" if "settled (pw_store w) r" for r
    using that by (auto simp: settled_def finds split: option.splits if_splits)
  have store: "jobs_distinct ?s"
    using assms by (auto simp: portal_ok_def jobs_distinct_def ids_below_def distinct_map_filter)
  show ?thesis unfolding remove_job_def
    by (rule mapped_ok [OF assms store row]) (auto simp: apart_def)
qed

lemma portal_step_ok:
  assumes "portal_step env users w w'" and "pe_atomic_requests env" and "portal_ok w"
  shows "portal_ok w'"
  using assms(1)
proof cases
  case (submits now k i vars answers why)
  show ?thesis
    by (rule submit_view_cases [OF assms(2), where w = w and now = now and u = "users k" and i = i and vars = vars and answers = answers and why = why])
      (use submits assms(3) same_rows_ok submit_ok in blast)+
next
  case (approves now k i)
  show ?thesis
    by (rule approve_view_cases [OF assms(2), where w = w and now = now and u = "users k" and i = i])
      (use approves assms(3) same_rows_ok approve_keeps_ok in blast)+
next
  case (rejects now k reason i)
  show ?thesis
    by (rule reject_view_cases [where w = w and now = now and u = "users k" and i = i and reason = reason])
      (use rejects assms(3) same_rows_ok reject_keeps_ok in blast)+
next
  case (deletes k i)
  then show ?thesis using assms(3) fewer_requests_ok(1) by (auto simp: delete_request_def split: option.split)
next
  case (adds_item i k d)
  then show ?thesis using assms(3) fewer_requests_ok(2) by (auto simp: create_item_def)
next
  case (changes_item k i d)
  then show ?thesis using assms(3) fewer_requests_ok(2) by (auto simp: change_item_def split: option.split)
next
  case (deletes_item k i)
  then show ?thesis using fewer_requests_ok(1) [OF fewer_requests_ok(2) [OF assms(3)]] assms(3)
    by (auto simp: delete_item_def split: option.split)
next
  case (saves_job jid j s)
  then show ?thesis using save_job_ok [OF assms(3)] by simp
next
  case (removes_job jid j)
  then show ?thesis using remove_job_ok [OF assms(3)] by simp
qed

lemma portal_reachable_ok:
  assumes "portal_reachable env users w" and "pe_atomic_requests env"
  shows "portal_ok w"
  using assms(1) unfolding portal_reachable_def
proof (induction rule: rtranclp_induct)
  case base
  show ?case by (simp add: portal_ok_def empty_portal_def empty_store_def jobs_distinct_def ids_below_def)
next
  case (step w w')
  from portal_step_ok [OF step(2) assms(2) step(3)] show ?case .
qed

end
