(* ===== verification/Catalog_Runs.thy ===== *)
theory Catalog_Runs
  imports Catalog_Correct
begin

text \<open>
  The properties of the portal: the status of a request and of its job, who launches what, and runs in
  which a request goes astray.
\<close>

section \<open>Status\<close>

text \<open>
  C19. The status of a request is that of its job, in every state that the portal reaches when the requests of users are
  handled one after another, each in a transaction, and a job that has ended keeps its status. Then a request that
  waits or was rejected has no job; with a job, it runs as long as the job has not ended, and then shows how the
  job ended; no two requests share a job. (Overlapping approvals and rejections break this, as the theorems
  \<open>two_approvals_two_jobs\<close> and \<open>rejected_request_launched\<close> show.)
\<close>

theorem request_status_mirrors_job:
  assumes "portal_reachable env users w" and "pe_atomic_requests env" and "r \<in> set (pw_requests w)"
  shows "rq_status r \<noteq> Approved \<and> (rq_status r \<in> {PendingApproval, Rejected} \<longrightarrow> rq_job r = None) \<and>
    (\<forall>jid. rq_job r = Some jid \<longrightarrow>
      (\<exists>j. find_job jid (pw_store w) = Some j \<and>
        rq_status r = (case mirrored_status (nj_status j) of None \<Rightarrow> RequestRunning | Some st \<Rightarrow> st)) \<and>
      (\<forall>r' \<in> set (pw_requests w). rq_job r' = Some jid \<longrightarrow> r' = r))"
proof -
  have ok: "portal_ok w" by (rule portal_reachable_ok [OF assms(1,2)])
  then have s: "settled (pw_store w) r" using assms(3) by (simp add: portal_ok_def)
  have "r' = r" if r': "r' \<in> set (pw_requests w)" "rq_job r' = Some jid" "rq_job r = Some jid" for r' jid
  proof -
    have "sorted_wrt apart (pw_requests w)" using ok by (simp add: portal_ok_def)
    from sorted_wrt_two [OF this r'(1) assms(3)] r'(2,3) show ?thesis by (auto simp: apart_def)
  qed
  with s show ?thesis by (auto simp: settled_def split: if_splits option.splits)
qed

section \<open>Who launches what\<close>

lemma launch_items: "pw_items (snd (launch_request env r w)) = pw_items w"
  by (auto simp: launch_request_def save_fields_def split: option.split prod.split sum.split)

lemma portal_answer_items:
  assumes "pw_items (snd p) = pw_items w"
  shows "pw_items (snd (portal_answer env ok w p)) = pw_items w"
  using assms by (cases p; cases "fst p") (auto simp: portal_answer_def split: portal_error.split)

text \<open>The items of the catalog have their identifiers to themselves.\<close>

lemma portal_step_items:
  assumes "portal_step env users w w'" and "distinct (map ci_id (pw_items w))"
  shows "distinct (map ci_id (pw_items w'))"
  using assms(1)
proof cases
  case (submits now k i vars answers why)
  have "pw_items w' = pw_items w" unfolding submits submit_view_def
    by (auto simp: Let_def submit_def save_fields_def launch_items intro!: portal_answer_items split: option.split)
      (auto simp: change_request_def)?
  with assms(2) show ?thesis by simp
next
  case (approves now k i)
  have "pw_items w' = pw_items w" unfolding approves approve_view_def
    by (auto simp: approve_def save_fields_def launch_items intro!: portal_answer_items split: option.split)
  with assms(2) show ?thesis by simp
next
  case (rejects now k reason i)
  have "pw_items w' = pw_items w" unfolding rejects reject_view_def
    by (auto simp: reject_def save_fields_def intro!: portal_answer_items split: option.split)
  with assms(2) show ?thesis by simp
next
  case (changes_item k i d)
  have "map ci_id (map (\<lambda>c. if ci_id c = i then apply_item_data d c else c) cs) = map ci_id cs" for cs
    by (induction cs) (auto simp: apply_item_data_def)
  then show ?thesis using changes_item assms(2) by (auto simp: change_item_def simp del: map_map split: option.split)
next
  case (adds_item i k d)
  then show ?thesis using assms(2) by (auto simp: create_item_def apply_item_data_def)
next
  case (saves_job jid j s)
  then show ?thesis using assms(2) by (auto simp: save_job_status_def sync_on_save_def split: option.split)
qed (use assms(2) in \<open>auto simp: delete_request_def delete_item_def remove_job_def distinct_map_filter split: option.split\<close>)

lemma portal_reachable_items:
  assumes "portal_reachable env users w"
  shows "distinct (map ci_id (pw_items w))"
  using assms unfolding portal_reachable_def
proof (induction rule: rtranclp_induct)
  case base
  show ?case by (simp add: empty_portal_def)
next
  case (step w w')
  from portal_step_items [OF step(2,3)] show ?case .
qed

lemma launch_new_job:
  assumes "launch_request env r w = (Inr r1, w1)" and "find_request (rq_id r) w = Some x" and "jobs_distinct (pw_store w)"
    and "r' \<in> set (pw_requests w1)" and "rq_job r' = Some jid"
  shows "(\<exists>y \<in> set (pw_requests w). rq_id y = rq_id r' \<and> rq_job y = Some jid) \<or>
    (\<exists>y c kind i j. y \<in> set (pw_requests w) \<and> rq_id y = rq_id r \<and>
      r' = y\<lparr>rq_job := Some jid, rq_status := RequestRunning\<rparr> \<and> find_item (rq_item r) w = Some c \<and>
      underlying_template c = Some (kind, i) \<and> find_job jid (pw_store w1) = Some j \<and> nj_template j = i)"
  using assms(1-3)
proof (cases rule: launch_request_cases)
  case (failed c)
  with assms(4,5) show ?thesis by (auto simp: change_request_def split: if_splits)
next
  case (launched c kind i t job store j)
  from assms(4) obtain y where y: "y \<in> set (pw_requests w)"
    "r' = (if rq_id y = rq_id r then y\<lparr>rq_job := Some job, rq_status := RequestRunning\<rparr> else y)"
    by (auto simp: launched(3) change_request_def)
  show ?thesis
  proof (cases "rq_id y = rq_id r")
    case True
    with y assms(5) have r': "r' = y\<lparr>rq_job := Some jid, rq_status := RequestRunning\<rparr>" "job = jid" by auto
    have "find_job jid (pw_store w1) = Some j \<and> underlying_template c = Some (kind, i)"
      using launched(2,3,6) r'(2) by (simp add: template_ready_def)
    with r'(1) y(1) True launched(1,8) show ?thesis by blast
  next
    case False
    with y assms(5) show ?thesis by auto
  qed
qed

definition may_request :: "portal_user \<Rightarrow> catalog_item \<Rightarrow> bool" where
  "may_request u c \<longleftrightarrow> ci_enabled c \<and> (sees_all u \<or> in_organization u c)"

definition authorized_launch :: "(pk \<Rightarrow> portal_user) \<Rightarrow> portal_world \<Rightarrow> portal_world \<Rightarrow> service_request \<Rightarrow> pk \<Rightarrow> bool" where
  "authorized_launch users w w' r' jid \<longleftrightarrow>
     (\<exists>c kind i j. c \<in> set (pw_items w) \<and> ci_id c = rq_item r' \<and> underlying_template c = Some (kind, i) \<and>
        find_job jid (pw_store w') = Some j \<and> nj_template j = i \<and>
        ((\<not> ci_requires_approval c \<and> may_request (users (rq_requested_by r')) c) \<or>
         (\<exists>k r. rq_approved_by r' = Some k \<and> can_user_approve (Some (users k)) c \<and>
           r \<in> set (pw_requests w) \<and> rq_id r = rq_id r' \<and> rq_status r = PendingApproval)))"

lemma found_item: "find_item i w = Some c \<Longrightarrow> c \<in> set (pw_items w) \<and> ci_id c = i"
  by (auto simp: find_item_def find_Some_iff)

lemma submit_authorized:
  assumes ok: "portal_ok w" "distinct (map ci_id (pw_items w))" and c: "c \<in> set (pw_items w)" "ci_id c = rq_item r" "may_request (users k) c"
    and r: "rq_id r = pw_next_request w" "rq_requested_by r = k" "rq_job r = None"
    and w1: "w1 = w\<lparr>pw_requests := pw_requests w @ [r], pw_next_request := Suc (pw_next_request w)\<rparr>"
    and s: "submit env now r w1 = (Inr r1, w2)"
    and r': "r' \<in> set (pw_requests w2)" "rq_job r' = Some jid"
    and old: "\<forall>x \<in> set (pw_requests w). rq_id x = rq_id r' \<longrightarrow> rq_job x \<noteq> Some jid"
  shows "authorized_launch users w w2 r' jid"
proof -
  have new: "\<forall>y \<in> set (pw_requests w). rq_id y \<noteq> rq_id r" using ok(1) r(1) by (auto simp: portal_ok_def)
  then have "find (\<lambda>x. rq_id x = rq_id r) (pw_requests w) = None" by (simp add: find_None_iff)
  then have row: "find_request (rq_id r) w1 = Some r" by (simp add: w1 find_request_def find_appended)
  obtain c' where c': "find_item (rq_item r) w1 = Some c'"
    using s by (cases "find_item (rq_item r) w1") (simp_all add: submit_def)
  then have "c' \<in> set (pw_items w)" "ci_id c' = ci_id c" using found_item [OF c'] c(2) by (simp_all add: w1)
  with c(1) ok(2) have "c' = c" by (auto simp: distinct_map dest: inj_onD)
  show ?thesis
  proof (cases "ci_requires_approval c")
    case True
    then have "w2 = change_request (rq_id r) (\<lambda>r. r\<lparr>rq_status := PendingApproval\<rparr>) w1"
      using s c' \<open>c' = c\<close> save_fields_found [OF row] by (simp add: submit_def)
    then show ?thesis using r' old r(3) by (auto simp: change_request_def w1 split: if_splits)
  next
    case False
    let ?f = "\<lambda>r. r\<lparr>rq_status := Approved, rq_approved_at := Some now\<rparr>"
    let ?w = "change_request (rq_id r) ?f w1"
    have l: "launch_request env (?f r) ?w = (Inr r1, w2)"
      using s c' \<open>c' = c\<close> False save_fields_found [OF row] by (simp add: submit_def)
    have row': "find_request (rq_id (?f r)) ?w = Some (?f r)" using row by (simp add: find_request_change)
    have "jobs_distinct (pw_store ?w)" using ok(1) by (simp add: w1 portal_ok_def)
    note launch_new_job [OF l row' this r']
    moreover have "\<forall>y \<in> set (pw_requests ?w). rq_id y = rq_id r' \<longrightarrow> rq_job y \<noteq> Some jid"
      using old r(3) by (auto simp: change_request_def w1)
    moreover have "find_item (rq_item (?f r)) ?w = Some c" using c' \<open>c' = c\<close> by simp
    moreover have "rq_id (?f r) = rq_id r" by simp
    ultimately obtain y kind t j where y: "y \<in> set (pw_requests ?w)" "rq_id y = rq_id r" "r' = y\<lparr>rq_job := Some jid, rq_status := RequestRunning\<rparr>"
      "underlying_template c = Some (kind, t)" "find_job jid (pw_store w2) = Some j" "nj_template j = t"
      by (metis option.inject)
    have "y = ?f r" using y(1,2) new by (auto simp: change_request_def w1 split: if_splits)
    then have "rq_item r' = rq_item r" "rq_requested_by r' = k" using y(3) r(2) by simp_all
    with c False y(4-6) show ?thesis unfolding authorized_launch_def
      by (intro exI [of _ c] exI [of _ kind] exI [of _ t] exI [of _ j] conjI disjI1) simp_all
  qed
qed

lemma approve_authorized:
  assumes ok: "portal_ok w" and r: "find_request i w = Some r" and a: "approve env now u r w = (Inr r1, w1)" and u: "u = users (po_id u)"
    and r': "r' \<in> set (pw_requests w1)" "rq_job r' = Some jid"
    and old: "\<forall>x \<in> set (pw_requests w). rq_id x = rq_id r' \<longrightarrow> rq_job x \<noteq> Some jid"
  shows "authorized_launch users w w1 r' jid"
proof -
  let ?f = "\<lambda>r. r\<lparr>rq_approved_by := Some (po_id u), rq_approved_at := Some now, rq_status := Approved\<rparr>"
  let ?w = "change_request (rq_id r) ?f w"
  note p = approve_ok [OF a]
  have i: "rq_id r = i" "r \<in> set (pw_requests w)" using find_request_id [OF r] by simp_all
  have row: "find_request (rq_id (?f r)) ?w = Some (?f r)" using r i by (simp add: find_request_change)
  have "jobs_distinct (pw_store ?w)" using ok by (simp add: portal_ok_def)
  note launch_new_job [OF p(4) row this r']
  moreover have "\<forall>y \<in> set (pw_requests ?w). rq_id y = rq_id r' \<longrightarrow> rq_job y \<noteq> Some jid"
    using old by (auto simp: change_request_def)
  moreover have "find_item (rq_item (?f r)) ?w = find_item (rq_item r) w" "rq_id (?f r) = rq_id r" by simp_all
  ultimately obtain y c kind t j where
    y: "y \<in> set (pw_requests ?w)" "rq_id y = rq_id r" "r' = y\<lparr>rq_job := Some jid, rq_status := RequestRunning\<rparr>"
      "find_item (rq_item r) w = Some c" "underlying_template c = Some (kind, t)" "find_job jid (pw_store w1) = Some j" "nj_template j = t"
    by metis
  from y(1,2) obtain x where x: "x \<in> set (pw_requests w)" "y = ?f x" "rq_id x = rq_id r"
    by (auto simp: change_request_def split: if_splits)
  have "distinct (map rq_id (pw_requests w))" using ok by (intro apart_distinct) (simp add: portal_ok_def)
  with x i have "x = r" by (auto simp: distinct_map dest: inj_onD)
  with x y(3) have "rq_item r' = rq_item r" "rq_id r' = rq_id r" "rq_approved_by r' = Some (po_id u)" by simp_all
  moreover have "can_user_approve (Some (users (po_id u))) c" using p(2) y(4) u by (simp add: may_decide_def)
  moreover have "c \<in> set (pw_items w)" "ci_id c = rq_item r" using found_item [OF y(4)] by simp_all
  ultimately show ?thesis unfolding authorized_launch_def using i(2) p(1) y(5-7)
    by (intro exI [of _ c] exI [of _ kind] exI [of _ t] exI [of _ j] conjI disjI2 exI [of _ "po_id u"] exI [of _ r]) simp_all
qed

text \<open>
  C18. No job starts through the portal without permission, when the requests of users are handled one after
  another, each in a transaction. When a request gets a job, the job is of the template of its
  item; and the item is enabled, needs no approval and is visible to the requester, or the request was pending
  and its approver is someone who may approve it.
\<close>

theorem portal_launch_authorized:
  assumes "portal_reachable env users w" and "portal_step env users w w'" and "pe_atomic_requests env" and "\<forall>k. po_id (users k) = k"
    and "r' \<in> set (pw_requests w')" and "rq_job r' = Some jid"
    and "\<forall>r \<in> set (pw_requests w). rq_id r = rq_id r' \<longrightarrow> rq_job r \<noteq> Some jid"
  shows "authorized_launch users w w' r' jid"
proof -
  have ok: "portal_ok w" by (rule portal_reachable_ok [OF assms(1,3)])
  have items: "distinct (map ci_id (pw_items w))" by (rule portal_reachable_items [OF assms(1)])
  have old: "rq_job r \<noteq> Some jid" if "r \<in> set (pw_requests w)" "rq_id r = rq_id r'" for r using assms(7) that by blast
  have same: False if "pw_requests w' = pw_requests w" using old assms(5,6) that by auto
  from assms(2) show ?thesis
  proof cases
    case (submits now k i vars answers why)
    from assms(3) show ?thesis
    proof (rule submit_view_cases [where w = w and now = now and u = "users k" and i = i and vars = vars
          and answers = answers and why = why])
      assume "same_rows w (snd (submit_view env now (users k) i vars answers why w))"
      then show ?thesis using same submits by (auto simp: same_rows_def)
    next
      fix c r w1 r1 w2
      assume c: "c \<in> set (pw_items w)" "ci_id c = i" "ci_enabled c" "sees_all (users k) \<or> in_organization (users k) c"
        and r: "rq_id r = pw_next_request w" "rq_item r = i" "rq_requested_by r = po_id (users k)" "rq_job r = None"
        and w1: "w1 = w\<lparr>pw_requests := pw_requests w @ [r], pw_next_request := Suc (pw_next_request w)\<rparr>"
        and s: "submit env now r w1 = (Inr r1, w2)" and w2: "snd (submit_view env now (users k) i vars answers why w) = w2"
      have "may_request (users k) c" using c(3,4) by (simp add: may_request_def)
      from submit_authorized [where users = users and k = k, OF ok items c(1) _ this r(1) _ r(4) w1 s _ assms(6,7)] show ?thesis
        using c(2) r(2,3) assms(4,5) submits w2 by simp
    qed
  next
    case (approves now k i)
    from assms(3) show ?thesis
    proof (rule approve_view_cases [where w = w and now = now and u = "users k" and i = i])
      assume "same_rows w (snd (approve_view env now (users k) i w))"
      then show ?thesis using same approves by (auto simp: same_rows_def)
    next
      fix r r1 w1
      assume r: "find_request i w = Some r" "approve env now (users k) r w = (Inr r1, w1)"
        and w1: "snd (approve_view env now (users k) i w) = w1"
      from approve_authorized [where users = users, OF ok r _ _ assms(6,7)] show ?thesis using assms(4,5) approves w1 by simp
    qed
  next
    case (rejects now k reason i)
    show ?thesis
      by (rule reject_view_cases [where env = env and w = w and now = now and u = "users k" and i = i and reason = reason])
        (use rejects assms(5,6) old same in \<open>auto simp: same_rows_def change_request_def dest!: reject_ok(3) split: if_splits\<close>)
  next
    case (saves_job job j s)
    then have "map rq_id (pw_requests w') = map rq_id (pw_requests w) \<and> map rq_job (pw_requests w') = map rq_job (pw_requests w)"
      by (auto simp: save_job_status_def sync_on_save_def sync_status_def split: option.split)
    then show ?thesis using assms(5,6) old by (metis in_set_conv_nth length_map nth_map)
  qed (use assms(5,6) old in \<open>auto simp: delete_request_def delete_item_def create_item_def change_item_def remove_job_def
      split: option.splits if_splits\<close>)
qed

section \<open>Requests that go astray\<close>

lemma encrypt_no_names [simp]: "encrypt_dict c nonce d [] = Inr d"
  by (induction d) auto

lemma create_job_plain:
  assumes "asked_elements (la_holder t) = []"
  obtains x where "create_job tools t b vars s =
      (Some (st_next_job s), s\<lparr>st_jobs := st_jobs s @ [x], st_next_job := Suc (st_next_job s)\<rparr>)"
    and "nj_id x = st_next_job s" and "nj_status x = New" and "nj_template x = nj_template b" and "nj_nodes x = la_nodes t"
proof -
  obtain v where "create_survey_job (lt_crypto tools) (lt_nonce tools) (lt_survey tools) (la_holder t) vars [] (st_survey s) = (Inr v, st_survey s)"
    by (simp add: create_survey_job_def survey_password_variables_def assms update_unified_job_kwargs_def)
  then have "create_job tools t b vars s = (Some (st_next_job s), s\<lparr>st_jobs := st_jobs s @
      [b\<lparr>nj_id := st_next_job s, nj_variables := v, nj_nodes := la_nodes t, nj_status := New\<rparr>], st_next_job := Suc (st_next_job s)\<rparr>)"
    by (simp add: create_job_def)
  then show thesis by (rule that) simp_all
qed

text \<open>
  Node answers that are no dictionary leave a job behind. A workflow request whose node answers are a number is launched
  twice: the first job is never linked to the request and stays new, the second one is the request's.
\<close>

theorem node_answers_leave_ghost:
  assumes "find_item (rq_item r) w = Some c" and "underlying_template c = Some (WorkflowKind, i)" and "pe_template env WorkflowKind i = Some t"
    and "asked_elements (la_holder t) = []" and "la_nodes t \<noteq> []" and "rq_node_answers r = JInt n" and "n \<noteq> 0"
    and "find_request (rq_id r) w = Some x" and "jobs_distinct (pw_store w)" and "k = st_next_job (pw_store w)"
  shows "\<exists>r1 w1 j1 j2. launch_request env r w = (Inr r1, w1) \<and> rq_job r1 = Some (Suc k) \<and>
    find_job k (pw_store w1) = Some j1 \<and> nj_template j1 = i \<and> nj_status j1 = New \<and>
    find_job (Suc k) (pw_store w1) = Some j2 \<and> nj_template j2 = i"
proof -
  let ?b = "origin i ''manual'' [] [] (Some (rq_requested_by r))" and ?s = "pw_store w" and ?tools = "pe_tools env"
  obtain x1 where x1: "create_job ?tools t ?b (rq_extra_vars r) ?s = (Some k, ?s\<lparr>st_jobs := st_jobs ?s @ [x1], st_next_job := Suc k\<rparr>)"
    "nj_id x1 = k" "nj_status x1 = New" "nj_template x1 = i" "nj_nodes x1 = la_nodes t"
    using create_job_plain [OF assms(4), of ?tools ?b "rq_extra_vars r" ?s] assms(10) by (auto simp: origin_def)
  have nodes: "answer_nodes (JInt n) (la_nodes t) = (la_nodes t, False)"
    using assms(5) by (cases "la_nodes t") (auto simp: answer_node_def)
  have same: "set_nodes k (la_nodes t) (?s\<lparr>st_jobs := st_jobs ?s @ [x1], st_next_job := Suc k\<rparr>) = ?s\<lparr>st_jobs := st_jobs ?s @ [x1], st_next_job := Suc k\<rparr>"
  proof -
    have "map (\<lambda>j. if nj_id j = k then j\<lparr>nj_nodes := la_nodes t\<rparr> else j) (st_jobs ?s) = st_jobs ?s"
      using assms(9,10) by (intro map_idI) (auto simp: jobs_distinct_def ids_below_def)
    then show ?thesis using x1(5) by (simp add: set_nodes_def)
  qed
  let ?s1 = "?s\<lparr>st_jobs := st_jobs ?s @ [x1], st_next_job := Suc k\<rparr>"
  obtain x2 where x2: "create_job ?tools t ?b (variables_after ?tools t (rq_extra_vars r) (st_survey ?s)) ?s1 =
      (Some (Suc k), ?s1\<lparr>st_jobs := st_jobs ?s1 @ [x2], st_next_job := Suc (Suc k)\<rparr>)"
    "nj_id x2 = Suc k" "nj_status x2 = New" "nj_template x2 = i"
    using create_job_plain [OF assms(4), of ?tools ?b "variables_after ?tools t (rq_extra_vars r) (st_survey ?s)" ?s1]
    by (auto simp: origin_def)
  let ?s2 = "?s1\<lparr>st_jobs := st_jobs ?s1 @ [x2], st_next_job := Suc (Suc k)\<rparr>"
  have created: "create_requested_job env WorkflowKind i t r ?s = (Some (Suc k), ?s2)"
    using assms(6,7) nodes same x1(1) x2(1) by (simp add: create_requested_job_def Let_def create_workflow_job_def)
  have row: "find_request (rq_id r) (w\<lparr>pw_store := ?s2\<rparr>) = Some x" using assms(8) by (simp add: find_request_def)
  have none: "find (\<lambda>j. nj_id j = k) (st_jobs ?s) = None" "find (\<lambda>j. nj_id j = Suc k) (st_jobs ?s) = None"
    using assms(9,10) by (auto simp: find_None_iff jobs_distinct_def ids_below_def)
  then have jobs: "find_job k ?s2 = Some x1" "find_job (Suc k) ?s2 = Some x2" using x1(2) x2(2) by (simp_all add: find_job_def find_appended)
  note started = start_created_finds [OF jobs(2) x2(3), of _ t]
  have "launch_request env r w = (Inr (r\<lparr>rq_job := Some (Suc k), rq_status := RequestRunning\<rparr>),
      (change_request (rq_id r) (\<lambda>r. r\<lparr>rq_job := Some (Suc k), rq_status := RequestRunning\<rparr>) (w\<lparr>pw_store := ?s2\<rparr>))
        \<lparr>pw_store := snd (start_created t (Suc k) ?s2)\<rparr>)"
    using assms(1-3) created save_fields_found [OF row] by (simp add: launch_request_def)
  then show ?thesis using started [of k] started [of "Suc k"] jobs x1(3,4) x2(4) by auto
qed

lemma approve_effect:
  assumes "approve env now u r w = (Inr r', w')" and "find_request (rq_id r) w = Some x" and "jobs_distinct (pw_store w)"
    and "find_item (rq_item r) w = Some c" and "underlying_template c \<noteq> None"
  obtains job store j where "w' = (change_request (rq_id r) (\<lambda>r. r\<lparr>rq_approved_by := Some (po_id u), rq_approved_at := Some now,
        rq_job := Some job, rq_status := RequestRunning\<rparr>) w)\<lparr>pw_store := store\<rparr>" and "jobs_distinct store"
    and "find_job job (pw_store w) = None" and "find_job job store = Some j"
    and "\<And>k y. find_job k (pw_store w) = Some y \<Longrightarrow> find_job k store = Some y"
proof -
  let ?f = "\<lambda>r. r\<lparr>rq_approved_by := Some (po_id u), rq_approved_at := Some now, rq_status := Approved\<rparr>"
  let ?w = "change_request (rq_id r) ?f w"
  note a = approve_ok [OF assms(1)]
  have row: "find_request (rq_id (?f r)) ?w = Some (?f x)" using assms(2) by (simp add: find_request_change)
  have "jobs_distinct (pw_store ?w)" using assms(3) by simp
  from a(4) row this show thesis
  proof (cases rule: launch_request_cases)
    case (failed d)
    with assms(4,5) show thesis by simp
  next
    case (launched d kind k t job store j)
    have "w' = (change_request (rq_id r) (\<lambda>r. r\<lparr>rq_approved_by := Some (po_id u), rq_approved_at := Some now,
        rq_job := Some job, rq_status := RequestRunning\<rparr>) w)\<lparr>pw_store := store\<rparr>"
      unfolding launched(3) by (auto simp: change_request_def)
    from that [OF this launched(4)] launched(5,6,10) show thesis by simp
  qed
qed

text \<open>
  An approval acts on what its view has loaded. Two approvals of one request, both loaded while it was pending, start two
  jobs, of which the request knows only the second.
\<close>

theorem two_approvals_two_jobs:
  assumes "portal_ok w" and "find_request i w = Some r" and "find_item (rq_item r) w = Some c" and "underlying_template c \<noteq> None"
    and "approve env now u r w = (Inr r1, w1)" and "approve env later u' r w1 = (Inr r2, w2)"
  shows "\<exists>j1 j2. j1 \<noteq> j2 \<and> find_job j1 (pw_store w) = None \<and> find_job j1 (pw_store w2) \<noteq> None \<and> find_job j2 (pw_store w2) \<noteq> None \<and>
    map_option rq_job (find_request i w2) = Some (Some j2) \<and> (\<forall>x \<in> set (pw_requests w2). rq_job x \<noteq> Some j1)"
proof -
  have jobs: "jobs_distinct (pw_store w)" using assms(1) by (simp add: portal_ok_def)
  have i: "rq_id r = i" using find_request_id [OF assms(2)] by simp
  have r: "find_request (rq_id r) w = Some r" using assms(2) i by simp
  from approve_effect [OF assms(5) r jobs assms(3,4)] obtain j1 s1 y where
    one: "w1 = (change_request (rq_id r) (\<lambda>r. r\<lparr>rq_approved_by := Some (po_id u), rq_approved_at := Some now,
        rq_job := Some j1, rq_status := RequestRunning\<rparr>) w)\<lparr>pw_store := s1\<rparr>" "jobs_distinct s1" "find_job j1 (pw_store w) = None"
      "find_job j1 s1 = Some y" by metis
  have row: "find_request (rq_id r) w1 \<noteq> None" using r by (simp add: one(1) find_request_change)
  then obtain x where x: "find_request (rq_id r) w1 = Some x" by auto
  have store: "jobs_distinct (pw_store w1)" and item: "find_item (rq_item r) w1 = Some c"
    using one(2) assms(3) by (simp_all add: one(1) find_item_def)
  from approve_effect [OF assms(6) x store item assms(4)] obtain j2 s2 z where
    two: "w2 = (change_request (rq_id r) (\<lambda>r. r\<lparr>rq_approved_by := Some (po_id u'), rq_approved_at := Some later,
        rq_job := Some j2, rq_status := RequestRunning\<rparr>) w1)\<lparr>pw_store := s2\<rparr>" "find_job j2 (pw_store w1) = None"
      "find_job j2 s2 = Some z" "\<forall>k y. find_job k (pw_store w1) = Some y \<longrightarrow> find_job k s2 = Some y" by metis
  have differ: "j1 \<noteq> j2" using two(2) one(4) by (auto simp: one(1))
  have "rq_job q \<noteq> Some j1" if "q \<in> set (pw_requests w)" for q
    using assms(1) that settled_job [of "pw_store w" q j1] one(3) by (auto simp: portal_ok_def)
  then have "\<forall>q \<in> set (pw_requests w2). rq_job q \<noteq> Some j1"
    using differ by (auto simp: two(1) one(1) change_request_def)
  moreover have "map_option rq_job (find_request i w2) = Some (Some j2)"
    using x i by (simp add: two(1) find_request_change)
  moreover have "find_job j1 (pw_store w2) \<noteq> None" "find_job j2 (pw_store w2) \<noteq> None" using two(3,4) one(1,4) by (auto simp: two(1))
  ultimately show ?thesis using differ one(3) by blast
qed

text \<open>
  A rejected request can still be launched: an approval that was loaded before the rejection starts the job, and the
  request runs.
\<close>

theorem rejected_request_launched:
  assumes "portal_ok w" and "find_request i w = Some r" and "find_item (rq_item r) w = Some c" and "underlying_template c \<noteq> None"
    and "reject now u reason r w = (Inr r1, w1)" and "approve env later u' r w1 = (Inr r2, w2)"
  shows "map_option rq_status (find_request i w1) = Some Rejected \<and>
    (\<exists>jid. map_option (\<lambda>r. (rq_status r, rq_job r)) (find_request i w2) = Some (RequestRunning, Some jid) \<and>
      find_job jid (pw_store w2) \<noteq> None)"
proof -
  have i: "rq_id r = i" using find_request_id [OF assms(2)] by simp
  note w1 = reject_ok(3) [OF assms(5)]
  have row: "find_request (rq_id r) w1 = Some (r\<lparr>rq_approved_by := Some (po_id u), rq_approved_at := Some now,
      rq_rejection_reason := reason, rq_status := Rejected\<rparr>)"
    using assms(2) i by (simp add: w1 find_request_change)
  have "jobs_distinct (pw_store w1)" "find_item (rq_item r) w1 = Some c"
    using assms(1,3) by (simp_all add: w1 portal_ok_def)
  from approve_effect [OF assms(6) row this assms(4)] obtain job store j where
    two: "w2 = (change_request (rq_id r) (\<lambda>r. r\<lparr>rq_approved_by := Some (po_id u'), rq_approved_at := Some later,
        rq_job := Some job, rq_status := RequestRunning\<rparr>) w1)\<lparr>pw_store := store\<rparr>" "find_job job store = Some j" by metis
  show ?thesis using row two i by (simp add: find_request_change)
qed

section \<open>A deleted job\<close>

definition runs_forever :: "pk \<Rightarrow> portal_world \<Rightarrow> bool" where
  "runs_forever i w \<longleftrightarrow> (\<forall>r \<in> set (pw_requests w). rq_id r = i \<longrightarrow> rq_status r = RequestRunning \<and> rq_job r = None)"

lemma runs_on_change: "runs_forever i w \<Longrightarrow> k \<noteq> i \<Longrightarrow> (\<And>r. rq_id (f r) = rq_id r) \<Longrightarrow> runs_forever i (change_request k f w)"
  by (auto simp: runs_forever_def change_request_def)

lemma runs_on_store [simp]: "runs_forever i (w\<lparr>pw_store := s\<rparr>) = runs_forever i w"
  by (simp add: runs_forever_def)

lemma runs_on_launch:
  assumes "launch_request env r w = (Inr r1, w1)" and "runs_forever i w" and "rq_id r \<noteq> i"
  shows "runs_forever i w1"
  using assms by (auto simp: launch_request_def save_fields_def intro!: runs_on_change split: option.splits prod.splits if_splits sum.splits)

lemma launch_next: "launch_request env r w = (Inr r1, w1) \<Longrightarrow> pw_next_request w1 = pw_next_request w"
  by (auto simp: save_fields_def launch_request_def split: option.splits if_splits prod.splits sum.splits)

lemma runs_on_submit:
  assumes "submit env now r w = (Inr r1, w1)" and "runs_forever i w" and "rq_id r \<noteq> i"
  shows "runs_forever i w1" and "pw_next_request w1 = pw_next_request w"
proof -
  let ?f = "\<lambda>r. r\<lparr>rq_status := Approved, rq_approved_at := Some now\<rparr>"
  have f: "runs_forever i (change_request (rq_id r) ?f w)" by (rule runs_on_change [OF assms(2,3)]) simp
  have p: "runs_forever i (change_request (rq_id r) (\<lambda>r. r\<lparr>rq_status := PendingApproval\<rparr>) w)" by (rule runs_on_change [OF assms(2,3)]) simp
  obtain c where c: "find_item (rq_item r) w = Some c" using assms(1) by (cases "find_item (rq_item r) w") (simp_all add: submit_def)
  obtain x where x: "find_request (rq_id r) w = Some x"
    using assms(1) c by (cases "find_request (rq_id r) w") (auto simp: submit_def save_fields_def split: if_splits)
  have "runs_forever i w1 \<and> pw_next_request w1 = pw_next_request w"
  proof (cases "ci_requires_approval c")
    case True
    then have "w1 = change_request (rq_id r) (\<lambda>r. r\<lparr>rq_status := PendingApproval\<rparr>) w"
      using assms(1) c save_fields_found [OF x] by (simp add: submit_def)
    with p show ?thesis by simp
  next
    case False
    then have l: "launch_request env (?f r) (change_request (rq_id r) ?f w) = (Inr r1, w1)"
      using assms(1) c save_fields_found [OF x] by (simp add: submit_def)
    from runs_on_launch [OF l f] assms(3) launch_next [OF l] show ?thesis by simp
  qed
  then show "runs_forever i w1" and "pw_next_request w1 = pw_next_request w" by simp_all
qed

lemma runs_on_step:
  assumes "portal_step env users w w'" and "pe_atomic_requests env" and "portal_ok w" and "runs_forever i w" and "i < pw_next_request w"
  shows "runs_forever i w'" and "i < pw_next_request w'"
proof -
  have other: "rq_id r \<noteq> i" if "find_request k w = Some r" "rq_status r = PendingApproval" for k r
    using that assms(4) find_request_id [OF that(1)] by (auto simp: runs_forever_def)
  have "runs_forever i w' \<and> i < pw_next_request w'" using assms(1)
  proof cases
    case (submits now k j vars answers why)
    from assms(2) show ?thesis
    proof (rule submit_view_cases [where w = w and now = now and u = "users k" and i = j and vars = vars
          and answers = answers and why = why])
      assume "same_rows w (snd (submit_view env now (users k) j vars answers why w))"
      then show ?thesis using submits assms(4,5) by (auto simp: same_rows_def)
    next
      fix c r w1 r1 w2
      assume r: "rq_id r = pw_next_request w"
        and w1: "w1 = w\<lparr>pw_requests := pw_requests w @ [r], pw_next_request := Suc (pw_next_request w)\<rparr>"
        and s: "submit env now r w1 = (Inr r1, w2)" and w2: "snd (submit_view env now (users k) j vars answers why w) = w2"
      have no: "rq_id r \<noteq> i" and on: "runs_forever i w1" using r assms(4,5) by (auto simp: runs_forever_def w1)
      from runs_on_submit [OF s on no] show ?thesis using submits w2 assms(5) by (simp add: w1)
    qed
  next
    case (approves now k j)
    from assms(2) show ?thesis
    proof (rule approve_view_cases [where w = w and now = now and u = "users k" and i = j])
      assume "same_rows w (snd (approve_view env now (users k) j w))"
      then show ?thesis using approves assms(4,5) by (auto simp: same_rows_def)
    next
      fix r r1 w1
      assume r: "find_request j w = Some r" "approve env now (users k) r w = (Inr r1, w1)" and w1: "snd (approve_view env now (users k) j w) = w1"
      note a = approve_ok [OF r(2)]
      have no: "rq_id r \<noteq> i" by (rule other [OF r(1) a(1)])
      have "runs_forever i w1" using a(4) by (rule runs_on_launch) (use no assms(4) in \<open>auto intro: runs_on_change\<close>)
      moreover have "pw_next_request w1 = pw_next_request w" using launch_next [OF a(4)] by simp
      ultimately show ?thesis using approves w1 assms(5) by simp
    qed
  next
    case (rejects now k reason j)
    show ?thesis
    proof (rule reject_view_cases [where env = env and w = w and now = now and u = "users k" and i = j and reason = reason])
      assume "same_rows w (snd (reject_view env now (users k) reason j w))"
      then show ?thesis using rejects assms(4,5) by (auto simp: same_rows_def)
    next
      fix r r1 w1
      assume r: "find_request j w = Some r" "reject now (users k) reason r w = (Inr r1, w1)" and w1: "snd (reject_view env now (users k) reason j w) = w1"
      note a = reject_ok [OF r(2)]
      from other [OF r(1) a(1)] show ?thesis using rejects w1 assms(4,5) by (auto simp: a(3) intro: runs_on_change)
    qed
  next
    case (saves_job jid j s)
    then show ?thesis using assms(4,5)
      by (auto simp: save_job_status_def sync_on_save_def runs_forever_def sync_status_def split: option.splits)
  qed (use assms(4,5) in \<open>auto simp: delete_request_def delete_item_def create_item_def change_item_def remove_job_def runs_forever_def
      split: option.splits\<close>)
  then show "runs_forever i w'" and "i < pw_next_request w'" by simp_all
qed

text \<open>
  A request whose job is deleted while it runs never ends. A job that waits for a password is new and may be deleted; its
  request then shows as running in every later state, and cannot be deleted.
\<close>

theorem deleted_job_request_runs_on:
  assumes "portal_reachable env users w" and "pe_atomic_requests env" and "r \<in> set (pw_requests w)" and "rq_status r = RequestRunning"
    and "rq_job r = Some jid" and "find_job jid (pw_store w) = Some j" and "(portal_step env users)\<^sup>*\<^sup>* (remove_job jid w) w'"
    and "nj_status j = New" and "r' \<in> set (pw_requests w')" and "rq_id r' = rq_id r"
  shows "rq_status r' = RequestRunning \<and> rq_job r' = None \<and> fst (delete_request u (rq_id r) w') \<noteq> PortalDone"
proof -
  have ok: "portal_ok w" by (rule portal_reachable_ok [OF assms(1,2)])
  then have "distinct (map rq_id (pw_requests w))" by (intro apart_distinct) (simp add: portal_ok_def)
  then have "x = r" if "x \<in> set (pw_requests w)" "rq_id x = rq_id r" for x
    using assms(3) that by (auto simp: distinct_map dest: inj_onD)
  then have "rq_status x = RequestRunning \<and> rq_job x = Some jid" if "x \<in> set (pw_requests w)" "rq_id x = rq_id r" for x
    using that assms(4,5) by metis
  then have start: "runs_forever (rq_id r) (remove_job jid w)" by (auto simp: runs_forever_def remove_job_def)
  have "portal_ok w' \<and> runs_forever (rq_id r) w' \<and> rq_id r < pw_next_request w'"
    using assms(7)
  proof (induction rule: rtranclp_induct)
    case base
    show ?case using start remove_job_ok [OF ok] ok assms(3) by (auto simp: portal_ok_def remove_job_def)
  next
    case (step y z)
    then show ?case using portal_step_ok [OF step(2) assms(2)] runs_on_step [OF step(2) assms(2)] by blast
  qed
  then have on: "runs_forever (rq_id r) w'" by blast
  have "fst (delete_request u (rq_id r) w') \<noteq> PortalDone"
    using on by (auto simp: delete_request_def request_view_def runs_forever_def dest: find_request_id split: option.split)
  with on assms(9,10) show ?thesis by (auto simp: runs_forever_def)
qed

end
