(* ===== verification/Catalog_Secrets.thy ===== *)
theory Catalog_Secrets
  imports Catalog_Runs Survey_Properties
begin

text \<open>
  The password answers of requests, and the examples on which the properties of the portal are applied.
\<close>

section \<open>Password answers\<close>

lemma launch_job_variables:
  assumes "launch_request env r w = (Inr r1, w1)" and "find_request (rq_id r) w = Some x" and "jobs_distinct (pw_store w)"
    and "find_item (rq_item r) w = Some c" and "underlying_template c = Some (JobTemplateKind, i)" and "pe_template env JobTemplateKind i = Some t"
  obtains v st jid j where "create_survey_job (lt_crypto (pe_tools env)) (lt_nonce (pe_tools env)) (lt_survey (pe_tools env))
      (la_holder t) (rq_extra_vars r) [] (st_survey (pw_store w)) = (Inr v, st)"
    and "find_job jid (pw_store w1) = Some j" and "nj_variables j = v"
    and "w1 = (change_request (rq_id r) (\<lambda>r. r\<lparr>rq_job := Some jid, rq_status := RequestRunning\<rparr>) w)\<lparr>pw_store := pw_store w1\<rparr>"
proof -
  let ?tools = "pe_tools env" and ?s = "pw_store w" and ?k = "st_next_job (pw_store w)"
  let ?b = "origin i ''manual'' [] [] (Some (rq_requested_by r))"
  obtain y st where y: "create_survey_job (lt_crypto ?tools) (lt_nonce ?tools) (lt_survey ?tools) (la_holder t) (rq_extra_vars r) []
      (st_survey ?s) = (y, st)" by fastforce
  obtain v where v: "y = Inr v"
    using assms(1,4-6) y by (cases y) (simp_all add: launch_request_def create_requested_job_def create_job_def)
  define j where "j = ?b\<lparr>nj_id := ?k, nj_variables := v, nj_nodes := la_nodes t, nj_status := New\<rparr>"
  define s1 where "s1 = ?s\<lparr>st_jobs := st_jobs ?s @ [j], st_next_job := Suc ?k, st_survey := st\<rparr>"
  have c: "create_requested_job env JobTemplateKind i t r ?s = (Some ?k, s1)"
    using y v by (simp add: create_requested_job_def create_job_def Let_def j_def s1_def)
  have row: "find_request (rq_id r) (w\<lparr>pw_store := s1\<rparr>) = Some x" using assms(2) by simp
  have "find (\<lambda>j. nj_id j = ?k) (st_jobs ?s) = None" using assms(3) by (auto simp: find_None_iff jobs_distinct_def ids_below_def)
  then have found: "find_job ?k s1 = Some j" by (simp add: find_job_def s1_def find_appended j_def)
  have w1: "w1 = (change_request (rq_id r) (\<lambda>r. r\<lparr>rq_job := Some ?k, rq_status := RequestRunning\<rparr>) w)
      \<lparr>pw_store := snd (start_created t ?k s1)\<rparr>"
    using assms(1,4-6) c save_fields_found [OF row] by (simp add: launch_request_def) (simp add: change_request_def)
  have "nj_status j = New" by (simp add: j_def)
  from start_created_finds [OF found this, of ?k t] found
  obtain j' where "find_job ?k (pw_store w1) = Some j'" "nj_variables j' = v" by (simp add: w1) (simp add: j_def split: if_splits)
  with y v w1 show thesis by (intro that) simp_all
qed

text \<open>
  C37. The password answers of a portal request are kept and shown in clear. The job that the request starts stores such an
  answer encrypted; but the request keeps the answer as it was sent, and every member of the organization
  of the item can read it there.
\<close>

theorem portal_password_in_clear:
  assumes "portal_ok w" and "submit_view env now u i vars answers why w = (PortalCreated k, w')"
    and "find (\<lambda>c. ci_id c = i \<and> ci_enabled c \<and> (sees_all u \<or> in_organization u c)) (pw_items w) = Some c" and "find_item i w = Some c"
    and "\<not> ci_requires_approval c" and "underlying_template c = Some (JobTemplateKind, n)" and "pe_template env JobTemplateKind n = Some t"
    and "crypto_ok (lt_crypto (pe_tools env))" and "distinct (map q_variable (asked_elements (la_holder t)))" and "distinct (map fst vars)"
    and "digest_separates (lt_survey (pe_tools env)) (in_play (la_holder t))"
    and "cache_true (lt_survey (pe_tools env)) (in_play (la_holder t)) (st_survey (pw_store w))"
    and "q \<in> set (survey_password_variables (la_holder t))" and "map_of vars q = Some (JStr s)" and "s \<noteq> []" and "\<not> startswith s encrypted_mark"
    and "in_organization u' c"
  shows "\<exists>r jid j e. request_view u' k w' = Some r \<and> map_of (rq_extra_vars r) q = Some (JStr s) \<and>
    rq_job r = Some jid \<and> find_job jid (pw_store w') = Some j \<and>
    map_of (jb_extra_vars (nj_variables j)) q = Some (JStr e) \<and> is_encrypted (JStr e) \<and>
    map_of (display_extra_vars (nj_variables j)) q = Some (JStr encrypted_mark)"
proof -
  define r where "r = \<lparr>rq_id = pw_next_request w, rq_item = ci_id c, rq_requested_by = po_id u, rq_status = PendingApproval,
      rq_extra_vars = vars, rq_node_answers = (if json_true answers then answers else JObj []),
      rq_justification = why, rq_approved_by = None, rq_approved_at = None, rq_rejection_reason = [], rq_job = None\<rparr>"
  define w1 where "w1 = w\<lparr>pw_requests := pw_requests w @ [r], pw_next_request := Suc (pw_next_request w)\<rparr>"
  let ?f = "\<lambda>r. r\<lparr>rq_status := Approved, rq_approved_at := Some now\<rparr>"
  obtain x w2 where x: "submit env now r w1 = (x, w2)" by fastforce
  have v: "submit_view env now u i vars answers why w = portal_answer env (PortalCreated (rq_id r)) w (x, w2)"
    using assms(3) x by (simp add: submit_view_def Let_def r_def w1_def)
  obtain r1 where r1: "x = Inr r1" using v assms(2) by (cases x) (auto simp: portal_answer_def split: portal_error.splits)
  then have k: "rq_id r = k" "w2 = w'" using v assms(2) by (simp_all add: portal_answer_def)
  have id: "ci_id c = i" using assms(3) by (auto simp: find_Some_iff)
  have item: "find_item (rq_item r) w1 = Some c" using assms(4) id by (simp add: r_def w1_def find_item_def)
  have "find (\<lambda>x. rq_id x = rq_id r) (pw_requests w) = None" using assms(1) by (auto simp: portal_ok_def find_None_iff r_def)
  then have row: "find_request (rq_id r) w1 = Some r" by (simp add: w1_def find_request_def find_appended)
  let ?w = "change_request (rq_id r) ?f w1"
  have l: "launch_request env (?f r) ?w = (Inr r1, w')"
    using x r1 k(2) item assms(5) save_fields_found [OF row] by (simp add: submit_def)
  have row': "find_request (rq_id (?f r)) ?w = Some (?f r)" using row by (simp add: find_request_change)
  have distinct: "jobs_distinct (pw_store ?w)" using assms(1) by (simp add: w1_def portal_ok_def)
  have item': "find_item (rq_item (?f r)) ?w = Some c" using item by simp
  have simps: "rq_extra_vars (?f r) = vars" "rq_id (?f r) = rq_id r" "st_survey (pw_store ?w) = st_survey (pw_store w)"
    by (simp_all add: r_def w1_def)
  obtain v st jid j where
    j: "create_survey_job (lt_crypto (pe_tools env)) (lt_nonce (pe_tools env)) (lt_survey (pe_tools env))
      (la_holder t) vars [] (st_survey (pw_store w)) = (Inr v, st)" "find_job jid (pw_store w') = Some j" "nj_variables j = v"
      "w' = (change_request (rq_id r) (\<lambda>r. r\<lparr>rq_job := Some jid, rq_status := RequestRunning\<rparr>) ?w)\<lparr>pw_store := pw_store w'\<rparr>"
    by (rule launch_job_variables [OF l row' distinct item' assms(6,7), unfolded simps])
  from created_password [OF assms(8-11) subset_refl assms(12) j(1) assms(13-16)] obtain e where
    e: "map_of (jb_extra_vars v) q = Some (JStr e)" "is_encrypted (JStr e)" "map_of (jb_survey_passwords v) q = Some (JStr encrypted_mark)" .
  have shown: "map_of (display_extra_vars v) q = Some (JStr encrypted_mark)" using e(1,3) by (simp add: display_extra_vars_def map_of_map_pairs)
  have "find_request k w' = Some ((?f r)\<lparr>rq_job := Some jid, rq_status := RequestRunning\<rparr>)"
    using row k(1) by (subst j(4)) (simp add: find_request_change)
  moreover have "find_item i w' = Some c" using item id by (subst j(4)) (simp add: find_item_def r_def w1_def)
  ultimately have "request_view u' k w' = Some ((?f r)\<lparr>rq_job := Some jid, rq_status := RequestRunning\<rparr>)"
    using assms(17) id by (simp add: request_view_def sees_request_def r_def)
  with j(2,3) e(1,2) shown assms(14) show ?thesis by (auto simp: r_def)
qed

section \<open>Examples\<close>

text \<open>
  A catalog of four items in one organization: a template that anyone may request, one that a team approves, one that
  needs a password, and a workflow. User 1 is the admin, user 2 in the team, user 3 a member.
\<close>

definition example_users :: "pk \<Rightarrow> portal_user" where
  "example_users k = \<lparr>po_id = k, po_superuser = False, po_auditor = False, po_organizations = [1],
     po_teams = (if k = 2 then [7] else []), po_admin_of = (if k = 1 then [1] else [])\<rparr>"

definition example_portal :: portal_env where
  "example_portal = \<lparr>pe_tools = example_tools,
     pe_template = (\<lambda>kind i. if kind = WorkflowKind then Some ((example_template [])\<lparr>la_nodes := [(''deploy'', [])]\<rparr>)
       else if i = 6 then Some (example_template [''ssh_password'']) else Some (example_template [])),
     pe_may_execute = (\<lambda>u kind i. u = 1), pe_atomic_requests = True\<rparr>"

definition example_item :: "pk \<Rightarrow> item_data" where
  "example_item i = \<lparr>id_organization = Some (Some 1),
     id_job_template = (if i = 4 then None else Some (Some (if i = 3 then 6 else 5))),
     id_workflow = (if i = 4 then Some (Some 8) else None), id_requires_approval = Some (i = 2),
     id_approver_team = (if i = 2 then Some (Some 7) else None), id_enabled = None\<rparr>"

definition example_catalog :: portal_world where
  "example_catalog = fold (\<lambda>i w. snd (create_item example_portal (example_users 1) i (example_item i) w)) [1, 2, 3, 4] empty_portal"

definition example_submit :: "pk \<Rightarrow> json \<Rightarrow> portal_world \<Rightarrow> portal_reply \<times> portal_world" where
  "example_submit i answers w = submit_view example_portal 10 (example_users 3) i [(''mode'', JStr ''slow'')] answers [] w"

definition example_requested :: "pk \<Rightarrow> portal_world" where
  "example_requested i = snd (example_submit i (JObj []) example_catalog)"

lemma example_users_id [simp]: "po_id (example_users k) = k"
  by (simp add: example_users_def)

lemma example_atomic: "pe_atomic_requests example_portal"
  by (simp add: example_portal_def)

lemma example_reachable: "portal_reachable example_portal example_users example_catalog"
proof -
  have adds: "portal_reachable example_portal example_users
      (fold (\<lambda>i w. snd (create_item example_portal (example_users 1) i (example_item i) w)) is w)"
    if "portal_reachable example_portal example_users w" and "distinct is" and "set is \<inter> ci_id ` set (pw_items w) = {}" for "is" w
    using that
  proof (induction "is" arbitrary: w)
    case (Cons i "is")
    let ?w = "snd (create_item example_portal (example_users 1) i (example_item i) w)"
    have "portal_step example_portal example_users w ?w" using Cons.prems(3) by (intro adds_item) auto
    with Cons.prems(1) have "portal_reachable example_portal example_users ?w" by (simp add: portal_reachable_def)
    moreover have "set is \<inter> ci_id ` set (pw_items ?w) = {}"
      using Cons.prems(2,3) by (auto simp: create_item_def apply_item_data_def)
    ultimately show ?case using Cons.IH [of ?w] Cons.prems(2) by simp
  qed simp
  have "portal_reachable example_portal example_users empty_portal" by (simp add: portal_reachable_def)
  then show ?thesis unfolding example_catalog_def by (rule adds) (simp_all add: empty_portal_def)
qed

lemma example_submits: "portal_step example_portal example_users example_catalog (example_requested i)"
  unfolding example_requested_def example_submit_def by (rule submits)

lemma requested_reachable: "portal_reachable example_portal example_users (example_requested i)"
  using example_reachable example_submits [of i] by (simp add: portal_reachable_def)

lemma requested_ok: "portal_ok (example_requested i)"
  by (rule portal_reachable_ok [OF requested_reachable example_atomic])

lemma example_items:
  "find_item 4 example_catalog = Some \<lparr>ci_id = 4, ci_organization = Some 1, ci_job_template = None, ci_workflow = Some 8,
     ci_requires_approval = False, ci_approver_team = None, ci_enabled = True\<rparr>"
  "pw_requests example_catalog = []" "pw_store example_catalog = empty_store"
  by code_simp+

lemma requested_rows:
  "map (\<lambda>r. (rq_id r, rq_status r, rq_job r)) (pw_requests (example_requested 1)) = [(1, RequestRunning, Some 1)]"
  "map (\<lambda>r. (rq_id r, rq_status r, rq_job r)) (pw_requests (example_requested 3)) = [(1, RequestRunning, Some 1)]"
  "map nj_status (st_jobs (pw_store (example_requested 3))) = [New]"
  by code_simp+

theorem request_status_mirrors_job_witness:
  "\<exists>r j. r \<in> set (pw_requests (example_requested 1)) \<and> find_job 1 (pw_store (example_requested 1)) = Some j \<and>
    rq_status r = (case mirrored_status (nj_status j) of None \<Rightarrow> RequestRunning | Some st \<Rightarrow> st)"
proof -
  obtain r where r: "r \<in> set (pw_requests (example_requested 1))" "rq_job r = Some 1" using requested_rows(1) by auto
  from request_status_mirrors_job [OF requested_reachable example_atomic r(1)] r show ?thesis by blast
qed

theorem portal_launch_authorized_witness:
  "\<exists>r \<in> set (pw_requests (example_requested 1)). authorized_launch example_users example_catalog (example_requested 1) r 1"
proof -
  obtain r where r: "r \<in> set (pw_requests (example_requested 1))" "rq_job r = Some 1" using requested_rows(1) by auto
  from portal_launch_authorized [OF example_reachable example_submits example_atomic _ r] r(1) example_items(2) show ?thesis by auto
qed

definition numbered_request :: service_request where
  "numbered_request = \<lparr>rq_id = 1, rq_item = 4, rq_requested_by = 3, rq_status = Approved, rq_extra_vars = [], rq_node_answers = JInt 1,
     rq_justification = [], rq_approved_by = None, rq_approved_at = None, rq_rejection_reason = [], rq_job = None\<rparr>"

theorem node_answers_leave_ghost_witness:
  "\<exists>r1 w1 j1. launch_request example_portal numbered_request (example_catalog\<lparr>pw_requests := [numbered_request]\<rparr>) = (Inr r1, w1) \<and>
    rq_job r1 = Some 2 \<and> find_job 1 (pw_store w1) = Some j1 \<and> nj_status j1 = New"
proof -
  let ?w = "example_catalog\<lparr>pw_requests := [numbered_request]\<rparr>"
  have item: "find_item (rq_item numbered_request) ?w = Some \<lparr>ci_id = 4, ci_organization = Some 1, ci_job_template = None,
      ci_workflow = Some 8, ci_requires_approval = False, ci_approver_team = None, ci_enabled = True\<rparr>"
    using example_items(1) by (simp add: numbered_request_def find_item_def)
  have template: "pe_template example_portal WorkflowKind 8 = Some ((example_template [])\<lparr>la_nodes := [(''deploy'', [])]\<rparr>)"
    by (simp add: example_portal_def)
  have row: "find_request (rq_id numbered_request) ?w = Some numbered_request" by (simp add: find_request_def)
  have jobs: "jobs_distinct (pw_store ?w)" "1 = st_next_job (pw_store ?w)"
    by (simp_all add: example_items(3) empty_store_def jobs_distinct_def ids_below_def)
  from node_answers_leave_ghost [OF item _ template _ _ _ _ row jobs, of 1] show ?thesis
    by (auto simp: underlying_template_def asked_elements_def example_template_def numbered_request_def numeral_2_eq_2)
qed

text \<open>Two approvals by the team, and one after the team has rejected.\<close>

definition decided_twice :: "bool \<Rightarrow> bool" where
  "decided_twice first =
     (case find_request 1 (example_requested 2) of
        None \<Rightarrow> False
      | Some r \<Rightarrow>
          (case (if first then approve example_portal 20 (example_users 2) r (example_requested 2)
                 else reject 20 (example_users 2) ''no'' r (example_requested 2)) of
             (Inr r1, w1) \<Rightarrow> (case approve example_portal 21 (example_users 2) r w1 of (Inr r2, w2) \<Rightarrow> True | (Inl e, w2) \<Rightarrow> False)
           | (Inl e, w1) \<Rightarrow> False))"

lemma example_decided: "decided_twice True" "decided_twice False"
  "map_option (\<lambda>r. map_option underlying_template (find_item (rq_item r) (example_requested 2))) (find_request 1 (example_requested 2)) =
    Some (Some (Some (JobTemplateKind, 5)))"
  by code_simp+

theorem two_approvals_two_jobs_witness:
  "\<exists>r r1 w1 r2 w2 j1 j2. approve example_portal 20 (example_users 2) r (example_requested 2) = (Inr r1, w1) \<and>
    approve example_portal 21 (example_users 2) r w1 = (Inr r2, w2) \<and> j1 \<noteq> j2 \<and>
    find_job j1 (pw_store w2) \<noteq> None \<and> map_option rq_job (find_request 1 w2) = Some (Some j2)"
proof -
  from example_decided(1,3) obtain r c r1 w1 r2 w2 where d: "find_request 1 (example_requested 2) = Some r"
    "find_item (rq_item r) (example_requested 2) = Some c" "underlying_template c \<noteq> None"
    "approve example_portal 20 (example_users 2) r (example_requested 2) = (Inr r1, w1)"
    "approve example_portal 21 (example_users 2) r w1 = (Inr r2, w2)"
    by (auto simp: decided_twice_def split: option.splits prod.splits sum.splits)
  from two_approvals_two_jobs [OF requested_ok d] d(4,5) show ?thesis by blast
qed

theorem rejected_request_launched_witness:
  "\<exists>r r1 w1 r2 w2. reject 20 (example_users 2) ''no'' r (example_requested 2) = (Inr r1, w1) \<and>
    approve example_portal 21 (example_users 2) r w1 = (Inr r2, w2) \<and> map_option rq_status (find_request 1 w1) = Some Rejected \<and>
    map_option rq_status (find_request 1 w2) = Some RequestRunning"
proof -
  from example_decided(2,3) obtain r c r1 w1 r2 w2 where d: "find_request 1 (example_requested 2) = Some r"
    "find_item (rq_item r) (example_requested 2) = Some c" "underlying_template c \<noteq> None"
    "reject 20 (example_users 2) ''no'' r (example_requested 2) = (Inr r1, w1)"
    "approve example_portal 21 (example_users 2) r w1 = (Inr r2, w2)"
    by (auto simp: decided_twice_def split: option.splits prod.splits sum.splits)
  from rejected_request_launched [OF requested_ok d] have "map_option rq_status (find_request 1 w1) = Some Rejected"
    "map_option rq_status (find_request 1 w2) = Some RequestRunning" by auto
  with d show ?thesis by blast
qed

theorem deleted_job_request_runs_on_witness:
  "\<exists>r \<in> set (pw_requests (remove_job 1 (example_requested 3))). rq_status r = RequestRunning \<and> rq_job r = None \<and>
    fst (delete_request (example_users 3) 1 (remove_job 1 (example_requested 3))) \<noteq> PortalDone"
proof -
  obtain r where r: "pw_requests (example_requested 3) = [r]" "rq_id r = 1" "rq_status r = RequestRunning" "rq_job r = Some 1"
    using requested_rows(2) by auto
  have "settled (pw_store (example_requested 3)) r" using requested_ok [of 3] r(1) by (simp add: portal_ok_def)
  from settled_job [OF this r(4)] obtain j where j: "find_job 1 (pw_store (example_requested 3)) = Some j" by auto
  have new: "nj_status j = New" using find_job_id [OF j] requested_rows(3) by (auto simp: map_eq_Cons_conv)
  have mem: "r \<in> set (pw_requests (example_requested 3))" using r(1) by simp
  have gone: "r\<lparr>rq_job := None\<rparr> \<in> set (pw_requests (remove_job 1 (example_requested 3)))" using r by (simp add: remove_job_def)
  from deleted_job_request_runs_on [OF requested_reachable example_atomic mem r(3,4) j _ new gone, of "example_users 3"] r(2)
  show ?thesis by (intro bexI [OF _ gone]) auto
qed

definition secret_portal :: portal_env where
  "secret_portal = \<lparr>pe_tools = \<lparr>lt_crypto = demo_crypto, lt_nonce = (\<lambda>_. 0), lt_survey = demo_survey_env\<rparr>,
     pe_template = (\<lambda>kind i. Some ((example_template [])\<lparr>la_holder := demo_jt 1\<rparr>)),
     pe_may_execute = (\<lambda>u kind i. True), pe_atomic_requests = True\<rparr>"

definition secret_world :: portal_world where
  "secret_world = \<lparr>pw_items = [\<lparr>ci_id = 1, ci_organization = Some 1, ci_job_template = Some 5, ci_workflow = None,
       ci_requires_approval = False, ci_approver_team = None, ci_enabled = True\<rparr>],
     pw_requests = [], pw_next_request = 1, pw_store = empty_store\<lparr>st_survey := fresh_state\<rparr>\<rparr>"

theorem portal_password_in_clear_witness:
  "\<exists>w' r jid j. submit_view secret_portal 10 (example_users 3) 1 demo_answers (JObj []) [] secret_world = (PortalCreated 1, w') \<and>
    request_view (example_users 4) 1 w' = Some r \<and> map_of (rq_extra_vars r) ''pin'' = Some (JStr ''hunter2'') \<and>
    rq_job r = Some jid \<and> find_job jid (pw_store w') = Some j \<and>
    map_of (display_extra_vars (nj_variables j)) ''pin'' = Some (JStr encrypted_mark)"
proof -
  obtain job where run: "create_survey_job demo_crypto (\<lambda>_. 0) demo_survey_env (demo_jt 1) demo_answers [] fresh_state = (Inr job, fresh_state)"
    by (rule demo_created)
  let ?c = "\<lparr>ci_id = 1, ci_organization = Some 1, ci_job_template = Some 5, ci_workflow = None,
       ci_requires_approval = False, ci_approver_team = None, ci_enabled = True\<rparr>"
  have found: "find (\<lambda>c. ci_id c = 1 \<and> ci_enabled c \<and> (sees_all (example_users 3) \<or> in_organization (example_users 3) c)) (pw_items secret_world) = Some ?c"
    "find_item 1 secret_world = Some ?c"
    by (simp_all add: secret_world_def in_organization_def example_users_def find_item_def)
  obtain w' where v: "submit_view secret_portal 10 (example_users 3) 1 demo_answers (JObj []) [] secret_world = (PortalCreated 1, w')"
    unfolding submit_view_def found(1) option.case
    by (simp add: submit_def save_fields_def find_request_def find_item_def secret_world_def change_request_def
        launch_request_def underlying_template_def secret_portal_def create_requested_job_def create_job_def run [unfolded One_nat_def] portal_answer_def Let_def empty_store_def)
  have ok: "portal_ok secret_world" by (simp add: portal_ok_def secret_world_def empty_store_def jobs_distinct_def ids_below_def)
  have "''pin'' \<in> set (survey_password_variables (demo_jt 1))"
    by (simp add: survey_password_variables_def demo_asked demo_pin_def demo_host_def demo_count_def)
  with portal_password_in_clear [OF ok v found _ _ _ _ _ _ _ _ _ _ _ _, of 5 "(example_template [])\<lparr>la_holder := demo_jt 1\<rparr>" "''pin''" "''hunter2''" "example_users 4"]
    v demo_crypto_ok demo_distinct demo_separates_one cache_true_fresh
  show ?thesis
    by (auto simp: underlying_template_def secret_portal_def secret_world_def demo_answers_def startswith_def encrypted_mark_def
        in_organization_def example_users_def)
qed

end
