(* ===== verification/Json_Text.thy ===== *)
theory Json_Text
  imports Python_Values
begin

text \<open>
  JSON text as Python's \<open>json\<close> module writes and reads it: \<open>json.dumps\<close> with its default separators
  and ASCII output, and \<open>json.loads\<close> with the grammar of its scanner. The rendering and the reading
  of floating point numbers are arguments, and so is the character of a \<open>\u\<close> escape. The second half
  relates the reader to a lexical automaton, whose runs say which texts the reader can accept.
\<close>

section \<open>Writing\<close>

definition hex_digit :: "nat \<Rightarrow> char" where
  "hex_digit n = (if n < 10 then char_of (48 + n) else char_of (87 + n))"

text \<open>\<open>ESCAPE_DCT\<close>, and \<open>\u00XX\<close> for the other characters outside space to tilde.\<close>

definition escape_char :: "char \<Rightarrow> string" where
  "escape_char c =
     (let n = of_char c :: nat in
      if c = CHR 0x22 then [CHR 0x5C, CHR 0x22]
      else if c = CHR 0x5C then [CHR 0x5C, CHR 0x5C]
      else if c = CHR 0x0A then [CHR 0x5C, CHR ''n'']
      else if c = CHR 0x0D then [CHR 0x5C, CHR ''r'']
      else if c = CHR 0x09 then [CHR 0x5C, CHR ''t'']
      else if c = CHR 0x0C then [CHR 0x5C, CHR ''f'']
      else if c = CHR 0x08 then [CHR 0x5C, CHR ''b'']
      else if 32 \<le> n \<and> n \<le> 126 then [c]
      else [CHR 0x5C, CHR ''u'', CHR ''0'', CHR ''0'', hex_digit (n div 16), hex_digit (n mod 16)])"

definition quoted :: "string \<Rightarrow> string" where
  "quoted s = CHR 0x22 # concat (map escape_char s) @ [CHR 0x22]"

text \<open>\<open>json.dumps(v)\<close>; \<open>arrange\<close> is the order of an object's members (\<open>sort_keys\<close> or none).\<close>

fun dumps :: "((string \<times> string) list \<Rightarrow> (string \<times> string) list) \<Rightarrow> (rat \<Rightarrow> string) \<Rightarrow> json \<Rightarrow> string" where
  "dumps arrange real_text JNull = ''null''"
| "dumps arrange real_text (JBool b) = (if b then ''true'' else ''false'')"
| "dumps arrange real_text (JInt i) = int_str i"
| "dumps arrange real_text (JFloat r) = real_text r"
| "dumps arrange real_text (JStr s) = quoted s"
| "dumps arrange real_text (JList xs) =
     ''['' @ join_with '', '' (map (dumps arrange real_text) xs) @ '']''"
| "dumps arrange real_text (JObj kvs) =
     ''{'' @ join_with '', '' (map (\<lambda>(k, t). quoted k @ '': '' @ t)
       (arrange (map (\<lambda>(k, v). (k, dumps arrange real_text v)) kvs))) @ ''}''"

section \<open>Reading\<close>

record reading =
  rd_number :: "string \<Rightarrow> json"
  rd_char :: "string \<Rightarrow> char"

definition json_space :: "char \<Rightarrow> bool" where
  "json_space c \<longleftrightarrow> c \<in> {CHR 0x20, CHR 0x09, CHR 0x0A, CHR 0x0D}"

definition skip_space :: "string \<Rightarrow> string" where
  "skip_space s = dropWhile json_space s"

definition simple_escape :: "char \<Rightarrow> char option" where
  "simple_escape c =
     (if c \<in> {CHR 0x22, CHR 0x5C, CHR ''/''} then Some c
      else if c = CHR ''b'' then Some (CHR 0x08) else if c = CHR ''f'' then Some (CHR 0x0C)
      else if c = CHR ''n'' then Some (CHR 0x0A) else if c = CHR ''r'' then Some (CHR 0x0D)
      else if c = CHR ''t'' then Some (CHR 0x09) else None)"

text \<open>
  The rest of a string after its opening quote: the characters, and the text behind the closing
  quote. \<open>None\<close> is a \<open>JSONDecodeError\<close> (no closing quote, a control character, a bad escape).
\<close>

fun scan_string :: "reading \<Rightarrow> string \<Rightarrow> (string \<times> string) option" where
  "scan_string rd [] = None"
| "scan_string rd (c # s) =
     (if c = CHR 0x22 then Some ([], s)
      else if c = CHR 0x5C then (case s of
          d # s' \<Rightarrow> (case simple_escape d of
            Some e \<Rightarrow> map_option (apfst ((#) e)) (scan_string rd s')
          | None \<Rightarrow> (if d = CHR ''u'' then (case s' of
              h1 # h2 # h3 # h4 # r \<Rightarrow>
                if list_all is_hex_digit [h1, h2, h3, h4]
                then map_option (apfst ((#) (rd_char rd [h1, h2, h3, h4]))) (scan_string rd r) else None
            | _ \<Rightarrow> None) else None))
        | [] \<Rightarrow> None)
      else if (of_char c :: nat) < 32 then None
      else map_option (apfst ((#) c)) (scan_string rd s))"

text \<open>The parts of a number: the digits in front, a fraction, an exponent.\<close>

definition int_part :: "string \<Rightarrow> (string \<times> string) option" where
  "int_part s =
     (case s of [] \<Rightarrow> None
      | c # t \<Rightarrow> (if c = CHR ''0'' then Some ([c], t)
          else if is_digit c then Some (takeWhile is_digit s, dropWhile is_digit s) else None))"

definition fraction_part :: "string \<Rightarrow> string \<times> string" where
  "fraction_part s =
     (case s of c # d # t \<Rightarrow>
        if c = CHR ''.'' \<and> is_digit d then (c # takeWhile is_digit (d # t), dropWhile is_digit (d # t)) else ([], s)
      | _ \<Rightarrow> ([], s))"

definition exponent_part :: "string \<Rightarrow> string \<times> string" where
  "exponent_part s =
     (case s of [] \<Rightarrow> ([], s)
      | c # t \<Rightarrow>
        (if c \<in> {CHR ''e'', CHR ''E''}
         then (let (sign, u) = (if t \<noteq> [] \<and> hd t \<in> {CHR ''+'', CHR ''-''} then ([hd t], tl t) else ([], t));
                   ds = takeWhile is_digit u
               in if ds = [] then ([], s) else (c # sign @ ds, dropWhile is_digit u))
         else ([], s)))"

definition scan_number :: "reading \<Rightarrow> string \<Rightarrow> (json \<times> string) option" where
  "scan_number rd s =
     (let (sign, s1) = (if s \<noteq> [] \<and> hd s = CHR ''-'' then (''-'', tl s) else ([], s))
      in case int_part s1 of None \<Rightarrow> None
         | Some (ds, s2) \<Rightarrow>
           (let (frac, s3) = fraction_part s2; (ex, s4) = exponent_part s3
            in if frac = [] \<and> ex = []
               then map_option (\<lambda>i. (JInt i, s4)) (parse_int (sign @ ds))
               else Some (rd_number rd (sign @ ds @ frac @ ex), s4)))"

definition literals :: "reading \<Rightarrow> (string \<times> json) list" where
  "literals rd =
     [(''null'', JNull), (''true'', JBool True), (''false'', JBool False), (''NaN'', rd_number rd ''NaN''),
      (''Infinity'', rd_number rd ''Infinity''), (''-Infinity'', rd_number rd ''-Infinity'')]"

definition scan_plain :: "reading \<Rightarrow> string \<Rightarrow> (json \<times> string) option" where
  "scan_plain rd s =
     (case find (\<lambda>(name, v). startswith s name) (literals rd) of
        Some (name, v) \<Rightarrow> Some (v, drop (length name) s)
      | None \<Rightarrow> scan_number rd s)"

text \<open>
  A value, the members of an object behind its brace and the elements of an array behind its
  bracket. Every call takes at least one character, so the length of the text is enough fuel. A
  member that is named twice has its last value.
\<close>

fun scan_value :: "reading \<Rightarrow> nat \<Rightarrow> string \<Rightarrow> (json \<times> string) option"
  and scan_members :: "reading \<Rightarrow> nat \<Rightarrow> string \<Rightarrow> ((string \<times> json) list \<times> string) option"
  and scan_elements :: "reading \<Rightarrow> nat \<Rightarrow> string \<Rightarrow> (json list \<times> string) option" where
  "scan_value rd 0 s = None"
| "scan_value rd (Suc n) s =
     (case s of [] \<Rightarrow> None
      | c # t \<Rightarrow>
        (if c = CHR 0x22 then map_option (apfst JStr) (scan_string rd t)
         else if c = CHR ''{'' then (case skip_space t of
             d # u \<Rightarrow> if d = CHR ''}'' then Some (JObj [], u)
               else map_option (apfst (\<lambda>kvs. JObj (fold (\<lambda>(k, v). AList.update k v) kvs []))) (scan_members rd n (d # u))
           | [] \<Rightarrow> None)
         else if c = CHR ''['' then (case skip_space t of
             d # u \<Rightarrow> if d = CHR '']'' then Some (JList [], u)
               else map_option (apfst JList) (scan_elements rd n (d # u))
           | [] \<Rightarrow> None)
         else scan_plain rd s))"
| "scan_members rd 0 s = None"
| "scan_members rd (Suc n) s =
     (case s of [] \<Rightarrow> None
      | c # t \<Rightarrow>
        (if c \<noteq> CHR 0x22 then None
         else case scan_string rd t of None \<Rightarrow> None
         | Some (k, r) \<Rightarrow> (case skip_space r of [] \<Rightarrow> None
           | d # r1 \<Rightarrow>
             (if d \<noteq> CHR '':'' then None
              else case scan_value rd n (skip_space r1) of None \<Rightarrow> None
              | Some (v, r2) \<Rightarrow> (case skip_space r2 of [] \<Rightarrow> None
                | e # r3 \<Rightarrow>
                  (if e = CHR ''}'' then Some ([(k, v)], r3)
                   else if e = CHR '','' then map_option (apfst ((#) (k, v))) (scan_members rd n (skip_space r3))
                   else None))))))"
| "scan_elements rd 0 s = None"
| "scan_elements rd (Suc n) s =
     (case scan_value rd n s of None \<Rightarrow> None
      | Some (v, r) \<Rightarrow> (case skip_space r of [] \<Rightarrow> None
        | e # r1 \<Rightarrow>
          (if e = CHR '']'' then Some ([v], r1)
           else if e = CHR '','' then map_option (apfst ((#) v)) (scan_elements rd n (skip_space r1))
           else None)))"

text \<open>\<open>json.loads(text)\<close>; \<open>None\<close> is the \<open>JSONDecodeError\<close>.\<close>

definition loads :: "reading \<Rightarrow> string \<Rightarrow> json option" where
  "loads rd s =
     (case scan_value rd (length s) (skip_space s) of None \<Rightarrow> None
      | Some (v, r) \<Rightarrow> (if skip_space r = [] then Some v else None))"

section \<open>What the reader can accept\<close>

text \<open>
  Where a text stands lexically: outside a string, behind a point, behind a closing quote, in a
  string, behind a backslash, or with so many hexadecimal digits of an escape to come.
\<close>

datatype lexical = Outside | Point | Closed | Inside | Escape | Hex nat

fun lex_step :: "lexical \<Rightarrow> char \<Rightarrow> lexical option" where
  "lex_step Outside c = Some (if c = CHR 0x22 then Inside else if c = CHR ''.'' then Point else Outside)"
| "lex_step Point c = (if is_digit c then Some Outside else None)"
| "lex_step Closed c =
     (if json_space c \<or> c \<in> {CHR '','', CHR '':'', CHR '']'', CHR ''}''} then Some Outside else None)"
| "lex_step Inside c = Some (if c = CHR 0x22 then Closed else if c = CHR 0x5C then Escape else Inside)"
| "lex_step Escape c =
     (if simple_escape c \<noteq> None then Some Inside else if c = CHR ''u'' then Some (Hex 4) else None)"
| "lex_step (Hex n) c =
     (if n = 0 \<or> \<not> is_hex_digit c then None else Some (if n = 1 then Inside else Hex (n - 1)))"

fun lex_run :: "lexical \<Rightarrow> string \<Rightarrow> lexical option" where
  "lex_run st [] = Some st"
| "lex_run st (c # s) = (case lex_step st c of None \<Rightarrow> None | Some st' \<Rightarrow> lex_run st' s)"

lemma lex_run_append:
  "lex_run st (s @ t) = (case lex_run st s of None \<Rightarrow> None | Some st' \<Rightarrow> lex_run st' t)"
  by (induction s arbitrary: st) (auto split: option.splits)

lemma lex_runs:
  assumes "lex_run st s = Some st'"
  shows "lex_run st (s @ t) = lex_run st' t"
  using assms by (simp add: lex_run_append)


lemma plain_chars:
  assumes "c \<noteq> CHR 0x22" "c \<noteq> CHR ''.''"
  shows "lex_run Outside (c # s) = lex_run Outside s"
  using assms by simp

lemma digit_plain:
  assumes "is_digit c"
  shows "c \<noteq> CHR 0x22" "c \<noteq> CHR ''.''"
  using assms by (auto simp: is_digit_def char_of_def)

lemma space_plain:
  assumes "json_space c"
  shows "c \<noteq> CHR 0x22" "c \<noteq> CHR ''.''"
  using assms by (auto simp: json_space_def)

lemma lex_skip_digits: "lex_run Outside (dropWhile is_digit s) = lex_run Outside s"
  by (induction s) (auto dest: digit_plain)

lemma lex_skip_space: "lex_run Outside (skip_space s) = lex_run Outside s"
  by (induction s) (auto simp: skip_space_def dest: space_plain)

lemma lex_behind:
  assumes "skip_space r = e # r1" "e \<in> {CHR '','', CHR '':'', CHR '']'', CHR ''}''}"
    and "st = Outside \<or> st = Closed"
  shows "lex_run st r = lex_run Outside r1"
proof -
  have out: "lex_run Outside r = lex_run Outside r1"
    using lex_skip_space [of r] assms(1,2) by auto
  have "lex_run Closed r = lex_run Outside r"
    using assms(1,2) by (cases r) (auto simp: skip_space_def dest: space_plain split: if_splits)
  then show ?thesis
    using out assms(3) by auto
qed

lemma lex_at_end:
  assumes "skip_space r = []" "st = Outside \<or> st = Closed"
  shows "lex_run st r \<noteq> None"
proof -
  have out: "lex_run Outside r = Some Outside"
    using lex_skip_space [of r] assms(1) by simp
  moreover have "lex_run Closed r \<noteq> None"
    using out assms(1) by (cases r) (auto simp: skip_space_def dest: space_plain split: if_splits)
  ultimately show ?thesis
    using assms(2) by auto
qed

lemma consed:
  assumes "map_option (apfst ((#) c)) m = Some (k, r)"
  obtains k' where "m = Some (k', r)"
  using assms by (cases m) auto

lemma lex_string: "scan_string rd s = Some (k, r) \<Longrightarrow> lex_run Inside s = lex_run Closed r"
proof (induction rd s arbitrary: k r rule: scan_string.induct)
  case (2 rd c s)
  consider "c = CHR 0x22" | "c = CHR 0x5C" | "c \<noteq> CHR 0x22" "c \<noteq> CHR 0x5C"
    by blast
  then show ?case
  proof cases
    case 1
    then show ?thesis
      using 2(4) by simp
  next
    case esc: 2
    then obtain d s' where s: "s = d # s'"
      using 2(4) by (cases s) auto
    show ?thesis
    proof (cases "simple_escape d")
      case (Some e)
      then obtain k' where "scan_string rd s' = Some (k', r)"
        using 2(4) esc s by (auto elim: consed)
      then show ?thesis
        using 2(2) [OF _ esc s Some] esc s Some by simp
    next
      case None
      then obtain h1 h2 h3 h4 t where u: "d = CHR ''u''" and t: "s' = h1 # h2 # h3 # h4 # t"
        and h: "list_all is_hex_digit [h1, h2, h3, h4]"
        and m: "map_option (apfst ((#) (rd_char rd [h1, h2, h3, h4]))) (scan_string rd t) = Some (k, r)"
        using 2(4) esc s by (auto split: if_splits list.splits)
      from m obtain k' where "scan_string rd t = Some (k', r)"
        by (elim consed)
      then have "lex_run Inside t = lex_run Closed r"
        using 2(1) [OF _ esc s None u t] h esc by simp
      then show ?thesis
        using esc s None u t h by simp
    qed
  next
    case other: 3
    then obtain k' where "scan_string rd s = Some (k', r)"
      using 2(4) by (auto elim: consed split: if_splits)
    then have "lex_run Inside s = lex_run Closed r"
      using 2(3) [OF other] 2(4) other by (auto split: if_splits)
    then show ?thesis
      using other by simp
  qed
qed simp

lemma lex_int_part: "int_part s = Some (ds, r) \<Longrightarrow> lex_run Outside s = lex_run Outside r"
  using lex_skip_digits [of s] by (auto simp: int_part_def digit_plain split: list.splits if_splits)

lemma lex_fraction_part:
  assumes "fraction_part s = (f, r)"
  shows "lex_run Outside s = lex_run Outside r"
proof (cases "f = []")
  case True
  then show ?thesis
    using assms by (auto simp: fraction_part_def split: list.splits if_splits)
next
  case False
  then obtain d t where "s = CHR ''.'' # d # t" "is_digit d" "r = dropWhile is_digit (d # t)"
    using assms by (auto simp: fraction_part_def split: list.splits if_splits)
  then show ?thesis
    using lex_skip_digits [of t] by simp
qed

lemma lex_exponent_part:
  assumes "exponent_part s = (f, r)"
  shows "lex_run Outside s = lex_run Outside r"
proof (cases "f = []")
  case True
  then show ?thesis
    using assms by (auto simp: exponent_part_def Let_def split: list.splits if_splits)
next
  case False
  then obtain c t where s: "s = c # t" and c: "c = CHR ''e'' \<or> c = CHR ''E''"
    using assms by (auto simp: exponent_part_def split: list.splits if_splits)
  define u where "u = (if t \<noteq> [] \<and> hd t \<in> {CHR ''+'', CHR ''-''} then tl t else t)"
  have "r = dropWhile is_digit u"
    using assms False c unfolding s u_def
    by (cases "t \<noteq> [] \<and> hd t \<in> {CHR ''+'', CHR ''-''}") (auto simp: exponent_part_def Let_def split: if_splits)
  moreover have "lex_run Outside s = lex_run Outside t"
    using c unfolding s by (intro plain_chars) auto
  moreover have "lex_run Outside t = lex_run Outside u"
    unfolding u_def by (cases t) auto
  ultimately show ?thesis
    by (simp add: lex_skip_digits)
qed

lemma lex_number:
  assumes "scan_number rd s = Some (v, r)"
  shows "lex_run Outside s = lex_run Outside r"
proof -
  define t where "t = (if s \<noteq> [] \<and> hd s = CHR ''-'' then tl s else s)"
  have "lex_run Outside s = lex_run Outside t"
    unfolding t_def by (cases s) auto
  also have "\<dots> = lex_run Outside r"
    using assms unfolding scan_number_def t_def
    by (auto simp: Let_def dest!: lex_int_part lex_fraction_part lex_exponent_part
      split: option.splits prod.splits if_splits)
  finally show ?thesis .
qed

lemma lex_plain:
  assumes "scan_plain rd s = Some (v, r)"
  shows "lex_run Outside s = lex_run Outside r"
proof (cases "find (\<lambda>(name, v). startswith s name) (literals rd)")
  case None
  then show ?thesis
    using assms lex_number by (auto simp: scan_plain_def)
next
  case (Some nv)
  obtain name w where nw: "nv = (name, w)"
    by (cases nv)
  have "(name, w) \<in> set (literals rd)" "startswith s name"
    using Some nw by (auto simp: find_Some_iff in_set_conv_nth)
  moreover have "r = drop (length name) s"
    using assms Some nw by (simp add: scan_plain_def)
  ultimately have "s = name @ r" "lex_run Outside name = Some Outside"
    by (auto simp: startswith_append literals_def)
  then show ?thesis
    by (simp add: lex_runs)
qed

text \<open>One more level of fuel, from what the calls below it do.\<close>

lemma lex_opened:
  assumes "skip_space t = d # u" "c \<noteq> CHR 0x22" "c \<noteq> CHR ''.''"
  shows "lex_run Outside (c # t) = lex_run Outside (d # u)"
  using lex_skip_space [of t] plain_chars [OF assms(2,3), of t] unfolding assms(1) by simp

lemma lex_value_step:
  assumes M: "\<And>s kvs r. scan_members rd n s = Some (kvs, r) \<Longrightarrow> lex_run Outside s = lex_run Outside r"
    and E: "\<And>s xs r. scan_elements rd n s = Some (xs, r) \<Longrightarrow> lex_run Outside s = lex_run Outside r"
    and S: "scan_value rd (Suc n) s = Some (v, r)"
  shows "lex_run Outside s = lex_run Outside r \<or> lex_run Outside s = lex_run Closed r"
proof -
  obtain c t where s: "s = c # t"
    using S by (cases s) auto
  consider (string) "c = CHR 0x22" | (object) "c = CHR ''{''" | (array) "c = CHR ''[''"
    | (other) "c \<noteq> CHR 0x22" "c \<noteq> CHR ''{''" "c \<noteq> CHR ''[''"
    by blast
  then show ?thesis
  proof cases
    case string
    then obtain k where "scan_string rd t = Some (k, r)"
      using S s by auto
    then show ?thesis
      using lex_string s string by auto
  next
    case object
    then obtain d u where u: "skip_space t = d # u"
      using S s by (cases "skip_space t") auto
    have "lex_run Outside (d # u) = lex_run Outside r"
    proof (cases "d = CHR ''}''")
      case True
      then show ?thesis
        using S s object u by auto
    next
      case False
      then obtain kvs where "scan_members rd n (d # u) = Some (kvs, r)"
        using S s object u by auto
      then show ?thesis
        by (rule M)
    qed
    then show ?thesis
      using lex_opened [OF u, of "CHR ''{''"] s object by simp
  next
    case array
    then obtain d u where u: "skip_space t = d # u"
      using S s by (cases "skip_space t") auto
    have "lex_run Outside (d # u) = lex_run Outside r"
    proof (cases "d = CHR '']''")
      case True
      then show ?thesis
        using S s array u by auto
    next
      case False
      then obtain xs where "scan_elements rd n (d # u) = Some (xs, r)"
        using S s array u by auto
      then show ?thesis
        by (rule E)
    qed
    then show ?thesis
      using lex_opened [OF u, of "CHR ''[''"] s array by simp
  next
    case other
    then have "scan_plain rd s = Some (v, r)"
      using S s by simp
    then show ?thesis
      by (simp add: lex_plain)
  qed
qed

lemma lex_elements_step:
  assumes V: "\<And>s v r. scan_value rd n s = Some (v, r) \<Longrightarrow>
      lex_run Outside s = lex_run Outside r \<or> lex_run Outside s = lex_run Closed r"
    and E: "\<And>s xs r. scan_elements rd n s = Some (xs, r) \<Longrightarrow> lex_run Outside s = lex_run Outside r"
    and S: "scan_elements rd (Suc n) s = Some (xs, r)"
  shows "lex_run Outside s = lex_run Outside r"
proof -
  obtain v r0 where v: "scan_value rd n s = Some (v, r0)"
    using S by (auto split: option.splits)
  then obtain e r1 where r1: "skip_space r0 = e # r1"
    using S by (cases "skip_space r0") auto
  have e: "e = CHR '']'' \<and> r1 = r \<or> e = CHR '','' \<and> (\<exists>ys. scan_elements rd n (skip_space r1) = Some (ys, r))"
    using S v r1 by (auto split: if_splits)
  then have "lex_run Outside s = lex_run Outside r1"
    using V [OF v] lex_behind [OF r1, of Outside] lex_behind [OF r1, of Closed] by auto
  then show ?thesis
    using e E [of "skip_space r1"] lex_skip_space [of r1] by auto
qed

lemma lex_members_step:
  assumes V: "\<And>s v r. scan_value rd n s = Some (v, r) \<Longrightarrow>
      lex_run Outside s = lex_run Outside r \<or> lex_run Outside s = lex_run Closed r"
    and M: "\<And>s kvs r. scan_members rd n s = Some (kvs, r) \<Longrightarrow> lex_run Outside s = lex_run Outside r"
    and S: "scan_members rd (Suc n) s = Some (kvs, r)"
  shows "lex_run Outside s = lex_run Outside r"
proof -
  obtain t where s: "s = CHR 0x22 # t"
    using S by (auto split: list.splits if_splits)
  obtain k r0 where k: "scan_string rd t = Some (k, r0)"
    using S s by (auto split: option.splits)
  obtain r1 where r1: "skip_space r0 = CHR '':'' # r1"
    using S s k by (cases "skip_space r0") (auto split: if_splits)
  obtain v r2 where v: "scan_value rd n (skip_space r1) = Some (v, r2)"
    using S s k r1 by (auto split: option.splits)
  obtain e r3 where r3: "skip_space r2 = e # r3"
    using S s k r1 v by (cases "skip_space r2") auto
  have e: "e = CHR ''}'' \<and> r3 = r \<or> e = CHR '','' \<and> (\<exists>ks. scan_members rd n (skip_space r3) = Some (ks, r))"
    using S s k r1 v r3 by (auto split: if_splits)
  have "lex_run Outside s = lex_run Outside r1"
    using lex_string [OF k] lex_behind [OF r1, of Closed] s by auto
  also have "\<dots> = lex_run Outside r3"
    using V [OF v] lex_skip_space [of r1] lex_behind [OF r3, of Outside] lex_behind [OF r3, of Closed] e by auto
  finally show ?thesis
    using e M [of "skip_space r3"] lex_skip_space [of r3] by auto
qed

lemma lex_scan:
  "(\<forall>s v r. scan_value rd n s = Some (v, r) \<longrightarrow>
      lex_run Outside s = lex_run Outside r \<or> lex_run Outside s = lex_run Closed r)
   \<and> (\<forall>s kvs r. scan_members rd n s = Some (kvs, r) \<longrightarrow> lex_run Outside s = lex_run Outside r)
   \<and> (\<forall>s xs r. scan_elements rd n s = Some (xs, r) \<longrightarrow> lex_run Outside s = lex_run Outside r)"
proof (induction n)
  case (Suc n)
  then show ?case
    using lex_value_step [of rd n] lex_members_step [of rd n] lex_elements_step [of rd n] by blast
qed simp

lemma loads_lexical:
  assumes "loads rd s = Some v"
  shows "lex_run Outside s \<noteq> None"
proof -
  obtain w r where w: "scan_value rd (length s) (skip_space s) = Some (w, r)" and r: "skip_space r = []"
    using assms by (auto simp: loads_def split: option.splits if_splits)
  have "lex_run Outside s = lex_run Outside r \<or> lex_run Outside s = lex_run Closed r"
    using lex_scan [of rd "length s"] w lex_skip_space [of s] by metis
  then show ?thesis
    using lex_at_end [OF r, of Outside] lex_at_end [OF r, of Closed] by auto
qed

end
