(* ===== verification/Drift_Detection.thy ===== *)
theory Drift_Detection
  imports Json_Text Survey_Choices
begin

text \<open>
  Configuration drift (\<open>main/tasks/drift.py\<close>, \<open>main/models/drift.py\<close>, \<open>api/views/drift.py\<close>): the
  snapshots of host facts taken after a job, the comparison of consecutive snapshots, the alert rules
  and the periodic cleanup. Arguments: the digest of a text, the rendering of numbers and of values,
  the JSON reader's conversions, the delivery of a notification, and the instants that \<open>now()\<close> reads.
  An instant is a rational number of seconds. The names of the categories, severities and diff types
  are the strings of the code.
\<close>

section \<open>Shell patterns\<close>

text \<open>\<open>fnmatch\<close>: a star, a question mark, a character class (possibly negated), a character.\<close>

datatype glob = Star | AnyChar | OneOf bool "(char \<times> char) list" | Exactly char

fun class_items :: "string \<Rightarrow> (char \<times> char) list" where
  "class_items (c # h # d # s) =
     (if h = CHR ''-'' then (c, d) # class_items s else (c, c) # class_items (h # d # s))"
| "class_items (c # s) = (c, c) # class_items s"
| "class_items [] = []"

definition glob_class :: "string \<Rightarrow> (glob \<times> string) option" where
  "glob_class p =
     (let negated = startswith p ''!''; p1 = (if negated then tl p else p);
          front = (if startswith p1 '']'' then '']'' else []);
          p2 = drop (length front) p1;
          behind = dropWhile (\<lambda>c. c \<noteq> CHR '']'') p2
      in if behind = [] then None
         else Some (OneOf negated (class_items (front @ takeWhile (\<lambda>c. c \<noteq> CHR '']'') p2)), tl behind))"

fun glob_pieces :: "nat \<Rightarrow> string \<Rightarrow> glob list" where
  "glob_pieces 0 p = []"
| "glob_pieces (Suc n) p =
     (case p of [] \<Rightarrow> []
      | c # p' \<Rightarrow>
        (if c = CHR ''*'' then Star # glob_pieces n p'
         else if c = CHR ''?'' then AnyChar # glob_pieces n p'
         else if c = CHR ''['' then (case glob_class p' of
             Some (g, q) \<Rightarrow> g # glob_pieces n q
           | None \<Rightarrow> Exactly c # glob_pieces n p')
         else Exactly c # glob_pieces n p'))"

fun glob_fits :: "glob \<Rightarrow> char \<Rightarrow> bool" where
  "glob_fits Star c = True"
| "glob_fits AnyChar c = True"
| "glob_fits (OneOf negated items) c = (negated \<noteq> list_ex (\<lambda>(a, b). a \<le> c \<and> c \<le> b) items)"
| "glob_fits (Exactly d) c = (c = d)"

fun glob_matches :: "glob list \<Rightarrow> string \<Rightarrow> bool" where
  "glob_matches [] s = (s = [])"
| "glob_matches (g # gs) [] = (g = Star \<and> glob_matches gs [])"
| "glob_matches (g # gs) (c # s) =
     (if g = Star then glob_matches gs (c # s) \<or> glob_matches (g # gs) s
      else glob_fits g c \<and> glob_matches gs s)"

definition fnmatch :: "string \<Rightarrow> string \<Rightarrow> bool" where
  "fnmatch name pat = glob_matches (glob_pieces (length pat) pat) name"

section \<open>Rows\<close>

type_synonym facts = "(string \<times> json) list"

record drift_host =
  dh_id :: pk
  dh_name :: string
  dh_inventory :: pk
  dh_facts :: facts
  dh_facts_modified :: "rat option"

record snapshot =
  fs_id :: pk
  fs_host :: pk
  fs_job :: "pk option"
  fs_inventory :: "pk option"
  fs_organization :: "pk option"
  fs_captured :: rat
  fs_facts :: facts
  fs_hash :: string

text \<open>An entry of the list that \<open>compute_drift\<close> returns.\<close>

record drift_item =
  di_path :: string
  di_category :: string
  di_severity :: string
  di_summary :: string
  di_before :: json
  di_after :: json
  di_kind :: string

record detection =
  dd_id :: pk
  dd_host :: pk
  dd_inventory :: "pk option"
  dd_organization :: "pk option"
  dd_before :: "pk option"
  dd_after :: pk
  dd_detected :: rat
  dd_job :: "pk option"
  dd_item :: drift_item
  dd_acknowledged :: "(pk \<times> rat) option"

record alert_rule =
  ar_id :: pk
  ar_name :: string
  ar_organization :: "pk option"
  ar_enabled :: bool
  ar_inventory :: "pk option"
  ar_host_filter :: string
  ar_categories :: "string list"
  ar_severity_min :: string
  ar_threshold :: nat
  ar_window :: nat
  ar_template :: "pk option"
  ar_last :: "rat option"
  ar_count :: nat
  ar_cooldown :: nat

datatype notification_status = AlertPending | AlertSent | AlertFailed

record drift_alert =
  da_id :: pk
  da_rule :: pk
  da_host :: pk
  da_organization :: "pk option"
  da_created :: rat
  da_count :: nat
  da_summary :: string
  da_status :: notification_status
  da_error :: string

text \<open>The tasks that are queued with \<open>delay\<close>.\<close>

datatype drift_task = DetectDrift pk | EvaluateAlerts pk

record drift_state =
  dw_hosts :: "drift_host list"
  dw_inventories :: "pk \<Rightarrow> pk option"
  dw_jobs :: "(pk \<times> pk option) list"
  dw_snapshots :: "snapshot list"
  dw_detections :: "detection list"
  dw_rules :: "alert_rule list"
  dw_alerts :: "drift_alert list"
  dw_tasks :: "drift_task list"
  dw_next :: pk

record drift_env =
  dv_digest :: "string \<Rightarrow> string"
  dv_real_text :: "rat \<Rightarrow> string"
  dv_reading :: reading
  dv_repr :: "json \<Rightarrow> string"
  dv_send :: "pk \<Rightarrow> string \<Rightarrow> string \<Rightarrow> string option"

text \<open>
  What a task can raise: a text that is no JSON, and a text that is longer than its column
  (PostgreSQL's \<open>DataError\<close>).
\<close>

datatype drift_error = DecodeError | ValueTooLong

section \<open>Comparing facts\<close>

definition drift_severity_order :: "(string \<times> nat) list" where
  "drift_severity_order = [(''low'', 0), (''medium'', 1), (''high'', 2), (''critical'', 3)]"

definition category_map :: "(string \<times> string \<times> string) list" where
  "category_map =
     [(''ansible_pkg_mgr'', ''packages'', ''medium''),
      (''ansible_packages'', ''packages'', ''medium''),
      (''ansible_apparmor'', ''kernel'', ''medium''),
      (''ansible_selinux'', ''kernel'', ''high''),
      (''ansible_services'', ''services'', ''medium''),
      (''ansible_service_mgr'', ''services'', ''low''),
      (''ansible_user_dir'', ''users_groups'', ''high''),
      (''ansible_user_id'', ''users_groups'', ''high''),
      (''ansible_user_uid'', ''users_groups'', ''high''),
      (''ansible_user_gid'', ''users_groups'', ''high''),
      (''ansible_user_gecos'', ''users_groups'', ''medium''),
      (''ansible_user_shell'', ''users_groups'', ''high''),
      (''ansible_all_ipv4_addresses'', ''network'', ''high''),
      (''ansible_all_ipv6_addresses'', ''network'', ''high''),
      (''ansible_default_ipv4'', ''network'', ''high''),
      (''ansible_default_ipv6'', ''network'', ''medium''),
      (''ansible_interfaces'', ''network'', ''medium''),
      (''ansible_dns'', ''network'', ''medium''),
      (''ansible_domain'', ''network'', ''medium''),
      (''ansible_fqdn'', ''network'', ''medium''),
      (''ansible_hostname'', ''network'', ''low''),
      (''ansible_mounts'', ''mounts'', ''medium''),
      (''ansible_devices'', ''mounts'', ''low''),
      (''ansible_kernel'', ''kernel'', ''critical''),
      (''ansible_kernel_version'', ''kernel'', ''critical''),
      (''ansible_cmdline'', ''kernel'', ''high''),
      (''ansible_sysctl'', ''kernel'', ''high''),
      (''ansible_architecture'', ''kernel'', ''low''),
      (''ansible_bios_date'', ''other'', ''low''),
      (''ansible_bios_version'', ''other'', ''low''),
      (''ansible_date_time'', ''other'', ''low''),
      (''ansible_distribution'', ''other'', ''low''),
      (''ansible_distribution_version'', ''other'', ''medium''),
      (''ansible_os_family'', ''other'', ''low''),
      (''ansible_product_name'', ''other'', ''low''),
      (''ansible_python'', ''other'', ''low''),
      (''ansible_processor'', ''other'', ''low''),
      (''ansible_memtotal_mb'', ''other'', ''low''),
      (''ansible_swaptotal_mb'', ''other'', ''low''),
      (''ansible_uptime_seconds'', ''other'', ''low'')]"

definition compute_facts_hash :: "drift_env \<Rightarrow> facts \<Rightarrow> string" where
  "compute_facts_hash env d = dv_digest env (dumps (sort_key fst) (dv_real_text env) (JObj d))"

definition classify_fact :: "string \<Rightarrow> string \<times> string" where
  "classify_fact k =
     (case map_of category_map k of Some cs \<Rightarrow> cs
      | None \<Rightarrow>
        (let mentions = (\<lambda>ws. list_ex (contains_sub (lower k)) ws) in
         if mentions [''package'', ''pip'', ''gem''] then (''packages'', ''medium'')
         else if mentions [''service'', ''systemd''] then (''services'', ''medium'')
         else if mentions [''user'', ''group'', ''passwd''] then (''users_groups'', ''high'')
         else if mentions [''ip'', ''network'', ''port'', ''tcp'', ''udp''] then (''network'', ''high'')
         else if mentions [''mount'', ''disk'', ''fs'', ''lvm''] then (''mounts'', ''medium'')
         else if mentions [''kernel'', ''sysctl'', ''selinux''] then (''kernel'', ''high'')
         else (''other'', ''low'')))"

definition diff_type :: "json \<Rightarrow> json \<Rightarrow> string" where
  "diff_type old_val new_val =
     (if old_val = JNull then ''added'' else if new_val = JNull then ''removed'' else ''changed'')"

definition count_part :: "string \<Rightarrow> nat \<Rightarrow> string \<Rightarrow> string list" where
  "count_part sign n unit = (if n = 0 then [] else [sign @ nat_str n @ unit])"

definition summarize_change :: "drift_env \<Rightarrow> string \<Rightarrow> json \<Rightarrow> json \<Rightarrow> string \<Rightarrow> string" where
  "summarize_change env k old_val new_val kind =
     (if kind = ''added'' then k @ '': added''
      else if kind = ''removed'' then k @ '': removed''
      else (case (old_val, new_val) of
        (JList xs, JList ys) \<Rightarrow>
          (let old_texts = map (py_str (dv_repr env)) xs; new_texts = map (py_str (dv_repr env)) ys;
               added = remdups (filter (\<lambda>t. t \<notin> set old_texts) new_texts);
               removed = remdups (filter (\<lambda>t. t \<notin> set new_texts) old_texts);
               parts = count_part ''+'' (length added) [] @ count_part ''-'' (length removed) []
           in if parts \<noteq> [] then k @ '': '' @ join_with '', '' parts @ '' items'' else k @ '': changed'')
      | (JObj d, JObj e) \<Rightarrow>
          (let added = filter (\<lambda>q. q \<notin> fst ` set d) (map fst e);
               removed = filter (\<lambda>q. q \<notin> fst ` set e) (map fst d);
               changed = filter (\<lambda>q. q \<in> fst ` set e \<and> \<not> py_eq (obj_get d q) (obj_get e q)) (map fst d);
               parts = count_part ''+'' (length added) '' keys'' @ count_part ''-'' (length removed) '' keys''
                 @ count_part ''~'' (length changed) '' keys''
           in if parts \<noteq> [] then k @ '': '' @ join_with '', '' parts else k @ '': changed'')
      | _ \<Rightarrow> k @ '': '' @ dv_repr env old_val @ '' -> '' @ dv_repr env new_val))"

definition cut_marker :: string where
  "cut_marker = ''...'' @ CHR 0x22 # ''truncated'' @ CHR 0x22 # ''}''"

definition truncate_value :: "drift_env \<Rightarrow> json \<Rightarrow> drift_error + json" where
  "truncate_value env v =
     (let s = dumps id (dv_real_text env) v
      in if length s > 2000
         then (case loads (dv_reading env) (take (2000 - 20) s @ cut_marker) of
             None \<Rightarrow> Inl DecodeError | Some w \<Rightarrow> Inr w)
         else Inr v)"

definition skip_keys :: "string list" where
  "skip_keys = [''ansible_date_time'', ''ansible_uptime_seconds'', ''ansible_local'', ''module_setup'',
     ''gather_subset'', ''ansible_fibre_channel_wwn'']"

definition compared :: "facts \<Rightarrow> facts \<Rightarrow> string \<Rightarrow> bool" where
  "compared old new k \<longleftrightarrow> k \<notin> set skip_keys \<and> \<not> py_eq (obj_get old k) (obj_get new k)"

definition drift_of :: "drift_env \<Rightarrow> facts \<Rightarrow> facts \<Rightarrow> string \<Rightarrow> drift_error + drift_item" where
  "drift_of env old new k =
     (let old_val = obj_get old k; new_val = obj_get new k; kind = diff_type old_val new_val in
      and_then (truncate_value env old_val) (\<lambda>before.
      and_then (truncate_value env new_val) (\<lambda>after.
        Inr \<lparr>di_path = k, di_category = fst (classify_fact k), di_severity = snd (classify_fact k),
             di_summary = summarize_change env k old_val new_val kind,
             di_before = before, di_after = after, di_kind = kind\<rparr>)))"

definition compute_drift :: "drift_env \<Rightarrow> facts \<Rightarrow> facts \<Rightarrow> drift_error + drift_item list" where
  "compute_drift env old new =
     each (drift_of env old new) (filter (compared old new) (sort (remdups (map fst old @ map fst new))))"

section \<open>Taking and comparing snapshots\<close>

definition newest_first :: "snapshot list \<Rightarrow> snapshot list" where
  "newest_first ss = sort_key (\<lambda>s. - fs_captured s) ss"

definition of_host :: "pk \<Rightarrow> drift_state \<Rightarrow> snapshot list" where
  "of_host h w = newest_first (filter (\<lambda>s. fs_host s = h) (dw_snapshots w))"

definition find_snapshot :: "pk \<Rightarrow> drift_state \<Rightarrow> snapshot option" where
  "find_snapshot i w = find (\<lambda>s. fs_id s = i) (dw_snapshots w)"

text \<open>\<open>task.delay(...)\<close>.\<close>

definition delay :: "drift_task \<Rightarrow> drift_state \<Rightarrow> drift_state" where
  "delay t w = w\<lparr>dw_tasks := dw_tasks w @ [t]\<rparr>"

text \<open>One host of \<open>capture_fact_snapshot\<close>; \<open>clock\<close> is the instant of the host's new row.\<close>

definition capture_host ::
  "drift_env \<Rightarrow> (pk \<Rightarrow> rat) \<Rightarrow> pk \<Rightarrow> pk \<Rightarrow> drift_host \<Rightarrow> drift_state \<Rightarrow> drift_state" where
  "capture_host env clock job inventory h w =
     (let hash = compute_facts_hash env (dh_facts h);
          latest = (case of_host (dh_id h) w of [] \<Rightarrow> None | s # _ \<Rightarrow> Some (fs_hash s))
      in if latest = Some hash then w
         else delay (DetectDrift (dw_next w))
           (w\<lparr>dw_snapshots := dw_snapshots w @ [\<lparr>fs_id = dw_next w, fs_host = dh_id h, fs_job = Some job,
                fs_inventory = Some inventory, fs_organization = dw_inventories w inventory,
                fs_captured = clock (dh_id h), fs_facts = dh_facts h, fs_hash = hash\<rparr>],
              dw_next := dw_next w + 1\<rparr>))"

definition capture_fact_snapshot :: "drift_env \<Rightarrow> (pk \<Rightarrow> rat) \<Rightarrow> pk \<Rightarrow> drift_state \<Rightarrow> drift_state" where
  "capture_fact_snapshot env clock job w =
     (case map_of (dw_jobs w) job of None \<Rightarrow> w
      | Some None \<Rightarrow> w
      | Some (Some inventory) \<Rightarrow>
        fold (capture_host env clock job inventory)
          (filter (\<lambda>h. dh_inventory h = inventory \<and> dh_facts_modified h \<noteq> None \<and> dh_facts h \<noteq> [])
            (dw_hosts w)) w)"

definition previous_snapshot :: "snapshot \<Rightarrow> drift_state \<Rightarrow> snapshot option" where
  "previous_snapshot s w =
     (case newest_first (filter (\<lambda>t. fs_host t = fs_host s \<and> fs_captured t < fs_captured s) (dw_snapshots w)) of
        [] \<Rightarrow> None | t # _ \<Rightarrow> Some t)"

text \<open>The rows of \<open>bulk_create\<close>, keyed in order; \<open>clock\<close> is the instant of the row with a path.\<close>

fun detection_rows ::
  "(string \<Rightarrow> rat) \<Rightarrow> snapshot \<Rightarrow> snapshot \<Rightarrow> pk \<Rightarrow> drift_item list \<Rightarrow> detection list" where
  "detection_rows clock previous s i [] = []"
| "detection_rows clock previous s i (d # ds) =
     \<lparr>dd_id = i, dd_host = fs_host s, dd_inventory = fs_inventory s, dd_organization = fs_organization s,
      dd_before = Some (fs_id previous), dd_after = fs_id s, dd_detected = clock (di_path d),
      dd_job = fs_job s, dd_item = d, dd_acknowledged = None\<rparr>
     # detection_rows clock previous s (i + 1) ds"

definition fits_columns :: "drift_item \<Rightarrow> bool" where
  "fits_columns d \<longleftrightarrow> length (di_path d) \<le> 512 \<and> length (di_summary d) \<le> 1024"

definition bulk_create ::
  "(string \<Rightarrow> rat) \<Rightarrow> snapshot \<Rightarrow> snapshot \<Rightarrow> drift_item list \<Rightarrow> drift_state \<Rightarrow> drift_error + drift_state" where
  "bulk_create clock previous s ds w =
     (if list_all fits_columns ds
      then Inr (w\<lparr>dw_detections := dw_detections w @ detection_rows clock previous s (dw_next w) ds,
                  dw_next := dw_next w + length ds\<rparr>)
      else Inl ValueTooLong)"

definition detect_drift ::
  "drift_env \<Rightarrow> (string \<Rightarrow> rat) \<Rightarrow> pk \<Rightarrow> drift_state \<Rightarrow> drift_error + drift_state" where
  "detect_drift env clock i w =
     (case find_snapshot i w of None \<Rightarrow> Inr w
      | Some s \<Rightarrow> (case previous_snapshot s w of None \<Rightarrow> Inr w
        | Some previous \<Rightarrow>
          and_then (compute_drift env (fs_facts previous) (fs_facts s)) (\<lambda>ds.
            if ds = [] then Inr w
            else and_then (bulk_create clock previous s ds w) (\<lambda>w'.
              Inr (delay (EvaluateAlerts (fs_host s)) w')))))"

section \<open>Alert rules\<close>

definition is_in_cooldown :: "rat \<Rightarrow> alert_rule \<Rightarrow> bool" where
  "is_in_cooldown now r \<longleftrightarrow>
     (case ar_last r of None \<Rightarrow> False
      | Some t \<Rightarrow> ar_cooldown r > 0 \<and> (now - t) / 60 < of_nat (ar_cooldown r))"

text \<open>The count is increased in the database, the time is of the rule as loaded.\<close>

definition record_trigger :: "rat \<Rightarrow> pk \<Rightarrow> drift_state \<Rightarrow> drift_state" where
  "record_trigger now i w =
     w\<lparr>dw_rules := map (\<lambda>r. if ar_id r = i then r\<lparr>ar_last := Some now, ar_count := ar_count r + 1\<rparr> else r) (dw_rules w)\<rparr>"

definition matched_rules :: "pk option \<Rightarrow> drift_state \<Rightarrow> alert_rule list" where
  "matched_rules org w =
     sort_key ar_name (filter (\<lambda>r. ar_enabled r \<and>
       (org = None \<or> ar_organization r = org \<or> ar_organization r = None)) (dw_rules w))"

definition severities_from :: "string \<Rightarrow> string list" where
  "severities_from m =
     map fst (filter (\<lambda>(k, v). v \<ge> dict_get drift_severity_order m 0) drift_severity_order)"

definition recent_drift :: "rat \<Rightarrow> pk \<Rightarrow> alert_rule \<Rightarrow> drift_state \<Rightarrow> detection list" where
  "recent_drift now host r w =
     filter (\<lambda>d. dd_host d = host \<and> dd_detected d \<ge> now - 60 * of_nat (ar_window r)
       \<and> (ar_categories r = [] \<or> di_category (dd_item d) \<in> set (ar_categories r))
       \<and> di_severity (dd_item d) \<in> set (severities_from (ar_severity_min r))) (dw_detections w)"

text \<open>
  \<open>values_list('category').distinct()\<close> under the default ordering: the ordering column takes part in
  \<open>SELECT DISTINCT\<close>.
\<close>

definition categories_found :: "detection list \<Rightarrow> string list" where
  "categories_found ds =
     map fst (remdups (map (\<lambda>d. (di_category (dd_item d), dd_detected d)) (sort_key (\<lambda>d. - dd_detected d) ds)))"

definition alert_summary :: "nat \<Rightarrow> string \<Rightarrow> string list \<Rightarrow> string" where
  "alert_summary n host cats =
     join_with ''. '' ((nat_str n @ '' drift items detected on host '' @ host) #
       (if cats \<noteq> [] then [''Categories: '' @ join_with '', '' cats] else []))"

definition alert_subject :: "alert_rule \<Rightarrow> string" where
  "alert_subject r = ''[Forail] Drift Alert: '' @ ar_name r"

definition alert_body :: "alert_rule \<Rightarrow> string \<Rightarrow> nat \<Rightarrow> string list \<Rightarrow> string" where
  "alert_body r host n cats =
     ''Drift alert triggered for host '' @ host @ ''.'' @ [CHR 0x0A] @
     ''Rule: '' @ ar_name r @ [CHR 0x0A] @
     ''Drift count: '' @ nat_str n @ '' (threshold: '' @ nat_str (ar_threshold r) @ '')'' @ [CHR 0x0A] @
     ''Categories: '' @ join_with '', '' cats @ [CHR 0x0A]"

definition notify :: "drift_env \<Rightarrow> alert_rule \<Rightarrow> string \<Rightarrow> nat \<Rightarrow> string list \<Rightarrow> notification_status \<times> string" where
  "notify env r host n cats =
     (case ar_template r of None \<Rightarrow> (AlertPending, [])
      | Some t \<Rightarrow> (case dv_send env t (alert_subject r) (alert_body r host n cats) of
          None \<Rightarrow> (AlertSent, []) | Some e \<Rightarrow> (AlertFailed, e)))"

text \<open>
  One rule of \<open>evaluate_drift_alerts\<close>. The instant \<open>now\<close> stands for the readings of the clock that the
  code takes one after another for the rule: in the test of the cooldown, at the start of the window,
  in the alert's creation and in the record of the trigger.
\<close>

definition evaluate_alert_rule ::
  "drift_env \<Rightarrow> rat \<Rightarrow> drift_host \<Rightarrow> pk option \<Rightarrow> alert_rule \<Rightarrow> drift_state \<Rightarrow> drift_state" where
  "evaluate_alert_rule env now host org r w =
     (if ar_inventory r \<noteq> None \<and> ar_inventory r \<noteq> Some (dh_inventory host) then w
      else if ar_host_filter r \<noteq> [] \<and> \<not> fnmatch (dh_name host) (ar_host_filter r) then w
      else if is_in_cooldown now r then w
      else (let drift = recent_drift now (dh_id host) r w; n = length drift; cats = categories_found drift in
        if n < ar_threshold r then w
        else (let (status, err) = notify env r (dh_name host) n cats in
          record_trigger now (ar_id r)
            (w\<lparr>dw_alerts := dw_alerts w @ [\<lparr>da_id = dw_next w, da_rule = ar_id r, da_host = dh_id host,
                 da_organization = org, da_created = now, da_count = n,
                 da_summary = alert_summary n (dh_name host) cats, da_status = status, da_error = err\<rparr>],
               dw_next := dw_next w + 1\<rparr>))))"

definition evaluate_drift_alerts :: "drift_env \<Rightarrow> (pk \<Rightarrow> rat) \<Rightarrow> pk \<Rightarrow> drift_state \<Rightarrow> drift_state" where
  "evaluate_drift_alerts env clock h w =
     (case find (\<lambda>x. dh_id x = h) (dw_hosts w) of None \<Rightarrow> w
      | Some host \<Rightarrow>
        (let org = dw_inventories w (dh_inventory host)
         in fold (\<lambda>r. evaluate_alert_rule env (clock (ar_id r)) host org r) (matched_rules org w) w))"

section \<open>Cleanup\<close>

text \<open>
  Deleting snapshots deletes the drift that was found at them and clears the reference of the drift
  that was found against them.
\<close>

definition delete_snapshots :: "(snapshot \<Rightarrow> bool) \<Rightarrow> drift_state \<Rightarrow> drift_state" where
  "delete_snapshots P w =
     (let gone = map fs_id (filter P (dw_snapshots w)) in
      w\<lparr>dw_snapshots := filter (\<lambda>s. \<not> P s) (dw_snapshots w),
        dw_detections := map (\<lambda>d. case dd_before d of
            Some i \<Rightarrow> if i \<in> set gone then d\<lparr>dd_before := None\<rparr> else d | None \<Rightarrow> d)
          (filter (\<lambda>d. dd_after d \<notin> set gone) (dw_detections w))\<rparr>)"

definition cleanup_host :: "rat \<Rightarrow> nat \<Rightarrow> pk \<Rightarrow> drift_state \<Rightarrow> drift_state" where
  "cleanup_host cutoff min_keep h w =
     (let keep_ids = map fs_id (take min_keep (of_host h w)) in
      delete_snapshots (\<lambda>s. fs_host s = h \<and> fs_captured s < cutoff \<and> fs_id s \<notin> set keep_ids) w)"

text \<open>\<open>cleanup_old_snapshots(retention_days=90, min_keep=2)\<close>; a host is listed once for every instant.\<close>

definition cleanup_old_snapshots :: "rat \<Rightarrow> nat \<Rightarrow> nat \<Rightarrow> drift_state \<Rightarrow> drift_state" where
  "cleanup_old_snapshots now retention_days min_keep w =
     (let cutoff = now - 86400 * of_nat retention_days;
          host_ids = map fst (remdups (map (\<lambda>s. (fs_host s, fs_captured s))
            (newest_first (filter (\<lambda>s. fs_captured s < cutoff) (dw_snapshots w)))))
      in fold (cleanup_host cutoff min_keep) host_ids w)"

section \<open>Views\<close>

record drift_user =
  du_id :: pk
  du_superuser :: bool
  du_auditor :: bool
  du_organizations :: "pk list"

definition org_filtered :: "drift_user \<Rightarrow> ('a \<Rightarrow> pk option) \<Rightarrow> 'a list \<Rightarrow> 'a list" where
  "org_filtered u org rows =
     (if du_superuser u \<or> du_auditor u then rows
      else filter (\<lambda>x. \<exists>k \<in> set (du_organizations u). org x = Some k) rows)"

datatype drift_reply = NotFound | Forbidden | BadRequest | Acknowledged | Enabled bool | Compared "drift_item list"

definition acknowledge_view :: "drift_user \<Rightarrow> rat \<Rightarrow> pk \<Rightarrow> drift_state \<Rightarrow> drift_reply \<times> drift_state" where
  "acknowledge_view u now i w =
     (case find (\<lambda>d. dd_id d = i) (org_filtered u dd_organization (dw_detections w)) of
        None \<Rightarrow> (NotFound, w)
      | Some d \<Rightarrow> (Acknowledged, w\<lparr>dw_detections :=
          map (\<lambda>x. if dd_id x = i then x\<lparr>dd_acknowledged := Some (du_id u, now)\<rparr> else x) (dw_detections w)\<rparr>))"

definition toggle_alert_rule_view ::
  "(drift_user \<Rightarrow> alert_rule \<Rightarrow> bool) \<Rightarrow> drift_user \<Rightarrow> pk \<Rightarrow> string \<Rightarrow> drift_state \<Rightarrow> drift_reply \<times> drift_state" where
  "toggle_alert_rule_view can_change u i action w =
     (case find (\<lambda>r. ar_id r = i) (org_filtered u ar_organization (dw_rules w)) of
        None \<Rightarrow> (NotFound, w)
      | Some r \<Rightarrow>
        (if \<not> can_change u r then (Forbidden, w)
         else (Enabled (action = ''enable''), w\<lparr>dw_rules :=
           map (\<lambda>x. if ar_id x = i then x\<lparr>ar_enabled := (action = ''enable'')\<rparr> else x) (dw_rules w)\<rparr>)))"

definition compare_view ::
  "drift_env \<Rightarrow> drift_user \<Rightarrow> pk option \<Rightarrow> pk option \<Rightarrow> drift_state \<Rightarrow> drift_error + drift_reply" where
  "compare_view env u a b w =
     (case (a, b) of
        (Some i, Some j) \<Rightarrow>
          (if i = 0 \<or> j = 0 then Inr BadRequest
           else (let qs = org_filtered u fs_organization (dw_snapshots w) in
             case (find (\<lambda>s. fs_id s = i) qs, find (\<lambda>s. fs_id s = j) qs) of
               (Some s, Some t) \<Rightarrow> and_then (compute_drift env (fs_facts s) (fs_facts t)) (\<lambda>ds. Inr (Compared ds))
             | _ \<Rightarrow> Inr NotFound))
      | _ \<Rightarrow> Inr BadRequest)"

end
