(* ===== verification/Drift_Correct.thy ===== *)
theory Drift_Correct
  imports Drift_Detection
begin

text \<open>
  What drift detection finds, what stops it, what the alert rules may do, and what the cleanup keeps.
\<close>

section \<open>Truncation\<close>

lemma cut_never_parses: "loads rd (p @ cut_marker) = None"
proof (cases "loads rd (p @ cut_marker)")
  case (Some v)
  then obtain st where "lex_run st cut_marker \<noteq> None"
    using loads_lexical [OF Some] by (auto simp: lex_run_append split: option.splits)
  then show ?thesis
    by (cases st) (simp_all add: cut_marker_def is_digit_def is_hex_digit_def simple_escape_def json_space_def)
qed

lemma truncate_value_eq:
  "truncate_value env v =
     (if length (dumps id (dv_real_text env) v) > 2000 then Inl DecodeError else Inr v)"
  by (simp add: truncate_value_def Let_def cut_never_parses)

section \<open>The items of a comparison\<close>

lemma each_Inr: "each f xs = Inr ys \<Longrightarrow> list_all2 (\<lambda>x y. f x = Inr y) xs ys"
proof (induction xs arbitrary: ys)
  case (Cons x xs)
  then show ?case
    by (cases "f x"; cases "each f xs") auto
qed simp

lemma each_Inl: "x \<in> set xs \<Longrightarrow> f x = Inl e \<Longrightarrow> \<exists>e'. each f xs = Inl e'"
proof (induction xs)
  case (Cons a xs)
  then show ?case
    by (cases "f a") auto
qed simp

lemma drift_of_error: "drift_of env old new k = Inl e \<Longrightarrow> e = DecodeError"
  by (auto simp: drift_of_def Let_def truncate_value_eq split: if_splits)

lemma each_error: "each f xs = Inl e \<Longrightarrow> \<exists>x \<in> set xs. f x = Inl e"
proof (induction xs)
  case (Cons a xs)
  then show ?case
    by (cases "f a"; cases "each f xs") auto
qed simp

lemma drift_of_Inr:
  assumes "drift_of env old new k = Inr d"
  shows "di_path d = k" "(di_category d, di_severity d) = classify_fact k"
    "di_before d = obj_get old k" "di_after d = obj_get new k"
    "di_kind d = diff_type (obj_get old k) (obj_get new k)"
  using assms by (auto simp: drift_of_def Let_def truncate_value_eq split: if_splits)

definition changed_paths :: "facts \<Rightarrow> facts \<Rightarrow> string list" where
  "changed_paths old new = filter (compared old new) (sort (remdups (map fst old @ map fst new)))"

lemma changed_paths_iff: "k \<in> set (changed_paths old new) \<longleftrightarrow> k \<in> fst ` set old \<union> fst ` set new \<and> compared old new k"
  by (auto simp: changed_paths_def)

lemma distinct_changed_paths: "distinct (changed_paths old new)"
  by (simp add: changed_paths_def)

lemma compute_drift_Inr:
  assumes "compute_drift env old new = Inr ds"
  shows "list_all2 (\<lambda>k d. drift_of env old new k = Inr d) (changed_paths old new) ds"
  using assms each_Inr unfolding compute_drift_def changed_paths_def by blast

lemma compute_drift_paths:
  assumes "compute_drift env old new = Inr ds"
  shows "map di_path ds = changed_paths old new"
  using compute_drift_Inr [OF assms] by (induction rule: list_all2_induct) (auto dest: drift_of_Inr)

lemma compute_drift_items:
  assumes "compute_drift env old new = Inr ds" "d \<in> set ds"
  shows "drift_of env old new (di_path d) = Inr d"
  using compute_drift_Inr [OF assms(1)] assms(2) drift_of_Inr(1)
  by (fastforce simp: list_all2_conv_all_nth in_set_conv_nth)

lemma map_item_rows: "map dd_item (detection_rows clock p s i ds) = ds"
  by (induction ds arbitrary: i) simp_all

lemma detection_row:
  "d \<in> set (detection_rows clock p s i ds) \<Longrightarrow>
     dd_host d = fs_host s \<and> dd_inventory d = fs_inventory s \<and> dd_organization d = fs_organization s \<and>
     dd_before d = Some (fs_id p) \<and> dd_after d = fs_id s \<and> dd_job d = fs_job s \<and> dd_item d \<in> set ds \<and>
     dd_id d \<in> {i ..< i + length ds}"
  by (induction ds arbitrary: i) fastforce+

lemma detect_drift_Inr:
  assumes "detect_drift env clock i w = Inr w'" "find_snapshot i w = Some s" "previous_snapshot s w = Some p"
  obtains ds where "compute_drift env (fs_facts p) (fs_facts s) = Inr ds"
    and "w' = (if ds = [] then w else delay (EvaluateAlerts (fs_host s))
      (w\<lparr>dw_detections := dw_detections w @ detection_rows clock p s (dw_next w) ds,
         dw_next := dw_next w + length ds\<rparr>))"
proof (cases "compute_drift env (fs_facts p) (fs_facts s)")
  case (Inl e)
  then show ?thesis
    using assms by (simp add: detect_drift_def)
next
  case (Inr ds)
  show ?thesis
  proof (rule that [OF Inr])
    show "w' = (if ds = [] then w else delay (EvaluateAlerts (fs_host s))
      (w\<lparr>dw_detections := dw_detections w @ detection_rows clock p s (dw_next w) ds,
         dw_next := dw_next w + length ds\<rparr>))"
      using assms Inr by (simp add: detect_drift_def bulk_create_def split: if_splits)
  qed
qed

text \<open>
  Where the tables of the code are not those of \<open>docs/16-drift-detection.md\<close>: the documentation gives
  the severity \<open>critical\<close> to the first two facts, \<open>high\<close> to the third and fourth and \<open>medium\<close> to the
  last two, and it does not list the skipped key.
\<close>

lemma documented_tables_differ:
  "map (snd \<circ> classify_fact) [''ansible_sysctl'', ''ansible_selinux'', ''ansible_interfaces'', ''ansible_user_gecos'',
     ''ansible_service_mgr'', ''ansible_devices''] = [''high'', ''high'', ''medium'', ''medium'', ''low'', ''low'']"
  "''ansible_fibre_channel_wwn'' \<in> set skip_keys"
  by code_simp+

text \<open>
  C24. When the comparison of a snapshot with its predecessor succeeds, it records one row for every
  fact whose value is not the same in the two snapshots, where a missing fact has the value null, and
  which is none of the six keys that the code skips; no row for any other fact (so none for a fact
  that appears or disappears with the value null), and no fact twice. Every row carries the category
  and severity that the code's table and patterns give to its fact (they are not those of the
  documentation for every fact, \<open>documented_tables_differ\<close>), the two values as they are in
  the snapshots and the two snapshots themselves, and the alert rules are evaluated for the host
  exactly when there is a row.
\<close>

theorem drift_detection_exact:
  assumes "detect_drift env clock i w = Inr w'" and "find_snapshot i w = Some s" and "previous_snapshot s w = Some p"
  shows "\<exists>rows. dw_detections w' = dw_detections w @ rows \<and>
    distinct (map (\<lambda>d. di_path (dd_item d)) rows) \<and>
    (\<forall>k. k \<in> (\<lambda>d. di_path (dd_item d)) ` set rows \<longleftrightarrow>
       k \<in> fst ` set (fs_facts p) \<union> fst ` set (fs_facts s) \<and> k \<notin> set skip_keys \<and>
       \<not> py_eq (obj_get (fs_facts p) k) (obj_get (fs_facts s) k)) \<and>
    (\<forall>d \<in> set rows. dd_host d = fs_host s \<and> dd_before d = Some (fs_id p) \<and> dd_after d = fs_id s \<and>
       (di_category (dd_item d), di_severity (dd_item d)) = classify_fact (di_path (dd_item d)) \<and>
       di_before (dd_item d) = obj_get (fs_facts p) (di_path (dd_item d)) \<and>
       di_after (dd_item d) = obj_get (fs_facts s) (di_path (dd_item d))) \<and>
    dw_tasks w' = dw_tasks w @ (if rows = [] then [] else [EvaluateAlerts (fs_host s)])"
proof -
  obtain ds where ds: "compute_drift env (fs_facts p) (fs_facts s) = Inr ds"
    and w': "w' = (if ds = [] then w else delay (EvaluateAlerts (fs_host s))
      (w\<lparr>dw_detections := dw_detections w @ detection_rows clock p s (dw_next w) ds,
         dw_next := dw_next w + length ds\<rparr>))"
    using detect_drift_Inr [OF assms] .
  define rows where "rows = detection_rows clock p s (dw_next w) ds"
  have item: "map dd_item rows = ds"
    unfolding rows_def by (rule map_item_rows)
  then have empty: "rows = [] \<longleftrightarrow> ds = []"
    by auto
  have paths: "map (\<lambda>d. di_path (dd_item d)) rows = changed_paths (fs_facts p) (fs_facts s)"
    using compute_drift_paths [OF ds] item by (metis (no_types, lifting) comp_apply list.map_comp map_eq_conv)
  then have set_paths: "(\<lambda>d. di_path (dd_item d)) ` set rows = set (changed_paths (fs_facts p) (fs_facts s))"
    by (metis list.set_map)
  have row: "dd_host d = fs_host s \<and> dd_before d = Some (fs_id p) \<and> dd_after d = fs_id s \<and>
       (di_category (dd_item d), di_severity (dd_item d)) = classify_fact (di_path (dd_item d)) \<and>
       di_before (dd_item d) = obj_get (fs_facts p) (di_path (dd_item d)) \<and>
       di_after (dd_item d) = obj_get (fs_facts s) (di_path (dd_item d))" if "d \<in> set rows" for d
    using detection_row [OF that [unfolded rows_def]] drift_of_Inr [OF compute_drift_items [OF ds]] by simp
  have "dw_detections w' = dw_detections w @ rows"
    "dw_tasks w' = dw_tasks w @ (if rows = [] then [] else [EvaluateAlerts (fs_host s)])"
    unfolding w' empty by (simp_all add: delay_def rows_def)
  moreover have "distinct (map (\<lambda>d. di_path (dd_item d)) rows)"
    unfolding paths by (rule distinct_changed_paths)
  ultimately show ?thesis
    using row set_paths by (intro exI [of _ rows]) (simp add: changed_paths_iff compared_def)
qed

text \<open>
  C30. One changed fact whose JSON text is longer than 2000 characters stops the whole comparison: the
  shortened text is never JSON, the task raises, and neither this change nor any other change of the
  host is recorded.
\<close>

theorem large_fact_hides_drift:
  assumes "find_snapshot i w = Some s" and "previous_snapshot s w = Some p"
    and "k \<in> fst ` set (fs_facts p) \<union> fst ` set (fs_facts s)" and "compared (fs_facts p) (fs_facts s) k"
    and "length (dumps id (dv_real_text env) (obj_get (fs_facts p) k)) > 2000 \<or>
         length (dumps id (dv_real_text env) (obj_get (fs_facts s) k)) > 2000"
  shows "detect_drift env clock i w = Inl DecodeError"
proof -
  have "drift_of env (fs_facts p) (fs_facts s) k = Inl DecodeError"
    using assms(5) by (auto simp: drift_of_def Let_def truncate_value_eq)
  moreover have "k \<in> set (changed_paths (fs_facts p) (fs_facts s))"
    using assms(3,4) changed_paths_iff by blast
  ultimately obtain e where e: "compute_drift env (fs_facts p) (fs_facts s) = Inl e"
    unfolding compute_drift_def changed_paths_def using each_Inl by metis
  then have "e = DecodeError"
    unfolding compute_drift_def using each_error drift_of_error by metis
  then show ?thesis
    using assms(1,2) e by (simp add: detect_drift_def)
qed

section \<open>Cleanup\<close>

lemma newest_first_filter: "newest_first (filter P ss) = filter P (newest_first ss)"
  by (simp add: newest_first_def filter_sort)

lemma set_newest_first [simp]: "set (newest_first ss) = set ss"
  by (simp add: newest_first_def)

definition survives :: "rat \<Rightarrow> nat \<Rightarrow> drift_state \<Rightarrow> snapshot \<Rightarrow> bool" where
  "survives cutoff k w s \<longleftrightarrow> cutoff \<le> fs_captured s \<or> fs_id s \<in> set (map fs_id (take k (of_host (fs_host s) w)))"

lemma take_filter:
  assumes "\<forall>x \<in> set (take k xs). P x"
  shows "take k (filter P xs) = take k xs"
proof -
  have "filter P xs = take k xs @ filter P (drop k xs)"
    using assms by (metis append_take_drop_id filter_True filter_append)
  then show ?thesis
    by (cases "k \<le> length xs") auto
qed

lemma cleanup_host_snapshots:
  "dw_snapshots (cleanup_host cutoff k h w) =
     filter (\<lambda>s. fs_host s = h \<longrightarrow> survives cutoff k w s) (dw_snapshots w)"
  unfolding cleanup_host_def delete_snapshots_def Let_def survives_def
  by (auto intro!: filter_cong)

lemma filtered_of_host:
  assumes "dw_snapshots w' = filter (\<lambda>s. Q s \<longrightarrow> survives cutoff k w s) (dw_snapshots w)"
  shows "take k (of_host h w') = take k (of_host h w)"
proof -
  have "of_host h w' = filter (\<lambda>s. Q s \<longrightarrow> survives cutoff k w s) (of_host h w)"
    unfolding of_host_def assms by (auto simp: newest_first_filter intro!: filter_cong)
  moreover have "\<forall>s \<in> set (take k (of_host h w)). Q s \<longrightarrow> survives cutoff k w s"
  proof
    fix s assume s: "s \<in> set (take k (of_host h w))"
    then have "s \<in> set (of_host h w)"
      by (rule in_set_takeD)
    then have "fs_host s = h"
      by (simp add: of_host_def)
    then show "Q s \<longrightarrow> survives cutoff k w s"
      using s by (simp add: survives_def)
  qed
  ultimately show ?thesis
    by (simp add: take_filter)
qed

lemma survives_same:
  assumes "dw_snapshots w' = filter (\<lambda>s. Q s \<longrightarrow> survives cutoff k w s) (dw_snapshots w)"
  shows "survives cutoff k w' = survives cutoff k w"
  unfolding survives_def fun_eq_iff by (simp add: filtered_of_host [OF assms])

lemma cleanup_hosts_snapshots:
  "dw_snapshots (fold (cleanup_host cutoff k) hs w) =
     filter (\<lambda>s. fs_host s \<in> set hs \<longrightarrow> survives cutoff k w s) (dw_snapshots w)"
proof (induction hs arbitrary: w)
  case (Cons h hs)
  then show ?case
    unfolding fold_simps comp_apply Cons
      survives_same [OF cleanup_host_snapshots] cleanup_host_snapshots
    by (auto simp: filter_filter intro!: filter_cong)
qed simp

text \<open>
  The cleanup deletes exactly the snapshots that are older than the retention period and not
  among the newest \<open>min_keep\<close> of their host; the others keep their rows and their order.
\<close>

theorem cleanup_exact:
  "dw_snapshots (cleanup_old_snapshots now days min_keep w) =
     filter (\<lambda>s. now - 86400 * of_nat days \<le> fs_captured s \<or>
         fs_id s \<in> set (map fs_id (take min_keep (of_host (fs_host s) w)))) (dw_snapshots w)"
  unfolding cleanup_old_snapshots_def Let_def cleanup_hosts_snapshots survives_def
  by (auto simp: image_iff not_less intro!: filter_cong)

end
