(* ===== verification/Drift_Runs.thy ===== *)
theory Drift_Runs
  imports Drift_Correct
begin

text \<open>
  Runs of the drift tasks and views in any order: the links between the rows, and the distance of the
  alerts of a rule. The examples show the hypotheses of the theorems fulfilled.
\<close>

section \<open>Operations\<close>

text \<open>
  A task that raises leaves the rows as they were. The facts of a host are stored by the fact cache of
  the jobs, at any time.
\<close>

definition store_facts :: "pk \<Rightarrow> facts \<Rightarrow> rat \<Rightarrow> drift_state \<Rightarrow> drift_state" where
  "store_facts h d now w =
     w\<lparr>dw_hosts := map (\<lambda>x. if dh_id x = h then x\<lparr>dh_facts := d, dh_facts_modified := Some now\<rparr> else x) (dw_hosts w)\<rparr>"

datatype drift_op =
    StoreFacts pk facts rat
  | CaptureFacts "pk \<Rightarrow> rat" pk
  | DetectAt "string \<Rightarrow> rat" pk
  | EvaluateAt "pk \<Rightarrow> rat" pk
  | CleanUp rat nat nat
  | AcknowledgeBy drift_user rat pk
  | ToggleBy drift_user pk string

fun drift_step :: "drift_env \<Rightarrow> (drift_user \<Rightarrow> alert_rule \<Rightarrow> bool) \<Rightarrow> drift_op \<Rightarrow> drift_state \<Rightarrow> drift_state" where
  "drift_step env can (StoreFacts h d now) w = store_facts h d now w"
| "drift_step env can (CaptureFacts clock job) w = capture_fact_snapshot env clock job w"
| "drift_step env can (DetectAt clock i) w =
     (case detect_drift env clock i w of Inl e \<Rightarrow> w | Inr w' \<Rightarrow> w')"
| "drift_step env can (EvaluateAt clock h) w = evaluate_drift_alerts env clock h w"
| "drift_step env can (CleanUp now days min_keep) w = cleanup_old_snapshots now days min_keep w"
| "drift_step env can (AcknowledgeBy u now i) w = snd (acknowledge_view u now i w)"
| "drift_step env can (ToggleBy u i action) w = snd (toggle_alert_rule_view can u i action w)"

definition run_drift ::
  "drift_env \<Rightarrow> (drift_user \<Rightarrow> alert_rule \<Rightarrow> bool) \<Rightarrow> drift_op list \<Rightarrow> drift_state \<Rightarrow> drift_state" where
  "run_drift env can ops w = fold (drift_step env can) ops w"

lemma fold_invariant:
  assumes "\<And>x w. P w \<Longrightarrow> P (f x w)" "P w"
  shows "P (fold f xs w)"
  using assms(2) by (induction xs arbitrary: w) (simp_all add: assms(1))

section \<open>Links\<close>

definition detection_linked :: "snapshot list \<Rightarrow> detection \<Rightarrow> bool" where
  "detection_linked ss d \<longleftrightarrow> (\<exists>s \<in> set ss. fs_id s = dd_after d \<and> fs_host s = dd_host d \<and>
     (\<forall>i. dd_before d = Some i \<longrightarrow>
       (\<exists>p \<in> set ss. fs_id p = i \<and> fs_host p = dd_host d \<and> fs_captured p < fs_captured s)))"

definition links_ok :: "drift_state \<Rightarrow> bool" where
  "links_ok w \<longleftrightarrow> distinct (map fs_id (dw_snapshots w)) \<and> (\<forall>s \<in> set (dw_snapshots w). fs_id s < dw_next w) \<and>
     (\<forall>d \<in> set (dw_detections w). detection_linked (dw_snapshots w) d)"

lemma detection_linked_more: "detection_linked ss d \<Longrightarrow> detection_linked (ss @ ts) d"
  unfolding detection_linked_def by (metis UnCI set_append)

lemma links_more:
  assumes "links_ok w" "dw_snapshots w' = dw_snapshots w" "dw_detections w' = dw_detections w" "dw_next w \<le> dw_next w'"
  shows "links_ok w'"
  using assms unfolding links_ok_def by (metis order_less_le_trans)

lemma links_capture_host: "links_ok w \<Longrightarrow> links_ok (capture_host env clock job inventory h w)"
  unfolding capture_host_def Let_def links_ok_def delay_def
  by (auto simp: detection_linked_more less_Suc_eq)

lemma links_capture: "links_ok w \<Longrightarrow> links_ok (capture_fact_snapshot env clock job w)"
  unfolding capture_fact_snapshot_def
  by (auto split: option.splits intro!: fold_invariant [where P = links_ok] links_capture_host)

lemma find_snapshot_in: "find_snapshot i w = Some s \<Longrightarrow> s \<in> set (dw_snapshots w) \<and> fs_id s = i"
  unfolding find_snapshot_def by (auto simp: find_Some_iff)

lemma previous_snapshot_in:
  assumes "previous_snapshot s w = Some p"
  shows "p \<in> set (dw_snapshots w)" "fs_host p = fs_host s" "fs_captured p < fs_captured s"
proof -
  obtain ps where "newest_first (filter (\<lambda>t. fs_host t = fs_host s \<and> fs_captured t < fs_captured s) (dw_snapshots w)) = p # ps"
    using assms unfolding previous_snapshot_def by (auto split: list.splits)
  then have "p \<in> set (newest_first (filter (\<lambda>t. fs_host t = fs_host s \<and> fs_captured t < fs_captured s) (dw_snapshots w)))"
    by (metis list.set_intros(1))
  then show "p \<in> set (dw_snapshots w)" "fs_host p = fs_host s" "fs_captured p < fs_captured s"
    by auto
qed

lemma links_detect:
  assumes "links_ok w" "detect_drift env clock i w = Inr w'"
  shows "links_ok w'"
proof (cases "find_snapshot i w")
  case None
  then show ?thesis
    using assms by (simp add: detect_drift_def)
next
  case (Some s)
  show ?thesis
  proof (cases "previous_snapshot s w")
    case None
    then show ?thesis
      using assms Some by (simp add: detect_drift_def)
  next
    case p: (Some p)
    obtain ds where w': "w' = (if ds = [] then w else delay (EvaluateAlerts (fs_host s))
        (w\<lparr>dw_detections := dw_detections w @ detection_rows clock p s (dw_next w) ds,
           dw_next := dw_next w + length ds\<rparr>))"
      using detect_drift_Inr [OF assms(2) Some p] .
    have "detection_linked (dw_snapshots w) d" if "d \<in> set (detection_rows clock p s (dw_next w) ds)" for d
      using detection_row [OF that] find_snapshot_in [OF Some] previous_snapshot_in [OF p]
      unfolding detection_linked_def by auto
    then have "\<forall>d \<in> set (dw_detections w'). detection_linked (dw_snapshots w') d" "dw_snapshots w' = dw_snapshots w"
      "dw_next w \<le> dw_next w'"
      using assms(1) unfolding w' links_ok_def delay_def by auto
    then show ?thesis
      using assms(1) unfolding links_ok_def by (metis order_less_le_trans)
  qed
qed

lemma links_delete:
  assumes "links_ok w"
  shows "links_ok (delete_snapshots P w)"
proof -
  let ?gone = "map fs_id (filter P (dw_snapshots w))"
  have stays: "s \<in> set (dw_snapshots w) \<Longrightarrow> fs_id s \<notin> set ?gone \<Longrightarrow> \<not> P s" for s
    by auto
  have "detection_linked (filter (\<lambda>s. \<not> P s) (dw_snapshots w))
      (case dd_before d of Some i \<Rightarrow> if i \<in> set ?gone then d\<lparr>dd_before := None\<rparr> else d | None \<Rightarrow> d)"
    if d: "d \<in> set (dw_detections w)" "dd_after d \<notin> set ?gone" for d
  proof -
    have "detection_linked (dw_snapshots w) d"
      using assms d(1) unfolding links_ok_def by blast
    then obtain s where s: "s \<in> set (dw_snapshots w)" "fs_id s = dd_after d" "fs_host s = dd_host d"
      and b: "\<And>i. dd_before d = Some i \<Longrightarrow>
        \<exists>p \<in> set (dw_snapshots w). fs_id p = i \<and> fs_host p = dd_host d \<and> fs_captured p < fs_captured s"
      unfolding detection_linked_def by blast
    have s_stays: "\<not> P s"
      using stays [OF s(1)] s(2) d(2) by simp
    show ?thesis
    proof (cases "dd_before d")
      case None
      then show ?thesis
        using s s_stays unfolding detection_linked_def by auto
    next
      case (Some i)
      obtain p where p: "p \<in> set (dw_snapshots w)" "fs_id p = i" "fs_host p = dd_host d" "fs_captured p < fs_captured s"
        using b [OF Some] by blast
      show ?thesis
      proof (cases "i \<in> set ?gone")
        case True
        then show ?thesis
          using Some s s_stays unfolding detection_linked_def by auto
      next
        case False
        then have "\<not> P p"
          using stays [OF p(1)] p(2) by simp
        then show ?thesis
          using Some False s s_stays p unfolding detection_linked_def by auto
      qed
    qed
  qed
  then show ?thesis
    using assms unfolding links_ok_def delete_snapshots_def Let_def
    by (auto simp: distinct_map_filter)
qed

lemma links_cleanup: "links_ok w \<Longrightarrow> links_ok (cleanup_old_snapshots now days k w)"
  unfolding cleanup_old_snapshots_def Let_def
  by (rule fold_invariant [where P = links_ok]) (simp_all add: cleanup_host_def links_delete)

section \<open>Alerts\<close>

definition alerts_of :: "pk \<Rightarrow> drift_state \<Rightarrow> drift_alert list" where
  "alerts_of k w = filter (\<lambda>a. da_rule a = k) (dw_alerts w)"

definition cooled_apart :: "alert_rule \<Rightarrow> drift_alert \<Rightarrow> drift_alert \<Rightarrow> bool" where
  "cooled_apart r a b \<longleftrightarrow> 60 * of_nat (ar_cooldown r) \<le> da_created b - da_created a"

definition rule_alerts_ok :: "drift_state \<Rightarrow> alert_rule \<Rightarrow> bool" where
  "rule_alerts_ok w r \<longleftrightarrow> 0 < ar_cooldown r \<longrightarrow>
     sorted_wrt (cooled_apart r) (alerts_of (ar_id r) w) \<and>
     (\<forall>a \<in> set (alerts_of (ar_id r) w). \<exists>t. ar_last r = Some t \<and> da_created a \<le> t)"

definition alerts_ok :: "drift_state \<Rightarrow> bool" where
  "alerts_ok w \<longleftrightarrow> distinct (map ar_id (dw_rules w)) \<and> (\<forall>r \<in> set (dw_rules w). rule_alerts_ok w r)"

lemma alerts_same:
  assumes "alerts_ok w" "dw_rules w' = dw_rules w" "dw_alerts w' = dw_alerts w"
  shows "alerts_ok w'"
  using assms by (simp add: alerts_ok_def rule_alerts_ok_def alerts_of_def)

text \<open>What evaluating one rule can do to the rules and the alerts.\<close>

lemma evaluate_alert_rule_cases:
  assumes "w' = evaluate_alert_rule env now host org r w"
  obtains "w' = w"
  | a where "\<not> is_in_cooldown now r" "da_rule a = ar_id r" "da_created a = now"
    "dw_alerts w' = dw_alerts w @ [a]"
    "dw_rules w' = map (\<lambda>x. if ar_id x = ar_id r then x\<lparr>ar_last := Some now, ar_count := ar_count x + 1\<rparr> else x) (dw_rules w)"
    "dw_snapshots w' = dw_snapshots w" "dw_detections w' = dw_detections w" "dw_next w' = dw_next w + 1"
proof (cases "w' = w")
  case False
  define n where "n = length (recent_drift now (dh_id host) r w)"
  define cats where "cats = categories_found (recent_drift now (dh_id host) r w)"
  obtain status err where st: "notify env r (dh_name host) n cats = (status, err)"
    by fastforce
  define a where "a = \<lparr>da_id = dw_next w, da_rule = ar_id r, da_host = dh_id host, da_organization = org,
    da_created = now, da_count = n, da_summary = alert_summary n (dh_name host) cats, da_status = status, da_error = err\<rparr>"
  have w': "w' = record_trigger now (ar_id r) (w\<lparr>dw_alerts := dw_alerts w @ [a], dw_next := dw_next w + 1\<rparr>)"
    and "\<not> is_in_cooldown now r"
    using assms False st unfolding evaluate_alert_rule_def a_def n_def cats_def
    by (auto simp: Let_def split: if_splits)
  then show ?thesis
    by (intro that(2) [of a]) (simp_all add: record_trigger_def a_def)
qed (rule that(1))

lemma rule_unique:
  assumes "distinct (map ar_id rs)" "x \<in> set rs" "y \<in> set rs" "ar_id x = ar_id y"
  shows "x = y"
  using assms by (metis distinct_map inj_onD)

lemma fired_apart:
  assumes "rule_alerts_ok w r" "\<not> is_in_cooldown now r" "0 < ar_cooldown r" "b \<in> set (alerts_of (ar_id r) w)"
  shows "60 * of_nat (ar_cooldown r) \<le> now - da_created b"
proof -
  obtain t where t: "ar_last r = Some t" "da_created b \<le> t"
    using assms(1,3,4) unfolding rule_alerts_ok_def by blast
  then have "of_nat (ar_cooldown r) \<le> (now - t) / 60"
    using assms(2,3) by (simp add: is_in_cooldown_def not_less)
  then show ?thesis
    using t(2) by (simp add: field_simps)
qed

lemma alerts_evaluate_rule:
  assumes ok: "alerts_ok w" and r: "r \<in> set (dw_rules w)"
  shows "alerts_ok (evaluate_alert_rule env now host org r w)"
  (is "alerts_ok ?w")
proof (cases rule: evaluate_alert_rule_cases [OF refl, of env now host org r w])
  case 1
  then show ?thesis
    using ok by simp
next
  case (2 a)
  let ?r = "r\<lparr>ar_last := Some now, ar_count := ar_count r + 1\<rparr>"
  have ids: "map ar_id (dw_rules ?w) = map ar_id (dw_rules w)"
    unfolding 2(5) by simp
  have d: "distinct (map ar_id (dw_rules w))" and all: "\<And>x. x \<in> set (dw_rules w) \<Longrightarrow> rule_alerts_ok w x"
    using ok unfolding alerts_ok_def by auto
  have "rule_alerts_ok ?w x" if x: "x \<in> set (dw_rules ?w)" for x
  proof (cases "ar_id x = ar_id r")
    case True
    obtain y where y: "y \<in> set (dw_rules w)" "x = (if ar_id y = ar_id r then y\<lparr>ar_last := Some now, ar_count := ar_count y + 1\<rparr> else y)"
      using x unfolding 2(5) by auto
    then have "ar_id y = ar_id r"
      using True by (auto split: if_splits)
    then have "y = r"
      using rule_unique [OF d y(1) r] by simp
    then have xr: "x = ?r"
      using y(2) by simp
    have al: "alerts_of (ar_id r) ?w = alerts_of (ar_id r) w @ [a]"
      unfolding alerts_of_def 2(4) using 2(2) by simp
    have far: "60 * of_nat (ar_cooldown r) \<le> now - da_created b" if "0 < ar_cooldown r" "b \<in> set (alerts_of (ar_id r) w)" for b
      using fired_apart [OF all [OF r] 2(1) that] .
    have "da_created b \<le> now" if "0 < ar_cooldown r" "b \<in> set (alerts_of (ar_id r) w)" for b
    proof -
      have "0 \<le> (60 * of_nat (ar_cooldown r) :: rat)"
        by simp
      then show ?thesis
        using far [OF that] by linarith
    qed
    moreover have "cooled_apart ?r = cooled_apart r"
      by (simp add: cooled_apart_def fun_eq_iff)
    ultimately show ?thesis
      using all [OF r] far 2(3) unfolding rule_alerts_ok_def xr
      by (auto simp: al sorted_wrt_append cooled_apart_def)
  next
    case False
    then have "x \<in> set (dw_rules w)"
      using x unfolding 2(5) by (auto split: if_splits)
    moreover have "alerts_of (ar_id x) ?w = alerts_of (ar_id x) w"
      unfolding alerts_of_def 2(4) using 2(2) False by simp
    ultimately show ?thesis
      using all unfolding rule_alerts_ok_def by simp
  qed
  then show ?thesis
    unfolding alerts_ok_def ids using d by blast
qed

lemma other_rule_stays:
  assumes "x \<in> set (dw_rules w)" "ar_id x \<noteq> ar_id r"
  shows "x \<in> set (dw_rules (evaluate_alert_rule env now host org r w))"
  using assms by (cases rule: evaluate_alert_rule_cases [OF refl, of env now host org r w]) (force+)

lemma alerts_evaluate_rules:
  assumes "alerts_ok w" "distinct (map ar_id rs)" "set rs \<subseteq> set (dw_rules w)"
  shows "alerts_ok (fold (\<lambda>r. evaluate_alert_rule env (clock (ar_id r)) host org r) rs w)"
  using assms
proof (induction rs arbitrary: w)
  case (Cons r rs)
  have "set rs \<subseteq> set (dw_rules (evaluate_alert_rule env (clock (ar_id r)) host org r w))"
  proof
    fix x assume "x \<in> set rs"
    then show "x \<in> set (dw_rules (evaluate_alert_rule env (clock (ar_id r)) host org r w))"
      using Cons.prems by (intro other_rule_stays) (auto simp: image_iff)
  qed
  then show ?case
    using Cons by (simp add: alerts_evaluate_rule)
qed simp

lemma alerts_evaluate:
  assumes "alerts_ok w"
  shows "alerts_ok (evaluate_drift_alerts env clock h w)"
proof -
  have "distinct (map ar_id (filter P (dw_rules w)))" for P
    using assms unfolding alerts_ok_def by (simp add: distinct_map_filter)
  then have "distinct (map ar_id (matched_rules org w))" for org
    unfolding matched_rules_def by (simp add: distinct_map)
  moreover have "set (matched_rules org w) \<subseteq> set (dw_rules w)" for org
    unfolding matched_rules_def by auto
  ultimately show ?thesis
    unfolding evaluate_drift_alerts_def Let_def
    using assms by (auto split: option.splits intro!: alerts_evaluate_rules)
qed

lemma links_evaluate: "links_ok w \<Longrightarrow> links_ok (evaluate_drift_alerts env clock h w)"
proof -
  have "links_ok (evaluate_alert_rule env now host org r w)" if "links_ok w" for now host org r w
    using that by (cases rule: evaluate_alert_rule_cases [OF refl, of env now host org r w]) (auto intro: links_more)
  then show "links_ok w \<Longrightarrow> links_ok (evaluate_drift_alerts env clock h w)"
    unfolding evaluate_drift_alerts_def Let_def
    by (auto split: option.splits intro!: fold_invariant [where P = links_ok])
qed

section \<open>Runs\<close>

lemma drift_step_links: "links_ok w \<Longrightarrow> links_ok (drift_step env can op w)"
proof (cases op)
  case (StoreFacts h d now)
  assume "links_ok w"
  then show ?thesis
    using StoreFacts by (simp add: store_facts_def links_ok_def)
next
  case (AcknowledgeBy u now i)
  assume ok: "links_ok w"
  have "detection_linked ss (x\<lparr>dd_acknowledged := v\<rparr>) = detection_linked ss x" for ss x v
    by (simp add: detection_linked_def)
  then show ?thesis
    using ok AcknowledgeBy by (auto simp: acknowledge_view_def links_ok_def split: option.splits)
next
  case (ToggleBy u i action)
  assume "links_ok w"
  then show ?thesis
    using ToggleBy by (auto simp: toggle_alert_rule_view_def links_ok_def split: option.splits)
qed (auto simp: links_capture links_evaluate links_cleanup split: sum.splits dest: links_detect)

lemma capture_alerts:
  "dw_rules (capture_fact_snapshot env clock job w) = dw_rules w \<and>
   dw_alerts (capture_fact_snapshot env clock job w) = dw_alerts w"
proof -
  have "dw_rules (fold (capture_host env clock job inventory) hs w) = dw_rules w \<and>
      dw_alerts (fold (capture_host env clock job inventory) hs w) = dw_alerts w" for inventory hs
    by (induction hs arbitrary: w) (simp_all add: capture_host_def delay_def Let_def)
  then show ?thesis
    unfolding capture_fact_snapshot_def by (auto split: option.splits)
qed

lemma cleanup_alerts:
  "dw_rules (cleanup_old_snapshots now days k w) = dw_rules w \<and>
   dw_alerts (cleanup_old_snapshots now days k w) = dw_alerts w"
proof -
  have "dw_rules (fold (cleanup_host cutoff k) hs w) = dw_rules w \<and>
      dw_alerts (fold (cleanup_host cutoff k) hs w) = dw_alerts w" for cutoff hs
    by (induction hs arbitrary: w) (simp_all add: cleanup_host_def delete_snapshots_def Let_def)
  then show ?thesis
    unfolding cleanup_old_snapshots_def Let_def by blast
qed

lemma detect_alerts:
  assumes "detect_drift env clock i w = Inr w'"
  shows "dw_rules w' = dw_rules w \<and> dw_alerts w' = dw_alerts w"
proof (cases "find_snapshot i w")
  case (Some s)
  show ?thesis
  proof (cases "previous_snapshot s w")
    case p: (Some p)
    obtain ds where "w' = (if ds = [] then w else delay (EvaluateAlerts (fs_host s))
        (w\<lparr>dw_detections := dw_detections w @ detection_rows clock p s (dw_next w) ds,
           dw_next := dw_next w + length ds\<rparr>))"
      using detect_drift_Inr [OF assms Some p] .
    then show ?thesis
      by (simp add: delay_def)
  qed (use assms Some in \<open>simp add: detect_drift_def\<close>)
qed (use assms in \<open>simp add: detect_drift_def\<close>)

lemma toggled_alerts:
  assumes "alerts_ok w"
  shows "alerts_ok (w\<lparr>dw_rules := map (\<lambda>x. if ar_id x = i then x\<lparr>ar_enabled := b\<rparr> else x) (dw_rules w)\<rparr>)"
proof -
  let ?f = "\<lambda>x. if ar_id x = i then x\<lparr>ar_enabled := b\<rparr> else x"
  have ids: "map ar_id (map ?f rs) = map ar_id rs" for rs
    by (induction rs) simp_all
  have "cooled_apart (x\<lparr>ar_enabled := b\<rparr>) = cooled_apart x" for x
    by (simp add: cooled_apart_def fun_eq_iff)
  then have "rule_alerts_ok (w\<lparr>dw_rules := map ?f (dw_rules w)\<rparr>) (?f x) = rule_alerts_ok w x" for x
    by (simp add: rule_alerts_ok_def alerts_of_def)
  then have "rule_alerts_ok (w\<lparr>dw_rules := map ?f (dw_rules w)\<rparr>) y" if "y \<in> set (map ?f (dw_rules w))" for y
    using that assms unfolding alerts_ok_def by (metis (no_types, lifting) imageE list.set_map)
  then show ?thesis
    using assms unfolding alerts_ok_def by (simp add: ids del: map_map set_map)
qed

lemma drift_step_alerts: "alerts_ok w \<Longrightarrow> alerts_ok (drift_step env can op w)"
proof (cases op)
  case (StoreFacts h d now)
  assume "alerts_ok w"
  then show ?thesis
    using StoreFacts by (auto simp: store_facts_def intro: alerts_same)
next
  case (DetectAt clock i)
  assume "alerts_ok w"
  then show ?thesis
    using DetectAt by (auto split: sum.splits dest: detect_alerts intro: alerts_same)
next
  case (AcknowledgeBy u now i)
  assume "alerts_ok w"
  then show ?thesis
    using AcknowledgeBy by (auto simp: acknowledge_view_def split: option.splits intro: alerts_same)
next
  case (ToggleBy u i action)
  assume "alerts_ok w"
  then show ?thesis
    using ToggleBy by (auto simp: toggle_alert_rule_view_def toggled_alerts split: option.splits)
qed (auto simp: alerts_evaluate capture_alerts cleanup_alerts intro: alerts_same)

text \<open>A condition that every operation keeps holds after every run.\<close>

locale kept_by_steps =
  fixes P :: "drift_state \<Rightarrow> bool" and env :: drift_env and can :: "drift_user \<Rightarrow> alert_rule \<Rightarrow> bool"
  assumes step_keeps: "P w \<Longrightarrow> P (drift_step env can op w)"
begin

lemma run_keeps: "P w \<Longrightarrow> P (run_drift env can ops w)"
  unfolding run_drift_def by (intro fold_invariant [where P = P] step_keeps)

end

interpretation links_run: kept_by_steps links_ok env can for env can
  by unfold_locales (rule drift_step_links)

interpretation alerts_run: kept_by_steps alerts_ok env can for env can
  by unfold_locales (rule drift_step_alerts)

text \<open>
  However the tasks and views are interleaved, every recorded change belongs to a snapshot of its
  own host, and the snapshot that it was compared with, as long as that one exists, is an earlier
  one of the same host: the cleanup leaves no reference to a deleted snapshot.
\<close>

theorem drift_links_kept:
  assumes "dw_snapshots w = []" and "dw_detections w = []"
    and "d \<in> set (dw_detections (run_drift env can ops w))"
  shows "\<exists>s \<in> set (dw_snapshots (run_drift env can ops w)). fs_id s = dd_after d \<and> fs_host s = dd_host d \<and>
    (dd_before d = None \<or> (\<exists>p \<in> set (dw_snapshots (run_drift env can ops w)).
       dd_before d = Some (fs_id p) \<and> fs_host p = dd_host d \<and> fs_captured p < fs_captured s))"
proof -
  have "links_ok w"
    using assms(1,2) by (simp add: links_ok_def)
  then have "links_ok (run_drift env can ops w)"
    by (rule links_run.run_keeps)
  then show ?thesis
    using assms(3) unfolding links_ok_def detection_linked_def by (metis option.exhaust)
qed

text \<open>
  C36. Two alerts of a rule are at least its cooldown cooled_apart, whatever drift is recorded and whatever
  hosts are evaluated between them, as long as the evaluations of the rule do not overlap and its
  cooldown is not edited.
\<close>

theorem alerts_cooled_down:
  assumes "dw_alerts w = []" and "distinct (map ar_id (dw_rules w))"
    and "r \<in> set (dw_rules (run_drift env can ops w))" and "0 < ar_cooldown r"
  shows "sorted_wrt (\<lambda>a b. 60 * of_nat (ar_cooldown r) \<le> da_created b - da_created a)
    (filter (\<lambda>a. da_rule a = ar_id r) (dw_alerts (run_drift env can ops w)))"
proof -
  have "alerts_ok w"
    using assms(1,2) by (simp add: alerts_ok_def rule_alerts_ok_def alerts_of_def)
  then have "alerts_ok (run_drift env can ops w)"
    by (rule alerts_run.run_keeps)
  then show ?thesis
    using assms(3,4) unfolding alerts_ok_def rule_alerts_ok_def alerts_of_def cooled_apart_def by blast
qed

section \<open>Examples\<close>

definition drift_example_env :: drift_env where
  "drift_example_env = \<lparr>dv_digest = id, dv_real_text = (\<lambda>_. ''0.5''),
     dv_reading = \<lparr>rd_number = (\<lambda>_. JNull), rd_char = (\<lambda>_. CHR ''?'')\<rparr>, dv_repr = (\<lambda>_. ''value''),
     dv_send = (\<lambda>_ _ _. None)\<rparr>"

definition kernel_snapshot :: "pk \<Rightarrow> rat \<Rightarrow> string \<Rightarrow> snapshot" where
  "kernel_snapshot i t v = \<lparr>fs_id = i, fs_host = 5, fs_job = None, fs_inventory = Some 3, fs_organization = Some 4,
     fs_captured = t, fs_facts = [(''ansible_kernel'', JStr v)], fs_hash = v\<rparr>"

definition drift_example_rule :: alert_rule where
  "drift_example_rule = \<lparr>ar_id = 7, ar_name = ''kernel'', ar_organization = Some 4, ar_enabled = True,
     ar_inventory = None, ar_host_filter = [], ar_categories = [], ar_severity_min = ''high'',
     ar_threshold = 0, ar_window = 60, ar_template = None, ar_last = None, ar_count = 0, ar_cooldown = 30\<rparr>"

definition drift_example :: drift_state where
  "drift_example = \<lparr>dw_hosts = [\<lparr>dh_id = 5, dh_name = ''web1'', dh_inventory = 3,
       dh_facts = [(''ansible_kernel'', JStr ''6.1'')], dh_facts_modified = Some 0\<rparr>],
     dw_inventories = (\<lambda>_. Some 4), dw_jobs = [(9, Some 3)],
     dw_snapshots = [kernel_snapshot 1 0 ''5.0'', kernel_snapshot 2 100 ''6.1''],
     dw_detections = [], dw_rules = [drift_example_rule], dw_alerts = [], dw_tasks = [], dw_next = 10\<rparr>"

lemmas drift_example_defs =
  drift_example_def drift_example_env_def kernel_snapshot_def drift_example_rule_def

lemma kernel_snapshot_facts [simp]:
  "fs_facts (kernel_snapshot i t v) = [(''ansible_kernel'', JStr v)]" "fs_host (kernel_snapshot i t v) = 5"
  by (simp_all add: kernel_snapshot_def)

lemma drift_example_found:
  "find_snapshot 2 drift_example = Some (kernel_snapshot 2 100 ''6.1'')"
  "previous_snapshot (kernel_snapshot 2 100 ''6.1'') drift_example = Some (kernel_snapshot 1 0 ''5.0'')"
  by (simp_all add: find_snapshot_def previous_snapshot_def newest_first_def drift_example_defs)

lemma drift_example_detected: "\<exists>w'. detect_drift drift_example_env (\<lambda>_. 101) 2 drift_example = Inr w'"
  by (simp add: detect_drift_def drift_example_found compute_drift_def compared_def skip_keys_def drift_of_def
      truncate_value_eq quoted_def escape_char_def Let_def obj_get_def dict_get_def bulk_create_def fits_columns_def
      diff_type_def summarize_change_def drift_example_env_def)

lemma drift_detection_exact_witness:
  "\<exists>w' rows. detect_drift drift_example_env (\<lambda>_. 101) 2 drift_example = Inr w' \<and>
     dw_detections w' = dw_detections drift_example @ rows \<and> distinct (map (\<lambda>d. di_path (dd_item d)) rows) \<and>
     ''ansible_kernel'' \<in> (\<lambda>d. di_path (dd_item d)) ` set rows \<and>
     dw_tasks w' = dw_tasks drift_example @ (if rows = [] then [] else [EvaluateAlerts 5])"
proof -
  obtain w' where w': "detect_drift drift_example_env (\<lambda>_. 101) 2 drift_example = Inr w'"
    using drift_example_detected by blast
  have "''ansible_kernel'' \<in> fst ` set (fs_facts (kernel_snapshot 1 0 ''5.0'')) \<union> fst ` set (fs_facts (kernel_snapshot 2 100 ''6.1''))
      \<and> ''ansible_kernel'' \<notin> set skip_keys
      \<and> \<not> py_eq (obj_get (fs_facts (kernel_snapshot 1 0 ''5.0'')) ''ansible_kernel'')
          (obj_get (fs_facts (kernel_snapshot 2 100 ''6.1'')) ''ansible_kernel'')"
    by (simp add: skip_keys_def obj_get_def dict_get_def)
  then show ?thesis
    using drift_detection_exact [OF w' drift_example_found] w' by (metis (no_types, lifting) kernel_snapshot_facts(2))
qed

definition large_example :: drift_state where
  "large_example = drift_example\<lparr>dw_snapshots :=
     [kernel_snapshot 1 0 ''5.0'', kernel_snapshot 2 100 (replicate 2000 (CHR ''a''))]\<rparr>"

lemma length_quoted: "length s < length (quoted s)"
proof -
  have e: "1 \<le> length (escape_char d)" for d
    by (simp add: escape_char_def Let_def)
  have "length s \<le> length (concat (map escape_char s))"
  proof (induction s)
    case (Cons a s)
    then show ?case
      using e [of a] by simp
  qed simp
  then show ?thesis
    by (simp add: quoted_def)
qed

lemma large_fact_hides_drift_witness:
  "detect_drift drift_example_env (\<lambda>_. 101) 2 large_example = Inl DecodeError"
proof (rule large_fact_hides_drift)
  show "find_snapshot 2 large_example = Some (kernel_snapshot 2 100 (replicate 2000 (CHR ''a'')))"
    "previous_snapshot (kernel_snapshot 2 100 (replicate 2000 (CHR ''a''))) large_example = Some (kernel_snapshot 1 0 ''5.0'')"
    by (simp_all add: find_snapshot_def previous_snapshot_def newest_first_def large_example_def kernel_snapshot_def)
  show "''ansible_kernel'' \<in> fst ` set (fs_facts (kernel_snapshot 1 0 ''5.0'')) \<union>
      fst ` set (fs_facts (kernel_snapshot 2 100 (replicate 2000 (CHR ''a''))))"
    by simp
  have "(replicate 2000 (CHR ''a'') :: string) \<noteq> ''5.0''"
    by (intro notI) (drule arg_cong [where f = length], simp)
  then show "compared (fs_facts (kernel_snapshot 1 0 ''5.0''))
      (fs_facts (kernel_snapshot 2 100 (replicate 2000 (CHR ''a'')))) ''ansible_kernel''"
    by (auto simp: compared_def skip_keys_def obj_get_def dict_get_def)
  show "2000 < length (dumps id (dv_real_text drift_example_env) (obj_get (fs_facts (kernel_snapshot 1 0 ''5.0'')) ''ansible_kernel'')) \<or>
    2000 < length (dumps id (dv_real_text drift_example_env)
      (obj_get (fs_facts (kernel_snapshot 2 100 (replicate 2000 (CHR ''a'')))) ''ansible_kernel''))"
    using length_quoted [of "replicate 2000 (CHR ''a'')"]
    by (simp add: obj_get_def dict_get_def)
qed

definition fresh_example :: drift_state where
  "fresh_example = drift_example\<lparr>dw_snapshots := []\<rparr>"

definition upgrade_ops :: "drift_op list" where
  "upgrade_ops = [CaptureFacts (\<lambda>_. 0) 9, StoreFacts 5 [(''ansible_kernel'', JStr ''6.2'')] 50,
     CaptureFacts (\<lambda>_. 100) 9, DetectAt (\<lambda>_. 101) 11]"

lemma upgrade_detected:
  "\<exists>d. d \<in> set (dw_detections (run_drift drift_example_env (\<lambda>_ _. True) upgrade_ops fresh_example))"
  by (simp add: run_drift_def upgrade_ops_def fresh_example_def drift_example_def drift_example_env_def
      capture_fact_snapshot_def capture_host_def compute_facts_hash_def quoted_def escape_char_def
      of_host_def newest_first_def delay_def store_facts_def Let_def
      detect_drift_def find_snapshot_def previous_snapshot_def compute_drift_def compared_def skip_keys_def drift_of_def
      truncate_value_eq obj_get_def dict_get_def bulk_create_def fits_columns_def
      diff_type_def summarize_change_def)

lemma drift_links_kept_witness:
  "\<exists>d :: detection. \<exists>s \<in> set (dw_snapshots (run_drift drift_example_env (\<lambda>_ _. True) upgrade_ops fresh_example)).
     fs_id s = dd_after d \<and> fs_host s = dd_host d"
proof -
  obtain d where d: "d \<in> set (dw_detections (run_drift drift_example_env (\<lambda>_ _. True) upgrade_ops fresh_example))"
    using upgrade_detected by blast
  have none: "dw_snapshots fresh_example = []" "dw_detections fresh_example = []"
    by (simp_all add: fresh_example_def drift_example_def)
  show ?thesis
    using drift_links_kept [OF none d] by blast
qed

definition alert_ops :: "drift_op list" where
  "alert_ops = [EvaluateAt (\<lambda>_. 200) 5, EvaluateAt (\<lambda>_. 300) 5, EvaluateAt (\<lambda>_. 5000) 5]"

definition alerts_after :: "drift_state" where
  "alerts_after = run_drift drift_example_env (\<lambda>_ _. True) alert_ops drift_example"

lemma example_evaluation:
  assumes "dw_rules w = [r]" "dw_hosts w = dw_hosts drift_example" "dw_inventories w = (\<lambda>_. Some 4)"
    and "ar_enabled r" "ar_organization r = Some 4" "ar_inventory r = None" "ar_host_filter r = []" "ar_threshold r = 0"
  shows "dw_rules (evaluate_drift_alerts env (\<lambda>_. t) 5 w) =
      (if is_in_cooldown t r then [r] else [r\<lparr>ar_last := Some t, ar_count := ar_count r + 1\<rparr>])
    \<and> map (\<lambda>a. (da_rule a, da_created a)) (dw_alerts (evaluate_drift_alerts env (\<lambda>_. t) 5 w)) =
      map (\<lambda>a. (da_rule a, da_created a)) (dw_alerts w) @ (if is_in_cooldown t r then [] else [(ar_id r, t)])
    \<and> dw_hosts (evaluate_drift_alerts env (\<lambda>_. t) 5 w) = dw_hosts drift_example
    \<and> dw_inventories (evaluate_drift_alerts env (\<lambda>_. t) 5 w) = (\<lambda>_. Some 4)"
proof -
  have "evaluate_drift_alerts env (\<lambda>_. t) 5 w =
      evaluate_alert_rule env t (hd (dw_hosts drift_example)) (Some 4) r w"
    using assms by (simp add: evaluate_drift_alerts_def drift_example_def matched_rules_def Let_def)
  then show ?thesis
    using assms by (simp add: evaluate_alert_rule_def record_trigger_def Let_def split: prod.splits)
qed

lemma alerts_after_rules:
  "dw_rules alerts_after = [drift_example_rule\<lparr>ar_last := Some 5000, ar_count := 2\<rparr>] \<and>
   map (\<lambda>a. (da_rule a, da_created a)) (dw_alerts alerts_after) = [(7, 200), (7, 5000)]"
proof -
  let ?e = "\<lambda>t. evaluate_drift_alerts drift_example_env (\<lambda>_. t) 5" and ?row = "\<lambda>a. (da_rule a, da_created a)"
  have 1: "dw_rules (?e 200 drift_example) = [drift_example_rule\<lparr>ar_last := Some 200, ar_count := 1\<rparr>]"
    "map ?row (dw_alerts (?e 200 drift_example)) = [(7, 200)]"
    "dw_hosts (?e 200 drift_example) = dw_hosts drift_example" "dw_inventories (?e 200 drift_example) = (\<lambda>_. Some 4)"
    using example_evaluation [of drift_example drift_example_rule drift_example_env 200]
    by (simp_all add: drift_example_def drift_example_rule_def is_in_cooldown_def)
  have 2: "dw_rules (?e 300 (?e 200 drift_example)) = [drift_example_rule\<lparr>ar_last := Some 200, ar_count := 1\<rparr>]"
    "map ?row (dw_alerts (?e 300 (?e 200 drift_example))) = [(7, 200)]"
    "dw_hosts (?e 300 (?e 200 drift_example)) = dw_hosts drift_example"
    "dw_inventories (?e 300 (?e 200 drift_example)) = (\<lambda>_. Some 4)"
    using example_evaluation [OF 1(1,3,4), of drift_example_env 300] 1(2)
    by (simp_all add: drift_example_rule_def is_in_cooldown_def)
  show ?thesis
    using example_evaluation [OF 2(1,3,4), of drift_example_env 5000] 2(2)
    by (simp add: alerts_after_def run_drift_def alert_ops_def drift_example_rule_def is_in_cooldown_def)
qed

lemma alerts_cooled_down_witness:
  "length (dw_alerts alerts_after) = 2 \<and>
   sorted_wrt (\<lambda>a b. 60 * of_nat 30 \<le> da_created b - da_created a) (filter (\<lambda>a. da_rule a = 7) (dw_alerts alerts_after))"
proof -
  have "dw_alerts drift_example = []" "distinct (map ar_id (dw_rules drift_example))"
    by (simp_all add: drift_example_defs)
  moreover have "drift_example_rule\<lparr>ar_last := Some 5000, ar_count := 2\<rparr>
      \<in> set (dw_rules (run_drift drift_example_env (\<lambda>_ _. True) alert_ops drift_example))"
    using alerts_after_rules by (simp add: alerts_after_def)
  ultimately have "sorted_wrt (\<lambda>a b. 60 * of_nat 30 \<le> da_created b - da_created a)
      (filter (\<lambda>a. da_rule a = 7) (dw_alerts alerts_after))"
    using alerts_cooled_down [of drift_example "drift_example_rule\<lparr>ar_last := Some 5000, ar_count := 2\<rparr>"]
    by (simp add: drift_example_rule_def alerts_after_def)
  moreover have "length (dw_alerts alerts_after) = 2"
    using arg_cong [OF conjunct2 [OF alerts_after_rules], of length] by simp
  ultimately show ?thesis
    by blast
qed

end
