(* ===== verification/Cluster_Policies.thy ===== *)
theory Cluster_Policies
  imports Prelude Complex_Main
begin

text \<open>
  The assignment of instances to instance groups (\<open>apply_cluster_membership_policies\<close> in
  \<open>main/tasks/system.py\<close>): the policy lists, the minimum pass, the percentage pass and the change of
  the memberships. The task holds one advisory lock, so its steps are one function. The percentage is
  compared exactly instead of in floating point; the two agree for clusters of less than \<open>2 ^ 40\<close>
  instances. Last, what the two passes do to a group, in terms of one pass over the candidates.
\<close>

section \<open>Rows\<close>

record policy_instance =
  pi_id :: pk
  pi_hostname :: hostname
  pi_node_type :: string
  pi_managed :: bool

record policy_group =
  pg_id :: pk
  pg_name :: string
  pg_list :: "hostname list"
  pg_minimum :: int
  pg_percentage :: int
  pg_container :: bool
  pg_members :: "pk list"

text \<open>The named tuples \<open>Group\<close> and \<open>Node\<close>.\<close>

record placing =
  gp_obj :: policy_group
  gp_instances :: "pk list"
  gp_prior :: "pk list"

record candidate =
  cd_obj :: policy_instance
  cd_groups :: "pk list"

abbreviation group_key :: "placing \<Rightarrow> pk" where
  "group_key g \<equiv> pg_id (gp_obj g)"

abbreviation node_key :: "candidate \<Rightarrow> pk" where
  "node_key c \<equiv> pi_id (cd_obj c)"

section \<open>The passes\<close>

definition policy_instances :: "policy_instance list \<Rightarrow> policy_instance list" where
  "policy_instances is = sort_key pi_id (filter (\<lambda>i. pi_node_type i \<noteq> ''hop'') is)"

text \<open>\<open>instance_hostnames_map\<close>: of two instances with a name the later one counts.\<close>

definition by_hostname :: "policy_instance list \<Rightarrow> hostname \<Rightarrow> policy_instance option" where
  "by_hostname is h = find (\<lambda>i. pi_hostname i = h) (rev is)"

definition list_policy :: "policy_instance list \<Rightarrow> policy_group \<Rightarrow> placing" where
  "list_policy is g =
     \<lparr>gp_obj = g,
      gp_instances = concat (map (\<lambda>h. case by_hostname is h of None \<Rightarrow> [] | Some i \<Rightarrow> [pi_id i]) (pg_list g)),
      gp_prior = pg_members g\<rparr>"

definition exclude_type :: "string \<Rightarrow> policy_group \<Rightarrow> string" where
  "exclude_type control_plane g = (if pg_name g = control_plane then ''execution'' else ''control'')"

fun minimum_loop :: "string \<Rightarrow> int \<Rightarrow> candidate list \<Rightarrow> pk list \<Rightarrow> pk list" where
  "minimum_loop exclude m [] xs = xs"
| "minimum_loop exclude m (c # cs) xs =
     (if pi_node_type (cd_obj c) = exclude then minimum_loop exclude m cs xs
      else if int (length xs) \<ge> m then xs
      else if node_key c \<in> set xs then minimum_loop exclude m cs xs
      else minimum_loop exclude m cs (xs @ [node_key c]))"

fun percentage_loop :: "string \<Rightarrow> int \<Rightarrow> nat \<Rightarrow> candidate list \<Rightarrow> pk list \<Rightarrow> pk list" where
  "percentage_loop exclude p pool [] xs = xs"
| "percentage_loop exclude p pool (c # cs) xs =
     (if pi_node_type (cd_obj c) = exclude then percentage_loop exclude p pool cs xs
      else if node_key c \<in> set xs then percentage_loop exclude p pool cs xs
      else if (100 * of_nat (length xs) / of_nat pool :: rat) \<ge> of_int p then xs
      else percentage_loop exclude p pool cs (xs @ [node_key c]))"

definition minimum_fill :: "string \<Rightarrow> placing \<Rightarrow> candidate list \<Rightarrow> pk list" where
  "minimum_fill control_plane g cs =
     minimum_loop (exclude_type control_plane (gp_obj g)) (pg_minimum (gp_obj g)) cs (gp_instances g)"

definition percentage_fill :: "string \<Rightarrow> placing \<Rightarrow> candidate list \<Rightarrow> pk list" where
  "percentage_fill control_plane g cs =
     (let exclude = exclude_type control_plane (gp_obj g);
          pool = length (filter (\<lambda>c. pi_node_type (cd_obj c) \<noteq> exclude) cs)
      in if pool = 0 then gp_instances g
         else percentage_loop exclude (pg_percentage (gp_obj g)) pool cs (gp_instances g))"

text \<open>
  One group of a pass: the nodes in the order of their number of groups (equal ones keep their
  order); the nodes that are added note the group.
\<close>

definition fill_group ::
  "(placing \<Rightarrow> candidate list \<Rightarrow> pk list) \<Rightarrow> pk \<Rightarrow> placing list \<times> candidate list \<Rightarrow> placing list \<times> candidate list" where
  "fill_group fill k = (\<lambda>(gs, cs).
     (case find (\<lambda>g. group_key g = k) gs of None \<Rightarrow> (gs, cs)
      | Some g \<Rightarrow>
        (let xs = fill g (sort_key (\<lambda>c. length (cd_groups c)) cs);
             added = drop (length (gp_instances g)) xs
         in (map (\<lambda>h. if group_key h = k then h\<lparr>gp_instances := xs\<rparr> else h) gs,
             map (\<lambda>c. if node_key c \<in> set added then c\<lparr>cd_groups := cd_groups c @ [k]\<rparr> else c) cs))))"

text \<open>A pass: the groups in the order of their number of instances when the pass begins.\<close>

definition fill_groups ::
  "(placing \<Rightarrow> candidate list \<Rightarrow> pk list) \<Rightarrow> placing list \<times> candidate list \<Rightarrow> placing list \<times> candidate list" where
  "fill_groups fill st =
     fold (fill_group fill) (map group_key (sort_key (\<lambda>g. length (gp_instances g)) (fst st))) st"

definition placements :: "string \<Rightarrow> policy_instance list \<Rightarrow> policy_group list \<Rightarrow> placing list" where
  "placements control_plane is gs =
     (let all_instances = policy_instances is;
          nodes = map (\<lambda>i. \<lparr>cd_obj = i, cd_groups = []\<rparr>) (filter pi_managed all_instances)
      in fst (fill_groups (percentage_fill control_plane)
           (fill_groups (minimum_fill control_plane) (map (list_policy all_instances) gs, nodes))))"

section \<open>The change of the memberships\<close>

definition needs_change :: "placing list \<Rightarrow> bool" where
  "needs_change gs = list_ex (\<lambda>g. set (gp_instances g) \<noteq> set (gp_prior g)) gs"

text \<open>\<open>instances.add\<close> and \<open>instances.remove\<close> with the differences of the two sets.\<close>

definition change_members :: "placing \<Rightarrow> policy_group" where
  "change_members g =
     (if pg_container (gp_obj g) then gp_obj g
      else (gp_obj g)\<lparr>pg_members :=
        filter (\<lambda>i. i \<in> set (gp_instances g)) (pg_members (gp_obj g)) @
        filter (\<lambda>i. i \<notin> set (gp_prior g)) (remdups (gp_instances g))\<rparr>)"

definition apply_cluster_membership_policies ::
  "string \<Rightarrow> policy_instance list \<Rightarrow> policy_group list \<Rightarrow> policy_group list" where
  "apply_cluster_membership_policies control_plane is gs =
     (let placed = placements control_plane is gs
      in if needs_change placed then map change_members placed else gs)"

section \<open>One pass over one group\<close>

definition eligible :: "string \<Rightarrow> candidate list \<Rightarrow> pk set" where
  "eligible exclude cs = {node_key c | c. c \<in> set cs \<and> pi_node_type (cd_obj c) \<noteq> exclude}"

lemma eligible_simps [simp]:
  "eligible exclude [] = {}"
  "eligible exclude (c # cs) =
     (if pi_node_type (cd_obj c) = exclude then eligible exclude cs else insert (node_key c) (eligible exclude cs))"
  by (auto simp: eligible_def)

lemma minimum_loop_spec:
  "\<exists>ys. minimum_loop exclude m cs xs = xs @ ys \<and> set ys \<subseteq> eligible exclude cs \<and> (distinct xs \<longrightarrow> distinct (xs @ ys)) \<and>
     (m \<le> int (length (xs @ ys)) \<or> eligible exclude cs \<subseteq> set (xs @ ys)) \<and>
     (ys = [] \<or> int (length (xs @ ys)) \<le> m)"
proof (induction cs arbitrary: xs)
  case (Cons c cs)
  consider "pi_node_type (cd_obj c) = exclude" | "pi_node_type (cd_obj c) \<noteq> exclude" "m \<le> int (length xs)"
    | "pi_node_type (cd_obj c) \<noteq> exclude" "\<not> m \<le> int (length xs)" "node_key c \<in> set xs"
    | "pi_node_type (cd_obj c) \<noteq> exclude" "\<not> m \<le> int (length xs)" "node_key c \<notin> set xs"
    by blast
  then show ?case
  proof cases
    case 1
    then show ?thesis
      using Cons [of xs] by simp
  next
    case 2
    then show ?thesis
      by (intro exI [of _ "[]"]) simp
  next
    case 3
    then show ?thesis
      using Cons [of xs] by fastforce
  next
    case 4
    obtain ys where ys: "minimum_loop exclude m cs (xs @ [node_key c]) = (xs @ [node_key c]) @ ys"
      "set ys \<subseteq> eligible exclude cs" "distinct (xs @ [node_key c]) \<longrightarrow> distinct ((xs @ [node_key c]) @ ys)"
      "m \<le> int (length ((xs @ [node_key c]) @ ys)) \<or> eligible exclude cs \<subseteq> set ((xs @ [node_key c]) @ ys)"
      "ys = [] \<or> int (length ((xs @ [node_key c]) @ ys)) \<le> m"
      using Cons [of "xs @ [node_key c]"] by blast
    then show ?thesis
      using 4 by (intro exI [of _ "node_key c # ys"]) auto
  qed
qed simp

definition enough :: "int \<Rightarrow> nat \<Rightarrow> nat \<Rightarrow> bool" where
  "enough p pool n \<longleftrightarrow> (100 * of_nat n / of_nat pool :: rat) \<ge> of_int p"

lemma percentage_loop_spec:
  "\<exists>ys. percentage_loop exclude p pool cs xs = xs @ ys \<and> set ys \<subseteq> eligible exclude cs \<and>
     (distinct xs \<longrightarrow> distinct (xs @ ys)) \<and>
     (enough p pool (length (xs @ ys)) \<or> eligible exclude cs \<subseteq> set (xs @ ys)) \<and>
     (ys = [] \<or> \<not> enough p pool (length (xs @ ys) - 1))"
proof (induction cs arbitrary: xs)
  case (Cons c cs)
  consider "pi_node_type (cd_obj c) = exclude" | "pi_node_type (cd_obj c) \<noteq> exclude" "node_key c \<in> set xs"
    | "pi_node_type (cd_obj c) \<noteq> exclude" "node_key c \<notin> set xs" "enough p pool (length xs)"
    | "pi_node_type (cd_obj c) \<noteq> exclude" "node_key c \<notin> set xs" "\<not> enough p pool (length xs)"
    by blast
  then show ?case
  proof cases
    case 1
    then show ?thesis
      using Cons [of xs] by simp
  next
    case 2
    then show ?thesis
      using Cons [of xs] by fastforce
  next
    case 3
    then show ?thesis
      by (intro exI [of _ "[]"]) (simp add: enough_def)
  next
    case 4
    obtain ys where ys: "percentage_loop exclude p pool cs (xs @ [node_key c]) = (xs @ [node_key c]) @ ys"
      "set ys \<subseteq> eligible exclude cs" "distinct (xs @ [node_key c]) \<longrightarrow> distinct ((xs @ [node_key c]) @ ys)"
      "enough p pool (length ((xs @ [node_key c]) @ ys)) \<or> eligible exclude cs \<subseteq> set ((xs @ [node_key c]) @ ys)"
      "ys = [] \<or> \<not> enough p pool (length ((xs @ [node_key c]) @ ys) - 1)"
      using Cons [of "xs @ [node_key c]"] by blast
    have "percentage_loop exclude p pool (c # cs) xs = xs @ node_key c # ys"
      using 4 ys(1) by (simp add: enough_def)
    then show ?thesis
      using 4 ys by (intro exI [of _ "node_key c # ys"]) auto
  qed
qed simp

end
