(* ===== verification/Cluster_Correct.thy ===== *)
theory Cluster_Correct
  imports Cluster_Policies
begin

text \<open>
  What the assignment of instances to groups achieves: the policies hold or no candidate is left, no
  group gets more than its policies ask for, and a second run changes nothing.
\<close>

section \<open>The passes over the groups\<close>

definition same_nodes :: "candidate list \<Rightarrow> candidate list \<Rightarrow> bool" where
  "same_nodes cs cs' \<longleftrightarrow> mset (map cd_obj cs) = mset (map cd_obj cs')"

lemma same_nodes_refl: "same_nodes cs cs"
  by (simp add: same_nodes_def)

lemma same_nodes_trans: "same_nodes a b \<Longrightarrow> same_nodes b c \<Longrightarrow> same_nodes a c"
  by (simp add: same_nodes_def)

lemma same_nodes_sort: "same_nodes cs (sort_key f cs)"
  by (simp add: same_nodes_def)

lemma same_nodes_mark:
  "same_nodes cs (map (\<lambda>c. if node_key c \<in> A then c\<lparr>cd_groups := cd_groups c @ [k]\<rparr> else c) cs)"
proof -
  have "map cd_obj (map (\<lambda>c. if node_key c \<in> A then c\<lparr>cd_groups := cd_groups c @ [k]\<rparr> else c) cs) = map cd_obj cs"
    by (induction cs) simp_all
  then show ?thesis
    by (simp only: same_nodes_def)
qed

text \<open>A placing after its group was filled, from some order of the same nodes.\<close>

definition filled ::
  "(placing \<Rightarrow> candidate list \<Rightarrow> pk list) \<Rightarrow> candidate list \<Rightarrow> placing \<Rightarrow> placing \<Rightarrow> bool" where
  "filled fill cs g g' \<longleftrightarrow> (\<exists>cs0. same_nodes cs cs0 \<and> g' = g\<lparr>gp_instances := fill g cs0\<rparr>)"

lemma find_key:
  assumes "distinct (map f xs)" "x \<in> set xs"
  shows "find (\<lambda>y. f y = f x) xs = Some x"
  using assms by (induction xs) auto

lemma fill_group_step:
  assumes "distinct (map group_key gs)" "fill_group fill k (gs, cs) = (gs', cs')"
  shows "same_nodes cs cs'" "map group_key gs' = map group_key gs"
    "list_all2 (\<lambda>g g'. if group_key g = k then filled fill cs g g' else g' = g) gs gs'"
proof -
  have "same_nodes cs cs' \<and> map group_key gs' = map group_key gs \<and>
      list_all2 (\<lambda>g g'. if group_key g = k then filled fill cs g g' else g' = g) gs gs'"
  proof (cases "find (\<lambda>g. group_key g = k) gs")
    case None
    then have "gs' = gs" "cs' = cs"
      using assms(2) by (simp_all add: fill_group_def)
    moreover have "\<And>g. g \<in> set gs \<Longrightarrow> group_key g \<noteq> k"
      using None by (auto simp: find_None_iff)
    ultimately show ?thesis
      by (simp add: same_nodes_refl list_all2_same)
  next
    case (Some g)
    define xs where "xs = fill g (sort_key (\<lambda>c. length (cd_groups c)) cs)"
    have gs': "gs' = map (\<lambda>h. if group_key h = k then h\<lparr>gp_instances := xs\<rparr> else h) gs"
      and cs': "cs' = map (\<lambda>c. if node_key c \<in> set (drop (length (gp_instances g)) xs)
        then c\<lparr>cd_groups := cd_groups c @ [k]\<rparr> else c) cs"
      using assms(2) Some unfolding xs_def by (simp_all add: fill_group_def Let_def)
    have "h = g" if "h \<in> set gs" "group_key h = k" for h
      using find_key [OF assms(1) that(1)] that(2) Some by simp
    then have "filled fill cs h (h\<lparr>gp_instances := xs\<rparr>)" if "h \<in> set gs" "group_key h = k" for h
      using that unfolding filled_def xs_def by (metis same_nodes_sort)
    moreover have "map group_key gs' = map group_key gs"
      unfolding gs' by simp
    ultimately show ?thesis
      using same_nodes_mark unfolding cs' by (simp add: gs' list_all2_map2 list_all2_same)
  qed
  then show "same_nodes cs cs'" "map group_key gs' = map group_key gs"
    "list_all2 (\<lambda>g g'. if group_key g = k then filled fill cs g g' else g' = g) gs gs'"
    by blast+
qed

lemma filled_same: "same_nodes cs cs' \<Longrightarrow> filled fill cs' g g' \<Longrightarrow> filled fill cs g g'"
  unfolding filled_def using same_nodes_trans by blast

lemma filled_key: "filled fill cs g g' \<Longrightarrow> group_key g' = group_key g"
  by (auto simp: filled_def)

lemma fill_loop:
  assumes "distinct (map group_key gs)" "distinct ks" "fold (fill_group fill) ks (gs, cs) = (gs', cs')"
  shows "same_nodes cs cs' \<and> list_all2 (\<lambda>g g'. if group_key g \<in> set ks then filled fill cs g g' else g' = g) gs gs'"
  using assms
proof (induction ks arbitrary: gs cs)
  case Nil
  then show ?case
    by (simp add: same_nodes_refl list_all2_same)
next
  case (Cons k ks)
  obtain gs1 cs1 where one: "fill_group fill k (gs, cs) = (gs1, cs1)"
    by fastforce
  note first = fill_group_step [OF Cons.prems(1) one]
  have rest: "same_nodes cs1 cs'"
    "list_all2 (\<lambda>g g'. if group_key g \<in> set ks then filled fill cs1 g g' else g' = g) gs1 gs'"
    using Cons.IH [of gs1 cs1] Cons.prems one first(2) by auto
  have "list_all2 (\<lambda>g g'. if group_key g \<in> set (k # ks) then filled fill cs g g' else g' = g) gs gs'"
  proof (rule list_all2_trans [OF _ first(3) rest(2)])
    fix g g1 g'
    assume a: "if group_key g = k then filled fill cs g g1 else g1 = g"
      and b: "if group_key g1 \<in> set ks then filled fill cs1 g1 g' else g' = g1"
    show "if group_key g \<in> set (k # ks) then filled fill cs g g' else g' = g"
    proof (cases "group_key g = k")
      case True
      then have "filled fill cs g g1" "group_key g1 = k"
        using a filled_key by auto
      then show ?thesis
        using b Cons.prems(2) True by auto
    next
      case False
      then have "g1 = g"
        using a by simp
      then show ?thesis
        using b False filled_same [OF first(1)] by auto
    qed
  qed
  then show ?case
    using first(1) rest(1) same_nodes_trans by blast
qed

lemma fill_groups_spec:
  assumes "distinct (map group_key gs)" "fill_groups fill (gs, cs) = (gs', cs')"
  shows "same_nodes cs cs'" "list_all2 (filled fill cs) gs gs'"
proof -
  let ?ks = "map group_key (sort_key (\<lambda>g. length (gp_instances g)) gs)"
  have ks: "distinct ?ks"
    using assms(1) by (metis distinct_sort mset_map mset_sort mset_eq_imp_distinct_iff)
  have all: "same_nodes cs cs' \<and> list_all2 (\<lambda>g g'. if group_key g \<in> set ?ks then filled fill cs g g' else g' = g) gs gs'"
    using fill_loop [OF assms(1) ks] assms(2) by (simp add: fill_groups_def)
  then show "same_nodes cs cs'"
    by blast
  show "list_all2 (filled fill cs) gs gs'"
  proof (rule list.rel_mono_strong [OF conjunct2 [OF all]])
    fix g g' assume "g \<in> set gs" "if group_key g \<in> set ?ks then filled fill cs g g' else g' = g"
    then show "filled fill cs g g'"
      by simp
  qed
qed

section \<open>What a group gets\<close>

definition policy_nodes :: "policy_instance list \<Rightarrow> candidate list" where
  "policy_nodes is = map (\<lambda>i. \<lparr>cd_obj = i, cd_groups = []\<rparr>) (filter pi_managed (policy_instances is))"

definition listed :: "policy_instance list \<Rightarrow> policy_group \<Rightarrow> pk list" where
  "listed is g = gp_instances (list_policy (policy_instances is) g)"

text \<open>The instances that the policies may place in a group.\<close>

definition placeable :: "string \<Rightarrow> policy_instance list \<Rightarrow> policy_group \<Rightarrow> pk set" where
  "placeable control_plane is g =
     {pi_id i | i. i \<in> set is \<and> pi_managed i \<and> pi_node_type i \<noteq> ''hop'' \<and>
        pi_node_type i \<noteq> exclude_type control_plane g}"

lemma eligible_objs: "eligible exclude cs = {pi_id i | i. i \<in> set (map cd_obj cs) \<and> pi_node_type i \<noteq> exclude}"
  by (auto simp: eligible_def)

lemma same_nodes_eligible:
  assumes "same_nodes cs cs'"
  shows "eligible exclude cs' = eligible exclude cs"
    "length (filter (\<lambda>c. pi_node_type (cd_obj c) \<noteq> exclude) cs') = length (filter (\<lambda>c. pi_node_type (cd_obj c) \<noteq> exclude) cs)"
proof -
  have "set (map cd_obj cs') = set (map cd_obj cs)"
    using assms unfolding same_nodes_def by (metis mset_eq_setD)
  then show "eligible exclude cs' = eligible exclude cs"
    unfolding eligible_objs by simp
  have "length (filter (\<lambda>c. pi_node_type (cd_obj c) \<noteq> exclude) cs) =
      size (filter_mset (\<lambda>i. pi_node_type i \<noteq> exclude) (mset (map cd_obj cs)))" for cs
    by (induction cs) simp_all
  then show "length (filter (\<lambda>c. pi_node_type (cd_obj c) \<noteq> exclude) cs') = length (filter (\<lambda>c. pi_node_type (cd_obj c) \<noteq> exclude) cs)"
    using assms unfolding same_nodes_def by metis
qed

lemma eligible_policy_nodes:
  "eligible (exclude_type control_plane g) (policy_nodes is) = placeable control_plane is g"
  by (auto simp: eligible_objs policy_nodes_def policy_instances_def placeable_def comp_def)

lemma pool_size:
  assumes "distinct (map pi_id is)"
  shows "length (filter (\<lambda>c. pi_node_type (cd_obj c) \<noteq> exclude_type control_plane g) (policy_nodes is)) =
    card (placeable control_plane is g)"
proof -
  let ?cs = "filter (\<lambda>c. pi_node_type (cd_obj c) \<noteq> exclude_type control_plane g) (policy_nodes is)"
  have "distinct (map pi_id (filter pi_managed (policy_instances is)))"
    using assms unfolding policy_instances_def by (simp add: distinct_map distinct_filter inj_on_def)
  then have "distinct (map node_key (policy_nodes is))"
    unfolding policy_nodes_def by (simp add: comp_def)
  then have "distinct (map node_key ?cs)"
    by (rule distinct_map_filter)
  moreover have "set (map node_key ?cs) = placeable control_plane is g"
    unfolding eligible_policy_nodes [symmetric] eligible_def by auto
  ultimately show ?thesis
    by (metis distinct_card length_map)
qed

text \<open>The instances of a placing: the listed ones, those of the minimum, those of the percentage.\<close>

definition placed_well :: "string \<Rightarrow> policy_instance list \<Rightarrow> policy_group \<Rightarrow> pk list \<Rightarrow> bool" where
  "placed_well control_plane is g xs \<longleftrightarrow> (\<exists>ys zs. xs = listed is g @ ys @ zs \<and>
     set ys \<union> set zs \<subseteq> placeable control_plane is g \<and> (distinct (listed is g) \<longrightarrow> distinct xs) \<and>
     (pg_minimum g \<le> int (length (listed is g @ ys)) \<or> placeable control_plane is g \<subseteq> set (listed is g @ ys)) \<and>
     (ys = [] \<or> int (length (listed is g @ ys)) \<le> pg_minimum g) \<and>
     (enough (pg_percentage g) (card (placeable control_plane is g)) (length xs) \<or>
        placeable control_plane is g \<subseteq> set xs) \<and>
     (zs = [] \<or> \<not> enough (pg_percentage g) (card (placeable control_plane is g)) (length xs - 1)))"

lemma minimum_fill_spec:
  assumes "same_nodes (policy_nodes is) cs"
  shows "\<exists>ys. minimum_fill control_plane (list_policy (policy_instances is) g) cs = listed is g @ ys \<and>
    set ys \<subseteq> placeable control_plane is g \<and> (distinct (listed is g) \<longrightarrow> distinct (listed is g @ ys)) \<and>
    (pg_minimum g \<le> int (length (listed is g @ ys)) \<or> placeable control_plane is g \<subseteq> set (listed is g @ ys)) \<and>
    (ys = [] \<or> int (length (listed is g @ ys)) \<le> pg_minimum g)"
  using minimum_loop_spec [of "exclude_type control_plane g" "pg_minimum g" cs "listed is g"]
  unfolding same_nodes_eligible(1) [OF assms] eligible_policy_nodes
  by (simp add: minimum_fill_def listed_def list_policy_def)

lemma percentage_fill_spec:
  assumes "same_nodes (policy_nodes is) cs" "distinct (map pi_id is)" "gp_obj p = g"
  shows "\<exists>zs. percentage_fill control_plane p cs = gp_instances p @ zs \<and>
    set zs \<subseteq> placeable control_plane is g \<and> (distinct (gp_instances p) \<longrightarrow> distinct (gp_instances p @ zs)) \<and>
    (enough (pg_percentage g) (card (placeable control_plane is g)) (length (gp_instances p @ zs)) \<or>
       placeable control_plane is g \<subseteq> set (gp_instances p @ zs)) \<and>
    (zs = [] \<or> \<not> enough (pg_percentage g) (card (placeable control_plane is g)) (length (gp_instances p @ zs) - 1))"
proof -
  let ?x = "exclude_type control_plane g"
  have pool: "length (filter (\<lambda>c. pi_node_type (cd_obj c) \<noteq> ?x) cs) = card (placeable control_plane is g)"
    using same_nodes_eligible(2) [OF assms(1)] pool_size [OF assms(2)] by simp
  show ?thesis
  proof (cases "card (placeable control_plane is g) = 0")
    case True
    have "finite (placeable control_plane is g)"
      by (simp add: placeable_def)
    then have "placeable control_plane is g = {}"
      using True by simp
    then show ?thesis
      using True pool assms(3) by (intro exI [of _ "[]"]) (simp add: percentage_fill_def Let_def)
  next
    case False
    then have "percentage_fill control_plane p cs =
        percentage_loop ?x (pg_percentage g) (card (placeable control_plane is g)) cs (gp_instances p)"
      using pool assms(3) by (simp add: percentage_fill_def Let_def del: length_0_conv length_greater_0_conv)
    then show ?thesis
      using percentage_loop_spec [of ?x "pg_percentage g" "card (placeable control_plane is g)" cs "gp_instances p"]
      unfolding same_nodes_eligible(1) [OF assms(1)] eligible_policy_nodes by simp
  qed
qed

lemma placements_spec:
  assumes "distinct (map pg_id gs)" "distinct (map pi_id is)"
  shows "list_all2 (\<lambda>g p. gp_obj p = g \<and> gp_prior p = pg_members g \<and> placed_well control_plane is g (gp_instances p))
    gs (placements control_plane is gs)"
proof -
  let ?l = "map (list_policy (policy_instances is)) gs"
  obtain ms cs1 where m: "fill_groups (minimum_fill control_plane) (?l, policy_nodes is) = (ms, cs1)"
    by fastforce
  obtain ps cs2 where p: "fill_groups (percentage_fill control_plane) (ms, cs1) = (ps, cs2)"
    by fastforce
  have l: "distinct (map group_key ?l)"
    using assms(1) by (simp add: list_policy_def comp_def)
  note m_spec = fill_groups_spec [OF l m]
  have "map group_key ms = map group_key ?l"
    using m_spec(2) by (induction rule: list_all2_induct) (auto dest: filled_key)
  then have p_spec: "list_all2 (filled (percentage_fill control_plane) cs1) ms ps"
    using fill_groups_spec(2) [OF _ p] l by simp
  have "list_all2 (\<lambda>q p. gp_obj p = gp_obj q \<and> gp_prior p = gp_prior q \<and>
      (\<exists>cs c'. same_nodes (policy_nodes is) cs \<and> same_nodes cs1 c' \<and>
        gp_instances p = percentage_fill control_plane (q\<lparr>gp_instances := minimum_fill control_plane q cs\<rparr>) c')) ?l ps"
  proof (rule list_all2_trans [OF _ m_spec(2) p_spec])
    fix q r p
    assume "filled (minimum_fill control_plane) (policy_nodes is) q r" "filled (percentage_fill control_plane) cs1 r p"
    then show "gp_obj p = gp_obj q \<and> gp_prior p = gp_prior q \<and>
      (\<exists>cs c'. same_nodes (policy_nodes is) cs \<and> same_nodes cs1 c' \<and>
        gp_instances p = percentage_fill control_plane (q\<lparr>gp_instances := minimum_fill control_plane q cs\<rparr>) c')"
      unfolding filled_def by (elim exE conjE) (intro conjI exI, simp_all)
  qed
  then have two: "list_all2 (\<lambda>g p. gp_obj p = g \<and> gp_prior p = pg_members g \<and>
      (\<exists>cs c'. same_nodes (policy_nodes is) cs \<and> same_nodes cs1 c' \<and>
        gp_instances p = percentage_fill control_plane ((list_policy (policy_instances is) g)\<lparr>gp_instances :=
          minimum_fill control_plane (list_policy (policy_instances is) g) cs\<rparr>) c')) gs ps"
    unfolding list_all2_map1 by (simp add: list_policy_def)
  have "list_all2 (\<lambda>g p. gp_obj p = g \<and> gp_prior p = pg_members g \<and> placed_well control_plane is g (gp_instances p)) gs ps"
  proof (rule list.rel_mono_strong [OF two])
    fix g p
    assume a: "gp_obj p = g \<and> gp_prior p = pg_members g \<and>
      (\<exists>cs c'. same_nodes (policy_nodes is) cs \<and> same_nodes cs1 c' \<and>
        gp_instances p = percentage_fill control_plane ((list_policy (policy_instances is) g)\<lparr>gp_instances :=
          minimum_fill control_plane (list_policy (policy_instances is) g) cs\<rparr>) c')"
    then obtain cs c' where cs: "same_nodes (policy_nodes is) cs" and "same_nodes cs1 c'"
      and inst: "gp_instances p = percentage_fill control_plane ((list_policy (policy_instances is) g)\<lparr>gp_instances :=
          minimum_fill control_plane (list_policy (policy_instances is) g) cs\<rparr>) c'"
      by blast
    then have c': "same_nodes (policy_nodes is) c'"
      using m_spec(1) same_nodes_trans by blast
    obtain ys where ys: "minimum_fill control_plane (list_policy (policy_instances is) g) cs = listed is g @ ys"
      "set ys \<subseteq> placeable control_plane is g" "distinct (listed is g) \<longrightarrow> distinct (listed is g @ ys)"
      "pg_minimum g \<le> int (length (listed is g @ ys)) \<or> placeable control_plane is g \<subseteq> set (listed is g @ ys)"
      "ys = [] \<or> int (length (listed is g @ ys)) \<le> pg_minimum g"
      using minimum_fill_spec [OF cs] by blast
    let ?q = "(list_policy (policy_instances is) g)\<lparr>gp_instances := listed is g @ ys\<rparr>"
    have q: "gp_obj ?q = g" "gp_instances ?q = listed is g @ ys"
      by (simp_all add: list_policy_def)
    obtain zs where zs: "gp_instances p = listed is g @ ys @ zs"
      "set zs \<subseteq> placeable control_plane is g"
      "distinct (listed is g @ ys) \<longrightarrow> distinct (listed is g @ ys @ zs)"
      "enough (pg_percentage g) (card (placeable control_plane is g)) (length (listed is g @ ys @ zs)) \<or>
        placeable control_plane is g \<subseteq> set (listed is g @ ys @ zs)"
      "zs = [] \<or> \<not> enough (pg_percentage g) (card (placeable control_plane is g)) (length (listed is g @ ys @ zs) - 1)"
      using percentage_fill_spec [OF c' assms(2) q(1), of control_plane] unfolding inst ys(1) q(2) append_assoc by blast
    have "placed_well control_plane is g (listed is g @ ys @ zs)"
      unfolding placed_well_def
    proof (rule exI [of _ ys], rule exI [of _ zs], intro conjI)
      show "set ys \<union> set zs \<subseteq> placeable control_plane is g"
        using ys(2) zs(2) by blast
      show "distinct (listed is g) \<longrightarrow> distinct (listed is g @ ys @ zs)"
        using ys(3) zs(3) by blast
    qed (fact refl ys(4,5) zs(4,5))+
    then have "placed_well control_plane is g (gp_instances p)"
      unfolding zs(1) .
    then show "gp_obj p = g \<and> gp_prior p = pg_members g \<and> placed_well control_plane is g (gp_instances p)"
      using a by blast
  qed
  then show ?thesis
    using m p by (simp add: placements_def Let_def policy_nodes_def)
qed

section \<open>The memberships\<close>

lemma change_members_fields [simp]:
  "pg_id (change_members p) = pg_id (gp_obj p)" "pg_name (change_members p) = pg_name (gp_obj p)"
  "pg_list (change_members p) = pg_list (gp_obj p)" "pg_minimum (change_members p) = pg_minimum (gp_obj p)"
  "pg_percentage (change_members p) = pg_percentage (gp_obj p)" "pg_container (change_members p) = pg_container (gp_obj p)"
  by (simp_all add: change_members_def)

definition same_policy :: "policy_group \<Rightarrow> policy_group \<Rightarrow> bool" where
  "same_policy g h \<longleftrightarrow> g\<lparr>pg_members := []\<rparr> = h\<lparr>pg_members := []\<rparr>"

lemma same_policy_placed:
  assumes "same_policy g h"
  shows "listed is g = listed is h" "placeable control_plane is g = placeable control_plane is h"
    "pg_minimum g = pg_minimum h" "pg_percentage g = pg_percentage h" "pg_container g = pg_container h"
    "pg_id g = pg_id h" "pg_list g = pg_list h"
proof -
  have "h = h\<lparr>pg_members := []\<rparr>\<lparr>pg_members := pg_members h\<rparr>"
    by simp
  also have "\<dots> = g\<lparr>pg_members := pg_members h\<rparr>"
    using assms unfolding same_policy_def by (metis policy_group.surjective policy_group.update_convs(7))
  finally obtain m where "h = g\<lparr>pg_members := m\<rparr>"
    by blast
  then show "listed is g = listed is h" "placeable control_plane is g = placeable control_plane is h"
    "pg_minimum g = pg_minimum h" "pg_percentage g = pg_percentage h" "pg_container g = pg_container h"
    "pg_id g = pg_id h" "pg_list g = pg_list h"
    by (simp_all add: listed_def list_policy_def placeable_def exclude_type_def)
qed

lemma same_policy_change: "same_policy (change_members p) (gp_obj p)"
  by (simp add: same_policy_def change_members_def)

lemma list_all2_mem:
  assumes "list_all2 R xs ys"
  shows "x \<in> set xs \<Longrightarrow> \<exists>y \<in> set ys. R x y" "y \<in> set ys \<Longrightarrow> \<exists>x \<in> set xs. R x y"
  using assms by (induction rule: list_all2_induct) auto

lemma members_placed:
  assumes "distinct (map pg_id gs)" "distinct (map pi_id is)"
    and "g \<in> set (apply_cluster_membership_policies control_plane is gs)" "\<not> pg_container g"
  obtains xs where "placed_well control_plane is g xs" "set (pg_members g) = set xs"
proof -
  let ?ps = "placements control_plane is gs"
  note spec = placements_spec [OF assms(1,2), of control_plane]
  have "\<exists>p \<in> set ?ps. placed_well control_plane is (gp_obj p) (gp_instances p) \<and> same_policy g (gp_obj p) \<and>
    set (pg_members g) = set (gp_instances p)"
  proof (cases "needs_change ?ps")
    case True
    then obtain p where p: "p \<in> set ?ps" "g = change_members p"
      using assms(3) by (auto simp: apply_cluster_membership_policies_def Let_def)
    then have a: "gp_prior p = pg_members (gp_obj p) \<and> placed_well control_plane is (gp_obj p) (gp_instances p)"
      using spec by (auto simp: list_all2_conv_all_nth in_set_conv_nth)
    have "\<not> pg_container (gp_obj p)"
      using assms(4) p(2) by simp
    then have "set (pg_members g) = set (gp_instances p)"
      using p(2) a by (auto simp: change_members_def)
    then show ?thesis
      using p same_policy_change a by blast
  next
    case False
    then have g: "g \<in> set gs" and same: "\<And>p. p \<in> set ?ps \<Longrightarrow> set (gp_instances p) = set (gp_prior p)"
      using assms(3) by (auto simp: apply_cluster_membership_policies_def Let_def needs_change_def list_ex_iff)
    then obtain p where "p \<in> set ?ps" "gp_obj p = g \<and> gp_prior p = pg_members g \<and> placed_well control_plane is g (gp_instances p)"
      using list_all2_mem(1) [OF spec] by blast
    then show ?thesis
      using same by (intro bexI) (auto simp: same_policy_def)
  qed
  then obtain p :: placing where "placed_well control_plane is (gp_obj p) (gp_instances p)" "same_policy g (gp_obj p)"
    "set (pg_members g) = set (gp_instances p)"
    by blast
  then show ?thesis
    by (intro that) (auto simp: placed_well_def same_policy_placed)
qed

lemma enough_exact:
  assumes "0 < pool"
  shows "enough p pool n \<longleftrightarrow> p * int pool \<le> 100 * int n"
proof -
  have "enough p pool n \<longleftrightarrow> (of_int (p * int pool) :: rat) \<le> of_int (100 * int n)"
    using assms unfolding enough_def by (simp add: pos_le_divide_eq)
  then show ?thesis
    by (simp only: of_int_le_iff)
qed

lemma finite_placeable: "finite (placeable control_plane is g)"
  by (simp add: placeable_def)

text \<open>
  C35. After the task every group that is not a container group holds the known instances of its
  policy list, and besides them only instances that are managed by policy, are no hop nodes and have
  a type that fits the group; its minimum is met or every such instance is in it, and its percentage
  of such instances is met or every one of them is in it.
\<close>

theorem cluster_policies_hold:
  assumes "distinct (map pg_id gs)" and "distinct (map pi_id is)"
    and "g \<in> set (apply_cluster_membership_policies control_plane is gs)" and "\<not> pg_container g"
    and "distinct (listed is g)"
  shows "set (listed is g) \<subseteq> set (pg_members g) \<and>
    set (pg_members g) \<subseteq> set (listed is g) \<union> placeable control_plane is g \<and>
    (pg_minimum g \<le> int (card (set (pg_members g))) \<or> placeable control_plane is g \<subseteq> set (pg_members g)) \<and>
    (pg_percentage g * int (card (placeable control_plane is g)) \<le> 100 * int (card (set (pg_members g))) \<or>
       placeable control_plane is g \<subseteq> set (pg_members g))"
proof -
  obtain xs where xs: "placed_well control_plane is g xs" and m: "set (pg_members g) = set xs"
    using members_placed [OF assms(1-4)] .
  obtain ys zs where w: "xs = listed is g @ ys @ zs" "set ys \<union> set zs \<subseteq> placeable control_plane is g" "distinct xs"
    "pg_minimum g \<le> int (length (listed is g @ ys)) \<or> placeable control_plane is g \<subseteq> set (listed is g @ ys)"
    "enough (pg_percentage g) (card (placeable control_plane is g)) (length xs) \<or> placeable control_plane is g \<subseteq> set xs"
    using xs assms(5) unfolding placed_well_def by blast
  have n: "card (set (pg_members g)) = length xs"
    using m w(3) by (simp add: distinct_card)
  have "pg_percentage g * int (card (placeable control_plane is g)) \<le> 100 * int (length xs) \<or>
      placeable control_plane is g \<subseteq> set xs"
  proof (cases "card (placeable control_plane is g) = 0")
    case True
    then show ?thesis
      using finite_placeable [of control_plane "is" g] by simp
  next
    case False
    then show ?thesis
      using w(5) enough_exact by blast
  qed
  moreover have "pg_minimum g \<le> int (length xs) \<or> placeable control_plane is g \<subseteq> set xs"
    using w(1,4) by auto
  ultimately show ?thesis
    using m n w(1,2) by auto
qed

text \<open>
  No group gets an instance that its policies do not ask for: it holds as many as its list names,
  or no more than its minimum, or with one instance less its percentage would not be met.
\<close>

theorem cluster_policies_frugal:
  assumes "distinct (map pg_id gs)" and "distinct (map pi_id is)"
    and "g \<in> set (apply_cluster_membership_policies control_plane is gs)" and "\<not> pg_container g"
    and "distinct (listed is g)"
  shows "card (set (pg_members g)) = card (set (listed is g)) \<or>
    int (card (set (pg_members g))) \<le> pg_minimum g \<or>
    100 * (int (card (set (pg_members g))) - 1) < pg_percentage g * int (card (placeable control_plane is g))"
proof -
  obtain xs where xs: "placed_well control_plane is g xs" and m: "set (pg_members g) = set xs"
    using members_placed [OF assms(1-4)] .
  obtain ys zs where w: "xs = listed is g @ ys @ zs" "set ys \<union> set zs \<subseteq> placeable control_plane is g" "distinct xs"
    "ys = [] \<or> int (length (listed is g @ ys)) \<le> pg_minimum g"
    "zs = [] \<or> \<not> enough (pg_percentage g) (card (placeable control_plane is g)) (length xs - 1)"
    using xs assms(5) unfolding placed_well_def by blast
  have n: "card (set (pg_members g)) = length xs" "card (set (listed is g)) = length (listed is g)"
    using m w(3) assms(5) by (simp_all add: distinct_card)
  show ?thesis
  proof (cases "zs = []")
    case True
    then show ?thesis
      using n w(1,4) by auto
  next
    case False
    then have "placeable control_plane is g \<noteq> {}" and "0 < length xs"
      using w(1,2) by auto
    then have "0 < card (placeable control_plane is g)"
      using finite_placeable [of control_plane "is" g] by (simp add: card_gt_0_iff)
    then show ?thesis
      using w(5) False n \<open>0 < length xs\<close> by (auto simp: enough_exact of_nat_diff not_le)
  qed
qed

section \<open>A second run\<close>

text \<open>The passes do not read the memberships.\<close>

definition without_members :: "placing \<Rightarrow> placing" where
  "without_members p = p\<lparr>gp_obj := (gp_obj p)\<lparr>pg_members := []\<rparr>, gp_prior := []\<rparr>"

lemma without_members_simps [simp]:
  "group_key (without_members p) = group_key p" "gp_instances (without_members p) = gp_instances p"
  "(without_members p)\<lparr>gp_instances := xs\<rparr> = without_members (p\<lparr>gp_instances := xs\<rparr>)"
  by (simp_all add: without_members_def)

lemma sort_key_map: "sort_key f (map h xs) = map h (sort_key (\<lambda>x. f (h x)) xs)"
proof (induction xs)
  case (Cons x xs)
  have "insort_key f (h x) (map h ys) = map h (insort_key (\<lambda>x. f (h x)) x ys)" for ys
    by (induction ys) simp_all
  then show ?case
    by (simp add: Cons)
qed simp

lemma find_mapped_list: "find P (map h xs) = map_option h (find (\<lambda>x. P (h x)) xs)"
  by (induction xs) simp_all

text \<open>A pass whose result does not depend on the memberships, as both passes are.\<close>

locale blind_pass =
  fixes fill :: "placing \<Rightarrow> candidate list \<Rightarrow> pk list"
  assumes blind: "fill (without_members g) cs = fill g cs"
begin

lemma fill_group_without:
  "fill_group fill k (map without_members gs, cs) =
    (map without_members (fst (fill_group fill k (gs, cs))), snd (fill_group fill k (gs, cs)))"
  by (cases "find (\<lambda>g. group_key g = k) gs")
    (simp_all add: fill_group_def find_mapped_list Let_def blind)

lemma fold_fill_without:
  "fold (fill_group fill) ks (map without_members gs, cs) =
    (map without_members (fst (fold (fill_group fill) ks (gs, cs))), snd (fold (fill_group fill) ks (gs, cs)))"
proof (induction ks arbitrary: gs cs)
  case (Cons k ks)
  then show ?case
    using fill_group_without [of k gs cs] by (cases "fill_group fill k (gs, cs)") simp
qed simp

lemma fill_groups_without:
  "fill_groups fill (map without_members gs, cs) =
    (map without_members (fst (fill_groups fill (gs, cs))), snd (fill_groups fill (gs, cs)))"
  using fold_fill_without by (simp add: fill_groups_def sort_key_map comp_def)

end

interpretation minimum_pass: blind_pass "minimum_fill control_plane" for control_plane
  by unfold_locales (simp add: minimum_fill_def exclude_type_def without_members_def)

interpretation percentage_pass: blind_pass "percentage_fill control_plane" for control_plane
  by unfold_locales (simp add: percentage_fill_def Let_def exclude_type_def without_members_def)

lemma placements_without:
  assumes "map (\<lambda>g. g\<lparr>pg_members := []\<rparr>) gs = map (\<lambda>g. g\<lparr>pg_members := []\<rparr>) hs"
  shows "map without_members (placements control_plane is gs) = map without_members (placements control_plane is hs)"
proof -
  let ?run = "\<lambda>l. fst (fill_groups (percentage_fill control_plane) (fill_groups (minimum_fill control_plane) (l, policy_nodes is)))"
  have run: "?run (map without_members l) = map without_members (?run l)" for l
    using minimum_pass.fill_groups_without [of control_plane l "policy_nodes is"]
      percentage_pass.fill_groups_without [of control_plane "fst (fill_groups (minimum_fill control_plane) (l, policy_nodes is))"
        "snd (fill_groups (minimum_fill control_plane) (l, policy_nodes is))"]
    by simp
  have pl: "placements control_plane is gs = ?run (map (list_policy (policy_instances is)) gs)" for gs
    by (simp add: placements_def Let_def policy_nodes_def)
  have "without_members (list_policy js g) = list_policy js (g\<lparr>pg_members := []\<rparr>)" for js g
    by (simp add: without_members_def list_policy_def)
  then have "map without_members (map (list_policy js) gs) = map (list_policy js) (map (\<lambda>g. g\<lparr>pg_members := []\<rparr>) gs)" for js gs
    by simp
  then show ?thesis
    unfolding pl run [symmetric] assms by (metis assms)
qed

lemma placements_keep:
  assumes "distinct (map pg_id gs)" "distinct (map pi_id is)"
  shows "map gp_obj (placements control_plane is gs) = gs"
    "\<forall>p \<in> set (placements control_plane is gs). gp_prior p = pg_members (gp_obj p)"
  using placements_spec [OF assms, of control_plane]
  by (auto simp: list_all2_conv_all_nth in_set_conv_nth list_eq_iff_nth_eq)

lemma change_settled:
  assumes "gp_obj q = change_members p" "gp_instances q = gp_instances p"
    and "gp_prior q = pg_members (gp_obj q)" "gp_prior p = pg_members (gp_obj p)"
  shows "change_members q = gp_obj q"
proof (cases "pg_container (gp_obj p)")
  case True
  then show ?thesis
    using assms(1) by (simp add: change_members_def)
next
  case False
  then have "set (pg_members (gp_obj q)) = set (gp_instances q)"
    using assms(1,2,4) by (auto simp: change_members_def)
  then have "filter (\<lambda>i. i \<in> set (gp_instances q)) (pg_members (gp_obj q)) = pg_members (gp_obj q)"
    "filter (\<lambda>i. i \<notin> set (gp_prior q)) (remdups (gp_instances q)) = []"
    using assms(3) by (simp_all add: filter_id_conv filter_empty_conv)
  then show ?thesis
    by (simp add: change_members_def)
qed

text \<open>The placements of a second run, after the memberships were changed.\<close>

lemma second_placements:
  fixes control_plane :: string
  assumes "distinct (map pg_id gs)" "distinct (map pi_id is)"
  defines "ps \<equiv> placements control_plane is gs"
  defines "qs \<equiv> placements control_plane is (map change_members ps)"
  shows "map change_members qs = map change_members ps"
proof -
  have "map (\<lambda>g. g\<lparr>pg_members := []\<rparr>) (map change_members ps) = map (\<lambda>g. g\<lparr>pg_members := []\<rparr>) (map gp_obj ps)"
    by (simp add: change_members_def)
  then have "map without_members qs = map without_members ps"
    unfolding ps_def qs_def using placements_keep(1) [OF assms(1,2)] by (intro placements_without) simp
  then have same: "map gp_instances qs = map gp_instances ps"
    by (metis (no_types, lifting) comp_apply list.map_comp map_eq_conv without_members_simps(2))
  have "map pg_id (map change_members ps) = map pg_id (map gp_obj ps)"
    by simp
  then have "distinct (map pg_id (map change_members ps))"
    using placements_keep(1) [OF assms(1,2)] assms(1) unfolding ps_def by simp
  note keep = placements_keep [OF this assms(2), of control_plane, folded qs_def]
  have "list_all2 (\<lambda>q p. gp_instances q = gp_instances p \<and> gp_obj q = change_members p) qs ps"
    using same keep(1) by (auto simp: list_eq_iff_nth_eq list_all2_conv_all_nth)
  note pairs = list_all2_mem(1) [OF this]
  have "change_members q = gp_obj q" if q: "q \<in> set qs" for q
  proof -
    obtain p where p: "p \<in> set ps" "gp_instances q = gp_instances p" "gp_obj q = change_members p"
      using pairs [OF q] by blast
    have "gp_prior q = pg_members (gp_obj q)" "gp_prior p = pg_members (gp_obj p)"
      using keep(2) q placements_keep(2) [OF assms(1,2), of control_plane] p(1) unfolding ps_def by blast+
    then show ?thesis
      by (rule change_settled [OF p(3,2)])
  qed
  then show ?thesis
    using keep(1) by (metis (no_types, lifting) map_eq_conv)
qed

text \<open>
  A second run changes nothing: with the memberships that the first run leaves, the task computes
  the same placements and no group gains or loses an instance.
\<close>

theorem cluster_policies_settle:
  assumes "distinct (map pg_id gs)" and "distinct (map pi_id is)"
  shows "apply_cluster_membership_policies control_plane is (apply_cluster_membership_policies control_plane is gs) =
    apply_cluster_membership_policies control_plane is gs"
proof (cases "needs_change (placements control_plane is gs)")
  case True
  then have "apply_cluster_membership_policies control_plane is gs = map change_members (placements control_plane is gs)"
    by (simp add: apply_cluster_membership_policies_def Let_def)
  then show ?thesis
    using second_placements [OF assms, of control_plane] by (simp add: apply_cluster_membership_policies_def Let_def)
qed (simp add: apply_cluster_membership_policies_def Let_def)

section \<open>Examples\<close>

definition policy_example_instances :: "policy_instance list" where
  "policy_example_instances =
     [\<lparr>pi_id = 1, pi_hostname = ''c1'', pi_node_type = ''control'', pi_managed = True\<rparr>,
      \<lparr>pi_id = 2, pi_hostname = ''e1'', pi_node_type = ''execution'', pi_managed = True\<rparr>,
      \<lparr>pi_id = 3, pi_hostname = ''e2'', pi_node_type = ''execution'', pi_managed = False\<rparr>,
      \<lparr>pi_id = 4, pi_hostname = ''h1'', pi_node_type = ''hop'', pi_managed = True\<rparr>]"

definition policy_example_groups :: "policy_group list" where
  "policy_example_groups =
     [\<lparr>pg_id = 10, pg_name = ''controlplane'', pg_list = [], pg_minimum = 0, pg_percentage = 100, pg_container = False,
       pg_members = [4]\<rparr>,
      \<lparr>pg_id = 11, pg_name = ''default'', pg_list = [''e2''], pg_minimum = 2, pg_percentage = 50, pg_container = False,
       pg_members = []\<rparr>]"

definition policy_example :: "policy_group list" where
  "policy_example = apply_cluster_membership_policies ''controlplane'' policy_example_instances policy_example_groups"

lemmas policy_example_defs =
  policy_example_instances_def policy_example_groups_def policy_instances_def

lemma policy_example_default:
  "policy_example ! 1 \<in> set policy_example" "pg_members (policy_example ! 1) = [3, 2]"
  "pg_members (policy_example ! 0) = [1]" "\<not> pg_container (policy_example ! 1)"
  "distinct (listed policy_example_instances (policy_example ! 1))"
  by (simp_all add: policy_example_def apply_cluster_membership_policies_def placements_def Let_def
      policy_example_defs list_policy_def by_hostname_def fill_groups_def fill_group_def minimum_fill_def
      percentage_fill_def exclude_type_def needs_change_def change_members_def listed_def)

lemma policy_example_ids:
  "distinct (map pg_id policy_example_groups)" "distinct (map pi_id policy_example_instances)"
  by (simp_all add: policy_example_instances_def policy_example_groups_def)

lemma cluster_policies_hold_witness:
  "pg_members (policy_example ! 1) = [3, 2] \<and>
   set (listed policy_example_instances (policy_example ! 1)) \<subseteq> set (pg_members (policy_example ! 1))"
  using cluster_policies_hold [OF policy_example_ids policy_example_default(1) [unfolded policy_example_def]]
    policy_example_default(2,4,5)
  unfolding policy_example_def by blast

lemma cluster_policies_frugal_witness:
  "card (set (pg_members (policy_example ! 1))) = card (set (listed policy_example_instances (policy_example ! 1))) \<or>
   int (card (set (pg_members (policy_example ! 1)))) \<le> pg_minimum (policy_example ! 1) \<or>
   100 * (int (card (set (pg_members (policy_example ! 1)))) - 1) < pg_percentage (policy_example ! 1) *
     int (card (placeable ''controlplane'' policy_example_instances (policy_example ! 1)))"
  using cluster_policies_frugal [OF policy_example_ids policy_example_default(1) [unfolded policy_example_def]]
    policy_example_default(4,5)
  unfolding policy_example_def by blast

lemma cluster_policies_settle_witness:
  "apply_cluster_membership_policies ''controlplane'' policy_example_instances policy_example = policy_example"
  unfolding policy_example_def by (rule cluster_policies_settle [OF policy_example_ids])

end
