(* ===== verification/Fact_Cache.thy ===== *)
theory Fact_Cache
  imports Json_Text
begin

text \<open>
  The facts of hosts around a job (\<open>main/tasks/facts.py\<close>): before the job the facts that are not
  expired are written to files of a directory, after it the files that changed are read back and the
  facts of hosts without a file are cleared. Arguments (\<open>cache_env\<close>): \<open>realpath\<close>, which files can be
  written, the conversions of JSON, and per host the instants of \<open>now()\<close> and of writing its file. The
  database may answer an update with a deadlock: the list of bools says at which attempts. Times
  are seconds. Log messages and the counters for them are not modelled.
\<close>

record fact_host =
  fh_id :: pk
  fh_name :: string
  fh_facts :: json
  fh_modified :: "rat option"

record cache_env =
  ce_realpath :: "string \<Rightarrow> string"
  ce_writable :: "string \<Rightarrow> bool"
  ce_real_text :: "rat \<Rightarrow> string"
  ce_reading :: reading
  ce_now :: "pk \<Rightarrow> rat"
  ce_written :: "pk \<Rightarrow> rat"
  ce_timeout :: rat

text \<open>The files: their time of modification and their text.\<close>

type_synonym fact_files = "string \<Rightarrow> (rat \<times> string) option"

section \<open>Before the job\<close>

definition fact_path :: "string \<Rightarrow> fact_host \<Rightarrow> string" where
  "fact_path destination h = destination @ ''/'' @ fh_name h"

definition inside :: "cache_env \<Rightarrow> string \<Rightarrow> fact_host \<Rightarrow> bool" where
  "inside env destination h \<longleftrightarrow> startswith (ce_realpath env (fact_path destination h)) destination"

definition facts_expired :: "cache_env \<Rightarrow> rat option \<Rightarrow> fact_host \<Rightarrow> bool" where
  "facts_expired env timeout h \<longleftrightarrow>
     (let limit = (case timeout of None \<Rightarrow> ce_timeout env | Some t \<Rightarrow> t) in
      case fh_modified h of None \<Rightarrow> True | Some m \<Rightarrow> limit \<noteq> 0 \<and> m < ce_now env (fh_id h) - limit)"

text \<open>One host; the second part of the state is the path that was written last.\<close>

definition write_facts ::
  "cache_env \<Rightarrow> string \<Rightarrow> rat option \<Rightarrow> fact_host \<Rightarrow> fact_files \<times> string option \<Rightarrow> fact_files \<times> string option" where
  "write_facts env destination timeout h = (\<lambda>(files, last_path).
     (let p = fact_path destination h in
      if facts_expired env timeout h then (files, last_path)
      else if \<not> inside env destination h then (files, last_path)
      else if \<not> ce_writable env p then (files, last_path)
      else (files(p \<mapsto> (ce_written env (fh_id h), dumps id (ce_real_text env) (fh_facts h))), Some p)))"

definition start_fact_cache ::
  "cache_env \<Rightarrow> fact_host list \<Rightarrow> string \<Rightarrow> rat option \<Rightarrow> fact_files \<Rightarrow> fact_files \<times> rat option" where
  "start_fact_cache env hosts destination timeout files =
     (let (files', last_path) = fold (write_facts env destination timeout) hosts (files, None)
      in (files', case last_path of None \<Rightarrow> None | Some p \<Rightarrow> map_option fst (files' p)))"

section \<open>After the job\<close>

definition raw_update_hosts :: "fact_host list \<Rightarrow> fact_host list \<Rightarrow> fact_host list" where
  "raw_update_hosts hs rows =
     map (\<lambda>r. case find (\<lambda>h. fh_id h = fh_id r) hs of
         None \<Rightarrow> r | Some h \<Rightarrow> r\<lparr>fh_facts := fh_facts h, fh_modified := fh_modified h\<rparr>) rows"

datatype update_error = Deadlock

text \<open>
  The rows and the outcomes of the attempts to come, where \<open>True\<close> is an \<open>OperationalError\<close>; an
  error is returned with the state it leaves.
\<close>

type_synonym fact_store = "fact_host list \<times> bool list"

fun try_update ::
  "nat \<Rightarrow> fact_host list \<Rightarrow> fact_store \<Rightarrow> (update_error \<times> fact_store) + fact_store" where
  "try_update 0 hs st = Inr st"
| "try_update (Suc k) hs (rows, outcomes) =
     (case outcomes of
        [] \<Rightarrow> Inr (raw_update_hosts hs rows, [])
      | failed # rest \<Rightarrow>
        (if failed then (if k = 0 then Inl (Deadlock, (rows, rest)) else try_update k hs (rows, rest))
         else Inr (raw_update_hosts hs rows, rest)))"

definition update_hosts :: "fact_host list \<Rightarrow> fact_store \<Rightarrow> (update_error \<times> fact_store) + fact_store" where
  "update_hosts hs st = (if hs = [] then Inr st else try_update 5 hs st)"

text \<open>What is read for one host: nothing, new facts, or the facts are cleared.\<close>

definition read_facts ::
  "cache_env \<Rightarrow> string \<Rightarrow> rat option \<Rightarrow> fact_files \<Rightarrow> fact_host \<Rightarrow> fact_host option" where
  "read_facts env destination write_time files h =
     (if \<not> inside env destination h then None
      else (case files (fact_path destination h) of
        Some (modified, text) \<Rightarrow>
          (if (case write_time of None \<Rightarrow> True | Some t \<Rightarrow> t = 0 \<or> modified > t)
           then (case loads (ce_reading env) text of None \<Rightarrow> None
             | Some v \<Rightarrow> Some (h\<lparr>fh_facts := v, fh_modified := Some (ce_now env (fh_id h))\<rparr>))
           else None)
      | None \<Rightarrow> Some (h\<lparr>fh_facts := JObj [], fh_modified := Some (ce_now env (fh_id h))\<rparr>)))"

fun finish_loop ::
  "cache_env \<Rightarrow> string \<Rightarrow> rat option \<Rightarrow> fact_files \<Rightarrow> fact_host list \<Rightarrow> fact_host list \<Rightarrow> fact_store
   \<Rightarrow> (update_error \<times> fact_store) + fact_store" where
  "finish_loop env destination write_time files [] pending st = update_hosts pending st"
| "finish_loop env destination write_time files (h # hs) pending st =
     (case read_facts env destination write_time files h of
        None \<Rightarrow> finish_loop env destination write_time files hs pending st
      | Some h' \<Rightarrow>
        (if length (pending @ [h']) > 100
         then and_then (update_hosts (pending @ [h']) st) (finish_loop env destination write_time files hs [])
         else finish_loop env destination write_time files hs (pending @ [h']) st))"

definition finish_fact_cache ::
  "cache_env \<Rightarrow> fact_host list \<Rightarrow> string \<Rightarrow> rat option \<Rightarrow> fact_files \<Rightarrow> fact_store
   \<Rightarrow> (update_error \<times> fact_store) + fact_store" where
  "finish_fact_cache env hosts destination write_time files st =
     finish_loop env destination write_time files hosts [] st"

section \<open>What is written\<close>

definition keeps_file :: "cache_env \<Rightarrow> string \<Rightarrow> rat option \<Rightarrow> fact_host \<Rightarrow> bool" where
  "keeps_file env destination timeout h \<longleftrightarrow>
     \<not> facts_expired env timeout h \<and> inside env destination h \<and> ce_writable env (fact_path destination h)"

lemma write_facts_eq:
  "write_facts env destination timeout h (files, l) =
     (if keeps_file env destination timeout h
      then (files(fact_path destination h \<mapsto> (ce_written env (fh_id h), dumps id (ce_real_text env) (fh_facts h))),
            Some (fact_path destination h))
      else (files, l))"
  by (simp add: write_facts_def keeps_file_def Let_def)

lemma fact_path_inj: "fact_path destination g = fact_path destination h \<longleftrightarrow> fh_name g = fh_name h"
  by (simp add: fact_path_def)

lemma written_files:
  assumes "distinct (map fh_name hosts)"
  shows "fst (fold (write_facts env destination timeout) hosts (files, l)) p =
    (case find (\<lambda>h. keeps_file env destination timeout h \<and> fact_path destination h = p) hosts of
       Some h \<Rightarrow> Some (ce_written env (fh_id h), dumps id (ce_real_text env) (fh_facts h)) | None \<Rightarrow> files p)"
  using assms
proof (induction hosts arbitrary: files l)
  case (Cons h hosts)
  have "find (\<lambda>g. keeps_file env destination timeout g \<and> fact_path destination g = fact_path destination h) hosts = None"
    using Cons.prems by (auto simp: find_None_iff fact_path_inj image_iff)
  then have none: "keeps_file env destination timeout h \<Longrightarrow> fact_path destination h = p \<Longrightarrow>
      find (\<lambda>g. keeps_file env destination timeout g \<and> fact_path destination g = p) hosts = None"
    by simp
  show ?case
  proof (cases "keeps_file env destination timeout h")
    case True
    let ?v = "(ce_written env (fh_id h), dumps id (ce_real_text env) (fh_facts h))"
    have d: "distinct (map fh_name hosts)"
      using Cons.prems by simp
    have step: "fold (write_facts env destination timeout) (h # hosts) (files, l) =
        fold (write_facts env destination timeout) hosts (files(fact_path destination h \<mapsto> ?v), Some (fact_path destination h))"
      using True by (simp add: write_facts_eq)
    have "fst (fold (write_facts env destination timeout) (h # hosts) (files, l)) p =
        (case find (\<lambda>g. keeps_file env destination timeout g \<and> fact_path destination g = p) hosts of
           Some g \<Rightarrow> Some (ce_written env (fh_id g), dumps id (ce_real_text env) (fh_facts g))
         | None \<Rightarrow> (files(fact_path destination h \<mapsto> ?v)) p)"
      unfolding step by (rule Cons.IH [OF d])
    then show ?thesis
      using True none by (cases "fact_path destination h = p") (auto split: option.split)
  next
    case False
    then show ?thesis
      using Cons.IH [of files l] Cons.prems by (simp add: write_facts_eq)
  qed
qed simp

lemma last_written:
  "snd (fold (write_facts env destination timeout) hosts (files, l)) =
    (case filter (keeps_file env destination timeout) hosts of [] \<Rightarrow> l | hs \<Rightarrow> Some (fact_path destination (last hs)))"
proof (induction hosts arbitrary: files l)
  case (Cons h hosts)
  then show ?case
    by (auto simp: write_facts_eq split: list.splits)
qed simp

section \<open>What is read back\<close>

lemma update_Inr:
  assumes "update_hosts hs (rows, outcomes) = Inr (rows', outcomes')"
  shows "rows' = raw_update_hosts hs rows"
proof -
  have "try_update k hs (rows, outcomes) = Inr (rows', outcomes') \<Longrightarrow> 0 < k \<Longrightarrow> rows' = raw_update_hosts hs rows" for k
    by (induction k hs "(rows, outcomes)" arbitrary: outcomes rule: try_update.induct) (auto split: list.splits if_splits)
  moreover have "raw_update_hosts [] rows = rows"
    by (simp add: raw_update_hosts_def)
  ultimately show ?thesis
    using assms by (auto simp: update_hosts_def split: if_splits)
qed

lemma raw_update_ids: "map fh_id (raw_update_hosts hs rows) = map fh_id rows"
  by (induction rows) (auto simp: raw_update_hosts_def split: option.splits)

definition update_row :: "fact_host list \<Rightarrow> fact_host \<Rightarrow> fact_host" where
  "update_row hs r = (case find (\<lambda>h. fh_id h = fh_id r) hs of
     None \<Rightarrow> r | Some h \<Rightarrow> r\<lparr>fh_facts := fh_facts h, fh_modified := fh_modified h\<rparr>)"

lemma raw_update_rows: "raw_update_hosts hs rows = map (update_row hs) rows"
  by (simp add: raw_update_hosts_def update_row_def)

lemma find_joined: "find P (hs @ gs) = (case find P hs of None \<Rightarrow> find P gs | Some h \<Rightarrow> Some h)"
  by (induction hs) auto

lemma update_row_append:
  assumes "distinct (map fh_id (hs @ gs))"
  shows "update_row gs (update_row hs r) = update_row (hs @ gs) r"
proof (cases "find (\<lambda>h. fh_id h = fh_id r) hs")
  case None
  then show ?thesis
    by (simp add: update_row_def find_joined)
next
  case (Some h)
  then have h: "h \<in> set hs" "fh_id h = fh_id r"
    by (auto simp: find_Some_iff)
  have "find (\<lambda>g. fh_id g = fh_id r) gs = None"
    using assms h by (auto simp: find_None_iff) (metis IntI emptyE image_eqI)
  then show ?thesis
    using Some by (simp add: update_row_def find_joined)
qed

lemma raw_update_append:
  "distinct (map fh_id (hs @ gs)) \<Longrightarrow> raw_update_hosts gs (raw_update_hosts hs rows) = raw_update_hosts (hs @ gs) rows"
  by (simp add: raw_update_rows update_row_append del: map_append)

text \<open>If no update fails for good, the rows take what was read, in one or in many batches.\<close>

definition read_all :: "cache_env \<Rightarrow> string \<Rightarrow> rat option \<Rightarrow> fact_files \<Rightarrow> fact_host list \<Rightarrow> fact_host list" where
  "read_all env destination write_time files hosts =
     List.map_filter (read_facts env destination write_time files) hosts"

lemma read_facts_id: "read_facts env destination write_time files h = Some h' \<Longrightarrow> fh_id h' = fh_id h"
  by (auto simp: read_facts_def split: if_splits option.splits)

lemma read_all_ids: "set (map fh_id (read_all env destination write_time files hosts)) \<subseteq> set (map fh_id hosts)"
  by (induction hosts) (auto simp: read_all_def List.map_filter_simps dest: read_facts_id split: option.splits)

lemma read_all_mem: "x \<in> set (read_all env destination write_time files hosts) \<Longrightarrow> \<exists>h \<in> set hosts. fh_id h = fh_id x"
  using read_all_ids [of env destination write_time files hosts] by (auto simp: image_iff) (metis image_eqI imageE subsetD)

lemma read_all_distinct:
  assumes "distinct (map fh_id hosts)"
  shows "distinct (map fh_id (read_all env destination write_time files hosts))"
  using assms
proof (induction hosts)
  case (Cons h hosts)
  have "fh_id h' \<notin> set (map fh_id (read_all env destination write_time files hosts))"
    if "read_facts env destination write_time files h = Some h'" for h'
    using Cons.prems read_facts_id [OF that] read_all_ids [of env destination write_time files hosts] by auto
  then show ?case
    using Cons by (auto simp: read_all_def List.map_filter_simps split: option.splits)
qed (simp add: read_all_def List.map_filter_simps)

lemma finish_loop_rows:
  assumes "distinct (map fh_id (pending @ hosts))"
    and "finish_loop env destination write_time files hosts pending (rows, outcomes) = Inr (rows', outcomes')"
  shows "rows' = raw_update_hosts (pending @ read_all env destination write_time files hosts) rows"
  using assms
proof (induction hosts arbitrary: pending rows outcomes)
  case Nil
  then show ?case
    using update_Inr by (auto simp: read_all_def List.map_filter_simps)
next
  case (Cons h hosts)
  show ?case
  proof (cases "read_facts env destination write_time files h")
    case None
    then show ?thesis
      using Cons.IH [of pending rows outcomes] Cons.prems by (simp add: read_all_def List.map_filter_simps)
  next
    case (Some h')
    have r: "read_all env destination write_time files (h # hosts) = h' # read_all env destination write_time files hosts"
      using Some by (simp add: read_all_def List.map_filter_simps)
    have id: "fh_id h' = fh_id h"
      using read_facts_id [OF Some] .
    show ?thesis
    proof (cases "length (pending @ [h']) > 100")
      case False
      then show ?thesis
        using Cons.IH [of "pending @ [h']" rows outcomes] Cons.prems Some r id by simp
    next
      case True
      obtain rows1 outcomes1 where u: "update_hosts (pending @ [h']) (rows, outcomes) = Inr (rows1, outcomes1)"
        and rest: "finish_loop env destination write_time files hosts [] (rows1, outcomes1) = Inr (rows', outcomes')"
        using Cons.prems(2) Some True by (cases "update_hosts (pending @ [h']) (rows, outcomes)") auto
      have "rows' = raw_update_hosts (read_all env destination write_time files hosts) (raw_update_hosts (pending @ [h']) rows)"
        using Cons.IH [OF _ rest] Cons.prems(1) update_Inr [OF u] by simp
      also have "\<dots> = raw_update_hosts ((pending @ [h']) @ read_all env destination write_time files hosts) rows"
      proof (rule raw_update_append)
        have "distinct (map fh_id (read_all env destination write_time files hosts))"
          using Cons.prems(1) by (intro read_all_distinct) simp
        then show "distinct (map fh_id ((pending @ [h']) @ read_all env destination write_time files hosts))"
          using Cons.prems(1) id by (auto simp: image_iff dest!: read_all_mem) (metis IntI emptyE image_eqI)
      qed
      finally show ?thesis
        using r by simp
    qed
  qed
qed

end
