(* ===== verification/Fact_Correct.thy ===== *)
theory Fact_Correct
  imports Fact_Cache
begin

text \<open>
  What a job does to the facts of its hosts: the rows after it, the facts that it must leave alone, and
  facts that it erases.
\<close>

section \<open>The rows after a job\<close>

definition with_facts :: "fact_host \<Rightarrow> fact_host \<Rightarrow> fact_host" where
  "with_facts h r = r\<lparr>fh_facts := fh_facts h, fh_modified := fh_modified h\<rparr>"

lemma find_read_all:
  assumes "distinct (map fh_id hosts)"
  shows "find (\<lambda>h. fh_id h = k) (read_all env destination write_time files hosts) =
    Option.bind (find (\<lambda>h. fh_id h = k) hosts) (read_facts env destination write_time files)"
  using assms
proof (induction hosts)
  case (Cons h hosts)
  have "find (\<lambda>h. fh_id h = k) (read_all env destination write_time files hosts) = None" if "fh_id h = k"
    using Cons.prems that by (auto simp: find_None_iff image_iff dest!: read_all_mem)
  then show ?case
    using Cons by (auto simp: read_all_def List.map_filter_simps dest: read_facts_id split: option.splits)
qed (simp add: read_all_def List.map_filter_simps)

text \<open>
  When saving succeeds, possibly after deadlocks and in batches, the row of every host of the job has
  what was read for it: the content of its file if that changed since the last file was written
  before the job, no facts if the file is gone, and else its old facts; the other rows are as before.
\<close>

theorem finished_facts_exact:
  assumes "distinct (map fh_id hosts)"
    and "finish_fact_cache env hosts destination write_time files (rows, outcomes) = Inr (rows', outcomes')"
  shows "rows' = map (\<lambda>r. case find (\<lambda>h. fh_id h = fh_id r) hosts of None \<Rightarrow> r
      | Some h \<Rightarrow> (case read_facts env destination write_time files h of None \<Rightarrow> r | Some h' \<Rightarrow> with_facts h' r)) rows"
proof -
  have "rows' = raw_update_hosts (read_all env destination write_time files hosts) rows"
    using finish_loop_rows [of "[]" hosts] assms by (simp add: finish_fact_cache_def)
  then show ?thesis
    by (auto simp: raw_update_hosts_def with_facts_def find_read_all [OF assms(1)] split: option.splits)
qed

section \<open>Facts that a job leaves alone\<close>

text \<open>The file of a host after the facts were written, and the time that is returned.\<close>

lemma started_file:
  assumes "distinct (map fh_name hosts)" "h \<in> set hosts" "keeps_file env destination timeout h"
  shows "fst (start_fact_cache env hosts destination timeout files) (fact_path destination h) =
    Some (ce_written env (fh_id h), dumps id (ce_real_text env) (fh_facts h))"
proof -
  have "find (\<lambda>g. keeps_file env destination timeout g \<and> fact_path destination g = fact_path destination h) hosts = Some h"
    using assms
  proof (induction hosts)
    case (Cons g hosts)
    then show ?case
      by (auto simp: fact_path_inj)
  qed simp
  then show ?thesis
    using written_files [OF assms(1), of env destination timeout files None "fact_path destination h"]
    by (auto simp: start_fact_cache_def split: prod.splits)
qed

lemma not_started_file:
  assumes "distinct (map fh_name hosts)" "h \<in> set hosts" "\<not> keeps_file env destination timeout h"
  shows "fst (start_fact_cache env hosts destination timeout files) (fact_path destination h) = files (fact_path destination h)"
proof -
  have "g = h" if "g \<in> set hosts" "fh_name g = fh_name h" for g
    using assms(1,2) that by (metis distinct_map inj_onD)
  then have "find (\<lambda>g. keeps_file env destination timeout g \<and> fact_path destination g = fact_path destination h) hosts = None"
    using assms(3) by (auto simp: find_None_iff fact_path_inj)
  then show ?thesis
    using written_files [OF assms(1), of env destination timeout files None "fact_path destination h"]
    by (auto simp: start_fact_cache_def split: prod.splits)
qed

lemma started_time:
  assumes "distinct (map fh_name hosts)" "filter (keeps_file env destination timeout) hosts \<noteq> []"
  shows "snd (start_fact_cache env hosts destination timeout files) =
    Some (ce_written env (fh_id (last (filter (keeps_file env destination timeout) hosts))))"
proof -
  let ?l = "last (filter (keeps_file env destination timeout) hosts)"
  have "?l \<in> set (filter (keeps_file env destination timeout) hosts)"
    using assms(2) last_in_set by blast
  then have l: "?l \<in> set hosts" "keeps_file env destination timeout ?l"
    by auto
  have "snd (fold (write_facts env destination timeout) hosts (files, None)) = Some (fact_path destination ?l)"
    using assms(2) by (simp add: last_written split: list.splits)
  then show ?thesis
    using started_file [OF assms(1) l, of files] by (auto simp: start_fact_cache_def split: prod.splits)
qed

lemma last_latest:
  assumes "sorted_wrt (\<lambda>g h. ce_written env (fh_id g) \<le> ce_written env (fh_id h)) hs" "h \<in> set hs"
  shows "ce_written env (fh_id h) \<le> ce_written env (fh_id (last hs))"
  using assms by (induction hs) auto

text \<open>
  C31. A job that does not touch the file of a host leaves its facts alone, if they are not expired and
  could be written: the row of the host is as it was before the job.
\<close>

theorem untouched_facts_kept:
  assumes "distinct (map fh_name hosts)" and "distinct (map fh_id hosts)"
    and "sorted_wrt (\<lambda>g h. ce_written env (fh_id g) \<le> ce_written env (fh_id h)) hosts"
    and "\<forall>h \<in> set hosts. 0 < ce_written env (fh_id h)"
    and "start_fact_cache env hosts destination timeout files = (files1, write_time)"
    and "h \<in> set hosts" and "keeps_file env destination timeout h"
    and "files2 (fact_path destination h) = files1 (fact_path destination h)"
    and "finish_fact_cache env' hosts destination write_time files2 (rows, outcomes) = Inr (rows', outcomes')"
    and "r \<in> set rows" and "fh_id r = fh_id h"
  shows "r \<in> set rows'"
proof -
  let ?keep = "filter (keeps_file env destination timeout) hosts"
  have "h \<in> set ?keep"
    using assms(6,7) by simp
  then have ne: "?keep \<noteq> []"
    by (metis empty_iff list.set(1))
  have wt: "write_time = Some (ce_written env (fh_id (last ?keep)))"
    using started_time [OF assms(1) ne, of files] assms(5) by simp
  have "last ?keep \<in> set ?keep"
    using ne by (rule last_in_set)
  then have pos: "0 < ce_written env (fh_id (last ?keep))"
    using assms(4) by simp
  have "ce_written env (fh_id h) \<le> ce_written env (fh_id (last ?keep))"
    using last_latest [OF sorted_wrt_filter [OF assms(3)] \<open>h \<in> set ?keep\<close>] .
  moreover have "files2 (fact_path destination h) = Some (ce_written env (fh_id h), dumps id (ce_real_text env) (fh_facts h))"
    using started_file [OF assms(1,6,7), of files] assms(5,8) by simp
  ultimately have "read_facts env' destination write_time files2 h = None"
    using pos by (simp add: read_facts_def wt)
  moreover have "find (\<lambda>g. fh_id g = fh_id r) hosts = Some h"
    using assms(2,6,11) by (induction hosts) auto
  ultimately show ?thesis
    using finished_facts_exact [OF assms(2,9)] assms(10) by (force simp: image_iff)
qed

section \<open>Facts that a job erases\<close>

text \<open>
  C34. A job erases the facts of every host of its inventory whose facts have expired and for which it
  leaves no file, as when it never runs on the host or does not gather facts there: no file is written
  for expired facts before the job, and after it a missing file is taken for facts that the playbook
  has cleared. This holds whatever the job writes for other hosts, in whatever batches the rows are
  saved, and at any later time (\<open>env'\<close>), for names whose file lies in the directory.
\<close>

theorem expired_facts_erased:
  assumes "distinct (map fh_name hosts)" and "distinct (map fh_id hosts)"
    and "start_fact_cache env hosts destination timeout files = (files1, write_time)"
    and "h \<in> set hosts" and "facts_expired env timeout h" and "inside env' destination h"
    and "files (fact_path destination h) = None"
    and "files2 (fact_path destination h) = files1 (fact_path destination h)"
    and "finish_fact_cache env' hosts destination write_time files2 (rows, outcomes) = Inr (rows', outcomes')"
    and "r \<in> set rows" and "fh_id r = fh_id h"
  shows "r\<lparr>fh_facts := JObj [], fh_modified := Some (ce_now env' (fh_id h))\<rparr> \<in> set rows'"
proof -
  have "\<not> keeps_file env destination timeout h"
    using assms(5) by (simp add: keeps_file_def)
  then have "files2 (fact_path destination h) = None"
    using not_started_file [OF assms(1,4), of env destination timeout files] assms(3,7,8) by simp
  then have "read_facts env' destination write_time files2 h = Some (h\<lparr>fh_facts := JObj [], fh_modified := Some (ce_now env' (fh_id h))\<rparr>)"
    using assms(6) by (simp add: read_facts_def)
  moreover have "find (\<lambda>g. fh_id g = fh_id r) hosts = Some h"
    using assms(2,4,11) by (induction hosts) auto
  ultimately show ?thesis
    using finished_facts_exact [OF assms(2,9)] assms(10) by (force simp: with_facts_def image_iff)
qed

section \<open>Examples\<close>

definition cache_example_env :: cache_env where
  "cache_example_env = \<lparr>ce_realpath = id, ce_writable = (\<lambda>_. True), ce_real_text = (\<lambda>_. ''0.5''),
     ce_reading = \<lparr>rd_number = (\<lambda>_. JNull), rd_char = (\<lambda>_. CHR ''?'')\<rparr>,
     ce_now = (\<lambda>_. 1000), ce_written = (\<lambda>_. 1000), ce_timeout = 600\<rparr>"

definition cache_example_hosts :: "fact_host list" where
  "cache_example_hosts =
     [\<lparr>fh_id = 1, fh_name = ''a'', fh_facts = JObj [(''k'', JBool True)], fh_modified = Some 900\<rparr>,
      \<lparr>fh_id = 2, fh_name = ''b'', fh_facts = JObj [(''k'', JNull)], fh_modified = Some 100\<rparr>]"

lemmas cache_example_defs = cache_example_env_def cache_example_hosts_def

definition cache_example_files :: fact_files where
  "cache_example_files = fst (start_fact_cache cache_example_env cache_example_hosts ''/f'' None (\<lambda>_. None))"

lemma cache_example_kept:
  "keeps_file cache_example_env ''/f'' None (cache_example_hosts ! 0)"
  "facts_expired cache_example_env None (cache_example_hosts ! 1)"
  "inside cache_example_env ''/f'' (cache_example_hosts ! 1)"
  by (simp_all add: keeps_file_def facts_expired_def inside_def startswith_def fact_path_def cache_example_defs)

lemma cache_example_distinct:
  "distinct (map fh_name cache_example_hosts)" "distinct (map fh_id cache_example_hosts)"
  "cache_example_hosts ! 0 \<in> set cache_example_hosts" "cache_example_hosts ! 1 \<in> set cache_example_hosts"
  by (simp_all add: cache_example_hosts_def)

lemma cache_example_started:
  "start_fact_cache cache_example_env cache_example_hosts ''/f'' None (\<lambda>_. None) = (cache_example_files, Some 1000)"
proof -
  have keep: "filter (keeps_file cache_example_env ''/f'' None) cache_example_hosts = [cache_example_hosts ! 0]"
    using cache_example_kept(1,2) by (simp add: cache_example_hosts_def keeps_file_def)
  have "snd (start_fact_cache cache_example_env cache_example_hosts ''/f'' None (\<lambda>_. None)) = Some 1000"
    using started_time [OF cache_example_distinct(1), of cache_example_env "''/f''" None "\<lambda>_. None"]
    unfolding keep by (simp add: cache_example_env_def)
  then show ?thesis
    by (simp add: cache_example_files_def prod_eq_iff)
qed

lemma update_returns: "\<exists>rows'. update_hosts hs (rows, []) = Inr (rows', [])"
  by (simp add: update_hosts_def eval_nat_numeral)

lemma loop_returns: "\<exists>rows'. finish_loop env destination write_time files hosts pending (rows, []) = Inr (rows', [])"
proof (induction hosts arbitrary: pending rows)
  case Nil
  then show ?case
    by (simp add: update_returns)
next
  case (Cons h hosts)
  then show ?case
    using update_returns [of "pending @ [h']" rows for h'] 
    by (auto split: option.splits) (metis and_then_simps(2) update_returns)
qed

lemma cache_example_finished:
  "\<exists>rows'. finish_fact_cache cache_example_env cache_example_hosts ''/f'' (Some 1000) cache_example_files
     (cache_example_hosts, []) = Inr (rows', [])"
  unfolding finish_fact_cache_def by (rule loop_returns)

lemma untouched_facts_kept_witness:
  "\<exists>rows'. finish_fact_cache cache_example_env cache_example_hosts ''/f'' (Some 1000) cache_example_files
     (cache_example_hosts, []) = Inr (rows', []) \<and> cache_example_hosts ! 0 \<in> set rows'"
proof -
  obtain rows' where f: "finish_fact_cache cache_example_env cache_example_hosts ''/f'' (Some 1000) cache_example_files
      (cache_example_hosts, []) = Inr (rows', [])"
    using cache_example_finished by blast
  have "cache_example_hosts ! 0 \<in> set rows'"
    by (rule untouched_facts_kept [OF cache_example_distinct(1,2) _ _ cache_example_started cache_example_distinct(3)
          cache_example_kept(1) refl f cache_example_distinct(3) refl])
      (simp_all add: cache_example_defs)
  then show ?thesis
    using f by blast
qed

text \<open>The job gathers new facts for the first host only; the second one's were expired.\<close>

definition cache_example_after :: fact_files where
  "cache_example_after = cache_example_files(''/f/a'' \<mapsto> (1500, ''{}''))"

definition cache_example_later :: cache_env where
  "cache_example_later = cache_example_env\<lparr>ce_now := (\<lambda>_. 2000)\<rparr>"

lemma expired_facts_erased_witness:
  "\<exists>rows'. finish_fact_cache cache_example_later cache_example_hosts ''/f'' (Some 1000) cache_example_after
     (cache_example_hosts, []) = Inr (rows', []) \<and>
     (cache_example_hosts ! 1)\<lparr>fh_facts := JObj [], fh_modified := Some 2000\<rparr> \<in> set rows'"
proof -
  obtain rows' where f: "finish_fact_cache cache_example_later cache_example_hosts ''/f'' (Some 1000) cache_example_after
      (cache_example_hosts, []) = Inr (rows', [])"
    unfolding finish_fact_cache_def using loop_returns by blast
  have i: "inside cache_example_later ''/f'' (cache_example_hosts ! 1)"
    using cache_example_kept(3) by (simp add: inside_def cache_example_later_def)
  have "fact_path ''/f'' (cache_example_hosts ! 1) = ''/f/b''"
    by (simp add: fact_path_def cache_example_hosts_def)
  then have same: "cache_example_after (fact_path ''/f'' (cache_example_hosts ! 1)) =
      cache_example_files (fact_path ''/f'' (cache_example_hosts ! 1))"
    by (simp add: cache_example_after_def)
  have "(cache_example_hosts ! 1)\<lparr>fh_facts := JObj [],
      fh_modified := Some (ce_now cache_example_later (fh_id (cache_example_hosts ! 1)))\<rparr> \<in> set rows'"
    by (rule expired_facts_erased [OF cache_example_distinct(1,2) cache_example_started cache_example_distinct(4)
        cache_example_kept(2) i refl same f cache_example_distinct(4) refl])
  with f show ?thesis by (simp add: cache_example_later_def)
qed

lemma finished_facts_exact_witness:
  "\<exists>rows'. finish_fact_cache cache_example_env cache_example_hosts ''/f'' (Some 1000) cache_example_files
     (cache_example_hosts, []) = Inr (rows', []) \<and> length rows' = 2"
proof -
  obtain rows' where f: "finish_fact_cache cache_example_env cache_example_hosts ''/f'' (Some 1000) cache_example_files
      (cache_example_hosts, []) = Inr (rows', [])"
    using cache_example_finished by blast
  show ?thesis
    using f arg_cong [OF finished_facts_exact [OF cache_example_distinct(2) f], of length]
    by (simp add: cache_example_hosts_def)
qed

end
