(* ===== verification/Outbound_Webhooks.thy ===== *)
theory Outbound_Webhooks
  imports Event_Runs Json_Text
begin

text \<open>
  Outbound webhooks (\<open>OutboundWebhook\<close> of \<open>main/models/eda.py\<close>, the senders of \<open>main/tasks/eda.py\<close>): which
  webhooks hear of a change of a job, what is posted to them, and what is noted of the result. The
  HTTP client, the digest, the clock and the rendering of floats are arguments; custom headers have
  texts as values. A request reaches a server with its headers named as WSGI names them.
\<close>

section \<open>Rows\<close>

datatype sent_status = NeverSent | SentSuccess | SentFailed

record outbound_webhook =
  ow_id :: pk
  ow_organization :: "pk option"
  ow_url :: string
  ow_key :: string
  ow_events :: json
  ow_headers :: "(string \<times> string) list"
  ow_enabled :: bool
  ow_verify :: bool
  ow_last_status :: sent_status
  ow_last_sent :: "rat option"
  ow_last_error :: string

datatype job_class = PlainJob | WorkflowJobClass | OtherJobClass string

record webhook_job =
  wj_id :: pk
  wj_name :: string
  wj_status :: string
  wj_class :: job_class
  wj_started :: "string option"
  wj_finished :: "string option"
  wj_elapsed :: "rat option"
  wj_launch_type :: string
  wj_execution_node :: string
  wj_organization :: "pk option"

record post_request =
  pq_url :: string
  pq_body :: string
  pq_headers :: "(string \<times> string) list"
  pq_verify :: bool

text \<open>\<open>oe_post\<close> is \<open>requests.post\<close> with \<open>raise_for_status\<close>: the text of the exception, if there is one.\<close>

record outbound_env =
  oe_hmac :: "string \<Rightarrow> string \<Rightarrow> string \<Rightarrow> string"
  oe_real_text :: "rat \<Rightarrow> string"
  oe_post :: "post_request \<Rightarrow> string option"

record outbound_world =
  ox_hooks :: "outbound_webhook list"
  ox_queue :: "(pk \<times> json) list"
  ox_posts :: "(pk \<times> post_request) list"

section \<open>Events\<close>

definition event_choices :: "string list" where
  "event_choices = [''job.started'', ''job.succeeded'', ''job.failed'', ''job.canceled'', ''workflow.started'',
     ''workflow.succeeded'', ''workflow.failed'']"

definition status_to_event :: "(string \<times> string) list" where
  "status_to_event = [(''running'', ''started''), (''succeeded'', ''succeeded''), (''failed'', ''failed'')]"

definition outbound_event_type :: "webhook_job \<Rightarrow> string \<Rightarrow> string option" where
  "outbound_event_type j status =
     (let prefix = (case wj_class j of WorkflowJobClass \<Rightarrow> Some ''workflow'' | PlainJob \<Rightarrow> Some ''job'' | OtherJobClass _ \<Rightarrow> None)
      in case prefix of None \<Rightarrow> None
         | Some p \<Rightarrow> (case map_of status_to_event status of None \<Rightarrow> None
           | Some s0 \<Rightarrow>
             (let s = (if s0 = ''failed'' \<and> wj_status j = ''canceled'' then ''canceled'' else s0);
                  event = p @ ''.'' @ s
              in if event \<in> set event_choices then Some event else None)))"

text \<open>\<open>event_type in (w.events or [])\<close>; \<open>None\<close> is the \<open>TypeError\<close> of a value without members.\<close>

definition wants_event :: "json \<Rightarrow> string \<Rightarrow> bool option" where
  "wants_event events e =
     (if \<not> json_true events then Some False
      else case events of
        JList xs \<Rightarrow> Some (JStr e \<in> set xs)
      | JObj d \<Rightarrow> Some (e \<in> fst ` set d)
      | JStr s \<Rightarrow> Some (contains_sub s e)
      | _ \<Rightarrow> None)"

definition class_name :: "job_class \<Rightarrow> string" where
  "class_name c = (case c of PlainJob \<Rightarrow> ''Job'' | WorkflowJobClass \<Rightarrow> ''WorkflowJob'' | OtherJobClass n \<Rightarrow> n)"

definition text_or_null :: "string option \<Rightarrow> json" where
  "text_or_null t = (case t of None \<Rightarrow> JNull | Some s \<Rightarrow> JStr s)"

definition job_data :: "string \<Rightarrow> webhook_job \<Rightarrow> string \<Rightarrow> json" where
  "job_data timestamp j event =
     JObj [(''event_type'', JStr event), (''timestamp'', JStr timestamp),
       (''job'', JObj [(''id'', JInt (int (wj_id j))), (''name'', JStr (wj_name j)), (''status'', JStr (wj_status j)),
          (''type'', JStr (class_name (wj_class j))), (''started'', text_or_null (wj_started j)),
          (''finished'', text_or_null (wj_finished j)),
          (''elapsed'', case wj_elapsed j of None \<Rightarrow> JNull | Some r \<Rightarrow> JFloat r),
          (''launch_type'', JStr (wj_launch_type j)), (''execution_node'', JStr (wj_execution_node j))])]"

text \<open>
  \<open>dispatch_outbound_webhooks\<close>: the sends are queued when the transaction commits; \<open>None\<close> is an
  exception, which the caller logs.
\<close>

definition outbound_candidates :: "webhook_job \<Rightarrow> outbound_world \<Rightarrow> outbound_webhook list" where
  "outbound_candidates j w =
     filter (\<lambda>h. ow_enabled h \<and> (ow_organization h = wj_organization j \<or> ow_organization h = None)) (ox_hooks w)"

definition dispatch_outbound_webhooks ::
  "string \<Rightarrow> webhook_job \<Rightarrow> string \<Rightarrow> outbound_world \<Rightarrow> outbound_world option" where
  "dispatch_outbound_webhooks timestamp j event w =
     (let candidates = outbound_candidates j w in
      if list_ex (\<lambda>h. wants_event (ow_events h) event = None) candidates then None
      else Some (w\<lparr>ox_queue := ox_queue w @
        map (\<lambda>h. (ow_id h, job_data timestamp j event))
          (filter (\<lambda>h. wants_event (ow_events h) event = Some True) candidates)\<rparr>))"

text \<open>The part of \<open>send_notification_templates\<close> that tells the webhooks.\<close>

definition notify_webhooks :: "string \<Rightarrow> webhook_job \<Rightarrow> string \<Rightarrow> outbound_world \<Rightarrow> outbound_world" where
  "notify_webhooks timestamp j status w =
     (case outbound_event_type j status of None \<Rightarrow> w
      | Some event \<Rightarrow> (case dispatch_outbound_webhooks timestamp j event w of None \<Rightarrow> w | Some w' \<Rightarrow> w'))"

section \<open>Sending\<close>

definition outbound_headers :: "outbound_env \<Rightarrow> outbound_webhook \<Rightarrow> string \<Rightarrow> (string \<times> string) list" where
  "outbound_headers env h body =
     (let h1 = AList.update ''Content-Type'' ''application/json'' (ow_headers h)
      in if ow_key h \<noteq> []
         then AList.update ''X-Forail-Signature'' (''sha256='' @ oe_hmac env ''sha256'' (ow_key h) body) h1
         else h1)"

definition outbound_request :: "outbound_env \<Rightarrow> outbound_webhook \<Rightarrow> json \<Rightarrow> post_request" where
  "outbound_request env h data =
     (let body = dumps id (oe_real_text env) data
      in \<lparr>pq_url = ow_url h, pq_body = body, pq_headers = outbound_headers env h body, pq_verify = ow_verify h\<rparr>)"

definition note_result :: "rat \<Rightarrow> string option \<Rightarrow> outbound_webhook \<Rightarrow> outbound_webhook" where
  "note_result now err h =
     (case err of
        None \<Rightarrow> h\<lparr>ow_last_status := SentSuccess, ow_last_sent := Some now, ow_last_error := []\<rparr>
      | Some e \<Rightarrow> h\<lparr>ow_last_status := SentFailed, ow_last_sent := Some now, ow_last_error := take 1000 e\<rparr>)"

definition send_outbound_webhook :: "outbound_env \<Rightarrow> rat \<Rightarrow> pk \<Rightarrow> json \<Rightarrow> outbound_world \<Rightarrow> outbound_world" where
  "send_outbound_webhook env now i data w =
     (case find (\<lambda>h. ow_id h = i) (ox_hooks w) of None \<Rightarrow> w
      | Some h \<Rightarrow>
        (if \<not> ow_enabled h then w
         else (let q = outbound_request env h data in
           w\<lparr>ox_posts := ox_posts w @ [(i, q)],
             ox_hooks := map (\<lambda>x. if ow_id x = i then note_result now (oe_post env q) x else x) (ox_hooks w)\<rparr>)))"

section \<open>Who hears of a job\<close>

text \<open>
  A change of a job is told exactly to the enabled webhooks of the job's organization and of no
  organization that ask for the event, and what is queued for them is the data of this job; a
  change that has no event, or an unreadable list of events, queues nothing.
\<close>

theorem outbound_scoped:
  "(i, data) \<in> set (ox_queue (notify_webhooks timestamp j status w)) \<longleftrightarrow>
     (i, data) \<in> set (ox_queue w) \<or>
     (\<exists>event. outbound_event_type j status = Some event \<and> data = job_data timestamp j event \<and>
        (\<forall>h \<in> set (outbound_candidates j w). wants_event (ow_events h) event \<noteq> None) \<and>
        (\<exists>h \<in> set (ox_hooks w). ow_id h = i \<and> ow_enabled h \<and> wants_event (ow_events h) event = Some True \<and>
           (ow_organization h = None \<or> ow_organization h = wj_organization j)))"
proof (cases "outbound_event_type j status")
  case None
  then show ?thesis
    by (simp add: notify_webhooks_def)
next
  case (Some event)
  show ?thesis
  proof (cases "list_ex (\<lambda>h. wants_event (ow_events h) event = None) (outbound_candidates j w)")
    case True
    then show ?thesis
      using Some by (auto simp: notify_webhooks_def dispatch_outbound_webhooks_def Let_def list_ex_iff)
  next
    case False
    then have ok: "\<forall>h \<in> set (outbound_candidates j w). wants_event (ow_events h) event \<noteq> None"
      by (auto simp: list_ex_iff)
    have "(i, data) \<in> set (ox_queue (notify_webhooks timestamp j status w)) \<longleftrightarrow> (i, data) \<in> set (ox_queue w) \<or>
        (\<exists>h \<in> set (outbound_candidates j w). wants_event (ow_events h) event = Some True \<and> ow_id h = i \<and>
          data = job_data timestamp j event)"
      using Some False by (auto simp: notify_webhooks_def dispatch_outbound_webhooks_def Let_def)
    then show ?thesis
      using Some ok by (auto simp: outbound_candidates_def)
  qed
qed

section \<open>From a webhook to a rule\<close>

text \<open>The name under which a server finds a header of a request.\<close>

definition wsgi_name :: "string \<Rightarrow> string" where
  "wsgi_name k = (let n = map (\<lambda>c. if c = CHR ''-'' then CHR ''_'' else c) (upper_case k)
     in if n = ''CONTENT_TYPE'' \<or> n = ''CONTENT_LENGTH'' then n else ''HTTP_'' @ n)"

definition received_meta :: "post_request \<Rightarrow> (string \<times> string) list" where
  "received_meta q = map (\<lambda>(k, v). (wsgi_name k, v)) (pq_headers q)"

lemma wsgi_signature: "wsgi_name ''X-Forail-Signature'' = ''HTTP_X_FORAIL_SIGNATURE''"
  "wsgi_name ''Content-Type'' = ''CONTENT_TYPE''"
  by (simp_all add: wsgi_name_def upper_case_def char_of_def bit_0)

lemma map_of_mapped_key:
  assumes "(k, v) \<in> set d" "distinct (map fst d)" "\<forall>x \<in> set d. f (fst x) = f k \<longrightarrow> fst x = k"
  shows "map_of (map (\<lambda>(k, v). (f k, v)) d) (f k) = Some v"
  using assms
proof (induction d)
  case (Cons x d)
  obtain a b where x: "x = (a, b)"
    by (cases x)
  show ?case
  proof (cases "a = k")
    case True
    then have "b = v"
      using Cons.prems(1,2) x by (auto simp: rev_image_eqI)
    then show ?thesis
      using True x by simp
  next
    case False
    then have "f a \<noteq> f k"
      using Cons.prems(3) x by auto
    then show ?thesis
      using Cons False x by auto
  qed
qed simp

text \<open>
  C25. What one server posts another accepts: a webhook and a generic rule that share their key agree
  on the signature, for every body and whatever headers are added, as long as none of them
  takes the place of the signature.
\<close>

theorem outbound_accepted:
  assumes "ow_key h \<noteq> []" and "er_key r = ow_key h" and "er_source r \<noteq> GitHub" and "er_source r \<noteq> GitLab"
    and "ee_hmac env' = oe_hmac env" and "distinct (map fst (ow_headers h))"
    and "\<forall>(k, v) \<in> set (ow_headers h). wsgi_name k = ''HTTP_X_FORAIL_SIGNATURE'' \<longrightarrow> k = ''X-Forail-Signature''"
  shows "check_signature env' r (pq_body (outbound_request env h data))
    (relevant_headers (received_meta (outbound_request env h data))) = Inr ()"
proof -
  define body where "body = dumps id (oe_real_text env) data"
  define sig where "sig = ''sha256='' @ oe_hmac env ''sha256'' (ow_key h) body"
  let ?hs = "outbound_headers env h body"
  have hs: "?hs = AList.update ''X-Forail-Signature'' sig (AList.update ''Content-Type'' ''application/json'' (ow_headers h))"
    using assms(1) by (simp add: outbound_headers_def sig_def)
  have d: "distinct (map fst ?hs)"
    unfolding hs by (intro distinct_update assms(6))
  have "map_of ?hs ''X-Forail-Signature'' = Some sig"
    unfolding hs by simp
  then have m: "(''X-Forail-Signature'', sig) \<in> set ?hs"
    by (rule map_of_SomeD)
  have only: "\<forall>x \<in> set ?hs. wsgi_name (fst x) = wsgi_name ''X-Forail-Signature'' \<longrightarrow> fst x = ''X-Forail-Signature''"
  proof (intro ballI impI)
    fix x assume x: "x \<in> set ?hs" "wsgi_name (fst x) = wsgi_name ''X-Forail-Signature''"
    have "fst ` set ?hs = insert ''X-Forail-Signature'' (insert ''Content-Type'' (fst ` set (ow_headers h)))"
      unfolding hs by (simp add: fst_set_AList_update)
    then consider "fst x = ''X-Forail-Signature''" | "fst x = ''Content-Type''" | "fst x \<in> fst ` set (ow_headers h)"
      using x(1) by blast
    then show "fst x = ''X-Forail-Signature''"
    proof cases
      case 2
      then show ?thesis
        using x(2) by (simp add: wsgi_signature)
    next
      case 3
      then obtain y where "y \<in> set (ow_headers h)" "fst y = fst x"
        by auto
      then show ?thesis
        using assms(7) x(2) unfolding wsgi_signature(1) by (cases y) auto
    qed
  qed
  have "map_of (received_meta (outbound_request env h data)) ''HTTP_X_FORAIL_SIGNATURE'' = Some sig"
    using map_of_mapped_key [OF m d only] unfolding wsgi_signature
    by (simp add: received_meta_def outbound_request_def Let_def body_def)
  then have "dict_get (relevant_headers (received_meta (outbound_request env h data))) ''X-Forail-Signature'' [] = sig"
    unfolding relevant_get by (simp add: dict_get_def)
  moreover have "sig \<noteq> []" "CHR ''='' \<in> set sig" "snd (split_signature sig) = oe_hmac env ''sha256'' (ow_key h) body"
    by (simp_all add: sig_def split_signature_def)
  moreover have "pq_body (outbound_request env h data) = body"
    by (simp add: outbound_request_def Let_def body_def)
  ultimately show ?thesis
    using assms(1-5) by (simp add: check_signature_def check_generic_signature_def Let_def)
qed

section \<open>Examples\<close>

definition hook_example :: outbound_webhook where
  "hook_example = \<lparr>ow_id = 1, ow_organization = Some 4, ow_url = ''https://other/hook'', ow_key = ''key'',
     ow_events = JList [JStr ''job.failed''], ow_headers = [(''X-Team'', ''a'')], ow_enabled = True, ow_verify = True,
     ow_last_status = NeverSent, ow_last_sent = None, ow_last_error = []\<rparr>"

definition hook_env :: outbound_env where
  "hook_env = \<lparr>oe_hmac = ee_hmac example_eda, oe_real_text = (\<lambda>_. ''0.5''), oe_post = (\<lambda>_. None)\<rparr>"

lemma outbound_accepted_witness:
  "check_signature example_eda (example_rule Generic 0) (pq_body (outbound_request hook_env hook_example (JStr ''x'')))
    (relevant_headers (received_meta (outbound_request hook_env hook_example (JStr ''x'')))) = Inr ()"
  by (rule outbound_accepted)
    (simp_all add: hook_example_def hook_env_def example_rule_def wsgi_name_def upper_case_def char_of_def bit_0)

definition failed_job :: webhook_job where
  "failed_job = \<lparr>wj_id = 8, wj_name = ''deploy'', wj_status = ''failed'', wj_class = PlainJob, wj_started = None,
     wj_finished = None, wj_elapsed = None, wj_launch_type = ''manual'', wj_execution_node = ''n1'',
     wj_organization = Some 4\<rparr>"

definition hook_world :: outbound_world where
  "hook_world = \<lparr>ox_hooks = [hook_example, hook_example\<lparr>ow_id := 2, ow_organization := Some 5\<rparr>], ox_queue = [], ox_posts = []\<rparr>"

lemma failed_job_event: "outbound_event_type failed_job ''failed'' = Some ''job.failed''"
  by (simp add: outbound_event_type_def failed_job_def status_to_event_def event_choices_def)

lemma outbound_scoped_witness:
  "(1, job_data ''now'' failed_job ''job.failed'') \<in> set (ox_queue (notify_webhooks ''now'' failed_job ''failed'' hook_world)) \<and>
   (2, job_data ''now'' failed_job ''job.failed'') \<notin> set (ox_queue (notify_webhooks ''now'' failed_job ''failed'' hook_world))"
  unfolding outbound_scoped failed_job_event
  by (simp add: outbound_candidates_def hook_world_def hook_example_def failed_job_def wants_event_def)

end
