(* ===== verification/Schedules.thy ===== *)
theory Schedules
  imports Job_Launch "HOL-Library.Product_Lexorder"
begin

text \<open>
  Schedules and the periodic scheduler (\<open>main/models/schedules.py\<close>, \<open>awx_periodic_scheduler\<close> in
  \<open>main/tasks/system.py\<close>): the computed fields of a schedule and of its template, the runs of the
  scheduler, and the jobs they spawn. Instants are microseconds. Arguments: what the package of recurrence
  rules makes of the text of a rule at a time, the clock, the licence, the lock, and the tools of a launch.
  Of the prompts of a schedule the variables are modelled.
\<close>

section \<open>Data\<close>

text \<open>
  A rule set: the first occurrence after an instant, with whether its local time exists (it may fall into the
  hour that the clocks skip); the first occurrence and the last (\<open>None\<close> is \<open>IndexError\<close>); for every rule, whether
  it has an end or a count.
\<close>

record ruleset =
  rs_after :: "int \<Rightarrow> (int \<times> bool) option"
  rs_first :: "int option"
  rs_last :: "int option"
  rs_ending :: "bool list"

record schedule =
  sc_id :: pk
  sc_template :: pk
  sc_enabled :: bool
  sc_rrule :: string
  sc_next_run :: "int option"
  sc_dtstart :: "int option"
  sc_dtend :: "int option"
  sc_extra_data :: json
  sc_survey_passwords :: "string list"

text \<open>What a template starts; updates of projects and inventories keep a time to live
  in seconds, a system job may be one of the two cleanups that count days.\<close>

datatype scheduled_kind = StartsJobs | StartsWorkflows | UpdatesProject int | UpdatesInventory int | StartsSystemJobs bool

record unified_template =
  ut_id :: pk
  ut_kind :: scheduled_kind
  ut_launch :: launchable
  ut_last_job_run :: "int option"
  ut_next_schedule :: "pk option"
  ut_next_job_run :: "int option"

text \<open>The tables; the origins say from which schedule a job comes, the emitted ids which schedules clients hear of.\<close>

record schedule_state =
  sd_last_run :: int
  sd_schedules :: "schedule list"
  sd_templates :: "unified_template list"
  sd_store :: job_store
  sd_origins :: "(pk \<times> pk) list"
  sd_explanations :: "(pk \<times> string) list"
  sd_emitted :: "pk list"

record scheduler_env =
  en_rule :: "string \<Rightarrow> int \<Rightarrow> ruleset option"
  en_tools :: launch_tools
  en_parsers :: parsers
  en_max_jobs :: nat
  en_invalid_license :: "string option"

section \<open>Queries\<close>

definition enabled_schedules :: "schedule list \<Rightarrow> schedule list" where
  "enabled_schedules ss = filter sc_enabled ss"

definition schedules_before :: "int \<Rightarrow> schedule list \<Rightarrow> schedule list" where
  "schedules_before dt ss = filter (\<lambda>s. case sc_next_run s of None \<Rightarrow> False | Some r \<Rightarrow> r < dt) ss"

definition schedules_after :: "int \<Rightarrow> schedule list \<Rightarrow> schedule list" where
  "schedules_after dt ss = filter (\<lambda>s. case sc_next_run s of None \<Rightarrow> False | Some r \<Rightarrow> r > dt) ss"

definition schedules_between :: "int \<Rightarrow> int \<Rightarrow> schedule list \<Rightarrow> schedule list" where
  "schedules_between begin_dt end_dt ss = schedules_before end_dt (schedules_after begin_dt ss)"

text \<open>\<open>ordering\<close> of the class: the latest next run first, none last, then by id.\<close>

definition ordering_key :: "schedule \<Rightarrow> nat \<times> int \<times> pk" where
  "ordering_key s = (case sc_next_run s of None \<Rightarrow> (1, 0, sc_id s) | Some r \<Rightarrow> (0, - r, sc_id s))"

definition in_order :: "schedule list \<Rightarrow> schedule list" where
  "in_order ss = sort_key ordering_key ss"

definition find_schedule :: "pk \<Rightarrow> schedule_state \<Rightarrow> schedule option" where
  "find_schedule k d = find (\<lambda>s. sc_id s = k) (sd_schedules d)"

definition find_unified :: "pk \<Rightarrow> schedule_state \<Rightarrow> unified_template option" where
  "find_unified k d = find (\<lambda>t. ut_id t = k) (sd_templates d)"

definition put_schedule :: "schedule \<Rightarrow> schedule_state \<Rightarrow> schedule_state" where
  "put_schedule s d = d\<lparr>sd_schedules := map (\<lambda>x. if sc_id x = sc_id s then s else x) (sd_schedules d)\<rparr>"

section \<open>Computed fields\<close>

text \<open>
  \<open>UnifiedJobTemplate.update_computed_fields\<close>: the schedule at the head of the order \<open>-next_run\<close>. The
  columns that the save also refreshes are not modelled.
\<close>

definition related_schedules :: "pk \<Rightarrow> schedule_state \<Rightarrow> schedule list" where
  "related_schedules k d =
     sort_key (\<lambda>s. - the (sc_next_run s))
       (filter (\<lambda>s. sc_template s = k \<and> sc_enabled s \<and> sc_next_run s \<noteq> None) (sd_schedules d))"

definition update_template_fields :: "pk \<Rightarrow> schedule_state \<Rightarrow> schedule_state" where
  "update_template_fields k d =
     (case related_schedules k d of [] \<Rightarrow> d
      | s # _ \<Rightarrow>
        d\<lparr>sd_templates := map (\<lambda>t. if ut_id t = k
             then t\<lparr>ut_next_schedule := Some (sc_id s), ut_next_job_run := sc_next_run s\<rparr> else t) (sd_templates d)\<rparr>)"

definition get_end_date :: "ruleset \<Rightarrow> int option" where
  "get_end_date rs = (if \<not> list_all (\<lambda>b. b) (rs_ending rs) then None else rs_last rs)"

text \<open>
  The next run: a skipped local time is replaced by the occurrence after it; \<open>None\<close> outside is the
  \<open>AttributeError\<close> where there is none.
\<close>

definition next_run_actual :: "ruleset \<Rightarrow> int \<Rightarrow> int option option" where
  "next_run_actual rs t =
     (case rs_after rs t of
        None \<Rightarrow> Some None
      | Some (r, exists) \<Rightarrow>
          (if exists then Some (Some r)
           else case rs_after rs r of None \<Rightarrow> None | Some (r', _) \<Rightarrow> Some (Some r')))"

definition update_computed_fields_no_save :: "scheduler_env \<Rightarrow> int \<Rightarrow> schedule \<Rightarrow> (schedule \<times> bool) option" where
  "update_computed_fields_no_save env t s =
     (case en_rule env (sc_rrule s) t of
        None \<Rightarrow> None
      | Some rs \<Rightarrow>
          (case (if sc_enabled s then next_run_actual rs t else Some None) of
             None \<Rightarrow> None
           | Some next_run \<Rightarrow>
               let s' = s\<lparr>sc_next_run := next_run, sc_dtstart := rs_first rs, sc_dtend := get_end_date rs\<rparr>
               in Some (s', sc_next_run s' \<noteq> sc_next_run s \<or> sc_dtstart s' \<noteq> sc_dtstart s \<or> sc_dtend s' \<noteq> sc_dtend s)))"

text \<open>On a row that a query has returned; \<open>None\<close> is an exception.\<close>

definition update_computed_fields :: "scheduler_env \<Rightarrow> int \<Rightarrow> schedule \<Rightarrow> schedule_state \<Rightarrow> schedule_state option" where
  "update_computed_fields env t s d =
     (case update_computed_fields_no_save env t s of
        None \<Rightarrow> None
      | Some (s', changed) \<Rightarrow>
          if \<not> changed then Some d
          else Some (update_template_fields (sc_template s') (put_schedule s' (d\<lparr>sd_emitted := sd_emitted d @ [sc_id s']\<rparr>))))"

text \<open>Saving a schedule, new or not, and deleting one.\<close>

definition store_schedule :: "schedule \<Rightarrow> schedule_state \<Rightarrow> schedule_state" where
  "store_schedule s d =
     (if find_schedule (sc_id s) d = None then d\<lparr>sd_schedules := sd_schedules d @ [s]\<rparr> else put_schedule s d)"

definition save_schedule :: "scheduler_env \<Rightarrow> int \<Rightarrow> schedule \<Rightarrow> schedule_state \<Rightarrow> schedule_state option" where
  "save_schedule env t s d =
     (case update_computed_fields_no_save env t s of
        None \<Rightarrow> None
      | Some (s', changed) \<Rightarrow>
          let d1 = store_schedule s' d
          in Some (if changed then update_template_fields (sc_template s') d1 else d1))"

definition delete_schedule :: "pk \<Rightarrow> schedule_state \<Rightarrow> schedule_state" where
  "delete_schedule k d =
     (case find_schedule k d of None \<Rightarrow> d
      | Some s \<Rightarrow> update_template_fields (sc_template s)
          (d\<lparr>sd_schedules := filter (\<lambda>x. sc_id x \<noteq> k) (sd_schedules d)\<rparr>))"

section \<open>A run of the scheduler\<close>

definition job_waits :: "new_job \<Rightarrow> bool" where
  "job_waits j \<longleftrightarrow> nj_status j \<in> {Pending, Waiting, Running}"

definition still_fresh :: "int option \<Rightarrow> int \<Rightarrow> int \<Rightarrow> bool" where
  "still_fresh last_run timeout t = (case last_run of None \<Rightarrow> False | Some l \<Rightarrow> l + timeout * 1000000 > t)"

definition cache_timeout_blocked :: "scheduler_env \<Rightarrow> int \<Rightarrow> unified_template \<Rightarrow> job_store \<Rightarrow> bool" where
  "cache_timeout_blocked env t ut js =
     (case ut_kind ut of
        UpdatesProject timeout \<Rightarrow> still_fresh (ut_last_job_run ut) timeout t
      | UpdatesInventory timeout \<Rightarrow> still_fresh (ut_last_job_run ut) timeout t
      | StartsSystemJobs _ \<Rightarrow> False
      | _ \<Rightarrow> length (filter (\<lambda>j. nj_template j = ut_id ut \<and> job_waits j) (st_jobs js)) \<ge> en_max_jobs env)"

text \<open>
  The variables that a system job accepts. The number of days must be a whole number that is not negative; the
  outer \<open>None\<close> is the \<open>TypeError\<close> of \<open>float\<close>.
\<close>

definition days_rejected :: "survey_env \<Rightarrow> json \<Rightarrow> bool option" where
  "days_rejected env v =
     (case v of
        JList _ \<Rightarrow> None
      | JObj _ \<Rightarrow> None
      | JBool _ \<Rightarrow> Some True
      | JNull \<Rightarrow> Some True
      | _ \<Rightarrow> (case (py_float env v, py_int v) of
            (Some r, Some i) \<Rightarrow> Some (r \<noteq> of_int i \<or> i < 0)
          | _ \<Rightarrow> Some True))"

definition accept_system_variables :: "survey_env \<Rightarrow> bool \<Rightarrow> variables \<Rightarrow> variables option" where
  "accept_system_variables env counts_days data =
     (let kept = filter (\<lambda>(k, v). k \<in> {''days'', ''older_than'', ''granularity''}) data
      in case (if counts_days then map_of kept ''days'' else None) of
           None \<Rightarrow> Some kept
         | Some v \<Rightarrow> map_option (\<lambda>bad. if bad then filter (\<lambda>(k, v). k \<noteq> ''days'') kept else kept) (days_rejected env v))"

text \<open>
  The variables of \<open>get_job_kwargs\<close>, by the survey of the template; errors in them are only logged. Updates of
  projects and inventories accept none. \<open>None\<close> is an exception.
\<close>

definition get_job_kwargs :: "scheduler_env \<Rightarrow> schedule \<Rightarrow> unified_template \<Rightarrow> job_store \<Rightarrow> variables option \<times> job_store" where
  "get_job_kwargs env s ut js =
     (let data = (if json_true (sc_extra_data s) then sc_extra_data s else JObj []) in
      case ut_kind ut of
        UpdatesProject _ \<Rightarrow> (Some [], js)
      | UpdatesInventory _ \<Rightarrow> (Some [], js)
      | StartsSystemJobs counts_days \<Rightarrow>
          ((case parse_yaml_or_json (en_parsers env) False data of
              Inl e \<Rightarrow> Some []
            | Inr d \<Rightarrow> accept_system_variables (lt_survey (en_tools env)) counts_days d), js)
      | _ \<Rightarrow>
          (let (r, st) = accept_or_ignore_variables (lt_crypto (en_tools env)) (lt_survey (en_tools env)) (en_parsers env)
                 (Some (la_holder (ut_launch ut))) data [] (sc_survey_passwords s) (st_survey js)
           in (case r of Inl e \<Rightarrow> None | Inr (accepted, _) \<Rightarrow> Some accepted, js\<lparr>st_survey := st\<rparr>)))"

definition cannot_start_text :: string where
  "cannot_start_text = ''Scheduled job could not start because it was not in the right state or required manual credentials''"

definition fail_scheduled :: "pk \<Rightarrow> string \<Rightarrow> schedule_state \<Rightarrow> schedule_state" where
  "fail_scheduled jid why d =
     d\<lparr>sd_store := (sd_store d)\<lparr>st_jobs := map (\<lambda>j. if nj_id j = jid then j\<lparr>nj_status := Failed\<rparr> else j) (st_jobs (sd_store d))\<rparr>,
       sd_explanations := sd_explanations d @ [(jid, why)]\<rparr>"

text \<open>One schedule of the run after its fields are updated: whether a job was created, and the state.\<close>

definition spawn_scheduled :: "scheduler_env \<Rightarrow> int \<Rightarrow> schedule \<Rightarrow> unified_template \<Rightarrow> schedule_state \<Rightarrow> bool \<times> schedule_state" where
  "spawn_scheduled env t s ut d =
     (if cache_timeout_blocked env t ut (sd_store d) then (False, d)
      else case get_job_kwargs env s ut (sd_store d) of
        (None, js) \<Rightarrow> (False, d\<lparr>sd_store := js\<rparr>)
      | (Some vars, js) \<Rightarrow>
          (case create_job (en_tools env) (ut_launch ut) (origin (ut_id ut) ''scheduled'' [] [] None) vars js of
             (None, js1) \<Rightarrow> (False, d\<lparr>sd_store := js1\<rparr>)
           | (Some jid, js1) \<Rightarrow>
               (let d1 = d\<lparr>sd_store := js1, sd_origins := sd_origins d @ [(jid, sc_id s)]\<rparr>
                in (True, case en_invalid_license env of
                     Some why \<Rightarrow> fail_scheduled jid why d1
                   | None \<Rightarrow>
                       (let (started, js2) = start_created (ut_launch ut) jid js1;
                            d2 = d1\<lparr>sd_store := js2\<rparr>;
                            d3 = (if started then d2 else fail_scheduled jid cannot_start_text d2)
                        in d3\<lparr>sd_emitted := sd_emitted d3 @ [sc_id s]\<rparr>)))))"

text \<open>
  The two loops of a run, with the reading of the clock for each schedule. The flag tells whether the run
  goes on; an exception in the computed fields ends it. The second loop returns for which
  schedules, and for which next run of theirs, it has created jobs. A schedule's template exists.
\<close>

fun update_old_schedules :: "scheduler_env \<Rightarrow> (pk \<Rightarrow> int) \<Rightarrow> schedule list \<Rightarrow> schedule_state \<Rightarrow> bool \<times> schedule_state" where
  "update_old_schedules env clock [] d = (True, d)"
| "update_old_schedules env clock (s # ss) d =
     (case update_computed_fields env (clock (sc_id s)) s d of
        None \<Rightarrow> (False, d)
      | Some d' \<Rightarrow> update_old_schedules env clock ss d')"

fun run_schedules :: "scheduler_env \<Rightarrow> (pk \<Rightarrow> int) \<Rightarrow> schedule list \<Rightarrow> schedule_state
    \<Rightarrow> (pk \<times> int) list \<times> schedule_state" where
  "run_schedules env clock [] d = ([], d)"
| "run_schedules env clock (s # ss) d =
     (case update_computed_fields env (clock (sc_id s)) s d of
        None \<Rightarrow> ([], d)
      | Some d1 \<Rightarrow>
          (case find_unified (sc_template s) d1 of
             None \<Rightarrow> ([], d1)
           | Some ut \<Rightarrow>
               (let (created, d2) = spawn_scheduled env (clock (sc_id s)) s ut d1;
                    (rest, d3) = run_schedules env clock ss d2
                in (if created then (sc_id s, the (sc_next_run s)) # rest else rest, d3))))"

definition awx_periodic_scheduler ::
    "scheduler_env \<Rightarrow> bool \<Rightarrow> int \<Rightarrow> (pk \<Rightarrow> int) \<Rightarrow> schedule_state \<Rightarrow> (pk \<times> int) list \<times> schedule_state" where
  "awx_periodic_scheduler env acquired run_now clock d =
     (if \<not> acquired then ([], d)
      else let last_run = sd_last_run d;
               d1 = d\<lparr>sd_last_run := run_now\<rparr>;
               old = in_order (schedules_before last_run (enabled_schedules (sd_schedules d1)));
               (goes_on, d2) = update_old_schedules env clock old d1
           in if \<not> goes_on then ([], d2)
              else run_schedules env clock
                (in_order (schedules_between last_run run_now (enabled_schedules (sd_schedules d2)))) d2)"

end
