(* ===== verification/Schedule_Runs.thy ===== *)
theory Schedule_Runs
  imports Schedules
begin

text \<open>
  The runs of the scheduler of \<open>Schedules\<close>: what one run does to every schedule, that no occurrence is run
  twice whatever the order of runs and edits, which occurrences are lost, and how one schedule stops all.
\<close>

section \<open>Updates of one schedule\<close>

text \<open>What the package promises: the occurrence after an instant is later.\<close>

definition rules_advance :: "scheduler_env \<Rightarrow> bool" where
  "rules_advance env \<longleftrightarrow> (\<forall>text t rs u r e. en_rule env text t = Some rs \<longrightarrow> rs_after rs u = Some (r, e) \<longrightarrow> u < r)"

definition refreshed :: "scheduler_env \<Rightarrow> int \<Rightarrow> schedule \<Rightarrow> schedule" where
  "refreshed env t s = (case update_computed_fields_no_save env t s of None \<Rightarrow> s | Some (s', _) \<Rightarrow> s')"

definition later_than :: "int \<Rightarrow> schedule \<Rightarrow> bool" where
  "later_than t s = (case sc_next_run s of None \<Rightarrow> True | Some r \<Rightarrow> t < r)"

lemma next_run_actual_later:
  assumes "rules_advance env" "en_rule env text t0 = Some rs" "next_run_actual rs t = Some (Some r)"
  shows "t < r"
proof (cases "rs_after rs t")
  case (Some a)
  then obtain u e where a: "rs_after rs t = Some (u, e)" by (cases a) auto
  then have "t < u" using assms(1,2) unfolding rules_advance_def by blast
  moreover have "r = u \<or> u < r"
    using assms a unfolding rules_advance_def next_run_actual_def
    by (auto split: if_splits option.splits)
  ultimately show ?thesis by auto
qed (use assms(3) in \<open>simp add: next_run_actual_def\<close>)

lemma no_save_cases:
  assumes "update_computed_fields_no_save env t s = Some (s', changed)"
  shows "sc_id s' = sc_id s" "sc_template s' = sc_template s" "sc_enabled s' = sc_enabled s"
    "\<not> changed \<Longrightarrow> s' = s" "refreshed env t s = s'"
  using assms
  by (auto simp: update_computed_fields_no_save_def refreshed_def Let_def split: option.splits if_splits)

lemma no_save_later:
  assumes "rules_advance env" "update_computed_fields_no_save env t s = Some (s', changed)"
  shows "later_than t s'"
  using assms(2) next_run_actual_later [OF assms(1)]
  by (fastforce simp: update_computed_fields_no_save_def later_than_def Let_def split: option.splits if_splits)

lemma refreshed_id [simp]: "sc_id (refreshed env t s) = sc_id s"
  using no_save_cases(1) by (auto simp: refreshed_def split: option.splits)

lemma put_schedule_simps [simp]:
  "sd_schedules (put_schedule s d) = map (\<lambda>x. if sc_id x = sc_id s then s else x) (sd_schedules d)"
  "sd_templates (put_schedule s d) = sd_templates d" "sd_store (put_schedule s d) = sd_store d"
  "sd_origins (put_schedule s d) = sd_origins d" "sd_last_run (put_schedule s d) = sd_last_run d"
  by (simp_all add: put_schedule_def)

lemma update_template_simps [simp]:
  "sd_schedules (update_template_fields k d) = sd_schedules d" "sd_store (update_template_fields k d) = sd_store d"
  "sd_origins (update_template_fields k d) = sd_origins d" "sd_last_run (update_template_fields k d) = sd_last_run d"
  "map ut_id (sd_templates (update_template_fields k d)) = map ut_id (sd_templates d)"
  by (auto simp: update_template_fields_def split: list.split)

definition distinct_schedules :: "schedule_state \<Rightarrow> bool" where
  "distinct_schedules d \<longleftrightarrow> distinct (map sc_id (sd_schedules d))"

lemma same_row:
  "distinct_schedules d \<Longrightarrow> x \<in> set (sd_schedules d) \<Longrightarrow> s \<in> set (sd_schedules d) \<Longrightarrow> sc_id x = sc_id s \<Longrightarrow> x = s"
  unfolding distinct_schedules_def by (meson distinct_map inj_onD)

definition refresh_row :: "scheduler_env \<Rightarrow> int \<Rightarrow> pk \<Rightarrow> schedule list \<Rightarrow> schedule list" where
  "refresh_row env t k = map (\<lambda>x. if sc_id x = k then refreshed env t x else x)"

lemma refresh_row_ids [simp]: "map sc_id (refresh_row env t k ss) = map sc_id ss"
  by (simp add: refresh_row_def)

lemma update_computed_fields_effect:
  assumes "update_computed_fields env t s d = Some d'" "s \<in> set (sd_schedules d)" "distinct_schedules d"
  shows "sd_schedules d' = refresh_row env t (sc_id s) (sd_schedules d)" "sd_store d' = sd_store d"
    "sd_origins d' = sd_origins d" "sd_last_run d' = sd_last_run d"
    "map ut_id (sd_templates d') = map ut_id (sd_templates d)"
proof -
  obtain s' changed where u: "update_computed_fields_no_save env t s = Some (s', changed)"
    using assms(1) by (auto simp: update_computed_fields_def split: option.splits)
  note c = no_save_cases [OF u]
  have rows: "refresh_row env t (sc_id s) (sd_schedules d) = map (\<lambda>x. if sc_id x = sc_id s' then s' else x) (sd_schedules d)"
    using same_row [OF assms(3) _ assms(2)] c(1,5) by (auto simp: refresh_row_def)
  have unchanged: "\<not> changed \<Longrightarrow> map (\<lambda>x. if sc_id x = sc_id s' then s' else x) (sd_schedules d) = sd_schedules d"
    using same_row [OF assms(3) _ assms(2)] c(4) by (intro map_idI) auto
  show "sd_schedules d' = refresh_row env t (sc_id s) (sd_schedules d)" "sd_store d' = sd_store d"
    "sd_origins d' = sd_origins d" "sd_last_run d' = sd_last_run d"
    "map ut_id (sd_templates d') = map ut_id (sd_templates d)"
    using assms(1) u unchanged rows by (auto simp: update_computed_fields_def split: if_splits)
qed

section \<open>Spawning\<close>

lemma fail_scheduled_simps [simp]:
  "sd_schedules (fail_scheduled j w d) = sd_schedules d" "sd_origins (fail_scheduled j w d) = sd_origins d"
  "sd_last_run (fail_scheduled j w d) = sd_last_run d" "sd_templates (fail_scheduled j w d) = sd_templates d"
  by (simp_all add: fail_scheduled_def)

lemma spawn_scheduled_effect:
  assumes "spawn_scheduled env t s ut d = (created, d')"
  shows "sd_schedules d' = sd_schedules d" "sd_last_run d' = sd_last_run d" "sd_templates d' = sd_templates d"
    "map snd (sd_origins d') = map snd (sd_origins d) @ (if created then [sc_id s] else [])"
  using assms
  by (auto simp: spawn_scheduled_def Let_def split: if_splits prod.splits option.splits)

section \<open>The loops of a run\<close>

text \<open>The rows after the loops: those of the list are refreshed, each at its reading of the clock.\<close>

definition refresh_rows :: "scheduler_env \<Rightarrow> (pk \<Rightarrow> int) \<Rightarrow> pk set \<Rightarrow> schedule list \<Rightarrow> schedule list" where
  "refresh_rows env clock K = map (\<lambda>x. if sc_id x \<in> K then refreshed env (clock (sc_id x)) x else x)"

lemma refresh_rows_ids [simp]: "map sc_id (refresh_rows env clock K ss) = map sc_id ss"
  by (simp add: refresh_rows_def)

lemma refresh_rows_empty [simp]: "refresh_rows env clock {} ss = ss"
  by (simp add: refresh_rows_def map_idI)

lemma refresh_rows_insert:
  "k \<notin> K \<Longrightarrow> refresh_rows env clock K (refresh_row env (clock k) k ss) = refresh_rows env clock (insert k K) ss"
  by (auto simp: refresh_rows_def refresh_row_def)

lemma rows_stay:
  assumes "set ss \<subseteq> set rows" "k \<notin> sc_id ` set ss"
  shows "set ss \<subseteq> set (refresh_row env t k rows)"
proof
  fix x assume x: "x \<in> set ss"
  then have "sc_id x \<noteq> k" using assms(2) by auto
  then show "x \<in> set (refresh_row env t k rows)" using x assms(1) by (force simp: refresh_row_def)
qed

text \<open>The first loop changes rows of schedules only; it changes all of them unless an exception ends it.\<close>

lemma update_old_keeps:
  assumes "update_old_schedules env clock ss d = (ok, d')" "set ss \<subseteq> set (sd_schedules d)"
    "distinct (map sc_id ss)" "distinct_schedules d"
  shows "\<exists>K. K \<subseteq> sc_id ` set ss \<and> (ok \<longrightarrow> K = sc_id ` set ss)
    \<and> (list_all (\<lambda>s. update_computed_fields_no_save env (clock (sc_id s)) s \<noteq> None) ss \<longrightarrow> ok) \<and> sd_schedules d' = refresh_rows env clock K (sd_schedules d) \<and> sd_store d' = sd_store d
    \<and> sd_origins d' = sd_origins d \<and> sd_last_run d' = sd_last_run d
    \<and> map ut_id (sd_templates d') = map ut_id (sd_templates d) \<and> (\<forall>k \<in> K. \<exists>s \<in> set ss. sc_id s = k \<and> update_computed_fields_no_save env (clock k) s \<noteq> None)"
  using assms
proof (induction env clock ss d rule: update_old_schedules.induct)
  case (1 env clock d)
  then show ?case by (auto intro: exI [of _ "{}"])
next
  case (2 env clock s ss d)
  show ?case
  proof (cases "update_computed_fields env (clock (sc_id s)) s d")
    case None
    then show ?thesis using "2.prems"
      by (intro exI [of _ "{}"]) (auto simp: update_computed_fields_def split: option.splits if_splits)
  next
    case (Some d1)
    note e = update_computed_fields_effect [OF Some _ "2.prems"(4)]
    have "set ss \<subseteq> set (sd_schedules d1)" "distinct_schedules d1"
      using "2.prems" e(1) rows_stay [of ss "sd_schedules d" "sc_id s"] by (simp_all add: distinct_schedules_def)
    from "2.IH" [OF Some _ this(1) _ this(2)] "2.prems" Some obtain K where
      K: "K \<subseteq> sc_id ` set ss" "ok \<longrightarrow> K = sc_id ` set ss"
        "list_all (\<lambda>s. update_computed_fields_no_save env (clock (sc_id s)) s \<noteq> None) ss \<longrightarrow> ok" "sd_schedules d' = refresh_rows env clock K (sd_schedules d1)" "sd_store d' = sd_store d1"
        "sd_origins d' = sd_origins d1" "sd_last_run d' = sd_last_run d1"
        "map ut_id (sd_templates d') = map ut_id (sd_templates d1)"
        "\<forall>k \<in> K. \<exists>s \<in> set ss. sc_id s = k \<and> update_computed_fields_no_save env (clock k) s \<noteq> None"
      by auto
    have "update_computed_fields_no_save env (clock (sc_id s)) s \<noteq> None"
      using Some by (auto simp: update_computed_fields_def split: option.splits)
    moreover have "sc_id s \<notin> K" using K(1) "2.prems"(3) by auto
    ultimately show ?thesis
      using K e "2.prems"(2) by (intro exI [of _ "insert (sc_id s) K"]) (auto simp: refresh_rows_insert)
  qed
qed

lemma find_unified_iff: "find_unified k d \<noteq> None \<longleftrightarrow> k \<in> set (map ut_id (sd_templates d))"
  by (auto simp: find_unified_def find_None_iff)

text \<open>A schedule that does not raise: its rule is read and its next run is found, and its template exists.\<close>

definition refreshable :: "scheduler_env \<Rightarrow> (pk \<Rightarrow> int) \<Rightarrow> schedule_state \<Rightarrow> schedule \<Rightarrow> bool" where
  "refreshable env clock d s \<longleftrightarrow> update_computed_fields_no_save env (clock (sc_id s)) s \<noteq> None
     \<and> sc_template s \<in> set (map ut_id (sd_templates d))"

definition run_entry :: "schedule \<Rightarrow> pk \<times> int" where
  "run_entry s = (sc_id s, the (sc_next_run s))"

lemma run_entry_fst [simp]: "fst (run_entry s) = sc_id s"
  by (simp add: run_entry_def)

lemma update_some: "update_computed_fields env t s d \<noteq> None \<longleftrightarrow> update_computed_fields_no_save env t s \<noteq> None"
  by (auto simp: update_computed_fields_def split: option.splits)

lemma run_schedules_effect:
  assumes "run_schedules env clock ss d = (out, d')" "set ss \<subseteq> set (sd_schedules d)"
    "distinct (map sc_id ss)" "distinct_schedules d"
  shows "\<exists>K. K \<subseteq> sc_id ` set ss \<and> (list_all (refreshable env clock d) ss \<longrightarrow> K = sc_id ` set ss)
    \<and> sd_schedules d' = refresh_rows env clock K (sd_schedules d) \<and> sd_last_run d' = sd_last_run d
    \<and> map snd (sd_origins d') = map snd (sd_origins d) @ map fst out
    \<and> fst ` set out \<subseteq> K \<and> subseq out (map run_entry ss)
    \<and> (\<forall>k \<in> K. \<exists>s \<in> set ss. sc_id s = k \<and> update_computed_fields_no_save env (clock k) s \<noteq> None)"
  using assms
proof (induction env clock ss d arbitrary: out d' rule: run_schedules.induct)
  case (1 env clock d)
  then show ?case by (auto intro: exI [of _ "{}"])
next
  case (2 env clock s ss d)
  show ?case
  proof (cases "update_computed_fields env (clock (sc_id s)) s d")
    case None
    then show ?thesis
      using "2.prems" update_some [of env "clock (sc_id s)" s d]
      by (intro exI [of _ "{}"]) (auto simp: refreshable_def)
  next
    case (Some d1)
    note e = update_computed_fields_effect [OF Some _ "2.prems"(4)]
    have some: "update_computed_fields_no_save env (clock (sc_id s)) s \<noteq> None"
      using Some update_some [of env "clock (sc_id s)" s d] by simp
    show ?thesis
    proof (cases "find_unified (sc_template s) d1")
      case None
      then have "\<not> refreshable env clock d s"
        using e(5) "2.prems"(2) find_unified_iff [of "sc_template s" d1] by (auto simp: refreshable_def)
      then show ?thesis
        using None Some e some "2.prems"
        by (intro exI [of _ "{sc_id s}"]) (auto simp: refresh_rows_insert [of _ "{}", simplified])
    next
      case ut: (Some ut)
      obtain created d2 where sp: "spawn_scheduled env (clock (sc_id s)) s ut d1 = (created, d2)"
        by (meson surj_pair)
      obtain rest d3 where run: "run_schedules env clock ss d2 = (rest, d3)" by (meson surj_pair)
      note p = spawn_scheduled_effect [OF sp]
      have out: "out = (if created then [run_entry s] else []) @ rest" "d' = d3"
        using "2.prems"(1) Some ut sp run by (auto simp: run_entry_def split: if_splits)
      have "set ss \<subseteq> set (sd_schedules d2)" "distinct_schedules d2"
        using "2.prems" e(1) p(1) rows_stay [of ss "sd_schedules d" "sc_id s"]
        by (simp_all add: distinct_schedules_def)
      from "2.IH" [OF Some ut sp [symmetric] refl run this(1) _ this(2)] "2.prems"(3) obtain K where
        K: "K \<subseteq> sc_id ` set ss" "list_all (refreshable env clock d2) ss \<longrightarrow> K = sc_id ` set ss"
          "sd_schedules d3 = refresh_rows env clock K (sd_schedules d2)" "sd_last_run d3 = sd_last_run d2"
          "map snd (sd_origins d3) = map snd (sd_origins d2) @ map fst rest"
          "fst ` set rest \<subseteq> K" "subseq rest (map run_entry ss)"
          "\<forall>k \<in> K. \<exists>s \<in> set ss. sc_id s = k \<and> update_computed_fields_no_save env (clock k) s \<noteq> None"
        by auto
      have "refreshable env clock d2 = refreshable env clock d"
        using e(5) p(3) "2.prems"(2) by (auto simp: refreshable_def fun_eq_iff)
      moreover have "sc_id s \<notin> K" using K(1) "2.prems"(3) by auto
      ultimately show ?thesis
        using K e p some out "2.prems"(2)
        by (intro exI [of _ "insert (sc_id s) K"]) (auto simp: refresh_rows_insert intro: list_emb_Cons)
    qed
  qed
qed

section \<open>One run\<close>

definition overdue :: "int \<Rightarrow> schedule \<Rightarrow> bool" where
  "overdue last_run s \<longleftrightarrow> sc_enabled s \<and> (\<exists>r. sc_next_run s = Some r \<and> r < last_run)"

definition is_due :: "int \<Rightarrow> int \<Rightarrow> schedule \<Rightarrow> bool" where
  "is_due last_run now s \<longleftrightarrow> sc_enabled s \<and> (\<exists>r. sc_next_run s = Some r \<and> last_run < r \<and> r < now)"

definition due_schedules :: "int \<Rightarrow> int \<Rightarrow> schedule list \<Rightarrow> schedule list" where
  "due_schedules last_run now ss = in_order (filter (is_due last_run now) ss)"

lemma before_enabled: "schedules_before t (enabled_schedules ss) = filter (overdue t) ss"
  by (auto simp: schedules_before_def enabled_schedules_def overdue_def intro!: filter_cong split: option.splits)

lemma between_enabled: "schedules_between a b (enabled_schedules ss) = filter (is_due a b) ss"
  by (auto simp: schedules_between_def schedules_before_def schedules_after_def enabled_schedules_def is_due_def
      intro!: filter_cong split: option.splits)

lemma set_in_order [simp]: "set (in_order ss) = set ss"
  by (simp add: in_order_def)

lemma distinct_in_order: "distinct (map sc_id ss) \<Longrightarrow> distinct (map sc_id (in_order ss))"
  by (simp add: distinct_map in_order_def)

lemma filter_map_same:
  "(\<And>x. x \<in> set xs \<Longrightarrow> P (f x) = P x \<and> (P x \<longrightarrow> f x = x)) \<Longrightarrow> filter P (map f xs) = filter P xs"
  by (induction xs) auto

lemma refresh_rows_twice:
  "K \<inter> L = {} \<Longrightarrow> refresh_rows env clock L (refresh_rows env clock K ss) = refresh_rows env clock (K \<union> L) ss"
  by (auto simp: refresh_rows_def)

lemma refreshed_later:
  assumes "rules_advance env" "update_computed_fields_no_save env t s \<noteq> None"
  shows "later_than t (refreshed env t s)"
  using assms no_save_later [OF assms(1)] by (auto simp: refreshed_def)

lemma refreshed_row_later:
  assumes "distinct_schedules d" "rules_advance env" "s \<in> set (sd_schedules d)" "x \<in> set (sd_schedules d)"
    "sc_id x = sc_id s" "update_computed_fields_no_save env (clock (sc_id s)) x \<noteq> None"
  shows "later_than (clock (sc_id s)) (refreshed env (clock (sc_id s)) s)"
  using same_row [OF assms(1,4,3,5)] assms(6) refreshed_later [OF assms(2)] by auto

text \<open>Refreshing overdue schedules does not change which are due.\<close>

lemma due_unchanged:
  assumes ids: "distinct_schedules d" and adv: "rules_advance env" and clock: "\<And>k. now \<le> clock k"
    and K: "\<And>k. k \<in> K \<Longrightarrow> \<exists>s \<in> set (sd_schedules d). sc_id s = k \<and> overdue last_run s
      \<and> update_computed_fields_no_save env (clock k) s \<noteq> None"
  shows "filter (is_due last_run now) (refresh_rows env clock K (sd_schedules d)) = filter (is_due last_run now) (sd_schedules d)"
  unfolding refresh_rows_def
proof (rule filter_map_same)
  fix x assume x: "x \<in> set (sd_schedules d)"
  show "is_due last_run now (if sc_id x \<in> K then refreshed env (clock (sc_id x)) x else x) = is_due last_run now x
    \<and> (is_due last_run now x \<longrightarrow> (if sc_id x \<in> K then refreshed env (clock (sc_id x)) x else x) = x)"
  proof (cases "sc_id x \<in> K")
    case True
    then obtain s where s: "s \<in> set (sd_schedules d)" "sc_id s = sc_id x" "overdue last_run s"
        "update_computed_fields_no_save env (clock (sc_id x)) s \<noteq> None"
      using K by blast
    have "s = x" by (rule same_row [OF ids s(1) x s(2)])
    moreover have "later_than (clock (sc_id x)) (refreshed env (clock (sc_id x)) x)"
      by (rule refreshed_row_later [where clock = clock, OF ids adv x s(1,2,4)])
    ultimately show ?thesis
      using s(3) True clock [of "sc_id x"] by (auto simp: overdue_def is_due_def later_than_def)
  qed simp
qed

text \<open>
  What a run does: it refreshes the overdue schedules and the due ones, all of them if nothing raises, and spawns jobs for
  some of the due ones, in their order.
\<close>

definition run_changes :: "scheduler_env \<Rightarrow> int \<Rightarrow> (pk \<Rightarrow> int) \<Rightarrow> schedule_state \<Rightarrow> (pk \<times> int) list \<Rightarrow> schedule_state \<Rightarrow> pk set \<Rightarrow> bool" where
  "run_changes env now clock d out d' K \<longleftrightarrow>
     K \<subseteq> sc_id ` {s \<in> set (sd_schedules d). overdue (sd_last_run d) s \<or> is_due (sd_last_run d) now s}
     \<and> sd_schedules d' = refresh_rows env clock K (sd_schedules d) \<and> sd_last_run d' = now
     \<and> map snd (sd_origins d') = map snd (sd_origins d) @ map fst out
     \<and> fst ` set out \<subseteq> K \<and> subseq out (map run_entry (due_schedules (sd_last_run d) now (sd_schedules d)))
     \<and> (\<forall>s \<in> set (sd_schedules d). sc_id s \<in> K \<longrightarrow> later_than (clock (sc_id s)) (refreshed env (clock (sc_id s)) s))"

lemma scheduler_run_changes:
  assumes run: "awx_periodic_scheduler env True now clock d = (out, d')" and ids: "distinct_schedules d"
    and adv: "rules_advance env" and clock: "\<And>k. now \<le> clock k"
  shows "\<exists>K. run_changes env now clock d out d' K \<and> (list_all (refreshable env clock d) (sd_schedules d) \<longrightarrow>
    K = sc_id ` {s \<in> set (sd_schedules d). overdue (sd_last_run d) s \<or> is_due (sd_last_run d) now s})"
proof -
  define d1 where "d1 = d\<lparr>sd_last_run := now\<rparr>"
  define last_run where "last_run = sd_last_run d"
  define old where "old = in_order (filter (overdue last_run) (sd_schedules d))"
  obtain ok d2 where old_run: "update_old_schedules env clock old d1 = (ok, d2)" by (meson surj_pair)
  have d1: "sd_schedules d1 = sd_schedules d" "sd_last_run d1 = now" "sd_origins d1 = sd_origins d"
      "sd_templates d1 = sd_templates d" "distinct_schedules d1"
    using ids by (simp_all add: d1_def distinct_schedules_def)
  have old_rows: "set old \<subseteq> set (sd_schedules d1)" "distinct (map sc_id old)"
    using ids by (auto simp: old_def d1 distinct_schedules_def distinct_map_filter intro!: distinct_in_order)
  obtain K where K: "K \<subseteq> sc_id ` set old" "ok \<longrightarrow> K = sc_id ` set old"
      "list_all (\<lambda>s. update_computed_fields_no_save env (clock (sc_id s)) s \<noteq> None) old \<longrightarrow> ok"
      "sd_schedules d2 = refresh_rows env clock K (sd_schedules d)" "sd_origins d2 = sd_origins d" "sd_last_run d2 = now"
      "map ut_id (sd_templates d2) = map ut_id (sd_templates d)"
      "\<forall>k \<in> K. \<exists>s \<in> set old. sc_id s = k \<and> update_computed_fields_no_save env (clock k) s \<noteq> None"
    using update_old_keeps [OF old_run old_rows d1(5)] unfolding d1 by auto
  note later = refreshed_row_later [where clock = clock, OF ids adv]
  show ?thesis
  proof (cases ok)
    case False
    then have fin: "out = []" "d' = d2"
      using run old_run by (auto simp: awx_periodic_scheduler_def d1_def [symmetric] before_enabled last_run_def old_def d1 Let_def)
    have "\<not> list_all (refreshable env clock d) (sd_schedules d)"
      using K(3) False by (auto simp: list_all_iff refreshable_def old_def)
    then show ?thesis
      using K fin later old_rows(1) d1(1) unfolding run_changes_def old_def last_run_def
      by (intro exI [of _ K]) fastforce
  next
    case True
    have same: "filter (is_due last_run now) (sd_schedules d2) = filter (is_due last_run now) (sd_schedules d)"
      unfolding K(4)
    proof (rule due_unchanged [OF ids adv clock])
      fix k assume "k \<in> K"
      then show "\<exists>s \<in> set (sd_schedules d). sc_id s = k \<and> overdue last_run s
          \<and> update_computed_fields_no_save env (clock k) s \<noteq> None"
        using K(8) by (force simp: old_def)
    qed
    define due where "due = due_schedules last_run now (sd_schedules d)"
    have due2: "run_schedules env clock due d2 = (out, d')"
      using run old_run True same
      by (simp add: awx_periodic_scheduler_def d1_def [symmetric] before_enabled between_enabled last_run_def [symmetric]
        old_def [symmetric] d1 Let_def due_def due_schedules_def)
    have ids2: "distinct_schedules d2" using ids K(4) by (simp add: distinct_schedules_def)
    have rows2: "set due \<subseteq> set (sd_schedules d2)"
      using same unfolding due_def due_schedules_def set_in_order by (metis filter_is_subset)
    have distinct2: "distinct (map sc_id due)"
      using ids by (simp add: due_def due_schedules_def distinct_in_order distinct_map_filter distinct_schedules_def)
    obtain L where L: "L \<subseteq> sc_id ` set due" "list_all (refreshable env clock d2) due \<longrightarrow> L = sc_id ` set due"
        "sd_schedules d' = refresh_rows env clock L (sd_schedules d2)" "sd_last_run d' = sd_last_run d2"
        "map snd (sd_origins d') = map snd (sd_origins d2) @ map fst out"
        "fst ` set out \<subseteq> L" "subseq out (map run_entry due)"
        "\<forall>k \<in> L. \<exists>s \<in> set due. sc_id s = k \<and> update_computed_fields_no_save env (clock k) s \<noteq> None"
      using run_schedules_effect [OF due2 rows2 distinct2 ids2] by auto
    have due_rows: "set due = {s \<in> set (sd_schedules d). is_due last_run now s}"
      by (auto simp: due_def due_schedules_def)
    have old_set: "set old = {s \<in> set (sd_schedules d). overdue last_run s}"
      by (auto simp: old_def)
    have apart: "K \<inter> L = {}"
    proof (rule ccontr)
      assume "K \<inter> L \<noteq> {}"
      then obtain x y where "x \<in> set old" "y \<in> set due" "sc_id x = sc_id y" using K(1) L(1) by blast
      then show False
        using same_row [OF ids, of x y] by (auto simp: due_rows old_set overdue_def is_due_def)
    qed
    have rows: "sd_schedules d' = refresh_rows env clock (K \<union> L) (sd_schedules d)"
      using L(3) K(4) refresh_rows_twice [OF apart] by simp
    have "run_changes env now clock d out d' (K \<union> L)"
      unfolding run_changes_def last_run_def [symmetric]
    proof (intro conjI ballI impI)
      show "K \<union> L \<subseteq> sc_id ` {s \<in> set (sd_schedules d). overdue last_run s \<or> is_due last_run now s}"
        using K(1) L(1) due_rows old_set by auto
      show "sd_schedules d' = refresh_rows env clock (K \<union> L) (sd_schedules d)" by (rule rows)
      show "fst ` set out \<subseteq> K \<union> L" using L(6) by auto
      show "subseq out (map run_entry (due_schedules last_run now (sd_schedules d)))"
        using L(7) by (simp add: due_def)
      show "later_than (clock (sc_id s)) (refreshed env (clock (sc_id s)) s)"
        if s: "s \<in> set (sd_schedules d)" "sc_id s \<in> K \<union> L" for s
      proof -
        obtain x where "x \<in> set old \<or> x \<in> set due" "sc_id x = sc_id s"
            "update_computed_fields_no_save env (clock (sc_id s)) x \<noteq> None"
          using s(2) K(8) L(8) by blast
        then show ?thesis using later [OF s(1), of x] due_rows old_set by auto
      qed
    qed (use K L in simp_all)
    moreover have "list_all (refreshable env clock d) (sd_schedules d) \<longrightarrow>
        K \<union> L = sc_id ` {s \<in> set (sd_schedules d). overdue last_run s \<or> is_due last_run now s}"
    proof
      assume "list_all (refreshable env clock d) (sd_schedules d)"
      then have "list_all (refreshable env clock d2) due"
        using K(7) due_rows by (auto simp: list_all_iff refreshable_def)
      then have "L = sc_id ` set due" using L(2) by simp
      then show "K \<union> L = sc_id ` {s \<in> set (sd_schedules d). overdue last_run s \<or> is_due last_run now s}"
        using K(2) True due_rows old_set by auto
    qed
    ultimately show ?thesis unfolding last_run_def by blast
  qed
qed

end
