(* ===== verification/Schedule_Correct.thy ===== *)
theory Schedule_Correct
  imports Schedule_Runs
begin

text \<open>
  Runs of the scheduler of \<open>Schedules\<close> interleaved with edits of schedules: no occurrence is run twice and
  none that falls on the instant of a run; and the schedule whose last occurrence is skipped by the
  clocks, which stops all the others.
\<close>

section \<open>Interleavings\<close>

datatype schedule_op =
    SchedulerRun bool int "pk \<Rightarrow> int"
  | SaveSchedule int schedule
  | DeleteSchedule pk

fun schedule_step :: "scheduler_env \<Rightarrow> schedule_op \<Rightarrow> schedule_state \<Rightarrow> (pk \<times> int) list \<times> schedule_state" where
  "schedule_step env (SchedulerRun acquired now clock) d = awx_periodic_scheduler env acquired now clock d"
| "schedule_step env (SaveSchedule t s) d = ([], case save_schedule env t s d of None \<Rightarrow> d | Some d' \<Rightarrow> d')"
| "schedule_step env (DeleteSchedule k) d = ([], delete_schedule k d)"

fun schedule_trace :: "scheduler_env \<Rightarrow> schedule_op list \<Rightarrow> schedule_state \<Rightarrow> (pk \<times> int) list" where
  "schedule_trace env [] d = []"
| "schedule_trace env (x # xs) d = (let (out, d') = schedule_step env x d in out @ schedule_trace env xs d')"

text \<open>The clock does not go back: not between operations, and not within a run.\<close>

fun clock_runs :: "int \<Rightarrow> schedule_op list \<Rightarrow> bool" where
  "clock_runs t [] = True"
| "clock_runs t (SchedulerRun acquired now clock # xs) = (t \<le> now \<and> (\<forall>k. now \<le> clock k) \<and> clock_runs now xs)"
| "clock_runs t (SaveSchedule u s # xs) = (t \<le> u \<and> clock_runs u xs)"
| "clock_runs t (DeleteSchedule k # xs) = clock_runs t xs"

text \<open>Whatever has run lies in the past, and every schedule is set to a later occurrence than those it has run.\<close>

definition run_before :: "(pk \<times> int) list \<Rightarrow> int \<Rightarrow> schedule_state \<Rightarrow> bool" where
  "run_before out t d \<longleftrightarrow> distinct_schedules d \<and> distinct out \<and> (\<forall>(k, r) \<in> set out. r < t)
     \<and> (\<forall>(k, r) \<in> set out. \<forall>s \<in> set (sd_schedules d). sc_id s = k \<longrightarrow> later_than r s)"

lemma later_than_mono: "later_than t s \<Longrightarrow> r \<le> t \<Longrightarrow> later_than r s"
  by (auto simp: later_than_def split: option.splits)

lemma subseq_members: "subseq xs ys \<Longrightarrow> set xs \<subseteq> set ys"
  by (induction rule: list_emb.induct) auto

lemma subseq_keeps_distinct: "subseq xs ys \<Longrightarrow> distinct ys \<Longrightarrow> distinct xs"
  by (induction rule: list_emb.induct) (auto dest: subseq_members)

lemma entry_due:
  assumes "subseq out (map run_entry (due_schedules a b ss))" "(k, r) \<in> set out"
  shows "\<exists>s \<in> set ss. sc_id s = k \<and> sc_next_run s = Some r \<and> a < r \<and> r < b"
  using assms(2) subseq_members [OF assms(1)]
  by (fastforce simp: due_schedules_def is_due_def run_entry_def)

lemma entries_distinct:
  assumes "subseq out (map run_entry (due_schedules a b ss))" "distinct (map sc_id ss)"
  shows "distinct (map fst out)"
proof -
  have "distinct (map fst (map run_entry (due_schedules a b ss)))"
    using assms(2) by (simp add: comp_def due_schedules_def distinct_in_order distinct_map_filter)
  moreover have "subseq (map fst out) (map fst (map run_entry (due_schedules a b ss)))"
    using assms(1) by (rule subseq_map)
  ultimately show ?thesis by (metis subseq_keeps_distinct)
qed

lemma run_before_run:
  assumes before: "run_before out t d" and adv: "rules_advance env" and t: "t \<le> now" and clock: "\<And>k. now \<le> clock k"
    and run: "awx_periodic_scheduler env acquired now clock d = (new, d')"
  shows "run_before (out @ new) now d'"
proof (cases acquired)
  case False
  then show ?thesis
    using before t run by (fastforce simp: awx_periodic_scheduler_def run_before_def)
next
  case True
  have ids: "distinct_schedules d" using before by (simp add: run_before_def)
  have acquired_run: "awx_periodic_scheduler env True now clock d = (new, d')" using run True by simp
  obtain K where K: "run_changes env now clock d new d' K"
    using scheduler_run_changes [OF acquired_run ids adv clock] by blast
  have sub: "subseq new (map run_entry (due_schedules (sd_last_run d) now (sd_schedules d)))"
    using K by (simp add: run_changes_def)
  have new: "distinct new"
    using entries_distinct [OF sub ids [unfolded distinct_schedules_def]] by (simp add: distinct_map)
  have past: "r < now" if "(k, r) \<in> set (out @ new)" for k r
    using that before t entry_due [OF sub] by (fastforce simp: run_before_def)
  have fresh: "(k, r) \<notin> set out" if "(k, r) \<in> set new" for k r
    using entry_due [OF sub that] before by (fastforce simp: run_before_def later_than_def)
  have "later_than r s" if e: "(k, r) \<in> set (out @ new)" and s: "s \<in> set (sd_schedules d')" "sc_id s = k" for k r s
  proof (cases "k \<in> K")
    case True
    then obtain x where x: "x \<in> set (sd_schedules d)" "sc_id x = k" "s = refreshed env (clock k) x"
      using K s by (fastforce simp: run_changes_def refresh_rows_def split: if_splits)
    then have "later_than (clock k) s" using K True by (auto simp: run_changes_def)
    then show ?thesis using past [OF e] clock [of k] by (auto intro: later_than_mono)
  next
    case False
    then have "(k, r) \<in> set out" "s \<in> set (sd_schedules d)"
      using K s e by (force simp: run_changes_def refresh_rows_def)+
    then show ?thesis using before s(2) by (auto simp: run_before_def)
  qed
  moreover have "distinct (out @ new)"
    using before fresh new by (auto simp: run_before_def)
  moreover have "distinct_schedules d'" using K ids by (auto simp: run_changes_def distinct_schedules_def)
  ultimately show ?thesis using past by (fastforce simp: run_before_def)
qed

lemma run_before_save:
  assumes before: "run_before out t d" and adv: "rules_advance env" and t: "t \<le> u" and save: "save_schedule env u s d = Some d'"
  shows "run_before out u d'"
proof -
  obtain s' changed where u: "update_computed_fields_no_save env u s = Some (s', changed)"
    using save by (auto simp: save_schedule_def split: option.splits)
  have later: "later_than u s'" by (rule no_save_later [OF adv u])
  have rows: "sd_schedules d' = sd_schedules (store_schedule s' d)"
    using save u by (auto simp: save_schedule_def Let_def split: if_splits)
  have mem: "x = s' \<or> x \<in> set (sd_schedules d)" if "x \<in> set (sd_schedules d')" for x
    using that unfolding rows by (auto simp: store_schedule_def split: if_splits)
  have "distinct (map sc_id (sd_schedules d'))"
    using before unfolding rows store_schedule_def
    by (auto simp: run_before_def distinct_schedules_def find_schedule_def find_None_iff comp_def
      if_distrib [of sc_id] cong: if_cong map_cong)
  then show ?thesis
    using before t later mem by (fastforce simp: run_before_def distinct_schedules_def intro: later_than_mono)
qed

lemma run_before_delete: "run_before out t d \<Longrightarrow> run_before out t (delete_schedule k d)"
  by (auto simp: run_before_def delete_schedule_def distinct_schedules_def distinct_map_filter split: option.split)

lemma trace_distinct:
  assumes "rules_advance env"
  shows "run_before out t d \<Longrightarrow> clock_runs t xs \<Longrightarrow> distinct (out @ schedule_trace env xs d)"
proof (induction xs arbitrary: out t d)
  case (Cons x xs)
  obtain new d' where step: "schedule_step env x d = (new, d')" by (meson surj_pair)
  have "\<exists>u. run_before (out @ new) u d' \<and> clock_runs u xs"
  proof (cases x)
    case (SchedulerRun acquired now clock)
    then show ?thesis
      using run_before_run [OF Cons.prems(1) assms, of now clock acquired new d'] Cons.prems(2) step by auto
  next
    case (SaveSchedule u s)
    then have "run_before out u d" using Cons.prems by (fastforce simp: run_before_def)
    then show ?thesis
      using SaveSchedule run_before_save [OF Cons.prems(1) assms, of u s] Cons.prems(2) step
      by (auto split: option.splits)
  next
    case (DeleteSchedule k)
    then show ?thesis using run_before_delete [OF Cons.prems(1)] Cons.prems(2) step by auto
  qed
  then show ?case using Cons.IH step by fastforce
qed (simp add: run_before_def)

text \<open>
  C14. Over every sequence of scheduler runs, saves and deletions of schedules, in whatever order, as long as the
  clock does not go back: no occurrence of a schedule creates more than one job.
\<close>

theorem occurrences_run_once:
  assumes "rules_advance env" "distinct_schedules d" "clock_runs t xs"
  shows "distinct (schedule_trace env xs d)"
  using trace_distinct [OF assms(1), of "[]" t d xs] assms(2,3) by (simp add: run_before_def)

section \<open>One run, exactly\<close>

text \<open>
  C15. A run in which no rule raises refreshes exactly the enabled schedules whose next run lies before this run, except
  those whose next run is the very instant of the previous one, so that their next run lies in the future,
  leaves the others as they are, and creates jobs only for schedules whose next run lies strictly between
  the two runs, in their order, each job with the schedule it comes from.
\<close>

theorem scheduler_run_exact:
  fixes d :: schedule_state and now :: int
  defines "ended \<equiv> \<lambda>s. overdue (sd_last_run d) s \<or> is_due (sd_last_run d) now s"
  assumes "rules_advance env" "distinct_schedules d" "\<And>k. now \<le> clock k" "list_all (refreshable env clock d) (sd_schedules d)"
  shows "case awx_periodic_scheduler env True now clock d of (out, d') \<Rightarrow>
    sd_schedules d' = map (\<lambda>s. if ended s then refreshed env (clock (sc_id s)) s else s) (sd_schedules d)
    \<and> list_all (\<lambda>s. ended s \<longrightarrow> later_than now (refreshed env (clock (sc_id s)) s)) (sd_schedules d)
    \<and> subseq out (map run_entry (due_schedules (sd_last_run d) now (sd_schedules d)))
    \<and> map snd (sd_origins d') = map snd (sd_origins d) @ map fst out
    \<and> sd_last_run d' = now"
proof -
  obtain out d' where run: "awx_periodic_scheduler env True now clock d = (out, d')" by (meson surj_pair)
  obtain K where K: "run_changes env now clock d out d' K" "K = sc_id ` {s \<in> set (sd_schedules d). ended s}"
    using scheduler_run_changes [OF run assms(3,2,4)] assms(5) unfolding ended_def by blast
  have mem: "sc_id s \<in> K \<longleftrightarrow> ended s" if "s \<in> set (sd_schedules d)" for s
    using K(2) that same_row [OF assms(3)] by blast
  have "sd_schedules d' = map (\<lambda>s. if ended s then refreshed env (clock (sc_id s)) s else s) (sd_schedules d)"
    using K(1) mem by (simp add: run_changes_def refresh_rows_def)
  moreover have "later_than now (refreshed env (clock (sc_id s)) s)" if "s \<in> set (sd_schedules d)" "ended s" for s
    using K(1) mem that assms(4) [of "sc_id s"] by (auto simp: run_changes_def intro: later_than_mono)
  ultimately show ?thesis using run K(1) by (simp add: run_changes_def list_all_iff)
qed

section \<open>One schedule stops all\<close>

definition schedule_end :: "scheduler_env \<Rightarrow> schedule_op list \<Rightarrow> schedule_state \<Rightarrow> schedule_state" where
  "schedule_end env xs d = fold (\<lambda>x d. snd (schedule_step env x d)) xs d"

lemma update_old_raises:
  "s \<in> set ss \<Longrightarrow> update_computed_fields_no_save env (clock (sc_id s)) s = None \<Longrightarrow>
     \<not> fst (update_old_schedules env clock ss d)"
  by (induction env clock ss d rule: update_old_schedules.induct)
    (auto simp: update_computed_fields_def split: option.splits)

definition raises_at :: "scheduler_env \<Rightarrow> schedule \<Rightarrow> int \<Rightarrow> schedule_op \<Rightarrow> bool" where
  "raises_at env b r x = (case x of
     SchedulerRun acquired now clock \<Rightarrow> r < now \<and> update_computed_fields_no_save env (clock (sc_id b)) b = None
   | _ \<Rightarrow> False)"

lemma raising_run:
  assumes ids: "distinct_schedules d" and b: "b \<in> set (sd_schedules d)" "overdue (sd_last_run d) b"
    and raises: "update_computed_fields_no_save env (clock (sc_id b)) b = None"
  obtains d' where "awx_periodic_scheduler env acquired now clock d = ([], d')" "sd_store d' = sd_store d"
    "distinct_schedules d'" "b \<in> set (sd_schedules d')" "sd_last_run d' = (if acquired then now else sd_last_run d)"
proof (cases acquired)
  case False
  then show ?thesis using that [of d] ids b(1) by (simp add: awx_periodic_scheduler_def)
next
  case True
  define d1 where "d1 = d\<lparr>sd_last_run := now\<rparr>"
  define old where "old = in_order (filter (overdue (sd_last_run d)) (sd_schedules d))"
  obtain ok d2 where old_run: "update_old_schedules env clock old d1 = (ok, d2)" by (meson surj_pair)
  have stopped: "\<not> ok"
    using update_old_raises [of b old env clock d1] b raises old_run by (simp add: old_def)
  have rows: "set old \<subseteq> set (sd_schedules d1)" "distinct (map sc_id old)" "distinct_schedules d1"
    using ids by (auto simp: old_def d1_def distinct_schedules_def distinct_map_filter intro!: distinct_in_order)
  obtain K where K: "sd_schedules d2 = refresh_rows env clock K (sd_schedules d)" "sd_store d2 = sd_store d"
      "sd_last_run d2 = now" "\<forall>k \<in> K. \<exists>s \<in> set old. sc_id s = k \<and> update_computed_fields_no_save env (clock k) s \<noteq> None"
    using update_old_keeps [OF old_run rows] by (auto simp: d1_def)
  have "sc_id b \<notin> K"
  proof
    assume "sc_id b \<in> K"
    then obtain s where "s \<in> set old" "sc_id s = sc_id b" "update_computed_fields_no_save env (clock (sc_id b)) s \<noteq> None"
      using K(4) by blast
    then show False using same_row [OF ids _ b(1), of s] raises by (auto simp: old_def)
  qed
  then have "b \<in> set (sd_schedules d2)" using K(1) b(1) by (force simp: refresh_rows_def)
  moreover have "awx_periodic_scheduler env acquired now clock d = ([], d2)"
    using True old_run stopped
    by (simp add: awx_periodic_scheduler_def d1_def [symmetric] before_enabled Let_def old_def [symmetric])
      (simp add: d1_def old_def [symmetric])
  ultimately show ?thesis using that [of d2] K ids True by (simp add: distinct_schedules_def)
qed

text \<open>
  C26. While one overdue schedule raises in the update of its fields, as it does when its last occurrence falls into the
  hour that the clocks skip, no run of the scheduler creates a job for any schedule.
\<close>

theorem scheduler_halted:
  assumes "distinct_schedules d" "b \<in> set (sd_schedules d)" "sc_enabled b" "sc_next_run b = Some r" "r < sd_last_run d"
    "list_all (raises_at env b r) xs"
  shows "schedule_trace env xs d = [] \<and> sd_store (schedule_end env xs d) = sd_store d"
  using assms(1,2,5,6)
proof (induction xs arbitrary: d)
  case (Cons x xs)
  obtain acquired now clock where x: "x = SchedulerRun acquired now clock" "r < now"
      "update_computed_fields_no_save env (clock (sc_id b)) b = None"
    using Cons.prems(4) by (auto simp: raises_at_def split: schedule_op.splits)
  have late: "overdue (sd_last_run d) b" using assms(3,4) Cons.prems(3) by (simp add: overdue_def)
  obtain d' where d': "awx_periodic_scheduler env acquired now clock d = ([], d')" "sd_store d' = sd_store d"
      "distinct_schedules d'" "b \<in> set (sd_schedules d')" "sd_last_run d' = (if acquired then now else sd_last_run d)"
    by (rule raising_run [where clock = clock, OF Cons.prems(1,2) late x(3)])
  have "r < sd_last_run d'" using x(2) Cons.prems(3) d'(5) by auto
  then show ?case using Cons.IH [OF d'(3,4)] Cons.prems(4) x(1) d' by (simp add: schedule_end_def)
qed (simp add: schedule_end_def)

section \<open>Occurrences on the instant of a run\<close>

lemma run_entries:
  assumes "awx_periodic_scheduler env acquired now clock d = (out, d')" "distinct_schedules d" "rules_advance env"
    "\<And>k. now \<le> clock k" "(k, r) \<in> set out"
  shows "sd_last_run d < r" "r < now"
proof -
  have acquired using assms(1,5) by (auto simp: awx_periodic_scheduler_def split: if_splits)
  then have run: "awx_periodic_scheduler env True now clock d = (out, d')" using assms(1) by simp
  obtain K where "run_changes env now clock d out d' K"
    using scheduler_run_changes [OF run assms(2,3,4)] by blast
  then show "sd_last_run d < r" "r < now"
    using entry_due [OF _ assms(5)] by (auto simp: run_changes_def)
qed

lemma run_last:
  assumes "awx_periodic_scheduler env True now clock d = (out, d')" "distinct_schedules d" "rules_advance env"
    "\<And>k. now \<le> clock k"
  shows "sd_last_run d' = now"
proof -
  from scheduler_run_changes [OF assms] obtain K where "run_changes env now clock d out d' K"
    by (elim exE conjE)
  then show ?thesis by (simp add: run_changes_def)
qed

lemma step_keeps_distinct:
  assumes "schedule_step env x d = (out, d')" "distinct_schedules d" "rules_advance env" "clock_runs t (x # xs)"
  shows "distinct_schedules d'" "sd_last_run d' = (case x of SchedulerRun True now clock \<Rightarrow> now | _ \<Rightarrow> sd_last_run d)"
proof -
  have start: "run_before [] t d" using assms(2) by (simp add: run_before_def)
  have "\<exists>out u. run_before out u d' \<and> sd_last_run d' = (case x of SchedulerRun True now clock \<Rightarrow> now | _ \<Rightarrow> sd_last_run d)"
  proof (cases x)
    case (SchedulerRun acquired now clock)
    then have c: "t \<le> now" "\<And>k. now \<le> clock k" and run: "awx_periodic_scheduler env acquired now clock d = (out, d')"
      using assms(1,4) by simp_all
    have "sd_last_run d' = (if acquired then now else sd_last_run d)"
    proof (cases acquired)
      case True
      then have "awx_periodic_scheduler env True now clock d = (out, d')" using run by simp
      from run_last [OF this assms(2,3) c(2)] show ?thesis using True by simp
    next
      case False
      then show ?thesis using run by (simp add: awx_periodic_scheduler_def)
    qed
    then show ?thesis
      using run_before_run [OF start assms(3) c run] SchedulerRun by (cases acquired) auto
  next
    case (SaveSchedule u s)
    have "sd_last_run d' = sd_last_run d"
      using assms(1) SaveSchedule
      by (auto simp: save_schedule_def store_schedule_def Let_def split: option.splits if_splits)
    then show ?thesis
      using run_before_save [OF start assms(3), of u s d'] start assms(1,4) SaveSchedule
      by (auto split: option.splits)
  next
    case (DeleteSchedule k)
    then show ?thesis
      using run_before_delete [OF start, of k] assms(1)
      by (auto simp: delete_schedule_def split: option.splits)
  qed
  then show "distinct_schedules d'" "sd_last_run d' = (case x of SchedulerRun True now clock \<Rightarrow> now | _ \<Rightarrow> sd_last_run d)"
    by (auto simp: run_before_def)
qed

text \<open>All that is run lies after the last run before it.\<close>

lemma trace_after:
  assumes "rules_advance env"
  shows "distinct_schedules d \<Longrightarrow> clock_runs t xs \<Longrightarrow> a \<le> sd_last_run d \<Longrightarrow> a \<le> t \<Longrightarrow>
    (k, r) \<in> set (schedule_trace env xs d) \<Longrightarrow> a < r"
proof (induction xs arbitrary: d t)
  case (Cons x xs)
  obtain out d' where step: "schedule_step env x d = (out, d')" by (meson surj_pair)
  note e = step_keeps_distinct [OF step Cons.prems(1) assms Cons.prems(2)]
  obtain u where u: "clock_runs u xs" "t \<le> u" "a \<le> sd_last_run d'"
    using Cons.prems(2,3,4) e(2) by (cases x) (fastforce split: bool.splits)+
  show ?case
  proof (cases "(k, r) \<in> set out")
    case True
    then obtain acquired now clock where "x = SchedulerRun acquired now clock" "\<And>k. now \<le> clock k"
        "awx_periodic_scheduler env acquired now clock d = (out, d')"
      using step Cons.prems(2) by (cases x) auto
    then show ?thesis using run_entries(1) [OF _ Cons.prems(1) assms _ True] Cons.prems(3) by fastforce
  next
    case False
    then have "(k, r) \<in> set (schedule_trace env xs d')" using Cons.prems(5) step by simp
    then show ?thesis using Cons.IH [OF e(1) u(1,3)] Cons.prems(4) u(2) by simp
  qed
qed simp

lemma clock_until: "clock_runs t xs \<Longrightarrow> SchedulerRun acquired now clock \<in> set xs \<Longrightarrow> t \<le> now"
  by (induction t xs rule: clock_runs.induct) auto

text \<open>
  An occurrence that falls on the very instant of a run of the scheduler never creates a job, neither in
  that run nor in any other, whatever is saved or deleted in between.
\<close>

theorem occurrence_at_run_skipped:
  assumes "rules_advance env" "distinct_schedules d" "clock_runs t xs" "SchedulerRun True now clock \<in> set xs"
  shows "(k, now) \<notin> set (schedule_trace env xs d)"
  using assms(2-4)
proof (induction xs arbitrary: d t)
  case (Cons x xs)
  obtain out d' where step: "schedule_step env x d = (out, d')" by (meson surj_pair)
  note e = step_keeps_distinct [OF step Cons.prems(1) assms(1) Cons.prems(2)]
  have past: "(k, now) \<notin> set out"
  proof
    assume mem: "(k, now) \<in> set out"
    then obtain acquired now' clock' where x: "x = SchedulerRun acquired now' clock'" "\<And>k. now' \<le> clock' k"
        "clock_runs now' xs" "awx_periodic_scheduler env acquired now' clock' d = (out, d')"
      using step Cons.prems(2) by (cases x) auto
    have "now < now'" using run_entries(2) [OF x(4) Cons.prems(1) assms(1) x(2) mem] by simp
    moreover have "now' \<le> now" using Cons.prems(3) x(1,3) clock_until by auto
    ultimately show False by simp
  qed
  have "(k, now) \<notin> set (schedule_trace env xs d')"
  proof (cases "SchedulerRun True now clock \<in> set xs")
    case True
    obtain u where "clock_runs u xs" using Cons.prems(2) by (cases x) auto
    then show ?thesis using Cons.IH [OF e(1) _ True] by blast
  next
    case False
    then have "clock_runs now xs" "sd_last_run d' = now" using Cons.prems(2,3) e(2) by auto
    then show ?thesis using trace_after [OF assms(1) e(1), of now xs now k now] by auto
  qed
  then show ?case using past step by simp
qed simp

section \<open>The next run of a template\<close>

lemma find_map_update:
  "(\<And>t. ut_id (f t) = ut_id t) \<Longrightarrow> find (\<lambda>t. ut_id t = k) (map (\<lambda>t. if ut_id t = k then f t else t) ts)
    = map_option f (find (\<lambda>t. ut_id t = k) ts)"
  by (induction ts) auto

text \<open>The next runs of the enabled schedules of a template.\<close>

definition enabled_runs :: "pk \<Rightarrow> schedule_state \<Rightarrow> int set" where
  "enabled_runs k d = {r. \<exists>s \<in> set (sd_schedules d). sc_template s = k \<and> sc_enabled s \<and> sc_next_run s = Some r}"

lemma enabled_runs_related: "enabled_runs k d = (\<lambda>s. the (sc_next_run s)) ` set (related_schedules k d)"
  by (auto simp: enabled_runs_def related_schedules_def image_iff) (metis option.sel)

lemma related_first:
  assumes "related_schedules k d = h # rest"
  shows "sc_next_run h = Some (Max (enabled_runs k d))" and "h \<in> set (sd_schedules d)" "sc_template h = k" "sc_enabled h"
proof -
  have mem: "h \<in> set (related_schedules k d)" by (simp add: assms)
  then have h: "h \<in> set (sd_schedules d) \<and> sc_template h = k \<and> sc_enabled h \<and> sc_next_run h \<noteq> None"
    by (auto simp: related_schedules_def)
  then show "h \<in> set (sd_schedules d)" "sc_template h = k" "sc_enabled h" by simp_all
  have "sorted (map (\<lambda>s. - the (sc_next_run s)) (h # rest))"
    unfolding assms [symmetric] related_schedules_def by simp
  then have le: "the (sc_next_run s) \<le> the (sc_next_run h)" if "s \<in> set (related_schedules k d)" for s
    using that assms by auto
  have "Max (enabled_runs k d) = the (sc_next_run h)"
    unfolding enabled_runs_related
    by (rule Max_eqI) (use le mem in auto)
  with h show "sc_next_run h = Some (Max (enabled_runs k d))" by auto
qed

lemma updated_template:
  assumes "find_unified k d = Some t"
  shows "find_unified k (update_template_fields k d) = Some (case related_schedules k d of [] \<Rightarrow> t
    | h # rest \<Rightarrow> t\<lparr>ut_next_schedule := Some (sc_id h), ut_next_job_run := sc_next_run h\<rparr>)"
  using assms by (simp add: find_unified_def update_template_fields_def find_map_update split: list.split)

text \<open>
  C40. The field of a template that holds its next run is set to the latest, not the next, of the next runs of
  its enabled schedules: after an update of the template's fields its value is the maximum of these next
  runs, and the schedule that the template then names is an enabled one of its own that has this next run. If no
  enabled schedule of the template has a next run, both fields keep what they held.
\<close>

theorem next_job_run_is_latest:
  assumes "find_unified k d = Some t"
  shows "\<exists>t'. find_unified k (update_template_fields k d) = Some t' \<and>
    (if enabled_runs k d = {} then t' = t
     else ut_next_job_run t' = Some (Max (enabled_runs k d)) \<and>
       (\<exists>s \<in> set (sd_schedules d). ut_next_schedule t' = Some (sc_id s) \<and> sc_template s = k \<and> sc_enabled s \<and>
          sc_next_run s = Some (Max (enabled_runs k d))))"
proof (cases "related_schedules k d")
  case Nil
  then show ?thesis by (simp add: updated_template [OF assms] enabled_runs_related)
next
  case (Cons h rest)
  then have "enabled_runs k d \<noteq> {}" by (simp add: enabled_runs_related)
  moreover have "find_unified k (update_template_fields k d) =
      Some (t\<lparr>ut_next_schedule := Some (sc_id h), ut_next_job_run := sc_next_run h\<rparr>)"
    by (simp add: updated_template [OF assms] Cons)
  ultimately show ?thesis using related_first [OF Cons] by (auto intro!: bexI [of _ h])
qed

section \<open>An example\<close>

text \<open>
  One rule fires at every hundred; the other has a last occurrence at 150, in the hour that the clocks skip.
\<close>

definition example_rules :: "string \<Rightarrow> int \<Rightarrow> ruleset option" where
  "example_rules text t =
     Some (if text = ''nightly''
       then \<lparr>rs_after = (\<lambda>u. Some ((u div 100 + 1) * 100, True)), rs_first = Some 0, rs_last = None, rs_ending = [False]\<rparr>
       else \<lparr>rs_after = (\<lambda>u. if u < 150 then Some (150, False) else None), rs_first = Some 50, rs_last = Some 150,
              rs_ending = [True]\<rparr>)"

definition schedule_env :: scheduler_env where
  "schedule_env = \<lparr>en_rule = example_rules, en_tools = example_tools,
     en_parsers = parsers.make (\<lambda>_. None) (\<lambda>_. None) (\<lambda>_. True),
     en_max_jobs = 10, en_invalid_license = None\<rparr>"

definition example_schedule :: "pk \<Rightarrow> string \<Rightarrow> int \<Rightarrow> schedule" where
  "example_schedule k rule r = \<lparr>sc_id = k, sc_template = 5, sc_enabled = True, sc_rrule = rule, sc_next_run = Some r,
     sc_dtstart = Some 0, sc_dtend = None, sc_extra_data = JObj [], sc_survey_passwords = []\<rparr>"

definition scheduled_at :: "int \<Rightarrow> schedule list \<Rightarrow> schedule_state" where
  "scheduled_at t ss = \<lparr>sd_last_run = t, sd_schedules = ss,
     sd_templates = [\<lparr>ut_id = 5, ut_kind = StartsJobs, ut_launch = example_template [], ut_last_job_run = None,
       ut_next_schedule = None, ut_next_job_run = None\<rparr>],
     sd_store = empty_store, sd_origins = [], sd_explanations = [], sd_emitted = []\<rparr>"

lemma schedule_env_advances: "rules_advance schedule_env"
  by (auto simp: rules_advance_def schedule_env_def example_rules_def split: if_splits)

lemma scheduled_simps [simp]:
  "sd_schedules (scheduled_at t ss) = ss" "sd_last_run (scheduled_at t ss) = t"
  "map ut_id (sd_templates (scheduled_at t ss)) = [5]" "distinct_schedules (scheduled_at t ss) = distinct (map sc_id ss)"
  by (simp_all add: scheduled_at_def distinct_schedules_def)

lemma example_schedule_simps [simp]:
  "sc_id (example_schedule k rule r) = k" "sc_template (example_schedule k rule r) = 5"
  "sc_enabled (example_schedule k rule r)" "sc_next_run (example_schedule k rule r) = Some r"
  by (simp_all add: example_schedule_def)

lemma nightly_update:
  "update_computed_fields_no_save schedule_env t (example_schedule k ''nightly'' r)
    = Some (example_schedule k ''nightly'' ((t div 100 + 1) * 100), r \<noteq> (t div 100 + 1) * 100)"
  by (auto simp: update_computed_fields_no_save_def schedule_env_def example_rules_def example_schedule_def
      next_run_actual_def get_end_date_def)

lemma scheduler_run_exact_witness:
  "case awx_periodic_scheduler schedule_env True 120 (\<lambda>_. 121) (scheduled_at 90 [example_schedule 1 ''nightly'' 100]) of
     (out, d') \<Rightarrow> map sc_next_run (sd_schedules d') = [Some 200]"
  using scheduler_run_exact [of schedule_env "scheduled_at 90 [example_schedule 1 ''nightly'' 100]" 120 "\<lambda>_. 121"]
    schedule_env_advances
  by (simp add: refreshable_def nightly_update overdue_def is_due_def refreshed_def split: prod.splits)

lemma occurrences_run_once_witness:
  "distinct (schedule_trace schedule_env
     [SchedulerRun True 120 (\<lambda>_. 121), SaveSchedule 130 (example_schedule 1 ''nightly'' 100), SchedulerRun True 250 (\<lambda>_. 250)]
     (scheduled_at 90 [example_schedule 1 ''nightly'' 100]))"
  by (rule occurrences_run_once [OF schedule_env_advances, of _ 0]) simp_all

text \<open>The job of the second schedule at 100 is not created by the runs at 120 and 140.\<close>

lemma scheduler_halted_witness:
  "schedule_trace schedule_env [SchedulerRun True 120 (\<lambda>_. 121), SchedulerRun True 140 (\<lambda>_. 141)]
     (scheduled_at 60 [example_schedule 2 ''until'' 50, example_schedule 1 ''nightly'' 100]) = []"
  using scheduler_halted [of "scheduled_at 60 [example_schedule 2 ''until'' 50, example_schedule 1 ''nightly'' 100]"
      "example_schedule 2 ''until'' 50" 50 schedule_env "[SchedulerRun True 120 (\<lambda>_. 121), SchedulerRun True 140 (\<lambda>_. 141)]"]
  by (simp add: raises_at_def update_computed_fields_no_save_def schedule_env_def example_rules_def
      next_run_actual_def example_schedule_def)

lemma occurrence_at_run_skipped_witness:
  "(1, 100) \<notin> set (schedule_trace schedule_env [SchedulerRun True 100 (\<lambda>_. 101), SchedulerRun True 130 (\<lambda>_. 131)]
     (scheduled_at 90 [example_schedule 1 ''nightly'' 100]))"
  by (rule occurrence_at_run_skipped [OF schedule_env_advances, of _ 0 _ _ "\<lambda>_. 101"]) simp_all

text \<open>The later of two nightly runs; the schedule of another template and the disabled one do not count.\<close>

definition four_schedules :: schedule_state where
  "four_schedules = scheduled_at 90 [example_schedule 1 ''nightly'' 100, example_schedule 2 ''nightly'' 900,
     (example_schedule 3 ''nightly'' 1000)\<lparr>sc_template := 6\<rparr>, (example_schedule 4 ''nightly'' 1100)\<lparr>sc_enabled := False\<rparr>]"

lemma next_job_run_is_latest_witness:
  "\<exists>t'. find_unified 5 (update_template_fields 5 four_schedules) = Some t' \<and> ut_next_job_run t' = Some 900"
proof -
  have runs: "enabled_runs 5 four_schedules = {100, 900}"
    by (auto simp: enabled_runs_def four_schedules_def scheduled_at_def example_schedule_def)
  have "\<exists>t. find_unified 5 four_schedules = Some t"
    by (simp add: find_unified_def four_schedules_def scheduled_at_def)
  then obtain t where "find_unified 5 four_schedules = Some t" by blast
  from next_job_run_is_latest [OF this] show ?thesis by (auto simp: runs)
qed

end
