(* ===== verification/Iso_Times.thy ===== *)
theory Iso_Times
  imports Python_Values
begin

text \<open>
  Calendar times of Python: \<open>datetime\<close> values, \<open>isoformat\<close>, the reader \<open>fromisoformat\<close> for the texts
  that \<open>isoformat\<close> writes (it accepts further forms, which no modelled code produces), and the
  instant of a time in microseconds from the beginning of the calendar.
\<close>

section \<open>Numbers of fixed width\<close>

fun digits_of :: "nat \<Rightarrow> nat \<Rightarrow> string" where
  "digits_of 0 n = []"
| "digits_of (Suc w) n = digits_of w (n div 10) @ [char_of (48 + n mod 10)]"

fun take_digits :: "nat \<Rightarrow> nat \<Rightarrow> string \<Rightarrow> (nat \<times> string) option" where
  "take_digits 0 acc s = Some (acc, s)"
| "take_digits (Suc w) acc [] = None"
| "take_digits (Suc w) acc (c # s) =
     (if is_digit c then take_digits w (10 * acc + (of_char c - 48)) s else None)"

definition take_char :: "char \<Rightarrow> string \<Rightarrow> string option" where
  "take_char c s = (case s of [] \<Rightarrow> None | d # s' \<Rightarrow> if d = c then Some s' else None)"

lemma is_digit_char: "n < 10 \<Longrightarrow> is_digit (char_of (48 + n))" for n :: nat
  by (simp add: is_digit_def Let_def)

lemma take_digits_of:
  "n < 10 ^ w \<Longrightarrow> take_digits w acc (digits_of w n @ s) = Some (acc * 10 ^ w + n, s)"
proof (induction w arbitrary: n s)
  case (Suc w)
  have d: "n mod 10 < 10" "n div 10 < 10 ^ w" using Suc.prems by (simp_all add: less_mult_imp_div_less)
  have one: "take_digits 1 a (char_of (48 + n mod 10) # s) = Some (10 * a + n mod 10, s)" for a
    using d by (simp add: is_digit_char)
  have split: "take_digits (v + 1) a t = (case take_digits v a t of None \<Rightarrow> None
      | Some (b, r) \<Rightarrow> take_digits 1 b r)" for v a t
    by (induction v a t rule: take_digits.induct) (auto split: list.splits)
  have "take_digits (Suc w) acc (digits_of (Suc w) n @ s)
      = take_digits 1 (acc * 10 ^ w + n div 10) (char_of (48 + n mod 10) # s)"
    using split [of w acc "digits_of (Suc w) n @ s"] Suc.IH [OF d(2)] by simp
  also have "\<dots> = Some (10 * (acc * 10 ^ w + n div 10) + n mod 10, s)" by (rule one)
  also have "10 * (acc * 10 ^ w + n div 10) + n mod 10 = acc * 10 ^ Suc w + n"
    by (simp add: algebra_simps)
  finally show ?case .
qed simp

section \<open>Times\<close>

text \<open>A \<open>datetime\<close>; the offset from UTC is in seconds, a naive time has none.\<close>

record datetime =
  dt_year :: nat
  dt_month :: nat
  dt_day :: nat
  dt_hour :: nat
  dt_minute :: nat
  dt_second :: nat
  dt_micro :: nat
  dt_offset :: "int option"

definition leap_year :: "nat \<Rightarrow> bool" where
  "leap_year y \<longleftrightarrow> y mod 4 = 0 \<and> (y mod 100 \<noteq> 0 \<or> y mod 400 = 0)"

definition days_in_month :: "nat \<Rightarrow> nat \<Rightarrow> nat" where
  "days_in_month y m = (if m = 2 \<and> leap_year y then 29
     else [31, 28, 31, 30, 31, 30, 31, 31, 30, 31, 30, 31] ! (m - 1))"

definition valid_time :: "datetime \<Rightarrow> bool" where
  "valid_time d \<longleftrightarrow> 1 \<le> dt_year d \<and> dt_year d \<le> 9999 \<and> 1 \<le> dt_month d \<and> dt_month d \<le> 12
     \<and> 1 \<le> dt_day d \<and> dt_day d \<le> days_in_month (dt_year d) (dt_month d)
     \<and> dt_hour d < 24 \<and> dt_minute d < 60 \<and> dt_second d < 60 \<and> dt_micro d < 1000000
     \<and> (case dt_offset d of None \<Rightarrow> True | Some z \<Rightarrow> \<bar>z\<bar> < 86400)"

section \<open>Writing and reading\<close>

definition offset_text :: "int \<Rightarrow> string" where
  "offset_text z =
     (let a = nat \<bar>z\<bar>
      in (if z < 0 then ''-'' else ''+'') @ digits_of 2 (a div 3600) @ '':'' @ digits_of 2 (a div 60 mod 60)
         @ (if a mod 60 = 0 then [] else '':'' @ digits_of 2 (a mod 60)))"

definition isoformat :: "datetime \<Rightarrow> string" where
  "isoformat d =
     digits_of 4 (dt_year d) @ ''-'' @ digits_of 2 (dt_month d) @ ''-'' @ digits_of 2 (dt_day d) @ ''T''
     @ digits_of 2 (dt_hour d) @ '':'' @ digits_of 2 (dt_minute d) @ '':'' @ digits_of 2 (dt_second d)
     @ (if dt_micro d = 0 then [] else ''.'' @ digits_of 6 (dt_micro d))
     @ (case dt_offset d of None \<Rightarrow> [] | Some z \<Rightarrow> offset_text z)"

text \<open>The next number of a text, after a character that must stand in front of it.\<close>

definition next_number :: "char \<Rightarrow> nat \<Rightarrow> string \<Rightarrow> (nat \<times> string) option" where
  "next_number c w s = Option.bind (take_char c s) (take_digits w 0)"

definition optional_number :: "char \<Rightarrow> nat \<Rightarrow> string \<Rightarrow> (nat \<times> string) option" where
  "optional_number c w s = (if startswith s [c] then next_number c w s else Some (0, s))"

definition read_offset :: "string \<Rightarrow> int option option" where
  "read_offset s =
     (if s = [] then Some None
      else if hd s \<noteq> CHR ''+'' \<and> hd s \<noteq> CHR ''-'' then None
      else case next_number (hd s) 2 s of None \<Rightarrow> None
        | Some (h, s1) \<Rightarrow> (case next_number (CHR '':'') 2 s1 of None \<Rightarrow> None
        | Some (m, s2) \<Rightarrow> (case optional_number (CHR '':'') 2 s2 of None \<Rightarrow> None
        | Some (x, s3) \<Rightarrow>
            (if s3 \<noteq> [] then None
             else let z = int (h * 3600 + m * 60 + x) in Some (Some (if hd s = CHR ''-'' then - z else z))))))"

definition read_time :: "nat \<Rightarrow> nat \<Rightarrow> nat \<Rightarrow> string \<Rightarrow> datetime option" where
  "read_time y mo d s =
     (case next_number (CHR ''T'') 2 s of None \<Rightarrow> None
      | Some (h, s1) \<Rightarrow> (case next_number (CHR '':'') 2 s1 of None \<Rightarrow> None
      | Some (mi, s2) \<Rightarrow> (case next_number (CHR '':'') 2 s2 of None \<Rightarrow> None
      | Some (sec, s3) \<Rightarrow> (case optional_number (CHR ''.'') 6 s3 of None \<Rightarrow> None
      | Some (us, s4) \<Rightarrow> (case read_offset s4 of None \<Rightarrow> None
      | Some z \<Rightarrow>
          let t = \<lparr>dt_year = y, dt_month = mo, dt_day = d, dt_hour = h, dt_minute = mi,
                   dt_second = sec, dt_micro = us, dt_offset = z\<rparr>
          in if valid_time t then Some t else None)))))"

text \<open>\<open>None\<close> is \<open>ValueError\<close>.\<close>

definition fromisoformat :: "string \<Rightarrow> datetime option" where
  "fromisoformat s =
     (case take_digits 4 0 s of None \<Rightarrow> None
      | Some (y, s1) \<Rightarrow> (case next_number (CHR ''-'') 2 s1 of None \<Rightarrow> None
      | Some (mo, s2) \<Rightarrow> (case next_number (CHR ''-'') 2 s2 of None \<Rightarrow> None
      | Some (d, s3) \<Rightarrow> read_time y mo d s3)))"

lemma next_number_written: "n < 10 ^ w \<Longrightarrow> next_number c w (c # digits_of w n @ s) = Some (n, s)"
  by (simp add: next_number_def take_char_def take_digits_of)

lemma optional_number_written:
  "n < 10 ^ w \<Longrightarrow> optional_number c w (c # digits_of w n @ s) = Some (n, s)"
  by (simp add: optional_number_def startswith_def next_number_written)

lemma optional_number_other: "\<not> startswith s [c] \<Longrightarrow> optional_number c w s = Some (0, s)"
  by (simp add: optional_number_def)

lemma read_offset_parts:
  assumes "h < 10 ^ 2" "m < 10 ^ 2" "x < 10 ^ 2" "c = CHR ''+'' \<or> c = CHR ''-''"
  shows "read_offset (c # digits_of 2 h @ CHR '':'' # digits_of 2 m
      @ (if x = 0 then [] else CHR '':'' # digits_of 2 x))
    = Some (Some (if c = CHR ''-'' then - int (h * 3600 + m * 60 + x) else int (h * 3600 + m * 60 + x)))"
proof -
  have "optional_number (CHR '':'') 2 (if x = 0 then [] else CHR '':'' # digits_of 2 x) = Some (x, [])"
    using optional_number_written [OF assms(3), of "CHR '':''" "[]"]
    by (simp add: optional_number_other startswith_def)
  then show ?thesis
    using assms(4)
    by (simp only: read_offset_def next_number_written [OF assms(1)] next_number_written [OF assms(2)]
        option.case prod.case list.sel) (auto simp: Let_def)
qed

lemma read_offset_written:
  assumes "\<bar>z\<bar> < 86400"
  shows "read_offset (offset_text z) = Some (Some z)"
proof -
  define a where "a = nat \<bar>z\<bar>"
  define c where "c = (if z < 0 then CHR ''-'' else CHR ''+'')"
  have small: "a div 3600 < 10 ^ 2" "a div 60 mod 60 < 10 ^ 2" "a mod 60 < 10 ^ 2"
  proof -
    have "a < 86400" using assms by (simp add: a_def)
    then show "a div 3600 < 10 ^ 2" by (simp add: less_mult_imp_div_less)
    have "a div 60 mod 60 < 60" "a mod 60 < 60" by (rule mod_less_divisor, simp)+
    then show "a div 60 mod 60 < 10 ^ 2" "a mod 60 < 10 ^ 2" by simp_all
  qed
  have sum: "a div 3600 * 3600 + a div 60 mod 60 * 60 + a mod 60 = a"
  proof -
    have "a div 3600 = a div 60 div 60" by (simp add: div_mult2_eq [symmetric])
    then show ?thesis
      using div_mult_mod_eq [of a 60] div_mult_mod_eq [of "a div 60" 60] by linarith
  qed
  have written: "offset_text z = c # digits_of 2 (a div 3600) @ CHR '':'' # digits_of 2 (a div 60 mod 60)
      @ (if a mod 60 = 0 then [] else CHR '':'' # digits_of 2 (a mod 60))"
    unfolding offset_text_def Let_def a_def [symmetric]
    by (cases "z < 0"; cases "a mod 60 = 0") (simp_all only: c_def if_True if_False append.simps)
  have "read_offset (offset_text z) = Some (Some (if c = CHR ''-'' then - int a else int a))"
    unfolding written by (subst read_offset_parts [OF small]) (simp_all only: sum, simp add: c_def)
  also have "(if c = CHR ''-'' then - int a else int a) = z" by (simp add: a_def c_def)
  finally show ?thesis .
qed

text \<open>Reading what \<open>isoformat\<close> writes gives the time back.\<close>

lemma fromisoformat_isoformat:
  assumes "valid_time d"
  shows "fromisoformat (isoformat d) = Some d"
proof -
  have small: "dt_year d < 10 ^ 4" "dt_month d < 10 ^ 2" "dt_day d < 10 ^ 2" "dt_hour d < 10 ^ 2"
      "dt_minute d < 10 ^ 2" "dt_second d < 10 ^ 2" "dt_micro d < 10 ^ 6"
    using assms by (auto simp: valid_time_def days_in_month_def nth_Cons' split: if_splits)
  define z where "z = (case dt_offset d of None \<Rightarrow> [] | Some z \<Rightarrow> offset_text z)"
  have offset: "read_offset z = Some (dt_offset d)"
    using assms
    by (cases "dt_offset d") (auto simp: z_def valid_time_def read_offset_written, simp add: read_offset_def)
  have "\<not> startswith z [CHR ''.'']"
    by (auto simp: z_def offset_text_def Let_def startswith_def split: option.splits)
  then have micro: "optional_number (CHR ''.'') 6 ((if dt_micro d = 0 then [] else ''.'' @ digits_of 6 (dt_micro d)) @ z)
      = Some (dt_micro d, z)"
    using small(7) by (auto simp: optional_number_other optional_number_written)
  have eta: "\<lparr>dt_year = dt_year d, dt_month = dt_month d, dt_day = dt_day d, dt_hour = dt_hour d,
      dt_minute = dt_minute d, dt_second = dt_second d, dt_micro = dt_micro d, dt_offset = dt_offset d\<rparr> = d"
    by (cases d) simp
  show ?thesis
    using small micro offset assms
    by (simp add: eta fromisoformat_def isoformat_def z_def [symmetric] take_digits_of read_time_def
        next_number_written Let_def)
qed

section \<open>Instants\<close>

definition days_before_year :: "nat \<Rightarrow> nat" where
  "days_before_year y = (let n = y - 1 in n * 365 + n div 4 - n div 100 + n div 400)"

definition days_before_month :: "nat \<Rightarrow> nat \<Rightarrow> nat" where
  "days_before_month y m = sum_list (map (days_in_month y) [1..<m])"

definition ordinal :: "datetime \<Rightarrow> nat" where
  "ordinal d = days_before_year (dt_year d) + days_before_month (dt_year d) (dt_month d) + dt_day d"

text \<open>\<open>replace(tzinfo=timezone.utc)\<close> of a naive time.\<close>

definition as_utc :: "datetime \<Rightarrow> datetime" where
  "as_utc d = (if dt_offset d = None then d\<lparr>dt_offset := Some 0\<rparr> else d)"

definition instant :: "datetime \<Rightarrow> int" where
  "instant d =
     (int (ordinal d * 86400 + dt_hour d * 3600 + dt_minute d * 60 + dt_second d)
       - (case dt_offset d of None \<Rightarrow> 0 | Some z \<Rightarrow> z)) * 1000000 + int (dt_micro d)"

end
