(* ===== verification/Recommendations.thy ===== *)
theory Recommendations
  imports Iso_Times
begin

text \<open>
  The recommendations (\<open>main/recommendations\<close>, \<open>api/views/recommendations.py\<close>): the context that is read from
  the database and kept for a minute, the twelve rules, and the answer to a request. An argument is the
  check of a password against a stored hash. A table is a list of rows; a row whose columns are
  looked up by name is an object. Clocks are microseconds since 1970, divided where the code uses seconds.
\<close>

section \<open>Data\<close>

definition SEVERITY_INFO :: string where "SEVERITY_INFO = ''info''"
definition SEVERITY_WARN :: string where "SEVERITY_WARN = ''warn''"
definition SEVERITY_CRITICAL :: string where "SEVERITY_CRITICAL = ''critical''"

definition rec_severity_order :: "(string \<times> nat) list" where
  "rec_severity_order = [(SEVERITY_CRITICAL, 0), (SEVERITY_WARN, 1), (SEVERITY_INFO, 2)]"

record recommendation =
  rec_id :: string
  rec_scope :: string
  rec_severity :: string
  rec_title :: string
  rec_why :: string
  rec_action_link :: string

definition rec_to_dict :: "recommendation \<Rightarrow> (string \<times> string) list" where
  "rec_to_dict r = [(''id'', rec_id r), (''scope'', rec_scope r), (''severity'', rec_severity r),
     (''title'', rec_title r), (''why'', rec_why r), (''action_link'', rec_action_link r)]"

record rule_context =
  scanners_enabled_count :: nat
  policies_total :: nat
  policies_enforce_count :: nat
  organizations_total :: nat
  tenancy_enabled :: bool
  otel_enabled :: bool
  job_templates_total :: nat
  schedules_total :: nat
  catalog_items_total :: nat
  surveys_total :: nat
  drift_detections_total :: nat
  projects :: "(string \<times> string option) list"
  tenant_usage :: "(string \<times> rat) list"
  teams_count :: nat
  admin_default_password :: bool

definition RuleContext :: rule_context where
  "RuleContext = \<lparr>scanners_enabled_count = 0, policies_total = 0, policies_enforce_count = 0,
     organizations_total = 0, tenancy_enabled = False, otel_enabled = False, job_templates_total = 0,
     schedules_total = 0, catalog_items_total = 0, surveys_total = 0, drift_detections_total = 0,
     projects = [], tenant_usage = [], teams_count = 0, admin_default_password = False\<rparr>"

section \<open>Rules\<close>

definition rule_no_scanners :: "rule_context \<Rightarrow> recommendation option" where
  "rule_no_scanners ctx =
     (if job_templates_total ctx > 0 \<and> scanners_enabled_count ctx = 0
      then Some \<lparr>rec_id = ''no_scanners'', rec_scope = ''compliance'', rec_severity = SEVERITY_WARN,
        rec_title = ''No IaC scanners configured'',
        rec_why = ''You have job templates but no IaC scanners. Enable scanning to catch unsafe playbooks before they run.'',
        rec_action_link = ''/wizards/compliance''\<rparr>
      else None)"

definition rule_all_policies_warn :: "rule_context \<Rightarrow> recommendation option" where
  "rule_all_policies_warn ctx =
     (if policies_total ctx > 0 \<and> policies_enforce_count ctx = 0
      then Some \<lparr>rec_id = ''all_policies_warn'', rec_scope = ''compliance'', rec_severity = SEVERITY_INFO,
        rec_title = ''All policies are in warn mode'',
        rec_why = ''None of your policies are currently enforcing. Promote tested policies to enforce to actually block violations.'',
        rec_action_link = ''/policies''\<rparr>
      else None)"

definition rule_multi_org_no_tenancy :: "rule_context \<Rightarrow> recommendation option" where
  "rule_multi_org_no_tenancy ctx =
     (if organizations_total ctx > 1 \<and> \<not> tenancy_enabled ctx
      then Some \<lparr>rec_id = ''multi_org_no_tenancy'', rec_scope = ''tenancy'', rec_severity = SEVERITY_WARN,
        rec_title = ''Multiple organizations without tenancy'',
        rec_why = ''You have more than one organization but tenancy is disabled. Enable tenancy to enforce quotas and isolation.'',
        rec_action_link = ''/wizards/tenancy''\<rparr>
      else None)"

definition rule_no_observability :: "rule_context \<Rightarrow> recommendation option" where
  "rule_no_observability ctx =
     (if \<not> otel_enabled ctx
      then Some \<lparr>rec_id = ''no_observability'', rec_scope = ''dashboard'', rec_severity = SEVERITY_INFO,
        rec_title = ''Observability is not enabled'',
        rec_why = ''OpenTelemetry exporters are off. Enable them to get traces, metrics, and logs flowing to your backend.'',
        rec_action_link = ''/wizards/observability''\<rparr>
      else None)"

text \<open>One project of the loop: never synced, synced too long ago, or a text that is no time.\<close>

definition microseconds :: "int \<Rightarrow> int" where
  "microseconds days = days * 86400 * 1000000"

definition epoch :: int where
  "epoch = instant \<lparr>dt_year = 1970, dt_month = 1, dt_day = 1, dt_hour = 0, dt_minute = 0, dt_second = 0,
     dt_micro = 0, dt_offset = Some 0\<rparr>"

definition is_stale :: "int \<Rightarrow> string option \<Rightarrow> bool" where
  "is_stale now last_sync =
     (let threshold = epoch + now - microseconds 14
      in case last_sync of None \<Rightarrow> True
         | Some s \<Rightarrow> (case fromisoformat s of None \<Rightarrow> True | Some ts \<Rightarrow> instant (as_utc ts) < threshold))"

fun stale_project_loop :: "int \<Rightarrow> (string \<times> string option) list \<Rightarrow> recommendation option" where
  "stale_project_loop now [] = None"
| "stale_project_loop now ((name, last_sync) # ps) =
     (if is_stale now last_sync
      then Some \<lparr>rec_id = ''stale_project'', rec_scope = ''automation'', rec_severity = SEVERITY_INFO,
        rec_title = ''Stale project detected'',
        rec_why = ''Project \"'' @ name @ ''\" has not been synced in over 14 days. Re-sync to pick up upstream changes.'',
        rec_action_link = ''/projects''\<rparr>
      else stale_project_loop now ps)"

definition rule_stale_project :: "int \<Rightarrow> rule_context \<Rightarrow> recommendation option" where
  "rule_stale_project now ctx = stale_project_loop now (projects ctx)"

definition rule_no_schedules :: "rule_context \<Rightarrow> recommendation option" where
  "rule_no_schedules ctx =
     (if job_templates_total ctx > 0 \<and> schedules_total ctx = 0
      then Some \<lparr>rec_id = ''no_schedules'', rec_scope = ''automation'', rec_severity = SEVERITY_INFO,
        rec_title = ''No schedules defined'',
        rec_why = ''You have job templates but no schedules. Add schedules to run them automatically.'',
        rec_action_link = ''/schedules''\<rparr>
      else None)"

definition rule_no_drift :: "rule_context \<Rightarrow> recommendation option" where
  "rule_no_drift ctx =
     (if job_templates_total ctx > 0 \<and> drift_detections_total ctx = 0
      then Some \<lparr>rec_id = ''no_drift'', rec_scope = ''compliance'', rec_severity = SEVERITY_INFO,
        rec_title = ''Drift detection not running'',
        rec_why = ''No drift detections recorded. Configure drift checks so configuration changes outside Forail are caught early.'',
        rec_action_link = ''/wizards/compliance''\<rparr>
      else None)"

text \<open>The comparison with half of the templates is doubled.\<close>

definition rule_few_surveys :: "rule_context \<Rightarrow> recommendation option" where
  "rule_few_surveys ctx =
     (if job_templates_total ctx < 2 then None
      else if job_templates_total ctx > 0 \<and> 2 * surveys_total ctx < job_templates_total ctx
      then Some \<lparr>rec_id = ''few_surveys'', rec_scope = ''self_service'', rec_severity = SEVERITY_INFO,
        rec_title = ''Few job templates expose surveys'',
        rec_why = ''Less than half of your job templates expose a survey. Surveys make templates self-service friendly.'',
        rec_action_link = ''/job_templates''\<rparr>
      else None)"

text \<open>\<open>{pct:.0f}\<close>: the nearest integer, the even one of two.\<close>

definition round_half_even :: "rat \<Rightarrow> int" where
  "round_half_even r =
     (let f = \<lfloor>r\<rfloor>; d = r - of_int f
      in if d < 1 / 2 then f else if d > 1 / 2 then f + 1 else if even f then f else f + 1)"

fun near_quota_loop :: "(string \<times> rat) list \<Rightarrow> recommendation option" where
  "near_quota_loop [] = None"
| "near_quota_loop ((name, pct) # us) =
     (if pct > 80
      then Some \<lparr>rec_id = ''tenant_near_quota'', rec_scope = ''tenancy'', rec_severity = SEVERITY_WARN,
        rec_title = ''Tenant near concurrent-job quota'',
        rec_why = ''Tenant \"'' @ name @ ''\" is using '' @ int_str (round_half_even pct)
          @ ''% of its concurrent job limit. Consider raising the quota.'',
        rec_action_link = ''/tenants''\<rparr>
      else near_quota_loop us)"

definition rule_tenant_near_quota :: "rule_context \<Rightarrow> recommendation option" where
  "rule_tenant_near_quota ctx = near_quota_loop (tenant_usage ctx)"

definition rule_no_catalog_items :: "rule_context \<Rightarrow> recommendation option" where
  "rule_no_catalog_items ctx =
     (if job_templates_total ctx > 0 \<and> catalog_items_total ctx = 0
      then Some \<lparr>rec_id = ''no_catalog_items'', rec_scope = ''self_service'', rec_severity = SEVERITY_INFO,
        rec_title = ''Service catalog is empty'',
        rec_why = ''You have job templates but no catalog items. Publish some to give end users a self-service entry point.'',
        rec_action_link = ''/wizards/self-service''\<rparr>
      else None)"

definition rule_only_default_team :: "rule_context \<Rightarrow> recommendation option" where
  "rule_only_default_team ctx =
     (if teams_count ctx \<le> 1
      then Some \<lparr>rec_id = ''only_default_team'', rec_scope = ''access'', rec_severity = SEVERITY_INFO,
        rec_title = ''Only the default team exists'',
        rec_why = ''Create additional teams to delegate access and separate duties across your organization.'',
        rec_action_link = ''/teams''\<rparr>
      else None)"

definition rule_default_admin_password :: "rule_context \<Rightarrow> recommendation option" where
  "rule_default_admin_password ctx =
     (if admin_default_password ctx
      then Some \<lparr>rec_id = ''default_admin_password'', rec_scope = ''dashboard'', rec_severity = SEVERITY_CRITICAL,
        rec_title = ''Default admin password in use'',
        rec_why = ''The admin user is still using the default password. Change it immediately to secure your installation.'',
        rec_action_link = ''/users''\<rparr>
      else None)"

text \<open>\<open>ALL_RULES\<close>, for the clock that one of the rules reads.\<close>

definition ALL_RULES :: "int \<Rightarrow> (string \<times> (rule_context \<Rightarrow> recommendation option)) list" where
  "ALL_RULES now =
     [(''compliance'', rule_no_scanners), (''compliance'', rule_all_policies_warn),
      (''tenancy'', rule_multi_org_no_tenancy), (''dashboard'', rule_no_observability),
      (''automation'', rule_stale_project now), (''automation'', rule_no_schedules),
      (''compliance'', rule_no_drift), (''self_service'', rule_few_surveys),
      (''tenancy'', rule_tenant_near_quota), (''self_service'', rule_no_catalog_items),
      (''access'', rule_only_default_team), (''dashboard'', rule_default_admin_password)]"

section \<open>The engine\<close>

text \<open>No rule raises on a context of the types above.\<close>

definition severity_key :: "recommendation \<Rightarrow> nat" where
  "severity_key r = dict_get rec_severity_order (rec_severity r) 99"

fun run_rules :: "string \<Rightarrow> rule_context \<Rightarrow> (string \<times> (rule_context \<Rightarrow> recommendation option)) list
    \<Rightarrow> recommendation list" where
  "run_rules scope ctx [] = []"
| "run_rules scope ctx ((rule_scope, fn) # rules) =
     (if scope \<noteq> ''all'' \<and> rule_scope \<noteq> scope then run_rules scope ctx rules
      else case fn ctx of None \<Rightarrow> run_rules scope ctx rules
        | Some r \<Rightarrow> r # run_rules scope ctx rules)"

definition evaluate :: "int \<Rightarrow> string \<Rightarrow> rule_context \<Rightarrow> recommendation list" where
  "evaluate now scope ctx = sort_key severity_key (run_rules scope ctx (ALL_RULES now))"

section \<open>The context\<close>

text \<open>
  The columns of policies and organizations, their own and the inherited ones, by the names that a query and
  \<open>getattr\<close> find. A query by another name raises \<open>FieldError\<close>.
\<close>

type_synonym row = "(string \<times> json) list"

definition common_fields :: "string list" where
  "common_fields = [''id'', ''pk'', ''created'', ''modified'', ''created_by'', ''modified_by'', ''description'', ''name'']"

definition policy_fields :: "string list" where
  "policy_fields = common_fields @
     [''organization'', ''rego_module'', ''package_path'', ''enforcement'', ''enabled'', ''applies_to'',
      ''trigger_count'', ''last_triggered_at'', ''last_evaluated_at'', ''last_sync_status'', ''decisions'']"

definition organization_fields :: "string list" where
  "organization_fields = common_fields @
     [''notification_templates_error'', ''notification_templates_success'', ''notification_templates_started'',
      ''custom_virtualenv'', ''instance_groups'', ''galaxy_credentials'', ''max_hosts'', ''webauthn_required'',
      ''policy_enforcement'', ''notification_templates_approvals'', ''default_environment'', ''admin_role'',
      ''execute_role'', ''project_admin_role'', ''inventory_admin_role'', ''credential_admin_role'',
      ''workflow_admin_role'', ''notification_admin_role'', ''job_template_admin_role'',
      ''execution_environment_admin_role'', ''auditor_role'', ''member_role'', ''read_role'', ''approval_role'',
      ''resource'', ''is_tenant_root'', ''tenant_max_concurrent_jobs'', ''tenant_max_daily_launches'',
      ''tenant_max_hosts'', ''tenant_max_storage_mb'', ''tenant_isolation_strict'', ''tenant_logo_url'',
      ''tenant_primary_color'', ''tenant_secondary_color'', ''tenant_custom_domain'', ''tenant_contact_email'',
      ''tenant_api_rate_limit'']"

definition filter_rows :: "string list \<Rightarrow> string \<Rightarrow> json \<Rightarrow> row list \<Rightarrow> row list option" where
  "filter_rows cols f v rows =
     (if f \<in> set cols then Some (filter (\<lambda>r. obj_get r f = v) rows) else None)"

definition attribute :: "string list \<Rightarrow> row \<Rightarrow> string \<Rightarrow> json \<Rightarrow> json" where
  "attribute cols r f dflt = (if f \<in> set cols then obj_get r f else dflt)"

record synced_project =
  pr_name :: string
  pr_last_job_run :: "datetime option"

text \<open>
  What is read: the tables, the classes of models that exist by name, the users with their password hashes,
  the settings, and whether the database answers at all.
\<close>

record site =
  si_online :: bool
  si_settings :: row
  si_scanners :: "bool list"
  si_policies :: "row list"
  si_organizations :: "row list"
  si_survey_specs :: "json option list"
  si_schedules :: "pk list"
  si_models :: "(string \<times> pk list) list"
  si_projects :: "synced_project list"
  si_teams :: "pk list"
  si_users :: "(string \<times> string) list"

definition query :: "site \<Rightarrow> 'a \<Rightarrow> 'a option" where
  "query s x = (if si_online s then Some x else None)"

definition safely :: "'a option \<Rightarrow> 'a \<Rightarrow> 'a" where
  "safely r dflt = (case r of None \<Rightarrow> dflt | Some x \<Rightarrow> x)"

definition setting_on :: "site \<Rightarrow> string \<Rightarrow> bool" where
  "setting_on s k = json_true (dict_get (si_settings s) k (JBool False))"

text \<open>Rows of the first class of models that exists under one of the names.\<close>

fun count_model :: "site \<Rightarrow> string list \<Rightarrow> nat option" where
  "count_model s [] = Some 0"
| "count_model s (n # ns) =
     (case map_of (si_models s) n of Some rows \<Rightarrow> query s (length rows) | None \<Rightarrow> count_model s ns)"

definition count_surveys :: "json option list \<Rightarrow> nat" where
  "count_surveys specs = length (filter (\<lambda>j. j \<noteq> None \<and> j \<noteq> Some (JObj [])) specs)"

definition project_entry :: "synced_project \<Rightarrow> string \<times> string option" where
  "project_entry p = (pr_name p, map_option isoformat (pr_last_job_run p))"

text \<open>\<open>x or 0\<close> of a numeric attribute.\<close>

definition number_or_zero :: "json \<Rightarrow> int" where
  "number_or_zero v = (case v of JInt i \<Rightarrow> i | _ \<Rightarrow> 0)"

definition text_of_name :: "json \<Rightarrow> string" where
  "text_of_name v = (case v of JStr s \<Rightarrow> s | _ \<Rightarrow> [])"

fun tenant_usage_loop :: "row list \<Rightarrow> (string \<times> rat) list" where
  "tenant_usage_loop [] = []"
| "tenant_usage_loop (org # orgs) =
     (let limit = number_or_zero (attribute organization_fields org ''tenant_max_concurrent_jobs'' (JInt 0))
      in if limit \<le> 0 then tenant_usage_loop orgs
         else let current = number_or_zero (attribute organization_fields org ''tenant_current_concurrent_jobs'' (JInt 0));
                  pct = (of_int current / of_int limit) * 100
              in (text_of_name (attribute organization_fields org ''name'' (JStr ''unknown'')), pct)
                 # tenant_usage_loop orgs)"

definition read_context :: "(string \<Rightarrow> string \<Rightarrow> bool) \<Rightarrow> site \<Rightarrow> rule_context" where
  "read_context check_password s =
     RuleContext\<lparr>
       scanners_enabled_count := safely (query s (length (filter (\<lambda>enabled. enabled) (si_scanners s)))) 0,
       policies_total := safely (query s (length (si_policies s))) 0,
       policies_enforce_count :=
         safely (Option.bind (filter_rows policy_fields ''mode'' (JStr ''enforce'') (si_policies s))
           (\<lambda>rows. query s (length rows))) 0,
       organizations_total := safely (query s (length (si_organizations s))) 0,
       tenancy_enabled := setting_on s ''TENANCY_ENABLED'',
       otel_enabled := setting_on s ''OTEL_ENABLED'' \<or> setting_on s ''OBSERVABILITY_ENABLED'',
       job_templates_total := safely (query s (length (si_survey_specs s))) 0,
       schedules_total := safely (query s (length (si_schedules s))) 0,
       catalog_items_total := safely (count_model s [''ServiceCatalogItem'', ''CatalogItem'']) 0,
       surveys_total := safely (query s (count_surveys (si_survey_specs s))) 0,
       drift_detections_total := safely (count_model s [''DriftDetection'', ''Drift'']) 0,
       projects := safely (query s (map project_entry (take 50 (si_projects s)))) [],
       tenant_usage :=
         safely (Option.bind (filter_rows organization_fields ''is_tenant_root'' (JBool True) (si_organizations s))
           (\<lambda>rows. query s (tenant_usage_loop rows))) [],
       teams_count := safely (query s (length (si_teams s))) 0,
       admin_default_password :=
         safely (query s (case map_of (si_users s) ''admin'' of None \<Rightarrow> False
           | Some hash \<Rightarrow> check_password ''admin'' hash)) False\<rparr>"

text \<open>The cache: the time and the context of the last read.\<close>

type_synonym cache = "rat \<times> rule_context option"

definition empty_cache :: cache where
  "empty_cache = (0, None)"

definition CACHE_TTL_SECONDS :: rat where
  "CACHE_TTL_SECONDS = 60"

definition seconds :: "int \<Rightarrow> rat" where
  "seconds t = of_int t / 1000000"

definition build_context :: "(string \<Rightarrow> string \<Rightarrow> bool) \<Rightarrow> int \<Rightarrow> site \<Rightarrow> cache \<Rightarrow> rule_context \<times> cache" where
  "build_context check_password t s c =
     (let now = seconds t; ctx = read_context check_password s
      in case snd c of
           Some kept \<Rightarrow> if now - fst c < CACHE_TTL_SECONDS then (kept, c) else (ctx, (now, Some ctx))
         | None \<Rightarrow> (ctx, (now, Some ctx)))"

text \<open>
  A request: whether it is authenticated, the parameter \<open>scope\<close>, and the clock when the context is asked
  for and when the rules run. An anonymous request is refused.
\<close>

record page_visit =
  vi_authenticated :: bool
  vi_scope :: "string option"
  vi_asked :: int
  vi_evaluated :: int
  vi_site :: site

definition answer_of :: "page_visit \<Rightarrow> rule_context \<Rightarrow> nat \<times> (string \<times> string) list list" where
  "answer_of v ctx =
     (let recs = evaluate (vi_evaluated v) (case vi_scope v of None \<Rightarrow> ''all'' | Some sc \<Rightarrow> sc) ctx
      in (length recs, map rec_to_dict recs))"

definition RecommendationsList_get ::
    "(string \<Rightarrow> string \<Rightarrow> bool) \<Rightarrow> page_visit \<Rightarrow> cache \<Rightarrow> (nat \<times> (string \<times> string) list list) option \<times> cache" where
  "RecommendationsList_get check_password v c =
     (if \<not> vi_authenticated v then (None, c)
      else let (ctx, c') = build_context check_password (vi_asked v) (vi_site v) c in (Some (answer_of v ctx), c'))"

fun serve :: "(string \<Rightarrow> string \<Rightarrow> bool) \<Rightarrow> page_visit list \<Rightarrow> cache
    \<Rightarrow> (nat \<times> (string \<times> string) list list) option list" where
  "serve check_password [] c = []"
| "serve check_password (v # vs) c =
     (let (a, c') = RecommendationsList_get check_password v c in a # serve check_password vs c')"

end
