(* ===== verification/Recommend_Correct.thy ===== *)
theory Recommend_Correct
  imports Recommendations "HOL-Library.Multiset"
begin

text \<open>
  The recommendations of \<open>Recommendations\<close>: which are listed for a site and in which order, how old
  the context of an answer can be, and the two rules that do not see what they are about.
\<close>

section \<open>Sorting by severity\<close>

lemma sort_key_three:
  assumes "\<forall>x \<in> set xs. f x \<in> {0, 1, 2 :: nat}"
  shows "sort_key f xs = filter (\<lambda>x. f x = 0) xs @ filter (\<lambda>x. f x = 1) xs @ filter (\<lambda>x. f x = 2) xs"
proof (rule properties_for_sort_key)
  show "mset (filter (\<lambda>x. f x = 0) xs @ filter (\<lambda>x. f x = 1) xs @ filter (\<lambda>x. f x = 2) xs) = mset xs"
    using assms by (induction xs) auto
  show "sorted (map f (filter (\<lambda>x. f x = 0) xs @ filter (\<lambda>x. f x = 1) xs @ filter (\<lambda>x. f x = 2) xs))"
    by (auto simp: sorted_append intro: sorted_map_same)
next
  fix k assume k: "k \<in> set (filter (\<lambda>x. f x = 0) xs @ filter (\<lambda>x. f x = 1) xs @ filter (\<lambda>x. f x = 2) xs)"
  have e: "filter (\<lambda>x. f x = a \<and> f k = f x) xs = (if a = f k then filter (\<lambda>x. f k = f x) xs else [])" for a
    by (cases "a = f k") (auto simp: filter_empty_conv intro!: filter_cong)
  from k have "f k \<in> {0, 1, 2}" by auto
  then show "filter (\<lambda>x. f k = f x) (filter (\<lambda>x. f x = 0) xs @ filter (\<lambda>x. f x = 1) xs @ filter (\<lambda>x. f x = 2) xs)
      = filter (\<lambda>x. f k = f x) xs"
    unfolding filter_append filter_filter e by (elim insertE emptyE) simp_all
qed

section \<open>The rules against a table\<close>

text \<open>An entry of the table: identifier, scope, severity, and the condition under which it is listed.\<close>

type_synonym entry = "string \<times> string \<times> string \<times> bool"

definition summary :: "recommendation \<Rightarrow> string \<times> string \<times> string" where
  "summary r = (rec_id r, rec_scope r, rec_severity r)"

lemma summary_made [simp]:
  "summary \<lparr>rec_id = i, rec_scope = s, rec_severity = v, rec_title = t, rec_why = w, rec_action_link = l\<rparr> = (i, s, v)"
  by (simp add: summary_def)

definition rule_fits :: "rule_context \<Rightarrow> string \<times> (rule_context \<Rightarrow> recommendation option) \<Rightarrow> entry \<Rightarrow> bool" where
  "rule_fits ctx rule e = (case (rule, e) of ((s, fn), (i, s', v, c)) \<Rightarrow>
     s = s' \<and> v \<in> {SEVERITY_CRITICAL, SEVERITY_WARN, SEVERITY_INFO}
     \<and> map_option summary (fn ctx) = (if c then Some (i, s, v) else None))"

definition in_scope :: "string \<Rightarrow> entry \<Rightarrow> bool" where
  "in_scope scope e = (case e of (i, s, v, c) \<Rightarrow> c \<and> (scope = ''all'' \<or> s = scope))"

definition strip_entry :: "entry \<Rightarrow> string \<times> string \<times> string" where
  "strip_entry e = (case e of (i, s, v, c) \<Rightarrow> (i, s, v))"

definition of_severity :: "string \<Rightarrow> entry \<Rightarrow> bool" where
  "of_severity sev e = (case e of (i, s, v, c) \<Rightarrow> v = sev)"

lemma severity_names: "SEVERITY_CRITICAL \<noteq> SEVERITY_WARN" "SEVERITY_CRITICAL \<noteq> SEVERITY_INFO"
    "SEVERITY_WARN \<noteq> SEVERITY_INFO"
  by (simp_all add: SEVERITY_CRITICAL_def SEVERITY_WARN_def SEVERITY_INFO_def)

lemma run_rules_table:
  "list_all2 (rule_fits ctx) rules table \<Longrightarrow>
     map summary (run_rules scope ctx rules) = map strip_entry (filter (in_scope scope) table)"
  by (induction rule: list_all2_induct)
    (auto simp: rule_fits_def in_scope_def strip_entry_def split: option.splits if_splits)

lemma severity_key_known:
  "severity_key r = 0 \<longleftrightarrow> rec_severity r = SEVERITY_CRITICAL"
  "severity_key r = 1 \<longleftrightarrow> rec_severity r = SEVERITY_WARN"
  "severity_key r = 2 \<longleftrightarrow> rec_severity r = SEVERITY_INFO"
  using severity_names by (auto simp: severity_key_def rec_severity_order_def dict_get_def)

lemma run_rules_severities:
  "list_all2 (rule_fits ctx) rules table \<Longrightarrow> r \<in> set (run_rules scope ctx rules) \<Longrightarrow> severity_key r \<in> {0, 1, 2}"
  by (induction rule: list_all2_induct)
    (auto simp: rule_fits_def summary_def severity_key_known [simplified] split: option.splits if_splits)

lemma severity_part:
  assumes "map summary rs = map strip_entry es"
  shows "map summary (filter (\<lambda>r. rec_severity r = sev) rs) = map strip_entry (filter (of_severity sev) es)"
  using assms
  by (induction rs es rule: list_induct2') (auto simp: summary_def strip_entry_def of_severity_def split: prod.splits)

lemma evaluate_table:
  assumes "list_all2 (rule_fits ctx) (ALL_RULES now) table"
  shows "map summary (evaluate now scope ctx) =
    concat (map (\<lambda>sev. map strip_entry (filter (of_severity sev) (filter (in_scope scope) table)))
      [SEVERITY_CRITICAL, SEVERITY_WARN, SEVERITY_INFO])"
proof -
  let ?rs = "run_rules scope ctx (ALL_RULES now)"
  have keys: "\<forall>r \<in> set ?rs. severity_key r \<in> {0, 1, 2}"
    using run_rules_severities [OF assms] by blast
  show ?thesis
    unfolding evaluate_def sort_key_three [OF keys] severity_key_known
    using severity_part [OF run_rules_table [OF assms, of scope]] by simp
qed

section \<open>Conditions of a site\<close>

lemma stale_project_loop_summary:
  "map_option summary (stale_project_loop now ps) =
     (if list_ex (\<lambda>p. is_stale now (snd p)) ps then Some (''stale_project'', ''automation'', SEVERITY_INFO) else None)"
  by (induction now ps rule: stale_project_loop.induct) auto

lemma near_quota_loop_summary:
  "map_option summary (near_quota_loop us) =
     (if list_ex (\<lambda>u. snd u > 80) us then Some (''tenant_near_quota'', ''tenancy'', SEVERITY_WARN) else None)"
  by (induction us rule: near_quota_loop.induct) auto

text \<open>Every tenant's use is read as nothing: no column holds the number of its running jobs.\<close>

lemma tenant_usage_zero: "u \<in> set (tenant_usage_loop orgs) \<Longrightarrow> snd u = 0"
  by (induction orgs rule: tenant_usage_loop.induct)
    (auto simp: Let_def attribute_def organization_fields_def common_fields_def number_or_zero_def split: if_splits)

lemma mode_unknown: "filter_rows policy_fields ''mode'' v rows = None"
  by (simp add: filter_rows_def policy_fields_def common_fields_def)

text \<open>A project of the database counts as stale by its instant.\<close>

definition never_or_long_ago :: "int \<Rightarrow> synced_project \<Rightarrow> bool" where
  "never_or_long_ago now p = (case pr_last_job_run p of None \<Rightarrow> True
     | Some d \<Rightarrow> instant d < epoch + now - microseconds 14)"

definition times_stored :: "site \<Rightarrow> bool" where
  "times_stored s \<longleftrightarrow> list_all (\<lambda>p. case pr_last_job_run p of None \<Rightarrow> True
     | Some d \<Rightarrow> valid_time d \<and> dt_offset d \<noteq> None) (si_projects s)"

lemma is_stale_entry:
  assumes "times_stored s" "p \<in> set (si_projects s)"
  shows "is_stale now (snd (project_entry p)) = never_or_long_ago now p"
  using assms
  by (auto simp: times_stored_def list_all_iff is_stale_def project_entry_def never_or_long_ago_def
      fromisoformat_isoformat as_utc_def split: option.splits)

lemma stale_entries:
  assumes "times_stored s"
  shows "list_ex (\<lambda>p. is_stale now (snd p)) (map project_entry (take 50 (si_projects s)))
    = list_ex (never_or_long_ago now) (take 50 (si_projects s))"
  using is_stale_entry [OF assms] by (auto simp: list_ex_iff dest: in_set_takeD)

text \<open>What is listed for a site, in the order of the rules.\<close>

definition site_table :: "(string \<Rightarrow> string \<Rightarrow> bool) \<Rightarrow> int \<Rightarrow> site \<Rightarrow> entry list" where
  "site_table check_password now s =
     (let templates = si_survey_specs s;
          rows = (\<lambda>n. case map_of (si_models s) n of None \<Rightarrow> [] | Some xs \<Rightarrow> xs)
      in [(''no_scanners'', ''compliance'', SEVERITY_WARN, templates \<noteq> [] \<and> True \<notin> set (si_scanners s)),
          (''all_policies_warn'', ''compliance'', SEVERITY_INFO, si_policies s \<noteq> []),
          (''multi_org_no_tenancy'', ''tenancy'', SEVERITY_WARN,
             length (si_organizations s) > 1 \<and> \<not> setting_on s ''TENANCY_ENABLED''),
          (''no_observability'', ''dashboard'', SEVERITY_INFO,
             \<not> setting_on s ''OTEL_ENABLED'' \<and> \<not> setting_on s ''OBSERVABILITY_ENABLED''),
          (''stale_project'', ''automation'', SEVERITY_INFO, list_ex (never_or_long_ago now) (take 50 (si_projects s))),
          (''no_schedules'', ''automation'', SEVERITY_INFO, templates \<noteq> [] \<and> si_schedules s = []),
          (''no_drift'', ''compliance'', SEVERITY_INFO, templates \<noteq> [] \<and> rows ''DriftDetection'' = []),
          (''few_surveys'', ''self_service'', SEVERITY_INFO, 2 \<le> length templates \<and> 2 * count_surveys templates < length templates),
          (''tenant_near_quota'', ''tenancy'', SEVERITY_WARN, False),
          (''no_catalog_items'', ''self_service'', SEVERITY_INFO, templates \<noteq> [] \<and> rows ''ServiceCatalogItem'' = []),
          (''only_default_team'', ''access'', SEVERITY_INFO, length (si_teams s) \<le> 1),
          (''default_admin_password'', ''dashboard'', SEVERITY_CRITICAL,
             (case map_of (si_users s) ''admin'' of None \<Rightarrow> False | Some hash \<Rightarrow> check_password ''admin'' hash))])"

text \<open>The models that the repository defines.\<close>

definition models_defined :: "site \<Rightarrow> bool" where
  "models_defined s \<longleftrightarrow> map_of (si_models s) ''DriftDetection'' \<noteq> None \<and> map_of (si_models s) ''ServiceCatalogItem'' \<noteq> None"

lemma count_defined: "map_of (si_models s) n \<noteq> None \<Longrightarrow> si_online s \<Longrightarrow>
    safely (count_model s (n # ns)) 0 = length (case map_of (si_models s) n of None \<Rightarrow> [] | Some xs \<Rightarrow> xs)"
  by (auto simp: query_def safely_def)

lemma no_scanner_enabled: "filter (\<lambda>e. e) bs = [] \<longleftrightarrow> True \<notin> set bs"
  by (auto simp: filter_empty_conv)

lemma no_quota_seen: "\<not> list_ex (\<lambda>u. snd u > 80) (tenant_usage_loop orgs)"
  using tenant_usage_zero by (fastforce simp: list_ex_iff)

lemma no_quota_read: "\<not> list_ex (\<lambda>u. snd u > 80) (tenant_usage (read_context check s))"
  by (auto simp: read_context_def safely_def query_def no_quota_seen split: option.split)
    (auto simp: Option.bind_eq_Some_conv no_quota_seen split: if_splits)

lemma site_rules:
  assumes "si_online s" "models_defined s" "times_stored s"
  shows "list_all2 (rule_fits (read_context check s)) (ALL_RULES now) (site_table check now s)"
proof -
  have counts: "drift_detections_total (read_context check s) = length (case map_of (si_models s) ''DriftDetection'' of None \<Rightarrow> [] | Some xs \<Rightarrow> xs)"
      "catalog_items_total (read_context check s) = length (case map_of (si_models s) ''ServiceCatalogItem'' of None \<Rightarrow> [] | Some xs \<Rightarrow> xs)"
    using assms(1,2) by (simp_all add: read_context_def count_defined models_defined_def del: count_model.simps)
  have reads: "scanners_enabled_count (read_context check s) = length (filter (\<lambda>e. e) (si_scanners s))"
      "policies_total (read_context check s) = length (si_policies s)"
      "policies_enforce_count (read_context check s) = 0"
      "organizations_total (read_context check s) = length (si_organizations s)"
      "tenancy_enabled (read_context check s) = setting_on s ''TENANCY_ENABLED''"
      "otel_enabled (read_context check s) = (setting_on s ''OTEL_ENABLED'' \<or> setting_on s ''OBSERVABILITY_ENABLED'')"
      "job_templates_total (read_context check s) = length (si_survey_specs s)"
      "schedules_total (read_context check s) = length (si_schedules s)"
      "surveys_total (read_context check s) = count_surveys (si_survey_specs s)"
      "projects (read_context check s) = map project_entry (take 50 (si_projects s))"
      "teams_count (read_context check s) = length (si_teams s)"
      "admin_default_password (read_context check s) = (case map_of (si_users s) ''admin'' of None \<Rightarrow> False | Some hash \<Rightarrow> check ''admin'' hash)"
    using assms(1) by (simp_all add: read_context_def safely_def query_def mode_unknown)
  note rules = rule_no_scanners_def rule_all_policies_warn_def rule_multi_org_no_tenancy_def
    rule_no_observability_def rule_stale_project_def rule_no_schedules_def rule_no_drift_def rule_few_surveys_def
    rule_tenant_near_quota_def rule_no_catalog_items_def rule_only_default_team_def rule_default_admin_password_def
  note facts = reads counts stale_project_loop_summary near_quota_loop_summary stale_entries [OF assms(3)]
    no_quota_read no_scanner_enabled
  show ?thesis
    unfolding ALL_RULES_def site_table_def Let_def
    by (intro list.rel_intros(2) list.rel_intros(1); simp add: rule_fits_def rules facts)
qed

section \<open>Properties\<close>

lemma run_rules_mem:
  "r \<in> set (run_rules scope ctx rules) \<longleftrightarrow>
     (\<exists>(s, fn) \<in> set rules. (scope = ''all'' \<or> s = scope) \<and> fn ctx = Some r)"
  by (induction scope ctx rules rule: run_rules.induct) (auto split: option.splits)

lemma evaluate_mem:
  "r \<in> set (evaluate now scope ctx) \<longleftrightarrow>
     (\<exists>(s, fn) \<in> set (ALL_RULES now). (scope = ''all'' \<or> s = scope) \<and> fn ctx = Some r)"
  by (simp add: evaluate_def run_rules_mem)

lemma stale_id: "stale_project_loop now ps = Some r \<Longrightarrow> rec_id r = ''stale_project''"
  by (induction now ps rule: stale_project_loop.induct) (auto split: if_splits)

lemma no_near_quota: "rule_tenant_near_quota (read_context check s) = None"
  using near_quota_loop_summary [of "tenant_usage (read_context check s)"]
  by (simp add: rule_tenant_near_quota_def no_quota_read)

lemma near_quota_rule:
  assumes "(s, fn) \<in> set (ALL_RULES now)" "fn ctx = Some r" "rec_id r = ''tenant_near_quota''"
  shows "rule_tenant_near_quota ctx = Some r"
  using assms stale_id [of now "projects ctx" r]
  by (auto simp: ALL_RULES_def rule_no_scanners_def rule_all_policies_warn_def rule_multi_org_no_tenancy_def
    rule_no_observability_def rule_stale_project_def rule_no_schedules_def rule_no_drift_def rule_few_surveys_def
    rule_no_catalog_items_def rule_only_default_team_def rule_default_admin_password_def split: if_splits)

lemma enforce_count_zero: "policies_enforce_count (read_context check s) = 0"
  by (simp add: read_context_def safely_def mode_unknown)

lemma policies_counted: "si_online s \<Longrightarrow> policies_total (read_context check s) = length (si_policies s)"
  by (simp add: read_context_def safely_def query_def)

text \<open>
  C27. The recommendations for a site whose database answers: one for every rule of the requested scope whose
  condition on the stored tables holds, each once, the critical ones first, then the warnings, then the
  hints, each group in the order of the rules. A project counts as stale if it is among the first fifty and has never been
  synced or not in the last 14 days. As the code is, the rule on policies asks only whether there are any,
  and the rule on tenants never applies.
\<close>

theorem recommendations_exact:
  assumes "si_online s" "models_defined s" "times_stored s"
  shows "map summary (evaluate now scope (read_context check s)) =
    concat (map (\<lambda>sev. map strip_entry (filter (of_severity sev) (filter (in_scope scope) (site_table check now s))))
      [SEVERITY_CRITICAL, SEVERITY_WARN, SEVERITY_INFO])"
  by (rule evaluate_table [OF site_rules [OF assms]])

text \<open>
  C38. As soon as a site has a policy it is told that all its policies are in warn mode, although any number of
  them may enforce, and no tenant is ever reported near its quota, although it may use all its slots: the
  queries ask for a column \<open>mode\<close> and an attribute \<open>tenant_current_concurrent_jobs\<close> that do not exist.
\<close>

theorem blind_recommendations:
  assumes "si_online s" "si_policies s \<noteq> []" "scope \<in> {''all'', ''compliance''}"
  shows "''all_policies_warn'' \<in> rec_id ` set (evaluate now scope (read_context check s))
    \<and> ''tenant_near_quota'' \<notin> rec_id ` set (evaluate now any_scope (read_context check s))"
proof
  let ?ctx = "read_context check s"
  have "rule_all_policies_warn ?ctx \<noteq> None"
    using assms(1,2) by (simp add: rule_all_policies_warn_def enforce_count_zero policies_counted)
  then obtain r where r: "rule_all_policies_warn ?ctx = Some r" by blast
  then have "rec_id r = ''all_policies_warn''"
    by (auto simp: rule_all_policies_warn_def split: if_splits)
  moreover have "r \<in> set (evaluate now scope ?ctx)"
    using assms(3) r by (auto simp: evaluate_mem ALL_RULES_def)
  ultimately show "''all_policies_warn'' \<in> rec_id ` set (evaluate now scope ?ctx)"
    by (metis imageI)
  show "''tenant_near_quota'' \<notin> rec_id ` set (evaluate now any_scope ?ctx)"
  proof
    assume "''tenant_near_quota'' \<in> rec_id ` set (evaluate now any_scope ?ctx)"
    then obtain r s' fn where "(s', fn) \<in> set (ALL_RULES now)" "fn ?ctx = Some r" "rec_id r = ''tenant_near_quota''"
      by (auto simp: evaluate_mem)
    from near_quota_rule [OF this] show False by (simp add: no_near_quota)
  qed
qed

section \<open>The age of an answer\<close>

text \<open>A cache holds nothing, or the context that one of the requests before has read.\<close>

definition cache_from :: "(string \<Rightarrow> string \<Rightarrow> bool) \<Rightarrow> page_visit list \<Rightarrow> cache \<Rightarrow> bool" where
  "cache_from check vs c \<longleftrightarrow> (\<forall>ctx. snd c = Some ctx \<longrightarrow>
     (\<exists>v \<in> set vs. vi_authenticated v \<and> fst c = seconds (vi_asked v) \<and> ctx = read_context check (vi_site v)))"

text \<open>The answer to a request from a context that an earlier request, or this one, read less than a minute before.\<close>

definition recent_answer :: "(string \<Rightarrow> string \<Rightarrow> bool) \<Rightarrow> page_visit list \<Rightarrow> page_visit
    \<Rightarrow> (nat \<times> (string \<times> string) list list) option \<Rightarrow> bool" where
  "recent_answer check vs v a \<longleftrightarrow>
     (if vi_authenticated v then \<exists>u \<in> set vs. vi_authenticated u \<and> seconds (vi_asked v) - seconds (vi_asked u) < 60
        \<and> a = Some (answer_of v (read_context check (vi_site u)))
      else a = None)"

lemma get_recent:
  assumes "RecommendationsList_get check v c = (a, c')" "cache_from check vs c"
  shows "recent_answer check (vs @ [v]) v a" "cache_from check (vs @ [v]) c'"
proof -
  show "cache_from check (vs @ [v]) c'"
    using assms by (auto simp: RecommendationsList_get_def build_context_def cache_from_def Let_def
      split: if_splits option.splits prod.splits)
  show "recent_answer check (vs @ [v]) v a"
    using assms by (auto simp: RecommendationsList_get_def build_context_def cache_from_def recent_answer_def
      CACHE_TTL_SECONDS_def Let_def split: if_splits option.splits prod.splits)
qed

lemma serve_recent:
  "cache_from check us c \<Longrightarrow> i < length vs \<Longrightarrow>
     recent_answer check (us @ take (Suc i) vs) (vs ! i) (serve check vs c ! i)"
proof (induction vs arbitrary: us c i)
  case (Cons v vs)
  obtain a c' where get: "RecommendationsList_get check v c = (a, c')" by (meson surj_pair)
  note step = get_recent [OF get Cons.prems(1)]
  show ?case
    using Cons.IH [OF step(2)] Cons.prems(2) step(1) get by (cases i) auto
qed simp

text \<open>
  Whatever requests a server process gets, in any order of clock readings: an anonymous one is refused, and the answer to any
  other is computed from a context that this or an earlier authenticated request read less than 60 seconds before.
\<close>

theorem recommendations_recent:
  "\<forall>i < length vs. if vi_authenticated (vs ! i)
     then \<exists>j \<le> i. vi_authenticated (vs ! j) \<and> seconds (vi_asked (vs ! i)) - seconds (vi_asked (vs ! j)) < 60
       \<and> serve check vs empty_cache ! i = Some (answer_of (vs ! i) (read_context check (vi_site (vs ! j))))
     else serve check vs empty_cache ! i = None"
proof (intro allI impI)
  fix i assume i: "i < length vs"
  have "recent_answer check (take (Suc i) vs) (vs ! i) (serve check vs empty_cache ! i)"
    using serve_recent [of check "[]" empty_cache i vs] i by (simp add: cache_from_def empty_cache_def)
  then show "if vi_authenticated (vs ! i)
     then \<exists>j \<le> i. vi_authenticated (vs ! j) \<and> seconds (vi_asked (vs ! i)) - seconds (vi_asked (vs ! j)) < 60
       \<and> serve check vs empty_cache ! i = Some (answer_of (vs ! i) (read_context check (vi_site (vs ! j))))
     else serve check vs empty_cache ! i = None"
    using i by (auto simp: recent_answer_def in_set_conv_nth less_Suc_eq_le split: if_splits) blast
qed

section \<open>An example\<close>

text \<open>
  A site with one enforced policy, a tenant that uses all its slots, and projects synced 13 and 15 days
  before 1970-02-01.
\<close>

definition synced_on :: "nat \<Rightarrow> datetime" where
  "synced_on day = \<lparr>dt_year = 1970, dt_month = 1, dt_day = day, dt_hour = 0, dt_minute = 0, dt_second = 0,
     dt_micro = 0, dt_offset = Some 0\<rparr>"

definition example_site :: site where
  "example_site = \<lparr>si_online = True, si_settings = [(''TENANCY_ENABLED'', JBool True), (''OTEL_ENABLED'', JBool True)],
     si_scanners = [False], si_policies = [[(''name'', JStr ''freeze''), (''enforcement'', JStr ''enforce'')]],
     si_organizations = [[(''name'', JStr ''acme''), (''is_tenant_root'', JBool True), (''tenant_max_concurrent_jobs'', JInt 5),
       (''tenant_current_concurrent_jobs'', JInt 5)]],
     si_survey_specs = [Some (JObj [])], si_schedules = [1],
     si_models = [(''DriftDetection'', [1]), (''ServiceCatalogItem'', [1])],
     si_projects = [\<lparr>pr_name = ''web'', pr_last_job_run = Some (synced_on 19)\<rparr>,
       \<lparr>pr_name = ''db'', pr_last_job_run = Some (synced_on 17)\<rparr>],
     si_teams = [1, 2], si_users = [(''admin'', ''admin'')]\<rparr>"

definition february :: int where
  "february = microseconds 31"

lemma example_instant: "day \<ge> 1 \<Longrightarrow> instant (synced_on day) = (719162 + int day) * 86400000000"
  by (simp add: instant_def ordinal_def synced_on_def days_before_year_def days_before_month_def)

lemma example_stale: "list_ex (never_or_long_ago february) (take 50 (si_projects example_site))"
proof -
  have "epoch = instant (synced_on 1)" by (simp add: epoch_def synced_on_def)
  then show ?thesis
    by (simp add: example_site_def never_or_long_ago_def example_instant february_def microseconds_def)
qed

lemma example_times: "times_stored example_site"
  by (simp add: example_site_def times_stored_def synced_on_def valid_time_def days_in_month_def)

lemma recommendations_exact_witness:
  "map summary (evaluate february ''all'' (read_context (=) example_site)) =
     [(''default_admin_password'', ''dashboard'', ''critical''), (''no_scanners'', ''compliance'', ''warn''),
      (''all_policies_warn'', ''compliance'', ''info''), (''stale_project'', ''automation'', ''info'')]"
  using recommendations_exact [OF _ _ example_times, where check = "(=)" and now = february and scope = "''all''"]
    example_stale
  by (simp add: site_table_def example_site_def models_defined_def setting_on_def dict_get_def in_scope_def
    of_severity_def strip_entry_def severity_names severity_names [symmetric] count_surveys_def)
    (simp add: SEVERITY_CRITICAL_def SEVERITY_WARN_def SEVERITY_INFO_def)

lemma blind_recommendations_witness:
  "''all_policies_warn'' \<in> rec_id ` set (evaluate february ''compliance'' (read_context (=) example_site))
    \<and> ''tenant_near_quota'' \<notin> rec_id ` set (evaluate february ''all'' (read_context (=) example_site))"
  using blind_recommendations [where s = example_site and scope = "''compliance''" and now = february and check = "(=)"
    and any_scope = "''all''"]
  by (simp add: example_site_def)

text \<open>The password is changed between two requests that are 59 seconds apart.\<close>

definition example_visits :: "page_visit list" where
  "example_visits =
     [\<lparr>vi_authenticated = True, vi_scope = None, vi_asked = february, vi_evaluated = february, vi_site = example_site\<rparr>,
      \<lparr>vi_authenticated = True, vi_scope = Some ''dashboard'', vi_asked = february + 59000000,
        vi_evaluated = february + 59000000, vi_site = example_site\<lparr>si_users := [(''admin'', ''changed'')]\<rparr>\<rparr>]"

lemma recommendations_recent_witness:
  "\<exists>j \<le> 1. serve (=) example_visits empty_cache ! 1
     = Some (answer_of (example_visits ! 1) (read_context (=) (vi_site (example_visits ! j))))"
proof -
  have "1 < length example_visits" "vi_authenticated (example_visits ! 1)"
    by (simp_all add: example_visits_def)
  then show ?thesis
    using recommendations_recent [where check = "(=)" and vs = example_visits, THEN spec, THEN mp, of 1] by auto
qed

end
