(* ===== verification/Spec2Isabelle.thy ===== *)
theory Spec2Isabelle
  imports Dag_Progress Task_Cycle Workflow_Spawn Launch_Gates Role_Access Rotation_Correct Dependency_Correct
    Survey_Properties Dispatch_Runs Dispatch_Times Event_Runs Catalog_Secrets
    Drift_Runs Cluster_Correct Fact_Correct Outbound_Webhooks Schedule_Correct Recommend_Correct
begin

text \<open>
  A verification development of the control plane of Forail: what decides which job runs, when, where, on
  whose behalf and with which secrets. Paths are relative to \<open>src/forail/\<close>; a name of a definition is the name of
  the function or class it translates, unless that name is taken.

  \<^bold>\<open>The program and its parts.\<close> Requests reach the server through the views of the API. A launch passes the tenant
  quota, the policies and the scanners and becomes a pending job; event rules and the portal start jobs by
  themselves. The scheduler then runs three managers: the dependency manager gives a pending job the
  updates it needs, the task manager starts the jobs that may run and books their capacity, the
  workflow manager spawns the jobs of running workflows. Started jobs are messages to a dispatcher, which hands
  them to a pool of worker processes; a reaper and a heartbeat clean up after workers and nodes
  that are lost. After a job its host facts are compared with earlier ones. Across all of this, roles
  say who may do what and secrets are encrypted in the database.

  \<^bold>\<open>Shared theories.\<close> \<open>Prelude\<close> (keys, job states, dictionaries, results with errors, folds that can only refuse),
  \<open>Python_Values\<close> (JSON values, strings, conversions), \<open>Json_Text\<close> (\<open>json.dumps\<close> and \<open>json.loads\<close>, with a lexical
  automaton that every accepted text passes).

  \<^bold>\<open>Scheduler\<close> (\<open>main/scheduler\<close>). \<open>Dag_Simple\<close> and \<open>Dag_Workflow\<close> model the workflow graph; \<open>Dag_Cycle\<close> and
  \<open>Dag_Progress\<close> show that its traversals are right, that the nodes marked as not to be run are a fixpoint,
  that a workflow makes progress unless errors block an ALL-convergence node, and that it hangs if they do. \<open>Tasks\<close> has the jobs as the managers see them, \<open>Dependency_Graph\<close> the
  index of blocking jobs, \<open>Task_Models\<close> and \<open>Task_Capacity\<close> the bookkeeping of capacity, \<open>Task_Manager\<close> and
  \<open>Task_Cycle\<close> one cycle over the pending jobs: no two conflicting jobs, limits kept, books right.
  \<open>Workflow_Manager\<close> and \<open>Workflow_Spawn\<close> are the pass over the running workflows; \<open>Dependency_Manager\<close> and
  \<open>Dependency_Correct\<close> the updates before a job. \<open>Cluster_Policies\<close> and \<open>Cluster_Correct\<close> assign instances to groups.

  \<^bold>\<open>Launch\<close> (\<open>api/views\<close>, \<open>main/tenancy\<close>, \<open>main/policy\<close>, \<open>main/scanning\<close>). \<open>Tenancy_Helpers\<close>, \<open>Tenancy_Gates\<close> and
  \<open>Tenancy_Spec\<close> are quotas, rate limits and the isolation of tenants; \<open>Policy_Engine\<close> the evaluation of
  policies; \<open>Scan_Tools\<close> and \<open>Scanner_Runner\<close> the scanners; \<open>Launch_Gates\<close> the launch views that run them in order,
  with the exact condition under which a job starts, and what a scanner that raises leaves behind: the view of ad hoc
  commands does not run in a transaction, the views that launch templates do.

  \<^bold>\<open>Surveys\<close> (\<open>main/models/mixins.py\<close>, \<open>main/services\<close>). \<open>Survey_Choices\<close>, \<open>Survey_Answers\<close> and \<open>Survey_Spec\<close> are the
  sources of choices, the check of the answers and the check of a survey that is saved; \<open>Survey_Runs\<close>, \<open>Survey_Correct\<close>,
  \<open>Survey_Typed\<close> and \<open>Survey_Properties\<close> show which answers are accepted, that passwords stay encrypted and that
  every request has a URL in which \<open>urlsplit\<close> reads a permitted host (which host the HTTP client reads in it is an argument).

  \<^bold>\<open>Access and secrets.\<close> \<open>Role_Ancestors\<close>, \<open>Role_Closure\<close> and \<open>Role_Access\<close> are the table of role ancestors
  (\<open>main/models/rbac.py\<close>): it equals the reachability of the hierarchy, and its repair returns. The theorems cover both values of
  \<open>ANSIBLE_BASE_ROLE_SYSTEM_ACTIVATED\<close>: with the role system activated, as in the default settings, the table is not
  kept up by the code any more and a role asks the role system's own permissions, which are an argument. \<open>Encryption\<close>, \<open>Key_Rotation\<close>
  and \<open>Rotation_Correct\<close> are the encryption of fields and the change of the secret key, which keeps the secrets of
  the tables that it visits and leaves the answers saved with schedules and workflow nodes under the old key.

  \<^bold>\<open>Dispatcher\<close> (\<open>main/dispatch\<close>). \<open>Dispatch_Schedule\<close> and \<open>Dispatch_Times\<close> are the periodic tasks; \<open>Dispatch_Pool\<close>,
  \<open>Dispatch_Tracking\<close>, \<open>Dispatch_Correct\<close>, \<open>Dispatch_Reaper\<close>, \<open>Dispatch_Properties\<close> and \<open>Dispatch_Runs\<close> the pool, its tracking of
  workers, the reaper, and the invariant over all interleavings of the parent, its children and the jobs.

  \<^bold>\<open>Automation.\<close> \<open>Job_Launch\<close> has the creation and start of a job by the platform. \<open>Event_Rules\<close>, \<open>Event_Correct\<close> and
  \<open>Event_Runs\<close> are webhooks and event rules (\<open>main/models/eda.py\<close>, \<open>main/tasks/eda.py\<close>); \<open>Service_Catalog\<close>,
  \<open>Catalog_Correct\<close>, \<open>Catalog_Runs\<close> and \<open>Catalog_Secrets\<close> the portal as a transition system; \<open>Drift_Detection\<close>,
  \<open>Drift_Correct\<close> and \<open>Drift_Runs\<close> the comparison of host facts, the alerts and the cleanup (\<open>main/tasks/drift.py\<close>).
  \<open>Fact_Cache\<close> and \<open>Fact_Correct\<close> are the files of host facts that are written before a job and read after it
  (\<open>main/tasks/facts.py\<close>); \<open>Outbound_Webhooks\<close> are the messages to subscribers when a job changes its status,
  each sent once, and the record of the delivery (\<open>main/models/eda.py\<close>, \<open>main/tasks/eda.py\<close>). \<open>Schedules\<close>, \<open>Schedule_Runs\<close> and \<open>Schedule_Correct\<close> are
  the schedules of templates and the periodic scheduler (\<open>main/models/schedules.py\<close>, \<open>main/tasks/system.py\<close>): what one
  run does, and which occurrences are run over all interleavings of runs and edits. \<open>Iso_Times\<close>, \<open>Recommendations\<close>
  and \<open>Recommend_Correct\<close> are the recommendations to administrators (\<open>main/recommendations\<close>) with their cache.

  \<^bold>\<open>State and operations.\<close> A row of a table is a record with the fields that the modelled code reads or writes; a
  table is a list of rows, in the order of the database, or a map where only lookups occur; a component's state is
  a record of tables. An operation is a function from state to state, or to an error and a state. An exception is a
  value of a sum or an option. Where processes interleave there is an inductive step relation (\<open>pool_step\<close> of the
  dispatcher, the runs of the portal), or a list of operations that a theorem quantifies over
  (\<open>run_script\<close> of the roles, \<open>run_drift\<close>, \<open>schedule_trace\<close>). Requests that are sent and tasks that are queued are recorded in the state.

  \<^bold>\<open>Interfaces.\<close> A contract between components is a locale, interpreted on the model: \<open>dag_store\<close> (what the workflow
  layer needs of the graph), \<open>first_wins\<close> (the blocking index), \<open>verdict_fold\<close> (policies and scanners can only
  refuse), \<open>entry_rotation\<close> (the fields of a row under a change of key), \<open>survey_run\<close> (what resolving a question
  keeps, all checks keep), \<open>tracking\<close> (the operations on one worker), \<open>kept_by_steps\<close> (conditions of the
  drift tables) and \<open>blind_pass\<close> (passes that do not read the memberships they decide).

  \<^bold>\<open>What the properties show.\<close> Functional: the outcome of an operation on every branch, where the code's own
  conditions decide it. Invariant and safety: conditions of every reachable state. Equivalence and refinement: the
  ancestor table against reachability, the blocking index against the conflict of two jobs, cached choices against
  resolved ones. Error: runs in which the code does not do what it means to, stated for
  all inputs of a kind where that was possible, else on a concrete input; the manifest lists them as findings. Each property with a hypothesis has a theorem that applies
  it to an example.

  \<^bold>\<open>Termination, bounds and fuel.\<close> The searches of the graph (\<open>cycle_loop\<close>, \<open>bfs_loop\<close>) are partial functions that are
  shown to return; the topological sort takes frames, as many as the graph has nodes are enough. The repair of
  the role table makes at most 101 passes as the code does, enough for every hierarchy of at most 100 levels. The
  JSON reader takes the length of the text as fuel and every call consumes a character. The other loops recurse on a list or
  carry a measure. Numbers of Python are integers without bound, floating point numbers are rationals; the places
  where a comparison of floats is replaced by an exact one are named in their theories. Queues of the
  dispatcher have their size, and the theorems on the pool suppose them large enough for the load (\<open>roomy\<close>) and
  identifiers of messages to be new; the heartbeat's also that no two workers share a process identifier.

  \<^bold>\<open>Arguments of the model.\<close> Code that is not in the repository is an argument: hash functions and the cipher (with
  the law that decryption undoes encryption), the template engine, HTTP clients and resolvers, the policy server, the
  scanners' output, the occurrences of recurrence rules, the clock, random draws, the delivery of notifications, the rendering of floats and of
  containers as text. Text is ASCII, or bytes where the code handles bytes. The database keeps what is saved; its constraints are
  modelled where code runs into them. Whether a request is one transaction (\<open>ATOMIC_REQUESTS\<close>, on in the default settings) is an
  argument where it matters, and a view that is exempt from it is modelled so. In the portal the requests of users
  are handled one after another, and a job that has ended keeps its status.

  \<^bold>\<open>Not modelled.\<close> Running a job (files, processes, receptor, the events of ansible-runner), the serializers and the
  declarative views, most access classes, inventory and credential plugins, single sign-on, the parsing of
  recurrence rules (a package's), notifications, websockets, settings, analytics,
  migrations and commands: their lines are declarations, or calls of packages
  that the repository does not contain. Of the modelled components, log messages, metrics, tracing and the locking
  of rows are left out; where the absence of a lock matters, an operation is split at its database accesses and
  the theorem interleaves the parts.
\<close>

end
